(* ===== verification/Kolyan_Prelude.thy ===== *)
theory Kolyan_Prelude
  imports Main "HOL-Library.Word" "HOL-Library.List_Lexorder" "HOL-Library.Char_ord"
begin

text \<open>
  Shared vocabulary of the development: the result type of fallible Rust functions (with an
  explicit panic), the \<open>?\<close> operator, checked machine arithmetic, string tests as Rust
  performs them on UTF-8 bytes, and ordered maps (\<open>BTreeMap\<close>) as sorted association lists.
  A Rust \<open>String\<close> is the list of its UTF-8 bytes, so \<open>len()\<close> is \<open>length\<close>
  and the byte-wise order of \<open>String\<close> is the lexicographic order of \<open>char list\<close>.
\<close>

named_theorems res_simps \<open>inversion of result-typed programs\<close>
named_theorems bt_simps \<open>lookups after updates of ordered maps\<close>

type_synonym u64 = "64 word"
type_synonym u32 = "32 word"

section \<open>Results with panics\<close>

text \<open>
  \<open>Ok\<close> and \<open>Err\<close> are Rust's \<open>Result\<close>; \<open>Panic\<close> is the abrupt end of
  \<open>unwrap()\<close> on \<open>None\<close> or of indexing a map with an absent key.
\<close>

datatype ('e, 'a) res = Ok 'a | Err 'e | Panic

fun bindr :: "('e, 'a) res \<Rightarrow> ('a \<Rightarrow> ('e, 'b) res) \<Rightarrow> ('e, 'b) res" where
  "bindr (Ok x) f = f x"
| "bindr (Err e) f = Err e"
| "bindr Panic f = Panic"

fun andthen :: "('e, unit) res \<Rightarrow> ('e, 'a) res \<Rightarrow> ('e, 'a) res" where
  "andthen (Ok _) k = k"
| "andthen (Err e) k = Err e"
| "andthen Panic k = Panic"

fun ok_or :: "'a option \<Rightarrow> 'e \<Rightarrow> ('e, 'a) res" where
  "ok_or (Some x) e = Ok x"
| "ok_or None e = Err e"

fun unwrap :: "'a option \<Rightarrow> ('e, 'a) res" where
  "unwrap (Some x) = Ok x"
| "unwrap None = Panic"

fun map_err :: "('e \<Rightarrow> 'f) \<Rightarrow> ('e, 'a) res \<Rightarrow> ('f, 'a) res" where
  "map_err f (Ok x) = Ok x"
| "map_err f (Err e) = Err (f e)"
| "map_err f Panic = Panic"

fun is_ok :: "('e, 'a) res \<Rightarrow> bool" where
  "is_ok (Ok _) = True"
| "is_ok _ = False"

lemma is_ok_iff: "is_ok m \<longleftrightarrow> (\<exists>x. m = Ok x)"
  by (cases m) auto

lemma bindr_cong:
  "m = n \<Longrightarrow> (\<And>x. n = Ok x \<Longrightarrow> f x = g x) \<Longrightarrow> bindr m f = bindr n g"
  by (cases n) auto

lemma andthen_cong:
  "m = n \<Longrightarrow> (n = Ok () \<Longrightarrow> k = l) \<Longrightarrow> andthen m k = andthen n l"
  by (cases n) auto

lemma bindr_eq_Ok [res_simps]: "bindr m f = Ok y \<longleftrightarrow> (\<exists>x. m = Ok x \<and> f x = Ok y)"
  by (cases m) auto

lemma bindr_eq_Panic [res_simps]:
  "bindr m f = Panic \<longleftrightarrow> m = Panic \<or> (\<exists>x. m = Ok x \<and> f x = Panic)"
  by (cases m) auto

lemma andthen_eq_Ok [res_simps]: "andthen m k = Ok y \<longleftrightarrow> m = Ok () \<and> k = Ok y"
  by (cases m) auto

lemma andthen_eq_Panic [res_simps]: "andthen m k = Panic \<longleftrightarrow> m = Panic \<or> (m = Ok () \<and> k = Panic)"
  by (cases m) auto

lemma ok_or_eq_Ok [res_simps]: "ok_or m e = Ok x \<longleftrightarrow> m = Some x"
  by (cases m) auto

lemma ok_or_not_Panic [res_simps]: "ok_or m e = Panic \<longleftrightarrow> False"
  by (cases m) auto

lemma unwrap_eq_Ok [res_simps]: "unwrap m = Ok x \<longleftrightarrow> m = Some x"
  by (cases m) auto

lemma unwrap_eq_Panic [res_simps]: "unwrap m = Panic \<longleftrightarrow> m = None"
  by (cases m) auto

lemma map_err_eq_Ok [res_simps]: "map_err f m = Ok x \<longleftrightarrow> m = Ok x"
  by (cases m) auto

lemma map_err_eq_Panic [res_simps]: "map_err f m = Panic \<longleftrightarrow> m = Panic"
  by (cases m) auto

lemma if_err_eq_Ok [res_simps]: "(if c then Err e else k) = Ok y \<longleftrightarrow> \<not> c \<and> k = Ok y"
  by auto

lemma if_err_eq_Panic [res_simps]: "(if c then Err e else k) = Panic \<longleftrightarrow> \<not> c \<and> k = Panic"
  by auto

lemma single_eq_Ok [res_simps]:
  "(case xs of [] \<Rightarrow> Err e | r # rs \<Rightarrow> (case rs of [] \<Rightarrow> f r | _ # _ \<Rightarrow> Err e)) = Ok y \<longleftrightarrow>
   (\<exists>r. xs = [r] \<and> f r = Ok y)"
  by (auto split: list.splits)

section \<open>Checked machine arithmetic\<close>

definition checked_add :: "'a::len word \<Rightarrow> 'a word \<Rightarrow> 'a word option" where
  "checked_add a b = (if unat a + unat b < 2 ^ LENGTH('a) then Some (a + b) else None)"

definition checked_sub :: "'a::len word \<Rightarrow> 'a word \<Rightarrow> 'a word option" where
  "checked_sub a b = (if b \<le> a then Some (a - b) else None)"

text \<open>A collection's \<open>len() as u64\<close>.\<close>

definition len64 :: "'a list \<Rightarrow> u64" where
  "len64 xs = word_of_nat (length xs)"

lemma checked_add_Some:
  "checked_add a b = Some c \<Longrightarrow> unat c = unat a + unat b"
  by (auto simp: checked_add_def unat_word_ariths split: if_splits)

lemma checked_add_zero [simp]: "checked_add 0 b = Some b" "checked_add b 0 = Some b"
  by (auto simp: checked_add_def)

lemma checked_sub_Some:
  "checked_sub a b = Some c \<Longrightarrow> unat b \<le> unat a \<and> unat c = unat a - unat b"
  by (auto simp: checked_sub_def unat_sub word_le_nat_alt split: if_splits)

lemma unat_len64: "length xs < 2 ^ 64 \<Longrightarrow> unat (len64 xs) = length xs"
  by (simp add: len64_def unat_of_nat take_bit_eq_mod)

lemma unat_lt64: "unat (w :: u64) < 2 ^ 64"
  using unsigned_less [of w] by simp

section \<open>Strings as UTF-8 bytes\<close>

text \<open>
  \<open>str::trim\<close> removes the code points with the Unicode property \<open>White_Space\<close>:
  U+0009..U+000D, U+0020, U+0085, U+00A0, U+1680, U+2000..U+200A, U+2028, U+2029, U+202F,
  U+205F and U+3000. A string is blank when its bytes are a sequence of their encodings.
\<close>

definition ws3 :: "nat \<Rightarrow> nat \<Rightarrow> nat \<Rightarrow> bool" where
  "ws3 a b c \<longleftrightarrow>
     a = 225 \<and> b = 154 \<and> c = 128 \<or>
     a = 226 \<and> b = 128 \<and> (128 \<le> c \<and> c \<le> 138 \<or> c = 168 \<or> c = 169 \<or> c = 175) \<or>
     a = 226 \<and> b = 129 \<and> c = 159 \<or>
     a = 227 \<and> b = 128 \<and> c = 128"

fun ws_bytes :: "nat list \<Rightarrow> bool" where
  "ws_bytes [] = True"
| "ws_bytes [a] = (9 \<le> a \<and> a \<le> 13 \<or> a = 32)"
| "ws_bytes [a, b] =
     (if 9 \<le> a \<and> a \<le> 13 \<or> a = 32 then ws_bytes [b]
      else a = 194 \<and> (b = 133 \<or> b = 160))"
| "ws_bytes (a # b # c # bs) =
     (if 9 \<le> a \<and> a \<le> 13 \<or> a = 32 then ws_bytes (b # c # bs)
      else if a = 194 \<and> (b = 133 \<or> b = 160) then ws_bytes (c # bs)
      else ws3 a b c \<and> ws_bytes bs)"

text \<open>\<open>value.trim().is_empty()\<close>\<close>

definition blank :: "string \<Rightarrow> bool" where
  "blank s = ws_bytes (map of_char s)"

lemma blank_empty [simp]: "blank []"
  by (simp add: blank_def)

definition hex_digit :: "char \<Rightarrow> bool" where
  "hex_digit c = (let n = (of_char c :: nat) in
     48 \<le> n \<and> n \<le> 57 \<or> 65 \<le> n \<and> n \<le> 70 \<or> 97 \<le> n \<and> n \<le> 102)"

definition lower_hex_digit :: "char \<Rightarrow> bool" where
  "lower_hex_digit c = (let n = (of_char c :: nat) in
     48 \<le> n \<and> n \<le> 57 \<or> 97 \<le> n \<and> n \<le> 102)"

definition alnum :: "char \<Rightarrow> bool" where
  "alnum c = (let n = (of_char c :: nat) in
     48 \<le> n \<and> n \<le> 57 \<or> 65 \<le> n \<and> n \<le> 90 \<or> 97 \<le> n \<and> n \<le> 122)"

lemma lower_hex_is_hex: "lower_hex_digit c \<Longrightarrow> hex_digit c"
  by (auto simp: lower_hex_digit_def hex_digit_def Let_def)

text \<open>\<open>value.split(sep)\<close>: the pieces between the separators, never an empty list.\<close>

fun split_on :: "char \<Rightarrow> string \<Rightarrow> string list" where
  "split_on c [] = [[]]"
| "split_on c (x # xs) =
     (if x = c then [] # split_on c xs
      else (case split_on c xs of [] \<Rightarrow> [[x]] | p # ps \<Rightarrow> (x # p) # ps))"

lemma split_on_nonempty [simp]: "split_on c s \<noteq> []"
  by (induction s) (auto split: list.splits)

section \<open>Ordered maps\<close>

text \<open>
  A Rust \<open>BTreeMap<K, V>\<close> is the list of its entries in ascending key order: iteration
  order matters (the reducer collects waiting reasons in that order). A \<open>BTreeSet\<close> is the
  sorted list of its elements.
\<close>

type_synonym ('k, 'v) bmap = "('k \<times> 'v) list"

abbreviation bt_get :: "('k, 'v) bmap \<Rightarrow> 'k \<Rightarrow> 'v option" where
  "bt_get \<equiv> map_of"

abbreviation bt_keys :: "('k, 'v) bmap \<Rightarrow> 'k list" where
  "bt_keys m \<equiv> map fst m"

abbreviation bt_values :: "('k, 'v) bmap \<Rightarrow> 'v list" where
  "bt_values m \<equiv> map snd m"

fun bt_insert :: "'k::linorder \<Rightarrow> 'v \<Rightarrow> ('k, 'v) bmap \<Rightarrow> ('k, 'v) bmap" where
  "bt_insert k v [] = [(k, v)]"
| "bt_insert k v ((k', v') # m) =
     (if k < k' then (k, v) # (k', v') # m
      else if k = k' then (k, v) # m
      else (k', v') # bt_insert k v m)"

text \<open>\<open>get_mut(k)\<close> followed by an update of the value found.\<close>

definition bt_modify :: "'k \<Rightarrow> ('v \<Rightarrow> 'v) \<Rightarrow> ('k, 'v) bmap \<Rightarrow> ('k, 'v) bmap" where
  "bt_modify k f m = map (\<lambda>(k', v). (k', if k' = k then f v else v)) m"

definition bt_contains :: "('k, 'v) bmap \<Rightarrow> 'k \<Rightarrow> bool" where
  "bt_contains m k = (bt_get m k \<noteq> None)"

definition bt_wf :: "('k::linorder, 'v) bmap \<Rightarrow> bool" where
  "bt_wf m = sorted_wrt (<) (bt_keys m)"

definition bt_set :: "'k::linorder list \<Rightarrow> 'k list" where
  "bt_set xs = sort (remdups xs)"

lemma bt_contains_iff [simp]: "bt_contains m k \<longleftrightarrow> k \<in> fst ` set m"
  by (auto simp: bt_contains_def map_of_eq_None_iff)

lemma bt_set_set [simp]: "set (bt_set xs) = set xs"
  by (simp add: bt_set_def)

lemma bt_set_distinct [simp]: "distinct (bt_set xs)" "sorted (bt_set xs)"
  by (auto simp: bt_set_def)

lemma bt_wf_Nil [simp]: "bt_wf []"
  by (simp add: bt_wf_def)

lemma bt_wf_distinct: "bt_wf m \<Longrightarrow> distinct (bt_keys m)"
  by (auto simp: bt_wf_def strict_sorted_iff)

lemma bt_keys_insert [simp]: "fst ` set (bt_insert k v m) = insert k (fst ` set m)"
  by (induction k v m rule: bt_insert.induct) auto

lemma bt_wf_insert [intro]: "bt_wf m \<Longrightarrow> bt_wf (bt_insert k v m)"
proof (induction k v m rule: bt_insert.induct)
  case (2 k v k' v' m)
  have "fst x \<noteq> k' \<longrightarrow> k' < fst x" if "x \<in> set (bt_insert k v m)" "\<not> k < k'" for x
  proof -
    from that(1) have "fst x \<in> insert k (fst ` set m)"
      by (metis bt_keys_insert imageI)
    with 2 that(2) show ?thesis by (auto simp: bt_wf_def)
  qed
  moreover have "k' \<notin> fst ` set m" using 2 by (auto simp: bt_wf_def)
  ultimately show ?case using 2
    by (fastforce simp: bt_wf_def dest: order_less_trans)
qed (simp add: bt_wf_def)

lemma bt_get_insert [bt_simps]:
  "bt_wf m \<Longrightarrow> bt_get (bt_insert k v m) = (bt_get m)(k \<mapsto> v)"
proof (induction k v m rule: bt_insert.induct)
  case (2 k v k' v' m)
  then show ?case by (auto simp: bt_wf_def fun_eq_iff)
qed (simp add: fun_eq_iff)

lemma bt_keys_modify [simp]: "bt_keys (bt_modify k f m) = bt_keys m"
  by (auto simp: bt_modify_def)

lemma bt_fst_modify [simp]: "fst ` set (bt_modify k f m) = fst ` set m"
  by (metis bt_keys_modify list.set_map)

lemma bt_wf_modify [simp]: "bt_wf (bt_modify k f m) = bt_wf m"
  by (simp add: bt_wf_def)

lemma bt_length_modify [simp]: "length (bt_modify k f m) = length m"
  by (simp add: bt_modify_def)

lemma bt_get_modify [bt_simps]:
  "bt_get (bt_modify k f m) x = (if x = k then map_option f (bt_get m k) else bt_get m x)"
  by (induction m) (auto simp: bt_modify_def)

lemma bt_get_in: "bt_get m k = Some v \<Longrightarrow> (k, v) \<in> set m"
  by (rule map_of_SomeD)

lemma bt_in_get: "bt_wf m \<Longrightarrow> (k, v) \<in> set m \<Longrightarrow> bt_get m k = Some v"
  by (simp add: bt_wf_distinct)

lemma bt_values_get: "bt_wf m \<Longrightarrow> v \<in> set (bt_values m) \<longleftrightarrow> (\<exists>k. bt_get m k = Some v)"
  by (force intro: bt_in_get dest: bt_get_in)

lemma bt_key_get: "k \<in> fst ` set m \<longleftrightarrow> (\<exists>v. bt_get m k = Some v)"
  by (metis map_of_eq_None_iff not_None_eq)

lemma bt_length_insert_new:
  "k \<notin> fst ` set m \<Longrightarrow> length (bt_insert k v m) = Suc (length m)"
  by (induction k v m rule: bt_insert.induct) auto

section \<open>The interface of ordered maps\<close>

text \<open>
  What the components rely on when they use a \<open>BTreeMap\<close>: lookups after an insertion and
  after an in-place update, and an invariant both keep.
\<close>

locale ordered_map =
  fixes get :: "'m \<Rightarrow> 'k \<Rightarrow> 'v option"
    and insert :: "'k \<Rightarrow> 'v \<Rightarrow> 'm \<Rightarrow> 'm"
    and modify :: "'k \<Rightarrow> ('v \<Rightarrow> 'v) \<Rightarrow> 'm \<Rightarrow> 'm"
    and inv :: "'m \<Rightarrow> bool"
  assumes get_insert: "inv m \<Longrightarrow> get (insert k v m) x = (if x = k then Some v else get m x)"
    and get_modify: "get (modify k f m) x = (if x = k then map_option f (get m k) else get m x)"
    and inv_insert: "inv m \<Longrightarrow> inv (insert k v m)"
    and inv_modify: "inv m \<Longrightarrow> inv (modify k f m)"
begin

lemma insert_fresh_keeps:
  "inv m \<Longrightarrow> get m k = None \<Longrightarrow> get m x = Some w \<Longrightarrow> get (insert k v m) x = Some w"
  by (auto simp: get_insert)

lemma modify_dom: "get (modify k f m) x = None \<longleftrightarrow> get m x = None"
  by (auto simp: get_modify)

lemma modify_other: "x \<noteq> k \<Longrightarrow> get (modify k f m) x = get m x"
  by (simp add: get_modify)

lemma insert_all:
  "inv m \<Longrightarrow> (\<forall>x w. get m x = Some w \<longrightarrow> P x w) \<Longrightarrow> P k v \<Longrightarrow>
   (\<forall>x w. get (insert k v m) x = Some w \<longrightarrow> P x w)"
  by (auto simp: get_insert)

lemma modify_all:
  "(\<forall>x w. get m x = Some w \<longrightarrow> P x w) \<Longrightarrow>
   (\<And>w. get m k = Some w \<Longrightarrow> P k w \<Longrightarrow> P k (f w)) \<Longrightarrow>
   (\<forall>x w. get (modify k f m) x = Some w \<longrightarrow> P x w)"
  by (auto simp: get_modify split: if_splits)

end

interpretation bt: ordered_map bt_get bt_insert bt_modify bt_wf
  by unfold_locales (auto simp: bt_simps)

end
