(* ===== verification/Fact_Journal.thy ===== *)
theory Fact_Journal
  imports Kolyan_Prelude
begin

text \<open>
  The coordination journal of \<open>crates/kolyan-ledger/src/facts.rs\<close>: facts, their
  validation, the planning of an append and the in-memory adapter \<open>MemoryFactJournal\<close>.
  The payload is a \<open>serde_json::Value\<close>, a third-party type: it is the type parameter
  \<open>'p\<close>, and its serialized length \<open>serde_json::to_vec(..).len()\<close> is the argument
  \<open>plen\<close> (\<open>None\<close> where the serializer fails). Error texts are replaced by the case
  they report. The mutex is held for a whole operation, so an operation is one step on the
  state; a poisoned lock (a panic of another holder) is not modelled.
\<close>

section \<open>Facts\<close>

record fact_subject =
  fs_kind :: string
  fs_id :: string

record fact_ref =
  fr_stream_id :: string
  fr_position :: u64
  fr_fact_id :: string

record 'p fact_draft =
  fd_fact_id :: string
  fd_subject :: fact_subject
  fd_kind :: string
  fd_schema_version :: u32
  fd_critical :: bool
  fd_causes :: "fact_ref list"
  fd_payload :: 'p

record 'p fact_record =
  rc_stream_id :: string
  rc_position :: u64
  rc_draft :: "'p fact_draft"

abbreviation rc_fact_id :: "'p fact_record \<Rightarrow> string" where
  "rc_fact_id r \<equiv> fd_fact_id (rc_draft r)"

abbreviation rc_causes :: "'p fact_record \<Rightarrow> fact_ref list" where
  "rc_causes r \<equiv> fd_causes (rc_draft r)"

datatype fact_invalid =
    ReadLimit | FactIdentity | FactKind | BatchBounds | DraftBounds | CausePosition

datatype fact_error =
    FInvalid fact_invalid
  | FConflict string
  | FPartialRetry
  | FStalePosition u64 u64
  | FMissingCause string
  | FStorage

section \<open>Validation\<close>

definition MAX_FACT_PAYLOAD_BYTES :: nat where "MAX_FACT_PAYLOAD_BYTES = 128 * 1024"
definition MAX_FACT_BATCH :: nat where "MAX_FACT_BATCH = 64"
definition MAX_FACT_CAUSES :: nat where "MAX_FACT_CAUSES = 32"
definition MAX_FACT_ID_BYTES :: nat where "MAX_FACT_ID_BYTES = 256"

definition I64_MAX :: u64 where "I64_MAX = 9223372036854775807"

definition fact_identity :: "string \<Rightarrow> (fact_error, unit) res" where
  "fact_identity v =
     (if blank v \<or> length v > MAX_FACT_ID_BYTES then Err (FInvalid FactIdentity) else Ok ())"

definition fact_kind :: "string \<Rightarrow> (fact_error, unit) res" where
  "fact_kind v =
     andthen (fact_identity v)
       (if CHR ''.'' \<notin> set v
           \<or> (\<exists>part \<in> set (split_on CHR ''.'' v).
                part = []
                \<or> \<not> (\<forall>b \<in> set part. alnum b \<or> b = CHR ''_'' \<or> b = CHR ''-''))
        then Err (FInvalid FactKind) else Ok ())"

definition validate_read :: "string \<Rightarrow> nat \<Rightarrow> (fact_error, unit) res" where
  "validate_read stream limit =
     andthen (fact_identity stream)
       (if \<not> (1 \<le> limit \<and> limit \<le> 1024) then Err (FInvalid ReadLimit) else Ok ())"

fun validate_fact_causes :: "fact_ref list \<Rightarrow> (fact_error, unit) res" where
  "validate_fact_causes [] = Ok ()"
| "validate_fact_causes (c # cs) =
     andthen (fact_identity (fr_stream_id c))
    (andthen (fact_identity (fr_fact_id c))
    (if fr_position c = 0 \<or> fr_position c > I64_MAX then Err (FInvalid CausePosition)
     else validate_fact_causes cs))"

fun validate_drafts ::
  "('p \<Rightarrow> nat option) \<Rightarrow> string set \<Rightarrow> 'p fact_draft list \<Rightarrow> (fact_error, unit) res" where
  "validate_drafts plen seen [] = Ok ()"
| "validate_drafts plen seen (d # ds) =
     andthen (fact_identity (fd_fact_id d))
    (andthen (fact_identity (fs_id (fd_subject d)))
    (andthen (fact_kind (fs_kind (fd_subject d)))
    (andthen (fact_kind (fd_kind d))
    (if fd_schema_version d = 0 \<or> length (fd_causes d) > MAX_FACT_CAUSES
     then Err (FInvalid DraftBounds)
     else bindr (ok_or (plen (fd_payload d)) FStorage) (\<lambda>n.
       if n > MAX_FACT_PAYLOAD_BYTES then Err (FInvalid DraftBounds)
       else if fd_fact_id d \<in> seen then Err (FConflict (fd_fact_id d))
       else andthen (validate_fact_causes (fd_causes d))
              (validate_drafts plen (insert (fd_fact_id d) seen) ds))))))"

definition validate_batch ::
  "('p \<Rightarrow> nat option) \<Rightarrow> string \<Rightarrow> u64 \<Rightarrow> 'p fact_draft list \<Rightarrow> (fact_error, unit) res" where
  "validate_batch plen stream expected batch =
     andthen (fact_identity stream)
       (if batch = [] \<or> length batch > MAX_FACT_BATCH
           \<or> (case checked_add expected (len64 batch) of
                None \<Rightarrow> True | Some end_pos \<Rightarrow> end_pos > I64_MAX)
        then Err (FInvalid BatchBounds)
        else validate_drafts plen {} batch)"

section \<open>Planning an append\<close>

fun number_from :: "string \<Rightarrow> u64 \<Rightarrow> 'p fact_draft list \<Rightarrow> 'p fact_record list" where
  "number_from stream p [] = []"
| "number_from stream p (d # ds) =
     \<lparr>rc_stream_id = stream, rc_position = p + 1, rc_draft = d\<rparr> # number_from stream (p + 1) ds"

fun lookup_all ::
  "(string \<Rightarrow> (fact_error, 'p fact_record option) res) \<Rightarrow> 'p fact_record list
   \<Rightarrow> (fact_error, 'p fact_record option list) res" where
  "lookup_all lookup [] = Ok []"
| "lookup_all lookup (r # rs) =
     bindr (lookup (rc_fact_id r)) (\<lambda>x.
     bindr (lookup_all lookup rs) (\<lambda>xs. Ok (x # xs)))"

definition ref_matches :: "fact_ref \<Rightarrow> 'p fact_record \<Rightarrow> bool" where
  "ref_matches c r \<longleftrightarrow>
     rc_stream_id r = fr_stream_id c \<and> rc_position r = fr_position c \<and> rc_fact_id r = fr_fact_id c"

fun check_causes ::
  "(string \<Rightarrow> (fact_error, 'p fact_record option) res) \<Rightarrow> 'p fact_record list \<Rightarrow> fact_ref list
   \<Rightarrow> (fact_error, unit) res" where
  "check_causes lookup earlier [] = Ok ()"
| "check_causes lookup earlier (c # cs) =
     bindr (case find (\<lambda>r. rc_fact_id r = fr_fact_id c) earlier of
              Some r \<Rightarrow> Ok (Some r)
            | None \<Rightarrow> lookup (fr_fact_id c)) (\<lambda>resolved.
       if (case resolved of None \<Rightarrow> False | Some r \<Rightarrow> ref_matches c r)
       then check_causes lookup earlier cs
       else Err (FMissingCause (fr_fact_id c)))"

fun check_all_causes ::
  "(string \<Rightarrow> (fact_error, 'p fact_record option) res) \<Rightarrow> 'p fact_record list
   \<Rightarrow> 'p fact_record list \<Rightarrow> (fact_error, unit) res" where
  "check_all_causes lookup earlier [] = Ok ()"
| "check_all_causes lookup earlier (r # rs) =
     andthen (check_causes lookup earlier (rc_causes r))
       (check_all_causes lookup (earlier @ [r]) rs)"

definition plan_append ::
  "string \<Rightarrow> u64 \<Rightarrow> u64 \<Rightarrow> 'p fact_draft list
   \<Rightarrow> (string \<Rightarrow> (fact_error, 'p fact_record option) res)
   \<Rightarrow> (fact_error, 'p fact_record list) res" where
  "plan_append stream expected head batch lookup =
     (let records = number_from stream expected batch in
      bindr (lookup_all lookup records) (\<lambda>existing.
        if \<exists>x \<in> set existing. x \<noteq> None then Err FPartialRetry
        else if expected \<noteq> head then Err (FStalePosition expected head)
        else andthen (check_all_causes lookup [] records) (Ok records)))"

definition retry_batch ::
  "'p fact_record list \<Rightarrow> 'p fact_draft list \<Rightarrow> (fact_error, 'p fact_record list) res" where
  "retry_batch original batch =
     (if length original = length batch \<and> (\<forall>(r, d) \<in> set (zip original batch). rc_draft r = d)
      then Ok original else Err FPartialRetry)"

section \<open>The in-memory journal\<close>

record 'p memory_state =
  ms_streams :: "string \<rightharpoonup> 'p fact_record list"
  ms_identities :: "string \<rightharpoonup> 'p fact_record"
  ms_batches :: "string \<times> u64 \<rightharpoonup> 'p fact_record list"

definition empty_journal :: "'p memory_state" where
  "empty_journal = \<lparr>ms_streams = Map.empty, ms_identities = Map.empty, ms_batches = Map.empty\<rparr>"

definition stream_rows :: "'p memory_state \<Rightarrow> string \<Rightarrow> 'p fact_record list" where
  "stream_rows st s = (case ms_streams st s of None \<Rightarrow> [] | Some rows \<Rightarrow> rows)"

definition mem_read ::
  "'p memory_state \<Rightarrow> string \<Rightarrow> u64 \<Rightarrow> nat \<Rightarrow> (fact_error, 'p fact_record list) res" where
  "mem_read st stream after limit =
     andthen (validate_read stream limit)
       (Ok (take limit (filter (\<lambda>r. rc_position r > after) (stream_rows st stream))))"

definition head_position :: "'p fact_record list \<Rightarrow> u64" where
  "head_position rows = (if rows = [] then 0 else rc_position (last rows))"

fun index_records :: "'p fact_record list \<Rightarrow> (string \<rightharpoonup> 'p fact_record) \<Rightarrow> (string \<rightharpoonup> 'p fact_record)" where
  "index_records [] m = m"
| "index_records (r # rs) m = index_records rs (m(rc_fact_id r \<mapsto> r))"

text \<open>The three insertions of an accepted append.\<close>

definition mem_commit ::
  "'p memory_state \<Rightarrow> string \<Rightarrow> u64 \<Rightarrow> 'p fact_record list \<Rightarrow> 'p memory_state" where
  "mem_commit st stream expected records =
     st\<lparr>ms_identities := index_records records (ms_identities st),
        ms_streams := (ms_streams st)(stream \<mapsto> stream_rows st stream @ records),
        ms_batches := (ms_batches st)((stream, expected) \<mapsto> records)\<rparr>"

definition mem_append ::
  "('p \<Rightarrow> nat option) \<Rightarrow> 'p memory_state \<Rightarrow> string \<Rightarrow> u64 \<Rightarrow> 'p fact_draft list
   \<Rightarrow> (fact_error, 'p fact_record list) res \<times> 'p memory_state" where
  "mem_append plen st stream expected batch =
     (case validate_batch plen stream expected batch of
        Err e \<Rightarrow> (Err e, st)
      | Panic \<Rightarrow> (Panic, st)
      | Ok _ \<Rightarrow>
        (case ms_batches st (stream, expected) of
           Some original \<Rightarrow> (retry_batch original batch, st)
         | None \<Rightarrow>
           (case plan_append stream expected (head_position (stream_rows st stream)) batch
                   (\<lambda>id. Ok (ms_identities st id)) of
              Err e \<Rightarrow> (Err e, st)
            | Panic \<Rightarrow> (Panic, st)
            | Ok records \<Rightarrow> (Ok records, mem_commit st stream expected records))))"

text \<open>
  The trait \<open>FactJournal\<close> as its clients hold it: the two operations, the state of the
  adapter passed explicitly. A read leaves the state as it is.
\<close>

record ('j, 'p) journal_ops =
  jo_read :: "'j \<Rightarrow> string \<Rightarrow> u64 \<Rightarrow> nat \<Rightarrow> (fact_error, 'p fact_record list) res"
  jo_append :: "'j \<Rightarrow> string \<Rightarrow> u64 \<Rightarrow> 'p fact_draft list
                 \<Rightarrow> (fact_error, 'p fact_record list) res \<times> 'j"

definition mem_ops :: "('p \<Rightarrow> nat option) \<Rightarrow> ('p memory_state, 'p) journal_ops" where
  "mem_ops plen = \<lparr>jo_read = mem_read, jo_append = mem_append plen\<rparr>"

section \<open>Lemmas on validation and planning\<close>

lemma validate_drafts_ids:
  "validate_drafts plen seen ds = Ok () \<Longrightarrow>
   distinct (map fd_fact_id ds) \<and> set (map fd_fact_id ds) \<inter> seen = {}"
  by (induction ds arbitrary: seen) (auto simp: res_simps)

lemma validate_drafts_causes:
  "validate_drafts plen seen ds = Ok () \<Longrightarrow> d \<in> set ds \<Longrightarrow> length (fd_causes d) \<le> MAX_FACT_CAUSES"
  by (induction ds arbitrary: seen) (auto simp: res_simps)

lemma validate_batch_Ok:
  assumes "validate_batch plen s e b = Ok ()"
  shows "b \<noteq> []" and "length b \<le> MAX_FACT_BATCH" and "unat e + length b \<le> unat I64_MAX"
    and "distinct (map fd_fact_id b)" and "fact_identity s = Ok ()"
proof -
  from assms show b: "b \<noteq> []" "length b \<le> MAX_FACT_BATCH" "fact_identity s = Ok ()"
    by (auto simp: validate_batch_def res_simps)
  from assms show "distinct (map fd_fact_id b)"
    by (auto simp: validate_batch_def res_simps dest: validate_drafts_ids)
  from b(2) have len: "unat (len64 b) = length b"
    by (intro unat_len64) (simp add: MAX_FACT_BATCH_def)
  from assms obtain p where p: "checked_add e (len64 b) = Some p" "p \<le> I64_MAX"
    by (auto simp: validate_batch_def res_simps not_less split: option.splits)
  from checked_add_Some [OF p(1)] p(2) len show "unat e + length b \<le> unat I64_MAX"
    by (simp add: word_le_nat_alt)
qed

lemma number_from_drafts [simp]: "map rc_draft (number_from s p ds) = ds"
  by (induction ds arbitrary: p) auto

lemma number_from_length [simp]: "length (number_from s p ds) = length ds"
  by (induction ds arbitrary: p) auto

lemma number_from_stream [simp]: "r \<in> set (number_from s p ds) \<Longrightarrow> rc_stream_id r = s"
  by (induction ds arbitrary: p) auto

lemma number_from_ids [simp]: "map rc_fact_id (number_from s p ds) = map fd_fact_id ds"
  by (induction ds arbitrary: p) auto

lemma unat_plus_one: "unat (p :: u64) < 2 ^ 64 - 1 \<Longrightarrow> unat (p + 1) = Suc (unat p)"
  by (simp add: unat_word_ariths)

lemma number_from_position:
  "unat p + length ds < 2 ^ 64 \<Longrightarrow> i < length ds \<Longrightarrow>
   unat (rc_position (number_from s p ds ! i)) = unat p + Suc i"
proof (induction ds arbitrary: p i)
  case (Cons d ds)
  then have *: "unat (p + 1) = Suc (unat p)" by (intro unat_plus_one) simp
  show ?case
  proof (cases i)
    case 0
    with * show ?thesis by simp
  next
    case (Suc n)
    with Cons * show ?thesis by simp
  qed
qed simp

lemma lookup_all_pure:
  "lookup_all (\<lambda>id. Ok (m id)) rs = Ok (map (\<lambda>r. m (rc_fact_id r)) rs)"
  by (induction rs) auto

lemma index_records_get:
  "distinct (map rc_fact_id rs) \<Longrightarrow>
   index_records rs m x = (case find (\<lambda>r. rc_fact_id r = x) rs of Some r \<Rightarrow> Some r | None \<Rightarrow> m x)"
proof (induction rs arbitrary: m)
  case (Cons r rs)
  have "find (\<lambda>q. rc_fact_id q = rc_fact_id r) rs = None"
    using Cons.prems by (auto simp: find_None_iff image_iff)
  with Cons show ?case by (auto split: option.splits)
qed simp

lemma index_records_Some:
  assumes "distinct (map rc_fact_id rs)" and "\<And>r. r \<in> set rs \<Longrightarrow> m (rc_fact_id r) = None"
  shows "index_records rs m x = Some r \<longleftrightarrow> (r \<in> set rs \<and> rc_fact_id r = x) \<or> m x = Some r"
proof (cases "find (\<lambda>r. rc_fact_id r = x) rs")
  case None
  then show ?thesis using assms(1) by (simp add: index_records_get) (auto simp: find_None_iff)
next
  case (Some q)
  then have q: "q \<in> set rs" "rc_fact_id q = x" by (auto simp: find_Some_iff)
  have uniq: "r = q" if "r \<in> set rs" "rc_fact_id r = x" for r
    using that q assms(1) by (metis distinct_map inj_onD)
  have "index_records rs m x = Some q"
    using assms(1) Some by (simp add: index_records_get)
  moreover have "m x = None" using assms(2) [OF q(1)] q(2) by simp
  ultimately show ?thesis using q uniq by (metis option.distinct(1) option.inject)
qed

section \<open>Well-formed journals\<close>

definition rows_wf :: "string \<Rightarrow> 'p fact_record list \<Rightarrow> bool" where
  "rows_wf s rows \<longleftrightarrow> length rows \<le> unat I64_MAX \<and>
     (\<forall>i < length rows. rc_stream_id (rows ! i) = s \<and> unat (rc_position (rows ! i)) = Suc i)"

text \<open>The causal edges of a list of records, as a relation on fact identities.\<close>

definition cause_edges :: "'p fact_record set \<Rightarrow> (string \<times> string) set" where
  "cause_edges R = {(fr_fact_id c, rc_fact_id r) |c r. r \<in> R \<and> c \<in> set (rc_causes r)}"

definition all_rows :: "'p memory_state \<Rightarrow> 'p fact_record set" where
  "all_rows st = (\<Union>s. set (stream_rows st s))"

definition journal_inv :: "'p memory_state \<Rightarrow> bool" where
  "journal_inv st \<longleftrightarrow>
     (\<forall>s. rows_wf s (stream_rows st s)) \<and>
     (\<forall>id r. ms_identities st id = Some r \<longleftrightarrow> rc_fact_id r = id \<and> r \<in> all_rows st) \<and>
     (\<forall>s e rs. ms_batches st (s, e) = Some rs \<longrightarrow>
        rs \<noteq> [] \<and> rs = take (length rs) (drop (unat e) (stream_rows st s))) \<and>
     (\<forall>r \<in> all_rows st. \<forall>c \<in> set (rc_causes r). \<exists>r' \<in> all_rows st. ref_matches c r') \<and>
     acyclic (cause_edges (all_rows st))"

lemma stream_rows_empty [simp]: "stream_rows empty_journal s = []"
  by (simp add: stream_rows_def empty_journal_def)

lemma journal_inv_empty: "journal_inv empty_journal"
  by (auto simp: journal_inv_def rows_wf_def all_rows_def cause_edges_def acyclic_def)
     (auto simp: empty_journal_def)

lemma rows_wf_append:
  assumes "rows_wf s rows" and "unat e = length rows" and "unat e + length ds \<le> unat I64_MAX"
  shows "rows_wf s (rows @ number_from s e ds)"
proof -
  have small: "unat e + length ds < 2 ^ 64"
    using assms(3) unat_lt64 [of I64_MAX] by linarith
  show ?thesis
    using assms number_from_position [OF small] small
    by (auto simp: rows_wf_def nth_append intro!: number_from_stream nth_mem)
qed

lemma head_position_rows: "rows_wf s rows \<Longrightarrow> unat (head_position rows) = length rows"
  by (auto simp: rows_wf_def head_position_def last_conv_nth)

lemma acyclic_add_sink:
  assumes "acyclic R" and "n \<notin> Domain R" and "n \<notin> C"
  shows "acyclic (R \<union> (\<lambda>c. (c, n)) ` C)"
proof -
  let ?S = "R \<union> (\<lambda>c. (c, n)) ` C"
  have sink: "n \<notin> Domain ?S" using assms(2,3) by auto
  have step: "(a, b) \<in> R\<^sup>+ \<or> b = n" if "(a, b) \<in> ?S\<^sup>+" for a b
    using that
  proof (induction rule: trancl_induct)
    case (base y)
    then show ?case by auto
  next
    case (step y z)
    then show ?case using sink by (auto intro: trancl_into_trancl)
  qed
  show ?thesis
  proof (rule acyclicI, rule allI, rule notI)
    fix x
    assume x: "(x, x) \<in> ?S\<^sup>+"
    with step [OF x] assms(1) have "x = n" by (auto simp: acyclic_def)
    with x sink show False by (meson Domain.DomainI tranclD)
  qed
qed

lemma cause_edges_Un [simp]: "cause_edges (A \<union> B) = cause_edges A \<union> cause_edges B"
  by (auto simp: cause_edges_def)

lemma cause_edges_single: "cause_edges {r} = (\<lambda>c. (c, rc_fact_id r)) ` fr_fact_id ` set (rc_causes r)"
  by (auto simp: cause_edges_def)

lemma check_causes_resolved:
  "check_causes (\<lambda>id. Ok (m id)) earlier cs = Ok () \<Longrightarrow> c \<in> set cs \<Longrightarrow>
   \<exists>r. ref_matches c r \<and> (r \<in> set earlier \<or> m (fr_fact_id c) = Some r)"
  by (induction cs) (auto simp: res_simps find_Some_iff split: option.splits if_splits)

lemma check_all_causes_graph:
  assumes "check_all_causes (\<lambda>id. Ok (m id)) earlier rs = Ok ()"
    and "\<And>id r. m id = Some r \<longleftrightarrow> rc_fact_id r = id \<and> r \<in> E"
    and "set earlier \<subseteq> E'" and "E \<subseteq> E'"
    and "distinct (map rc_fact_id rs)" and "\<forall>r \<in> set rs. rc_fact_id r \<notin> rc_fact_id ` E'"
    and "acyclic (cause_edges E')" and "\<forall>r \<in> E'. \<forall>c \<in> set (rc_causes r). \<exists>r' \<in> E'. ref_matches c r'"
  shows "acyclic (cause_edges (E' \<union> set rs)) \<and>
    (\<forall>r \<in> E' \<union> set rs. \<forall>c \<in> set (rc_causes r). \<exists>r' \<in> E' \<union> set rs. ref_matches c r')"
  using assms(1,3-)
proof (induction rs arbitrary: earlier E')
  case (Cons r rs)
  have res: "\<exists>r' \<in> E'. ref_matches c r'" if "c \<in> set (rc_causes r)" for c
    using check_causes_resolved [of m earlier "rc_causes r" c] that Cons.prems(1,2,3) assms(2)
    by (auto simp: res_simps)
  have dom: "Domain (cause_edges E') \<subseteq> rc_fact_id ` E'"
    using Cons.prems(7) by (auto simp: cause_edges_def ref_matches_def image_iff) metis
  have fresh: "rc_fact_id r \<notin> rc_fact_id ` E'" using Cons.prems(5) by simp
  have "fr_fact_id ` set (rc_causes r) \<subseteq> rc_fact_id ` E'"
    using res by (auto simp: ref_matches_def image_iff) metis
  with fresh have "rc_fact_id r \<notin> fr_fact_id ` set (rc_causes r)" by blast
  moreover from fresh dom have "rc_fact_id r \<notin> Domain (cause_edges E')" by blast
  ultimately have "acyclic (cause_edges (E' \<union> {r}))"
    unfolding cause_edges_Un cause_edges_single
    using Cons.prems(6) by (intro acyclic_add_sink)
  moreover have "\<forall>q \<in> E' \<union> {r}. \<forall>c \<in> set (rc_causes q). \<exists>r' \<in> E' \<union> {r}. ref_matches c r'"
    using Cons.prems(7) res by blast
  moreover have "\<forall>q \<in> set rs. rc_fact_id q \<notin> rc_fact_id ` (E' \<union> {r})"
  proof
    fix q assume q: "q \<in> set rs"
    have "rc_fact_id r \<notin> rc_fact_id ` set rs" using Cons.prems(4) by simp
    with q have "rc_fact_id q \<noteq> rc_fact_id r" by (metis imageI)
    with q Cons.prems(5) show "rc_fact_id q \<notin> rc_fact_id ` (E' \<union> {r})" by simp
  qed
  moreover have "check_all_causes (\<lambda>id. Ok (m id)) (earlier @ [r]) rs = Ok ()"
    using Cons.prems(1) by (simp add: res_simps)
  moreover have "set (earlier @ [r]) \<subseteq> E' \<union> {r}" "E \<subseteq> E' \<union> {r}" "distinct (map rc_fact_id rs)"
    using Cons.prems(2,3,4) by auto
  moreover have "E' \<union> {r} \<union> set rs = E' \<union> set (r # rs)" by auto
  ultimately show ?case
    using Cons.IH [of "earlier @ [r]" "E' \<union> {r}"] by metis
qed auto

lemma stream_rows_commit:
  "stream_rows (mem_commit st s e rs) t = (if t = s then stream_rows st s @ rs else stream_rows st t)"
  by (simp add: mem_commit_def stream_rows_def)

lemma all_rows_commit: "all_rows (mem_commit st s e rs) = all_rows st \<union> set rs"
  by (auto simp: all_rows_def stream_rows_commit split: if_splits)

lemma retry_batch_Ok: "retry_batch orig b = Ok rs \<longleftrightarrow> rs = orig \<and> map rc_draft orig = b"
proof -
  have "list_all2 (\<lambda>r d. rc_draft r = d) orig b \<longleftrightarrow> map rc_draft orig = b"
    using list.rel_map(1) [of "(=)" rc_draft orig b] by (simp add: list.rel_eq)
  then show ?thesis by (auto simp: retry_batch_def list_all2_iff)
qed

lemma plan_append_Ok:
  "plan_append s e h b (\<lambda>id. Ok (m id)) = Ok rs \<longleftrightarrow>
     rs = number_from s e b \<and> e = h \<and> (\<forall>q \<in> set rs. m (rc_fact_id q) = None) \<and>
     check_all_causes (\<lambda>id. Ok (m id)) [] rs = Ok ()"
  by (auto simp: plan_append_def lookup_all_pure Let_def res_simps)

text \<open>The two ways an append succeeds: an identical retry, or a commit of the planned records.\<close>

lemma mem_append_cases:
  assumes "mem_append plen st s e b = (r, st')"
  obtains (retry) orig where "st' = st" "r = Ok orig" "ms_batches st (s, e) = Some orig"
      "map rc_draft orig = b" "validate_batch plen s e b = Ok ()"
  | (commit) "r = Ok (number_from s e b)" "st' = mem_commit st s e (number_from s e b)"
      "ms_batches st (s, e) = None" "validate_batch plen s e b = Ok ()"
      "e = head_position (stream_rows st s)"
      "\<forall>q \<in> set (number_from s e b). ms_identities st (rc_fact_id q) = None"
      "check_all_causes (\<lambda>id. Ok (ms_identities st id)) [] (number_from s e b) = Ok ()"
  | (fail) "st' = st" "\<not> is_ok r"
proof (cases "validate_batch plen s e b")
  case (Ok u)
  then have v: "validate_batch plen s e b = Ok ()" by simp
  show ?thesis
  proof (cases "ms_batches st (s, e)")
    case (Some orig)
    have "retry_batch orig b = Ok orig \<or> \<not> is_ok (retry_batch orig b)"
      by (simp add: retry_batch_def)
    then show ?thesis
      using assms v Some by (auto simp: mem_append_def retry_batch_Ok intro: retry fail)
  next
    case None
    show ?thesis
    proof (cases "plan_append s e (head_position (stream_rows st s)) b (\<lambda>id. Ok (ms_identities st id))")
      case (Ok rs)
      then have "r = Ok rs" "st' = mem_commit st s e rs"
        using assms v None by (auto simp: mem_append_def)
      moreover note Ok [unfolded plan_append_Ok]
      ultimately show ?thesis using v None by (intro commit) auto
    next
      case (Err x)
      then have "r = Err x" "st' = st" using assms v None by (auto simp: mem_append_def)
      then show ?thesis by (intro fail) auto
    next
      case Panic
      then have "r = Panic" "st' = st" using assms v None by (auto simp: mem_append_def)
      then show ?thesis by (intro fail) auto
    qed
  qed
next
  case (Err x)
  then have "r = Err x" "st' = st" using assms by (auto simp: mem_append_def)
  then show ?thesis by (intro fail) auto
next
  case Panic
  then have "r = Panic" "st' = st" using assms by (auto simp: mem_append_def)
  then show ?thesis by (intro fail) auto
qed

lemma journal_inv_rows: "journal_inv st \<Longrightarrow> rows_wf s (stream_rows st s)"
  by (simp add: journal_inv_def)

lemma mem_commit_inv:
  assumes inv: "journal_inv st" and v: "validate_batch plen s e b = Ok ()"
    and head: "e = head_position (stream_rows st s)"
    and new: "\<forall>q \<in> set (number_from s e b). ms_identities st (rc_fact_id q) = None"
    and causes: "check_all_causes (\<lambda>id. Ok (ms_identities st id)) [] (number_from s e b) = Ok ()"
  shows "journal_inv (mem_commit st s e (number_from s e b))"
proof -
  let ?rs = "number_from s e b" and ?st = "mem_commit st s e (number_from s e b)"
  note vb = validate_batch_Ok [OF v]
  have e: "unat e = length (stream_rows st s)"
    using head_position_rows [OF journal_inv_rows [OF inv]] head by simp
  have dist: "distinct (map rc_fact_id ?rs)" using vb(4) by simp
  have idx: "ms_identities st id = Some r \<longleftrightarrow> rc_fact_id r = id \<and> r \<in> all_rows st" for id r
    using inv by (simp add: journal_inv_def)
  have rows: "rows_wf t (stream_rows ?st t)" for t
    using rows_wf_append [OF journal_inv_rows [OF inv] e vb(3)] journal_inv_rows [OF inv]
    by (simp add: stream_rows_commit)
  have ids: "ms_identities ?st id = Some r \<longleftrightarrow> rc_fact_id r = id \<and> r \<in> all_rows ?st" for id r
  proof -
    have "ms_identities ?st id = index_records ?rs (ms_identities st) id"
      by (simp add: mem_commit_def)
    then show ?thesis
      using index_records_Some [OF dist, of "ms_identities st" id r] new idx
      by (auto simp: all_rows_commit)
  qed
  have batches: "rs \<noteq> [] \<and> rs = take (length rs) (drop (unat f) (stream_rows ?st t))"
    if "ms_batches ?st (t, f) = Some rs" for t f rs
  proof (cases "(t, f) = (s, e)")
    case True
    moreover from this that have "rs = ?rs" by (simp add: mem_commit_def)
    moreover have "?rs \<noteq> []" using vb(1) by (metis number_from_length length_0_conv)
    ultimately show ?thesis using e by (simp add: stream_rows_commit)
  next
    case False
    with that have "ms_batches st (t, f) = Some rs" by (auto simp: mem_commit_def split: if_splits)
    with inv have old: "rs \<noteq> []" "rs = take (length rs) (drop (unat f) (stream_rows st t))"
      by (auto simp: journal_inv_def)
    then have "length rs \<le> length (drop (unat f) (stream_rows st t))"
      by (metis length_take min.cobounded1 min.absorb_iff2 min.commute)
    with old show ?thesis by (auto simp: stream_rows_commit)
  qed
  have "set ?rs \<subseteq> {r. rc_fact_id r \<notin> rc_fact_id ` all_rows st}"
    using new idx by (auto simp: image_iff) (metis option.distinct(1))
  then have "acyclic (cause_edges (all_rows ?st)) \<and>
      (\<forall>r \<in> all_rows ?st. \<forall>c \<in> set (rc_causes r). \<exists>r' \<in> all_rows ?st. ref_matches c r')"
    unfolding all_rows_commit using inv idx dist causes
    by (intro check_all_causes_graph [where E = "all_rows st"]) (auto simp: journal_inv_def)
  with rows ids batches show ?thesis unfolding journal_inv_def by blast
qed

lemma mem_append_inv:
  assumes "journal_inv st" and "mem_append plen st s e b = (r, st')"
  shows "journal_inv st'"
  using assms(2)
proof (cases rule: mem_append_cases)
  case commit
  with mem_commit_inv [OF assms(1) commit(4-7)] show ?thesis by simp
qed (use assms in auto)

section \<open>The journal interface\<close>

text \<open>
  What the trait \<open>FactJournal\<close> promises to its callers: a stream is a list of records with
  positions 1, 2, ..; a read returns the records after a position in ascending order (an adapter
  may return a shorter page, not an empty one); an append either extends exactly one stream at
  its head or returns the records of an earlier identical batch, and an error changes nothing.
\<close>

locale fact_journal =
  fixes jread :: "'j \<Rightarrow> string \<Rightarrow> u64 \<Rightarrow> nat \<Rightarrow> (fact_error, 'p fact_record list) res"
    and jappend :: "'j \<Rightarrow> string \<Rightarrow> u64 \<Rightarrow> 'p fact_draft list
                     \<Rightarrow> (fact_error, 'p fact_record list) res \<times> 'j"
    and rows :: "'j \<Rightarrow> string \<Rightarrow> 'p fact_record list"
    and jinv :: "'j \<Rightarrow> bool"
  assumes rows_ok: "jinv j \<Longrightarrow> rows_wf s (rows j s)"
    and read_ok: "jinv j \<Longrightarrow> jread j s a n = Ok page \<Longrightarrow>
        \<exists>m \<le> n. page = take m (filter (\<lambda>r. rc_position r > a) (rows j s)) \<and>
          (0 < n \<and> filter (\<lambda>r. rc_position r > a) (rows j s) \<noteq> [] \<longrightarrow> 0 < m)"
    and append_inv: "jinv j \<Longrightarrow> jappend j s e b = (r, j') \<Longrightarrow> jinv j'"
    and append_ok: "jinv j \<Longrightarrow> jappend j s e b = (Ok rs, j') \<Longrightarrow>
        rs \<noteq> [] \<and> map rc_draft rs = b \<and>
        (rs = number_from s e b \<and> unat e = length (rows j s) \<and> rows j' s = rows j s @ rs \<or>
         j' = j \<and> rs = take (length rs) (drop (unat e) (rows j s)))"
    and append_other: "jinv j \<Longrightarrow> jappend j s e b = (r, j') \<Longrightarrow> t \<noteq> s \<Longrightarrow> rows j' t = rows j t"
    and append_err: "jinv j \<Longrightarrow> jappend j s e b = (r, j') \<Longrightarrow> \<not> is_ok r \<Longrightarrow> j' = j"
begin

text \<open>Streams are append-only: whatever the outcome, old records stay where they are.\<close>

lemma append_prefix:
  assumes "jinv j" and "jappend j s e b = (r, j')"
  shows "\<exists>new. rows j' t = rows j t @ new"
proof (cases "t = s")
  case False
  with append_other [OF assms] show ?thesis by simp
next
  case True
  show ?thesis
  proof (cases r)
    case (Ok rs)
    with append_ok [of j s e b rs j'] assms True show ?thesis by auto
  qed (use append_err [OF assms] in auto)
qed

lemma filter_after:
  assumes "rows_wf s rs" and "unat a \<le> length rs"
  shows "filter (\<lambda>r. rc_position r > a) rs = drop (unat a) rs"
proof -
  have lt: "rc_position (rs ! i) > a \<longleftrightarrow> unat a \<le> i" if "i < length rs" for i
    using that assms(1) by (simp add: rows_wf_def word_less_nat_alt less_Suc_eq_le)
  have "\<not> rc_position x > a" if x: "x \<in> set (take (unat a) rs)" for x
  proof -
    from x obtain i where "i < length (take (unat a) rs)" "take (unat a) rs ! i = x"
      unfolding in_set_conv_nth by blast
    with lt [of i] show ?thesis by simp
  qed
  then have "filter (\<lambda>r. rc_position r > a) (take (unat a) rs) = []"
    by (simp add: filter_empty_conv)
  moreover have "rc_position x > a" if x: "x \<in> set (drop (unat a) rs)" for x
  proof -
    from x obtain i where i: "i < length (drop (unat a) rs)" "drop (unat a) rs ! i = x"
      unfolding in_set_conv_nth by blast
    with assms(2) lt [of "unat a + i"] show ?thesis by simp
  qed
  then have "filter (\<lambda>r. rc_position r > a) (drop (unat a) rs) = drop (unat a) rs"
    by (simp add: filter_id_conv)
  ultimately show ?thesis
    by (metis append_Nil append_take_drop_id filter_append)
qed

end

text \<open>
  An adapter whose reads succeed exactly on valid arguments (no storage failure) and return pages
  that depend only on the content of the stream.
\<close>

locale reliable_journal = fact_journal jread jappend rows jinv
  for jread :: "'j \<Rightarrow> string \<Rightarrow> u64 \<Rightarrow> nat \<Rightarrow> (fact_error, 'p fact_record list) res"
    and jappend and rows and jinv +
  assumes read_total: "jinv j \<Longrightarrow> is_ok (jread j s a n) \<longleftrightarrow> validate_read s n = Ok ()"
    and read_rows: "jinv j \<Longrightarrow> jinv j' \<Longrightarrow> rows j' s = rows j s \<Longrightarrow> jread j' s a n = jread j s a n"
begin

text \<open>A later state of the journal: every stream keeps its rows and may have more.\<close>

definition extends :: "'j \<Rightarrow> 'j \<Rightarrow> bool" where
  "extends j j' \<longleftrightarrow> jinv j \<and> jinv j' \<and> (\<forall>s. \<exists>new. rows j' s = rows j s @ new)"

lemma extends_refl: "jinv j \<Longrightarrow> extends j j"
  by (simp add: extends_def)

lemma extends_trans: "extends j j' \<Longrightarrow> extends j' j'' \<Longrightarrow> extends j j''"
  unfolding extends_def by (metis append_assoc)

lemma extends_append: "jinv j \<Longrightarrow> jappend j s e b = (r, j') \<Longrightarrow> extends j j'"
  unfolding extends_def by (metis append_inv append_prefix)

lemma read_extends:
  assumes ext: "extends j j'" and rd: "jread j s a n = Ok page" and ne: "page \<noteq> []" "0 < n'"
    and valid: "validate_read s n' = Ok ()"
  shows "\<exists>page'. jread j' s a n' = Ok page' \<and> page' \<noteq> [] \<and> hd page' = hd page \<and> length page' \<le> n'"
proof -
  let ?F = "filter (\<lambda>r. rc_position r > a)"
  from ext obtain new where inv: "jinv j" "jinv j'" and new: "rows j' s = rows j s @ new"
    unfolding extends_def by blast
  from read_ok [OF inv(1) rd] obtain m where page: "page = take m (?F (rows j s))" by blast
  from read_total [OF inv(2), of s a n'] valid obtain page' where page': "jread j' s a n' = Ok page'"
    by (cases "jread j' s a n'") auto
  from page ne have F: "?F (rows j s) \<noteq> []" "hd (?F (rows j s)) = hd page"
    by auto
  then have F': "?F (rows j' s) \<noteq> []" "hd (?F (rows j' s)) = hd page"
    by (auto simp: new)
  from read_ok [OF inv(2) page'] ne F' obtain m' where "page' = take m' (?F (rows j' s))" "0 < m'" "m' \<le> n'"
    by blast
  with page' F' show ?thesis by auto
qed

lemma read_valid: "jinv j \<Longrightarrow> jread j s a n = Ok page \<Longrightarrow> validate_read s n = Ok ()"
  using read_total [of j s a n] by simp

lemma read_one_extends:
  assumes "extends j j'" and "jread j s a 1 = Ok [r]"
  shows "jread j' s a 1 = Ok [r]"
proof -
  from assms(1) have "jinv j" by (simp add: extends_def)
  from read_extends [OF assms(1,2) _ _ read_valid [OF this assms(2)]] obtain page' where
    "jread j' s a 1 = Ok page'" "page' \<noteq> []" "hd page' = r" "length page' \<le> 1" by auto
  then show ?thesis by (cases page') auto
qed

lemma read_single:
  assumes "jinv j" and "rows j s = [r]" and "validate_read s n = Ok ()" "0 < n" "rc_position r > a"
  shows "jread j s a n = Ok [r]"
proof -
  from read_total [OF assms(1), of s a n] assms(3) obtain page where p: "jread j s a n = Ok page"
    by (cases "jread j s a n") auto
  from read_ok [OF assms(1) p] assms obtain m where "page = take m [r]" "0 < m" by auto
  with p show ?thesis by simp
qed

end

text \<open>The in-memory adapter keeps the promise.\<close>

interpretation mem: reliable_journal mem_read "mem_append plen" stream_rows journal_inv
  for plen
proof unfold_locales
  fix j :: "'a memory_state" and s a n page
  assume "mem_read j s a n = Ok page"
  then have "page = take n (filter (\<lambda>r. rc_position r > a) (stream_rows j s))"
    by (auto simp: mem_read_def res_simps)
  then show "\<exists>m \<le> n. page = take m (filter (\<lambda>r. rc_position r > a) (stream_rows j s)) \<and>
          (0 < n \<and> filter (\<lambda>r. rc_position r > a) (stream_rows j s) \<noteq> [] \<longrightarrow> 0 < m)"
    by (intro exI [of _ n] conjI) simp_all
next
  fix j :: "'a memory_state" and s e b rs j'
  assume inv: "journal_inv j" and app: "mem_append plen j s e b = (Ok rs, j')"
  from app show "rs \<noteq> [] \<and> map rc_draft rs = b \<and>
        (rs = number_from s e b \<and> unat e = length (stream_rows j s) \<and>
           stream_rows j' s = stream_rows j s @ rs \<or>
         j' = j \<and> rs = take (length rs) (drop (unat e) (stream_rows j s)))"
  proof (cases rule: mem_append_cases)
    case (retry orig)
    with inv show ?thesis by (auto simp: journal_inv_def)
  next
    case commit
    moreover from validate_batch_Ok(1) [OF commit(4)] have "number_from s e b \<noteq> []"
      by (metis number_from_length length_0_conv)
    ultimately show ?thesis
      using head_position_rows [OF journal_inv_rows [OF inv, of s]]
      by (auto simp: stream_rows_commit)
  qed simp
next
  fix j :: "'a memory_state" and s e b r j' t
  assume app: "mem_append plen j s e b = (r, j')" and "t \<noteq> s"
  then show "stream_rows j' t = stream_rows j t"
    by (cases rule: mem_append_cases [OF app]) (auto simp: stream_rows_commit)
next
  fix j :: "'a memory_state" and s e b r j'
  assume app: "mem_append plen j s e b = (r, j')" and "\<not> is_ok r"
  then show "j' = j"
    by (cases rule: mem_append_cases [OF app]) auto
qed (auto simp: mem_read_def is_ok_iff res_simps intro: journal_inv_rows mem_append_inv)

section \<open>Properties of the in-memory journal\<close>

text \<open>Any number of further appends, by any writers, in any order.\<close>

inductive journal_steps :: "('p \<Rightarrow> nat option) \<Rightarrow> 'p memory_state \<Rightarrow> 'p memory_state \<Rightarrow> bool"
  for plen where
  steps_refl: "journal_steps plen st st"
| steps_append: "journal_steps plen st st' \<Longrightarrow> mem_append plen st' s e b = (r, st'') \<Longrightarrow>
    journal_steps plen st st''"

lemma journal_steps_inv: "journal_steps plen st st' \<Longrightarrow> journal_inv st \<Longrightarrow> journal_inv st'"
  by (induction rule: journal_steps.induct) (auto intro: mem_append_inv)

lemma mem_append_batches:
  assumes "mem_append plen st s e b = (r, st')" and "ms_batches st k = Some rs"
  shows "ms_batches st' k = Some rs"
  using assms(1) by (cases rule: mem_append_cases) (use assms(2) in \<open>auto simp: mem_commit_def\<close>)

lemma journal_steps_batches:
  "journal_steps plen st st' \<Longrightarrow> ms_batches st k = Some rs \<Longrightarrow> ms_batches st' k = Some rs"
  by (induction rule: journal_steps.induct) (auto intro: mem_append_batches)

lemma mem_append_Ok_batch:
  assumes "mem_append plen st s e b = (Ok rs, st')"
  shows "ms_batches st' (s, e) = Some rs \<and> map rc_draft rs = b \<and> validate_batch plen s e b = Ok ()"
  using assms by (cases rule: mem_append_cases) (auto simp: mem_commit_def)

lemma mem_append_retry:
  assumes "ms_batches st (s, e) = Some rs" and "map rc_draft rs = b"
    and "validate_batch plen s e b = Ok ()"
  shows "mem_append plen st s e b = (Ok rs, st)"
proof -
  have "retry_batch rs b = Ok rs" using assms(2) by (simp add: retry_batch_Ok)
  then show ?thesis using assms by (simp add: mem_append_def)
qed

text \<open>
  C8: From the empty journal, whatever appends are made: each stream holds positions 1, 2, 3, ..
  without gap, a fact identity names at most one record of the whole journal, every cause of every
  record resolves to a record with exactly its stream, position and identity, and the causal
  relation has no cycle.
\<close>

theorem journal_causality:
  assumes "journal_steps plen empty_journal st"
  shows "(\<forall>s i. i < length (stream_rows st s) \<longrightarrow> unat (rc_position (stream_rows st s ! i)) = Suc i) \<and>
    (\<forall>r \<in> all_rows st. \<forall>q \<in> all_rows st. rc_fact_id r = rc_fact_id q \<longrightarrow> r = q) \<and>
    (\<forall>r \<in> all_rows st. \<forall>c \<in> set (rc_causes r). \<exists>q \<in> all_rows st. ref_matches c q) \<and>
    acyclic (cause_edges (all_rows st))"
proof -
  from assms journal_inv_empty have inv: "journal_inv st" by (rule journal_steps_inv)
  then have "r = q" if "r \<in> all_rows st" "q \<in> all_rows st" "rc_fact_id r = rc_fact_id q" for r q
    using that unfolding journal_inv_def by (metis option.inject)
  with inv show ?thesis unfolding journal_inv_def rows_wf_def by blast
qed

text \<open>
  C28: Appending is idempotent: after a batch was accepted at a position, and whatever other
  writers appended since, submitting the identical batch at that position again returns the
  original records and leaves the journal as it is.
\<close>

theorem append_retry_idempotent:
  assumes "mem_append plen st s e b = (Ok rs, st1)" and "journal_steps plen st1 st2"
  shows "mem_append plen st2 s e b = (Ok rs, st2)"
proof -
  note first = mem_append_Ok_batch [OF assms(1)]
  then have "ms_batches st2 (s, e) = Some rs" using journal_steps_batches [OF assms(2)] by blast
  with first show ?thesis by (intro mem_append_retry) auto
qed

text \<open>
  C29: Compare-and-append: a batch at a position other than the stream's head, for which no
  earlier batch is recorded, is refused and changes nothing; so of two writers that read the same
  head at most one extends the stream.
\<close>

theorem append_stale_refused:
  assumes "e \<noteq> head_position (stream_rows st s)" and "ms_batches st (s, e) = None"
  shows "snd (mem_append plen st s e b) = st \<and> \<not> is_ok (fst (mem_append plen st s e b))"
proof (cases "mem_append plen st s e b")
  case (Pair r st')
  then show ?thesis by (cases rule: mem_append_cases) (use assms Pair in auto)
qed

section \<open>A concrete journal\<close>

text \<open>Two facts on one stream, the second caused by the first, and a third on another stream.\<close>

definition sample_cause :: fact_ref where
  "sample_cause = \<lparr>fr_stream_id = ''s'', fr_position = 1, fr_fact_id = ''f''\<rparr>"

definition sample_draft :: "string \<Rightarrow> fact_ref list \<Rightarrow> unit fact_draft" where
  "sample_draft i causes =
     \<lparr>fd_fact_id = i, fd_subject = \<lparr>fs_kind = ''a.b'', fs_id = ''x''\<rparr>, fd_kind = ''a.b'',
      fd_schema_version = 1, fd_critical = True, fd_causes = causes, fd_payload = ()\<rparr>"

definition sample_batch :: "unit fact_draft list" where
  "sample_batch = [sample_draft ''f'' [], sample_draft ''g'' [sample_cause]]"

definition sample_other :: "unit fact_draft list" where
  "sample_other = [sample_draft ''h'' [sample_cause]]"

definition sample_plen :: "unit \<Rightarrow> nat option" where
  "sample_plen p = Some 2"

definition sample_journal :: "unit memory_state" where
  "sample_journal = mem_commit empty_journal ''s'' 0 (number_from ''s'' 0 sample_batch)"

definition sample_journal2 :: "unit memory_state" where
  "sample_journal2 = mem_commit sample_journal ''t'' 0 (number_from ''t'' 0 sample_other)"

lemma sample_kind [simp]: "fact_kind ''a.b'' = Ok ()"
  by (simp add: fact_kind_def fact_identity_def blank_def alnum_def ws3_def MAX_FACT_ID_BYTES_def)

lemma sample_identity [simp]:
  "fact_identity ''f'' = Ok ()" "fact_identity ''g'' = Ok ()" "fact_identity ''h'' = Ok ()"
  "fact_identity ''x'' = Ok ()" "fact_identity ''s'' = Ok ()" "fact_identity ''t'' = Ok ()"
  by (simp_all add: fact_identity_def blank_def MAX_FACT_ID_BYTES_def)

lemma sample_valid:
  "validate_batch sample_plen ''s'' 0 sample_batch = Ok ()"
  "validate_batch sample_plen ''t'' 0 sample_other = Ok ()"
  by (simp_all add: validate_batch_def sample_batch_def sample_other_def sample_draft_def
      sample_cause_def sample_plen_def checked_add_def len64_def I64_MAX_def MAX_FACT_BATCH_def
      MAX_FACT_CAUSES_def MAX_FACT_PAYLOAD_BYTES_def)

lemma sample_plan:
  "plan_append ''s'' 0 0 sample_batch (\<lambda>id. Ok None) = Ok (number_from ''s'' 0 sample_batch)"
  by (simp add: plan_append_def sample_batch_def sample_draft_def sample_cause_def ref_matches_def)

lemma sample_plan2:
  "plan_append ''t'' 0 0 sample_other (\<lambda>id. Ok (ms_identities sample_journal id)) =
     Ok (number_from ''t'' 0 sample_other)"
  by (simp add: plan_append_def sample_other_def sample_journal_def mem_commit_def empty_journal_def
      sample_batch_def sample_draft_def sample_cause_def ref_matches_def)

lemma sample_append:
  "mem_append sample_plen empty_journal ''s'' 0 sample_batch =
     (Ok (number_from ''s'' 0 sample_batch), sample_journal)"
  by (simp add: mem_append_def sample_valid head_position_def empty_journal_def sample_plan
      stream_rows_def sample_journal_def)

lemma sample_rows: "stream_rows sample_journal ''t'' = []"
  "stream_rows sample_journal ''s'' = number_from ''s'' 0 sample_batch"
  by (simp_all add: sample_journal_def stream_rows_commit)

lemma sample_batches: "ms_batches sample_journal k = (if k = (''s'', 0)
    then Some (number_from ''s'' 0 sample_batch) else None)"
  by (simp add: sample_journal_def mem_commit_def empty_journal_def)

lemma sample_append2:
  "mem_append sample_plen sample_journal ''t'' 0 sample_other =
     (Ok (number_from ''t'' 0 sample_other), sample_journal2)"
  by (simp add: mem_append_def sample_valid head_position_def sample_rows sample_plan2
      sample_batches sample_journal2_def)

lemma sample_steps: "journal_steps sample_plen empty_journal sample_journal2"
  by (rule steps_append [OF steps_append [OF steps_refl sample_append] sample_append2])

theorem journal_causality_witness:
  "acyclic (cause_edges (all_rows sample_journal2)) \<and>
   (\<exists>q \<in> all_rows sample_journal2. ref_matches sample_cause q)"
proof -
  have "\<lparr>rc_stream_id = ''t'', rc_position = 1, rc_draft = sample_draft ''h'' [sample_cause]\<rparr>
      \<in> all_rows sample_journal2"
    by (auto simp: all_rows_def sample_journal2_def stream_rows_commit sample_other_def)
  moreover have "sample_cause \<in> set (fd_causes (sample_draft ''h'' [sample_cause]))"
    by (simp add: sample_draft_def)
  ultimately show ?thesis
    using journal_causality [OF sample_steps] by (metis fact_record.select_convs(3))
qed

theorem append_retry_idempotent_witness:
  "mem_append sample_plen sample_journal2 ''s'' 0 sample_batch =
     (Ok (number_from ''s'' 0 sample_batch), sample_journal2)"
  by (rule append_retry_idempotent
      [OF sample_append steps_append [OF steps_refl sample_append2]])

theorem append_stale_refused_witness:
  "snd (mem_append sample_plen sample_journal ''s'' 1 sample_other) = sample_journal \<and>
   \<not> is_ok (fst (mem_append sample_plen sample_journal ''s'' 1 sample_other))"
  by (rule append_stale_refused)
     (simp_all add: sample_rows sample_batches sample_batch_def head_position_def)

end
