(* ===== verification/Task_Types.thy ===== *)
theory Task_Types
  imports Fact_Journal
begin

text \<open>
  The data of the task domain: \<open>crates/kolyan-server/src/tasks/types.rs\<close>, with the input
  source references of \<open>tasks/input.rs\<close>, the goal data of \<open>tasks/goals/types.rs\<close>, the
  budget data of \<open>tasks/budget.rs\<close> and \<open>ExecutionRef\<close> of \<open>src/lib.rs\<close>. A Rust
  struct is a record whose fields carry a prefix, an enum is a datatype with the constructors of
  the source. \<open>serde_json::Value\<close> (goal predicates and proofs) is the type parameter \<open>'v\<close>.
  The text of an error message is replaced by one constructor per message.
\<close>

section \<open>Identities and limits\<close>

record execution_ref =
  er_session_id :: string
  er_turn_id :: string
  er_execution_id :: string

record agent_identity =
  ai_definition_id :: string
  ai_revision :: string
  ai_instance_id :: string

record task_limits =
  tl_max_depth :: u32
  tl_max_invocations :: u64
  tl_max_attempts :: u64
  tl_max_tokens :: "u64 option"
  tl_max_steps_per_turn :: u32

record goal_checker_key =
  gk_kind :: string
  gk_revision :: string

record 'v goal_criterion =
  gc_id :: string
  gc_invocation_id :: string
  gc_checker :: goal_checker_key
  gc_predicate :: 'v
  gc_predicate_digest :: string

datatype goal_verdict = Satisfied | Unsatisfied | Indeterminate | CheckerFailed

datatype 'v completion_criterion =
    CGoal "'v goal_criterion"
  | CExecutionCompleted string string
  | CArtifactDigest string string string

fun criterion_id :: "'v completion_criterion \<Rightarrow> string" where
  "criterion_id (CGoal goal) = gc_id goal"
| "criterion_id (CExecutionCompleted i _) = i"
| "criterion_id (CArtifactDigest i _ _) = i"

fun criterion_invocation_id :: "'v completion_criterion \<Rightarrow> string" where
  "criterion_invocation_id (CGoal goal) = gc_invocation_id goal"
| "criterion_invocation_id (CExecutionCompleted _ i) = i"
| "criterion_invocation_id (CArtifactDigest _ i _) = i"

datatype cancellation_policy = AllInvocations | RootOnly

record 'v task_definition =
  td_task_id :: string
  td_objective :: string
  td_criteria :: "'v completion_criterion list"
  td_agent :: agent_identity
  td_constraints_digest :: string
  td_limits :: task_limits
  td_cancellation_policy :: cancellation_policy

section \<open>Invocations and attempts\<close>

datatype invocation_role = Root | SelfCall | Delegation | Continuation

datatype invocation_input_kind = KStandalone | KDerived

datatype invocation_input_source = Standalone fact_ref | Derived fact_ref

fun source_fact :: "invocation_input_source \<Rightarrow> fact_ref" where
  "source_fact (Standalone f) = f"
| "source_fact (Derived f) = f"

fun source_kind :: "invocation_input_source \<Rightarrow> invocation_input_kind" where
  "source_kind (Standalone _) = KStandalone"
| "source_kind (Derived _) = KDerived"

record invocation_definition =
  id_invocation_id :: string
  id_agent :: agent_identity
  id_constraints_digest :: string
  id_role :: invocation_role
  id_parent :: "string option"
  id_dependencies :: "string list"
  id_input_source :: invocation_input_source

record attempt_binding =
  ab_attempt_id :: string
  ab_invocation_id :: string
  ab_execution :: execution_ref
  ab_agent :: agent_identity
  ab_constraints_digest :: string
  ab_input_source :: invocation_input_source

record task_usage =
  tu_input_tokens :: u64
  tu_output_tokens :: u64
  tu_unreported_steps :: u64

definition usage_default :: task_usage where
  "usage_default = \<lparr>tu_input_tokens = 0, tu_output_tokens = 0, tu_unreported_steps = 0\<rparr>"

definition usage_total :: "task_usage \<Rightarrow> u64 option" where
  "usage_total u = checked_add (tu_input_tokens u) (tu_output_tokens u)"

section \<open>Evidence\<close>

record execution_evidence =
  ev_execution :: execution_ref
  ev_event_id :: string
  ev_cursor :: u64

datatype completion_evidence =
    GoalSatisfied string execution_evidence fact_ref string
  | ExecutionResult string execution_evidence string
  | VerifiedArtifact string execution_evidence string u64

fun evidence_criterion_id :: "completion_evidence \<Rightarrow> string" where
  "evidence_criterion_id (GoalSatisfied c _ _ _) = c"
| "evidence_criterion_id (ExecutionResult c _ _) = c"
| "evidence_criterion_id (VerifiedArtifact c _ _ _) = c"

fun evidence_source :: "completion_evidence \<Rightarrow> execution_evidence" where
  "evidence_source (GoalSatisfied _ s _ _) = s"
| "evidence_source (ExecutionResult _ s _) = s"
| "evidence_source (VerifiedArtifact _ s _ _) = s"

section \<open>Waiting and outcomes\<close>

record task_suspension =
  ts_checkpoint_id :: string
  ts_approval_ids :: "string list"
  ts_external_wait_ids :: "string list"

datatype waiting_reason =
    WGoalAssessment string string
  | WGoalUnmet string goal_verdict string
  | WSuspension task_suspension
  | WChildResults "string list"
  | WRecovery string

datatype attempt_outcome =
    OSuspended task_suspension
  | OCompleted "completion_evidence list"
  | OFailed string bool
  | OCancelled string
  | ORecoveryRequired string

record attempt_observation =
  ao_attempt_id :: string
  ao_execution :: execution_ref
  ao_source :: execution_evidence
  ao_usage :: task_usage
  ao_outcome :: attempt_outcome

section \<open>States and snapshots\<close>

datatype task_state =
    TReady | TActive | TWaiting | TRecoveryRequired | TCompleted | TFailed | TCancelled

fun is_terminal :: "task_state \<Rightarrow> bool" where
  "is_terminal s = (case s of TCompleted \<Rightarrow> True | TFailed \<Rightarrow> True | TCancelled \<Rightarrow> True | _ \<Rightarrow> False)"

datatype invocation_state =
    Admitted | Running | Suspended | Completed | Failed | Cancelled | RecoveryRequired

record attempt_snapshot =
  as_binding :: attempt_binding
  as_state :: invocation_state
  as_observation :: "attempt_observation option"
  as_waiting :: "waiting_reason option"
  as_cancellation_requested :: bool
  as_retry_authorized :: bool

record consumed_result =
  cr_child :: string
  cr_completion_fact :: fact_ref
  cr_evidence :: "completion_evidence list"

datatype terminal_result_disposition =
    DCompleted "completion_evidence list"
  | DFailed string
  | DCancelled string

record consumed_terminal_result =
  ct_parent :: attempt_binding
  ct_child :: attempt_binding
  ct_terminal_fact :: fact_ref
  ct_source :: execution_evidence
  ct_disposition :: terminal_result_disposition

record invocation_snapshot =
  is_definition :: invocation_definition
  is_state :: invocation_state
  is_attempts :: "string list"
  is_consumed :: "(string, consumed_result) bmap"
  is_terminal_consumed :: "(string, consumed_terminal_result) bmap"
  is_terminal_fact :: "fact_ref option"
  is_completion_fact :: "fact_ref option"
  is_cancellation_requested :: bool

record 'v goal_assessment =
  ga_criterion_id :: string
  ga_predicate_digest :: string
  ga_checker :: goal_checker_key
  ga_attempt :: attempt_binding
  ga_source :: execution_evidence
  ga_verdict :: goal_verdict
  ga_reason :: string
  ga_proof :: 'v

record 'v computed_goal_decision =
  cd_verdict :: goal_verdict
  cd_reason :: string
  cd_proof :: 'v

record 'v goal_assessment_record =
  gr_assessment :: "'v goal_assessment"
  gr_reference :: fact_ref
  gr_assessment_digest :: string

record execution_budget_policy =
  bp_id :: string
  bp_revision :: string
  bp_max_reserved_steps :: u64
  bp_deadline_at_ms :: u64

record step_reservation =
  sr_binding :: attempt_binding
  sr_max_steps :: u32

record execution_budget_state =
  bs_policy :: execution_budget_policy
  bs_policy_reference :: fact_ref
  bs_reservations :: "(string, step_reservation) bmap"

record 'v task_snapshot =
  sn_execution_budget :: "execution_budget_state option"
  sn_goal_assessments :: "'v goal_assessment_record list"
  sn_definition :: "'v task_definition"
  sn_position :: u64
  sn_state :: task_state
  sn_usage :: task_usage
  sn_invocations :: "(string, invocation_snapshot) bmap"
  sn_attempts :: "(string, attempt_snapshot) bmap"
  sn_waiting :: "waiting_reason list"
  sn_success_evidence :: "completion_evidence list"

section \<open>Errors\<close>

text \<open>
  \<open>TaskError::Invalid\<close> and \<open>TaskError::Transition\<close> carry a message; here each message of
  the task domain is one constructor. The messages of \<open>Invalid\<close> are grouped by the part of the
  code that raises them, the constructors \<open>Invalid\<close>, \<open>InvalidEdge\<close>, \<open>InvalidGoal\<close>,
  \<open>InvalidJournal\<close> and \<open>InvalidInput\<close> are all Rust's \<open>TaskError::Invalid\<close>.
\<close>

datatype invalid_reason =
    IdentityInvalid | ExpectedDigest | ReasonInvalid | CriteriaCount | DuplicateCriterion
  | LimitsInvalid | IdentityCollision | AttemptEqualsExecution | UnknownInvocation
  | EvidenceNotBound | TooMuchEvidence | GoalNotPhysical
  | DuplicateEvidence | UnknownCriterion | ForeignCriterion | EvidenceMismatch | UnknownAttempt
  | ObservationMismatch | LacksCheckpoint | EvidenceAhead | UsageOverflow | NoPendingWaits
  | DuplicateCoordinate | CompletionEvidenceMissing

datatype edge_reason =
    RoleSourceDiffer | GoalAnchor
  | RootMismatch | NeedsParent | UnknownParent | SelfCallAgent | DependencyInvalid
  | UnknownConsumer | UnknownChild | ResultInexact | UnknownChildAttempt | MissingTerminal
  | DispositionDiffers | BudgetPolicy | ReservationOverflow | ReservationExceeds

datatype goal_reason =
    GoalDigestDiffers | GoalReason | GoalPayload | UnknownGoalCriterion
  | MissingGoalRoot | UnknownGoalAttempt | MissingGoalObservation | GoalSourceDiffers
  | MissingGoalFact | GoalCoordinate | GoalAlreadyAssessed | GoalNoPrefix
  | VerifierUnavailable | GoalCauseMissing | HostRefused

datatype journal_reason =
    SerdeError | OversizedPage | NoncontiguousPage
  | JournalStuck | PositionOverflow | UnknownCritical | NotCritical | EnvelopeMismatch
  | ForeignRegistration | FactReused | NoSavedPolicy | CommittedDifferent

datatype input_reason =
    UnsupportedSource | SourceCauseMissing | SourceNoState | SourceInvocationAbsent | SourceDiffers
  | PredecessorAbsent | PredecessorIncomplete | PredecessorCauseMissing
  | InputCeiling | InputCoordinate | InputMissing | InputEnvelope | InputScope
  | InputDigest | InputConflict | InputNoRecord | InputTooLarge
  | CausesBounds | DuplicateCause | CyclicCause | NonhistoricalCause | CausalCount
  | CauseMissing | CauseForeign | CausalOverflow | CausalBytes | DuplicateReference

datatype transition_reason =
    AlreadyRegistered | MissingRegistration | TaskTerminal | BudgetedStartRequired
  | AttemptUnknown | NotRecoverable | AdmissionChanged | BudgetExhausted | NoRetryEvidence
  | NotStartable | DependenciesUnconsumed | RetryRefused | AttemptStopped | ResumeRequired
  | WaitsChanged | EvidenceNotAdvancing | ChildResultsUnconsumed | TokenBudget
  | CheckpointMismatch | MissingRoot | InvocationsIncomplete

datatype edge_transition_reason =
    InvocationBudget | ContinuationRefused | ParentTerminal
  | RecursionBudget | DependencyRefused | NotResultEdge | ChildIncomplete | EdgeUnavailable
  | ChildNotTerminal | BudgetConfigured | BudgetMissing | ReservationRefused

datatype task_error =
    Invalid invalid_reason
  | InvalidEdge edge_reason
  | InvalidGoal goal_reason
  | InvalidJournal journal_reason
  | InvalidInput input_reason
  | Transition transition_reason
  | TransitionEdge edge_transition_reason
  | Journal fact_error
  | NotFound string

section \<open>Events\<close>

datatype 'v task_event =
    EExecutionBudgetConfigured execution_budget_policy
  | EBudgetedAttemptStarted attempt_binding u32
  | EGoalAssessed "'v goal_assessment"
  | ERegistered "'v task_definition"
  | EInvocationAdmitted invocation_definition
  | EDependencyAdmitted string string
  | EAttemptStarted attempt_binding
  | EAttemptObserved attempt_observation
  | EAttemptResumed attempt_binding string
  | ERecoveryNeeded string string
  | ERetryAuthorized string execution_evidence string
  | EResultConsumed string consumed_result
  | ETerminalResultConsumed string consumed_terminal_result
  | ECompleted "completion_evidence list"
  | ECancelled string
  | EFailed string

end
