(* ===== verification/Task_Validation.thy ===== *)
theory Task_Validation
  imports Task_Types
begin

text \<open>
  The validation functions shared by admission and replay: \<open>identity\<close> and \<open>reference\<close> of
  \<open>tasks/reducer.rs\<close>, \<open>tasks/reducer/validation.rs\<close>, and the digests and bounds of
  \<open>tasks/goals/types.rs\<close>. The third-party serializer and hash (\<open>serde_json\<close>, \<open>sha2\<close>)
  are the argument \<open>c\<close> of type \<open>value_codec\<close>: the sizes of the successive writes of
  \<open>serde_json::to_writer\<close> (\<open>None\<close> when it fails) and the hexadecimal SHA-256 of
  \<open>serde_json::to_vec\<close>.
\<close>

section \<open>Identities\<close>

definition identity :: "string \<Rightarrow> (task_error, unit) res" where
  "identity v = (if blank v \<or> length v > 256 then Err (Invalid IdentityInvalid) else Ok ())"

definition reference :: "'p fact_record \<Rightarrow> fact_ref" where
  "reference r = \<lparr>fr_stream_id = rc_stream_id r, fr_position = rc_position r, fr_fact_id = rc_fact_id r\<rparr>"

definition digest :: "string \<Rightarrow> (task_error, unit) res" where
  "digest v =
     (if length v \<noteq> 64 \<or> \<not> (\<forall>b \<in> set v. hex_digit b) then Err (Invalid ExpectedDigest) else Ok ())"

definition agent :: "agent_identity \<Rightarrow> (task_error, unit) res" where
  "agent a = andthen (identity (ai_definition_id a))
    (andthen (identity (ai_revision a)) (identity (ai_instance_id a)))"

definition reason :: "string \<Rightarrow> (task_error, unit) res" where
  "reason v = (if blank v \<or> length v > 8192 then Err (Invalid ReasonInvalid) else Ok ())"

section \<open>Goal data\<close>

definition MAX_GOAL_PREDICATE_BYTES :: nat where "MAX_GOAL_PREDICATE_BYTES = 64 * 1024"
definition MAX_GOAL_PROOF_BYTES :: nat where "MAX_GOAL_PROOF_BYTES = 64 * 1024"

record 'v value_codec =
  vc_chunks :: "'v \<Rightarrow> nat list option"
  vc_sha :: "'v \<Rightarrow> string"
  vc_assessment_chunks :: "'v goal_assessment \<Rightarrow> nat list option"
  vc_assessment_sha :: "'v goal_assessment \<Rightarrow> string"

text \<open>The counting writer: it refuses the first write that passes the ceiling.\<close>

fun counter_write :: "nat \<Rightarrow> nat \<Rightarrow> nat \<Rightarrow> (task_error, nat) res" where
  "counter_write limit bytes n =
     (if bytes + n \<ge> 2 ^ 64 then Err (InvalidGoal GoalPayload)
      else if bytes + n > limit then Err (InvalidGoal GoalPayload)
      else Ok (bytes + n))"

fun counter_run :: "nat \<Rightarrow> nat \<Rightarrow> nat list \<Rightarrow> (task_error, nat) res" where
  "counter_run limit bytes [] = Ok bytes"
| "counter_run limit bytes (n # ns) =
     bindr (counter_write limit bytes n) (\<lambda>b. counter_run limit b ns)"

definition bounded_serialized_bytes :: "nat list option \<Rightarrow> nat \<Rightarrow> (task_error, nat) res" where
  "bounded_serialized_bytes chunks limit =
     bindr (ok_or chunks (InvalidJournal SerdeError)) (counter_run limit 0)"

definition goal_value_digest :: "'v value_codec \<Rightarrow> 'v \<Rightarrow> nat \<Rightarrow> (task_error, string) res" where
  "goal_value_digest c v limit =
     bindr (bounded_serialized_bytes (vc_chunks c v) limit) (\<lambda>_. Ok (vc_sha c v))"

definition checker_key_validate :: "goal_checker_key \<Rightarrow> (task_error, unit) res" where
  "checker_key_validate k = andthen (identity (gk_kind k)) (identity (gk_revision k))"

definition goal_criterion_validate :: "'v value_codec \<Rightarrow> 'v goal_criterion \<Rightarrow> (task_error, unit) res" where
  "goal_criterion_validate c g =
     andthen (identity (gc_id g))
    (andthen (identity (gc_invocation_id g))
    (andthen (checker_key_validate (gc_checker g))
    (bindr (goal_value_digest c (gc_predicate g) MAX_GOAL_PREDICATE_BYTES) (\<lambda>d.
       if gc_predicate_digest g \<noteq> d then Err (InvalidGoal GoalDigestDiffers) else Ok ()))))"

definition goal_criterion_new ::
  "'v value_codec \<Rightarrow> string \<Rightarrow> string \<Rightarrow> goal_checker_key \<Rightarrow> 'v \<Rightarrow> (task_error, 'v goal_criterion) res" where
  "goal_criterion_new c i inv_id k p =
     bindr (goal_value_digest c p MAX_GOAL_PREDICATE_BYTES) (\<lambda>d.
       let result = \<lparr>gc_id = i, gc_invocation_id = inv_id, gc_checker = k, gc_predicate = p,
                     gc_predicate_digest = d\<rparr>
       in andthen (goal_criterion_validate c result) (Ok result))"

definition goal_reason_ok :: "string \<Rightarrow> (task_error, unit) res" where
  "goal_reason_ok r = (if blank r \<or> length r > 8192 then Err (InvalidGoal GoalReason) else Ok ())"

definition computed_decision_validate ::
  "'v value_codec \<Rightarrow> 'v computed_goal_decision \<Rightarrow> (task_error, unit) res" where
  "computed_decision_validate c d =
     andthen (goal_reason_ok (cd_reason d))
    (bindr (bounded_serialized_bytes (vc_chunks c (cd_proof d)) MAX_GOAL_PROOF_BYTES) (\<lambda>_. Ok ()))"

definition assessment_decision :: "'v goal_assessment \<Rightarrow> 'v computed_goal_decision" where
  "assessment_decision a =
     \<lparr>cd_verdict = ga_verdict a, cd_reason = ga_reason a, cd_proof = ga_proof a\<rparr>"

definition assessment_digest :: "'v value_codec \<Rightarrow> 'v goal_assessment \<Rightarrow> (task_error, string) res" where
  "assessment_digest c a =
     andthen (checker_key_validate (ga_checker a))
    (andthen (identity (ga_criterion_id a))
    (andthen (goal_reason_ok (ga_reason a))
    (bindr (bounded_serialized_bytes (vc_chunks c (ga_proof a)) MAX_GOAL_PROOF_BYTES) (\<lambda>_.
     bindr (bounded_serialized_bytes (vc_assessment_chunks c a) (128 * 1024)) (\<lambda>_.
       Ok (vc_assessment_sha c a))))))"

section \<open>Task definitions\<close>

fun validate_criteria ::
  "'v value_codec \<Rightarrow> string set \<Rightarrow> 'v completion_criterion list \<Rightarrow> (task_error, unit) res" where
  "validate_criteria c ids [] = Ok ()"
| "validate_criteria c ids (criterion # rest) =
     andthen (case criterion of CGoal goal \<Rightarrow> goal_criterion_validate c goal | _ \<Rightarrow> Ok ())
    (andthen (identity (criterion_id criterion))
    (andthen (identity (criterion_invocation_id criterion))
    (if criterion_id criterion \<in> ids then Err (Invalid DuplicateCriterion)
     else andthen (case criterion of CArtifactDigest _ _ sha \<Rightarrow> digest sha | _ \<Rightarrow> Ok ())
       (validate_criteria c (insert (criterion_id criterion) ids) rest))))"

definition validate_definition :: "'v value_codec \<Rightarrow> 'v task_definition \<Rightarrow> (task_error, unit) res" where
  "validate_definition c d =
     andthen (identity (td_task_id d))
    (andthen (reason (td_objective d))
    (andthen (agent (td_agent d))
    (andthen (digest (td_constraints_digest d))
    (if td_criteria d = [] \<or> length (td_criteria d) > 128 then Err (Invalid CriteriaCount)
     else andthen (validate_criteria c {} (td_criteria d))
      (let limits = td_limits d in
       if tl_max_invocations limits = 0 \<or> tl_max_invocations limits > 4096
          \<or> tl_max_attempts limits = 0 \<or> tl_max_attempts limits > 16384
          \<or> tl_max_tokens limits = Some 0 \<or> tl_max_depth limits > 128
          \<or> tl_max_steps_per_turn limits = 0
       then Err (Invalid LimitsInvalid) else Ok ())))))"

definition available_id :: "'v task_snapshot \<Rightarrow> string \<Rightarrow> (task_error, unit) res" where
  "available_id st i =
     andthen (identity i)
    (if i = td_task_id (sn_definition st)
        \<or> bt_contains (sn_invocations st) i
        \<or> bt_contains (sn_attempts st) i
        \<or> (\<exists>a \<in> set (bt_values (sn_attempts st)). er_execution_id (ab_execution (as_binding a)) = i)
     then Err (Invalid IdentityCollision) else Ok ())"

section \<open>Lemmas\<close>

lemma identity_not_Panic [simp]: "identity v \<noteq> Panic"
  by (simp add: identity_def)

lemma digest_not_Panic [simp]: "digest v \<noteq> Panic"
  by (simp add: digest_def)

lemma reason_not_Panic [simp]: "reason v \<noteq> Panic"
  by (simp add: reason_def)

lemma goal_reason_not_Panic [simp]: "goal_reason_ok v \<noteq> Panic"
  by (simp add: goal_reason_ok_def)

lemma agent_not_Panic [simp]: "agent a \<noteq> Panic"
  by (simp add: agent_def res_simps)

lemma available_id_not_Panic [simp]: "available_id st i \<noteq> Panic"
  by (simp add: available_id_def res_simps)

lemma available_id_Ok:
  "available_id st i = Ok () \<longleftrightarrow> identity i = Ok () \<and> i \<noteq> td_task_id (sn_definition st) \<and>
     i \<notin> fst ` set (sn_invocations st) \<and> i \<notin> fst ` set (sn_attempts st) \<and>
     (\<forall>a \<in> set (bt_values (sn_attempts st)). er_execution_id (ab_execution (as_binding a)) \<noteq> i)"
  by (simp only: available_id_def res_simps bt_contains_iff) blast

lemma counter_run_Ok:
  "counter_run limit b ns = Ok n \<longleftrightarrow>
     n = b + sum_list ns \<and> (ns \<noteq> [] \<longrightarrow> b + sum_list ns \<le> limit \<and> b + sum_list ns < 2 ^ 64)"
proof (induction ns arbitrary: b)
  case (Cons m ns)
  show ?case by (auto simp: res_simps Cons.IH add.assoc)
qed auto

lemma counter_run_not_Panic [simp]: "counter_run limit b ns \<noteq> Panic"
  by (induction ns arbitrary: b) (auto simp: res_simps)

lemma bounded_not_Panic [simp]: "bounded_serialized_bytes chunks limit \<noteq> Panic"
  by (simp add: bounded_serialized_bytes_def res_simps)

lemma checker_key_not_Panic [simp]: "checker_key_validate k \<noteq> Panic"
  by (simp add: checker_key_validate_def res_simps)

lemma goal_value_digest_not_Panic [simp]: "goal_value_digest c v l \<noteq> Panic"
  by (simp add: goal_value_digest_def res_simps)

lemma goal_criterion_not_Panic [simp]: "goal_criterion_validate c g \<noteq> Panic"
  by (simp add: goal_criterion_validate_def res_simps)

lemma assessment_digest_not_Panic [simp]: "assessment_digest c a \<noteq> Panic"
  by (simp add: assessment_digest_def res_simps)

lemma validate_criteria_not_Panic [simp]: "validate_criteria c ids cs \<noteq> Panic"
  by (induction c ids cs rule: validate_criteria.induct)
     (auto simp: res_simps split: completion_criterion.splits)

lemma validate_definition_not_Panic [simp]: "validate_definition c d \<noteq> Panic"
  by (simp add: validate_definition_def res_simps Let_def)

lemma validate_criteria_distinct:
  "validate_criteria c ids cs = Ok () \<Longrightarrow>
   distinct (map criterion_id cs) \<and> set (map criterion_id cs) \<inter> ids = {}"
  by (induction c ids cs rule: validate_criteria.induct) (auto simp: res_simps)

lemma validate_definition_criteria:
  "validate_definition c d = Ok () \<Longrightarrow> distinct (map criterion_id (td_criteria d)) \<and> td_criteria d \<noteq> []"
  by (auto simp: validate_definition_def res_simps dest: validate_criteria_distinct)

lemma validate_definition_limits:
  assumes "validate_definition c d = Ok ()"
  shows "unat (tl_max_invocations (td_limits d)) \<le> 4096" "unat (tl_max_attempts (td_limits d)) \<le> 16384"
    "unat (tl_max_depth (td_limits d)) \<le> 128"
  using assms
  by (auto simp: validate_definition_def res_simps Let_def not_less word_le_nat_alt)

end
