(* ===== verification/Task_Topology.thy ===== *)
theory Task_Topology
  imports Task_Validation
begin

text \<open>
  \<open>crates/kolyan-server/src/tasks/reducer/topology.rs\<close>: admission of invocations, the
  dependency graph and its cycle check, and the consumption of results. A transition takes the
  snapshot and returns the updated one; on \<open>Err\<close> the caller discards the snapshot it passed
  by \<open>&mut\<close>. The two loops over the graph take fuel; running out of it stands for a loop that
  does not end, and the lemmas below show that the fuel given is enough.
\<close>

section \<open>Edges and results\<close>

definition has_consumed :: "invocation_snapshot \<Rightarrow> string \<Rightarrow> bool" where
  "has_consumed i child \<longleftrightarrow>
     bt_contains (is_consumed i) child \<or> bt_contains (is_terminal_consumed i) child"

definition required_results ::
  "'v task_snapshot \<Rightarrow> string \<Rightarrow> (task_error, string list) res" where
  "required_results st invocation =
     bindr (unwrap (bt_get (sn_invocations st) invocation)) (\<lambda>i.
       Ok (bt_set
        (id_dependencies (is_definition i) @
         map fst (filter (\<lambda>(_, c). id_parent (is_definition c) = Some invocation
                                \<and> id_role (is_definition c) \<noteq> Continuation)
                   (sn_invocations st)))))"

section \<open>The cycle check\<close>

text \<open>
  \<open>reaches\<close>: a depth-first search that threads the set of nodes seen through the children
  (\<open>any\<close> stops at the first child that reaches the target).
\<close>

function reaches_from ::
    "nat \<Rightarrow> (string, invocation_snapshot) bmap \<Rightarrow> string \<Rightarrow> string \<Rightarrow> string set
     \<Rightarrow> (bool \<times> string set) option"
  and reaches_any ::
    "nat \<Rightarrow> (string, invocation_snapshot) bmap \<Rightarrow> string list \<Rightarrow> string \<Rightarrow> string set
     \<Rightarrow> (bool \<times> string set) option" where
  "reaches_from 0 m v target seen = None"
| "reaches_from (Suc n) m v target seen =
     (if v = target then Some (True, seen)
      else if v \<in> seen then Some (False, seen)
      else case bt_get m v of
             None \<Rightarrow> Some (False, insert v seen)
           | Some i \<Rightarrow> reaches_any n m (id_dependencies (is_definition i)) target (insert v seen))"
| "reaches_any n m [] target seen = Some (False, seen)"
| "reaches_any n m (d # ds) target seen =
     (case reaches_from n m d target seen of
        None \<Rightarrow> None
      | Some (found, seen') \<Rightarrow>
          if found then Some (True, seen') else reaches_any n m ds target seen')"
  by pat_completeness auto
termination
  by (relation "measures
       [\<lambda>x. case x of Inl (n, _) \<Rightarrow> n | Inr (n, _) \<Rightarrow> n,
        \<lambda>x. case x of Inl _ \<Rightarrow> 0 | Inr (_, _, ds, _) \<Rightarrow> Suc (length ds)]") auto

definition reaches :: "'v task_snapshot \<Rightarrow> string \<Rightarrow> string \<Rightarrow> (task_error, bool) res" where
  "reaches st v target =
     (case reaches_from (Suc (length (sn_invocations st))) (sn_invocations st) v target {} of
        None \<Rightarrow> Panic
      | Some (found, _) \<Rightarrow> Ok found)"

section \<open>Admission\<close>

text \<open>
  The ancestor walk of \<open>admit\<close>: it counts the invocations on the way up that have a parent
  and are not continuations. The counter is a \<open>u32\<close> in the code; it counts invocations, of
  which there are at most 4096, so it is a natural number here.
\<close>

fun ancestor_depth ::
  "nat \<Rightarrow> (string, invocation_snapshot) bmap \<Rightarrow> invocation_snapshot \<Rightarrow> nat option" where
  "ancestor_depth 0 m i = None"
| "ancestor_depth (Suc n) m i =
     (let here = (if id_parent (is_definition i) \<noteq> None
                     \<and> id_role (is_definition i) \<noteq> Continuation then 1 else 0)
      in case Option.bind (id_parent (is_definition i)) (bt_get m) of
           None \<Rightarrow> Some here
         | Some up \<Rightarrow> map_option (\<lambda>d. here + d) (ancestor_depth n m up))"

fun role_source_agree :: "invocation_role \<Rightarrow> invocation_input_source \<Rightarrow> bool" where
  "role_source_agree Root (Standalone _) = True"
| "role_source_agree Root (Derived _) = False"
| "role_source_agree _ (Derived _) = True"
| "role_source_agree _ (Standalone _) = False"

definition admit_root :: "'v task_snapshot \<Rightarrow> invocation_definition \<Rightarrow> (task_error, unit) res" where
  "admit_root st d =
     (if \<exists>criterion \<in> set (td_criteria (sn_definition st)).
           (case criterion of CGoal g \<Rightarrow> gc_invocation_id g \<noteq> id_invocation_id d | _ \<Rightarrow> False)
      then Err (InvalidEdge GoalAnchor)
      else if id_parent d \<noteq> None
        \<or> (\<exists>i \<in> set (bt_values (sn_invocations st)). id_role (is_definition i) = Root)
        \<or> id_agent d \<noteq> td_agent (sn_definition st)
        \<or> id_constraints_digest d \<noteq> td_constraints_digest (sn_definition st)
      then Err (InvalidEdge RootMismatch)
      else Ok ())"

definition admit_child :: "'v task_snapshot \<Rightarrow> invocation_definition \<Rightarrow> (task_error, unit) res" where
  "admit_child st d =
     bindr (ok_or (id_parent d) (InvalidEdge NeedsParent)) (\<lambda>parent.
     bindr (ok_or (bt_get (sn_invocations st) parent) (InvalidEdge UnknownParent)) (\<lambda>owner.
     andthen
       (if id_role d = Continuation
        then (if is_state owner \<noteq> Completed \<or> parent \<notin> set (id_dependencies d)
              then Err (TransitionEdge ContinuationRefused) else Ok ())
        else (if is_state owner \<in> {Completed, Cancelled, Failed}
              then Err (TransitionEdge ParentTerminal) else Ok ()))
    (if id_role d = SelfCall
        \<and> ai_definition_id (id_agent d) \<noteq> ai_definition_id (id_agent (is_definition owner))
     then Err (InvalidEdge SelfCallAgent)
     else
       (case ancestor_depth (Suc (length (sn_invocations st))) (sn_invocations st) owner of
          None \<Rightarrow> Panic
        | Some up \<Rightarrow>
            if (if id_role d \<noteq> Continuation then 1 else 0) + up
                 > unat (tl_max_depth (td_limits (sn_definition st)))
            then Err (TransitionEdge RecursionBudget) else Ok ()))))"

fun check_dependencies ::
  "(string, invocation_snapshot) bmap \<Rightarrow> string set \<Rightarrow> string list \<Rightarrow> (task_error, unit) res" where
  "check_dependencies m seen [] = Ok ()"
| "check_dependencies m seen (d # ds) =
     (if \<not> bt_contains m d \<or> d \<in> seen then Err (InvalidEdge DependencyInvalid)
      else check_dependencies m (insert d seen) ds)"

definition new_invocation :: "invocation_definition \<Rightarrow> invocation_snapshot" where
  "new_invocation d =
     \<lparr>is_definition = d, is_state = Admitted, is_attempts = [], is_consumed = [],
      is_terminal_consumed = [], is_terminal_fact = None, is_completion_fact = None,
      is_cancellation_requested = False\<rparr>"

definition admit ::
  "'v task_snapshot \<Rightarrow> invocation_definition \<Rightarrow> (task_error, 'v task_snapshot) res" where
  "admit st d =
     andthen (available_id st (id_invocation_id d))
    (andthen (agent (id_agent d))
    (andthen (digest (id_constraints_digest d))
    (if \<not> role_source_agree (id_role d) (id_input_source d)
     then Err (InvalidEdge RoleSourceDiffer)
     else if len64 (sn_invocations st) \<ge> tl_max_invocations (td_limits (sn_definition st))
     then Err (TransitionEdge InvocationBudget)
     else andthen (if id_role d = Root then admit_root st d else admit_child st d)
    (andthen (check_dependencies (sn_invocations st) {} (id_dependencies d))
    (Ok (st\<lparr>sn_invocations :=
            bt_insert (id_invocation_id d) (new_invocation d) (sn_invocations st)\<rparr>))))))"

section \<open>Dependencies and consumption\<close>

definition push_dependency :: "string \<Rightarrow> invocation_snapshot \<Rightarrow> invocation_snapshot" where
  "push_dependency dep i =
     i\<lparr>is_definition := (is_definition i)\<lparr>id_dependencies := id_dependencies (is_definition i) @ [dep]\<rparr>\<rparr>"

definition add_dependency ::
  "'v task_snapshot \<Rightarrow> string \<Rightarrow> string \<Rightarrow> (task_error, 'v task_snapshot) res" where
  "add_dependency st invocation dependency =
     bindr (ok_or (bt_get (sn_invocations st) invocation) (Invalid UnknownInvocation)) (\<lambda>owner.
     if is_state owner \<notin> {Admitted, Running, Suspended}
        \<or> \<not> bt_contains (sn_invocations st) dependency
        \<or> dependency \<in> set (id_dependencies (is_definition owner))
     then Err (TransitionEdge DependencyRefused)
     else bindr (reaches st dependency invocation) (\<lambda>cyclic.
       if cyclic then Err (TransitionEdge DependencyRefused)
       else Ok (st\<lparr>sn_invocations :=
                  bt_modify invocation (push_dependency dependency) (sn_invocations st)\<rparr>)))"

definition consume ::
  "'v task_snapshot \<Rightarrow> string \<Rightarrow> consumed_result \<Rightarrow> 'p fact_record
   \<Rightarrow> (task_error, 'v task_snapshot) res" where
  "consume st invocation result record =
     bindr (ok_or (bt_get (sn_invocations st) invocation) (InvalidEdge UnknownConsumer)) (\<lambda>i.
     if is_state i \<in> {Completed, Cancelled, Failed} then Err (TransitionEdge NotResultEdge)
     else bindr (required_results st invocation) (\<lambda>required.
     if cr_child result \<notin> set required \<or> has_consumed i (cr_child result)
     then Err (TransitionEdge NotResultEdge)
     else bindr (ok_or (bt_get (sn_invocations st) (cr_child result)) (InvalidEdge UnknownChild)) (\<lambda>child.
     bindr (if is_attempts child = [] then Ok None
            else bindr (unwrap (bt_get (sn_attempts st) (last (is_attempts child))))
                   (\<lambda>a. Ok (as_observation a))) (\<lambda>actual.
     case actual of
       Some obs \<Rightarrow>
         (case ao_outcome obs of
            OCompleted evidence \<Rightarrow>
              if is_completion_fact child \<noteq> Some (cr_completion_fact result)
                 \<or> cr_evidence result \<noteq> evidence
                 \<or> cr_completion_fact result \<notin> set (rc_causes record)
              then Err (InvalidEdge ResultInexact)
              else Ok (st\<lparr>sn_invocations :=
                         bt_modify invocation
                           (\<lambda>i. i\<lparr>is_consumed := bt_insert (cr_child result) result (is_consumed i)\<rparr>)
                           (sn_invocations st)\<rparr>)
          | _ \<Rightarrow> Err (TransitionEdge ChildIncomplete))
     | None \<Rightarrow> Err (TransitionEdge ChildIncomplete)))))"

fun disposition_of :: "attempt_outcome \<Rightarrow> terminal_result_disposition option" where
  "disposition_of (OCompleted evidence) = Some (DCompleted evidence)"
| "disposition_of (OFailed why _) = Some (DFailed why)"
| "disposition_of (OCancelled why) = Some (DCancelled why)"
| "disposition_of _ = None"

definition consume_terminal ::
  "'v task_snapshot \<Rightarrow> string \<Rightarrow> consumed_terminal_result \<Rightarrow> 'p fact_record
   \<Rightarrow> (task_error, 'v task_snapshot) res" where
  "consume_terminal st invocation result record =
     bindr (ok_or (bt_get (sn_invocations st) invocation) (InvalidEdge UnknownConsumer)) (\<lambda>owner.
     let child_id = ab_invocation_id (ct_child result);
         parent_attempt = bt_get (sn_attempts st) (ab_attempt_id (ct_parent result)) in
     if is_cancellation_requested owner
        \<or> ab_invocation_id (ct_parent result) \<noteq> invocation
        \<or> is_attempts owner = [] \<or> last (is_attempts owner) \<noteq> ab_attempt_id (ct_parent result)
        \<or> (case parent_attempt of None \<Rightarrow> True
             | Some a \<Rightarrow> as_binding a \<noteq> ct_parent result \<or> as_cancellation_requested a)
        \<or> is_state owner \<in> {Completed, Failed, Cancelled}
        \<or> has_consumed owner child_id
     then Err (TransitionEdge EdgeUnavailable)
     else bindr (required_results st invocation) (\<lambda>required.
     if child_id \<notin> set required then Err (TransitionEdge EdgeUnavailable)
     else
     bindr (ok_or (bt_get (sn_invocations st) child_id) (InvalidEdge UnknownChild)) (\<lambda>child.
     bindr (ok_or (bt_get (sn_attempts st) (ab_attempt_id (ct_child result)))
              (InvalidEdge UnknownChildAttempt)) (\<lambda>attempt.
     bindr (ok_or (as_observation attempt) (InvalidEdge MissingTerminal)) (\<lambda>observation.
     bindr (ok_or (disposition_of (ao_outcome observation)) (TransitionEdge ChildNotTerminal)) (\<lambda>disposition.
     if as_binding attempt \<noteq> ct_child result
        \<or> is_attempts child = [] \<or> last (is_attempts child) \<noteq> ab_attempt_id (ct_child result)
        \<or> is_terminal_fact child \<noteq> Some (ct_terminal_fact result)
        \<or> ao_source observation \<noteq> ct_source result
        \<or> disposition \<noteq> ct_disposition result
        \<or> ct_terminal_fact result \<notin> set (rc_causes record)
     then Err (InvalidEdge DispositionDiffers)
     else Ok (st\<lparr>sn_invocations :=
                bt_modify invocation
                  (\<lambda>i. i\<lparr>is_terminal_consumed :=
                         bt_insert child_id result (is_terminal_consumed i)\<rparr>)
                  (sn_invocations st)\<rparr>)))))))"

end
