(* ===== verification/Task_Attempts.thy ===== *)
theory Task_Attempts
  imports Task_Topology
begin

text \<open>
  \<open>crates/kolyan-server/src/tasks/reducer/attempts.rs\<close> and \<open>completion.rs\<close>: starting,
  observing, resuming and retrying an attempt, completing and cancelling a task. An \<open>unwrap()\<close>
  of the source is an \<open>unwrap\<close> here, so a missing entry is \<open>Panic\<close>.
\<close>

section \<open>Updates of one invocation or attempt\<close>

abbreviation set_invocation_state :: "invocation_state \<Rightarrow> invocation_snapshot \<Rightarrow> invocation_snapshot" where
  "set_invocation_state s i \<equiv> i\<lparr>is_state := s\<rparr>"

definition update_invocation ::
  "string \<Rightarrow> (invocation_snapshot \<Rightarrow> invocation_snapshot) \<Rightarrow> 'v task_snapshot
   \<Rightarrow> (task_error, 'v task_snapshot) res" where
  "update_invocation k f st =
     bindr (unwrap (bt_get (sn_invocations st) k)) (\<lambda>_.
       Ok (st\<lparr>sn_invocations := bt_modify k f (sn_invocations st)\<rparr>))"

definition update_attempt ::
  "string \<Rightarrow> (attempt_snapshot \<Rightarrow> attempt_snapshot) \<Rightarrow> 'v task_snapshot
   \<Rightarrow> (task_error, 'v task_snapshot) res" where
  "update_attempt k f st =
     bindr (unwrap (bt_get (sn_attempts st) k)) (\<lambda>_.
       Ok (st\<lparr>sn_attempts := bt_modify k f (sn_attempts st)\<rparr>))"

section \<open>Starting\<close>

definition token_budget_exhausted :: "'v task_snapshot \<Rightarrow> bool" where
  "token_budget_exhausted st =
     (case tl_max_tokens (td_limits (sn_definition st)) of
        None \<Rightarrow> False
      | Some limit \<Rightarrow> tu_unreported_steps (sn_usage st) > 0
          \<or> (case usage_total (sn_usage st) of None \<Rightarrow> True | Some used \<Rightarrow> used \<ge> limit))"

definition safe_to_retry :: "attempt_snapshot \<Rightarrow> bool" where
  "safe_to_retry a \<longleftrightarrow> as_retry_authorized a \<or>
     (case as_observation a of
        None \<Rightarrow> False
      | Some obs \<Rightarrow> (case ao_outcome obs of OFailed _ safe \<Rightarrow> safe | _ \<Rightarrow> False))"

definition last_attempt :: "'v task_snapshot \<Rightarrow> invocation_snapshot \<Rightarrow> attempt_snapshot option" where
  "last_attempt st i =
     (if is_attempts i = [] then None else bt_get (sn_attempts st) (last (is_attempts i)))"

definition new_attempt :: "attempt_binding \<Rightarrow> attempt_snapshot" where
  "new_attempt b =
     \<lparr>as_binding = b, as_state = Running, as_observation = None, as_waiting = None,
      as_cancellation_requested = False, as_retry_authorized = False\<rparr>"

definition start :: "'v task_snapshot \<Rightarrow> attempt_binding \<Rightarrow> (task_error, 'v task_snapshot) res" where
  "start st binding =
     andthen (available_id st (ab_attempt_id binding))
    (andthen (available_id st (er_execution_id (ab_execution binding)))
    (if ab_attempt_id binding = er_execution_id (ab_execution binding)
     then Err (Invalid AttemptEqualsExecution)
     else
     andthen (identity (er_session_id (ab_execution binding)))
    (andthen (identity (er_turn_id (ab_execution binding)))
    (bindr (ok_or (bt_get (sn_invocations st) (ab_invocation_id binding)) (Invalid UnknownInvocation)) (\<lambda>i.
     if id_agent (is_definition i) \<noteq> ab_agent binding
        \<or> id_constraints_digest (is_definition i) \<noteq> ab_constraints_digest binding
        \<or> id_input_source (is_definition i) \<noteq> ab_input_source binding
     then Err (Transition AdmissionChanged)
     else if len64 (sn_attempts st) \<ge> tl_max_attempts (td_limits (sn_definition st))
        \<or> token_budget_exhausted st
     then Err (Transition BudgetExhausted)
     else
     andthen
       (case is_state i of
          Admitted \<Rightarrow> Ok ()
        | Failed \<Rightarrow> (case last_attempt st i of
                       Some a \<Rightarrow> if safe_to_retry a then Ok () else Err (Transition NoRetryEvidence)
                     | None \<Rightarrow> Err (Transition NoRetryEvidence))
        | _ \<Rightarrow> Err (Transition NotStartable))
    (if \<exists>d \<in> set (id_dependencies (is_definition i)). \<not> has_consumed i d
     then Err (Transition DependenciesUnconsumed)
     else
     bindr (update_invocation (ab_invocation_id binding)
              (\<lambda>i. i\<lparr>is_state := Running, is_terminal_fact := None,
                     is_attempts := is_attempts i @ [ab_attempt_id binding]\<rparr>) st) (\<lambda>st1.
       Ok (st1\<lparr>sn_attempts :=
             bt_insert (ab_attempt_id binding) (new_attempt binding) (sn_attempts st1)\<rparr>))))))))"

section \<open>Evidence\<close>

definition validate_source :: "execution_evidence \<Rightarrow> attempt_binding \<Rightarrow> (task_error, unit) res" where
  "validate_source source binding =
     andthen (identity (ev_event_id source))
    (if ev_cursor source = 0 \<or> ev_execution source \<noteq> ab_execution binding
     then Err (Invalid EvidenceNotBound) else Ok ())"

definition observed_cursor :: "attempt_snapshot \<Rightarrow> u64" where
  "observed_cursor a = (case as_observation a of None \<Rightarrow> 0 | Some obs \<Rightarrow> ev_cursor (ao_source obs))"

definition authorize_retry ::
  "'v task_snapshot \<Rightarrow> string \<Rightarrow> execution_evidence \<Rightarrow> string \<Rightarrow> (task_error, 'v task_snapshot) res" where
  "authorize_retry st attempt_id source why =
     andthen (reason why)
    (bindr (ok_or (bt_get (sn_attempts st) attempt_id) (Invalid UnknownAttempt)) (\<lambda>attempt.
     andthen (validate_source source (as_binding attempt))
    (bindr (unwrap (bt_get (sn_invocations st) (ab_invocation_id (as_binding attempt)))) (\<lambda>invocation.
     if as_state attempt \<notin> {Failed, RecoveryRequired}
        \<or> as_cancellation_requested attempt
        \<or> is_cancellation_requested invocation
        \<or> as_retry_authorized attempt
        \<or> is_attempts invocation = [] \<or> last (is_attempts invocation) \<noteq> attempt_id
        \<or> is_state invocation \<notin> {Failed, RecoveryRequired}
        \<or> ev_cursor source \<le> observed_cursor attempt
     then Err (Transition RetryRefused)
     else
     bindr (update_attempt attempt_id
              (\<lambda>a. a\<lparr>as_retry_authorized := True, as_state := Failed, as_waiting := None\<rparr>) st) (\<lambda>st1.
       update_invocation (ab_invocation_id (as_binding attempt)) (set_invocation_state Failed) st1)))))"

fun validate_items ::
  "'v task_snapshot \<Rightarrow> attempt_binding \<Rightarrow> string set \<Rightarrow> completion_evidence list
   \<Rightarrow> (task_error, unit) res" where
  "validate_items st binding ids [] = Ok ()"
| "validate_items st binding ids (item # rest) =
     (if (case item of GoalSatisfied _ _ _ _ \<Rightarrow> True | _ \<Rightarrow> False)
      then Err (Invalid GoalNotPhysical)
      else andthen (validate_source (evidence_source item) binding)
     (if evidence_criterion_id item \<in> ids then Err (Invalid DuplicateEvidence)
      else bindr (ok_or (find (\<lambda>c. criterion_id c = evidence_criterion_id item)
                           (td_criteria (sn_definition st))) (Invalid UnknownCriterion)) (\<lambda>criterion.
      if criterion_invocation_id criterion \<noteq> ab_invocation_id binding
      then Err (Invalid ForeignCriterion)
      else andthen
        (case (criterion, item) of
           (CExecutionCompleted _ _, ExecutionResult _ _ result_digest) \<Rightarrow> digest result_digest
         | (CArtifactDigest _ _ expected, VerifiedArtifact _ _ sha _) \<Rightarrow>
             if sha = expected then digest sha else Err (Invalid EvidenceMismatch)
         | _ \<Rightarrow> Err (Invalid EvidenceMismatch))
        (validate_items st binding (insert (evidence_criterion_id item) ids) rest))))"

definition validate_evidence ::
  "'v task_snapshot \<Rightarrow> completion_evidence list \<Rightarrow> attempt_binding \<Rightarrow> (task_error, unit) res" where
  "validate_evidence st evidence binding =
     (if length evidence > 128 then Err (Invalid TooMuchEvidence)
      else validate_items st binding {} evidence)"

section \<open>Observing\<close>

fun validate_coordinates :: "string set \<Rightarrow> string list \<Rightarrow> (task_error, unit) res" where
  "validate_coordinates seen [] = Ok ()"
| "validate_coordinates seen (i # ids) =
     andthen (identity i)
    (if i \<in> seen then Err (Invalid DuplicateCoordinate)
     else validate_coordinates (insert i seen) ids)"

definition validate_waiting :: "task_suspension \<Rightarrow> (task_error, unit) res" where
  "validate_waiting w =
     andthen (identity (ts_checkpoint_id w))
    (if ts_approval_ids w = [] \<and> ts_external_wait_ids w = [] then Err (Invalid NoPendingWaits)
     else andthen (validate_coordinates {} (ts_approval_ids w))
            (validate_coordinates {} (ts_external_wait_ids w)))"

text \<open>A partial merge of a suspended attempt may only shrink the pending waits.\<close>

definition check_merge :: "attempt_snapshot \<Rightarrow> attempt_outcome \<Rightarrow> (task_error, unit) res" where
  "check_merge attempt outcome =
     (case outcome of
        OSuspended waiting \<Rightarrow>
          if as_state attempt = Suspended then
            (case as_waiting attempt of
               Some (WSuspension previous) \<Rightarrow>
                 if ts_checkpoint_id waiting \<noteq> ts_checkpoint_id previous
                    \<or> (\<exists>i \<in> set (ts_approval_ids waiting). i \<notin> set (ts_approval_ids previous))
                    \<or> (\<exists>i \<in> set (ts_external_wait_ids waiting). i \<notin> set (ts_external_wait_ids previous))
                 then Err (Transition WaitsChanged) else Ok ()
             | _ \<Rightarrow> Err (Invalid LacksCheckpoint))
          else Ok ()
      | _ \<Rightarrow> Ok ())"

definition outcome_state ::
  "'v task_snapshot \<Rightarrow> attempt_snapshot \<Rightarrow> attempt_observation \<Rightarrow> (task_error, invocation_state) res" where
  "outcome_state st attempt observation =
     (let inv_id = ab_invocation_id (as_binding attempt) in
      case ao_outcome observation of
        OCompleted evidence \<Rightarrow>
          andthen (validate_evidence st evidence (as_binding attempt))
         (if \<exists>item \<in> set evidence. ev_cursor (evidence_source item) > ev_cursor (ao_source observation)
          then Err (Invalid EvidenceAhead)
          else bindr (unwrap (bt_get (sn_invocations st) inv_id)) (\<lambda>i.
          bindr (required_results st inv_id) (\<lambda>required.
          if \<exists>r \<in> set required. \<not> has_consumed i r
          then Err (Transition ChildResultsUnconsumed) else Ok Completed)))
      | OSuspended waiting \<Rightarrow> andthen (validate_waiting waiting) (Ok Suspended)
      | OFailed why _ \<Rightarrow> andthen (reason why) (Ok Failed)
      | OCancelled why \<Rightarrow> andthen (reason why) (Ok Cancelled)
      | ORecoveryRequired why \<Rightarrow> andthen (reason why) (Ok RecoveryRequired))"

definition add_usage :: "task_usage \<Rightarrow> task_usage \<Rightarrow> (task_error, task_usage) res" where
  "add_usage u d =
     bindr (ok_or (checked_add (tu_input_tokens u) (tu_input_tokens d)) (Invalid UsageOverflow)) (\<lambda>i.
     bindr (ok_or (checked_add (tu_output_tokens u) (tu_output_tokens d)) (Invalid UsageOverflow)) (\<lambda>out.
     bindr (ok_or (checked_add (tu_unreported_steps u) (tu_unreported_steps d)) (Invalid UsageOverflow)) (\<lambda>n.
       Ok \<lparr>tu_input_tokens = i, tu_output_tokens = out, tu_unreported_steps = n\<rparr>)))"

fun waiting_of :: "attempt_outcome \<Rightarrow> waiting_reason option" where
  "waiting_of (OSuspended waiting) = Some (WSuspension waiting)"
| "waiting_of (ORecoveryRequired why) = Some (WRecovery why)"
| "waiting_of _ = None"

definition stop_invocation ::
  "invocation_state \<Rightarrow> fact_ref \<Rightarrow> invocation_snapshot \<Rightarrow> invocation_snapshot" where
  "stop_invocation next f i =
     i\<lparr>is_state := next,
       is_terminal_fact :=
         (if next \<in> {Completed, Failed, Cancelled} then Some f else is_terminal_fact i),
       is_completion_fact := (if next = Completed then Some f else is_completion_fact i)\<rparr>"

definition observe ::
  "'v task_snapshot \<Rightarrow> attempt_observation \<Rightarrow> 'p fact_record \<Rightarrow> (task_error, 'v task_snapshot) res" where
  "observe st observation record =
     bindr (ok_or (bt_get (sn_attempts st) (ao_attempt_id observation)) (Invalid UnknownAttempt)) (\<lambda>attempt.
     if as_state attempt \<notin> {Running, RecoveryRequired, Suspended}
     then Err (Transition AttemptStopped)
     else if ao_execution observation \<noteq> ab_execution (as_binding attempt)
     then Err (Invalid ObservationMismatch)
     else
     andthen (validate_source (ao_source observation) (as_binding attempt))
    (if as_state attempt = Suspended
        \<and> (case ao_outcome observation of OCompleted _ \<Rightarrow> True | _ \<Rightarrow> False)
     then Err (Transition ResumeRequired)
     else
     andthen (check_merge attempt (ao_outcome observation))
    (if as_observation attempt \<noteq> None \<and> ev_cursor (ao_source observation) \<le> observed_cursor attempt
     then Err (Transition EvidenceNotAdvancing)
     else
     bindr (outcome_state st attempt observation) (\<lambda>next.
     bindr (add_usage (sn_usage st) (ao_usage observation)) (\<lambda>usage.
     bindr (ok_or (usage_total usage) (Invalid UsageOverflow)) (\<lambda>total.
     bindr (update_attempt (ao_attempt_id observation)
              (\<lambda>a. a\<lparr>as_state := next, as_waiting := waiting_of (ao_outcome observation),
                     as_observation := Some observation\<rparr>) (st\<lparr>sn_usage := usage\<rparr>)) (\<lambda>st1.
     bindr (update_invocation (ab_invocation_id (as_binding attempt))
              (stop_invocation next (reference record)) st1) (\<lambda>st2.
     if (case tl_max_tokens (td_limits (sn_definition st2)) of
           None \<Rightarrow> False | Some limit \<Rightarrow> total > limit \<or> tu_unreported_steps usage > 0)
        \<and> \<not> is_terminal (sn_state st2)
     then Ok (st2\<lparr>sn_state := TFailed\<rparr>)
     else Ok st2))))))))"

section \<open>Resuming\<close>

definition resume ::
  "'v task_snapshot \<Rightarrow> attempt_binding \<Rightarrow> string \<Rightarrow> (task_error, 'v task_snapshot) res" where
  "resume st binding checkpoint_id =
     andthen (identity checkpoint_id)
    (if token_budget_exhausted st then Err (Transition TokenBudget)
     else
     bindr (ok_or (bt_get (sn_attempts st) (ab_attempt_id binding)) (Invalid UnknownAttempt)) (\<lambda>attempt.
     if as_binding attempt \<noteq> binding
        \<or> as_state attempt \<noteq> Suspended
        \<or> (case as_waiting attempt of
             Some (WSuspension waiting) \<Rightarrow> ts_checkpoint_id waiting \<noteq> checkpoint_id | _ \<Rightarrow> True)
        \<or> as_cancellation_requested attempt
     then Err (Transition CheckpointMismatch)
     else
     bindr (update_attempt (ab_attempt_id binding)
              (\<lambda>a. a\<lparr>as_state := Running, as_waiting := None\<rparr>) st) (\<lambda>st1.
       update_invocation (ab_invocation_id binding) (set_invocation_state Running) st1)))"

section \<open>Completing and cancelling a task\<close>

definition goal_proof :: "'v goal_assessment_record \<Rightarrow> completion_evidence" where
  "goal_proof r = GoalSatisfied (ga_criterion_id (gr_assessment r)) (ga_source (gr_assessment r))
     (gr_reference r) (gr_assessment_digest r)"

definition observed_evidence :: "attempt_snapshot \<Rightarrow> completion_evidence list" where
  "observed_evidence a =
     (case as_observation a of
        Some obs \<Rightarrow> (case ao_outcome obs of OCompleted evidence \<Rightarrow> evidence | _ \<Rightarrow> [])
      | None \<Rightarrow> [])"

definition available_evidence :: "'v task_snapshot \<Rightarrow> completion_evidence list" where
  "available_evidence st =
     concat (map observed_evidence (bt_values (sn_attempts st)))
     @ map goal_proof (filter (\<lambda>r. ga_verdict (gr_assessment r) = Satisfied) (sn_goal_assessments st))"

definition complete ::
  "'v task_snapshot \<Rightarrow> completion_evidence list \<Rightarrow> (task_error, 'v task_snapshot) res" where
  "complete st evidence =
     bindr (ok_or (find (\<lambda>i. id_role (is_definition i) = Root) (bt_values (sn_invocations st)))
              (Transition MissingRoot)) (\<lambda>root.
     if is_state root \<noteq> Completed
        \<or> (\<exists>i \<in> set (bt_values (sn_invocations st)). is_state i \<noteq> Completed)
     then Err (Transition InvocationsIncomplete)
     else
       let ids = bt_set (map evidence_criterion_id evidence) in
       if length ids \<noteq> length evidence
          \<or> length ids \<noteq> length (td_criteria (sn_definition st))
          \<or> (\<exists>c \<in> set (td_criteria (sn_definition st)). criterion_id c \<notin> set ids)
          \<or> (\<exists>item \<in> set evidence. item \<notin> set (available_evidence st))
       then Err (Invalid CompletionEvidenceMissing)
       else Ok (st\<lparr>sn_success_evidence := evidence, sn_state := TCompleted\<rparr>))"

definition cancel_selected :: "'v task_snapshot \<Rightarrow> invocation_snapshot \<Rightarrow> bool" where
  "cancel_selected st i \<longleftrightarrow>
     td_cancellation_policy (sn_definition st) = AllInvocations \<or> id_role (is_definition i) = Root"

definition cancel_invocation :: "invocation_snapshot \<Rightarrow> invocation_snapshot" where
  "cancel_invocation i =
     i\<lparr>is_cancellation_requested := True,
       is_state := (if is_state i = Admitted then Cancelled else is_state i)\<rparr>"

fun cancel_attempts ::
  "string list \<Rightarrow> (string, attempt_snapshot) bmap \<Rightarrow> (task_error, (string, attempt_snapshot) bmap) res" where
  "cancel_attempts [] m = Ok m"
| "cancel_attempts (i # ids) m =
     bindr (unwrap (bt_get m i)) (\<lambda>_.
       cancel_attempts ids (bt_modify i (\<lambda>a. a\<lparr>as_cancellation_requested := True\<rparr>) m))"

fun cancel_all ::
  "'v task_snapshot \<Rightarrow> (string, invocation_snapshot) bmap \<Rightarrow> (string, attempt_snapshot) bmap
   \<Rightarrow> (task_error, (string, invocation_snapshot) bmap \<times> (string, attempt_snapshot) bmap) res" where
  "cancel_all st [] m = Ok ([], m)"
| "cancel_all st ((k, i) # rest) m =
     (if cancel_selected st i then
        bindr (cancel_attempts (is_attempts i) m) (\<lambda>m'.
        bindr (cancel_all st rest m') (\<lambda>(invs, m''). Ok ((k, cancel_invocation i) # invs, m'')))
      else bindr (cancel_all st rest m) (\<lambda>(invs, m''). Ok ((k, i) # invs, m'')))"

definition cancel :: "'v task_snapshot \<Rightarrow> string \<Rightarrow> (task_error, 'v task_snapshot) res" where
  "cancel st why =
     andthen (reason why)
    (bindr (cancel_all st (sn_invocations st) (sn_attempts st)) (\<lambda>(invs, atts).
       Ok (st\<lparr>sn_invocations := invs, sn_attempts := atts, sn_state := TCancelled\<rparr>)))"

end
