(* ===== verification/Task_Goals.thy ===== *)
theory Task_Goals
  imports Task_Attempts
begin

text \<open>
  \<open>crates/kolyan-server/src/tasks/goals/transitions.rs\<close>: who owns an assessment, how it is
  recorded, which waiting reasons goals contribute, and the enforcing hook run before an event is
  applied. The verifier (\<open>dyn TaskGoalVerifier\<close>, supplied by the host) is a record of the
  functions of that trait.
\<close>

record 'v goal_verifier =
  gv_validate_criterion :: "'v goal_criterion \<Rightarrow> (task_error, unit) res"
  gv_compute_assessment :: "'v task_snapshot \<Rightarrow> string \<Rightarrow> (task_error, 'v goal_assessment) res"
  gv_verify_assessment :: "'v task_snapshot \<Rightarrow> 'v goal_assessment \<Rightarrow> (task_error, unit) res"
  gv_verify_completion :: "'v task_snapshot \<Rightarrow> completion_evidence list \<Rightarrow> (task_error, unit) res"

fun goal_named :: "string \<Rightarrow> 'v completion_criterion list \<Rightarrow> 'v goal_criterion option" where
  "goal_named i [] = None"
| "goal_named i (c # cs) =
     (case c of
        CGoal goal \<Rightarrow> if gc_id goal = i then Some goal else goal_named i cs
      | _ \<Rightarrow> goal_named i cs)"

definition assessment_owner ::
  "'v value_codec \<Rightarrow> 'v task_snapshot \<Rightarrow> 'v goal_assessment
   \<Rightarrow> (task_error, 'v goal_criterion \<times> fact_ref) res" where
  "assessment_owner c prefix a =
     bindr (ok_or (goal_named (ga_criterion_id a) (td_criteria (sn_definition prefix)))
              (InvalidGoal UnknownGoalCriterion)) (\<lambda>criterion.
     andthen (goal_criterion_validate c criterion)
    (bindr (ok_or (bt_get (sn_invocations prefix) (gc_invocation_id criterion))
              (InvalidGoal MissingGoalRoot)) (\<lambda>invocation.
     bindr (ok_or (bt_get (sn_attempts prefix) (ab_attempt_id (ga_attempt a)))
              (InvalidGoal UnknownGoalAttempt)) (\<lambda>attempt.
     bindr (ok_or (as_observation attempt) (InvalidGoal MissingGoalObservation)) (\<lambda>observation.
     if id_role (is_definition invocation) \<noteq> Root
        \<or> id_parent (is_definition invocation) \<noteq> None
        \<or> id_agent (is_definition invocation) \<noteq> td_agent (sn_definition prefix)
        \<or> id_constraints_digest (is_definition invocation) \<noteq> td_constraints_digest (sn_definition prefix)
        \<or> gc_invocation_id criterion \<noteq> ab_invocation_id (ga_attempt a)
        \<or> is_attempts invocation = []
        \<or> last (is_attempts invocation) \<noteq> ab_attempt_id (ga_attempt a)
        \<or> as_binding attempt \<noteq> ga_attempt a
        \<or> ab_agent (as_binding attempt) \<noteq> id_agent (is_definition invocation)
        \<or> ab_constraints_digest (as_binding attempt) \<noteq> id_constraints_digest (is_definition invocation)
        \<or> ab_input_source (as_binding attempt) \<noteq> id_input_source (is_definition invocation)
        \<or> is_state invocation \<noteq> Completed
        \<or> as_state attempt \<noteq> Completed
        \<or> (case ao_outcome observation of OCompleted _ \<Rightarrow> False | _ \<Rightarrow> True)
        \<or> ga_source a \<noteq> ao_source observation
        \<or> ev_execution (ga_source a) \<noteq> ab_execution (as_binding attempt)
        \<or> ga_predicate_digest a \<noteq> gc_predicate_digest criterion
        \<or> ga_checker a \<noteq> gc_checker criterion
     then Err (InvalidGoal GoalSourceDiffers)
     else
     bindr (ok_or (is_completion_fact invocation) (InvalidGoal MissingGoalFact)) (\<lambda>stopped.
     if fr_stream_id stopped \<noteq> td_task_id (sn_definition prefix)
        \<or> fr_position stopped = 0
        \<or> fr_position stopped > sn_position prefix
     then Err (InvalidGoal GoalCoordinate)
     else Ok (criterion, stopped)))))))"

definition apply_assessment ::
  "'v value_codec \<Rightarrow> 'v task_snapshot \<Rightarrow> 'v goal_assessment \<Rightarrow> 'p fact_record
   \<Rightarrow> (task_error, 'v task_snapshot) res" where
  "apply_assessment c prefix a record =
     bindr (assessment_owner c prefix a) (\<lambda>_.
     if \<exists>saved \<in> set (sn_goal_assessments prefix).
          ga_criterion_id (gr_assessment saved) = ga_criterion_id a
     then Err (InvalidGoal GoalAlreadyAssessed)
     else bindr (assessment_digest c a) (\<lambda>d.
       Ok (prefix\<lparr>sn_goal_assessments := sn_goal_assessments prefix @
             [\<lparr>gr_assessment = a, gr_reference = reference record, gr_assessment_digest = d\<rparr>]\<rparr>)))"

definition goal_waiting :: "'v task_snapshot \<Rightarrow> 'v completion_criterion \<Rightarrow> waiting_reason list" where
  "goal_waiting st criterion =
     (case criterion of
        CGoal goal \<Rightarrow>
          (case bt_get (sn_invocations st) (gc_invocation_id goal) of
             Some i \<Rightarrow>
               if is_state i = Completed then
                 (case find (\<lambda>r. ga_criterion_id (gr_assessment r) = gc_id goal)
                        (rev (sn_goal_assessments st)) of
                    None \<Rightarrow> [WGoalAssessment (gc_id goal) (gc_invocation_id goal)]
                  | Some r \<Rightarrow>
                      if ga_verdict (gr_assessment r) \<noteq> Satisfied
                      then [WGoalUnmet (gc_id goal) (ga_verdict (gr_assessment r))
                              (ga_reason (gr_assessment r))]
                      else [])
               else []
           | None \<Rightarrow> [])
      | _ \<Rightarrow> [])"

definition refresh_goals :: "'v task_snapshot \<Rightarrow> 'v task_snapshot" where
  "refresh_goals st =
     st\<lparr>sn_waiting := sn_waiting st @ concat (map (goal_waiting st) (td_criteria (sn_definition st)))\<rparr>"

fun goal_causes ::
  "'v value_codec \<Rightarrow> 'v task_snapshot option \<Rightarrow> 'v task_event \<Rightarrow> (task_error, fact_ref list) res" where
  "goal_causes c prefix (EGoalAssessed a) =
     bindr (ok_or prefix (InvalidGoal GoalNoPrefix)) (\<lambda>p.
     bindr (assessment_owner c p a) (\<lambda>(_, stopped). Ok [stopped]))"
| "goal_causes c prefix (ECompleted evidence) =
     Ok (concat (map (\<lambda>e. case e of GoalSatisfied _ _ assessment _ \<Rightarrow> [assessment] | _ \<Rightarrow> []) evidence))"
| "goal_causes c prefix _ = Ok []"

fun validate_goal_criteria ::
  "'v value_codec \<Rightarrow> 'v goal_verifier option \<Rightarrow> 'v completion_criterion list \<Rightarrow> (task_error, unit) res" where
  "validate_goal_criteria c verifier [] = Ok ()"
| "validate_goal_criteria c verifier (criterion # rest) =
     andthen
       (case criterion of
          CGoal goal \<Rightarrow>
            andthen (goal_criterion_validate c goal)
              (bindr (ok_or verifier (InvalidGoal VerifierUnavailable)) (\<lambda>v. gv_validate_criterion v goal))
        | _ \<Rightarrow> Ok ())
       (validate_goal_criteria c verifier rest)"

definition has_goal :: "'v task_definition \<Rightarrow> bool" where
  "has_goal d \<longleftrightarrow> (\<exists>c \<in> set (td_criteria d). case c of CGoal _ \<Rightarrow> True | _ \<Rightarrow> False)"

definition verify_event ::
  "'v value_codec \<Rightarrow> 'v goal_verifier option \<Rightarrow> 'v task_snapshot option \<Rightarrow> 'v task_event
   \<Rightarrow> 'p fact_record \<Rightarrow> (task_error, unit) res" where
  "verify_event c verifier prefix event record =
     (case event of
        ERegistered definition' \<Rightarrow> validate_goal_criteria c verifier (td_criteria definition')
      | _ \<Rightarrow>
        (case prefix of
           None \<Rightarrow> Ok ()
         | Some p \<Rightarrow>
             if \<not> has_goal (sn_definition p) then Ok ()
             else
             bindr (ok_or verifier (InvalidGoal VerifierUnavailable)) (\<lambda>v.
             bindr (goal_causes c prefix event) (\<lambda>causes.
             if \<exists>cause \<in> set causes. cause \<notin> set (rc_causes record)
             then Err (InvalidGoal GoalCauseMissing)
             else (case event of
                     EGoalAssessed a \<Rightarrow> gv_verify_assessment v p a
                   | ECompleted evidence \<Rightarrow> gv_verify_completion v p evidence
                   | _ \<Rightarrow> Ok ())))))"

end
