(* ===== verification/Task_Budget.thy ===== *)
theory Task_Budget
  imports Task_Validation
begin

text \<open>
  \<open>crates/kolyan-server/src/tasks/budget.rs\<close>: the immutable ceiling on model Steps of a task
  and the reservations charged against it, one per attempt. Slots are \<open>u32\<close>, the ceiling and
  the running sum \<open>u64\<close>; the sum is checked.
\<close>

definition budget_policy_validate :: "execution_budget_policy \<Rightarrow> (task_error, unit) res" where
  "budget_policy_validate p =
     andthen (identity (bp_id p))
    (andthen (identity (bp_revision p))
    (if bp_max_reserved_steps p = 0 \<or> bp_deadline_at_ms p = 0
     then Err (InvalidEdge BudgetPolicy) else Ok ()))"

fun sum_slots :: "u64 \<Rightarrow> step_reservation list \<Rightarrow> (task_error, u64) res" where
  "sum_slots acc [] = Ok acc"
| "sum_slots acc (slot # slots) =
     bindr (ok_or (checked_add acc (ucast (sr_max_steps slot))) (InvalidEdge ReservationOverflow))
       (\<lambda>acc'. sum_slots acc' slots)"

definition remaining_steps :: "execution_budget_state \<Rightarrow> (task_error, u64) res" where
  "remaining_steps b =
     andthen (budget_policy_validate (bs_policy b))
    (bindr (sum_slots 0 (bt_values (bs_reservations b))) (\<lambda>reserved.
       ok_or (checked_sub (bp_max_reserved_steps (bs_policy b)) reserved)
         (InvalidEdge ReservationExceeds)))"

definition configure ::
  "'v task_snapshot \<Rightarrow> execution_budget_policy \<Rightarrow> 'p fact_record
   \<Rightarrow> (task_error, 'v task_snapshot) res" where
  "configure st policy record =
     andthen (budget_policy_validate policy)
    (if sn_execution_budget st \<noteq> None \<or> sn_attempts st \<noteq> []
     then Err (TransitionEdge BudgetConfigured)
     else Ok (st\<lparr>sn_execution_budget :=
       Some \<lparr>bs_policy = policy, bs_policy_reference = reference record, bs_reservations = []\<rparr>\<rparr>))"

definition reserve ::
  "'v task_snapshot \<Rightarrow> attempt_binding \<Rightarrow> u32 \<Rightarrow> 'p fact_record
   \<Rightarrow> (task_error, 'v task_snapshot) res" where
  "reserve st binding max_steps record =
     (let limit = tl_max_steps_per_turn (td_limits (sn_definition st)) in
      bindr (ok_or (sn_execution_budget st) (TransitionEdge BudgetMissing)) (\<lambda>budget.
      if max_steps = 0 \<or> max_steps > limit then Err (TransitionEdge ReservationRefused)
      else bindr (remaining_steps budget) (\<lambda>remaining.
      if ucast max_steps > remaining
         \<or> bt_contains (bs_reservations budget) (ab_attempt_id binding)
         \<or> bs_policy_reference budget \<notin> set (rc_causes record)
      then Err (TransitionEdge ReservationRefused)
      else Ok (st\<lparr>sn_execution_budget := Some (budget\<lparr>bs_reservations :=
             bt_insert (ab_attempt_id binding)
               \<lparr>sr_binding = binding, sr_max_steps = max_steps\<rparr> (bs_reservations budget)\<rparr>)\<rparr>))))"

section \<open>The charge never passes the ceiling\<close>

definition slots_total :: "execution_budget_state \<Rightarrow> nat" where
  "slots_total b = (\<Sum>slot \<leftarrow> bt_values (bs_reservations b). unat (sr_max_steps slot))"

definition budget_ok :: "execution_budget_state \<Rightarrow> bool" where
  "budget_ok b \<longleftrightarrow> bt_wf (bs_reservations b) \<and> budget_policy_validate (bs_policy b) = Ok () \<and>
     slots_total b \<le> unat (bp_max_reserved_steps (bs_policy b))"

lemma unat_ucast_u32 [simp]: "unat (ucast (w :: u32) :: u64) = unat w"
proof -
  have "unat w < 2 ^ 32" using unsigned_less [of w] by simp
  then show ?thesis by (simp add: unsigned_ucast_eq take_bit_nat_eq_self)
qed

lemma sum_slots_Ok:
  "sum_slots acc slots = Ok r \<longleftrightarrow>
     unat acc + (\<Sum>s \<leftarrow> slots. unat (sr_max_steps s)) < 2 ^ 64 \<and>
     unat r = unat acc + (\<Sum>s \<leftarrow> slots. unat (sr_max_steps s))"
proof (induction slots arbitrary: acc)
  case Nil
  have "unat acc < 2 ^ 64" by (rule unat_lt64)
  then show ?case by (auto simp: word_unat_eq_iff)
next
  case (Cons s slots)
  show ?case
  proof (cases "checked_add acc (ucast (sr_max_steps s))")
    case None
    then show ?thesis by (auto simp: checked_add_def split: if_splits)
  next
    case (Some b)
    with checked_add_Some [OF Some] show ?thesis by (auto simp: Cons.IH)
  qed
qed

lemma sum_list_insert_new:
  "k \<notin> fst ` set m \<Longrightarrow>
   sum_list (map (f \<circ> snd) (bt_insert k v m)) = f v + (sum_list (map (f \<circ> snd) m) :: nat)"
  by (induction k v m rule: bt_insert.induct) auto

lemma remaining_steps_ok:
  assumes "budget_ok b"
  shows "\<exists>r. remaining_steps b = Ok r \<and>
    unat r + slots_total b = unat (bp_max_reserved_steps (bs_policy b))"
proof -
  let ?m = "bp_max_reserved_steps (bs_policy b)"
  have le: "slots_total b \<le> unat ?m" using assms by (simp add: budget_ok_def)
  define w :: u64 where "w = word_of_nat (slots_total b)"
  have w: "unat w = slots_total b"
    using le unat_lt64 [of ?m] by (simp add: w_def unat_of_nat take_bit_eq_mod)
  then have "sum_slots 0 (bt_values (bs_reservations b)) = Ok w"
    using le unat_lt64 [of ?m] by (simp add: sum_slots_Ok slots_total_def)
  moreover have "checked_sub ?m w = Some (?m - w)"
    using w le by (simp add: checked_sub_def word_le_nat_alt)
  moreover have "unat (?m - w) + slots_total b = unat ?m"
    using w le by (simp add: unat_sub word_le_nat_alt)
  ultimately show ?thesis
    using assms by (simp add: remaining_steps_def budget_ok_def)
qed

lemma remaining_steps_not_Panic [simp]: "remaining_steps b \<noteq> Panic"
proof -
  have "sum_slots acc slots \<noteq> Panic" for acc slots
    by (induction slots arbitrary: acc) (auto simp: res_simps)
  then show ?thesis
    by (simp add: remaining_steps_def budget_policy_validate_def res_simps)
qed

lemma configure_not_Panic [simp]: "configure st p r \<noteq> Panic"
  by (simp add: configure_def budget_policy_validate_def res_simps)

lemma reserve_not_Panic [simp]: "reserve st b n r \<noteq> Panic"
  by (simp add: reserve_def res_simps)

lemma configure_Ok:
  "configure st p r = Ok st' \<longleftrightarrow> budget_policy_validate p = Ok () \<and> sn_execution_budget st = None \<and>
     sn_attempts st = [] \<and>
     st' = st\<lparr>sn_execution_budget :=
       Some \<lparr>bs_policy = p, bs_policy_reference = reference r, bs_reservations = []\<rparr>\<rparr>"
  by (auto simp: configure_def res_simps)

lemma reserve_Ok:
  assumes "reserve st binding n record = Ok st'"
  obtains b r where "sn_execution_budget st = Some b" "remaining_steps b = Ok r"
    "0 < n" "n \<le> tl_max_steps_per_turn (td_limits (sn_definition st))" "unat n \<le> unat r"
    "ab_attempt_id binding \<notin> fst ` set (bs_reservations b)"
    "bs_policy_reference b \<in> set (rc_causes record)"
    "st' = st\<lparr>sn_execution_budget := Some (b\<lparr>bs_reservations :=
             bt_insert (ab_attempt_id binding) \<lparr>sr_binding = binding, sr_max_steps = n\<rparr>
               (bs_reservations b)\<rparr>)\<rparr>"
proof -
  have "0 < n" if "n \<noteq> 0" using that by (simp add: word_neq_0_conv)
  then show ?thesis
    using assms that
    by (auto simp: reserve_def res_simps Let_def not_less word_le_nat_alt)
qed

lemma reserve_budget_ok:
  assumes "reserve st binding n record = Ok st'" and "sn_execution_budget st = Some b" and "budget_ok b"
  shows "\<exists>b'. sn_execution_budget st' = Some b' \<and> budget_ok b' \<and>
    bs_policy b' = bs_policy b \<and> slots_total b' = slots_total b + unat n"
proof -
  from assms(1) obtain b1 r where b1: "sn_execution_budget st = Some b1" "remaining_steps b1 = Ok r"
    "unat n \<le> unat r" "ab_attempt_id binding \<notin> fst ` set (bs_reservations b1)"
    "st' = st\<lparr>sn_execution_budget := Some (b1\<lparr>bs_reservations :=
             bt_insert (ab_attempt_id binding) \<lparr>sr_binding = binding, sr_max_steps = n\<rparr>
               (bs_reservations b1)\<rparr>)\<rparr>"
    by (rule reserve_Ok)
  with assms(2) have [simp]: "b1 = b" by simp
  from remaining_steps_ok [OF assms(3)] b1(2)
  have "unat r + slots_total b = unat (bp_max_reserved_steps (bs_policy b))" by auto
  with b1 assms(3) show ?thesis
    by (auto simp: budget_ok_def slots_total_def sum_list_insert_new)
qed

end
