(* ===== verification/Task_Reducer.thy ===== *)
theory Task_Reducer
  imports Task_Goals Task_Budget
begin

text \<open>
  \<open>crates/kolyan-server/src/tasks/reducer.rs\<close>: the transition function \<open>apply\<close> that
  admission and replay share, and \<open>refresh\<close>, which derives the waiting reasons and the task
  state after every event.
\<close>

section \<open>Refreshing\<close>

fun child_waiting ::
  "'v task_snapshot \<Rightarrow> (string, invocation_snapshot) bmap \<Rightarrow> (task_error, waiting_reason list) res" where
  "child_waiting st [] = Ok []"
| "child_waiting st ((k, i) # rest) =
     bindr (required_results st k) (\<lambda>required.
     bindr (child_waiting st rest) (\<lambda>more.
       let pending = filter (\<lambda>child. \<not> has_consumed i child) required in
       Ok (if pending \<noteq> [] then WChildResults pending # more else more)))"

definition attempt_waiting :: "'v task_snapshot \<Rightarrow> waiting_reason list" where
  "attempt_waiting st = concat (map (\<lambda>a. case as_waiting a of None \<Rightarrow> [] | Some w \<Rightarrow> [w])
                                  (bt_values (sn_attempts st)))"

definition any_invocation :: "invocation_state \<Rightarrow> 'v task_snapshot \<Rightarrow> bool" where
  "any_invocation s st \<longleftrightarrow> (\<exists>i \<in> set (bt_values (sn_invocations st)). is_state i = s)"

definition derived_state :: "'v task_snapshot \<Rightarrow> task_state" where
  "derived_state st =
     (if is_terminal (sn_state st) then sn_state st
      else if any_invocation RecoveryRequired st then TRecoveryRequired
      else if any_invocation Running st then TActive
      else if sn_waiting st \<noteq> [] then TWaiting
      else TReady)"

definition refresh :: "'v task_snapshot \<Rightarrow> (task_error, 'v task_snapshot) res" where
  "refresh st =
     bindr (child_waiting st (sn_invocations st)) (\<lambda>children.
       let st1 = refresh_goals (st\<lparr>sn_waiting := attempt_waiting st @ children\<rparr>) in
       Ok (st1\<lparr>sn_state := derived_state st1\<rparr>))"

section \<open>Applying an event\<close>

definition register ::
  "'v value_codec \<Rightarrow> 'v task_definition \<Rightarrow> 'p fact_record \<Rightarrow> (task_error, 'v task_snapshot) res" where
  "register c d record =
     andthen (validate_definition c d)
       (Ok \<lparr>sn_execution_budget = None, sn_goal_assessments = [], sn_definition = d,
            sn_position = rc_position record, sn_state = TReady, sn_usage = usage_default,
            sn_invocations = [], sn_attempts = [], sn_waiting = [], sn_success_evidence = []\<rparr>)"

definition detached_resume :: "'v task_snapshot \<Rightarrow> 'v task_event \<Rightarrow> bool" where
  "detached_resume st event \<longleftrightarrow>
     sn_state st = TCancelled \<and> td_cancellation_policy (sn_definition st) = RootOnly \<and>
     (case event of
        EAttemptResumed binding _ \<Rightarrow>
          (case bt_get (sn_invocations st) (ab_invocation_id binding) of
             Some i \<Rightarrow> id_role (is_definition i) \<noteq> Root | None \<Rightarrow> False)
      | _ \<Rightarrow> False)"

definition stopped_evidence :: "'v task_event \<Rightarrow> bool" where
  "stopped_evidence event \<longleftrightarrow>
     (case event of EAttemptObserved _ \<Rightarrow> True | ERecoveryNeeded _ _ \<Rightarrow> True | _ \<Rightarrow> False)"

definition need_recovery ::
  "'v task_snapshot \<Rightarrow> string \<Rightarrow> string \<Rightarrow> (task_error, 'v task_snapshot) res" where
  "need_recovery st attempt_id why =
     andthen (reason why)
    (bindr (ok_or (bt_get (sn_attempts st) attempt_id) (Transition AttemptUnknown)) (\<lambda>attempt.
     if as_state attempt \<notin> {Running, Suspended, RecoveryRequired}
     then Err (Transition NotRecoverable)
     else
     bindr (update_attempt attempt_id
              (\<lambda>a. a\<lparr>as_state := RecoveryRequired, as_waiting := Some (WRecovery why)\<rparr>) st) (\<lambda>st1.
       update_invocation (ab_invocation_id (as_binding attempt))
         (set_invocation_state RecoveryRequired) st1)))"

fun transition_event ::
  "'v value_codec \<Rightarrow> 'v task_snapshot \<Rightarrow> 'v task_event \<Rightarrow> 'p fact_record
   \<Rightarrow> (task_error, 'v task_snapshot) res" where
  "transition_event c st (EExecutionBudgetConfigured policy) r = configure st policy r"
| "transition_event c st (EBudgetedAttemptStarted binding n) r =
     bindr (reserve st binding n r) (\<lambda>st1. start st1 binding)"
| "transition_event c st (EGoalAssessed a) r = apply_assessment c st a r"
| "transition_event c st (EInvocationAdmitted d) r = admit st d"
| "transition_event c st (EDependencyAdmitted i d) r = add_dependency st i d"
| "transition_event c st (EAttemptStarted binding) r =
     (if sn_execution_budget st \<noteq> None then Err (Transition BudgetedStartRequired)
      else start st binding)"
| "transition_event c st (EAttemptObserved observation) r = observe st observation r"
| "transition_event c st (EAttemptResumed binding checkpoint) r = resume st binding checkpoint"
| "transition_event c st (ERecoveryNeeded attempt why) r = need_recovery st attempt why"
| "transition_event c st (ERetryAuthorized attempt source why) r = authorize_retry st attempt source why"
| "transition_event c st (EResultConsumed i result) r = consume st i result r"
| "transition_event c st (ETerminalResultConsumed i result) r = consume_terminal st i result r"
| "transition_event c st (ECompleted evidence) r = complete st evidence"
| "transition_event c st (ECancelled why) r = cancel st why"
| "transition_event c st (EFailed why) r = andthen (reason why) (Ok (st\<lparr>sn_state := TFailed\<rparr>))"
| "transition_event c st (ERegistered d) r = Panic"

definition apply_event ::
  "'v value_codec \<Rightarrow> 'v task_snapshot option \<Rightarrow> 'v task_event \<Rightarrow> 'p fact_record
   \<Rightarrow> (task_error, 'v task_snapshot) res" where
  "apply_event c snapshot event record =
     (case event of
        ERegistered d \<Rightarrow>
          if snapshot \<noteq> None then Err (Transition AlreadyRegistered) else register c d record
      | _ \<Rightarrow>
        bindr (ok_or snapshot (Transition MissingRegistration)) (\<lambda>st.
        if is_terminal (sn_state st) \<and> \<not> detached_resume st event \<and> \<not> stopped_evidence event
        then Err (Transition TaskTerminal)
        else bindr (transition_event c st event record) (\<lambda>st1.
               refresh (st1\<lparr>sn_position := rc_position record\<rparr>))))"

end
