(* ===== verification/Task_Graph.thy ===== *)
theory Task_Graph
  imports Task_Reducer
begin

text \<open>
  The two graphs of a task: the dependency graph, on which the depth-first search \<open>reaches\<close>
  decides reachability, and the forest of parents, on which the ancestor walk of \<open>admit\<close>
  counts levels. Both depend on the definitions of the invocations only.
\<close>

definition defs :: "(string \<rightharpoonup> invocation_snapshot) \<Rightarrow> (string \<rightharpoonup> invocation_definition)" where
  "defs I = (\<lambda>k. map_option is_definition (I k))"

definition dep_rel :: "(string \<rightharpoonup> invocation_definition) \<Rightarrow> (string \<times> string) set" where
  "dep_rel D = {(a, b). \<exists>d. D a = Some d \<and> b \<in> set (id_dependencies d)}"

lemma dom_defs [simp]: "dom (defs I) = dom I"
  by (auto simp: defs_def dom_def)

lemma defs_upd [simp]: "defs (I(k \<mapsto> i)) = (defs I)(k \<mapsto> is_definition i)"
  by (auto simp: defs_def)

section \<open>Depth-first search\<close>

lemma reaches_seen:
  "reaches_from n m v target seen = Some (b, s) \<Longrightarrow> seen \<subseteq> s"
  "reaches_any n m ds target seen = Some (b, s) \<Longrightarrow> seen \<subseteq> s"
proof (induction n m v target seen and n m ds target seen arbitrary: b s and b s
    rule: reaches_from_reaches_any.induct)
  case (4 n m d ds target seen)
  from "4.prems" obtain f s1 where s1: "reaches_from n m d target seen = Some (f, s1)"
    and rest: "f \<and> s = s1 \<or> \<not> f \<and> reaches_any n m ds target s1 = Some (b, s)"
    by (auto split: if_splits option.splits prod.splits)
  from "4.IH"(1) [OF s1] "4.IH"(2) [OF s1 refl] rest show ?case by auto
qed (auto split: if_splits option.splits)

lemma reaches_sound:
  "reaches_from n m v target seen = Some (True, s) \<Longrightarrow> (v, target) \<in> (dep_rel (defs (bt_get m)))\<^sup>*"
  "reaches_any n m ds target seen = Some (True, s) \<Longrightarrow>
     \<exists>d \<in> set ds. (d, target) \<in> (dep_rel (defs (bt_get m)))\<^sup>*"
proof (induction n m v target seen and n m ds target seen arbitrary: s and s
    rule: reaches_from_reaches_any.induct)
  case (2 n m v target seen)
  show ?case
  proof (cases "v = target")
    case False
    with "2.prems" obtain i where i: "bt_get m v = Some i" "v \<notin> seen"
      "reaches_any n m (id_dependencies (is_definition i)) target (insert v seen) = Some (True, s)"
      by (auto split: if_splits option.splits)
    with "2.IH" False obtain d where "d \<in> set (id_dependencies (is_definition i))"
      "(d, target) \<in> (dep_rel (defs (bt_get m)))\<^sup>*" by blast
    moreover from this(1) i(1) have "(v, d) \<in> dep_rel (defs (bt_get m))"
      by (auto simp: dep_rel_def defs_def)
    ultimately show ?thesis by (meson converse_rtrancl_into_rtrancl)
  qed simp
qed (auto split: if_splits option.splits prod.splits)

lemma reaches_closed:
  "reaches_from n m v target seen = Some (False, s) \<Longrightarrow> target \<notin> seen \<Longrightarrow>
     v \<in> s \<and> target \<notin> s \<and> (\<forall>a \<in> s - seen. dep_rel (defs (bt_get m)) `` {a} \<subseteq> s)"
  "reaches_any n m ds target seen = Some (False, s) \<Longrightarrow> target \<notin> seen \<Longrightarrow>
     set ds \<subseteq> s \<and> target \<notin> s \<and> (\<forall>a \<in> s - seen. dep_rel (defs (bt_get m)) `` {a} \<subseteq> s)"
proof (induction n m v target seen and n m ds target seen arbitrary: s and s
    rule: reaches_from_reaches_any.induct)
  case (2 n m v target seen)
  from "2.prems"(1) have vt: "v \<noteq> target" by (auto split: if_splits)
  show ?case
  proof (cases "v \<in> seen")
    case True
    with "2.prems" vt show ?thesis by auto
  next
    case new: False
    show ?thesis
    proof (cases "bt_get m v")
      case None
      with "2.prems" vt new show ?thesis by (auto simp: dep_rel_def defs_def)
    next
      case (Some i)
      with "2.prems"(1) vt new
      have r: "reaches_any n m (id_dependencies (is_definition i)) target (insert v seen) = Some (False, s)"
        by simp
      with "2.IH" [OF vt new Some r] "2.prems"(2) vt
      have c: "set (id_dependencies (is_definition i)) \<subseteq> s" "target \<notin> s"
        "\<forall>a \<in> s - insert v seen. dep_rel (defs (bt_get m)) `` {a} \<subseteq> s" by auto
      have "dep_rel (defs (bt_get m)) `` {v} \<subseteq> s"
        using c(1) Some by (auto simp: dep_rel_def defs_def)
      with c reaches_seen(2) [OF r] show ?thesis by blast
    qed
  qed
next
  case (4 n m d ds target seen)
  from "4.prems"(1) obtain s1 where s1: "reaches_from n m d target seen = Some (False, s1)"
    and s: "reaches_any n m ds target s1 = Some (False, s)"
    by (auto split: if_splits option.splits prod.splits)
  from "4.IH"(1) [OF s1 "4.prems"(2)] have c1: "d \<in> s1" "target \<notin> s1"
    "\<forall>a \<in> s1 - seen. dep_rel (defs (bt_get m)) `` {a} \<subseteq> s1" by auto
  from "4.IH"(2) [OF s1 refl] s c1(2) have c2: "set ds \<subseteq> s" "target \<notin> s"
    "\<forall>a \<in> s - s1. dep_rel (defs (bt_get m)) `` {a} \<subseteq> s" by auto
  have "\<forall>a \<in> s - seen. dep_rel (defs (bt_get m)) `` {a} \<subseteq> s"
    using reaches_seen(2) [OF s] c1(3) c2(3) by blast
  with reaches_seen(2) [OF s] c1 c2 show ?case by auto
qed auto

lemma reaches_enough:
  "card (fst ` set m - seen) < n \<Longrightarrow> reaches_from n m v target seen \<noteq> None"
  "card (fst ` set m - seen) < n \<Longrightarrow> reaches_any n m ds target seen \<noteq> None"
proof (induction n m v target seen and n m ds target seen rule: reaches_from_reaches_any.induct)
  case (2 n m v target seen)
  show ?case
  proof (cases "v = target \<or> v \<in> seen \<or> bt_get m v = None")
    case False
    then obtain i where i: "bt_get m v = Some i" "v \<noteq> target" "v \<notin> seen" by auto
    then have "v \<in> fst ` set m - seen" by (auto simp: bt_key_get)
    then have "card (fst ` set m - seen - {v}) < card (fst ` set m - seen)"
      by (intro card_Diff1_less) auto
    moreover have "fst ` set m - seen - {v} = fst ` set m - insert v seen" by auto
    ultimately have "card (fst ` set m - insert v seen) < n" using "2.prems" by simp
    with "2.IH" [OF i(2,3,1)] i show ?thesis by simp
  qed auto
next
  case (4 n m d ds target seen)
  from "4.IH"(1) [OF "4.prems"] obtain b s1 where s1: "reaches_from n m d target seen = Some (b, s1)"
    by auto
  show ?case
  proof (cases b)
    case False
    have "card (fst ` set m - s1) \<le> card (fst ` set m - seen)"
      using reaches_seen(1) [OF s1] by (intro card_mono) auto
    with "4.prems" have "card (fst ` set m - s1) < n" by simp
    with "4.IH"(2) [OF s1 refl False] s1 False show ?thesis by simp
  qed (use s1 in simp)
qed auto

lemma rtrancl_closed:
  "(a, b) \<in> R\<^sup>* \<Longrightarrow> a \<in> s \<Longrightarrow> (\<forall>x \<in> s. R `` {x} \<subseteq> s) \<Longrightarrow> b \<in> s"
  by (induction rule: rtrancl_induct) auto

lemma reaches_iff:
  "reaches st v target = Ok ((v, target) \<in> (dep_rel (defs (bt_get (sn_invocations st))))\<^sup>*)"
proof -
  let ?m = "sn_invocations st" and ?R = "dep_rel (defs (bt_get (sn_invocations st)))"
  have "card (fst ` set ?m) \<le> length ?m" by (metis card_length length_map list.set_map)
  then have "reaches_from (Suc (length ?m)) ?m v target {} \<noteq> None"
    by (intro reaches_enough(1)) simp
  then obtain b s where bs: "reaches_from (Suc (length ?m)) ?m v target {} = Some (b, s)"
    by (metis not_None_eq surj_pair)
  have "b \<longleftrightarrow> (v, target) \<in> ?R\<^sup>*"
  proof
    assume b
    with bs have "reaches_from (Suc (length ?m)) ?m v target {} = Some (True, s)" by (simp only:)
    then show "(v, target) \<in> ?R\<^sup>*" by (rule reaches_sound(1))
  next
    assume r: "(v, target) \<in> ?R\<^sup>*"
    show b
    proof (rule ccontr)
      assume "\<not> b"
      with bs have "reaches_from (Suc (length ?m)) ?m v target {} = Some (False, s)" by (simp only:)
      from reaches_closed(1) [OF this] rtrancl_closed [OF r, of s] show False by auto
    qed
  qed
  with bs show ?thesis by (simp only: reaches_def option.case prod.case)
qed

lemma reaches_not_Panic [simp]: "reaches st v target \<noteq> Panic"
  by (simp add: reaches_iff)

section \<open>Ancestors\<close>

text \<open>
  \<open>ancestry D k len n\<close>: the chain of parents of \<open>k\<close> ends after \<open>len\<close> edges, \<open>n\<close> of
  which belong to invocations that are not continuations.
\<close>

inductive ancestry :: "(string \<rightharpoonup> invocation_definition) \<Rightarrow> string \<Rightarrow> nat \<Rightarrow> nat \<Rightarrow> bool" for D where
  top: "D k = Some d \<Longrightarrow> id_parent d = None \<Longrightarrow> ancestry D k 0 0"
| up: "D k = Some d \<Longrightarrow> id_parent d = Some p \<Longrightarrow> ancestry D p len n \<Longrightarrow>
       ancestry D k (Suc len) (if id_role d = Continuation then n else Suc n)"

inductive_cases ancestryE: "ancestry D k len n"

lemma ancestry_depth:
  "ancestry (defs (bt_get m)) k len n \<Longrightarrow> bt_get m k = Some i \<Longrightarrow> len < fuel \<Longrightarrow>
   ancestor_depth fuel m i = Some n"
proof (induction arbitrary: i fuel rule: ancestry.induct)
  case (top k d)
  then show ?case by (cases fuel) (auto simp: defs_def)
next
  case (up k d p len n)
  then have d: "is_definition i = d" by (simp add: defs_def)
  from up.hyps(3) obtain j where "bt_get m p = Some j"
    by (cases rule: ancestry.cases) (auto simp: defs_def)
  with up d show ?case by (cases fuel) auto
qed

lemma ancestry_mono: "ancestry D k len n \<Longrightarrow> D \<subseteq>\<^sub>m E \<Longrightarrow> ancestry E k len n"
proof (induction rule: ancestry.induct)
  case (top k d)
  then have "E k = Some d" by (metis domI map_le_def)
  with top show ?case by (intro ancestry.top)
next
  case (up k d p len n)
  then have "E k = Some d" by (metis domI map_le_def)
  with up show ?case by (intro ancestry.up)
qed

lemma ancestry_deps:
  assumes "ancestry D k len n" and x: "D x = Some d"
  shows "ancestry (D(x \<mapsto> d\<lparr>id_dependencies := ds\<rparr>)) k len n"
  using assms(1)
proof (induction rule: ancestry.induct)
  case (top k d')
  show ?case
  proof (rule ancestry.top)
    show "(D(x \<mapsto> d\<lparr>id_dependencies := ds\<rparr>)) k =
        Some (if k = x then d\<lparr>id_dependencies := ds\<rparr> else d')" using top by simp
    show "id_parent (if k = x then d\<lparr>id_dependencies := ds\<rparr> else d') = None" using top x by auto
  qed
next
  case (up k d' p len n)
  let ?e = "if k = x then d\<lparr>id_dependencies := ds\<rparr> else d'"
  have "id_role ?e = id_role d'" "id_parent ?e = Some p" using up.hyps x by auto
  moreover have "(D(x \<mapsto> d\<lparr>id_dependencies := ds\<rparr>)) k = Some ?e" using up.hyps by simp
  ultimately show ?case using ancestry.up [OF _ _ up.IH, of k ?e] by metis
qed

end
