(* ===== verification/Task_Invariant.thy ===== *)
theory Task_Invariant
  imports Task_Graph
begin

text \<open>
  Well-formed snapshots. \<open>snapshot_wf\<close> says how the maps of a \<open>TaskSnapshot\<close> fit together:
  an invocation lists exactly its attempts, all but the last of which have failed, and its state
  is that of the last one; the dependency graph is acyclic and the parents form a forest with one
  root and bounded depth; identities are never shared; the counts stay within the limits of the
  definition; every attempt of a budgeted task holds exactly one reservation. The lemmas treat
  the handful of ways in which an event changes the two maps.
\<close>

lemma bt_get_modify_Some [bt_simps]:
  "bt_get m k = Some v \<Longrightarrow> bt_get (bt_modify k f m) = (bt_get m)(k \<mapsto> f v)"
  by (auto simp: bt_get_modify)

lemma bt_empty_iff: "m = [] \<longleftrightarrow> bt_get m = Map.empty"
  by (rule iffI) auto

section \<open>Invocations and their attempts\<close>

definition inv_ok :: "(string \<rightharpoonup> attempt_snapshot) \<Rightarrow> string \<Rightarrow> invocation_snapshot \<Rightarrow> bool" where
  "inv_ok A k i \<longleftrightarrow> distinct (is_attempts i) \<and>
     (\<forall>x \<in> set (is_attempts i). \<exists>a. A x = Some a \<and> ab_invocation_id (as_binding a) = k) \<and>
     (\<forall>x \<in> set (butlast (is_attempts i)). \<exists>a. A x = Some a \<and> as_state a = Failed) \<and>
     (if is_attempts i = [] then is_state i \<in> {Admitted, Cancelled}
      else \<exists>a. A (last (is_attempts i)) = Some a \<and> as_state a = is_state i) \<and>
     (is_completion_fact i \<noteq> None \<longleftrightarrow> is_state i = Completed) \<and>
     (is_terminal_fact i \<noteq> None \<longrightarrow> is_state i \<in> {Completed, Failed, Cancelled}) \<and>
     (is_state i = Completed \<longrightarrow> is_terminal_fact i = is_completion_fact i)"

definition completed_with :: "attempt_snapshot \<Rightarrow> completion_evidence list option" where
  "completed_with a = (case as_observation a of
     Some obs \<Rightarrow> (case ao_outcome obs of OCompleted evidence \<Rightarrow> Some evidence | _ \<Rightarrow> None)
   | None \<Rightarrow> None)"

definition suspended_on :: "attempt_snapshot \<Rightarrow> task_suspension option" where
  "suspended_on a = (case as_waiting a of Some (WSuspension w) \<Rightarrow> Some w | _ \<Rightarrow> None)"

definition bound_to :: "attempt_binding \<Rightarrow> invocation_definition \<Rightarrow> bool" where
  "bound_to b d \<longleftrightarrow> ab_agent b = id_agent d \<and> ab_constraints_digest b = id_constraints_digest d \<and>
     ab_input_source b = id_input_source d"

definition att_ok :: "(string \<rightharpoonup> invocation_snapshot) \<Rightarrow> string \<Rightarrow> attempt_snapshot \<Rightarrow> bool" where
  "att_ok I x a \<longleftrightarrow> ab_attempt_id (as_binding a) = x \<and>
     (\<exists>i. I (ab_invocation_id (as_binding a)) = Some i \<and> x \<in> set (is_attempts i) \<and>
        bound_to (as_binding a) (is_definition i)) \<and>
     as_state a \<noteq> Admitted \<and>
     (as_state a = Completed \<longleftrightarrow> completed_with a \<noteq> None) \<and>
     (as_state a = Suspended \<longleftrightarrow> suspended_on a \<noteq> None)"

definition links_ok :: "(string \<rightharpoonup> invocation_snapshot) \<Rightarrow> (string \<rightharpoonup> attempt_snapshot) \<Rightarrow> bool" where
  "links_ok I A \<longleftrightarrow> (\<forall>k i. I k = Some i \<longrightarrow> inv_ok A k i) \<and> (\<forall>x a. A x = Some a \<longrightarrow> att_ok I x a)"

text \<open>What an update of an invocation leaves alone, as far as its attempts are concerned.\<close>

definition same_links :: "invocation_snapshot \<Rightarrow> invocation_snapshot \<Rightarrow> bool" where
  "same_links i i' \<longleftrightarrow> is_attempts i' = is_attempts i \<and> is_state i' = is_state i \<and>
     is_completion_fact i' = is_completion_fact i \<and> is_terminal_fact i' = is_terminal_fact i \<and>
     id_agent (is_definition i') = id_agent (is_definition i) \<and>
     id_constraints_digest (is_definition i') = id_constraints_digest (is_definition i) \<and>
     id_input_source (is_definition i') = id_input_source (is_definition i)"

lemma inv_okD:
  assumes "inv_ok A k i" and "x \<in> set (is_attempts i)"
  shows "\<exists>a. A x = Some a \<and> ab_invocation_id (as_binding a) = k"
  using assms by (simp add: inv_ok_def)

lemma inv_ok_last:
  assumes "inv_ok A k i" and "is_attempts i \<noteq> []"
  shows "\<exists>a. A (last (is_attempts i)) = Some a \<and> as_state a = is_state i \<and>
    ab_invocation_id (as_binding a) = k"
proof -
  from assms have "\<exists>a. A (last (is_attempts i)) = Some a \<and> as_state a = is_state i"
    by (simp add: inv_ok_def)
  with inv_okD [OF assms(1) last_in_set [OF assms(2)]] show ?thesis by auto
qed

lemma links_inv: "links_ok I A \<Longrightarrow> I k = Some i \<Longrightarrow> inv_ok A k i"
  by (simp add: links_ok_def)

lemma links_att: "links_ok I A \<Longrightarrow> A x = Some a \<Longrightarrow> att_ok I x a"
  by (simp add: links_ok_def)

lemma links_empty: "links_ok Map.empty Map.empty"
  by (simp add: links_ok_def)

lemma links_new_invocation:
  assumes "links_ok I A" and "I k = None"
  shows "links_ok (I(k \<mapsto> new_invocation d)) A"
proof -
  have "inv_ok A k (new_invocation d)" by (simp add: inv_ok_def new_invocation_def)
  moreover have "att_ok (I(k \<mapsto> new_invocation d)) x a" if "A x = Some a" for x a
    using links_att [OF assms(1) that] assms(2) by (auto simp: att_ok_def)
  ultimately show ?thesis using assms(1) by (simp add: links_ok_def)
qed

lemma links_same:
  assumes "links_ok I A" and "I k = Some i" and "same_links i i'"
  shows "links_ok (I(k \<mapsto> i')) A"
proof -
  have "inv_ok A k i'"
  proof -
    have eq: "is_attempts i' = is_attempts i" "is_state i' = is_state i"
      "is_completion_fact i' = is_completion_fact i" "is_terminal_fact i' = is_terminal_fact i"
      using assms(3) by (simp_all add: same_links_def)
    from links_inv [OF assms(1,2)] show ?thesis unfolding inv_ok_def eq .
  qed
  moreover have "att_ok (I(k \<mapsto> i')) x a" if "A x = Some a" for x a
  proof -
    have eq: "is_attempts i' = is_attempts i"
      "bound_to (as_binding a) (is_definition i') = bound_to (as_binding a) (is_definition i)"
      using assms(3) by (simp_all add: same_links_def bound_to_def)
    show ?thesis
    proof (cases "ab_invocation_id (as_binding a) = k")
      case True
      with links_att [OF assms(1) that] assms(2) eq show ?thesis by (simp add: att_ok_def)
    next
      case False
      with links_att [OF assms(1) that] show ?thesis by (simp add: att_ok_def)
    qed
  qed
  ultimately show ?thesis using assms(1) by (simp add: links_ok_def)
qed

text \<open>Only the last attempt of an invocation can be in another state than \<open>Failed\<close>.\<close>

lemma links_last:
  assumes l: "links_ok I A" and x: "A x = Some a" and s: "as_state a \<noteq> Failed"
  obtains i where "I (ab_invocation_id (as_binding a)) = Some i" "is_attempts i \<noteq> []"
    "last (is_attempts i) = x" "is_state i = as_state a"
    "inv_ok A (ab_invocation_id (as_binding a)) i" "bound_to (as_binding a) (is_definition i)"
proof -
  from links_att [OF l x] obtain i where i: "I (ab_invocation_id (as_binding a)) = Some i"
    "x \<in> set (is_attempts i)" "bound_to (as_binding a) (is_definition i)" by (auto simp: att_ok_def)
  note ok = links_inv [OF l i(1)]
  have "x \<notin> set (butlast (is_attempts i))" using ok x s by (auto simp: inv_ok_def)
  moreover have "is_attempts i = butlast (is_attempts i) @ [last (is_attempts i)]"
    using i(2) by (cases "is_attempts i" rule: rev_cases) auto
  ultimately have "last (is_attempts i) = x" using i(2)
    by (metis Un_iff empty_iff insert_iff list.set(1) list.set(2) set_append)
  with that i ok x show ?thesis by (auto simp: inv_ok_def split: if_splits)
qed

lemma links_retarget:
  assumes l: "links_ok I A" and i: "I k = Some i" and ne: "is_attempts i \<noteq> []"
    and x: "x = last (is_attempts i)" "A x = Some a"
    and i': "is_attempts i' = is_attempts i" "is_definition i' = is_definition i" "is_state i' = as_state a'"
    and f: "is_completion_fact i' \<noteq> None \<longleftrightarrow> is_state i' = Completed"
      "is_terminal_fact i' \<noteq> None \<longrightarrow> is_state i' \<in> {Completed, Failed, Cancelled}"
      "is_state i' = Completed \<longrightarrow> is_terminal_fact i' = is_completion_fact i'"
    and a': "as_binding a' = as_binding a" "as_state a' \<noteq> Admitted"
      "as_state a' = Completed \<longleftrightarrow> completed_with a' \<noteq> None"
      "as_state a' = Suspended \<longleftrightarrow> suspended_on a' \<noteq> None"
  shows "links_ok (I(k \<mapsto> i')) (A(x \<mapsto> a'))"
proof -
  note ok = links_inv [OF l i]
  have d: "distinct (is_attempts i)" using ok by (simp add: inv_ok_def)
  have nx: "x \<notin> set (butlast (is_attempts i))"
    using d ne x(1) by (metis append_butlast_last_id distinct_butlast not_distinct_conv_prefix)
  have ka: "ab_invocation_id (as_binding a) = k"
    using inv_ok_last [OF ok ne] x by auto
  have "inv_ok (A(x \<mapsto> a')) k i'"
    using ok i' f a' ne x nx ka unfolding inv_ok_def by auto
  moreover have "inv_ok (A(x \<mapsto> a')) j q" if "I j = Some q" "j \<noteq> k" for j q
  proof -
    note okq = links_inv [OF l that(1)]
    have "x \<notin> set (is_attempts q)" using okq x(2) ka that(2) by (auto simp: inv_ok_def)
    moreover from this have "x \<notin> set (butlast (is_attempts q))" by (metis in_set_butlastD)
    moreover have "is_attempts q \<noteq> [] \<Longrightarrow> last (is_attempts q) \<noteq> x"
      using calculation(1) by (metis last_in_set)
    ultimately show ?thesis using okq unfolding inv_ok_def by auto
  qed
  moreover have "att_ok (I(k \<mapsto> i')) x a'"
    using links_att [OF l x(2)] a' i' i ka by (auto simp: att_ok_def)
  moreover have "att_ok (I(k \<mapsto> i')) y b" if "A y = Some b" for y b
    using links_att [OF l that] i' i by (auto simp: att_ok_def)
  ultimately show ?thesis by (simp add: links_ok_def)
qed

lemma links_start:
  assumes l: "links_ok I A" and i: "I k = Some i" and x: "A x = None"
    and b: "ab_attempt_id b = x" "ab_invocation_id b = k" "bound_to b (is_definition i)"
    and s: "is_state i = Admitted \<or>
      is_state i = Failed \<and> is_attempts i \<noteq> []"
    and i': "is_attempts i' = is_attempts i @ [x]" "is_definition i' = is_definition i"
      "is_state i' = Running" "is_terminal_fact i' = None" "is_completion_fact i' = is_completion_fact i"
  shows "links_ok (I(k \<mapsto> i')) (A(x \<mapsto> new_attempt b))"
proof -
  note ok = links_inv [OF l i]
  have other: "inv_ok (A(x \<mapsto> a)) j q" if "inv_ok A j q" for j q a
  proof -
    have "x \<notin> set (is_attempts q)" using that x by (auto simp: inv_ok_def)
    moreover from this have "x \<notin> set (butlast (is_attempts q))" by (metis in_set_butlastD)
    moreover have "is_attempts q \<noteq> [] \<Longrightarrow> last (is_attempts q) \<noteq> x"
      using calculation(1) by (metis last_in_set)
    ultimately show ?thesis using that unfolding inv_ok_def by auto
  qed
  have nx: "x \<notin> set (is_attempts i)" using ok x by (auto simp: inv_ok_def)
  have failed: "\<exists>a. A y = Some a \<and> as_state a = Failed" if y: "y \<in> set (is_attempts i)" for y
  proof -
    have ne: "is_attempts i \<noteq> []" using y by auto
    from inv_ok_last [OF ok ne] obtain a where
      a: "A (last (is_attempts i)) = Some a" "as_state a = is_state i" by blast
    moreover from links_att [OF l a(1)] have "as_state a \<noteq> Admitted" by (simp add: att_ok_def)
    ultimately have last: "\<exists>a. A (last (is_attempts i)) = Some a \<and> as_state a = Failed"
      using s by auto
    have "y \<in> set (butlast (is_attempts i)) \<or> y = last (is_attempts i)"
      using y ne by (metis append_butlast_last_id in_set_conv_decomp rotate1.simps(2) set_ConsD set_rotate1)
    with ok last show ?thesis by (auto simp: inv_ok_def)
  qed
  have none: "is_completion_fact i' = None" using ok s i'(5) by (auto simp: inv_ok_def)
  have "inv_ok (A(x \<mapsto> new_attempt b)) k i'"
    using ok i' none nx failed b unfolding inv_ok_def by (auto simp: new_attempt_def)
  moreover have "att_ok (I(k \<mapsto> i')) x (new_attempt b)"
    using b i' by (auto simp: att_ok_def new_attempt_def completed_with_def suspended_on_def)
  moreover have "att_ok (I(k \<mapsto> i')) y a" if "A y = Some a" for y a
    using links_att [OF l that] i' i by (auto simp: att_ok_def)
  ultimately show ?thesis using other links_inv [OF l] by (simp add: links_ok_def)
qed

section \<open>Dependencies and parents\<close>

definition topology_ok :: "nat \<Rightarrow> (string \<rightharpoonup> invocation_definition) \<Rightarrow> bool" where
  "topology_ok depth D \<longleftrightarrow> finite (dom D) \<and>
     (\<forall>k d. D k = Some d \<longrightarrow> id_invocation_id d = k \<and> set (id_dependencies d) \<subseteq> dom D \<and>
        distinct (id_dependencies d) \<and> (id_role d = Root \<longleftrightarrow> id_parent d = None) \<and>
        role_source_agree (id_role d) (id_input_source d) \<and>
        (\<exists>len n. ancestry D k len n \<and> len < card (dom D) \<and> n \<le> depth)) \<and>
     (\<forall>j k d e. D j = Some d \<longrightarrow> D k = Some e \<longrightarrow> id_role d = Root \<longrightarrow> id_role e = Root \<longrightarrow> j = k) \<and>
     acyclic (dep_rel D)"

lemma topology_D:
  assumes "topology_ok depth D" and "D k = Some d"
  shows "id_invocation_id d = k" "set (id_dependencies d) \<subseteq> dom D" "distinct (id_dependencies d)"
    "id_role d = Root \<longleftrightarrow> id_parent d = None"
    "\<exists>len n. ancestry D k len n \<and> len < card (dom D) \<and> n \<le> depth"
  using assms unfolding topology_ok_def by blast+

lemma topology_empty: "topology_ok depth Map.empty"
  by (simp add: topology_ok_def dep_rel_def acyclic_def)

lemma dep_rel_dom: "topology_ok depth D \<Longrightarrow> (a, b) \<in> dep_rel D \<Longrightarrow> a \<in> dom D \<and> b \<in> dom D"
  using topology_D(2) [of depth D a] by (auto simp: dep_rel_def)

lemma dep_rel_new:
  "D k = None \<Longrightarrow> dep_rel (D(k \<mapsto> d)) = dep_rel D \<union> (\<lambda>b. (k, b)) ` set (id_dependencies d)"
  by (auto simp: dep_rel_def split: if_splits)

lemma dep_rel_push:
  "D k = Some d \<Longrightarrow> dep_rel (D(k \<mapsto> d\<lparr>id_dependencies := id_dependencies d @ [x]\<rparr>))
     = insert (k, x) (dep_rel D)"
  by (auto simp: dep_rel_def split: if_splits)

lemma acyclic_add_source:
  assumes "acyclic R" and "k \<notin> Range R" and "k \<notin> C"
  shows "acyclic (R \<union> (\<lambda>b. (k, b)) ` C)"
proof -
  have "acyclic (R\<inverse> \<union> (\<lambda>b. (b, k)) ` C)"
    using assms by (intro acyclic_add_sink) (auto simp: acyclic_converse)
  moreover have "R\<inverse> \<union> (\<lambda>b. (b, k)) ` C = (R \<union> (\<lambda>b. (k, b)) ` C)\<inverse>" by auto
  ultimately show ?thesis by (simp only: acyclic_converse)
qed

lemma topology_insert:
  assumes t: "topology_ok depth D" and new: "D k = None"
    and d: "id_invocation_id d = k" "set (id_dependencies d) \<subseteq> dom D" "distinct (id_dependencies d)"
      "role_source_agree (id_role d) (id_input_source d)" "id_role d = Root \<longleftrightarrow> id_parent d = None"
    and root: "id_role d = Root \<Longrightarrow> (\<forall>j e. D j = Some e \<longrightarrow> id_role e \<noteq> Root)"
    and up: "\<And>p. id_parent d = Some p \<Longrightarrow> \<exists>len n. ancestry D p len n \<and> len < card (dom D) \<and>
        (if id_role d = Continuation then n else Suc n) \<le> depth"
  shows "topology_ok depth (D(k \<mapsto> d))"
proof -
  let ?E = "D(k \<mapsto> d)"
  have fin: "finite (dom D)" using t by (simp add: topology_ok_def)
  have le: "D \<subseteq>\<^sub>m ?E" using new by (auto simp: map_le_def)
  have "k \<notin> dom D" using new by blast
  with fin have card: "card (dom ?E) = Suc (card (dom D))" by simp
  have anc: "\<exists>len n. ancestry ?E k len n \<and> len < card (dom ?E) \<and> n \<le> depth"
  proof (cases "id_parent d")
    case None
    then have "ancestry ?E k 0 0" by (intro ancestry.top) simp_all
    with card show ?thesis by (intro exI [of _ 0]) simp
  next
    case (Some p)
    from up [OF Some] obtain len n where n: "ancestry D p len n" "len < card (dom D)"
      "(if id_role d = Continuation then n else Suc n) \<le> depth" by blast
    have "ancestry ?E k (Suc len) (if id_role d = Continuation then n else Suc n)"
      by (rule ancestry.up [where p = p]) (use Some ancestry_mono [OF n(1) le] in simp_all)
    with n card show ?thesis by (intro exI conjI) (auto simp del: fun_upd_apply)
  qed
  have old: "\<exists>len n. ancestry ?E j len n \<and> len < card (dom ?E) \<and> n \<le> depth" if "D j = Some e" for j e
    using topology_D(5) [OF t that] ancestry_mono [OF _ le] card by (metis less_SucI)
  have "k \<notin> Range (dep_rel D)" using dep_rel_dom [OF t] new by (metis Range.cases domIff)
  then have "acyclic (dep_rel ?E)"
    using t new d(2) unfolding dep_rel_new [where D = D and k = k, OF new]
    by (intro acyclic_add_source) (auto simp: topology_ok_def domIff)
  moreover have "j = i" if "?E j = Some e" "?E i = Some f" "id_role e = Root" "id_role f = Root" for i j e f
  proof (cases "j = k \<or> i = k")
    case True
    with that root show ?thesis by (auto split: if_splits)
  next
    case False
    with that have "D j = Some e" "D i = Some f" by simp_all
    with that t show ?thesis unfolding topology_ok_def by blast
  qed
  moreover have "id_invocation_id e = j \<and> set (id_dependencies e) \<subseteq> dom ?E \<and>
      distinct (id_dependencies e) \<and> (id_role e = Root \<longleftrightarrow> id_parent e = None) \<and>
      role_source_agree (id_role e) (id_input_source e) \<and>
      (\<exists>len n. ancestry ?E j len n \<and> len < card (dom ?E) \<and> n \<le> depth)" if "?E j = Some e" for j e
  proof (cases "j = k")
    case True
    with that have "e = d" by simp
    with True d anc show ?thesis by auto
  next
    case False
    with that have e: "D j = Some e" by simp
    moreover have "dom D \<subseteq> dom ?E" by auto
    moreover have "role_source_agree (id_role e) (id_input_source e)"
      using t e by (simp add: topology_ok_def)
    ultimately show ?thesis using topology_D(1-4) [OF t e] old [OF e] by blast
  qed
  moreover have "finite (dom ?E)" using fin by simp
  ultimately show ?thesis unfolding topology_ok_def by blast
qed

lemma topology_push:
  assumes t: "topology_ok depth D" and k: "D k = Some d" and x: "x \<in> dom D" "x \<notin> set (id_dependencies d)"
    and acy: "(x, k) \<notin> (dep_rel D)\<^sup>*"
  shows "topology_ok depth (D(k \<mapsto> d\<lparr>id_dependencies := id_dependencies d @ [x]\<rparr>))"
proof -
  let ?d = "d\<lparr>id_dependencies := id_dependencies d @ [x]\<rparr>" and
    ?E = "D(k \<mapsto> d\<lparr>id_dependencies := id_dependencies d @ [x]\<rparr>)"
  have dom: "dom ?E = dom D" using k by auto
  have "\<exists>len n. ancestry ?E j len n \<and> len < card (dom ?E) \<and> n \<le> depth" if "D j = Some e" for j e
    unfolding dom using topology_D(5) [OF t that] ancestry_deps [where D = D and x = k and d = d, OF _ k] by blast
  moreover have "acyclic (dep_rel ?E)"
    unfolding dep_rel_push [where D = D and k = k and d = d, OF k] acyclic_insert using t acy by (simp add: topology_ok_def)
  moreover have "j = i" if "?E j = Some e" "?E i = Some f" "id_role e = Root" "id_role f = Root" for i j e f
  proof -
    from that k obtain e' f' where "D j = Some e'" "D i = Some f'" "id_role e' = Root" "id_role f' = Root"
      by (auto split: if_splits)
    then show ?thesis using t unfolding topology_ok_def by blast
  qed
  moreover have "id_invocation_id e = j \<and> set (id_dependencies e) \<subseteq> dom ?E \<and>
      distinct (id_dependencies e) \<and> (id_role e = Root \<longleftrightarrow> id_parent e = None) \<and>
      role_source_agree (id_role e) (id_input_source e)" if "?E j = Some e" for j e
  proof (cases "j = k")
    case True
    with that have "e = ?d" by simp
    with True topology_D(1-4) [OF t k] x t k show ?thesis
      unfolding dom by (auto simp: topology_ok_def)
  next
    case False
    with that have "D j = Some e" by simp
    with t show ?thesis unfolding dom topology_ok_def by blast
  qed
  moreover have "finite (dom ?E)" unfolding dom using t by (simp add: topology_ok_def)
  moreover have "\<exists>e'. D j = Some e'" if "?E j = Some e" for j e using that k by (auto split: if_splits)
  ultimately show ?thesis unfolding topology_ok_def by blast
qed

section \<open>Identities\<close>

abbreviation execution_id :: "attempt_snapshot \<Rightarrow> string" where
  "execution_id a \<equiv> er_execution_id (ab_execution (as_binding a))"

definition ids_ok :: "string \<Rightarrow> (string \<rightharpoonup> invocation_snapshot) \<Rightarrow> (string \<rightharpoonup> attempt_snapshot) \<Rightarrow> bool" where
  "ids_ok t I A \<longleftrightarrow> I t = None \<and> A t = None \<and> dom I \<inter> dom A = {} \<and>
     (\<forall>x a. A x = Some a \<longrightarrow> execution_id a \<noteq> t \<and> execution_id a \<notin> dom I \<and> execution_id a \<notin> dom A) \<and>
     (\<forall>x y a b. A x = Some a \<longrightarrow> A y = Some b \<longrightarrow> execution_id a = execution_id b \<longrightarrow> x = y)"

lemma ids_insert_invocation:
  assumes "ids_ok t I A" and "k \<noteq> t" and "A k = None" and "\<forall>x a. A x = Some a \<longrightarrow> execution_id a \<noteq> k"
  shows "ids_ok t (I(k \<mapsto> i)) A"
  using assms unfolding ids_ok_def by auto

lemma ids_insert_attempt:
  assumes ok: "ids_ok t I A" and x: "x \<noteq> t" "I x = None" "A x = None"
      "\<forall>y b. A y = Some b \<longrightarrow> execution_id b \<noteq> x"
    and e: "execution_id a \<noteq> t" "I (execution_id a) = None" "A (execution_id a) = None"
      "\<forall>y b. A y = Some b \<longrightarrow> execution_id b \<noteq> execution_id a" "x \<noteq> execution_id a"
  shows "ids_ok t I (A(x \<mapsto> a))"
  using assms unfolding ids_ok_def by (intro conjI allI impI) (auto split: if_splits)

lemma ids_same:
  assumes "ids_ok t I A" and "dom I' = dom I"
    and "\<And>x. map_option as_binding (A' x) = map_option as_binding (A x)"
  shows "ids_ok t I' A'"
proof -
  have A: "\<exists>b. A x = Some b \<and> as_binding b = as_binding a" if "A' x = Some a" for x a
    using assms(3) [of x] that by (cases "A x") auto
  have "A' x = None \<longleftrightarrow> A x = None" for x using assms(3) [of x] by (metis map_option_is_None)
  then have "dom A' = dom A" unfolding dom_def by simp
  moreover have "x = y" if "A' x = Some a" "A' y = Some b" "execution_id a = execution_id b" for x y a b
    using A [OF that(1)] A [OF that(2)] that(3) assms(1) unfolding ids_ok_def by metis
  moreover have "execution_id a \<noteq> t \<and> execution_id a \<notin> dom I \<and> execution_id a \<notin> dom A"
    if "A' x = Some a" for x a
    using A [OF that] assms(1) unfolding ids_ok_def by metis
  ultimately show ?thesis using assms(1,2) unfolding ids_ok_def by (metis domIff)
qed

end
