(* ===== verification/Task_Safety.thy ===== *)
theory Task_Safety
  imports Task_Invariant
begin

text \<open>
  The invariant of task snapshots and its preservation by every transition of
  \<open>tasks/reducer.rs\<close>, together with the absence of panics: on a well-formed snapshot no
  \<open>unwrap()\<close> fails, no map is indexed at an absent key and both graph loops end.
\<close>

definition evidence_ok :: "'v task_snapshot \<Rightarrow> (string \<rightharpoonup> attempt_snapshot) \<Rightarrow> bool" where
  "evidence_ok st A \<longleftrightarrow> (\<forall>x a evidence. A x = Some a \<longrightarrow> completed_with a = Some evidence \<longrightarrow>
     validate_evidence st evidence (as_binding a) = Ok ())"

definition budget_links :: "execution_budget_state option \<Rightarrow> (string \<rightharpoonup> attempt_snapshot) \<Rightarrow> bool" where
  "budget_links budget A \<longleftrightarrow> (case budget of None \<Rightarrow> True
     | Some b \<Rightarrow> budget_ok b \<and>
         (\<forall>x. map_option sr_binding (bt_get (bs_reservations b) x) = map_option as_binding (A x)))"

definition assessments_ok ::
  "'v completion_criterion list \<Rightarrow> 'v goal_assessment_record list \<Rightarrow> bool" where
  "assessments_ok cs rs \<longleftrightarrow> distinct (map (\<lambda>r. ga_criterion_id (gr_assessment r)) rs) \<and>
     (\<forall>r \<in> set rs. \<exists>g. goal_named (ga_criterion_id (gr_assessment r)) cs = Some g \<and>
        ga_predicate_digest (gr_assessment r) = gc_predicate_digest g \<and>
        ga_checker (gr_assessment r) = gc_checker g \<and>
        ab_invocation_id (ga_attempt (gr_assessment r)) = gc_invocation_id g)"

definition success_ok :: "'v task_snapshot \<Rightarrow> bool" where
  "success_ok st \<longleftrightarrow> (sn_state st = TCompleted \<longrightarrow>
     (\<forall>k i. bt_get (sn_invocations st) k = Some i \<longrightarrow> is_state i = Completed))"

definition snapshot_wf :: "'v value_codec \<Rightarrow> 'v task_snapshot \<Rightarrow> bool" where
  "snapshot_wf c st \<longleftrightarrow>
     validate_definition c (sn_definition st) = Ok () \<and>
     bt_wf (sn_invocations st) \<and> bt_wf (sn_attempts st) \<and>
     length (sn_invocations st) \<le> unat (tl_max_invocations (td_limits (sn_definition st))) \<and>
     length (sn_attempts st) \<le> unat (tl_max_attempts (td_limits (sn_definition st))) \<and>
     links_ok (bt_get (sn_invocations st)) (bt_get (sn_attempts st)) \<and>
     topology_ok (unat (tl_max_depth (td_limits (sn_definition st)))) (defs (bt_get (sn_invocations st))) \<and>
     ids_ok (td_task_id (sn_definition st)) (bt_get (sn_invocations st)) (bt_get (sn_attempts st)) \<and>
     evidence_ok st (bt_get (sn_attempts st)) \<and>
     budget_links (sn_execution_budget st) (bt_get (sn_attempts st)) \<and>
     assessments_ok (td_criteria (sn_definition st)) (sn_goal_assessments st) \<and>
     success_ok st"

lemma wfD:
  assumes "snapshot_wf c st"
  shows wf_definition: "validate_definition c (sn_definition st) = Ok ()"
    and wf_maps: "bt_wf (sn_invocations st)" "bt_wf (sn_attempts st)"
    and wf_counts: "length (sn_invocations st) \<le> unat (tl_max_invocations (td_limits (sn_definition st)))"
      "length (sn_attempts st) \<le> unat (tl_max_attempts (td_limits (sn_definition st)))"
    and wf_links: "links_ok (bt_get (sn_invocations st)) (bt_get (sn_attempts st))"
    and wf_topology: "topology_ok (unat (tl_max_depth (td_limits (sn_definition st))))
      (defs (bt_get (sn_invocations st)))"
    and wf_ids: "ids_ok (td_task_id (sn_definition st)) (bt_get (sn_invocations st)) (bt_get (sn_attempts st))"
    and wf_evidence: "evidence_ok st (bt_get (sn_attempts st))"
    and wf_budget: "budget_links (sn_execution_budget st) (bt_get (sn_attempts st))"
    and wf_assessments: "assessments_ok (td_criteria (sn_definition st)) (sn_goal_assessments st)"
    and wf_success: "success_ok st"
  using assms unfolding snapshot_wf_def by simp_all

section \<open>What no part of the invariant reads\<close>

lemma validate_items_cong:
  assumes "sn_definition st' = sn_definition st"
  shows "validate_items st' b ids es = validate_items st b ids es"
proof (induction es arbitrary: ids)
  case (Cons e es)
  show ?case by (simp only: validate_items.simps assms Cons.IH)
qed simp

lemma validate_evidence_cong:
  assumes "sn_definition st' = sn_definition st"
  shows "validate_evidence st' es b = validate_evidence st es b"
  by (simp only: validate_evidence_def validate_items_cong [OF assms])

lemma evidence_ok_cong:
  assumes "sn_definition st' = sn_definition st"
  shows "evidence_ok st' A = evidence_ok st A"
  by (simp only: evidence_ok_def validate_evidence_cong [OF assms])

lemma evidence_ok_update [simp]:
  "evidence_ok (st\<lparr>sn_execution_budget := b\<rparr>) A = evidence_ok st A"
  "evidence_ok (st\<lparr>sn_goal_assessments := g\<rparr>) A = evidence_ok st A"
  "evidence_ok (st\<lparr>sn_position := p\<rparr>) A = evidence_ok st A"
  "evidence_ok (st\<lparr>sn_state := s\<rparr>) A = evidence_ok st A"
  "evidence_ok (st\<lparr>sn_usage := u\<rparr>) A = evidence_ok st A"
  "evidence_ok (st\<lparr>sn_invocations := i\<rparr>) A = evidence_ok st A"
  "evidence_ok (st\<lparr>sn_attempts := a\<rparr>) A = evidence_ok st A"
  "evidence_ok (st\<lparr>sn_waiting := w\<rparr>) A = evidence_ok st A"
  "evidence_ok (st\<lparr>sn_success_evidence := e\<rparr>) A = evidence_ok st A"
  by (rule evidence_ok_cong, simp)+

lemma success_ok_update [simp]:
  "success_ok (st\<lparr>sn_execution_budget := b\<rparr>) = success_ok st"
  "success_ok (st\<lparr>sn_goal_assessments := g\<rparr>) = success_ok st"
  "success_ok (st\<lparr>sn_position := p\<rparr>) = success_ok st"
  "success_ok (st\<lparr>sn_usage := u\<rparr>) = success_ok st"
  "success_ok (st\<lparr>sn_attempts := a\<rparr>) = success_ok st"
  "success_ok (st\<lparr>sn_waiting := w\<rparr>) = success_ok st"
  "success_ok (st\<lparr>sn_success_evidence := e\<rparr>) = success_ok st"
  by (simp_all add: success_ok_def)

lemma wf_passive [simp]:
  "snapshot_wf c (st\<lparr>sn_position := p\<rparr>) = snapshot_wf c st"
  "snapshot_wf c (st\<lparr>sn_waiting := w\<rparr>) = snapshot_wf c st"
  "snapshot_wf c (st\<lparr>sn_usage := u\<rparr>) = snapshot_wf c st"
  "snapshot_wf c (st\<lparr>sn_success_evidence := e\<rparr>) = snapshot_wf c st"
  by (simp_all add: snapshot_wf_def)

lemma wf_state:
  assumes "snapshot_wf c st" and "s \<noteq> TCompleted"
  shows "snapshot_wf c (st\<lparr>sn_state := s\<rparr>)"
proof -
  have "success_ok (st\<lparr>sn_state := s\<rparr>)" using assms(2) by (simp add: success_ok_def)
  with assms(1) show ?thesis by (simp add: snapshot_wf_def)
qed

lemma wf_state_done:
  assumes "snapshot_wf c st" and "\<forall>i \<in> set (bt_values (sn_invocations st)). is_state i = Completed"
  shows "snapshot_wf c (st\<lparr>sn_state := TCompleted\<rparr>)"
proof -
  have "is_state i = Completed" if "bt_get (sn_invocations st) k = Some i" for k i
    using assms(2) bt_values_get [OF wf_maps(1) [OF assms(1)], of i] that by blast
  then have "success_ok (st\<lparr>sn_state := TCompleted\<rparr>)" by (simp add: success_ok_def)
  with assms(1) show ?thesis by (simp add: snapshot_wf_def)
qed

lemma wf_same_map:
  assumes "snapshot_wf c st" and "bt_get (sn_invocations st) k = Some i" and "same_links i (f i)"
    and "is_definition (f i) = is_definition i"
  shows "snapshot_wf c (st\<lparr>sn_invocations := bt_modify k f (sn_invocations st)\<rparr>)"
proof -
  let ?I = "bt_get (sn_invocations st)"
  have get: "bt_get (bt_modify k f (sn_invocations st)) = ?I(k \<mapsto> f i)"
    using assms(2) by (simp add: bt_simps)
  have "links_ok (?I(k \<mapsto> f i)) (bt_get (sn_attempts st))"
    by (rule links_same [OF wf_links [OF assms(1)] assms(2,3)])
  moreover have "defs (?I(k \<mapsto> f i)) = defs ?I"
    using assms(2,4) by (auto simp: defs_def)
  moreover have "ids_ok (td_task_id (sn_definition st)) (?I(k \<mapsto> f i)) (bt_get (sn_attempts st))"
    by (rule ids_same [OF wf_ids [OF assms(1)]]) (use assms(2) in auto)
  moreover have "is_state (f i) = is_state i" using assms(3) by (simp add: same_links_def)
  then have "success_ok (st\<lparr>sn_invocations := bt_modify k f (sn_invocations st)\<rparr>)"
    using wf_success [OF assms(1)] assms(2) by (auto simp: success_ok_def get)
  ultimately show ?thesis
    using assms(1) by (simp add: snapshot_wf_def get)
qed

lemma budget_links_same:
  assumes "budget_links b A" and "\<And>x. map_option as_binding (A' x) = map_option as_binding (A x)"
  shows "budget_links b A'"
  using assms by (auto simp: budget_links_def split: option.splits)

text \<open>The change made by observing, resuming, recovering and retrying.\<close>

lemma wf_retarget:
  assumes wf: "snapshot_wf c st" and i: "bt_get (sn_invocations st) k = Some i"
    and ne: "is_attempts i \<noteq> []" "x = last (is_attempts i)" and a: "bt_get (sn_attempts st) x = Some a"
    and nc: "is_state i \<noteq> Completed"
    and f: "is_attempts (f i) = is_attempts i" "is_definition (f i) = is_definition i"
      "is_state (f i) = as_state (g a)"
      "is_completion_fact (f i) \<noteq> None \<longleftrightarrow> is_state (f i) = Completed"
      "is_terminal_fact (f i) \<noteq> None \<longrightarrow> is_state (f i) \<in> {Completed, Failed, Cancelled}"
      "is_state (f i) = Completed \<longrightarrow> is_terminal_fact (f i) = is_completion_fact (f i)"
    and g: "as_binding (g a) = as_binding a" "as_state (g a) \<noteq> Admitted"
      "as_state (g a) = Completed \<longleftrightarrow> completed_with (g a) \<noteq> None"
      "as_state (g a) = Suspended \<longleftrightarrow> suspended_on (g a) \<noteq> None"
    and ev: "\<And>evidence. completed_with (g a) = Some evidence \<Longrightarrow>
      validate_evidence st evidence (as_binding a) = Ok ()"
  shows "snapshot_wf c (st\<lparr>sn_attempts := bt_modify x g (sn_attempts st),
      sn_invocations := bt_modify k f (sn_invocations st)\<rparr>)"
proof -
  let ?I = "bt_get (sn_invocations st)" and ?A = "bt_get (sn_attempts st)"
  have get: "bt_get (bt_modify k f (sn_invocations st)) = ?I(k \<mapsto> f i)"
    "bt_get (bt_modify x g (sn_attempts st)) = ?A(x \<mapsto> g a)"
    using i a by (simp_all add: bt_simps)
  have same: "map_option as_binding ((?A(x \<mapsto> g a)) y) = map_option as_binding (?A y)" for y
    using a g(1) by simp
  have "links_ok (?I(k \<mapsto> f i)) (?A(x \<mapsto> g a))"
    by (rule links_retarget [OF wf_links [OF wf] i ne(1) ne(2) a f g])
  moreover have "defs (?I(k \<mapsto> f i)) = defs ?I"
    using i f(2) by (auto simp: defs_def)
  moreover have "ids_ok (td_task_id (sn_definition st)) (?I(k \<mapsto> f i)) (?A(x \<mapsto> g a))"
    by (rule ids_same [OF wf_ids [OF wf] _ same]) (use i in auto)
  moreover have "budget_links (sn_execution_budget st) (?A(x \<mapsto> g a))"
    by (rule budget_links_same [OF wf_budget [OF wf] same])
  moreover have "evidence_ok st (?A(x \<mapsto> g a))"
    using wf_evidence [OF wf] ev g(1) unfolding evidence_ok_def by simp
  moreover have "sn_state st \<noteq> TCompleted"
    using wf_success [OF wf] i nc by (auto simp: success_ok_def)
  then have "success_ok (st\<lparr>sn_attempts := bt_modify x g (sn_attempts st),
      sn_invocations := bt_modify k f (sn_invocations st)\<rparr>)" by (simp add: success_ok_def)
  ultimately show ?thesis
    using wf by (simp add: snapshot_wf_def get)
qed

section \<open>Admission\<close>

lemma check_dependencies_Ok:
  "check_dependencies m seen ds = Ok () \<longleftrightarrow>
     distinct ds \<and> set ds \<subseteq> fst ` set m \<and> set ds \<inter> seen = {}"
  by (induction m seen ds rule: check_dependencies.induct) (auto simp: res_simps)

lemma check_dependencies_not_Panic [simp]: "check_dependencies m seen ds \<noteq> Panic"
  by (induction m seen ds rule: check_dependencies.induct) (auto simp: res_simps)

lemma dom_bt_get: "dom (bt_get m) = fst ` set m"
  by (rule dom_map_of_conv_image_fst)

lemma card_dom_bt: "bt_wf m \<Longrightarrow> card (dom (bt_get m)) = length m"
  unfolding dom_bt_get by (metis bt_wf_distinct distinct_card length_map list.set_map)

lemma wf_depth:
  assumes wf: "snapshot_wf c st" and k: "bt_get (sn_invocations st) k = Some i"
  obtains len n where "ancestry (defs (bt_get (sn_invocations st))) k len n"
    "len < length (sn_invocations st)" "n \<le> unat (tl_max_depth (td_limits (sn_definition st)))"
    "ancestor_depth (Suc (length (sn_invocations st))) (sn_invocations st) i = Some n"
proof -
  have "defs (bt_get (sn_invocations st)) k = Some (is_definition i)" using k by (simp add: defs_def)
  from topology_D(5) [OF wf_topology [OF wf] this] obtain len n where
    n: "ancestry (defs (bt_get (sn_invocations st))) k len n"
    "len < card (dom (defs (bt_get (sn_invocations st))))"
    "n \<le> unat (tl_max_depth (td_limits (sn_definition st)))" by blast
  then have "len < length (sn_invocations st)"
    using card_dom_bt [OF wf_maps(1) [OF wf]] by simp
  moreover from this have "ancestor_depth (Suc (length (sn_invocations st))) (sn_invocations st) i = Some n"
    by (intro ancestry_depth [OF n(1) k]) simp
  ultimately show ?thesis using that n by blast
qed

lemma available_id_wf:
  assumes "available_id st i = Ok ()"
  shows "i \<noteq> td_task_id (sn_definition st)" "bt_get (sn_invocations st) i = None"
    "bt_get (sn_attempts st) i = None" "\<forall>x a. bt_get (sn_attempts st) x = Some a \<longrightarrow> execution_id a \<noteq> i"
    "identity i = Ok ()"
proof -
  note av = assms [unfolded available_id_Ok]
  from av show "i \<noteq> td_task_id (sn_definition st)" "identity i = Ok ()" by simp_all
  from av show "bt_get (sn_invocations st) i = None" "bt_get (sn_attempts st) i = None"
    by (simp_all add: map_of_eq_None_iff)
  show "\<forall>x a. bt_get (sn_attempts st) x = Some a \<longrightarrow> execution_id a \<noteq> i"
  proof (intro allI impI)
    fix x a assume "bt_get (sn_attempts st) x = Some a"
    then have "a \<in> set (bt_values (sn_attempts st))" by (force dest: bt_get_in)
    with av show "execution_id a \<noteq> i" by blast
  qed
qed

lemma admit_root_Ok:
  assumes "admit_root st d = Ok ()"
  shows "id_parent d = None"
    "\<forall>i \<in> set (bt_values (sn_invocations st)). id_role (is_definition i) \<noteq> Root"
    "id_agent d = td_agent (sn_definition st)"
    "id_constraints_digest d = td_constraints_digest (sn_definition st)"
  using assms by (auto simp: admit_root_def res_simps)

lemma admit_child_Ok:
  assumes "admit_child st d = Ok ()"
  obtains p owner up where "id_parent d = Some p" "bt_get (sn_invocations st) p = Some owner"
    "ancestor_depth (Suc (length (sn_invocations st))) (sn_invocations st) owner = Some up"
    "(if id_role d \<noteq> Continuation then 1 else 0) + up \<le> unat (tl_max_depth (td_limits (sn_definition st)))"
    "id_role d = Continuation \<Longrightarrow> is_state owner = Completed \<and> p \<in> set (id_dependencies d)"
    "id_role d \<noteq> Continuation \<Longrightarrow> is_state owner \<notin> {Completed, Cancelled, Failed}"
    "id_role d = SelfCall \<Longrightarrow>
       ai_definition_id (id_agent d) = ai_definition_id (id_agent (is_definition owner))"
proof -
  from assms obtain p owner where p: "id_parent d = Some p" "bt_get (sn_invocations st) p = Some owner"
    by (auto simp: admit_child_def res_simps)
  from assms p that [OF p] show ?thesis
    by (auto simp: admit_child_def res_simps not_less split: option.splits if_splits)
qed

lemma definition_new_invocation [simp]: "is_definition (new_invocation d) = d"
  by (simp add: new_invocation_def)

lemma admit_wf:
  assumes wf: "snapshot_wf c st" and adm: "admit st d = Ok st'" and live: "sn_state st \<noteq> TCompleted"
  shows "snapshot_wf c st'"
proof -
  let ?k = "id_invocation_id d" and ?I = "bt_get (sn_invocations st)" and ?A = "bt_get (sn_attempts st)"
  let ?depth = "unat (tl_max_depth (td_limits (sn_definition st)))"
  from adm have av: "available_id st ?k = Ok ()"
    and agree: "role_source_agree (id_role d) (id_input_source d)"
    and room: "\<not> len64 (sn_invocations st) \<ge> tl_max_invocations (td_limits (sn_definition st))"
    and role: "(if id_role d = Root then admit_root st d else admit_child st d) = Ok ()"
    and deps: "check_dependencies (sn_invocations st) {} (id_dependencies d) = Ok ()"
    and st': "st' = st\<lparr>sn_invocations := bt_insert ?k (new_invocation d) (sn_invocations st)\<rparr>"
    unfolding admit_def res_simps by blast+
  note av = available_id_wf [OF av]
  have new: "?I ?k = None" by (rule av(2))
  then have fresh: "?k \<notin> fst ` set (sn_invocations st)" by (simp add: map_of_eq_None_iff)
  have get: "bt_get (bt_insert ?k (new_invocation d) (sn_invocations st)) = ?I(?k \<mapsto> new_invocation d)"
    by (rule bt_get_insert [OF wf_maps(1) [OF wf]])
  have "length (sn_invocations st) < 2 ^ 64"
    using wf_counts(1) [OF wf] validate_definition_limits(1) [OF wf_definition [OF wf]] by simp
  then have len: "length (bt_insert ?k (new_invocation d) (sn_invocations st))
      \<le> unat (tl_max_invocations (td_limits (sn_definition st)))"
    using room fresh by (simp add: bt_length_insert_new not_le word_less_nat_alt unat_len64)
  have "topology_ok ?depth ((defs ?I)(?k \<mapsto> d))"
  proof (rule topology_insert [OF wf_topology [OF wf]])
    show "defs ?I ?k = None" using new by (simp add: defs_def)
    show "set (id_dependencies d) \<subseteq> dom (defs ?I)" "distinct (id_dependencies d)"
      using deps by (auto simp: check_dependencies_Ok dom_bt_get)
    show "id_role d = Root \<longleftrightarrow> id_parent d = None"
      using role admit_root_Ok(1) [of st d] by (auto elim: admit_child_Ok split: if_splits)
    show "\<forall>j e. defs ?I j = Some e \<longrightarrow> id_role e \<noteq> Root" if r: "id_role d = Root"
    proof -
      have none: "\<forall>i \<in> set (bt_values (sn_invocations st)). id_role (is_definition i) \<noteq> Root"
        using admit_root_Ok(2) [of st d] role r by simp
      show ?thesis
      proof (intro allI impI)
        fix j e assume "defs ?I j = Some e"
        then obtain i where i: "?I j = Some i" "is_definition i = e" by (auto simp: defs_def)
        then have "i \<in> set (bt_values (sn_invocations st))"
          using bt_values_get [OF wf_maps(1) [OF wf]] by blast
        with none i(2) show "id_role e \<noteq> Root" by blast
      qed
    qed
    show "\<exists>len n. ancestry (defs ?I) p len n \<and> len < card (dom (defs ?I)) \<and>
        (if id_role d = Continuation then n else Suc n) \<le> ?depth" if p: "id_parent d = Some p" for p
    proof -
      have "admit_child st d = Ok ()" using role admit_root_Ok(1) [of st d] p by (auto split: if_splits)
      then obtain p' owner up where o': "id_parent d = Some p'" "?I p' = Some owner"
        "ancestor_depth (Suc (length (sn_invocations st))) (sn_invocations st) owner = Some up"
        "(if id_role d \<noteq> Continuation then 1 else 0) + up \<le> ?depth" by (rule admit_child_Ok)
      with p have o: "?I p = Some owner" by simp
      from wf_depth [OF wf o] o'(3) obtain len where "ancestry (defs ?I) p len up"
        "len < length (sn_invocations st)" by (metis option.inject)
      with o'(4) show ?thesis
        using card_dom_bt [OF wf_maps(1) [OF wf]] by (intro exI [of _ len] exI [of _ up]) auto
    qed
  qed (use agree in auto)
  moreover have "links_ok (?I(?k \<mapsto> new_invocation d)) ?A"
    by (rule links_new_invocation [OF wf_links [OF wf] new])
  moreover have "ids_ok (td_task_id (sn_definition st)) (?I(?k \<mapsto> new_invocation d)) ?A"
    by (rule ids_insert_invocation [OF wf_ids [OF wf] av(1,3,4)])
  moreover have "success_ok st'" using live by (simp add: success_ok_def st')
  ultimately show ?thesis
    using wf len bt_wf_insert [OF wf_maps(1) [OF wf]]
    by (simp add: snapshot_wf_def get st')
qed

end
