(* ===== verification/Task_Steps.thy ===== *)
theory Task_Steps
  imports Task_Safety
begin

text \<open>
  Each transition of the reducer keeps \<open>snapshot_wf\<close> and, on a well-formed snapshot, cannot
  panic. The lemmas are put together for \<open>apply_event\<close> at the end.
\<close>

section \<open>Dependencies and consumption\<close>

lemma required_results_not_Panic:
  "bt_get (sn_invocations st) k \<noteq> None \<Longrightarrow> required_results st k \<noteq> Panic"
  by (simp add: required_results_def res_simps)

lemma add_dependency_wf:
  assumes wf: "snapshot_wf c st" and add: "add_dependency st k x = Ok st'"
  shows "snapshot_wf c st'"
proof -
  let ?I = "bt_get (sn_invocations st)"
  from add obtain i where i: "?I k = Some i" "is_state i \<in> {Admitted, Running, Suspended}"
    "bt_contains (sn_invocations st) x" "x \<notin> set (id_dependencies (is_definition i))"
    "reaches st x k = Ok False"
    and st': "st' = st\<lparr>sn_invocations := bt_modify k (push_dependency x) (sn_invocations st)\<rparr>"
    by (auto simp: add_dependency_def res_simps simp del: bt_contains_iff)
  let ?d = "is_definition i"
  have get: "bt_get (bt_modify k (push_dependency x) (sn_invocations st)) = ?I(k \<mapsto> push_dependency x i)"
    using i(1) by (simp add: bt_simps)
  have "topology_ok (unat (tl_max_depth (td_limits (sn_definition st))))
      ((defs ?I)(k \<mapsto> ?d\<lparr>id_dependencies := id_dependencies ?d @ [x]\<rparr>))"
  proof (rule topology_push [OF wf_topology [OF wf]])
    show "defs ?I k = Some ?d" using i(1) by (simp add: defs_def)
    show "x \<in> dom (defs ?I)" using i(3) by (simp only: dom_defs dom_bt_get bt_contains_iff)
    show "(x, k) \<notin> (dep_rel (defs ?I))\<^sup>*" using i(5) by (simp add: reaches_iff)
  qed (rule i(4))
  moreover have "links_ok (?I(k \<mapsto> push_dependency x i)) (bt_get (sn_attempts st))"
    by (rule links_same [OF wf_links [OF wf] i(1)]) (simp add: same_links_def push_dependency_def)
  moreover have "ids_ok (td_task_id (sn_definition st)) (?I(k \<mapsto> push_dependency x i)) (bt_get (sn_attempts st))"
    by (rule ids_same [OF wf_ids [OF wf]]) (use i(1) in auto)
  moreover have "success_ok st'"
    using wf_success [OF wf] i(1,2) by (auto simp: success_ok_def st')
  ultimately show ?thesis
    using wf by (simp add: snapshot_wf_def get st' push_dependency_def)
qed

lemma add_dependency_not_Panic [simp]: "add_dependency st k x \<noteq> Panic"
  by (auto simp: add_dependency_def res_simps)

lemma consume_Ok:
  assumes "consume st k r record = Ok st'"
  obtains i child a obs required where
    "bt_get (sn_invocations st) k = Some i" "is_state i \<notin> {Completed, Cancelled, Failed}"
    "required_results st k = Ok required" "cr_child r \<in> set required" "\<not> has_consumed i (cr_child r)"
    "bt_get (sn_invocations st) (cr_child r) = Some child" "is_attempts child \<noteq> []"
    "bt_get (sn_attempts st) (last (is_attempts child)) = Some a" "completed_with a = Some (cr_evidence r)"
    "is_completion_fact child = Some (cr_completion_fact r)" "cr_completion_fact r \<in> set (rc_causes record)"
    "st' = st\<lparr>sn_invocations := bt_modify k
        (\<lambda>i. i\<lparr>is_consumed := bt_insert (cr_child r) r (is_consumed i)\<rparr>) (sn_invocations st)\<rparr>"
proof -
  from assms obtain i required child actual where
    i: "bt_get (sn_invocations st) k = Some i" "is_state i \<notin> {Completed, Cancelled, Failed}"
    "required_results st k = Ok required" "cr_child r \<in> set required" "\<not> has_consumed i (cr_child r)"
    "bt_get (sn_invocations st) (cr_child r) = Some child"
    and act: "(if is_attempts child = [] then Ok None
            else bindr (unwrap (bt_get (sn_attempts st) (last (is_attempts child))))
                   (\<lambda>a. Ok (as_observation a))) = (Ok actual :: (task_error, _) res)"
    and rest: "(case actual of
       Some obs \<Rightarrow>
         (case ao_outcome obs of
            OCompleted evidence \<Rightarrow>
              if is_completion_fact child \<noteq> Some (cr_completion_fact r)
                 \<or> cr_evidence r \<noteq> evidence
                 \<or> cr_completion_fact r \<notin> set (rc_causes record)
              then Err (InvalidEdge ResultInexact)
              else Ok (st\<lparr>sn_invocations :=
                         bt_modify k
                           (\<lambda>i. i\<lparr>is_consumed := bt_insert (cr_child r) r (is_consumed i)\<rparr>)
                           (sn_invocations st)\<rparr>)
          | _ \<Rightarrow> Err (TransitionEdge ChildIncomplete))
     | None \<Rightarrow> Err (TransitionEdge ChildIncomplete)) = Ok st'"
    unfolding consume_def res_simps by blast
  from rest obtain obs evidence where o: "actual = Some obs" "ao_outcome obs = OCompleted evidence"
    "is_completion_fact child = Some (cr_completion_fact r)" "cr_evidence r = evidence"
    "cr_completion_fact r \<in> set (rc_causes record)"
    "st' = st\<lparr>sn_invocations := bt_modify k
        (\<lambda>i. i\<lparr>is_consumed := bt_insert (cr_child r) r (is_consumed i)\<rparr>) (sn_invocations st)\<rparr>"
    by (auto split: option.splits attempt_outcome.splits if_splits)
  from act o(1) obtain a where a: "is_attempts child \<noteq> []"
    "bt_get (sn_attempts st) (last (is_attempts child)) = Some a" "as_observation a = Some obs"
    by (auto simp: res_simps split: if_splits)
  then have "completed_with a = Some (cr_evidence r)" using o by (simp add: completed_with_def)
  with that [OF i a(1,2)] o show ?thesis by blast
qed

lemma consume_wf: "snapshot_wf c st \<Longrightarrow> consume st k r record = Ok st' \<Longrightarrow> snapshot_wf c st'"
  by (erule consume_Ok) (simp add: wf_same_map same_links_def)

lemma last_attempt_exists:
  assumes "snapshot_wf c st" and "bt_get (sn_invocations st) k = Some i" and "is_attempts i \<noteq> []"
  obtains a where "bt_get (sn_attempts st) (last (is_attempts i)) = Some a" "as_state a = is_state i"
    "ab_invocation_id (as_binding a) = k"
  using inv_ok_last [OF links_inv [OF wf_links [OF assms(1)] assms(2)] assms(3)] that by blast

lemma consume_not_Panic:
  assumes wf: "snapshot_wf c st"
  shows "consume st k r record \<noteq> Panic"
proof (cases "bt_get (sn_invocations st) k")
  case None
  then show ?thesis by (simp add: consume_def)
next
  case (Some i)
  then have "required_results st k \<noteq> Panic" by (intro required_results_not_Panic) simp
  moreover have "\<not> (is_attempts child \<noteq> [] \<and> bt_get (sn_attempts st) (last (is_attempts child)) = None)"
    if "bt_get (sn_invocations st) (cr_child r) = Some child" for child
    using last_attempt_exists [OF wf that] by (metis option.distinct(1))
  ultimately show ?thesis
    by (auto simp: consume_def res_simps if_distrib split: option.splits attempt_outcome.splits)
qed

lemma consume_terminal_Ok:
  assumes "consume_terminal st k r record = Ok st'"
  obtains i required child a obs where
    "bt_get (sn_invocations st) k = Some i" "\<not> is_cancellation_requested i"
    "is_state i \<notin> {Completed, Failed, Cancelled}"
    "\<not> has_consumed i (ab_invocation_id (ct_child r))"
    "required_results st k = Ok required" "ab_invocation_id (ct_child r) \<in> set required"
    "bt_get (sn_invocations st) (ab_invocation_id (ct_child r)) = Some child"
    "is_attempts child \<noteq> []" "last (is_attempts child) = ab_attempt_id (ct_child r)"
    "bt_get (sn_attempts st) (ab_attempt_id (ct_child r)) = Some a" "as_binding a = ct_child r"
    "as_observation a = Some obs" "disposition_of (ao_outcome obs) = Some (ct_disposition r)"
    "ao_source obs = ct_source r" "is_terminal_fact child = Some (ct_terminal_fact r)"
    "ct_terminal_fact r \<in> set (rc_causes record)"
    "st' = st\<lparr>sn_invocations := bt_modify k
        (\<lambda>i. i\<lparr>is_terminal_consumed := bt_insert (ab_invocation_id (ct_child r)) r (is_terminal_consumed i)\<rparr>)
        (sn_invocations st)\<rparr>"
  using assms unfolding consume_terminal_def Let_def res_simps by blast

lemma consume_terminal_wf:
  "snapshot_wf c st \<Longrightarrow> consume_terminal st k r record = Ok st' \<Longrightarrow> snapshot_wf c st'"
  by (erule consume_terminal_Ok) (simp add: wf_same_map same_links_def)

lemma consume_terminal_not_Panic [simp]: "consume_terminal st k r record \<noteq> Panic"
proof (cases "bt_get (sn_invocations st) k")
  case None
  then show ?thesis by (simp add: consume_terminal_def)
next
  case (Some i)
  then have "required_results st k \<noteq> Panic" by (intro required_results_not_Panic) simp
  then show ?thesis by (simp add: consume_terminal_def Let_def res_simps)
qed

section \<open>Budget and start\<close>

lemma configure_wf:
  assumes wf: "snapshot_wf c st" and conf: "configure st p r = Ok st'"
  shows "snapshot_wf c st'"
proof -
  from conf have "budget_policy_validate p = Ok ()" "sn_attempts st = []"
    and st': "st' = st\<lparr>sn_execution_budget :=
       Some \<lparr>bs_policy = p, bs_policy_reference = reference r, bs_reservations = []\<rparr>\<rparr>"
    by (simp_all add: configure_Ok)
  then have "budget_links (sn_execution_budget st') (bt_get (sn_attempts st))"
    by (simp add: budget_links_def budget_ok_def slots_total_def)
  with wf show ?thesis by (simp add: snapshot_wf_def st')
qed

lemma start_Ok:
  assumes "start st b = Ok st'"
  obtains i where
    "available_id st (ab_attempt_id b) = Ok ()"
    "available_id st (er_execution_id (ab_execution b)) = Ok ()"
    "ab_attempt_id b \<noteq> er_execution_id (ab_execution b)"
    "bt_get (sn_invocations st) (ab_invocation_id b) = Some i"
    "bound_to b (is_definition i)"
    "len64 (sn_attempts st) < tl_max_attempts (td_limits (sn_definition st))"
    "\<not> token_budget_exhausted st"
    "is_state i = Admitted \<or>
      is_state i = Failed \<and> is_attempts i \<noteq> [] \<and>
        (\<exists>a. bt_get (sn_attempts st) (last (is_attempts i)) = Some a \<and> safe_to_retry a)"
    "\<forall>d \<in> set (id_dependencies (is_definition i)). has_consumed i d"
    "st' = st\<lparr>sn_invocations := bt_modify (ab_invocation_id b)
        (\<lambda>i. i\<lparr>is_state := Running, is_terminal_fact := None,
           is_attempts := is_attempts i @ [ab_attempt_id b]\<rparr>) (sn_invocations st),
      sn_attempts := bt_insert (ab_attempt_id b) (new_attempt b) (sn_attempts st)\<rparr>"
proof -
  from assms obtain i st1 where i:
    "available_id st (ab_attempt_id b) = Ok ()"
    "available_id st (er_execution_id (ab_execution b)) = Ok ()"
    "ab_attempt_id b \<noteq> er_execution_id (ab_execution b)"
    "bt_get (sn_invocations st) (ab_invocation_id b) = Some i"
    "\<not> (id_agent (is_definition i) \<noteq> ab_agent b
        \<or> id_constraints_digest (is_definition i) \<noteq> ab_constraints_digest b
        \<or> id_input_source (is_definition i) \<noteq> ab_input_source b)"
    "\<not> (len64 (sn_attempts st) \<ge> tl_max_attempts (td_limits (sn_definition st))
        \<or> token_budget_exhausted st)"
    and adm: "(case is_state i of
          Admitted \<Rightarrow> Ok ()
        | Failed \<Rightarrow> (case last_attempt st i of
                       Some a \<Rightarrow> if safe_to_retry a then Ok () else Err (Transition NoRetryEvidence)
                     | None \<Rightarrow> Err (Transition NoRetryEvidence))
        | _ \<Rightarrow> Err (Transition NotStartable)) = Ok ()"
    and deps: "\<not> (\<exists>d \<in> set (id_dependencies (is_definition i)). \<not> has_consumed i d)"
    and u: "update_invocation (ab_invocation_id b)
              (\<lambda>i. i\<lparr>is_state := Running, is_terminal_fact := None,
                     is_attempts := is_attempts i @ [ab_attempt_id b]\<rparr>) st = Ok st1"
    and st': "Ok (st1\<lparr>sn_attempts :=
             bt_insert (ab_attempt_id b) (new_attempt b) (sn_attempts st1)\<rparr>) = (Ok st' :: (task_error, _) res)"
    unfolding start_def res_simps by blast
  have "is_state i = Admitted \<or> is_state i = Failed \<and> is_attempts i \<noteq> [] \<and>
        (\<exists>a. bt_get (sn_attempts st) (last (is_attempts i)) = Some a \<and> safe_to_retry a)"
    using adm by (auto simp: last_attempt_def split: invocation_state.splits option.splits if_splits)
  moreover have "st' = st\<lparr>sn_invocations := bt_modify (ab_invocation_id b)
        (\<lambda>i. i\<lparr>is_state := Running, is_terminal_fact := None,
           is_attempts := is_attempts i @ [ab_attempt_id b]\<rparr>) (sn_invocations st),
      sn_attempts := bt_insert (ab_attempt_id b) (new_attempt b) (sn_attempts st)\<rparr>"
    using u st' by (auto simp: update_invocation_def res_simps)
  moreover have "bound_to b (is_definition i)" using i(5) by (auto simp: bound_to_def)
  ultimately show ?thesis using that i deps by (simp add: not_le)
qed

lemma update_invocation_not_Panic [simp]:
  "bt_get (sn_invocations st) k \<noteq> None \<Longrightarrow> update_invocation k f st \<noteq> Panic"
  by (simp add: update_invocation_def res_simps)

lemma start_not_Panic [simp]: "start st b \<noteq> Panic"
  by (auto simp: start_def res_simps update_invocation_def
      split: invocation_state.splits option.splits if_splits)

text \<open>
  Starting an attempt; the budget part of the invariant is a premise because a budgeted start
  reserves first.
\<close>

lemma start_wf:
  assumes wf: "snapshot_wf c st" and start: "start (st\<lparr>sn_execution_budget := budget\<rparr>) b = Ok st'"
    and links: "budget_links budget ((bt_get (sn_attempts st))(ab_attempt_id b \<mapsto> new_attempt b))"
  shows "snapshot_wf c st'"
proof -
  let ?I = "bt_get (sn_invocations st)" and ?A = "bt_get (sn_attempts st)"
  let ?x = "ab_attempt_id b" and ?k = "ab_invocation_id b" and ?e = "er_execution_id (ab_execution b)"
  let ?f = "\<lambda>i. i\<lparr>is_state := Running, is_terminal_fact := None,
           is_attempts := is_attempts i @ [?x]\<rparr>"
  let ?stb = "st\<lparr>sn_execution_budget := budget\<rparr>"
  from start obtain i where av: "available_id ?stb ?x = Ok ()" "available_id ?stb ?e = Ok ()" "?x \<noteq> ?e"
    and i: "bt_get (sn_invocations ?stb) ?k = Some i" and bound: "bound_to b (is_definition i)"
    and room: "len64 (sn_attempts ?stb) < tl_max_attempts (td_limits (sn_definition ?stb))"
    and s: "is_state i = Admitted \<or>
      is_state i = Failed \<and> is_attempts i \<noteq> [] \<and>
        (\<exists>a. bt_get (sn_attempts ?stb) (last (is_attempts i)) = Some a \<and> safe_to_retry a)"
    and st': "st' = ?stb\<lparr>sn_invocations := bt_modify ?k ?f (sn_invocations ?stb),
      sn_attempts := bt_insert ?x (new_attempt b) (sn_attempts ?stb)\<rparr>"
    by (rule start_Ok)
  have ii: "?I ?k = Some i" using i by simp
  note x = available_id_wf [OF av(1), simplified] and e = available_id_wf [OF av(2), simplified]
  have get: "bt_get (bt_modify ?k ?f (sn_invocations st)) = ?I(?k \<mapsto> ?f i)"
    "bt_get (bt_insert ?x (new_attempt b) (sn_attempts st)) = ?A(?x \<mapsto> new_attempt b)"
    using ii wf_maps(2) [OF wf] by (simp_all add: bt_simps)
  have bind: "as_binding (new_attempt b) = b" by (simp add: new_attempt_def)
  have "links_ok (?I(?k \<mapsto> ?f i)) (?A(?x \<mapsto> new_attempt b))"
    by (rule links_start [OF wf_links [OF wf] ii x(3) refl refl bound]) (use s in auto)
  moreover have "defs (?I(?k \<mapsto> ?f i)) = defs ?I"
    using ii by (auto simp: defs_def)
  moreover have "ids_ok (td_task_id (sn_definition st)) (?I(?k \<mapsto> ?f i)) (?A(?x \<mapsto> new_attempt b))"
  proof -
    have "ids_ok (td_task_id (sn_definition st)) ?I (?A(?x \<mapsto> new_attempt b))"
      by (rule ids_insert_attempt [OF wf_ids [OF wf] x(1-4)]) (use e av(3) bind in simp_all)
    then show ?thesis by (rule ids_same) (use ii in auto)
  qed
  moreover have "evidence_ok st (?A(?x \<mapsto> new_attempt b))"
    using wf_evidence [OF wf] by (auto simp: evidence_ok_def new_attempt_def completed_with_def)
  moreover have "length (bt_insert ?x (new_attempt b) (sn_attempts st))
      \<le> unat (tl_max_attempts (td_limits (sn_definition st)))"
  proof -
    have "length (sn_attempts st) < 2 ^ 64"
      using wf_counts(2) [OF wf] validate_definition_limits(2) [OF wf_definition [OF wf]] by simp
    moreover have "?x \<notin> fst ` set (sn_attempts st)" using x(3) by (simp add: map_of_eq_None_iff)
    ultimately show ?thesis using room by (simp add: bt_length_insert_new word_less_nat_alt unat_len64)
  qed
  moreover have "sn_state st \<noteq> TCompleted"
    using wf_success [OF wf] ii s by (auto simp: success_ok_def)
  then have "success_ok st'" by (simp add: success_ok_def st')
  moreover have "bt_wf (bt_insert ?x (new_attempt b) (sn_attempts st))"
    by (rule bt_wf_insert [OF wf_maps(2) [OF wf]])
  ultimately show ?thesis
    using wf links by (simp add: snapshot_wf_def get st')
qed

lemma budget_links_none: "budget_links None A"
  by (simp add: budget_links_def)

lemma start_unbudgeted_wf:
  assumes wf: "snapshot_wf c st" and none: "sn_execution_budget st = None" and start: "start st b = Ok st'"
  shows "snapshot_wf c st'"
proof -
  have "st = st\<lparr>sn_execution_budget := None\<rparr>" using none by simp
  with start have "start (st\<lparr>sn_execution_budget := None\<rparr>) b = Ok st'" by simp
  from start_wf [OF wf this budget_links_none] show ?thesis .
qed

lemma start_budgeted_wf:
  assumes wf: "snapshot_wf c st" and res: "reserve st b n r = Ok st1" and start: "start st1 b = Ok st'"
  shows "snapshot_wf c st'"
proof -
  let ?A = "bt_get (sn_attempts st)" and ?x = "ab_attempt_id b"
  from res obtain bu where bu: "sn_execution_budget st = Some bu"
    and new: "?x \<notin> fst ` set (bs_reservations bu)"
    and st1: "st1 = st\<lparr>sn_execution_budget := Some (bu\<lparr>bs_reservations :=
             bt_insert ?x \<lparr>sr_binding = b, sr_max_steps = n\<rparr> (bs_reservations bu)\<rparr>)\<rparr>"
    by (rule reserve_Ok)
  let ?bu = "bu\<lparr>bs_reservations := bt_insert ?x \<lparr>sr_binding = b, sr_max_steps = n\<rparr> (bs_reservations bu)\<rparr>"
  have ok: "budget_ok bu"
    and same: "\<And>y. map_option sr_binding (bt_get (bs_reservations bu) y) = map_option as_binding (?A y)"
    using wf_budget [OF wf] bu by (simp_all add: budget_links_def)
  from reserve_budget_ok [OF res bu ok] st1 have "budget_ok ?bu" by simp
  moreover have "bt_wf (bs_reservations bu)" using ok by (simp add: budget_ok_def)
  then have "map_option sr_binding (bt_get (bs_reservations ?bu) y) =
      map_option as_binding ((?A(?x \<mapsto> new_attempt b)) y)" for y
    using same [of y] by (simp add: bt_simps new_attempt_def)
  ultimately have "budget_links (Some ?bu) (?A(?x \<mapsto> new_attempt b))" by (simp add: budget_links_def)
  with start show ?thesis unfolding st1 by (rule start_wf [OF wf])
qed

section \<open>Observing, resuming, recovering, retrying\<close>

lemma update_both:
  assumes "bt_get (sn_attempts st) x = Some a" and "bt_get (sn_invocations st) k = Some i"
  shows "bindr (update_attempt x g st) (update_invocation k f) =
    Ok (st\<lparr>sn_attempts := bt_modify x g (sn_attempts st),
           sn_invocations := bt_modify k f (sn_invocations st)\<rparr>)"
  using assms by (simp add: update_attempt_def update_invocation_def)

lemma attempt_owner:
  assumes "snapshot_wf c st" and "bt_get (sn_attempts st) x = Some a"
  obtains i where "bt_get (sn_invocations st) (ab_invocation_id (as_binding a)) = Some i"
  using links_att [OF wf_links [OF assms(1)] assms(2)] that by (auto simp: att_ok_def)

text \<open>
  The attempts that may be observed, resumed or recovered are the last ones of their
  invocations, and those are not complete.
\<close>

lemma live_attempt:
  assumes wf: "snapshot_wf c st" and a: "bt_get (sn_attempts st) x = Some a"
    and s: "as_state a \<notin> {Failed, Completed}"
  obtains i where "bt_get (sn_invocations st) (ab_invocation_id (as_binding a)) = Some i"
    "is_attempts i \<noteq> []" "x = last (is_attempts i)" "is_state i = as_state a" "is_state i \<noteq> Completed"
    "is_completion_fact i = None" "is_state i \<notin> {Failed, Cancelled} \<Longrightarrow> is_terminal_fact i = None"
proof -
  from s have "as_state a \<noteq> Failed" by simp
  from links_last [OF wf_links [OF wf] a this] obtain i where i:
    "bt_get (sn_invocations st) (ab_invocation_id (as_binding a)) = Some i"
    "is_attempts i \<noteq> []" "last (is_attempts i) = x" "is_state i = as_state a"
    "inv_ok (bt_get (sn_attempts st)) (ab_invocation_id (as_binding a)) i" by blast
  have "is_state i \<noteq> Completed" using i(4) s by simp
  moreover from this i(5) have "is_completion_fact i = None" by (simp add: inv_ok_def)
  moreover have "is_state i \<notin> {Failed, Cancelled} \<Longrightarrow> is_terminal_fact i = None"
    using i(5) \<open>is_state i \<noteq> Completed\<close> by (auto simp: inv_ok_def)
  ultimately show ?thesis using that i by blast
qed

lemma need_recovery_Ok:
  assumes wf: "snapshot_wf c st" and "need_recovery st x why = Ok st'"
  obtains a where "bt_get (sn_attempts st) x = Some a" "as_state a \<in> {Running, Suspended, RecoveryRequired}"
    "st' = st\<lparr>sn_attempts := bt_modify x (\<lambda>a. a\<lparr>as_state := RecoveryRequired,
             as_waiting := Some (WRecovery why)\<rparr>) (sn_attempts st),
           sn_invocations := bt_modify (ab_invocation_id (as_binding a))
             (set_invocation_state RecoveryRequired) (sn_invocations st)\<rparr>"
proof -
  from assms(2) obtain a where a: "bt_get (sn_attempts st) x = Some a"
    "as_state a \<in> {Running, Suspended, RecoveryRequired}"
    "bindr (update_attempt x (\<lambda>a. a\<lparr>as_state := RecoveryRequired, as_waiting := Some (WRecovery why)\<rparr>) st)
       (update_invocation (ab_invocation_id (as_binding a)) (set_invocation_state RecoveryRequired)) = Ok st'"
    unfolding need_recovery_def res_simps by blast
  from attempt_owner [OF wf a(1)] obtain i where
    "bt_get (sn_invocations st) (ab_invocation_id (as_binding a)) = Some i" .
  from update_both [OF a(1) this] a that show ?thesis by simp
qed

lemma need_recovery_wf:
  assumes wf: "snapshot_wf c st" and rec: "need_recovery st x why = Ok st'"
  shows "snapshot_wf c st'"
proof -
  from rec obtain a where a: "bt_get (sn_attempts st) x = Some a"
    "as_state a \<in> {Running, Suspended, RecoveryRequired}" and st': "st' = st\<lparr>sn_attempts :=
           bt_modify x (\<lambda>a. a\<lparr>as_state := RecoveryRequired,
             as_waiting := Some (WRecovery why)\<rparr>) (sn_attempts st),
           sn_invocations := bt_modify (ab_invocation_id (as_binding a))
             (set_invocation_state RecoveryRequired) (sn_invocations st)\<rparr>"
    by (rule need_recovery_Ok [OF wf])
  from a(2) have "as_state a \<notin> {Failed, Completed}" by auto
  from live_attempt [OF wf a(1) this] obtain i where i:
    "bt_get (sn_invocations st) (ab_invocation_id (as_binding a)) = Some i"
    "is_attempts i \<noteq> []" "x = last (is_attempts i)" "is_state i = as_state a" "is_state i \<noteq> Completed"
    "is_completion_fact i = None" "is_state i \<notin> {Failed, Cancelled} \<Longrightarrow> is_terminal_fact i = None"
    by blast
  have nt: "is_terminal_fact i = None" using i(4,7) a(2) by auto
  have "completed_with a = None"
    using links_att [OF wf_links [OF wf] a(1)] a(2) by (auto simp: att_ok_def)
  then have none: "completed_with (a\<lparr>as_state := RecoveryRequired, as_waiting := w\<rparr>) = None" for w
    by (simp add: completed_with_def)
  show ?thesis unfolding st'
    by (rule wf_retarget [OF wf i(1,2,3) a(1) i(5)])
       (use i(6) nt none in \<open>simp_all add: suspended_on_def\<close>)
qed

lemma need_recovery_not_Panic:
  assumes "snapshot_wf c st"
  shows "need_recovery st x why \<noteq> Panic"
  using attempt_owner [OF assms, of x]
  by (auto simp: need_recovery_def res_simps update_attempt_def update_invocation_def)

lemma resume_Ok:
  assumes wf: "snapshot_wf c st" and "resume st b checkpoint = Ok st'"
  obtains a w where "identity checkpoint = Ok ()" "\<not> token_budget_exhausted st"
    "bt_get (sn_attempts st) (ab_attempt_id b) = Some a" "as_binding a = b" "as_state a = Suspended"
    "suspended_on a = Some w" "ts_checkpoint_id w = checkpoint" "\<not> as_cancellation_requested a"
    "st' = st\<lparr>sn_attempts := bt_modify (ab_attempt_id b) (\<lambda>a. a\<lparr>as_state := Running,
             as_waiting := None\<rparr>) (sn_attempts st),
           sn_invocations := bt_modify (ab_invocation_id b)
             (set_invocation_state Running) (sn_invocations st)\<rparr>"
proof -
  from assms(2) obtain a where a: "identity checkpoint = Ok ()" "\<not> token_budget_exhausted st"
    "bt_get (sn_attempts st) (ab_attempt_id b) = Some a"
    and c: "\<not> (as_binding a \<noteq> b
        \<or> as_state a \<noteq> Suspended
        \<or> (case as_waiting a of
             Some (WSuspension waiting) \<Rightarrow> ts_checkpoint_id waiting \<noteq> checkpoint | _ \<Rightarrow> True)
        \<or> as_cancellation_requested a)"
    and u: "bindr (update_attempt (ab_attempt_id b) (\<lambda>a. a\<lparr>as_state := Running, as_waiting := None\<rparr>) st)
       (update_invocation (ab_invocation_id b) (set_invocation_state Running)) = Ok st'"
    unfolding resume_def res_simps by blast
  from c obtain w where w: "suspended_on a = Some w" "ts_checkpoint_id w = checkpoint"
    by (auto simp: suspended_on_def split: option.splits waiting_reason.splits)
  from c have b: "as_binding a = b" by simp
  from attempt_owner [OF wf a(3)] b obtain i where
    "bt_get (sn_invocations st) (ab_invocation_id b) = Some i" by blast
  from update_both [OF a(3) this] a w c u that show ?thesis by simp
qed

lemma resume_wf:
  assumes wf: "snapshot_wf c st" and res: "resume st b checkpoint = Ok st'"
  shows "snapshot_wf c st'"
proof -
  from res obtain a where a: "bt_get (sn_attempts st) (ab_attempt_id b) = Some a" "as_binding a = b"
    "as_state a = Suspended" and st': "st' = st\<lparr>sn_attempts := bt_modify (ab_attempt_id b)
             (\<lambda>a. a\<lparr>as_state := Running, as_waiting := None\<rparr>) (sn_attempts st),
           sn_invocations := bt_modify (ab_invocation_id b)
             (set_invocation_state Running) (sn_invocations st)\<rparr>"
    by (rule resume_Ok [OF wf])
  from a(3) have "as_state a \<notin> {Failed, Completed}" by auto
  from live_attempt [OF wf a(1) this] a(2) obtain i where i:
    "bt_get (sn_invocations st) (ab_invocation_id b) = Some i"
    "is_attempts i \<noteq> []" "ab_attempt_id b = last (is_attempts i)" "is_state i = as_state a"
    "is_state i \<noteq> Completed" "is_completion_fact i = None"
    "is_state i \<notin> {Failed, Cancelled} \<Longrightarrow> is_terminal_fact i = None"
    by blast
  have nt: "is_terminal_fact i = None" using i(4,7) a(3) by auto
  have "completed_with a = None"
    using links_att [OF wf_links [OF wf] a(1)] a(3) by (auto simp: att_ok_def)
  then have none: "completed_with (a\<lparr>as_state := Running, as_waiting := w\<rparr>) = None" for w
    by (simp add: completed_with_def)
  show ?thesis unfolding st'
    by (rule wf_retarget [OF wf i(1,2,3) a(1) i(5)])
       (use i(6) nt none in \<open>simp_all add: suspended_on_def\<close>)
qed

lemma resume_not_Panic:
  assumes "snapshot_wf c st"
  shows "resume st b checkpoint \<noteq> Panic"
proof
  assume "resume st b checkpoint = Panic"
  then obtain a where a: "bt_get (sn_attempts st) (ab_attempt_id b) = Some a" "as_binding a = b"
    "bt_get (sn_invocations st) (ab_invocation_id b) = None"
    by (auto simp: resume_def res_simps update_attempt_def update_invocation_def)
  from attempt_owner [OF assms a(1)] a(2,3) show False by auto
qed

lemma authorize_retry_Ok:
  assumes "authorize_retry st x source why = Ok st'"
  obtains a i where "bt_get (sn_attempts st) x = Some a"
    "bt_get (sn_invocations st) (ab_invocation_id (as_binding a)) = Some i"
    "validate_source source (as_binding a) = Ok ()"
    "as_state a \<in> {Failed, RecoveryRequired}" "\<not> as_cancellation_requested a"
    "\<not> is_cancellation_requested i" "\<not> as_retry_authorized a"
    "is_attempts i \<noteq> []" "x = last (is_attempts i)" "is_state i \<in> {Failed, RecoveryRequired}"
    "observed_cursor a < ev_cursor source"
    "st' = st\<lparr>sn_attempts := bt_modify x (\<lambda>a. a\<lparr>as_retry_authorized := True, as_state := Failed,
             as_waiting := None\<rparr>) (sn_attempts st),
           sn_invocations := bt_modify (ab_invocation_id (as_binding a))
             (set_invocation_state Failed) (sn_invocations st)\<rparr>"
proof -
  from assms obtain a i where a: "bt_get (sn_attempts st) x = Some a"
    "bt_get (sn_invocations st) (ab_invocation_id (as_binding a)) = Some i"
    "validate_source source (as_binding a) = Ok ()"
    "\<not> (as_state a \<notin> {Failed, RecoveryRequired}
        \<or> as_cancellation_requested a
        \<or> is_cancellation_requested i
        \<or> as_retry_authorized a
        \<or> is_attempts i = [] \<or> last (is_attempts i) \<noteq> x
        \<or> is_state i \<notin> {Failed, RecoveryRequired}
        \<or> ev_cursor source \<le> observed_cursor a)"
    and u: "bindr (update_attempt x
              (\<lambda>a. a\<lparr>as_retry_authorized := True, as_state := Failed, as_waiting := None\<rparr>) st)
       (update_invocation (ab_invocation_id (as_binding a)) (set_invocation_state Failed)) = Ok st'"
    unfolding authorize_retry_def res_simps by blast
  have "x = last (is_attempts i)" using a(4) by simp
  with update_both [OF a(1,2)] u a(4) show ?thesis
    by (intro that [OF a(1-3)]) (simp_all add: not_le)
qed

lemma authorize_retry_wf:
  assumes wf: "snapshot_wf c st" and auth: "authorize_retry st x source why = Ok st'"
  shows "snapshot_wf c st'"
proof -
  from auth obtain a i where a: "bt_get (sn_attempts st) x = Some a"
    and i: "bt_get (sn_invocations st) (ab_invocation_id (as_binding a)) = Some i"
    and s: "as_state a \<in> {Failed, RecoveryRequired}"
    and l: "is_attempts i \<noteq> []" "x = last (is_attempts i)" and si: "is_state i \<in> {Failed, RecoveryRequired}"
    and st': "st' = st\<lparr>sn_attempts := bt_modify x (\<lambda>a. a\<lparr>as_retry_authorized := True, as_state := Failed,
             as_waiting := None\<rparr>) (sn_attempts st),
           sn_invocations := bt_modify (ab_invocation_id (as_binding a))
             (set_invocation_state Failed) (sn_invocations st)\<rparr>"
    by (rule authorize_retry_Ok)
  have nc: "is_state i \<noteq> Completed" using si by auto
  have "is_completion_fact i = None"
    using links_inv [OF wf_links [OF wf] i] nc by (simp add: inv_ok_def)
  moreover have "completed_with a = None"
    using links_att [OF wf_links [OF wf] a] s by (auto simp: att_ok_def)
  then have "completed_with (a\<lparr>as_retry_authorized := True, as_state := Failed, as_waiting := w\<rparr>) = None" for w
    by (simp add: completed_with_def)
  ultimately show ?thesis unfolding st'
    by (intro wf_retarget [OF wf i l a nc]) (simp_all add: suspended_on_def)
qed

lemma authorize_retry_not_Panic:
  assumes "snapshot_wf c st"
  shows "authorize_retry st x source why \<noteq> Panic"
  using attempt_owner [OF assms, of x]
  by (auto simp: authorize_retry_def res_simps validate_source_def update_attempt_def update_invocation_def)

definition overspent :: "'v task_snapshot \<Rightarrow> task_usage \<Rightarrow> u64 \<Rightarrow> bool" where
  "overspent st usage used \<longleftrightarrow>
     (case tl_max_tokens (td_limits (sn_definition st)) of
        None \<Rightarrow> False | Some limit \<Rightarrow> used > limit \<or> tu_unreported_steps usage > 0)
     \<and> \<not> is_terminal (sn_state st)"

definition observed_attempt ::
  "invocation_state \<Rightarrow> attempt_observation \<Rightarrow> attempt_snapshot \<Rightarrow> attempt_snapshot" where
  "observed_attempt nxt obs a =
     a\<lparr>as_state := nxt, as_waiting := waiting_of (ao_outcome obs), as_observation := Some obs\<rparr>"

lemma observe_Ok:
  assumes wf: "snapshot_wf c st" and "observe st obs record = Ok st'"
  obtains a nxt usage used st1 where
    "bt_get (sn_attempts st) (ao_attempt_id obs) = Some a"
    "as_state a \<in> {Running, RecoveryRequired, Suspended}"
    "ao_execution obs = ab_execution (as_binding a)"
    "validate_source (ao_source obs) (as_binding a) = Ok ()"
    "\<not> (as_state a = Suspended \<and> (case ao_outcome obs of OCompleted _ \<Rightarrow> True | _ \<Rightarrow> False))"
    "check_merge a (ao_outcome obs) = Ok ()"
    "as_observation a \<noteq> None \<Longrightarrow> observed_cursor a < ev_cursor (ao_source obs)"
    "outcome_state st a obs = Ok nxt" "add_usage (sn_usage st) (ao_usage obs) = Ok usage"
    "usage_total usage = Some used"
    "st1 = st\<lparr>sn_usage := usage,
        sn_attempts := bt_modify (ao_attempt_id obs) (observed_attempt nxt obs) (sn_attempts st),
        sn_invocations := bt_modify (ab_invocation_id (as_binding a))
          (stop_invocation nxt (reference record)) (sn_invocations st)\<rparr>"
    "st' = (if overspent st usage used then st1\<lparr>sn_state := TFailed\<rparr> else st1)"
proof -
  from assms(2) obtain a nxt usage used st1 st2 where a:
    "bt_get (sn_attempts st) (ao_attempt_id obs) = Some a"
    "as_state a \<in> {Running, RecoveryRequired, Suspended}"
    "ao_execution obs = ab_execution (as_binding a)"
    "validate_source (ao_source obs) (as_binding a) = Ok ()"
    "\<not> (as_state a = Suspended \<and> (case ao_outcome obs of OCompleted _ \<Rightarrow> True | _ \<Rightarrow> False))"
    "check_merge a (ao_outcome obs) = Ok ()"
    "\<not> (as_observation a \<noteq> None \<and> ev_cursor (ao_source obs) \<le> observed_cursor a)"
    "outcome_state st a obs = Ok nxt" "add_usage (sn_usage st) (ao_usage obs) = Ok usage"
    "usage_total usage = Some used"
    and u1: "update_attempt (ao_attempt_id obs)
              (\<lambda>a. a\<lparr>as_state := nxt, as_waiting := waiting_of (ao_outcome obs),
                     as_observation := Some obs\<rparr>) (st\<lparr>sn_usage := usage\<rparr>) = Ok st1"
    and u2: "update_invocation (ab_invocation_id (as_binding a))
              (stop_invocation nxt (reference record)) st1 = Ok st2"
    and st': "(if (case tl_max_tokens (td_limits (sn_definition st2)) of
           None \<Rightarrow> False | Some limit \<Rightarrow> used > limit \<or> tu_unreported_steps usage > 0)
        \<and> \<not> is_terminal (sn_state st2)
     then Ok (st2\<lparr>sn_state := TFailed\<rparr>)
     else Ok st2) = (Ok st' :: (task_error, _) res)"
    unfolding observe_def res_simps by blast
  have upd: "observed_attempt nxt obs = (\<lambda>a. a\<lparr>as_state := nxt,
      as_waiting := waiting_of (ao_outcome obs), as_observation := Some obs\<rparr>)"
    by (rule ext) (simp add: observed_attempt_def)
  have st2: "st2 = st\<lparr>sn_usage := usage,
        sn_attempts := bt_modify (ao_attempt_id obs) (observed_attempt nxt obs) (sn_attempts st),
        sn_invocations := bt_modify (ab_invocation_id (as_binding a))
          (stop_invocation nxt (reference record)) (sn_invocations st)\<rparr>"
    using u1 u2 by (auto simp: update_attempt_def update_invocation_def res_simps upd)
  have "st' = (if overspent st usage used then st2\<lparr>sn_state := TFailed\<rparr> else st2)"
  proof -
    have "((case tl_max_tokens (td_limits (sn_definition st2)) of
           None \<Rightarrow> False | Some limit \<Rightarrow> used > limit \<or> tu_unreported_steps usage > 0)
        \<and> \<not> is_terminal (sn_state st2)) = overspent st usage used"
      by (simp add: st2 overspent_def)
    with st' show ?thesis by (simp only: split: if_splits) auto
  qed
  moreover have "as_observation a \<noteq> None \<Longrightarrow> observed_cursor a < ev_cursor (ao_source obs)"
    using a(7) by (simp add: not_le)
  ultimately show ?thesis using that [OF a(1-6) _ a(8-10) st2] by blast
qed

lemma outcome_state_Ok:
  assumes "outcome_state st a obs = Ok nxt"
  shows "nxt \<noteq> Admitted" "nxt \<noteq> Running"
    "nxt = Completed \<longleftrightarrow> (\<exists>evidence. ao_outcome obs = OCompleted evidence)"
    "nxt = Suspended \<longleftrightarrow> (\<exists>w. ao_outcome obs = OSuspended w)"
    "ao_outcome obs = OCompleted evidence \<Longrightarrow> validate_evidence st evidence (as_binding a) = Ok ()"
    "ao_outcome obs = OCompleted evidence \<Longrightarrow> (\<forall>e \<in> set evidence.
       ev_cursor (evidence_source e) \<le> ev_cursor (ao_source obs))"
    "ao_outcome obs = OCompleted evidence \<Longrightarrow> (\<exists>i required.
       bt_get (sn_invocations st) (ab_invocation_id (as_binding a)) = Some i \<and>
       required_results st (ab_invocation_id (as_binding a)) = Ok required \<and>
       (\<forall>r \<in> set required. has_consumed i r))"
  using assms
  by (cases "ao_outcome obs"; force simp: outcome_state_def Let_def res_simps not_less)+

lemma observed_completed:
  "completed_with (observed_attempt nxt obs a) =
     (case ao_outcome obs of OCompleted evidence \<Rightarrow> Some evidence | _ \<Rightarrow> None)"
  by (simp add: completed_with_def observed_attempt_def)

lemma observed_suspended:
  "suspended_on (observed_attempt nxt obs a) =
     (case ao_outcome obs of OSuspended w \<Rightarrow> Some w | _ \<Rightarrow> None)"
  by (cases "ao_outcome obs") (simp_all add: suspended_on_def observed_attempt_def)

lemma observe_wf:
  assumes wf: "snapshot_wf c st" and "observe st obs record = Ok st'"
  shows "snapshot_wf c st'"
proof -
  from assms(2) obtain a nxt usage used st1 where a:
    "bt_get (sn_attempts st) (ao_attempt_id obs) = Some a"
    "as_state a \<in> {Running, RecoveryRequired, Suspended}" "outcome_state st a obs = Ok nxt"
    and st1: "st1 = st\<lparr>sn_usage := usage,
        sn_attempts := bt_modify (ao_attempt_id obs) (observed_attempt nxt obs) (sn_attempts st),
        sn_invocations := bt_modify (ab_invocation_id (as_binding a))
          (stop_invocation nxt (reference record)) (sn_invocations st)\<rparr>"
    and st': "st' = (if overspent st usage used then st1\<lparr>sn_state := TFailed\<rparr> else st1)"
    by (rule observe_Ok [OF wf])
  note out = outcome_state_Ok [OF a(3)]
  let ?f = "stop_invocation nxt (reference record)" and ?g = "observed_attempt nxt obs"
  from a(2) have "as_state a \<notin> {Failed, Completed}" by auto
  from live_attempt [OF wf a(1) this] obtain i where i:
    "bt_get (sn_invocations st) (ab_invocation_id (as_binding a)) = Some i"
    "is_attempts i \<noteq> []" "ao_attempt_id obs = last (is_attempts i)" "is_state i = as_state a"
    "is_state i \<noteq> Completed" "is_completion_fact i = None"
    "is_state i \<notin> {Failed, Cancelled} \<Longrightarrow> is_terminal_fact i = None"
    by blast
  have nt: "is_terminal_fact i = None" using i(4,7) a(2) by auto
  have "snapshot_wf c (st\<lparr>sn_attempts := bt_modify (ao_attempt_id obs) ?g (sn_attempts st),
      sn_invocations := bt_modify (ab_invocation_id (as_binding a)) ?f (sn_invocations st)\<rparr>)"
  proof (rule wf_retarget [OF wf i(1-3) a(1) i(5)])
    show "as_state (?g a) = Completed \<longleftrightarrow> completed_with (?g a) \<noteq> None"
      "as_state (?g a) = Suspended \<longleftrightarrow> suspended_on (?g a) \<noteq> None"
      unfolding observed_completed observed_suspended using out(3,4)
      by (auto simp: observed_attempt_def split: attempt_outcome.splits)
    show "validate_evidence st evidence (as_binding a) = Ok ()"
      if "completed_with (?g a) = Some evidence" for evidence
      using that out(5) unfolding observed_completed by (auto split: attempt_outcome.splits)
  qed (use i(6) nt out(1) in \<open>auto simp: stop_invocation_def observed_attempt_def\<close>)
  moreover have "st1 = (st\<lparr>sn_attempts := bt_modify (ao_attempt_id obs) ?g (sn_attempts st),
      sn_invocations := bt_modify (ab_invocation_id (as_binding a)) ?f (sn_invocations st)\<rparr>)\<lparr>sn_usage := usage\<rparr>"
    by (simp add: st1)
  ultimately have "snapshot_wf c st1" by (simp only: wf_passive)
  then show ?thesis by (simp add: st' wf_state)
qed

lemma validate_source_not_Panic [simp]: "validate_source s b \<noteq> Panic"
  by (simp add: validate_source_def res_simps)

lemma validate_items_not_Panic [simp]: "validate_items st b ids es \<noteq> Panic"
proof (induction es arbitrary: ids)
  case (Cons e es)
  show ?case
    by (auto simp: res_simps Cons.IH split: completion_evidence.splits completion_criterion.splits)
qed simp

lemma validate_evidence_not_Panic [simp]: "validate_evidence st es b \<noteq> Panic"
  by (simp add: validate_evidence_def)

lemma validate_coordinates_not_Panic [simp]: "validate_coordinates seen is \<noteq> Panic"
  by (induction seen "is" rule: validate_coordinates.induct) (auto simp: res_simps)

lemma validate_waiting_not_Panic [simp]: "validate_waiting w \<noteq> Panic"
  by (simp add: validate_waiting_def res_simps)

lemma check_merge_not_Panic [simp]: "check_merge a out \<noteq> Panic"
  by (auto simp: check_merge_def split: attempt_outcome.splits option.splits waiting_reason.splits)

lemma add_usage_not_Panic [simp]: "add_usage u d \<noteq> Panic"
  by (simp add: add_usage_def res_simps)

lemma outcome_state_not_Panic:
  assumes "snapshot_wf c st" and "bt_get (sn_attempts st) x = Some a"
  shows "outcome_state st a obs \<noteq> Panic"
proof -
  from attempt_owner [OF assms] obtain i where
    i: "bt_get (sn_invocations st) (ab_invocation_id (as_binding a)) = Some i" .
  then have "required_results st (ab_invocation_id (as_binding a)) \<noteq> Panic"
    by (intro required_results_not_Panic) simp
  with i show ?thesis
    by (simp add: outcome_state_def Let_def res_simps split: attempt_outcome.splits)
qed

lemma observe_not_Panic:
  assumes wf: "snapshot_wf c st"
  shows "observe st obs record \<noteq> Panic"
proof (cases "bt_get (sn_attempts st) (ao_attempt_id obs)")
  case None
  then show ?thesis by (simp add: observe_def)
next
  case (Some a)
  from attempt_owner [OF wf Some] obtain i where
    "bt_get (sn_invocations st) (ab_invocation_id (as_binding a)) = Some i" .
  with Some outcome_state_not_Panic [OF wf Some] show ?thesis
    by (simp add: observe_def res_simps update_attempt_def update_invocation_def split: if_splits)
qed

section \<open>Assessment, completion, cancellation\<close>

lemma assessment_owner_Ok:
  assumes "assessment_owner c st a = Ok (g, stopped)"
  shows "goal_named (ga_criterion_id a) (td_criteria (sn_definition st)) = Some g"
    "ga_predicate_digest a = gc_predicate_digest g" "ga_checker a = gc_checker g"
    "ab_invocation_id (ga_attempt a) = gc_invocation_id g"
    "\<exists>i obs. bt_get (sn_invocations st) (gc_invocation_id g) = Some i \<and> is_state i = Completed \<and>
       is_completion_fact i = Some stopped \<and>
       bt_get (sn_attempts st) (ab_attempt_id (ga_attempt a)) = Some obs \<and>
       as_binding obs = ga_attempt a \<and> completed_with obs \<noteq> None \<and>
       is_attempts i \<noteq> [] \<and> last (is_attempts i) = ab_attempt_id (ga_attempt a)"
    "fr_stream_id stopped = td_task_id (sn_definition st)" "0 < fr_position stopped"
    "fr_position stopped \<le> sn_position st"
proof -
  from assms obtain i at obs where o:
    "goal_named (ga_criterion_id a) (td_criteria (sn_definition st)) = Some g"
    "bt_get (sn_invocations st) (gc_invocation_id g) = Some i"
    "bt_get (sn_attempts st) (ab_attempt_id (ga_attempt a)) = Some at"
    "as_observation at = Some obs"
    and c: "\<not> (id_role (is_definition i) \<noteq> Root
        \<or> id_parent (is_definition i) \<noteq> None
        \<or> id_agent (is_definition i) \<noteq> td_agent (sn_definition st)
        \<or> id_constraints_digest (is_definition i) \<noteq> td_constraints_digest (sn_definition st)
        \<or> gc_invocation_id g \<noteq> ab_invocation_id (ga_attempt a)
        \<or> is_attempts i = []
        \<or> last (is_attempts i) \<noteq> ab_attempt_id (ga_attempt a)
        \<or> as_binding at \<noteq> ga_attempt a
        \<or> ab_agent (as_binding at) \<noteq> id_agent (is_definition i)
        \<or> ab_constraints_digest (as_binding at) \<noteq> id_constraints_digest (is_definition i)
        \<or> ab_input_source (as_binding at) \<noteq> id_input_source (is_definition i)
        \<or> is_state i \<noteq> Completed
        \<or> as_state at \<noteq> Completed
        \<or> (case ao_outcome obs of OCompleted _ \<Rightarrow> False | _ \<Rightarrow> True)
        \<or> ga_source a \<noteq> ao_source obs
        \<or> ev_execution (ga_source a) \<noteq> ab_execution (as_binding at)
        \<or> ga_predicate_digest a \<noteq> gc_predicate_digest g
        \<or> ga_checker a \<noteq> gc_checker g)"
    and f: "is_completion_fact i = Some stopped"
      "\<not> (fr_stream_id stopped \<noteq> td_task_id (sn_definition st)
        \<or> fr_position stopped = 0
        \<or> fr_position stopped > sn_position st)"
    unfolding assessment_owner_def res_simps by blast
  from c have out: "\<exists>ev. ao_outcome obs = OCompleted ev" by (cases "ao_outcome obs") auto
  then have "completed_with at \<noteq> None" using o(4) by (auto simp: completed_with_def)
  with o c f(1) show "\<exists>i obs. bt_get (sn_invocations st) (gc_invocation_id g) = Some i \<and> is_state i = Completed \<and>
       is_completion_fact i = Some stopped \<and>
       bt_get (sn_attempts st) (ab_attempt_id (ga_attempt a)) = Some obs \<and>
       as_binding obs = ga_attempt a \<and> completed_with obs \<noteq> None \<and>
       is_attempts i \<noteq> [] \<and> last (is_attempts i) = ab_attempt_id (ga_attempt a)"
    by (intro exI [of _ i] exI [of _ at]) simp
  have "0 < fr_position stopped" if "fr_position stopped \<noteq> 0" using that by (simp add: word_neq_0_conv)
  with f show "fr_stream_id stopped = td_task_id (sn_definition st)" "0 < fr_position stopped"
    "fr_position stopped \<le> sn_position st" by (simp_all add: not_less)
  from c show "ga_predicate_digest a = gc_predicate_digest g" "ga_checker a = gc_checker g"
    "ab_invocation_id (ga_attempt a) = gc_invocation_id g" by simp_all
  show "goal_named (ga_criterion_id a) (td_criteria (sn_definition st)) = Some g" by (rule o(1))
qed

lemma assessment_owner_not_Panic [simp]: "assessment_owner c st a \<noteq> Panic"
  by (simp add: assessment_owner_def res_simps)

lemma apply_assessment_not_Panic [simp]: "apply_assessment c st a r \<noteq> Panic"
  by (simp add: apply_assessment_def res_simps)

lemma apply_assessment_Ok:
  assumes "apply_assessment c st a r = Ok st'"
  obtains g stopped d where "assessment_owner c st a = Ok (g, stopped)"
    "ga_criterion_id a \<notin> (\<lambda>r. ga_criterion_id (gr_assessment r)) ` set (sn_goal_assessments st)"
    "assessment_digest c a = Ok d"
    "st' = st\<lparr>sn_goal_assessments := sn_goal_assessments st @
             [\<lparr>gr_assessment = a, gr_reference = reference r, gr_assessment_digest = d\<rparr>]\<rparr>"
proof -
  from assms obtain p d where p: "assessment_owner c st a = Ok p"
    "\<not> (\<exists>saved \<in> set (sn_goal_assessments st).
          ga_criterion_id (gr_assessment saved) = ga_criterion_id a)"
    "assessment_digest c a = Ok d"
    "st' = st\<lparr>sn_goal_assessments := sn_goal_assessments st @
             [\<lparr>gr_assessment = a, gr_reference = reference r, gr_assessment_digest = d\<rparr>]\<rparr>"
    unfolding apply_assessment_def res_simps by blast
  then have "ga_criterion_id a \<notin> (\<lambda>r. ga_criterion_id (gr_assessment r)) ` set (sn_goal_assessments st)"
    by (metis (no_types, lifting) imageE)
  with p that show ?thesis by (cases p) blast
qed

lemma apply_assessment_wf:
  assumes wf: "snapshot_wf c st" and app: "apply_assessment c st a r = Ok st'"
  shows "snapshot_wf c st'"
proof -
  from app obtain g stopped d where o: "assessment_owner c st a = Ok (g, stopped)"
    "ga_criterion_id a \<notin> (\<lambda>r. ga_criterion_id (gr_assessment r)) ` set (sn_goal_assessments st)"
    and st': "st' = st\<lparr>sn_goal_assessments := sn_goal_assessments st @
             [\<lparr>gr_assessment = a, gr_reference = reference r, gr_assessment_digest = d\<rparr>]\<rparr>"
    by (rule apply_assessment_Ok)
  have "assessments_ok (td_criteria (sn_definition st)) (sn_goal_assessments st')"
    using wf_assessments [OF wf] o(2) assessment_owner_Ok(1-4) [OF o(1)]
    by (auto simp: assessments_ok_def st')
  with wf show ?thesis by (simp add: snapshot_wf_def st')
qed

lemma complete_Ok:
  assumes "complete st evidence = Ok st'"
  shows "\<exists>i \<in> set (bt_values (sn_invocations st)). id_role (is_definition i) = Root"
    "\<forall>i \<in> set (bt_values (sn_invocations st)). is_state i = Completed"
    "distinct (map evidence_criterion_id evidence)"
    "length evidence = length (td_criteria (sn_definition st))"
    "criterion_id ` set (td_criteria (sn_definition st)) \<subseteq> evidence_criterion_id ` set evidence"
    "set evidence \<subseteq> set (available_evidence st)"
    "st' = st\<lparr>sn_success_evidence := evidence, sn_state := TCompleted\<rparr>"
proof -
  from assms have all: "\<not> (\<exists>i \<in> set (bt_values (sn_invocations st)). is_state i \<noteq> Completed)"
    and root: "find (\<lambda>i. id_role (is_definition i) = Root) (bt_values (sn_invocations st)) \<noteq> None"
    and len: "length (bt_set (map evidence_criterion_id evidence)) = length evidence"
      "length (bt_set (map evidence_criterion_id evidence)) = length (td_criteria (sn_definition st))"
    and sub: "\<not> (\<exists>c \<in> set (td_criteria (sn_definition st)).
        criterion_id c \<notin> set (bt_set (map evidence_criterion_id evidence)))"
      "\<not> (\<exists>item \<in> set evidence. item \<notin> set (available_evidence st))"
    and st': "st' = st\<lparr>sn_success_evidence := evidence, sn_state := TCompleted\<rparr>"
    by (auto simp: complete_def Let_def res_simps simp del: bt_set_set)
  from len(1) have "card (set (map evidence_criterion_id evidence)) = length (map evidence_criterion_id evidence)"
    by (simp add: bt_set_def length_remdups_card_conv)
  then show "distinct (map evidence_criterion_id evidence)" by (rule card_distinct)
  show "length evidence = length (td_criteria (sn_definition st))" using len by simp
  show "criterion_id ` set (td_criteria (sn_definition st)) \<subseteq> evidence_criterion_id ` set evidence"
    using sub(1) by auto
  show "set evidence \<subseteq> set (available_evidence st)" using sub(2) by blast
  show "st' = st\<lparr>sn_success_evidence := evidence, sn_state := TCompleted\<rparr>" by (rule st')
  show "\<forall>i \<in> set (bt_values (sn_invocations st)). is_state i = Completed" using all by blast
  show "\<exists>i \<in> set (bt_values (sn_invocations st)). id_role (is_definition i) = Root"
    using root unfolding find_None_iff by blast
qed

lemma complete_wf:
  assumes wf: "snapshot_wf c st" and "complete st evidence = Ok st'"
  shows "snapshot_wf c st'"
proof -
  note ok = complete_Ok [OF assms(2)]
  have "st' = (st\<lparr>sn_state := TCompleted\<rparr>)\<lparr>sn_success_evidence := evidence\<rparr>" by (simp add: ok(7))
  with wf_state_done [OF wf ok(2)] show ?thesis by (simp only: wf_passive)
qed

lemma complete_not_Panic [simp]: "complete st evidence \<noteq> Panic"
  by (simp add: complete_def Let_def res_simps)

text \<open>Cancelling sets the request on attempts and turns admitted invocations to cancelled.\<close>

definition request_cancel :: "attempt_snapshot \<Rightarrow> attempt_snapshot" where
  "request_cancel a = a\<lparr>as_cancellation_requested := True\<rparr>"

definition flagged :: "(string \<rightharpoonup> attempt_snapshot) \<Rightarrow> (string \<rightharpoonup> attempt_snapshot) \<Rightarrow> bool" where
  "flagged A A' \<longleftrightarrow> (\<forall>x. A' x = A x \<or> A' x = map_option request_cancel (A x))"

lemma flagged_refl: "flagged A A"
  by (simp add: flagged_def)

lemma flagged_trans: "flagged A B \<Longrightarrow> flagged B C \<Longrightarrow> flagged A C"
proof -
  have *: "map_option request_cancel (map_option request_cancel z) = map_option request_cancel z" for z
    by (cases z) (simp_all add: request_cancel_def)
  show "flagged A B \<Longrightarrow> flagged B C \<Longrightarrow> flagged A C"
    unfolding flagged_def by (metis *)
qed

lemma flagged_binding:
  assumes "flagged A A'"
  shows "map_option as_binding (A' x) = map_option as_binding (A x)"
proof -
  from assms consider "A' x = A x" | "A' x = map_option request_cancel (A x)"
    unfolding flagged_def by blast
  then show ?thesis by cases (auto simp: request_cancel_def option.map_comp comp_def)
qed

lemma flagged_Some:
  assumes "flagged A A'"
  shows "A x = Some a \<Longrightarrow> A' x = Some a \<or> A' x = Some (request_cancel a)"
    "A' x = Some b \<Longrightarrow> \<exists>a. A x = Some a \<and> (b = a \<or> b = request_cancel a)"
  using assms [unfolded flagged_def, rule_format, of x] by (cases "A x"; auto)+

lemma request_cancel_simps [simp]:
  "as_binding (request_cancel a) = as_binding a" "as_state (request_cancel a) = as_state a"
  "completed_with (request_cancel a) = completed_with a" "suspended_on (request_cancel a) = suspended_on a"
  by (simp_all add: request_cancel_def completed_with_def suspended_on_def)

lemma flagged_inv_ok:
  assumes "flagged A A'" and "inv_ok A k i"
  shows "inv_ok A' k i"
proof -
  have keep: "\<exists>a. A' x = Some a \<and> P (as_binding a) (as_state a)"
    if "\<exists>a. A x = Some a \<and> P (as_binding a) (as_state a)" for x P
    using that flagged_Some(1) [OF assms(1)] by force
  have "\<exists>a. A' x = Some a \<and> ab_invocation_id (as_binding a) = k" if "x \<in> set (is_attempts i)" for x
    using keep [of x "\<lambda>b s. ab_invocation_id b = k"] assms(2) that by (simp add: inv_ok_def)
  moreover have "\<exists>a. A' x = Some a \<and> as_state a = Failed" if "x \<in> set (butlast (is_attempts i))" for x
    using keep [of x "\<lambda>b s. s = Failed"] assms(2) that by (simp add: inv_ok_def)
  moreover have "\<exists>a. A' (last (is_attempts i)) = Some a \<and> as_state a = is_state i" if "is_attempts i \<noteq> []"
    using keep [of "last (is_attempts i)" "\<lambda>b s. s = is_state i"] assms(2) that by (simp add: inv_ok_def)
  ultimately show ?thesis using assms(2) unfolding inv_ok_def by (cases "is_attempts i = []") simp_all
qed

lemma links_cancel:
  assumes l: "links_ok I A" and A: "flagged A A'"
    and I: "\<And>k. I' k = map_option (f k) (I k)" "\<And>k i. f k i = i \<or> f k i = cancel_invocation i"
  shows "links_ok I' A'"
proof -
  have "inv_ok A' k i'" if k: "I' k = Some i'" for k i'
  proof -
    from k I(1) obtain i where i: "I k = Some i" "i' = f k i" by auto
    note ok = flagged_inv_ok [OF A links_inv [OF l i(1)]]
    have "is_attempts i = []" if "is_state i = Admitted"
    proof (rule ccontr)
      assume "is_attempts i \<noteq> []"
      from inv_ok_last [OF links_inv [OF l i(1)] this] obtain a where
        "A (last (is_attempts i)) = Some a" "as_state a = is_state i" by blast
      with links_att [OF l] that show False by (metis att_ok_def)
    qed
    then have "inv_ok A' k (cancel_invocation i)"
      using ok unfolding inv_ok_def cancel_invocation_def
      by (cases "is_attempts i = []"; cases "is_state i = Admitted") simp_all
    with ok i(2) I(2) show ?thesis by metis
  qed
  moreover have "att_ok I' x b" if x: "A' x = Some b" for x b
  proof -
    from flagged_Some(2) [OF A x] obtain a where a: "A x = Some a" "b = a \<or> b = request_cancel a" by blast
    have at: "is_attempts (f k i) = is_attempts i \<and> is_definition (f k i) = is_definition i" for k i
      using I(2) [of k i] by (auto simp: cancel_invocation_def)
    from links_att [OF l a(1)] a(2) show ?thesis by (auto simp: att_ok_def I(1) at)
  qed
  ultimately show ?thesis by (simp add: links_ok_def)
qed

lemma cancel_attempts_Ok:
  "cancel_attempts ids m = Ok m' \<Longrightarrow> bt_keys m' = bt_keys m \<and> flagged (bt_get m) (bt_get m')"
proof (induction ids m rule: cancel_attempts.induct)
  case (2 i ids m)
  let ?m = "bt_modify i (\<lambda>a. a\<lparr>as_cancellation_requested := True\<rparr>) m"
  from 2 have "cancel_attempts ids ?m = Ok m'" "bt_get m i \<noteq> None" by (auto simp: res_simps)
  with 2 have "bt_keys m' = bt_keys ?m \<and> flagged (bt_get ?m) (bt_get m')" by (auto simp: res_simps)
  moreover have "flagged (bt_get m) (bt_get ?m)"
    unfolding flagged_def by (simp add: bt_get_modify request_cancel_def [abs_def])
  ultimately show ?case using flagged_trans by auto
qed (simp add: flagged_refl)

lemma cancel_all_Ok:
  "cancel_all st invs m = Ok (invs', m') \<Longrightarrow>
     invs' = map (\<lambda>(k, i). (k, if cancel_selected st i then cancel_invocation i else i)) invs \<and>
     bt_keys m' = bt_keys m \<and> flagged (bt_get m) (bt_get m')"
proof (induction st invs m arbitrary: invs' m' rule: cancel_all.induct)
  case (2 st k i rest m)
  show ?case
  proof (cases "cancel_selected st i")
    case True
    with "2.prems" obtain m1 r where m1: "cancel_attempts (is_attempts i) m = Ok m1"
      "cancel_all st rest m1 = Ok (r, m')" "invs' = (k, cancel_invocation i) # r"
      by (auto simp: res_simps)
    from "2.IH"(1) [OF True m1(2)] cancel_attempts_Ok [OF m1(1)] m1(3) True
    show ?thesis using flagged_trans by auto
  next
    case False
    with "2.prems" obtain r where "cancel_all st rest m = Ok (r, m')" "invs' = (k, i) # r"
      by (auto simp: res_simps)
    with "2.IH"(2) [OF False] False show ?thesis by auto
  qed
qed (simp add: flagged_refl)

lemma bt_get_map:
  "bt_get (map (\<lambda>(k, v). (k, h v)) m) k = map_option h (bt_get m k)"
  by (induction m) auto

lemma cancel_Ok:
  assumes "cancel st why = Ok st'"
  obtains invs atts where "reason why = Ok ()"
    "invs = map (\<lambda>(k, i). (k, if cancel_selected st i then cancel_invocation i else i)) (sn_invocations st)"
    "bt_keys atts = bt_keys (sn_attempts st)" "flagged (bt_get (sn_attempts st)) (bt_get atts)"
    "st' = st\<lparr>sn_invocations := invs, sn_attempts := atts, sn_state := TCancelled\<rparr>"
proof -
  from assms obtain invs atts where c: "reason why = Ok ()"
    "cancel_all st (sn_invocations st) (sn_attempts st) = Ok (invs, atts)"
    "st' = st\<lparr>sn_invocations := invs, sn_attempts := atts, sn_state := TCancelled\<rparr>"
    by (auto simp: cancel_def res_simps)
  with that cancel_all_Ok [OF c(2)] show ?thesis by blast
qed

lemma evidence_ok_flagged:
  assumes "evidence_ok st A" and "flagged A A'"
  shows "evidence_ok st A'"
  unfolding evidence_ok_def
proof (intro allI impI)
  fix x b evidence
  assume b: "A' x = Some b" "completed_with b = Some evidence"
  from flagged_Some(2) [OF assms(2) b(1)] obtain a where "A x = Some a" "b = a \<or> b = request_cancel a"
    by blast
  with b(2) assms(1) show "validate_evidence st evidence (as_binding b) = Ok ()"
    unfolding evidence_ok_def by auto
qed

lemma cancel_wf:
  assumes wf: "snapshot_wf c st" and "cancel st why = Ok st'"
  shows "snapshot_wf c st'"
proof -
  let ?I = "bt_get (sn_invocations st)" and ?A = "bt_get (sn_attempts st)"
  let ?h = "\<lambda>i. if cancel_selected st i then cancel_invocation i else i"
  from assms(2) obtain invs atts where
    invs: "invs = map (\<lambda>(k, i). (k, ?h i)) (sn_invocations st)"
    and keys: "bt_keys atts = bt_keys (sn_attempts st)" and fl: "flagged ?A (bt_get atts)"
    and st': "st' = st\<lparr>sn_invocations := invs, sn_attempts := atts, sn_state := TCancelled\<rparr>"
    by (rule cancel_Ok)
  have I: "bt_get invs k = map_option ?h (?I k)" for k unfolding invs by (rule bt_get_map)
  have d: "is_definition (?h i) = is_definition i" for i by (simp add: cancel_invocation_def)
  have "links_ok (bt_get invs) (bt_get atts)"
    by (rule links_cancel [OF wf_links [OF wf] fl I]) auto
  moreover have "defs (bt_get invs) = defs ?I"
    by (rule ext) (simp add: defs_def I option.map_comp comp_def d)
  moreover have "ids_ok (td_task_id (sn_definition st)) (bt_get invs) (bt_get atts)"
    by (rule ids_same [OF wf_ids [OF wf] _ flagged_binding [OF fl]]) (auto simp: I domIff)
  moreover have "budget_links (sn_execution_budget st) (bt_get atts)"
    by (rule budget_links_same [OF wf_budget [OF wf] flagged_binding [OF fl]])
  moreover have "evidence_ok st (bt_get atts)"
    by (rule evidence_ok_flagged [OF wf_evidence [OF wf] fl])
  moreover have "bt_keys invs = bt_keys (sn_invocations st)"
    by (auto simp: invs)
  then have "bt_wf invs" "length invs = length (sn_invocations st)"
    using wf_maps(1) [OF wf] unfolding bt_wf_def by (simp_all only:) (simp add: invs)
  moreover have "bt_wf atts" using wf_maps(2) [OF wf] keys by (simp add: bt_wf_def)
  moreover have "length atts = length (sn_attempts st)" using keys by (metis length_map)
  moreover have "success_ok st'" by (simp add: success_ok_def st')
  ultimately show ?thesis using wf by (simp add: snapshot_wf_def st')
qed

lemma cancel_attempts_not_Panic:
  "set ids \<subseteq> fst ` set m \<Longrightarrow> cancel_attempts ids m \<noteq> Panic"
proof (induction ids m rule: cancel_attempts.induct)
  case (2 i ids m)
  then obtain v where v: "bt_get m i = Some v" by (auto simp: bt_key_get)
  from 2 v show ?case by (simp add: res_simps)
qed simp

lemma cancel_all_not_Panic:
  "(\<And>k i. (k, i) \<in> set invs \<Longrightarrow> set (is_attempts i) \<subseteq> fst ` set m) \<Longrightarrow> cancel_all st invs m \<noteq> Panic"
proof (induction st invs m rule: cancel_all.induct)
  case (2 st k i rest m)
  have sub: "set (is_attempts i) \<subseteq> fst ` set m" by (rule "2.prems" [of k i]) simp
  have "cancel_all st rest m1 \<noteq> Panic" if "cancel_attempts (is_attempts i) m = Ok m1" "cancel_selected st i" for m1
  proof (rule "2.IH"(1) [OF that(2)])
    have keys: "fst ` set m1 = fst ` set m" using cancel_attempts_Ok [OF that(1)] by (metis list.set_map)
    show "set (is_attempts j) \<subseteq> fst ` set m1" if "(l, j) \<in> set rest" for l j
      unfolding keys by (rule "2.prems" [of l j]) (use that in simp)
  qed
  moreover have "cancel_all st rest m \<noteq> Panic" if "\<not> cancel_selected st i"
  proof (rule "2.IH"(2) [OF that])
    show "set (is_attempts j) \<subseteq> fst ` set m" if "(l, j) \<in> set rest" for l j
      by (rule "2.prems" [of l j]) (use that in simp)
  qed
  ultimately show ?case
    using cancel_attempts_not_Panic [OF sub] by (auto simp: res_simps)
qed simp

lemma cancel_not_Panic:
  assumes wf: "snapshot_wf c st"
  shows "cancel st why \<noteq> Panic"
proof -
  have "set (is_attempts i) \<subseteq> fst ` set (sn_attempts st)" if "(k, i) \<in> set (sn_invocations st)" for k i
  proof
    fix x assume x: "x \<in> set (is_attempts i)"
    have "bt_get (sn_invocations st) k = Some i" by (rule bt_in_get [OF wf_maps(1) [OF wf] that])
    from inv_okD [OF links_inv [OF wf_links [OF wf] this] x]
    show "x \<in> fst ` set (sn_attempts st)" by (auto simp: bt_key_get)
  qed
  then have "cancel_all st (sn_invocations st) (sn_attempts st) \<noteq> Panic"
    by (rule cancel_all_not_Panic)
  then show ?thesis by (auto simp: cancel_def res_simps)
qed

section \<open>The whole reducer\<close>

lemma child_waiting_not_Panic:
  "(\<And>k i. (k, i) \<in> set m \<Longrightarrow> bt_get (sn_invocations st) k \<noteq> None) \<Longrightarrow> child_waiting st m \<noteq> Panic"
proof (induction st m rule: child_waiting.induct)
  case (2 st k i rest)
  have "required_results st k \<noteq> Panic"
    by (rule required_results_not_Panic, rule "2.prems" [of k i]) simp
  moreover have "child_waiting st rest \<noteq> Panic" if "required_results st k = Ok r" for r
    by (rule "2.IH") (use "2.prems" in auto)
  ultimately show ?case by (auto simp: res_simps Let_def)
qed simp

lemma child_waiting_not_Err: "child_waiting st m \<noteq> Err e"
proof (induction st m rule: child_waiting.induct)
  case (2 st k i rest)
  have "required_results st k \<noteq> Err e"
    by (cases "bt_get (sn_invocations st) k") (simp_all add: required_results_def)
  moreover have "child_waiting st rest \<noteq> Err e" if "required_results st k = Ok r" for r
    by (rule "2.IH")
  ultimately show ?case
    by (cases "required_results st k"; cases "child_waiting st rest") (simp_all add: Let_def)
qed simp

lemma refresh_Ok:
  assumes "refresh st = Ok st'"
  obtains children w where "child_waiting st (sn_invocations st) = Ok children"
    "st' = st\<lparr>sn_waiting := w, sn_state := derived_state (st\<lparr>sn_waiting := w\<rparr>)\<rparr>"
    "w = attempt_waiting st @ children @ concat (map (goal_waiting st) (td_criteria (sn_definition st)))"
proof -
  from assms obtain children where ch: "child_waiting st (sn_invocations st) = Ok children"
    and st': "st' = (let st1 = refresh_goals (st\<lparr>sn_waiting := attempt_waiting st @ children\<rparr>)
       in st1\<lparr>sn_state := derived_state st1\<rparr>)"
    by (auto simp: refresh_def res_simps Let_def)
  have "goal_waiting (st\<lparr>sn_waiting := v\<rparr>) = goal_waiting st" for v
    by (rule ext) (simp add: goal_waiting_def split: completion_criterion.split option.split)
  then have "st' = st\<lparr>sn_waiting := attempt_waiting st @ children @
        concat (map (goal_waiting st) (td_criteria (sn_definition st))),
      sn_state := derived_state (st\<lparr>sn_waiting := attempt_waiting st @ children @
        concat (map (goal_waiting st) (td_criteria (sn_definition st)))\<rparr>)\<rparr>"
    unfolding st' by (simp add: refresh_goals_def Let_def)
  with that [OF ch] show ?thesis by blast
qed

lemma refresh_wf:
  assumes wf: "snapshot_wf c st" and "refresh st = Ok st'"
  shows "snapshot_wf c st'"
proof -
  from assms(2) obtain w where
    st': "st' = st\<lparr>sn_waiting := w, sn_state := derived_state (st\<lparr>sn_waiting := w\<rparr>)\<rparr>"
    by (rule refresh_Ok)
  have wfw: "snapshot_wf c (st\<lparr>sn_waiting := w\<rparr>)" using wf by simp
  show ?thesis
  proof (cases "derived_state (st\<lparr>sn_waiting := w\<rparr>) = TCompleted")
    case True
    then have "sn_state st = TCompleted" by (auto simp: derived_state_def split: if_splits)
    with True have "st' = st\<lparr>sn_waiting := w\<rparr>" by (simp add: st')
    with wfw show ?thesis by simp
  next
    case False
    have "st' = (st\<lparr>sn_waiting := w\<rparr>)\<lparr>sn_state := derived_state (st\<lparr>sn_waiting := w\<rparr>)\<rparr>" by (simp add: st')
    with wf_state [OF wfw False] show ?thesis by simp
  qed
qed

lemma refresh_total:
  assumes "snapshot_wf c st"
  shows "\<exists>st'. refresh st = Ok st'"
proof -
  have "child_waiting st (sn_invocations st) \<noteq> Panic"
    by (rule child_waiting_not_Panic) (use bt_in_get [OF wf_maps(1) [OF assms]] in fastforce)
  with child_waiting_not_Err [of st "sn_invocations st"] obtain ch where
    "child_waiting st (sn_invocations st) = Ok ch" by (cases "child_waiting st (sn_invocations st)") auto
  then show ?thesis by (simp add: refresh_def Let_def)
qed

lemma admit_not_Panic:
  assumes wf: "snapshot_wf c st"
  shows "admit st d \<noteq> Panic"
proof -
  have "admit_child st d \<noteq> Panic"
  proof
    assume "admit_child st d = Panic"
    then obtain p owner where "bt_get (sn_invocations st) p = Some owner"
      "ancestor_depth (Suc (length (sn_invocations st))) (sn_invocations st) owner = None"
      by (auto simp: admit_child_def res_simps simp del: ancestor_depth.simps
          split: if_splits option.splits)
    with wf_depth [OF wf this(1)] show False by (metis option.distinct(1))
  qed
  moreover have "admit_root st d \<noteq> Panic" by (simp add: admit_root_def)
  ultimately show ?thesis by (simp add: admit_def res_simps)
qed

declare is_terminal.simps [simp del]

lemma is_terminal_simps [simp]:
  "is_terminal TCompleted" "is_terminal TFailed" "is_terminal TCancelled"
  "\<not> is_terminal TReady" "\<not> is_terminal TActive" "\<not> is_terminal TWaiting"
  "\<not> is_terminal TRecoveryRequired"
  by (simp_all add: is_terminal.simps)

lemma transition_wf:
  assumes wf: "snapshot_wf c st" and live: "is_terminal (sn_state st) \<Longrightarrow> detached_resume st e \<or> stopped_evidence e"
    and tr: "transition_event c st e r = Ok st'"
  shows "snapshot_wf c st'"
proof -
  have nt: "sn_state st \<noteq> TCompleted" if "\<not> detached_resume st e" "\<not> stopped_evidence e"
  proof
    assume "sn_state st = TCompleted"
    then have "is_terminal (sn_state st)" by simp
    with live that show False by blast
  qed
  show ?thesis
  proof (cases e)
    case (EExecutionBudgetConfigured p)
    with tr show ?thesis by (simp add: configure_wf [OF wf])
  next
    case (EBudgetedAttemptStarted b n)
    with tr obtain st1 where "reserve st b n r = Ok st1" "start st1 b = Ok st'" by (auto simp: res_simps)
    then show ?thesis by (rule start_budgeted_wf [OF wf])
  next
    case (EGoalAssessed a)
    with tr show ?thesis by (simp add: apply_assessment_wf [OF wf])
  next
    case (EInvocationAdmitted d)
    with tr nt show ?thesis
      by (simp add: admit_wf [OF wf] detached_resume_def stopped_evidence_def)
  next
    case (EDependencyAdmitted k x)
    with tr show ?thesis by (simp add: add_dependency_wf [OF wf])
  next
    case (EAttemptStarted b)
    with tr show ?thesis by (auto simp: start_unbudgeted_wf [OF wf] split: if_splits)
  next
    case (EAttemptObserved obs)
    with tr show ?thesis by (simp add: observe_wf [OF wf])
  next
    case (EAttemptResumed b checkpoint)
    with tr show ?thesis by (simp add: resume_wf [OF wf])
  next
    case (ERecoveryNeeded x why)
    with tr show ?thesis by (simp add: need_recovery_wf [OF wf])
  next
    case (ERetryAuthorized x source why)
    with tr show ?thesis by (simp add: authorize_retry_wf [OF wf])
  next
    case (EResultConsumed k result)
    with tr show ?thesis by (simp add: consume_wf [OF wf])
  next
    case (ETerminalResultConsumed k result)
    with tr show ?thesis by (simp add: consume_terminal_wf [OF wf])
  next
    case (ECompleted evidence)
    with tr show ?thesis by (simp add: complete_wf [OF wf])
  next
    case (ECancelled why)
    with tr show ?thesis by (simp add: cancel_wf [OF wf])
  next
    case (EFailed why)
    with tr show ?thesis by (auto simp: res_simps intro: wf_state [OF wf])
  next
    case (ERegistered d)
    with tr show ?thesis by simp
  qed
qed

lemma transition_not_Panic:
  assumes wf: "snapshot_wf c st" and "\<And>d. e \<noteq> ERegistered d"
  shows "transition_event c st e r \<noteq> Panic"
  using assms(2)
  by (cases e) (auto simp: res_simps admit_not_Panic [OF wf] consume_not_Panic [OF wf] observe_not_Panic [OF wf]
      resume_not_Panic [OF wf] need_recovery_not_Panic [OF wf] authorize_retry_not_Panic [OF wf]
      cancel_not_Panic [OF wf])

lemma register_wf:
  assumes "register c d r = Ok st"
  shows "snapshot_wf c st"
proof -
  from assms have "validate_definition c d = Ok ()"
    and st: "st = \<lparr>sn_execution_budget = None, sn_goal_assessments = [], sn_definition = d,
            sn_position = rc_position r, sn_state = TReady, sn_usage = usage_default,
            sn_invocations = [], sn_attempts = [], sn_waiting = [], sn_success_evidence = []\<rparr>"
    by (auto simp: register_def res_simps)
  moreover have "defs Map.empty = Map.empty" by (rule ext) (simp add: defs_def)
  ultimately show ?thesis
    using links_empty topology_empty
    by (simp add: snapshot_wf_def ids_ok_def evidence_ok_def budget_links_none assessments_ok_def success_ok_def)
qed

lemma apply_event_step:
  assumes "\<And>d. e \<noteq> ERegistered d"
  shows "apply_event c snapshot e r = bindr (ok_or snapshot (Transition MissingRegistration)) (\<lambda>st.
        if is_terminal (sn_state st) \<and> \<not> detached_resume st e \<and> \<not> stopped_evidence e
        then Err (Transition TaskTerminal)
        else bindr (transition_event c st e r) (\<lambda>st1.
               refresh (st1\<lparr>sn_position := rc_position r\<rparr>)))"
  using assms by (cases e) (simp_all only: apply_event_def task_event.case, auto)

text \<open>How an accepted event changes the snapshot: a transition, the position, a refresh.\<close>

lemma apply_event_cases:
  assumes "apply_event c snapshot e r = Ok st'"
  obtains (register) d where "snapshot = None" "e = ERegistered d" "register c d r = Ok st'"
  | (step) st st1 where "snapshot = Some st" "\<And>d. e \<noteq> ERegistered d"
      "is_terminal (sn_state st) \<Longrightarrow> detached_resume st e \<or> stopped_evidence e"
      "transition_event c st e r = Ok st1" "refresh (st1\<lparr>sn_position := rc_position r\<rparr>) = Ok st'"
proof (cases "\<exists>d. e = ERegistered d")
  case True
  then obtain d where e: "e = ERegistered d" by blast
  with assms have "snapshot = None" "register c d r = Ok st'"
    by (auto simp: apply_event_def split: if_splits)
  then show ?thesis using register e by blast
next
  case False
  then have e: "\<And>d. e \<noteq> ERegistered d" by blast
  from assms obtain st st1 where "snapshot = Some st"
    "\<not> (is_terminal (sn_state st) \<and> \<not> detached_resume st e \<and> \<not> stopped_evidence e)"
    "transition_event c st e r = Ok st1" "refresh (st1\<lparr>sn_position := rc_position r\<rparr>) = Ok st'"
    unfolding apply_event_step [OF e] res_simps by blast
  with e show ?thesis by (intro step [of st st1]) blast+
qed

lemma apply_event_wf:
  assumes "apply_event c snapshot e r = Ok st'" and "\<And>st. snapshot = Some st \<Longrightarrow> snapshot_wf c st"
  shows "snapshot_wf c st'"
  using assms(1)
proof (cases rule: apply_event_cases)
  case (register d)
  then show ?thesis by (simp add: register_wf)
next
  case (step st st1)
  have "snapshot_wf c st1" by (rule transition_wf [OF assms(2) [OF step(1)] step(3,4)])
  then have "snapshot_wf c (st1\<lparr>sn_position := rc_position r\<rparr>)" by simp
  from refresh_wf [OF this step(5)] show ?thesis .
qed

lemma apply_event_not_Panic:
  assumes "\<And>st. snapshot = Some st \<Longrightarrow> snapshot_wf c st"
  shows "apply_event c snapshot e r \<noteq> Panic"
proof (cases "\<exists>d. e = ERegistered d")
  case True
  then show ?thesis by (auto simp: apply_event_def register_def res_simps)
next
  case False
  have "bindr (transition_event c st e r) (\<lambda>st1. refresh (st1\<lparr>sn_position := rc_position r\<rparr>)) \<noteq> Panic"
    if st: "snapshot = Some st" and t: "\<not> (is_terminal (sn_state st) \<and> \<not> detached_resume st e \<and> \<not> stopped_evidence e)"
    for st
  proof
    note wf = assms [OF st]
    assume "bindr (transition_event c st e r) (\<lambda>st1. refresh (st1\<lparr>sn_position := rc_position r\<rparr>)) = Panic"
    with transition_not_Panic [OF wf, of e r] False obtain st1 where
      st1: "transition_event c st e r = Ok st1" "refresh (st1\<lparr>sn_position := rc_position r\<rparr>) = Panic"
      by (auto simp: res_simps)
    have "snapshot_wf c st1" by (rule transition_wf [OF wf _ st1(1)]) (use t in blast)
    then have "snapshot_wf c (st1\<lparr>sn_position := rc_position r\<rparr>)" by simp
    from refresh_total [OF this] st1(2) show False by auto
  qed
  with False show ?thesis
    by (cases snapshot) (auto simp: apply_event_step)
qed

text \<open>
  The snapshots a task can have, with the accepted events that led there: a registration, then
  any accepted events. (A rejected event leaves the stored snapshot as it was.) Replay skips
  noncritical facts of unknown kind; they only move the position.
\<close>

type_synonym ('v, 'p) task_history = "('v task_event \<times> 'p fact_record) list"

inductive reachable :: "'v value_codec \<Rightarrow> ('v, 'p) task_history \<Rightarrow> 'v task_snapshot \<Rightarrow> bool" for c where
  registered: "apply_event c None e r = Ok st \<Longrightarrow> reachable c [(e, r)] st"
| applied: "reachable c h st \<Longrightarrow> apply_event c (Some st) e r = Ok st' \<Longrightarrow> reachable c (h @ [(e, r)]) st'"
| skipped: "reachable c h st \<Longrightarrow> reachable c h (st\<lparr>sn_position := p\<rparr>)"

lemma reachable_wf: "reachable c h st \<Longrightarrow> snapshot_wf c st"
  by (induction rule: reachable.induct) (auto intro: apply_event_wf)

end
