(* ===== verification/Task_Sample.thy ===== *)
theory Task_Sample
  imports Task_Steps
begin

text \<open>
  A complete task run, evaluated in the kernel: a budgeted root that depends on a delegated child,
  both started, observed and completed, the child's result consumed, and the task completed. The
  witnesses of the task properties rest on it.
\<close>

named_theorems sample_defs

definition sample_sha :: string where
  "sample_sha = replicate 64 CHR ''a''"

definition sample_codec :: "unit value_codec" where
  "sample_codec = \<lparr>vc_chunks = (\<lambda>_. Some [4]), vc_sha = (\<lambda>_. sample_sha),
     vc_assessment_chunks = (\<lambda>_. Some [4]), vc_assessment_sha = (\<lambda>_. sample_sha)\<rparr>"

definition sample_agent :: agent_identity where [sample_defs]:
  "sample_agent = \<lparr>ai_definition_id = ''d'', ai_revision = ''v'', ai_instance_id = ''i''\<rparr>"

definition sample_limits :: task_limits where [sample_defs]:
  "sample_limits = \<lparr>tl_max_depth = 2, tl_max_invocations = 4, tl_max_attempts = 4,
     tl_max_tokens = Some 100, tl_max_steps_per_turn = 10\<rparr>"

definition sample_task :: "unit task_definition" where [sample_defs]:
  "sample_task = \<lparr>td_task_id = ''t'', td_objective = ''o'',
     td_criteria = [CExecutionCompleted ''c'' ''r''], td_agent = sample_agent,
     td_constraints_digest = sample_sha, td_limits = sample_limits,
     td_cancellation_policy = AllInvocations\<rparr>"

definition sample_ref :: "u64 \<Rightarrow> fact_ref" where [sample_defs]:
  "sample_ref n = \<lparr>fr_stream_id = ''t'', fr_position = n, fr_fact_id = ''f''\<rparr>"

definition sample_record :: "u64 \<Rightarrow> fact_ref list \<Rightarrow> unit fact_record" where [sample_defs]:
  "sample_record n causes = \<lparr>rc_stream_id = ''t'', rc_position = n, rc_draft =
     \<lparr>fd_fact_id = ''f'', fd_subject = \<lparr>fs_kind = ''a.b'', fs_id = ''x''\<rparr>, fd_kind = ''a.b'',
      fd_schema_version = 1, fd_critical = True, fd_causes = causes, fd_payload = ()\<rparr>\<rparr>"

definition root_definition :: "string list \<Rightarrow> invocation_definition" where [sample_defs]:
  "root_definition deps = \<lparr>id_invocation_id = ''r'', id_agent = sample_agent,
     id_constraints_digest = sample_sha, id_role = Root, id_parent = None, id_dependencies = deps,
     id_input_source = Standalone (sample_ref 1)\<rparr>"

definition child_definition :: invocation_definition where [sample_defs]:
  "child_definition = \<lparr>id_invocation_id = ''k'', id_agent = sample_agent,
     id_constraints_digest = sample_sha, id_role = Delegation, id_parent = Some ''r'',
     id_dependencies = [], id_input_source = Derived (sample_ref 2)\<rparr>"

definition sample_policy :: execution_budget_policy where [sample_defs]:
  "sample_policy = \<lparr>bp_id = ''b'', bp_revision = ''v'', bp_max_reserved_steps = 20,
     bp_deadline_at_ms = 1\<rparr>"

definition sample_execution :: "string \<Rightarrow> execution_ref" where [sample_defs]:
  "sample_execution x = \<lparr>er_session_id = ''s'', er_turn_id = ''u'', er_execution_id = x\<rparr>"

definition child_binding :: attempt_binding where [sample_defs]:
  "child_binding = \<lparr>ab_attempt_id = ''p'', ab_invocation_id = ''k'',
     ab_execution = sample_execution ''x'', ab_agent = sample_agent,
     ab_constraints_digest = sample_sha, ab_input_source = Derived (sample_ref 2)\<rparr>"

definition root_binding :: attempt_binding where [sample_defs]:
  "root_binding = \<lparr>ab_attempt_id = ''q'', ab_invocation_id = ''r'',
     ab_execution = sample_execution ''y'', ab_agent = sample_agent,
     ab_constraints_digest = sample_sha, ab_input_source = Standalone (sample_ref 1)\<rparr>"

definition sample_usage :: task_usage where [sample_defs]:
  "sample_usage = \<lparr>tu_input_tokens = 10, tu_output_tokens = 5, tu_unreported_steps = 0\<rparr>"

definition sample_source :: "string \<Rightarrow> u64 \<Rightarrow> execution_evidence" where [sample_defs]:
  "sample_source x n = \<lparr>ev_execution = sample_execution x, ev_event_id = ''e'', ev_cursor = n\<rparr>"

definition child_observation :: attempt_observation where [sample_defs]:
  "child_observation = \<lparr>ao_attempt_id = ''p'', ao_execution = sample_execution ''x'',
     ao_source = sample_source ''x'' 3, ao_usage = sample_usage, ao_outcome = OCompleted []\<rparr>"

definition child_result :: consumed_result where [sample_defs]:
  "child_result = \<lparr>cr_child = ''k'', cr_completion_fact = sample_ref 7, cr_evidence = []\<rparr>"

definition root_evidence :: completion_evidence where [sample_defs]:
  "root_evidence = ExecutionResult ''c'' (sample_source ''y'' 3) sample_sha"

definition root_observation :: attempt_observation where [sample_defs]:
  "root_observation = \<lparr>ao_attempt_id = ''q'', ao_execution = sample_execution ''y'',
     ao_source = sample_source ''y'' 4, ao_usage = sample_usage,
     ao_outcome = OCompleted [root_evidence]\<rparr>"

section \<open>The snapshots of the run\<close>

definition sample_invocation ::
  "invocation_definition \<Rightarrow> invocation_state \<Rightarrow> string list \<Rightarrow> (string, consumed_result) bmap
   \<Rightarrow> fact_ref option \<Rightarrow> invocation_snapshot" where [sample_defs]:
  "sample_invocation d s xs consumed f =
     \<lparr>is_definition = d, is_state = s, is_attempts = xs, is_consumed = consumed,
      is_terminal_consumed = [], is_terminal_fact = f, is_completion_fact = f,
      is_cancellation_requested = False\<rparr>"

definition sample_attempt ::
  "attempt_binding \<Rightarrow> invocation_state \<Rightarrow> attempt_observation option \<Rightarrow> attempt_snapshot" where [sample_defs]:
  "sample_attempt b s obs =
     \<lparr>as_binding = b, as_state = s, as_observation = obs, as_waiting = None,
      as_cancellation_requested = False, as_retry_authorized = False\<rparr>"

definition sample_reserved :: "attempt_binding \<Rightarrow> step_reservation" where [sample_defs]:
  "sample_reserved b = \<lparr>sr_binding = b, sr_max_steps = 10\<rparr>"

definition sample_budget :: "(string, step_reservation) bmap \<Rightarrow> execution_budget_state" where [sample_defs]:
  "sample_budget rs = \<lparr>bs_policy = sample_policy, bs_policy_reference = sample_ref 2, bs_reservations = rs\<rparr>"

definition sample_snapshot ::
  "execution_budget_state option \<Rightarrow> u64 \<Rightarrow> task_state \<Rightarrow> task_usage \<Rightarrow> (string, invocation_snapshot) bmap
   \<Rightarrow> (string, attempt_snapshot) bmap \<Rightarrow> waiting_reason list \<Rightarrow> unit task_snapshot" where [sample_defs]:
  "sample_snapshot b n s u I A w =
     \<lparr>sn_execution_budget = b, sn_goal_assessments = [], sn_definition = sample_task,
      sn_position = n, sn_state = s, sn_usage = u, sn_invocations = I, sn_attempts = A,
      sn_waiting = w, sn_success_evidence = []\<rparr>"

definition sample1 :: "unit task_snapshot" where
  "sample1 = sample_snapshot None 1 TReady usage_default [] [] []"

definition sample2 :: "unit task_snapshot" where
  "sample2 = sample_snapshot (Some (sample_budget [])) 2 TReady usage_default [] [] []"

definition sample3 :: "unit task_snapshot" where
  "sample3 = sample_snapshot (Some (sample_budget [])) 3 TReady usage_default
     [(''r'', sample_invocation (root_definition []) Admitted [] [] None)] [] []"

definition sample4 :: "unit task_snapshot" where
  "sample4 = sample_snapshot (Some (sample_budget [])) 4 TWaiting usage_default
     [(''k'', sample_invocation child_definition Admitted [] [] None),
      (''r'', sample_invocation (root_definition []) Admitted [] [] None)] []
     [WChildResults [''k'']]"

definition sample5 :: "unit task_snapshot" where
  "sample5 = sample_snapshot (Some (sample_budget [])) 5 TWaiting usage_default
     [(''k'', sample_invocation child_definition Admitted [] [] None),
      (''r'', sample_invocation (root_definition [''k'']) Admitted [] [] None)] []
     [WChildResults [''k'']]"

definition sample6 :: "unit task_snapshot" where
  "sample6 = sample_snapshot (Some (sample_budget [(''p'', sample_reserved child_binding)])) 6 TActive
     usage_default
     [(''k'', sample_invocation child_definition Running [''p''] [] None),
      (''r'', sample_invocation (root_definition [''k'']) Admitted [] [] None)]
     [(''p'', sample_attempt child_binding Running None)]
     [WChildResults [''k'']]"

definition sample7 :: "unit task_snapshot" where
  "sample7 = sample_snapshot (Some (sample_budget [(''p'', sample_reserved child_binding)])) 7 TWaiting
     sample_usage
     [(''k'', sample_invocation child_definition Completed [''p''] [] (Some (sample_ref 7))),
      (''r'', sample_invocation (root_definition [''k'']) Admitted [] [] None)]
     [(''p'', sample_attempt child_binding Completed (Some child_observation))]
     [WChildResults [''k'']]"

definition sample8 :: "unit task_snapshot" where
  "sample8 = sample_snapshot (Some (sample_budget [(''p'', sample_reserved child_binding)])) 8 TReady
     sample_usage
     [(''k'', sample_invocation child_definition Completed [''p''] [] (Some (sample_ref 7))),
      (''r'', sample_invocation (root_definition [''k'']) Admitted [] [(''k'', child_result)] None)]
     [(''p'', sample_attempt child_binding Completed (Some child_observation))] []"

definition sample9 :: "unit task_snapshot" where
  "sample9 = sample_snapshot (Some (sample_budget [(''p'', sample_reserved child_binding),
       (''q'', sample_reserved root_binding)])) 9 TActive
     sample_usage
     [(''k'', sample_invocation child_definition Completed [''p''] [] (Some (sample_ref 7))),
      (''r'', sample_invocation (root_definition [''k'']) Running [''q''] [(''k'', child_result)] None)]
     [(''p'', sample_attempt child_binding Completed (Some child_observation)),
      (''q'', sample_attempt root_binding Running None)] []"

definition sample10 :: "unit task_snapshot" where
  "sample10 = sample_snapshot (Some (sample_budget [(''p'', sample_reserved child_binding),
       (''q'', sample_reserved root_binding)])) 10 TReady
     \<lparr>tu_input_tokens = 20, tu_output_tokens = 10, tu_unreported_steps = 0\<rparr>
     [(''k'', sample_invocation child_definition Completed [''p''] [] (Some (sample_ref 7))),
      (''r'', sample_invocation (root_definition [''k'']) Completed [''q''] [(''k'', child_result)]
        (Some (sample_ref 10)))]
     [(''p'', sample_attempt child_binding Completed (Some child_observation)),
      (''q'', sample_attempt root_binding Completed (Some root_observation))] []"

definition sample11 :: "unit task_snapshot" where
  "sample11 = sample10\<lparr>sn_position := 11, sn_state := TCompleted, sn_success_evidence := [root_evidence]\<rparr>"

section \<open>The run\<close>

lemma sample_blank [simp]: "\<not> blank [c]" if "c \<in> {CHR ''a''..CHR ''z''}"
proof -
  have "97 \<le> (of_char c :: nat)" using that by (simp add: less_eq_char_def)
  then show ?thesis by (simp add: blank_def)
qed

lemma sample_letters [simp]:
  "CHR ''b'' \<in> {CHR ''a''..CHR ''z''}" "CHR ''c'' \<in> {CHR ''a''..CHR ''z''}"
  "CHR ''d'' \<in> {CHR ''a''..CHR ''z''}" "CHR ''e'' \<in> {CHR ''a''..CHR ''z''}"
  "CHR ''i'' \<in> {CHR ''a''..CHR ''z''}" "CHR ''k'' \<in> {CHR ''a''..CHR ''z''}"
  "CHR ''o'' \<in> {CHR ''a''..CHR ''z''}" "CHR ''p'' \<in> {CHR ''a''..CHR ''z''}"
  "CHR ''q'' \<in> {CHR ''a''..CHR ''z''}" "CHR ''r'' \<in> {CHR ''a''..CHR ''z''}"
  "CHR ''s'' \<in> {CHR ''a''..CHR ''z''}" "CHR ''t'' \<in> {CHR ''a''..CHR ''z''}"
  "CHR ''u'' \<in> {CHR ''a''..CHR ''z''}" "CHR ''v'' \<in> {CHR ''a''..CHR ''z''}"
  "CHR ''x'' \<in> {CHR ''a''..CHR ''z''}" "CHR ''y'' \<in> {CHR ''a''..CHR ''z''}"
  by (simp_all add: less_eq_char_def)

lemma sample_identity_ok [simp]: "identity [c] = Ok ()" if "c \<in> {CHR ''a''..CHR ''z''}"
  using sample_blank [OF that] by (simp add: identity_def)

lemma sample_digest [simp]: "digest sample_sha = Ok ()"
  by (simp add: digest_def sample_sha_def hex_digit_def)

lemma sample_agent_ok [simp]: "agent sample_agent = Ok ()"
  by (simp add: agent_def sample_agent_def)

lemmas refresh_defs = refresh_def refresh_goals_def goal_waiting_def attempt_waiting_def
  required_results_def has_consumed_def derived_state_def any_invocation_def bt_set_def Let_def

lemma sample_step1: "apply_event sample_codec None (ERegistered sample_task) (sample_record 1 []) = Ok sample1"
  by (simp add: apply_event_def register_def validate_definition_def reason_def sample_task_def
      sample_limits_def sample1_def sample_snapshot_def sample_record_def)

lemma sample_step2:
  "apply_event sample_codec (Some sample1) (EExecutionBudgetConfigured sample_policy) (sample_record 2 []) = Ok sample2"
  by (simp add: apply_event_step configure_def budget_policy_validate_def refresh_defs reference_def
      sample1_def sample2_def sample_defs)

lemma sample_step3:
  "apply_event sample_codec (Some sample2) (EInvocationAdmitted (root_definition [])) (sample_record 3 []) = Ok sample3"
  by (simp add: apply_event_step admit_def admit_root_def available_id_def refresh_defs new_invocation_def
      sample2_def sample3_def sample_snapshot_def root_definition_def sample_record_def sample_task_def
      sample_limits_def len64_def sample_invocation_def)

lemma sample_step4:
  "apply_event sample_codec (Some sample3) (EInvocationAdmitted child_definition) (sample_record 4 []) = Ok sample4"
  by (simp add: apply_event_step admit_def admit_child_def available_id_def refresh_defs new_invocation_def
      sample3_def sample4_def sample_snapshot_def root_definition_def child_definition_def sample_record_def
      sample_task_def sample_limits_def len64_def sample_invocation_def less_char_def word_le_nat_alt)

lemma sample_step5:
  "apply_event sample_codec (Some sample4) (EDependencyAdmitted ''r'' ''k'') (sample_record 5 []) = Ok sample5"
  by (simp add: apply_event_step add_dependency_def reaches_def push_dependency_def bt_modify_def refresh_defs
      sample4_def sample5_def sample_snapshot_def root_definition_def child_definition_def sample_record_def
      sample_task_def sample_limits_def sample_invocation_def)

lemma sample_step6:
  "apply_event sample_codec (Some sample5) (EBudgetedAttemptStarted child_binding 10)
     (sample_record 6 [sample_ref 2]) = Ok sample6"
  by (simp add: apply_event_step reserve_def start_def remaining_steps_def budget_policy_validate_def
      available_id_def token_budget_exhausted_def usage_total_def usage_default_def update_invocation_def
      new_attempt_def bt_modify_def len64_def refresh_defs checked_sub_def sample5_def sample6_def sample_defs)

lemma sample_step7:
  "apply_event sample_codec (Some sample6) (EAttemptObserved child_observation) (sample_record 7 []) = Ok sample7"
  by (simp add: apply_event_step observe_def validate_source_def check_merge_def outcome_state_def
      validate_evidence_def add_usage_def usage_total_def usage_default_def update_attempt_def
      update_invocation_def stop_invocation_def checked_add_def reference_def bt_modify_def refresh_defs
      sample6_def sample7_def sample_defs)

lemma sample_step8:
  "apply_event sample_codec (Some sample7) (EResultConsumed ''r'' child_result)
     (sample_record 8 [sample_ref 7]) = Ok sample8"
  by (simp add: apply_event_step consume_def bt_modify_def refresh_defs sample7_def sample8_def sample_defs)

lemma sample_step9:
  "apply_event sample_codec (Some sample8) (EBudgetedAttemptStarted root_binding 10)
     (sample_record 9 [sample_ref 2]) = Ok sample9"
  by (simp add: apply_event_step reserve_def start_def remaining_steps_def budget_policy_validate_def
      available_id_def token_budget_exhausted_def usage_total_def update_invocation_def
      new_attempt_def bt_modify_def len64_def refresh_defs checked_sub_def checked_add_def less_char_def word_le_nat_alt
      sample8_def sample9_def sample_defs)

lemma sample_step10:
  "apply_event sample_codec (Some sample9) (EAttemptObserved root_observation) (sample_record 10 []) = Ok sample10"
  by (simp add: apply_event_step observe_def validate_source_def check_merge_def outcome_state_def
      validate_evidence_def add_usage_def usage_total_def usage_default_def update_attempt_def
      update_invocation_def stop_invocation_def checked_add_def reference_def bt_modify_def refresh_defs
      sample9_def sample10_def sample_defs)

lemma sample_step11:
  "apply_event sample_codec (Some sample10) (ECompleted [root_evidence]) (sample_record 11 []) = Ok sample11"
  by (simp add: apply_event_step complete_def available_evidence_def observed_evidence_def refresh_defs
      sample10_def sample11_def sample_defs)

definition sample_history :: "(unit, unit) task_history" where
  "sample_history =
     [(ERegistered sample_task, sample_record 1 []),
      (EExecutionBudgetConfigured sample_policy, sample_record 2 []),
      (EInvocationAdmitted (root_definition []), sample_record 3 []),
      (EInvocationAdmitted child_definition, sample_record 4 []),
      (EDependencyAdmitted ''r'' ''k'', sample_record 5 []),
      (EBudgetedAttemptStarted child_binding 10, sample_record 6 [sample_ref 2]),
      (EAttemptObserved child_observation, sample_record 7 []),
      (EResultConsumed ''r'' child_result, sample_record 8 [sample_ref 7]),
      (EBudgetedAttemptStarted root_binding 10, sample_record 9 [sample_ref 2]),
      (EAttemptObserved root_observation, sample_record 10 []),
      (ECompleted [root_evidence], sample_record 11 [])]"

lemma sample_reachable8: "reachable sample_codec (take 8 sample_history) sample8"
  using applied [OF applied [OF applied [OF applied [OF applied [OF applied [OF applied [OF registered
    [OF sample_step1] sample_step2] sample_step3] sample_step4] sample_step5] sample_step6] sample_step7] sample_step8]
  by (simp add: sample_history_def)

lemma sample_reachable5: "reachable sample_codec (take 5 sample_history) sample5"
  using applied [OF applied [OF applied [OF applied [OF registered
    [OF sample_step1] sample_step2] sample_step3] sample_step4] sample_step5]
  by (simp add: sample_history_def)

lemma sample_reachable10: "reachable sample_codec (take 10 sample_history) sample10"
  using applied [OF applied [OF sample_reachable8 sample_step9] sample_step10]
  by (simp add: sample_history_def)

lemma sample_reachable11: "reachable sample_codec sample_history sample11"
  using applied [OF sample_reachable10 sample_step11] by (simp add: sample_history_def)

section \<open>A cancelled run\<close>

text \<open>The same task, cancelled while the child runs; the child's end is still recorded.\<close>

definition sample_cancelled :: "unit task_snapshot" where
  "sample_cancelled = sample_snapshot (Some (sample_budget [(''p'', sample_reserved child_binding)])) 7
     TCancelled usage_default
     [(''k'', (sample_invocation child_definition Running [''p''] [] None)\<lparr>is_cancellation_requested := True\<rparr>),
      (''r'', (sample_invocation (root_definition [''k'']) Cancelled [] [] None)\<lparr>is_cancellation_requested := True\<rparr>)]
     [(''p'', (sample_attempt child_binding Running None)\<lparr>as_cancellation_requested := True\<rparr>)]
     [WChildResults [''k'']]"

definition sample_stopped :: "unit task_snapshot" where
  "sample_stopped = sample_snapshot (Some (sample_budget [(''p'', sample_reserved child_binding)])) 8
     TCancelled sample_usage
     [(''k'', (sample_invocation child_definition Completed [''p''] [] (Some (sample_ref 8)))
        \<lparr>is_cancellation_requested := True\<rparr>),
      (''r'', (sample_invocation (root_definition [''k'']) Cancelled [] [] None)\<lparr>is_cancellation_requested := True\<rparr>)]
     [(''p'', (sample_attempt child_binding Completed (Some child_observation))
        \<lparr>as_cancellation_requested := True\<rparr>)]
     [WChildResults [''k'']]"

lemma sample_step_cancelled:
  "apply_event sample_codec (Some sample6) (ECancelled ''x'') (sample_record 7 []) = Ok sample_cancelled"
  by (simp add: apply_event_step cancel_def reason_def cancel_selected_def cancel_invocation_def bt_modify_def
      refresh_defs sample6_def sample_cancelled_def sample_defs)

lemma sample_step_stopped:
  "apply_event sample_codec (Some sample_cancelled) (EAttemptObserved child_observation) (sample_record 8 [])
     = Ok sample_stopped"
  by (simp add: apply_event_step observe_def validate_source_def check_merge_def outcome_state_def
      validate_evidence_def add_usage_def usage_total_def usage_default_def update_attempt_def
      update_invocation_def stop_invocation_def checked_add_def reference_def bt_modify_def refresh_defs
      stopped_evidence_def sample_cancelled_def sample_stopped_def sample_defs)

lemma sample_reachable_cancelled:
  "reachable sample_codec (take 6 sample_history @ [(ECancelled ''x'', sample_record 7 [])]) sample_cancelled"
  using applied [OF applied [OF sample_reachable5 sample_step6] sample_step_cancelled]
  by (simp add: sample_history_def)

section \<open>A run over the token limit\<close>

definition heavy_usage :: task_usage where [sample_defs]:
  "heavy_usage = \<lparr>tu_input_tokens = 100, tu_output_tokens = 1, tu_unreported_steps = 0\<rparr>"

definition heavy_observation :: attempt_observation where [sample_defs]:
  "heavy_observation = \<lparr>ao_attempt_id = ''p'', ao_execution = sample_execution ''x'',
     ao_source = sample_source ''x'' 3, ao_usage = heavy_usage, ao_outcome = OCompleted []\<rparr>"

definition sample_overspent :: "unit task_snapshot" where
  "sample_overspent = sample_snapshot (Some (sample_budget [(''p'', sample_reserved child_binding)])) 7 TFailed
     heavy_usage
     [(''k'', sample_invocation child_definition Completed [''p''] [] (Some (sample_ref 7))),
      (''r'', sample_invocation (root_definition [''k'']) Admitted [] [] None)]
     [(''p'', sample_attempt child_binding Completed (Some heavy_observation))]
     [WChildResults [''k'']]"

lemma sample_step_overspent:
  "apply_event sample_codec (Some sample6) (EAttemptObserved heavy_observation) (sample_record 7 [])
     = Ok sample_overspent"
  by (simp add: apply_event_step observe_def validate_source_def check_merge_def outcome_state_def
      validate_evidence_def add_usage_def usage_total_def usage_default_def update_attempt_def
      update_invocation_def stop_invocation_def checked_add_def reference_def bt_modify_def refresh_defs
      sample6_def sample_overspent_def sample_defs)

lemma sample_reachable6: "reachable sample_codec (take 6 sample_history) sample6"
  using applied [OF sample_reachable5 sample_step6] by (simp add: sample_history_def)

lemma sample_reachable7: "reachable sample_codec (take 7 sample_history) sample7"
  using applied [OF sample_reachable6 sample_step7] by (simp add: sample_history_def)

section \<open>A suspended run\<close>

definition sample_wait :: "string list \<Rightarrow> task_suspension" where [sample_defs]:
  "sample_wait ids = \<lparr>ts_checkpoint_id = ''c'', ts_approval_ids = ids, ts_external_wait_ids = []\<rparr>"

definition wait_observation :: attempt_observation where [sample_defs]:
  "wait_observation = \<lparr>ao_attempt_id = ''p'', ao_execution = sample_execution ''x'',
     ao_source = sample_source ''x'' 3, ao_usage = sample_usage,
     ao_outcome = OSuspended (sample_wait [''i''])\<rparr>"

definition sample_suspended :: "unit task_snapshot" where
  "sample_suspended = sample_snapshot (Some (sample_budget [(''p'', sample_reserved child_binding)])) 7 TWaiting
     sample_usage
     [(''k'', sample_invocation child_definition Suspended [''p''] [] None),
      (''r'', sample_invocation (root_definition [''k'']) Admitted [] [] None)]
     [(''p'', (sample_attempt child_binding Suspended (Some wait_observation))
        \<lparr>as_waiting := Some (WSuspension (sample_wait [''i'']))\<rparr>)]
     [WSuspension (sample_wait [''i'']), WChildResults [''k'']]"

definition sample_resumed :: "unit task_snapshot" where
  "sample_resumed = sample_snapshot (Some (sample_budget [(''p'', sample_reserved child_binding)])) 8 TActive
     sample_usage
     [(''k'', sample_invocation child_definition Running [''p''] [] None),
      (''r'', sample_invocation (root_definition [''k'']) Admitted [] [] None)]
     [(''p'', sample_attempt child_binding Running (Some wait_observation))]
     [WChildResults [''k'']]"

lemma sample_step_suspended:
  "apply_event sample_codec (Some sample6) (EAttemptObserved wait_observation) (sample_record 7 [])
     = Ok sample_suspended"
  by (simp add: apply_event_step observe_def validate_source_def check_merge_def outcome_state_def
      validate_waiting_def add_usage_def usage_total_def usage_default_def update_attempt_def
      update_invocation_def stop_invocation_def checked_add_def reference_def bt_modify_def refresh_defs
      sample6_def sample_suspended_def sample_defs)

lemma sample_step_resumed:
  "apply_event sample_codec (Some sample_suspended) (EAttemptResumed child_binding ''c'') (sample_record 8 [])
     = Ok sample_resumed"
  by (simp add: apply_event_step resume_def token_budget_exhausted_def usage_total_def update_attempt_def
      update_invocation_def checked_add_def bt_modify_def refresh_defs
      sample_suspended_def sample_resumed_def sample_defs)

lemma sample_reachable_suspended:
  "reachable sample_codec (take 6 sample_history @ [(EAttemptObserved wait_observation, sample_record 7 [])])
     sample_suspended"
  by (rule applied [OF sample_reachable6 sample_step_suspended])

end
