(* ===== verification/Task_Persistence.thy ===== *)
theory Task_Persistence
  imports Task_Sample
begin

text \<open>
  What no accepted event can undo: the definition of the task, completed invocations and attempts,
  and the link of every consumed result to the completion it stands for. The last section lifts
  these facts to \<open>apply_event\<close> and to reachable snapshots.
\<close>

section \<open>What an accepted event keeps\<close>

lemma update_invocation_Ok:
  "update_invocation k f st = Ok st' \<longleftrightarrow> bt_get (sn_invocations st) k \<noteq> None \<and>
     st' = st\<lparr>sn_invocations := bt_modify k f (sn_invocations st)\<rparr>"
  by (auto simp: update_invocation_def res_simps)

lemma update_attempt_Ok:
  "update_attempt k f st = Ok st' \<longleftrightarrow> bt_get (sn_attempts st) k \<noteq> None \<and>
     st' = st\<lparr>sn_attempts := bt_modify k f (sn_attempts st)\<rparr>"
  by (auto simp: update_attempt_def res_simps)

lemma transition_definition:
  assumes wf: "snapshot_wf c st" and tr: "transition_event c st e r = Ok st'"
  shows "sn_definition st' = sn_definition st"
proof (cases e)
  case (EExecutionBudgetConfigured p)
  with tr show ?thesis by (simp add: configure_Ok)
next
  case (EBudgetedAttemptStarted b n)
  with tr obtain st1 where "reserve st b n r = Ok st1" "start st1 b = Ok st'" by (auto simp: res_simps)
  then show ?thesis by (auto elim!: reserve_Ok start_Ok)
next
  case (EGoalAssessed a)
  with tr show ?thesis by (auto elim!: apply_assessment_Ok)
next
  case (EInvocationAdmitted d)
  with tr show ?thesis by (auto simp: admit_def res_simps)
next
  case (EDependencyAdmitted k x)
  with tr show ?thesis by (auto simp: add_dependency_def res_simps)
next
  case (EAttemptStarted b)
  with tr show ?thesis by (auto elim!: start_Ok split: if_splits)
next
  case (EAttemptObserved obs)
  with tr show ?thesis by (auto elim!: observe_Ok [OF wf])
next
  case (EAttemptResumed b checkpoint)
  with tr show ?thesis by (auto elim!: resume_Ok [OF wf])
next
  case (ERecoveryNeeded x why)
  with tr show ?thesis by (auto elim!: need_recovery_Ok [OF wf])
next
  case (ERetryAuthorized x source why)
  with tr show ?thesis by (auto elim!: authorize_retry_Ok)
next
  case (EResultConsumed k result)
  with tr show ?thesis by (auto elim!: consume_Ok)
next
  case (ETerminalResultConsumed k result)
  with tr show ?thesis by (auto elim!: consume_terminal_Ok)
next
  case (ECompleted evidence)
  with tr complete_Ok(7) [of st evidence st'] show ?thesis by simp
next
  case (ECancelled why)
  with tr show ?thesis by (auto elim!: cancel_Ok)
qed (use tr in \<open>auto simp: res_simps\<close>)

text \<open>Completed invocations and attempts are final.\<close>

definition keeps_inv :: "(string \<rightharpoonup> invocation_snapshot) \<Rightarrow> (string \<rightharpoonup> invocation_snapshot) \<Rightarrow> bool" where
  "keeps_inv I I' \<longleftrightarrow> (\<forall>k i. I k = Some i \<longrightarrow> is_state i = Completed \<longrightarrow>
     (\<exists>i'. I' k = Some i' \<and> is_state i' = Completed \<and> is_completion_fact i' = is_completion_fact i \<and>
        is_attempts i' = is_attempts i))"

definition keeps_att :: "(string \<rightharpoonup> attempt_snapshot) \<Rightarrow> (string \<rightharpoonup> attempt_snapshot) \<Rightarrow> bool" where
  "keeps_att A A' \<longleftrightarrow> (\<forall>x a. A x = Some a \<longrightarrow> as_state a = Completed \<longrightarrow>
     (\<exists>a'. A' x = Some a' \<and> as_state a' = Completed \<and> completed_with a' = completed_with a \<and>
        as_binding a' = as_binding a))"

lemma keeps_refl [simp]: "keeps_inv I I" "keeps_att A A"
  by (simp_all add: keeps_inv_def keeps_att_def)

lemma keeps_upd_inv: "is_state i \<noteq> Completed \<Longrightarrow> I k = Some i \<Longrightarrow> keeps_inv I (I(k \<mapsto> i'))"
  by (simp add: keeps_inv_def)

lemma keeps_upd_same: "I k = Some i \<Longrightarrow> same_links i i' \<Longrightarrow> keeps_inv I (I(k \<mapsto> i'))"
  by (simp add: keeps_inv_def same_links_def)

lemma keeps_new_inv: "I k = None \<Longrightarrow> keeps_inv I (I(k \<mapsto> i'))"
  by (auto simp: keeps_inv_def)

lemma keeps_upd_att: "as_state a \<noteq> Completed \<Longrightarrow> A x = Some a \<Longrightarrow> keeps_att A (A(x \<mapsto> a'))"
  by (simp add: keeps_att_def)

lemma keeps_new_att: "A x = None \<Longrightarrow> keeps_att A (A(x \<mapsto> a'))"
  by (auto simp: keeps_att_def)

lemma start_keeps:
  assumes wf: "bt_wf (sn_attempts st)" and "start st b = Ok st'"
  shows "keeps_inv (bt_get (sn_invocations st)) (bt_get (sn_invocations st'))"
    "keeps_att (bt_get (sn_attempts st)) (bt_get (sn_attempts st'))"
proof -
  from assms(2) obtain i where av: "available_id st (ab_attempt_id b) = Ok ()"
    and i: "bt_get (sn_invocations st) (ab_invocation_id b) = Some i"
    and s: "is_state i = Admitted \<or>
      is_state i = Failed \<and> is_attempts i \<noteq> [] \<and>
        (\<exists>a. bt_get (sn_attempts st) (last (is_attempts i)) = Some a \<and> safe_to_retry a)"
    and st': "st' = st\<lparr>sn_invocations := bt_modify (ab_invocation_id b)
        (\<lambda>i. i\<lparr>is_state := Running, is_terminal_fact := None,
           is_attempts := is_attempts i @ [ab_attempt_id b]\<rparr>) (sn_invocations st),
      sn_attempts := bt_insert (ab_attempt_id b) (new_attempt b) (sn_attempts st)\<rparr>"
    by (rule start_Ok)
  have "is_state i \<noteq> Completed" using s by auto
  then show "keeps_inv (bt_get (sn_invocations st)) (bt_get (sn_invocations st'))"
    using keeps_upd_inv [where I = "bt_get (sn_invocations st)", OF _ i] i by (simp add: st' bt_get_modify_Some)
  show "keeps_att (bt_get (sn_attempts st)) (bt_get (sn_attempts st'))"
    using keeps_new_att [where A = "bt_get (sn_attempts st)", OF available_id_wf(3) [OF av]] by (simp add: st' bt_get_insert [OF wf])
qed

lemma retarget_keeps:
  assumes i: "bt_get m k = Some i" "is_state i \<noteq> Completed"
    and a: "bt_get n x = Some a" "as_state a \<noteq> Completed"
  shows "keeps_inv (bt_get m) (bt_get (bt_modify k f m)) \<and>
    keeps_att (bt_get n) (bt_get (bt_modify x g n))"
  using keeps_upd_inv [where I = "bt_get m", OF i(2,1)] keeps_upd_att [where A = "bt_get n", OF a(2,1)]
  by (simp add: bt_get_modify_Some [OF i(1)] bt_get_modify_Some [OF a(1)])

lemma flagged_keeps: "flagged A A' \<Longrightarrow> keeps_att A A'"
  unfolding keeps_att_def by (metis flagged_Some(1) request_cancel_simps)

lemma observe_maps:
  assumes wf: "snapshot_wf c st" and "observe st obs r = Ok st'"
  obtains a nxt where "bt_get (sn_attempts st) (ao_attempt_id obs) = Some a"
    "as_state a \<in> {Running, RecoveryRequired, Suspended}" "outcome_state st a obs = Ok nxt"
    "sn_attempts st' = bt_modify (ao_attempt_id obs) (observed_attempt nxt obs) (sn_attempts st)"
    "sn_invocations st' = bt_modify (ab_invocation_id (as_binding a))
      (stop_invocation nxt (reference r)) (sn_invocations st)"
proof -
  from assms(2) obtain a nxt usage used st1 where a: "bt_get (sn_attempts st) (ao_attempt_id obs) = Some a"
    "as_state a \<in> {Running, RecoveryRequired, Suspended}" "outcome_state st a obs = Ok nxt"
    and st1: "st1 = st\<lparr>sn_usage := usage,
        sn_attempts := bt_modify (ao_attempt_id obs) (observed_attempt nxt obs) (sn_attempts st),
        sn_invocations := bt_modify (ab_invocation_id (as_binding a))
          (stop_invocation nxt (reference r)) (sn_invocations st)\<rparr>"
    and st': "st' = (if overspent st usage used then st1\<lparr>sn_state := TFailed\<rparr> else st1)"
    by (rule observe_Ok [OF wf])
  show ?thesis by (rule that [OF a]) (simp_all add: st' st1)
qed

lemma modify_same_keeps:
  assumes "bt_get (sn_invocations st) k = Some i" and "same_links i (f i)"
  shows "keeps_inv (bt_get (sn_invocations st)) (bt_get (bt_modify k f (sn_invocations st)))"
  using keeps_upd_same [where I = "bt_get (sn_invocations st)", OF assms]
  by (simp add: bt_get_modify_Some [OF assms(1)])

lemma transition_keeps:
  assumes wf: "snapshot_wf c st" and tr: "transition_event c st e r = Ok st'"
  shows "keeps_inv (bt_get (sn_invocations st)) (bt_get (sn_invocations st')) \<and>
    keeps_att (bt_get (sn_attempts st)) (bt_get (sn_attempts st'))"
proof (cases e)
  case (EExecutionBudgetConfigured p)
  with tr show ?thesis by (simp add: configure_Ok)
next
  case (EBudgetedAttemptStarted b n)
  with tr obtain st1 where st1: "reserve st b n r = Ok st1" "start st1 b = Ok st'" by (auto simp: res_simps)
  then have "sn_invocations st1 = sn_invocations st" "sn_attempts st1 = sn_attempts st"
    by (auto elim!: reserve_Ok)
  with start_keeps [OF _ st1(2)] wf_maps(2) [OF wf] show ?thesis by simp
next
  case (EGoalAssessed a)
  with tr show ?thesis by (auto elim!: apply_assessment_Ok)
next
  case (EInvocationAdmitted d)
  with tr have "available_id st (id_invocation_id d) = Ok ()"
    "st' = st\<lparr>sn_invocations := bt_insert (id_invocation_id d) (new_invocation d) (sn_invocations st)\<rparr>"
    by (auto simp: admit_def res_simps)
  with keeps_new_inv [where I = "bt_get (sn_invocations st)", OF available_id_wf(2)] show ?thesis
    by (simp add: bt_get_insert [OF wf_maps(1) [OF wf]])
next
  case (EDependencyAdmitted k x)
  with tr obtain i where i: "bt_get (sn_invocations st) k = Some i"
    "st' = st\<lparr>sn_invocations := bt_modify k (push_dependency x) (sn_invocations st)\<rparr>"
    by (auto simp: add_dependency_def res_simps simp del: bt_contains_iff)
  then show ?thesis
    by (simp add: modify_same_keeps same_links_def push_dependency_def)
next
  case (EAttemptStarted b)
  with tr have "start st b = Ok st'" by (auto split: if_splits)
  with start_keeps wf_maps(2) [OF wf] show ?thesis by blast
next
  case (EAttemptObserved obs)
  with tr have "observe st obs r = Ok st'" by simp
  then obtain a nxt where a: "bt_get (sn_attempts st) (ao_attempt_id obs) = Some a"
    "as_state a \<in> {Running, RecoveryRequired, Suspended}"
    and maps: "sn_attempts st' = bt_modify (ao_attempt_id obs) (observed_attempt nxt obs) (sn_attempts st)"
      "sn_invocations st' = bt_modify (ab_invocation_id (as_binding a))
        (stop_invocation nxt (reference r)) (sn_invocations st)"
    by (rule observe_maps [OF wf])
  from a(2) have nc: "as_state a \<notin> {Failed, Completed}" by auto
  from live_attempt [OF wf a(1) nc] obtain i where
    "bt_get (sn_invocations st) (ab_invocation_id (as_binding a)) = Some i" "is_state i \<noteq> Completed" by blast
  moreover have "as_state a \<noteq> Completed" using nc by simp
  ultimately show ?thesis unfolding maps using retarget_keeps a(1) by blast
next
  case (EAttemptResumed b checkpoint)
  with tr have "resume st b checkpoint = Ok st'" by simp
  then obtain a where a: "bt_get (sn_attempts st) (ab_attempt_id b) = Some a" "as_binding a = b"
    "as_state a = Suspended" and st': "st' = st\<lparr>sn_attempts := bt_modify (ab_attempt_id b)
             (\<lambda>a. a\<lparr>as_state := Running, as_waiting := None\<rparr>) (sn_attempts st),
           sn_invocations := bt_modify (ab_invocation_id b)
             (set_invocation_state Running) (sn_invocations st)\<rparr>"
    by (rule resume_Ok [OF wf])
  from a(3) have nc: "as_state a \<notin> {Failed, Completed}" by auto
  from live_attempt [OF wf a(1) nc] a(2) obtain i where
    "bt_get (sn_invocations st) (ab_invocation_id b) = Some i" "is_state i \<noteq> Completed" by blast
  from retarget_keeps [OF this a(1)] a(3) st' show ?thesis by simp
next
  case (ERecoveryNeeded x why)
  with tr have "need_recovery st x why = Ok st'" by simp
  then obtain a where a: "bt_get (sn_attempts st) x = Some a"
    "as_state a \<in> {Running, Suspended, RecoveryRequired}" and st': "st' = st\<lparr>sn_attempts :=
           bt_modify x (\<lambda>a. a\<lparr>as_state := RecoveryRequired,
             as_waiting := Some (WRecovery why)\<rparr>) (sn_attempts st),
           sn_invocations := bt_modify (ab_invocation_id (as_binding a))
             (set_invocation_state RecoveryRequired) (sn_invocations st)\<rparr>"
    by (rule need_recovery_Ok [OF wf])
  from a(2) have nc: "as_state a \<notin> {Failed, Completed}" by auto
  from live_attempt [OF wf a(1) nc] obtain i where
    "bt_get (sn_invocations st) (ab_invocation_id (as_binding a)) = Some i" "is_state i \<noteq> Completed" by blast
  from retarget_keeps [OF this a(1)] nc st' show ?thesis by simp
next
  case (ERetryAuthorized x source why)
  with tr have "authorize_retry st x source why = Ok st'" by simp
  then obtain a i where a: "bt_get (sn_attempts st) x = Some a"
    and i: "bt_get (sn_invocations st) (ab_invocation_id (as_binding a)) = Some i"
    and s: "as_state a \<in> {Failed, RecoveryRequired}" and si: "is_state i \<in> {Failed, RecoveryRequired}"
    and st': "st' = st\<lparr>sn_attempts := bt_modify x (\<lambda>a. a\<lparr>as_retry_authorized := True, as_state := Failed,
             as_waiting := None\<rparr>) (sn_attempts st),
           sn_invocations := bt_modify (ab_invocation_id (as_binding a))
             (set_invocation_state Failed) (sn_invocations st)\<rparr>"
    by (rule authorize_retry_Ok)
  have "as_state a \<noteq> Completed" "is_state i \<noteq> Completed" using s si by auto
  from retarget_keeps [OF i this(2) a this(1)] st' show ?thesis by simp
next
  case (EResultConsumed k result)
  with tr show ?thesis by (auto elim!: consume_Ok intro!: modify_same_keeps simp: same_links_def)
next
  case (ETerminalResultConsumed k result)
  with tr show ?thesis by (auto elim!: consume_terminal_Ok intro!: modify_same_keeps simp: same_links_def)
next
  case (ECompleted evidence)
  with tr complete_Ok(7) [of st evidence st'] show ?thesis by simp
next
  case (ECancelled why)
  with tr have "cancel st why = Ok st'" by simp
  then obtain invs atts where
    invs: "invs = map (\<lambda>(k, i). (k, if cancel_selected st i then cancel_invocation i else i)) (sn_invocations st)"
    and fl: "flagged (bt_get (sn_attempts st)) (bt_get atts)"
    and st': "st' = st\<lparr>sn_invocations := invs, sn_attempts := atts, sn_state := TCancelled\<rparr>"
    by (rule cancel_Ok)
  have "keeps_inv (bt_get (sn_invocations st)) (bt_get invs)"
    by (simp add: keeps_inv_def invs bt_get_map cancel_invocation_def)
  with flagged_keeps [OF fl] show ?thesis by (simp add: st')
qed (use tr in \<open>auto simp: res_simps\<close>)

text \<open>An accepted event, with its derived parts separated from the transition.\<close>

lemma apply_step:
  assumes "apply_event c (Some st) e r = Ok st'"
  obtains st1 w where "transition_event c st e r = Ok st1"
    "st' = st1\<lparr>sn_position := rc_position r, sn_waiting := w,
       sn_state := derived_state (st1\<lparr>sn_position := rc_position r, sn_waiting := w\<rparr>)\<rparr>"
    "is_terminal (sn_state st) \<longrightarrow> detached_resume st e \<or> stopped_evidence e" "\<forall>d. e \<noteq> ERegistered d"
  using assms
proof (cases rule: apply_event_cases)
  case (step st0 st1)
  from step(5) obtain w where "st' = st1\<lparr>sn_position := rc_position r, sn_waiting := w,
       sn_state := derived_state (st1\<lparr>sn_position := rc_position r, sn_waiting := w\<rparr>)\<rparr>"
    by (rule refresh_Ok) simp
  with step that [of st1 w] show ?thesis by simp
qed simp

lemma apply_keeps:
  assumes wf: "snapshot_wf c st" and "apply_event c (Some st) e r = Ok st'"
  shows "keeps_inv (bt_get (sn_invocations st)) (bt_get (sn_invocations st'))"
    "keeps_att (bt_get (sn_attempts st)) (bt_get (sn_attempts st'))"
    "sn_definition st' = sn_definition st"
proof -
  from assms(2) obtain st1 w where st1: "transition_event c st e r = Ok st1"
    and st': "st' = st1\<lparr>sn_position := rc_position r, sn_waiting := w,
       sn_state := derived_state (st1\<lparr>sn_position := rc_position r, sn_waiting := w\<rparr>)\<rparr>"
    by (rule apply_step)
  from transition_keeps [OF wf st1] transition_definition [OF wf st1] st' show
    "keeps_inv (bt_get (sn_invocations st)) (bt_get (sn_invocations st'))"
    "keeps_att (bt_get (sn_attempts st)) (bt_get (sn_attempts st'))"
    "sn_definition st' = sn_definition st" by simp_all
qed

section \<open>What consumed results stand for\<close>

text \<open>
  Every result recorded as consumed is the completion of the named child: its completion fact and
  exactly the evidence its last attempt was observed to complete with.
\<close>

definition result_of ::
  "(string \<rightharpoonup> invocation_snapshot) \<Rightarrow> (string \<rightharpoonup> attempt_snapshot) \<Rightarrow> string \<Rightarrow> consumed_result \<Rightarrow> bool" where
  "result_of I A child r \<longleftrightarrow> cr_child r = child \<and>
     (\<exists>i a. I child = Some i \<and> is_state i = Completed \<and>
        is_completion_fact i = Some (cr_completion_fact r) \<and> is_attempts i \<noteq> [] \<and>
        A (last (is_attempts i)) = Some a \<and> as_state a = Completed \<and>
        completed_with a = Some (cr_evidence r))"

definition consumed_ok :: "'v task_snapshot \<Rightarrow> bool" where
  "consumed_ok st \<longleftrightarrow> (\<forall>k i. bt_get (sn_invocations st) k = Some i \<longrightarrow> bt_wf (is_consumed i) \<and>
     (\<forall>child r. bt_get (is_consumed i) child = Some r \<longrightarrow>
        result_of (bt_get (sn_invocations st)) (bt_get (sn_attempts st)) child r))"

lemma result_of_keeps:
  assumes "keeps_inv I I'" and "keeps_att A A'" and "result_of I A child r"
  shows "result_of I' A' child r"
proof -
  from assms(3) obtain i a where i: "cr_child r = child" "I child = Some i" "is_state i = Completed"
    "is_completion_fact i = Some (cr_completion_fact r)" "is_attempts i \<noteq> []"
    "A (last (is_attempts i)) = Some a" "as_state a = Completed" "completed_with a = Some (cr_evidence r)"
    unfolding result_of_def by blast
  from assms(1) i(2,3) obtain i' where i': "I' child = Some i'" "is_state i' = Completed"
    "is_completion_fact i' = is_completion_fact i" "is_attempts i' = is_attempts i"
    unfolding keeps_inv_def by blast
  from assms(2) i(6,7) obtain a' where a': "A' (last (is_attempts i)) = Some a'" "as_state a' = Completed"
    "completed_with a' = completed_with a"
    unfolding keeps_att_def by blast
  show ?thesis unfolding result_of_def using i i' a' by simp
qed

text \<open>Apart from \<open>consume\<close>, an event leaves the consumed results of every invocation alone.\<close>

definition consumed_of :: "'v task_snapshot \<Rightarrow> string \<Rightarrow> (string, consumed_result) bmap" where
  "consumed_of st k = (case bt_get (sn_invocations st) k of Some i \<Rightarrow> is_consumed i | None \<Rightarrow> [])"

lemma consumed_of_modify:
  assumes "\<And>i. is_consumed (f i) = is_consumed i"
  shows "consumed_of (st\<lparr>sn_invocations := bt_modify k f m\<rparr>) = consumed_of (st\<lparr>sn_invocations := m\<rparr>)"
  by (rule ext) (simp add: consumed_of_def bt_get_modify assms split: option.split)

lemma consumed_of_cong:
  "sn_invocations st' = sn_invocations st \<Longrightarrow> consumed_of st' = consumed_of st"
  by (simp add: consumed_of_def fun_eq_iff)

lemma consumed_of_modify_cong:
  assumes "sn_invocations st' = bt_modify k f (sn_invocations st)"
    and "\<And>i. is_consumed (f i) = is_consumed i"
  shows "consumed_of st' = consumed_of st"
  by (rule ext) (simp add: consumed_of_def assms bt_get_modify split: option.split)

lemma transition_consumed:
  assumes wf: "snapshot_wf c st" and tr: "transition_event c st e r = Ok st'"
    and "\<And>k x. e \<noteq> EResultConsumed k x"
  shows "consumed_of st' = consumed_of st"
proof (cases e)
  case (EExecutionBudgetConfigured p)
  with tr show ?thesis by (intro consumed_of_cong) (simp add: configure_Ok)
next
  case (EBudgetedAttemptStarted b n)
  with tr obtain st1 where "reserve st b n r = Ok st1" "start st1 b = Ok st'" by (auto simp: res_simps)
  then show ?thesis by (auto elim!: reserve_Ok start_Ok intro!: consumed_of_modify_cong)
next
  case (EGoalAssessed a)
  with tr show ?thesis by (auto elim!: apply_assessment_Ok intro!: consumed_of_cong)
next
  case (EInvocationAdmitted d)
  with tr have "available_id st (id_invocation_id d) = Ok ()"
    "st' = st\<lparr>sn_invocations := bt_insert (id_invocation_id d) (new_invocation d) (sn_invocations st)\<rparr>"
    by (auto simp: admit_def res_simps)
  moreover from this(1) have "bt_get (sn_invocations st) (id_invocation_id d) = None"
    by (rule available_id_wf(2))
  ultimately show ?thesis
    by (auto simp: consumed_of_def bt_get_insert [OF wf_maps(1) [OF wf]] new_invocation_def fun_eq_iff)
next
  case (EDependencyAdmitted k x)
  with tr have "sn_invocations st' = bt_modify k (push_dependency x) (sn_invocations st)"
    by (auto simp: add_dependency_def res_simps)
  then show ?thesis by (rule consumed_of_modify_cong) (simp add: push_dependency_def)
next
  case (EAttemptStarted b)
  with tr show ?thesis by (auto elim!: start_Ok intro!: consumed_of_modify_cong split: if_splits)
next
  case (EAttemptObserved obs)
  with tr have "observe st obs r = Ok st'" by simp
  then obtain a nxt where "bt_get (sn_attempts st) (ao_attempt_id obs) = Some a"
    and "as_state a \<in> {Running, RecoveryRequired, Suspended}" and "outcome_state st a obs = Ok nxt"
    and "sn_attempts st' = bt_modify (ao_attempt_id obs) (observed_attempt nxt obs) (sn_attempts st)"
    and inv: "sn_invocations st' = bt_modify (ab_invocation_id (as_binding a))
      (stop_invocation nxt (reference r)) (sn_invocations st)"
    by (rule observe_maps [OF wf])
  from inv show ?thesis by (rule consumed_of_modify_cong) (simp add: stop_invocation_def)
next
  case (EAttemptResumed b checkpoint)
  with tr show ?thesis by (auto elim!: resume_Ok [OF wf] intro!: consumed_of_modify_cong)
next
  case (ERecoveryNeeded x why)
  with tr show ?thesis by (auto elim!: need_recovery_Ok [OF wf] intro!: consumed_of_modify_cong)
next
  case (ERetryAuthorized x source why)
  with tr show ?thesis by (auto elim!: authorize_retry_Ok intro!: consumed_of_modify_cong)
next
  case (ETerminalResultConsumed k result)
  with tr show ?thesis by (auto elim!: consume_terminal_Ok intro!: consumed_of_modify_cong)
next
  case (ECompleted evidence)
  with tr complete_Ok(7) [of st evidence st'] show ?thesis by (intro consumed_of_cong) simp
next
  case (ECancelled why)
  with tr have "cancel st why = Ok st'" by simp
  then obtain invs atts where
    invs: "invs = map (\<lambda>(k, i). (k, if cancel_selected st i then cancel_invocation i else i)) (sn_invocations st)"
    and st': "st' = st\<lparr>sn_invocations := invs, sn_attempts := atts, sn_state := TCancelled\<rparr>"
    by (rule cancel_Ok)
  show ?thesis
    by (rule ext)
       (simp add: consumed_of_def st' invs bt_get_map cancel_invocation_def split: option.split)
qed (use tr assms(3) in \<open>auto simp: res_simps intro!: consumed_of_cong\<close>)

lemma consumed_ok_iff:
  "consumed_ok st \<longleftrightarrow> (\<forall>k. bt_wf (consumed_of st k) \<and> (\<forall>child r. bt_get (consumed_of st k) child = Some r \<longrightarrow>
     result_of (bt_get (sn_invocations st)) (bt_get (sn_attempts st)) child r))"
proof -
  have "bt_wf (consumed_of st k) \<and> (\<forall>child r. bt_get (consumed_of st k) child = Some r \<longrightarrow>
      result_of (bt_get (sn_invocations st)) (bt_get (sn_attempts st)) child r)
    \<longleftrightarrow> (\<forall>i. bt_get (sn_invocations st) k = Some i \<longrightarrow> bt_wf (is_consumed i) \<and>
       (\<forall>child r. bt_get (is_consumed i) child = Some r \<longrightarrow>
        result_of (bt_get (sn_invocations st)) (bt_get (sn_attempts st)) child r))" for k
    by (cases "bt_get (sn_invocations st) k") (simp_all add: consumed_of_def)
  then show ?thesis unfolding consumed_ok_def by blast
qed

lemma consume_consumed:
  assumes wf: "snapshot_wf c st" and ok: "consumed_ok st" and con: "consume st k r record = Ok st'"
  shows "consumed_ok st'"
proof -
  let ?I = "bt_get (sn_invocations st)" and ?A = "bt_get (sn_attempts st)"
  from con obtain i child a where i: "?I k = Some i"
    and ch: "?I (cr_child r) = Some child" "is_attempts child \<noteq> []" "?A (last (is_attempts child)) = Some a"
      "completed_with a = Some (cr_evidence r)" "is_completion_fact child = Some (cr_completion_fact r)"
    and st': "st' = st\<lparr>sn_invocations := bt_modify k
        (\<lambda>i. i\<lparr>is_consumed := bt_insert (cr_child r) r (is_consumed i)\<rparr>) (sn_invocations st)\<rparr>"
    by (rule consume_Ok)
  have "is_state child = Completed"
    using links_inv [OF wf_links [OF wf] ch(1)] ch(5) by (simp add: inv_ok_def)
  moreover have "as_state a = Completed"
    using links_att [OF wf_links [OF wf] ch(3)] ch(4) by (simp add: att_ok_def)
  ultimately have new: "result_of ?I ?A (cr_child r) r"
    using ch by (simp add: result_of_def)
  have keep: "keeps_inv ?I (bt_get (sn_invocations st'))" "keeps_att ?A (bt_get (sn_attempts st'))"
    using modify_same_keeps [OF i, of "\<lambda>i. i\<lparr>is_consumed := bt_insert (cr_child r) r (is_consumed i)\<rparr>"]
    by (simp_all add: st' same_links_def)
  note mono = result_of_keeps [OF keep]
  have c': "consumed_of st' j = (if j = k then bt_insert (cr_child r) r (consumed_of st k) else consumed_of st j)" for j
    using i by (simp add: consumed_of_def st' bt_get_modify split: option.split)
  note ok = ok [unfolded consumed_ok_iff, rule_format]
  have "bt_wf (consumed_of st' j)" for j using ok [of j] ok [of k] by (auto simp: c')
  moreover have "result_of (bt_get (sn_invocations st')) (bt_get (sn_attempts st')) x q"
    if q: "bt_get (consumed_of st' j) x = Some q" for j x q
  proof (cases "j = k \<and> x = cr_child r")
    case True
    with q ok [of k] have "q = r" by (simp add: c' bt_get_insert)
    with True mono new show ?thesis by simp
  next
    case False
    with q ok [of k] have "bt_get (consumed_of st j) x = Some q"
      by (auto simp: c' bt_get_insert split: if_splits)
    with ok [of j] mono show ?thesis by blast
  qed
  ultimately show ?thesis unfolding consumed_ok_iff by blast
qed

lemma reachable_consumed: "reachable c h st \<Longrightarrow> consumed_ok st"
proof (induction rule: reachable.induct)
  case (registered e r st)
  then show ?case
    by (cases rule: apply_event_cases) (auto simp: register_def res_simps consumed_ok_def)
next
  case (applied h st e r st')
  note wf = reachable_wf [OF applied.hyps(1)]
  from applied.hyps(2) obtain st1 w where st1: "transition_event c st e r = Ok st1"
    and st': "st' = st1\<lparr>sn_position := rc_position r, sn_waiting := w,
       sn_state := derived_state (st1\<lparr>sn_position := rc_position r, sn_waiting := w\<rparr>)\<rparr>"
    by (rule apply_step)
  have "consumed_ok st1"
  proof (cases "\<exists>k x. e = EResultConsumed k x")
    case True
    with st1 consume_consumed [OF wf applied.IH] show ?thesis by auto
  next
    case False
    then have "consumed_of st1 = consumed_of st" by (intro transition_consumed [OF wf st1]) blast
    moreover note keep = transition_keeps [OF wf st1]
    ultimately show ?thesis
      using applied.IH result_of_keeps [OF conjunct1 [OF keep] conjunct2 [OF keep]]
      unfolding consumed_ok_iff by (metis (no_types, lifting))
  qed
  then show ?case by (simp add: st' consumed_ok_def)
next
  case (skipped h st p)
  then show ?case by (simp add: consumed_ok_def)
qed

end
