(* ===== verification/Task_Properties.thy ===== *)
theory Task_Properties
  imports Task_Persistence
begin

text \<open>
  The properties of the task reducer, over every snapshot that a registration and any sequence of
  accepted events can reach, with their witnesses on the sample run.
\<close>

section \<open>Safety of the reducer\<close>

text \<open>
  C7: On every reachable snapshot the reducer answers every event with a new snapshot or an
  error: no \<open>unwrap()\<close> fails, no map is indexed at an absent key, \<open>unreachable!\<close> is not
  reached and neither the cycle check nor the ancestor walk runs forever.
\<close>

theorem reducer_never_panics:
  assumes "reachable c h st"
  shows "apply_event c (Some st) e r \<noteq> Panic"
  by (rule apply_event_not_Panic) (use reachable_wf [OF assms] in simp)

theorem reducer_never_panics_witness:
  "apply_event sample_codec (Some sample10) (ECancelled ''x'') (sample_record 11 []) \<noteq> Panic"
  by (rule reducer_never_panics [OF sample_reachable10])

text \<open>
  C13: The cycle check is exact: \<open>reaches\<close> answers whether the target can be reached over the
  dependency edges of the snapshot, and it always answers.
\<close>

theorem reaches_exact:
  "reaches st v target = Ok ((v, target) \<in> (dep_rel (defs (bt_get (sn_invocations st))))\<^sup>*)"
  by (rule reaches_iff)

text \<open>
  C12: The dependency graph of a reachable snapshot is acyclic, every dependency names an
  admitted invocation, and no dependency is listed twice.
\<close>

theorem dependencies_acyclic:
  assumes "reachable c h st"
  shows "acyclic (dep_rel (defs (bt_get (sn_invocations st)))) \<and>
    (\<forall>k i. bt_get (sn_invocations st) k = Some i \<longrightarrow>
       distinct (id_dependencies (is_definition i)) \<and>
       (\<forall>d \<in> set (id_dependencies (is_definition i)). bt_get (sn_invocations st) d \<noteq> None))"
proof -
  note t = wf_topology [OF reachable_wf [OF assms]]
  have "distinct (id_dependencies (is_definition i)) \<and>
      (\<forall>d \<in> set (id_dependencies (is_definition i)). bt_get (sn_invocations st) d \<noteq> None)"
    if "bt_get (sn_invocations st) k = Some i" for k i
  proof -
    have "defs (bt_get (sn_invocations st)) k = Some (is_definition i)" using that by (simp add: defs_def)
    from topology_D(2,3) [OF t this] show ?thesis unfolding dom_defs by blast
  qed
  moreover have "acyclic (dep_rel (defs (bt_get (sn_invocations st))))" using t by (simp add: topology_ok_def)
  ultimately show ?thesis by blast
qed

theorem dependencies_acyclic_witness:
  "acyclic (dep_rel (defs (bt_get (sn_invocations sample5)))) \<and>
   (''r'', ''k'') \<in> dep_rel (defs (bt_get (sn_invocations sample5)))"
proof -
  have "(''r'', ''k'') \<in> dep_rel (defs (bt_get (sn_invocations sample5)))"
    by (simp add: dep_rel_def defs_def sample5_def sample_snapshot_def sample_invocation_def root_definition_def)
  then show ?thesis using dependencies_acyclic [OF sample_reachable5] by blast
qed

text \<open>
  C27: The parents form one tree of bounded depth: a reachable snapshot has at most one root, an
  invocation has a parent exactly when it is not the root, and the number of delegations and self
  calls above it (as \<open>admit\<close> counts them) is at most the task's maximal depth.
\<close>

theorem invocation_tree_bounded:
  assumes "reachable c h st" and "bt_get (sn_invocations st) k = Some i"
  shows "(id_role (is_definition i) = Root \<longleftrightarrow> id_parent (is_definition i) = None) \<and>
    (\<exists>n. ancestor_depth (Suc (length (sn_invocations st))) (sn_invocations st) i = Some n \<and>
       n \<le> unat (tl_max_depth (td_limits (sn_definition st)))) \<and>
    (\<forall>j q. bt_get (sn_invocations st) j = Some q \<longrightarrow> id_role (is_definition i) = Root \<longrightarrow>
       id_role (is_definition q) = Root \<longrightarrow> j = k)"
proof -
  note wf = reachable_wf [OF assms(1)]
  note t = wf_topology [OF wf]
  have d: "defs (bt_get (sn_invocations st)) j = Some (is_definition q)"
    if "bt_get (sn_invocations st) j = Some q" for j q
    using that by (simp add: defs_def)
  have "j = k" if "bt_get (sn_invocations st) j = Some q" "id_role (is_definition i) = Root"
    "id_role (is_definition q) = Root" for j q
    using t d [OF that(1)] d [OF assms(2)] that(2,3) unfolding topology_ok_def by blast
  moreover from wf_depth [OF wf assms(2)] obtain n where
    "ancestor_depth (Suc (length (sn_invocations st))) (sn_invocations st) i = Some n"
    "n \<le> unat (tl_max_depth (td_limits (sn_definition st)))" by blast
  ultimately show ?thesis using topology_D(4) [OF t d [OF assms(2)]] by blast
qed

theorem invocation_tree_bounded_witness:
  "\<exists>n. ancestor_depth (Suc (length (sn_invocations sample5))) (sn_invocations sample5)
      (sample_invocation child_definition Admitted [] [] None) = Some n \<and> n \<le> 2"
proof -
  have "bt_get (sn_invocations sample5) ''k'' = Some (sample_invocation child_definition Admitted [] [] None)"
    by (simp add: sample5_def sample_snapshot_def)
  moreover have "unat (tl_max_depth (td_limits (sn_definition sample5))) = 2"
    by (simp add: sample5_def sample_snapshot_def sample_task_def sample_limits_def)
  ultimately show ?thesis using invocation_tree_bounded [OF sample_reachable5] by metis
qed

text \<open>
  The limits of the definition hold: never more invocations or attempts than declared, and
  the declared limits are at most 4096 invocations, 16384 attempts and depth 128.
\<close>

theorem limits_hold:
  assumes "reachable c h st"
  shows "length (sn_invocations st) \<le> unat (tl_max_invocations (td_limits (sn_definition st))) \<and>
    length (sn_attempts st) \<le> unat (tl_max_attempts (td_limits (sn_definition st))) \<and>
    unat (tl_max_invocations (td_limits (sn_definition st))) \<le> 4096 \<and>
    unat (tl_max_attempts (td_limits (sn_definition st))) \<le> 16384 \<and>
    unat (tl_max_depth (td_limits (sn_definition st))) \<le> 128"
  using wf_counts [OF reachable_wf [OF assms]]
    validate_definition_limits [OF wf_definition [OF reachable_wf [OF assms]]] by blast

theorem limits_hold_witness: "length (sn_attempts sample10) \<le> 4"
  using limits_hold [OF sample_reachable10]
  by (simp add: sample10_def sample_snapshot_def sample_task_def sample_limits_def)

text \<open>
  C10: The execution budget is never overdrawn: the Steps reserved by all attempts add up to at
  most the ceiling of the policy, every attempt holds exactly one reservation, made for its own
  binding, and the remaining Steps are always computable without overflow.
\<close>

theorem budget_never_overdrawn:
  assumes "reachable c h st" and "sn_execution_budget st = Some b"
  shows "slots_total b \<le> unat (bp_max_reserved_steps (bs_policy b)) \<and>
    (\<forall>x. map_option sr_binding (bt_get (bs_reservations b) x) =
       map_option as_binding (bt_get (sn_attempts st) x)) \<and>
    (\<exists>left. remaining_steps b = Ok left \<and>
       unat left + slots_total b = unat (bp_max_reserved_steps (bs_policy b)))"
proof -
  have "budget_ok b" and "\<forall>x. map_option sr_binding (bt_get (bs_reservations b) x) =
       map_option as_binding (bt_get (sn_attempts st) x)"
    using wf_budget [OF reachable_wf [OF assms(1)]] assms(2) by (simp_all add: budget_links_def)
  with remaining_steps_ok [of b] show ?thesis by (auto simp: budget_ok_def)
qed

theorem budget_never_overdrawn_witness:
  "\<exists>left. remaining_steps (sample_budget [(''p'', sample_reserved child_binding)]) = Ok left \<and>
     unat left + 10 = 20"
proof -
  have "sn_execution_budget sample8 = Some (sample_budget [(''p'', sample_reserved child_binding)])"
    by (simp add: sample8_def sample_snapshot_def)
  moreover have "slots_total (sample_budget [(''p'', sample_reserved child_binding)]) = 10"
    by (simp add: slots_total_def sample_budget_def sample_reserved_def)
  moreover have "bp_max_reserved_steps (bs_policy (sample_budget [(''p'', sample_reserved child_binding)])) = 20"
    by (simp add: sample_budget_def sample_policy_def)
  ultimately show ?thesis using budget_never_overdrawn [OF sample_reachable8] by force
qed

text \<open>
  C26: One attempt at a time: the attempts of an invocation are distinct and belong to it, all
  but the last have failed, and the state of the invocation is the state of the last one.
\<close>

theorem one_live_attempt:
  assumes "reachable c h st" and "bt_get (sn_invocations st) k = Some i"
  shows "distinct (is_attempts i) \<and>
    (\<forall>x \<in> set (is_attempts i). \<exists>a. bt_get (sn_attempts st) x = Some a \<and>
       ab_invocation_id (as_binding a) = k \<and> bound_to (as_binding a) (is_definition i)) \<and>
    (\<forall>x \<in> set (butlast (is_attempts i)). \<exists>a. bt_get (sn_attempts st) x = Some a \<and> as_state a = Failed) \<and>
    (is_attempts i \<noteq> [] \<longrightarrow> (\<exists>a. bt_get (sn_attempts st) (last (is_attempts i)) = Some a \<and>
       as_state a = is_state i)) \<and>
    (is_attempts i = [] \<longrightarrow> is_state i = Admitted \<or> is_state i = Cancelled)"
proof -
  note l = wf_links [OF reachable_wf [OF assms(1)]]
  note ok = links_inv [OF l assms(2)]
  have "\<exists>a. bt_get (sn_attempts st) x = Some a \<and> ab_invocation_id (as_binding a) = k \<and>
      bound_to (as_binding a) (is_definition i)" if "x \<in> set (is_attempts i)" for x
  proof -
    from inv_okD [OF ok that] obtain a where a: "bt_get (sn_attempts st) x = Some a"
      "ab_invocation_id (as_binding a) = k" by blast
    from links_att [OF l a(1)] a assms(2) show ?thesis by (auto simp: att_ok_def)
  qed
  with ok show ?thesis unfolding inv_ok_def by (cases "is_attempts i = []") simp_all
qed

theorem one_live_attempt_witness:
  "\<exists>a. bt_get (sn_attempts sample10) ''q'' = Some a \<and> as_state a = Completed"
proof -
  let ?i = "sample_invocation (root_definition [''k'']) Completed [''q''] [(''k'', child_result)]
      (Some (sample_ref 10))"
  have "bt_get (sn_invocations sample10) ''r'' = Some ?i"
    by (simp add: sample10_def sample_snapshot_def)
  from one_live_attempt [OF sample_reachable10 this] show ?thesis
    by (simp add: sample_invocation_def)
qed

text \<open>
  Identities are never shared: no identity of the task, an invocation, an attempt or an
  execution names another of them, and no execution serves two attempts.
\<close>

theorem identities_unique:
  assumes "reachable c h st"
  shows "td_task_id (sn_definition st) \<notin> fst ` set (sn_invocations st) \<union> fst ` set (sn_attempts st) \<and>
    fst ` set (sn_invocations st) \<inter> fst ` set (sn_attempts st) = {} \<and>
    (\<forall>x a. bt_get (sn_attempts st) x = Some a \<longrightarrow> execution_id a \<noteq> td_task_id (sn_definition st) \<and>
       execution_id a \<notin> fst ` set (sn_invocations st) \<union> fst ` set (sn_attempts st)) \<and>
    (\<forall>x y a b. bt_get (sn_attempts st) x = Some a \<longrightarrow> bt_get (sn_attempts st) y = Some b \<longrightarrow>
       execution_id a = execution_id b \<longrightarrow> x = y)"
  using wf_ids [OF reachable_wf [OF assms]]
  unfolding ids_ok_def dom_bt_get map_of_eq_None_iff by blast

theorem identities_unique_witness:
  "''t'' \<notin> fst ` set (sn_invocations sample10) \<union> fst ` set (sn_attempts sample10)"
proof -
  have "td_task_id (sn_definition sample10) = ''t''"
    by (simp add: sample10_def sample_snapshot_def sample_task_def)
  with identities_unique [OF sample_reachable10] show ?thesis by simp
qed

section \<open>Terminal states\<close>

lemma defs_modify:
  assumes "\<And>i. is_definition (f i) = is_definition i"
  shows "defs (bt_get (bt_modify k f m)) = defs (bt_get m)"
  by (rule ext) (simp add: defs_def bt_get_modify assms option.map_comp comp_def)

definition same_work :: "'v task_snapshot \<Rightarrow> 'v task_snapshot \<Rightarrow> bool" where
  "same_work st st' \<longleftrightarrow> bt_keys (sn_attempts st') = bt_keys (sn_attempts st) \<and>
     defs (bt_get (sn_invocations st')) = defs (bt_get (sn_invocations st)) \<and>
     sn_execution_budget st' = sn_execution_budget st \<and>
     sn_goal_assessments st' = sn_goal_assessments st \<and>
     sn_success_evidence st' = sn_success_evidence st"

lemma stopped_transition:
  assumes wf: "snapshot_wf c st" and tr: "transition_event c st e r = Ok st'"
    and t: "is_terminal (sn_state st)" and e: "detached_resume st e \<or> stopped_evidence e"
  shows "sn_state st' = sn_state st \<and> same_work st st'"
proof -
  from e consider obs where "e = EAttemptObserved obs" | x why where "e = ERecoveryNeeded x why"
    | b checkpoint where "e = EAttemptResumed b checkpoint"
    by (auto simp: detached_resume_def stopped_evidence_def split: task_event.splits)
  then show ?thesis
  proof cases
    case 1
    with tr have "observe st obs r = Ok st'" by simp
    then obtain a nxt usage used st1 where "bt_get (sn_attempts st) (ao_attempt_id obs) = Some a"
      and "outcome_state st a obs = Ok nxt" and "add_usage (sn_usage st) (ao_usage obs) = Ok usage"
      and "usage_total usage = Some used" and st1: "st1 = st\<lparr>sn_usage := usage,
        sn_attempts := bt_modify (ao_attempt_id obs) (observed_attempt nxt obs) (sn_attempts st),
        sn_invocations := bt_modify (ab_invocation_id (as_binding a))
          (stop_invocation nxt (reference r)) (sn_invocations st)\<rparr>"
      and st': "st' = (if overspent st usage used then st1\<lparr>sn_state := TFailed\<rparr> else st1)"
      by (rule observe_Ok [OF wf])
    have "\<not> overspent st usage used" using t by (simp add: overspent_def)
    then show ?thesis
      by (simp add: st' st1 same_work_def defs_modify stop_invocation_def)
  next
    case 2
    with tr have "need_recovery st x why = Ok st'" by simp
    then obtain a where "bt_get (sn_attempts st) x = Some a"
      and st': "st' = st\<lparr>sn_attempts := bt_modify x (\<lambda>a. a\<lparr>as_state := RecoveryRequired,
             as_waiting := Some (WRecovery why)\<rparr>) (sn_attempts st),
           sn_invocations := bt_modify (ab_invocation_id (as_binding a))
             (set_invocation_state RecoveryRequired) (sn_invocations st)\<rparr>"
      by (rule need_recovery_Ok [OF wf])
    from st' show ?thesis by (simp add: same_work_def defs_modify)
  next
    case 3
    with tr have "resume st b checkpoint = Ok st'" by simp
    then have "st' = st\<lparr>sn_attempts := bt_modify (ab_attempt_id b) (\<lambda>a. a\<lparr>as_state := Running,
             as_waiting := None\<rparr>) (sn_attempts st),
           sn_invocations := bt_modify (ab_invocation_id b)
             (set_invocation_state Running) (sn_invocations st)\<rparr>"
      by (rule resume_Ok [OF wf])
    then show ?thesis by (simp add: same_work_def defs_modify)
  qed
qed

text \<open>
  C23: Terminal states absorb: once a task is completed, failed or cancelled, no accepted event
  changes its state, starts an attempt, admits an invocation or a dependency, reserves budget,
  records an assessment or replaces the evidence of success. Only stopped observations of work
  already in flight (and, for a task cancelled at its root only, a resumption of a non-root
  invocation) are still recorded.
\<close>

theorem terminal_absorbs:
  assumes "reachable c h st" and "is_terminal (sn_state st)" and "apply_event c (Some st) e r = Ok st'"
  shows "sn_state st' = sn_state st \<and> same_work st st' \<and> (detached_resume st e \<or> stopped_evidence e)"
proof -
  from assms(3) obtain st1 w where st1: "transition_event c st e r = Ok st1"
    and st': "st' = st1\<lparr>sn_position := rc_position r, sn_waiting := w,
       sn_state := derived_state (st1\<lparr>sn_position := rc_position r, sn_waiting := w\<rparr>)\<rparr>"
    and e: "is_terminal (sn_state st) \<longrightarrow> detached_resume st e \<or> stopped_evidence e"
    by (rule apply_step)
  have "sn_state st1 = sn_state st \<and> same_work st st1"
    by (rule stopped_transition [OF reachable_wf [OF assms(1)] st1 assms(2) e [rule_format, OF assms(2)]])
  with assms(2) have "sn_state st' = sn_state st" "same_work st st'"
    by (simp_all add: st' derived_state_def same_work_def)
  with e assms(2) show ?thesis by blast
qed

theorem terminal_absorbs_witness:
  "sn_state sample_stopped = TCancelled \<and> same_work sample_cancelled sample_stopped"
  using terminal_absorbs [OF sample_reachable_cancelled _ sample_step_stopped]
  by (simp add: sample_cancelled_def sample_snapshot_def)

text \<open>
  A completed task is final: every further event is refused.
\<close>

theorem completed_is_final:
  assumes reach: "reachable c h st" and fin: "sn_state st = TCompleted"
  shows "\<not> is_ok (apply_event c (Some st) e r)"
proof
  assume "is_ok (apply_event c (Some st) e r)"
  then obtain st' where st': "apply_event c (Some st) e r = Ok st'"
    by (cases "apply_event c (Some st) e r") auto
  note wf = reachable_wf [OF reach]
  from st' obtain st1 w where st1: "transition_event c st e r = Ok st1"
    and "st' = st1\<lparr>sn_position := rc_position r, sn_waiting := w,
       sn_state := derived_state (st1\<lparr>sn_position := rc_position r, sn_waiting := w\<rparr>)\<rparr>"
    and t: "is_terminal (sn_state st) \<longrightarrow> detached_resume st e \<or> stopped_evidence e"
    by (rule apply_step)
  have live: "as_state a \<in> {Failed, Completed}" if "bt_get (sn_attempts st) x = Some a" for x a
  proof (rule ccontr)
    assume "as_state a \<notin> {Failed, Completed}"
    from live_attempt [OF wf that this] obtain i where
      "bt_get (sn_invocations st) (ab_invocation_id (as_binding a)) = Some i" "is_state i \<noteq> Completed" .
    with wf_success [OF wf] fin show False by (auto simp: success_ok_def)
  qed
  have "\<not> detached_resume st e" using fin by (simp add: detached_resume_def)
  with t fin have "stopped_evidence e" by simp
  then consider obs where "e = EAttemptObserved obs" | x why where "e = ERecoveryNeeded x why"
    by (auto simp: stopped_evidence_def split: task_event.splits)
  then show False
  proof cases
    case 1
    with st1 have "observe st obs r = Ok st1" by simp
    then obtain a where "bt_get (sn_attempts st) (ao_attempt_id obs) = Some a"
      "as_state a \<in> {Running, RecoveryRequired, Suspended}" by (rule observe_Ok [OF wf])
    with live [of "ao_attempt_id obs" a] show False by auto
  next
    case 2
    with st1 have "need_recovery st x why = Ok st1" by simp
    then obtain a where "bt_get (sn_attempts st) x = Some a"
      "as_state a \<in> {Running, Suspended, RecoveryRequired}" by (rule need_recovery_Ok [OF wf])
    with live [of x a] show False by auto
  qed
qed

theorem completed_is_final_witness:
  "\<not> is_ok (apply_event sample_codec (Some sample11) (ECancelled ''x'') (sample_record 12 []))"
  by (rule completed_is_final [OF sample_reachable11]) (simp add: sample11_def)

text \<open>
  Completed work is final: once an invocation is completed, no accepted event changes its
  state, its completion fact or its attempts, and the definition of the task never changes.
\<close>

theorem completed_work_is_final:
  assumes "reachable c h st" and "apply_event c (Some st) e r = Ok st'"
    and "bt_get (sn_invocations st) k = Some i" and "is_state i = Completed"
  shows "(\<exists>i'. bt_get (sn_invocations st') k = Some i' \<and> is_state i' = Completed \<and>
      is_completion_fact i' = is_completion_fact i \<and> is_attempts i' = is_attempts i) \<and>
    sn_definition st' = sn_definition st"
  using apply_keeps [OF reachable_wf [OF assms(1)] assms(2)] assms(3,4)
  unfolding keeps_inv_def by blast

theorem completed_work_is_final_witness:
  "\<exists>i'. bt_get (sn_invocations sample9) ''k'' = Some i' \<and> is_state i' = Completed"
proof -
  let ?i = "sample_invocation child_definition Completed [''p''] [] (Some (sample_ref 7))"
  have "bt_get (sn_invocations sample8) ''k'' = Some ?i"
    by (simp add: sample8_def sample_snapshot_def)
  moreover have "is_state ?i = Completed" by (simp add: sample_invocation_def)
  ultimately show ?thesis using completed_work_is_final [OF sample_reachable8 sample_step9] by blast
qed

section \<open>Completion\<close>

fun proves :: "'v completion_criterion \<Rightarrow> completion_evidence \<Rightarrow> bool" where
  "proves (CExecutionCompleted _ _) (ExecutionResult _ _ d) \<longleftrightarrow> digest d = Ok ()"
| "proves (CArtifactDigest _ _ expected) (VerifiedArtifact _ _ sha _) \<longleftrightarrow> sha = expected"
| "proves _ _ \<longleftrightarrow> False"

text \<open>
  What a piece of evidence must be to count for a criterion: a goal needs a saved satisfied
  assessment by the criterion's checker on the criterion's predicate, made of its invocation; any
  other criterion needs matching evidence that a completed attempt of the criterion's own
  invocation was observed with, taken from that attempt's execution.
\<close>

definition supports ::
  "'v task_snapshot \<Rightarrow> 'v completion_criterion \<Rightarrow> completion_evidence \<Rightarrow> bool" where
  "supports st crit e \<longleftrightarrow> evidence_criterion_id e = criterion_id crit \<and>
     (case crit of
        CGoal g \<Rightarrow> \<exists>rec \<in> set (sn_goal_assessments st). e = goal_proof rec \<and>
          ga_verdict (gr_assessment rec) = Satisfied \<and>
          ga_predicate_digest (gr_assessment rec) = gc_predicate_digest g \<and>
          ga_checker (gr_assessment rec) = gc_checker g \<and>
          ab_invocation_id (ga_attempt (gr_assessment rec)) = gc_invocation_id g
      | _ \<Rightarrow> \<exists>x a evidence. bt_get (sn_attempts st) x = Some a \<and> as_state a = Completed \<and>
          completed_with a = Some evidence \<and> e \<in> set evidence \<and> proves crit e \<and>
          ab_invocation_id (as_binding a) = criterion_invocation_id crit \<and>
          ev_execution (evidence_source e) = ab_execution (as_binding a))"

lemma validate_items_Ok:
  "validate_items st b ids es = Ok () \<Longrightarrow> e \<in> set es \<Longrightarrow>
   (\<forall>x1 x2 x3 x4. e \<noteq> GoalSatisfied x1 x2 x3 x4) \<and>
   (\<exists>crit \<in> set (td_criteria (sn_definition st)). criterion_id crit = evidence_criterion_id e \<and>
      criterion_invocation_id crit = ab_invocation_id b \<and> proves crit e \<and>
      ev_execution (evidence_source e) = ab_execution b)"
proof (induction es arbitrary: ids)
  case (Cons item es)
  from Cons.prems(1) obtain crit where
    ng: "\<not> (case item of GoalSatisfied _ _ _ _ \<Rightarrow> True | _ \<Rightarrow> False)"
    and src: "validate_source (evidence_source item) b = Ok ()"
    and fc: "find (\<lambda>c. criterion_id c = evidence_criterion_id item) (td_criteria (sn_definition st)) = Some crit"
    and own: "criterion_invocation_id crit = ab_invocation_id b"
    and ok: "(case (crit, item) of
           (CExecutionCompleted _ _, ExecutionResult _ _ result_digest) \<Rightarrow> digest result_digest
         | (CArtifactDigest _ _ expected, VerifiedArtifact _ _ sha _) \<Rightarrow>
             if sha = expected then digest sha else Err (Invalid EvidenceMismatch)
         | _ \<Rightarrow> Err (Invalid EvidenceMismatch)) = Ok ()"
    and rest: "validate_items st b (insert (evidence_criterion_id item) ids) es = Ok ()"
    unfolding validate_items.simps res_simps by blast
  show ?case
  proof (cases "e = item")
    case True
    from fc have "crit \<in> set (td_criteria (sn_definition st))" "criterion_id crit = evidence_criterion_id item"
      by (auto simp: find_Some_iff)
    moreover have "proves crit item"
      using ok by (cases crit; cases item) (auto split: if_splits)
    moreover have "ev_execution (evidence_source item) = ab_execution b"
      using src by (auto simp: validate_source_def res_simps)
    ultimately show ?thesis using True own ng by (cases item) auto
  next
    case False
    with Cons.prems(2) Cons.IH [OF rest] show ?thesis by simp
  qed
qed simp

lemma goal_named_Some:
  "goal_named i cs = Some g \<Longrightarrow> CGoal g \<in> set cs \<and> gc_id g = i"
  by (induction cs) (auto split: completion_criterion.splits if_splits)

lemma observed_evidence_iff:
  "e \<in> set (observed_evidence a) \<longleftrightarrow> (\<exists>evidence. completed_with a = Some evidence \<and> e \<in> set evidence)"
  by (simp add: observed_evidence_def completed_with_def split: option.split attempt_outcome.split)

lemma available_supports:
  assumes wf: "snapshot_wf c st" and e: "e \<in> set (available_evidence st)"
    and crit: "crit \<in> set (td_criteria (sn_definition st))" "criterion_id crit = evidence_criterion_id e"
  shows "supports st crit e"
proof -
  have "distinct (map criterion_id (td_criteria (sn_definition st)))"
    using validate_definition_criteria [OF wf_definition [OF wf]] by simp
  then have uniq: "crit' = crit" if "crit' \<in> set (td_criteria (sn_definition st))"
    "criterion_id crit' = evidence_criterion_id e" for crit'
    using that crit by (metis distinct_map inj_onD)
  from e consider a evidence where "a \<in> set (bt_values (sn_attempts st))" "completed_with a = Some evidence"
      "e \<in> set evidence"
    | rec where "rec \<in> set (sn_goal_assessments st)" "ga_verdict (gr_assessment rec) = Satisfied" "e = goal_proof rec"
    unfolding available_evidence_def set_append set_concat set_map set_filter
    using observed_evidence_iff by blast
  then show ?thesis
  proof cases
    case 1
    then obtain x where x: "bt_get (sn_attempts st) x = Some a"
      using bt_values_get [OF wf_maps(2) [OF wf]] by blast
    have "validate_evidence st evidence (as_binding a) = Ok ()"
      using wf_evidence [OF wf] x 1(2) unfolding evidence_ok_def by blast
    then have "validate_items st (as_binding a) {} evidence = Ok ()"
      by (simp add: validate_evidence_def split: if_splits)
    from validate_items_Ok [OF this 1(3)] uniq have p: "proves crit e"
      "criterion_invocation_id crit = ab_invocation_id (as_binding a)"
      "ev_execution (evidence_source e) = ab_execution (as_binding a)" by blast+
    have "as_state a = Completed"
      using links_att [OF wf_links [OF wf] x] 1(2) by (simp add: att_ok_def)
    with x 1 p crit(2) show ?thesis by (cases crit) (auto simp: supports_def)
  next
    case 2
    from wf_assessments [OF wf] 2(1) obtain g where
      g: "goal_named (ga_criterion_id (gr_assessment rec)) (td_criteria (sn_definition st)) = Some g"
      "ga_predicate_digest (gr_assessment rec) = gc_predicate_digest g"
      "ga_checker (gr_assessment rec) = gc_checker g"
      "ab_invocation_id (ga_attempt (gr_assessment rec)) = gc_invocation_id g"
      unfolding assessments_ok_def by blast
    have "CGoal g = crit"
      using goal_named_Some [OF g(1)] 2(3) by (intro uniq) (simp_all add: goal_proof_def)
    with 2 g crit(2) show ?thesis by (auto simp: supports_def)
  qed
qed

text \<open>
  C9: Completion is sound: a task is completed only when it has a root and every invocation is
  completed, and when for every criterion the saved evidence holds exactly one item, which
  supports it (a satisfied assessment by the criterion's own checker, or matching evidence from
  the criterion's own invocation); there is no evidence beyond the criteria.
\<close>

theorem completion_sound:
  assumes "reachable c h st" and "apply_event c (Some st) (ECompleted evidence) r = Ok st'"
  shows "sn_state st' = TCompleted \<and> sn_success_evidence st' = evidence \<and>
    (\<exists>k i. bt_get (sn_invocations st') k = Some i \<and> id_role (is_definition i) = Root) \<and>
    (\<forall>k i. bt_get (sn_invocations st') k = Some i \<longrightarrow> is_state i = Completed) \<and>
    length evidence = length (td_criteria (sn_definition st)) \<and>
    (\<forall>crit \<in> set (td_criteria (sn_definition st)). \<exists>!e. e \<in> set evidence \<and> supports st crit e)"
proof -
  note wf = reachable_wf [OF assms(1)]
  from assms(2) obtain st1 w where st1: "transition_event c st (ECompleted evidence) r = Ok st1"
    and st': "st' = st1\<lparr>sn_position := rc_position r, sn_waiting := w,
       sn_state := derived_state (st1\<lparr>sn_position := rc_position r, sn_waiting := w\<rparr>)\<rparr>"
    by (rule apply_step)
  from st1 have "complete st evidence = Ok st1" by simp
  note ok = complete_Ok [OF this]
  have "\<exists>!e. e \<in> set evidence \<and> supports st crit e" if crit: "crit \<in> set (td_criteria (sn_definition st))" for crit
  proof -
    from ok(5) crit obtain e where e: "e \<in> set evidence" "criterion_id crit = evidence_criterion_id e"
      by (metis (no_types, lifting) image_iff subset_eq imageI)
    have "supports st crit e" using ok(6) e crit by (intro available_supports [OF wf]) auto
    moreover have "e' = e" if "e' \<in> set evidence" "supports st crit e'" for e'
      using that e ok(3) by (metis distinct_map inj_onD supports_def)
    ultimately show ?thesis using e(1) by blast
  qed
  moreover have inv: "sn_invocations st' = sn_invocations st" by (simp add: st' ok(7))
  have "\<exists>k i. bt_get (sn_invocations st) k = Some i \<and> id_role (is_definition i) = Root"
    using ok(1) bt_values_get [OF wf_maps(1) [OF wf]] by blast
  moreover have "is_state i = Completed" if "bt_get (sn_invocations st) k = Some i" for k i
    using ok(2) bt_values_get [OF wf_maps(1) [OF wf], of i] that by blast
  moreover have "sn_state st' = TCompleted" "sn_success_evidence st' = evidence"
    by (simp_all add: st' ok(7) derived_state_def)
  ultimately show ?thesis using ok(4) unfolding inv by blast
qed

theorem completion_sound_witness:
  "sn_state sample11 = TCompleted \<and>
   (\<exists>!e. e \<in> set [root_evidence] \<and> supports sample10 (CExecutionCompleted ''c'' ''r'') e)"
proof -
  have "CExecutionCompleted ''c'' ''r'' \<in> set (td_criteria (sn_definition sample10))"
    by (simp add: sample10_def sample_snapshot_def sample_task_def)
  with completion_sound [OF sample_reachable10 sample_step11] show ?thesis by blast
qed

section \<open>Starting work\<close>

definition starts :: "'v task_event \<Rightarrow> attempt_binding \<Rightarrow> bool" where
  "starts e b \<longleftrightarrow> e = EAttemptStarted b \<or> (\<exists>n. e = EBudgetedAttemptStarted b n)"

text \<open>
  C11: An attempt starts only with its inputs ready: in a task that is not terminal, of an
  invocation that agrees with the binding, within the token limit, as the first attempt of an
  admitted invocation or after a failed attempt that is safe to retry; and for every dependency a
  result was consumed, which (unless it is a terminal disposition) is the exact completion fact
  and evidence of the completed dependency. A budgeted task starts only with a reservation.
\<close>

theorem start_needs_results:
  assumes reach: "reachable c h st" and app: "apply_event c (Some st) e r = Ok st'" and e: "starts e b"
  shows "\<not> is_terminal (sn_state st) \<and> \<not> token_budget_exhausted st \<and>
    (\<exists>i. bt_get (sn_invocations st) (ab_invocation_id b) = Some i \<and> bound_to b (is_definition i) \<and>
       (is_state i = Admitted \<or> is_state i = Failed \<and> (\<exists>a. last_attempt st i = Some a \<and>
          as_state a = Failed \<and> safe_to_retry a)) \<and>
       (\<forall>d \<in> set (id_dependencies (is_definition i)).
          (\<exists>res. bt_get (is_consumed i) d = Some res \<and>
             result_of (bt_get (sn_invocations st)) (bt_get (sn_attempts st)) d res) \<or>
          bt_get (is_terminal_consumed i) d \<noteq> None)) \<and>
    (sn_execution_budget st \<noteq> None \<longrightarrow> (\<exists>n b'. e = EBudgetedAttemptStarted b n \<and> 0 < n \<and>
       sn_execution_budget st' = Some b' \<and>
       bt_get (bs_reservations b') (ab_attempt_id b) = Some \<lparr>sr_binding = b, sr_max_steps = n\<rparr>))"
proof -
  note wf = reachable_wf [OF reach]
  from app obtain st1 w where st1: "transition_event c st e r = Ok st1"
    and st': "st' = st1\<lparr>sn_position := rc_position r, sn_waiting := w,
       sn_state := derived_state (st1\<lparr>sn_position := rc_position r, sn_waiting := w\<rparr>)\<rparr>"
    and t: "is_terminal (sn_state st) \<longrightarrow> detached_resume st e \<or> stopped_evidence e"
    by (rule apply_step)
  have nt: "\<not> is_terminal (sn_state st)"
    using t e by (auto simp: starts_def detached_resume_def stopped_evidence_def)
  have "\<exists>budget. start (st\<lparr>sn_execution_budget := budget\<rparr>) b = Ok st1 \<and>
     (sn_execution_budget st \<noteq> None \<longrightarrow> (\<exists>n b'. e = EBudgetedAttemptStarted b n \<and> 0 < n \<and>
       budget = Some b' \<and>
       bt_get (bs_reservations b') (ab_attempt_id b) = Some \<lparr>sr_binding = b, sr_max_steps = n\<rparr>))"
  proof (cases "e = EAttemptStarted b")
    case True
    with st1 have none: "sn_execution_budget st = None" and "start st b = Ok st1" by (auto split: if_splits)
    moreover from none have "st\<lparr>sn_execution_budget := None\<rparr> = st" by simp
    ultimately have "start (st\<lparr>sn_execution_budget := None\<rparr>) b = Ok st1" by (simp only:)
    with none show ?thesis by (intro exI [of _ None]) simp
  next
    case False
    with e obtain n where n: "e = EBudgetedAttemptStarted b n" by (auto simp: starts_def)
    with st1 obtain st0 where st0: "reserve st b n r = Ok st0" "start st0 b = Ok st1" by (auto simp: res_simps)
    from st0(1) obtain bu rem where bu: "sn_execution_budget st = Some bu"
      and "remaining_steps bu = Ok rem" and pos: "0 < n"
      and eq: "st0 = st\<lparr>sn_execution_budget := Some (bu\<lparr>bs_reservations :=
             bt_insert (ab_attempt_id b) \<lparr>sr_binding = b, sr_max_steps = n\<rparr> (bs_reservations bu)\<rparr>)\<rparr>"
      by (rule reserve_Ok)
    have "bt_wf (bs_reservations bu)" using wf_budget [OF wf] bu by (simp add: budget_links_def budget_ok_def)
    with st0(2) pos n show ?thesis unfolding eq by (intro exI conjI impI) (auto simp: bt_get_insert)
  qed
  then obtain budget where start: "start (st\<lparr>sn_execution_budget := budget\<rparr>) b = Ok st1"
    and bud: "sn_execution_budget st \<noteq> None \<longrightarrow> (\<exists>n b'. e = EBudgetedAttemptStarted b n \<and> 0 < n \<and>
       budget = Some b' \<and>
       bt_get (bs_reservations b') (ab_attempt_id b) = Some \<lparr>sr_binding = b, sr_max_steps = n\<rparr>)" by blast
  let ?stb = "st\<lparr>sn_execution_budget := budget\<rparr>"
  from start obtain i where "available_id ?stb (ab_attempt_id b) = Ok ()"
    and i: "bt_get (sn_invocations ?stb) (ab_invocation_id b) = Some i" and bound: "bound_to b (is_definition i)"
    and tok: "\<not> token_budget_exhausted ?stb"
    and s: "is_state i = Admitted \<or>
      is_state i = Failed \<and> is_attempts i \<noteq> [] \<and>
        (\<exists>a. bt_get (sn_attempts ?stb) (last (is_attempts i)) = Some a \<and> safe_to_retry a)"
    and deps: "\<forall>d \<in> set (id_dependencies (is_definition i)). has_consumed i d"
    and eq1: "st1 = ?stb\<lparr>sn_invocations := bt_modify (ab_invocation_id b)
        (\<lambda>i. i\<lparr>is_state := Running, is_terminal_fact := None,
           is_attempts := is_attempts i @ [ab_attempt_id b]\<rparr>) (sn_invocations ?stb),
      sn_attempts := bt_insert (ab_attempt_id b) (new_attempt b) (sn_attempts ?stb)\<rparr>"
    by (rule start_Ok)
  have ii: "bt_get (sn_invocations st) (ab_invocation_id b) = Some i" using i by simp
  have retry: "is_state i = Admitted \<or> is_state i = Failed \<and> (\<exists>a. last_attempt st i = Some a \<and>
          as_state a = Failed \<and> safe_to_retry a)"
    using s inv_ok_last [OF links_inv [OF wf_links [OF wf] ii]] by (auto simp: last_attempt_def)
  have "(\<exists>res. bt_get (is_consumed i) d = Some res \<and>
             result_of (bt_get (sn_invocations st)) (bt_get (sn_attempts st)) d res) \<or>
          bt_get (is_terminal_consumed i) d \<noteq> None" if "d \<in> set (id_dependencies (is_definition i))" for d
    using deps that reachable_consumed [OF reach] ii
    unfolding has_consumed_def bt_contains_def consumed_ok_def by blast
  moreover have "\<not> token_budget_exhausted st" using tok by (simp add: token_budget_exhausted_def split: option.split_asm)
  moreover have "sn_execution_budget st' = budget" by (simp add: st' eq1)
  ultimately show ?thesis using nt ii bound retry bud by blast
qed

theorem start_needs_results_witness:
  "\<exists>n b'. EBudgetedAttemptStarted root_binding 10 = EBudgetedAttemptStarted root_binding n \<and>
     sn_execution_budget sample9 = Some b' \<and>
     bt_get (bs_reservations b') ''q'' = Some \<lparr>sr_binding = root_binding, sr_max_steps = n\<rparr>"
proof -
  have "sn_execution_budget sample8 \<noteq> None" by (simp add: sample8_def sample_snapshot_def)
  moreover have "starts (EBudgetedAttemptStarted root_binding 10) root_binding" by (simp add: starts_def)
  moreover have "ab_attempt_id root_binding = ''q''" by (simp add: root_binding_def)
  ultimately show ?thesis
    using start_needs_results [OF sample_reachable8 sample_step9, of root_binding] by fastforce
qed

section \<open>Usage\<close>

fun observed_usage :: "'v task_event \<Rightarrow> nat \<times> nat \<times> nat" where
  "observed_usage (EAttemptObserved obs) =
     (unat (tu_input_tokens (ao_usage obs)), unat (tu_output_tokens (ao_usage obs)),
      unat (tu_unreported_steps (ao_usage obs)))"
| "observed_usage _ = (0, 0, 0)"

definition usage_nats :: "task_usage \<Rightarrow> nat \<times> nat \<times> nat" where
  "usage_nats u = (unat (tu_input_tokens u), unat (tu_output_tokens u), unat (tu_unreported_steps u))"

fun add3 :: "nat \<times> nat \<times> nat \<Rightarrow> nat \<times> nat \<times> nat \<Rightarrow> nat \<times> nat \<times> nat" where
  "add3 (a, b, c) (x, y, z) = (a + x, b + y, c + z)"

lemma add_usage_nats:
  "add_usage u d = Ok v \<Longrightarrow> usage_nats v = add3 (usage_nats u) (usage_nats d)"
  by (auto simp: add_usage_def usage_nats_def res_simps dest!: checked_add_Some)

lemma add3_zero [simp]: "add3 x (0, 0, 0) = x"
  by (cases x) simp

lemma transition_usage:
  assumes wf: "snapshot_wf c st" and tr: "transition_event c st e r = Ok st'"
  shows "usage_nats (sn_usage st') = add3 (usage_nats (sn_usage st)) (observed_usage e)"
proof (cases e)
  case (EExecutionBudgetConfigured p)
  with tr show ?thesis by (simp add: configure_Ok)
next
  case (EBudgetedAttemptStarted b n)
  with tr obtain st1 where "reserve st b n r = Ok st1" "start st1 b = Ok st'" by (auto simp: res_simps)
  then have "sn_usage st' = sn_usage st" by (auto elim!: reserve_Ok start_Ok)
  with EBudgetedAttemptStarted show ?thesis by simp
next
  case (EGoalAssessed a)
  with tr show ?thesis by (auto elim!: apply_assessment_Ok)
next
  case (EInvocationAdmitted d)
  with tr show ?thesis by (auto simp: admit_def res_simps)
next
  case (EDependencyAdmitted k x)
  with tr show ?thesis by (auto simp: add_dependency_def res_simps)
next
  case (EAttemptStarted b)
  with tr show ?thesis by (auto elim!: start_Ok split: if_splits)
next
  case (EAttemptObserved obs)
  with tr have "observe st obs r = Ok st'" by simp
  then obtain a nxt usage used st1 where "bt_get (sn_attempts st) (ao_attempt_id obs) = Some a"
      and "outcome_state st a obs = Ok nxt" and u: "add_usage (sn_usage st) (ao_usage obs) = Ok usage"
      and "usage_total usage = Some used" and st1: "st1 = st\<lparr>sn_usage := usage,
        sn_attempts := bt_modify (ao_attempt_id obs) (observed_attempt nxt obs) (sn_attempts st),
        sn_invocations := bt_modify (ab_invocation_id (as_binding a))
          (stop_invocation nxt (reference r)) (sn_invocations st)\<rparr>"
      and st': "st' = (if overspent st usage used then st1\<lparr>sn_state := TFailed\<rparr> else st1)"
    by (rule observe_Ok [OF wf])
  from add_usage_nats [OF u] show ?thesis by (simp add: st' st1 EAttemptObserved usage_nats_def)
next
  case (EAttemptResumed b checkpoint)
  with tr show ?thesis by (auto elim!: resume_Ok [OF wf])
next
  case (ERecoveryNeeded x why)
  with tr show ?thesis by (auto elim!: need_recovery_Ok [OF wf])
next
  case (ERetryAuthorized x source why)
  with tr show ?thesis by (auto elim!: authorize_retry_Ok)
next
  case (EResultConsumed k result)
  with tr show ?thesis by (auto elim!: consume_Ok)
next
  case (ETerminalResultConsumed k result)
  with tr show ?thesis by (auto elim!: consume_terminal_Ok)
next
  case (ECompleted evidence)
  with tr complete_Ok(7) [of st evidence st'] show ?thesis by simp
next
  case (ECancelled why)
  with tr show ?thesis by (auto elim!: cancel_Ok)
qed (use tr in \<open>auto simp: res_simps\<close>)

text \<open>
  C20: Usage is accounted exactly: the usage of a snapshot is the sum, in each of its three
  components and without wrap-around, of the usage of every observation in its history.
\<close>

theorem usage_is_exact_sum:
  assumes "reachable c h st"
  shows "usage_nats (sn_usage st) = fold (\<lambda>(e, r) acc. add3 acc (observed_usage e)) h (0, 0, 0)"
  using assms
proof (induction rule: reachable.induct)
  case (registered e r st)
  then show ?case
    by (cases rule: apply_event_cases)
       (auto simp: register_def res_simps usage_nats_def usage_default_def)
next
  case (applied h st e r st')
  note wf = reachable_wf [OF applied.hyps(1)]
  from applied.hyps(2) obtain st1 w where st1: "transition_event c st e r = Ok st1"
    and st': "st' = st1\<lparr>sn_position := rc_position r, sn_waiting := w,
       sn_state := derived_state (st1\<lparr>sn_position := rc_position r, sn_waiting := w\<rparr>)\<rparr>"
    by (rule apply_step)
  from transition_usage [OF wf st1] applied.IH show ?case by (simp add: st')
next
  case (skipped h st p)
  then show ?case by simp
qed

theorem usage_is_exact_sum_witness: "usage_nats (sn_usage sample10) = (20, 10, 0)"
  using usage_is_exact_sum [OF sample_reachable10]
  by (simp add: sample_history_def child_observation_def root_observation_def sample_usage_def)

text \<open>
  A task that passes its token limit, or that ran Steps with unreported usage under a token
  limit, is terminal as soon as the observation is recorded: it fails unless it had already ended.
\<close>

theorem overspending_fails:
  assumes reach: "reachable c h st" and app: "apply_event c (Some st) (EAttemptObserved obs) r = Ok st'"
    and limit: "tl_max_tokens (td_limits (sn_definition st)) = Some limit"
    and over: "unat (tu_input_tokens (sn_usage st')) + unat (tu_output_tokens (sn_usage st')) > unat limit \<or>
      tu_unreported_steps (sn_usage st') \<noteq> 0"
  shows "sn_state st' = (if is_terminal (sn_state st) then sn_state st else TFailed)"
proof -
  note wf = reachable_wf [OF reach]
  from app obtain st1 w where tr: "transition_event c st (EAttemptObserved obs) r = Ok st1"
    and st': "st' = st1\<lparr>sn_position := rc_position r, sn_waiting := w,
       sn_state := derived_state (st1\<lparr>sn_position := rc_position r, sn_waiting := w\<rparr>)\<rparr>"
    by (rule apply_step)
  from tr have "observe st obs r = Ok st1" by simp
  then obtain a nxt usage used st2 where "bt_get (sn_attempts st) (ao_attempt_id obs) = Some a"
      and "outcome_state st a obs = Ok nxt" and u: "add_usage (sn_usage st) (ao_usage obs) = Ok usage"
      and used: "usage_total usage = Some used" and st2: "st2 = st\<lparr>sn_usage := usage,
        sn_attempts := bt_modify (ao_attempt_id obs) (observed_attempt nxt obs) (sn_attempts st),
        sn_invocations := bt_modify (ab_invocation_id (as_binding a))
          (stop_invocation nxt (reference r)) (sn_invocations st)\<rparr>"
      and st1: "st1 = (if overspent st usage used then st2\<lparr>sn_state := TFailed\<rparr> else st2)"
    by (rule observe_Ok [OF wf])
  have usage: "sn_usage st' = usage" by (simp add: st' st1 st2)
  have "unat used = unat (tu_input_tokens usage) + unat (tu_output_tokens usage)"
    using used by (auto simp: usage_total_def dest: checked_add_Some)
  then have "used > limit \<or> tu_unreported_steps usage > 0"
    using over by (auto simp: usage word_less_nat_alt word_neq_0_conv)
  with limit have "overspent st usage used \<longleftrightarrow> \<not> is_terminal (sn_state st)"
    by (simp add: overspent_def)
  then show ?thesis by (simp add: st' st1 st2 derived_state_def)
qed

theorem overspending_fails_witness: "sn_state sample_overspent = TFailed"
proof -
  have "tl_max_tokens (td_limits (sn_definition sample6)) = Some 100" "\<not> is_terminal (sn_state sample6)"
    by (simp_all add: sample6_def sample_snapshot_def sample_task_def sample_limits_def)
  moreover have "sn_usage sample_overspent = heavy_usage"
    by (simp add: sample_overspent_def sample_snapshot_def)
  ultimately show ?thesis
    using overspending_fails [OF sample_reachable6 sample_step_overspent, of 100]
    by (simp add: heavy_usage_def)
qed

section \<open>Consumption\<close>

text \<open>
  C25: A result is consumed once and exactly: an accepted consumption is of a required result
  (a dependency or a delegated child) that was not consumed before, it names the completion fact
  and the evidence of the completed child, that fact is among the causes of the recording fact,
  and nothing but this entry is added.
\<close>

theorem consumption_exact:
  assumes reach: "reachable c h st" and app: "apply_event c (Some st) (EResultConsumed k res) r = Ok st'"
  shows "(\<exists>required i. required_results st k = Ok required \<and> cr_child res \<in> set required \<and>
      bt_get (sn_invocations st) k = Some i \<and> \<not> has_consumed i (cr_child res)) \<and>
    result_of (bt_get (sn_invocations st)) (bt_get (sn_attempts st)) (cr_child res) res \<and>
    cr_completion_fact res \<in> set (rc_causes r) \<and>
    (\<forall>j. bt_get (consumed_of st' j) =
       (if j = k then (bt_get (consumed_of st j))(cr_child res \<mapsto> res) else bt_get (consumed_of st j)))"
proof -
  note wf = reachable_wf [OF reach]
  from app obtain st1 w where st1: "transition_event c st (EResultConsumed k res) r = Ok st1"
    and st': "st' = st1\<lparr>sn_position := rc_position r, sn_waiting := w,
       sn_state := derived_state (st1\<lparr>sn_position := rc_position r, sn_waiting := w\<rparr>)\<rparr>"
    by (rule apply_step)
  from st1 have con: "consume st k res r = Ok st1" by simp
  then obtain i child a obs required where i: "bt_get (sn_invocations st) k = Some i"
    and "is_state i \<notin> {Completed, Cancelled, Failed}"
    and req: "required_results st k = Ok required" "cr_child res \<in> set required" "\<not> has_consumed i (cr_child res)"
    and ch: "bt_get (sn_invocations st) (cr_child res) = Some child" "is_attempts child \<noteq> []"
      "bt_get (sn_attempts st) (last (is_attempts child)) = Some a" "completed_with a = Some (cr_evidence res)"
      "is_completion_fact child = Some (cr_completion_fact res)"
    and cause: "cr_completion_fact res \<in> set (rc_causes r)"
    and eq: "st1 = st\<lparr>sn_invocations := bt_modify k
        (\<lambda>i. i\<lparr>is_consumed := bt_insert (cr_child res) res (is_consumed i)\<rparr>) (sn_invocations st)\<rparr>"
    by (rule consume_Ok)
  have "is_state child = Completed"
    using links_inv [OF wf_links [OF wf] ch(1)] ch(5) by (simp add: inv_ok_def)
  moreover have "as_state a = Completed"
    using links_att [OF wf_links [OF wf] ch(3)] ch(4) by (simp add: att_ok_def)
  ultimately have new: "result_of (bt_get (sn_invocations st)) (bt_get (sn_attempts st)) (cr_child res) res"
    using ch by (simp add: result_of_def)
  have "bt_wf (is_consumed i)" using reachable_consumed [OF reach] i by (auto simp: consumed_ok_def)
  then have "bt_get (consumed_of st' j) =
       (if j = k then (bt_get (consumed_of st j))(cr_child res \<mapsto> res) else bt_get (consumed_of st j))" for j
    using i by (auto simp: consumed_of_def st' eq bt_get_modify bt_get_insert split: option.split)
  with i req new cause show ?thesis by blast
qed

theorem consumption_exact_witness:
  "bt_get (consumed_of sample8 ''r'') ''k'' = Some child_result"
proof -
  have "cr_child child_result = ''k''" by (simp add: child_result_def)
  with consumption_exact [OF sample_reachable7 sample_step8] show ?thesis by simp
qed

section \<open>Suspended attempts\<close>

text \<open>The events that address one attempt.\<close>

fun addresses :: "'v task_event \<Rightarrow> string \<Rightarrow> bool" where
  "addresses (EAttemptObserved obs) x \<longleftrightarrow> ao_attempt_id obs = x"
| "addresses (EAttemptResumed b _) x \<longleftrightarrow> ab_attempt_id b = x"
| "addresses (ERecoveryNeeded y _) x \<longleftrightarrow> y = x"
| "addresses (ERetryAuthorized y _ _) x \<longleftrightarrow> y = x"
| "addresses _ x \<longleftrightarrow> False"

lemma available_id_budget [simp]:
  "available_id (st\<lparr>sn_execution_budget := b\<rparr>) i = available_id st i"
  by (simp add: available_id_def)

lemma attempt_frame:
  assumes wf: "snapshot_wf c st" and tr: "transition_event c st e r = Ok st'"
    and x: "bt_get (sn_attempts st) x = Some a" and e: "\<not> addresses e x"
  shows "bt_get (sn_attempts st') x = Some a \<or> bt_get (sn_attempts st') x = Some (request_cancel a)"
proof -
  have new: "bt_get (sn_attempts st') x = Some a"
    if "available_id st (ab_attempt_id b) = Ok ()"
      "sn_attempts st' = bt_insert (ab_attempt_id b) (new_attempt b) (sn_attempts st)" for b
    using available_id_wf(3) [OF that(1)] x by (auto simp: that(2) bt_get_insert [OF wf_maps(2) [OF wf]])
  show ?thesis
  proof (cases e)
    case (EExecutionBudgetConfigured p)
    with tr x show ?thesis by (simp add: configure_Ok)
  next
    case (EBudgetedAttemptStarted b n)
    with tr obtain st1 where "reserve st b n r = Ok st1" and s: "start st1 b = Ok st'"
      by (auto simp: res_simps)
    then obtain budget where "st1 = st\<lparr>sn_execution_budget := budget\<rparr>" by (blast elim: reserve_Ok)
    with s have "available_id st (ab_attempt_id b) = Ok ()"
      "sn_attempts st' = bt_insert (ab_attempt_id b) (new_attempt b) (sn_attempts st)"
      by (auto elim!: start_Ok)
    with new show ?thesis by blast
  next
    case (EGoalAssessed g)
    with tr x show ?thesis by (auto elim!: apply_assessment_Ok)
  next
    case (EInvocationAdmitted d)
    with tr x show ?thesis by (auto simp: admit_def res_simps)
  next
    case (EDependencyAdmitted k y)
    with tr x show ?thesis by (auto simp: add_dependency_def res_simps)
  next
    case (EAttemptStarted b)
    with tr have "start st b = Ok st'" by (auto split: if_splits)
    then have "available_id st (ab_attempt_id b) = Ok ()"
      "sn_attempts st' = bt_insert (ab_attempt_id b) (new_attempt b) (sn_attempts st)"
      by (auto elim!: start_Ok)
    with new show ?thesis by blast
  next
    case (EAttemptObserved obs)
    with tr have "observe st obs r = Ok st'" by simp
    then obtain b nxt where "bt_get (sn_attempts st) (ao_attempt_id obs) = Some b"
      and "as_state b \<in> {Running, RecoveryRequired, Suspended}" and "outcome_state st b obs = Ok nxt"
      and A: "sn_attempts st' = bt_modify (ao_attempt_id obs) (observed_attempt nxt obs) (sn_attempts st)"
      and "sn_invocations st' = bt_modify (ab_invocation_id (as_binding b))
        (stop_invocation nxt (reference r)) (sn_invocations st)"
      by (rule observe_maps [OF wf])
    with e EAttemptObserved x show ?thesis by (auto simp: bt_get_modify)
  next
    case (EAttemptResumed b checkpoint)
    with tr e x show ?thesis by (auto elim!: resume_Ok [OF wf] simp: bt_get_modify)
  next
    case (ERecoveryNeeded y why)
    with tr e x show ?thesis by (auto elim!: need_recovery_Ok [OF wf] simp: bt_get_modify)
  next
    case (ERetryAuthorized y source why)
    with tr e x show ?thesis by (auto elim!: authorize_retry_Ok simp: bt_get_modify)
  next
    case (EResultConsumed k result)
    with tr x show ?thesis by (auto elim!: consume_Ok)
  next
    case (ETerminalResultConsumed k result)
    with tr x show ?thesis by (auto elim!: consume_terminal_Ok)
  next
    case (ECompleted evidence)
    with tr x complete_Ok(7) [of st evidence st'] show ?thesis by simp
  next
    case (ECancelled why)
    with tr have "cancel st why = Ok st'" by simp
    then show ?thesis by (rule cancel_Ok) (use flagged_Some(1) x in force)
  qed (use tr x in \<open>auto simp: res_simps\<close>)
qed

text \<open>
  C24: A suspended attempt waits for its own checkpoint: whatever event is accepted, the attempt
  is afterwards not completed; if it runs, the event resumed exactly its checkpoint and no
  cancellation had been requested; and if it is still suspended, it waits on the same checkpoint
  with no pending approval or external wait that was not pending before.
\<close>

theorem suspended_until_resumed:
  assumes reach: "reachable c h st" and app: "apply_event c (Some st) e r = Ok st'"
    and x: "bt_get (sn_attempts st) x = Some a" "suspended_on a = Some w"
  shows "\<exists>a'. bt_get (sn_attempts st') x = Some a' \<and> as_binding a' = as_binding a \<and>
    as_state a' \<noteq> Completed \<and>
    (as_state a' = Running \<longrightarrow> e = EAttemptResumed (as_binding a) (ts_checkpoint_id w) \<and>
       \<not> as_cancellation_requested a) \<and>
    (as_state a' = Suspended \<longrightarrow> (\<exists>w'. suspended_on a' = Some w' \<and>
       ts_checkpoint_id w' = ts_checkpoint_id w \<and>
       set (ts_approval_ids w') \<subseteq> set (ts_approval_ids w) \<and>
       set (ts_external_wait_ids w') \<subseteq> set (ts_external_wait_ids w)))"
proof -
  note wf = reachable_wf [OF reach]
  have s: "as_state a = Suspended" and bid: "ab_attempt_id (as_binding a) = x"
    using links_att [OF wf_links [OF wf] x(1)] x(2) by (simp_all add: att_ok_def)
  from app obtain st1 u where st1: "transition_event c st e r = Ok st1"
    and st': "st' = st1\<lparr>sn_position := rc_position r, sn_waiting := u,
       sn_state := derived_state (st1\<lparr>sn_position := rc_position r, sn_waiting := u\<rparr>)\<rparr>"
    by (rule apply_step)
  have A: "sn_attempts st' = sn_attempts st1" by (simp add: st')
  show ?thesis
  proof (cases "addresses e x")
    case False
    from attempt_frame [OF wf st1 x(1) False] s x(2) show ?thesis unfolding A by auto
  next
    case True
    then consider obs where "e = EAttemptObserved obs" "ao_attempt_id obs = x"
      | b cp where "e = EAttemptResumed b cp" "ab_attempt_id b = x"
      | why where "e = ERecoveryNeeded x why" | source why where "e = ERetryAuthorized x source why"
      by (cases e) auto
    then show ?thesis
    proof cases
      case 1
      with st1 have "observe st obs r = Ok st1" by simp
      then obtain b nxt usage used st2 where b: "bt_get (sn_attempts st) (ao_attempt_id obs) = Some b"
        and nc: "\<not> (as_state b = Suspended \<and> (case ao_outcome obs of OCompleted _ \<Rightarrow> True | _ \<Rightarrow> False))"
        and merge: "check_merge b (ao_outcome obs) = Ok ()"
        and out: "outcome_state st b obs = Ok nxt"
        and "add_usage (sn_usage st) (ao_usage obs) = Ok usage" and "usage_total usage = Some used"
        and st2: "st2 = st\<lparr>sn_usage := usage,
        sn_attempts := bt_modify (ao_attempt_id obs) (observed_attempt nxt obs) (sn_attempts st),
        sn_invocations := bt_modify (ab_invocation_id (as_binding b))
          (stop_invocation nxt (reference r)) (sn_invocations st)\<rparr>"
        and st1': "st1 = (if overspent st usage used then st2\<lparr>sn_state := TFailed\<rparr> else st2)"
        by (rule observe_Ok [OF wf])
      have [simp]: "b = a" using b x(1) 1(2) by simp
      have get: "bt_get (sn_attempts st') x = Some (observed_attempt nxt obs a)"
        using x(1) 1(2) by (simp add: A st1' st2 bt_get_modify)
      note o = outcome_state_Ok(1-4) [OF out]
      have "nxt \<noteq> Completed" using nc s o(3) by auto
      moreover have "nxt \<noteq> Running" by (rule o(2))
      moreover have "\<exists>w'. suspended_on (observed_attempt nxt obs a) = Some w' \<and>
         ts_checkpoint_id w' = ts_checkpoint_id w \<and>
         set (ts_approval_ids w') \<subseteq> set (ts_approval_ids w) \<and>
         set (ts_external_wait_ids w') \<subseteq> set (ts_external_wait_ids w)" if n: "nxt = Suspended"
      proof -
        from n o(4) obtain w' where w': "ao_outcome obs = OSuspended w'" by blast
        from x(2) have "as_waiting a = Some (WSuspension w)"
          by (auto simp: suspended_on_def split: option.splits waiting_reason.splits)
        with merge w' s have "ts_checkpoint_id w' = ts_checkpoint_id w"
          "\<forall>i \<in> set (ts_approval_ids w'). i \<in> set (ts_approval_ids w)"
          "\<forall>i \<in> set (ts_external_wait_ids w'). i \<in> set (ts_external_wait_ids w)"
          by (auto simp: check_merge_def split: if_splits)
        with w' show ?thesis by (auto simp: observed_suspended)
      qed
      ultimately show ?thesis using get by (auto simp: observed_attempt_def)
    next
      case 2
      with st1 have "resume st b cp = Ok st1" by simp
      then obtain a0 w0 where "identity cp = Ok ()" and "\<not> token_budget_exhausted st"
        and a0: "bt_get (sn_attempts st) (ab_attempt_id b) = Some a0" "as_binding a0 = b" "as_state a0 = Suspended"
        "suspended_on a0 = Some w0" "ts_checkpoint_id w0 = cp" "\<not> as_cancellation_requested a0"
        and eq: "st1 = st\<lparr>sn_attempts := bt_modify (ab_attempt_id b) (\<lambda>a. a\<lparr>as_state := Running,
             as_waiting := None\<rparr>) (sn_attempts st),
           sn_invocations := bt_modify (ab_invocation_id b)
             (set_invocation_state Running) (sn_invocations st)\<rparr>"
        by (rule resume_Ok [OF wf])
      have [simp]: "a0 = a" using a0(1) x(1) 2(2) by simp
      have "bt_get (sn_attempts st') x = Some (a\<lparr>as_state := Running, as_waiting := None\<rparr>)"
        using x(1) 2(2) by (simp add: A eq bt_get_modify)
      with 2 a0 x(2) show ?thesis by simp
    next
      case 3
      with st1 have "need_recovery st x why = Ok st1" by simp
      then have "bt_get (sn_attempts st1) x = Some (a\<lparr>as_state := RecoveryRequired, as_waiting := Some (WRecovery why)\<rparr>)"
        by (rule need_recovery_Ok [OF wf]) (use x(1) in \<open>simp add: bt_get_modify\<close>)
      then show ?thesis by (simp add: A)
    next
      case 4
      with st1 have "authorize_retry st x source why = Ok st1" by simp
      then show ?thesis by (rule authorize_retry_Ok) (use x(1) s in auto)
    qed
  qed
qed

theorem suspended_until_resumed_witness:
  "\<exists>a'. bt_get (sn_attempts sample_resumed) ''p'' = Some a' \<and> as_binding a' = child_binding \<and>
     as_state a' \<noteq> Completed"
proof -
  let ?a = "(sample_attempt child_binding Suspended (Some wait_observation))
        \<lparr>as_waiting := Some (WSuspension (sample_wait [''i'']))\<rparr>"
  have "bt_get (sn_attempts sample_suspended) ''p'' = Some ?a"
    by (simp add: sample_suspended_def sample_snapshot_def)
  moreover have "suspended_on ?a = Some (sample_wait [''i''])" by (simp add: suspended_on_def)
  moreover have "as_binding ?a = child_binding" by (simp add: sample_attempt_def)
  ultimately show ?thesis
    using suspended_until_resumed [OF sample_reachable_suspended sample_step_resumed] by metis
qed

section \<open>Derived state\<close>

definition refreshed :: "'v task_snapshot \<Rightarrow> bool" where
  "refreshed st \<longleftrightarrow> (\<exists>children. child_waiting st (sn_invocations st) = Ok children \<and>
     sn_waiting st = attempt_waiting st @ children @
       concat (map (goal_waiting st) (td_criteria (sn_definition st)))) \<and>
     sn_state st = derived_state st"

lemma required_results_cong:
  "sn_invocations st' = sn_invocations st \<Longrightarrow> required_results st' = required_results st"
  by (simp add: required_results_def fun_eq_iff)

lemma child_waiting_cong:
  assumes "sn_invocations st' = sn_invocations st"
  shows "child_waiting st' m = child_waiting st m"
  by (induction m) (auto simp: required_results_cong [OF assms])

lemma refreshed_refresh:
  assumes "refresh st = Ok st'"
  shows "refreshed st'"
proof -
  from assms obtain children w where ch: "child_waiting st (sn_invocations st) = Ok children"
    and st': "st' = st\<lparr>sn_waiting := w, sn_state := derived_state (st\<lparr>sn_waiting := w\<rparr>)\<rparr>"
    and w: "w = attempt_waiting st @ children @ concat (map (goal_waiting st) (td_criteria (sn_definition st)))"
    by (rule refresh_Ok)
  have inv: "sn_invocations st' = sn_invocations st" by (simp add: st')
  have "child_waiting st' (sn_invocations st') = Ok children"
    using ch child_waiting_cong [OF inv] by (simp add: inv)
  moreover have "attempt_waiting st' = attempt_waiting st" by (simp add: attempt_waiting_def st')
  moreover have "goal_waiting st' = goal_waiting st"
    by (rule ext) (simp add: goal_waiting_def st' split: completion_criterion.split option.split)
  moreover have "sn_state st' = derived_state st'"
    by (simp add: st' derived_state_def any_invocation_def)
  ultimately show ?thesis unfolding refreshed_def using w by (simp add: st')
qed

lemma refreshed_position:
  assumes "refreshed st"
  shows "refreshed (st\<lparr>sn_position := p\<rparr>)"
proof -
  let ?st = "st\<lparr>sn_position := p\<rparr>"
  have "child_waiting ?st = child_waiting st" by (intro ext child_waiting_cong) simp
  moreover have "attempt_waiting ?st = attempt_waiting st" by (simp add: attempt_waiting_def)
  moreover have "goal_waiting ?st = goal_waiting st"
    by (rule ext) (simp add: goal_waiting_def split: completion_criterion.split option.split)
  moreover have "derived_state ?st = derived_state st"
    by (simp add: derived_state_def any_invocation_def)
  ultimately show ?thesis using assms by (simp add: refreshed_def)
qed

lemma reachable_refreshed: "reachable c h st \<Longrightarrow> refreshed st"
proof (induction rule: reachable.induct)
  case (registered e r st)
  from registered show ?case
  proof (cases rule: apply_event_cases)
    case (register d)
    then have st: "sn_invocations st = []" "sn_attempts st = []" "sn_waiting st = []" "sn_state st = TReady"
      by (auto simp: register_def res_simps)
    then have "goal_waiting st = (\<lambda>_. [])"
      by (intro ext) (simp add: goal_waiting_def split: completion_criterion.split)
    with st show ?thesis
      by (simp add: refreshed_def attempt_waiting_def derived_state_def any_invocation_def)
  qed simp
next
  case (applied h st e r st')
  from applied(2) obtain s1 s2 where "refresh s2 = Ok st'"
    by (cases rule: apply_event_cases) auto
  then show ?case by (rule refreshed_refresh)
next
  case (skipped h st p)
  then show ?case by (intro refreshed_position)
qed

lemma child_waiting_Nil:
  assumes "child_waiting st m = Ok []" and "(k, i) \<in> set m"
  shows "\<exists>required. required_results st k = Ok required \<and> (\<forall>x \<in> set required. has_consumed i x)"
  using assms
proof (induction m)
  case (Cons p m)
  obtain k' i' where p: "p = (k', i')" by (cases p)
  from Cons.prems(1) obtain required more where r: "required_results st k' = Ok required"
    "child_waiting st m = Ok more" "filter (\<lambda>x. \<not> has_consumed i' x) required = []" "more = []"
    by (auto simp: p res_simps Let_def split: if_splits)
  show ?case
  proof (cases "(k, i) = p")
    case True
    with r p show ?thesis by (auto simp: filter_empty_conv)
  next
    case False
    with Cons.prems(2) r have "child_waiting st m = Ok []" "(k, i) \<in> set m" by auto
    then show ?thesis by (rule Cons.IH)
  qed
qed simp

text \<open>
  \<open>Ready\<close> means unblocked: in a reachable snapshot whose task is ready, no invocation runs,
  is suspended or needs recovery, every invocation has consumed all results it requires, and every
  goal whose invocation is completed has a latest assessment that is satisfied.
\<close>

theorem ready_means_unblocked:
  assumes reach: "reachable c h st" and ready: "sn_state st = TReady"
    and i: "bt_get (sn_invocations st) k = Some i"
  shows "is_state i \<in> {Admitted, Completed, Failed, Cancelled} \<and>
    (\<exists>required. required_results st k = Ok required \<and> (\<forall>x \<in> set required. has_consumed i x)) \<and>
    (\<forall>g. CGoal g \<in> set (td_criteria (sn_definition st)) \<longrightarrow> gc_invocation_id g = k \<longrightarrow> is_state i = Completed \<longrightarrow>
       (\<exists>rec \<in> set (sn_goal_assessments st). ga_criterion_id (gr_assessment rec) = gc_id g \<and>
          ga_verdict (gr_assessment rec) = Satisfied))"
proof -
  note wf = reachable_wf [OF reach]
  from reachable_refreshed [OF reach] obtain children where ch: "child_waiting st (sn_invocations st) = Ok children"
    and w: "sn_waiting st = attempt_waiting st @ children @
       concat (map (goal_waiting st) (td_criteria (sn_definition st)))"
    and d: "sn_state st = derived_state st" unfolding refreshed_def by blast
  from d ready have none: "\<not> any_invocation RecoveryRequired st" "\<not> any_invocation Running st" "sn_waiting st = []"
    by (auto simp: derived_state_def split: if_splits)
  have mem: "i \<in> set (bt_values (sn_invocations st))"
    using bt_values_get [OF wf_maps(1) [OF wf]] i by blast
  have "is_state i \<noteq> RecoveryRequired" "is_state i \<noteq> Running"
    using none(1,2) mem unfolding any_invocation_def by blast+
  moreover have "is_state i \<noteq> Suspended"
  proof
    assume sus: "is_state i = Suspended"
    have "is_attempts i \<noteq> []"
      using links_inv [OF wf_links [OF wf] i] sus by (auto simp: inv_ok_def)
    from last_attempt_exists [OF wf i this] obtain a where a:
      "bt_get (sn_attempts st) (last (is_attempts i)) = Some a" "as_state a = is_state i" .
    with sus links_att [OF wf_links [OF wf] a(1)] have "suspended_on a \<noteq> None" by (simp add: att_ok_def)
    then have "as_waiting a \<noteq> None" by (auto simp: suspended_on_def split: option.splits)
    moreover have "a \<in> set (bt_values (sn_attempts st))"
      using bt_values_get [OF wf_maps(2) [OF wf]] a(1) by blast
    moreover have "attempt_waiting st = []" using w none(3) by simp
    ultimately show False by (force simp: attempt_waiting_def)
  qed
  ultimately have state: "is_state i \<in> {Admitted, Completed, Failed, Cancelled}"
    by (cases "is_state i") simp_all
  have "child_waiting st (sn_invocations st) = Ok []" using ch w none(3) by simp
  from child_waiting_Nil [OF this bt_get_in [OF i]]
  have req: "\<exists>required. required_results st k = Ok required \<and> (\<forall>x \<in> set required. has_consumed i x)" .
  have "\<exists>rec \<in> set (sn_goal_assessments st). ga_criterion_id (gr_assessment rec) = gc_id g \<and>
          ga_verdict (gr_assessment rec) = Satisfied"
    if g: "CGoal g \<in> set (td_criteria (sn_definition st))" "gc_invocation_id g = k" "is_state i = Completed" for g
  proof -
    have "goal_waiting st (CGoal g) = []" using w none(3) g(1) by simp
    then obtain rec where "find (\<lambda>r. ga_criterion_id (gr_assessment r) = gc_id g)
                        (rev (sn_goal_assessments st)) = Some rec" "ga_verdict (gr_assessment rec) = Satisfied"
      using i g(2,3) by (auto simp: goal_waiting_def split: option.splits if_splits)
    then show ?thesis by (auto simp: find_Some_iff) (metis length_rev nth_mem set_rev)
  qed
  with state req show ?thesis by blast
qed

theorem ready_means_unblocked_witness:
  "\<exists>required. required_results sample8 ''r'' = Ok required \<and>
     (\<forall>x \<in> set required. has_consumed
        (sample_invocation (root_definition [''k'']) Admitted [] [(''k'', child_result)] None) x)"
proof -
  have "bt_get (sn_invocations sample8) ''r'' =
      Some (sample_invocation (root_definition [''k'']) Admitted [] [(''k'', child_result)] None)"
    by (simp add: sample8_def sample_snapshot_def)
  moreover have "sn_state sample8 = TReady" by (simp add: sample8_def sample_snapshot_def)
  ultimately show ?thesis using ready_means_unblocked [OF sample_reachable8] by blast
qed

end
