(* ===== verification/Task_Input.thy ===== *)
theory Task_Input
  imports Task_Reducer "HOL-Library.FSet"
begin

text \<open>
  Immutable input evidence of invocations: \<open>crates/kolyan-server/src/tasks/input.rs\<close>.
  An input source is the single fact of a stream whose name is a hash of the task and the
  invocation; its causes are verified by a bounded depth-first walk over the journal. The journal
  is any \<open>FactJournal\<close> (\<open>journal_ops\<close> and its state); the body of an envelope, a
  \<open>serde_json::Value\<close>, is the type parameter \<open>'b\<close>; the serializer and the hash are the
  argument \<open>sd\<close> of type \<open>serde\<close>.
\<close>

section \<open>Data\<close>

definition MAX_BYTES :: nat where "MAX_BYTES = 16 * 1024 * 1024"
definition MAX_CAUSAL_RECORDS :: nat where "MAX_CAUSAL_RECORDS = 1024"
definition INPUT_KIND :: string where "INPUT_KIND = ''task.invocation_input_source''"
definition INPUT_SUBJECT_KIND :: string where
  "INPUT_SUBJECT_KIND = ''task.invocation-input-source''"

record invocation_input_scope =
  sc_task_id :: string
  sc_invocation_id :: string
  sc_agent :: agent_identity
  sc_constraints_digest :: string

record 'b invocation_input_envelope =
  ie_kind :: invocation_input_kind
  ie_scope :: invocation_input_scope
  ie_body :: 'b

record 'b verified_input_source =
  vi_reference :: fact_ref
  vi_envelope :: "'b invocation_input_envelope"
  vi_causes :: "fact_ref list"

text \<open>
  \<open>serde_json\<close> and \<open>sha2\<close>: values to and from JSON payloads, lengths of serialized values
  and the hexadecimal SHA-256 of a serialized array of strings; \<open>None\<close> is a failure.
\<close>

record ('v, 'b, 'p) serde =
  sd_event_to :: "'v task_event \<Rightarrow> 'p option"
  sd_event_from :: "'p \<Rightarrow> 'v task_event option"
  sd_input_to :: "'b invocation_input_envelope \<Rightarrow> 'p option"
  sd_input_from :: "'p \<Rightarrow> 'b invocation_input_envelope option"
  sd_record_len :: "'p fact_record \<Rightarrow> nat option"
  sd_verified_len :: "'b verified_input_source \<Rightarrow> nat option"
  sd_strings_sha :: "string list \<Rightarrow> string option"

abbreviation serde_err :: "'a option \<Rightarrow> (task_error, 'a) res" where
  "serde_err m \<equiv> ok_or m (InvalidJournal SerdeError)"

section \<open>Helpers\<close>

fun event_source :: "'v task_event \<Rightarrow> invocation_input_source option" where
  "event_source (EInvocationAdmitted d) = Some (id_input_source d)"
| "event_source (EAttemptStarted b) = Some (ab_input_source b)"
| "event_source (EBudgetedAttemptStarted b _) = Some (ab_input_source b)"
| "event_source _ = None"

definition coordinate :: "('v, 'b, 'p) serde \<Rightarrow> invocation_input_scope \<Rightarrow> (task_error, string) res" where
  "coordinate sd scope =
     bindr (serde_err (sd_strings_sha sd [''kolyan.server.invocation-input-source.v1'',
                                         sc_task_id scope, sc_invocation_id scope])) (\<lambda>h.
       Ok (''task.invocation-input-source.'' @ h))"

definition validate_scope :: "invocation_input_scope \<Rightarrow> (task_error, unit) res" where
  "validate_scope scope =
     andthen (identity (sc_task_id scope))
    (andthen (identity (sc_invocation_id scope))
    (andthen (identity (ai_definition_id (sc_agent scope)))
    (andthen (identity (ai_revision (sc_agent scope)))
    (andthen (identity (ai_instance_id (sc_agent scope)))
    (if length (sc_constraints_digest scope) \<noteq> 64
        \<or> \<not> (\<forall>b \<in> set (sc_constraints_digest scope). lower_hex_digit b)
     then Err (InvalidInput InputDigest) else Ok ())))))"

definition bound :: "nat option \<Rightarrow> nat \<Rightarrow> (task_error, unit) res" where
  "bound len max_bytes =
     bindr (serde_err len) (\<lambda>n. if n > max_bytes then Err (InvalidInput InputTooLarge) else Ok ())"

section \<open>The causal walk\<close>

type_synonym causal_key = "string \<times> u64 \<times> string"

datatype walk = Enter fact_ref | Exit causal_key

definition key_of :: "fact_ref \<Rightarrow> causal_key" where
  "key_of r = (fr_stream_id r, fr_position r, fr_fact_id r)"

text \<open>What the walk asks of a reference that it has not seen: the record it names.\<close>

definition cause_record ::
  "(string \<Rightarrow> u64 \<Rightarrow> nat \<Rightarrow> (fact_error, 'p fact_record list) res) \<Rightarrow> fact_ref
   \<Rightarrow> (task_error, 'p fact_record) res" where
  "cause_record rd r =
     bindr (map_err Journal (rd (fr_stream_id r) (fr_position r - 1) 1)) (\<lambda>rows.
       (case rows of
          [record] \<Rightarrow>
            if rc_stream_id record \<noteq> fr_stream_id r
               \<or> rc_position record \<noteq> fr_position r
               \<or> rc_fact_id record \<noteq> fr_fact_id r
               \<or> \<not> fd_critical (rc_draft record)
               \<or> length (rc_causes record) > 32
            then Err (InvalidInput CauseForeign)
            else Ok record
        | _ \<Rightarrow> Err (InvalidInput CauseMissing)))"

definition count_bytes :: "nat option \<Rightarrow> nat \<Rightarrow> (task_error, nat) res" where
  "count_bytes len bytes =
     bindr (serde_err len) (\<lambda>size.
       if bytes + size \<ge> 2 ^ 64 then Err (InvalidInput CausalOverflow)
       else if bytes + size > MAX_BYTES then Err (InvalidInput CausalBytes)
       else Ok (bytes + size))"

definition check_references :: "'p fact_record \<Rightarrow> (task_error, unit) res" where
  "check_references record =
     (if \<not> distinct (rc_causes record)
         \<or> (\<exists>c \<in> set (rc_causes record).
              fr_stream_id c = rc_stream_id record \<and> fr_position c \<ge> rc_position record)
      then Err (InvalidInput DuplicateReference) else Ok ())"

declare bindr_cong [fundef_cong] andthen_cong [fundef_cong]

lemma walk_room:
  assumes "k |\<notin>| black" and "k |\<notin>| gray" and "fcard black + fcard gray < n"
  shows "n - fcard (black |\<union>| finsert k gray) < n - fcard (black |\<union>| gray)"
proof -
  have "fcard (black |\<union>| gray) \<le> fcard black + fcard gray" by (metis fcard_funion_fsubset fcard_funion_finter le_add1)
  moreover have "fcard (black |\<union>| finsert k gray) = Suc (fcard (black |\<union>| gray))"
    using assms(1,2) fcard_finsert_disjoint [of k "black |\<union>| gray"] by simp
  ultimately show ?thesis using assms(3) by simp
qed

lemma walk_exit: "fcard (black |\<union>| gray) \<le> fcard (finsert k black |\<union>| (gray |-| {|k|}))"
  by (intro fcard_mono) auto

text \<open>
  The loop over the explicit stack. The black and gray sets grow together until they hold 1,024
  records; every other step shortens the stack, so the walk ends.
\<close>

function causal_walk ::
  "(string \<Rightarrow> u64 \<Rightarrow> nat \<Rightarrow> (fact_error, 'p fact_record list) res) \<Rightarrow> ('p fact_record \<Rightarrow> nat option)
   \<Rightarrow> string \<Rightarrow> causal_key fset \<Rightarrow> causal_key fset \<Rightarrow> nat \<Rightarrow> walk list \<Rightarrow> (task_error, unit) res" where
  "causal_walk rd len stream black gray bytes [] = Ok ()"
| "causal_walk rd len stream black gray bytes (Exit k # stack) =
     causal_walk rd len stream (finsert k black) (gray |-| {|k|}) bytes stack"
| "causal_walk rd len stream black gray bytes (Enter r # stack) =
     (if fr_position r = 0 \<or> fr_stream_id r = stream then Err (InvalidInput NonhistoricalCause)
      else
      andthen (identity (fr_stream_id r))
     (andthen (identity (fr_fact_id r))
     (if key_of r |\<in>| gray then Err (InvalidInput CyclicCause)
      else if key_of r |\<in>| black then causal_walk rd len stream black gray bytes stack
      else if fcard black + fcard gray \<ge> MAX_CAUSAL_RECORDS then Err (InvalidInput CausalCount)
      else
      bindr (cause_record rd r) (\<lambda>record.
      bindr (count_bytes (len record) bytes) (\<lambda>bytes'.
      andthen (check_references record)
        (causal_walk rd len stream black (finsert (key_of r) gray) bytes'
           (map Enter (rc_causes record) @ Exit (key_of r) # stack)))))))"
  by pat_completeness auto

termination
proof (relation "measures [\<lambda>(rd, len, stream, black, gray, bytes, stack).
      MAX_CAUSAL_RECORDS - fcard (black |\<union>| gray), \<lambda>(rd, len, stream, black, gray, bytes, stack). length stack]",
    goal_cases)
  case (2 rd len stream black gray bytes k stack)
  show ?case using walk_exit [of black gray k] by auto
next
  case (4 rd len stream black gray bytes r stack)
  then show ?case using walk_room [of "key_of r" black gray MAX_CAUSAL_RECORDS] by auto
qed auto

definition validate_causes ::
  "('v, 'b, 'p) serde \<Rightarrow> (string \<Rightarrow> u64 \<Rightarrow> nat \<Rightarrow> (fact_error, 'p fact_record list) res)
   \<Rightarrow> fact_ref list \<Rightarrow> string \<Rightarrow> (task_error, unit) res" where
  "validate_causes sd rd causes stream =
     (if causes = [] \<or> length causes > 32 then Err (InvalidInput CausesBounds)
      else if \<not> distinct causes then Err (InvalidInput DuplicateCause)
      else causal_walk rd (sd_record_len sd) stream {||} {||} 0 (map Enter causes))"

section \<open>Publishing and loading\<close>

text \<open>
  \<open>TaskCoordinator\<close>: the journal adapter and the optional goal verifier, with the serializer
  and hash functions the code calls.
\<close>

record ('j, 'v, 'b, 'p) task_coordinator =
  tc_journal :: "('j, 'p) journal_ops"
  tc_goal_verifier :: "'v goal_verifier option"
  tc_codec :: "'v value_codec"
  tc_serde :: "('v, 'b, 'p) serde"

definition journal_read ::
  "('j, 'v, 'b, 'p) task_coordinator \<Rightarrow> 'j \<Rightarrow> string \<Rightarrow> u64 \<Rightarrow> nat \<Rightarrow> (task_error, 'p fact_record list) res" where
  "journal_read tc j stream after limit = map_err Journal (jo_read (tc_journal tc) j stream after limit)"

definition source_ref :: "string \<Rightarrow> fact_ref" where
  "source_ref stream = \<lparr>fr_stream_id = stream, fr_position = 1, fr_fact_id = stream\<rparr>"

definition source_of_kind :: "invocation_input_kind \<Rightarrow> fact_ref \<Rightarrow> invocation_input_source" where
  "source_of_kind k f = (case k of KStandalone \<Rightarrow> Standalone f | KDerived \<Rightarrow> Derived f)"

definition input_subject :: "invocation_input_scope \<Rightarrow> fact_subject" where
  "input_subject scope = \<lparr>fs_kind = INPUT_SUBJECT_KIND, fs_id = sc_invocation_id scope\<rparr>"

text \<open>The checks on the record read from the stream of the source.\<close>

definition check_input_source ::
  "('j, 'v, 'b, 'p) task_coordinator \<Rightarrow> 'j \<Rightarrow> invocation_input_source \<Rightarrow> invocation_input_scope \<Rightarrow> nat
   \<Rightarrow> string \<Rightarrow> 'p fact_record \<Rightarrow> (task_error, 'b verified_input_source) res" where
  "check_input_source tc j source expected max_bytes stream record =
     andthen (bound (sd_record_len (tc_serde tc) record) max_bytes)
    (if rc_stream_id record \<noteq> stream
        \<or> rc_position record \<noteq> 1
        \<or> rc_fact_id record \<noteq> stream
        \<or> fd_kind (rc_draft record) \<noteq> INPUT_KIND
        \<or> fd_schema_version (rc_draft record) \<noteq> 1
        \<or> \<not> fd_critical (rc_draft record)
        \<or> fd_subject (rc_draft record) \<noteq> input_subject expected
     then Err (InvalidInput InputEnvelope)
     else
     bindr (serde_err (sd_input_from (tc_serde tc) (fd_payload (rc_draft record)))) (\<lambda>envelope.
     andthen
       (if ie_scope envelope \<noteq> expected \<or> ie_kind envelope \<noteq> source_kind source
        then Err (InvalidInput InputScope)
        else bindr (serde_err (sd_input_to (tc_serde tc) envelope)) (\<lambda>payload.
               if payload \<noteq> fd_payload (rc_draft record) then Err (InvalidInput InputScope)
               else Ok ()))
    (andthen (validate_causes (tc_serde tc) (jo_read (tc_journal tc) j) (rc_causes record) stream)
    (let v = \<lparr>vi_reference = source_fact source, vi_envelope = envelope,
              vi_causes = rc_causes record\<rparr>
     in andthen (bound (sd_verified_len (tc_serde tc) v) max_bytes) (Ok v)))))"

definition load_input_source ::
  "('j, 'v, 'b, 'p) task_coordinator \<Rightarrow> 'j \<Rightarrow> invocation_input_source \<Rightarrow> invocation_input_scope \<Rightarrow> nat
   \<Rightarrow> (task_error, 'b verified_input_source) res" where
  "load_input_source tc j source expected max_bytes =
     (if max_bytes = 0 \<or> max_bytes > MAX_BYTES then Err (InvalidInput InputCeiling)
      else
      andthen (validate_scope expected)
     (bindr (coordinate (tc_serde tc) expected) (\<lambda>stream.
      if source_fact source \<noteq> source_ref stream then Err (InvalidInput InputCoordinate)
      else
      bindr (journal_read tc j stream 0 2) (\<lambda>rows.
      (case rows of
         [record] \<Rightarrow> check_input_source tc j source expected max_bytes stream record
       | _ \<Rightarrow> Err (InvalidInput InputMissing))))))"

text \<open>Publication: what is written, and what is returned once the stream's rows are known.\<close>

definition input_draft ::
  "string \<Rightarrow> 'b invocation_input_envelope \<Rightarrow> fact_ref list \<Rightarrow> 'p \<Rightarrow> 'p fact_draft" where
  "input_draft stream envelope causes payload =
     \<lparr>fd_fact_id = stream, fd_subject = input_subject (ie_scope envelope), fd_kind = INPUT_KIND,
      fd_schema_version = 1, fd_critical = True, fd_causes = causes, fd_payload = payload\<rparr>"

definition prepare_input_source ::
  "('j, 'v, 'b, 'p) task_coordinator \<Rightarrow> 'j \<Rightarrow> 'b invocation_input_envelope \<Rightarrow> fact_ref list
   \<Rightarrow> (task_error, string \<times> 'p fact_draft \<times> 'p fact_record list) res" where
  "prepare_input_source tc j envelope causes =
     andthen (validate_scope (ie_scope envelope))
    (bindr (coordinate (tc_serde tc) (ie_scope envelope)) (\<lambda>stream.
     andthen (validate_causes (tc_serde tc) (jo_read (tc_journal tc) j) causes stream)
    (bindr (serde_err (sd_input_to (tc_serde tc) envelope)) (\<lambda>payload.
     let draft = input_draft stream envelope causes payload in
     andthen (bound (sd_record_len (tc_serde tc)
                \<lparr>rc_stream_id = stream, rc_position = 1, rc_draft = draft\<rparr>) MAX_BYTES)
    (bindr (journal_read tc j stream 0 2) (\<lambda>rows. Ok (stream, draft, rows)))))))"

definition finish_input_source ::
  "('j, 'v, 'b, 'p) task_coordinator \<Rightarrow> 'j \<Rightarrow> 'b invocation_input_envelope \<Rightarrow> string \<Rightarrow> 'p fact_draft
   \<Rightarrow> 'p fact_record list \<Rightarrow> (task_error, 'b verified_input_source) res" where
  "finish_input_source tc j envelope stream draft rows =
     (if rows \<noteq> [\<lparr>rc_stream_id = stream, rc_position = 1, rc_draft = draft\<rparr>]
      then Err (InvalidInput InputConflict)
      else load_input_source tc j (source_of_kind (ie_kind envelope) (source_ref stream))
             (ie_scope envelope) MAX_BYTES)"

definition publish_input_source ::
  "('j, 'v, 'b, 'p) task_coordinator \<Rightarrow> 'j \<Rightarrow> 'b invocation_input_envelope \<Rightarrow> fact_ref list
   \<Rightarrow> (task_error, 'b verified_input_source) res \<times> 'j" where
  "publish_input_source tc j envelope causes =
     (case prepare_input_source tc j envelope causes of
        Err e \<Rightarrow> (Err e, j)
      | Panic \<Rightarrow> (Panic, j)
      | Ok (stream, draft, rows) \<Rightarrow>
          if rows \<noteq> [] then (finish_input_source tc j envelope stream draft rows, j)
          else
            let (appended, j1) = jo_append (tc_journal tc) j stream 0 [draft] in
            if appended = Panic then (Panic, j1)
            else
              (bindr (journal_read tc j1 stream 0 2) (\<lambda>rows1.
                 if rows1 = []
                 then bindr (map_err Journal appended) (\<lambda>_. Err (InvalidInput InputNoRecord))
                 else finish_input_source tc j1 envelope stream draft rows1), j1))"

section \<open>The source of an event\<close>

fun event_binding :: "'v task_event \<Rightarrow> (string \<times> agent_identity \<times> string) option" where
  "event_binding (EInvocationAdmitted d) =
     Some (id_invocation_id d, id_agent d, id_constraints_digest d)"
| "event_binding (EAttemptStarted b) =
     Some (ab_invocation_id b, ab_agent b, ab_constraints_digest b)"
| "event_binding (EBudgetedAttemptStarted b _) =
     Some (ab_invocation_id b, ab_agent b, ab_constraints_digest b)"
| "event_binding _ = None"

definition check_predecessor ::
  "'v task_snapshot \<Rightarrow> invocation_definition \<Rightarrow> fact_ref list \<Rightarrow> (task_error, unit) res" where
  "check_predecessor st d causes =
     bindr (ok_or (Option.bind (id_parent d) (bt_get (sn_invocations st)))
              (InvalidInput PredecessorAbsent)) (\<lambda>parent.
     bindr (ok_or (is_completion_fact parent) (InvalidInput PredecessorIncomplete)) (\<lambda>completed.
       if completed \<notin> set causes then Err (InvalidInput PredecessorCauseMissing) else Ok ()))"

definition verify_input_event ::
  "('j, 'v, 'b, 'p) task_coordinator \<Rightarrow> 'j \<Rightarrow> string \<Rightarrow> 'v task_event \<Rightarrow> 'p fact_record
   \<Rightarrow> 'v task_snapshot option \<Rightarrow> (task_error, unit) res" where
  "verify_input_event tc j task_id event record snapshot =
     (case event_source event of
        None \<Rightarrow> Ok ()
      | Some source \<Rightarrow>
        bindr (ok_or (event_binding event) (InvalidInput UnsupportedSource)) (\<lambda>(i, agent, digest).
        if source_fact source \<notin> set (rc_causes record) then Err (InvalidInput SourceCauseMissing)
        else
        bindr (load_input_source tc j source
                 \<lparr>sc_task_id = task_id, sc_invocation_id = i, sc_agent = agent,
                  sc_constraints_digest = digest\<rparr> MAX_BYTES) (\<lambda>verified.
        bindr (ok_or snapshot (InvalidInput SourceNoState)) (\<lambda>st.
        bindr (ok_or (bt_get (sn_invocations st) i) (InvalidInput SourceInvocationAbsent)) (\<lambda>inv.
        if id_input_source (is_definition inv) \<noteq> source then Err (InvalidInput SourceDiffers)
        else if id_role (is_definition inv) = Continuation
        then check_predecessor st (is_definition inv) (vi_causes verified)
        else Ok ())))))"

end
