(* ===== verification/Task_Coordinator.thy ===== *)
theory Task_Coordinator
  imports Task_Input
begin

text \<open>
  The task coordinator of \<open>crates/kolyan-server/src/tasks/coordinator.rs\<close>: reading a task's
  stream page by page, replaying it through the reducer, and admitting a command. The coordinator
  holds no task state; the journal adapter and its state do. A command is a plan, made from what
  was read, and one append.
\<close>

definition PAGE_SIZE :: nat where "PAGE_SIZE = 512"
definition VERSION :: u32 where "VERSION = 1"

section \<open>Reading a stream\<close>

fun check_page :: "string \<Rightarrow> u64 \<Rightarrow> 'p fact_record list \<Rightarrow> (task_error, u64) res" where
  "check_page task_id after [] = Ok after"
| "check_page task_id after (r # rs) =
     (if rc_stream_id r \<noteq> task_id then Err (InvalidJournal NoncontiguousPage)
      else bindr (ok_or (checked_add after 1) (InvalidJournal PositionOverflow)) (\<lambda>p.
        if rc_position r \<noteq> p then Err (InvalidJournal NoncontiguousPage)
        else check_page task_id (rc_position r) rs))"

text \<open>
  The loop of \<open>records\<close>. An adapter that keeps offering a tail but never a page would make it
  run forever: the fuel, more than a stream can have records, makes this a \<open>Panic\<close>.
\<close>

fun read_pages ::
  "nat \<Rightarrow> ('j, 'v, 'b, 'p) task_coordinator \<Rightarrow> 'j \<Rightarrow> string \<Rightarrow> u64 \<Rightarrow> 'p fact_record list
   \<Rightarrow> (task_error, 'p fact_record list) res" where
  "read_pages 0 tc j task_id after acc = Panic"
| "read_pages (Suc fuel) tc j task_id after acc =
     bindr (journal_read tc j task_id after PAGE_SIZE) (\<lambda>page.
     if length page > PAGE_SIZE then Err (InvalidJournal OversizedPage)
     else
     bindr (check_page task_id after page) (\<lambda>after'.
     bindr (journal_read tc j task_id after' 1) (\<lambda>tail.
     (case tail of
        [] \<Rightarrow> Ok (acc @ page)
      | r # rest \<Rightarrow>
          if rest \<noteq> [] \<or> rc_stream_id r \<noteq> task_id \<or> rc_position r \<noteq> after' + 1
          then Err (InvalidJournal JournalStuck)
          else read_pages fuel tc j task_id after' (acc @ page)))))"

definition JOURNAL_FUEL :: nat where "JOURNAL_FUEL = 2 ^ 64"

definition stream_records ::
  "('j, 'v, 'b, 'p) task_coordinator \<Rightarrow> 'j \<Rightarrow> string \<Rightarrow> (task_error, 'p fact_record list) res" where
  "stream_records tc j task_id =
     andthen (identity task_id) (read_pages JOURNAL_FUEL tc j task_id 0 [])"

section \<open>Envelopes\<close>

definition subject :: "string \<Rightarrow> string \<Rightarrow> fact_subject" where
  "subject kind i = \<lparr>fs_kind = ''task.'' @ kind, fs_id = i\<rparr>"

fun envelope :: "string \<Rightarrow> 'v task_event \<Rightarrow> string \<times> fact_subject" where
  "envelope t (EExecutionBudgetConfigured _) = (''task.execution_budget_configured'', subject ''budget'' t)"
| "envelope t (EBudgetedAttemptStarted b _) =
     (''task.budgeted_attempt_started'', subject ''attempt'' (ab_attempt_id b))"
| "envelope t (EGoalAssessed a) = (''task.goal_assessed'', subject ''goal'' (ga_criterion_id a))"
| "envelope t (ERegistered _) = (''task.registered'', subject ''task'' t)"
| "envelope t (EInvocationAdmitted d) =
     (''task.invocation_admitted'', subject ''invocation'' (id_invocation_id d))"
| "envelope t (EDependencyAdmitted i _) = (''task.dependency_admitted'', subject ''invocation'' i)"
| "envelope t (EAttemptStarted b) = (''task.attempt_started'', subject ''attempt'' (ab_attempt_id b))"
| "envelope t (EAttemptObserved x) = (''task.attempt_observed'', subject ''attempt'' (ao_attempt_id x))"
| "envelope t (EAttemptResumed b _) = (''task.attempt_resumed'', subject ''attempt'' (ab_attempt_id b))"
| "envelope t (ERecoveryNeeded a _) = (''task.recovery_needed'', subject ''attempt'' a)"
| "envelope t (ERetryAuthorized a _ _) = (''task.retry_authorized'', subject ''attempt'' a)"
| "envelope t (EResultConsumed i _) = (''task.result_consumed'', subject ''invocation'' i)"
| "envelope t (ETerminalResultConsumed i _) =
     (''task.terminal_result_consumed'', subject ''invocation'' i)"
| "envelope t (ECompleted _) = (''task.completed'', subject ''task'' t)"
| "envelope t (ECancelled _) = (''task.cancelled'', subject ''task'' t)"
| "envelope t (EFailed _) = (''task.failed'', subject ''task'' t)"

definition known_kinds :: "string list" where
  "known_kinds =
     [''task.registered'', ''task.execution_budget_configured'', ''task.budgeted_attempt_started'',
      ''task.goal_assessed'', ''task.invocation_admitted'', ''task.dependency_admitted'',
      ''task.attempt_started'', ''task.attempt_observed'', ''task.attempt_resumed'',
      ''task.recovery_needed'', ''task.retry_authorized'', ''task.result_consumed'',
      ''task.terminal_result_consumed'', ''task.completed'', ''task.cancelled'', ''task.failed'']"

section \<open>Replay\<close>

definition foreign_registration :: "string \<Rightarrow> 'v task_event \<Rightarrow> bool" where
  "foreign_registration task_id event \<longleftrightarrow>
     (case event of ERegistered d \<Rightarrow> td_task_id d \<noteq> task_id | _ \<Rightarrow> False)"

text \<open>The verification shared by replay and admission, around the reducer.\<close>

definition admit_event ::
  "('j, 'v, 'b, 'p) task_coordinator \<Rightarrow> 'j \<Rightarrow> string \<Rightarrow> 'v task_snapshot option \<Rightarrow> 'v task_event
   \<Rightarrow> 'p fact_record \<Rightarrow> (task_error, 'v task_snapshot) res" where
  "admit_event tc j task_id snapshot event record =
     andthen (verify_event (tc_codec tc) (tc_goal_verifier tc) snapshot event record)
    (bindr (apply_event (tc_codec tc) snapshot event record) (\<lambda>st.
     andthen (verify_input_event tc j task_id event record (Some st)) (Ok st)))"

definition replay_known ::
  "('j, 'v, 'b, 'p) task_coordinator \<Rightarrow> 'j \<Rightarrow> string \<Rightarrow> 'v task_snapshot option \<Rightarrow> fact_ref option
   \<Rightarrow> 'p fact_record \<Rightarrow> (task_error, 'v task_snapshot) res" where
  "replay_known tc j task_id snapshot previous record =
     (if \<not> fd_critical (rc_draft record) then Err (InvalidJournal NotCritical)
      else
      bindr (serde_err (sd_event_from (tc_serde tc) (fd_payload (rc_draft record)))) (\<lambda>event.
      if fst (envelope task_id event) \<noteq> fd_kind (rc_draft record)
         \<or> snd (envelope task_id event) \<noteq> fd_subject (rc_draft record)
         \<or> (case previous of None \<Rightarrow> False | Some cause \<Rightarrow> cause \<notin> set (rc_causes record))
      then Err (InvalidJournal EnvelopeMismatch)
      else if foreign_registration task_id event then Err (InvalidJournal ForeignRegistration)
      else admit_event tc j task_id snapshot event record))"

definition replay_record ::
  "('j, 'v, 'b, 'p) task_coordinator \<Rightarrow> 'j \<Rightarrow> string \<Rightarrow> 'v task_snapshot option \<Rightarrow> fact_ref option
   \<Rightarrow> 'p fact_record \<Rightarrow> (task_error, 'v task_snapshot option) res" where
  "replay_record tc j task_id snapshot previous record =
     (if fd_kind (rc_draft record) \<notin> set known_kinds \<or> fd_schema_version (rc_draft record) \<noteq> VERSION
      then if fd_critical (rc_draft record) then Err (InvalidJournal UnknownCritical) else Ok snapshot
      else bindr (replay_known tc j task_id snapshot previous record) (\<lambda>st. Ok (Some st)))"

fun replay_from ::
  "('j, 'v, 'b, 'p) task_coordinator \<Rightarrow> 'j \<Rightarrow> string \<Rightarrow> 'v task_snapshot option \<Rightarrow> fact_ref option
   \<Rightarrow> 'p fact_record list \<Rightarrow> (task_error, 'v task_snapshot option) res" where
  "replay_from tc j task_id snapshot previous [] = Ok snapshot"
| "replay_from tc j task_id snapshot previous (r # rs) =
     bindr (replay_record tc j task_id snapshot previous r) (\<lambda>s.
       replay_from tc j task_id (map_option (\<lambda>st. st\<lparr>sn_position := rc_position r\<rparr>) s)
         (Some (reference r)) rs)"

definition replay ::
  "('j, 'v, 'b, 'p) task_coordinator \<Rightarrow> 'j \<Rightarrow> string \<Rightarrow> 'p fact_record list
   \<Rightarrow> (task_error, 'v task_snapshot option) res" where
  "replay tc j task_id rs = replay_from tc j task_id None None rs"

text \<open>\<open>TaskCoordinator::snapshot\<close>\<close>

definition task_snapshot_of ::
  "('j, 'v, 'b, 'p) task_coordinator \<Rightarrow> 'j \<Rightarrow> string \<Rightarrow> (task_error, 'v task_snapshot) res" where
  "task_snapshot_of tc j task_id =
     bindr (stream_records tc j task_id) (\<lambda>rs.
     bindr (replay tc j task_id rs) (\<lambda>s. ok_or s (NotFound task_id)))"

section \<open>Commands\<close>

fun validate_goals ::
  "'v value_codec \<Rightarrow> 'v completion_criterion list \<Rightarrow> (task_error, unit) res" where
  "validate_goals c [] = Ok ()"
| "validate_goals c (criterion # rest) =
     andthen (case criterion of CGoal goal \<Rightarrow> goal_criterion_validate c goal | _ \<Rightarrow> Ok ())
       (validate_goals c rest)"

text \<open>The checks on the event itself, before its payload is built.\<close>

definition check_event :: "'v value_codec \<Rightarrow> 'v task_event \<Rightarrow> (task_error, unit) res" where
  "check_event c event =
     (case event of
        EGoalAssessed a \<Rightarrow> bindr (assessment_digest c a) (\<lambda>_. Ok ())
      | ERegistered d \<Rightarrow> validate_goals c (td_criteria d)
      | _ \<Rightarrow> Ok ())"

definition push_cause :: "fact_ref \<Rightarrow> fact_ref list \<Rightarrow> fact_ref list" where
  "push_cause c causes = (if c \<in> set causes then causes else causes @ [c])"

definition consumed_fact :: "'v task_event \<Rightarrow> fact_ref list" where
  "consumed_fact event =
     (case event of
        EResultConsumed _ r \<Rightarrow> [cr_completion_fact r]
      | ETerminalResultConsumed _ r \<Rightarrow> [ct_terminal_fact r]
      | _ \<Rightarrow> [])"

definition budget_causes ::
  "'v task_snapshot option \<Rightarrow> 'v task_event \<Rightarrow> (task_error, fact_ref list) res" where
  "budget_causes snapshot event =
     (case event of
        EBudgetedAttemptStarted _ _ \<Rightarrow>
          bindr (ok_or (Option.bind snapshot sn_execution_budget) (InvalidJournal NoSavedPolicy))
            (\<lambda>b. Ok [bs_policy_reference b])
      | _ \<Rightarrow> Ok [])"

text \<open>
  The causes of the new fact: the stream's last record, the input source, the consumed result,
  the goal facts and the budget policy, each once and in this order.
\<close>

definition command_causes ::
  "('j, 'v, 'b, 'p) task_coordinator \<Rightarrow> 'p fact_record list \<Rightarrow> 'v task_snapshot option \<Rightarrow> 'v task_event
   \<Rightarrow> (task_error, fact_ref list) res" where
  "command_causes tc rs snapshot event =
     (let first = (if rs = [] then [] else [reference (last rs)]);
          source = (case event_source event of None \<Rightarrow> [] | Some s \<Rightarrow> [source_fact s]);
          causes = fold push_cause (source @ consumed_fact event) first
      in bindr (goal_causes (tc_codec tc) snapshot event) (\<lambda>goals.
         bindr (budget_causes snapshot event) (\<lambda>budget.
           Ok (fold push_cause (goals @ budget) causes))))"

datatype ('v, 'p) command_plan =
    Replayed "'v task_snapshot"
  | Append u64 "'p fact_draft" "'p fact_record" "'v task_snapshot"

text \<open>An identity that the stream already holds must name the same command.\<close>

definition same_command ::
  "'p fact_record \<Rightarrow> string \<times> fact_subject \<Rightarrow> 'p \<Rightarrow> bool" where
  "same_command existing env payload \<longleftrightarrow>
     fd_kind (rc_draft existing) = fst env \<and> fd_subject (rc_draft existing) = snd env
     \<and> fd_schema_version (rc_draft existing) = VERSION \<and> fd_critical (rc_draft existing)
     \<and> fd_payload (rc_draft existing) = payload"

definition plan_append_command ::
  "('j, 'v, 'b, 'p) task_coordinator \<Rightarrow> 'j \<Rightarrow> string \<Rightarrow> string \<Rightarrow> 'v task_event \<Rightarrow> 'p fact_record list
   \<Rightarrow> 'v task_snapshot option \<Rightarrow> 'p \<Rightarrow> (task_error, ('v, 'p) command_plan) res" where
  "plan_append_command tc j task_id fact_id event rs snapshot payload =
     (let expected = (if rs = [] then 0 else rc_position (last rs)) in
      bindr (command_causes tc rs snapshot event) (\<lambda>causes.
      let draft = \<lparr>fd_fact_id = fact_id, fd_subject = snd (envelope task_id event),
                   fd_kind = fst (envelope task_id event), fd_schema_version = VERSION,
                   fd_critical = True, fd_causes = causes, fd_payload = payload\<rparr>
      in bindr (ok_or (checked_add expected 1) (InvalidJournal PositionOverflow)) (\<lambda>position.
         let candidate = \<lparr>rc_stream_id = task_id, rc_position = position, rc_draft = draft\<rparr>
         in bindr (admit_event tc j task_id snapshot event candidate) (\<lambda>st.
              Ok (Append expected draft candidate st)))))"

definition plan_command ::
  "('j, 'v, 'b, 'p) task_coordinator \<Rightarrow> 'j \<Rightarrow> string \<Rightarrow> string \<Rightarrow> 'v task_event
   \<Rightarrow> (task_error, ('v, 'p) command_plan) res" where
  "plan_command tc j task_id fact_id event =
     andthen (identity fact_id)
    (bindr (stream_records tc j task_id) (\<lambda>rs.
     bindr (replay tc j task_id rs) (\<lambda>snapshot.
     andthen (check_event (tc_codec tc) event)
    (bindr (serde_err (sd_event_to (tc_serde tc) event)) (\<lambda>payload.
     (case find (\<lambda>r. rc_fact_id r = fact_id) rs of
        Some existing \<Rightarrow>
          if \<not> same_command existing (envelope task_id event) payload
          then Err (InvalidJournal FactReused)
          else bindr (ok_or snapshot (NotFound task_id)) (\<lambda>st. Ok (Replayed st))
      | None \<Rightarrow> plan_append_command tc j task_id fact_id event rs snapshot payload))))))"

definition commit_command ::
  "('j, 'v, 'b, 'p) task_coordinator \<Rightarrow> 'j \<Rightarrow> string \<Rightarrow> ('v, 'p) command_plan
   \<Rightarrow> (task_error, 'v task_snapshot) res \<times> 'j" where
  "commit_command tc j task_id plan =
     (case plan of
        Replayed st \<Rightarrow> (Ok st, j)
      | Append expected draft candidate st \<Rightarrow>
          let (appended, j1) = jo_append (tc_journal tc) j task_id expected [draft]
          in (bindr (map_err Journal appended) (\<lambda>committed.
                if committed \<noteq> [candidate] then Err (InvalidJournal CommittedDifferent) else Ok st), j1))"

definition command ::
  "('j, 'v, 'b, 'p) task_coordinator \<Rightarrow> 'j \<Rightarrow> string \<Rightarrow> string \<Rightarrow> 'v task_event
   \<Rightarrow> (task_error, 'v task_snapshot) res \<times> 'j" where
  "command tc j task_id fact_id event =
     (case plan_command tc j task_id fact_id event of
        Err e \<Rightarrow> (Err e, j)
      | Panic \<Rightarrow> (Panic, j)
      | Ok plan \<Rightarrow> commit_command tc j task_id plan)"

section \<open>The public commands\<close>

text \<open>Each public command is \<open>command\<close> with its event; a registration names its own stream.\<close>

definition configure_execution_budget where
  "configure_execution_budget tc j t f policy = command tc j t f (EExecutionBudgetConfigured policy)"
definition start_budgeted_attempt where
  "start_budgeted_attempt tc j t f binding n = command tc j t f (EBudgetedAttemptStarted binding n)"
definition assess_goal where
  "assess_goal tc j t f assessment = command tc j t f (EGoalAssessed assessment)"
definition register_task where
  "register_task tc j f d = command tc j (td_task_id d) f (ERegistered d)"
definition admit_invocation where
  "admit_invocation tc j t f d = command tc j t f (EInvocationAdmitted d)"
definition admit_dependency where
  "admit_dependency tc j t f i d = command tc j t f (EDependencyAdmitted i d)"
definition start_attempt where
  "start_attempt tc j t f binding = command tc j t f (EAttemptStarted binding)"
definition observe_attempt where
  "observe_attempt tc j t f observation = command tc j t f (EAttemptObserved observation)"
definition resume_attempt where
  "resume_attempt tc j t f binding checkpoint = command tc j t f (EAttemptResumed binding checkpoint)"
definition mark_recovery where
  "mark_recovery tc j t f attempt why = command tc j t f (ERecoveryNeeded attempt why)"
definition authorize_retry_command where
  "authorize_retry_command tc j t f attempt source why =
     command tc j t f (ERetryAuthorized attempt source why)"
definition consume_child_result where
  "consume_child_result tc j t f i result = command tc j t f (EResultConsumed i result)"
definition consume_terminal_result where
  "consume_terminal_result tc j t f i result = command tc j t f (ETerminalResultConsumed i result)"
definition complete_task where
  "complete_task tc j t f evidence = command tc j t f (ECompleted evidence)"
definition fail_task where
  "fail_task tc j t f why = command tc j t f (EFailed why)"
definition cancel_task where
  "cancel_task tc j t f why = command tc j t f (ECancelled why)"

text \<open>The two calls that go straight to the goal verifier.\<close>

definition compute_goal_assessment ::
  "('j, 'v, 'b, 'p) task_coordinator \<Rightarrow> 'v task_snapshot \<Rightarrow> string \<Rightarrow> (task_error, 'v goal_assessment) res" where
  "compute_goal_assessment tc prefix i =
     bindr (ok_or (tc_goal_verifier tc) (InvalidGoal VerifierUnavailable)) (\<lambda>v.
       gv_compute_assessment v prefix i)"

definition verify_goal_completion ::
  "('j, 'v, 'b, 'p) task_coordinator \<Rightarrow> 'v task_snapshot \<Rightarrow> completion_evidence list \<Rightarrow> (task_error, unit) res" where
  "verify_goal_completion tc prefix evidence =
     bindr (ok_or (tc_goal_verifier tc) (InvalidGoal VerifierUnavailable)) (\<lambda>v.
       gv_verify_completion v prefix evidence)"

end
