(* ===== verification/Task_Evidence.thy ===== *)
theory Task_Evidence
  imports Task_Input Task_Steps
begin

text \<open>
  Correctness of input evidence: the causal walk accepts only complete, bounded and acyclic
  closures; a published source is immutable, and publishing it again changes nothing. The lemmas
  on reads are proved for every journal that keeps the promises of \<open>reliable_journal\<close>.
\<close>

section \<open>What a verified closure is\<close>

type_synonym 'p reader = "string \<Rightarrow> u64 \<Rightarrow> nat \<Rightarrow> (fact_error, 'p fact_record list) res"

definition cited :: "'p reader \<Rightarrow> fact_ref \<Rightarrow> fact_ref set" where
  "cited rd r = {c. \<exists>rec. cause_record rd r = Ok rec \<and> c \<in> set (rc_causes rec)}"

definition resolved :: "'p reader \<Rightarrow> string \<Rightarrow> fact_ref \<Rightarrow> bool" where
  "resolved rd stream r \<longleftrightarrow> fr_position r \<noteq> 0 \<and> fr_stream_id r \<noteq> stream \<and>
     (\<exists>rec. cause_record rd r = Ok rec \<and> check_references rec = Ok ())"

inductive_set causal_closure :: "'p reader \<Rightarrow> fact_ref list \<Rightarrow> fact_ref set"
  for rd causes where
  direct: "r \<in> set causes \<Longrightarrow> r \<in> causal_closure rd causes"
| indirect: "r \<in> causal_closure rd causes \<Longrightarrow> c \<in> cited rd r \<Longrightarrow> c \<in> causal_closure rd causes"

definition citations :: "'p reader \<Rightarrow> fact_ref set \<Rightarrow> (fact_ref \<times> fact_ref) set" where
  "citations rd B = {(c, r). r \<in> B \<and> c \<in> cited rd r}"

definition verified_set :: "'p reader \<Rightarrow> string \<Rightarrow> fact_ref set \<Rightarrow> bool" where
  "verified_set rd stream B \<longleftrightarrow>
     (\<forall>r \<in> B. resolved rd stream r \<and> cited rd r \<subseteq> B) \<and> acyclic (citations rd B)"

lemma closure_subset:
  assumes "set causes \<subseteq> B" and "\<forall>r \<in> B. cited rd r \<subseteq> B"
  shows "causal_closure rd causes \<subseteq> B"
proof
  fix r
  assume "r \<in> causal_closure rd causes"
  then show "r \<in> B" by (induction rule: causal_closure.induct) (use assms in auto)
qed

text \<open>A new record whose citations are all verified closes no cycle.\<close>

lemma acyclic_new_sink:
  assumes "acyclic E" and "r \<notin> Domain (E \<union> C \<times> {r})"
  shows "acyclic (E \<union> C \<times> {r})"
proof (rule acyclicI, intro allI notI)
  have step: "y = r \<or> (x, y) \<in> E\<^sup>+" if "(x, y) \<in> (E \<union> C \<times> {r})\<^sup>+" for x y
    using that
  proof (induction rule: trancl_induct)
    case (base y)
    then show ?case by auto
  next
    case (step y z)
    then have "y \<noteq> r" using assms(2) by auto
    with step show ?case by (auto intro: trancl_into_trancl)
  qed
  fix x
  assume xx: "(x, x) \<in> (E \<union> C \<times> {r})\<^sup>+"
  then have "x \<in> Domain (E \<union> C \<times> {r})" by (metis trancl_domain DomainI)
  with step [OF xx] assms show False by (auto simp: acyclic_def)
qed

lemma verified_insert:
  assumes B: "verified_set rd stream B" and r: "resolved rd stream r" "cited rd r \<subseteq> B" "r \<notin> B"
  shows "verified_set rd stream (insert r B)"
proof -
  have eq: "citations rd (insert r B) = citations rd B \<union> cited rd r \<times> {r}"
    by (auto simp: citations_def)
  have "r \<notin> Domain (citations rd B \<union> cited rd r \<times> {r})"
    using B r(2,3) by (auto simp: citations_def verified_set_def)
  then have "acyclic (citations rd (insert r B))"
    unfolding eq using B by (intro acyclic_new_sink) (auto simp: verified_set_def)
  then show ?thesis using B r by (auto simp: verified_set_def)
qed

section \<open>The invariant of the walk\<close>

definition refs_of :: "causal_key fset \<Rightarrow> fact_ref set" where
  "refs_of K = {r. key_of r |\<in>| K}"

lemma key_of_eq [simp]: "key_of r = key_of q \<longleftrightarrow> r = q"
  by (cases r; cases q) (simp add: key_of_def)

lemma key_of_surj: "\<exists>r. k = key_of r"
proof -
  obtain a b c where "k = (a, b, c)" by (cases k)
  then have "k = key_of \<lparr>fr_stream_id = a, fr_position = b, fr_fact_id = c\<rparr>" by (simp add: key_of_def)
  then show ?thesis ..
qed

lemma refs_of_simps [simp]:
  "r \<in> refs_of K \<longleftrightarrow> key_of r |\<in>| K"
  "refs_of {||} = {}"
  "refs_of (finsert (key_of r) K) = insert r (refs_of K)"
  by (auto simp: refs_of_def)

lemma card_refs_of: "finite (refs_of K) \<and> card (refs_of K) = fcard K"
proof -
  have "k \<in> key_of ` refs_of K" if "k |\<in>| K" for k
  proof -
    obtain r where "k = key_of r" using key_of_surj by blast
    with that show ?thesis by (auto simp: refs_of_def)
  qed
  then have im: "key_of ` refs_of K = fset K" by (auto simp: refs_of_def)
  have inj: "inj_on key_of (refs_of K)" by (auto intro: inj_onI)
  have "finite (refs_of K)" using im inj by (metis finite_fset finite_imageD)
  moreover have "card (refs_of K) = fcard K"
    using card_image [OF inj] im by (simp add: fcard.rep_eq)
  ultimately show ?thesis ..
qed

text \<open>
  Reading the stack from its top, every citation of an open record is black or stands above the
  record's exit, and every root is black or on the stack.
\<close>

fun stack_ok :: "'p reader \<Rightarrow> fact_ref set \<Rightarrow> fact_ref set \<Rightarrow> walk list \<Rightarrow> bool" where
  "stack_ok rd roots seen [] = (roots \<subseteq> seen)"
| "stack_ok rd roots seen (Enter r # stack) = stack_ok rd roots (insert r seen) stack"
| "stack_ok rd roots seen (Exit k # stack) =
     (\<exists>r. k = key_of r \<and> cited rd r \<subseteq> seen \<and> stack_ok rd roots (insert r seen) stack)"

fun exits :: "walk list \<Rightarrow> causal_key list" where
  "exits [] = []"
| "exits (Enter r # stack) = exits stack"
| "exits (Exit k # stack) = k # exits stack"

lemma exits_enter [simp]: "exits (map Enter rs @ stack) = exits stack"
  by (induction rs) auto

lemma stack_ok_enter [simp]:
  "stack_ok rd roots seen (map Enter rs @ stack) = stack_ok rd roots (set rs \<union> seen) stack"
  by (induction rs arbitrary: seen) auto

lemma stack_ok_mono: "stack_ok rd roots seen stack \<Longrightarrow> seen \<subseteq> seen' \<Longrightarrow> stack_ok rd roots seen' stack"
proof (induction rd roots seen stack arbitrary: seen' rule: stack_ok.induct)
  case (2 rd roots seen r stack)
  from "2.prems" have "insert r seen \<subseteq> insert r seen'" by blast
  with 2 show ?case by simp
next
  case (3 rd roots seen k stack)
  then show ?case by (metis insert_mono stack_ok.simps(3) subset_trans)
qed auto

definition walk_inv ::
  "'p reader \<Rightarrow> string \<Rightarrow> fact_ref set \<Rightarrow> causal_key fset \<Rightarrow> causal_key fset \<Rightarrow> walk list \<Rightarrow> bool" where
  "walk_inv rd stream roots black gray stack \<longleftrightarrow>
     stack_ok rd roots (refs_of black) stack \<and> fset gray = set (exits stack) \<and> distinct (exits stack) \<and>
     black |\<inter>| gray = {||} \<and> verified_set rd stream (refs_of black) \<and>
     (\<forall>r \<in> refs_of gray. resolved rd stream r) \<and> fcard black + fcard gray \<le> MAX_CAUSAL_RECORDS"

lemma walk_inv_exit:
  assumes "walk_inv rd stream roots black gray (Exit k # stack)"
  shows "walk_inv rd stream roots (finsert k black) (gray |-| {|k|}) stack"
proof -
  note inv = assms [unfolded walk_inv_def]
  from inv obtain r where k: "k = key_of r" and cs: "cited rd r \<subseteq> refs_of black"
    and st: "stack_ok rd roots (insert r (refs_of black)) stack" by auto
  from inv have gr: "key_of r |\<in>| gray" by (simp add: k)
  with inv have nb: "key_of r |\<notin>| black" by blast
  have "verified_set rd stream (insert r (refs_of black))"
    by (rule verified_insert) (use inv gr nb cs in auto)
  moreover have "fcard (finsert k black) + fcard (gray |-| {|k|}) = fcard black + fcard gray"
    using gr nb fcard_finsert_disjoint [of k black] fcard_Suc_fminus1 [of k gray] by (simp add: k)
  moreover have "fset (gray |-| {|k|}) = set (exits stack)" using inv by auto
  ultimately show ?thesis using inv st by (auto simp: walk_inv_def k)
qed

lemma walk_inv_black:
  assumes "walk_inv rd stream roots black gray (Enter r # stack)" and "key_of r |\<in>| black"
  shows "walk_inv rd stream roots black gray stack"
proof -
  from assms(2) have "insert r (refs_of black) = refs_of black" by auto
  with assms(1) show ?thesis by (simp add: walk_inv_def)
qed

lemma walk_inv_new:
  assumes inv: "walk_inv rd stream roots black gray (Enter r # stack)"
    and new: "key_of r |\<notin>| black" "key_of r |\<notin>| gray" "fcard black + fcard gray < MAX_CAUSAL_RECORDS"
    and r: "fr_position r \<noteq> 0" "fr_stream_id r \<noteq> stream" "cause_record rd r = Ok rec"
      "check_references rec = Ok ()"
  shows "walk_inv rd stream roots black (finsert (key_of r) gray)
           (map Enter (rc_causes rec) @ Exit (key_of r) # stack)"
proof -
  note inv = inv [unfolded walk_inv_def]
  have "cited rd r = set (rc_causes rec)" using r(3) by (auto simp: cited_def)
  moreover have "stack_ok rd roots (insert r (set (rc_causes rec) \<union> refs_of black)) stack"
    by (rule stack_ok_mono [of rd roots "insert r (refs_of black)"]) (use inv in auto)
  ultimately have "stack_ok rd roots (refs_of black) (map Enter (rc_causes rec) @ Exit (key_of r) # stack)"
    by auto
  moreover have "resolved rd stream r" using r by (auto simp: resolved_def)
  ultimately show ?thesis
    using inv new fcard_finsert_disjoint [of "key_of r" gray] by (auto simp: walk_inv_def)
qed

lemma causal_walk_sound:
  assumes "causal_walk rd len stream black gray bytes stack = Ok ()"
    and "walk_inv rd stream roots black gray stack"
  shows "\<exists>B. roots \<subseteq> B \<and> verified_set rd stream B \<and> finite B \<and> card B \<le> MAX_CAUSAL_RECORDS"
  using assms
proof (induction rd len stream black gray bytes stack rule: causal_walk.induct)
  case (1 rd len stream black gray bytes)
  then show ?case using card_refs_of [of black]
    by (intro exI [of _ "refs_of black"]) (auto simp: walk_inv_def)
next
  case (2 rd len stream black gray bytes k stack)
  from walk_inv_exit [OF 2(3)] 2(1,2) show ?case by simp
next
  case (3 rd len stream black gray bytes r stack)
  show ?case
  proof (cases "key_of r |\<in>| black")
    case True
    with 3(3,4) show ?thesis
      by (intro 3(1)) (auto simp: res_simps dest: walk_inv_black split: if_splits)
  next
    case False
    with 3(3) obtain rec bytes' where ok: "fr_position r \<noteq> 0" "fr_stream_id r \<noteq> stream"
      "identity (fr_stream_id r) = Ok ()" "identity (fr_fact_id r) = Ok ()"
      "key_of r |\<notin>| gray" "\<not> MAX_CAUSAL_RECORDS \<le> fcard black + fcard gray"
      "cause_record rd r = Ok rec" "count_bytes (len rec) bytes = Ok bytes'" "check_references rec = Ok ()"
      "causal_walk rd len stream black (finsert (key_of r) gray) bytes'
           (map Enter (rc_causes rec) @ Exit (key_of r) # stack) = Ok ()"
      by (auto simp: res_simps split: if_splits)
    have "walk_inv rd stream roots black (finsert (key_of r) gray)
           (map Enter (rc_causes rec) @ Exit (key_of r) # stack)"
      by (rule walk_inv_new [OF 3(4) False]) (use ok in auto)
    with ok False show ?thesis by (intro 3(2)) auto
  qed
qed

lemma validate_causes_closure:
  assumes "validate_causes sd rd causes stream = Ok ()"
  shows "verified_set rd stream (causal_closure rd causes) \<and> finite (causal_closure rd causes) \<and>
    card (causal_closure rd causes) \<le> MAX_CAUSAL_RECORDS"
proof -
  from assms have w: "causal_walk rd (sd_record_len sd) stream {||} {||} 0 (map Enter causes) = Ok ()"
    by (auto simp: validate_causes_def split: if_splits)
  have "walk_inv rd stream (set causes) {||} {||} (map Enter causes)"
    using stack_ok_enter [of rd "set causes" "{}" causes "[]"] exits_enter [of causes "[]"]
    by (simp add: walk_inv_def verified_set_def citations_def acyclic_def fcard.rep_eq)
  from causal_walk_sound [OF w this] obtain B where B: "set causes \<subseteq> B" "verified_set rd stream B"
    "finite B" "card B \<le> MAX_CAUSAL_RECORDS" by blast
  let ?C = "causal_closure rd causes"
  from B have sub: "?C \<subseteq> B" by (intro closure_subset) (auto simp: verified_set_def)
  then have "citations rd ?C \<subseteq> citations rd B" by (auto simp: citations_def)
  with B(2) have "acyclic (citations rd ?C)" by (auto simp: verified_set_def intro: acyclic_subset)
  with B(2) sub have "verified_set rd stream ?C"
    by (auto simp: verified_set_def intro: causal_closure.indirect)
  with B sub show ?thesis by (meson card_mono finite_subset le_trans)
qed

section \<open>Evidence does not change\<close>

lemma cause_record_later:
  assumes "\<And>s a r. rd s a 1 = Ok [r] \<Longrightarrow> rd' s a 1 = Ok [r]" and "cause_record rd q = Ok rec"
  shows "cause_record rd' q = Ok rec"
proof -
  from assms(2) have "rd (fr_stream_id q) (fr_position q - 1) 1 = Ok [rec]"
    by (auto simp: cause_record_def res_simps)
  from assms(1) [OF this] assms(2) show ?thesis
    by (auto simp: cause_record_def res_simps)
qed

lemma causal_walk_later:
  assumes "causal_walk rd len stream black gray bytes stack = Ok ()"
    and "\<And>s a r. rd s a 1 = Ok [r] \<Longrightarrow> rd' s a 1 = Ok [r]"
  shows "causal_walk rd' len stream black gray bytes stack = Ok ()"
  using assms
proof (induction rd len stream black gray bytes stack rule: causal_walk.induct)
  case (3 rd len stream black gray bytes r stack)
  show ?case
  proof (cases "key_of r |\<in>| black")
    case True
    with 3 show ?thesis by (auto simp: res_simps split: if_splits)
  next
    case False
    with 3(3) obtain rec bytes' where ok: "fr_position r \<noteq> 0" "fr_stream_id r \<noteq> stream"
      "identity (fr_stream_id r) = Ok ()" "identity (fr_fact_id r) = Ok ()"
      "key_of r |\<notin>| gray" "\<not> MAX_CAUSAL_RECORDS \<le> fcard black + fcard gray"
      "cause_record rd r = Ok rec" "count_bytes (len rec) bytes = Ok bytes'" "check_references rec = Ok ()"
      "causal_walk rd len stream black (finsert (key_of r) gray) bytes'
           (map Enter (rc_causes rec) @ Exit (key_of r) # stack) = Ok ()"
      by (auto simp: res_simps split: if_splits)
    have "causal_walk rd' len stream black (finsert (key_of r) gray) bytes'
           (map Enter (rc_causes rec) @ Exit (key_of r) # stack) = Ok ()"
      by (rule 3(2)) (use ok False 3(4) in auto)
    moreover have "cause_record rd' r = Ok rec"
      by (rule cause_record_later [of rd]) (use ok 3(4) in auto)
    ultimately show ?thesis using ok False by simp
  qed
qed auto

lemma validate_causes_later:
  assumes "validate_causes sd rd causes stream = Ok ()"
    and "\<And>s a r. rd s a 1 = Ok [r] \<Longrightarrow> rd' s a 1 = Ok [r]"
  shows "validate_causes sd rd' causes stream = Ok ()"
  using assms(1) causal_walk_later [of rd _ _ _ _ _ _ rd'] assms(2)
  by (auto simp: validate_causes_def split: if_splits)

definition sees_all ::
  "('j, 'v, 'b, 'p) task_coordinator \<Rightarrow> 'j \<Rightarrow> 'j \<Rightarrow> bool" where
  "sees_all tc j j' \<longleftrightarrow>
     (\<forall>s a r. jo_read (tc_journal tc) j s a 1 = Ok [r] \<longrightarrow> jo_read (tc_journal tc) j' s a 1 = Ok [r])"

lemma check_input_later:
  assumes "check_input_source tc j source sc n stream rec = Ok v" and "sees_all tc j j'"
  shows "check_input_source tc j' source sc n stream rec = Ok v"
proof -
  from assms(1) have "validate_causes (tc_serde tc) (jo_read (tc_journal tc) j) (rc_causes rec) stream = Ok ()"
    by (auto simp: check_input_source_def res_simps)
  then have "validate_causes (tc_serde tc) (jo_read (tc_journal tc) j') (rc_causes rec) stream = Ok ()"
    by (rule validate_causes_later) (use assms(2) in \<open>simp add: sees_all_def\<close>)
  with assms(1) show ?thesis by (auto simp: check_input_source_def res_simps Let_def)
qed

lemma load_input_Ok:
  assumes "load_input_source tc j source sc n = Ok v"
  obtains stream rec where "0 < n" "n \<le> MAX_BYTES" "validate_scope sc = Ok ()"
    "coordinate (tc_serde tc) sc = Ok stream" "source_fact source = source_ref stream"
    "jo_read (tc_journal tc) j stream 0 2 = Ok [rec]" "check_input_source tc j source sc n stream rec = Ok v"
  using assms
  by (auto simp: load_input_source_def journal_read_def res_simps not_less)

lemma load_inputI:
  assumes "0 < n" "n \<le> MAX_BYTES" "validate_scope sc = Ok ()"
    "coordinate (tc_serde tc) sc = Ok stream" "source_fact source = source_ref stream"
    "jo_read (tc_journal tc) j stream 0 2 = Ok rows"
  shows "load_input_source tc j source sc n = (case rows of
      [rec] \<Rightarrow> check_input_source tc j source sc n stream rec | _ \<Rightarrow> Err (InvalidInput InputMissing))"
  using assms by (simp add: load_input_source_def journal_read_def)

section \<open>Publication\<close>

text \<open>
  The assumption on the serializer: decoding an encoded value gives the value back.
\<close>

definition serde_roundtrip :: "('v, 'b, 'p) serde \<Rightarrow> bool" where
  "serde_roundtrip sd \<longleftrightarrow>
     (\<forall>e p. sd_event_to sd e = Some p \<longrightarrow> sd_event_from sd p = Some e) \<and>
     (\<forall>x p. sd_input_to sd x = Some p \<longrightarrow> sd_input_from sd p = Some x)"

definition input_record :: "string \<Rightarrow> 'p fact_draft \<Rightarrow> 'p fact_record" where
  "input_record stream draft = \<lparr>rc_stream_id = stream, rc_position = 1, rc_draft = draft\<rparr>"

text \<open>The record a publication stands for, where the arguments admit one.\<close>

definition publishes ::
  "('j, 'v, 'b, 'p) task_coordinator \<Rightarrow> 'b invocation_input_envelope \<Rightarrow> fact_ref list \<Rightarrow> string
   \<Rightarrow> 'p fact_draft \<Rightarrow> bool" where
  "publishes tc env causes stream draft \<longleftrightarrow>
     validate_scope (ie_scope env) = Ok () \<and> coordinate (tc_serde tc) (ie_scope env) = Ok stream \<and>
     (\<exists>payload. sd_input_to (tc_serde tc) env = Some payload \<and> draft = input_draft stream env causes payload) \<and>
     bound (sd_record_len (tc_serde tc) (input_record stream draft)) MAX_BYTES = Ok ()"

lemma prepare_Ok:
  "prepare_input_source tc j env causes = Ok (stream, draft, rs) \<longleftrightarrow>
     publishes tc env causes stream draft \<and>
     validate_causes (tc_serde tc) (jo_read (tc_journal tc) j) causes stream = Ok () \<and>
     jo_read (tc_journal tc) j stream 0 2 = Ok rs"
  by (auto simp: prepare_input_source_def publishes_def input_record_def journal_read_def res_simps Let_def)

definition published_source :: "'b invocation_input_envelope \<Rightarrow> string \<Rightarrow> invocation_input_source" where
  "published_source env stream = source_of_kind (ie_kind env) (source_ref stream)"

lemma published_source_simps [simp]:
  "source_fact (published_source env stream) = source_ref stream"
  "source_kind (published_source env stream) = ie_kind env"
  by (auto simp: published_source_def source_of_kind_def split: invocation_input_kind.split)

text \<open>What loading checks of a published record: only its causes and the length of the result.\<close>

lemma check_published:
  assumes "publishes tc env causes stream draft" and "serde_roundtrip (tc_serde tc)"
  shows "check_input_source tc j (published_source env stream) (ie_scope env) MAX_BYTES stream
           (input_record stream draft) =
      andthen (validate_causes (tc_serde tc) (jo_read (tc_journal tc) j) causes stream)
        (let v = \<lparr>vi_reference = source_ref stream, vi_envelope = env, vi_causes = causes\<rparr>
         in andthen (bound (sd_verified_len (tc_serde tc) v) MAX_BYTES) (Ok v))"
proof -
  from assms(1) obtain payload where p: "sd_input_to (tc_serde tc) env = Some payload"
    and d: "draft = input_draft stream env causes payload"
    and b: "bound (sd_record_len (tc_serde tc) (input_record stream draft)) MAX_BYTES = Ok ()"
    unfolding publishes_def by blast
  from p assms(2) have "sd_input_from (tc_serde tc) payload = Some env"
    by (simp add: serde_roundtrip_def)
  with p b show ?thesis
    by (simp add: check_input_source_def d input_draft_def input_record_def)
qed

lemma finish_Ok:
  "finish_input_source tc j env stream draft rs = Ok v \<longleftrightarrow>
     rs = [input_record stream draft] \<and>
     load_input_source tc j (published_source env stream) (ie_scope env) MAX_BYTES = Ok v"
  by (auto simp: finish_input_source_def input_record_def published_source_def)

lemma publish_Ok:
  assumes "publish_input_source tc j env causes = (Ok v, j1)"
  obtains stream draft where "publishes tc env causes stream draft"
    "validate_causes (tc_serde tc) (jo_read (tc_journal tc) j) causes stream = Ok ()"
    "j1 = j \<or> (\<exists>r. jo_append (tc_journal tc) j stream 0 [draft] = (r, j1))"
    "jo_read (tc_journal tc) j1 stream 0 2 = Ok [input_record stream draft]"
    "load_input_source tc j1 (published_source env stream) (ie_scope env) MAX_BYTES = Ok v"
proof -
  from assms obtain stream draft rs where prep: "prepare_input_source tc j env causes = Ok (stream, draft, rs)"
    by (auto simp: publish_input_source_def split: res.splits)
  note p = prep [unfolded prepare_Ok]
  show thesis
  proof (cases "rs = []")
    case False
    with assms prep have "finish_input_source tc j env stream draft rs = Ok v" "j1 = j"
      by (auto simp: publish_input_source_def)
    with p show thesis by (intro that) (auto simp: finish_Ok)
  next
    case True
    obtain r j2 where app: "jo_append (tc_journal tc) j stream 0 [draft] = (r, j2)" by fastforce
    from assms prep True app have j1: "j1 = j2" and r: "r \<noteq> Panic"
      and "bindr (journal_read tc j2 stream 0 2) (\<lambda>rows1. if rows1 = []
         then bindr (map_err Journal r) (\<lambda>_. Err (InvalidInput InputNoRecord))
         else finish_input_source tc j2 env stream draft rows1) = Ok v"
      by (auto simp: publish_input_source_def Let_def split: prod.splits if_splits)
    then have "jo_read (tc_journal tc) j2 stream 0 2 = Ok [input_record stream draft] \<and>
        load_input_source tc j2 (published_source env stream) (ie_scope env) MAX_BYTES = Ok v"
      by (auto simp: journal_read_def res_simps finish_Ok split: if_splits)
    with p app j1 show thesis by (intro that) auto
  qed
qed

context reliable_journal begin

lemma sees_extends:
  assumes "tc_journal tc = \<lparr>jo_read = jread, jo_append = jappend\<rparr>" and "extends j j'"
  shows "sees_all tc j j'"
  using read_one_extends [OF assms(2)] assms(1) by (simp add: sees_all_def)

text \<open>Once loaded, a source never reads differently; at most it becomes ambiguous.\<close>

lemma load_extends:
  assumes tc: "tc_journal tc = \<lparr>jo_read = jread, jo_append = jappend\<rparr>" and ext: "extends j j'"
    and load: "load_input_source tc j source sc n = Ok v"
  shows "load_input_source tc j' source sc n \<in> {Ok v, Err (InvalidInput InputMissing)} \<and>
    (length (rows j' (fr_stream_id (source_fact source))) = 1 \<longrightarrow> load_input_source tc j' source sc n = Ok v)"
proof -
  from load obtain stream rec where l: "0 < n" "n \<le> MAX_BYTES" "validate_scope sc = Ok ()"
    "coordinate (tc_serde tc) sc = Ok stream" "source_fact source = source_ref stream"
    and rd: "jread j stream 0 2 = Ok [rec]" and chk: "check_input_source tc j source sc n stream rec = Ok v"
    by (rule load_input_Ok) (simp add: tc)
  from ext have inv: "jinv j" "jinv j'" by (auto simp: extends_def)
  from read_extends [OF ext rd _ _ read_valid [OF inv(1) rd]] obtain page where
    page: "jread j' stream 0 2 = Ok page" "page \<noteq> []" "hd page = rec" "length page \<le> 2" by auto
  have chk': "check_input_source tc j' source sc n stream rec = Ok v"
    by (rule check_input_later [OF chk sees_extends [OF tc ext]])
  have eq: "load_input_source tc j' source sc n = (case page of
      [rec] \<Rightarrow> check_input_source tc j' source sc n stream rec | _ \<Rightarrow> Err (InvalidInput InputMissing))"
    by (rule load_inputI [OF l]) (simp add: tc page)
  have "length page \<le> length (rows j' stream)"
    using read_ok [OF inv(2) page(1)] by (auto intro: le_trans [OF min.cobounded1 length_filter_le])
  with page eq chk' show ?thesis
    by (cases page) (auto simp: l(5) source_ref_def split: list.splits)
qed

lemma publish_extends:
  assumes tc: "tc_journal tc = \<lparr>jo_read = jread, jo_append = jappend\<rparr>" and inv: "jinv j"
    and pub: "publish_input_source tc j env causes = (r, j1)"
  shows "extends j j1"
proof -
  have "j1 = j \<or> (\<exists>s d r. jappend j s 0 [d] = (r, j1))"
    using pub tc by (auto simp: publish_input_source_def Let_def split: res.splits prod.splits if_splits)
  then show ?thesis using extends_refl [OF inv] extends_append [OF inv] by blast
qed

lemma published:
  assumes tc: "tc_journal tc = \<lparr>jo_read = jread, jo_append = jappend\<rparr>" and inv: "jinv j"
    and sd: "serde_roundtrip (tc_serde tc)"
    and pub: "publish_input_source tc j env causes = (Ok v, j1)"
  obtains stream draft where "publishes tc env causes stream draft"
    "jread j1 stream 0 2 = Ok [input_record stream draft]" "extends j j1"
    "v = \<lparr>vi_reference = source_ref stream, vi_envelope = env, vi_causes = causes\<rparr>"
    "load_input_source tc j1 (published_source env stream) (ie_scope env) MAX_BYTES = Ok v"
    "validate_causes (tc_serde tc) (jread j1) causes stream = Ok ()"
proof -
  note ext = publish_extends [OF tc inv pub]
  from pub obtain stream draft where p: "publishes tc env causes stream draft"
    "validate_causes (tc_serde tc) (jread j) causes stream = Ok ()"
    "jread j1 stream 0 2 = Ok [input_record stream draft]"
    "load_input_source tc j1 (published_source env stream) (ie_scope env) MAX_BYTES = Ok v"
    by (rule publish_Ok) (simp add: tc)
  have vc: "validate_causes (tc_serde tc) (jread j1) causes stream = Ok ()"
    by (rule validate_causes_later [OF p(2)]) (rule read_one_extends [OF ext])
  from p(4) obtain stream' rec where c: "coordinate (tc_serde tc) (ie_scope env) = Ok stream'"
    "jread j1 stream' 0 2 = Ok [rec]"
    "check_input_source tc j1 (published_source env stream) (ie_scope env) MAX_BYTES stream' rec = Ok v"
    by (rule load_input_Ok) (simp add: tc)
  from c(1) p(1) have "stream' = stream" by (simp add: publishes_def)
  with c p(3) have "check_input_source tc j1 (published_source env stream) (ie_scope env) MAX_BYTES
      stream (input_record stream draft) = Ok v" by simp
  then have "v = \<lparr>vi_reference = source_ref stream, vi_envelope = env, vi_causes = causes\<rparr>"
    unfolding check_published [OF p(1) sd] by (auto simp: res_simps Let_def)
  with p ext vc show thesis by (intro that) auto
qed

lemma first_wins:
  assumes tc: "tc_journal tc = \<lparr>jo_read = jread, jo_append = jappend\<rparr>" and inv: "jinv j"
    and sd: "serde_roundtrip (tc_serde tc)"
    and pub: "publish_input_source tc j env causes = (Ok v, j1)" and ext: "extends j1 j2"
    and same: "sc_task_id (ie_scope env') = sc_task_id (ie_scope env)"
      "sc_invocation_id (ie_scope env') = sc_invocation_id (ie_scope env)"
    and pub': "publish_input_source tc j2 env' causes' = (r, j3)"
  shows "j3 = j2 \<and> (\<forall>w. r = Ok w \<longrightarrow> env' = env \<and> causes' = causes \<and> w = v)"
proof -
  from published [OF tc inv sd pub] obtain stream draft where p: "publishes tc env causes stream draft"
    "jread j1 stream 0 2 = Ok [input_record stream draft]"
    "v = \<lparr>vi_reference = source_ref stream, vi_envelope = env, vi_causes = causes\<rparr>" by metis
  from ext have inv1: "jinv j1" "jinv j2" by (auto simp: extends_def)
  from read_extends [OF ext p(2) _ _ read_valid [OF inv1(1) p(2)]] obtain page where
    page: "jread j2 stream 0 2 = Ok page" "page \<noteq> []" "hd page = input_record stream draft" by auto
  have coord: "coordinate (tc_serde tc) (ie_scope env') = Ok stream"
    using p(1) same by (simp add: publishes_def coordinate_def)
  show ?thesis
  proof (cases "prepare_input_source tc j2 env' causes'")
    case (Ok x)
    obtain s' d' rs where x: "x = (s', d', rs)" by (cases x)
    note prep = Ok [unfolded x prepare_Ok]
    with coord have s': "s' = stream" by (simp add: publishes_def)
    with prep page tc have rs: "rs = page" by simp
    with Ok pub' page(2) x s' have j3: "j3 = j2" and r: "r = finish_input_source tc j2 env' stream d' page"
      by (auto simp: publish_input_source_def)
    have "env' = env \<and> causes' = causes \<and> w = v" if w: "r = Ok w" for w
    proof -
      from w [unfolded r finish_Ok] have pg: "page = [input_record stream d']" by blast
      with page(3) have d: "d' = draft" by (simp add: input_record_def)
      from prep s' d have p': "publishes tc env' causes' stream draft" by simp
      from p(1) p' obtain payload where "sd_input_to (tc_serde tc) env = Some payload"
          "sd_input_to (tc_serde tc) env' = Some payload" "causes' = causes"
        by (auto simp: publishes_def input_draft_def)
      with sd have e: "env' = env" "causes' = causes" by (auto simp: serde_roundtrip_def) (metis option.inject)
      from published [OF tc inv1(2) sd, of env' causes' w j2] pub' w j3 obtain s'' where
        "coordinate (tc_serde tc) (ie_scope env') = Ok s''"
        "w = \<lparr>vi_reference = source_ref s'', vi_envelope = env', vi_causes = causes'\<rparr>"
        by (metis publishes_def)
      with coord e p(3) show ?thesis by auto
    qed
    with j3 show ?thesis by blast
  qed (use pub' in \<open>auto simp: publish_input_source_def\<close>)
qed

end

end
