(* ===== verification/Task_Replay.thy ===== *)
theory Task_Replay
  imports Task_Coordinator Task_Evidence Task_Persistence
begin

text \<open>
  Correctness of the coordinator: a stream is read completely; a replayed snapshot is a snapshot
  of the reducer; admission and replay agree; a command is idempotent and linearized by the
  journal whatever other writers do. The client lemmas are proved once for every reliable journal.
\<close>

section \<open>Reading a whole stream\<close>

lemma check_page_Ok:
  assumes "\<And>i. i < length xs \<Longrightarrow> rc_stream_id (xs ! i) = s \<and> unat (rc_position (xs ! i)) = unat p + Suc i"
    and "unat p + length xs < 2 ^ 64"
  shows "\<exists>q. check_page s p xs = Ok q \<and> unat q = unat p + length xs"
  using assms
proof (induction xs arbitrary: p)
  case (Cons x xs)
  from Cons.prems(1) [of 0] have x: "rc_stream_id x = s" "unat (rc_position x) = Suc (unat p)" by auto
  with Cons.prems(2) have "checked_add p 1 = Some (p + 1)" by (simp add: checked_add_def)
  moreover have "rc_position x = p + 1"
    using x(2) Cons.prems(2) by (intro word_unat_eq_iff [THEN iffD2]) (simp add: unat_plus_one)
  moreover have "\<exists>q. check_page s (rc_position x) xs = Ok q \<and> unat q = unat (rc_position x) + length xs"
  proof (rule Cons.IH)
    fix i
    assume "i < length xs"
    with Cons.prems(1) [of "Suc i"] x(2)
    show "rc_stream_id (xs ! i) = s \<and> unat (rc_position (xs ! i)) = unat (rc_position x) + Suc i" by simp
  qed (use x(2) Cons.prems(2) in simp)
  ultimately show ?case using x by auto
qed simp

lemma identity_read:
  assumes "identity t = Ok ()" and "1 \<le> n" "n \<le> 1024"
  shows "validate_read t n = Ok ()"
  using assms by (auto simp: identity_def validate_read_def fact_identity_def MAX_FACT_ID_BYTES_def split: if_splits)

context reliable_journal begin

lemma read_after:
  assumes inv: "jinv j" and rd: "jread j s a n = Ok page" and a: "unat a \<le> length (rows j s)" and n: "0 < n"
  shows "\<exists>m \<le> n. page = take m (drop (unat a) (rows j s)) \<and> (unat a < length (rows j s) \<longrightarrow> 0 < m)"
  using read_ok [OF inv rd] n filter_after [OF rows_ok [OF inv] a] by (auto simp: not_le)

lemma read_pages_rows:
  assumes tc: "tc_journal tc = \<lparr>jo_read = jread, jo_append = jappend\<rparr>" and inv: "jinv j"
    and t: "identity t = Ok ()"
  shows "unat a \<le> length (rows j t) \<Longrightarrow> length (rows j t) - unat a < fuel \<Longrightarrow>
    acc = take (unat a) (rows j t) \<Longrightarrow> read_pages fuel tc j t a acc = Ok (rows j t)"
proof (induction fuel arbitrary: a acc)
  case (Suc fuel)
  let ?rs = "rows j t"
  note wf = rows_ok [OF inv, of t, unfolded rows_wf_def]
  have len: "length ?rs < 2 ^ 64 - 1" using wf by (simp add: I64_MAX_def)
  have total: "\<exists>page. jread j t b n = Ok page" if "n = PAGE_SIZE \<or> n = 1" for b n
    using identity_read [OF t, of n] that read_total [OF inv, of t b n] by (auto simp: PAGE_SIZE_def is_ok_iff)
  from total obtain page where page: "jread j t a PAGE_SIZE = Ok page" by blast
  from read_after [OF inv page Suc.prems(1)] obtain m where m: "m \<le> PAGE_SIZE"
    "page = take m (drop (unat a) ?rs)" "unat a < length ?rs \<longrightarrow> 0 < m" by (auto simp: PAGE_SIZE_def)
  have "\<exists>q. check_page t a page = Ok q \<and> unat q = unat a + length page"
  proof (rule check_page_Ok)
    fix i
    assume i: "i < length page"
    then have "unat a + i < length ?rs" "page ! i = ?rs ! (unat a + i)"
      using Suc.prems(1) by (auto simp: m(2))
    then show "rc_stream_id (page ! i) = t \<and> unat (rc_position (page ! i)) = unat a + Suc i"
      using wf by simp
  qed (use m(2) len Suc.prems(1) in simp)
  then obtain q where q: "check_page t a page = Ok q" "unat q = unat a + length page" by blast
  have qlen: "unat q \<le> length ?rs" using q(2) m(2) Suc.prems(1) by simp
  have acc: "acc @ page = take (unat q) ?rs"
    using Suc.prems(1,3) by (simp add: q(2) m(2) take_add min_def)
  from total obtain tail where tail: "jread j t q 1 = Ok tail" by blast
  from read_after [OF inv tail qlen] obtain m' where m': "m' \<le> 1" "tail = take m' (drop (unat q) ?rs)"
    "unat q < length ?rs \<longrightarrow> 0 < m'" by auto
  have lp: "\<not> length page > PAGE_SIZE" using m by simp
  show ?case
  proof (cases "unat q < length ?rs")
    case False
    then have "tail = []" using m'(2) by simp
    with page q tail lp acc False qlen show ?thesis by (simp add: tc journal_read_def)
  next
    case True
    with m' have "m' = 1" by simp
    with m'(2) True have tl: "tail = [?rs ! unat q]" by (simp add: take_Suc_conv_app_nth hd_drop_conv_nth take_Suc)
    have "rc_stream_id (?rs ! unat q) = t" "unat (rc_position (?rs ! unat q)) = Suc (unat q)"
      using wf True by auto
    moreover have "unat (q + 1) = Suc (unat q)" using True len by (intro unat_plus_one) simp
    ultimately have pos: "rc_stream_id (?rs ! unat q) = t" "rc_position (?rs ! unat q) = q + 1"
      by (simp_all add: word_unat_eq_iff)
    have "unat a < unat q" using True q(2) m qlen Suc.prems(1) by (cases "m = 0") auto
    then have "read_pages fuel tc j t q (acc @ page) = Ok ?rs"
      using Suc.prems(2) qlen acc by (intro Suc.IH) auto
    with page q tail lp tl pos show ?thesis by (simp add: tc journal_read_def)
  qed
qed simp

lemma stream_records_rows:
  assumes "tc_journal tc = \<lparr>jo_read = jread, jo_append = jappend\<rparr>" and "jinv j" and "identity t = Ok ()"
  shows "stream_records tc j t = Ok (rows j t)"
proof -
  have "length (rows j t) < JOURNAL_FUEL"
    using rows_ok [OF assms(2), of t] by (simp add: rows_wf_def I64_MAX_def JOURNAL_FUEL_def)
  with read_pages_rows [OF assms, of 0 JOURNAL_FUEL "[]"] assms(3) show ?thesis
    by (simp add: stream_records_def)
qed

end

section \<open>Replay is a run of the reducer\<close>

definition task_fact :: "'p fact_record \<Rightarrow> bool" where
  "task_fact r \<longleftrightarrow> fd_kind (rc_draft r) \<in> set known_kinds \<and> fd_schema_version (rc_draft r) = VERSION"

text \<open>The task facts of a stream with the events they hold.\<close>

definition is_history ::
  "('v, 'b, 'p) serde \<Rightarrow> 'p fact_record list \<Rightarrow> ('v, 'p) task_history \<Rightarrow> bool" where
  "is_history sd rs h \<longleftrightarrow> map snd h = filter task_fact rs \<and>
     (\<forall>(e, r) \<in> set h. sd_event_from sd (fd_payload (rc_draft r)) = Some e \<and> fd_critical (rc_draft r))"

lemma apply_event_position:
  assumes "apply_event c s e r = Ok st"
  shows "sn_position st = rc_position r"
  using assms
proof (cases rule: apply_event_cases)
  case (register d)
  then show ?thesis by (auto simp: register_def res_simps)
next
  case (step st0 st1)
  then show ?thesis by (auto elim!: refresh_Ok)
qed

lemma admit_event_Ok:
  "admit_event tc j t s e r = Ok st \<longleftrightarrow>
     verify_event (tc_codec tc) (tc_goal_verifier tc) s e r = Ok () \<and>
     apply_event (tc_codec tc) s e r = Ok st \<and> verify_input_event tc j t e r (Some st) = Ok ()"
  by (auto simp: admit_event_def res_simps)

lemma replay_record_Ok:
  assumes "replay_record tc j t s prev r = Ok s'"
  obtains (skip) "\<not> task_fact r" "\<not> fd_critical (rc_draft r)" "s' = s"
  | (known) e st where "task_fact r" "fd_critical (rc_draft r)"
      "sd_event_from (tc_serde tc) (fd_payload (rc_draft r)) = Some e"
      "envelope t e = (fd_kind (rc_draft r), fd_subject (rc_draft r))"
      "\<forall>c. prev = Some c \<longrightarrow> c \<in> set (rc_causes r)"
      "\<not> foreign_registration t e" "admit_event tc j t s e r = Ok st" "s' = Some st"
proof (cases "task_fact r")
  case False
  with assms show ?thesis
    by (intro skip) (auto simp: replay_record_def task_fact_def split: if_splits)
next
  case True
  with assms obtain st where st: "replay_known tc j t s prev r = Ok st" "s' = Some st"
    by (auto simp: replay_record_def task_fact_def res_simps)
  from st(1) obtain e where "fd_critical (rc_draft r)"
      "sd_event_from (tc_serde tc) (fd_payload (rc_draft r)) = Some e"
      "envelope t e = (fd_kind (rc_draft r), fd_subject (rc_draft r))"
      "\<forall>c. prev = Some c \<longrightarrow> c \<in> set (rc_causes r)"
      "\<not> foreign_registration t e" "admit_event tc j t s e r = Ok st"
    by (auto simp: replay_known_def res_simps prod_eq_iff split: option.splits)
  with True st(2) show ?thesis by (intro known)
qed

definition moved :: "u64 \<Rightarrow> 'v task_snapshot option \<Rightarrow> 'v task_snapshot option" where
  "moved p = map_option (\<lambda>st. st\<lparr>sn_position := p\<rparr>)"

lemma replay_from_Cons:
  "replay_from tc j t s prev (r # rs) = bindr (replay_record tc j t s prev r) (\<lambda>s'.
     replay_from tc j t (moved (rc_position r) s') (Some (reference r)) rs)"
  by (simp add: moved_def)

definition last_ref :: "fact_ref option \<Rightarrow> 'p fact_record list \<Rightarrow> fact_ref option" where
  "last_ref prev rs = (if rs = [] then prev else Some (reference (last rs)))"

lemma replay_from_append:
  "replay_from tc j t s prev (xs @ ys) =
     bindr (replay_from tc j t s prev xs) (\<lambda>s'. replay_from tc j t s' (last_ref prev xs) ys)"
proof (induction xs arbitrary: s prev)
  case (Cons x xs)
  show ?case
    by (cases "replay_record tc j t s prev x")
       (simp_all add: replay_from_Cons Cons.IH last_ref_def del: replay_from.simps(2))
qed (simp add: last_ref_def)

text \<open>The invariant of replay: what was built so far is reachable, for this task, with the position of the last record.\<close>

definition replayed ::
  "('j, 'v, 'b, 'p) task_coordinator \<Rightarrow> string \<Rightarrow> 'p fact_record list \<Rightarrow> 'v task_snapshot option \<Rightarrow> bool" where
  "replayed tc t rs s \<longleftrightarrow>
     (\<forall>st. s = Some st \<longrightarrow> (\<exists>h. reachable (tc_codec tc) h st \<and> is_history (tc_serde tc) rs h) \<and>
       td_task_id (sn_definition st) = t \<and> rs \<noteq> [] \<and> sn_position st = rc_position (last rs)) \<and>
     (s = None \<longrightarrow> filter task_fact rs = [])"

lemma admit_event_task:
  assumes "\<forall>st0. s = Some st0 \<longrightarrow> snapshot_wf (tc_codec tc) st0 \<and> td_task_id (sn_definition st0) = t"
    and "\<not> foreign_registration t e" and "admit_event tc j t s e r = Ok st"
  shows "td_task_id (sn_definition st) = t"
proof (cases s)
  case None
  with assms(3) have "apply_event (tc_codec tc) None e r = Ok st" by (simp add: admit_event_Ok)
  then show ?thesis
    by (cases rule: apply_event_cases)
       (use assms(2) in \<open>auto simp: register_def res_simps foreign_registration_def\<close>)
next
  case (Some st0)
  with assms show ?thesis using apply_keeps(3) [of "tc_codec tc" st0 e r st] by (simp add: admit_event_Ok)
qed

lemma replayed_step:
  assumes pre: "replayed tc t rs s" and ok: "replay_record tc j t s prev r = Ok s'"
  shows "replayed tc t (rs @ [r]) (moved (rc_position r) s')"
  using ok
proof (cases rule: replay_record_Ok)
  case skip
  then have "is_history (tc_serde tc) (rs @ [r]) h = is_history (tc_serde tc) rs h" for h
    by (simp add: is_history_def)
  with pre skip show ?thesis by (auto simp: replayed_def moved_def) (metis skipped)+
next
  case (known e st)
  note app = known(7) [unfolded admit_event_Ok]
  have "\<exists>h. reachable (tc_codec tc) h st \<and> is_history (tc_serde tc) (rs @ [r]) h"
  proof (cases s)
    case None
    with pre have "is_history (tc_serde tc) (rs @ [r]) [(e, r)]"
      using known by (simp add: replayed_def is_history_def)
    moreover have "reachable (tc_codec tc) [(e, r)] st" using app None by (intro registered) simp
    ultimately show ?thesis by blast
  next
    case (Some st0)
    with pre obtain h where h: "reachable (tc_codec tc) h st0" "is_history (tc_serde tc) rs h"
      by (auto simp: replayed_def)
    with known have "is_history (tc_serde tc) (rs @ [r]) (h @ [(e, r)])"
      by (auto simp: is_history_def)
    moreover have "reachable (tc_codec tc) (h @ [(e, r)]) st" using app Some h by (intro applied) auto
    ultimately show ?thesis by blast
  qed
  moreover have "td_task_id (sn_definition st) = t"
    by (rule admit_event_task [OF _ known(6,7)]) (use pre reachable_wf in \<open>auto simp: replayed_def\<close>)
  ultimately show ?thesis using known(8) by (auto simp: replayed_def moved_def intro: skipped)
qed

lemma replay_from_replayed:
  assumes "replay_from tc j t s prev rs = Ok s'" and "replayed tc t before s"
  shows "replayed tc t (before @ rs) s'"
  using assms
proof (induction rs arbitrary: s prev "before")
  case (Cons r rs)
  from Cons.prems(1) obtain s1 where s1: "replay_record tc j t s prev r = Ok s1"
    "replay_from tc j t (moved (rc_position r) s1) (Some (reference r)) rs = Ok s'"
    unfolding replay_from_Cons res_simps by blast
  from Cons.IH [OF s1(2) replayed_step [OF Cons.prems(2) s1(1)]] show ?case by simp
qed simp

lemma replay_replayed: "replay tc j t rs = Ok s \<Longrightarrow> replayed tc t rs s"
  using replay_from_replayed [of tc j t None None rs s "[]"] by (simp add: replay_def replayed_def)

section \<open>Replay after an append\<close>

definition loads_all :: "('j, 'v, 'b, 'p) task_coordinator \<Rightarrow> 'j \<Rightarrow> 'j \<Rightarrow> bool" where
  "loads_all tc j j' \<longleftrightarrow> (\<forall>source sc v. load_input_source tc j source sc MAX_BYTES = Ok v \<longrightarrow>
     load_input_source tc j' source sc MAX_BYTES = Ok v)"

lemma verify_input_later:
  assumes "verify_input_event tc j t e r s = Ok ()" and "loads_all tc j j'"
  shows "verify_input_event tc j' t e r s = Ok ()"
proof (cases "event_source e")
  case None
  then show ?thesis by (simp add: verify_input_event_def)
next
  case (Some source)
  with assms(1) obtain i a d v st inv where v: "event_binding e = Some (i, a, d)"
    "source_fact source \<in> set (rc_causes r)" "s = Some st" "bt_get (sn_invocations st) i = Some inv"
    "load_input_source tc j source \<lparr>sc_task_id = t, sc_invocation_id = i, sc_agent = a,
       sc_constraints_digest = d\<rparr> MAX_BYTES = Ok v"
    "(if id_input_source (is_definition inv) \<noteq> source then Err (InvalidInput SourceDiffers)
        else if id_role (is_definition inv) = Continuation
        then check_predecessor st (is_definition inv) (vi_causes v)
        else Ok ()) = Ok ()"
    unfolding verify_input_event_def by (auto simp: res_simps split: prod.splits if_splits)
  from v(5) assms(2) have "load_input_source tc j' source \<lparr>sc_task_id = t, sc_invocation_id = i,
      sc_agent = a, sc_constraints_digest = d\<rparr> MAX_BYTES = Ok v"
    unfolding loads_all_def by blast
  with Some v show ?thesis by (simp add: verify_input_event_def)
qed

lemma admit_event_later:
  assumes "admit_event tc j t s e r = Ok st" and "loads_all tc j j'"
  shows "admit_event tc j' t s e r = Ok st"
  using assms verify_input_later [OF _ assms(2)] by (simp add: admit_event_Ok)

lemma replay_record_later:
  assumes ok: "replay_record tc j t s prev r = Ok s'" and later: "loads_all tc j j'"
  shows "replay_record tc j' t s prev r = Ok s'"
  using ok
proof (cases rule: replay_record_Ok)
  case skip
  then show ?thesis by (auto simp: replay_record_def task_fact_def)
next
  case (known e st)
  with admit_event_later [OF known(7) later] show ?thesis
    by (auto simp: replay_record_def replay_known_def task_fact_def split: option.split)
qed

lemma replay_from_later:
  assumes "replay_from tc j t s prev rs = Ok s'" and "loads_all tc j j'"
  shows "replay_from tc j' t s prev rs = Ok s'"
  using assms
proof (induction rs arbitrary: s prev)
  case (Cons r rs)
  from Cons.prems(1) obtain s1 where s1: "replay_record tc j t s prev r = Ok s1"
    "replay_from tc j t (moved (rc_position r) s1) (Some (reference r)) rs = Ok s'"
    unfolding replay_from_Cons res_simps by blast
  from replay_record_later [OF s1(1) Cons.prems(2)] Cons.IH [OF s1(2) Cons.prems(2)]
  show ?case by (simp add: replay_from_Cons del: replay_from.simps)
qed simp

text \<open>A stream that replays as a task is not the stream of an input source.\<close>

lemma input_kind_unknown: "INPUT_KIND \<notin> set known_kinds"
  by (simp add: INPUT_KIND_def known_kinds_def)

lemma replay_head_known:
  assumes "replay tc j t (r # rs) = Ok s" and "fd_kind (rc_draft r) = INPUT_KIND"
  shows "\<not> fd_critical (rc_draft r)"
  using assms input_kind_unknown
  by (auto simp: replay_def replay_record_def res_simps split: if_splits)

context reliable_journal begin

lemma source_elsewhere:
  assumes tc: "tc_journal tc = \<lparr>jo_read = jread, jo_append = jappend\<rparr>" and inv: "jinv j"
    and rep: "replay tc j t (rows j t) = Ok s" and load: "load_input_source tc j source sc n = Ok v"
  shows "fr_stream_id (source_fact source) \<noteq> t"
proof
  assume t: "fr_stream_id (source_fact source) = t"
  from load obtain stream rec where l: "source_fact source = source_ref stream"
    "jread j stream 0 2 = Ok [rec]" "check_input_source tc j source sc n stream rec = Ok v"
    by (rule load_input_Ok) (simp add: tc)
  from l(1) t have st: "stream = t" by (simp add: source_ref_def)
  from read_after [OF inv l(2)] obtain m where "[rec] = take m (rows j t)" by (auto simp: st)
  then obtain rest where "rows j t = rec # rest" by (cases "rows j t"; cases m) auto
  moreover from l(3) have "fd_kind (rc_draft rec) = INPUT_KIND" "fd_critical (rc_draft rec)"
    by (auto simp: check_input_source_def res_simps)
  ultimately show False using replay_head_known rep by metis
qed

lemma load_append:
  assumes tc: "tc_journal tc = \<lparr>jo_read = jread, jo_append = jappend\<rparr>" and inv: "jinv j"
    and app: "jappend j t e b = (r, j')"
    and load: "load_input_source tc j source sc n = Ok v" and other: "fr_stream_id (source_fact source) \<noteq> t"
  shows "load_input_source tc j' source sc n = Ok v"
proof -
  from load obtain stream rec where l: "0 < n" "n \<le> MAX_BYTES" "validate_scope sc = Ok ()"
    "coordinate (tc_serde tc) sc = Ok stream" "source_fact source = source_ref stream"
    "jread j stream 0 2 = Ok [rec]" "check_input_source tc j source sc n stream rec = Ok v"
    by (rule load_input_Ok) (simp add: tc)
  note inv' = append_inv [OF inv app]
  have "stream \<noteq> t" using other l(5) by (simp add: source_ref_def)
  then have "jread j' stream 0 2 = Ok [rec]"
    using read_rows [OF inv inv' append_other [OF inv app]] l(6) by simp
  moreover have "check_input_source tc j' source sc n stream rec = Ok v"
    by (rule check_input_later [OF l(7) sees_extends [OF tc extends_append [OF inv app]]])
  ultimately show ?thesis
    using load_inputI [OF l(1-5), where j = j' and rows = "[rec]"] tc by simp
qed

lemma loads_append:
  assumes tc: "tc_journal tc = \<lparr>jo_read = jread, jo_append = jappend\<rparr>" and inv: "jinv j"
    and rep: "replay tc j t (rows j t) = Ok s" and app: "jappend j t e b = (r, j')"
  shows "loads_all tc j j'"
  unfolding loads_all_def
  using load_append [OF tc inv app] source_elsewhere [OF tc inv rep] by blast

end

section \<open>Plans\<close>

lemma envelope_known: "fst (envelope t e) \<in> set known_kinds"
  by (cases e) (simp_all add: known_kinds_def)

lemma push_causes_keep: "set first \<subseteq> set (fold push_cause cs first)"
proof (induction cs arbitrary: first)
  case (Cons c cs)
  have "set first \<subseteq> set (push_cause c first)" by (auto simp: push_cause_def)
  with Cons [of "push_cause c first"] show ?case by simp
qed simp

lemma command_causes_last:
  assumes "command_causes tc rs s e = Ok causes" and "rs \<noteq> []"
  shows "reference (last rs) \<in> set causes"
  using assms
  by (auto simp: command_causes_def res_simps Let_def intro!: subsetD [OF push_causes_keep])

definition planned_draft ::
  "string \<Rightarrow> string \<Rightarrow> 'v task_event \<Rightarrow> 'p \<Rightarrow> fact_ref list \<Rightarrow> 'p fact_draft" where
  "planned_draft t f e payload causes = \<lparr>fd_fact_id = f, fd_subject = snd (envelope t e),
     fd_kind = fst (envelope t e), fd_schema_version = VERSION, fd_critical = True,
     fd_causes = causes, fd_payload = payload\<rparr>"

lemma plan_new_Ok:
  assumes "plan_append_command tc j t f e rs s payload = Ok plan"
  obtains causes expected position draft st where
    "command_causes tc rs s e = Ok causes" "expected = (if rs = [] then 0 else rc_position (last rs))"
    "checked_add expected 1 = Some position" "draft = planned_draft t f e payload causes"
    "admit_event tc j t s e \<lparr>rc_stream_id = t, rc_position = position, rc_draft = draft\<rparr> = Ok st"
    "plan = Append expected draft \<lparr>rc_stream_id = t, rc_position = position, rc_draft = draft\<rparr> st"
  using assms unfolding plan_append_command_def planned_draft_def res_simps Let_def by blast

lemma plan_identity:
  assumes "plan_command tc j t f e = Ok plan"
  shows "identity t = Ok ()"
proof -
  from assms obtain rs where "stream_records tc j t = Ok rs"
    unfolding plan_command_def res_simps by blast
  then show ?thesis unfolding stream_records_def res_simps by blast
qed

text \<open>The two outcomes of planning a command.\<close>

lemma plan_command_cases:
  assumes "plan_command tc j t f e = Ok plan"
  obtains (replayed) rs r st payload where "identity f = Ok ()" "stream_records tc j t = Ok rs"
      "replay tc j t rs = Ok (Some st)" "check_event (tc_codec tc) e = Ok ()"
      "sd_event_to (tc_serde tc) e = Some payload" "find (\<lambda>r. rc_fact_id r = f) rs = Some r"
      "same_command r (envelope t e) payload" "plan = Replayed st"
  | (append) rs s payload causes expected position draft st where
      "identity f = Ok ()" "stream_records tc j t = Ok rs"
      "replay tc j t rs = Ok s" "check_event (tc_codec tc) e = Ok ()"
      "sd_event_to (tc_serde tc) e = Some payload" "f \<notin> rc_fact_id ` set rs"
      "command_causes tc rs s e = Ok causes" "expected = (if rs = [] then 0 else rc_position (last rs))"
      "checked_add expected 1 = Some position" "draft = planned_draft t f e payload causes"
      "admit_event tc j t s e \<lparr>rc_stream_id = t, rc_position = position, rc_draft = draft\<rparr> = Ok st"
      "plan = Append expected draft \<lparr>rc_stream_id = t, rc_position = position, rc_draft = draft\<rparr> st"
proof -
  from assms obtain rs s payload where p: "identity f = Ok ()" "stream_records tc j t = Ok rs"
    "replay tc j t rs = Ok s" "check_event (tc_codec tc) e = Ok ()"
    "sd_event_to (tc_serde tc) e = Some payload"
    and rest: "(case find (\<lambda>r. rc_fact_id r = f) rs of
        Some existing \<Rightarrow>
          if \<not> same_command existing (envelope t e) payload
          then Err (InvalidJournal FactReused)
          else bindr (ok_or s (NotFound t)) (\<lambda>st. Ok (Replayed st))
      | None \<Rightarrow> plan_append_command tc j t f e rs s payload) = Ok plan"
    unfolding plan_command_def res_simps by blast
  show thesis
  proof (cases "find (\<lambda>r. rc_fact_id r = f) rs")
    case None
    then have "f \<notin> rc_fact_id ` set rs" by (auto simp: find_None_iff)
    moreover from None rest have "plan_append_command tc j t f e rs s payload = Ok plan" by simp
    ultimately show thesis by (elim plan_new_Ok) (rule append [OF p])
  next
    case (Some r)
    with rest obtain st where "same_command r (envelope t e) payload" "s = Some st" "plan = Replayed st"
      by (auto simp: res_simps split: if_splits)
    with p Some show thesis by (intro replayed) auto
  qed
qed

text \<open>Replaying the stream with the planned record gives the planned snapshot.\<close>

lemma last_ref_rows: "last_ref None rs = (if rs = [] then None else Some (reference (last rs)))"
  by (simp add: last_ref_def)

lemma replay_planned:
  assumes sd: "serde_roundtrip (tc_serde tc)" and own: "\<not> foreign_registration t e"
    and rep: "replay tc j t rs = Ok s" and pay: "sd_event_to (tc_serde tc) e = Some payload"
    and causes: "command_causes tc rs s e = Ok causes" and draft: "draft = planned_draft t f e payload causes"
    and adm: "admit_event tc j t s e \<lparr>rc_stream_id = t, rc_position = position, rc_draft = draft\<rparr> = Ok st"
  shows "replay tc j t (rs @ [\<lparr>rc_stream_id = t, rc_position = position, rc_draft = draft\<rparr>]) = Ok (Some st)"
proof -
  let ?r = "\<lparr>rc_stream_id = t, rc_position = position, rc_draft = draft\<rparr>"
  from sd pay have dec: "sd_event_from (tc_serde tc) payload = Some e" by (simp add: serde_roundtrip_def)
  have "replay_known tc j t s (last_ref None rs) ?r = Ok st"
    using command_causes_last [OF causes] dec own adm
    by (simp add: replay_known_def draft planned_draft_def last_ref_rows)
  then have "replay_record tc j t s (last_ref None rs) ?r = Ok (Some st)"
    using envelope_known by (simp add: replay_record_def draft planned_draft_def)
  moreover have "sn_position st = position" using apply_event_position adm by (fastforce simp: admit_event_Ok)
  ultimately show ?thesis using rep by (simp add: replay_def replay_from_append)
qed

context reliable_journal begin

lemma appended_one:
  assumes inv: "jinv j" and app: "jappend j t e [d] = (Ok rs, j')"
  obtains r where "rs = [r]" "rc_draft r = d"
    "r = \<lparr>rc_stream_id = t, rc_position = e + 1, rc_draft = d\<rparr> \<and> unat e = length (rows j t) \<and> rows j' t = rows j t @ [r] \<or>
     j' = j \<and> unat e < length (rows j t) \<and> r = rows j t ! unat e"
proof -
  note ok = append_ok [OF inv app]
  then obtain r where r: "rs = [r]" "rc_draft r = d" by auto
  from ok have "rs = number_from t e [d] \<and> unat e = length (rows j t) \<and> rows j' t = rows j t @ rs \<or>
      j' = j \<and> rs = take 1 (drop (unat e) (rows j t))"
    unfolding r(1) by (metis One_nat_def length_Cons list.size(3))
  then show thesis
  proof
    assume new: "rs = number_from t e [d] \<and> unat e = length (rows j t) \<and> rows j' t = rows j t @ rs"
    then show thesis using r by (intro that [of r]) auto
  next
    assume old: "j' = j \<and> rs = take 1 (drop (unat e) (rows j t))"
    then have "unat e < length (rows j t)" using r(1) by (cases "unat e < length (rows j t)") auto
    moreover from this old r have "r = rows j t ! unat e" by (simp add: take_Suc hd_drop_conv_nth)
    ultimately show thesis using old r by (intro that [of r]) auto
  qed
qed

lemma expected_length:
  assumes "jinv j"
  shows "unat (if rows j t = [] then 0 else rc_position (last (rows j t))) = length (rows j t)"
  using rows_ok [OF assms, of t] by (auto simp: rows_wf_def last_conv_nth)

text \<open>
  A planned append that commits, on whatever the other writers made of the journal meanwhile,
  stands directly behind the rows it was planned from.
\<close>

lemma commit_append:
  assumes tc: "tc_journal tc = \<lparr>jo_read = jread, jo_append = jappend\<rparr>" and inv: "jinv j"
    and t: "identity t = Ok ()" and ext: "extends j j2"
    and plan: "plan_command tc j t f e = Ok (Append expected draft cand st)"
    and com: "commit_command tc j2 t (Append expected draft cand st) = (r, j3)"
  shows "case r of
      Ok st' \<Rightarrow> st' = st \<and> (\<exists>more. rows j3 t = rows j t @ [cand] @ more \<and>
        (rows j2 t = rows j t \<and> more = [] \<or> j3 = j2))
    | _ \<Rightarrow> j3 = j2"
proof -
  from plan obtain s where rows: "stream_records tc j t = Ok (rows j t)" and rep: "replay tc j t (rows j t) = Ok s"
    and exp: "expected = (if rows j t = [] then 0 else rc_position (last (rows j t)))"
      "checked_add expected 1 = Some (rc_position cand)" "rc_stream_id cand = t" "rc_draft cand = draft"
    by (cases rule: plan_command_cases) (auto simp: stream_records_rows [OF tc inv t])
  from exp(2) have pos: "rc_position cand = expected + 1" by (simp add: checked_add_def split: if_splits)
  then have cand: "cand = \<lparr>rc_stream_id = t, rc_position = expected + 1, rc_draft = draft\<rparr>"
    using exp by (cases cand) simp
  from ext have inv2: "jinv j2" by (simp add: extends_def)
  from ext obtain new where new: "rows j2 t = rows j t @ new" unfolding extends_def by blast
  have len: "unat expected = length (rows j t)" unfolding exp(1) by (rule expected_length [OF inv])
  obtain app where app: "jappend j2 t expected [draft] = (app, j3)"
    and r: "r = bindr (map_err Journal app) (\<lambda>c. if c \<noteq> [cand] then Err (InvalidJournal CommittedDifferent) else Ok st)"
    using com by (auto simp: commit_command_def tc Let_def split: prod.splits)
  show ?thesis
  proof (cases app)
    case (Ok rs)
    from appended_one [OF inv2 app [unfolded Ok]] obtain x where x: "rs = [x]" "rc_draft x = draft"
      "x = \<lparr>rc_stream_id = t, rc_position = expected + 1, rc_draft = draft\<rparr> \<and> unat expected = length (rows j2 t) \<and>
          rows j3 t = rows j2 t @ [x] \<or> j3 = j2 \<and> unat expected < length (rows j2 t) \<and> x = rows j2 t ! unat expected" by blast
    from x(3) show ?thesis
    proof
      assume a: "x = \<lparr>rc_stream_id = t, rc_position = expected + 1, rc_draft = draft\<rparr> \<and>
          unat expected = length (rows j2 t) \<and> rows j3 t = rows j2 t @ [x]"
      with len new have "new = []" by simp
      with a new x(1) cand show ?thesis by (simp add: r Ok)
    next
      assume a: "j3 = j2 \<and> unat expected < length (rows j2 t) \<and> x = rows j2 t ! unat expected"
      with len new have "rows j2 t = rows j t @ x # tl new" by (cases new) auto
      with a x(1) show ?thesis by (simp add: r Ok)
    qed
  next
    case (Err err)
    with append_err [OF inv2 app] show ?thesis by (simp add: r)
  next
    case Panic
    with append_err [OF inv2 app] show ?thesis by (simp add: r)
  qed
qed

lemma find_append_Some: "find P xs = Some x \<Longrightarrow> find P (xs @ ys) = Some x"
  by (induction xs) (auto split: if_splits)

lemma find_append_None: "find P xs = None \<Longrightarrow> find P (xs @ ys) = find P ys"
  by (induction xs) (auto split: if_splits)

text \<open>A command that returns a snapshot has made the journal replay to it.\<close>

lemma command_committed:
  assumes tc: "tc_journal tc = \<lparr>jo_read = jread, jo_append = jappend\<rparr>" and inv: "jinv j"
    and sd: "serde_roundtrip (tc_serde tc)" and own: "\<not> foreign_registration t e"
    and cmd: "command tc j t f e = (Ok st, j1)"
  obtains r payload where "identity f = Ok ()" "identity t = Ok ()" "extends j j1"
    "task_snapshot_of tc j1 t = Ok st" "check_event (tc_codec tc) e = Ok ()"
    "sd_event_to (tc_serde tc) e = Some payload"
    "find (\<lambda>r. rc_fact_id r = f) (rows j1 t) = Some r" "same_command r (envelope t e) payload"
    "j1 = j \<or> f \<notin> rc_fact_id ` set (rows j t) \<and> rows j1 t = rows j t @ [r]"
proof -
  from cmd obtain plan where plan: "plan_command tc j t f e = Ok plan"
    and com: "commit_command tc j t plan = (Ok st, j1)"
    by (auto simp: command_def split: res.splits)
  have t: "identity t = Ok ()"
    by (rule plan_identity [OF plan])
  note records = stream_records_rows [OF tc inv t]
  from plan show thesis
  proof (cases rule: plan_command_cases)
    case (replayed rs r st' payload)
    with com records have "j1 = j" "rs = rows j t" "st' = st" by (auto simp: commit_command_def)
    note eq = this
    have "task_snapshot_of tc j1 t = Ok st"
      using replayed(2,3) by (simp add: task_snapshot_of_def eq)
    moreover have "find (\<lambda>r. rc_fact_id r = f) (rows j1 t) = Some r" using replayed(6) by (simp add: eq)
    moreover have "extends j j1" using extends_refl [OF inv] by (simp add: eq)
    ultimately show thesis by (intro that [OF replayed(1) t _ _ replayed(4,5) _ replayed(7)]) (simp_all add: eq(1))
  next
    case (append rs s payload causes expected position draft st')
    let ?r = "\<lparr>rc_stream_id = t, rc_position = position, rc_draft = draft\<rparr>"
    from append(2) records have rs: "rs = rows j t" by simp
    have st: "st' = st" and j1: "rows j1 t = rows j t @ [?r]"
      using commit_append [OF tc inv t extends_refl [OF inv], of f e expected draft ?r st' "Ok st" j1]
        plan com by (auto simp: append(12))
    from com append(12) obtain app where app: "jappend j t expected [draft] = (app, j1)"
      by (auto simp: commit_command_def tc Let_def split: prod.splits)
    note ext = extends_append [OF inv app]
    then have inv1: "jinv j1" by (simp add: extends_def)
    have "replay tc j t (rows j t @ [?r]) = Ok (Some st)"
      using replay_planned [OF sd own append(3,5,7,10,11)] by (simp add: rs st)
    then have "replay tc j1 t (rows j1 t) = Ok (Some st)"
      unfolding replay_def j1 by (rule replay_from_later) (rule loads_append [OF tc inv append(3) [unfolded rs] app])
    then have snap: "task_snapshot_of tc j1 t = Ok st"
      by (simp add: task_snapshot_of_def stream_records_rows [OF tc inv1 t])
    have found: "find (\<lambda>r. rc_fact_id r = f) (rows j1 t) = Some ?r"
    proof -
      have "find (\<lambda>r. rc_fact_id r = f) (rows j t) = None"
        using append(6) by (auto simp: rs find_None_iff)
      from find_append_None [OF this] show ?thesis using append(10) by (simp add: j1 planned_draft_def)
    qed
    have "same_command ?r (envelope t e) payload"
      using append(10) by (simp add: same_command_def planned_draft_def)
    then show thesis
      by (rule that [OF append(1) t ext snap append(4,5) found])
         (use append(6) in \<open>simp add: rs j1\<close>)
  qed
qed

lemma command_failed:
  assumes tc: "tc_journal tc = \<lparr>jo_read = jread, jo_append = jappend\<rparr>" and inv: "jinv j"
    and cmd: "command tc j t f e = (r, j1)" and bad: "\<not> is_ok r"
  shows "j1 = j"
proof (cases "plan_command tc j t f e")
  case (Ok plan)
  with cmd have com: "commit_command tc j t plan = (r, j1)" by (simp add: command_def)
  have t: "identity t = Ok ()"
    by (rule plan_identity [OF Ok])
  show ?thesis
  proof (cases plan)
    case (Replayed st)
    with com show ?thesis by (simp add: commit_command_def)
  next
    case (Append expected draft cand st)
    from commit_append [OF tc inv t extends_refl [OF inv] Ok [unfolded Append] com [unfolded Append]] bad
    show ?thesis by (cases r) auto
  qed
qed (use cmd in \<open>auto simp: command_def\<close>)

text \<open>Once committed, the command only reads.\<close>

lemma command_again:
  assumes tc: "tc_journal tc = \<lparr>jo_read = jread, jo_append = jappend\<rparr>" and inv: "jinv j"
    and sd: "serde_roundtrip (tc_serde tc)" and own: "\<not> foreign_registration t e"
    and cmd: "command tc j t f e = (Ok st, j1)" and ext: "extends j1 j2"
  shows "command tc j2 t f e = (task_snapshot_of tc j2 t, j2)"
proof -
  from command_committed [OF tc inv sd own cmd] obtain r payload where
    c: "identity f = Ok ()" "identity t = Ok ()" "check_event (tc_codec tc) e = Ok ()"
    "sd_event_to (tc_serde tc) e = Some payload"
    "find (\<lambda>r. rc_fact_id r = f) (rows j1 t) = Some r" "same_command r (envelope t e) payload" by metis
  from ext obtain new where new: "rows j2 t = rows j1 t @ new" and inv2: "jinv j2"
    unfolding extends_def by blast
  note records = stream_records_rows [OF tc inv2 c(2)]
  have find: "find (\<lambda>r. rc_fact_id r = f) (rows j2 t) = Some r"
    unfolding new by (rule find_append_Some [OF c(5)])
  show ?thesis
  proof (cases "replay tc j2 t (rows j2 t)")
    case (Ok s)
    then show ?thesis
      using c find by (cases s) (auto simp: command_def plan_command_def task_snapshot_of_def records commit_command_def)
  qed (use c in \<open>auto simp: command_def plan_command_def task_snapshot_of_def records\<close>)
qed

end

end
