(* ===== verification/Task_Service_Sample.thy ===== *)
theory Task_Service_Sample
  imports Task_Replay Task_Sample
begin

text \<open>
  A run of the coordinator on the in-memory journal, evaluated in the kernel: two facts, an input
  source that cites the second, a registered task and its admitted root. The witnesses of the
  properties of \<open>Task_Service\<close> rest on it.
\<close>

section \<open>The in-memory journal as the coordinator's adapter\<close>

lemma mem_tc:
  assumes "tc_journal tc = mem_ops plen"
  shows "tc_journal tc = \<lparr>jo_read = mem_read, jo_append = mem_append plen\<rparr>"
  using assms by (simp add: mem_ops_def)

lemma from_empty: "journal_steps plen empty_journal j \<Longrightarrow> journal_inv j"
  by (rule journal_steps_inv [OF _ journal_inv_empty])

lemma steps_extends: "journal_steps plen j j' \<Longrightarrow> journal_inv j \<Longrightarrow> mem.extends j j'"
proof (induction rule: journal_steps.induct)
  case (steps_refl st)
  then show ?case by (rule mem.extends_refl)
next
  case (steps_append st st' s e b r st'')
  then show ?case by (meson journal_steps_inv mem.extends_append mem.extends_trans)
qed

lemma steps_trans: "journal_steps plen j' j'' \<Longrightarrow> journal_steps plen j j' \<Longrightarrow> journal_steps plen j j''"
  by (induction rule: journal_steps.induct) (auto intro: journal_steps.intros)

section \<open>The sample coordinator\<close>

datatype svc_payload = PEvent "unit task_event" | PInput "unit invocation_input_envelope" | PText

definition svc_serde :: "(unit, unit, svc_payload) serde" where
  "svc_serde = \<lparr>sd_event_to = (\<lambda>e. Some (PEvent e)),
     sd_event_from = (\<lambda>p. case p of PEvent e \<Rightarrow> Some e | _ \<Rightarrow> None),
     sd_input_to = (\<lambda>x. Some (PInput x)),
     sd_input_from = (\<lambda>p. case p of PInput x \<Rightarrow> Some x | _ \<Rightarrow> None),
     sd_record_len = (\<lambda>_. Some 10), sd_verified_len = (\<lambda>_. Some 10),
     sd_strings_sha = (\<lambda>_. Some ''a'')\<rparr>"

definition svc_plen :: "svc_payload \<Rightarrow> nat option" where "svc_plen p = Some 2"

definition svc_tc :: "(svc_payload memory_state, unit, unit, svc_payload) task_coordinator" where
  "svc_tc = \<lparr>tc_journal = mem_ops svc_plen, tc_goal_verifier = None, tc_codec = sample_codec,
     tc_serde = svc_serde\<rparr>"

lemma svc_tc_simps [simp]:
  "tc_journal svc_tc = mem_ops svc_plen" "tc_serde svc_tc = svc_serde" "tc_codec svc_tc = sample_codec"
  "tc_goal_verifier svc_tc = None"
  by (simp_all add: svc_tc_def)

lemma mem_ops_simps [simp]: "jo_read (mem_ops plen) = mem_read" "jo_append (mem_ops plen) = mem_append plen"
  by (simp_all add: mem_ops_def)

lemma svc_serde_simps [simp]:
  "sd_event_to svc_serde e = Some (PEvent e)" "sd_event_from svc_serde (PEvent e) = Some e"
  "sd_input_to svc_serde x = Some (PInput x)" "sd_input_from svc_serde (PInput x) = Some x"
  "sd_record_len svc_serde = (\<lambda>_. Some 10)" "sd_verified_len svc_serde = (\<lambda>_. Some 10)"
  "sd_strings_sha svc_serde xs = Some ''a''"
  by (simp_all add: svc_serde_def)

lemma svc_roundtrip [simp]: "serde_roundtrip svc_serde"
  by (simp add: serde_roundtrip_def)

section \<open>Two facts\<close>

definition svc_ref :: "string \<Rightarrow> u64 \<Rightarrow> string \<Rightarrow> fact_ref" where
  "svc_ref s n f = \<lparr>fr_stream_id = s, fr_position = n, fr_fact_id = f\<rparr>"

definition svc_draft :: "string \<Rightarrow> fact_ref list \<Rightarrow> svc_payload fact_draft" where
  "svc_draft f causes = \<lparr>fd_fact_id = f, fd_subject = \<lparr>fs_kind = ''a.b'', fs_id = ''x''\<rparr>, fd_kind = ''a.b'',
     fd_schema_version = 1, fd_critical = True, fd_causes = causes, fd_payload = PText\<rparr>"

definition svc_batch :: "svc_payload fact_draft list" where
  "svc_batch = [svc_draft ''f'' [], svc_draft ''g'' [svc_ref ''s'' 1 ''f'']]"

definition svc1 :: "svc_payload memory_state" where
  "svc1 = mem_commit empty_journal ''s'' 0 (number_from ''s'' 0 svc_batch)"

lemma svc_append1: "mem_append svc_plen empty_journal ''s'' 0 svc_batch = (Ok (number_from ''s'' 0 svc_batch), svc1)"
proof -
  have "validate_batch svc_plen ''s'' 0 svc_batch = Ok ()"
    by (simp add: validate_batch_def svc_batch_def svc_draft_def svc_ref_def svc_plen_def checked_add_def
        len64_def I64_MAX_def MAX_FACT_BATCH_def MAX_FACT_CAUSES_def MAX_FACT_PAYLOAD_BYTES_def)
  moreover have "plan_append ''s'' 0 0 svc_batch (\<lambda>id. Ok None) = Ok (number_from ''s'' 0 svc_batch)"
    by (simp add: plan_append_def svc_batch_def svc_draft_def svc_ref_def ref_matches_def)
  ultimately show ?thesis
    by (simp add: mem_append_def head_position_def empty_journal_def stream_rows_def svc1_def)
qed

lemma svc_steps1: "journal_steps svc_plen empty_journal svc1"
  by (rule steps_append [OF steps_refl svc_append1])

lemma empty_rows [simp]: "stream_rows empty_journal s = []"
  by (simp add: stream_rows_def empty_journal_def)

lemma svc_rows1: "stream_rows svc1 s = (if s = ''s'' then number_from ''s'' 0 svc_batch else [])"
  by (simp add: svc1_def stream_rows_commit)

lemma svc_read [simp]: "validate_read ''s'' (Suc 0) = Ok ()"
  by (simp add: validate_read_def)

section \<open>A published source\<close>

definition svc_stream :: string where "svc_stream = ''task.invocation-input-source.a''"

definition svc_scope :: invocation_input_scope where
  "svc_scope = \<lparr>sc_task_id = ''t'', sc_invocation_id = ''r'', sc_agent = sample_agent,
     sc_constraints_digest = sample_sha\<rparr>"

definition svc_envelope :: "unit invocation_input_envelope" where
  "svc_envelope = \<lparr>ie_kind = KStandalone, ie_scope = svc_scope, ie_body = ()\<rparr>"

definition svc_causes :: "fact_ref list" where "svc_causes = [svc_ref ''s'' 2 ''g'']"

definition svc_input :: "svc_payload fact_draft" where
  "svc_input = input_draft svc_stream svc_envelope svc_causes (PInput svc_envelope)"

definition svc_verified :: "unit verified_input_source" where
  "svc_verified = \<lparr>vi_reference = source_ref svc_stream, vi_envelope = svc_envelope, vi_causes = svc_causes\<rparr>"

lemma svc_causes_ok:
  "validate_causes svc_serde (mem_read svc1) svc_causes svc_stream = Ok ()"
  by (simp add: validate_causes_def svc_causes_def svc_stream_def svc_ref_def cause_record_def mem_read_def
      svc_rows1 svc_batch_def svc_draft_def key_of_def count_bytes_def check_references_def
      MAX_CAUSAL_RECORDS_def MAX_BYTES_def fcard.rep_eq word_le_nat_alt)

lemma svc_coordinate: "coordinate svc_serde scope = Ok svc_stream"
  by (simp add: coordinate_def svc_stream_def)

lemma svc_scope_ok: "validate_scope svc_scope = Ok ()"
  by (simp add: validate_scope_def svc_scope_def sample_agent_def sample_sha_def lower_hex_digit_def)

lemma svc_stream_ok: "fact_identity svc_stream = Ok ()"
  by (simp add: fact_identity_def svc_stream_def blank_def ws3_def MAX_FACT_ID_BYTES_def)

definition svc2 :: "svc_payload memory_state" where
  "svc2 = mem_commit svc1 svc_stream 0 (number_from svc_stream 0 [svc_input])"

lemma svc_kinds [simp]:
  "fact_kind INPUT_KIND = Ok ()" "fact_kind INPUT_SUBJECT_KIND = Ok ()"
  "fact_kind ''task.registered'' = Ok ()" "fact_kind ''task.task'' = Ok ()"
  "fact_kind ''task.invocation_admitted'' = Ok ()" "fact_kind ''task.invocation'' = Ok ()"
  by (simp_all add: INPUT_KIND_def INPUT_SUBJECT_KIND_def fact_kind_def fact_identity_def blank_def alnum_def
      ws3_def MAX_FACT_ID_BYTES_def)

lemma svc_letters [simp]: "fact_identity ''r'' = Ok ()" "fact_identity ''a1'' = Ok ()" "fact_identity ''a2'' = Ok ()"
  "identity ''a1'' = Ok ()" "identity ''a2'' = Ok ()" "identity ''t'' = Ok ()"
  by (simp_all add: fact_identity_def identity_def blank_def MAX_FACT_ID_BYTES_def)

lemma svc_ids1: "ms_identities svc1 x =
   (if x = ''f'' then Some \<lparr>rc_stream_id = ''s'', rc_position = 1, rc_draft = svc_draft ''f'' []\<rparr>
    else if x = ''g'' then Some \<lparr>rc_stream_id = ''s'', rc_position = 2,
       rc_draft = svc_draft ''g'' [svc_ref ''s'' 1 ''f'']\<rparr> else None)"
  by (simp add: svc1_def mem_commit_def empty_journal_def svc_batch_def svc_draft_def)

lemma svc_batches1: "ms_batches svc1 k = (if k = (''s'', 0) then Some (number_from ''s'' 0 svc_batch) else None)"
  by (simp add: svc1_def mem_commit_def empty_journal_def)

lemma svc_append2:
  "mem_append svc_plen svc1 svc_stream 0 [svc_input] = (Ok (number_from svc_stream 0 [svc_input]), svc2)"
proof -
  have "validate_batch svc_plen svc_stream 0 [svc_input] = Ok ()"
    by (simp add: validate_batch_def svc_input_def input_draft_def input_subject_def svc_envelope_def svc_scope_def
        svc_causes_def svc_ref_def svc_plen_def svc_stream_ok checked_add_def len64_def I64_MAX_def
        MAX_FACT_BATCH_def MAX_FACT_CAUSES_def MAX_FACT_PAYLOAD_BYTES_def)
  moreover have "plan_append svc_stream 0 0 [svc_input] (\<lambda>id. Ok (ms_identities svc1 id)) =
      Ok (number_from svc_stream 0 [svc_input])"
    by (simp add: plan_append_def svc_input_def input_draft_def svc_ids1 svc_causes_def svc_ref_def svc_stream_def
        svc_draft_def ref_matches_def)
  moreover have "stream_rows svc1 svc_stream = []" "ms_batches svc1 (svc_stream, 0) = None"
    by (simp_all add: svc_rows1 svc_batches1 svc_stream_def)
  ultimately show ?thesis by (simp add: mem_append_def head_position_def svc2_def)
qed

lemma svc_steps2: "journal_steps svc_plen svc1 svc2"
  by (rule steps_append [OF steps_refl svc_append2])

lemma svc_rows2: "stream_rows svc2 s = (if s = svc_stream then [input_record svc_stream svc_input]
    else stream_rows svc1 s)"
  by (auto simp: svc2_def stream_rows_commit input_record_def svc_rows1 svc_stream_def)

lemma svc_read2 [simp]: "validate_read svc_stream 2 = Ok ()" "validate_read svc_stream (Suc 0) = Ok ()"
  by (simp_all add: validate_read_def svc_stream_ok)

lemma svc_publishes: "publishes svc_tc svc_envelope svc_causes svc_stream svc_input"
  by (simp add: publishes_def svc_input_def svc_coordinate svc_scope_ok bound_def MAX_BYTES_def svc_envelope_def)

lemma svc_load2:
  "load_input_source svc_tc svc2 (published_source svc_envelope svc_stream) svc_scope MAX_BYTES = Ok svc_verified"
proof -
  have "mem.extends svc1 svc2" by (rule steps_extends [OF svc_steps2 from_empty [OF svc_steps1]])
  then have "validate_causes svc_serde (mem_read svc2) svc_causes svc_stream = Ok ()"
    by (intro validate_causes_later [OF svc_causes_ok]) (rule mem.read_one_extends)
  then have "check_input_source svc_tc svc2 (published_source svc_envelope svc_stream) (ie_scope svc_envelope)
      MAX_BYTES svc_stream (input_record svc_stream svc_input) = Ok svc_verified"
    by (subst check_published [OF svc_publishes]) (simp_all add: bound_def MAX_BYTES_def svc_verified_def)
  moreover have "mem_read svc2 svc_stream 0 2 = Ok [input_record svc_stream svc_input]"
    by (simp add: mem_read_def svc_rows2) (simp add: input_record_def)
  moreover have "0 < MAX_BYTES" "ie_scope svc_envelope = svc_scope"
    by (simp_all add: MAX_BYTES_def svc_envelope_def)
  ultimately show ?thesis
    by (subst load_inputI [where stream = svc_stream and rows = "[input_record svc_stream svc_input]"])
       (simp_all add: svc_scope_ok svc_coordinate)
qed

lemma svc_publish: "publish_input_source svc_tc svc1 svc_envelope svc_causes = (Ok svc_verified, svc2)"
proof -
  have "prepare_input_source svc_tc svc1 svc_envelope svc_causes = Ok (svc_stream, svc_input, [])"
    by (simp add: prepare_Ok svc_publishes svc_causes_ok mem_read_def svc_rows1) (simp add: svc_stream_def)
  moreover have "mem_read svc2 svc_stream 0 2 = Ok [input_record svc_stream svc_input]"
    by (simp add: mem_read_def svc_rows2) (simp add: input_record_def)
  moreover have "finish_input_source svc_tc svc2 svc_envelope svc_stream svc_input
      [input_record svc_stream svc_input] = Ok svc_verified"
    using svc_load2 by (simp add: finish_Ok svc_envelope_def)
  ultimately show ?thesis by (simp add: publish_input_source_def journal_read_def svc_append2)
qed

section \<open>A registered task with an admitted root\<close>

definition svc_command :: "string \<Rightarrow> unit task_event \<Rightarrow> fact_ref list \<Rightarrow> svc_payload fact_draft" where
  "svc_command f e causes = planned_draft ''t'' f e (PEvent e) causes"

definition svc_register :: "svc_payload fact_record" where
  "svc_register = \<lparr>rc_stream_id = ''t'', rc_position = 1, rc_draft = svc_command ''a1'' (ERegistered sample_task) []\<rparr>"

definition svc3 :: "svc_payload memory_state" where
  "svc3 = mem_commit svc2 ''t'' 0 [svc_register]"

lemma svc_ids2: "ms_identities svc2 x =
   (if x = svc_stream then Some (input_record svc_stream svc_input) else ms_identities svc1 x)"
  by (simp add: svc2_def mem_commit_def input_record_def svc_input_def input_draft_def)

lemma svc_batches2: "ms_batches svc2 k = (if k = (svc_stream, 0)
    then Some [input_record svc_stream svc_input] else ms_batches svc1 k)"
  by (simp add: svc2_def mem_commit_def input_record_def)

lemma svc_rows_t: "stream_rows svc1 ''t'' = []" "stream_rows svc2 ''t'' = []"
  by (simp_all add: svc_rows1 svc_rows2 svc_stream_def)

lemma svc_append3:
  "mem_append svc_plen svc2 ''t'' 0 [rc_draft svc_register] = (Ok [svc_register], svc3)"
proof -
  have "validate_batch svc_plen ''t'' 0 [rc_draft svc_register] = Ok ()"
    by (simp add: validate_batch_def svc_register_def svc_command_def planned_draft_def subject_def VERSION_def
        svc_plen_def checked_add_def len64_def I64_MAX_def MAX_FACT_BATCH_def MAX_FACT_CAUSES_def
        MAX_FACT_PAYLOAD_BYTES_def)
  moreover have "plan_append ''t'' 0 0 [rc_draft svc_register] (\<lambda>id. Ok (ms_identities svc2 id)) = Ok [svc_register]"
    by (simp add: plan_append_def svc_register_def svc_command_def planned_draft_def svc_ids1 svc_ids2 svc_stream_def)
  moreover have "ms_batches svc2 (''t'', 0) = None"
    by (simp add: svc_batches1 svc_batches2 svc_stream_def)
  ultimately show ?thesis by (simp add: mem_append_def head_position_def svc3_def svc_rows_t)
qed

lemma svc_steps3: "journal_steps svc_plen empty_journal svc2"
  by (rule steps_trans [OF svc_steps2 svc_steps1])

lemma svc_plan3: "plan_command svc_tc svc2 ''t'' ''a1'' (ERegistered sample_task) =
    Ok (Append 0 (rc_draft svc_register) svc_register sample1)"
proof -
  have "stream_records svc_tc svc2 ''t'' = Ok []"
    using mem.stream_records_rows [OF mem_tc [of svc_tc svc_plen] from_empty [OF svc_steps3], of "''t''"]
    by (simp add: svc_rows_t)
  moreover have "apply_event sample_codec None (ERegistered sample_task) svc_register = Ok sample1"
    using sample_step1 by (simp add: apply_event_def register_def sample_record_def svc_register_def)
  ultimately show ?thesis
    by (simp add: plan_command_def replay_def check_event_def plan_append_command_def command_causes_def
        budget_causes_def admit_event_def verify_event_def verify_input_event_def consumed_fact_def
        svc_register_def svc_command_def planned_draft_def Let_def) (simp add: sample_task_def)
qed

lemma svc_commit3: "commit_command svc_tc svc2 ''t'' (Append 0 (rc_draft svc_register) svc_register sample1) =
    (Ok sample1, svc3)"
  by (simp add: commit_command_def svc_append3)

lemma svc_command3: "command svc_tc svc2 ''t'' ''a1'' (ERegistered sample_task) = (Ok sample1, svc3)"
  by (simp add: command_def svc_plan3 svc_commit3)

lemma svc_own3: "\<not> foreign_registration ''t'' (ERegistered sample_task)"
  by (simp add: foreign_registration_def sample_task_def)

lemma svc_steps4: "journal_steps svc_plen empty_journal svc3"
  by (rule steps_append [OF svc_steps3 svc_append3])

lemma svc_snapshot: "task_snapshot_of svc_tc svc3 ''t'' = Ok sample1"
proof -
  have "apply_event sample_codec None (ERegistered sample_task) svc_register = Ok sample1"
    using sample_step1 by (simp add: apply_event_def register_def sample_record_def svc_register_def)
  moreover have "stream_records svc_tc svc3 ''t'' = Ok [svc_register]"
    using mem.stream_records_rows [OF mem_tc [of svc_tc svc_plen] from_empty [OF svc_steps4], of "''t''"]
    by (simp add: svc3_def stream_rows_commit svc_rows_t)
  ultimately show ?thesis
    by (simp add: task_snapshot_of_def replay_def replay_record_def replay_known_def admit_event_def
        verify_event_def verify_input_event_def svc_register_def svc_command_def planned_draft_def known_kinds_def
        foreign_registration_def)
       (simp add: sample_task_def sample1_def sample_snapshot_def)
qed

end
