(* ===== verification/Task_Service.thy ===== *)
theory Task_Service
  imports Task_Service_Sample
begin

text \<open>
  The properties of input evidence and of the coordinator over the in-memory journal, from the
  empty journal on and with any appends of other writers in between. They rest on the client
  lemmas of the journal interface, through its interpretation \<open>mem\<close>.
\<close>

section \<open>Input evidence\<close>

text \<open>
  C34: When the causes of an input source are accepted, everything they lead to is verified: each
  reference of the causal closure resolves to exactly one critical record with that stream,
  position and identity, outside the source's own stream; the closure has at most 1,024 records
  and citation has no cycle.
\<close>

theorem causes_verified:
  assumes "validate_causes sd rd causes stream = Ok ()"
  shows "(\<forall>r \<in> causal_closure rd causes. fr_stream_id r \<noteq> stream \<and>
      (\<exists>rec. rd (fr_stream_id r) (fr_position r - 1) 1 = Ok [rec] \<and> ref_matches r rec \<and>
         fd_critical (rc_draft rec) \<and> distinct (rc_causes rec) \<and> length (rc_causes rec) \<le> 32)) \<and>
    finite (causal_closure rd causes) \<and> card (causal_closure rd causes) \<le> 1024 \<and>
    acyclic (citations rd (causal_closure rd causes))"
proof -
  note ok = validate_causes_closure [OF assms]
  have "\<exists>rec. rd (fr_stream_id r) (fr_position r - 1) 1 = Ok [rec] \<and> ref_matches r rec \<and>
         fd_critical (rc_draft rec) \<and> distinct (rc_causes rec) \<and> length (rc_causes rec) \<le> 32"
    if "resolved rd stream r" for r
    using that by (auto simp: resolved_def cause_record_def check_references_def ref_matches_def res_simps split: if_splits)
  with ok show ?thesis by (auto simp: verified_set_def resolved_def MAX_CAUSAL_RECORDS_def)
qed

theorem causes_verified_witness:
  "acyclic (citations (mem_read svc1) (causal_closure (mem_read svc1) svc_causes)) \<and>
   svc_ref ''s'' 1 ''f'' \<in> causal_closure (mem_read svc1) svc_causes"
proof -
  have "svc_ref ''s'' 1 ''f'' \<in> cited (mem_read svc1) (svc_ref ''s'' 2 ''g'')"
    by (simp add: cited_def cause_record_def mem_read_def svc_rows1 svc_batch_def svc_draft_def svc_ref_def)
  then have "svc_ref ''s'' 1 ''f'' \<in> causal_closure (mem_read svc1) svc_causes"
    by (intro causal_closure.indirect [OF causal_closure.direct]) (auto simp: svc_causes_def)
  with causes_verified [OF svc_causes_ok] show ?thesis by blast
qed

text \<open>
  A published input source is immutable. Its verified form holds exactly the published envelope
  and causes; whatever is appended later, loading it gives that same value, or fails because a
  second fact made its stream ambiguous, and as long as none did, loading and publishing again
  both return it and change nothing.
\<close>

theorem published_source_immutable:
  assumes tc: "tc_journal tc = mem_ops plen" and sd: "serde_roundtrip (tc_serde tc)"
    and j: "journal_steps plen empty_journal j"
    and pub: "publish_input_source tc j env causes = (Ok v, j1)" and later: "journal_steps plen j1 j2"
  shows "vi_envelope v = env \<and> vi_causes v = causes \<and>
    load_input_source tc j2 (source_of_kind (ie_kind env) (vi_reference v)) (ie_scope env) MAX_BYTES
      \<in> {Ok v, Err (InvalidInput InputMissing)} \<and>
    (length (stream_rows j2 (fr_stream_id (vi_reference v))) = 1 \<longrightarrow>
      load_input_source tc j2 (source_of_kind (ie_kind env) (vi_reference v)) (ie_scope env) MAX_BYTES = Ok v \<and>
      publish_input_source tc j2 env causes = (Ok v, j2))"
proof -
  note m = mem_tc [OF tc]
  note inv = from_empty [OF j]
  obtain stream draft where p: "publishes tc env causes stream draft"
    "mem_read j1 stream 0 2 = Ok [input_record stream draft]" "mem.extends j j1"
    and v: "v = \<lparr>vi_reference = source_ref stream, vi_envelope = env, vi_causes = causes\<rparr>"
    and load: "load_input_source tc j1 (published_source env stream) (ie_scope env) MAX_BYTES = Ok v"
    and vc: "validate_causes (tc_serde tc) (mem_read j1) causes stream = Ok ()"
    by (rule mem.published [OF m inv sd pub])
  have inv1: "journal_inv j1" using p(3) by (simp add: mem.extends_def)
  note ext = steps_extends [OF later inv1]
  have ref: "source_of_kind (ie_kind env) (vi_reference v) = published_source env stream"
    "fr_stream_id (vi_reference v) = stream" by (simp_all add: v published_source_def source_ref_def)
  have str: "fr_stream_id (source_fact (published_source env stream)) = stream"
    by (simp add: source_ref_def)
  note later_load = mem.load_extends [OF m ext load, unfolded str]
  have "publish_input_source tc j2 env causes = (Ok v, j2)" if one: "length (stream_rows j2 stream) = 1"
  proof -
    from ext have inv2: "journal_inv j2" by (simp add: mem.extends_def)
    have valid: "validate_read stream 2 = Ok ()" by (rule mem.read_valid [OF inv1 p(2)])
    from mem.read_extends [OF ext p(2) _ _ valid] obtain page where page: "mem_read j2 stream 0 2 = Ok page"
      "page \<noteq> []" "hd page = input_record stream draft" by auto
    from page(1) have "length page \<le> length (stream_rows j2 stream)"
      by (auto simp: mem_read_def res_simps intro: le_trans [OF min.cobounded1 length_filter_le])
    with one page have pg: "page = [input_record stream draft]" by (cases page) auto
    have "validate_causes (tc_serde tc) (mem_read j2) causes stream = Ok ()"
      by (rule validate_causes_later [OF vc]) (rule mem.read_one_extends [OF ext])
    with p(1) page(1) pg have "prepare_input_source tc j2 env causes = Ok (stream, draft, [input_record stream draft])"
      by (simp add: prepare_Ok m)
    moreover have "finish_input_source tc j2 env stream draft [input_record stream draft] = Ok v"
      using later_load one by (simp add: finish_Ok)
    ultimately show ?thesis by (simp add: publish_input_source_def)
  qed
  with later_load show ?thesis unfolding ref by (simp add: v)
qed

theorem published_source_immutable_witness:
  "load_input_source svc_tc svc2 (Standalone (source_ref svc_stream)) svc_scope MAX_BYTES
     \<in> {Ok svc_verified, Err (InvalidInput InputMissing)} \<and>
   publish_input_source svc_tc svc2 svc_envelope svc_causes = (Ok svc_verified, svc2)"
proof -
  have "length (stream_rows svc2 (fr_stream_id (vi_reference svc_verified))) = 1"
    by (simp add: svc_verified_def source_ref_def svc_rows2)
  with published_source_immutable [OF _ _ svc_steps1 svc_publish steps_refl] show ?thesis
    by (simp add: svc_verified_def svc_envelope_def source_of_kind_def)
qed

text \<open>
  The first publication wins: once a source was published for a task and an invocation, any
  later publication for the two, whatever else it says, leaves the journal unchanged, and is
  accepted only if it repeats the same envelope and causes, with the same result.
\<close>

theorem first_publication_wins:
  assumes "tc_journal tc = mem_ops plen" and "serde_roundtrip (tc_serde tc)"
    and "journal_steps plen empty_journal j"
    and "publish_input_source tc j env causes = (Ok v, j1)" and "journal_steps plen j1 j2"
    and "sc_task_id (ie_scope env') = sc_task_id (ie_scope env)"
    and "sc_invocation_id (ie_scope env') = sc_invocation_id (ie_scope env)"
    and "publish_input_source tc j2 env' causes' = (r, j3)"
  shows "j3 = j2 \<and> (\<forall>w. r = Ok w \<longrightarrow> env' = env \<and> causes' = causes \<and> w = v)"
proof -
  note m = mem_tc [OF assms(1)]
  note inv = from_empty [OF assms(3)]
  from mem.publish_extends [OF m inv assms(4)] have "journal_inv j1" by (simp add: mem.extends_def)
  from mem.first_wins [OF m inv assms(2,4) steps_extends [OF assms(5) this] assms(6,7,8)] show ?thesis .
qed

theorem first_publication_wins_witness:
  "\<forall>w. fst (publish_input_source svc_tc svc2 (svc_envelope\<lparr>ie_kind := KDerived\<rparr>) svc_causes) \<noteq> Ok w"
  using first_publication_wins [OF _ _ svc_steps1 svc_publish steps_refl,
      of "svc_envelope\<lparr>ie_kind := KDerived\<rparr>" svc_causes]
  by (cases "publish_input_source svc_tc svc2 (svc_envelope\<lparr>ie_kind := KDerived\<rparr>) svc_causes")
     (auto simp: svc_envelope_def)

section \<open>The coordinator\<close>

text \<open>
  Reading a task's stream page by page ends and returns the whole stream, in order: no page
  boundary loses or repeats a record.
\<close>

theorem stream_read_completely:
  assumes "tc_journal tc = mem_ops plen" and "journal_steps plen empty_journal j" and "identity t = Ok ()"
  shows "stream_records tc j t = Ok (stream_rows j t)"
  by (rule mem.stream_records_rows [OF mem_tc [OF assms(1)] from_empty [OF assms(2)] assms(3)])

theorem stream_read_completely_witness: "stream_records svc_tc svc3 ''t'' = Ok [svc_register]"
  using stream_read_completely [of svc_tc svc_plen svc3 "''t''"] svc_steps4
  by (simp add: svc3_def stream_rows_commit svc_rows_t)

text \<open>
  C32: A snapshot the coordinator returns is a snapshot of the reducer, whoever wrote the stream: it
  is reached by the events of exactly the task facts of the stream, in order, for this task, and
  its position is that of the last record. So every invariant of the reducer holds of it.
\<close>

theorem snapshot_is_reducer_run:
  assumes "tc_journal tc = mem_ops plen" and "journal_steps plen empty_journal j"
    and "task_snapshot_of tc j t = Ok st"
  shows "\<exists>h. reachable (tc_codec tc) h st \<and> is_history (tc_serde tc) (stream_rows j t) h \<and>
    td_task_id (sn_definition st) = t \<and> sn_position st = rc_position (last (stream_rows j t))"
proof -
  from assms(3) obtain rs where rs: "stream_records tc j t = Ok rs" "replay tc j t rs = Ok (Some st)"
    by (auto simp: task_snapshot_of_def res_simps)
  from rs(1) have "identity t = Ok ()" by (auto simp: stream_records_def res_simps)
  with assms rs have "rs = stream_rows j t" using mem.stream_records_rows [OF mem_tc [OF assms(1)] from_empty [OF assms(2)]] by simp
  with replay_replayed [OF rs(2)] show ?thesis by (auto simp: replayed_def)
qed

theorem snapshot_is_reducer_run_witness:
  "\<exists>h. reachable sample_codec h sample1 \<and> is_history svc_serde [svc_register] h"
proof -
  have "stream_rows svc3 ''t'' = [svc_register]" by (simp add: svc3_def stream_rows_commit svc_rows_t)
  with snapshot_is_reducer_run [OF _ svc_steps4 svc_snapshot] show ?thesis by auto
qed

text \<open>
  C30: Admission and replay agree: when a command returns a snapshot, replaying the journal it left
  gives exactly that snapshot; it wrote nothing, or one record with the command's identity and
  event behind the stream. A command that fails leaves the journal as it was.
\<close>

theorem command_agrees_with_replay:
  assumes tc: "tc_journal tc = mem_ops plen" and sd: "serde_roundtrip (tc_serde tc)"
    and j: "journal_steps plen empty_journal j" and own: "\<not> foreign_registration t e"
    and cmd: "command tc j t f e = (r, j1)"
  shows "case r of
      Ok st \<Rightarrow> task_snapshot_of tc j1 t = Ok st \<and>
        (j1 = j \<or> (\<exists>rec. stream_rows j1 t = stream_rows j t @ [rec] \<and> rc_fact_id rec = f \<and>
           sd_event_from (tc_serde tc) (fd_payload (rc_draft rec)) = Some e))
    | _ \<Rightarrow> j1 = j"
proof (cases "is_ok r")
  case False
  with mem.command_failed [OF mem_tc [OF tc] from_empty [OF j] cmd] show ?thesis by (cases r) auto
next
  case True
  then obtain st where r: "r = Ok st" by (auto simp: is_ok_iff)
  obtain rec payload where c: "task_snapshot_of tc j1 t = Ok st" "sd_event_to (tc_serde tc) e = Some payload"
    "find (\<lambda>r. rc_fact_id r = f) (stream_rows j1 t) = Some rec" "same_command rec (envelope t e) payload"
    "j1 = j \<or> f \<notin> rc_fact_id ` set (stream_rows j t) \<and> stream_rows j1 t = stream_rows j t @ [rec]"
    by (rule mem.command_committed [OF mem_tc [OF tc] from_empty [OF j] sd own cmd [unfolded r]])
  from c(3) have "rc_fact_id rec = f" by (auto simp: find_Some_iff)
  moreover from c(2,4) sd have "sd_event_from (tc_serde tc) (fd_payload (rc_draft rec)) = Some e"
    by (auto simp: same_command_def serde_roundtrip_def)
  ultimately show ?thesis using c(1,5) r by auto
qed

theorem command_agrees_with_replay_witness:
  "task_snapshot_of svc_tc svc3 ''t'' = Ok sample1 \<and>
   (svc3 = svc2 \<or> (\<exists>rec. stream_rows svc3 ''t'' = stream_rows svc2 ''t'' @ [rec] \<and> rc_fact_id rec = ''a1''))"
  using command_agrees_with_replay [OF _ _ svc_steps3 svc_own3 svc_command3] by auto

text \<open>
  C31: Commands are linearized by the journal. Between the reads a command was planned from and its
  append, other writers may append anything anywhere. If it still succeeds, its record stands
  directly behind the records it was planned from, and the snapshot returned is the replay of the
  stream up to and including it; otherwise nothing is written.
\<close>

theorem command_linearized:
  assumes tc: "tc_journal tc = mem_ops plen" and sd: "serde_roundtrip (tc_serde tc)"
    and j: "journal_steps plen empty_journal j" and own: "\<not> foreign_registration t e"
    and plan: "plan_command tc j t f e = Ok (Append expected draft cand st)"
    and others: "journal_steps plen j j2"
    and commit: "commit_command tc j2 t (Append expected draft cand st) = (r, j3)"
  shows "case r of
      Ok st' \<Rightarrow> st' = st \<and> replay tc j t (stream_rows j t @ [cand]) = Ok (Some st) \<and>
        (\<exists>more. stream_rows j3 t = stream_rows j t @ [cand] @ more)
    | _ \<Rightarrow> j3 = j2"
proof -
  note m = mem_tc [OF tc]
  note inv = from_empty [OF j]
  note t = plan_identity [OF plan]
  from mem.commit_append [OF m inv t steps_extends [OF others inv] plan commit]
  have com: "case r of Ok st' \<Rightarrow> st' = st \<and> (\<exists>more. stream_rows j3 t = stream_rows j t @ [cand] @ more)
      | _ \<Rightarrow> j3 = j2" by (auto split: res.splits)
  from plan have "replay tc j t (stream_rows j t @ [cand]) = Ok (Some st)"
  proof (cases rule: plan_command_cases)
    case (append rs s payload causes expected' position draft' st')
    from append(2) have rs: "rs = stream_rows j t" using mem.stream_records_rows [OF m inv t] by simp
    from append(12) have eq: "cand = \<lparr>rc_stream_id = t, rc_position = position, rc_draft = draft'\<rparr>" "st' = st"
      by auto
    from replay_planned [OF sd own append(3,5,7,10,11)] show ?thesis by (simp add: rs eq)
  qed simp
  with com show ?thesis by (auto split: res.splits)
qed

theorem command_linearized_witness:
  "replay svc_tc svc2 ''t'' (stream_rows svc2 ''t'' @ [svc_register]) = Ok (Some sample1) \<and>
   (\<exists>more. stream_rows svc3 ''t'' = [svc_register] @ more)"
  using command_linearized [OF _ _ svc_steps3 svc_own3 svc_plan3 steps_refl svc_commit3]
  by (simp add: svc_rows_t)

text \<open>
  C33: Commands are idempotent: after a command has succeeded, and whatever was appended since,
  giving the same command under the same identity again writes nothing and returns the task's
  current snapshot, or the error that reading it gives.
\<close>

theorem command_idempotent:
  assumes "tc_journal tc = mem_ops plen" and "serde_roundtrip (tc_serde tc)"
    and "journal_steps plen empty_journal j" and "\<not> foreign_registration t e"
    and "command tc j t f e = (Ok st, j1)" and "journal_steps plen j1 j2"
  shows "command tc j2 t f e = (task_snapshot_of tc j2 t, j2)"
proof -
  note m = mem_tc [OF assms(1)]
  note inv = from_empty [OF assms(3)]
  obtain rec payload where "mem.extends j j1"
    by (rule mem.command_committed [OF m inv assms(2,4,5)])
  then have "journal_inv j1" by (simp add: mem.extends_def)
  from mem.command_again [OF m inv assms(2,4,5) steps_extends [OF assms(6) this]] show ?thesis .
qed

theorem command_idempotent_witness:
  "command svc_tc svc3 ''t'' ''a1'' (ERegistered sample_task) = (Ok sample1, svc3)"
  using command_idempotent [OF _ _ svc_steps3 svc_own3 svc_command3 steps_refl]
  by (simp add: svc_snapshot)

end
