(* ===== verification/Execution_Ledger.thy ===== *)
theory Execution_Ledger
  imports Kolyan_Prelude
begin

text \<open>
  The execution ledger of \<open>crates/kolyan-ledger/src/lib.rs\<close> and \<open>query.rs\<close>: events, queries
  and the three adapters of the port \<open>LedgerStore\<close> (in memory, file, SQLite), and the leases of
  \<open>SqliteLedger\<close>. A payload is a \<open>serde_json::Value\<close>, the type parameter \<open>'p\<close>. Locks are
  held for a whole operation, so an operation is one step on the state. A file is the list of its
  lines, \<open>None\<close> for a line that does not parse; an SQL table is the list of its rows in primary
  key order, and the SQL statements have their documented meaning on it. Failing I/O is not
  modelled.
\<close>

section \<open>Events\<close>

datatype ledger_event_kind =
    TurnStarted | StepStarted | ModelRequested | ModelOpeningAdmitted | ModelStreamEvent
  | StepCompleted | ToolCallRequested | ApprovalRequested | ApprovalResolved | ToolExecutionStarted
  | ToolExecutionCompleted | ToolExecutionFailed | TurnFailed | TurnCancelled | TurnTimedOut
  | TurnCompleted | ExecutionStarted | ExecutionBound | ExecutionInputAdmitted
  | ExecutionRetryAuthorized | ExecutionBoundaryAdmitted | ExecutionSuspended | ExecutionCancelled
  | EffectPrepared | EffectAuthorized | EffectAwaitingDecision | EffectAwaitingExternal
  | ToolAwaitingExternal | TurnCheckpointMerged | TurnCheckpointPrepared | EffectStarted
  | EffectCompleted | EffectFailed | EffectUncertain | EffectDenied | EffectReceipt
  | EffectReconciled | SessionCommitPrepared | SessionCommitted

record 'p ledger_event =
  le_event_id :: string
  le_turn_id :: string
  le_execution_id :: string
  le_cursor :: u64
  le_kind :: ledger_event_kind
  le_idempotency_key :: string
  le_payload :: 'p

datatype ledger_error =
    InvalidQuery | LedgerConflict string | LedgerCancelled string | LedgerStorage

section \<open>Queries\<close>

record ledger_query =
  lq_execution_id :: "string option"
  lq_event_id :: "string option"
  lq_after :: u64
  lq_through :: "u64 option"
  lq_limit :: nat

definition query_validate :: "ledger_query \<Rightarrow> (ledger_error, unit) res" where
  "query_validate q =
     (if \<not> (1 \<le> lq_limit q \<and> lq_limit q \<le> 1024) then Err InvalidQuery
      else if lq_execution_id q = Some [] \<or> lq_event_id q = Some [] then Err InvalidQuery
      else if (case lq_through q of None \<Rightarrow> False | Some t \<Rightarrow> t < lq_after q) then Err InvalidQuery
      else Ok ())"

definition none_or :: "'a option \<Rightarrow> ('a \<Rightarrow> bool) \<Rightarrow> bool" where
  "none_or m P = (case m of None \<Rightarrow> True | Some x \<Rightarrow> P x)"

definition query_matches :: "ledger_query \<Rightarrow> 'p ledger_event \<Rightarrow> bool" where
  "query_matches q e \<longleftrightarrow>
     le_cursor e > lq_after q \<and> none_or (lq_through q) (\<lambda>t. le_cursor e \<le> t)
     \<and> none_or (lq_execution_id q) (\<lambda>i. i = le_execution_id e)
     \<and> none_or (lq_event_id q) (\<lambda>i. i = le_event_id e)"

text \<open>The port \<open>LedgerStore\<close>: its required operations on the state of an adapter.\<close>

record ('s, 'p) ledger_ops =
  lo_append :: "'s \<Rightarrow> 'p ledger_event \<Rightarrow> (ledger_error, 'p ledger_event) res \<times> 's"
  lo_append_unless_cancelled :: "'s \<Rightarrow> 'p ledger_event \<Rightarrow> (ledger_error, 'p ledger_event) res \<times> 's"
  lo_query :: "'s \<Rightarrow> ledger_query \<Rightarrow> (ledger_error, 'p ledger_event list) res"
  lo_events_after :: "'s \<Rightarrow> u64 \<Rightarrow> (ledger_error, 'p ledger_event list) res"
  lo_claim :: "'s \<Rightarrow> string \<Rightarrow> (ledger_error, bool) res \<times> 's"

fun check_ascending :: "ledger_query \<Rightarrow> u64 \<Rightarrow> 'p ledger_event list \<Rightarrow> (ledger_error, unit) res" where
  "check_ascending q previous [] = Ok ()"
| "check_ascending q previous (e # es) =
     (if \<not> query_matches q e \<or> le_cursor e \<le> previous then Err LedgerStorage
      else check_ascending q (le_cursor e) es)"

definition checked_query ::
  "('s, 'p) ledger_ops \<Rightarrow> 's \<Rightarrow> ledger_query \<Rightarrow> (ledger_error, 'p ledger_event list) res" where
  "checked_query ops s q =
     andthen (query_validate q)
    (bindr (lo_query ops s q) (\<lambda>page.
       if length page > lq_limit q then Err LedgerStorage
       else andthen (check_ascending q (lq_after q) page) (Ok page)))"

definition event_by_id ::
  "('s, 'p) ledger_ops \<Rightarrow> 's \<Rightarrow> string \<Rightarrow> (ledger_error, 'p ledger_event option) res" where
  "event_by_id ops s i =
     bindr (checked_query ops s \<lparr>lq_execution_id = None, lq_event_id = Some i, lq_after = 0,
              lq_through = None, lq_limit = 1\<rparr>) (\<lambda>page.
       Ok (case page of [] \<Rightarrow> None | e # _ \<Rightarrow> Some e))"

lemma check_ascending_last:
  "check_ascending q previous es = Ok () \<Longrightarrow> es \<noteq> [] \<Longrightarrow> previous < le_cursor (last es)"
  by (induction q previous es rule: check_ascending.induct)
     (auto split: if_splits simp: not_le dest: order_less_trans)

declare bindr_cong [fundef_cong]

text \<open>
  The loop over the pages of one execution. Every full page moves the exclusive cursor up, so it
  ends whatever the adapter returns.
\<close>

definition next_page :: "ledger_query \<Rightarrow> 'p ledger_event list \<Rightarrow> ledger_query" where
  "next_page q page = (if page = [] then q else q\<lparr>lq_after := le_cursor (last page)\<rparr>)"

lemma next_page_less:
  assumes "checked_query ops s q = Ok page" and "\<not> length page < lq_limit q"
  shows "lq_after q < lq_after (next_page q page)"
proof -
  from assms(1) have "1 \<le> lq_limit q" and asc: "check_ascending q (lq_after q) page = Ok ()"
    by (auto simp: checked_query_def query_validate_def res_simps)
  with assms(2) have "page \<noteq> []" by auto
  with check_ascending_last [OF asc] show ?thesis by (simp add: next_page_def)
qed

function execution_pages ::
  "('s, 'p) ledger_ops \<Rightarrow> 's \<Rightarrow> ledger_query \<Rightarrow> 'p ledger_event list
   \<Rightarrow> (ledger_error, 'p ledger_event list) res" where
  "execution_pages ops s q acc =
     bindr (checked_query ops s q) (\<lambda>page.
       if length page < lq_limit q then Ok (acc @ page)
       else execution_pages ops s (next_page q page) (acc @ page))"
  by pat_completeness auto
termination
proof (relation "measure (\<lambda>(ops, s, q, acc). 2 ^ 64 - unat (lq_after q))", goal_cases)
  case (2 ops s q acc page)
  then have "lq_after q < lq_after (next_page q page)" by (rule next_page_less)
  then show ?case using unat_lt64 [of "lq_after (next_page q page)"] by (simp add: word_less_nat_alt)
qed simp

declare execution_pages.simps [simp del]

definition execution_events_after ::
  "('s, 'p) ledger_ops \<Rightarrow> 's \<Rightarrow> string \<Rightarrow> u64 \<Rightarrow> (ledger_error, 'p ledger_event list) res" where
  "execution_events_after ops s x after =
     execution_pages ops s \<lparr>lq_execution_id = Some x, lq_event_id = None, lq_after = after,
       lq_through = None, lq_limit = 512\<rparr> []"

section \<open>The in-memory adapter\<close>

definition is_cancelled :: "string \<Rightarrow> 'p ledger_event list \<Rightarrow> bool" where
  "is_cancelled x es \<longleftrightarrow> (\<exists>e \<in> set es. le_execution_id e = x \<and> le_kind e = ExecutionCancelled)"

definition has_conflict :: "'p ledger_event \<Rightarrow> 'p ledger_event list \<Rightarrow> bool" where
  "has_conflict e es \<longleftrightarrow>
     (\<exists>x \<in> set es. le_event_id x = le_event_id e \<or> le_idempotency_key x = le_idempotency_key e)"

record 'p ledger_state =
  ls_next_cursor :: u64
  ls_events :: "'p ledger_event list"
  ls_claims :: "string set"

definition mem_ledger_empty :: "'p ledger_state" where
  "mem_ledger_empty = \<lparr>ls_next_cursor = 0, ls_events = [], ls_claims = {}\<rparr>"

definition mem_append_checked ::
  "bool \<Rightarrow> 'p ledger_state \<Rightarrow> 'p ledger_event \<Rightarrow> (ledger_error, 'p ledger_event) res \<times> 'p ledger_state" where
  "mem_append_checked check_cancel s e =
     (if check_cancel \<and> is_cancelled (le_execution_id e) (ls_events s)
      then (Err (LedgerCancelled (le_execution_id e)), s)
      else if has_conflict e (ls_events s) then (Err (LedgerConflict (le_event_id e)), s)
      else
        let c = ls_next_cursor s + 1; e' = e\<lparr>le_cursor := c\<rparr>
        in (Ok e', s\<lparr>ls_next_cursor := c, ls_events := ls_events s @ [e']\<rparr>))"

definition mem_query ::
  "'p ledger_state \<Rightarrow> ledger_query \<Rightarrow> (ledger_error, 'p ledger_event list) res" where
  "mem_query s q =
     andthen (query_validate q) (Ok (take (lq_limit q) (filter (query_matches q) (ls_events s))))"

definition mem_events_after ::
  "'p ledger_state \<Rightarrow> u64 \<Rightarrow> (ledger_error, 'p ledger_event list) res" where
  "mem_events_after s cursor = Ok (filter (\<lambda>e. le_cursor e > cursor) (ls_events s))"

definition mem_claim :: "'p ledger_state \<Rightarrow> string \<Rightarrow> (ledger_error, bool) res \<times> 'p ledger_state" where
  "mem_claim s key = (Ok (key \<notin> ls_claims s), s\<lparr>ls_claims := insert key (ls_claims s)\<rparr>)"

definition mem_ledger :: "('p ledger_state, 'p) ledger_ops" where
  "mem_ledger = \<lparr>lo_append = mem_append_checked False, lo_append_unless_cancelled = mem_append_checked True,
     lo_query = mem_query, lo_events_after = mem_events_after, lo_claim = mem_claim\<rparr>"

section \<open>The file adapter\<close>

record 'p file_ledger =
  fl_lines :: "'p ledger_event option list"
  fl_claims :: "string option list"

fun all_parsed :: "'a option list \<Rightarrow> (ledger_error, 'a list) res" where
  "all_parsed [] = Ok []"
| "all_parsed (None # ls) = Err LedgerStorage"
| "all_parsed (Some x # ls) = bindr (all_parsed ls) (\<lambda>xs. Ok (x # xs))"

definition read_events :: "'p file_ledger \<Rightarrow> (ledger_error, 'p ledger_event list) res" where
  "read_events s = all_parsed (fl_lines s)"

definition file_append_checked ::
  "bool \<Rightarrow> 'p file_ledger \<Rightarrow> 'p ledger_event \<Rightarrow> (ledger_error, 'p ledger_event) res \<times> 'p file_ledger" where
  "file_append_checked check_cancel s e =
     (case read_events s of
        Err err \<Rightarrow> (Err err, s)
      | Panic \<Rightarrow> (Panic, s)
      | Ok events \<Rightarrow>
          if check_cancel \<and> is_cancelled (le_execution_id e) events
          then (Err (LedgerCancelled (le_execution_id e)), s)
          else if has_conflict e events then (Err (LedgerConflict (le_event_id e)), s)
          else
            let e' = e\<lparr>le_cursor := (if events = [] then 0 else le_cursor (last events)) + 1\<rparr>
            in (Ok e', s\<lparr>fl_lines := fl_lines s @ [Some e']\<rparr>))"

text \<open>A query stops reading once its limit is reached, so it does not see later broken lines.\<close>

fun scan_lines ::
  "ledger_query \<Rightarrow> 'p ledger_event list \<Rightarrow> 'p ledger_event option list
   \<Rightarrow> (ledger_error, 'p ledger_event list) res" where
  "scan_lines q events [] = Ok events"
| "scan_lines q events (None # ls) = Err LedgerStorage"
| "scan_lines q events (Some e # ls) =
     (if query_matches q e
      then (if length (events @ [e]) = lq_limit q then Ok (events @ [e])
            else scan_lines q (events @ [e]) ls)
      else scan_lines q events ls)"

definition file_query ::
  "'p file_ledger \<Rightarrow> ledger_query \<Rightarrow> (ledger_error, 'p ledger_event list) res" where
  "file_query s q = andthen (query_validate q) (scan_lines q [] (fl_lines s))"

definition file_events_after ::
  "'p file_ledger \<Rightarrow> u64 \<Rightarrow> (ledger_error, 'p ledger_event list) res" where
  "file_events_after s cursor =
     bindr (read_events s) (\<lambda>es. Ok (filter (\<lambda>e. le_cursor e > cursor) es))"

definition file_claim :: "'p file_ledger \<Rightarrow> string \<Rightarrow> (ledger_error, bool) res \<times> 'p file_ledger" where
  "file_claim s key =
     (case all_parsed (fl_claims s) of
        Err err \<Rightarrow> (Err err, s)
      | Panic \<Rightarrow> (Panic, s)
      | Ok claims \<Rightarrow>
          if key \<in> set claims then (Ok False, s)
          else
            (case read_events s of
               Err err \<Rightarrow> (Err err, s)
             | Panic \<Rightarrow> (Panic, s)
             | Ok events \<Rightarrow>
                 if \<exists>e \<in> set events. le_idempotency_key e = key then (Ok False, s)
                 else (Ok True, s\<lparr>fl_claims := fl_claims s @ [Some key]\<rparr>)))"

definition file_ledger_ops :: "('p file_ledger, 'p) ledger_ops" where
  "file_ledger_ops = \<lparr>lo_append = file_append_checked False,
     lo_append_unless_cancelled = file_append_checked True,
     lo_query = file_query, lo_events_after = file_events_after, lo_claim = file_claim\<rparr>"

section \<open>The SQLite adapter\<close>

definition CURSOR_MAX :: u64 where "CURSOR_MAX = 9223372036854775807"

text \<open>
  A lease row as it is stored: the integers are the 64 bits of an SQLite \<open>INTEGER\<close>, signed in
  SQL and unsigned once read back.
\<close>

record lease_row =
  lr_owner_id :: string
  lr_revision :: u64
  lr_expires_at_ms :: u64

record execution_lease =
  el_execution_id :: string
  el_owner_id :: string
  el_revision :: u64
  el_expires_at_ms :: u64

record 'p sqlite_ledger =
  sq_events :: "'p ledger_event list"
  sq_claims :: "string set"
  sq_leases :: "string \<rightharpoonup> lease_row"

definition sqlite_empty :: "'p sqlite_ledger" where
  "sqlite_empty = \<lparr>sq_events = [], sq_claims = {}, sq_leases = Map.empty\<rparr>"

text \<open>
  The insertion: \<open>event_id\<close> and \<open>idempotency_key\<close> are UNIQUE, the cursor is an AUTOINCREMENT
  key, which is one more than the largest so far and fails at the largest integer.
\<close>

definition sqlite_append_checked ::
  "bool \<Rightarrow> 'p sqlite_ledger \<Rightarrow> 'p ledger_event \<Rightarrow> (ledger_error, 'p ledger_event) res \<times> 'p sqlite_ledger" where
  "sqlite_append_checked check_cancel s e =
     (let events = sq_events s; top = (if events = [] then 0 else le_cursor (last events)) in
      if check_cancel \<and> is_cancelled (le_execution_id e) events
      then (Err (LedgerCancelled (le_execution_id e)), s)
      else if has_conflict e events then (Err (LedgerConflict (le_event_id e)), s)
      else if top \<ge> CURSOR_MAX then (Err LedgerStorage, s)
      else let e' = e\<lparr>le_cursor := top + 1\<rparr> in (Ok e', s\<lparr>sq_events := events @ [e']\<rparr>))"

text \<open>\<open>query_sql\<close>: only the predicates that are present, bounds clamped to signed integers.\<close>

definition sql_matches :: "ledger_query \<Rightarrow> 'p ledger_event \<Rightarrow> bool" where
  "sql_matches q e \<longleftrightarrow>
     le_cursor e > min (lq_after q) CURSOR_MAX
     \<and> none_or (lq_through q) (\<lambda>t. le_cursor e \<le> min t CURSOR_MAX)
     \<and> none_or (lq_execution_id q) (\<lambda>i. le_execution_id e = i)
     \<and> none_or (lq_event_id q) (\<lambda>i. le_event_id e = i)"

definition sqlite_query ::
  "'p sqlite_ledger \<Rightarrow> ledger_query \<Rightarrow> (ledger_error, 'p ledger_event list) res" where
  "sqlite_query s q =
     andthen (query_validate q) (Ok (take (lq_limit q) (filter (sql_matches q) (sq_events s))))"

definition sqlite_events_after ::
  "'p sqlite_ledger \<Rightarrow> u64 \<Rightarrow> (ledger_error, 'p ledger_event list) res" where
  "sqlite_events_after s cursor =
     (if cursor > CURSOR_MAX then Err LedgerStorage
      else Ok (filter (\<lambda>e. le_cursor e > cursor) (sq_events s)))"

definition sqlite_claim :: "'p sqlite_ledger \<Rightarrow> string \<Rightarrow> (ledger_error, bool) res \<times> 'p sqlite_ledger" where
  "sqlite_claim s key = (Ok (key \<notin> sq_claims s), s\<lparr>sq_claims := insert key (sq_claims s)\<rparr>)"

definition sqlite_ledger_ops :: "('p sqlite_ledger, 'p) ledger_ops" where
  "sqlite_ledger_ops = \<lparr>lo_append = sqlite_append_checked False,
     lo_append_unless_cancelled = sqlite_append_checked True,
     lo_query = sqlite_query, lo_events_after = sqlite_events_after, lo_claim = sqlite_claim\<rparr>"

section \<open>Leases\<close>

definition acquire_lease ::
  "'p sqlite_ledger \<Rightarrow> string \<Rightarrow> string \<Rightarrow> u64 \<Rightarrow> u64
   \<Rightarrow> (ledger_error, execution_lease) res \<times> 'p sqlite_ledger" where
  "acquire_lease s x owner now ttl =
     (let blocked = (case sq_leases s x of
              None \<Rightarrow> None
            | Some c \<Rightarrow> if lr_expires_at_ms c > now \<and> lr_owner_id c \<noteq> owner then Some (lr_owner_id c) else None);
          revision = (case sq_leases s x of None \<Rightarrow> 1 | Some c \<Rightarrow> lr_revision c + 1)
      in case blocked of
           Some other \<Rightarrow> (Err (LedgerConflict (''lease owned by '' @ other)), s)
         | None \<Rightarrow>
             (Ok \<lparr>el_execution_id = x, el_owner_id = owner, el_revision = revision,
                  el_expires_at_ms = now + ttl\<rparr>,
              s\<lparr>sq_leases := (sq_leases s)(x \<mapsto>
                \<lparr>lr_owner_id = owner, lr_revision = revision, lr_expires_at_ms = now + ttl\<rparr>)\<rparr>))"

text \<open>The row of a lease, as the WHERE clauses of renewal and release name it.\<close>

definition lease_matches :: "execution_lease \<Rightarrow> lease_row option \<Rightarrow> bool" where
  "lease_matches l row \<longleftrightarrow>
     (case row of None \<Rightarrow> False
      | Some c \<Rightarrow> lr_owner_id c = el_owner_id l \<and> lr_revision c = el_revision l)"

definition renew_lease ::
  "'p sqlite_ledger \<Rightarrow> execution_lease \<Rightarrow> u64 \<Rightarrow> u64
   \<Rightarrow> (ledger_error, execution_lease) res \<times> 'p sqlite_ledger" where
  "renew_lease s l now ttl =
     (case sq_leases s (el_execution_id l) of
        Some c \<Rightarrow>
          if lease_matches l (Some c) \<and> sint (lr_expires_at_ms c) > sint now
          then (Ok (l\<lparr>el_expires_at_ms := now + ttl\<rparr>),
                s\<lparr>sq_leases := (sq_leases s)(el_execution_id l \<mapsto> c\<lparr>lr_expires_at_ms := now + ttl\<rparr>)\<rparr>)
          else (Err (LedgerConflict ''lease fenced or expired''), s)
      | None \<Rightarrow> (Err (LedgerConflict ''lease fenced or expired''), s))"

definition release_lease ::
  "'p sqlite_ledger \<Rightarrow> execution_lease \<Rightarrow> (ledger_error, unit) res \<times> 'p sqlite_ledger" where
  "release_lease s l =
     (if lease_matches l (sq_leases s (el_execution_id l))
      then (Ok (), s\<lparr>sq_leases := (sq_leases s)(el_execution_id l := None)\<rparr>)
      else (Err (LedgerConflict ''lease fenced''), s))"

end
