(* ===== verification/Ledger_Properties.thy ===== *)
theory Ledger_Properties
  imports Execution_Ledger
begin

text \<open>
  The execution ledger as an abstract specification: a growing list of events numbered from 1, with
  unique identities and keys. The locale \<open>ledger_store\<close> states it for the port; the client
  lemmas (paging, lookup, the cancellation barrier) are proved inside it, and the three adapters
  are its interpretations.
\<close>

section \<open>The abstract ledger\<close>

definition capacity :: nat where "capacity = unat CURSOR_MAX"

definition ledger_wf :: "'p ledger_event list \<Rightarrow> bool" where
  "ledger_wf es \<longleftrightarrow> length es \<le> capacity \<and> (\<forall>i < length es. unat (le_cursor (es ! i)) = Suc i) \<and>
     distinct (map le_event_id es) \<and> distinct (map le_idempotency_key es)"

definition abs_append ::
  "bool \<Rightarrow> 'p ledger_event list \<Rightarrow> 'p ledger_event \<Rightarrow> (ledger_error, 'p ledger_event) res \<times> 'p ledger_event list" where
  "abs_append check_cancel es e =
     (if check_cancel \<and> is_cancelled (le_execution_id e) es
      then (Err (LedgerCancelled (le_execution_id e)), es)
      else if has_conflict e es then (Err (LedgerConflict (le_event_id e)), es)
      else let e' = e\<lparr>le_cursor := word_of_nat (Suc (length es))\<rparr> in (Ok e', es @ [e']))"

lemma capacity_less: "capacity < 2 ^ 64" "capacity = 2 ^ 63 - 1"
  by (simp_all add: capacity_def CURSOR_MAX_def)

lemma unat_word_of_nat: "n < 2 ^ 64 \<Longrightarrow> unat (word_of_nat n :: u64) = n"
  by (simp add: unat_of_nat take_bit_eq_mod)

lemma ledger_wf_Nil [simp]: "ledger_wf []"
  by (simp add: ledger_wf_def)

lemma ledger_wf_last: "ledger_wf es \<Longrightarrow> (if es = [] then 0 else le_cursor (last es)) = word_of_nat (length es)"
proof (cases "es = []")
  case False
  assume wf: "ledger_wf es"
  with False have "unat (le_cursor (last es)) = length es" by (simp add: ledger_wf_def last_conv_nth)
  with False show ?thesis by (metis of_nat_unat ucast_id)
qed simp

lemma ledger_wf_snoc:
  assumes wf: "ledger_wf es" and "length es < capacity" and "\<not> has_conflict e es"
  shows "ledger_wf (es @ [e\<lparr>le_cursor := word_of_nat (Suc (length es))\<rparr>])"
proof -
  have "unat (word_of_nat (Suc (length es)) :: u64) = Suc (length es)"
    by (rule unat_word_of_nat) (use assms(2) capacity_less(1) in simp)
  moreover have "le_event_id e \<notin> le_event_id ` set es" "le_idempotency_key e \<notin> le_idempotency_key ` set es"
    using assms(3) by (auto simp: has_conflict_def)
  ultimately show ?thesis using wf assms(2) by (auto simp: ledger_wf_def nth_append less_Suc_eq)
qed

lemma abs_append_wf:
  assumes "ledger_wf es" and "length es < capacity"
  shows "ledger_wf (snd (abs_append b es e))"
  using assms ledger_wf_snoc [OF assms] by (simp add: abs_append_def Let_def)

lemma abs_append_prefix: "\<exists>new. snd (abs_append b es e) = es @ new"
  by (simp add: abs_append_def Let_def)

lemma ledger_wf_ascending:
  assumes "ledger_wf es"
  shows "sorted_wrt (\<lambda>x y. le_cursor x < le_cursor y) es"
  using assms by (simp add: sorted_wrt_iff_nth_less ledger_wf_def word_less_nat_alt)

lemma cursor_positive: "ledger_wf es \<Longrightarrow> e \<in> set es \<Longrightarrow> 0 < le_cursor e"
  by (auto simp: ledger_wf_def in_set_conv_nth word_less_nat_alt)

lemma check_ascending_sorted:
  assumes "sorted_wrt (\<lambda>x y. le_cursor x < le_cursor y) es" and "\<forall>e \<in> set es. query_matches q e \<and> previous < le_cursor e"
  shows "check_ascending q previous es = Ok ()"
  using assms by (induction es arbitrary: previous) (auto simp: not_le)

section \<open>Runs\<close>

text \<open>
  A call of the port, what it answers, and a run of calls on an adapter. The abstract ledger
  answers the same calls on a list of events; a claim is the one call it does not answer, because
  the adapters differ on it.
\<close>

datatype 'p ledger_call =
    CallAppend "'p ledger_event" | CallAdmit "'p ledger_event" | CallQuery ledger_query
  | CallEvents string u64 | CallClaim string

datatype 'p ledger_answer =
    AnswerEvent "(ledger_error, 'p ledger_event) res" | AnswerPage "(ledger_error, 'p ledger_event list) res"
  | AnswerClaim "(ledger_error, bool) res"

definition perform :: "('s, 'p) ledger_ops \<Rightarrow> 's \<Rightarrow> 'p ledger_call \<Rightarrow> 'p ledger_answer \<times> 's" where
  "perform ops s c =
     (case c of
        CallAppend e \<Rightarrow> (let (r, s') = lo_append ops s e in (AnswerEvent r, s'))
      | CallAdmit e \<Rightarrow> (let (r, s') = lo_append_unless_cancelled ops s e in (AnswerEvent r, s'))
      | CallQuery q \<Rightarrow> (AnswerPage (lo_query ops s q), s)
      | CallEvents x a \<Rightarrow> (AnswerPage (execution_events_after ops s x a), s)
      | CallClaim k \<Rightarrow> (let (r, s') = lo_claim ops s k in (AnswerClaim r, s')))"

fun run_calls :: "('s, 'p) ledger_ops \<Rightarrow> 's \<Rightarrow> 'p ledger_call list \<Rightarrow> 'p ledger_answer list \<times> 's" where
  "run_calls ops s [] = ([], s)"
| "run_calls ops s (c # cs) =
     (let (a, s1) = perform ops s c; (as, s2) = run_calls ops s1 cs in (a # as, s2))"

fun abs_perform :: "'p ledger_event list \<Rightarrow> 'p ledger_call \<Rightarrow> 'p ledger_answer \<times> 'p ledger_event list" where
  "abs_perform es (CallAppend e) = (AnswerEvent (fst (abs_append False es e)), snd (abs_append False es e))"
| "abs_perform es (CallAdmit e) = (AnswerEvent (fst (abs_append True es e)), snd (abs_append True es e))"
| "abs_perform es (CallQuery q) =
     (AnswerPage (andthen (query_validate q) (Ok (take (lq_limit q) (filter (query_matches q) es)))), es)"
| "abs_perform es (CallEvents x a) =
     (AnswerPage (if x = [] then Err InvalidQuery
        else Ok (filter (\<lambda>e. le_execution_id e = x \<and> le_cursor e > a) es)), es)"
| "abs_perform es (CallClaim k) = (AnswerClaim (Ok False), es)"

fun abs_run :: "'p ledger_event list \<Rightarrow> 'p ledger_call list \<Rightarrow> 'p ledger_answer list \<times> 'p ledger_event list" where
  "abs_run es [] = ([], es)"
| "abs_run es (c # cs) =
     (let (a, es1) = abs_perform es c; (as, es2) = abs_run es1 cs in (a # as, es2))"

lemma abs_perform_length: "length (snd (abs_perform es c)) \<le> Suc (length es)"
  by (cases c) (auto simp: abs_append_def Let_def)

lemma abs_perform_prefix: "\<exists>new. snd (abs_perform es c) = es @ new"
  by (cases c) (auto simp: abs_append_def Let_def)

lemma abs_run_append: "snd (abs_run es (xs @ ys)) = snd (abs_run (snd (abs_run es xs)) ys)"
  by (induction xs arbitrary: es) (simp_all add: split_beta)

lemma abs_run_prefix: "\<exists>new. snd (abs_run es cs) = es @ new"
proof (induction cs arbitrary: es)
  case (Cons c cs)
  from abs_perform_prefix [of es c] Cons [of "snd (abs_perform es c)"] show ?case
    by (auto simp: split_beta)
qed simp

lemma abs_run_cancelled:
  "is_cancelled x (snd (abs_run es before)) \<Longrightarrow> is_cancelled x (snd (abs_run es (before @ later)))"
  using abs_run_prefix [of "snd (abs_run es before)" later] by (auto simp: abs_run_append is_cancelled_def)

lemma abs_run_length: "length (snd (abs_run es cs)) \<le> length es + length cs"
proof (induction cs arbitrary: es)
  case (Cons c cs)
  from abs_perform_length [of es c] Cons [of "snd (abs_perform es c)"] show ?case
    by (simp add: split_beta)
qed simp

section \<open>The port\<close>

locale ledger_store =
  fixes ops :: "('s, 'p) ledger_ops"
    and events :: "'s \<Rightarrow> 'p ledger_event list"
    and linv :: "'s \<Rightarrow> bool"
  assumes wf: "linv s \<Longrightarrow> ledger_wf (events s)"
    and query_spec: "linv s \<Longrightarrow> lo_query ops s q =
        andthen (query_validate q) (Ok (take (lq_limit q) (filter (query_matches q) (events s))))"
    and append_spec: "linv s \<Longrightarrow> length (events s) < capacity \<Longrightarrow>
        map_prod id events (lo_append ops s e) = abs_append False (events s) e"
    and admit_spec: "linv s \<Longrightarrow> length (events s) < capacity \<Longrightarrow>
        map_prod id events (lo_append_unless_cancelled ops s e) = abs_append True (events s) e"
    and append_linv: "linv s \<Longrightarrow> length (events s) < capacity \<Longrightarrow> linv (snd (lo_append ops s e))"
    and admit_linv: "linv s \<Longrightarrow> length (events s) < capacity \<Longrightarrow>
        linv (snd (lo_append_unless_cancelled ops s e))"
    and claim_spec: "linv s \<Longrightarrow> linv (snd (lo_claim ops s k)) \<and> events (snd (lo_claim ops s k)) = events s"
begin

lemma checked_query_ok:
  assumes "linv s" and "query_validate q = Ok ()"
  shows "checked_query ops s q = Ok (take (lq_limit q) (filter (query_matches q) (events s)))"
proof -
  let ?page = "take (lq_limit q) (filter (query_matches q) (events s))"
  have "sorted_wrt (\<lambda>x y. le_cursor x < le_cursor y) ?page"
    by (intro sorted_wrt_take sorted_wrt_filter ledger_wf_ascending wf assms)
  moreover have "\<forall>e \<in> set ?page. query_matches q e \<and> lq_after q < le_cursor e"
    by (auto dest!: in_set_takeD simp: query_matches_def)
  ultimately have "check_ascending q (lq_after q) ?page = Ok ()" by (rule check_ascending_sorted)
  then show ?thesis by (simp add: checked_query_def assms query_spec)
qed

text \<open>An event is found by its identity, which is unique.\<close>

lemma event_by_id_ok:
  assumes inv: "linv s" and "i \<noteq> []"
  shows "event_by_id ops s i = Ok (find (\<lambda>e. le_event_id e = i) (events s))"
proof -
  let ?q = "\<lparr>lq_execution_id = None, lq_event_id = Some i, lq_after = 0, lq_through = None, lq_limit = 1\<rparr>"
  have "query_validate ?q = Ok ()" using assms(2) by (simp add: query_validate_def)
  note page = checked_query_ok [OF inv this, simplified]
  have "filter (query_matches ?q) (events s) = filter (\<lambda>e. le_event_id e = i) (events s)"
    by (rule filter_cong) (auto simp: query_matches_def none_or_def cursor_positive [OF wf [OF inv]])
  moreover have "(case take 1 (filter P xs) of [] \<Rightarrow> None | e # _ \<Rightarrow> Some e) = find P xs" for P and xs :: "'p ledger_event list"
    by (induction xs) auto
  ultimately show ?thesis by (simp add: event_by_id_def page)
qed

text \<open>Paging through an execution returns all of its events after the cursor, in order.\<close>

abbreviation page_query :: "string \<Rightarrow> u64 \<Rightarrow> ledger_query" where
  "page_query x a \<equiv> \<lparr>lq_execution_id = Some x, lq_event_id = None, lq_after = a, lq_through = None, lq_limit = 512\<rparr>"

abbreviation of_execution :: "'s \<Rightarrow> string \<Rightarrow> u64 \<Rightarrow> 'p ledger_event list" where
  "of_execution s x a \<equiv> filter (\<lambda>e. le_execution_id e = x \<and> le_cursor e > a) (events s)"

lemma sorted_split:
  assumes "sorted_wrt (\<lambda>x y. le_cursor x < le_cursor (y :: 'p ledger_event)) xs" and "0 < n" "n \<le> length xs"
  shows "filter (\<lambda>e. le_cursor e > le_cursor (last (take n xs))) xs = drop n xs"
proof -
  let ?c = "le_cursor (last (take n xs))"
  have last: "?c = le_cursor (xs ! (n - 1))" using assms(2,3) by (subst last_conv_nth) auto
  have "\<not> le_cursor e > ?c" if "e \<in> set (take n xs)" for e
  proof -
    from that obtain i where i: "i < n" "e = xs ! i" using assms(3) by (auto simp: in_set_conv_nth)
    then consider "i = n - 1" | "i < n - 1" by linarith
    then show ?thesis
      using assms last i by cases (auto simp: sorted_wrt_iff_nth_less not_less intro: less_imp_le)
  qed
  then have l: "filter (\<lambda>e. le_cursor e > ?c) (take n xs) = []" by (simp add: filter_empty_conv)
  have "le_cursor e > ?c" if "e \<in> set (drop n xs)" for e
  proof -
    from that obtain i where "i < length xs - n" "e = xs ! (n + i)" by (auto simp: in_set_conv_nth)
    with assms last show ?thesis by (auto simp: sorted_wrt_iff_nth_less)
  qed
  then have r: "filter (\<lambda>e. le_cursor e > ?c) (drop n xs) = drop n xs" by (simp add: filter_id_conv)
  from l r show ?thesis by (metis append_Nil append_take_drop_id filter_append)
qed

lemma execution_pages_ok:
  assumes inv: "linv s" and x: "x \<noteq> []"
  shows "execution_pages ops s (page_query x a) acc = Ok (acc @ of_execution s x a)"
proof (induction "2 ^ 64 - unat a" arbitrary: a acc rule: less_induct)
  case less
  let ?xs = "of_execution s x a" and ?q = "page_query x a"
  have valid: "query_validate ?q = Ok ()" using x by (simp add: query_validate_def)
  have "filter (query_matches ?q) (events s) = ?xs"
    by (rule filter_cong) (auto simp: query_matches_def none_or_def)
  with checked_query_ok [OF inv valid] have page: "checked_query ops s ?q = Ok (take 512 ?xs)" by simp
  show ?case
  proof (cases "length ?xs < 512")
    case True
    with page show ?thesis by (simp add: execution_pages.simps [of ops s ?q])
  next
    case False
    let ?c = "le_cursor (last (take 512 ?xs))"
    have ne: "take 512 ?xs \<noteq> []" using False by (cases ?xs) auto
    then have nq: "next_page ?q (take 512 ?xs) = page_query x ?c" by (simp add: next_page_def)
    have "a < ?c" using last_in_set [OF ne] by (auto dest: in_set_takeD)
    then have "2 ^ 64 - unat ?c < 2 ^ 64 - unat a"
      using unat_lt64 [of ?c] by (simp add: word_less_nat_alt)
    note ih = less [OF this, of "acc @ take 512 ?xs"]
    have "of_execution s x ?c = filter (\<lambda>e. le_cursor e > ?c) ?xs"
      using \<open>a < ?c\<close> by (auto simp: intro!: filter_cong dest: order_less_trans)
    also have "\<dots> = drop 512 ?xs"
      by (rule sorted_split) (use False ledger_wf_ascending [OF wf [OF inv]] in \<open>auto intro: sorted_wrt_filter\<close>)
    finally have "of_execution s x ?c = drop 512 ?xs" .
    with page False ih nq show ?thesis
      by (simp add: execution_pages.simps [of ops s ?q])
  qed
qed

lemma execution_events_ok:
  assumes "linv s"
  shows "execution_events_after ops s x a = (if x = [] then Err InvalidQuery else Ok (of_execution s x a))"
proof (cases "x = []")
  case True
  then show ?thesis
    by (simp add: execution_events_after_def execution_pages.simps [of ops s] checked_query_def query_validate_def)
next
  case False
  with execution_pages_ok [OF assms, of x a "[]"] show ?thesis by (simp add: execution_events_after_def)
qed

text \<open>A run of the adapter is the same run of the abstract ledger.\<close>

lemma map_prod_parts: "map_prod id f p = q \<Longrightarrow> fst p = fst q \<and> f (snd p) = snd q"
  by (cases p) auto

lemma append_result:
  assumes "linv s" and "length (events s) < capacity"
  shows "fst (lo_append ops s e) = fst (abs_append False (events s) e)"
    and "events (snd (lo_append ops s e)) = snd (abs_append False (events s) e)"
    and "fst (lo_append_unless_cancelled ops s e) = fst (abs_append True (events s) e)"
    and "events (snd (lo_append_unless_cancelled ops s e)) = snd (abs_append True (events s) e)"
  using append_spec [OF assms, of e, THEN map_prod_parts] admit_spec [OF assms, of e, THEN map_prod_parts]
  by blast+

lemma perform_ok:
  assumes inv: "linv s" and cap: "length (events s) < capacity"
  shows "linv (snd (perform ops s c)) \<and> events (snd (perform ops s c)) = snd (abs_perform (events s) c)
    \<and> ((\<forall>k. c \<noteq> CallClaim k) \<longrightarrow> fst (perform ops s c) = fst (abs_perform (events s) c))"
proof (cases c)
  case (CallAppend e)
  then show ?thesis using append_result(1,2) [OF assms] append_linv [OF assms]
    by (simp add: perform_def split_beta)
next
  case (CallAdmit e)
  then show ?thesis using append_result(3,4) [OF assms] admit_linv [OF assms]
    by (simp add: perform_def split_beta)
next
  case (CallQuery q)
  then show ?thesis by (simp add: perform_def query_spec inv)
next
  case (CallEvents x a)
  then show ?thesis by (simp add: perform_def execution_events_ok inv)
next
  case (CallClaim k)
  then show ?thesis using claim_spec [OF inv, of k] by (simp add: perform_def split_beta)
qed

lemma run_calls_ok:
  assumes "linv s" and "length (events s) + length calls \<le> capacity"
  shows "linv (snd (run_calls ops s calls))
     \<and> events (snd (run_calls ops s calls)) = snd (abs_run (events s) calls)"
  using assms
proof (induction calls arbitrary: s)
  case (Cons c cs)
  let ?s = "snd (perform ops s c)"
  have cap: "length (events s) < capacity" using Cons.prems by simp
  from perform_ok [OF Cons.prems(1) cap, of c]
  have p: "linv ?s" "events ?s = snd (abs_perform (events s) c)" by blast+
  have "length (events ?s) \<le> Suc (length (events s))" unfolding p(2) by (rule abs_perform_length)
  with Cons.prems(2) have "length (events ?s) + length cs \<le> capacity" by simp
  from Cons.IH [OF p(1) this] show ?case by (simp add: split_beta p(2))
qed simp

lemma run_answers_ok:
  assumes "linv s" and "length (events s) + length calls \<le> capacity" and "\<forall>k. CallClaim k \<notin> set calls"
  shows "fst (run_calls ops s calls) = fst (abs_run (events s) calls)"
  using assms
proof (induction calls arbitrary: s)
  case (Cons c cs)
  let ?s = "snd (perform ops s c)"
  have cap: "length (events s) < capacity" using Cons.prems by simp
  have "\<forall>k. c \<noteq> CallClaim k" and cs: "\<forall>k. CallClaim k \<notin> set cs" using Cons.prems(3) by auto
  with perform_ok [OF Cons.prems(1) cap, of c]
  have p: "linv ?s" "events ?s = snd (abs_perform (events s) c)"
    and a: "fst (perform ops s c) = fst (abs_perform (events s) c)" by blast+
  have "length (events ?s) \<le> Suc (length (events s))" unfolding p(2) by (rule abs_perform_length)
  with Cons.prems(2) have "length (events ?s) + length cs \<le> capacity" by simp
  from Cons.IH [OF p(1) this cs] show ?case by (simp add: split_beta p(2) a)
qed simp

end

section \<open>The three adapters\<close>

definition mem_linv :: "'p ledger_state \<Rightarrow> bool" where
  "mem_linv s \<longleftrightarrow> ledger_wf (ls_events s) \<and> ls_next_cursor s = word_of_nat (length (ls_events s))"

lemma mem_append_spec:
  assumes "mem_linv s"
  shows "map_prod id ls_events (mem_append_checked b s e) = abs_append b (ls_events s) e"
  using assms by (simp add: mem_append_checked_def abs_append_def mem_linv_def Let_def add.commute)

lemma mem_append_linv:
  assumes inv: "mem_linv s" and "length (ls_events s) < capacity"
  shows "mem_linv (snd (mem_append_checked b s e))"
proof -
  have "ledger_wf (ls_events (snd (mem_append_checked b s e)))"
    using abs_append_wf [of "ls_events s" b e] mem_append_spec [OF inv, of b e] assms
    by (metis mem_linv_def snd_map_prod)
  moreover have "ls_next_cursor (snd (mem_append_checked b s e)) =
      word_of_nat (length (ls_events (snd (mem_append_checked b s e))))"
    using inv by (simp add: mem_append_checked_def mem_linv_def Let_def add.commute)
  ultimately show ?thesis by (simp add: mem_linv_def)
qed

interpretation mem_store: ledger_store mem_ledger ls_events mem_linv
  by unfold_locales
     (simp_all add: mem_ledger_def mem_append_spec mem_append_linv mem_query_def mem_claim_def, simp_all add: mem_linv_def)

definition file_events :: "'p file_ledger \<Rightarrow> 'p ledger_event list" where
  "file_events s = concat (map (\<lambda>l. case l of None \<Rightarrow> [] | Some e \<Rightarrow> [e]) (fl_lines s))"

definition file_linv :: "'p file_ledger \<Rightarrow> bool" where
  "file_linv s \<longleftrightarrow> fl_lines s = map Some (file_events s) \<and> ledger_wf (file_events s)"

lemma all_parsed_Some [simp]: "all_parsed (map Some xs) = Ok xs"
  by (induction xs) auto

lemma file_events_Some: "fl_lines s = map Some es \<Longrightarrow> file_events s = es"
proof -
  have "concat (map (\<lambda>l. case l of None \<Rightarrow> [] | Some e \<Rightarrow> [e]) (map Some es)) = es" by (induction es) auto
  then show "fl_lines s = map Some es \<Longrightarrow> file_events s = es" by (simp add: file_events_def)
qed

lemma file_read: "file_linv s \<Longrightarrow> read_events s = Ok (file_events s)"
proof -
  assume "file_linv s"
  then have "fl_lines s = map Some (file_events s)" by (simp add: file_linv_def)
  then show ?thesis unfolding read_events_def by (rule ssubst [where P = "\<lambda>l. all_parsed l = _"]) simp
qed

lemma file_append_eq:
  assumes "file_linv s"
  shows "file_append_checked b s e = (fst (abs_append b (file_events s) e),
     s\<lparr>fl_lines := map Some (snd (abs_append b (file_events s) e))\<rparr>)"
proof -
  have lines: "map Some (file_events s) = fl_lines s"
    using assms unfolding file_linv_def by simp
  have last: "(if file_events s = [] then 0 else le_cursor (last (file_events s))) + 1 =
      word_of_nat (Suc (length (file_events s)))"
    using ledger_wf_last [of "file_events s"] assms by (simp add: file_linv_def add.commute split: if_splits)
  show ?thesis
    by (simp add: lines file_append_checked_def file_read [OF assms] abs_append_def last Let_def)
qed

lemma file_append_spec:
  assumes "file_linv s"
  shows "map_prod id file_events (file_append_checked b s e) = abs_append b (file_events s) e"
  by (simp add: file_append_eq [OF assms] prod_eq_iff file_events_Some)

lemma file_append_linv:
  assumes "file_linv s" and "length (file_events s) < capacity"
  shows "file_linv (snd (file_append_checked b s e))"
proof -
  let ?s = "snd (file_append_checked b s e)" and ?es = "snd (abs_append b (file_events s) e)"
  have "fl_lines ?s = map Some ?es" by (simp add: file_append_eq [OF assms(1)])
  moreover from file_events_Some [OF this] have "file_events ?s = ?es" .
  moreover have "ledger_wf ?es" using assms by (intro abs_append_wf) (simp add: file_linv_def)
  ultimately show ?thesis by (simp add: file_linv_def)
qed

lemma scan_lines_Some:
  "length acc < lq_limit q \<Longrightarrow>
   scan_lines q acc (map Some es) = Ok (take (lq_limit q) (acc @ filter (query_matches q) es))"
proof (induction es arbitrary: acc)
  case (Cons e es)
  obtain k where k: "lq_limit q = Suc (length acc + k)" using Cons.prems less_iff_Suc_add by blast
  show ?case
  proof (cases k)
    case 0
    with k Cons show ?thesis by simp
  next
    case (Suc m)
    with k Cons.IH [of "acc @ [e]"] Cons.IH [of acc] show ?thesis by simp
  qed
qed simp

lemma file_query_spec:
  assumes "file_linv s"
  shows "file_query s q =
     andthen (query_validate q) (Ok (take (lq_limit q) (filter (query_matches q) (file_events s))))"
proof (cases "query_validate q = Ok ()")
  case True
  then have "0 < lq_limit q" by (auto simp: query_validate_def split: if_splits)
  then have "scan_lines q [] (map Some (file_events s)) = Ok (take (lq_limit q) (filter (query_matches q) (file_events s)))"
    using scan_lines_Some [of "[]" q "file_events s"] by simp
  moreover have "map Some (file_events s) = fl_lines s" using assms unfolding file_linv_def by simp
  ultimately show ?thesis using True by (simp add: file_query_def)
qed (cases "query_validate q"; simp add: file_query_def)

lemma file_claim_events: "fl_lines (snd (file_claim s k)) = fl_lines s"
  by (simp add: file_claim_def split: res.split)

interpretation file_store: ledger_store file_ledger_ops file_events file_linv
proof unfold_locales
  fix s :: "'a file_ledger" and k
  assume "file_linv s"
  moreover have "file_events (snd (file_claim s k)) = file_events s"
    by (simp add: file_events_def file_claim_events)
  ultimately show "file_linv (snd (lo_claim file_ledger_ops s k)) \<and>
      file_events (snd (lo_claim file_ledger_ops s k)) = file_events s"
    unfolding file_linv_def by (simp add: file_ledger_ops_def file_claim_events)
qed (simp_all add: file_ledger_ops_def file_append_spec file_append_linv file_query_spec, simp add: file_linv_def)

definition sqlite_linv :: "'p sqlite_ledger \<Rightarrow> bool" where
  "sqlite_linv s \<longleftrightarrow> ledger_wf (sq_events s)"

lemma sqlite_append_eq:
  assumes "sqlite_linv s" and "length (sq_events s) < capacity"
  shows "sqlite_append_checked b s e = (fst (abs_append b (sq_events s) e),
     s\<lparr>sq_events := snd (abs_append b (sq_events s) e)\<rparr>)"
proof -
  let ?top = "if sq_events s = [] then 0 else le_cursor (last (sq_events s))"
  have top: "?top = word_of_nat (length (sq_events s))"
    by (rule ledger_wf_last) (use assms(1) in \<open>simp add: sqlite_linv_def\<close>)
  have "unat (word_of_nat (length (sq_events s)) :: u64) < capacity"
    using assms(2) capacity_less(1) by (subst unat_word_of_nat) auto
  then have "\<not> ?top \<ge> CURSOR_MAX" unfolding top by (simp add: capacity_def word_le_nat_alt)
  then show ?thesis
    by (simp add: sqlite_append_checked_def abs_append_def top Let_def add.commute)
qed

text \<open>Clamping the bounds of a query to signed integers loses nothing.\<close>

lemma sql_matches_eq:
  assumes "ledger_wf es" and "e \<in> set es"
  shows "sql_matches q e = query_matches q e"
proof -
  from assms have "unat (le_cursor e) \<le> capacity" by (auto simp: ledger_wf_def in_set_conv_nth)
  then have "le_cursor e \<le> CURSOR_MAX" by (simp add: capacity_def word_le_nat_alt)
  then show ?thesis
    by (auto simp: sql_matches_def query_matches_def none_or_def min_def split: option.split)
qed

lemma sqlite_query_spec:
  assumes "sqlite_linv s"
  shows "sqlite_query s q =
     andthen (query_validate q) (Ok (take (lq_limit q) (filter (query_matches q) (sq_events s))))"
proof -
  have "filter (sql_matches q) (sq_events s) = filter (query_matches q) (sq_events s)"
    by (rule filter_cong) (use sql_matches_eq assms in \<open>auto simp: sqlite_linv_def\<close>)
  then show ?thesis by (simp add: sqlite_query_def)
qed

interpretation sqlite_store: ledger_store sqlite_ledger_ops sq_events sqlite_linv
  by unfold_locales
     (simp_all add: sqlite_ledger_ops_def sqlite_append_eq sqlite_query_spec sqlite_claim_def,
      simp_all add: sqlite_linv_def abs_append_wf)

section \<open>Properties of the adapters\<close>

definition file_empty :: "'p file_ledger" where
  "file_empty = \<lparr>fl_lines = [], fl_claims = []\<rparr>"

lemma empty_ledgers:
  "mem_linv mem_ledger_empty" "ls_events mem_ledger_empty = []"
  "file_linv file_empty" "file_events file_empty = []"
  "sqlite_linv sqlite_empty" "sq_events sqlite_empty = []"
  by (simp_all add: mem_linv_def mem_ledger_empty_def file_linv_def file_empty_def file_events_def
        sqlite_linv_def sqlite_empty_def)

lemma capacity_call: "length calls < capacity \<Longrightarrow> length ([] :: 'p ledger_event list) + length calls \<le> capacity"
  by simp

text \<open>The states the three adapters reach by the same calls from their empty states.\<close>

definition mem_after :: "'p ledger_call list \<Rightarrow> 'p ledger_state" where
  "mem_after calls = snd (run_calls mem_ledger mem_ledger_empty calls)"

definition file_after :: "'p ledger_call list \<Rightarrow> 'p file_ledger" where
  "file_after calls = snd (run_calls file_ledger_ops file_empty calls)"

definition sqlite_after :: "'p ledger_call list \<Rightarrow> 'p sqlite_ledger" where
  "sqlite_after calls = snd (run_calls sqlite_ledger_ops sqlite_empty calls)"

definition history_of :: "'p ledger_call list \<Rightarrow> 'p ledger_event list" where
  "history_of calls = snd (abs_run [] calls)"

lemma after_calls:
  assumes "length calls < capacity"
  shows "mem_linv (mem_after calls)" "ls_events (mem_after calls) = history_of calls"
    "file_linv (file_after calls)" "file_events (file_after calls) = history_of calls"
    "sqlite_linv (sqlite_after calls)" "sq_events (sqlite_after calls) = history_of calls"
  using mem_store.run_calls_ok [OF empty_ledgers(1), of calls] file_store.run_calls_ok [OF empty_ledgers(3), of calls]
    sqlite_store.run_calls_ok [OF empty_ledgers(5), of calls] assms
  by (simp_all add: mem_after_def file_after_def sqlite_after_def history_of_def empty_ledgers)

lemma history_length: "length calls < capacity \<Longrightarrow> length (history_of calls) < capacity"
  using abs_run_length [of "[]" calls] by (simp add: history_of_def)


definition sample_entry :: "string \<Rightarrow> ledger_event_kind \<Rightarrow> nat ledger_event" where
  "sample_entry i k = \<lparr>le_event_id = i, le_turn_id = ''t'', le_execution_id = ''x'', le_cursor = 0,
     le_kind = k, le_idempotency_key = i, le_payload = 7\<rparr>"

definition sample_calls :: "nat ledger_call list" where
  "sample_calls = [CallAppend (sample_entry ''a'' ExecutionStarted), CallAppend (sample_entry ''a'' TurnStarted),
     CallAdmit (sample_entry ''c'' ExecutionCancelled), CallAdmit (sample_entry ''d'' EffectStarted),
     CallEvents ''x'' 1]"

lemma sample_calls_small: "length (sample_calls @ sample_calls) < capacity"
  by (simp add: sample_calls_def capacity_less)

definition sample_history :: "nat ledger_event list" where
  "sample_history = [(sample_entry ''a'' ExecutionStarted)\<lparr>le_cursor := 1\<rparr>,
     (sample_entry ''c'' ExecutionCancelled)\<lparr>le_cursor := 2\<rparr>]"

lemma sample_entry_fields [simp]:
  "le_event_id (sample_entry i k) = i" "le_idempotency_key (sample_entry i k) = i"
  "le_execution_id (sample_entry i k) = ''x''" "le_kind (sample_entry i k) = k"
  by (simp_all add: sample_entry_def)

lemma sample_run:
  "abs_run [] sample_calls =
     ([AnswerEvent (Ok (sample_history ! 0)), AnswerEvent (Err (LedgerConflict ''a'')),
       AnswerEvent (Ok (sample_history ! 1)), AnswerEvent (Err (LedgerCancelled ''x'')),
       AnswerPage (Ok [sample_history ! 1])], sample_history)"
proof -
  let ?e1 = "(sample_entry ''a'' ExecutionStarted)\<lparr>le_cursor := 1\<rparr>"
  let ?e2 = "(sample_entry ''c'' ExecutionCancelled)\<lparr>le_cursor := 2\<rparr>"
  have 1: "abs_append False [] (sample_entry ''a'' ExecutionStarted) = (Ok ?e1, [?e1])"
    by (simp add: abs_append_def has_conflict_def sample_history_def Let_def)
  have 2: "abs_append False [?e1] (sample_entry ''a'' TurnStarted) = (Err (LedgerConflict ''a''), [?e1])"
    by (simp add: abs_append_def has_conflict_def sample_history_def)
  have 3: "abs_append True [?e1] (sample_entry ''c'' ExecutionCancelled) = (Ok ?e2, [?e1, ?e2])"
    by (simp add: abs_append_def has_conflict_def is_cancelled_def sample_history_def Let_def)
  have 4: "abs_append True [?e1, ?e2] (sample_entry ''d'' EffectStarted) = (Err (LedgerCancelled ''x''), [?e1, ?e2])"
    by (simp add: abs_append_def is_cancelled_def sample_history_def)
  have 5: "filter (\<lambda>e. le_execution_id e = ''x'' \<and> le_cursor e > 1) [?e1, ?e2] = [?e2]"
    by (simp add: sample_history_def)
  show ?thesis by (simp add: sample_calls_def sample_history_def 1 2 3 4 5 del: filter.simps)
qed

lemma history_of_sample: "history_of sample_calls = sample_history"
  by (simp add: history_of_def sample_run)


text \<open>
  After any calls on any adapter, the cursors of the recorded events are 1, 2, 3, \<dots> without a
  gap, and no two events share an identity or an idempotency key.
\<close>

theorem ledger_numbering:
  assumes "length calls < capacity"
  shows "ledger_wf (ls_events (mem_after calls)) \<and> ledger_wf (file_events (file_after calls))
    \<and> ledger_wf (sq_events (sqlite_after calls))"
  using after_calls [OF assms] mem_store.wf file_store.wf sqlite_store.wf by blast

theorem ledger_numbering_witness:
  "ledger_wf (ls_events (mem_after sample_calls)) \<and> ls_events (mem_after sample_calls) = sample_history"
proof -
  have len: "length sample_calls < capacity" using sample_calls_small by simp
  from ledger_numbering [OF len] show ?thesis by (simp add: after_calls(2) [OF len] history_of_sample)
qed

text \<open>
  The bounded pages of an execution lose nothing: on every adapter, after any calls, reading an
  execution from a cursor returns exactly its recorded events past the cursor, in order, however
  many pages that takes, and the lookup of an event returns the event with that identity.
\<close>

theorem execution_history_complete:
  assumes "length calls < capacity" and "x \<noteq> []"
  shows "(let answer = Ok (filter (\<lambda>e. le_execution_id e = x \<and> le_cursor e > a) (history_of calls));
              event = Ok (find (\<lambda>e. le_event_id e = x) (history_of calls)) in
     execution_events_after mem_ledger (mem_after calls) x a = answer
     \<and> execution_events_after file_ledger_ops (file_after calls) x a = answer
     \<and> execution_events_after sqlite_ledger_ops (sqlite_after calls) x a = answer
     \<and> event_by_id mem_ledger (mem_after calls) x = event
     \<and> event_by_id file_ledger_ops (file_after calls) x = event
     \<and> event_by_id sqlite_ledger_ops (sqlite_after calls) x = event)"
  using after_calls [OF assms(1)] assms(2)
  by (simp add: Let_def mem_store.execution_events_ok file_store.execution_events_ok sqlite_store.execution_events_ok
        mem_store.event_by_id_ok file_store.event_by_id_ok sqlite_store.event_by_id_ok)

theorem execution_history_complete_witness:
  "execution_events_after sqlite_ledger_ops (sqlite_after sample_calls) ''x'' 1 = Ok [sample_history ! 1]"
proof -
  have len: "length sample_calls < capacity" using sample_calls_small by simp
  have "filter (\<lambda>e. le_execution_id e = ''x'' \<and> le_cursor e > 1) sample_history = [sample_history ! 1]"
    by (simp add: sample_history_def)
  with execution_history_complete [OF len, of "''x''" 1] show ?thesis
    by (simp add: Let_def history_of_sample)
qed

text \<open>
  C36: A recorded cancellation is a barrier on every adapter: once an \<open>ExecutionCancelled\<close> event of an
  execution is recorded, whatever is called afterwards, no admission for that execution succeeds,
  and the refusal records nothing.
\<close>

theorem cancellation_barrier:
  assumes "length (before @ later) < capacity" and "is_cancelled (le_execution_id e) (history_of before)"
  shows "lo_append_unless_cancelled mem_ledger (mem_after (before @ later)) e =
      (Err (LedgerCancelled (le_execution_id e)), mem_after (before @ later))
    \<and> lo_append_unless_cancelled file_ledger_ops (file_after (before @ later)) e =
      (Err (LedgerCancelled (le_execution_id e)), file_after (before @ later))
    \<and> lo_append_unless_cancelled sqlite_ledger_ops (sqlite_after (before @ later)) e =
      (Err (LedgerCancelled (le_execution_id e)), sqlite_after (before @ later))"
proof -
  note after = after_calls [OF assms(1)]
  have "is_cancelled (le_execution_id e) (history_of (before @ later))"
    using abs_run_cancelled assms(2) by (simp add: history_of_def)
  then show ?thesis using after file_read [OF after(3)]
    by (simp add: mem_ledger_def mem_append_checked_def file_ledger_ops_def file_append_checked_def
        sqlite_ledger_ops_def sqlite_append_checked_def Let_def)
qed

theorem cancellation_barrier_witness:
  "lo_append_unless_cancelled mem_ledger (mem_after (sample_calls @ sample_calls)) (sample_entry ''z'' EffectStarted) =
     (Err (LedgerCancelled ''x''), mem_after (sample_calls @ sample_calls))"
proof -
  have "is_cancelled (le_execution_id (sample_entry ''z'' EffectStarted)) (history_of sample_calls)"
    by (simp add: history_of_sample is_cancelled_def sample_history_def)
  from cancellation_barrier [OF sample_calls_small this] show ?thesis by simp
qed

section \<open>Leases\<close>

text \<open>
  Runs of the store of leases: acquisitions, renewals, releases and ledger calls, in which
  execution \<open>x\<close> is acquired \<open>n\<close> times and its lease is never released.
\<close>

inductive lease_run :: "string \<Rightarrow> 'p sqlite_ledger \<Rightarrow> nat \<Rightarrow> 'p sqlite_ledger \<Rightarrow> bool" for x s where
  start: "lease_run x s 0 s"
| taken: "lease_run x s n s1 \<Longrightarrow> acquire_lease s1 x owner now ttl = (Ok l, s2) \<Longrightarrow> lease_run x s (Suc n) s2"
| refused: "lease_run x s n s1 \<Longrightarrow> acquire_lease s1 x owner now ttl = (Err er, s2) \<Longrightarrow> lease_run x s n s2"
| other: "lease_run x s n s1 \<Longrightarrow> y \<noteq> x \<Longrightarrow> lease_run x s n (snd (acquire_lease s1 y owner now ttl))"
| renewed: "lease_run x s n s1 \<Longrightarrow> lease_run x s n (snd (renew_lease s1 l now ttl))"
| released: "lease_run x s n s1 \<Longrightarrow> el_execution_id l \<noteq> x \<Longrightarrow> lease_run x s n (snd (release_lease s1 l))"
| recorded: "lease_run x s n s1 \<Longrightarrow> lease_run x s n (snd (perform sqlite_ledger_ops s1 call))"

lemma acquire_refused: "acquire_lease s x owner now ttl = (Err er, s') \<Longrightarrow> s' = s"
  by (auto simp: acquire_lease_def Let_def split: option.splits if_splits)

lemma acquire_Ok:
  assumes "acquire_lease s x owner now ttl = (Ok l, s')"
  obtains r where "r = (case sq_leases s x of None \<Rightarrow> 1 | Some c \<Rightarrow> lr_revision c + 1)"
    and "l = \<lparr>el_execution_id = x, el_owner_id = owner, el_revision = r, el_expires_at_ms = now + ttl\<rparr>"
    and "sq_leases s' = (sq_leases s)(x \<mapsto> \<lparr>lr_owner_id = owner, lr_revision = r, lr_expires_at_ms = now + ttl\<rparr>)"
  using assms by (auto simp: acquire_lease_def Let_def split: option.splits if_splits)

lemma perform_leases: "sq_leases (snd (perform sqlite_ledger_ops s c)) = sq_leases s"
  by (auto simp: perform_def sqlite_ledger_ops_def sqlite_append_checked_def sqlite_claim_def Let_def split_beta
      split: ledger_call.split)

lemma lease_run_revision:
  assumes "lease_run x s n s'" and "sq_leases s x = Some c"
  shows "\<exists>c'. sq_leases s' x = Some c' \<and> lr_revision c' = lr_revision c + word_of_nat n"
  using assms(1)
proof induction
  case (taken n s1 owner now ttl l s2)
  from taken(2) taken(3) show ?case by (elim acquire_Ok exE conjE) simp
next
  case (other n s1 y owner now ttl)
  then show ?case by (auto simp: acquire_lease_def Let_def split: option.splits)
next
  case (renewed n s1 l now ttl)
  then show ?case by (auto simp: renew_lease_def split: option.splits)
next
  case (released n s1 l)
  then show ?case by (auto simp: release_lease_def)
next
  case (recorded n s1 call)
  then show ?case by (simp add: perform_leases)
next
  case (refused n s1 owner now ttl er s2)
  from acquire_refused [OF refused(2)] refused(3) show ?case by simp
qed (use assms(2) in simp)



text \<open>
  A release forgets the revision: it deletes the row, the next acquisition starts again at
  revision 1, and a lease that its owner has released fits the row of the same owner's new lease,
  which it can renew and release.
\<close>

theorem released_lease_revives:
  assumes "sq_leases s x = None" and "acquire_lease s x owner now ttl = (Ok l, s1)"
    and "release_lease s1 l = (Ok (), s2)" and "acquire_lease s2 x owner now' ttl' = (Ok l', s3)"
  shows "el_revision l = 1 \<and> el_revision l' = 1 \<and> fst (release_lease s3 l) = Ok ()
    \<and> (sint now' < sint (now' + ttl') \<longrightarrow> is_ok (fst (renew_lease s3 l now' ttl'')))"
proof -
  from assms(2) assms(1) have l: "el_execution_id l = x" "el_owner_id l = owner" "el_revision l = 1"
    by (auto elim!: acquire_Ok)
  with assms(3) have "sq_leases s2 x = None" by (auto simp: release_lease_def split: if_splits)
  with assms(4) have "el_revision l' = 1" and row: "sq_leases s3 x = Some
      \<lparr>lr_owner_id = owner, lr_revision = 1, lr_expires_at_ms = now' + ttl'\<rparr>" by (auto elim!: acquire_Ok)
  with l show ?thesis by (simp add: release_lease_def renew_lease_def lease_matches_def)
qed

theorem released_lease_revives_witness:
  "\<exists>l s1 s2 l' s3. acquire_lease (sqlite_empty :: nat sqlite_ledger) ''x'' ''a'' 0 5 = (Ok l, s1)
     \<and> release_lease s1 l = (Ok (), s2) \<and> acquire_lease s2 ''x'' ''a'' 9 5 = (Ok l', s3)
     \<and> is_ok (fst (renew_lease s3 l 9 5))"
proof -
  have none: "sq_leases (sqlite_empty :: nat sqlite_ledger) ''x'' = None" by (simp add: sqlite_empty_def)
  obtain l s1 where 1: "acquire_lease (sqlite_empty :: nat sqlite_ledger) ''x'' ''a'' 0 5 = (Ok l, s1)"
    by (simp add: acquire_lease_def none)
  then have l: "lease_matches l (sq_leases s1 ''x'')" "el_execution_id l = ''x''"
    by (auto elim!: acquire_Ok simp: lease_matches_def)
  obtain s2 where 2: "release_lease s1 l = (Ok (), s2)" and s2: "sq_leases s2 ''x'' = None"
    by (simp add: release_lease_def l)
  obtain l' s3 where 3: "acquire_lease s2 ''x'' ''a'' 9 5 = (Ok l', s3)" by (simp add: acquire_lease_def s2)
  have "sint (9 :: u64) < sint (9 + 5 :: u64)" by simp
  with released_lease_revives [OF none 1 2 3, of 5] 1 2 3 show ?thesis by blast
qed

text \<open>The adapters differ on claims: only the file adapter refuses the key of a recorded event.\<close>

lemma claim_answers:
  "fst (mem_claim m k) = Ok (k \<notin> ls_claims m)"
  "file_linv f \<Longrightarrow> all_parsed (fl_claims f) = Ok claims \<Longrightarrow>
   fst (file_claim f k) = Ok (k \<notin> set claims \<and> k \<notin> le_idempotency_key ` set (file_events f))"
  by (auto simp: mem_claim_def file_claim_def file_read)

end
