(* ===== verification/Model_Types.thy ===== *)
theory Model_Types
  imports Kolyan_Prelude
begin

text \<open>
  The neutral model types of \<open>crates/kolyan-model\<close> that the turn engine works on, and the execution
  key of \<open>crates/kolyan-types\<close>. A \<open>serde_json::Value\<close> is the type parameter \<open>'j\<close>. Fields of a
  request that no modelled operation reads are one opaque component of type \<open>'r\<close>; images,
  documents and reasoning blocks keep their payload as \<open>'j\<close>.
\<close>

record execution_key =
  ek_session_id :: string
  ek_turn_id :: string
  ek_execution_id :: string

record 'j tool_call =
  cl_id :: string
  cl_name :: string
  cl_arguments :: 'j

record tool_result =
  tr_call_id :: string
  tr_content :: string
  tr_is_error :: bool

datatype 'j content_block =
    TextBlock string | ImageBlock 'j | DocumentBlock 'j "string option"
  | ToolCallBlock "'j tool_call" | ToolResultBlock tool_result | ReasoningBlock string "'j option"

datatype message_role = User | Assistant

record 'j message =
  me_role :: message_role
  me_content :: "'j content_block list"

record ('j, 'r) model_request =
  mr_request_id :: string
  mr_messages :: "'j message list"
  mr_rest :: 'r

datatype stop_reason = EndTurn | ToolUse | MaxOutputTokens | Refusal | OtherReason string

record ('j, 'r) model_response =
  rp_content :: "'j content_block list"
  rp_stop_reason :: stop_reason
  rp_rest :: 'r

datatype step_outcome = FinalAnswer | ToolCalls | Refused | Incomplete

record ('j, 'r) step_result =
  sp_step_id :: string
  sp_response :: "('j, 'r) model_response"
  sp_outcome :: step_outcome

definition tool_calls :: "'j content_block list \<Rightarrow> 'j tool_call list" where
  "tool_calls content =
     concat (map (\<lambda>b. case b of ToolCallBlock call \<Rightarrow> [call] | _ \<Rightarrow> []) content)"

text \<open>The outcome of a completed model response.\<close>

fun step_outcome_of :: "stop_reason \<Rightarrow> step_outcome" where
  "step_outcome_of EndTurn = FinalAnswer"
| "step_outcome_of ToolUse = ToolCalls"
| "step_outcome_of Refusal = Refused"
| "step_outcome_of MaxOutputTokens = Incomplete"
| "step_outcome_of (OtherReason _) = Incomplete"

text \<open>Numbers as \<open>format!\<close> prints them, and the identity of the step with an index.\<close>

fun decimal :: "nat \<Rightarrow> string" where
  "decimal n = (if n < 10 then [char_of (48 + n)] else decimal (n div 10) @ [char_of (48 + n mod 10)])"

declare decimal.simps [simp del]

definition step_id :: "string \<Rightarrow> nat \<Rightarrow> string" where
  "step_id turn_id index = turn_id @ ''-step-'' @ decimal index"

end
