(* ===== verification/Tool_Policy.thy ===== *)
theory Tool_Policy
  imports Model_Types "HOL-Library.Sublist"
begin

text \<open>
  The tool policy of \<open>crates/kolyan-policy\<close>: manifests and claims, the decision on a claim, batch
  stages (\<open>lib.rs\<close>), prepared calls and grants (\<open>prepared.rs\<close>, \<open>prepared_batch.rs\<close>), the canonical
  writer behind their digests (\<open>prepared/canonical.rs\<close>) and the progress rule (\<open>progress.rs\<close>). JSON
  values and SHA-256 are fields of \<open>policy_codec\<close>.
\<close>

section \<open>Claims and manifests\<close>

datatype capability =
    FilesystemRead | FilesystemWrite | ProcessInspect | ProcessExecute | NetworkConnect | SecretUse
  | AgentDelegate | SkillRead

datatype effect =
    EffectRead | EffectCreate | EffectUpdate | EffectDelete | EffectExecute | EffectExternalNetwork
  | EffectCredentialUse | EffectDelegate

datatype idempotency = Idempotent | NonIdempotent | UnknownIdempotency

datatype approval_mode = Never | OnRisk | Always

text \<open>A path scope is its prefix, which ends in a slash.\<close>

type_synonym path_scope = string

definition path_scope_new :: "string \<Rightarrow> path_scope" where
  "path_scope_new p = (if p \<noteq> [] \<and> last p = CHR ''/'' then p else p @ ''/'')"

definition scope_contains :: "path_scope \<Rightarrow> string \<Rightarrow> bool" where
  "scope_contains s path \<longleftrightarrow>
     path = rev (dropWhile (\<lambda>c. c = CHR ''/'') (rev s)) \<or> prefix s path"

record tool_manifest =
  tm_tool_name :: string
  tm_capabilities :: "capability set"
  tm_effects :: "effect set"
  tm_path_scopes :: "path_scope list"
  tm_idempotency :: idempotency
  tm_approval :: approval_mode

definition manifest_new :: "string \<Rightarrow> tool_manifest" where
  "manifest_new name = \<lparr>tm_tool_name = name, tm_capabilities = {}, tm_effects = {}, tm_path_scopes = [],
     tm_idempotency = UnknownIdempotency, tm_approval = OnRisk\<rparr>"

definition allows_path :: "tool_manifest \<Rightarrow> string \<Rightarrow> bool" where
  "allows_path m path \<longleftrightarrow>
     tm_path_scopes m = [] \<or> (\<exists>s \<in> set (tm_path_scopes m). scope_contains s path)"

record invocation_claim =
  ic_tool_name :: string
  ic_capabilities :: "capability set"
  ic_effects :: "effect set"
  ic_path :: "string option"
  ic_idempotency :: idempotency

text \<open>What the code uses of a JSON value and of SHA-256.\<close>

datatype 'j json_view = JObject "(string \<times> 'j) list" | JArray "'j list" | JScalar

record 'j json_ops =
  jv_view :: "'j \<Rightarrow> 'j json_view"
  jv_is_null :: "'j \<Rightarrow> bool"
  jv_path :: "'j \<Rightarrow> string option"
  jv_scalar_text :: "'j \<Rightarrow> string"
  jv_key_text :: "string \<Rightarrow> string"

definition is_object :: "'j json_ops \<Rightarrow> 'j \<Rightarrow> bool" where
  "is_object J j = (case jv_view J j of JObject _ \<Rightarrow> True | _ \<Rightarrow> False)"

definition claim_from_call :: "'j json_ops \<Rightarrow> 'j tool_call \<Rightarrow> invocation_claim" where
  "claim_from_call J call =
     (let (c, e, i) =
        (if cl_name call = ''file.read'' then (FilesystemRead, EffectRead, Idempotent)
         else if cl_name call = ''file.write'' then (FilesystemWrite, EffectUpdate, NonIdempotent)
         else if cl_name call = ''shell.query'' then (ProcessInspect, EffectRead, Idempotent)
         else (ProcessInspect, EffectExecute, UnknownIdempotency))
      in \<lparr>ic_tool_name = cl_name call, ic_capabilities = {c}, ic_effects = {e},
          ic_path = jv_path J (cl_arguments call), ic_idempotency = i\<rparr>)"

section \<open>Decisions\<close>

datatype decision_kind = Allow | AllowWithConstraints | RequireApproval | Deny

record execution_constraints =
  ec_max_output_bytes :: "u64 option"
  ec_timeout_ms :: "u64 option"

record policy_decision =
  pd_kind :: decision_kind
  pd_reason :: string
  pd_policy_version :: string
  pd_constraints :: execution_constraints

definition denied :: "string \<Rightarrow> policy_decision" where
  "denied reason = \<lparr>pd_kind = Deny, pd_reason = reason, pd_policy_version = ''v1'',
     pd_constraints = \<lparr>ec_max_output_bytes = None, ec_timeout_ms = None\<rparr>\<rparr>"

record execution_grant =
  eg_call_id :: string
  eg_tool_name :: string
  eg_policy_version :: string
  eg_constraints :: execution_constraints

datatype policy_error = PolicyDenied string | ApprovalRequired string

definition grant_of :: "policy_decision \<Rightarrow> 'j tool_call \<Rightarrow> execution_grant" where
  "grant_of d call = \<lparr>eg_call_id = cl_id call, eg_tool_name = cl_name call,
     eg_policy_version = pd_policy_version d, eg_constraints = pd_constraints d\<rparr>"

definition into_grant :: "policy_decision \<Rightarrow> 'j tool_call \<Rightarrow> (policy_error, execution_grant) res" where
  "into_grant d call =
     (case pd_kind d of
        RequireApproval \<Rightarrow> Err (ApprovalRequired (pd_reason d))
      | Deny \<Rightarrow> Err (PolicyDenied (pd_reason d))
      | _ \<Rightarrow> Ok (grant_of d call))"

definition into_approved_grant :: "policy_decision \<Rightarrow> 'j tool_call \<Rightarrow> (policy_error, execution_grant) res" where
  "into_approved_grant d call =
     (if pd_kind d \<noteq> RequireApproval then into_grant d call else Ok (grant_of d call))"

text \<open>The fields of the context that a decision reads.\<close>

record policy_context =
  px_workspace :: "string option"
  px_remaining_tool_calls :: "nat option"

record progress_policy =
  pp_repeat_limit :: nat
  pp_polling_tools :: "string set"

record policy_engine =
  pe_manifests :: "string \<rightharpoonup> tool_manifest"
  pe_denied_tools :: "string set"
  pe_workspace :: "path_scope option"
  pe_progress :: "progress_policy option"

definition engine_default :: policy_engine where
  "engine_default = \<lparr>pe_manifests = Map.empty, pe_denied_tools = {}, pe_workspace = None, pe_progress = None\<rparr>"

definition register_manifest :: "policy_engine \<Rightarrow> tool_manifest \<Rightarrow> policy_engine" where
  "register_manifest e m = e\<lparr>pe_manifests := (pe_manifests e)(tm_tool_name m \<mapsto> m)\<rparr>"

definition deny_tool :: "policy_engine \<Rightarrow> string \<Rightarrow> policy_engine" where
  "deny_tool e name = e\<lparr>pe_denied_tools := insert name (pe_denied_tools e)\<rparr>"

definition restrict_workspace :: "policy_engine \<Rightarrow> string \<Rightarrow> policy_engine" where
  "restrict_workspace e p = e\<lparr>pe_workspace := Some (path_scope_new p)\<rparr>"

definition outside :: "path_scope option \<Rightarrow> string \<Rightarrow> bool" where
  "outside s path = (case s of None \<Rightarrow> False | Some s \<Rightarrow> \<not> scope_contains s path)"

definition decide_claim :: "policy_engine \<Rightarrow> invocation_claim \<Rightarrow> policy_context \<Rightarrow> policy_decision" where
  "decide_claim e claim cx =
     (if px_remaining_tool_calls cx = Some 0 then denied ''tool-call budget is exhausted''
      else if ic_tool_name claim \<in> pe_denied_tools e then denied ''tool is denied by runtime policy''
      else
        (case pe_manifests e (ic_tool_name claim) of
           None \<Rightarrow> denied ''tool has no trusted manifest''
         | Some m \<Rightarrow>
             if \<not> ic_capabilities claim \<subseteq> tm_capabilities m \<or> \<not> ic_effects claim \<subseteq> tm_effects m
             then denied ''invocation exceeds the tool capability ceiling''
             else if (case ic_path claim of None \<Rightarrow> False
                      | Some path \<Rightarrow> \<not> allows_path m path \<or> outside (pe_workspace e) path
                          \<or> outside (map_option path_scope_new (px_workspace cx)) path)
             then denied ''resource is outside the allowed path scope''
             else
               let kind = (if tm_approval m = Always \<or> tm_approval m = OnRisk \<and> EffectDelete \<in> ic_effects claim
                           then RequireApproval else Allow)
               in \<lparr>pd_kind = kind, pd_reason = ''manifest ceiling and runtime policy allow the invocation'',
                   pd_policy_version = ''v1'',
                   pd_constraints = \<lparr>ec_max_output_bytes = Some (1024 * 1024), ec_timeout_ms = Some 30000\<rparr>\<rparr>))"

section \<open>Batch stages\<close>

record batch_decision =
  bd_call_id :: string
  bd_claim :: invocation_claim
  bd_decision :: policy_decision

record batch_plan =
  bp_decisions :: "batch_decision list"
  bp_stages :: "string list list"

definition writes :: "invocation_claim \<Rightarrow> bool" where
  "writes c \<longleftrightarrow> (\<exists>e \<in> {EffectCreate, EffectUpdate, EffectDelete, EffectExecute, EffectDelegate}. e \<in> ic_effects c)"

definition claims_conflict :: "invocation_claim \<Rightarrow> invocation_claim \<Rightarrow> bool" where
  "claims_conflict l r =
     (if \<not> writes l \<and> \<not> writes r then False
      else (case (ic_path l, ic_path r) of
              (Some a, Some b) \<Rightarrow> a = b \<or> prefix (b @ ''/'') a \<or> prefix (a @ ''/'') b
            | _ \<Rightarrow> True))"

definition executable :: "string list \<Rightarrow> batch_decision \<Rightarrow> bool" where
  "executable approved d \<longleftrightarrow>
     pd_kind (bd_decision d) = Allow \<or> pd_kind (bd_decision d) = AllowWithConstraints
     \<or> pd_kind (bd_decision d) = RequireApproval \<and> bd_call_id d \<in> set approved"

fun position :: "('a \<Rightarrow> bool) \<Rightarrow> 'a list \<Rightarrow> nat option" where
  "position P [] = None"
| "position P (x # xs) = (if P x then Some 0 else map_option Suc (position P xs))"

text \<open>The stage of the current call: one after every earlier call it conflicts with.\<close>

fun stage_index :: "string list \<Rightarrow> string list list \<Rightarrow> batch_decision \<Rightarrow> nat \<Rightarrow> batch_decision list \<Rightarrow> nat" where
  "stage_index approved stages current n [] = n"
| "stage_index approved stages current n (p # ps) =
     stage_index approved stages current
       (if executable approved p \<and> claims_conflict (bd_claim p) (bd_claim current)
        then (case position (\<lambda>stage. bd_call_id p \<in> set stage) stages of
                None \<Rightarrow> n | Some k \<Rightarrow> max n (k + 1))
        else n) ps"

definition push_stage :: "nat \<Rightarrow> string \<Rightarrow> string list list \<Rightarrow> string list list" where
  "push_stage k cid stages =
     (let padded = stages @ replicate (Suc k - length stages) []
      in padded[k := padded ! k @ [cid]])"

fun place_calls ::
  "string list \<Rightarrow> batch_decision list \<Rightarrow> string list list \<Rightarrow> batch_decision list \<Rightarrow> string list list" where
  "place_calls approved previous stages [] = stages"
| "place_calls approved previous stages (current # rest) =
     place_calls approved (previous @ [current])
       (if executable approved current
        then push_stage (stage_index approved stages current 0 previous) (bd_call_id current) stages
        else stages) rest"

definition execution_stages :: "batch_decision list \<Rightarrow> string list \<Rightarrow> string list list" where
  "execution_stages decisions approved = place_calls approved [] [] decisions"

definition stages_with_approvals :: "batch_plan \<Rightarrow> string list \<Rightarrow> string list list" where
  "stages_with_approvals plan approved = execution_stages (bp_decisions plan) approved"

section \<open>Prepared calls\<close>

record tool_execution_scope =
  sc_execution :: execution_key
  sc_step_id :: string
  sc_agent_snapshot_digest :: "string option"

datatype prepared_error = PreparedInvalid string | PreparedDenied string | BindingMismatch

definition identifier_bytes :: "string \<Rightarrow> bool" where
  "identifier_bytes v \<longleftrightarrow> v \<noteq> [] \<and> length v \<le> 256
     \<and> (\<forall>c \<in> set v. alnum c \<or> c \<in> set ''._:-'')"

definition scope_validate :: "tool_execution_scope \<Rightarrow> (prepared_error, unit) res" where
  "scope_validate s =
     (if \<exists>v \<in> set [ek_session_id (sc_execution s), ek_execution_id (sc_execution s),
                   ek_turn_id (sc_execution s), sc_step_id s]. \<not> identifier_bytes v
      then Err (PreparedInvalid ''execution coordinates must be 1..256 ASCII identifier bytes'')
      else
        (case sc_agent_snapshot_digest s of
           Some d \<Rightarrow>
             if length d \<noteq> 64 \<or> (\<exists>c \<in> set d. \<not> hex_digit c)
             then Err (PreparedInvalid ''Agent snapshot digest must be exactly 64 hex bytes'')
             else Ok ()
         | None \<Rightarrow> Ok ()))"

record tool_requirements =
  rq_process_sandbox :: bool
  rq_max_output_bytes :: u64
  rq_timeout_ms :: u64

record 'j prepared_call =
  pc_call :: "'j tool_call"
  pc_tool_revision :: string
  pc_claim :: invocation_claim
  pc_requirements :: tool_requirements
  pc_execution_binding :: 'j
  pc_digest :: string

section \<open>The canonical writer\<close>

text \<open>
  Canonical bytes are written by a loop over a stack of tokens into an output of bounded size.
  Objects and arrays write at least one byte before they push their members, and everything else
  only pops, so the loop ends on any value.
\<close>

datatype 'j token = TValue 'j | TKey string | TByte char

definition write_all :: "nat \<Rightarrow> string \<Rightarrow> string \<Rightarrow> (prepared_error, string) res" where
  "write_all limit out bytes =
     (if length out + length bytes > limit
      then Err (PreparedInvalid ''prepared input exceeds byte limit'') else Ok (out @ bytes))"

fun comma_separated :: "('a \<Rightarrow> 'j token list) \<Rightarrow> 'a list \<Rightarrow> 'j token list" where
  "comma_separated f [] = []"
| "comma_separated f [x] = f x"
| "comma_separated f (x # y # xs) = f x @ TByte (CHR '','') # comma_separated f (y # xs)"

definition object_tokens :: "(string \<times> 'j) list \<Rightarrow> 'j token list" where
  "object_tokens entries =
     comma_separated (\<lambda>(k, v). [TKey k, TByte (CHR '':''), TValue v]) (sort_key fst entries) @ [TByte (CHR ''}'')]"

definition array_tokens :: "'j list \<Rightarrow> 'j token list" where
  "array_tokens vs = comma_separated (\<lambda>v. [TValue v]) vs @ [TByte (CHR '']'')]"

declare bindr_cong [fundef_cong]

function canonical_loop ::
  "'j json_ops \<Rightarrow> nat \<Rightarrow> string \<Rightarrow> 'j token list \<Rightarrow> (prepared_error, string) res" where
  "canonical_loop J limit out [] = Ok out"
| "canonical_loop J limit out (TKey k # pending) =
     bindr (write_all limit out (jv_key_text J k)) (\<lambda>out'. canonical_loop J limit out' pending)"
| "canonical_loop J limit out (TByte b # pending) =
     bindr (write_all limit out [b]) (\<lambda>out'. canonical_loop J limit out' pending)"
| "canonical_loop J limit out (TValue v # pending) =
     (case jv_view J v of
        JObject entries \<Rightarrow>
          bindr (write_all limit out ''{'') (\<lambda>out'. canonical_loop J limit out' (object_tokens entries @ pending))
      | JArray vs \<Rightarrow>
          bindr (write_all limit out ''['') (\<lambda>out'. canonical_loop J limit out' (array_tokens vs @ pending))
      | JScalar \<Rightarrow>
          bindr (write_all limit out (jv_scalar_text J v)) (\<lambda>out'. canonical_loop J limit out' pending))"
  by pat_completeness auto
termination
  by (relation "measures [\<lambda>(J, limit, out, pending). limit - length out, \<lambda>(J, limit, out, pending). length pending]")
     (auto simp: write_all_def split: if_splits)

definition canonical_bytes :: "'j json_ops \<Rightarrow> 'j \<Rightarrow> nat \<Rightarrow> (prepared_error, string) res" where
  "canonical_bytes J v limit = canonical_loop J limit [] [TValue v]"

section \<open>Prepared calls and grants\<close>

record prepared_grant =
  pg_scope :: tool_execution_scope
  pg_call_id :: string
  pg_tool_name :: string
  pg_tool_revision :: string
  pg_prepared_digest :: string
  pg_policy_revision :: string
  pg_constraints :: execution_constraints
  pg_approval_evidence_id :: "string option"

text \<open>
  The other parts of \<open>serde_json\<close> and \<open>sha2\<close> that the policy uses: \<open>Value::Null\<close>, \<open>json!\<close> of the
  content of a prepared call, \<open>to_value\<close> of a grant, the text of the rules, and the hexadecimal
  digest of bytes.
\<close>

record 'j policy_codec =
  pk_json :: "'j json_ops"
  pk_null :: 'j
  pk_prepared_value :: "'j tool_call \<Rightarrow> string \<Rightarrow> invocation_claim \<Rightarrow> tool_requirements \<Rightarrow> 'j \<Rightarrow> 'j"
  pk_grant_value :: "prepared_grant \<Rightarrow> 'j"
  pk_rules_text :: "policy_engine \<Rightarrow> string"
  pk_sha256_hex :: "string \<Rightarrow> string"

definition compute_digest :: "'j policy_codec \<Rightarrow> 'j prepared_call \<Rightarrow> (prepared_error, string) res" where
  "compute_digest K p =
     bindr (canonical_bytes (pk_json K)
              (pk_prepared_value K (pc_call p) (pc_tool_revision p) (pc_claim p) (pc_requirements p) (pc_execution_binding p))
              (1024 * 1024)) (\<lambda>bytes.
       Ok (pk_sha256_hex K bytes))"

definition validate_fields :: "'j policy_codec \<Rightarrow> 'j prepared_call \<Rightarrow> (prepared_error, unit) res" where
  "validate_fields K p =
     (if \<exists>i \<in> set [cl_id (pc_call p), cl_name (pc_call p), pc_tool_revision p]. blank i \<or> length i > 1024
      then Err (PreparedInvalid ''empty or oversized identity'')
      else if cl_name (pc_call p) \<noteq> ic_tool_name (pc_claim p)
         \<or> \<not> is_object (pk_json K) (cl_arguments (pc_call p))
         \<or> ic_capabilities (pc_claim p) = {}
         \<or> ic_effects (pc_claim p) = {}
         \<or> rq_max_output_bytes (pc_requirements p) = 0
         \<or> rq_timeout_ms (pc_requirements p) = 0
         \<or> (\<not> jv_is_null (pk_json K) (pc_execution_binding p) \<and> \<not> is_object (pk_json K) (pc_execution_binding p))
      then Err (PreparedInvalid ''inconsistent semantics or limits'')
      else Ok ())"

definition prepared_new ::
  "'j policy_codec \<Rightarrow> 'j tool_call \<Rightarrow> string \<Rightarrow> invocation_claim \<Rightarrow> tool_requirements
   \<Rightarrow> (prepared_error, 'j prepared_call) res" where
  "prepared_new K call revision claim requirements =
     (let p = \<lparr>pc_call = call, pc_tool_revision = revision, pc_claim = claim, pc_requirements = requirements,
               pc_execution_binding = pk_null K, pc_digest = []\<rparr>
      in andthen (validate_fields K p)
        (bindr (compute_digest K p) (\<lambda>d. Ok (p\<lparr>pc_digest := d\<rparr>))))"

definition prepared_validate :: "'j policy_codec \<Rightarrow> 'j prepared_call \<Rightarrow> (prepared_error, unit) res" where
  "prepared_validate K p =
     andthen (validate_fields K p)
    (bindr (compute_digest K p) (\<lambda>d.
       if d \<noteq> pc_digest p then Err (PreparedInvalid ''digest mismatch'') else Ok ()))"

definition with_execution_binding ::
  "'j policy_codec \<Rightarrow> 'j prepared_call \<Rightarrow> 'j \<Rightarrow> (prepared_error, 'j prepared_call) res" where
  "with_execution_binding K p binding =
     andthen (prepared_validate K p)
    (let p = p\<lparr>pc_execution_binding := binding\<rparr>
     in andthen (validate_fields K p)
       (bindr (compute_digest K p) (\<lambda>d. Ok (p\<lparr>pc_digest := d\<rparr>))))"

datatype approval_evidence =
    NotConfirmed
  | Confirmed tool_execution_scope string string string \<comment> \<open>scope, prepared digest, policy revision, evidence id\<close>

definition evidence_id_of ::
  "'j prepared_call \<Rightarrow> policy_decision \<Rightarrow> approval_evidence \<Rightarrow> tool_execution_scope
   \<Rightarrow> (prepared_error, string option) res" where
  "evidence_id_of prepared decision approval scope =
     (case approval of
        NotConfirmed \<Rightarrow> Ok None
      | Confirmed s digest revision evidence \<Rightarrow>
          if s = scope \<and> digest = pc_digest prepared \<and> revision = pd_policy_version decision
             \<and> \<not> blank evidence \<and> length evidence \<le> 1024
          then Ok (Some evidence) else Err BindingMismatch)"

definition issue_grant ::
  "'j policy_codec \<Rightarrow> 'j prepared_call \<Rightarrow> policy_decision \<Rightarrow> approval_evidence \<Rightarrow> tool_execution_scope
   \<Rightarrow> (prepared_error, prepared_grant) res" where
  "issue_grant K prepared decision approval scope =
     andthen (prepared_validate K prepared)
    (andthen (scope_validate scope)
    (bindr (evidence_id_of prepared decision approval scope) (\<lambda>evidence.
     if \<not> (pd_kind decision = Allow \<or> pd_kind decision = AllowWithConstraints
           \<or> pd_kind decision = RequireApproval \<and> evidence \<noteq> None)
     then Err (PreparedDenied (pd_reason decision))
     else if blank (pd_policy_version decision) then Err (PreparedInvalid ''empty policy revision'')
     else
       let rq = pc_requirements prepared;
           output = min (case ec_max_output_bytes (pd_constraints decision) of
                           None \<Rightarrow> rq_max_output_bytes rq | Some n \<Rightarrow> n) (rq_max_output_bytes rq);
           timeout = min (case ec_timeout_ms (pd_constraints decision) of
                            None \<Rightarrow> rq_timeout_ms rq | Some n \<Rightarrow> n) (rq_timeout_ms rq)
       in if output = 0 \<or> timeout = 0 then Err (PreparedInvalid ''zero execution limit'')
          else Ok \<lparr>pg_scope = scope, pg_call_id = cl_id (pc_call prepared),
             pg_tool_name = cl_name (pc_call prepared), pg_tool_revision = pc_tool_revision prepared,
             pg_prepared_digest = pc_digest prepared, pg_policy_revision = pd_policy_version decision,
             pg_constraints = \<lparr>ec_max_output_bytes = Some output, ec_timeout_ms = Some timeout\<rparr>,
             pg_approval_evidence_id = evidence\<rparr>)))"

definition limit_refused :: "u64 option \<Rightarrow> u64 \<Rightarrow> bool" where
  "limit_refused limit ceiling = (case limit of None \<Rightarrow> True | Some l \<Rightarrow> l = 0 \<or> l > ceiling)"

definition grant_validate ::
  "'j policy_codec \<Rightarrow> prepared_grant \<Rightarrow> 'j prepared_call \<Rightarrow> string \<Rightarrow> tool_execution_scope
   \<Rightarrow> (prepared_error, unit) res" where
  "grant_validate K g prepared revision expected =
     andthen (prepared_validate K prepared)
    (andthen (scope_validate (pg_scope g))
    (andthen (scope_validate expected)
    (if pg_scope g \<noteq> expected
        \<or> pg_call_id g \<noteq> cl_id (pc_call prepared)
        \<or> pg_tool_name g \<noteq> cl_name (pc_call prepared)
        \<or> pg_tool_revision g \<noteq> pc_tool_revision prepared
        \<or> pg_prepared_digest g \<noteq> pc_digest prepared
        \<or> pg_policy_revision g \<noteq> revision
        \<or> limit_refused (ec_max_output_bytes (pg_constraints g)) (rq_max_output_bytes (pc_requirements prepared))
        \<or> limit_refused (ec_timeout_ms (pg_constraints g)) (rq_timeout_ms (pc_requirements prepared))
     then Err BindingMismatch else Ok ())))"

subsection \<open>Fingerprints\<close>

definition FINGERPRINT_DOMAIN :: string where
  "FINGERPRINT_DOMAIN = ''kolyan.prepared-grant.fingerprint/v1'' @ [CHR 0x00]"

definition FINGERPRINT_MAX_BYTES :: nat where "FINGERPRINT_MAX_BYTES = 1048576"

fun preflight_sum :: "nat \<Rightarrow> nat \<Rightarrow> string list \<Rightarrow> (prepared_error, unit) res" where
  "preflight_sum limit sum_so_far [] = Ok ()"
| "preflight_sum limit sum_so_far (v # vs) =
     (if sum_so_far + length v \<le> limit then preflight_sum limit (sum_so_far + length v) vs
      else Err (PreparedInvalid ''grant fingerprint string preflight exceeds byte limit''))"

definition option_list :: "'a option \<Rightarrow> 'a list" where
  "option_list x = (case x of None \<Rightarrow> [] | Some y \<Rightarrow> [y])"

definition preflight :: "prepared_grant \<Rightarrow> nat \<Rightarrow> (prepared_error, unit) res" where
  "preflight g limit =
     (let s = pg_scope g; x = sc_execution s in
      preflight_sum limit 0
        ([ek_session_id x, ek_turn_id x, ek_execution_id x, sc_step_id s, pg_call_id g, pg_tool_name g,
          pg_tool_revision g, pg_prepared_digest g, pg_policy_revision g]
         @ option_list (sc_agent_snapshot_digest s) @ option_list (pg_approval_evidence_id g)))"

definition fingerprint :: "'j policy_codec \<Rightarrow> prepared_grant \<Rightarrow> nat \<Rightarrow> (prepared_error, string) res" where
  "fingerprint K g max_bytes =
     (if \<not> (1 \<le> max_bytes \<and> max_bytes \<le> FINGERPRINT_MAX_BYTES)
      then Err (PreparedInvalid ''grant fingerprint bound must be 1..=1048576'')
      else if max_bytes < length FINGERPRINT_DOMAIN
      then Err (PreparedInvalid ''grant fingerprint domain exceeds byte limit'')
      else
        let limit = max_bytes - length FINGERPRINT_DOMAIN in
        andthen (preflight g limit)
       (bindr (canonical_bytes (pk_json K) (pk_grant_value K g) limit) (\<lambda>bytes.
          Ok (pk_sha256_hex K (FINGERPRINT_DOMAIN @ bytes)))))"

section \<open>The engine\<close>

definition revision :: "'j policy_codec \<Rightarrow> policy_engine \<Rightarrow> string" where
  "revision K e = ''kolyan-policy-v3/'' @ pk_sha256_hex K (pk_rules_text K e)"

definition stamp :: "'j policy_codec \<Rightarrow> policy_engine \<Rightarrow> policy_decision \<Rightarrow> policy_decision" where
  "stamp K e d = d\<lparr>pd_policy_version := revision K e\<rparr>"

definition decide_with_context ::
  "'j policy_codec \<Rightarrow> policy_engine \<Rightarrow> 'j tool_call \<Rightarrow> policy_context \<Rightarrow> policy_decision" where
  "decide_with_context K e call cx = stamp K e (decide_claim e (claim_from_call (pk_json K) call) cx)"

text \<open>The message of an error, as \<open>to_string\<close> gives it.\<close>

fun prepared_error_text :: "prepared_error \<Rightarrow> string" where
  "prepared_error_text (PreparedInvalid m) = ''invalid prepared call: '' @ m"
| "prepared_error_text (PreparedDenied m) = ''prepared grant denied: '' @ m"
| "prepared_error_text BindingMismatch = ''prepared grant binding mismatch''"

definition decide_prepared ::
  "'j policy_codec \<Rightarrow> policy_engine \<Rightarrow> 'j prepared_call \<Rightarrow> policy_context \<Rightarrow> policy_decision" where
  "decide_prepared K e call cx =
     (case prepared_validate K call of
        Err er \<Rightarrow> stamp K e (denied (prepared_error_text er))
      | _ \<Rightarrow> stamp K e (decide_claim e (pc_claim call) cx))"

definition resolve_batch ::
  "'j policy_codec \<Rightarrow> policy_engine \<Rightarrow> policy_context \<Rightarrow> 'j tool_call list \<Rightarrow> batch_plan" where
  "resolve_batch K e cx calls =
     (let decisions = map (\<lambda>c. \<lparr>bd_call_id = cl_id c, bd_claim = claim_from_call (pk_json K) c,
                              bd_decision = decide_with_context K e c cx\<rparr>) calls
      in \<lparr>bp_decisions = decisions, bp_stages = execution_stages decisions []\<rparr>)"

fun prepared_decisions ::
  "'j policy_codec \<Rightarrow> policy_engine \<Rightarrow> policy_context \<Rightarrow> string set \<Rightarrow> 'j prepared_call list
   \<Rightarrow> (prepared_error, batch_decision list) res" where
  "prepared_decisions K e cx seen [] = Ok []"
| "prepared_decisions K e cx seen (p # ps) =
     andthen (prepared_validate K p)
    (if cl_id (pc_call p) \<in> seen then Err (PreparedInvalid ''duplicate prepared call ID'')
     else bindr (prepared_decisions K e cx (insert (cl_id (pc_call p)) seen) ps) (\<lambda>ds.
       Ok (\<lparr>bd_call_id = cl_id (pc_call p), bd_claim = pc_claim p, bd_decision = decide_prepared K e p cx\<rparr> # ds)))"

definition resolve_prepared_batch ::
  "'j policy_codec \<Rightarrow> policy_engine \<Rightarrow> policy_context \<Rightarrow> 'j prepared_call list
   \<Rightarrow> (prepared_error, batch_plan) res" where
  "resolve_prepared_batch K e cx calls =
     bindr (prepared_decisions K e cx {} calls) (\<lambda>decisions.
       Ok \<lparr>bp_decisions = decisions, bp_stages = execution_stages decisions []\<rparr>)"

section \<open>Progress\<close>

datatype progress_error = RepeatLimitZero | NoManifest | NotReadOnly

fun check_polling :: "policy_engine \<Rightarrow> string list \<Rightarrow> (progress_error, unit) res" where
  "check_polling e [] = Ok ()"
| "check_polling e (n # ns) =
     bindr (ok_or (pe_manifests e n) NoManifest) (\<lambda>m.
       if tm_effects m = {} \<or> (\<exists>f \<in> tm_effects m. f \<noteq> EffectRead) then Err NotReadOnly
       else check_polling e ns)"

definition with_progress_policy ::
  "policy_engine \<Rightarrow> progress_policy \<Rightarrow> (progress_error, policy_engine) res" where
  "with_progress_policy e p =
     (if pp_repeat_limit p = 0 then Err RepeatLimitZero
      else andthen (check_polling e (sorted_list_of_set (pp_polling_tools p)))
             (Ok (e\<lparr>pe_progress := Some p\<rparr>)))"

text \<open>The calls not answered yet, the last answered signature and its repeats.\<close>

record 'j progress_scan =
  ps_calls :: "string \<rightharpoonup> 'j tool_call"
  ps_last :: "(string \<times> 'j \<times> string \<times> bool) option"
  ps_repeats :: nat

definition scan_block :: "'j progress_scan \<Rightarrow> 'j content_block \<Rightarrow> 'j progress_scan" where
  "scan_block s b =
     (case b of
        ToolCallBlock call \<Rightarrow> s\<lparr>ps_calls := (ps_calls s)(cl_id call \<mapsto> call)\<rparr>
      | ToolResultBlock r \<Rightarrow>
          (case ps_calls s (tr_call_id r) of
             None \<Rightarrow> s
           | Some call \<Rightarrow>
               let signature = (cl_name call, cl_arguments call, tr_content r, tr_is_error r);
                   s' = s\<lparr>ps_calls := (ps_calls s)(tr_call_id r := None)\<rparr>
               in if ps_last s = Some signature then s'\<lparr>ps_repeats := ps_repeats s + 1\<rparr>
                  else s'\<lparr>ps_last := Some signature, ps_repeats := 1\<rparr>)
      | _ \<Rightarrow> s)"

definition scan_messages :: "'j message list \<Rightarrow> 'j progress_scan" where
  "scan_messages ms = foldl scan_block \<lparr>ps_calls = Map.empty, ps_last = None, ps_repeats = 0\<rparr> (concat (map me_content ms))"

definition has_no_progress :: "policy_engine \<Rightarrow> 'j tool_call \<Rightarrow> 'j message list \<Rightarrow> bool" where
  "has_no_progress e nxt ms =
     (case pe_progress e of
        None \<Rightarrow> False
      | Some p \<Rightarrow>
          if cl_name nxt \<in> pp_polling_tools p then False
          else
            let s = scan_messages ms in
            ps_repeats s \<ge> pp_repeat_limit p
            \<and> (case ps_last s of None \<Rightarrow> False
                | Some (name, args, _, _) \<Rightarrow> name = cl_name nxt \<and> args = cl_arguments nxt))"

end
