(* ===== verification/Policy_Properties.thy ===== *)
theory Policy_Properties
  imports Tool_Policy "HOL-Library.Multiset"
begin

text \<open>
  What the tool policy promises: batch stages keep conflicting calls apart and in order, a grant
  exists only within the manifest, the decision and the evidence it was issued from, and the
  canonical writer produces the canonical text.
\<close>

section \<open>Stages\<close>

lemma position_Some: "position P xs = Some k \<Longrightarrow> k < length xs \<and> P (xs ! k)"
  by (induction xs arbitrary: k) (auto split: if_splits simp: nth_Cons')

lemma position_None: "position P xs = None \<longleftrightarrow> (\<forall>x \<in> set xs. \<not> P x)"
  by (induction xs) auto

abbreviation stage_of :: "string \<Rightarrow> string list list \<Rightarrow> nat option" where
  "stage_of i stages \<equiv> position (\<lambda>stage. i \<in> set stage) stages"

lemma stage_index_bound:
  "n \<le> length stages \<Longrightarrow> n \<le> stage_index approved stages current n ps \<and>
     stage_index approved stages current n ps \<le> length stages"
proof (induction ps arbitrary: n)
  case (Cons p ps)
  let ?n = "if executable approved p \<and> claims_conflict (bd_claim p) (bd_claim current)
        then (case stage_of (bd_call_id p) stages of None \<Rightarrow> n | Some k \<Rightarrow> max n (k + 1)) else n"
  have "n \<le> ?n" "?n \<le> length stages"
    using Cons.prems by (auto split: option.splits dest: position_Some)
  with Cons.IH [of ?n] show ?case by simp
qed simp

lemma stage_index_after:
  assumes "n \<le> length stages" and "p \<in> set ps" and "executable approved p"
    and "claims_conflict (bd_claim p) (bd_claim current)" and "stage_of (bd_call_id p) stages = Some k"
  shows "k < stage_index approved stages current n ps"
  using assms(1,2)
proof (induction ps arbitrary: n)
  case (Cons q ps)
  let ?n = "if executable approved q \<and> claims_conflict (bd_claim q) (bd_claim current)
        then (case stage_of (bd_call_id q) stages of None \<Rightarrow> n | Some k \<Rightarrow> max n (k + 1)) else n"
  have le: "?n \<le> length stages" using Cons.prems(1) by (auto split: option.splits dest: position_Some)
  show ?case
  proof (cases "q = p")
    case True
    with assms(3-5) have "k < ?n" by simp
    also have "?n \<le> stage_index approved stages current ?n ps" using stage_index_bound [OF le] by blast
    finally show ?thesis by simp
  next
    case False
    with Cons.prems(2) Cons.IH [OF le] show ?thesis by simp
  qed
qed simp

lemma push_stage_eq:
  assumes "k \<le> length stages"
  shows "push_stage k i stages =
    (if k < length stages then stages[k := stages ! k @ [i]] else stages @ [[i]])"
proof (cases "k < length stages")
  case False
  with assms have "k = length stages" by simp
  then show ?thesis by (simp add: push_stage_def)
qed (simp add: push_stage_def)

lemma push_stage_mset: "k \<le> length stages \<Longrightarrow> mset (concat (push_stage k i stages)) = add_mset i (mset (concat stages))"
proof -
  assume k: "k \<le> length stages"
  have "mset (concat (xs[k := xs ! k @ [i]])) = add_mset i (mset (concat xs))" if "k < length xs" for xs
    using that by (induction xs arbitrary: k) (auto simp: nth_Cons' split: nat.splits)
  with k show ?thesis by (simp add: push_stage_eq)
qed

lemma push_stage_nonempty: "k \<le> length stages \<Longrightarrow> [] \<notin> set stages \<Longrightarrow> [] \<notin> set (push_stage k i stages)"
  using set_update_subset_insert [of stages k "stages ! k @ [i]"] by (auto simp: push_stage_eq)

lemma push_stage_nth:
  assumes "k \<le> length stages"
  shows "i \<in> set (push_stage k i stages ! k)" and "k < length (push_stage k i stages)"
    and "a < length stages \<Longrightarrow> x \<in> set (stages ! a) \<Longrightarrow> x \<in> set (push_stage k i stages ! a)"
    and "length stages \<le> length (push_stage k i stages)"
  using assms by (auto simp: push_stage_eq nth_list_update nth_append)

text \<open>The stages of the calls placed so far.\<close>

definition conflicts_ordered :: "string list \<Rightarrow> batch_decision list \<Rightarrow> string list list \<Rightarrow> bool" where
  "conflicts_ordered approved ds stages \<longleftrightarrow>
     (\<forall>i j. i < j \<longrightarrow> j < length ds \<longrightarrow> executable approved (ds ! i) \<longrightarrow> executable approved (ds ! j) \<longrightarrow>
        claims_conflict (bd_claim (ds ! i)) (bd_claim (ds ! j)) \<longrightarrow>
        (\<exists>a b. a < b \<and> b < length stages \<and> bd_call_id (ds ! i) \<in> set (stages ! a) \<and> bd_call_id (ds ! j) \<in> set (stages ! b)))"

definition placed :: "string list \<Rightarrow> batch_decision list \<Rightarrow> string list list \<Rightarrow> bool" where
  "placed approved ds stages \<longleftrightarrow>
     mset (concat stages) = mset (map bd_call_id (filter (executable approved) ds))
     \<and> [] \<notin> set stages \<and> conflicts_ordered approved ds stages"

lemma placed_step:
  assumes pl: "placed approved ds stages"
  shows "placed approved (ds @ [d])
    (if executable approved d then push_stage (stage_index approved stages d 0 ds) (bd_call_id d) stages else stages)"
proof (cases "executable approved d")
  case False
  with pl show ?thesis by (auto simp: placed_def conflicts_ordered_def nth_append less_Suc_eq)
next
  case True
  let ?k = "stage_index approved stages d 0 ds"
  let ?s = "push_stage ?k (bd_call_id d) stages"
  have k: "?k \<le> length stages" using stage_index_bound [of 0 stages approved d ds] by simp
  have m: "mset (concat stages) = mset (map bd_call_id (filter (executable approved) ds))"
    and ne: "[] \<notin> set stages" using pl by (auto simp: placed_def)
  have old: "\<exists>a b. a < b \<and> b < length ?s \<and> bd_call_id (ds ! i) \<in> set (?s ! a) \<and> bd_call_id (ds ! j) \<in> set (?s ! b)"
    if "i < j" "j < length ds" "executable approved (ds ! i)" "executable approved (ds ! j)"
      "claims_conflict (bd_claim (ds ! i)) (bd_claim (ds ! j))" for i j
  proof -
    from pl have "conflicts_ordered approved ds stages" by (simp add: placed_def)
    with that obtain a b where ab: "a < b" "b < length stages"
      "bd_call_id (ds ! i) \<in> set (stages ! a)" "bd_call_id (ds ! j) \<in> set (stages ! b)"
      unfolding conflicts_ordered_def by blast
    then have "a < length stages" by simp
    with ab push_stage_nth(3,4) [OF k] show ?thesis by (meson less_le_trans)
  qed
  have new: "\<exists>a b. a < b \<and> b < length ?s \<and> bd_call_id (ds ! i) \<in> set (?s ! a) \<and> bd_call_id d \<in> set (?s ! b)"
    if "i < length ds" "executable approved (ds ! i)" "claims_conflict (bd_claim (ds ! i)) (bd_claim d)" for i
  proof -
    have "bd_call_id (ds ! i) \<in> set (concat stages)"
      using that m [THEN mset_eq_setD] by auto
    then have "stage_of (bd_call_id (ds ! i)) stages \<noteq> None" by (auto simp: position_None)
    then obtain a where a: "stage_of (bd_call_id (ds ! i)) stages = Some a" by auto
    have "a < ?k" by (rule stage_index_after [OF _ _ that(2,3) a]) (use that(1) in auto)
    moreover from position_Some [OF a] have "a < length stages" "bd_call_id (ds ! i) \<in> set (stages ! a)" by auto
    ultimately show ?thesis using push_stage_nth [OF k] by blast
  qed
  show ?thesis unfolding placed_def conflicts_ordered_def
  proof (intro conjI allI impI, goal_cases)
    case 1
    show ?case using True m push_stage_mset [OF k] by simp
  next
    case 2
    show ?case using True push_stage_nonempty [OF k ne] by simp
  next
    case (3 i j)
    then consider "j < length ds" | "j = length ds" "i < length ds" by fastforce
    then show ?case using 3 True old [of i j] new [of i] by cases (auto simp: nth_append)
  qed
qed

lemma place_calls_placed: "placed approved ds stages \<Longrightarrow> placed approved (ds @ rest) (place_calls approved ds stages rest)"
proof (induction rest arbitrary: ds stages)
  case (Cons d rest)
  from Cons.IH [OF placed_step [OF Cons.prems, of d]] show ?case by simp
qed simp

text \<open>
  C39: The stages of a batch hold exactly the calls that may run, each once, no stage is empty, and
  of two calls with conflicting claims the earlier one is in an earlier stage; so, with distinct
  call identities, calls of one stage never conflict.
\<close>

theorem stages_sound:
  "(let stages = execution_stages ds approved in
     mset (concat stages) = mset (map bd_call_id (filter (executable approved) ds))
     \<and> [] \<notin> set stages
     \<and> (\<forall>i j. i < j \<longrightarrow> j < length ds \<longrightarrow> executable approved (ds ! i) \<longrightarrow> executable approved (ds ! j) \<longrightarrow>
          claims_conflict (bd_claim (ds ! i)) (bd_claim (ds ! j)) \<longrightarrow>
          (\<exists>a b. a < b \<and> b < length stages \<and> bd_call_id (ds ! i) \<in> set (stages ! a) \<and> bd_call_id (ds ! j) \<in> set (stages ! b))))"
proof -
  have "placed approved [] []" by (simp add: placed_def conflicts_ordered_def)
  from place_calls_placed [OF this, of ds] show ?thesis
    by (simp add: placed_def conflicts_ordered_def execution_stages_def Let_def)
qed

definition sample_decision :: "string \<Rightarrow> effect \<Rightarrow> string \<Rightarrow> batch_decision" where
  "sample_decision i e path = \<lparr>bd_call_id = i,
     bd_claim = \<lparr>ic_tool_name = ''file.write'', ic_capabilities = {FilesystemWrite}, ic_effects = {e},
       ic_path = Some path, ic_idempotency = NonIdempotent\<rparr>,
     bd_decision = (denied [])\<lparr>pd_kind := Allow\<rparr>\<rparr>"

definition sample_batch :: "batch_decision list" where
  "sample_batch = [sample_decision ''w'' EffectUpdate ''/a'', sample_decision ''r'' EffectRead ''/a/b'',
     sample_decision ''o'' EffectRead ''/c'']"

theorem stages_sound_witness:
  "(\<exists>a b. a < b \<and> b < length (execution_stages sample_batch []) \<and> ''w'' \<in> set (execution_stages sample_batch [] ! a)
      \<and> ''r'' \<in> set (execution_stages sample_batch [] ! b))
   \<and> execution_stages sample_batch [] = [[''w'', ''o''], [''r'']]"
proof
  have "claims_conflict (bd_claim (sample_batch ! 0)) (bd_claim (sample_batch ! 1))"
    by (simp add: sample_batch_def sample_decision_def claims_conflict_def writes_def)
  moreover have "executable [] (sample_batch ! 0)" "executable [] (sample_batch ! 1)"
    "bd_call_id (sample_batch ! 0) = ''w''" "bd_call_id (sample_batch ! 1) = ''r''" "1 < length sample_batch"
    by (simp_all add: sample_batch_def sample_decision_def executable_def)
  ultimately show "\<exists>a b. a < b \<and> b < length (execution_stages sample_batch []) \<and> ''w'' \<in> set (execution_stages sample_batch [] ! a)
      \<and> ''r'' \<in> set (execution_stages sample_batch [] ! b)"
    using stages_sound [of sample_batch "[]"] unfolding Let_def by (metis zero_less_one)
next
  show "execution_stages sample_batch [] = [[''w'', ''o''], [''r'']]"
    by (simp add: execution_stages_def sample_batch_def sample_decision_def executable_def push_stage_def
        claims_conflict_def writes_def denied_def)
qed

text \<open>A batch of prepared calls has distinct identities, in the order of the calls.\<close>

lemma prepared_decisions_ids:
  assumes "prepared_decisions K e cx seen ps = Ok ds"
  shows "map bd_call_id ds = map (cl_id \<circ> pc_call) ps \<and> distinct (map bd_call_id ds)
    \<and> set (map bd_call_id ds) \<inter> seen = {}"
  using assms
proof (induction ps arbitrary: seen ds)
  case (Cons p ps)
  from Cons.prems obtain rest where new: "cl_id (pc_call p) \<notin> seen"
    and rest: "prepared_decisions K e cx (insert (cl_id (pc_call p)) seen) ps = Ok rest"
    and ds: "\<lparr>bd_call_id = cl_id (pc_call p), bd_claim = pc_claim p, bd_decision = decide_prepared K e p cx\<rparr> # rest = ds"
    unfolding prepared_decisions.simps res_simps res.inject by blast
  from Cons.IH [OF rest] have ih: "map bd_call_id rest = map (cl_id \<circ> pc_call) ps" "distinct (map bd_call_id rest)"
    "set (map bd_call_id rest) \<inter> insert (cl_id (pc_call p)) seen = {}" by blast+
  have ids: "map bd_call_id ds = cl_id (pc_call p) # map bd_call_id rest" by (simp add: ds [symmetric])
  from ih(3) have "cl_id (pc_call p) \<notin> set (map bd_call_id rest)" "set (map bd_call_id rest) \<inter> seen = {}" by blast+
  with ih(1,2) new show ?case unfolding ids by (simp only: list.map distinct.simps list.set comp_apply) simp
qed simp

section \<open>Grants\<close>

lemma prepared_validate_Ok: "prepared_validate K p = Ok () \<longleftrightarrow> validate_fields K p = Ok () \<and> compute_digest K p = Ok (pc_digest p)"
  by (auto simp: prepared_validate_def res_simps)

lemma issue_grant_Ok:
  assumes "issue_grant K p d a s = Ok g"
  shows "prepared_validate K p = Ok ()" and "scope_validate s = Ok ()"
    and "pd_kind d = Allow \<or> pd_kind d = AllowWithConstraints
      \<or> pd_kind d = RequireApproval \<and> (\<exists>e. a = Confirmed s (pc_digest p) (pd_policy_version d) e)"
    and "grant_validate K g p (pd_policy_version d) s = Ok ()"
proof -
  from assms obtain ev where v: "prepared_validate K p = Ok ()" "scope_validate s = Ok ()"
    and ev: "evidence_id_of p d a s = Ok ev"
    and kind: "pd_kind d = Allow \<or> pd_kind d = AllowWithConstraints \<or> pd_kind d = RequireApproval \<and> ev \<noteq> None"
    and rest: "(let rq = pc_requirements p;
           output = min (case ec_max_output_bytes (pd_constraints d) of
                           None \<Rightarrow> rq_max_output_bytes rq | Some n \<Rightarrow> n) (rq_max_output_bytes rq);
           timeout = min (case ec_timeout_ms (pd_constraints d) of
                            None \<Rightarrow> rq_timeout_ms rq | Some n \<Rightarrow> n) (rq_timeout_ms rq)
       in if output = 0 \<or> timeout = 0 then Err (PreparedInvalid ''zero execution limit'')
          else Ok \<lparr>pg_scope = s, pg_call_id = cl_id (pc_call p),
             pg_tool_name = cl_name (pc_call p), pg_tool_revision = pc_tool_revision p,
             pg_prepared_digest = pc_digest p, pg_policy_revision = pd_policy_version d,
             pg_constraints = \<lparr>ec_max_output_bytes = Some output, ec_timeout_ms = Some timeout\<rparr>,
             pg_approval_evidence_id = ev\<rparr>) = Ok g"
    unfolding issue_grant_def res_simps by blast
  show "prepared_validate K p = Ok ()" "scope_validate s = Ok ()" by (fact v)+
  from ev have "ev \<noteq> None \<Longrightarrow> \<exists>e. a = Confirmed s (pc_digest p) (pd_policy_version d) e"
    by (auto simp: evidence_id_of_def split: approval_evidence.splits if_splits)
  with kind show "pd_kind d = Allow \<or> pd_kind d = AllowWithConstraints
      \<or> pd_kind d = RequireApproval \<and> (\<exists>e. a = Confirmed s (pc_digest p) (pd_policy_version d) e)" by blast
  from rest v show "grant_validate K g p (pd_policy_version d) s = Ok ()"
    by (auto simp: grant_validate_def Let_def limit_refused_def split: if_splits)
qed

lemma grant_validate_exact:
  assumes "grant_validate K g p r s = Ok ()"
  shows "pg_scope g = s" "pg_call_id g = cl_id (pc_call p)" "pg_prepared_digest g = pc_digest p" "pg_policy_revision g = r"
    "prepared_validate K p = Ok ()"
  using assms by (auto simp: grant_validate_def res_simps)

lemma decide_claim_kinds:
  assumes "pd_kind (decide_claim e claim cx) \<noteq> Deny"
  shows "px_remaining_tool_calls cx \<noteq> Some 0" and "ic_tool_name claim \<notin> pe_denied_tools e"
    and "\<exists>m. pe_manifests e (ic_tool_name claim) = Some m \<and> ic_capabilities claim \<subseteq> tm_capabilities m
      \<and> ic_effects claim \<subseteq> tm_effects m
      \<and> (\<forall>path. ic_path claim = Some path \<longrightarrow> allows_path m path \<and> \<not> outside (pe_workspace e) path)
      \<and> (pd_kind (decide_claim e claim cx) = RequireApproval \<longleftrightarrow>
           tm_approval m = Always \<or> tm_approval m = OnRisk \<and> EffectDelete \<in> ic_effects claim)"
  using assms by (auto simp: decide_claim_def denied_def Let_def split: if_splits option.splits)


text \<open>A concrete codec and engine for the witnesses: every value is an empty object.\<close>

definition sample_codec :: "unit policy_codec" where
  "sample_codec = \<lparr>pk_json = \<lparr>jv_view = \<lambda>_. JObject [], jv_is_null = \<lambda>_. False, jv_path = \<lambda>_. None,
       jv_scalar_text = \<lambda>_. [], jv_key_text = \<lambda>k. k\<rparr>,
     pk_null = (), pk_prepared_value = \<lambda>_ _ _ _ _. (), pk_grant_value = \<lambda>_. (),
     pk_rules_text = \<lambda>_. ''rules'', pk_sha256_hex = \<lambda>b. ''h'' @ b\<rparr>"

definition sample_engine :: policy_engine where
  "sample_engine = register_manifest engine_default
     \<lparr>tm_tool_name = ''file.write'', tm_capabilities = {FilesystemWrite}, tm_effects = {EffectUpdate},
      tm_path_scopes = [], tm_idempotency = NonIdempotent, tm_approval = Always\<rparr>"

definition sample_call :: "string \<Rightarrow> unit tool_call" where
  "sample_call i = \<lparr>cl_id = i, cl_name = ''file.write'', cl_arguments = ()\<rparr>"

definition sample_prepared :: "string \<Rightarrow> unit prepared_call" where
  "sample_prepared i = \<lparr>pc_call = sample_call i, pc_tool_revision = ''r'',
     pc_claim = \<lparr>ic_tool_name = ''file.write'', ic_capabilities = {FilesystemWrite}, ic_effects = {EffectUpdate},
       ic_path = None, ic_idempotency = NonIdempotent\<rparr>,
     pc_requirements = \<lparr>rq_process_sandbox = False, rq_max_output_bytes = 100, rq_timeout_ms = 5\<rparr>,
     pc_execution_binding = (), pc_digest = ''h{}''\<rparr>"

definition sample_scope :: tool_execution_scope where
  "sample_scope = \<lparr>sc_execution = \<lparr>ek_session_id = ''s'', ek_turn_id = ''t'', ek_execution_id = ''x''\<rparr>,
     sc_step_id = ''t-step-0'', sc_agent_snapshot_digest = None\<rparr>"

definition sample_context :: policy_context where
  "sample_context = \<lparr>px_workspace = None, px_remaining_tool_calls = Some 2\<rparr>"

lemma not_blank [simp]: "\<not> blank (CHR ''r'' # s)" "\<not> blank (CHR ''k'' # s)" "\<not> blank (CHR ''f'' # s)" "\<not> blank (CHR ''e'' # s)"
  by (cases s; cases "tl s"; simp add: blank_def ws3_def)+

lemma sample_prepared_valid: "prepared_validate sample_codec (sample_prepared ''r'') = Ok ()"
  by (simp add: prepared_validate_def validate_fields_def sample_prepared_def sample_call_def sample_codec_def
      is_object_def compute_digest_def canonical_bytes_def write_all_def object_tokens_def)

lemma sample_scope_valid: "scope_validate sample_scope = Ok ()"
  by (simp add: scope_validate_def sample_scope_def identifier_bytes_def alnum_def Let_def)


section \<open>The canonical writer\<close>

fun join :: "string list \<Rightarrow> string" where
  "join [] = []"
| "join [t] = t"
| "join (t # u # ts) = t @ '','' @ join (u # ts)"

text \<open>The canonical text of a value of depth at most \<open>n\<close>, by recursion on the depth.\<close>

fun canonical_text :: "nat \<Rightarrow> 'j json_ops \<Rightarrow> 'j \<Rightarrow> string option" where
  "canonical_text 0 J v = None"
| "canonical_text (Suc n) J v =
     (case jv_view J v of
        JScalar \<Rightarrow> Some (jv_scalar_text J v)
      | JArray vs \<Rightarrow> map_option (\<lambda>ts. ''['' @ join ts @ '']'') (those (map (canonical_text n J) vs))
      | JObject es \<Rightarrow>
          map_option (\<lambda>ts. ''{'' @ join ts @ ''}'')
            (those (map (\<lambda>(k, v). map_option (\<lambda>t. jv_key_text J k @ '':'' @ t) (canonical_text n J v)) (sort_key fst es))))"

definition token_text :: "nat \<Rightarrow> 'j json_ops \<Rightarrow> 'j token \<Rightarrow> string option" where
  "token_text n J t = (case t of TValue v \<Rightarrow> canonical_text n J v | TKey k \<Rightarrow> Some (jv_key_text J k) | TByte b \<Rightarrow> Some [b])"

lemma write_all_append:
  "bindr (write_all limit out a) (\<lambda>o1. bindr (write_all limit o1 b) k) = bindr (write_all limit out (a @ b)) k"
  by (auto simp: write_all_def)

text \<open>The text of a list of tokens, if every value in it has one.\<close>

fun tokens_text :: "nat \<Rightarrow> 'j json_ops \<Rightarrow> 'j token list \<Rightarrow> string option" where
  "tokens_text n J [] = Some []"
| "tokens_text n J (t # ts) =
     (case token_text n J t of None \<Rightarrow> None | Some a \<Rightarrow> map_option ((@) a) (tokens_text n J ts))"

lemma tokens_text_append:
  "tokens_text n J (xs @ ys) = (case tokens_text n J xs of None \<Rightarrow> None | Some a \<Rightarrow> map_option ((@) a) (tokens_text n J ys))"
  by (induction xs; cases "tokens_text n J ys") (auto split: option.splits)

lemma comma_separated_text:
  assumes f: "\<And>x. tokens_text n J (f x) = g x"
  shows "tokens_text n J (comma_separated f xs) = map_option join (those (map g xs))"
proof (induction xs rule: induct_list012)
  case (3 x y xs)
  have "those (map g (y # xs)) = Some [] \<Longrightarrow> False" by (auto split: option.splits)
  then have ne: "those (map g (y # xs)) = Some ts \<Longrightarrow> \<exists>u us. ts = u # us" for ts by (cases ts) auto
  have "tokens_text n J (comma_separated f (x # y # xs)) =
      (case g x of None \<Rightarrow> None | Some a \<Rightarrow> map_option (\<lambda>t. a @ '','' @ t) (tokens_text n J (comma_separated f (y # xs))))"
    by (cases "tokens_text n J (comma_separated f (y # xs))")
       (auto simp: tokens_text_append f token_text_def split: option.split)
  also have "\<dots> = map_option join (those (map g (x # y # xs)))"
    unfolding 3(2) using ne
    by (cases "g x"; cases "those (map g (y # xs))") (fastforce simp del: list.map simp: list.map(2) [of g x])+
  finally show ?case .
next
  case (2 x)
  show ?case by (simp add: f split: option.split)
qed simp

lemma object_tokens_text:
  "tokens_text n J (object_tokens es) = map_option (\<lambda>ts. join ts @ ''}'')
     (those (map (\<lambda>(k, v). map_option (\<lambda>t. jv_key_text J k @ '':'' @ t) (canonical_text n J v)) (sort_key fst es)))"
  unfolding object_tokens_def tokens_text_append
  by (subst comma_separated_text [where g = "\<lambda>(k, v). map_option (\<lambda>t. jv_key_text J k @ '':'' @ t) (canonical_text n J v)"])
     (auto simp: token_text_def split: option.splits)

lemma array_tokens_text:
  "tokens_text n J (array_tokens vs) = map_option (\<lambda>ts. join ts @ '']'') (those (map (canonical_text n J) vs))"
  unfolding array_tokens_def tokens_text_append
  by (subst comma_separated_text [where g = "canonical_text n J"]) (auto simp: token_text_def split: option.splits)

lemma canonical_loop_list:
  assumes step: "\<And>t a out pending. token_text n J t = Some a \<Longrightarrow>
      canonical_loop J limit out (t # pending) = bindr (write_all limit out a) (\<lambda>o1. canonical_loop J limit o1 pending)"
    and "ts \<noteq> []" and "tokens_text n J ts = Some w"
  shows "canonical_loop J limit out (ts @ pending) = bindr (write_all limit out w) (\<lambda>o1. canonical_loop J limit o1 pending)"
  using assms(2,3)
proof (induction ts arbitrary: w out rule: list_nonempty_induct)
  case (single t)
  then show ?case by (auto simp: step split: option.splits)
next
  case (cons t ts)
  then obtain a b where a: "token_text n J t = Some a" and b: "tokens_text n J ts = Some b" and w: "w = a @ b"
    by (auto split: option.splits)
  show ?case by (simp add: step [OF a] cons.IH [OF b] write_all_append w)
qed

lemma tokens_nonempty [simp]: "object_tokens es \<noteq> []" "array_tokens vs \<noteq> []"
  by (simp_all add: object_tokens_def array_tokens_def)

lemma canonical_loop_token:
  "token_text n J t = Some a \<Longrightarrow>
   canonical_loop J limit out (t # pending) = bindr (write_all limit out a) (\<lambda>o1. canonical_loop J limit o1 pending)"
proof (induction n arbitrary: t a out pending)
  case 0
  then show ?case by (cases t) (auto simp: token_text_def)
next
  case (Suc n)
  have list: "canonical_loop J limit out (ts @ pending) = bindr (write_all limit out w) (\<lambda>o1. canonical_loop J limit o1 pending)"
    if "tokens_text n J ts = Some w" "ts \<noteq> []" for ts w out pending
    by (rule canonical_loop_list [OF Suc.IH that(2,1)])
  show ?case
  proof (cases t)
    case (TValue v)
    with Suc.prems have a: "canonical_text (Suc n) J v = Some a" by (simp add: token_text_def)
    show ?thesis
    proof (cases "jv_view J v")
      case (JObject es)
      with a obtain w where w: "tokens_text n J (object_tokens es) = Some w" "a = ''{'' @ w"
        by (auto simp: object_tokens_text)
      show ?thesis
        by (simp add: TValue JObject list [OF w(1)] write_all_append w(2) del: append.simps)
    next
      case (JArray vs)
      with a obtain w where w: "tokens_text n J (array_tokens vs) = Some w" "a = ''['' @ w"
        by (auto simp: array_tokens_text)
      show ?thesis
        by (simp add: TValue JArray list [OF w(1)] write_all_append w(2) del: append.simps)
    next
      case JScalar
      with a show ?thesis by (simp add: TValue)
    qed
  qed (use Suc.prems in \<open>auto simp: token_text_def\<close>)
qed

text \<open>
  C40: The canonical writer is exact: on a value of bounded depth its loop over a stack of tokens
  writes the recursive canonical text with its keys in order, or refuses exactly when that text is
  longer than the limit; and the order in which an object lists its members does not matter.
\<close>

theorem canonical_writer:
  assumes "canonical_text n J v = Some w"
  shows "canonical_bytes J v limit =
      (if length w \<le> limit then Ok w else Err (PreparedInvalid ''prepared input exceeds byte limit''))
    \<and> (\<forall>v' es es'. jv_view J v = JObject es \<longrightarrow> jv_view J v' = JObject es' \<longrightarrow> mset es' = mset es \<longrightarrow>
         distinct (map fst es) \<longrightarrow> canonical_bytes J v' limit = canonical_bytes J v limit)"
proof (intro conjI allI impI)
  have "token_text n J (TValue v) = Some w" using assms by (simp add: token_text_def)
  from canonical_loop_token [OF this, of limit "[]" "[]"]
  show "canonical_bytes J v limit =
      (if length w \<le> limit then Ok w else Err (PreparedInvalid ''prepared input exceeds byte limit''))"
    by (simp add: canonical_bytes_def write_all_def)
next
  fix v' es es'
  assume views: "jv_view J v = JObject es" "jv_view J v' = JObject es'" and perm: "mset es' = mset es"
    and distinct: "distinct (map fst es)"
  have "sort_key fst es' = sort_key fst es"
    using perm distinct mset_eq_setD [OF perm]
    by (intro sort_key_inj_key_eq) (simp_all add: distinct_map)
  then show "canonical_bytes J v' limit = canonical_bytes J v limit"
    by (simp add: canonical_bytes_def views object_tokens_def)
qed

definition nested_ops :: "nat json_ops" where
  "nested_ops = \<lparr>jv_view = \<lambda>v. if v = 2 then JObject [(''b'', 0), (''a'', 1)] else if v = 1 then JArray [0, 0] else JScalar,
     jv_is_null = \<lambda>_. False, jv_path = \<lambda>_. None, jv_scalar_text = \<lambda>_. ''7'', jv_key_text = \<lambda>k. k\<rparr>"

theorem canonical_writer_witness:
  "canonical_bytes nested_ops 2 20 = Ok ''{a:[7,7],b:7}'' \<and> canonical_bytes nested_ops 2 5 = Err (PreparedInvalid ''prepared input exceeds byte limit'')"
proof -
  have "canonical_text 3 nested_ops 2 = Some ''{a:[7,7],b:7}''"
    by (simp add: nested_ops_def eval_nat_numeral)
  from canonical_writer [OF this] show ?thesis by simp
qed

end
