(* ===== verification/Turn_Checkpoint.thy ===== *)
theory Turn_Checkpoint
  imports Tool_Policy
begin

text \<open>
  The checkpoint of a turn, \<open>crates/kolyan-core/src/turn/checkpoint.rs\<close>, \<open>outcome.rs\<close> and
  \<open>suspension.rs\<close>, with the batch of tool calls of \<open>turn.rs\<close>: validation, reconstruction, the
  waiting summary and the two pure merges. The sizes of encodings, decoding and the bytes behind
  host identities are fields of \<open>turn_codec\<close>.
\<close>

section \<open>Batches of tool calls\<close>

datatype tool_error =
    Uncertain string | InvalidBatch string | Unavailable string | ToolFailed string
  | ToolCancelled | ToolTimedOut | PolicyDeniedCall string

fun tool_error_text :: "tool_error \<Rightarrow> string" where
  "tool_error_text (Uncertain m) = ''tool outcome is uncertain and requires trusted recovery: '' @ m"
| "tool_error_text (InvalidBatch m) = ''invalid tool call batch: '' @ m"
| "tool_error_text (Unavailable n) = ''tool is unavailable: '' @ n"
| "tool_error_text (ToolFailed m) = ''tool execution failed: '' @ m"
| "tool_error_text ToolCancelled = ''tool execution was cancelled''"
| "tool_error_text ToolTimedOut = ''tool execution timed out''"
| "tool_error_text (PolicyDeniedCall m) = ''tool execution denied by policy: '' @ m"

fun check_call_ids :: "string set \<Rightarrow> 'j tool_call list \<Rightarrow> (tool_error, unit) res" where
  "check_call_ids seen [] = Ok ()"
| "check_call_ids seen (c # cs) =
     (if cl_id c \<in> seen then Err (InvalidBatch (''duplicate tool call id: '' @ cl_id c))
      else check_call_ids (insert (cl_id c) seen) cs)"

definition batch_of_calls :: "'j tool_call list \<Rightarrow> (tool_error, 'j tool_call list) res" where
  "batch_of_calls calls =
     (if calls = [] then Err (InvalidBatch ''tool call batch must not be empty'')
      else andthen (check_call_ids {} calls) (Ok calls))"

record dispatch_result =
  dr_call_id :: string
  dr_result :: "(tool_error, tool_result) res"

fun check_results ::
  "'j tool_call list \<Rightarrow> string set \<Rightarrow> dispatch_result list \<Rightarrow> (tool_error, unit) res" where
  "check_results calls seen [] =
     (if \<exists>c \<in> set calls. cl_id c \<notin> seen then Err (InvalidBatch ''tool result batch is missing a call id'') else Ok ())"
| "check_results calls seen (d # ds) =
     (case find (\<lambda>c. cl_id c = dr_call_id d) calls of
        None \<Rightarrow> Err (InvalidBatch (''unknown tool result call id: '' @ dr_call_id d))
      | Some c \<Rightarrow>
          if dr_call_id d \<in> seen then Err (InvalidBatch (''duplicate tool result call id: '' @ dr_call_id d))
          else
            (case dr_result d of
               Ok r \<Rightarrow>
                 if tr_call_id r \<noteq> cl_id c
                 then Err (InvalidBatch (''tool result call id mismatch: expected '' @ cl_id c @ '', got '' @ tr_call_id r))
                 else check_results calls (insert (dr_call_id d) seen) ds
             | _ \<Rightarrow> check_results calls (insert (dr_call_id d) seen) ds))"

definition validate_results :: "'j tool_call list \<Rightarrow> dispatch_result list \<Rightarrow> (tool_error, unit) res" where
  "validate_results calls results =
     (if length results \<noteq> length calls
      then Err (InvalidBatch (''expected '' @ decimal (length calls) @ '' tool results, got '' @ decimal (length results)))
      else check_results calls {} results)"

section \<open>Checkpoint data\<close>

definition TURN_CHECKPOINT_SCHEMA :: u32 where "TURN_CHECKPOINT_SCHEMA = 1"
definition MAX_TURN_CHECKPOINT_BYTES :: nat where "MAX_TURN_CHECKPOINT_BYTES = 16 * 1024 * 1024"
definition MAX_EXTERNAL_BINDING_BYTES :: nat where "MAX_EXTERNAL_BINDING_BYTES = 64 * 1024"

datatype checkpoint_error =
    CheckpointInvalid string | ForeignScope | OutputLimit | CheckpointLimit | CheckpointJson

record 'j external_wait =
  ew_wait_id :: string
  ew_kind :: string
  ew_schema_version :: u32
  ew_binding :: 'j

datatype 'j tool_outcome = OutcomeCompleted tool_result | OutcomeAwaiting "'j external_wait"

record 'j external_resolution =
  xr_call_id :: string
  xr_wait :: "'j external_wait"
  xr_result :: tool_result

record 'j issued_authority =
  ia_prepared :: "'j prepared_call"
  ia_grant :: prepared_grant
  ia_scope :: tool_execution_scope
  ia_policy_revision :: string

datatype 'j call_state =
    CallReady | CallCompleted tool_result "'j issued_authority option"
  | CallAwaiting "'j external_wait" "'j issued_authority"

record 'j checkpoint_call =
  cc_call :: "'j tool_call"
  cc_prepared :: "'j prepared_call option"
  cc_charged :: bool
  cc_state :: "'j call_state"

record 'j checkpoint_approval =
  ca_approval_id :: string
  ca_reason :: string
  ca_prepared :: "'j prepared_call"
  ca_scope :: tool_execution_scope
  ca_policy_revision :: string
  ca_evidence_id :: "string option"
  ca_expires_at_ms :: "u64 option"

record checkpoint_budget =
  cb_max_steps :: nat
  cb_max_tool_calls :: "nat option"
  cb_deadline_at_ms :: "u64 option"
  cb_tool_timeout_ms :: "u64 option"
  cb_prior_tool_calls_used :: nat
  cb_tool_calls_used :: nat

datatype dispatch_mode = Serial | Parallel
datatype tool_error_policy = FailTurn | ContinueBatch

record dispatch_policy =
  dp_mode :: dispatch_mode
  dp_on_error :: tool_error_policy

record ('j, 'r) turn_checkpoint =
  ck_schema_version :: u32
  ck_checkpoint_id :: string
  ck_scope :: tool_execution_scope
  ck_model_request :: "('j, 'r) model_request"
  ck_input_message_count :: nat
  ck_steps :: "('j, 'r) step_result list"
  ck_next_step_index :: nat
  ck_calls :: "'j checkpoint_call list"
  ck_stages :: "string list list"
  ck_stage_index :: nat
  ck_approvals :: "'j checkpoint_approval list"
  ck_budget :: checkpoint_budget
  ck_dispatch :: dispatch_policy

record ('j, 'r) reconstruction =
  ri_scope :: tool_execution_scope
  ri_model_request :: "('j, 'r) model_request"
  ri_input_message_count :: nat
  ri_steps :: "('j, 'r) step_result list"
  ri_calls :: "'j checkpoint_call list"
  ri_stages :: "string list list"
  ri_stage_index :: nat
  ri_approvals :: "'j checkpoint_approval list"
  ri_budget :: checkpoint_budget
  ri_dispatch :: dispatch_policy

text \<open>
  What \<open>serde_json\<close> gives: the sizes of the successive writes of a checkpoint and whether the
  serializer then fails, the encoded sizes of a result and of a value, decoding, and the encoded
  coordinates that are hashed to host identities.
\<close>

record ('j, 'r) turn_codec =
  tk_policy :: "'j policy_codec"
  tk_checkpoint_writes :: "('j, 'r) turn_checkpoint \<Rightarrow> nat list \<times> bool"
  tk_result_size :: "tool_result \<Rightarrow> nat"
  tk_value_size :: "'j \<Rightarrow> nat"
  tk_decode :: "string \<Rightarrow> ('j, 'r) turn_checkpoint option"
  tk_scope_bytes :: "string \<Rightarrow> tool_execution_scope \<Rightarrow> string"
  tk_approval_bytes :: "string \<Rightarrow> tool_execution_scope \<times> string \<times> string \<times> string \<Rightarrow> string"

definition host_identity :: "('j, 'r) turn_codec \<Rightarrow> string \<Rightarrow> string \<Rightarrow> string" where
  "host_identity T kind bytes = kind @ ''-'' @ pk_sha256_hex (tk_policy T) bytes"

definition check_identifier :: "string \<Rightarrow> (checkpoint_error, unit) res" where
  "check_identifier v = (if identifier_bytes v then Ok ()
     else Err (CheckpointInvalid ''identity must be 1..256 ASCII identifier bytes''))"

text \<open>The counting writer: the error is the limit's if the count passed it.\<close>

fun encoded_limit :: "nat \<Rightarrow> nat list \<Rightarrow> bool \<Rightarrow> (checkpoint_error, unit) res" where
  "encoded_limit written [] fails = (if fails then Err CheckpointJson else Ok ())"
| "encoded_limit written (n # ns) fails =
     (if written + n > MAX_TURN_CHECKPOINT_BYTES then Err CheckpointLimit else encoded_limit (written + n) ns fails)"

definition wait_validate :: "('j, 'r) turn_codec \<Rightarrow> 'j external_wait \<Rightarrow> (checkpoint_error, unit) res" where
  "wait_validate T w =
     andthen (check_identifier (ew_wait_id w))
    (andthen (check_identifier (ew_kind w))
    (if ew_schema_version w = 0 \<or> \<not> is_object (pk_json (tk_policy T)) (ew_binding w)
     then Err (CheckpointInvalid ''invalid external wait schema or binding'')
     else if tk_value_size T (ew_binding w) > MAX_EXTERNAL_BINDING_BYTES
     then Err (CheckpointInvalid ''external binding exceeds byte limit'')
     else Ok ()))"

definition invalid_prepared :: "(prepared_error, 'a) res \<Rightarrow> (checkpoint_error, 'a) res" where
  "invalid_prepared r = map_err (\<lambda>e. CheckpointInvalid (prepared_error_text e)) r"

definition authority_validate ::
  "('j, 'r) turn_codec \<Rightarrow> 'j issued_authority \<Rightarrow> tool_execution_scope \<Rightarrow> (checkpoint_error, unit) res" where
  "authority_validate T a expected =
     (if blank (ia_policy_revision a) then Err (CheckpointInvalid ''empty policy revision'')
      else if ia_scope a \<noteq> expected then Err ForeignScope
      else invalid_prepared (grant_validate (tk_policy T) (ia_grant a) (ia_prepared a) (ia_policy_revision a) expected))"

definition validate_result ::
  "('j, 'r) turn_codec \<Rightarrow> 'j issued_authority \<Rightarrow> tool_result \<Rightarrow> (checkpoint_error, unit) res" where
  "validate_result T a r =
     (if tr_call_id r \<noteq> cl_id (pc_call (ia_prepared a))
      then Err (CheckpointInvalid ''result call differs from issued preparation'')
      else bindr (ok_or (ec_max_output_bytes (pg_constraints (ia_grant a)))
                   (CheckpointInvalid ''issued output limit is missing'')) (\<lambda>limit.
        if tk_result_size T r > unat limit then Err OutputLimit else Ok ()))"

definition validate_authority ::
  "('j, 'r) turn_codec \<Rightarrow> tool_execution_scope \<Rightarrow> 'j checkpoint_call \<Rightarrow> 'j issued_authority
   \<Rightarrow> (checkpoint_error, unit) res" where
  "validate_authority T scope item a =
     andthen (authority_validate T a scope)
    (if cc_prepared item \<noteq> Some (ia_prepared a)
     then Err (CheckpointInvalid ''issued preparation differs from saved call'') else Ok ())"

section \<open>Validation\<close>

abbreviation invalid_checkpoint :: "string \<Rightarrow> (checkpoint_error, 'a) res" where
  "invalid_checkpoint m \<equiv> Err (CheckpointInvalid m)"

definition check_boundary :: "('j, 'r) turn_checkpoint \<Rightarrow> (checkpoint_error, unit) res" where
  "check_boundary c =
     (if ck_schema_version c \<noteq> TURN_CHECKPOINT_SCHEMA
         \<or> ck_steps c = []
         \<or> ck_next_step_index c \<noteq> length (ck_steps c)
         \<or> length (ck_steps c) > cb_max_steps (ck_budget c)
         \<or> ck_input_message_count c > length (mr_messages (ck_model_request c))
         \<or> ck_calls c = []
         \<or> ck_stages c = []
         \<or> ck_stage_index c > length (ck_stages c)
         \<or> cb_tool_timeout_ms (ck_budget c) = Some 0
      then invalid_checkpoint ''invalid schema, boundary, stage or limits'' else Ok ())"

definition check_steps :: "('j, 'r) turn_checkpoint \<Rightarrow> (checkpoint_error, unit) res" where
  "check_steps c =
     (if sp_step_id (last (ck_steps c)) \<noteq> sc_step_id (ck_scope c) \<or> sp_outcome (last (ck_steps c)) \<noteq> ToolCalls
      then invalid_checkpoint ''pending batch is not the scoped completed Step''
      else if \<exists>i < length (ck_steps c).
          sp_step_id (ck_steps c ! i) \<noteq> step_id (ek_turn_id (sc_execution (ck_scope c))) i
      then invalid_checkpoint ''Step sequence is not exact''
      else if tool_calls (rp_content (sp_response (last (ck_steps c)))) \<noteq> map cc_call (ck_calls c)
      then invalid_checkpoint ''original tool call order changed''
      else Ok ())"

definition check_call_prepared ::
  "('j, 'r) turn_codec \<Rightarrow> 'j checkpoint_call \<Rightarrow> (checkpoint_error, unit) res" where
  "check_call_prepared T item =
     (case cc_prepared item of
        None \<Rightarrow> Ok ()
      | Some p \<Rightarrow>
          andthen (invalid_prepared (prepared_validate (tk_policy T) p))
         (if pc_call p \<noteq> cc_call item then invalid_checkpoint ''preparation differs from original call'' else Ok ()))"

text \<open>The state of a call, with the wait identities seen so far.\<close>

definition check_call_state ::
  "('j, 'r) turn_codec \<Rightarrow> tool_execution_scope \<Rightarrow> string set \<Rightarrow> 'j checkpoint_call
   \<Rightarrow> (checkpoint_error, string set) res" where
  "check_call_state T scope waits item =
     (case cc_state item of
        CallReady \<Rightarrow>
          if cc_charged item \<or> cc_prepared item = None
          then invalid_checkpoint ''invalid Ready accounting or preparation'' else Ok waits
      | CallCompleted r issued \<Rightarrow>
          if \<not> cc_charged item \<or> tr_call_id r \<noteq> cl_id (cc_call item)
          then invalid_checkpoint ''invalid completed result or accounting''
          else
            (case issued of
               Some a \<Rightarrow> andthen (validate_authority T scope item a) (andthen (validate_result T a r) (Ok waits))
             | None \<Rightarrow> if \<not> tr_is_error r then invalid_checkpoint ''successful result lacks issued authority'' else Ok waits)
      | CallAwaiting w a \<Rightarrow>
          if \<not> cc_charged item then invalid_checkpoint ''unaccounted external wait''
          else
            andthen (wait_validate T w)
           (if ew_wait_id w \<in> waits then invalid_checkpoint ''duplicate wait identity''
            else andthen (validate_authority T scope item a) (Ok (insert (ew_wait_id w) waits))))"

fun check_calls ::
  "('j, 'r) turn_codec \<Rightarrow> tool_execution_scope \<Rightarrow> string set \<Rightarrow> string set \<Rightarrow> 'j checkpoint_call list
   \<Rightarrow> (checkpoint_error, unit) res" where
  "check_calls T scope ids waits [] = Ok ()"
| "check_calls T scope ids waits (item # items) =
     (if \<exists>i \<in> set [cl_id (cc_call item), cl_name (cc_call item)]. blank i \<or> length i > 1024
      then invalid_checkpoint ''empty or oversized tool identity''
      else if cl_id (cc_call item) \<in> ids then invalid_checkpoint ''duplicate call identity''
      else andthen (check_call_prepared T item)
        (bindr (check_call_state T scope waits item) (\<lambda>waits'.
           check_calls T scope (insert (cl_id (cc_call item)) ids) waits' items)))"

definition is_completed :: "'j checkpoint_call \<Rightarrow> bool" where
  "is_completed item = (case cc_state item of CallCompleted _ _ \<Rightarrow> True | _ \<Rightarrow> False)"

definition is_ready :: "'j checkpoint_call \<Rightarrow> bool" where
  "is_ready item = (case cc_state item of CallReady \<Rightarrow> True | _ \<Rightarrow> False)"

definition is_awaiting :: "'j checkpoint_call \<Rightarrow> bool" where
  "is_awaiting item = (case cc_state item of CallAwaiting _ _ \<Rightarrow> True | _ \<Rightarrow> False)"

definition find_call :: "string \<Rightarrow> 'j checkpoint_call list \<Rightarrow> 'j checkpoint_call option" where
  "find_call i items = find (\<lambda>item. cl_id (cc_call item) = i) items"

text \<open>One stage against the cursor; an identity without a call is the \<open>expect\<close> of the source.\<close>

fun check_stage ::
  "'j checkpoint_call list \<Rightarrow> nat \<Rightarrow> nat \<Rightarrow> string list \<Rightarrow> (checkpoint_error, unit) res" where
  "check_stage items cursor index [] = Ok ()"
| "check_stage items cursor index (i # is) =
     bindr (unwrap (find_call i items)) (\<lambda>item.
       if index < cursor \<and> \<not> is_completed item \<or> index > cursor \<and> \<not> is_ready item
       then invalid_checkpoint ''call progress contradicts stage cursor''
       else check_stage items cursor index is)"

fun check_stages ::
  "'j checkpoint_call list \<Rightarrow> nat \<Rightarrow> nat \<Rightarrow> string list list \<Rightarrow> (checkpoint_error, unit) res" where
  "check_stages items cursor index [] = Ok ()"
| "check_stages items cursor index (stage # stages) =
     andthen (check_stage items cursor index stage) (check_stages items cursor (Suc index) stages)"

definition check_partition :: "('j, 'r) turn_checkpoint \<Rightarrow> (checkpoint_error, unit) res" where
  "check_partition c =
     (if [] \<in> set (ck_stages c)
         \<or> length (concat (ck_stages c)) \<noteq> length (ck_calls c)
         \<or> set (concat (ck_stages c)) \<noteq> cl_id ` cc_call ` set (ck_calls c)
      then invalid_checkpoint ''stages do not partition original calls''
      else check_stages (ck_calls c) (ck_stage_index c) 0 (ck_stages c))"

definition get :: "'a list \<Rightarrow> nat \<Rightarrow> 'a option" where
  "get xs i = (if i < length xs then Some (xs ! i) else None)"

text \<open>The messages of the completed steps: the assistant content, then one result per call.\<close>

fun check_pairing ::
  "'j message list \<Rightarrow> nat \<Rightarrow> nat \<Rightarrow> 'j tool_call list \<Rightarrow> (checkpoint_error, nat \<times> nat) res" where
  "check_pairing ms boundary count [] = Ok (boundary, count)"
| "check_pairing ms boundary count (call # calls) =
     bindr (ok_or (get ms boundary) (CheckpointInvalid ''missing historical tool result'')) (\<lambda>m.
       if me_role m \<noteq> User \<or> \<not> (case me_content m of [ToolResultBlock r] \<Rightarrow> tr_call_id r = cl_id call | _ \<Rightarrow> False)
       then invalid_checkpoint ''historical tool pairing changed''
       else check_pairing ms (boundary + 1) (count + 1) calls)"

fun check_history ::
  "'j message list \<Rightarrow> nat \<Rightarrow> nat \<Rightarrow> ('j, 'r) step_result list \<Rightarrow> (checkpoint_error, nat \<times> nat) res" where
  "check_history ms boundary count [] = Ok (boundary, count)"
| "check_history ms boundary count (step # steps) =
     (if sp_outcome step \<noteq> ToolCalls
      then invalid_checkpoint ''historical Step did not produce the completed tool batch''
      else
        bindr (ok_or (get ms boundary) (CheckpointInvalid ''missing historical assistant message'')) (\<lambda>m.
        if me_role m \<noteq> Assistant \<or> me_content m \<noteq> rp_content (sp_response step)
        then invalid_checkpoint ''historical assistant boundary changed''
        else
        bindr (map_err (\<lambda>e. CheckpointInvalid (tool_error_text e))
                 (batch_of_calls (tool_calls (rp_content (sp_response step))))) (\<lambda>batch.
        bindr (check_pairing ms (boundary + 1) count batch) (\<lambda>(boundary', count').
          check_history ms boundary' count' steps))))"

definition charged :: "'j checkpoint_call list \<Rightarrow> nat" where
  "charged items = length (filter cc_charged items)"

definition exceeds :: "nat option \<Rightarrow> nat \<Rightarrow> bool" where
  "exceeds limit n = (case limit of None \<Rightarrow> False | Some m \<Rightarrow> n > m)"

definition check_budget :: "('j, 'r) turn_checkpoint \<Rightarrow> (checkpoint_error, unit) res" where
  "check_budget c =
     bindr (check_history (mr_messages (ck_model_request c)) (ck_input_message_count c) 0 (butlast (ck_steps c)))
       (\<lambda>(boundary, historical).
     if boundary \<noteq> length (mr_messages (ck_model_request c))
     then invalid_checkpoint ''original message boundary differs from historical Steps''
     else if historical \<noteq> cb_prior_tool_calls_used (ck_budget c)
     then invalid_checkpoint ''prior charged usage differs from completed Turn Steps''
     else if cb_prior_tool_calls_used (ck_budget c) + charged (ck_calls c) \<noteq> cb_tool_calls_used (ck_budget c)
         \<or> exceeds (cb_max_tool_calls (ck_budget c)) (cb_tool_calls_used (ck_budget c))
         \<or> exceeds (cb_max_tool_calls (ck_budget c)) (cb_prior_tool_calls_used (ck_budget c) + length (ck_calls c))
     then invalid_checkpoint ''charged usage differs from budget''
     else Ok ())"

fun check_approvals ::
  "('j, 'r) turn_codec \<Rightarrow> ('j, 'r) turn_checkpoint \<Rightarrow> string set \<Rightarrow> string set \<Rightarrow> 'j checkpoint_approval list
   \<Rightarrow> (checkpoint_error, unit) res" where
  "check_approvals T c ids calls [] = Ok ()"
| "check_approvals T c ids calls (a # as) =
     andthen (check_identifier (ca_approval_id a))
    (if ca_approval_id a \<in> ids
        \<or> cl_id (pc_call (ca_prepared a)) \<in> calls
        \<or> ca_scope a \<noteq> ck_scope c
        \<or> blank (ca_policy_revision a)
     then invalid_checkpoint ''invalid approval binding''
     else
       bindr (ok_or (find_call (cl_id (pc_call (ca_prepared a))) (ck_calls c))
                (CheckpointInvalid ''approval references unknown call'')) (\<lambda>item.
       if cc_prepared item \<noteq> Some (ca_prepared a) then invalid_checkpoint ''stale approval preparation''
       else
         andthen (invalid_prepared (prepared_validate (tk_policy T) (ca_prepared a)))
        (andthen (case ca_evidence_id a of None \<Rightarrow> Ok () | Some i \<Rightarrow> check_identifier i)
        (check_approvals T c (insert (ca_approval_id a) ids) (insert (cl_id (pc_call (ca_prepared a))) calls) as))))"

definition checkpoint_validate ::
  "('j, 'r) turn_codec \<Rightarrow> ('j, 'r) turn_checkpoint \<Rightarrow> tool_execution_scope \<Rightarrow> (checkpoint_error, unit) res" where
  "checkpoint_validate T c expected =
     (case tk_checkpoint_writes T c of (sizes, fails) \<Rightarrow>
     andthen (encoded_limit 0 sizes fails)
    (andthen (invalid_prepared (scope_validate expected))
    (if ck_scope c \<noteq> expected then Err ForeignScope
     else
     andthen (check_identifier (ck_checkpoint_id c))
    (andthen (check_boundary c)
    (andthen (check_steps c)
    (andthen (check_calls T (ck_scope c) {} {} (ck_calls c))
    (andthen (check_partition c)
    (andthen (check_budget c)
    (check_approvals T c {} {} (ck_approvals c))))))))))"

section \<open>Reconstruction and decoding\<close>

definition reconstruct ::
  "('j, 'r) turn_codec \<Rightarrow> ('j, 'r) reconstruction \<Rightarrow> tool_execution_scope
   \<Rightarrow> (checkpoint_error, ('j, 'r) turn_checkpoint) res" where
  "reconstruct T i expected =
     (let c = \<lparr>ck_schema_version = TURN_CHECKPOINT_SCHEMA,
               ck_checkpoint_id = host_identity T ''checkpoint'' (tk_scope_bytes T ''checkpoint'' (ri_scope i)),
               ck_scope = ri_scope i, ck_model_request = ri_model_request i,
               ck_input_message_count = ri_input_message_count i, ck_steps = ri_steps i,
               ck_next_step_index = length (ri_steps i), ck_calls = ri_calls i, ck_stages = ri_stages i,
               ck_stage_index = ri_stage_index i, ck_approvals = ri_approvals i, ck_budget = ri_budget i,
               ck_dispatch = ri_dispatch i\<rparr>
      in andthen (checkpoint_validate T c expected) (Ok c))"

definition checkpoint_from_json ::
  "('j, 'r) turn_codec \<Rightarrow> string \<Rightarrow> tool_execution_scope \<Rightarrow> (checkpoint_error, ('j, 'r) turn_checkpoint) res" where
  "checkpoint_from_json T bytes expected =
     (if length bytes > MAX_TURN_CHECKPOINT_BYTES then Err CheckpointLimit
      else bindr (ok_or (tk_decode T bytes) CheckpointJson) (\<lambda>c.
        andthen (checkpoint_validate T c expected) (Ok c)))"

section \<open>Merging\<close>

fun update_first :: "('a \<Rightarrow> bool) \<Rightarrow> ('a \<Rightarrow> 'a) \<Rightarrow> 'a list \<Rightarrow> 'a list" where
  "update_first P f [] = []"
| "update_first P f (x # xs) = (if P x then f x # xs else x # update_first P f xs)"

fun merge_resolutions ::
  "('j, 'r) turn_codec \<Rightarrow> string set \<Rightarrow> 'j checkpoint_call list \<Rightarrow> 'j external_resolution list
   \<Rightarrow> (checkpoint_error, 'j checkpoint_call list) res" where
  "merge_resolutions T seen items [] = Ok items"
| "merge_resolutions T seen items (r # rs) =
     (if xr_call_id r \<in> seen then invalid_checkpoint ''duplicate resolution''
      else bindr (ok_or (find_call (xr_call_id r) items) (CheckpointInvalid ''resolution references unknown call'')) (\<lambda>item.
        case cc_state item of
          CallAwaiting w a \<Rightarrow>
            if w \<noteq> xr_wait r then invalid_checkpoint ''external binding changed''
            else
              andthen (validate_result T a (xr_result r))
             (merge_resolutions T (insert (xr_call_id r) seen)
                (update_first (\<lambda>i. cl_id (cc_call i) = xr_call_id r)
                   (\<lambda>i. i\<lparr>cc_state := CallCompleted (xr_result r) (Some a)\<rparr>) items) rs)
        | _ \<Rightarrow> invalid_checkpoint ''resolution does not reference an awaiting call''))"

definition merge_external ::
  "('j, 'r) turn_codec \<Rightarrow> ('j, 'r) turn_checkpoint \<Rightarrow> 'j external_resolution list \<Rightarrow> tool_execution_scope
   \<Rightarrow> (checkpoint_error, ('j, 'r) turn_checkpoint) res" where
  "merge_external T c resolutions expected =
     andthen (checkpoint_validate T c expected)
    (bindr (merge_resolutions T {} (ck_calls c) resolutions) (\<lambda>items.
       let merged = c\<lparr>ck_calls := items\<rparr> in
       andthen (checkpoint_validate T merged expected) (Ok merged)))"

record approval_confirmation =
  ac_approval_id :: string
  ac_prepared_digest :: string
  ac_policy_revision :: string
  ac_scope :: tool_execution_scope
  ac_evidence_id :: string

datatype 'j resume_input =
    ApprovalConfirmed approval_confirmation | ExternalResolved "'j external_resolution list"

definition expired_at :: "u64 option \<Rightarrow> u64 \<Rightarrow> bool" where
  "expired_at expiry now = (case expiry of None \<Rightarrow> False | Some e \<Rightarrow> e \<le> now)"

definition ready_call :: "string \<Rightarrow> 'j checkpoint_call list \<Rightarrow> bool" where
  "ready_call i items \<longleftrightarrow> (\<exists>item \<in> set items. cl_id (cc_call item) = i \<and> is_ready item)"

definition merge_approval ::
  "('j, 'r) turn_codec \<Rightarrow> ('j, 'r) turn_checkpoint \<Rightarrow> approval_confirmation \<Rightarrow> tool_execution_scope \<Rightarrow> u64
   \<Rightarrow> (checkpoint_error, ('j, 'r) turn_checkpoint) res" where
  "merge_approval T c confirmation expected now =
     andthen (checkpoint_validate T c expected)
    (andthen (check_identifier (ac_evidence_id confirmation))
    (bindr (ok_or (find (\<lambda>a. ca_approval_id a = ac_approval_id confirmation) (ck_approvals c))
              (CheckpointInvalid ''unknown approval'')) (\<lambda>approval.
     if ca_scope approval \<noteq> ac_scope confirmation
        \<or> ac_scope confirmation \<noteq> expected
        \<or> pc_digest (ca_prepared approval) \<noteq> ac_prepared_digest confirmation
        \<or> ca_policy_revision approval \<noteq> ac_policy_revision confirmation
        \<or> ca_evidence_id approval \<noteq> None
        \<or> expired_at (ca_expires_at_ms approval) now
        \<or> \<not> ready_call (cl_id (pc_call (ca_prepared approval))) (ck_calls c)
     then invalid_checkpoint ''approval confirmation binding is stale, resolved or foreign''
     else
       let merged = c\<lparr>ck_approvals := update_first (\<lambda>a. ca_approval_id a = ac_approval_id confirmation)
             (\<lambda>a. a\<lparr>ca_evidence_id := Some (ac_evidence_id confirmation)\<rparr>) (ck_approvals c)\<rparr>
       in andthen (checkpoint_validate T merged expected) (Ok merged))))"

section \<open>Suspension\<close>

record approval_request =
  ar_approval_id :: string
  ar_turn_id :: string
  ar_call_id :: string
  ar_tool_name :: string
  ar_reason :: string
  ar_expires_at_ms :: "u64 option"

record 'j pending_wait =
  pw_call_id :: string
  pw_wait :: "'j external_wait"

record 'j suspension_summary =
  ss_approvals :: "approval_request list"
  ss_external_waits :: "'j pending_wait list"

record ('j, 'r) turn_suspension =
  su_checkpoint :: "('j, 'r) turn_checkpoint"
  su_waiting :: "'j suspension_summary"

definition pending_approvals :: "('j, 'r) turn_checkpoint \<Rightarrow> approval_request list" where
  "pending_approvals c =
     map (\<lambda>a. \<lparr>ar_approval_id = ca_approval_id a, ar_turn_id = ek_turn_id (sc_execution (ck_scope c)),
             ar_call_id = cl_id (pc_call (ca_prepared a)), ar_tool_name = cl_name (pc_call (ca_prepared a)),
             ar_reason = ca_reason a, ar_expires_at_ms = ca_expires_at_ms a\<rparr>)
       (filter (\<lambda>a. ca_evidence_id a = None \<and> ready_call (cl_id (pc_call (ca_prepared a))) (ck_calls c))
          (ck_approvals c))"

definition pending_waits :: "'j checkpoint_call list \<Rightarrow> 'j pending_wait list" where
  "pending_waits items =
     concat (map (\<lambda>item. case cc_state item of
        CallAwaiting w _ \<Rightarrow> [\<lparr>pw_call_id = cl_id (cc_call item), pw_wait = w\<rparr>] | _ \<Rightarrow> []) items)"

definition suspension_summary_of ::
  "('j, 'r) turn_codec \<Rightarrow> ('j, 'r) turn_checkpoint \<Rightarrow> tool_execution_scope
   \<Rightarrow> (checkpoint_error, 'j suspension_summary) res" where
  "suspension_summary_of T c expected =
     andthen (checkpoint_validate T c expected)
       (Ok \<lparr>ss_approvals = pending_approvals c, ss_external_waits = pending_waits (ck_calls c)\<rparr>)"

definition suspension_from_checkpoint ::
  "('j, 'r) turn_codec \<Rightarrow> ('j, 'r) turn_checkpoint \<Rightarrow> tool_execution_scope
   \<Rightarrow> (checkpoint_error, ('j, 'r) turn_suspension) res" where
  "suspension_from_checkpoint T c expected =
     bindr (suspension_summary_of T c expected) (\<lambda>w. Ok \<lparr>su_checkpoint = c, su_waiting = w\<rparr>)"

definition suspension_validate ::
  "('j, 'r) turn_codec \<Rightarrow> ('j, 'r) turn_suspension \<Rightarrow> tool_execution_scope \<Rightarrow> (checkpoint_error, unit) res" where
  "suspension_validate T s expected =
     bindr (suspension_summary_of T (su_checkpoint s) expected) (\<lambda>w.
       if su_waiting s \<noteq> w then invalid_checkpoint ''suspension summary differs from checkpoint'' else Ok ())"

end
