(* ===== verification/Turn_Deadline.thy ===== *)
theory Turn_Deadline
  imports Kolyan_Prelude
begin

text \<open>
  The execution window of a turn, \<open>crates/kolyan-core/src/turn/deadline.rs\<close>. Durations and
  instants are nanoseconds; the monotonic clock of a reading and the addition \<open>Instant::checked_add\<close>
  of the platform are arguments.
\<close>

section \<open>The window\<close>

type_synonym duration = nat
type_synonym instant = nat

definition DURATION_MAX :: duration where "DURATION_MAX = (2 ^ 64 - 1) * 1000000000 + 999999999"

record clock_sample =
  cs_before :: instant
  cs_after :: instant
  cs_unix :: duration

record turn_deadline =
  dl_duration :: "duration option"
  dl_sample :: "clock_sample option"
  dl_instant :: "instant option"
  dl_unix_ms :: "u64 option"

datatype deadline_error = ClockBeforeUnixEpoch | UnixOverflow | InstantOverflow | DurationMismatch

text \<open>A reading of the clocks: before, the wall clock (absent before the epoch), after.\<close>

type_synonym clock_reading = "instant \<times> duration option \<times> instant"

definition sample_of_reading :: "clock_reading \<Rightarrow> (deadline_error, clock_sample) res" where
  "sample_of_reading r =
     (case r of (before, unix, after) \<Rightarrow>
        bindr (ok_or unix ClockBeforeUnixEpoch) (\<lambda>u.
          Ok \<lparr>cs_before = before, cs_after = after, cs_unix = u\<rparr>))"

definition millis :: "u64 \<Rightarrow> duration" where
  "millis ms = unat ms * 1000000"

definition checked_duration_add :: "duration \<Rightarrow> duration \<Rightarrow> duration option" where
  "checked_duration_add a b = (if a + b \<le> DURATION_MAX then Some (a + b) else None)"

definition conservative_unix :: "clock_sample \<Rightarrow> duration \<Rightarrow> (deadline_error, u64) res" where
  "conservative_unix s deadline =
     (let precise = deadline - (cs_after s - cs_before s); ms = precise div 1000000
      in if ms < 2 ^ 64 then Ok (word_of_nat ms) else Err UnixOverflow)"

definition map_unix :: "(instant \<Rightarrow> duration \<Rightarrow> instant option) \<Rightarrow> clock_sample \<Rightarrow> u64 \<Rightarrow> (deadline_error, instant) res" where
  "map_unix add s ms = ok_or (add (cs_after s) (millis ms - cs_unix s)) InstantOverflow"

definition map_external :: "(instant \<Rightarrow> duration \<Rightarrow> instant option) \<Rightarrow> clock_sample \<Rightarrow> u64 \<Rightarrow> (deadline_error, instant) res" where
  "map_external add s ms = ok_or (add (cs_before s) (millis ms - cs_unix s)) InstantOverflow"

text \<open>\<open>Option::map\<close> of a fallible function followed by \<open>transpose\<close>; the smaller of two optional bounds.\<close>

definition traverse :: "('a \<Rightarrow> ('e, 'b) res) \<Rightarrow> 'a option \<Rightarrow> ('e, 'b option) res" where
  "traverse f x = (case x of None \<Rightarrow> Ok None | Some a \<Rightarrow> bindr (f a) (\<lambda>b. Ok (Some b)))"

definition min_option :: "'a::linorder option \<Rightarrow> 'a option \<Rightarrow> 'a option" where
  "min_option a b =
     (case (a, b) of (Some x, Some y) \<Rightarrow> Some (min x y) | (Some x, None) \<Rightarrow> Some x | (None, y) \<Rightarrow> y)"

definition relative_unix :: "clock_sample \<Rightarrow> duration \<Rightarrow> (deadline_error, u64) res" where
  "relative_unix s limit =
     bindr (ok_or (checked_duration_add (cs_unix s) limit) UnixOverflow) (conservative_unix s)"

definition from_sample ::
  "(instant \<Rightarrow> duration \<Rightarrow> instant option) \<Rightarrow> duration option \<Rightarrow> u64 option \<Rightarrow> clock_sample
   \<Rightarrow> (deadline_error, turn_deadline) res" where
  "from_sample add duration ceiling s =
     bindr (traverse (relative_unix s) duration) (\<lambda>relative.
     bindr (traverse (\<lambda>limit. ok_or (add (cs_before s) limit) InstantOverflow) duration) (\<lambda>relative_instant.
     bindr (traverse (map_unix add s) relative) (\<lambda>mapped.
     bindr (traverse (map_external add s) ceiling) (\<lambda>external.
       Ok \<lparr>dl_duration = duration, dl_sample = Some s,
          dl_instant = min_option (min_option relative_instant mapped) external,
          dl_unix_ms = min_option relative ceiling\<rparr>))))"

definition unlimited :: turn_deadline where
  "unlimited = \<lparr>dl_duration = None, dl_sample = None, dl_instant = None, dl_unix_ms = None\<rparr>"

definition capture_deadline ::
  "(instant \<Rightarrow> duration \<Rightarrow> instant option) \<Rightarrow> clock_reading \<Rightarrow> duration option \<Rightarrow> u64 option
   \<Rightarrow> (deadline_error, turn_deadline) res" where
  "capture_deadline add reading duration ceiling =
     (if duration = None \<and> ceiling = None then Ok unlimited
      else bindr (sample_of_reading reading) (from_sample add duration ceiling))"

definition tighten_absolute ::
  "(instant \<Rightarrow> duration \<Rightarrow> instant option) \<Rightarrow> clock_reading \<Rightarrow> turn_deadline \<Rightarrow> u64 option
   \<Rightarrow> (deadline_error, turn_deadline) res" where
  "tighten_absolute add reading d ceiling =
     (case ceiling of
        None \<Rightarrow> Ok d
      | Some c \<Rightarrow>
          bindr (case dl_sample d of Some s \<Rightarrow> Ok s | None \<Rightarrow> sample_of_reading reading) (\<lambda>s.
          bindr (map_external add s c) (\<lambda>i.
            Ok (d\<lparr>dl_instant := min_option (dl_instant d) (Some i),
                  dl_unix_ms := min_option (dl_unix_ms d) (Some c), dl_sample := Some s\<rparr>))))"

definition validate_duration :: "turn_deadline \<Rightarrow> duration option \<Rightarrow> (deadline_error, unit) res" where
  "validate_duration d duration = (if dl_duration d = duration then Ok () else Err DurationMismatch)"

definition remaining_window :: "turn_deadline \<Rightarrow> instant \<Rightarrow> duration option" where
  "remaining_window d now = map_option (\<lambda>i. i - now) (dl_instant d)"

definition restore_deadline ::
  "(instant \<Rightarrow> duration \<Rightarrow> instant option) \<Rightarrow> clock_reading \<Rightarrow> u64 option \<Rightarrow> (deadline_error, turn_deadline) res" where
  "restore_deadline add reading unix_ms =
     (case unix_ms of
        None \<Rightarrow> capture_deadline add reading None None
      | Some ms \<Rightarrow>
          bindr (sample_of_reading reading) (\<lambda>s.
          bindr (map_external add s ms) (\<lambda>i.
            Ok \<lparr>dl_duration = None, dl_sample = Some s, dl_instant = Some i, dl_unix_ms = Some ms\<rparr>)))"

section \<open>The window never grows\<close>

text \<open>
  A reading is sound for an offset of the wall clock if the wall clock was read between the two
  monotonic readings and the offset is what it shows over the monotonic clock.
\<close>

definition sound_reading :: "nat \<Rightarrow> clock_sample \<Rightarrow> bool" where
  "sound_reading offset s \<longleftrightarrow>
     (\<exists>m. cs_before s \<le> m \<and> m \<le> cs_after s \<and> cs_unix s = m + offset)"

definition exact_add :: "(instant \<Rightarrow> duration \<Rightarrow> instant option) \<Rightarrow> bool" where
  "exact_add add \<longleftrightarrow> (\<forall>i d j. add i d = Some j \<longrightarrow> j = i + d)"

lemma traverse_Ok:
  "traverse f x = Ok y \<longleftrightarrow> (case x of None \<Rightarrow> y = None | Some a \<Rightarrow> (\<exists>b. f a = Ok b \<and> y = Some b))"
  by (auto simp: traverse_def res_simps split: option.split)

lemma relative_unix_le:
  assumes "relative_unix s d = Ok u"
  shows "millis u \<le> cs_unix s + d - (cs_after s - cs_before s)"
proof -
  from assms have less: "(cs_unix s + d - (cs_after s - cs_before s)) div 1000000 < 2 ^ 64"
    and u: "u = word_of_nat ((cs_unix s + d - (cs_after s - cs_before s)) div 1000000)"
    by (auto simp: relative_unix_def conservative_unix_def checked_duration_add_def Let_def res_simps split: if_splits)
  then have "unat u = (cs_unix s + d - (cs_after s - cs_before s)) div 1000000"
    by (simp add: unat_of_nat take_bit_eq_mod)
  then show ?thesis unfolding millis_def by (metis div_times_less_eq_dividend)
qed

text \<open>A live cutoff is the earliest of what the duration and the ceiling give.\<close>

lemma from_sample_Ok:
  assumes "from_sample add duration ceiling s = Ok d" and "exact_add add"
  obtains relative where
    "\<And>limit. duration = Some limit \<Longrightarrow> \<exists>u. relative = Some u \<and> relative_unix s limit = Ok u"
    "duration = None \<Longrightarrow> relative = None"
    "dl_unix_ms d = min_option relative ceiling"
    "dl_instant d = min_option (min_option (map_option (\<lambda>limit. cs_before s + limit) duration)
       (map_option (\<lambda>u. cs_after s + (millis u - cs_unix s)) relative))
       (map_option (\<lambda>c. cs_before s + (millis c - cs_unix s)) ceiling)"
proof -
  from assms(1) obtain relative ri mapped external where
    r: "traverse (relative_unix s) duration = Ok relative"
    and ri: "traverse (\<lambda>limit. ok_or (add (cs_before s) limit) InstantOverflow) duration = Ok ri"
    and m: "traverse (map_unix add s) relative = Ok mapped"
    and e: "traverse (map_external add s) ceiling = Ok external"
    and d: "\<lparr>dl_duration = duration, dl_sample = Some s,
          dl_instant = min_option (min_option ri mapped) external, dl_unix_ms = min_option relative ceiling\<rparr> = d"
    unfolding from_sample_def res_simps res.inject by blast
  have add: "add i n = Some j \<Longrightarrow> j = i + n" for i n j using assms(2) by (simp add: exact_add_def)
  from ri have "ri = map_option (\<lambda>limit. cs_before s + limit) duration"
    by (auto simp: traverse_Ok res_simps dest!: add split: option.splits)
  moreover from m have "mapped = map_option (\<lambda>u. cs_after s + (millis u - cs_unix s)) relative"
    by (auto simp: traverse_Ok map_unix_def res_simps dest!: add split: option.splits)
  moreover from e have "external = map_option (\<lambda>c. cs_before s + (millis c - cs_unix s)) ceiling"
    by (auto simp: traverse_Ok map_external_def res_simps dest!: add split: option.splits)
  ultimately show thesis using r d by (intro that [of relative]) (auto simp: traverse_Ok split: option.splits)
qed

lemma restore_Ok:
  assumes "restore_deadline add (before, Some u, after) (Some ms) = Ok d" and "exact_add add"
  shows "dl_instant d = Some (before + (millis ms - u)) \<and> dl_unix_ms d = Some ms"
  using assms by (auto simp: restore_deadline_def sample_of_reading_def map_external_def res_simps exact_add_def)



end
