(* ===== verification/Turn_Engine.thy ===== *)
theory Turn_Engine
  imports Turn_Checkpoint Turn_Deadline
begin

text \<open>
  The turn engine, \<open>crates/kolyan-core/src/turn.rs\<close>, \<open>turn/engine.rs\<close>, \<open>planning.rs\<close> and
  \<open>dispatch.rs\<close>. What is outside the engine is an environment of type \<open>'e\<close> with the operations of
  \<open>turn_env\<close>: clocks, cancellation, the boundary gate, the model, tool preparation and execution,
  and the recorder. An operation that races a future against cancellation and the deadline
  (\<open>tokio::select!\<close>) is one operation of the environment, whose answer is the outcome of the race.
  The futures of a parallel stage run one after the other, one of their interleavings. The world of
  a run carries the environment, the emitted events, and the effects asked for so far, which the
  code does not keep: they are there to state what a run does.
\<close>

section \<open>Data\<close>

datatype end_reason =
    EndFinalAnswer | EndRefused | EndIncomplete | EndMaxSteps | EndFailed | EndCancelled | EndTimedOut
  | EndApprovalRejected | EndApprovalExpired | EndNoProgress

datatype ('j, 'r) turn_outcome =
    OutFinalAnswer "('j, 'r) model_response" | OutRefused "('j, 'r) model_response"
  | OutIncomplete "('j, 'r) model_response" | OutRejected string | OutExpired string | OutMaxSteps

datatype step_error =
    StepProvider string | StepProtocol string | StepInvalidRequest string | StepValidation string
  | StepRecording string | StepErrorCancelled | StepErrorTimedOut

datatype turn_state =
    Pending | TurnRunning | WaitingModel | WaitingTool | ExecutingTools | TurnStateCompleted | TurnStateFailed
  | TurnStateCancelled | TurnStateTimedOut | TurnStateMaxSteps

datatype turn_error =
    TeDeadline deadline_error | TeNoProgress string | TeBoundaryControl string | TeInvalidRequest string
  | TeStep step_error | TeTool tool_error | TeCancelled | TeTimedOut | TeMaxSteps | TeToolBudgetExceeded
  | TeInvalidTransition turn_state turn_state

definition transition :: "turn_state \<Rightarrow> turn_state \<Rightarrow> (turn_error, turn_state) res" where
  "transition s n =
     (if (s, n) \<in> {(Pending, TurnRunning), (TurnRunning, WaitingModel), (WaitingModel, WaitingTool),
           (WaitingTool, ExecutingTools), (ExecutingTools, TurnRunning), (WaitingModel, TurnStateCompleted),
           (WaitingModel, TurnStateFailed), (WaitingModel, TurnStateCancelled), (WaitingModel, TurnStateTimedOut),
           (TurnRunning, TurnStateFailed), (TurnRunning, TurnStateCancelled), (TurnRunning, TurnStateTimedOut),
           (TurnRunning, TurnStateMaxSteps), (WaitingTool, TurnStateFailed), (WaitingTool, TurnStateCancelled),
           (WaitingTool, TurnStateTimedOut), (ExecutingTools, TurnStateFailed), (ExecutingTools, TurnStateCancelled),
           (ExecutingTools, TurnStateTimedOut)}
      then Ok n else Err (TeInvalidTransition s n))"

fun error_end_reason :: "turn_error \<Rightarrow> end_reason" where
  "error_end_reason (TeNoProgress _) = EndNoProgress"
| "error_end_reason TeCancelled = EndCancelled"
| "error_end_reason TeTimedOut = EndTimedOut"
| "error_end_reason TeMaxSteps = EndMaxSteps"
| "error_end_reason (TeTool ToolCancelled) = EndCancelled"
| "error_end_reason (TeTool ToolTimedOut) = EndTimedOut"
| "error_end_reason _ = EndFailed"

text \<open>The messages of the errors; a provider error is its own message.\<close>

fun deadline_error_text :: "deadline_error \<Rightarrow> string" where
  "deadline_error_text ClockBeforeUnixEpoch = ''clock precedes Unix epoch''"
| "deadline_error_text UnixOverflow = ''Unix deadline overflow''"
| "deadline_error_text InstantOverflow = ''monotonic deadline overflow''"
| "deadline_error_text DurationMismatch = ''request duration differs from its deadline anchor''"

fun step_error_text :: "step_error \<Rightarrow> string" where
  "step_error_text (StepProvider m) = ''step provider error: '' @ m"
| "step_error_text (StepProtocol m) = ''step protocol error: '' @ m"
| "step_error_text (StepInvalidRequest m) = ''step request is invalid: '' @ m"
| "step_error_text (StepValidation m) = ''step validation error: '' @ m"
| "step_error_text (StepRecording m) = ''step event recording failed: '' @ m"
| "step_error_text StepErrorCancelled = ''step was cancelled''"
| "step_error_text StepErrorTimedOut = ''step timed out''"

fun turn_state_text :: "turn_state \<Rightarrow> string" where
  "turn_state_text Pending = ''Pending''"
| "turn_state_text TurnRunning = ''Running''"
| "turn_state_text WaitingModel = ''WaitingModel''"
| "turn_state_text WaitingTool = ''WaitingTool''"
| "turn_state_text ExecutingTools = ''ExecutingTools''"
| "turn_state_text TurnStateCompleted = ''Completed''"
| "turn_state_text TurnStateFailed = ''Failed''"
| "turn_state_text TurnStateCancelled = ''Cancelled''"
| "turn_state_text TurnStateTimedOut = ''TimedOut''"
| "turn_state_text TurnStateMaxSteps = ''MaxSteps''"

fun turn_error_text :: "turn_error \<Rightarrow> string" where
  "turn_error_text (TeDeadline e) = ''deadline failed: '' @ deadline_error_text e"
| "turn_error_text (TeNoProgress n) = ''turn stopped for no progress: repeated tool '' @ n"
| "turn_error_text (TeBoundaryControl m) = ''turn boundary control failed: '' @ m"
| "turn_error_text (TeInvalidRequest m) = ''turn request is invalid: '' @ m"
| "turn_error_text (TeStep e) = ''turn step failed: '' @ step_error_text e"
| "turn_error_text (TeTool e) = ''turn tool execution failed: '' @ tool_error_text e"
| "turn_error_text TeCancelled = ''turn was cancelled''"
| "turn_error_text TeTimedOut = ''turn timed out''"
| "turn_error_text TeMaxSteps = ''turn reached its maximum step count''"
| "turn_error_text TeToolBudgetExceeded = ''turn reached its maximum tool call count''"
| "turn_error_text (TeInvalidTransition s n) =
     ''invalid turn state transition: '' @ turn_state_text s @ '' -> '' @ turn_state_text n"

record turn_config =
  tg_max_steps :: nat
  tg_max_tool_calls :: "nat option"
  tg_deadline :: "duration option"

record ('j, 'r) turn_request =
  tq_turn_id :: string
  tq_model_request :: "('j, 'r) model_request"
  tq_config :: turn_config

record ('j, 'r) turn_result =
  tt_turn_id :: string
  tt_outcome :: "('j, 'r) turn_outcome"
  tt_end_reason :: end_reason
  tt_steps :: "('j, 'r) step_result list"

datatype ('j, 'r) turn_event =
    EvStarted string
  | EvStepStarted string string
  | EvStepCompleted string "('j, 'r) step_result"
  | EvToolCallRequested string "'j tool_call"
  | EvToolExecutionStarted string string string
  | EvToolResult string tool_result
  | EvToolExecutionFailed string string string tool_error
  | EvApprovalRequested string string string
  | EvToolAwaitingExternal string string "'j external_wait"
  | EvFailed string string
  | EvCancelled string
  | EvTimedOut string
  | EvCompleted string "('j, 'r) turn_outcome"

datatype boundary_kind =
    StepBoundary string | ToolBoundary string string | AwaitingApprovalBoundary string
  | ResumeApprovalBoundary string | AwaitingExternalBoundary string "string list"
  | ResumeCheckpointBoundary string | TerminalBoundary end_reason

record 'j invocation =
  iv_prepared :: "'j prepared_call"
  iv_grant :: prepared_grant
  iv_scope :: tool_execution_scope
  iv_policy_revision :: string
  iv_window :: instant

record turn_executor =
  tx_dispatch :: dispatch_policy
  tx_tool_timeout :: "duration option"
  tx_policy :: "policy_engine option"
  tx_execution_key :: "execution_key option"
  tx_agent_snapshot_digest :: "string option"
  tx_absolute_deadline :: "u64 option"

section \<open>The world of a run\<close>

record ('e, 'j, 'r) turn_env =
  te_cancelled :: "'e \<Rightarrow> bool \<times> 'e"
  te_now :: "'e \<Rightarrow> instant \<times> 'e"
  te_now_ms :: "'e \<Rightarrow> u64 \<times> 'e"
  te_gate :: "string \<Rightarrow> boundary_kind \<Rightarrow> instant option \<Rightarrow> 'e \<Rightarrow> (turn_error, unit) res \<times> 'e"
  te_model :: "string \<Rightarrow> ('j, 'r) model_request \<Rightarrow> instant option \<Rightarrow> 'e \<Rightarrow> (turn_error, ('j, 'r) model_response) res \<times> 'e"
  te_prepare :: "'j tool_call \<Rightarrow> instant option \<Rightarrow> 'e \<Rightarrow> (tool_error, 'j prepared_call) res \<times> 'e"
  te_execute :: "'j invocation \<Rightarrow> 'e \<Rightarrow> (tool_error, 'j tool_outcome) res \<times> 'e"
  te_await_approval :: "string \<Rightarrow> instant option \<Rightarrow> 'e \<Rightarrow> (turn_error, unit) res \<times> 'e"
  te_record :: "('j, 'r) turn_event \<Rightarrow> 'e \<Rightarrow> (turn_error, unit) res \<times> 'e"
  te_record_request :: "('j, 'r) model_request \<Rightarrow> 'e \<Rightarrow> (turn_error, unit) res \<times> 'e"
  te_record_checkpoint :: "('j, 'r) turn_checkpoint \<Rightarrow> 'e \<Rightarrow> (turn_error, unit) res \<times> 'e"

datatype ('j, 'r) turn_effect = ModelCalled "('j, 'r) model_request" | ToolExecuted "'j invocation"

record ('e, 'j, 'r) world =
  wd_env :: 'e
  wd_events :: "('j, 'r) turn_event list"
  wd_effects :: "('j, 'r) turn_effect list"

type_synonym ('e, 'j, 'r, 'a) turn = "('e, 'j, 'r) world \<Rightarrow> (turn_error, 'a) res \<times> ('e, 'j, 'r) world"

definition give :: "'a \<Rightarrow> ('e, 'j, 'r, 'a) turn" where
  "give x = (\<lambda>w. (Ok x, w))"

definition lift_res :: "(turn_error, 'a) res \<Rightarrow> ('e, 'j, 'r, 'a) turn" where
  "lift_res r = (\<lambda>w. (r, w))"

abbreviation raise :: "turn_error \<Rightarrow> ('e, 'j, 'r, 'a) turn" where
  "raise e \<equiv> lift_res (Err e)"

definition bindt :: "('e, 'j, 'r, 'a) turn \<Rightarrow> ('a \<Rightarrow> ('e, 'j, 'r, 'b) turn) \<Rightarrow> ('e, 'j, 'r, 'b) turn" where
  "bindt m f = (\<lambda>w. case m w of
     (Ok x, w') \<Rightarrow> f x w' | (Err e, w') \<Rightarrow> (Err e, w') | (Panic, w') \<Rightarrow> (Panic, w'))"

abbreviation seqt :: "('e, 'j, 'r, unit) turn \<Rightarrow> ('e, 'j, 'r, 'b) turn \<Rightarrow> ('e, 'j, 'r, 'b) turn" where
  "seqt m k \<equiv> bindt m (\<lambda>_. k)"

text \<open>The result of a computation as a value, an operation of the environment, and an effect.\<close>

definition tryt :: "('e, 'j, 'r, 'a) turn \<Rightarrow> ('e, 'j, 'r, (turn_error, 'a) res) turn" where
  "tryt m = (\<lambda>w. case m w of (Panic, w') \<Rightarrow> (Panic, w') | (r, w') \<Rightarrow> (Ok r, w'))"

definition envt :: "('e \<Rightarrow> 'a \<times> 'e) \<Rightarrow> ('e, 'j, 'r, 'a) turn" where
  "envt f = (\<lambda>w. case f (wd_env w) of (x, e) \<Rightarrow> (Ok x, w\<lparr>wd_env := e\<rparr>))"

definition effectt :: "('j, 'r) turn_effect \<Rightarrow> ('e, 'j, 'r, unit) turn" where
  "effectt x = (\<lambda>w. (Ok (), w\<lparr>wd_effects := wd_effects w @ [x]\<rparr>))"

abbreviation runt :: "('e \<Rightarrow> (turn_error, 'a) res \<times> 'e) \<Rightarrow> ('e, 'j, 'r, 'a) turn" where
  "runt f \<equiv> bindt (envt f) lift_res"

definition emit :: "('e, 'j, 'r) turn_env \<Rightarrow> ('j, 'r) turn_event \<Rightarrow> ('e, 'j, 'r, unit) turn" where
  "emit E ev = seqt (runt (te_record E ev)) (\<lambda>w. (Ok (), w\<lparr>wd_events := wd_events w @ [ev]\<rparr>))"

section \<open>The state of a run\<close>

record ('j, 'r) run_state =
  rn_turn_id :: string
  rn_model_request :: "('j, 'r) model_request"
  rn_input_message_count :: nat
  rn_steps :: "('j, 'r) step_result list"
  rn_config :: turn_config
  rn_deadline :: "instant option"
  rn_deadline_at_ms :: "u64 option"
  rn_tool_calls_used :: nat
  rn_dispatch :: dispatch_policy
  rn_tool_timeout :: "duration option"
  rn_pending :: "('j, 'r) turn_checkpoint option"
  rn_resumed :: bool
  rn_resume_boundary :: "string option"

definition validate_request :: "('j, 'r) turn_request \<Rightarrow> (turn_error, unit) res" where
  "validate_request q =
     (if tq_turn_id q = [] then Err (TeInvalidRequest ''turn_id must not be empty'')
      else if tg_max_steps (tq_config q) = 0 then Err (TeInvalidRequest ''max_steps must be greater than zero'')
      else Ok ())"

definition state_with_deadline ::
  "('j, 'r) turn_request \<Rightarrow> dispatch_policy \<Rightarrow> duration option \<Rightarrow> turn_deadline \<Rightarrow> (turn_error, ('j, 'r) run_state) res" where
  "state_with_deadline q dispatch timeout d =
     andthen (validate_request q)
    (andthen (map_err TeDeadline (validate_duration d (tg_deadline (tq_config q))))
    (Ok \<lparr>rn_turn_id = tq_turn_id q, rn_model_request = tq_model_request q,
        rn_input_message_count = length (mr_messages (tq_model_request q)), rn_steps = [],
        rn_config = tq_config q, rn_deadline = dl_instant d, rn_deadline_at_ms = dl_unix_ms d,
        rn_tool_calls_used = 0, rn_dispatch = dispatch, rn_tool_timeout = timeout, rn_pending = None,
        rn_resumed = False, rn_resume_boundary = None\<rparr>))"

fun checkpoint_error_text :: "checkpoint_error \<Rightarrow> string" where
  "checkpoint_error_text (CheckpointInvalid m) = ''invalid checkpoint: '' @ m"
| "checkpoint_error_text ForeignScope = ''checkpoint scope differs from admitted scope''"
| "checkpoint_error_text OutputLimit = ''external result exceeds issued output limit''"
| "checkpoint_error_text CheckpointLimit = ''complete checkpoint exceeds 16 MiB encoded limit''"
| "checkpoint_error_text CheckpointJson = ''checkpoint JSON''"

definition as_request :: "(checkpoint_error, 'a) res \<Rightarrow> (turn_error, 'a) res" where
  "as_request r = map_err (\<lambda>e. TeInvalidRequest (checkpoint_error_text e)) r"

definition state_of_checkpoint ::
  "('j, 'r) turn_codec \<Rightarrow> ('j, 'r) turn_checkpoint \<Rightarrow> tool_execution_scope \<Rightarrow> turn_deadline
   \<Rightarrow> (turn_error, ('j, 'r) run_state) res" where
  "state_of_checkpoint T c scope d =
     andthen (as_request (checkpoint_validate T c scope))
    (andthen (map_err TeDeadline (validate_duration d None))
    (if dl_unix_ms d \<noteq> cb_deadline_at_ms (ck_budget c)
     then Err (TeInvalidRequest ''restored deadline differs from the checkpoint cutoff'')
     else Ok \<lparr>rn_turn_id = ek_turn_id (sc_execution scope), rn_model_request = ck_model_request c,
        rn_input_message_count = ck_input_message_count c, rn_steps = ck_steps c,
        rn_config = \<lparr>tg_max_steps = cb_max_steps (ck_budget c),
          tg_max_tool_calls = cb_max_tool_calls (ck_budget c), tg_deadline = None\<rparr>,
        rn_deadline = dl_instant d, rn_deadline_at_ms = cb_deadline_at_ms (ck_budget c),
        rn_tool_calls_used = cb_prior_tool_calls_used (ck_budget c), rn_dispatch = ck_dispatch c,
        rn_tool_timeout = map_option millis (cb_tool_timeout_ms (ck_budget c)), rn_pending = Some c,
        rn_resumed = True, rn_resume_boundary = Some (ck_checkpoint_id c)\<rparr>))"

definition current_step_id :: "('j, 'r) run_state \<Rightarrow> string" where
  "current_step_id st = step_id (rn_turn_id st) (length (rn_steps st) - 1)"

definition check :: "('e, 'j, 'r) turn_env \<Rightarrow> ('j, 'r) run_state \<Rightarrow> ('e, 'j, 'r, unit) turn" where
  "check E st =
     bindt (envt (te_cancelled E)) (\<lambda>cancelled.
       if cancelled then raise TeCancelled
       else
         (case rn_deadline st of
            None \<Rightarrow> give ()
          | Some limit \<Rightarrow> bindt (envt (te_now E)) (\<lambda>now. if limit \<le> now then raise TeTimedOut else give ())))"

definition admit_boundary :: "('e, 'j, 'r) turn_env \<Rightarrow> ('j, 'r) run_state \<Rightarrow> boundary_kind \<Rightarrow> ('e, 'j, 'r, unit) turn" where
  "admit_boundary E st kind = seqt (check E st) (runt (te_gate E (rn_turn_id st) kind (rn_deadline st)))"

definition tool_scope ::
  "turn_executor \<Rightarrow> string \<Rightarrow> string \<Rightarrow> (turn_error, tool_execution_scope) res" where
  "tool_scope X turn_id step =
     bindr (ok_or (tx_execution_key X) (TeInvalidRequest ''tool execution requires an admitted execution key'')) (\<lambda>key.
     if ek_turn_id key \<noteq> turn_id then Err (TeInvalidRequest ''execution key belongs to another Turn'')
     else
       let scope = \<lparr>sc_execution = key, sc_step_id = step, sc_agent_snapshot_digest = tx_agent_snapshot_digest X\<rparr>
       in andthen (map_err (\<lambda>e. TeInvalidRequest (prepared_error_text e)) (scope_validate scope)) (Ok scope))"

definition validate_resume_scope :: "turn_executor \<Rightarrow> tool_execution_scope \<Rightarrow> (turn_error, unit) res" where
  "validate_resume_scope X expected =
     bindr (tool_scope X (ek_turn_id (sc_execution expected)) (sc_step_id expected)) (\<lambda>scope.
       if scope \<noteq> expected then Err (TeInvalidRequest ''checkpoint belongs to another admitted execution scope'')
       else Ok ())"

section \<open>Preparation and planning\<close>

definition refused_preparation :: "dispatch_policy \<Rightarrow> tool_error \<Rightarrow> bool" where
  "refused_preparation d e \<longleftrightarrow>
     dp_on_error d = FailTurn
     \<or> (case e of Uncertain _ \<Rightarrow> True | ToolCancelled \<Rightarrow> True | ToolTimedOut \<Rightarrow> True | InvalidBatch _ \<Rightarrow> True | _ \<Rightarrow> False)"

text \<open>The earlier of the deadline of the turn and the tool timeout from now.\<close>

definition tool_deadline :: "('e, 'j, 'r) turn_env \<Rightarrow> ('j, 'r) run_state \<Rightarrow> ('e, 'j, 'r, instant option) turn" where
  "tool_deadline E st =
     (case rn_tool_timeout st of
        None \<Rightarrow> give (rn_deadline st)
      | Some timeout \<Rightarrow> bindt (envt (te_now E)) (\<lambda>now. give (min_option (rn_deadline st) (Some (now + timeout)))))"

definition checked_preparation ::
  "('j, 'r) turn_codec \<Rightarrow> 'j tool_call \<Rightarrow> (tool_error, 'j prepared_call) res \<Rightarrow> (tool_error, 'j prepared_call) res" where
  "checked_preparation T call r =
     bindr r (\<lambda>p.
     andthen (map_err (\<lambda>e. InvalidBatch (prepared_error_text e)) (prepared_validate (tk_policy T) p))
    (if pc_call p \<noteq> call then Err (InvalidBatch ''preparation changed the original model call'') else Ok p))"

definition prepare_ready ::
  "('e, 'j, 'r) turn_env \<Rightarrow> ('j, 'r) turn_codec \<Rightarrow> ('j, 'r) run_state \<Rightarrow> 'j tool_call
   \<Rightarrow> ('e, 'j, 'r, (tool_error, 'j prepared_call) res) turn" where
  "prepare_ready E T st call =
     bindt (tryt (check E st)) (\<lambda>checked.
       case checked of
         Err e \<Rightarrow> give (Err (if e = TeCancelled then ToolCancelled else ToolTimedOut))
       | _ \<Rightarrow>
         bindt (tool_deadline E st) (\<lambda>deadline.
         bindt (envt (te_prepare E call deadline)) (\<lambda>r. give (checked_preparation T call r))))"

definition feedback_of :: "'j tool_call \<Rightarrow> tool_error \<Rightarrow> tool_result" where
  "feedback_of call e = \<lparr>tr_call_id = cl_id call, tr_content = tool_error_text e, tr_is_error = True\<rparr>"

definition prepare_failure ::
  "('e, 'j, 'r) turn_env \<Rightarrow> ('j, 'r) run_state \<Rightarrow> 'j tool_call \<Rightarrow> tool_error \<Rightarrow> ('e, 'j, 'r, tool_result) turn" where
  "prepare_failure E st call e =
     seqt (emit E (EvToolCallRequested (rn_turn_id st) call))
    (seqt (emit E (EvToolExecutionFailed (rn_turn_id st) (cl_id call) (cl_name call) e))
    (if refused_preparation (rn_dispatch st) e then raise (TeTool e)
     else seqt (emit E (EvToolResult (rn_turn_id st) (feedback_of call e))) (give (feedback_of call e))))"

definition ready_entry :: "'j tool_call \<Rightarrow> 'j prepared_call \<Rightarrow> 'j checkpoint_call" where
  "ready_entry call p = \<lparr>cc_call = call, cc_prepared = Some p, cc_charged = False, cc_state = CallReady\<rparr>"

definition failed_entry :: "'j tool_call \<Rightarrow> tool_result \<Rightarrow> 'j checkpoint_call" where
  "failed_entry call r = \<lparr>cc_call = call, cc_prepared = None, cc_charged = True, cc_state = CallCompleted r None\<rparr>"

fun prepare_entries ::
  "('e, 'j, 'r) turn_env \<Rightarrow> ('j, 'r) turn_codec \<Rightarrow> ('j, 'r) run_state \<Rightarrow> 'j tool_call list
   \<Rightarrow> ('e, 'j, 'r, 'j checkpoint_call list) turn" where
  "prepare_entries E T st [] = give []"
| "prepare_entries E T st (call # calls) =
     bindt (prepare_ready E T st call) (\<lambda>r.
     bindt (case r of
              Ok p \<Rightarrow> give (ready_entry call p)
            | Err e \<Rightarrow> bindt (prepare_failure E st call e) (\<lambda>fb. give (failed_entry call fb))
            | Panic \<Rightarrow> lift_res Panic) (\<lambda>entry.
     bindt (prepare_entries E T st calls) (\<lambda>entries. give (entry # entries))))"

definition no_policy :: turn_error where
  "no_policy = TeInvalidRequest ''tool execution requires a trusted policy engine''"

definition initial_reconstruction ::
  "('j, 'r) run_state \<Rightarrow> tool_execution_scope \<Rightarrow> 'j checkpoint_call list \<Rightarrow> ('j, 'r) reconstruction" where
  "initial_reconstruction st scope entries =
     \<lparr>ri_scope = scope, ri_model_request = rn_model_request st, ri_input_message_count = rn_input_message_count st,
      ri_steps = rn_steps st, ri_calls = entries, ri_stages = [map (cl_id \<circ> cc_call) entries], ri_stage_index = 0,
      ri_approvals = [],
      ri_budget = \<lparr>cb_max_steps = tg_max_steps (rn_config st), cb_max_tool_calls = tg_max_tool_calls (rn_config st),
        cb_deadline_at_ms = rn_deadline_at_ms st,
        cb_tool_timeout_ms = map_option (\<lambda>t. word_of_nat (t div 1000000)) (rn_tool_timeout st),
        cb_prior_tool_calls_used = rn_tool_calls_used st,
        cb_tool_calls_used = rn_tool_calls_used st + charged entries\<rparr>,
      ri_dispatch = rn_dispatch st\<rparr>"

definition initialize_pending ::
  "('e, 'j, 'r) turn_env \<Rightarrow> ('j, 'r) turn_codec \<Rightarrow> turn_executor \<Rightarrow> ('j, 'r) run_state
   \<Rightarrow> ('e, 'j, 'r, ('j, 'r) run_state) turn" where
  "initialize_pending E T X st =
     bindt (lift_res (ok_or (tx_policy X) no_policy)) (\<lambda>policy.
     bindt (lift_res (tool_scope X (rn_turn_id st) (current_step_id st))) (\<lambda>scope.
     bindt (lift_res (if rn_steps st = [] then Panic else Ok (last (rn_steps st)))) (\<lambda>step.
     bindt (lift_res (map_err TeTool (batch_of_calls (tool_calls (rp_content (sp_response step)))))) (\<lambda>calls.
     if exceeds (tg_max_tool_calls (rn_config st)) (rn_tool_calls_used st + length calls)
     then raise TeToolBudgetExceeded
     else
       (case find (\<lambda>call. has_no_progress policy call
                 (drop (rn_input_message_count st) (mr_messages (rn_model_request st)))) calls of
          Some call \<Rightarrow> raise (TeNoProgress (cl_name call))
        | None \<Rightarrow>
          bindt (prepare_entries E T st calls) (\<lambda>entries.
          bindt (lift_res (as_request (reconstruct T (initial_reconstruction st scope entries) scope))) (\<lambda>c.
            give (st\<lparr>rn_pending := Some c\<rparr>))))))))"

text \<open>Fresh preparation of the calls that are still ready.\<close>

definition approval_call :: "'j checkpoint_approval \<Rightarrow> string" where
  "approval_call a = cl_id (pc_call (ca_prepared a))"

definition drop_approvals :: "string \<Rightarrow> ('j, 'r) turn_checkpoint \<Rightarrow> ('j, 'r) turn_checkpoint" where
  "drop_approvals i c = c\<lparr>ck_approvals := filter (\<lambda>a. approval_call a \<noteq> i) (ck_approvals c)\<rparr>"

definition update_call :: "string \<Rightarrow> ('j checkpoint_call \<Rightarrow> 'j checkpoint_call) \<Rightarrow> ('j, 'r) turn_checkpoint \<Rightarrow> ('j, 'r) turn_checkpoint" where
  "update_call i f c = c\<lparr>ck_calls := update_first (\<lambda>item. cl_id (cc_call item) = i) f (ck_calls c)\<rparr>"

definition complete_unissued :: "tool_result \<Rightarrow> 'j checkpoint_call \<Rightarrow> 'j checkpoint_call" where
  "complete_unissued r item = item\<lparr>cc_charged := True, cc_state := CallCompleted r None\<rparr>"

fun refresh_preparations ::
  "('e, 'j, 'r) turn_env \<Rightarrow> ('j, 'r) turn_codec \<Rightarrow> ('j, 'r) run_state \<Rightarrow> ('j, 'r) turn_checkpoint \<Rightarrow> 'j tool_call list
   \<Rightarrow> ('e, 'j, 'r, ('j, 'r) turn_checkpoint) turn" where
  "refresh_preparations E T st c [] = give c"
| "refresh_preparations E T st c (call # calls) =
     bindt (prepare_ready E T st call) (\<lambda>r.
       case r of
         Panic \<Rightarrow> lift_res Panic
       | Err e \<Rightarrow>
           bindt (prepare_failure E st call e) (\<lambda>fb.
           bindt (lift_res (unwrap (find_call (cl_id call) (ck_calls c)))) (\<lambda>_.
             refresh_preparations E T st
               (drop_approvals (cl_id call)
                 (update_call (cl_id call) (\<lambda>item. complete_unissued fb (item\<lparr>cc_prepared := None\<rparr>)) c)) calls))
       | Ok current \<Rightarrow>
           if \<exists>a \<in> set (ck_approvals c). approval_call a = cl_id call \<and> ca_evidence_id a \<noteq> None \<and> ca_prepared a \<noteq> current
           then raise (TeInvalidRequest ''approval preparation has changed'')
           else
             bindt (lift_res (unwrap (find_call (cl_id call) (ck_calls c)))) (\<lambda>_.
               refresh_preparations E T st
                 (update_call (cl_id call) (\<lambda>item. item\<lparr>cc_prepared := Some current\<rparr>) c) calls))"

definition recount :: "('j, 'r) turn_checkpoint \<Rightarrow> ('j, 'r) turn_checkpoint" where
  "recount c = c\<lparr>ck_budget := (ck_budget c)\<lparr>cb_tool_calls_used :=
     cb_prior_tool_calls_used (ck_budget c) + charged (ck_calls c)\<rparr>\<rparr>"

fun all_prepared :: "'j checkpoint_call list \<Rightarrow> ('e, 'j prepared_call list) res" where
  "all_prepared [] = Ok []"
| "all_prepared (item # items) =
     (if is_ready item
      then bindr (unwrap (cc_prepared item)) (\<lambda>p. bindr (all_prepared items) (\<lambda>ps. Ok (p # ps)))
      else all_prepared items)"

text \<open>One planned decision: a denial completes the call, a required approval is asked for once.\<close>

definition new_approval ::
  "('j, 'r) turn_codec \<Rightarrow> ('j, 'r) turn_checkpoint \<Rightarrow> 'j checkpoint_call \<Rightarrow> 'j prepared_call \<Rightarrow> policy_decision
   \<Rightarrow> 'j checkpoint_approval" where
  "new_approval T c item p d =
     \<lparr>ca_approval_id = host_identity T ''approval''
        (tk_approval_bytes T ''approval'' (ck_scope c, cl_id (cc_call item), pc_digest p, pd_policy_version d)),
      ca_reason = pd_reason d, ca_prepared = p, ca_scope = ck_scope c, ca_policy_revision = pd_policy_version d,
      ca_evidence_id = None, ca_expires_at_ms = None\<rparr>"

definition apply_decision ::
  "('e, 'j, 'r) turn_env \<Rightarrow> ('j, 'r) turn_codec \<Rightarrow> ('j, 'r) run_state \<Rightarrow> ('j, 'r) turn_checkpoint \<Rightarrow> batch_decision
   \<Rightarrow> ('e, 'j, 'r, ('j, 'r) turn_checkpoint) turn" where
  "apply_decision E T st c planned =
     bindt (lift_res (unwrap (find_call (bd_call_id planned) (ck_calls c)))) (\<lambda>item.
     bindt (lift_res (unwrap (cc_prepared item))) (\<lambda>p.
     let d = bd_decision planned; call = cc_call item;
         saved = find (\<lambda>a. approval_call a = cl_id call) (ck_approvals c) in
     if (case saved of None \<Rightarrow> False
         | Some a \<Rightarrow> ca_evidence_id a \<noteq> None \<and> (ca_policy_revision a \<noteq> pd_policy_version d \<or> pd_kind d \<noteq> RequireApproval))
     then raise (TeInvalidRequest ''approval is stale under the current policy'')
     else
       (case pd_kind d of
          Deny \<Rightarrow>
            let e = PolicyDeniedCall (pd_reason d) in
            seqt (emit E (EvToolCallRequested (rn_turn_id st) call))
           (seqt (emit E (EvToolExecutionFailed (rn_turn_id st) (cl_id call) (cl_name call) e))
           (if dp_on_error (rn_dispatch st) = FailTurn then raise (TeTool e)
            else
              seqt (emit E (EvToolResult (rn_turn_id st) (feedback_of call e)))
                (give (drop_approvals (cl_id call) (update_call (bd_call_id planned) (complete_unissued (feedback_of call e)) c)))))
        | RequireApproval \<Rightarrow>
            if (case saved of None \<Rightarrow> True | Some a \<Rightarrow> ca_prepared a \<noteq> p \<or> ca_policy_revision a \<noteq> pd_policy_version d)
            then
              seqt (emit E (EvToolCallRequested (rn_turn_id st) call))
             (seqt (emit E (EvApprovalRequested (rn_turn_id st) (cl_id call) (cl_name call)))
                (give (let c' = drop_approvals (cl_id call) c
                       in c'\<lparr>ck_approvals := ck_approvals c' @ [new_approval T c item p d]\<rparr>)))
            else give c
        | _ \<Rightarrow> give (drop_approvals (cl_id call) c))))"

fun apply_decisions ::
  "('e, 'j, 'r) turn_env \<Rightarrow> ('j, 'r) turn_codec \<Rightarrow> ('j, 'r) run_state \<Rightarrow> ('j, 'r) turn_checkpoint \<Rightarrow> batch_decision list
   \<Rightarrow> ('e, 'j, 'r, ('j, 'r) turn_checkpoint) turn" where
  "apply_decisions E T st c [] = give c"
| "apply_decisions E T st c (d # ds) = bindt (apply_decision E T st c d) (\<lambda>c'. apply_decisions E T st c' ds)"

text \<open>The stages after a refresh: what is completed first, then the stages of what may run.\<close>

definition refreshed_stages ::
  "dispatch_policy \<Rightarrow> batch_plan \<Rightarrow> 'j checkpoint_call list \<Rightarrow> string list list \<times> nat" where
  "refreshed_stages dispatch plan items =
     (let stages = (if dp_mode dispatch = Serial then map (\<lambda>item. [cl_id (cc_call item)]) (filter is_ready items)
                    else stages_with_approvals plan (map bd_call_id (bp_decisions plan)));
          completed = map (cl_id \<circ> cc_call) (filter is_completed items)
      in if completed = [] then (stages, 0) else (completed # stages, 1))"

definition policy_context_of :: "('j, 'r) run_state \<Rightarrow> ('j, 'r) turn_checkpoint \<Rightarrow> policy_context" where
  "policy_context_of st c = \<lparr>px_workspace = None,
     px_remaining_tool_calls = map_option (\<lambda>limit. limit - cb_tool_calls_used (ck_budget c)) (tg_max_tool_calls (rn_config st))\<rparr>"

definition refresh_ready ::
  "('e, 'j, 'r) turn_env \<Rightarrow> ('j, 'r) turn_codec \<Rightarrow> turn_executor \<Rightarrow> ('j, 'r) run_state \<Rightarrow> ('j, 'r) turn_checkpoint
   \<Rightarrow> ('e, 'j, 'r, batch_plan \<times> ('j, 'r) turn_checkpoint) turn" where
  "refresh_ready E T X st c =
     bindt (refresh_preparations E T st c (map cc_call (filter is_ready (ck_calls c)))) (\<lambda>c1.
     seqt (check E st)
    (bindt (lift_res (ok_or (tx_policy X) no_policy)) (\<lambda>policy.
     bindt (lift_res (all_prepared (ck_calls (recount c1)))) (\<lambda>preparations.
     bindt (lift_res (map_err (\<lambda>e. TeInvalidRequest (prepared_error_text e))
              (resolve_prepared_batch (tk_policy T) policy (policy_context_of st (recount c1)) preparations))) (\<lambda>plan.
     bindt (apply_decisions E T st (recount c1) (bp_decisions plan)) (\<lambda>c2.
     let (stages, index) = refreshed_stages (rn_dispatch st) plan (ck_calls c2);
         c3 = recount (c2\<lparr>ck_stages := stages, ck_stage_index := index\<rparr>) in
     seqt (lift_res (as_request (checkpoint_validate T c3 (ck_scope c3))))
    (seqt (runt (te_record_checkpoint E c3)) (give (plan, c3)))))))))"

section \<open>Dispatch\<close>

record 'j observation =
  ob_call :: "'j tool_call"
  ob_issued :: "'j issued_authority"
  ob_outcome :: "(tool_error, 'j tool_outcome) res"

text \<open>The evidence for a planned call, and the invocations of a stage with their issued authority.\<close>

definition approval_evidence_for ::
  "('e, 'j, 'r) turn_env \<Rightarrow> ('j, 'r) turn_checkpoint \<Rightarrow> string \<Rightarrow> ('e, 'j, 'r, approval_evidence) turn" where
  "approval_evidence_for E c i =
     bindt (lift_res (unwrap (find (\<lambda>a. approval_call a = i) (ck_approvals c)))) (\<lambda>saved.
     bindt (case ca_expires_at_ms saved of
              None \<Rightarrow> give False
            | Some expiry \<Rightarrow> bindt (envt (te_now_ms E)) (\<lambda>now. give (expiry \<le> now))) (\<lambda>expired.
     if expired then raise (TeInvalidRequest ''approval has expired'')
     else bindt (lift_res (unwrap (ca_evidence_id saved))) (\<lambda>evidence.
       give (Confirmed (ck_scope c) (pc_digest (ca_prepared saved)) (ca_policy_revision saved) evidence))))"

definition issue_authority ::
  "('j, 'r) turn_codec \<Rightarrow> ('j, 'r) turn_checkpoint \<Rightarrow> 'j prepared_call \<Rightarrow> policy_decision \<Rightarrow> approval_evidence
   \<Rightarrow> (turn_error, 'j issued_authority) res" where
  "issue_authority T c p d evidence =
     bindr (map_err (\<lambda>e. TeInvalidRequest (prepared_error_text e)) (issue_grant (tk_policy T) p d evidence (ck_scope c))) (\<lambda>g.
     let issued = \<lparr>ia_prepared = p, ia_grant = g, ia_scope = ck_scope c, ia_policy_revision = pd_policy_version d\<rparr>
     in andthen (as_request (authority_validate T issued (ck_scope c))) (Ok issued))"

definition pending_approval :: "('j, 'r) turn_checkpoint \<Rightarrow> bool" where
  "pending_approval c \<longleftrightarrow> (\<exists>a \<in> set (ck_approvals c). ca_evidence_id a = None)"

fun collect_invocations ::
  "('e, 'j, 'r) turn_env \<Rightarrow> ('j, 'r) turn_codec \<Rightarrow> ('j, 'r) turn_checkpoint \<Rightarrow> batch_plan \<Rightarrow> string list
   \<Rightarrow> ('e, 'j, 'r, ('j tool_call \<times> 'j issued_authority) list) turn" where
  "collect_invocations E T c plan [] = give []"
| "collect_invocations E T c plan (i # is) =
     bindt (lift_res (unwrap (find_call i (ck_calls c)))) (\<lambda>item.
     if \<not> is_ready item then collect_invocations E T c plan is
     else
       bindt (lift_res (unwrap (find (\<lambda>d. bd_call_id d = i) (bp_decisions plan)))) (\<lambda>planned.
       let d = bd_decision planned in
       if pd_kind d = RequireApproval \<and> pending_approval c then collect_invocations E T c plan is
       else
         bindt (if pd_kind d = RequireApproval then approval_evidence_for E c i else give NotConfirmed) (\<lambda>evidence.
         bindt (lift_res (unwrap (cc_prepared item))) (\<lambda>p.
         bindt (lift_res (issue_authority T c p d evidence)) (\<lambda>issued.
         bindt (collect_invocations E T c plan is) (\<lambda>rest. give ((cc_call item, issued) # rest)))))))"

definition execution_window ::
  "('e, 'j, 'r) turn_env \<Rightarrow> ('j, 'r) run_state \<Rightarrow> u64 \<Rightarrow> ('e, 'j, 'r, instant) turn" where
  "execution_window E st grant_timeout =
     bindt (tool_deadline E st) (\<lambda>deadline.
     bindt (envt (te_now E)) (\<lambda>now.
       give (case deadline of None \<Rightarrow> now + millis grant_timeout | Some d \<Rightarrow> min d (now + millis grant_timeout))))"

definition dispatch_call ::
  "('e, 'j, 'r) turn_env \<Rightarrow> ('j, 'r) run_state \<Rightarrow> ('j, 'r) turn_checkpoint \<Rightarrow> 'j tool_call \<Rightarrow> 'j issued_authority
   \<Rightarrow> ('e, 'j, 'r, 'j observation) turn" where
  "dispatch_call E st c call issued =
     seqt (admit_boundary E st (ToolBoundary (current_step_id st) (cl_id call)))
    (seqt (check E st)
    (seqt (if \<exists>a \<in> set (ck_approvals c). approval_call a = cl_id call then give ()
           else emit E (EvToolCallRequested (rn_turn_id st) call))
    (seqt (emit E (EvToolExecutionStarted (rn_turn_id st) (cl_id call) (cl_name call)))
    (bindt (lift_res (ok_or (ec_timeout_ms (pg_constraints (ia_grant issued)))
              (TeInvalidRequest ''issued timeout is missing''))) (\<lambda>grant_timeout.
     bindt (execution_window E st grant_timeout) (\<lambda>window.
     let invocation = \<lparr>iv_prepared = ia_prepared issued, iv_grant = ia_grant issued, iv_scope = ia_scope issued,
                       iv_policy_revision = ia_policy_revision issued, iv_window = window\<rparr> in
     seqt (effectt (ToolExecuted invocation))
    (bindt (envt (te_execute E invocation)) (\<lambda>outcome.
       give \<lparr>ob_call = call, ob_issued = issued, ob_outcome = outcome\<rparr>))))))))"

definition observed :: "'j call_state \<Rightarrow> 'j checkpoint_call \<Rightarrow> 'j checkpoint_call" where
  "observed state item = item\<lparr>cc_state := state, cc_charged := True\<rparr>"

definition batch_error :: "(checkpoint_error, 'a) res \<Rightarrow> (turn_error, 'a) res" where
  "batch_error r = map_err (\<lambda>e. TeTool (InvalidBatch (checkpoint_error_text e))) r"

definition uncertain_text :: "tool_error \<Rightarrow> turn_error \<Rightarrow> string" where
  "uncertain_text e recording =
     tool_error_text e @ ''; failure recording also failed: '' @ turn_error_text recording"

text \<open>A failure is recorded; an uncertain one stays uncertain even if the recording fails.\<close>

definition record_uncertain ::
  "('e, 'j, 'r) turn_env \<Rightarrow> ('j, 'r) run_state \<Rightarrow> 'j tool_call \<Rightarrow> tool_error \<Rightarrow> ('e, 'j, 'r, 'b) turn" where
  "record_uncertain E st call e =
     bindt (tryt (emit E (EvToolExecutionFailed (rn_turn_id st) (cl_id call) (cl_name call) e))) (\<lambda>recording.
       case recording of
         Err r \<Rightarrow> raise (TeTool (Uncertain (uncertain_text e r)))
       | _ \<Rightarrow> raise (TeTool e))"

definition complete_observed ::
  "('e, 'j, 'r) turn_env \<Rightarrow> ('j, 'r) turn_codec \<Rightarrow> ('j, 'r) run_state \<Rightarrow> 'j issued_authority \<Rightarrow> tool_result
   \<Rightarrow> ('e, 'j, 'r, 'j call_state) turn" where
  "complete_observed E T st issued r =
     seqt (lift_res (batch_error (validate_result T issued r)))
    (seqt (emit E (EvToolResult (rn_turn_id st) r)) (give (CallCompleted r (Some issued))))"

definition observed_state ::
  "('e, 'j, 'r) turn_env \<Rightarrow> ('j, 'r) turn_codec \<Rightarrow> ('j, 'r) run_state \<Rightarrow> 'j observation \<Rightarrow> ('e, 'j, 'r, 'j call_state) turn" where
  "observed_state E T st ob =
     (let call = ob_call ob; issued = ob_issued ob in
      case ob_outcome ob of
        Ok (OutcomeCompleted r) \<Rightarrow> complete_observed E T st issued r
      | Ok (OutcomeAwaiting w) \<Rightarrow>
          (case wait_validate T w of
             Err e \<Rightarrow> record_uncertain E st call
               (Uncertain (''executor returned invalid external wait after admission: '' @ checkpoint_error_text e))
           | _ \<Rightarrow> seqt (emit E (EvToolAwaitingExternal (rn_turn_id st) (cl_id call) w)) (give (CallAwaiting w issued)))
      | Err (Uncertain m) \<Rightarrow> record_uncertain E st call (Uncertain m)
      | Err e \<Rightarrow>
          seqt (emit E (EvToolExecutionFailed (rn_turn_id st) (cl_id call) (cl_name call) e))
         (if e = ToolCancelled then raise TeCancelled
          else if refused_preparation (rn_dispatch st) e then raise (TeTool e)
          else complete_observed E T st issued (feedback_of call e))
      | Panic \<Rightarrow> lift_res Panic)"

definition apply_observation ::
  "('e, 'j, 'r) turn_env \<Rightarrow> ('j, 'r) turn_codec \<Rightarrow> ('j, 'r) run_state \<Rightarrow> ('j, 'r) turn_checkpoint \<Rightarrow> 'j observation
   \<Rightarrow> ('e, 'j, 'r, ('j, 'r) turn_checkpoint) turn" where
  "apply_observation E T st c ob =
     bindt (observed_state E T st ob) (\<lambda>state.
     bindt (lift_res (unwrap (find_call (cl_id (ob_call ob)) (ck_calls c)))) (\<lambda>_.
       give (update_call (cl_id (ob_call ob)) (observed state) c)))"

fun dispatch_serial ::
  "('e, 'j, 'r) turn_env \<Rightarrow> ('j, 'r) turn_codec \<Rightarrow> ('j, 'r) run_state \<Rightarrow> ('j, 'r) turn_checkpoint
   \<Rightarrow> ('j tool_call \<times> 'j issued_authority) list \<Rightarrow> ('e, 'j, 'r, ('j, 'r) turn_checkpoint) turn" where
  "dispatch_serial E T st c [] = give c"
| "dispatch_serial E T st c ((call, issued) # rest) =
     bindt (dispatch_call E st c call issued) (\<lambda>ob.
     bindt (apply_observation E T st c ob) (\<lambda>c'.
     seqt (check E st)
    (case ob_outcome ob of
       Ok (OutcomeAwaiting _) \<Rightarrow> give c'
     | _ \<Rightarrow> dispatch_serial E T st c' rest)))"

fun dispatch_all ::
  "('e, 'j, 'r) turn_env \<Rightarrow> ('j, 'r) run_state \<Rightarrow> ('j, 'r) turn_checkpoint \<Rightarrow> ('j tool_call \<times> 'j issued_authority) list
   \<Rightarrow> ('e, 'j, 'r, (turn_error, 'j observation) res list) turn" where
  "dispatch_all E st c [] = give []"
| "dispatch_all E st c ((call, issued) # rest) =
     bindt (tryt (dispatch_call E st c call issued)) (\<lambda>ob.
     bindt (dispatch_all E st c rest) (\<lambda>obs. give (ob # obs)))"

definition keep_fatal :: "turn_error option \<Rightarrow> turn_error \<Rightarrow> turn_error option" where
  "keep_fatal fatal e =
     (case e of TeTool (Uncertain _) \<Rightarrow> Some e | _ \<Rightarrow> (case fatal of None \<Rightarrow> Some e | Some f \<Rightarrow> Some f))"

fun apply_observations ::
  "('e, 'j, 'r) turn_env \<Rightarrow> ('j, 'r) turn_codec \<Rightarrow> ('j, 'r) run_state \<Rightarrow> ('j, 'r) turn_checkpoint \<Rightarrow> turn_error option
   \<Rightarrow> (turn_error, 'j observation) res list \<Rightarrow> ('e, 'j, 'r, ('j, 'r) turn_checkpoint \<times> turn_error option) turn" where
  "apply_observations E T st c fatal [] = give (c, fatal)"
| "apply_observations E T st c fatal (r # rs) =
     bindt (case r of
              Ok ob \<Rightarrow> tryt (apply_observation E T st c ob)
            | Err e \<Rightarrow> give (Err e)
            | Panic \<Rightarrow> lift_res Panic) (\<lambda>applied.
       case applied of
         Ok c' \<Rightarrow> apply_observations E T st c' fatal rs
       | Err e \<Rightarrow> apply_observations E T st c (keep_fatal fatal e) rs
       | Panic \<Rightarrow> lift_res Panic)"

definition dispatch_parallel ::
  "('e, 'j, 'r) turn_env \<Rightarrow> ('j, 'r) turn_codec \<Rightarrow> ('j, 'r) run_state \<Rightarrow> ('j, 'r) turn_checkpoint
   \<Rightarrow> ('j tool_call \<times> 'j issued_authority) list \<Rightarrow> ('e, 'j, 'r, ('j, 'r) turn_checkpoint) turn" where
  "dispatch_parallel E T st c invocations =
     bindt (dispatch_all E st c invocations) (\<lambda>observations.
     bindt (apply_observations E T st c None observations) (\<lambda>(c', fatal).
       case fatal of
         Some e \<Rightarrow> raise e
       | None \<Rightarrow> seqt (check E st) (give c')))"

text \<open>The current stage: whether it made progress, and the checkpoint after it.\<close>

definition dispatch_current_stage ::
  "('e, 'j, 'r) turn_env \<Rightarrow> ('j, 'r) turn_codec \<Rightarrow> ('j, 'r) run_state \<Rightarrow> ('j, 'r) turn_checkpoint \<Rightarrow> batch_plan
   \<Rightarrow> ('e, 'j, 'r, bool \<times> ('j, 'r) turn_checkpoint) turn" where
  "dispatch_current_stage E T st c plan =
     (case get (ck_stages c) (ck_stage_index c) of
        None \<Rightarrow> give (True, c)
      | Some stage \<Rightarrow>
          bindt (collect_invocations E T c plan stage) (\<lambda>invocations.
          if invocations = [] then give (False, c)
          else
            bindt (case dp_mode (rn_dispatch st) of
                     Serial \<Rightarrow> dispatch_serial E T st c invocations
                   | Parallel \<Rightarrow> dispatch_parallel E T st c invocations) (\<lambda>c1.
            seqt (lift_res (as_request (checkpoint_validate T (recount c1) (ck_scope (recount c1)))))
              (give (True, recount c1)))))"

end
