(* ===== verification/Turn_Drive.thy ===== *)
theory Turn_Drive
  imports Turn_Engine
begin

text \<open>
  The loops of the turn engine, \<open>crates/kolyan-core/src/turn/engine.rs\<close>, and the entry points of
  \<open>turn.rs\<close>: the rounds over a pending batch, suspension, the model loop, completion, the terminal
  event, starting, resuming, merging and rejecting. Each loop carries fuel; running out of it is
  \<open>Panic\<close>.
\<close>

section \<open>A settled batch\<close>

definition append_tool_context ::
  "'j message list \<Rightarrow> 'j content_block list \<Rightarrow> tool_result list \<Rightarrow> 'j message list" where
  "append_tool_context messages content results =
     messages @ [\<lparr>me_role = Assistant, me_content = content\<rparr>]
       @ map (\<lambda>r. \<lparr>me_role = User, me_content = [ToolResultBlock r]\<rparr>) results"

definition completed_results :: "'j checkpoint_call list \<Rightarrow> tool_result list" where
  "completed_results items = concat (map (\<lambda>item. case cc_state item of CallCompleted r _ \<Rightarrow> [r] | _ \<Rightarrow> []) items)"

definition paired_results :: "'j checkpoint_call list \<Rightarrow> dispatch_result list" where
  "paired_results items = concat (map (\<lambda>item. case cc_state item of
     CallCompleted r _ \<Rightarrow> [\<lparr>dr_call_id = cl_id (cc_call item), dr_result = Ok r\<rparr>] | _ \<Rightarrow> []) items)"

definition settle_pending ::
  "('j, 'r) run_state \<Rightarrow> ('j, 'r) turn_checkpoint \<Rightarrow> (turn_error, ('j, 'r) run_state) res" where
  "settle_pending st c =
     bindr (map_err TeTool (batch_of_calls (map cc_call (ck_calls c)))) (\<lambda>batch.
     andthen (map_err TeTool (validate_results batch (paired_results (ck_calls c))))
    (bindr (if ck_steps c = [] then Panic else Ok (last (ck_steps c))) (\<lambda>step.
       Ok (st\<lparr>rn_pending := None, rn_tool_calls_used := cb_tool_calls_used (ck_budget c),
             rn_model_request := (rn_model_request st)\<lparr>mr_messages :=
               append_tool_context (mr_messages (rn_model_request st)) (rp_content (sp_response step))
                 (completed_results (ck_calls c))\<rparr>\<rparr>))))"

section \<open>The rounds over a pending batch\<close>

fun admit_approvals ::
  "('e, 'j, 'r) turn_env \<Rightarrow> ('j, 'r) run_state \<Rightarrow> approval_request list \<Rightarrow> ('e, 'j, 'r, unit) turn" where
  "admit_approvals E st [] = give ()"
| "admit_approvals E st (a # as) =
     seqt (admit_boundary E st (AwaitingApprovalBoundary (ar_approval_id a))) (admit_approvals E st as)"

definition suspend_pending ::
  "('e, 'j, 'r) turn_env \<Rightarrow> ('j, 'r) turn_codec \<Rightarrow> ('j, 'r) run_state \<Rightarrow> ('j, 'r) turn_checkpoint
   \<Rightarrow> ('e, 'j, 'r, ('j, 'r) turn_suspension) turn" where
  "suspend_pending E T st c =
     bindt (lift_res (as_request (suspension_from_checkpoint T c (ck_scope c)))) (\<lambda>s.
     if ss_approvals (su_waiting s) = [] \<and> ss_external_waits (su_waiting s) = []
     then raise (TeInvalidRequest ''tool stage has no runnable call or waiting reason'')
     else
       seqt (admit_approvals E st (ss_approvals (su_waiting s)))
      (seqt (if ss_external_waits (su_waiting s) = [] then give ()
             else admit_boundary E st (AwaitingExternalBoundary (ck_checkpoint_id c)
                    (map (ew_wait_id \<circ> pw_wait) (ss_external_waits (su_waiting s)))))
       (give s)))"

text \<open>Waiting for an approval inside the run, and what the confirmation saves.\<close>

definition confirm_approval :: "string \<Rightarrow> ('j, 'r) turn_checkpoint \<Rightarrow> ('j, 'r) turn_checkpoint" where
  "confirm_approval i c = c\<lparr>ck_approvals :=
     update_first (\<lambda>a. ca_approval_id a = i) (\<lambda>a. a\<lparr>ca_evidence_id := Some i\<rparr>) (ck_approvals c)\<rparr>"

definition await_approval ::
  "('e, 'j, 'r) turn_env \<Rightarrow> ('j, 'r) run_state \<Rightarrow> ('j, 'r) turn_checkpoint \<Rightarrow> approval_request
   \<Rightarrow> ('e, 'j, 'r, ('j, 'r) turn_checkpoint) turn" where
  "await_approval E st c a =
     seqt (admit_boundary E st (AwaitingApprovalBoundary (ar_approval_id a)))
    (seqt (runt (te_await_approval E (ar_tool_name a) (rn_deadline st)))
    (seqt (admit_boundary E st (ResumeApprovalBoundary (ar_approval_id a)))
    (bindt (lift_res (unwrap (find (\<lambda>s. ca_approval_id s = ar_approval_id a) (ck_approvals c)))) (\<lambda>_.
       give (confirm_approval (ar_approval_id a) c)))))"

datatype ('j, 'r) pending_exit = Waiting "('j, 'r) turn_suspension" | Settled "('j, 'r) run_state"

text \<open>One round ends the loop or gives the checkpoint of the next round.\<close>

datatype ('j, 'r) pending_round = RoundEnds "('j, 'r) pending_exit" | RoundContinues "('j, 'r) turn_checkpoint"

definition suspend_round ::
  "('e, 'j, 'r) turn_env \<Rightarrow> ('j, 'r) turn_codec \<Rightarrow> ('j, 'r) run_state \<Rightarrow> ('j, 'r) turn_checkpoint
   \<Rightarrow> ('e, 'j, 'r, ('j, 'r) pending_round) turn" where
  "suspend_round E T st c = bindt (suspend_pending E T st c) (\<lambda>s. give (RoundEnds (Waiting s)))"

definition ready_round ::
  "('e, 'j, 'r) turn_env \<Rightarrow> ('j, 'r) turn_codec \<Rightarrow> turn_executor \<Rightarrow> bool \<Rightarrow> ('j, 'r) run_state
   \<Rightarrow> ('j, 'r) turn_checkpoint \<Rightarrow> ('e, 'j, 'r, ('j, 'r) pending_round) turn" where
  "ready_round E T X suspend st c =
     bindt (refresh_ready E T X st c) (\<lambda>(plan, c1).
     bindt (lift_res (as_request (suspension_summary_of T c1 (ck_scope c1)))) (\<lambda>summary.
     case (suspend, ss_approvals summary) of
       (False, a # _) \<Rightarrow> bindt (await_approval E st c1 a) (\<lambda>c2. give (RoundContinues c2))
     | _ \<Rightarrow>
         bindt (dispatch_current_stage E T st c1 plan) (\<lambda>(progressed, c2).
           if progressed then give (RoundContinues c2) else suspend_round E T st c2)))"

definition pending_step ::
  "('e, 'j, 'r) turn_env \<Rightarrow> ('j, 'r) turn_codec \<Rightarrow> turn_executor \<Rightarrow> bool \<Rightarrow> ('j, 'r) run_state
   \<Rightarrow> ('j, 'r) turn_checkpoint \<Rightarrow> ('e, 'j, 'r, ('j, 'r) pending_round) turn" where
  "pending_step E T X suspend st c =
     seqt (check E st)
    (if \<exists>item \<in> set (ck_calls c). is_awaiting item then suspend_round E T st c
     else if \<forall>item \<in> set (ck_calls c). is_completed item
     then bindt (lift_res (settle_pending st c)) (\<lambda>st'. give (RoundEnds (Settled st')))
     else ready_round E T X suspend st c)"

fun handle_pending ::
  "('e, 'j, 'r) turn_env \<Rightarrow> ('j, 'r) turn_codec \<Rightarrow> turn_executor \<Rightarrow> bool \<Rightarrow> ('j, 'r) run_state \<Rightarrow> nat
   \<Rightarrow> ('j, 'r) turn_checkpoint \<Rightarrow> ('e, 'j, 'r, ('j, 'r) pending_exit) turn" where
  "handle_pending E T X suspend st 0 c = lift_res Panic"
| "handle_pending E T X suspend st (Suc fuel) c =
     bindt (pending_step E T X suspend st c) (\<lambda>r.
       case r of
         RoundEnds x \<Rightarrow> give x
       | RoundContinues c' \<Rightarrow> handle_pending E T X suspend st fuel c')"

text \<open>Each call is confirmed at most once and dispatched at most once, and one round settles.\<close>

definition pending_fuel :: "('j, 'r) turn_checkpoint \<Rightarrow> nat" where
  "pending_fuel c = 2 * length (ck_calls c) + 2"

section \<open>The model loop\<close>

datatype ('j, 'r) drive_exit = DriveSuspended "('j, 'r) turn_suspension" | DriveCompleted "('j, 'r) turn_result"

definition complete_turn ::
  "('e, 'j, 'r) turn_env \<Rightarrow> ('j, 'r) run_state \<Rightarrow> ('j, 'r) turn_outcome \<Rightarrow> end_reason
   \<Rightarrow> ('e, 'j, 'r, ('j, 'r) drive_exit) turn" where
  "complete_turn E st outcome why =
     seqt (admit_boundary E st (TerminalBoundary why))
    (seqt (emit E (EvCompleted (rn_turn_id st) outcome))
    (give (DriveCompleted \<lparr>tt_turn_id = rn_turn_id st, tt_outcome = outcome, tt_end_reason = why,
                           tt_steps = rn_steps st\<rparr>)))"

definition outcome_from_step :: "('j, 'r) step_result \<Rightarrow> ('j, 'r) turn_outcome \<times> end_reason" where
  "outcome_from_step step =
     (case sp_outcome step of
        FinalAnswer \<Rightarrow> (OutFinalAnswer (sp_response step), EndFinalAnswer)
      | Refused \<Rightarrow> (OutRefused (sp_response step), EndRefused)
      | Incomplete \<Rightarrow> (OutIncomplete (sp_response step), EndIncomplete)
      | ToolCalls \<Rightarrow> (OutMaxSteps, EndMaxSteps))"

text \<open>One model call. The step of a response is what the step stream completes with.\<close>

definition request_of_step :: "('j, 'r) run_state \<Rightarrow> string \<Rightarrow> ('j, 'r) run_state" where
  "request_of_step st i = st\<lparr>rn_model_request := (rn_model_request st)\<lparr>mr_request_id := i\<rparr>\<rparr>"

definition step_of_response :: "string \<Rightarrow> ('j, 'r) model_response \<Rightarrow> ('j, 'r) step_result" where
  "step_of_response i r = \<lparr>sp_step_id = i, sp_response = r, sp_outcome = step_outcome_of (rp_stop_reason r)\<rparr>"

definition model_step ::
  "('e, 'j, 'r) turn_env \<Rightarrow> ('j, 'r) run_state \<Rightarrow> ('e, 'j, 'r, ('j, 'r) step_result \<times> ('j, 'r) run_state) turn" where
  "model_step E st =
     (let i = step_id (rn_turn_id st) (length (rn_steps st)); st1 = request_of_step st i in
     seqt (admit_boundary E st (StepBoundary i))
    (seqt (emit E (EvStepStarted (rn_turn_id st) i))
    (seqt (runt (te_record_request E (rn_model_request st1)))
    (seqt (effectt (ModelCalled (rn_model_request st1)))
    (bindt (runt (te_model E i (rn_model_request st1) (rn_deadline st))) (\<lambda>r.
     let step = step_of_response i r in
     seqt (emit E (EvStepCompleted (rn_turn_id st) step))
       (give (step, st1\<lparr>rn_steps := rn_steps st1 @ [step]\<rparr>))))))))"

definition resume_pending ::
  "('e, 'j, 'r) turn_env \<Rightarrow> ('j, 'r) turn_codec \<Rightarrow> turn_executor \<Rightarrow> bool \<Rightarrow> ('j, 'r) run_state
   \<Rightarrow> ('e, 'j, 'r, ('j, 'r) pending_exit) turn" where
  "resume_pending E T X suspend st =
     (case rn_pending st of
        None \<Rightarrow> give (Settled st)
      | Some c \<Rightarrow> handle_pending E T X suspend st (pending_fuel c) c)"

datatype ('j, 'r) drive_round = DriveEnds "('j, 'r) drive_exit" | DriveContinues "('j, 'r) run_state"

definition drive_step ::
  "('e, 'j, 'r) turn_env \<Rightarrow> ('j, 'r) turn_codec \<Rightarrow> turn_executor \<Rightarrow> bool \<Rightarrow> ('j, 'r) run_state
   \<Rightarrow> ('e, 'j, 'r, ('j, 'r) drive_round) turn" where
  "drive_step E T X suspend st =
     seqt (check E st)
    (bindt (resume_pending E T X suspend st) (\<lambda>x.
     case x of
       Waiting s \<Rightarrow> give (DriveEnds (DriveSuspended s))
     | Settled st1 \<Rightarrow>
         if tg_max_steps (rn_config st1) \<le> length (rn_steps st1)
         then bindt (complete_turn E st1 OutMaxSteps EndMaxSteps) (\<lambda>d. give (DriveEnds d))
         else
           bindt (model_step E st1) (\<lambda>(step, st2).
           if sp_outcome step \<noteq> ToolCalls
           then bindt (case outcome_from_step step of (outcome, why) \<Rightarrow> complete_turn E st2 outcome why)
                  (\<lambda>d. give (DriveEnds d))
           else bindt (initialize_pending E T X st2) (\<lambda>st3. give (DriveContinues st3)))))"

fun drive_loop ::
  "('e, 'j, 'r) turn_env \<Rightarrow> ('j, 'r) turn_codec \<Rightarrow> turn_executor \<Rightarrow> bool \<Rightarrow> nat \<Rightarrow> ('j, 'r) run_state
   \<Rightarrow> ('e, 'j, 'r, ('j, 'r) drive_exit) turn" where
  "drive_loop E T X suspend 0 st = lift_res Panic"
| "drive_loop E T X suspend (Suc fuel) st =
     bindt (drive_step E T X suspend st) (\<lambda>r.
       case r of
         DriveEnds d \<Rightarrow> give d
       | DriveContinues st' \<Rightarrow> drive_loop E T X suspend fuel st')"

text \<open>Every round but the last makes a step, and there are at most \<open>max_steps\<close> of them.\<close>

definition drive_fuel :: "('j, 'r) run_state \<Rightarrow> nat" where
  "drive_fuel st = tg_max_steps (rn_config st) + 1"

definition drive ::
  "('e, 'j, 'r) turn_env \<Rightarrow> ('j, 'r) turn_codec \<Rightarrow> turn_executor \<Rightarrow> bool \<Rightarrow> ('j, 'r) run_state
   \<Rightarrow> ('e, 'j, 'r, ('j, 'r) drive_exit) turn" where
  "drive E T X suspend st =
     seqt (case rn_resume_boundary st of
             None \<Rightarrow> give () | Some i \<Rightarrow> admit_boundary E st (ResumeCheckpointBoundary i))
       (drive_loop E T X suspend (drive_fuel st) (st\<lparr>rn_resume_boundary := None\<rparr>))"

section \<open>A run\<close>

record ('j, 'r) turn_execution =
  tn_result :: "('j, 'r) turn_result"
  tn_events :: "('j, 'r) turn_event list"

datatype ('j, 'r) resumable_turn = TurnCompleted "('j, 'r) turn_execution" | TurnSuspended "('j, 'r) turn_suspension"

fun terminal_event :: "string \<Rightarrow> turn_error \<Rightarrow> ('j, 'r) turn_event" where
  "terminal_event i TeCancelled = EvCancelled i"
| "terminal_event i (TeTool ToolCancelled) = EvCancelled i"
| "terminal_event i TeTimedOut = EvTimedOut i"
| "terminal_event i (TeTool ToolTimedOut) = EvTimedOut i"
| "terminal_event i e = EvFailed i (turn_error_text e)"

definition terminal_uncertain_text :: "turn_error \<Rightarrow> turn_error \<Rightarrow> string" where
  "terminal_uncertain_text e recording =
     turn_error_text e @ ''; terminal recording also failed: '' @ turn_error_text recording"

definition fail_run :: "('e, 'j, 'r) turn_env \<Rightarrow> ('j, 'r) run_state \<Rightarrow> turn_error \<Rightarrow> ('e, 'j, 'r, 'b) turn" where
  "fail_run E st e =
     bindt (tryt (emit E (terminal_event (rn_turn_id st) e))) (\<lambda>recording.
       case recording of
         Err r \<Rightarrow>
           (case e of
              TeTool (Uncertain _) \<Rightarrow> raise (TeTool (Uncertain (terminal_uncertain_text e r)))
            | _ \<Rightarrow> raise r)
       | _ \<Rightarrow> raise e)"

definition new_events :: "('e, 'j, 'r, unit) turn" where
  "new_events = (\<lambda>w. (Ok (), w\<lparr>wd_events := []\<rparr>))"

definition emitted :: "('e, 'j, 'r, ('j, 'r) turn_event list) turn" where
  "emitted = (\<lambda>w. (Ok (wd_events w), w))"

definition run_turn ::
  "('e, 'j, 'r) turn_env \<Rightarrow> ('j, 'r) turn_codec \<Rightarrow> turn_executor \<Rightarrow> bool \<Rightarrow> ('j, 'r) run_state
   \<Rightarrow> ('e, 'j, 'r, ('j, 'r) resumable_turn) turn" where
  "run_turn E T X suspend st =
     seqt new_events
    (seqt (if rn_resumed st then give () else emit E (EvStarted (rn_turn_id st)))
    (bindt (tryt (drive E T X suspend st)) (\<lambda>r.
       case r of
         Ok (DriveSuspended s) \<Rightarrow> give (TurnSuspended s)
       | Ok (DriveCompleted t) \<Rightarrow>
           bindt emitted (\<lambda>events. give (TurnCompleted \<lparr>tn_result = t, tn_events = events\<rparr>))
       | Err e \<Rightarrow> fail_run E st e
       | Panic \<Rightarrow> lift_res Panic)))"

section \<open>Entry points\<close>

type_synonym instant_add = "instant \<Rightarrow> duration \<Rightarrow> instant option"

definition with_absolute_deadline :: "turn_executor \<Rightarrow> u64 \<Rightarrow> turn_executor" where
  "with_absolute_deadline X d =
     X\<lparr>tx_absolute_deadline := Some (case tx_absolute_deadline X of None \<Rightarrow> d | Some saved \<Rightarrow> min saved d)\<rparr>"

definition start_with_deadline ::
  "('e, 'j, 'r) turn_env \<Rightarrow> ('j, 'r) turn_codec \<Rightarrow> instant_add \<Rightarrow> clock_reading \<Rightarrow> turn_executor \<Rightarrow> ('j, 'r) turn_request
   \<Rightarrow> turn_deadline \<Rightarrow> ('e, 'j, 'r, ('j, 'r) resumable_turn) turn" where
  "start_with_deadline E T add reading X q d =
     bindt (lift_res
       (andthen (map_err TeDeadline (validate_duration d (tg_deadline (tq_config q))))
       (bindr (map_err TeDeadline (tighten_absolute add reading d (tx_absolute_deadline X))) (\<lambda>d'.
          state_with_deadline q (tx_dispatch X) (tx_tool_timeout X) d'))))
       (run_turn E T X True)"

definition start_resumable ::
  "('e, 'j, 'r) turn_env \<Rightarrow> ('j, 'r) turn_codec \<Rightarrow> instant_add \<Rightarrow> clock_reading \<Rightarrow> clock_reading \<Rightarrow> turn_executor
   \<Rightarrow> ('j, 'r) turn_request \<Rightarrow> ('e, 'j, 'r, ('j, 'r) resumable_turn) turn" where
  "start_resumable E T add reading reading' X q =
     bindt (lift_res (map_err TeDeadline
              (capture_deadline add reading (tg_deadline (tq_config q)) (tx_absolute_deadline X))))
       (start_with_deadline E T add reading' X q)"

definition execute_turn ::
  "('e, 'j, 'r) turn_env \<Rightarrow> ('j, 'r) turn_codec \<Rightarrow> instant_add \<Rightarrow> clock_reading \<Rightarrow> turn_executor \<Rightarrow> ('j, 'r) turn_request
   \<Rightarrow> ('e, 'j, 'r, ('j, 'r) turn_execution) turn" where
  "execute_turn E T add reading X q =
     bindt (lift_res
       (bindr (map_err TeDeadline
                 (capture_deadline add reading (tg_deadline (tq_config q)) (tx_absolute_deadline X))) (\<lambda>d.
          state_with_deadline q (tx_dispatch X) (tx_tool_timeout X) d))) (\<lambda>st.
     bindt (run_turn E T X False st) (\<lambda>r.
       case r of
         TurnCompleted execution \<Rightarrow> give execution
       | TurnSuspended _ \<Rightarrow> raise (TeInvalidRequest ''external waits require the resumable Turn API'')))"

text \<open>A verified host input, merged before anything runs.\<close>

definition merge_resume ::
  "('e, 'j, 'r) turn_env \<Rightarrow> ('j, 'r) turn_codec \<Rightarrow> turn_executor \<Rightarrow> ('j, 'r) turn_suspension \<Rightarrow> 'j resume_input
   \<Rightarrow> tool_execution_scope \<Rightarrow> turn_deadline \<Rightarrow> ('e, 'j, 'r, ('j, 'r) turn_checkpoint) turn" where
  "merge_resume E T X s input expected d =
     seqt (lift_res (validate_resume_scope X expected))
    (seqt (lift_res (as_request (suspension_validate T s expected)))
    (bindt (lift_res (state_of_checkpoint T (su_checkpoint s) expected d)) (\<lambda>st.
     seqt (check E st)
    (case input of
       ApprovalConfirmed confirmation \<Rightarrow>
         bindt (envt (te_now_ms E)) (\<lambda>now.
           lift_res (as_request (merge_approval T (su_checkpoint s) confirmation expected now)))
     | ExternalResolved resolutions \<Rightarrow>
         lift_res (as_request (merge_external T (su_checkpoint s) resolutions expected))))))"

definition resume_checkpoint ::
  "('e, 'j, 'r) turn_env \<Rightarrow> ('j, 'r) turn_codec \<Rightarrow> turn_executor \<Rightarrow> ('j, 'r) turn_checkpoint \<Rightarrow> tool_execution_scope
   \<Rightarrow> turn_deadline \<Rightarrow> ('e, 'j, 'r, ('j, 'r) resumable_turn) turn" where
  "resume_checkpoint E T X c expected d =
     seqt (lift_res (validate_resume_scope X expected))
    (if (case tx_absolute_deadline X of
           None \<Rightarrow> False
         | Some limit \<Rightarrow> (case cb_deadline_at_ms (ck_budget c) of None \<Rightarrow> True | Some saved \<Rightarrow> saved > limit))
     then raise (TeInvalidRequest ''checkpoint exceeds admitted absolute deadline'')
     else bindt (lift_res (state_of_checkpoint T c expected d)) (run_turn E T X True))"

text \<open>The terminal transitions of a saved approval: no model and no tool runs.\<close>

definition validate_approval_transition ::
  "('j, 'r) turn_codec \<Rightarrow> ('j, 'r) turn_suspension \<Rightarrow> string \<Rightarrow> tool_execution_scope \<Rightarrow> (turn_error, unit) res" where
  "validate_approval_transition T s i scope =
     andthen (as_request (suspension_validate T s scope))
    (if i \<notin> ar_approval_id ` set (ss_approvals (su_waiting s))
     then Err (TeInvalidRequest ''approval id does not match a pending checkpoint approval'')
     else Ok ())"

definition terminal_approval_execution ::
  "('j, 'r) turn_suspension \<Rightarrow> ('j, 'r) turn_outcome \<Rightarrow> end_reason \<Rightarrow> ('j, 'r) turn_execution" where
  "terminal_approval_execution s outcome why =
     (let i = ek_turn_id (sc_execution (ck_scope (su_checkpoint s))) in
      \<lparr>tn_result = \<lparr>tt_turn_id = i, tt_outcome = outcome, tt_end_reason = why, tt_steps = ck_steps (su_checkpoint s)\<rparr>,
       tn_events = [EvCompleted i outcome]\<rparr>)"

definition reject_pending_approval ::
  "('j, 'r) turn_codec \<Rightarrow> ('j, 'r) turn_suspension \<Rightarrow> string \<Rightarrow> tool_execution_scope \<Rightarrow> string
   \<Rightarrow> (turn_error, ('j, 'r) turn_execution) res" where
  "reject_pending_approval T s i expected why =
     andthen (validate_approval_transition T s i expected)
       (Ok (terminal_approval_execution s (OutRejected why) EndApprovalRejected))"

definition saved_scope :: "turn_executor \<Rightarrow> ('j, 'r) turn_suspension \<Rightarrow> (turn_error, tool_execution_scope) res" where
  "saved_scope X s = (let scope = ck_scope (su_checkpoint s) in
     tool_scope X (ek_turn_id (sc_execution scope)) (sc_step_id scope))"

definition reject_approval ::
  "('j, 'r) turn_codec \<Rightarrow> turn_executor \<Rightarrow> ('j, 'r) turn_suspension \<Rightarrow> string \<Rightarrow> string
   \<Rightarrow> (turn_error, ('j, 'r) turn_execution) res" where
  "reject_approval T X s i why =
     bindr (saved_scope X s) (\<lambda>scope. reject_pending_approval T s i scope why)"

definition expire_approval ::
  "('j, 'r) turn_codec \<Rightarrow> turn_executor \<Rightarrow> ('j, 'r) turn_suspension \<Rightarrow> string
   \<Rightarrow> (turn_error, ('j, 'r) turn_execution) res" where
  "expire_approval T X s i =
     bindr (saved_scope X s) (\<lambda>scope.
     andthen (validate_approval_transition T s i scope)
       (Ok (terminal_approval_execution s (OutExpired ''approval expired'') EndApprovalExpired)))"

end
