(* ===== verification/Turn_Rules.thy ===== *)
theory Turn_Rules
  imports Turn_Drive
begin

text \<open>
  How a run is reasoned about: computations that ask for no effect (\<open>quiet\<close>), what a computation
  returns when it returns (\<open>yields\<close>), and a triple over the log of effects, with a condition for
  results and one for errors. Everything of the engine except \<open>dispatch_call\<close> and \<open>model_step\<close> is
  quiet.
\<close>

section \<open>Quiet computations\<close>

named_theorems quiet_rules

definition quiet :: "('e, 'j, 'r, 'a) turn \<Rightarrow> bool" where
  "quiet m \<longleftrightarrow> (\<forall>w. wd_effects (snd (m w)) = wd_effects w)"

lemma quiet_give [quiet_rules]: "quiet (give x)" by (simp add: quiet_def give_def)
lemma quiet_lift_res [quiet_rules]: "quiet (lift_res r)" by (simp add: quiet_def lift_res_def)
lemma quiet_envt [quiet_rules]: "quiet (envt f)" by (simp add: quiet_def envt_def split: prod.splits)
lemma quiet_tryt [quiet_rules]: "quiet m \<Longrightarrow> quiet (tryt m)"
  by (auto simp: quiet_def tryt_def split: prod.splits res.splits) (metis snd_conv)+
lemma quiet_new_events [quiet_rules]: "quiet new_events" by (simp add: quiet_def new_events_def)
lemma quiet_emitted [quiet_rules]: "quiet emitted" by (simp add: quiet_def emitted_def)

lemma quiet_bindt [quiet_rules]: "quiet m \<Longrightarrow> (\<And>x. quiet (f x)) \<Longrightarrow> quiet (bindt m f)"
  by (auto simp: quiet_def bindt_def split: prod.splits res.splits) (metis snd_conv)+

lemma quiet_emit [quiet_rules]: "quiet (emit E ev)"
  by (auto simp: emit_def quiet_def bindt_def envt_def lift_res_def split: prod.splits res.splits)

lemma quiet_if [quiet_rules]: "quiet a \<Longrightarrow> quiet b \<Longrightarrow> quiet (if c then a else b)" by simp
lemma quiet_case_option [quiet_rules]:
  "quiet n \<Longrightarrow> (\<And>x. quiet (f x)) \<Longrightarrow> quiet (case a of None \<Rightarrow> n | Some x \<Rightarrow> f x)" by (simp split: option.split)
lemma quiet_case_prod [quiet_rules]: "(\<And>x y. quiet (f x y)) \<Longrightarrow> quiet (case p of (x, y) \<Rightarrow> f x y)"
  by (simp split: prod.split)
lemma quiet_case_res [quiet_rules]:
  "(\<And>x. quiet (f x)) \<Longrightarrow> (\<And>x. quiet (g x)) \<Longrightarrow> quiet p \<Longrightarrow> quiet (case r of Ok x \<Rightarrow> f x | Err e \<Rightarrow> g e | Panic \<Rightarrow> p)"
  by (simp split: res.split)
lemma quiet_case_list [quiet_rules]:
  "quiet n \<Longrightarrow> (\<And>x y. quiet (f x y)) \<Longrightarrow> quiet (case a of [] \<Rightarrow> n | x # y \<Rightarrow> f x y)" by (simp split: list.split)
lemma quiet_case_kind [quiet_rules]:
  "quiet a \<Longrightarrow> quiet b \<Longrightarrow> quiet c \<Longrightarrow> quiet d \<Longrightarrow>
   quiet (case k of Allow \<Rightarrow> a | AllowWithConstraints \<Rightarrow> b | RequireApproval \<Rightarrow> c | Deny \<Rightarrow> d)"
  by (simp split: decision_kind.split)
lemma quiet_case_outcome [quiet_rules]:
  "(\<And>x. quiet (f x)) \<Longrightarrow> (\<And>x. quiet (g x)) \<Longrightarrow> quiet (case r of OutcomeCompleted x \<Rightarrow> f x | OutcomeAwaiting e \<Rightarrow> g e)"
  by (simp split: tool_outcome.split)
lemma quiet_case_tool_error [quiet_rules]:
  "(\<And>m. quiet (f1 m)) \<Longrightarrow> (\<And>m. quiet (f2 m)) \<Longrightarrow> (\<And>m. quiet (f3 m)) \<Longrightarrow> (\<And>m. quiet (f4 m)) \<Longrightarrow> quiet f5 \<Longrightarrow> quiet f6 \<Longrightarrow>
   (\<And>m. quiet (f7 m)) \<Longrightarrow>
   quiet (case e of Uncertain m \<Rightarrow> f1 m | InvalidBatch m \<Rightarrow> f2 m | Unavailable m \<Rightarrow> f3 m | ToolFailed m \<Rightarrow> f4 m
      | ToolCancelled \<Rightarrow> f5 | ToolTimedOut \<Rightarrow> f6 | PolicyDeniedCall m \<Rightarrow> f7 m)"
  by (simp split: tool_error.split)

lemma quiet_check [quiet_rules]: "quiet (check E st)"
  unfolding check_def by (intro quiet_rules)
lemma quiet_admit [quiet_rules]: "quiet (admit_boundary E st k)"
  unfolding admit_boundary_def by (intro quiet_rules)
lemma quiet_tool_deadline [quiet_rules]: "quiet (tool_deadline E st)"
  unfolding tool_deadline_def by (intro quiet_rules)
lemma quiet_prepare_ready [quiet_rules]: "quiet (prepare_ready E T st call)"
  unfolding prepare_ready_def by (intro quiet_rules)
lemma quiet_prepare_failure [quiet_rules]: "quiet (prepare_failure E st call e)"
  unfolding prepare_failure_def by (intro quiet_rules)
lemma quiet_prepare_entries [quiet_rules]: "quiet (prepare_entries E T st calls)"
  by (induction calls) (simp_all only: prepare_entries.simps quiet_rules)
lemma quiet_initialize_pending [quiet_rules]: "quiet (initialize_pending E T X st)"
  unfolding initialize_pending_def by (intro quiet_rules)
lemma quiet_refresh_preparations [quiet_rules]: "quiet (refresh_preparations E T st c calls)"
  by (induction calls arbitrary: c) (simp_all only: refresh_preparations.simps quiet_rules)
lemma quiet_apply_decision [quiet_rules]: "quiet (apply_decision E T st c d)"
  unfolding apply_decision_def Let_def by (intro quiet_rules)
lemma quiet_apply_decisions [quiet_rules]: "quiet (apply_decisions E T st c ds)"
  by (induction ds arbitrary: c) (simp_all only: apply_decisions.simps quiet_rules)
lemma quiet_refresh_ready [quiet_rules]: "quiet (refresh_ready E T X st c)"
  unfolding refresh_ready_def Let_def by (intro quiet_rules)
lemma quiet_approval_evidence_for [quiet_rules]: "quiet (approval_evidence_for E c i)"
  unfolding approval_evidence_for_def by (intro quiet_rules)
lemma quiet_collect_invocations [quiet_rules]: "quiet (collect_invocations E T c plan is)"
  by (induction "is") (simp_all only: collect_invocations.simps Let_def quiet_rules)
lemma quiet_execution_window [quiet_rules]: "quiet (execution_window E st t)"
  unfolding execution_window_def by (intro quiet_rules)
lemma quiet_record_uncertain [quiet_rules]: "quiet (record_uncertain E st call e)"
  unfolding record_uncertain_def by (intro quiet_rules)
lemma quiet_complete_observed [quiet_rules]: "quiet (complete_observed E T st issued r)"
  unfolding complete_observed_def by (intro quiet_rules)
lemma quiet_observed_state [quiet_rules]: "quiet (observed_state E T st ob)"
  unfolding observed_state_def Let_def by (intro quiet_rules)
lemma quiet_apply_observation [quiet_rules]: "quiet (apply_observation E T st c ob)"
  unfolding apply_observation_def by (intro quiet_rules)
lemma quiet_apply_observations [quiet_rules]: "quiet (apply_observations E T st c fatal rs)"
  by (induction rs arbitrary: c fatal) (simp_all only: apply_observations.simps quiet_rules)
lemma quiet_admit_approvals [quiet_rules]: "quiet (admit_approvals E st as)"
  by (induction "as") (simp_all only: admit_approvals.simps quiet_rules)
lemma quiet_suspend_pending [quiet_rules]: "quiet (suspend_pending E T st c)"
  unfolding suspend_pending_def by (intro quiet_rules)
lemma quiet_suspend_round [quiet_rules]: "quiet (suspend_round E T st c)"
  unfolding suspend_round_def by (intro quiet_rules)
lemma quiet_await_approval [quiet_rules]: "quiet (await_approval E st c a)"
  unfolding await_approval_def by (intro quiet_rules)
lemma quiet_complete_turn [quiet_rules]: "quiet (complete_turn E st outcome why)"
  unfolding complete_turn_def by (intro quiet_rules)

section \<open>What is returned\<close>

definition yields :: "('e, 'j, 'r, 'a) turn \<Rightarrow> ('a \<Rightarrow> bool) \<Rightarrow> bool" where
  "yields m Q \<longleftrightarrow> (\<forall>w x w'. m w = (Ok x, w') \<longrightarrow> Q x)"

lemma bindt_Ok: "bindt m f w = (Ok y, v) \<longleftrightarrow> (\<exists>x w'. m w = (Ok x, w') \<and> f x w' = (Ok y, v))"
  by (simp add: bindt_def split: prod.split res.split)

lemma yieldsI: "(\<And>w x w'. m w = (Ok x, w') \<Longrightarrow> Q x) \<Longrightarrow> yields m Q" by (simp add: yields_def)
lemma yieldsD: "yields m Q \<Longrightarrow> m w = (Ok x, w') \<Longrightarrow> Q x" unfolding yields_def by metis

lemma yields_bindt:
  assumes "yields m P" and "\<And>x. P x \<Longrightarrow> yields (f x) Q"
  shows "yields (bindt m f) Q"
proof (rule yieldsI)
  fix w y v assume "bindt m f w = (Ok y, v)"
  then obtain x w' where x: "m w = (Ok x, w')" and y: "f x w' = (Ok y, v)" unfolding bindt_Ok by blast
  from yieldsD [OF assms(2) y] yieldsD [OF assms(1) x] show "Q y" .
qed

lemma yields_any: "yields m (\<lambda>_. True)" by (simp add: yields_def)
lemma yields_seqt: "(\<And>x. yields (f x) Q) \<Longrightarrow> yields (bindt m f) Q"
  by (rule yields_bindt [OF yields_any])
lemma yields_give: "Q x \<Longrightarrow> yields (give x) Q" by (simp add: yields_def give_def)
lemma yields_lift_res: "(\<And>x. r = Ok x \<Longrightarrow> Q x) \<Longrightarrow> yields (lift_res r) Q" by (simp add: yields_def lift_res_def)
lemma yields_raise: "yields (raise e) Q" by (simp add: yields_def lift_res_def)
lemma yields_panic: "yields (lift_res Panic) Q" by (simp add: yields_def lift_res_def)
lemma yields_weaken: "yields m P \<Longrightarrow> (\<And>x. P x \<Longrightarrow> Q x) \<Longrightarrow> yields m Q" by (auto simp: yields_def)
lemma yields_conj: "yields m P \<Longrightarrow> yields m Q \<Longrightarrow> yields m (\<lambda>x. P x \<and> Q x)" by (auto simp: yields_def)
lemma yields_tryt: "yields m Q \<Longrightarrow> yields (tryt m) (\<lambda>r. \<forall>x. r = Ok x \<longrightarrow> Q x)"
  by (auto simp: yields_def tryt_def split: prod.splits res.splits)
lemma yields_lift_bind: "(\<And>x. r = Ok x \<Longrightarrow> yields (f x) Q) \<Longrightarrow> yields (bindt (lift_res r) f) Q"
  by (rule yields_bindt [where P = "\<lambda>x. r = Ok x"]) (auto simp: yields_def lift_res_def)

section \<open>Triples over the log\<close>

definition triple ::
  "(('j, 'r) turn_effect list \<Rightarrow> bool) \<Rightarrow> ('e, 'j, 'r, 'a) turn \<Rightarrow> ('a \<Rightarrow> ('j, 'r) turn_effect list \<Rightarrow> bool)
   \<Rightarrow> (('j, 'r) turn_effect list \<Rightarrow> bool) \<Rightarrow> bool" where
  "triple P m Q R \<longleftrightarrow> (\<forall>w. P (wd_effects w) \<longrightarrow>
     (case m w of (Ok x, w') \<Rightarrow> Q x (wd_effects w') | (_, w') \<Rightarrow> R (wd_effects w')))"

lemma tripleI:
  fixes m :: "('e, 'j, 'r, 'a) turn"
  assumes "\<And>w x w'. P (wd_effects w) \<Longrightarrow> m w = (Ok x, w') \<Longrightarrow> Q x (wd_effects w')"
    and "\<And>w r w'. P (wd_effects w) \<Longrightarrow> m w = (r, w') \<Longrightarrow> \<forall>x. r \<noteq> Ok x \<Longrightarrow> R (wd_effects w')"
  shows "triple P m Q R"
  unfolding triple_def
proof (intro allI impI)
  fix w :: "('e, 'j, 'r) world"
  assume P: "P (wd_effects w)"
  obtain r w' where m: "m w = (r, w')" by fastforce
  show "case m w of (Ok x, w') \<Rightarrow> Q x (wd_effects w') | (_, w') \<Rightarrow> R (wd_effects w')"
    using assms(1) [OF P] assms(2) [OF P m] m by (cases r) simp_all
qed

lemma tripleD_Ok: "triple P m Q R \<Longrightarrow> P (wd_effects w) \<Longrightarrow> m w = (Ok x, w') \<Longrightarrow> Q x (wd_effects w')"
  by (auto simp: triple_def dest!: spec [of _ w])

lemma tripleD_not_Ok:
  "triple P m Q R \<Longrightarrow> P (wd_effects w) \<Longrightarrow> m w = (r, w') \<Longrightarrow> \<forall>x. r \<noteq> Ok x \<Longrightarrow> R (wd_effects w')"
  by (cases r) (auto simp: triple_def dest!: spec [of _ w])

lemma triple_bindt:
  assumes m: "triple P m Q R" and f: "\<And>x. triple (Q x) (f x) Q' R"
  shows "triple P (bindt m f) Q' R"
proof (rule tripleI)
  fix w x w' assume "P (wd_effects w)" "bindt m f w = (Ok x, w')"
  then show "Q' x (wd_effects w')" unfolding bindt_Ok using tripleD_Ok [OF m] tripleD_Ok [OF f] by blast
next
  fix w r w' assume P: "P (wd_effects w)" and b: "bindt m f w = (r, w')" and r: "\<forall>x. r \<noteq> Ok x"
  obtain r1 w1 where m1: "m w = (r1, w1)" by fastforce
  show "R (wd_effects w')"
  proof (cases r1)
    case (Ok x)
    with b m1 have "f x w1 = (r, w')" by (simp add: bindt_def)
    with tripleD_Ok [OF m P] m1 Ok r show ?thesis using tripleD_not_Ok [OF f] by blast
  qed (use b m1 tripleD_not_Ok [OF m P m1] in \<open>auto simp: bindt_def\<close>)
qed

lemma triple_weaken:
  assumes "triple P m Q R" and "\<And>L. P' L \<Longrightarrow> P L" and "\<And>x L. Q x L \<Longrightarrow> Q' x L" and "\<And>L. R L \<Longrightarrow> R' L"
  shows "triple P' m Q' R'"
  using assms(2-4) tripleD_Ok [OF assms(1)] tripleD_not_Ok [OF assms(1)] by (intro tripleI) blast+

lemma triple_error: "triple P m Q R \<Longrightarrow> (\<And>L. R L \<Longrightarrow> R' L) \<Longrightarrow> triple P m Q R'"
  by (rule triple_weaken)

lemma triple_quiet:
  assumes "quiet m" and "yields m Y" and "\<And>L. P L \<Longrightarrow> R L"
  shows "triple P m (\<lambda>x L. P L \<and> Y x) R"
proof (rule tripleI)
  fix w x w' assume "P (wd_effects w)" and m: "m w = (Ok x, w')"
  then show "P (wd_effects w') \<and> Y x" using assms(1,2) by (auto simp: quiet_def yields_def dest: spec [of _ w])
next
  fix w r w' assume "P (wd_effects w)" and m: "m w = (r, w')"
  then show "R (wd_effects w')" using assms(1,3) by (auto simp: quiet_def dest: spec [of _ w])
qed

lemma triple_quiet_keeps: "quiet m \<Longrightarrow> triple P m (\<lambda>_. P) P"
  using triple_quiet [OF _ yields_any] by (rule triple_weaken) auto

text \<open>A quiet computation first: what it returns is known to the rest.\<close>

lemma triple_quiet_bindt:
  assumes "quiet m" and "yields m Y" and "\<And>L. P L \<Longrightarrow> R L" and "\<And>x. Y x \<Longrightarrow> triple P (f x) Q R"
  shows "triple P (bindt m f) Q R"
proof (rule triple_bindt [OF triple_quiet [OF assms(1-3)]])
  show "triple (\<lambda>L. P L \<and> Y x) (f x) Q R" for x
    using assms(4) [of x] by (auto simp: triple_def)
qed

lemma triple_give: "(\<And>L. P L \<Longrightarrow> Q x L) \<Longrightarrow> triple P (give x) Q R" by (simp add: triple_def give_def)
lemma triple_lift_res:
  "(\<And>L x. P L \<Longrightarrow> r = Ok x \<Longrightarrow> Q x L) \<Longrightarrow> (\<And>L. P L \<Longrightarrow> R L) \<Longrightarrow> triple P (lift_res r) Q R"
  by (simp add: triple_def lift_res_def split: res.split)
lemma triple_tryt:
  assumes "triple P m Q R"
  shows "triple P (tryt m) (\<lambda>r L. case r of Ok x \<Rightarrow> Q x L | _ \<Rightarrow> R L) R"
proof (rule tripleI)
  fix w x w' assume P: "P (wd_effects w)" and t: "tryt m w = (Ok x, w')"
  then show "case x of Ok y \<Rightarrow> Q y (wd_effects w') | _ \<Rightarrow> R (wd_effects w')"
    using tripleD_Ok [OF assms P] tripleD_not_Ok [OF assms P]
    by (fastforce simp: tryt_def split: prod.splits res.splits)
next
  fix w r w' assume P: "P (wd_effects w)" and t: "tryt m w = (r, w')" and r: "\<forall>x. r \<noteq> Ok x"
  then show "R (wd_effects w')" using tripleD_not_Ok [OF assms P]
    by (fastforce simp: tryt_def split: prod.splits res.splits)
qed
lemma triple_effect: "(\<And>L. P L \<Longrightarrow> Q () (L @ [x])) \<Longrightarrow> triple P (effectt x) Q R"
  by (simp add: triple_def effectt_def)

lemma triple_pure: "(A \<Longrightarrow> triple P m Q R) \<Longrightarrow> triple (\<lambda>L. A \<and> P L) m Q R"
  by (cases A) (simp_all add: triple_def)

lemma triple_exists: "(\<And>s. triple (P s) m Q R) \<Longrightarrow> triple (\<lambda>L. \<exists>s. P s L) m Q R"
  by (rule tripleI) (blast dest: tripleD_Ok tripleD_not_Ok)+

lemma triple_lift_bindt:
  assumes "\<And>L. P L \<Longrightarrow> R L" and "\<And>x. r = Ok x \<Longrightarrow> triple P (f x) Q R"
  shows "triple P (bindt (lift_res r) f) Q R"
  by (rule triple_quiet_bindt [OF quiet_lift_res yields_lift_res [where Q = "\<lambda>x. r = Ok x"] assms(1)])
     (simp_all add: assms(2))

lemma triple_always:
  assumes "triple P m (\<lambda>_. R) R" and "P (wd_effects w)"
  shows "R (wd_effects (snd (m w)))"
proof -
  obtain r w' where m: "m w = (r, w')" by fastforce
  show ?thesis
  proof (cases "\<exists>x. r = Ok x")
    case True
    with m tripleD_Ok [OF assms] show ?thesis by auto
  next
    case False
    with m tripleD_not_Ok [OF assms m] show ?thesis by auto
  qed
qed

lemma lift_bindt_effects:
  "wd_effects (snd (bindt (lift_res r) f w)) =
     (case r of Ok x \<Rightarrow> wd_effects (snd (f x w)) | _ \<Rightarrow> wd_effects w)"
  by (simp add: bindt_def lift_res_def split: res.split)

lemma lift_effects [simp]: "wd_effects (snd (lift_res r w)) = wd_effects w"
  by (simp add: lift_res_def)

end
