(* ===== verification/Turn_Frames.thy ===== *)
theory Turn_Frames
  imports Turn_Rules Policy_Properties
begin

text \<open>
  What the operations on a checkpoint keep: the facts that validation establishes, the relation
  \<open>evolves\<close> between a checkpoint and what the engine makes of it, and what planning, collecting and
  observing return.
\<close>

section \<open>What validation establishes\<close>

abbreviation item_id :: "'j checkpoint_call \<Rightarrow> string" where
  "item_id item \<equiv> cl_id (cc_call item)"

definition call_ids :: "('j, 'r) turn_checkpoint \<Rightarrow> string list" where
  "call_ids c = map (cl_id \<circ> cc_call) (ck_calls c)"

definition accounted :: "('j, 'r) turn_checkpoint \<Rightarrow> bool" where
  "accounted c \<longleftrightarrow> (\<forall>item \<in> set (ck_calls c). \<not> is_ready item \<longrightarrow> cc_charged item)"

lemma check_call_state_Ok:
  assumes "check_call_state T scope waits item = Ok waits'"
  shows "cc_charged item \<longleftrightarrow> \<not> is_ready item" and "is_ready item \<Longrightarrow> cc_prepared item \<noteq> None"
  using assms by (auto simp: check_call_state_def is_ready_def res_simps split: call_state.splits if_splits option.splits)

lemma check_calls_Ok:
  assumes "check_calls T scope ids waits items = Ok ()"
  shows "distinct (map (cl_id \<circ> cc_call) items) \<and> set (map (cl_id \<circ> cc_call) items) \<inter> ids = {}
    \<and> (\<forall>item \<in> set items. (cc_charged item \<longleftrightarrow> \<not> is_ready item)
        \<and> (is_ready item \<longrightarrow> cc_prepared item \<noteq> None)
        \<and> (\<forall>p. cc_prepared item = Some p \<longrightarrow> pc_call p = cc_call item))"
  using assms
proof (induction items arbitrary: ids waits)
  case (Cons item items)
  from Cons.prems obtain waits' where new: "item_id item \<notin> ids"
    and p: "check_call_prepared T item = Ok ()"
    and s: "check_call_state T scope waits item = Ok waits'"
    and rest: "check_calls T scope (insert (item_id item) ids) waits' items = Ok ()"
    by (auto simp: res_simps split: if_splits)
  from p have "\<forall>p. cc_prepared item = Some p \<longrightarrow> pc_call p = cc_call item"
    by (auto simp: check_call_prepared_def res_simps split: if_splits)
  with Cons.IH [OF rest] check_call_state_Ok [OF s] new show ?case by auto
qed simp

lemma check_approvals_Ok:
  assumes "check_approvals T c ids calls as = Ok ()"
  shows "distinct (map approval_call as) \<and> distinct (map ca_approval_id as)
    \<and> set (map approval_call as) \<inter> calls = {} \<and> set (map ca_approval_id as) \<inter> ids = {}"
  using assms
proof (induction "as" arbitrary: ids calls)
  case (Cons a "as")
  from Cons.prems have new: "ca_approval_id a \<notin> ids" "approval_call a \<notin> calls"
    and rest: "check_approvals T c (insert (ca_approval_id a) ids) (insert (approval_call a) calls) as = Ok ()"
    by (auto simp: res_simps approval_call_def split: if_splits)
  from Cons.IH [OF rest] new show ?case by auto
qed simp

lemma check_stage_Ok:
  assumes "check_stage items cursor index stage = Ok ()" and "i \<in> set stage"
  obtains item where "find_call i items = Some item" and "index < cursor \<Longrightarrow> is_completed item"
    and "index > cursor \<Longrightarrow> is_ready item"
  using assms by (induction stage) (fastforce simp: res_simps split: if_splits)+

lemma check_stages_Ok:
  assumes "check_stages items cursor index stages = Ok ()" and "k < length stages"
  shows "check_stage items cursor (index + k) (stages ! k) = Ok ()"
  using assms
proof (induction stages arbitrary: index k)
  case (Cons stage stages)
  from Cons.prems have first: "check_stage items cursor index stage = Ok ()"
    and rest: "check_stages items cursor (Suc index) stages = Ok ()" by (auto simp: res_simps)
  show ?case
  proof (cases k)
    case (Suc n)
    with Cons.prems Cons.IH [OF rest, of n] show ?thesis by simp
  qed (use first in simp)
qed simp

text \<open>The facts of a valid checkpoint the engine relies on.\<close>

lemma checkpoint_validate_Ok:
  assumes "checkpoint_validate T c s = Ok ()"
  shows "ck_scope c = s" and "scope_validate s = Ok ()" and "check_boundary c = Ok ()" and "check_steps c = Ok ()"
    and "check_calls T s {} {} (ck_calls c) = Ok ()" and "check_partition c = Ok ()" and "check_budget c = Ok ()"
    and "check_approvals T c {} {} (ck_approvals c) = Ok ()"
  using assms unfolding checkpoint_validate_def invalid_prepared_def
  by (auto simp: res_simps split: prod.splits if_splits)

lemma valid_ids: "checkpoint_validate T c s = Ok () \<Longrightarrow> distinct (call_ids c)"
  using check_calls_Ok [OF checkpoint_validate_Ok(5), of T c s] by (simp add: call_ids_def)

lemma valid_item:
  assumes "checkpoint_validate T c s = Ok ()" and "item \<in> set (ck_calls c)"
  shows "cc_charged item \<longleftrightarrow> \<not> is_ready item" and "is_ready item \<Longrightarrow> cc_prepared item \<noteq> None"
    and "cc_prepared item = Some p \<Longrightarrow> pc_call p = cc_call item"
  using check_calls_Ok [OF checkpoint_validate_Ok(5) [OF assms(1)]] assms(2) by blast+

lemma valid_accounted: "checkpoint_validate T c s = Ok () \<Longrightarrow> accounted c"
  using valid_item(1) by (auto simp: accounted_def)

lemma valid_approvals: "checkpoint_validate T c s = Ok () \<Longrightarrow> distinct (map approval_call (ck_approvals c))"
  using check_approvals_Ok [OF checkpoint_validate_Ok(8)] by blast

lemma valid_budget:
  assumes "checkpoint_validate T c s = Ok ()"
  shows "cb_prior_tool_calls_used (ck_budget c) + charged (ck_calls c) = cb_tool_calls_used (ck_budget c)"
    and "\<not> exceeds (cb_max_tool_calls (ck_budget c)) (cb_prior_tool_calls_used (ck_budget c) + length (ck_calls c))"
  using checkpoint_validate_Ok(7) [OF assms]
  by (auto simp: check_budget_def res_simps split: if_splits)

lemma valid_stages:
  assumes "checkpoint_validate T c s = Ok ()"
  shows "distinct (concat (ck_stages c))" and "set (concat (ck_stages c)) = set (call_ids c)"
proof -
  have p: "length (concat (ck_stages c)) = length (ck_calls c)"
    "set (concat (ck_stages c)) = cl_id ` cc_call ` set (ck_calls c)"
    using checkpoint_validate_Ok(6) [OF assms] by (auto simp: check_partition_def split: if_splits)
  then show s: "set (concat (ck_stages c)) = set (call_ids c)" by (simp add: call_ids_def image_image)
  from valid_ids [OF assms] have "card (set (call_ids c)) = length (ck_calls c)"
    by (simp add: distinct_card) (simp add: call_ids_def)
  with s p(1) show "distinct (concat (ck_stages c))" by (metis card_distinct)
qed

lemma valid_stage_distinct:
  assumes "checkpoint_validate T c s = Ok ()" and "get (ck_stages c) k = Some stage"
  shows "distinct stage"
  using valid_stages(1) [OF assms(1)] assms(2)
  by (auto simp: get_def distinct_concat_iff split: if_splits)

section \<open>What the engine makes of a checkpoint\<close>

definition ready_ids :: "('j, 'r) turn_checkpoint \<Rightarrow> string set" where
  "ready_ids c = {item_id item |item. item \<in> set (ck_calls c) \<and> is_ready item}"

definition confirmed_ids :: "('j, 'r) turn_checkpoint \<Rightarrow> string set" where
  "confirmed_ids c = {approval_call a |a. a \<in> set (ck_approvals c) \<and> ca_evidence_id a \<noteq> None}"

text \<open>The batch stays the same, calls only leave the ready state, and whatever left it is charged.\<close>

definition evolves :: "('j, 'r) turn_checkpoint \<Rightarrow> ('j, 'r) turn_checkpoint \<Rightarrow> bool" where
  "evolves c c' \<longleftrightarrow>
     ck_scope c' = ck_scope c \<and> map cc_call (ck_calls c') = map cc_call (ck_calls c)
     \<and> cb_prior_tool_calls_used (ck_budget c') = cb_prior_tool_calls_used (ck_budget c)
     \<and> cb_max_tool_calls (ck_budget c') = cb_max_tool_calls (ck_budget c)
     \<and> ready_ids c' \<subseteq> ready_ids c \<and> (accounted c \<longrightarrow> accounted c')"

lemma evolves_refl [simp]: "evolves c c" by (simp add: evolves_def)
lemma evolves_trans: "evolves a b \<Longrightarrow> evolves b c \<Longrightarrow> evolves a c" unfolding evolves_def by auto
lemma evolves_ids: "evolves c c' \<Longrightarrow> call_ids c' = call_ids c"
  unfolding evolves_def call_ids_def by (metis map_map)

text \<open>A refresh also keeps every confirmation of a call that stays ready.\<close>

definition keeps_approvals :: "('j, 'r) turn_checkpoint \<Rightarrow> ('j, 'r) turn_checkpoint \<Rightarrow> bool" where
  "keeps_approvals c c' \<longleftrightarrow>
     (\<forall>i \<in> ready_ids c'. i \<in> confirmed_ids c \<longrightarrow> i \<in> confirmed_ids c')
     \<and> (distinct (map approval_call (ck_approvals c)) \<longrightarrow> distinct (map approval_call (ck_approvals c')))"

definition refreshes :: "('j, 'r) turn_checkpoint \<Rightarrow> ('j, 'r) turn_checkpoint \<Rightarrow> bool" where
  "refreshes c c' \<longleftrightarrow> evolves c c' \<and> keeps_approvals c c'"

lemma refreshes_refl [simp]: "refreshes c c" by (simp add: refreshes_def keeps_approvals_def)

lemma refreshes_trans: "refreshes a b \<Longrightarrow> refreshes b c \<Longrightarrow> refreshes a c"
  unfolding refreshes_def keeps_approvals_def by (auto intro: evolves_trans simp: evolves_def)

lemma same_item:
  assumes "distinct (call_ids c)" and "x \<in> set (ck_calls c)" and "y \<in> set (ck_calls c)" and "item_id x = item_id y"
  shows "x = y"
proof -
  from assms(1) have "inj_on (cl_id \<circ> cc_call) (set (ck_calls c))" by (simp add: call_ids_def distinct_map)
  from inj_onD [OF this _ assms(2,3)] assms(4) show ?thesis by simp
qed

text \<open>An update of the call with an identity, in a batch with distinct identities.\<close>

lemma update_first_id: "\<forall>x \<in> set xs. \<not> P x \<Longrightarrow> update_first P f xs = xs" by (induction xs) auto

lemma update_call_calls:
  assumes "distinct (call_ids c)"
  shows "ck_calls (update_call i f c) = map (\<lambda>x. if item_id x = i then f x else x) (ck_calls c)"
proof -
  have "distinct (map (cl_id \<circ> cc_call) xs) \<Longrightarrow>
    update_first (\<lambda>x. item_id x = i) f xs = map (\<lambda>x. if item_id x = i then f x else x) xs" for xs
  proof (induction xs)
    case (Cons x xs)
    show ?case
    proof (cases "item_id x = i")
      case True
      with Cons.prems have "\<forall>y \<in> set xs. item_id y \<noteq> i" by (auto simp: image_iff)
      then have "map (\<lambda>x. if item_id x = i then f x else x) xs = xs" by (simp add: map_idI)
      with True show ?thesis by simp
    qed (use Cons in simp)
  qed simp
  with assms show ?thesis by (simp add: update_call_def call_ids_def)
qed

lemma update_call_fields [simp]:
  "ck_scope (update_call i f c) = ck_scope c" "ck_budget (update_call i f c) = ck_budget c"
  "ck_approvals (update_call i f c) = ck_approvals c" "ck_stages (update_call i f c) = ck_stages c"
  "ck_stage_index (update_call i f c) = ck_stage_index c" "ck_steps (update_call i f c) = ck_steps c"
  by (simp_all add: update_call_def)

lemma evolves_update:
  assumes "distinct (call_ids c)" and "\<And>x. cc_call (f x) = cc_call x"
    and "\<And>x. item_id x = i \<Longrightarrow> is_ready (f x) \<Longrightarrow> is_ready x"
    and "\<And>x. item_id x = i \<Longrightarrow> \<not> is_ready (f x) \<Longrightarrow> (\<not> is_ready x \<longrightarrow> cc_charged x) \<Longrightarrow> cc_charged (f x)"
  shows "evolves c (update_call i f c)"
  using assms unfolding evolves_def ready_ids_def accounted_def
  by (auto simp: update_call_calls split: if_splits)

lemma ready_ids_update_done:
  assumes "distinct (call_ids c)" and "\<And>x. cc_call (f x) = cc_call x" and "\<And>x. \<not> is_ready (f x)"
  shows "ready_ids (update_call i f c) = ready_ids c - {i}"
  using assms unfolding ready_ids_def by (auto simp: update_call_calls split: if_splits)

lemma drop_approvals_fields [simp]:
  "ck_scope (drop_approvals i c) = ck_scope c" "ck_budget (drop_approvals i c) = ck_budget c"
  "ck_calls (drop_approvals i c) = ck_calls c" "ready_ids (drop_approvals i c) = ready_ids c"
  "call_ids (drop_approvals i c) = call_ids c" "accounted (drop_approvals i c) = accounted c"
  "ck_approvals (drop_approvals i c) = filter (\<lambda>a. approval_call a \<noteq> i) (ck_approvals c)"
  by (simp_all add: drop_approvals_def ready_ids_def call_ids_def accounted_def)

lemma confirmed_ids_drop [simp]: "confirmed_ids (drop_approvals i c) = confirmed_ids c - {i}"
  by (auto simp: confirmed_ids_def)

lemma refreshes_drop: "i \<notin> ready_ids c \<or> i \<notin> confirmed_ids c \<Longrightarrow> refreshes c (drop_approvals i c)"
  by (auto simp: refreshes_def evolves_def keeps_approvals_def distinct_map_filter)

lemma recount_fields [simp]:
  "ck_scope (recount c) = ck_scope c" "ck_calls (recount c) = ck_calls c" "ck_approvals (recount c) = ck_approvals c"
  "ready_ids (recount c) = ready_ids c" "call_ids (recount c) = call_ids c" "accounted (recount c) = accounted c"
  "confirmed_ids (recount c) = confirmed_ids c" "ck_stages (recount c) = ck_stages c"
  "ck_stage_index (recount c) = ck_stage_index c"
  "cb_prior_tool_calls_used (ck_budget (recount c)) = cb_prior_tool_calls_used (ck_budget c)"
  "cb_max_tool_calls (ck_budget (recount c)) = cb_max_tool_calls (ck_budget c)"
  by (simp_all add: recount_def ready_ids_def call_ids_def accounted_def confirmed_ids_def)

lemma refreshes_recount [simp]: "refreshes c (recount c)"
  by (simp add: refreshes_def evolves_def keeps_approvals_def)

lemma refreshes_same:
  assumes "refreshes c c'" and "ck_scope d = ck_scope c'" and "ck_calls d = ck_calls c'" and "ck_budget d = ck_budget c'"
    and "ck_approvals d = ck_approvals c'"
  shows "refreshes c d"
  using assms by (simp add: refreshes_def evolves_def keeps_approvals_def ready_ids_def confirmed_ids_def accounted_def)

section \<open>A refresh\<close>

text \<open>A confirmed approval of a call is for the preparation the call has.\<close>

definition confirmed_for :: "('j, 'r) turn_checkpoint \<Rightarrow> string \<Rightarrow> bool" where
  "confirmed_for c i \<longleftrightarrow>
     (\<forall>item \<in> set (ck_calls c). \<forall>a \<in> set (ck_approvals c).
        item_id item = i \<and> is_ready item \<and> approval_call a = i \<and> ca_evidence_id a \<noteq> None
        \<longrightarrow> cc_prepared item = Some (ca_prepared a))"

definition own_prepared :: "('j, 'r) turn_checkpoint \<Rightarrow> bool" where
  "own_prepared c \<longleftrightarrow>
     (\<forall>item \<in> set (ck_calls c). \<forall>p. cc_prepared item = Some p \<longrightarrow> cl_id (pc_call p) = item_id item)"

lemma valid_own_prepared: "checkpoint_validate T c s = Ok () \<Longrightarrow> own_prepared c"
  unfolding own_prepared_def by (metis valid_item(3))

lemma is_ready_prepared [simp]: "is_ready (item\<lparr>cc_prepared := p\<rparr>) = is_ready item" by (simp add: is_ready_def)
lemma complete_unissued_simps [simp]:
  "\<not> is_ready (complete_unissued r item)" "cc_call (complete_unissued r item) = cc_call item"
  "cc_charged (complete_unissued r item)" "cc_prepared (complete_unissued r item) = cc_prepared item"
  by (simp_all add: complete_unissued_def is_ready_def)
lemma observed_simps [simp]:
  "cc_call (observed s item) = cc_call item" "cc_charged (observed s item)"
  "is_ready (observed s item) \<longleftrightarrow> s = CallReady"
  by (simp_all add: observed_def is_ready_def split: call_state.split)

lemma refreshes_complete:
  assumes "distinct (call_ids c)"
  shows "refreshes c (drop_approvals i (update_call i (\<lambda>item. complete_unissued r (item\<lparr>cc_prepared := p item\<rparr>)) c))" (is "refreshes c (drop_approvals i ?d)")
    and "refreshes c (drop_approvals i (update_call i (complete_unissued r) c))" (is "refreshes c (drop_approvals i ?e)")
proof -
  have d: "evolves c ?d" and e: "evolves c ?e" by (rule evolves_update; use assms in simp)+
  have rd: "ready_ids ?d = ready_ids c - {i}" and re: "ready_ids ?e = ready_ids c - {i}"
    using assms by (simp_all add: ready_ids_update_done)
  have "refreshes c ?d" "refreshes c ?e" using d e by (simp_all add: refreshes_def keeps_approvals_def confirmed_ids_def)
  moreover have "refreshes ?d (drop_approvals i ?d)" "refreshes ?e (drop_approvals i ?e)"
    using rd re by (simp_all add: refreshes_drop)
  ultimately show "refreshes c (drop_approvals i ?d)" "refreshes c (drop_approvals i ?e)"
    by (blast intro: refreshes_trans)+
qed

lemma refreshes_prepare:
  assumes "distinct (call_ids c)"
  shows "refreshes c (update_call i (\<lambda>item. item\<lparr>cc_prepared := p\<rparr>) c)"
proof -
  have "evolves c (update_call i (\<lambda>item. item\<lparr>cc_prepared := p\<rparr>) c)" by (rule evolves_update; use assms in simp)
  then show ?thesis by (simp add: refreshes_def keeps_approvals_def confirmed_ids_def)
qed

lemma refreshes_distinct: "refreshes c c' \<Longrightarrow> distinct (call_ids c) \<Longrightarrow> distinct (call_ids c')"
  using evolves_ids by (metis refreshes_def)

lemma confirmed_for_complete:
  assumes "distinct (call_ids c)" and "j = i \<or> confirmed_for c j"
  shows "confirmed_for (drop_approvals i (update_call i (\<lambda>item. complete_unissued r (item\<lparr>cc_prepared := p item\<rparr>)) c)) j"
    and "confirmed_for (drop_approvals i (update_call i (complete_unissued r) c)) j"
  using assms unfolding confirmed_for_def by (auto simp: update_call_calls)

lemma confirmed_for_prepare:
  assumes "distinct (call_ids c)" and "j = i \<or> confirmed_for c j"
    and "\<forall>a \<in> set (ck_approvals c). approval_call a = i \<and> ca_evidence_id a \<noteq> None \<longrightarrow> ca_prepared a = p"
  shows "confirmed_for (update_call i (\<lambda>item. item\<lparr>cc_prepared := Some p\<rparr>) c) j"
  using assms unfolding confirmed_for_def by (auto simp: update_call_calls)

lemma own_prepared_complete:
  assumes "distinct (call_ids c)" and "own_prepared c"
  shows "own_prepared (drop_approvals i (update_call i (\<lambda>item. complete_unissued r (item\<lparr>cc_prepared := None\<rparr>)) c))"
    and "own_prepared (drop_approvals i (update_call i (complete_unissued r) c))"
  using assms unfolding own_prepared_def by (auto simp: update_call_calls)

lemma own_prepared_prepare:
  assumes "distinct (call_ids c)" and "own_prepared c" and "cl_id (pc_call p) = i"
  shows "own_prepared (update_call i (\<lambda>item. item\<lparr>cc_prepared := Some p\<rparr>) c)"
  using assms unfolding own_prepared_def by (auto simp: update_call_calls)

lemma prepare_ready_yields: "yields (prepare_ready E T st call) (\<lambda>r. \<forall>p. r = Ok p \<longrightarrow> pc_call p = call)"
proof -
  have "checked_preparation T call r = Ok p \<Longrightarrow> pc_call p = call" for r p
    by (auto simp: checked_preparation_def res_simps)
  then have "yields (bindt (tool_deadline E st) (\<lambda>deadline.
         bindt (envt (te_prepare E call deadline)) (\<lambda>r. give (checked_preparation T call r))))
       (\<lambda>r. \<forall>p. r = Ok p \<longrightarrow> pc_call p = call)"
    by (intro yields_seqt yields_give) simp
  then show ?thesis unfolding prepare_ready_def
    by (intro yields_seqt) (simp split: res.split add: yields_give)
qed

lemma refresh_preparations_yields:
  assumes "distinct (call_ids c)" and "\<forall>j \<in> done_ids. confirmed_for c j" and "own_prepared c"
  shows "yields (refresh_preparations E T st c calls)
    (\<lambda>c'. refreshes c c' \<and> own_prepared c' \<and> (\<forall>j \<in> done_ids \<union> cl_id ` set calls. confirmed_for c' j))"
  using assms
proof (induction calls arbitrary: c done_ids)
  case Nil
  then show ?case by (simp add: yields_give)
next
  case (Cons call calls)
  note step = Cons.IH [where done_ids = "insert (cl_id call) done_ids"]
  have next_round: "yields (refresh_preparations E T st d calls)
      (\<lambda>c'. refreshes c c' \<and> own_prepared c' \<and> (\<forall>j \<in> done_ids \<union> cl_id ` set (call # calls). confirmed_for c' j))"
    if "refreshes c d" and "\<forall>j \<in> insert (cl_id call) done_ids. confirmed_for d j" and "own_prepared d" for d
    using step [OF refreshes_distinct [OF that(1) Cons.prems(1)] that(2,3)] refreshes_trans [OF that(1)]
    by (auto elim!: yields_weaken)
  show ?case unfolding refresh_preparations.simps
  proof (rule yields_bindt [OF prepare_ready_yields])
    fix r :: "(tool_error, 'a prepared_call) res"
    assume own: "\<forall>p. r = Ok p \<longrightarrow> pc_call p = call"
    show "yields (case r of
         Panic \<Rightarrow> lift_res Panic
       | Err e \<Rightarrow>
           bindt (prepare_failure E st call e) (\<lambda>fb.
           bindt (lift_res (unwrap (find_call (cl_id call) (ck_calls c)))) (\<lambda>_.
             refresh_preparations E T st
               (drop_approvals (cl_id call)
                 (update_call (cl_id call) (\<lambda>item. complete_unissued fb (item\<lparr>cc_prepared := None\<rparr>)) c)) calls))
       | Ok current \<Rightarrow>
           if \<exists>a \<in> set (ck_approvals c). approval_call a = cl_id call \<and> ca_evidence_id a \<noteq> None \<and> ca_prepared a \<noteq> current
           then raise (TeInvalidRequest ''approval preparation has changed'')
           else
             bindt (lift_res (unwrap (find_call (cl_id call) (ck_calls c)))) (\<lambda>_.
               refresh_preparations E T st
                 (update_call (cl_id call) (\<lambda>item. item\<lparr>cc_prepared := Some current\<rparr>) c) calls))
      (\<lambda>c'. refreshes c c' \<and> own_prepared c' \<and> (\<forall>j \<in> done_ids \<union> cl_id ` set (call # calls). confirmed_for c' j))"
    proof (cases r)
      case (Ok current)
      show ?thesis unfolding Ok res.case
      proof (split if_split, intro conjI impI yields_raise)
        assume "\<not> (\<exists>a \<in> set (ck_approvals c). approval_call a = cl_id call \<and> ca_evidence_id a \<noteq> None \<and> ca_prepared a \<noteq> current)"
        then have "\<forall>j \<in> insert (cl_id call) done_ids.
            confirmed_for (update_call (cl_id call) (\<lambda>item. item\<lparr>cc_prepared := Some current\<rparr>) c) j"
          using Cons.prems by (intro ballI confirmed_for_prepare) auto
        from next_round [OF refreshes_prepare [OF Cons.prems(1)] this own_prepared_prepare [OF Cons.prems(1,3)]] own Ok
        show "yields (bindt (lift_res (unwrap (find_call (cl_id call) (ck_calls c)))) (\<lambda>_.
               refresh_preparations E T st
                 (update_call (cl_id call) (\<lambda>item. item\<lparr>cc_prepared := Some current\<rparr>) c) calls))
          (\<lambda>c'. refreshes c c' \<and> own_prepared c' \<and> (\<forall>j \<in> done_ids \<union> cl_id ` set (call # calls). confirmed_for c' j))"
          by (intro yields_seqt) simp
      qed
    next
      case (Err e)
      have "\<forall>j \<in> insert (cl_id call) done_ids. confirmed_for (drop_approvals (cl_id call)
                 (update_call (cl_id call) (\<lambda>item. complete_unissued fb (item\<lparr>cc_prepared := None\<rparr>)) c)) j" for fb
        using Cons.prems by (intro ballI confirmed_for_complete) auto
      from next_round [OF refreshes_complete(1) [OF Cons.prems(1)] this own_prepared_complete(1) [OF Cons.prems(1,3)]]
      show ?thesis unfolding Err res.case by (intro yields_seqt)
    qed (simp add: yields_panic)
  qed
qed

text \<open>A planned decision leaves the calls that stay ready as they are.\<close>

definition keeps_ready :: "('j, 'r) turn_checkpoint \<Rightarrow> ('j, 'r) turn_checkpoint \<Rightarrow> bool" where
  "keeps_ready c c' \<longleftrightarrow> (\<forall>item \<in> set (ck_calls c'). is_ready item \<longrightarrow> item \<in> set (ck_calls c))"

definition planned_from :: "('j, 'r) turn_checkpoint \<Rightarrow> ('j, 'r) turn_checkpoint \<Rightarrow> bool" where
  "planned_from c c' \<longleftrightarrow> refreshes c c' \<and> keeps_ready c c' \<and> own_prepared c'
     \<and> distinct (map approval_call (ck_approvals c')) \<and> (\<forall>j. confirmed_for c' j)"

lemma find_call_Some: "find_call i items = Some item \<Longrightarrow> item \<in> set items \<and> item_id item = i"
  by (auto simp: find_call_def find_Some_iff)

lemma find_approval:
  assumes "distinct (map approval_call as)" and "a \<in> set as"
  shows "find (\<lambda>b. approval_call b = approval_call a) as = Some a"
  using assms by (induction "as") (auto simp: image_iff)

lemma apply_decision_yields:
  assumes ids: "distinct (call_ids c)" and distinct: "distinct (map approval_call (ck_approvals c))"
    and conf: "\<forall>j. confirmed_for c j" and own: "own_prepared c"
  shows "yields (apply_decision E T st c d) (planned_from c)"
  unfolding apply_decision_def
proof (intro yields_lift_bind, unfold res_simps)
  fix item p
  assume found: "find_call (bd_call_id d) (ck_calls c) = Some item" and p: "cc_prepared item = Some p"
  let ?i = "cl_id (cc_call item)"
  let ?saved = "find (\<lambda>a. approval_call a = ?i) (ck_approvals c)"
  from find_call_Some [OF found] have item: "item \<in> set (ck_calls c)" and i: "bd_call_id d = ?i" by simp_all
  have own_id: "cl_id (pc_call p) = ?i" using own item p by (simp add: own_prepared_def)
  have confirmed: "\<exists>a. ?saved = Some a \<and> ca_evidence_id a \<noteq> None \<and> (is_ready item \<longrightarrow> ca_prepared a = p)"
    if "?i \<in> confirmed_ids c"
  proof -
    from that obtain a where a: "a \<in> set (ck_approvals c)" "approval_call a = ?i" "ca_evidence_id a \<noteq> None"
      by (auto simp: confirmed_ids_def)
    from find_approval [OF distinct a(1)] a(2) have "?saved = Some a" by simp
    moreover have "is_ready item \<longrightarrow> cc_prepared item = Some (ca_prepared a)"
      using conf item a unfolding confirmed_for_def by blast
    ultimately show ?thesis using p a(3) by auto
  qed
  have ready: "?i \<in> ready_ids c \<Longrightarrow> is_ready item"
    using same_item [OF ids item] by (auto simp: ready_ids_def)
  have dropped: "planned_from c (drop_approvals ?i c)" if "?i \<notin> ready_ids c \<or> ?i \<notin> confirmed_ids c"
    using refreshes_drop [OF that] distinct conf own
    by (auto simp: planned_from_def keeps_ready_def distinct_map_filter confirmed_for_def own_prepared_def)
  have completed: "planned_from c (drop_approvals ?i (update_call (bd_call_id d) (complete_unissued r) c))" for r
    unfolding planned_from_def i
  proof (intro conjI allI)
    show "refreshes c (drop_approvals ?i (update_call ?i (complete_unissued r) c))"
      by (rule refreshes_complete(2) [OF ids])
    show "confirmed_for (drop_approvals ?i (update_call ?i (complete_unissued r) c)) j" for j
      using confirmed_for_complete(2) [OF ids] conf by blast
    show "keeps_ready c (drop_approvals ?i (update_call ?i (complete_unissued r) c))"
      using ids by (auto simp: keeps_ready_def update_call_calls)
  qed (use distinct own_prepared_complete(2) [OF ids own] in \<open>simp_all add: distinct_map_filter\<close>)
  have asked: "planned_from c ((drop_approvals ?i c)\<lparr>ck_approvals := ck_approvals (drop_approvals ?i c) @ [a]\<rparr>)"
    if "?i \<notin> ready_ids c \<or> ?i \<notin> confirmed_ids c" and "approval_call a = ?i" and "ca_evidence_id a = None" for a
  proof -
    let ?c = "(drop_approvals ?i c)\<lparr>ck_approvals := ck_approvals (drop_approvals ?i c) @ [a]\<rparr>"
    have *: "ready_ids ?c = ready_ids (drop_approvals ?i c)" "confirmed_ids ?c = confirmed_ids (drop_approvals ?i c)"
      using that(3) by (auto simp: ready_ids_def confirmed_ids_def)
    have "distinct (map approval_call (ck_approvals ?c))"
      using distinct that(2) by (auto simp: distinct_map_filter)
    moreover have "refreshes c ?c"
      using refreshes_drop [OF that(1)] * calculation
      unfolding refreshes_def keeps_approvals_def by (auto simp: evolves_def accounted_def)
    moreover have "confirmed_for ?c j" for j using conf that(3) unfolding confirmed_for_def by auto
    moreover have "own_prepared ?c" using own by (simp add: own_prepared_def)
    ultimately show ?thesis by (auto simp: planned_from_def keeps_ready_def)
  qed
  have same: "planned_from c c" using distinct conf own by (simp add: planned_from_def keeps_ready_def)
  let ?d = "bd_decision d"
  have fresh: "?i \<notin> ready_ids c \<or> ?i \<notin> confirmed_ids c"
    if "case ?saved of None \<Rightarrow> True | Some a \<Rightarrow> ca_evidence_id a \<noteq> None \<longrightarrow> ca_prepared a \<noteq> p"
    using that confirmed ready by fastforce
  have allowed: "?i \<notin> confirmed_ids c"
    if "case ?saved of None \<Rightarrow> True | Some a \<Rightarrow> ca_evidence_id a = None"
    using that confirmed by fastforce
  show "yields (let dd = ?d; call = cc_call item; saved = find (\<lambda>a. approval_call a = cl_id call) (ck_approvals c) in
     if (case saved of None \<Rightarrow> False
         | Some a \<Rightarrow> ca_evidence_id a \<noteq> None \<and> (ca_policy_revision a \<noteq> pd_policy_version dd \<or> pd_kind dd \<noteq> RequireApproval))
     then raise (TeInvalidRequest ''approval is stale under the current policy'')
     else
       (case pd_kind dd of
          Deny \<Rightarrow>
            let e = PolicyDeniedCall (pd_reason dd) in
            seqt (emit E (EvToolCallRequested (rn_turn_id st) call))
           (seqt (emit E (EvToolExecutionFailed (rn_turn_id st) (cl_id call) (cl_name call) e))
           (if dp_on_error (rn_dispatch st) = FailTurn then raise (TeTool e)
            else
              seqt (emit E (EvToolResult (rn_turn_id st) (feedback_of call e)))
                (give (drop_approvals (cl_id call) (update_call (bd_call_id d) (complete_unissued (feedback_of call e)) c)))))
        | RequireApproval \<Rightarrow>
            if (case saved of None \<Rightarrow> True | Some a \<Rightarrow> ca_prepared a \<noteq> p \<or> ca_policy_revision a \<noteq> pd_policy_version dd)
            then
              seqt (emit E (EvToolCallRequested (rn_turn_id st) call))
             (seqt (emit E (EvApprovalRequested (rn_turn_id st) (cl_id call) (cl_name call)))
                (give (let c' = drop_approvals (cl_id call) c
                       in c'\<lparr>ck_approvals := ck_approvals c' @ [new_approval T c item p dd]\<rparr>)))
            else give c
        | _ \<Rightarrow> give (drop_approvals (cl_id call) c))) (planned_from c)"
    unfolding Let_def
  proof (split if_split, intro conjI impI yields_raise)
    assume live: "\<not> (case ?saved of None \<Rightarrow> False
         | Some a \<Rightarrow> ca_evidence_id a \<noteq> None \<and> (ca_policy_revision a \<noteq> pd_policy_version ?d \<or> pd_kind ?d \<noteq> RequireApproval))"
    have denied: "yields (seqt (emit E (EvToolCallRequested (rn_turn_id st) (cc_call item)))
           (seqt (emit E ev)
           (if dp_on_error (rn_dispatch st) = FailTurn then raise e
            else seqt (emit E ev') (give (drop_approvals ?i (update_call (bd_call_id d) (complete_unissued r) c))))))
         (planned_from c)" for ev ev' e r
      by (intro yields_seqt, split if_split, intro conjI impI yields_raise yields_seqt yields_give completed)
    have approved: "yields (seqt (emit E ev) (seqt (emit E ev')
          (give ((drop_approvals ?i c)\<lparr>ck_approvals := ck_approvals (drop_approvals ?i c) @ [new_approval T c item p ?d]\<rparr>))))
         (planned_from c)"
      if "?i \<notin> ready_ids c \<or> ?i \<notin> confirmed_ids c" for ev ev'
      by (intro yields_seqt yields_give asked that) (simp_all add: new_approval_def approval_call_def own_id)
    show "yields (case pd_kind ?d of
          Deny \<Rightarrow>
            seqt (emit E (EvToolCallRequested (rn_turn_id st) (cc_call item)))
           (seqt (emit E (EvToolExecutionFailed (rn_turn_id st) ?i (cl_name (cc_call item)) (PolicyDeniedCall (pd_reason ?d))))
           (if dp_on_error (rn_dispatch st) = FailTurn then raise (TeTool (PolicyDeniedCall (pd_reason ?d)))
            else
              seqt (emit E (EvToolResult (rn_turn_id st) (feedback_of (cc_call item) (PolicyDeniedCall (pd_reason ?d)))))
                (give (drop_approvals ?i (update_call (bd_call_id d) (complete_unissued
                   (feedback_of (cc_call item) (PolicyDeniedCall (pd_reason ?d)))) c)))))
        | RequireApproval \<Rightarrow>
            if (case ?saved of None \<Rightarrow> True | Some a \<Rightarrow> ca_prepared a \<noteq> p \<or> ca_policy_revision a \<noteq> pd_policy_version ?d)
            then
              seqt (emit E (EvToolCallRequested (rn_turn_id st) (cc_call item)))
             (seqt (emit E (EvApprovalRequested (rn_turn_id st) ?i (cl_name (cc_call item))))
                (give ((drop_approvals ?i c)\<lparr>ck_approvals := ck_approvals (drop_approvals ?i c) @ [new_approval T c item p ?d]\<rparr>)))
            else give c
        | _ \<Rightarrow> give (drop_approvals ?i c)) (planned_from c)"
    proof (cases "pd_kind ?d")
      case RequireApproval
      with live have "case ?saved of None \<Rightarrow> True | Some a \<Rightarrow> ca_evidence_id a \<noteq> None \<longrightarrow> ca_policy_revision a = pd_policy_version ?d"
        by (auto split: option.splits)
      then have "?i \<notin> ready_ids c \<or> ?i \<notin> confirmed_ids c"
        if "case ?saved of None \<Rightarrow> True | Some a \<Rightarrow> ca_prepared a \<noteq> p \<or> ca_policy_revision a \<noteq> pd_policy_version ?d"
        using that by (intro fresh) (auto split: option.splits)
      from approved [OF this] same show ?thesis unfolding RequireApproval decision_kind.case
        by (split if_split) (intro conjI impI yields_give)
    next
      case Deny
      show ?thesis unfolding Deny decision_kind.case by (rule denied)
    next
      case Allow
      with live have "case ?saved of None \<Rightarrow> True | Some a \<Rightarrow> ca_evidence_id a = None" by (auto split: option.splits)
      from dropped [OF disjI2 [OF allowed [OF this]]] show ?thesis unfolding Allow decision_kind.case by (rule yields_give)
    next
      case AllowWithConstraints
      with live have "case ?saved of None \<Rightarrow> True | Some a \<Rightarrow> ca_evidence_id a = None" by (auto split: option.splits)
      from dropped [OF disjI2 [OF allowed [OF this]]] show ?thesis
        unfolding AllowWithConstraints decision_kind.case by (rule yields_give)
    qed
  qed
qed

lemma planned_from_trans: "planned_from a b \<Longrightarrow> planned_from b c \<Longrightarrow> planned_from a c"
  unfolding planned_from_def keeps_ready_def by (blast intro: refreshes_trans)

lemma apply_decisions_yields:
  assumes "distinct (call_ids c)" and "planned_from c0 c"
  shows "yields (apply_decisions E T st c ds) (planned_from c0)"
  using assms
proof (induction ds arbitrary: c)
  case (Cons d ds)
  from Cons.prems(2) have "yields (apply_decision E T st c d) (planned_from c)"
    by (intro apply_decision_yields Cons.prems(1)) (simp_all add: planned_from_def)
  then show ?case unfolding apply_decisions.simps
  proof (rule yields_bindt)
    fix c' assume p: "planned_from c c'"
    then have "distinct (call_ids c')" using Cons.prems(1) by (metis planned_from_def refreshes_distinct)
    from Cons.IH [OF this planned_from_trans [OF Cons.prems(2) p]]
    show "yields (apply_decisions E T st c' ds) (planned_from c0)" .
  qed
qed (simp add: yields_give)

text \<open>The decisions of a plan are the policy's own on the preparations the ready calls have.\<close>

definition decisions_sound ::
  "'j policy_codec \<Rightarrow> policy_engine \<Rightarrow> batch_plan \<Rightarrow> ('j, 'r) turn_checkpoint \<Rightarrow> bool" where
  "decisions_sound K policy plan c \<longleftrightarrow>
     (\<forall>d \<in> set (bp_decisions plan). \<forall>item \<in> set (ck_calls c). is_ready item \<and> item_id item = bd_call_id d \<longrightarrow>
        (\<exists>p cx. cc_prepared item = Some p \<and> bd_decision d = decide_prepared K policy p cx))"

lemma all_prepared_Ok:
  assumes "all_prepared items = Ok ps" and "item \<in> set items" and "is_ready item"
  shows "\<exists>p \<in> set ps. cc_prepared item = Some p"
  using assms by (induction items arbitrary: ps) (auto simp: res_simps split: if_splits)

lemma prepared_decisions_map:
  "prepared_decisions K e cx seen ps = Ok ds \<Longrightarrow>
   ds = map (\<lambda>p. \<lparr>bd_call_id = cl_id (pc_call p), bd_claim = pc_claim p, bd_decision = decide_prepared K e p cx\<rparr>) ps"
  by (induction ps arbitrary: seen ds) (auto simp: res_simps)

lemma decisions_soundI:
  assumes plan: "resolve_prepared_batch K policy cx ps = Ok plan" and ps: "all_prepared (ck_calls c) = Ok ps"
    and from_c: "keeps_ready c c'" and own: "own_prepared c"
  shows "decisions_sound K policy plan c'"
  unfolding decisions_sound_def
proof (intro ballI impI)
  fix d item
  assume d: "d \<in> set (bp_decisions plan)" and item: "item \<in> set (ck_calls c')"
    and i: "is_ready item \<and> item_id item = bd_call_id d"
  from plan have pd: "prepared_decisions K policy cx {} ps = Ok (bp_decisions plan)"
    by (auto simp: resolve_prepared_batch_def res_simps)
  from prepared_decisions_ids [OF pd] have inj: "distinct (map (cl_id \<circ> pc_call) ps)" by metis
  from d prepared_decisions_map [OF pd] obtain p where p: "p \<in> set ps" "bd_call_id d = cl_id (pc_call p)"
    "bd_decision d = decide_prepared K policy p cx" by auto
  from from_c item i have old: "item \<in> set (ck_calls c)" by (simp add: keeps_ready_def)
  from all_prepared_Ok [OF ps old] i obtain q where q: "q \<in> set ps" "cc_prepared item = Some q" by blast
  from own old q(2) have "cl_id (pc_call q) = item_id item" by (simp add: own_prepared_def)
  with i p(2) have "(cl_id \<circ> pc_call) q = (cl_id \<circ> pc_call) p" by simp
  moreover from inj have "inj_on (cl_id \<circ> pc_call) (set ps)" by (simp add: distinct_map)
  ultimately have "q = p" using q(1) p(1) by (meson inj_onD)
  with p(3) q(2) show "\<exists>p cx. cc_prepared item = Some p \<and> bd_decision d = decide_prepared K policy p cx" by blast
qed

lemma own_prepared_recount [simp]: "own_prepared (recount c) = own_prepared c" by (simp add: own_prepared_def)
lemma confirmed_for_recount [simp]: "confirmed_for (recount c) j = confirmed_for c j" by (simp add: confirmed_for_def)

text \<open>A checkpoint the engine can work on; validation establishes it and a refresh keeps it.\<close>

definition workable :: "('j, 'r) turn_checkpoint \<Rightarrow> bool" where
  "workable c \<longleftrightarrow> distinct (call_ids c) \<and> distinct (map approval_call (ck_approvals c)) \<and> own_prepared c"

lemma valid_workable: "checkpoint_validate T c s = Ok () \<Longrightarrow> workable c"
  by (simp add: workable_def valid_ids valid_approvals valid_own_prepared)

lemma refresh_ready_yields:
  assumes "workable c"
  shows "yields (refresh_ready E T X st c) (\<lambda>(plan, c'). refreshes c c'
     \<and> checkpoint_validate T c' (ck_scope c') = Ok ()
     \<and> (\<exists>policy. tx_policy X = Some policy \<and> decisions_sound (tk_policy T) policy plan c'))"
  unfolding refresh_ready_def
proof (rule yields_bindt [OF refresh_preparations_yields [where done_ids = "- ready_ids c"]])
  show ids: "distinct (call_ids c)" and "own_prepared c" using assms by (simp_all add: workable_def)
  show "\<forall>j \<in> - ready_ids c. confirmed_for c j" by (auto simp: confirmed_for_def ready_ids_def)
  fix c1
  assume "refreshes c c1 \<and> own_prepared c1
    \<and> (\<forall>j \<in> - ready_ids c \<union> cl_id ` set (map cc_call (filter is_ready (ck_calls c))). confirmed_for c1 j)"
  then have r1: "refreshes c c1" and o1: "own_prepared c1"
    and conf: "\<forall>j \<in> - ready_ids c \<union> cl_id ` set (map cc_call (filter is_ready (ck_calls c))). confirmed_for c1 j" by blast+
  have "ready_ids c \<subseteq> cl_id ` set (map cc_call (filter is_ready (ck_calls c)))" by (auto simp: ready_ids_def)
  then have conf1: "confirmed_for c1 j" for j using conf by blast
  let ?c1 = "recount c1"
  from r1 assms have d1: "distinct (map approval_call (ck_approvals c1))"
    by (simp add: refreshes_def keeps_approvals_def workable_def)
  have ids1: "distinct (call_ids ?c1)" using refreshes_distinct [OF r1 ids] by simp
  have start: "planned_from ?c1 ?c1"
    using d1 o1 conf1 by (simp add: planned_from_def keeps_ready_def)
  note r1' = refreshes_trans [OF r1 refreshes_recount]
  show "yields (seqt (check E st)
    (bindt (lift_res (ok_or (tx_policy X) no_policy)) (\<lambda>policy.
     bindt (lift_res (all_prepared (ck_calls ?c1))) (\<lambda>preparations.
     bindt (lift_res (map_err (\<lambda>e. TeInvalidRequest (prepared_error_text e))
              (resolve_prepared_batch (tk_policy T) policy (policy_context_of st ?c1) preparations))) (\<lambda>plan.
     bindt (apply_decisions E T st ?c1 (bp_decisions plan)) (\<lambda>c2.
     let (stages, index) = refreshed_stages (rn_dispatch st) plan (ck_calls c2);
         c3 = recount (c2\<lparr>ck_stages := stages, ck_stage_index := index\<rparr>) in
     seqt (lift_res (as_request (checkpoint_validate T c3 (ck_scope c3))))
    (seqt (runt (te_record_checkpoint E c3)) (give (plan, c3)))))))))
   (\<lambda>(plan, c'). refreshes c c' \<and> checkpoint_validate T c' (ck_scope c') = Ok ()
     \<and> (\<exists>policy. tx_policy X = Some policy \<and> decisions_sound (tk_policy T) policy plan c'))"
  proof (intro yields_seqt [of _ _ "check E st"] yields_lift_bind, unfold res_simps)
    fix policy ps plan
    assume policy: "tx_policy X = Some policy" and ps: "all_prepared (ck_calls ?c1) = Ok ps"
      and plan: "resolve_prepared_batch (tk_policy T) policy (policy_context_of st ?c1) ps = Ok plan"
    show "yields (bindt (apply_decisions E T st ?c1 (bp_decisions plan)) (\<lambda>c2.
     let (stages, index) = refreshed_stages (rn_dispatch st) plan (ck_calls c2);
         c3 = recount (c2\<lparr>ck_stages := stages, ck_stage_index := index\<rparr>) in
     seqt (lift_res (as_request (checkpoint_validate T c3 (ck_scope c3))))
    (seqt (runt (te_record_checkpoint E c3)) (give (plan, c3)))))
   (\<lambda>(plan, c'). refreshes c c' \<and> checkpoint_validate T c' (ck_scope c') = Ok ()
     \<and> (\<exists>policy. tx_policy X = Some policy \<and> decisions_sound (tk_policy T) policy plan c'))"
    proof (rule yields_bindt [OF apply_decisions_yields [OF ids1 start]])
      fix c2 assume p2: "planned_from ?c1 c2"
      obtain stages index where s: "refreshed_stages (rn_dispatch st) plan (ck_calls c2) = (stages, index)" by fastforce
      let ?c3 = "recount (c2\<lparr>ck_stages := stages, ck_stage_index := index\<rparr>)"
      from p2 have r2: "refreshes c c2" and k2: "keeps_ready ?c1 c2"
        using refreshes_trans [OF r1'] by (simp_all add: planned_from_def)
      have "refreshes c (c2\<lparr>ck_stages := stages, ck_stage_index := index\<rparr>)" by (rule refreshes_same [OF r2]) simp_all
      from refreshes_trans [OF this refreshes_recount] have r3: "refreshes c ?c3" .
      have "keeps_ready ?c1 ?c3" using k2 by (simp add: keeps_ready_def)
      then have sound: "decisions_sound (tk_policy T) policy plan ?c3"
        using decisions_soundI [OF plan ps] o1 by simp
      show "yields (let (stages, index) = refreshed_stages (rn_dispatch st) plan (ck_calls c2);
         c3 = recount (c2\<lparr>ck_stages := stages, ck_stage_index := index\<rparr>) in
     seqt (lift_res (as_request (checkpoint_validate T c3 (ck_scope c3))))
    (seqt (runt (te_record_checkpoint E c3)) (give (plan, c3))))
   (\<lambda>(plan, c'). refreshes c c' \<and> checkpoint_validate T c' (ck_scope c') = Ok ()
     \<and> (\<exists>policy. tx_policy X = Some policy \<and> decisions_sound (tk_policy T) policy plan c'))"
        unfolding s Let_def prod.case
        by (intro yields_lift_bind yields_seqt yields_give)
           (use r3 sound policy in \<open>auto simp: as_request_def res_simps\<close>)
    qed
  qed
qed

section \<open>Issued authority\<close>

text \<open>An authority the engine issues: from the policy's own decision on the prepared call.\<close>

definition granted ::
  "'j policy_codec \<Rightarrow> turn_executor \<Rightarrow> tool_execution_scope \<Rightarrow> 'j tool_call \<Rightarrow> 'j issued_authority \<Rightarrow> bool" where
  "granted K X scope call issued \<longleftrightarrow>
     (\<exists>policy cx approval. tx_policy X = Some policy \<and> ia_scope issued = scope
        \<and> pc_call (ia_prepared issued) = call \<and> ia_policy_revision issued = revision K policy
        \<and> issue_grant K (ia_prepared issued) (decide_prepared K policy (ia_prepared issued) cx) approval scope
          = Ok (ia_grant issued))"

lemma decide_prepared_version: "pd_policy_version (decide_prepared K e p cx) = revision K e"
  by (simp add: decide_prepared_def stamp_def split: res.split)

abbreviation invocation_ids :: "('j tool_call \<times> 'j issued_authority) list \<Rightarrow> string list" where
  "invocation_ids invs \<equiv> map (cl_id \<circ> fst) invs"

lemma collect_invocations_yields:
  assumes valid: "checkpoint_validate T c (ck_scope c) = Ok ()"
    and policy: "tx_policy X = Some policy" and sound: "decisions_sound (tk_policy T) policy plan c"
  shows "yields (collect_invocations E T c plan stage) (\<lambda>invs.
     set (invocation_ids invs) \<subseteq> set stage \<inter> ready_ids c
     \<and> (distinct stage \<longrightarrow> distinct (invocation_ids invs))
     \<and> (\<forall>(call, issued) \<in> set invs. granted (tk_policy T) X (ck_scope c) call issued))"
proof (induction stage)
  case Nil
  show ?case unfolding collect_invocations.simps by (rule yields_give) simp
next
  case (Cons i stage)
  have skip: "yields (collect_invocations E T c plan stage) (\<lambda>invs.
     set (invocation_ids invs) \<subseteq> set (i # stage) \<inter> ready_ids c
     \<and> (distinct (i # stage) \<longrightarrow> distinct (invocation_ids invs))
     \<and> (\<forall>(call, issued) \<in> set invs. granted (tk_policy T) X (ck_scope c) call issued))"
    using Cons.IH by (rule yields_weaken) (auto simp: comp_def)
  show ?case unfolding collect_invocations.simps Let_def
  proof (intro yields_lift_bind, unfold res_simps, split if_split, intro conjI impI skip yields_lift_bind,
      unfold res_simps, split if_split, intro conjI impI skip, rule yields_seqt, rule yields_lift_bind,
      unfold res_simps, rule yields_lift_bind)
    fix item planned evidence p issued
    assume found: "find_call i (ck_calls c) = Some item" and "\<not> \<not> is_ready item"
      and planned: "find (\<lambda>d. bd_call_id d = i) (bp_decisions plan) = Some planned"
      and p: "cc_prepared item = Some p"
      and issued: "issue_authority T c p (bd_decision planned) evidence = Ok issued"
    then have ready: "is_ready item" by simp
    from find_call_Some [OF found] have item: "item \<in> set (ck_calls c)" and i: "item_id item = i" by simp_all
    from planned have pl: "planned \<in> set (bp_decisions plan)" "bd_call_id planned = i" by (auto simp: find_Some_iff)
    with sound item i ready p obtain cx where d: "bd_decision planned = decide_prepared (tk_policy T) policy p cx"
      unfolding decisions_sound_def by fastforce
    have "granted (tk_policy T) X (ck_scope c) (cc_call item) issued"
      using issued valid_item(3) [OF valid item p] policy
      unfolding issue_authority_def d decide_prepared_version granted_def
      by (auto simp: Let_def res_simps) blast
    moreover have "i \<in> ready_ids c" using item ready i by (auto simp: ready_ids_def)
    ultimately show "yields (bindt (collect_invocations E T c plan stage) (\<lambda>rest. give ((cc_call item, issued) # rest)))
      (\<lambda>invs. set (invocation_ids invs) \<subseteq> set (i # stage) \<inter> ready_ids c
     \<and> (distinct (i # stage) \<longrightarrow> distinct (invocation_ids invs))
     \<and> (\<forall>(call, issued) \<in> set invs. granted (tk_policy T) X (ck_scope c) call issued))"
      using i by (intro yields_bindt [OF Cons.IH] yields_give) (auto simp: comp_def)
  qed
qed

section \<open>Observations\<close>

lemma observed_state_yields: "yields (observed_state E T st ob) (\<lambda>s. s \<noteq> CallReady)"
proof -
  have uncertain: "yields (record_uncertain E st call e) (\<lambda>s. s \<noteq> CallReady)" for call e
    unfolding record_uncertain_def by (intro yields_seqt) (simp split: res.split add: yields_raise)
  have completed: "yields (complete_observed E T st issued r) (\<lambda>s. s \<noteq> CallReady)" for issued r
    unfolding complete_observed_def by (intro yields_seqt yields_give) simp
  show ?thesis
  proof (cases "ob_outcome ob")
    case (Ok out)
    then show ?thesis
    proof (cases out)
      case (OutcomeAwaiting w)
      with Ok show ?thesis unfolding observed_state_def Let_def
        by (auto split: res.split intro!: uncertain yields_seqt yields_give)
    qed (use Ok completed in \<open>simp add: observed_state_def Let_def\<close>)
  next
    case (Err e)
    then show ?thesis unfolding observed_state_def Let_def
      by (cases e) (auto intro!: uncertain yields_seqt yields_raise completed)
  qed (simp add: observed_state_def Let_def yields_panic)
qed

definition marks :: "('j, 'r) turn_checkpoint \<Rightarrow> string set \<Rightarrow> ('j, 'r) turn_checkpoint \<Rightarrow> bool" where
  "marks c ids c' \<longleftrightarrow> evolves c c' \<and> ready_ids c' = ready_ids c - ids \<and> ck_approvals c' = ck_approvals c"

lemma marks_refl [simp]: "marks c {} c" by (simp add: marks_def)
lemma marks_trans: "marks a s b \<Longrightarrow> marks b t c \<Longrightarrow> marks a (s \<union> t) c"
  unfolding marks_def by (auto intro: evolves_trans)
lemma marks_distinct: "marks c s c' \<Longrightarrow> distinct (call_ids c) \<Longrightarrow> distinct (call_ids c')"
  unfolding marks_def using evolves_ids by metis

lemma apply_observation_yields:
  assumes ids: "distinct (call_ids c)"
  shows "yields (apply_observation E T st c ob) (marks c {cl_id (ob_call ob)})"
  unfolding apply_observation_def
proof (rule yields_bindt [OF observed_state_yields])
  fix s :: "'a call_state" assume s: "s \<noteq> CallReady"
  let ?i = "cl_id (ob_call ob)"
  have "evolves c (update_call ?i (observed s) c)" by (rule evolves_update; use ids s in simp)
  moreover have "ready_ids (update_call ?i (observed s) c) = ready_ids c - {?i}"
    using ids s by (simp add: ready_ids_update_done)
  ultimately have "marks c {?i} (update_call ?i (observed s) c)" by (simp add: marks_def)
  then show "yields (bindt (lift_res (unwrap (find_call ?i (ck_calls c)))) (\<lambda>_. give (update_call ?i (observed s) c)))
    (marks c {?i})" by (intro yields_seqt yields_give)
qed

lemma keep_fatal_Some: "keep_fatal f e \<noteq> None"
  by (cases e) (auto simp: keep_fatal_def split: option.split tool_error.split)

lemma apply_observations_yields:
  assumes "distinct (call_ids c)"
  shows "yields (apply_observations E T st c fatal rs) (\<lambda>(c', fatal').
     fatal' = None \<longrightarrow> fatal = None \<and> (\<exists>obs. rs = map Ok obs \<and> marks c (set (map (cl_id \<circ> ob_call) obs)) c'))"
  using assms
proof (induction rs arbitrary: c fatal)
  case Nil
  show ?case unfolding apply_observations.simps by (rule yields_give) simp
next
  case (Cons r rs)
  have fatal: "yields (apply_observations E T st c (keep_fatal fatal e) rs) (\<lambda>(c', fatal').
     fatal' = None \<longrightarrow> fatal = None \<and> (\<exists>obs. r # rs = map Ok obs \<and> marks c (set (map (cl_id \<circ> ob_call) obs)) c'))" for e
    using Cons.IH [OF Cons.prems, of "keep_fatal fatal e"] keep_fatal_Some [of fatal e]
    by (auto elim!: yields_weaken)
  show ?case
  proof (cases r)
    case (Ok ob)
    show ?thesis unfolding Ok apply_observations.simps res.case
    proof (rule yields_bindt [OF yields_tryt [OF apply_observation_yields [OF Cons.prems]]])
      fix applied :: "(turn_error, ('a, 'b) turn_checkpoint) res"
      assume a: "\<forall>x. applied = Ok x \<longrightarrow> marks c {cl_id (ob_call ob)} x"
      show "yields (case applied of
           Ok c' \<Rightarrow> apply_observations E T st c' fatal rs
         | Err e \<Rightarrow> apply_observations E T st c (keep_fatal fatal e) rs
         | Panic \<Rightarrow> lift_res Panic) (\<lambda>(c', fatal').
       fatal' = None \<longrightarrow> fatal = None \<and> (\<exists>obs. Ok ob # rs = map Ok obs \<and> marks c (set (map (cl_id \<circ> ob_call) obs)) c'))"
      proof (cases applied)
        case (Ok d)
        with a have m: "marks c {cl_id (ob_call ob)} d" by simp
        show ?thesis unfolding Ok res.case
        proof (rule yields_weaken [OF Cons.IH [OF marks_distinct [OF m Cons.prems]]])
          fix y :: "('a, 'b) turn_checkpoint \<times> turn_error option"
          assume y: "case y of (c', fatal') \<Rightarrow>
             fatal' = None \<longrightarrow> fatal = None \<and> (\<exists>obs. rs = map Ok obs \<and> marks d (set (map (cl_id \<circ> ob_call) obs)) c')"
          obtain c' f where Y: "y = (c', f)" by fastforce
          show "case y of (c', fatal') \<Rightarrow> fatal' = None \<longrightarrow>
             fatal = None \<and> (\<exists>obs. Ok ob # rs = map Ok obs \<and> marks c (set (map (cl_id \<circ> ob_call) obs)) c')"
            unfolding Y prod.case
          proof (intro impI)
            assume "f = None"
            with y Y obtain obs where "fatal = None" "rs = map Ok obs"
              and "marks d (set (map (cl_id \<circ> ob_call) obs)) c'" by auto
            with marks_trans [OF m this(3)]
            show "fatal = None \<and> (\<exists>obs. Ok ob # rs = map Ok obs \<and> marks c (set (map (cl_id \<circ> ob_call) obs)) c')"
              by (intro conjI exI [of _ "ob # obs"]) simp_all
          qed
        qed
      next
        case (Err e)
        then show ?thesis using fatal [of e] \<open>r = Ok ob\<close> by simp
      qed (simp add: yields_panic)
    qed
  next
    case (Err e)
    show ?thesis unfolding Err apply_observations.simps res.case
      by (rule yields_bindt [where P = "\<lambda>a. a = Err e"])
         (use fatal [of e] Err in \<open>auto intro: yields_give\<close>)
  qed (simp add: yields_def bindt_def lift_res_def)
qed

end
