(* ===== verification/Turn_Safety.thy ===== *)
theory Turn_Safety
  imports Turn_Frames
begin

text \<open>
  What a run asks for: every tool is executed with authority the policy issued, at most once per
  call and within the limit of calls, and the model is called for consecutive steps within the
  limit of steps, whatever the environment answers.
\<close>

section \<open>The log of a run\<close>

definition executed :: "('j, 'r) turn_effect list \<Rightarrow> 'j invocation list" where
  "executed L = concat (map (\<lambda>x. case x of ToolExecuted iv \<Rightarrow> [iv] | _ \<Rightarrow> []) L)"

definition modelled :: "('j, 'r) turn_effect list \<Rightarrow> ('j, 'r) model_request list" where
  "modelled L = concat (map (\<lambda>x. case x of ModelCalled q \<Rightarrow> [q] | _ \<Rightarrow> []) L)"

lemma log_simps [simp]:
  "executed [] = []" "modelled [] = []"
  "executed (L @ [ToolExecuted iv]) = executed L @ [iv]" "modelled (L @ [ToolExecuted iv]) = modelled L"
  "executed (L @ [ModelCalled q]) = executed L" "modelled (L @ [ModelCalled q]) = modelled L @ [q]"
  by (simp_all add: executed_def modelled_def)

abbreviation step_of :: "'j invocation \<Rightarrow> string" where
  "step_of iv \<equiv> sc_step_id (iv_scope iv)"

abbreviation call_of :: "'j invocation \<Rightarrow> string" where
  "call_of iv \<equiv> cl_id (pc_call (iv_prepared iv))"

text \<open>
  An invocation is authorized: its grant was issued from the decision of the engine's policy on the
  very preparation it carries, for the execution of the executor, and its window ends with the turn.
\<close>

definition authorized :: "'j policy_codec \<Rightarrow> turn_executor \<Rightarrow> instant option \<Rightarrow> 'j invocation \<Rightarrow> bool" where
  "authorized K X deadline iv \<longleftrightarrow>
     (\<exists>policy cx approval. tx_policy X = Some policy
        \<and> tx_execution_key X = Some (sc_execution (iv_scope iv))
        \<and> sc_agent_snapshot_digest (iv_scope iv) = tx_agent_snapshot_digest X
        \<and> iv_policy_revision iv = revision K policy
        \<and> issue_grant K (iv_prepared iv) (decide_prepared K policy (iv_prepared iv) cx) approval (iv_scope iv)
          = Ok (iv_grant iv))
     \<and> (case deadline of None \<Rightarrow> True | Some limit \<Rightarrow> iv_window iv \<le> limit)"

record run_limits =
  rl_turn_id :: string
  rl_steps_before :: nat
  rl_max_steps :: nat
  rl_calls_before :: nat
  rl_max_calls :: "nat option"
  rl_deadline :: "instant option"

definition safe_log :: "'j policy_codec \<Rightarrow> turn_executor \<Rightarrow> run_limits \<Rightarrow> ('j, 'r) turn_effect list \<Rightarrow> bool" where
  "safe_log K X l L \<longleftrightarrow>
     (\<forall>iv \<in> set (executed L). authorized K X (rl_deadline l) iv)
     \<and> distinct (map (\<lambda>iv. (step_of iv, call_of iv)) (executed L))
     \<and> (executed L = [] \<or> \<not> exceeds (rl_max_calls l) (rl_calls_before l + length (executed L)))
     \<and> (\<exists>n \<le> rl_max_steps l. map mr_request_id (modelled L) = map (step_id (rl_turn_id l)) [rl_steps_before l..<n])"

text \<open>The identities of steps differ.\<close>

definition decimal_value :: "string \<Rightarrow> nat" where
  "decimal_value s = foldl (\<lambda>n c. 10 * n + (of_char c - 48)) 0 s"

lemma decimal_value_decimal: "decimal_value (decimal n) = n"
proof (induction n rule: decimal.induct)
  case (1 n)
  have digit: "of_char (char_of (48 + k :: nat)) - 48 = k" if "k < 10" for k :: nat
    using that by (simp add: of_char_of)
  show ?case
  proof (cases "n < 10")
    case True
    then show ?thesis by (subst decimal.simps) (simp add: decimal_value_def digit)
  next
    case False
    from 1 [OF False] have "decimal_value (decimal (n div 10)) = n div 10" .
    with False show ?thesis by (subst decimal.simps) (simp add: decimal_value_def digit)
  qed
qed

lemma step_id_inj: "step_id t i = step_id t j \<longleftrightarrow> i = j"
  unfolding step_id_def by (auto dest: arg_cong [where f = decimal_value] simp: decimal_value_decimal)

section \<open>The invariant\<close>

text \<open>
  What holds of the log in a run with the limits: so many steps had tools, the model was called for
  so many, and the tools of the current step are among the calls of a set.
\<close>

definition logged ::
  "'j policy_codec \<Rightarrow> turn_executor \<Rightarrow> run_limits \<Rightarrow> nat \<Rightarrow> nat \<Rightarrow> ('j, 'r) turn_effect list \<Rightarrow> bool" where
  "logged K X l n m L \<longleftrightarrow>
     (\<forall>iv \<in> set (executed L). authorized K X (rl_deadline l) iv \<and> (\<exists>j < n. step_of iv = step_id (rl_turn_id l) j))
     \<and> distinct (map (\<lambda>iv. (step_of iv, call_of iv)) (executed L))
     \<and> rl_steps_before l \<le> m \<and> m \<le> rl_max_steps l
     \<and> map mr_request_id (modelled L) = map (step_id (rl_turn_id l)) [rl_steps_before l..<m]"

definition within_batch ::
  "run_limits \<Rightarrow> nat \<Rightarrow> nat \<Rightarrow> string set \<Rightarrow> ('j, 'r) turn_effect list \<Rightarrow> bool" where
  "within_batch l n used S L \<longleftrightarrow>
     (\<forall>iv \<in> set (executed L). step_of iv = step_id (rl_turn_id l) (n - 1) \<longrightarrow> call_of iv \<in> S)
     \<and> rl_calls_before l + length (executed L) \<le> used + card S"

lemma exceeds_mono: "\<not> exceeds m b \<Longrightarrow> a \<le> b \<Longrightarrow> \<not> exceeds m a"
  by (auto simp: exceeds_def split: option.splits)

lemma logged_safe:
  assumes "logged K X l n m L" and "rl_calls_before l + length (executed L) \<le> b" and "\<not> exceeds (rl_max_calls l) b"
  shows "safe_log K X l L"
  using assms exceeds_mono [OF assms(3,2)] unfolding logged_def safe_log_def by blast

text \<open>The checkpoint that is held belongs to the run and its batch fits the limit.\<close>

definition held :: "turn_executor \<Rightarrow> run_limits \<Rightarrow> ('j, 'r) run_state \<Rightarrow> ('j, 'r) turn_checkpoint \<Rightarrow> bool" where
  "held X l st c \<longleftrightarrow>
     workable c \<and> accounted c
     \<and> tx_execution_key X = Some (sc_execution (ck_scope c))
     \<and> sc_agent_snapshot_digest (ck_scope c) = tx_agent_snapshot_digest X
     \<and> sc_step_id (ck_scope c) = step_id (rl_turn_id l) (length (rn_steps st) - 1)
     \<and> cb_prior_tool_calls_used (ck_budget c) = rn_tool_calls_used st
     \<and> cb_max_tool_calls (ck_budget c) = rl_max_calls l
     \<and> \<not> exceeds (rl_max_calls l) (rn_tool_calls_used st + length (ck_calls c))"

definition balanced :: "('j, 'r) turn_checkpoint \<Rightarrow> bool" where
  "balanced c \<longleftrightarrow> cb_tool_calls_used (ck_budget c) = cb_prior_tool_calls_used (ck_budget c) + charged (ck_calls c)"

definition belongs :: "run_limits \<Rightarrow> ('j, 'r) run_state \<Rightarrow> bool" where
  "belongs l st \<longleftrightarrow> rn_turn_id st = rl_turn_id l \<and> tg_max_steps (rn_config st) = rl_max_steps l
     \<and> tg_max_tool_calls (rn_config st) = rl_max_calls l \<and> rn_deadline st = rl_deadline l"

lemma held_evolves:
  assumes "held X l st c" and "evolves c c'" and "workable c'"
  shows "held X l st c'"
proof -
  from assms(2) have "length (ck_calls c') = length (ck_calls c)" unfolding evolves_def by (metis length_map)
  with assms show ?thesis by (simp add: held_def evolves_def)
qed

lemma held_bound:
  assumes "held X l st c" and "S \<subseteq> set (call_ids c)" and "logged K X l n m L"
    and "within_batch l n (rn_tool_calls_used st) S L"
  shows "safe_log K X l L"
proof -
  have "card S \<le> length (ck_calls c)"
    using card_mono [OF _ assms(2)] card_length [of "call_ids c"] by (simp add: call_ids_def)
  with assms(4) have "rl_calls_before l + length (executed L) \<le> rn_tool_calls_used st + length (ck_calls c)"
    by (simp add: within_batch_def)
  moreover have "\<not> exceeds (rl_max_calls l) (rn_tool_calls_used st + length (ck_calls c))"
    using assms(1) by (simp add: held_def)
  ultimately show ?thesis using assms(3) by (intro logged_safe)
qed

text \<open>The log while a batch is pending: what ran of it has left the ready state.\<close>

definition pend ::
  "'j policy_codec \<Rightarrow> turn_executor \<Rightarrow> run_limits \<Rightarrow> ('j, 'r) run_state \<Rightarrow> ('j, 'r) turn_checkpoint \<Rightarrow> string set
   \<Rightarrow> ('j, 'r) turn_effect list \<Rightarrow> bool" where
  "pend K X l st c S L \<longleftrightarrow>
     S \<subseteq> set (call_ids c)
     \<and> logged K X l (length (rn_steps st)) (length (rn_steps st)) L
     \<and> within_batch l (length (rn_steps st)) (rn_tool_calls_used st) S L"

lemma pend_safe: "held X l st c \<Longrightarrow> pend K X l st c S L \<Longrightarrow> safe_log K X l L"
  using held_bound by (auto simp: pend_def)

lemma pend_mono:
  assumes "pend K X l st c S L" and "S \<subseteq> S'" and "S' \<subseteq> set (call_ids c)"
  shows "pend K X l st c S' L"
proof -
  have "card S \<le> card S'" using assms(2,3) by (intro card_mono) (auto intro: finite_subset)
  with assms show ?thesis by (fastforce simp: pend_def within_batch_def)
qed

lemma pend_evolves: "evolves c c' \<Longrightarrow> pend K X l st c' = pend K X l st c"
  by (intro ext) (simp add: pend_def evolves_ids)

section \<open>Dispatch\<close>

lemma execution_window_yields:
  "yields (execution_window E st t) (\<lambda>w. case rn_deadline st of None \<Rightarrow> True | Some limit \<Rightarrow> w \<le> limit)"
proof -
  have d: "yields (tool_deadline E st)
    (\<lambda>d. case rn_deadline st of None \<Rightarrow> True | Some limit \<Rightarrow> (\<exists>x. d = Some x \<and> x \<le> limit))"
    unfolding tool_deadline_def
    by (auto split: option.split intro!: yields_give yields_seqt simp: min_option_def)
  show ?thesis unfolding execution_window_def
    by (rule yields_bindt [OF d]) (auto intro!: yields_seqt yields_give split: option.splits)
qed

lemma dispatch_call_triple:
  assumes held: "held X l st c" and run: "belongs l st"
    and g: "granted K X (ck_scope c) call issued"
    and new: "cl_id call \<notin> S" "cl_id call \<in> set (call_ids c)"
    and steps: "rn_steps st \<noteq> []"
  shows "triple (pend K X l st c S) (dispatch_call E st c call issued)
    (\<lambda>ob L. pend K X l st c (insert (cl_id call) S) L \<and> ob_call ob = call)
    (pend K X l st c (insert (cl_id call) S))"
proof -
  have grow: "pend K X l st c (insert (cl_id call) S) L" if "pend K X l st c S L" for L
    using that new(2) by (intro pend_mono [OF that]) (auto simp: pend_def)
  note q = triple_quiet_bindt [OF _ yields_any grow]
  let ?iv = "\<lambda>window. \<lparr>iv_prepared = ia_prepared issued, iv_grant = ia_grant issued, iv_scope = ia_scope issued,
                       iv_policy_revision = ia_policy_revision issued, iv_window = window\<rparr>"
  from g have ids: "call_of (?iv w) = cl_id call" "step_of (?iv w) = step_id (rl_turn_id l) (length (rn_steps st) - 1)"
    for w using held by (auto simp: granted_def held_def)
  have auth: "authorized K X (rl_deadline l) (?iv w)"
    if "case rn_deadline st of None \<Rightarrow> True | Some limit \<Rightarrow> w \<le> limit" for w
  proof -
    from g held have "\<exists>policy cx approval. tx_policy X = Some policy
        \<and> tx_execution_key X = Some (sc_execution (iv_scope (?iv w)))
        \<and> sc_agent_snapshot_digest (iv_scope (?iv w)) = tx_agent_snapshot_digest X
        \<and> iv_policy_revision (?iv w) = revision K policy
        \<and> issue_grant K (iv_prepared (?iv w)) (decide_prepared K policy (iv_prepared (?iv w)) cx) approval
            (iv_scope (?iv w)) = Ok (iv_grant (?iv w))"
      unfolding granted_def held_def by (simp only: invocation.simps) metis
    with that run show ?thesis by (simp only: authorized_def belongs_def invocation.simps)
  qed
  have add: "pend K X l st c (insert (cl_id call) S) (L @ [ToolExecuted (?iv w)])"
    if L: "pend K X l st c S L" and w: "case rn_deadline st of None \<Rightarrow> True | Some limit \<Rightarrow> w \<le> limit" for L w
  proof -
    from L have S: "S \<subseteq> set (call_ids c)" and lg: "logged K X l (length (rn_steps st)) (length (rn_steps st)) L"
      and wb: "within_batch l (length (rn_steps st)) (rn_tool_calls_used st) S L" by (simp_all add: pend_def)
    have fin: "finite S" using S by (rule finite_subset) simp
    from wb new(1) have "\<forall>iv \<in> set (executed L). (step_of iv, call_of iv) \<noteq> (step_of (?iv w), call_of (?iv w))"
      unfolding ids within_batch_def by auto
    then have "distinct (map (\<lambda>iv. (step_of iv, call_of iv)) (executed L @ [?iv w]))"
      using lg by (auto simp: logged_def)
    with lg auth [OF w] steps have "logged K X l (length (rn_steps st)) (length (rn_steps st)) (L @ [ToolExecuted (?iv w)])"
      unfolding logged_def log_simps by (auto simp: ids [simplified] intro!: exI [of _ "length (rn_steps st) - 1"])
    moreover have "within_batch l (length (rn_steps st)) (rn_tool_calls_used st) (insert (cl_id call) S) (L @ [ToolExecuted (?iv w)])"
      using wb fin new(1) unfolding within_batch_def log_simps by (auto simp: ids [simplified])
    ultimately show ?thesis using S new(2) by (simp add: pend_def)
  qed
  have finish: "triple (pend K X l st c S)
      (bindt (execution_window E st t) (\<lambda>window.
         seqt (effectt (ToolExecuted (?iv window)))
        (bindt (envt (te_execute E (?iv window))) (\<lambda>outcome.
           give \<lparr>ob_call = call, ob_issued = issued, ob_outcome = outcome\<rparr>))))
      (\<lambda>ob L. pend K X l st c (insert (cl_id call) S) L \<and> ob_call ob = call)
    (pend K X l st c (insert (cl_id call) S))" for t
  proof (rule triple_quiet_bindt [OF quiet_execution_window execution_window_yields grow])
    fix w assume w: "case rn_deadline st of None \<Rightarrow> True | Some limit \<Rightarrow> w \<le> limit"
    have "triple (pend K X l st c S) (effectt (ToolExecuted (?iv w)))
       (\<lambda>_. pend K X l st c (insert (cl_id call) S)) (pend K X l st c (insert (cl_id call) S))"
      by (rule triple_effect) (rule add [OF _ w])
    then show "triple (pend K X l st c S) (seqt (effectt (ToolExecuted (?iv w)))
        (bindt (envt (te_execute E (?iv w))) (\<lambda>outcome.
           give \<lparr>ob_call = call, ob_issued = issued, ob_outcome = outcome\<rparr>)))
      (\<lambda>ob L. pend K X l st c (insert (cl_id call) S) L \<and> ob_call ob = call)
    (pend K X l st c (insert (cl_id call) S))"
      by (rule triple_bindt)
         (intro triple_quiet_bindt [OF quiet_envt yields_any] triple_give; simp)
  qed
  show ?thesis unfolding dispatch_call_def Let_def
    by (intro q [OF quiet_admit] q [OF quiet_check] q [OF quiet_if] q [OF quiet_emit] q [OF quiet_lift_res]
        finish quiet_give quiet_emit)
qed

lemma belongs_steps: "belongs l st \<Longrightarrow> belongs l (st\<lparr>rn_steps := x\<rparr>)" by (simp add: belongs_def)

text \<open>The evolution of the held checkpoint under observations.\<close>

lemma workable_marks: "workable c \<Longrightarrow> marks c ids c' \<Longrightarrow> own_prepared c' \<Longrightarrow> workable c'"
  using marks_distinct by (auto simp: workable_def marks_def)

lemma own_prepared_observed:
  assumes "distinct (call_ids c)" and "own_prepared c"
  shows "own_prepared (update_call i (observed s) c)"
  using assms unfolding own_prepared_def by (auto simp: update_call_calls observed_def)

lemma apply_observation_own:
  assumes "distinct (call_ids c)" and "own_prepared c"
  shows "yields (apply_observation E T st c ob) own_prepared"
  unfolding apply_observation_def
  by (intro yields_seqt yields_give own_prepared_observed assms)

lemma dispatch_serial_triple:
  assumes "held X l st c" and run: "belongs l st" and steps: "rn_steps st \<noteq> []"
    and "\<forall>(call, issued) \<in> set invs. granted K X (ck_scope c) call issued"
    and "distinct (invocation_ids invs)" and "set (invocation_ids invs) \<subseteq> ready_ids c" and "S \<inter> ready_ids c = {}"
  shows "triple (pend K X l st c S) (dispatch_serial E T st c invs)
    (\<lambda>c' L. evolves c c' \<and> own_prepared c' \<and> ck_approvals c' = ck_approvals c \<and>
       (\<exists>S'. S' \<inter> ready_ids c' = {} \<and> pend K X l st c' S' L)) (safe_log K X l)"
  using assms(1,4-7)
proof (induction invs arbitrary: c S)
  case Nil
  have "own_prepared c" using Nil.prems(1) by (simp add: held_def workable_def)
  with Nil.prems show ?case unfolding dispatch_serial.simps by (intro triple_give) auto
next
  case (Cons inv invs)
  obtain call issued where inv: "inv = (call, issued)" by fastforce
  let ?i = "cl_id call"
  note held = Cons.prems(1)
  from Cons.prems inv have i: "?i \<in> ready_ids c" "?i \<notin> S" "?i \<notin> set (invocation_ids invs)"
    and g: "granted K X (ck_scope c) call issued" by auto
  have ic: "?i \<in> set (call_ids c)" using i(1) by (auto simp: ready_ids_def call_ids_def)
  have ids: "distinct (call_ids c)" and own: "own_prepared c" using held by (simp_all add: held_def workable_def)
  have safe: "pend K X l st c (insert ?i S) L \<Longrightarrow> safe_log K X l L" for L by (rule pend_safe [OF held])
  show ?case unfolding inv dispatch_serial.simps
  proof (rule triple_bindt [OF triple_error [OF dispatch_call_triple [OF held run g i(2) ic steps] safe]])
    fix ob
    show "triple (\<lambda>L. pend K X l st c (insert ?i S) L \<and> ob_call ob = call)
       (bindt (apply_observation E T st c ob) (\<lambda>c'.
          seqt (check E st)
         (case ob_outcome ob of Ok (OutcomeAwaiting _) \<Rightarrow> give c' | _ \<Rightarrow> dispatch_serial E T st c' invs)))
       (\<lambda>c' L. evolves c c' \<and> own_prepared c' \<and> ck_approvals c' = ck_approvals c \<and>
         (\<exists>S'. S' \<inter> ready_ids c' = {} \<and> pend K X l st c' S' L)) (safe_log K X l)"
    proof (cases "ob_call ob = call")
      case True
      show ?thesis
      proof (rule triple_quiet_bindt [OF quiet_apply_observation
            yields_conj [OF apply_observation_yields [OF ids] apply_observation_own [OF ids own]]], use safe in blast)
        fix d assume d: "marks c {cl_id (ob_call ob)} d \<and> own_prepared d"
        then have m: "marks c {?i} d" and own': "own_prepared d" using True by simp_all
        from m have ev: "evolves c d" and rd: "ready_ids d = ready_ids c - {?i}" and ap: "ck_approvals d = ck_approvals c"
          by (simp_all add: marks_def)
        have wd: "workable d" using workable_marks [OF _ m own'] held by (simp add: held_def)
        have hd: "held X l st d" by (rule held_evolves [OF held ev wd])
        have pd: "pend K X l st d = pend K X l st c" by (rule pend_evolves [OF ev])
        have disj: "insert ?i S \<inter> ready_ids d = {}" using Cons.prems(5) rd by auto
        have scope: "ck_scope d = ck_scope c" using ev by (simp add: evolves_def)
        have left: "set (invocation_ids invs) \<subseteq> ready_ids d"
          using Cons.prems(4) i(3) unfolding inv rd by (simp only: list.map list.set) blast
        have "triple (pend K X l st d (insert ?i S)) (dispatch_serial E T st d invs)
          (\<lambda>c' L. evolves d c' \<and> own_prepared c' \<and> ck_approvals c' = ck_approvals d \<and>
            (\<exists>S'. S' \<inter> ready_ids c' = {} \<and> pend K X l st c' S' L)) (safe_log K X l)"
          by (rule Cons.IH [OF hd]) (use Cons.prems(2,3) inv left disj scope in auto)
        then have rest: "triple (\<lambda>L. pend K X l st c (insert ?i S) L \<and> ob_call ob = call) (dispatch_serial E T st d invs)
          (\<lambda>c' L. evolves c c' \<and> own_prepared c' \<and> ck_approvals c' = ck_approvals c \<and>
            (\<exists>S'. S' \<inter> ready_ids c' = {} \<and> pend K X l st c' S' L)) (safe_log K X l)"
          by (rule triple_weaken) (use pd ap evolves_trans [OF ev] in auto)
        have stop: "triple (\<lambda>L. pend K X l st c (insert ?i S) L \<and> ob_call ob = call) (give d)
          (\<lambda>c' L. evolves c c' \<and> own_prepared c' \<and> ck_approvals c' = ck_approvals c \<and>
            (\<exists>S'. S' \<inter> ready_ids c' = {} \<and> pend K X l st c' S' L)) (safe_log K X l)"
          by (rule triple_give, intro conjI exI [of _ "insert ?i S"]) (use pd ap ev disj own' in simp_all)
        show "triple (\<lambda>L. pend K X l st c (insert ?i S) L \<and> ob_call ob = call)
           (seqt (check E st) (case ob_outcome ob of Ok (OutcomeAwaiting _) \<Rightarrow> give d | _ \<Rightarrow> dispatch_serial E T st d invs))
           (\<lambda>c' L. evolves c c' \<and> own_prepared c' \<and> ck_approvals c' = ck_approvals c \<and>
             (\<exists>S'. S' \<inter> ready_ids c' = {} \<and> pend K X l st c' S' L)) (safe_log K X l)"
          by (rule triple_quiet_bindt [OF quiet_check yields_any])
             (use safe rest stop in \<open>auto split: res.split tool_outcome.split\<close>)
      qed
    qed (simp add: triple_def)
  qed
qed

lemma dispatch_all_triple:
  assumes held: "held X l st c" and run: "belongs l st" and steps: "rn_steps st \<noteq> []"
    and "\<forall>(call, issued) \<in> set invs. granted K X (ck_scope c) call issued"
    and "distinct (invocation_ids invs)" and "set (invocation_ids invs) \<subseteq> ready_ids c"
    and "S \<inter> set (invocation_ids invs) = {}" and "S \<subseteq> set (call_ids c)"
  shows "triple (pend K X l st c S) (dispatch_all E st c invs)
    (\<lambda>rs L. pend K X l st c (S \<union> set (invocation_ids invs)) L \<and>
       (\<forall>obs. rs = map Ok obs \<longrightarrow> map ob_call obs = map fst invs)) (safe_log K X l)"
  using assms(4-8)
proof (induction invs arbitrary: S)
  case Nil
  show ?case unfolding dispatch_all.simps by (rule triple_give) simp
next
  case (Cons inv invs)
  obtain call issued where inv: "inv = (call, issued)" by fastforce
  let ?i = "cl_id call"
  from Cons.prems inv have i: "?i \<in> ready_ids c" "?i \<notin> S" "?i \<notin> set (invocation_ids invs)"
    and g: "granted K X (ck_scope c) call issued" by auto
  have ic: "?i \<in> set (call_ids c)" using i(1) by (auto simp: ready_ids_def call_ids_def)
  note call = dispatch_call_triple [OF held run g i(2) ic steps, of E]
  have rest: "triple (pend K X l st c (insert ?i S)) (dispatch_all E st c invs)
    (\<lambda>rs L. pend K X l st c (S \<union> set (invocation_ids (inv # invs))) L \<and>
       (\<forall>obs. rs = map Ok obs \<longrightarrow> map ob_call obs = map fst invs)) (safe_log K X l)"
  proof -
    have sub: "set (invocation_ids invs) \<subseteq> ready_ids c" using Cons.prems(3) by simp
    have disj: "insert ?i S \<inter> set (invocation_ids invs) = {}"
      using Cons.prems(4) i(3) unfolding inv by (simp only: list.map list.set) blast
    have "insert ?i S \<union> set (invocation_ids invs) = S \<union> set (invocation_ids (inv # invs))" by (auto simp: inv)
    then show ?thesis using Cons.IH [of "insert ?i S"] Cons.prems(1,2,5) sub disj ic by (simp add: comp_def)
  qed
  have tried: "triple (pend K X l st c S) (tryt (dispatch_call E st c call issued))
     (\<lambda>r L. (case r of Ok ob \<Rightarrow> pend K X l st c (insert ?i S) L \<and> ob_call ob = call | _ \<Rightarrow> pend K X l st c (insert ?i S) L))
     (pend K X l st c (insert ?i S))"
    by (rule triple_tryt [OF call])
  have safe: "pend K X l st c (insert ?i S) L \<Longrightarrow> safe_log K X l L" for L by (rule pend_safe [OF held])
  show ?case unfolding inv dispatch_all.simps
  proof (rule triple_bindt [OF triple_error [OF tried safe]])
    fix r
    show "triple (\<lambda>L. case r of Ok ob \<Rightarrow> pend K X l st c (insert ?i S) L \<and> ob_call ob = call | _ \<Rightarrow> pend K X l st c (insert ?i S) L)
      (bindt (dispatch_all E st c invs) (\<lambda>obs. give (r # obs)))
      (\<lambda>rs L. pend K X l st c (S \<union> set (invocation_ids ((call, issued) # invs))) L \<and>
         (\<forall>obs. rs = map Ok obs \<longrightarrow> map ob_call obs = map fst ((call, issued) # invs))) (safe_log K X l)"
    proof (rule triple_bindt [where Q = "\<lambda>rs L. pend K X l st c (S \<union> set (invocation_ids (inv # invs))) L \<and>
         (\<forall>obs. rs = map Ok obs \<longrightarrow> map ob_call obs = map fst invs) \<and> (\<forall>ob. r = Ok ob \<longrightarrow> ob_call ob = call)"])
      show "triple (\<lambda>L. case r of Ok ob \<Rightarrow> pend K X l st c (insert ?i S) L \<and> ob_call ob = call | _ \<Rightarrow> pend K X l st c (insert ?i S) L)
        (dispatch_all E st c invs) (\<lambda>rs L. pend K X l st c (S \<union> set (invocation_ids (inv # invs))) L \<and>
         (\<forall>obs. rs = map Ok obs \<longrightarrow> map ob_call obs = map fst invs) \<and> (\<forall>ob. r = Ok ob \<longrightarrow> ob_call ob = call)) (safe_log K X l)"
      proof (cases "\<exists>ob. r = Ok ob \<and> ob_call ob \<noteq> call")
        case False
        show ?thesis by (rule triple_weaken [OF rest]) (use False in \<open>auto split: res.splits\<close>)
      qed (auto simp: triple_def)
      show "triple (\<lambda>L. pend K X l st c (S \<union> set (invocation_ids (inv # invs))) L \<and>
         (\<forall>obs. rs = map Ok obs \<longrightarrow> map ob_call obs = map fst invs) \<and> (\<forall>ob. r = Ok ob \<longrightarrow> ob_call ob = call))
        (give (r # rs)) (\<lambda>rs L. pend K X l st c (S \<union> set (invocation_ids ((call, issued) # invs))) L \<and>
         (\<forall>obs. rs = map Ok obs \<longrightarrow> map ob_call obs = map fst ((call, issued) # invs))) (safe_log K X l)" for rs
        by (rule triple_give) (auto simp: inv Cons_eq_map_conv)
    qed
  qed
qed

text \<open>The log while a batch is pending, when what ran has left the ready state.\<close>

definition batch_log ::
  "'j policy_codec \<Rightarrow> turn_executor \<Rightarrow> run_limits \<Rightarrow> ('j, 'r) run_state \<Rightarrow> ('j, 'r) turn_checkpoint
   \<Rightarrow> ('j, 'r) turn_effect list \<Rightarrow> bool" where
  "batch_log K X l st c L \<longleftrightarrow> (\<exists>S. S \<inter> ready_ids c = {} \<and> pend K X l st c S L)"

lemma batch_log_safe: "held X l st c \<Longrightarrow> batch_log K X l st c L \<Longrightarrow> safe_log K X l L"
  using pend_safe by (auto simp: batch_log_def)

lemma batch_log_evolves:
  assumes "evolves c c'" and "batch_log K X l st c L"
  shows "batch_log K X l st c' L"
proof -
  from assms(2) obtain S where "S \<inter> ready_ids c = {}" and "pend K X l st c S L" by (auto simp: batch_log_def)
  moreover from this(2) have "pend K X l st c' S L" using pend_evolves [OF assms(1)] by metis
  moreover have "ready_ids c' \<subseteq> ready_ids c" using assms(1) by (simp add: evolves_def)
  ultimately show ?thesis unfolding batch_log_def by blast
qed

lemma batch_log_before:
  assumes "evolves c c'" and "held X l st c" and "batch_log K X l st c' L"
  shows "safe_log K X l L"
proof -
  from assms(3) obtain S where "pend K X l st c' S L" by (auto simp: batch_log_def)
  then have "pend K X l st c S L" using pend_evolves [OF assms(1)] by metis
  then show ?thesis by (rule pend_safe [OF assms(2)])
qed

lemma batch_log_triple:
  assumes "\<And>S. S \<inter> ready_ids c = {} \<Longrightarrow> triple (pend K X l st c S) m Q R"
  shows "triple (batch_log K X l st c) m Q R"
  unfolding batch_log_def by (intro triple_exists triple_pure assms)

lemma dispatch_parallel_triple:
  assumes held: "held X l st c" and run: "belongs l st" and steps: "rn_steps st \<noteq> []"
    and g: "\<forall>(call, issued) \<in> set invs. granted K X (ck_scope c) call issued"
    and ids: "distinct (invocation_ids invs)" and sub: "set (invocation_ids invs) \<subseteq> ready_ids c"
  shows "triple (batch_log K X l st c) (dispatch_parallel E T st c invs)
    (\<lambda>c' L. evolves c c' \<and> batch_log K X l st c' L) (safe_log K X l)"
  unfolding dispatch_parallel_def
proof (rule batch_log_triple)
  fix S assume S: "S \<inter> ready_ids c = {}"
  let ?S = "S \<union> set (invocation_ids invs)"
  have dc: "distinct (call_ids c)" using held by (simp add: held_def workable_def)
  have safe: "pend K X l st c S' L \<Longrightarrow> safe_log K X l L" for S' L by (rule pend_safe [OF held])
  have disj: "S \<inter> set (invocation_ids invs) = {}" using S sub by blast
  show "triple (pend K X l st c S) (bindt (dispatch_all E st c invs) (\<lambda>observations.
     bindt (apply_observations E T st c None observations) (\<lambda>(c', fatal).
       case fatal of Some e \<Rightarrow> raise e | None \<Rightarrow> seqt (check E st) (give c'))))
    (\<lambda>c' L. evolves c c' \<and> batch_log K X l st c' L) (safe_log K X l)"
  proof (cases "S \<subseteq> set (call_ids c)")
    case True
    show ?thesis
    proof (rule triple_bindt [OF dispatch_all_triple [OF held run steps g ids sub disj True]])
      fix rs :: "(turn_error, 'a observation) res list"
      show "triple (\<lambda>L. pend K X l st c ?S L \<and> (\<forall>obs. rs = map Ok obs \<longrightarrow> map ob_call obs = map fst invs))
        (bindt (apply_observations E T st c None rs) (\<lambda>(c', fatal).
           case fatal of Some e \<Rightarrow> raise e | None \<Rightarrow> seqt (check E st) (give c')))
        (\<lambda>c' L. evolves c c' \<and> batch_log K X l st c' L) (safe_log K X l)"
      proof (rule triple_quiet_bindt [OF quiet_apply_observations apply_observations_yields [OF dc]], use safe in blast)
        fix y :: "('a, 'b) turn_checkpoint \<times> turn_error option"
        assume y: "case y of (c', fatal') \<Rightarrow> fatal' = None \<longrightarrow> None = None
             \<and> (\<exists>obs. rs = map Ok obs \<and> marks c (set (map (cl_id \<circ> ob_call) obs)) c')"
        obtain c' f where Y: "y = (c', f)" by fastforce
        show "triple (\<lambda>L. pend K X l st c ?S L \<and> (\<forall>obs. rs = map Ok obs \<longrightarrow> map ob_call obs = map fst invs))
          (case y of (c', fatal) \<Rightarrow> case fatal of Some e \<Rightarrow> raise e | None \<Rightarrow> seqt (check E st) (give c'))
          (\<lambda>c' L. evolves c c' \<and> batch_log K X l st c' L) (safe_log K X l)"
        proof (cases f)
          case None
          with y Y obtain obs where obs: "rs = map Ok obs" and m: "marks c (set (map (cl_id \<circ> ob_call) obs)) c'" by auto
          have post: "evolves c c' \<and> batch_log K X l st c' L"
            if L: "pend K X l st c ?S L" and calls: "map ob_call obs = map fst invs" for L
          proof -
            from calls have "map (cl_id \<circ> ob_call) obs = invocation_ids invs" by (metis map_map)
            with m have ev: "evolves c c'" and rd: "ready_ids c' = ready_ids c - set (invocation_ids invs)"
              by (simp_all add: marks_def)
            have "pend K X l st c' ?S L" using L pend_evolves [OF ev] by metis
            moreover have "?S \<inter> ready_ids c' = {}" using S unfolding rd by blast
            ultimately show ?thesis using ev unfolding batch_log_def by blast
          qed
          show ?thesis unfolding Y None prod.case option.case
            by (rule triple_quiet_bindt [OF quiet_check yields_any]) (use safe post obs in \<open>auto intro!: triple_give\<close>)
        next
          case (Some e)
          show ?thesis unfolding Y Some prod.case option.case
            by (rule triple_lift_res) (use safe in auto)
        qed
      qed
    qed
  qed (simp add: triple_def pend_def)
qed

lemma dispatch_current_stage_triple:
  assumes held: "held X l st c" and run: "belongs l st" and steps: "rn_steps st \<noteq> []"
    and valid: "checkpoint_validate T c (ck_scope c) = Ok ()"
    and policy: "tx_policy X = Some policy" and sound: "decisions_sound (tk_policy T) policy plan c"
  shows "triple (batch_log (tk_policy T) X l st c) (dispatch_current_stage E T st c plan)
    (\<lambda>(progressed, c') L. (evolves c c' \<and> checkpoint_validate T c' (ck_scope c') = Ok ())
       \<and> batch_log (tk_policy T) X l st c' L) (safe_log (tk_policy T) X l)"
proof -
  note safe = batch_log_safe [OF held, where K = "tk_policy T"]
  have same: "triple (batch_log (tk_policy T) X l st c) (give (b, c))
    (\<lambda>(progressed, c') L. (evolves c c' \<and> checkpoint_validate T c' (ck_scope c') = Ok ())
       \<and> batch_log (tk_policy T) X l st c' L) (safe_log (tk_policy T) X l)" for b
    by (rule triple_give) (simp add: valid)
  show ?thesis
  proof (cases "get (ck_stages c) (ck_stage_index c)")
    case None
    then show ?thesis using same unfolding dispatch_current_stage_def by simp
  next
    case (Some stage)
    have distinct: "distinct stage" by (rule valid_stage_distinct [OF valid Some])
    show ?thesis unfolding dispatch_current_stage_def Some option.case
    proof (rule triple_quiet_bindt [OF quiet_collect_invocations collect_invocations_yields [OF valid policy sound] safe],
        assumption, split if_split, intro conjI impI same)
      fix invs assume invs: "set (invocation_ids invs) \<subseteq> set stage \<inter> ready_ids c
         \<and> (distinct stage \<longrightarrow> distinct (invocation_ids invs))
         \<and> (\<forall>(call, issued) \<in> set invs. granted (tk_policy T) X (ck_scope c) call issued)"
      then have sub: "set (invocation_ids invs) \<subseteq> ready_ids c" and ids: "distinct (invocation_ids invs)"
        and g: "\<forall>(call, issued) \<in> set invs. granted (tk_policy T) X (ck_scope c) call issued"
        using distinct by blast+
      have serial: "triple (batch_log (tk_policy T) X l st c) (dispatch_serial E T st c invs)
        (\<lambda>c' L. evolves c c' \<and> batch_log (tk_policy T) X l st c' L) (safe_log (tk_policy T) X l)"
        by (rule batch_log_triple, rule triple_weaken [OF dispatch_serial_triple [OF held run steps g ids sub]])
           (auto simp: batch_log_def)
      have "triple (batch_log (tk_policy T) X l st c)
         (case dp_mode (rn_dispatch st) of Serial \<Rightarrow> dispatch_serial E T st c invs | Parallel \<Rightarrow> dispatch_parallel E T st c invs)
         (\<lambda>c' L. evolves c c' \<and> batch_log (tk_policy T) X l st c' L) (safe_log (tk_policy T) X l)"
        by (cases "dp_mode (rn_dispatch st)")
           (simp_all add: serial dispatch_parallel_triple [OF held run steps g ids sub])
      then show "triple (batch_log (tk_policy T) X l st c)
         (bindt (case dp_mode (rn_dispatch st) of Serial \<Rightarrow> dispatch_serial E T st c invs | Parallel \<Rightarrow> dispatch_parallel E T st c invs)
           (\<lambda>c1. seqt (lift_res (as_request (checkpoint_validate T (recount c1) (ck_scope (recount c1)))))
              (give (True, recount c1))))
        (\<lambda>(progressed, c') L. (evolves c c' \<and> checkpoint_validate T c' (ck_scope c') = Ok ())
           \<and> batch_log (tk_policy T) X l st c' L) (safe_log (tk_policy T) X l)"
      proof (rule triple_bindt, intro triple_pure)
        fix c1 assume ev: "evolves c c1"
        have er: "evolves c1 (recount c1)" using refreshes_recount refreshes_def by blast
        have s1: "batch_log (tk_policy T) X l st c1 L \<Longrightarrow> safe_log (tk_policy T) X l L" for L
          by (rule batch_log_before [OF ev held])
        show "triple (batch_log (tk_policy T) X l st c1)
           (seqt (lift_res (as_request (checkpoint_validate T (recount c1) (ck_scope (recount c1))))) (give (True, recount c1)))
          (\<lambda>(progressed, c') L. (evolves c c' \<and> checkpoint_validate T c' (ck_scope c') = Ok ())
             \<and> batch_log (tk_policy T) X l st c' L) (safe_log (tk_policy T) X l)"
          by (rule triple_lift_bindt [OF s1], assumption, rule triple_give)
             (use evolves_trans [OF ev er] batch_log_evolves [OF er] in \<open>auto simp: as_request_def res_simps\<close>)
      qed
    qed
  qed
qed

section \<open>The rounds over a pending batch\<close>

lemma refreshes_held:
  assumes "held X l st c" and "refreshes c c'" and "checkpoint_validate T c' s = Ok ()"
  shows "held X l st c'"
  using held_evolves [OF assms(1)] assms(2) valid_workable [OF assms(3)] by (simp add: refreshes_def)

lemma valid_balanced: "checkpoint_validate T c s = Ok () \<Longrightarrow> balanced c"
  unfolding balanced_def by (metis valid_budget(1))

lemma confirm_fields [simp]:
  "ck_scope (confirm_approval i c) = ck_scope c" "ck_calls (confirm_approval i c) = ck_calls c"
  "ck_budget (confirm_approval i c) = ck_budget c"
  by (simp_all add: confirm_approval_def)

lemma update_first_map: "(\<And>x. g (f x) = g x) \<Longrightarrow> map g (update_first P f xs) = map g xs"
  by (induction xs) auto

lemma confirm_evolves [simp]: "evolves c (confirm_approval i c)"
  by (simp add: evolves_def ready_ids_def accounted_def)

lemma confirm_calls [simp]:
  "map approval_call (ck_approvals (confirm_approval i c)) = map approval_call (ck_approvals c)"
  by (simp add: confirm_approval_def update_first_map approval_call_def)

lemma workable_confirm: "workable c \<Longrightarrow> workable (confirm_approval i c)"
  by (simp add: workable_def call_ids_def own_prepared_def)

lemma await_approval_yields:
  assumes "workable c"
  shows "yields (await_approval E st c a) (\<lambda>c'. evolves c c' \<and> workable c' \<and> (balanced c \<longrightarrow> balanced c'))"
  unfolding await_approval_def
  by (intro yields_seqt yields_give) (simp add: workable_confirm assms balanced_def)

text \<open>A run between batches.\<close>

definition idle ::
  "'j policy_codec \<Rightarrow> turn_executor \<Rightarrow> run_limits \<Rightarrow> ('j, 'r) run_state \<Rightarrow> ('j, 'r) turn_effect list \<Rightarrow> bool" where
  "idle K X l st L \<longleftrightarrow>
     logged K X l (length (rn_steps st)) (length (rn_steps st)) L
     \<and> rl_calls_before l + length (executed L) \<le> rn_tool_calls_used st
     \<and> \<not> exceeds (rl_max_calls l) (rn_tool_calls_used st)"

lemma idle_safe: "idle K X l st L \<Longrightarrow> safe_log K X l L"
  using logged_safe by (auto simp: idle_def)

lemma settle_pending_idle:
  assumes held: "held X l st c" and balanced: "balanced c" and settled: "settle_pending st c = Ok st'"
    and all_done: "\<forall>item \<in> set (ck_calls c). is_completed item" and L: "batch_log K X l st c L" and run: "belongs l st"
  shows "idle K X l st' L" and "belongs l st'" and "rn_pending st' = None" and "rn_steps st' = rn_steps st"
proof -
  from settled have st': "rn_steps st' = rn_steps st" "rn_tool_calls_used st' = cb_tool_calls_used (ck_budget c)"
    "rn_pending st' = None" "belongs l st' = belongs l st"
    unfolding settle_pending_def res_simps res.inject by (auto simp: belongs_def)
  show "rn_steps st' = rn_steps st" "rn_pending st' = None" "belongs l st'" using st' run by simp_all
  have "\<forall>item \<in> set (ck_calls c). cc_charged item"
    using held all_done by (fastforce simp: held_def accounted_def is_ready_def is_completed_def split: call_state.splits)
  then have "charged (ck_calls c) = length (ck_calls c)" by (simp add: charged_def)
  with balanced held have used: "cb_tool_calls_used (ck_budget c) = rn_tool_calls_used st + length (ck_calls c)"
    by (simp add: balanced_def held_def)
  from L obtain S where S: "S \<subseteq> set (call_ids c)" and lg: "logged K X l (length (rn_steps st)) (length (rn_steps st)) L"
    and wb: "within_batch l (length (rn_steps st)) (rn_tool_calls_used st) S L" by (auto simp: batch_log_def pend_def)
  have "card S \<le> length (ck_calls c)"
    using card_mono [OF _ S] card_length [of "call_ids c"] by (simp add: call_ids_def)
  with wb have "rl_calls_before l + length (executed L) \<le> rn_tool_calls_used st + length (ck_calls c)"
    by (simp add: within_batch_def)
  then show "idle K X l st' L" using lg held used st' by (simp add: idle_def held_def)
qed

definition round_log ::
  "'j policy_codec \<Rightarrow> turn_executor \<Rightarrow> run_limits \<Rightarrow> ('j, 'r) run_state \<Rightarrow> ('j, 'r) pending_exit
   \<Rightarrow> ('j, 'r) turn_effect list \<Rightarrow> bool" where
  "round_log K X l st x L \<longleftrightarrow>
     (case x of
        Waiting s \<Rightarrow> safe_log K X l L
      | Settled st' \<Rightarrow> (belongs l st' \<and> rn_pending st' = None) \<and> idle K X l st' L)"

lemma suspend_round_triple:
  assumes "\<And>L. P L \<Longrightarrow> safe_log K X l L"
  shows "triple P (suspend_round E T st c)
    (\<lambda>r L. case r of
        RoundEnds x \<Rightarrow> round_log K X l st x L
      | RoundContinues c' \<Rightarrow> (held X l st c' \<and> balanced c') \<and> batch_log K X l st c' L) (safe_log K X l)"
  unfolding suspend_round_def
  by (rule triple_quiet_bindt [OF quiet_suspend_pending yields_any assms], assumption, rule triple_give)
     (simp add: round_log_def assms)

lemma ready_round_triple:
  assumes held: "held X l st c" and run: "belongs l st" and steps: "rn_steps st \<noteq> []"
  shows "triple (batch_log (tk_policy T) X l st c) (ready_round E T X suspend st c)
    (\<lambda>r L. case r of
        RoundEnds x \<Rightarrow> round_log (tk_policy T) X l st x L
      | RoundContinues c' \<Rightarrow> (held X l st c' \<and> balanced c') \<and> batch_log (tk_policy T) X l st c' L)
    (safe_log (tk_policy T) X l)" (is "triple ?P _ ?Q ?R")
proof -
  have w: "workable c" using held by (simp add: held_def)
  note safe = batch_log_safe [OF held, where K = "tk_policy T"]
  show ?thesis unfolding ready_round_def
  proof (rule triple_quiet_bindt [OF quiet_refresh_ready refresh_ready_yields [OF w] safe], assumption)
    fix y :: "batch_plan \<times> ('a, 'b) turn_checkpoint"
    assume y: "case y of (plan, c') \<Rightarrow> refreshes c c' \<and> checkpoint_validate T c' (ck_scope c') = Ok ()
       \<and> (\<exists>policy. tx_policy X = Some policy \<and> decisions_sound (tk_policy T) policy plan c')"
    obtain plan c1 where Y: "y = (plan, c1)" by fastforce
    from y Y obtain policy where r: "refreshes c c1" and valid: "checkpoint_validate T c1 (ck_scope c1) = Ok ()"
      and policy: "tx_policy X = Some policy" and sound: "decisions_sound (tk_policy T) policy plan c1" by auto
    have held1: "held X l st c1" by (rule refreshes_held [OF held r valid])
    note safe1 = batch_log_safe [OF held1, where K = "tk_policy T"]
    have after: "batch_log (tk_policy T) X l st c L \<Longrightarrow> batch_log (tk_policy T) X l st c1 L" for L
      using batch_log_evolves r by (auto simp: refreshes_def)
    have wait: "triple (batch_log (tk_policy T) X l st c1) (bindt (await_approval E st c1 a) (\<lambda>c2. give (RoundContinues c2))) ?Q ?R" for a
      by (rule triple_quiet_bindt [OF quiet_await_approval await_approval_yields [OF valid_workable [OF valid]] safe1],
            assumption, rule triple_give)
         (use held_evolves [OF held1] valid_balanced [OF valid] batch_log_evolves in auto)
    have go: "triple (batch_log (tk_policy T) X l st c1) (bindt (dispatch_current_stage E T st c1 plan) (\<lambda>(progressed, c2).
           if progressed then give (RoundContinues c2) else suspend_round E T st c2)) ?Q ?R"
    proof (rule triple_bindt [OF dispatch_current_stage_triple [OF held1 run steps valid policy sound]])
      fix z :: "bool \<times> ('a, 'b) turn_checkpoint"
      obtain progressed c2 where Z: "z = (progressed, c2)" by fastforce
      show "triple (case z of (progressed, c') \<Rightarrow> \<lambda>L.
           (evolves c1 c' \<and> checkpoint_validate T c' (ck_scope c') = Ok ()) \<and> batch_log (tk_policy T) X l st c' L)
         (case z of (progressed, c2) \<Rightarrow> if progressed then give (RoundContinues c2) else suspend_round E T st c2) ?Q ?R"
        unfolding Z prod.case
      proof (rule triple_pure, elim conjE, split if_split, intro conjI impI)
        assume ev: "evolves c1 c2" and v2: "checkpoint_validate T c2 (ck_scope c2) = Ok ()"
        have held2: "held X l st c2" by (rule held_evolves [OF held1 ev valid_workable [OF v2]])
        show "triple (batch_log (tk_policy T) X l st c2) (give (RoundContinues c2)) ?Q ?R"
          by (rule triple_give) (use held2 valid_balanced [OF v2] in simp)
        show "triple (batch_log (tk_policy T) X l st c2) (suspend_round E T st c2) ?Q ?R"
          by (rule suspend_round_triple) (rule batch_log_safe [OF held2])
      qed
    qed
    have "triple (batch_log (tk_policy T) X l st c1)
       (bindt (lift_res (as_request (suspension_summary_of T c1 (ck_scope c1)))) (\<lambda>summary.
         case (suspend, ss_approvals summary) of
           (False, a # _) \<Rightarrow> bindt (await_approval E st c1 a) (\<lambda>c2. give (RoundContinues c2))
         | _ \<Rightarrow> bindt (dispatch_current_stage E T st c1 plan) (\<lambda>(progressed, c2).
               if progressed then give (RoundContinues c2) else suspend_round E T st c2))) ?Q ?R"
      by (rule triple_lift_bindt [OF safe1], assumption) (use wait go in \<open>auto split: list.split bool.split\<close>)
    then show "triple ?P
       (case y of (plan, c1) \<Rightarrow> bindt (lift_res (as_request (suspension_summary_of T c1 (ck_scope c1)))) (\<lambda>summary.
         case (suspend, ss_approvals summary) of
           (False, a # _) \<Rightarrow> bindt (await_approval E st c1 a) (\<lambda>c2. give (RoundContinues c2))
         | _ \<Rightarrow> bindt (dispatch_current_stage E T st c1 plan) (\<lambda>(progressed, c2).
               if progressed then give (RoundContinues c2) else suspend_round E T st c2))) ?Q ?R"
      unfolding Y prod.case by (rule triple_weaken) (use after in auto)
  qed
qed

lemma pending_step_triple:
  assumes held: "held X l st c" and balanced: "balanced c" and run: "belongs l st" and steps: "rn_steps st \<noteq> []"
  shows "triple (batch_log (tk_policy T) X l st c) (pending_step E T X suspend st c)
    (\<lambda>r L. case r of
        RoundEnds x \<Rightarrow> round_log (tk_policy T) X l st x L
      | RoundContinues c' \<Rightarrow> (held X l st c' \<and> balanced c') \<and> batch_log (tk_policy T) X l st c' L)
    (safe_log (tk_policy T) X l)" (is "triple ?P _ ?Q ?R")
proof -
  note safe = batch_log_safe [OF held, where K = "tk_policy T"]
  show ?thesis unfolding pending_step_def
  proof (rule triple_quiet_bindt [OF quiet_check yields_any safe], assumption, split if_split, intro conjI impI)
    show "triple ?P (suspend_round E T st c) ?Q ?R" by (rule suspend_round_triple) (rule safe)
    show "triple ?P (if \<forall>item \<in> set (ck_calls c). is_completed item
       then bindt (lift_res (settle_pending st c)) (\<lambda>st'. give (RoundEnds (Settled st')))
       else ready_round E T X suspend st c) ?Q ?R"
    proof (split if_split, intro conjI impI ready_round_triple [OF held run steps])
      assume all_done: "\<forall>item \<in> set (ck_calls c). is_completed item"
      show "triple ?P (bindt (lift_res (settle_pending st c)) (\<lambda>st'. give (RoundEnds (Settled st')))) ?Q ?R"
        by (rule triple_lift_bindt [OF safe], assumption, rule triple_give)
           (use settle_pending_idle [OF held balanced _ all_done _ run] in \<open>simp add: round_log_def\<close>)
    qed
  qed
qed

lemma handle_pending_triple:
  assumes "held X l st c" and "balanced c" and run: "belongs l st" and steps: "rn_steps st \<noteq> []"
  shows "triple (batch_log (tk_policy T) X l st c) (handle_pending E T X suspend st fuel c)
    (round_log (tk_policy T) X l st) (safe_log (tk_policy T) X l)"
  using assms(1,2)
proof (induction fuel arbitrary: c)
  case 0
  show ?case unfolding handle_pending.simps by (rule triple_lift_res) (use batch_log_safe [OF 0(1)] in auto)
next
  case (Suc fuel)
  show ?case unfolding handle_pending.simps
  proof (rule triple_bindt [OF pending_step_triple [OF Suc.prems run steps]])
    fix r :: "('a, 'b) pending_round"
    show "triple (\<lambda>L. case r of
        RoundEnds x \<Rightarrow> round_log (tk_policy T) X l st x L
      | RoundContinues c' \<Rightarrow> (held X l st c' \<and> balanced c') \<and> batch_log (tk_policy T) X l st c' L)
      (case r of RoundEnds x \<Rightarrow> give x | RoundContinues c' \<Rightarrow> handle_pending E T X suspend st fuel c')
      (round_log (tk_policy T) X l st) (safe_log (tk_policy T) X l)"
    proof (cases r)
      case (RoundEnds x)
      then show ?thesis by (simp add: triple_give)
    next
      case (RoundContinues c')
      show ?thesis unfolding RoundContinues pending_round.case by (rule triple_pure) (rule Suc.IH; simp)
    qed
  qed
qed

section \<open>The model loop\<close>

definition run_log ::
  "'j policy_codec \<Rightarrow> turn_executor \<Rightarrow> run_limits \<Rightarrow> ('j, 'r) run_state \<Rightarrow> ('j, 'r) turn_effect list \<Rightarrow> bool" where
  "run_log K X l st L \<longleftrightarrow>
     (case rn_pending st of
        None \<Rightarrow> idle K X l st L
      | Some c \<Rightarrow> (held X l st c \<and> balanced c \<and> rn_steps st \<noteq> []) \<and> batch_log K X l st c L)"

lemma run_log_safe: "run_log K X l st L \<Longrightarrow> safe_log K X l L"
  using idle_safe batch_log_safe by (auto simp: run_log_def split: option.splits)

lemma resume_pending_triple:
  assumes "belongs l st"
  shows "triple (run_log (tk_policy T) X l st) (resume_pending E T X suspend st)
    (round_log (tk_policy T) X l st) (safe_log (tk_policy T) X l)"
proof (cases "rn_pending st")
  case None
  then show ?thesis unfolding resume_pending_def run_log_def
    by (simp add: triple_give round_log_def assms)
next
  case (Some c)
  then show ?thesis unfolding resume_pending_def run_log_def
    by (simp del: conj_assoc) (intro triple_pure handle_pending_triple; simp add: assms)
qed

text \<open>After a model call: its step has no tools yet.\<close>

definition stepped ::
  "'j policy_codec \<Rightarrow> turn_executor \<Rightarrow> run_limits \<Rightarrow> ('j, 'r) run_state \<Rightarrow> ('j, 'r) turn_effect list \<Rightarrow> bool" where
  "stepped K X l st L \<longleftrightarrow>
     logged K X l (length (rn_steps st) - 1) (length (rn_steps st)) L
     \<and> rl_calls_before l + length (executed L) \<le> rn_tool_calls_used st
     \<and> \<not> exceeds (rl_max_calls l) (rn_tool_calls_used st)"

lemma stepped_safe: "stepped K X l st L \<Longrightarrow> safe_log K X l L"
  using logged_safe by (auto simp: stepped_def)

lemma model_step_triple:
  assumes run: "belongs l st" and less: "length (rn_steps st) < rl_max_steps l" and none: "rn_pending st = None"
  shows "triple (idle K X l st) (model_step E st)
    (\<lambda>(step, st') L. (belongs l st' \<and> rn_pending st' = None \<and> length (rn_steps st') = Suc (length (rn_steps st)))
       \<and> stepped K X l st' L) (safe_log K X l)"
proof -
  let ?i = "step_id (rn_turn_id st) (length (rn_steps st))"
  let ?st = "request_of_step st ?i"
  note q = triple_quiet_bindt [OF _ yields_any idle_safe]
  have st: "rn_steps ?st = rn_steps st" "rn_tool_calls_used ?st = rn_tool_calls_used st" "rn_pending ?st = None"
    "belongs l ?st" "mr_request_id (rn_model_request ?st) = ?i"
    using run none by (simp_all add: request_of_step_def belongs_def)
  let ?P = "\<lambda>L. logged K X l (length (rn_steps st)) (Suc (length (rn_steps st))) L
     \<and> rl_calls_before l + length (executed L) \<le> rn_tool_calls_used st \<and> \<not> exceeds (rl_max_calls l) (rn_tool_calls_used st)"
  have safe: "?P L \<Longrightarrow> safe_log K X l L" for L using logged_safe by blast
  have called: "triple (idle K X l st) (effectt (ModelCalled (rn_model_request ?st))) (\<lambda>_. ?P) (safe_log K X l)"
  proof (rule triple_effect)
    fix L assume "idle K X l st L"
    then show "?P (L @ [ModelCalled (rn_model_request ?st)])"
      using less run st(5) by (simp add: idle_def logged_def belongs_def)
  qed
  have rest: "triple ?P (bindt (runt (te_model E ?i (rn_model_request ?st) (rn_deadline st))) (\<lambda>r.
     let step = step_of_response ?i r in
     seqt (emit E (EvStepCompleted (rn_turn_id st) step)) (give (step, ?st\<lparr>rn_steps := rn_steps ?st @ [step]\<rparr>))))
    (\<lambda>(step, st') L. (belongs l st' \<and> rn_pending st' = None \<and> length (rn_steps st') = Suc (length (rn_steps st)))
       \<and> stepped K X l st' L) (safe_log K X l)"
    unfolding Let_def
    by (intro triple_quiet_bindt [OF _ yields_any safe] quiet_bindt quiet_envt quiet_lift_res quiet_emit triple_give)
       (use st in \<open>auto simp: belongs_steps stepped_def\<close>)
  show ?thesis unfolding model_step_def Let_def
    by (intro q quiet_admit quiet_emit quiet_bindt quiet_envt quiet_lift_res
          triple_bindt [OF called] rest [unfolded Let_def])
qed

lemma tool_scope_Ok:
  assumes "tool_scope X turn step = Ok scope"
  shows "tx_execution_key X = Some (sc_execution scope)" and "sc_step_id scope = step"
    and "sc_agent_snapshot_digest scope = tx_agent_snapshot_digest X" and "ek_turn_id (sc_execution scope) = turn"
  using assms by (auto simp: tool_scope_def Let_def res_simps split: if_splits)

lemma reconstruct_Ok:
  assumes "reconstruct T i scope = Ok c"
  shows "checkpoint_validate T c scope = Ok ()" and "ck_budget c = ri_budget i" and "ck_steps c = ri_steps i"
    and "ck_scope c = scope"
  using assms checkpoint_validate_Ok(1) by (auto simp: reconstruct_def Let_def res_simps)

lemma initial_checkpoint_held:
  assumes run: "belongs l st" and scope: "tool_scope X (rn_turn_id st) (current_step_id st) = Ok scope"
    and c: "reconstruct T (initial_reconstruction st scope entries) scope = Ok c"
  shows "held X l st c \<and> balanced c"
proof -
  note v = reconstruct_Ok [OF c]
  have b: "cb_prior_tool_calls_used (ck_budget c) = rn_tool_calls_used st" "cb_max_tool_calls (ck_budget c) = rl_max_calls l"
    using run by (simp_all add: v(2) initial_reconstruction_def belongs_def)
  moreover have "\<not> exceeds (rl_max_calls l) (rn_tool_calls_used st + length (ck_calls c))"
    using valid_budget(2) [OF v(1)] unfolding b .
  moreover note tool_scope_Ok [OF scope]
  moreover have "current_step_id st = step_id (rl_turn_id l) (length (rn_steps st) - 1)"
    using run by (simp add: current_step_id_def belongs_def)
  ultimately show ?thesis
    using valid_workable [OF v(1)] valid_accounted [OF v(1)] valid_balanced [OF v(1)] v(4) by (simp add: held_def)
qed

lemma initialize_pending_yields:
  assumes "belongs l st"
  shows "yields (initialize_pending E T X st)
    (\<lambda>st'. \<exists>c. st' = st\<lparr>rn_pending := Some c\<rparr> \<and> rn_steps st \<noteq> [] \<and> held X l st c \<and> balanced c)"
  unfolding initialize_pending_def
proof (rule yields_seqt, rule yields_lift_bind, rule yields_lift_bind, rule yields_seqt,
    split if_split, intro conjI impI yields_raise)
  fix policy scope step calls
  assume scope: "tool_scope X (rn_turn_id st) (current_step_id st) = Ok scope"
    and last: "(if rn_steps st = [] then Panic else Ok (last (rn_steps st))) = Ok step"
  then have steps: "rn_steps st \<noteq> []" by (auto split: if_splits)
  have "yields (bindt (prepare_entries E T st calls) (\<lambda>entries.
          bindt (lift_res (as_request (reconstruct T (initial_reconstruction st scope entries) scope))) (\<lambda>c.
            give (st\<lparr>rn_pending := Some c\<rparr>))))
     (\<lambda>st'. \<exists>c. st' = st\<lparr>rn_pending := Some c\<rparr> \<and> rn_steps st \<noteq> [] \<and> held X l st c \<and> balanced c)" for calls
  proof (rule yields_seqt, rule yields_lift_bind, rule yields_give)
    fix entries c
    assume "as_request (reconstruct T (initial_reconstruction st scope entries) scope) = Ok c"
    then have "reconstruct T (initial_reconstruction st scope entries) scope = Ok c" by (simp add: as_request_def res_simps)
    from initial_checkpoint_held [OF assms scope this] steps
    show "\<exists>ca. st\<lparr>rn_pending := Some c\<rparr> = st\<lparr>rn_pending := Some ca\<rparr> \<and> rn_steps st \<noteq> [] \<and> held X l st ca \<and> balanced ca"
      by blast
  qed
  then show "yields
     (case find (\<lambda>call. has_no_progress policy call
             (drop (rn_input_message_count st) (mr_messages (rn_model_request st)))) calls of
        Some call \<Rightarrow> raise (TeNoProgress (cl_name call))
      | None \<Rightarrow> bindt (prepare_entries E T st calls) (\<lambda>entries.
          bindt (lift_res (as_request (reconstruct T (initial_reconstruction st scope entries) scope))) (\<lambda>c.
            give (st\<lparr>rn_pending := Some c\<rparr>))))
     (\<lambda>st'. \<exists>c. st' = st\<lparr>rn_pending := Some c\<rparr> \<and> rn_steps st \<noteq> [] \<and> held X l st c \<and> balanced c)"
    by (auto split: option.split intro: yields_raise)
qed

lemma stepped_batch:
  assumes "stepped K X l st L" and "rn_steps st \<noteq> []"
  shows "batch_log K X l st c L"
proof -
  from assms(1) have L: "logged K X l (length (rn_steps st) - 1) (length (rn_steps st)) L"
    and n: "rl_calls_before l + length (executed L) \<le> rn_tool_calls_used st" by (simp_all add: stepped_def)
  then have "\<forall>iv \<in> set (executed L). \<exists>j < length (rn_steps st) - 1. step_of iv = step_id (rl_turn_id l) j"
    by (simp add: logged_def)
  then have "\<forall>iv \<in> set (executed L). step_of iv \<noteq> step_id (rl_turn_id l) (length (rn_steps st) - 1)"
    by (auto simp: step_id_inj)
  moreover have "logged K X l (length (rn_steps st)) (length (rn_steps st)) L"
    using L unfolding logged_def by (meson less_le_trans diff_le_self)
  ultimately show ?thesis using n
    unfolding batch_log_def pend_def within_batch_def by (intro exI [of _ "{}"]) simp
qed

lemma complete_turn_triple:
  assumes "\<And>L. P L \<Longrightarrow> safe_log K X l L"
  shows "triple P (bindt (complete_turn E st outcome why) (\<lambda>d. give (DriveEnds d)))
    (\<lambda>r L. case r of DriveEnds _ \<Rightarrow> safe_log K X l L
      | DriveContinues st' \<Rightarrow> belongs l st' \<and> run_log K X l st' L)
    (safe_log K X l)"
  by (rule triple_quiet_bindt [OF quiet_complete_turn yields_any assms], assumption, rule triple_give) (simp add: assms)

lemma held_pending [simp]: "held X l (st\<lparr>rn_pending := p\<rparr>) c = held X l st c" by (simp add: held_def)
lemma batch_log_pending [simp]: "batch_log K X l (st\<lparr>rn_pending := p\<rparr>) c = batch_log K X l st c"
  by (intro ext) (simp add: batch_log_def pend_def)

lemma drive_step_triple:
  assumes run: "belongs l st"
  shows "triple (run_log (tk_policy T) X l st) (drive_step E T X suspend st)
    (\<lambda>r L. case r of DriveEnds _ \<Rightarrow> safe_log (tk_policy T) X l L
      | DriveContinues st' \<Rightarrow> belongs l st' \<and> run_log (tk_policy T) X l st' L)
    (safe_log (tk_policy T) X l)" (is "triple ?P _ ?Q ?R")
  unfolding drive_step_def
proof (rule triple_quiet_bindt [OF quiet_check yields_any run_log_safe], assumption,
    rule triple_bindt [OF resume_pending_triple [OF run]])
  fix x :: "('a, 'b) pending_exit"
  show "triple (round_log (tk_policy T) X l st x)
     (case x of
       Waiting s \<Rightarrow> give (DriveEnds (DriveSuspended s))
     | Settled st1 \<Rightarrow>
         if tg_max_steps (rn_config st1) \<le> length (rn_steps st1)
         then bindt (complete_turn E st1 OutMaxSteps EndMaxSteps) (\<lambda>d. give (DriveEnds d))
         else
           bindt (model_step E st1) (\<lambda>(step, st2).
           if sp_outcome step \<noteq> ToolCalls
           then bindt (case outcome_from_step step of (outcome, why) \<Rightarrow> complete_turn E st2 outcome why)
                  (\<lambda>d. give (DriveEnds d))
           else bindt (initialize_pending E T X st2) (\<lambda>st3. give (DriveContinues st3)))) ?Q ?R"
  proof (cases x)
    case (Waiting s)
    show ?thesis unfolding Waiting pending_exit.case by (rule triple_give) (simp add: round_log_def)
  next
    case (Settled st1)
    show ?thesis unfolding Settled pending_exit.case round_log_def
    proof (rule triple_pure, elim conjE, split if_split, intro conjI impI complete_turn_triple idle_safe)
      assume run1: "belongs l st1" and none: "rn_pending st1 = None"
        and less: "\<not> tg_max_steps (rn_config st1) \<le> length (rn_steps st1)"
      then have less': "length (rn_steps st1) < rl_max_steps l" by (simp add: belongs_def)
      show "triple (idle (tk_policy T) X l st1) (bindt (model_step E st1) (\<lambda>(step, st2).
           if sp_outcome step \<noteq> ToolCalls
           then bindt (case outcome_from_step step of (outcome, why) \<Rightarrow> complete_turn E st2 outcome why)
                  (\<lambda>d. give (DriveEnds d))
           else bindt (initialize_pending E T X st2) (\<lambda>st3. give (DriveContinues st3)))) ?Q ?R"
      proof (rule triple_bindt [OF model_step_triple [OF run1 less' none]])
        fix y :: "('a, 'b) step_result \<times> ('a, 'b) run_state"
        obtain step st2 where Y: "y = (step, st2)" by fastforce
        show "triple (case y of (step, st') \<Rightarrow> \<lambda>L. (belongs l st' \<and> rn_pending st' = None
              \<and> length (rn_steps st') = Suc (length (rn_steps st1))) \<and> stepped (tk_policy T) X l st' L)
          (case y of (step, st2) \<Rightarrow>
             if sp_outcome step \<noteq> ToolCalls
             then bindt (case outcome_from_step step of (outcome, why) \<Rightarrow> complete_turn E st2 outcome why)
                    (\<lambda>d. give (DriveEnds d))
             else bindt (initialize_pending E T X st2) (\<lambda>st3. give (DriveContinues st3))) ?Q ?R"
          unfolding Y prod.case
        proof (rule triple_pure, elim conjE, split if_split, intro conjI impI)
          assume run2: "belongs l st2"
          obtain outcome why where o: "outcome_from_step step = (outcome, why)" by fastforce
          show "triple (stepped (tk_policy T) X l st2)
             (bindt (case outcome_from_step step of (outcome, why) \<Rightarrow> complete_turn E st2 outcome why)
                (\<lambda>d. give (DriveEnds d))) ?Q ?R"
            unfolding o prod.case by (rule complete_turn_triple) (rule stepped_safe)
          show "triple (stepped (tk_policy T) X l st2)
             (bindt (initialize_pending E T X st2) (\<lambda>st3. give (DriveContinues st3))) ?Q ?R"
            by (rule triple_quiet_bindt [OF quiet_initialize_pending initialize_pending_yields [OF run2] stepped_safe],
                  assumption, rule triple_give)
               (use run2 stepped_batch in \<open>auto simp: run_log_def belongs_def\<close>)
        qed
      qed
    qed
  qed
qed

lemma drive_loop_triple:
  assumes "belongs l st"
  shows "triple (run_log (tk_policy T) X l st) (drive_loop E T X suspend fuel st)
    (\<lambda>_. safe_log (tk_policy T) X l) (safe_log (tk_policy T) X l)"
  using assms
proof (induction fuel arbitrary: st)
  case 0
  show ?case unfolding drive_loop.simps by (rule triple_lift_res) (use run_log_safe in auto)
next
  case (Suc fuel)
  show ?case unfolding drive_loop.simps
  proof (rule triple_bindt [OF drive_step_triple [OF Suc.prems]])
    fix r :: "('a, 'b) drive_round"
    show "triple (\<lambda>L. case r of DriveEnds _ \<Rightarrow> safe_log (tk_policy T) X l L
      | DriveContinues st' \<Rightarrow> belongs l st' \<and> run_log (tk_policy T) X l st' L)
      (case r of DriveEnds d \<Rightarrow> give d | DriveContinues st' \<Rightarrow> drive_loop E T X suspend fuel st')
      (\<lambda>_. safe_log (tk_policy T) X l) (safe_log (tk_policy T) X l)"
    proof (cases r)
      case (DriveEnds d)
      then show ?thesis by (simp add: triple_give)
    next
      case (DriveContinues st')
      show ?thesis unfolding DriveContinues drive_round.case by (rule triple_pure) (rule Suc.IH)
    qed
  qed
qed

lemma run_turn_safe:
  assumes run: "belongs l st" and w: "run_log (tk_policy T) X l st (wd_effects w)"
  shows "safe_log (tk_policy T) X l (wd_effects (snd (run_turn E T X suspend st w)))"
proof -
  let ?st = "st\<lparr>rn_resume_boundary := None\<rparr>"
  have run': "belongs l ?st" using run by (simp add: belongs_def)
  have log: "run_log (tk_policy T) X l ?st = run_log (tk_policy T) X l st"
    by (intro ext) (simp add: run_log_def idle_def held_def batch_log_def pend_def split: option.split)
  have loop: "triple (run_log (tk_policy T) X l st) (drive_loop E T X suspend (drive_fuel st) ?st)
    (\<lambda>_. safe_log (tk_policy T) X l) (safe_log (tk_policy T) X l)"
    unfolding log [symmetric] by (rule drive_loop_triple [OF run'])
  have drive: "triple (run_log (tk_policy T) X l st) (drive E T X suspend st)
    (\<lambda>_. safe_log (tk_policy T) X l) (safe_log (tk_policy T) X l)"
    unfolding drive_def
    by (rule triple_quiet_bindt [OF _ yields_any run_log_safe], intro quiet_rules, assumption, rule loop)
  have rest: "quiet (case r of
         Ok (DriveSuspended s) \<Rightarrow> give (TurnSuspended s)
       | Ok (DriveCompleted t) \<Rightarrow>
           bindt emitted (\<lambda>events. give (TurnCompleted \<lparr>tn_result = t, tn_events = events\<rparr>))
       | Err e \<Rightarrow> fail_run E st e
       | Panic \<Rightarrow> lift_res Panic)" for r
    unfolding fail_run_def by (cases r) (auto split: drive_exit.split turn_error.split tool_error.split intro!: quiet_rules)
  have "triple (run_log (tk_policy T) X l st) (run_turn E T X suspend st)
    (\<lambda>_. safe_log (tk_policy T) X l) (safe_log (tk_policy T) X l)"
    unfolding run_turn_def
  proof (rule triple_quiet_bindt [OF quiet_new_events yields_any run_log_safe], assumption,
      rule triple_quiet_bindt [OF _ yields_any run_log_safe], intro quiet_rules, assumption,
      rule triple_bindt [OF triple_tryt [OF drive]], rule triple_weaken [OF triple_quiet_keeps [OF rest]])
  qed (auto split: res.splits)
  from triple_always [OF this w] show ?thesis .
qed

section \<open>The entry points\<close>

lemma safe_log_empty: "safe_log K X l []"
  unfolding safe_log_def by (auto intro: exI [of _ 0])

lemma safe_log_deadline:
  assumes "safe_log K X (l\<lparr>rl_deadline := a\<rparr>) L"
    and "\<And>limit. b = Some limit \<Longrightarrow> \<exists>limit'. a = Some limit' \<and> limit' \<le> limit"
  shows "safe_log K X (l\<lparr>rl_deadline := b\<rparr>) L"
proof -
  have "authorized K X b iv" if "authorized K X a iv" for iv
    using that assms(2) unfolding authorized_def by (cases b) (auto split: option.splits)
  with assms(1) show ?thesis unfolding safe_log_def by simp
qed

definition fresh_world :: "'e \<Rightarrow> ('e, 'j, 'r) world" where
  "fresh_world e = \<lparr>wd_env = e, wd_events = [], wd_effects = []\<rparr>"

lemma start_run_safe:
  assumes "state_with_deadline q dispatch timeout d = Ok st" and "wd_effects w = []"
  shows "safe_log (tk_policy T) X \<lparr>rl_turn_id = tq_turn_id q, rl_steps_before = 0,
      rl_max_steps = tg_max_steps (tq_config q), rl_calls_before = 0,
      rl_max_calls = tg_max_tool_calls (tq_config q), rl_deadline = dl_instant d\<rparr>
    (wd_effects (snd (run_turn E T X suspend st w)))" (is "safe_log _ _ ?l _")
proof (rule run_turn_safe)
  from assms(1) have st: "rn_turn_id st = tq_turn_id q" "rn_config st = tq_config q" "rn_deadline st = dl_instant d"
    "rn_steps st = []" "rn_pending st = None" "rn_tool_calls_used st = 0"
    unfolding state_with_deadline_def res_simps res.inject by auto
  then show "belongs ?l st" by (simp add: belongs_def)
  show "run_log (tk_policy T) X ?l st (wd_effects w)"
    using st assms(2) by (simp add: run_log_def idle_def logged_def exceeds_def split: option.split)
qed

lemma resume_run_safe:
  assumes scope: "validate_resume_scope X scope = Ok ()" and st: "state_of_checkpoint T c scope d = Ok st"
    and w: "wd_effects w = []"
  shows "safe_log (tk_policy T) X \<lparr>rl_turn_id = ek_turn_id (sc_execution scope), rl_steps_before = length (ck_steps c),
      rl_max_steps = cb_max_steps (ck_budget c), rl_calls_before = cb_prior_tool_calls_used (ck_budget c),
      rl_max_calls = cb_max_tool_calls (ck_budget c), rl_deadline = dl_instant d\<rparr>
    (wd_effects (snd (run_turn E T X suspend st w)))" (is "safe_log _ _ ?l _")
proof (rule run_turn_safe)
  from st have valid: "checkpoint_validate T c scope = Ok ()"
    by (auto simp: state_of_checkpoint_def as_request_def res_simps)
  from st have f: "rn_turn_id st = ek_turn_id (sc_execution scope)" "rn_steps st = ck_steps c"
    "tg_max_steps (rn_config st) = cb_max_steps (ck_budget c)"
    "tg_max_tool_calls (rn_config st) = cb_max_tool_calls (ck_budget c)"
    "rn_deadline st = dl_instant d" "rn_tool_calls_used st = cb_prior_tool_calls_used (ck_budget c)" "rn_pending st = Some c"
    unfolding state_of_checkpoint_def res_simps res.inject by auto
  show run: "belongs ?l st" using f by (simp add: belongs_def)
  have cs: "ck_scope c = scope" by (rule checkpoint_validate_Ok(1) [OF valid])
  from checkpoint_validate_Ok(3) [OF valid] have b: "ck_steps c \<noteq> []" "length (ck_steps c) \<le> cb_max_steps (ck_budget c)"
    by (auto simp: check_boundary_def split: if_splits)
  from checkpoint_validate_Ok(4) [OF valid]
  have steps: "sp_step_id (last (ck_steps c)) = sc_step_id scope"
    "\<forall>i < length (ck_steps c). sp_step_id (ck_steps c ! i) = step_id (ek_turn_id (sc_execution scope)) i"
    by (auto simp: check_steps_def cs split: if_splits)
  with b(1) have sid: "sc_step_id scope = step_id (ek_turn_id (sc_execution scope)) (length (ck_steps c) - 1)"
    by (metis diff_less last_conv_nth length_greater_0_conv zero_less_one)
  from scope obtain s where "tool_scope X (ek_turn_id (sc_execution scope)) (sc_step_id scope) = Ok s" and "s = scope"
    by (auto simp: validate_resume_scope_def res_simps)
  then have ts: "tool_scope X (ek_turn_id (sc_execution scope)) (sc_step_id scope) = Ok scope" by simp
  have "\<not> exceeds (cb_max_tool_calls (ck_budget c)) (rn_tool_calls_used st + length (ck_calls c))"
    using valid_budget(2) [OF valid] f(6) by simp
  then have held: "held X ?l st c"
    using f sid tool_scope_Ok [OF ts] valid_workable [OF valid] valid_accounted [OF valid]
    by (simp add: held_def cs)
  have "batch_log (tk_policy T) X ?l st c []"
    using f b unfolding batch_log_def pend_def within_batch_def logged_def
    by (intro exI [of _ "{}"]) simp
  then show "run_log (tk_policy T) X ?l st (wd_effects w)"
    using held valid_balanced [OF valid] f b w by (simp add: run_log_def)
qed

lemma start_with_deadline_safe:
  "safe_log (tk_policy T) X \<lparr>rl_turn_id = tq_turn_id q, rl_steps_before = 0,
      rl_max_steps = tg_max_steps (tq_config q), rl_calls_before = 0,
      rl_max_calls = tg_max_tool_calls (tq_config q), rl_deadline = dl_instant d\<rparr>
     (wd_effects (snd (start_with_deadline E T add reading X q d (fresh_world e))))"
  (is "safe_log _ _ (?l) _")
proof -
  let ?r = "andthen (map_err TeDeadline (validate_duration d (tg_deadline (tq_config q))))
       (bindr (map_err TeDeadline (tighten_absolute add reading d (tx_absolute_deadline X))) (\<lambda>d'.
          state_with_deadline q (tx_dispatch X) (tx_tool_timeout X) d'))"
  have e: "wd_effects (fresh_world e) = []" by (simp add: fresh_world_def)
  show ?thesis
  proof (cases ?r)
    case (Ok st)
    then obtain d' where d': "tighten_absolute add reading d (tx_absolute_deadline X) = Ok d'"
      and st: "state_with_deadline q (tx_dispatch X) (tx_tool_timeout X) d' = Ok st"
      unfolding res_simps by blast
    from d' have tight: "dl_instant d = Some limit \<Longrightarrow> \<exists>limit'. dl_instant d' = Some limit' \<and> limit' \<le> limit" for limit
      by (auto simp: tighten_absolute_def res_simps min_option_def split: option.splits)
    from start_run_safe [OF st e]
    have "safe_log (tk_policy T) X (?l\<lparr>rl_deadline := dl_instant d'\<rparr>) (wd_effects (snd (run_turn E T X True st (fresh_world e))))"
      by simp
    from safe_log_deadline [OF this tight] Ok show ?thesis
      unfolding start_with_deadline_def lift_bindt_effects Ok res.case by simp
  qed (simp_all add: start_with_deadline_def lift_bindt_effects safe_log_empty e)
qed

lemma execute_turn_safe:
  "safe_log (tk_policy T) X \<lparr>rl_turn_id = tq_turn_id q, rl_steps_before = 0,
      rl_max_steps = tg_max_steps (tq_config q), rl_calls_before = 0,
      rl_max_calls = tg_max_tool_calls (tq_config q), rl_deadline = None\<rparr>
     (wd_effects (snd (execute_turn E T add reading X q (fresh_world e))))"
  (is "safe_log _ _ (?l) _")
proof -
  let ?r = "bindr (map_err TeDeadline
                 (capture_deadline add reading (tg_deadline (tq_config q)) (tx_absolute_deadline X))) (\<lambda>d.
          state_with_deadline q (tx_dispatch X) (tx_tool_timeout X) d)"
  have e: "wd_effects (fresh_world e) = []" by (simp add: fresh_world_def)
  have tail: "quiet (case r of TurnCompleted execution \<Rightarrow> give execution
     | TurnSuspended _ \<Rightarrow> raise (TeInvalidRequest ''external waits require the resumable Turn API''))" for r
    by (cases r) (simp_all add: quiet_rules)
  have after: "wd_effects (snd (bindt m (\<lambda>r. case r of TurnCompleted execution \<Rightarrow> give execution
     | TurnSuspended _ \<Rightarrow> raise (TeInvalidRequest ''external waits require the resumable Turn API'')) w))
     = wd_effects (snd (m w))" for m w
    using tail by (auto simp: bindt_def quiet_def split: prod.split res.split)
  show ?thesis
  proof (cases ?r)
    case (Ok st)
    then obtain d where st: "state_with_deadline q (tx_dispatch X) (tx_tool_timeout X) d = Ok st"
      unfolding res_simps by blast
    from start_run_safe [OF st e]
    have "safe_log (tk_policy T) X (?l\<lparr>rl_deadline := dl_instant d\<rparr>) (wd_effects (snd (run_turn E T X False st (fresh_world e))))"
      by simp
    from safe_log_deadline [OF this, of None] show ?thesis
      unfolding execute_turn_def lift_bindt_effects Ok res.case after by simp
  qed (simp_all add: execute_turn_def lift_bindt_effects safe_log_empty e)
qed

lemma resume_checkpoint_safe:
  "safe_log (tk_policy T) X \<lparr>rl_turn_id = ek_turn_id (sc_execution scope), rl_steps_before = length (ck_steps c),
      rl_max_steps = cb_max_steps (ck_budget c), rl_calls_before = cb_prior_tool_calls_used (ck_budget c),
      rl_max_calls = cb_max_tool_calls (ck_budget c), rl_deadline = dl_instant d\<rparr>
     (wd_effects (snd (resume_checkpoint E T X c scope d (fresh_world e))))"
proof -
  have e: "wd_effects (fresh_world e) = []" by (simp add: fresh_world_def)
  show ?thesis
  proof (cases "validate_resume_scope X scope = Ok () \<and> (\<exists>st. state_of_checkpoint T c scope d = Ok st)")
    case True
    then obtain st where scope: "validate_resume_scope X scope = Ok ()" and st: "state_of_checkpoint T c scope d = Ok st" by blast
    from resume_run_safe [OF scope st e] show ?thesis
      unfolding resume_checkpoint_def lift_bindt_effects scope res.case
      by (simp add: lift_bindt_effects st safe_log_empty e)
  next
    case False
    have "wd_effects (snd (resume_checkpoint E T X c scope d (fresh_world e))) = []"
      using False unfolding resume_checkpoint_def lift_bindt_effects
      by (auto simp: lift_bindt_effects e split: res.split)
    then show ?thesis by (simp add: safe_log_empty)
  qed
qed


end
