(* ===== verification/Turn_Returns.thy ===== *)
theory Turn_Returns
  imports Turn_Safety
begin

text \<open>
  A turn always returns: no index, \<open>expect\<close> or \<open>unreachable!\<close> of the engine panics and no loop runs
  out of fuel, whatever the environment answers, as long as the environment itself does not panic.
\<close>

section \<open>The pure parts\<close>

named_theorems no_panic

lemma canonical_loop_returns: "canonical_loop J limit out ts \<noteq> Panic"
  by (induction J limit out ts rule: canonical_loop.induct)
     (auto simp: res_simps write_all_def split: json_view.split)

lemma canonical_bytes_returns [no_panic]: "canonical_bytes J v limit \<noteq> Panic"
  unfolding canonical_bytes_def by (rule canonical_loop_returns)

lemma compute_digest_returns [no_panic]: "compute_digest K p \<noteq> Panic"
  by (simp add: compute_digest_def res_simps no_panic)

lemma prepared_validate_returns [no_panic]: "prepared_validate K p \<noteq> Panic"
  by (auto simp: prepared_validate_def validate_fields_def res_simps no_panic)

lemma scope_validate_returns [no_panic]: "scope_validate s \<noteq> Panic"
  by (simp add: scope_validate_def split: option.split)

lemma grant_validate_returns [no_panic]: "grant_validate K g p r s \<noteq> Panic"
  by (auto simp: grant_validate_def res_simps no_panic)

lemma issue_grant_returns [no_panic]: "issue_grant K p d a s \<noteq> Panic"
  by (auto simp: issue_grant_def evidence_id_of_def Let_def res_simps no_panic split: approval_evidence.split)

lemma prepared_decisions_returns: "prepared_decisions K e cx seen ps \<noteq> Panic"
  by (induction ps arbitrary: seen) (auto simp: res_simps no_panic)

lemma resolve_returns [no_panic]: "resolve_prepared_batch K e cx ps \<noteq> Panic"
  by (simp add: resolve_prepared_batch_def res_simps prepared_decisions_returns)

lemma check_identifier_returns [no_panic]: "check_identifier v \<noteq> Panic" by (simp add: check_identifier_def)

lemma wait_validate_returns [no_panic]: "wait_validate T w \<noteq> Panic"
  by (auto simp: wait_validate_def res_simps no_panic)

lemma authority_validate_returns [no_panic]: "authority_validate T a s \<noteq> Panic"
  by (auto simp: authority_validate_def invalid_prepared_def res_simps no_panic)

lemma validate_result_returns [no_panic]: "validate_result T a r \<noteq> Panic"
  by (auto simp: validate_result_def res_simps)

lemma check_call_ids_returns: "check_call_ids seen cs \<noteq> Panic" by (induction cs arbitrary: seen) auto

lemma batch_of_calls_returns [no_panic]: "batch_of_calls cs \<noteq> Panic"
  by (simp add: batch_of_calls_def res_simps check_call_ids_returns)

lemma check_results_returns: "check_results calls seen ds \<noteq> Panic"
  by (induction ds arbitrary: seen) (auto split: option.split res.split)

lemma validate_results_returns [no_panic]: "validate_results calls ds \<noteq> Panic"
  by (simp add: validate_results_def check_results_returns)

lemma encoded_limit_returns: "encoded_limit n sizes fails \<noteq> Panic"
  by (induction sizes arbitrary: n) auto

lemma check_calls_returns: "check_calls T s ids waits items \<noteq> Panic"
proof (induction items arbitrary: ids waits)
  case (Cons item items)
  have "check_call_prepared T item \<noteq> Panic"
    by (auto simp: check_call_prepared_def invalid_prepared_def res_simps no_panic split: option.split)
  moreover have "check_call_state T s waits item \<noteq> Panic"
    by (auto simp: check_call_state_def validate_authority_def res_simps no_panic split: call_state.split option.split)
  ultimately show ?case using Cons by (auto simp: res_simps)
qed simp

lemma find_call_exists: "i \<in> cl_id ` cc_call ` set items \<Longrightarrow> find_call i items \<noteq> None"
  by (auto simp: find_call_def find_None_iff)

lemma check_stage_returns:
  "set stage \<subseteq> cl_id ` cc_call ` set items \<Longrightarrow> check_stage items cursor index stage \<noteq> Panic"
proof (induction stage)
  case (Cons i stage)
  then have "find_call i items \<noteq> None" by (intro find_call_exists) simp
  with Cons show ?case by (auto simp: res_simps)
qed simp

lemma check_stages_returns:
  "set (concat stages) \<subseteq> cl_id ` cc_call ` set items \<Longrightarrow> check_stages items cursor index stages \<noteq> Panic"
  by (induction stages arbitrary: index) (auto simp: res_simps check_stage_returns)

lemma check_partition_returns [no_panic]: "check_partition c \<noteq> Panic"
  using check_stages_returns [of "ck_stages c" "ck_calls c"] by (auto simp: check_partition_def)

lemma check_pairing_returns: "check_pairing ms b n calls \<noteq> Panic"
  by (induction calls arbitrary: b n) (auto simp: res_simps)

lemma check_history_returns: "check_history ms b n steps \<noteq> Panic"
  by (induction steps arbitrary: b n) (auto simp: res_simps no_panic check_pairing_returns split: prod.split)

lemma check_budget_returns [no_panic]: "check_budget c \<noteq> Panic"
  by (auto simp: check_budget_def res_simps check_history_returns)

lemma check_approvals_returns: "check_approvals T c ids calls as \<noteq> Panic"
  by (induction "as" arbitrary: ids calls)
     (auto simp: res_simps no_panic invalid_prepared_def split: option.split)

lemma checkpoint_validate_returns [no_panic]: "checkpoint_validate T c s \<noteq> Panic"
  by (auto simp: checkpoint_validate_def check_boundary_def check_steps_def invalid_prepared_def res_simps no_panic
        encoded_limit_returns check_calls_returns check_approvals_returns split: prod.split)

lemma as_request_returns [no_panic]: "r \<noteq> Panic \<Longrightarrow> as_request r \<noteq> Panic" by (simp add: as_request_def res_simps)

lemma suspension_returns [no_panic]:
  "suspension_summary_of T c s \<noteq> Panic" "suspension_from_checkpoint T c s \<noteq> Panic" "suspension_validate T u s \<noteq> Panic"
  by (auto simp: suspension_summary_of_def suspension_from_checkpoint_def suspension_validate_def res_simps no_panic)

lemma merge_resolutions_returns: "merge_resolutions T seen items rs \<noteq> Panic"
  by (induction rs arbitrary: seen items) (auto simp: res_simps no_panic split: call_state.split)

lemma merge_returns [no_panic]: "merge_external T c rs s \<noteq> Panic" "merge_approval T c a s now \<noteq> Panic"
  by (auto simp: merge_external_def merge_approval_def Let_def res_simps no_panic merge_resolutions_returns)

lemma tool_scope_returns [no_panic]: "tool_scope X t s \<noteq> Panic" "validate_resume_scope X u \<noteq> Panic"
  by (auto simp: tool_scope_def validate_resume_scope_def Let_def res_simps no_panic)

lemma deadline_returns [no_panic]:
  "tighten_absolute add reading d ceiling \<noteq> Panic" "capture_deadline add reading duration ceiling \<noteq> Panic"
  "validate_duration d duration \<noteq> Panic"
  by (auto simp: tighten_absolute_def capture_deadline_def sample_of_reading_def from_sample_def map_external_def map_unix_def
        relative_unix_def conservative_unix_def traverse_def validate_duration_def Let_def res_simps
      split: option.split prod.split if_splits)

lemma state_returns [no_panic]:
  "state_with_deadline q dispatch timeout d \<noteq> Panic" "state_of_checkpoint T c s d \<noteq> Panic"
  by (auto simp: state_with_deadline_def state_of_checkpoint_def validate_request_def res_simps no_panic)

section \<open>Computations that return\<close>

named_theorems returns_rules

definition returns :: "('e, 'j, 'r, 'a) turn \<Rightarrow> bool" where
  "returns m \<longleftrightarrow> (\<forall>w. fst (m w) \<noteq> Panic)"

lemma returnsI: "(\<And>w w'. m w = (Panic, w') \<Longrightarrow> False) \<Longrightarrow> returns m"
  unfolding returns_def by (metis prod.collapse)

lemma returnsD: "returns m \<Longrightarrow> m w \<noteq> (Panic, w')" by (auto simp: returns_def dest: spec [of _ w])

lemma returns_give [returns_rules]: "returns (give x)" by (simp add: returns_def give_def)
lemma returns_lift_res: "r \<noteq> Panic \<Longrightarrow> returns (lift_res r)" by (simp add: returns_def lift_res_def)
lemma returns_raise [returns_rules]: "returns (raise e)" by (simp add: returns_lift_res)
lemma returns_envt [returns_rules]: "returns (envt f)" by (simp add: returns_def envt_def split: prod.split)
lemma returns_effectt [returns_rules]: "returns (effectt x)" by (simp add: returns_def effectt_def)

lemma returns_bindt:
  assumes "returns m" and "yields m P" and "\<And>x. P x \<Longrightarrow> returns (f x)"
  shows "returns (bindt m f)"
proof (rule returnsI)
  fix w w' assume b: "bindt m f w = (Panic, w')"
  obtain r w1 where m: "m w = (r, w1)" by fastforce
  with returnsD [OF assms(1)] have "r \<noteq> Panic" by auto
  with b m obtain x where x: "r = Ok x" and fx: "f x w1 = (Panic, w')"
    by (cases r) (auto simp: bindt_def)
  from m x have "P x" using yieldsD [OF assms(2)] by blast
  with returnsD [OF assms(3)] fx show False by blast
qed

lemma returns_seqt [returns_rules]: "returns m \<Longrightarrow> (\<And>x. returns (f x)) \<Longrightarrow> returns (bindt m f)"
  by (rule returns_bindt [OF _ yields_any])

lemma returns_lift_bindt: "r \<noteq> Panic \<Longrightarrow> (\<And>x. r = Ok x \<Longrightarrow> returns (f x)) \<Longrightarrow> returns (bindt (lift_res r) f)"
  by (rule returns_bindt [OF returns_lift_res yields_lift_res]) auto

lemma returns_tryt [returns_rules]: "returns m \<Longrightarrow> returns (tryt m)"
  by (auto simp: returns_def tryt_def split: prod.splits res.splits) (metis fst_conv)

lemma yields_tryt_not_panic: "yields (tryt m) (\<lambda>r. r \<noteq> Panic)"
  by (auto simp: yields_def tryt_def split: prod.splits res.splits)

lemma returns_if [returns_rules]: "returns a \<Longrightarrow> returns b \<Longrightarrow> returns (if c then a else b)" by simp

text \<open>The environment does not panic.\<close>

definition env_answers :: "('e, 'j, 'r) turn_env \<Rightarrow> bool" where
  "env_answers E \<longleftrightarrow>
     (\<forall>t k d e. fst (te_gate E t k d e) \<noteq> Panic) \<and> (\<forall>i q d e. fst (te_model E i q d e) \<noteq> Panic)
     \<and> (\<forall>call d e. fst (te_prepare E call d e) \<noteq> Panic) \<and> (\<forall>iv e. fst (te_execute E iv e) \<noteq> Panic)
     \<and> (\<forall>n d e. fst (te_await_approval E n d e) \<noteq> Panic) \<and> (\<forall>ev e. fst (te_record E ev e) \<noteq> Panic)
     \<and> (\<forall>q e. fst (te_record_request E q e) \<noteq> Panic) \<and> (\<forall>c e. fst (te_record_checkpoint E c e) \<noteq> Panic)"

lemma returns_runt: "(\<And>e. fst (f e) \<noteq> Panic) \<Longrightarrow> returns (runt f)"
  by (auto simp: returns_def bindt_def envt_def lift_res_def split: prod.split) (metis fst_conv)

lemma returns_emit: "env_answers E \<Longrightarrow> returns (emit E ev)"
  unfolding emit_def
  by (intro returns_seqt returns_runt) (simp_all add: env_answers_def returns_def)

lemma returns_check [returns_rules]: "returns (check E st)"
  unfolding check_def by (intro returns_seqt returns_envt returns_if returns_raise) (simp add: returns_rules split: option.split)

lemma returns_admit: "env_answers E \<Longrightarrow> returns (admit_boundary E st k)"
  unfolding admit_boundary_def by (intro returns_seqt returns_check returns_runt) (simp add: env_answers_def)

lemma returns_tool_deadline [returns_rules]: "returns (tool_deadline E st)"
  unfolding tool_deadline_def by (simp add: returns_rules split: option.split)

lemma returns_execution_window [returns_rules]: "returns (execution_window E st t)"
  unfolding execution_window_def by (intro returns_rules)

lemma checked_preparation_returns: "r \<noteq> Panic \<Longrightarrow> checked_preparation T call r \<noteq> Panic"
  by (auto simp: checked_preparation_def res_simps no_panic)

lemma returns_prepare_ready [returns_rules]: "returns (prepare_ready E T st call)"
proof -
  have "returns (bindt (tool_deadline E st) (\<lambda>deadline.
         bindt (envt (te_prepare E call deadline)) (\<lambda>r. give (checked_preparation T call r))))" by (intro returns_rules)
  then show ?thesis unfolding prepare_ready_def
    by (intro returns_seqt returns_tryt returns_check) (simp add: returns_rules split: res.split)
qed

lemma yields_envt: "(\<And>e. Q (fst (f e))) \<Longrightarrow> yields (envt f) Q"
  by (auto simp: yields_def envt_def split: prod.splits) (metis fst_conv)

lemma prepare_ready_answers:
  assumes "env_answers E"
  shows "yields (prepare_ready E T st call) (\<lambda>r. r \<noteq> Panic)"
proof -
  have "yields (bindt (tool_deadline E st) (\<lambda>deadline.
         bindt (envt (te_prepare E call deadline)) (\<lambda>r. give (checked_preparation T call r)))) (\<lambda>r. r \<noteq> Panic)"
    by (intro yields_seqt yields_bindt [OF yields_envt [where Q = "\<lambda>r. r \<noteq> Panic"]] yields_give checked_preparation_returns)
       (use assms in \<open>auto simp: env_answers_def\<close>)
  then show ?thesis unfolding prepare_ready_def
    by (intro yields_seqt) (simp split: res.split add: yields_give)
qed

lemma returns_prepare_failure: "env_answers E \<Longrightarrow> returns (prepare_failure E st call e)"
  unfolding prepare_failure_def by (intro returns_seqt returns_emit returns_if returns_raise returns_give)

lemma returns_prepare_entries:
  assumes "env_answers E"
  shows "returns (prepare_entries E T st calls)"
proof (induction calls)
  case (Cons call calls)
  show ?case unfolding prepare_entries.simps
  proof (rule returns_bindt [OF returns_prepare_ready prepare_ready_answers [OF assms]])
    fix r :: "(tool_error, 'b prepared_call) res" assume r: "r \<noteq> Panic"
    show "returns (bindt (case r of
              Ok p \<Rightarrow> give (ready_entry call p)
            | Err e \<Rightarrow> bindt (prepare_failure E st call e) (\<lambda>fb. give (failed_entry call fb))
            | Panic \<Rightarrow> lift_res Panic) (\<lambda>entry.
     bindt (prepare_entries E T st calls) (\<lambda>entries. give (entry # entries))))"
      using r by (intro returns_seqt returns_give Cons.IH)
        (cases r; simp add: returns_rules returns_prepare_failure assms)
  qed
qed (simp add: returns_give)

section \<open>A refresh returns\<close>

text \<open>What a checkpoint needs so that the engine works on it without a panic.\<close>

definition ready_prepared :: "('j, 'r) turn_checkpoint \<Rightarrow> bool" where
  "ready_prepared c \<longleftrightarrow> (\<forall>item \<in> set (ck_calls c). is_ready item \<longrightarrow> cc_prepared item \<noteq> None)"

definition sturdy :: "('j, 'r) turn_checkpoint \<Rightarrow> bool" where
  "sturdy c \<longleftrightarrow> workable c \<and> ready_prepared c \<and> ck_steps c \<noteq> []"

lemma valid_sturdy:
  assumes "checkpoint_validate T c s = Ok ()"
  shows "sturdy c"
proof -
  have "ck_steps c \<noteq> []" using checkpoint_validate_Ok(3) [OF assms] by (auto simp: check_boundary_def split: if_splits)
  moreover have "ready_prepared c" unfolding ready_prepared_def using valid_item(2) [OF assms] by blast
  ultimately show ?thesis using valid_workable [OF assms] by (simp add: sturdy_def)
qed

lemma drop_approvals_steps [simp]: "ck_steps (drop_approvals i c) = ck_steps c" by (simp add: drop_approvals_def)
lemma recount_steps [simp]: "ck_steps (recount c) = ck_steps c" by (simp add: recount_def)
lemma ready_prepared_drop [simp]: "ready_prepared (drop_approvals i c) = ready_prepared c" by (simp add: ready_prepared_def)
lemma ready_prepared_recount [simp]: "ready_prepared (recount c) = ready_prepared c" by (simp add: ready_prepared_def)

lemma ready_prepared_update:
  assumes "distinct (call_ids c)" and "ready_prepared c"
    and "\<And>x. is_ready (f x) \<Longrightarrow> (is_ready x \<longrightarrow> cc_prepared x \<noteq> None) \<Longrightarrow> cc_prepared (f x) \<noteq> None"
  shows "ready_prepared (update_call i f c)"
  using assms(2,3) unfolding ready_prepared_def by (auto simp: update_call_calls [OF assms(1)])

lemma find_call_id: "i \<in> set (call_ids c) \<Longrightarrow> find_call i (ck_calls c) \<noteq> None"
  by (rule find_call_exists) (simp add: call_ids_def image_image)

lemma update_call_ids:
  assumes "distinct (call_ids c)" and "\<And>x. cc_call (f x) = cc_call x"
  shows "call_ids (update_call i f c) = call_ids c"
  using assms by (simp add: call_ids_def update_call_calls)

lemma refresh_preparations_keeps:
  assumes "distinct (call_ids c)" and "ready_prepared c"
  shows "yields (refresh_preparations E T st c calls) (\<lambda>c'. ready_prepared c' \<and> ck_steps c' = ck_steps c)"
  using assms
proof (induction calls arbitrary: c)
  case (Cons call calls)
  have go: "yields (refresh_preparations E T st d calls) (\<lambda>c'. ready_prepared c' \<and> ck_steps c' = ck_steps c)"
    if "call_ids d = call_ids c" and "ready_prepared d" and "ck_steps d = ck_steps c" for d
    using Cons.IH [of d] that Cons.prems by simp
  have completed: "yields (refresh_preparations E T st (drop_approvals (cl_id call)
       (update_call (cl_id call) (\<lambda>item. complete_unissued fb (item\<lparr>cc_prepared := None\<rparr>)) c)) calls)
      (\<lambda>c'. ready_prepared c' \<and> ck_steps c' = ck_steps c)" for fb
  proof (rule go)
    show "ready_prepared (drop_approvals (cl_id call)
       (update_call (cl_id call) (\<lambda>item. complete_unissued fb (item\<lparr>cc_prepared := None\<rparr>)) c))"
      unfolding ready_prepared_drop by (rule ready_prepared_update [OF Cons.prems]) simp
  qed (use Cons.prems in \<open>simp_all add: update_call_ids\<close>)
  have prepared: "yields (refresh_preparations E T st
       (update_call (cl_id call) (\<lambda>item. item\<lparr>cc_prepared := Some p\<rparr>) c) calls)
      (\<lambda>c'. ready_prepared c' \<and> ck_steps c' = ck_steps c)" for p
    using Cons.prems by (intro go) (simp_all add: update_call_ids ready_prepared_update)
  show ?case unfolding refresh_preparations.simps
    by (rule yields_seqt) (auto split: res.split intro!: yields_panic yields_raise yields_seqt completed prepared)
qed (simp add: yields_give)

lemma refresh_preparations_returns:
  assumes env: "env_answers E" and "distinct (call_ids c)" and "cl_id ` set calls \<subseteq> set (call_ids c)"
  shows "returns (refresh_preparations E T st c calls)"
  using assms(2,3)
proof (induction calls arbitrary: c)
  case (Cons call calls)
  have found: "unwrap (find_call (cl_id call) (ck_calls c)) \<noteq> Panic"
    using find_call_id [of "cl_id call" c] Cons.prems by (simp add: res_simps)
  have go: "returns (refresh_preparations E T st d calls)" if "call_ids d = call_ids c" for d
    using Cons.IH [of d] that Cons.prems by simp
  have completed: "returns (refresh_preparations E T st (drop_approvals (cl_id call)
       (update_call (cl_id call) (\<lambda>item. complete_unissued fb (item\<lparr>cc_prepared := None\<rparr>)) c)) calls)" for fb
    using Cons.prems by (intro go) (simp add: update_call_ids)
  have prepared: "returns (refresh_preparations E T st
       (update_call (cl_id call) (\<lambda>item. item\<lparr>cc_prepared := Some p\<rparr>) c) calls)" for p
    using Cons.prems by (intro go) (simp add: update_call_ids)
  show ?case unfolding refresh_preparations.simps
    by (rule returns_bindt [OF returns_prepare_ready prepare_ready_answers [OF env]])
       (auto split: res.split intro!: returns_raise returns_seqt [OF returns_prepare_failure [OF env]]
          returns_seqt [OF returns_lift_res [OF found]] completed prepared)
qed (simp add: returns_give)

lemma all_prepared_returns: "ready_prepared c \<Longrightarrow> all_prepared (ck_calls c) \<noteq> Panic"
proof -
  have "(\<forall>item \<in> set items. is_ready item \<longrightarrow> cc_prepared item \<noteq> None) \<Longrightarrow> all_prepared items \<noteq> Panic"
    for items :: "'a checkpoint_call list"
    by (induction items) (auto simp: res_simps)
  then show "ready_prepared c \<Longrightarrow> ?thesis" by (simp add: ready_prepared_def)
qed

text \<open>The preparations of the calls stay while decisions are applied.\<close>

definition same_prepared :: "('j, 'r) turn_checkpoint \<Rightarrow> ('j, 'r) turn_checkpoint \<Rightarrow> bool" where
  "same_prepared c c' \<longleftrightarrow>
     map cc_call (ck_calls c') = map cc_call (ck_calls c) \<and> map cc_prepared (ck_calls c') = map cc_prepared (ck_calls c)
     \<and> ck_steps c' = ck_steps c"

lemma same_prepared_refl [simp]: "same_prepared c c" by (simp add: same_prepared_def)
lemma same_prepared_trans: "same_prepared a b \<Longrightarrow> same_prepared b c \<Longrightarrow> same_prepared a c"
  by (simp add: same_prepared_def)
lemma same_prepared_ids: "same_prepared c c' \<Longrightarrow> call_ids c' = call_ids c"
  unfolding same_prepared_def call_ids_def by (metis map_map)

lemma same_prepared_complete:
  assumes "distinct (call_ids c)"
  shows "same_prepared c (drop_approvals j (update_call i (complete_unissued r) c))"
  using assms by (simp add: same_prepared_def update_call_calls)

definition has_approval :: "('j, 'r) turn_checkpoint \<Rightarrow> batch_decision \<Rightarrow> bool" where
  "has_approval c d \<longleftrightarrow> (bd_call_id d \<in> ready_ids c \<and> pd_kind (bd_decision d) = RequireApproval
     \<longrightarrow> (\<exists>a \<in> set (ck_approvals c). approval_call a = bd_call_id d))"

text \<open>A decision leaves the approvals of other calls and gives its own call one if it needs it.\<close>

definition approvals_for :: "batch_decision \<Rightarrow> ('j, 'r) turn_checkpoint \<Rightarrow> ('j, 'r) turn_checkpoint \<Rightarrow> bool" where
  "approvals_for d c c' \<longleftrightarrow> has_approval c' d \<and> ready_ids c' \<subseteq> ready_ids c
     \<and> (\<forall>a \<in> set (ck_approvals c). approval_call a \<noteq> bd_call_id d \<longrightarrow> a \<in> set (ck_approvals c'))"

lemma apply_decision_cases:
  "yields (apply_decision E T st c d) (\<lambda>c'. \<exists>item p. find_call (bd_call_id d) (ck_calls c) = Some item \<and> cc_prepared item = Some p
     \<and> (c' = c \<and> (\<exists>a \<in> set (ck_approvals c). approval_call a = item_id item)
       \<or> c' = drop_approvals (item_id item) c \<and> pd_kind (bd_decision d) \<noteq> RequireApproval
       \<or> (\<exists>r. c' = drop_approvals (item_id item) (update_call (bd_call_id d) (complete_unissued r) c))
       \<or> c' = (drop_approvals (item_id item) c)\<lparr>ck_approvals :=
            ck_approvals (drop_approvals (item_id item) c) @ [new_approval T c item p (bd_decision d)]\<rparr>))"
  unfolding apply_decision_def Let_def
  by (intro yields_lift_bind, unfold res_simps)
     (auto split: option.split decision_kind.split simp: find_Some_iff intro!: yields_raise yields_seqt yields_give; fastforce)

lemma apply_decision_keeps:
  assumes ids: "distinct (call_ids c)" and own: "own_prepared c"
  shows "yields (apply_decision E T st c d) (\<lambda>c'. same_prepared c c' \<and> approvals_for d c c')"
proof (rule yields_weaken [OF apply_decision_cases], elim exE conjE)
  fix c' item p
  assume found: "find_call (bd_call_id d) (ck_calls c) = Some item" and p: "cc_prepared item = Some p"
  from find_call_Some [OF found] have i: "item_id item = bd_call_id d" and item: "item \<in> set (ck_calls c)" by simp_all
  assume "c' = c \<and> (\<exists>a \<in> set (ck_approvals c). approval_call a = item_id item)
       \<or> c' = drop_approvals (item_id item) c \<and> pd_kind (bd_decision d) \<noteq> RequireApproval
       \<or> (\<exists>r. c' = drop_approvals (item_id item) (update_call (bd_call_id d) (complete_unissued r) c))
       \<or> c' = (drop_approvals (item_id item) c)\<lparr>ck_approvals :=
            ck_approvals (drop_approvals (item_id item) c) @ [new_approval T c item p (bd_decision d)]\<rparr>"
  then show "same_prepared c c' \<and> approvals_for d c c'"
  proof (elim disjE exE conjE)
    assume "c' = c" and "\<exists>a \<in> set (ck_approvals c). approval_call a = item_id item"
    then show ?thesis by (simp add: approvals_for_def has_approval_def i)
  next
    assume "c' = drop_approvals (item_id item) c" and "pd_kind (bd_decision d) \<noteq> RequireApproval"
    then show ?thesis by (simp add: approvals_for_def has_approval_def same_prepared_def i)
  next
    fix r assume c': "c' = drop_approvals (item_id item) (update_call (bd_call_id d) (complete_unissued r) c)"
    have "ready_ids c' = ready_ids c - {bd_call_id d}" using ids by (simp add: c' ready_ids_update_done)
    then show ?thesis using same_prepared_complete [OF ids] by (simp add: approvals_for_def has_approval_def c' i)
  next
    assume c': "c' = (drop_approvals (item_id item) c)\<lparr>ck_approvals :=
            ck_approvals (drop_approvals (item_id item) c) @ [new_approval T c item p (bd_decision d)]\<rparr>"
    have "cl_id (pc_call p) = bd_call_id d" using own item p i by (simp add: own_prepared_def)
    then have "approval_call (new_approval T c item p (bd_decision d)) = bd_call_id d"
      by (simp add: new_approval_def approval_call_def)
    moreover have "ready_ids c' = ready_ids c" by (simp add: c' ready_ids_def)
    ultimately show ?thesis by (simp add: approvals_for_def has_approval_def same_prepared_def c' i)
  qed
qed

lemma apply_decision_returns:
  assumes env: "env_answers E" and found: "find_call (bd_call_id d) (ck_calls c) = Some item" and p: "cc_prepared item = Some p"
  shows "returns (apply_decision E T st c d)"
  unfolding apply_decision_def Let_def found p
  by (intro returns_lift_bindt)
     (auto simp: res_simps found p split: option.split decision_kind.split
        intro!: returns_raise returns_give returns_seqt returns_emit [OF env])

text \<open>All decisions of a plan: the preparations stay and whoever needs an approval has one.\<close>

lemma apply_decisions_keeps:
  assumes "distinct (call_ids c)" and "planned_from c0 c" and "distinct (map bd_call_id ds)"
    and "\<forall>d \<in> done_ds. bd_call_id d \<notin> set (map bd_call_id ds) \<and> has_approval c d"
  shows "yields (apply_decisions E T st c ds) (\<lambda>c'. same_prepared c c' \<and> (\<forall>d \<in> done_ds \<union> set ds. has_approval c' d))"
  using assms
proof (induction ds arbitrary: c done_ds)
  case (Cons d ds)
  note ids = Cons.prems(1)
  have own: "own_prepared c" using Cons.prems(2) by (simp add: planned_from_def)
  have "yields (apply_decision E T st c d) (planned_from c)"
    by (rule apply_decision_yields [OF ids]) (use Cons.prems(2) in \<open>simp_all add: planned_from_def\<close>)
  from yields_conj [OF this apply_decision_keeps [OF ids own]]
  show ?case unfolding apply_decisions.simps
  proof (rule yields_bindt, elim conjE)
    fix c' assume p: "planned_from c c'" and same: "same_prepared c c'" and af: "approvals_for d c c'"
    have ids': "distinct (call_ids c')" using same_prepared_ids [OF same] ids by simp
    have kept: "\<forall>e \<in> insert d done_ds. bd_call_id e \<notin> set (map bd_call_id ds) \<and> has_approval c' e"
    proof
      fix e assume "e \<in> insert d done_ds"
      then show "bd_call_id e \<notin> set (map bd_call_id ds) \<and> has_approval c' e"
      proof
        assume "e \<in> done_ds"
        with Cons.prems(4) have e: "bd_call_id e \<noteq> bd_call_id d" "bd_call_id e \<notin> set (map bd_call_id ds)" "has_approval c e"
          by auto
        with af have "has_approval c' e" unfolding has_approval_def approvals_for_def by (metis subsetD)
        with e show ?thesis by blast
      qed (use Cons.prems(3) af in \<open>auto simp: approvals_for_def\<close>)
    qed
    from Cons.IH [OF ids' planned_from_trans [OF Cons.prems(2) p] _ kept] Cons.prems(3)
    have "yields (apply_decisions E T st c' ds)
      (\<lambda>c''. same_prepared c' c'' \<and> (\<forall>e \<in> insert d done_ds \<union> set ds. has_approval c'' e))" by simp
    then show "yields (apply_decisions E T st c' ds)
      (\<lambda>c''. same_prepared c c'' \<and> (\<forall>e \<in> done_ds \<union> set (d # ds). has_approval c'' e))"
      by (rule yields_weaken) (use same_prepared_trans [OF same] in auto)
  qed
qed (auto simp: yields_give)

lemma same_prepared_found:
  assumes "same_prepared c c'" and "distinct (call_ids c)" and "item \<in> set (ck_calls c)" and "cc_prepared item \<noteq> None"
  shows "\<exists>item'. find_call (item_id item) (ck_calls c') = Some item' \<and> cc_prepared item' \<noteq> None"
proof -
  from assms(3) obtain k where k: "k < length (ck_calls c)" "ck_calls c ! k = item" by (auto simp: in_set_conv_nth)
  from assms(1) have len: "length (ck_calls c') = length (ck_calls c)" unfolding same_prepared_def by (metis length_map)
  let ?item = "ck_calls c' ! k"
  have same: "cc_call ?item = cc_call item" "cc_prepared ?item = cc_prepared item"
    using assms(1) k len unfolding same_prepared_def by (metis nth_map)+
  have in': "?item \<in> set (ck_calls c')" using k(1) len by simp
  then have "item_id item \<in> set (call_ids c')" by (metis (no_types, lifting) call_ids_def comp_apply image_eqI list.set_map same(1))
  then obtain x where x: "find_call (item_id item) (ck_calls c') = Some x" using find_call_id by blast
  have "x = ?item"
    using same_item [of c' x ?item] find_call_Some [OF x] in' same(1) assms(2) same_prepared_ids [OF assms(1)] by simp
  with x same(2) assms(4) show ?thesis by simp
qed

lemma apply_decisions_returns:
  assumes env: "env_answers E" and "distinct (call_ids c)" and "planned_from c0 c"
    and "\<forall>d \<in> set ds. \<exists>item \<in> set (ck_calls c). item_id item = bd_call_id d \<and> cc_prepared item \<noteq> None"
  shows "returns (apply_decisions E T st c ds)"
  using assms(2-4)
proof (induction ds arbitrary: c)
  case (Cons d ds)
  note ids = Cons.prems(1)
  have own: "own_prepared c" using Cons.prems(2) by (simp add: planned_from_def)
  from Cons.prems(3) obtain item where item: "item \<in> set (ck_calls c)" "item_id item = bd_call_id d" "cc_prepared item \<noteq> None"
    by auto
  from same_prepared_found [OF same_prepared_refl ids item(1,3)] item(2)
  obtain item' p where found: "find_call (bd_call_id d) (ck_calls c) = Some item'" and p: "cc_prepared item' = Some p" by auto
  have "yields (apply_decision E T st c d) (planned_from c)"
    by (rule apply_decision_yields [OF ids]) (use Cons.prems(2) in \<open>simp_all add: planned_from_def\<close>)
  from yields_conj [OF this apply_decision_keeps [OF ids own]]
  show ?case unfolding apply_decisions.simps
  proof (rule returns_bindt [OF apply_decision_returns [OF env found p]], elim conjE)
    fix c' assume pl: "planned_from c c'" and same: "same_prepared c c'"
    have ids': "distinct (call_ids c')" using same_prepared_ids [OF same] ids by simp
    have "\<forall>e \<in> set ds. \<exists>item \<in> set (ck_calls c'). item_id item = bd_call_id e \<and> cc_prepared item \<noteq> None"
    proof
      fix e assume "e \<in> set ds"
      with Cons.prems(3) obtain it where "it \<in> set (ck_calls c)" "item_id it = bd_call_id e" "cc_prepared it \<noteq> None" by auto
      from same_prepared_found [OF same ids this(1,3)] this(2)
      show "\<exists>item \<in> set (ck_calls c'). item_id item = bd_call_id e \<and> cc_prepared item \<noteq> None"
        using find_call_Some by metis
    qed
    from Cons.IH [OF ids' planned_from_trans [OF Cons.prems(2) pl] this] show "returns (apply_decisions E T st c' ds)" .
  qed
qed (simp add: returns_give)

section \<open>A refresh returns\<close>

lemma all_prepared_from:
  "all_prepared items = Ok ps \<Longrightarrow> p \<in> set ps \<Longrightarrow> \<exists>item \<in> set items. is_ready item \<and> cc_prepared item = Some p"
  by (induction items arbitrary: ps) (auto simp: res_simps split: if_splits)

text \<open>What follows the preparations of a refresh.\<close>

definition plan_tail ::
  "('e, 'j, 'r) turn_env \<Rightarrow> ('j, 'r) turn_codec \<Rightarrow> ('j, 'r) run_state \<Rightarrow> policy_engine \<Rightarrow> ('j, 'r) turn_checkpoint
   \<Rightarrow> ('e, 'j, 'r, batch_plan \<times> ('j, 'r) turn_checkpoint) turn" where
  "plan_tail E T st policy c =
     bindt (lift_res (all_prepared (ck_calls c))) (\<lambda>preparations.
     bindt (lift_res (map_err (\<lambda>e. TeInvalidRequest (prepared_error_text e))
              (resolve_prepared_batch (tk_policy T) policy (policy_context_of st c) preparations))) (\<lambda>plan.
     bindt (apply_decisions E T st c (bp_decisions plan)) (\<lambda>c2.
     let (stages, index) = refreshed_stages (rn_dispatch st) plan (ck_calls c2);
         c3 = recount (c2\<lparr>ck_stages := stages, ck_stage_index := index\<rparr>) in
     seqt (lift_res (as_request (checkpoint_validate T c3 (ck_scope c3))))
    (seqt (runt (te_record_checkpoint E c3)) (give (plan, c3))))))"

lemma refresh_ready_tail:
  "refresh_ready E T X st c =
     bindt (refresh_preparations E T st c (map cc_call (filter is_ready (ck_calls c)))) (\<lambda>c1.
     seqt (check E st)
    (bindt (lift_res (ok_or (tx_policy X) no_policy)) (\<lambda>policy. plan_tail E T st policy (recount c1))))"
  by (simp add: refresh_ready_def plan_tail_def)

text \<open>A plan covers what is ready, and whatever needs an approval has one.\<close>

definition covers :: "batch_plan \<Rightarrow> ('j, 'r) turn_checkpoint \<Rightarrow> bool" where
  "covers plan c \<longleftrightarrow> ready_ids c \<subseteq> bd_call_id ` set (bp_decisions plan)
     \<and> (\<forall>d \<in> set (bp_decisions plan). has_approval c d)"

lemma planned_decisions:
  assumes plan: "resolve_prepared_batch K policy cx ps = Ok plan" and ps: "all_prepared (ck_calls c) = Ok ps"
    and own: "own_prepared c"
  shows "distinct (map bd_call_id (bp_decisions plan))"
    and "\<forall>d \<in> set (bp_decisions plan). \<exists>item \<in> set (ck_calls c). item_id item = bd_call_id d \<and> cc_prepared item \<noteq> None"
    and "ready_ids c \<subseteq> bd_call_id ` set (bp_decisions plan)"
proof -
  from plan have pd: "prepared_decisions K policy cx {} ps = Ok (bp_decisions plan)"
    by (auto simp: resolve_prepared_batch_def res_simps)
  note ds = prepared_decisions_map [OF pd]
  have "map bd_call_id (bp_decisions plan) = map (cl_id \<circ> pc_call) ps" by (subst ds) simp
  with prepared_decisions_ids [OF pd] show "distinct (map bd_call_id (bp_decisions plan))" by metis
  have ids: "bd_call_id ` set (bp_decisions plan) = cl_id ` pc_call ` set ps" by (subst ds) (simp add: image_image)
  show "\<forall>d \<in> set (bp_decisions plan). \<exists>item \<in> set (ck_calls c). item_id item = bd_call_id d \<and> cc_prepared item \<noteq> None"
  proof
    fix d assume "d \<in> set (bp_decisions plan)"
    then obtain p where p: "p \<in> set ps" "bd_call_id d = cl_id (pc_call p)" using ids by blast
    from all_prepared_from [OF ps p(1)] own p(2)
    show "\<exists>item \<in> set (ck_calls c). item_id item = bd_call_id d \<and> cc_prepared item \<noteq> None"
      unfolding own_prepared_def by (metis option.distinct(1))
  qed
  show "ready_ids c \<subseteq> bd_call_id ` set (bp_decisions plan)"
  proof
    fix i assume "i \<in> ready_ids c"
    then obtain item where item: "item \<in> set (ck_calls c)" "is_ready item" "item_id item = i" by (auto simp: ready_ids_def)
    from all_prepared_Ok [OF ps item(1,2)] obtain p where p: "p \<in> set ps" "cc_prepared item = Some p" by blast
    with own item have "cl_id (pc_call p) = i" unfolding own_prepared_def by metis
    with p(1) show "i \<in> bd_call_id ` set (bp_decisions plan)" unfolding ids by blast
  qed
qed

lemma covers_same:
  assumes "covers plan c" and "ck_calls d = ck_calls c" and "ck_approvals d = ck_approvals c"
  shows "covers plan d"
  using assms by (simp add: covers_def has_approval_def ready_ids_def)

lemma plan_tail_keeps:
  assumes ids: "distinct (call_ids c)" and from_c: "planned_from c c"
  shows "yields (plan_tail E T st policy c) (\<lambda>(plan, c'). covers plan c' \<and> ck_steps c' = ck_steps c)"
  unfolding plan_tail_def
proof (intro yields_lift_bind, unfold res_simps)
  fix ps plan
  assume ps: "all_prepared (ck_calls c) = Ok ps"
    and plan: "resolve_prepared_batch (tk_policy T) policy (policy_context_of st c) ps = Ok plan"
  have own: "own_prepared c" using from_c by (simp add: planned_from_def)
  note pl = planned_decisions [OF plan ps own]
  from apply_decisions_keeps [OF ids from_c pl(1), of "{}"]
  have "yields (apply_decisions E T st c (bp_decisions plan))
    (\<lambda>c'. same_prepared c c' \<and> (\<forall>d \<in> set (bp_decisions plan). has_approval c' d))" by simp
  from yields_conj [OF this apply_decisions_yields [OF ids from_c]]
  show "yields (bindt (apply_decisions E T st c (bp_decisions plan)) (\<lambda>c2.
     let (stages, index) = refreshed_stages (rn_dispatch st) plan (ck_calls c2);
         c3 = recount (c2\<lparr>ck_stages := stages, ck_stage_index := index\<rparr>) in
     seqt (lift_res (as_request (checkpoint_validate T c3 (ck_scope c3))))
    (seqt (runt (te_record_checkpoint E c3)) (give (plan, c3)))))
   (\<lambda>(plan, c'). covers plan c' \<and> ck_steps c' = ck_steps c)"
  proof (rule yields_bindt, elim conjE)
    fix c2 assume same: "same_prepared c c2" and ap: "\<forall>d \<in> set (bp_decisions plan). has_approval c2 d"
      and p2: "planned_from c c2"
    obtain stages index where s: "refreshed_stages (rn_dispatch st) plan (ck_calls c2) = (stages, index)" by fastforce
    from p2 pl(3) ap have "covers plan c2" unfolding covers_def planned_from_def refreshes_def evolves_def by blast
    then have "covers plan (recount (c2\<lparr>ck_stages := stages, ck_stage_index := index\<rparr>))" by (rule covers_same) simp_all
    with same show "yields (let (stages, index) = refreshed_stages (rn_dispatch st) plan (ck_calls c2);
         c3 = recount (c2\<lparr>ck_stages := stages, ck_stage_index := index\<rparr>) in
     seqt (lift_res (as_request (checkpoint_validate T c3 (ck_scope c3))))
    (seqt (runt (te_record_checkpoint E c3)) (give (plan, c3))))
   (\<lambda>(plan, c'). covers plan c' \<and> ck_steps c' = ck_steps c)"
      unfolding s Let_def prod.case by (intro yields_seqt yields_give) (simp add: same_prepared_def)
  qed
qed

lemma plan_tail_returns:
  assumes env: "env_answers E" and ids: "distinct (call_ids c)" and from_c: "planned_from c c" and ready: "ready_prepared c"
  shows "returns (plan_tail E T st policy c)"
  unfolding plan_tail_def
proof (intro returns_lift_bindt, unfold res_simps)
  show "all_prepared (ck_calls c) \<noteq> Panic" by (rule all_prepared_returns [OF ready])
  fix ps plan
  assume ps: "all_prepared (ck_calls c) = Ok ps"
    and plan: "resolve_prepared_batch (tk_policy T) policy (policy_context_of st c) ps = Ok plan"
  have own: "own_prepared c" using from_c by (simp add: planned_from_def)
  have rec: "returns (runt (te_record_checkpoint E d))" for d by (rule returns_runt) (use env in \<open>simp add: env_answers_def\<close>)
  show "returns (bindt (apply_decisions E T st c (bp_decisions plan)) (\<lambda>c2.
     let (stages, index) = refreshed_stages (rn_dispatch st) plan (ck_calls c2);
         c3 = recount (c2\<lparr>ck_stages := stages, ck_stage_index := index\<rparr>) in
     seqt (lift_res (as_request (checkpoint_validate T c3 (ck_scope c3))))
    (seqt (runt (te_record_checkpoint E c3)) (give (plan, c3)))))"
    by (rule returns_seqt [OF apply_decisions_returns [OF env ids from_c planned_decisions(2) [OF plan ps own]]])
       (simp add: Let_def returns_seqt [OF returns_lift_res] returns_seqt [OF rec] returns_give no_panic split: prod.split)
qed (simp_all add: no_panic)

lemma refresh_prepared:
  assumes "sturdy c"
  shows "yields (refresh_preparations E T st c (map cc_call (filter is_ready (ck_calls c))))
    (\<lambda>c1. distinct (call_ids (recount c1)) \<and> planned_from (recount c1) (recount c1) \<and> ready_prepared (recount c1)
       \<and> ck_steps c1 = ck_steps c)"
proof -
  from assms have w: "workable c" and ready: "ready_prepared c" by (simp_all add: sturdy_def)
  from w have ids: "distinct (call_ids c)" and own: "own_prepared c" by (simp_all add: workable_def)
  have conf: "\<forall>j \<in> - ready_ids c. confirmed_for c j" by (auto simp: confirmed_for_def ready_ids_def)
  show ?thesis
  proof (rule yields_weaken [OF yields_conj [OF refresh_preparations_yields [OF ids conf own]
          refresh_preparations_keeps [OF ids ready]]], elim conjE)
    fix c1
    assume r1: "refreshes c c1" and o1: "own_prepared c1" and "ready_prepared c1" and steps: "ck_steps c1 = ck_steps c"
      and j: "\<forall>j \<in> - ready_ids c \<union> cl_id ` set (map cc_call (filter is_ready (ck_calls c))). confirmed_for c1 j"
    have "ready_ids c \<subseteq> cl_id ` set (map cc_call (filter is_ready (ck_calls c)))" by (auto simp: ready_ids_def)
    then have "confirmed_for c1 i" for i using j by blast
    moreover have "distinct (map approval_call (ck_approvals c1))"
      using r1 w by (simp add: refreshes_def keeps_approvals_def workable_def)
    ultimately have "planned_from (recount c1) (recount c1)" using o1 by (simp add: planned_from_def keeps_ready_def)
    then show "distinct (call_ids (recount c1)) \<and> planned_from (recount c1) (recount c1) \<and> ready_prepared (recount c1)
       \<and> ck_steps c1 = ck_steps c"
      using refreshes_distinct [OF r1 ids] steps \<open>ready_prepared c1\<close> by simp
  qed
qed

lemma refresh_ready_keeps:
  assumes "sturdy c"
  shows "yields (refresh_ready E T X st c) (\<lambda>(plan, c'). covers plan c' \<and> ck_steps c' = ck_steps c)"
  unfolding refresh_ready_tail
proof (rule yields_bindt [OF refresh_prepared [OF assms]], elim conjE)
  fix c1
  assume "distinct (call_ids (recount c1))" "planned_from (recount c1) (recount c1)" and steps: "ck_steps c1 = ck_steps c"
  from plan_tail_keeps [OF this(1,2)] steps
  have "yields (plan_tail E T st policy (recount c1)) (\<lambda>(plan, c'). covers plan c' \<and> ck_steps c' = ck_steps c)" for policy
    by simp
  then show "yields (seqt (check E st)
    (bindt (lift_res (ok_or (tx_policy X) no_policy)) (\<lambda>policy. plan_tail E T st policy (recount c1))))
    (\<lambda>(plan, c'). covers plan c' \<and> ck_steps c' = ck_steps c)"
    by (intro yields_seqt)
qed

lemma refresh_ready_returns:
  assumes env: "env_answers E" and c: "sturdy c"
  shows "returns (refresh_ready E T X st c)"
  unfolding refresh_ready_tail
proof (rule returns_bindt [OF refresh_preparations_returns [OF env] refresh_prepared [OF c]])
  show "distinct (call_ids c)" using c by (simp add: sturdy_def workable_def)
  show "cl_id ` set (map cc_call (filter is_ready (ck_calls c))) \<subseteq> set (call_ids c)" by (auto simp: call_ids_def)
  fix c1
  assume "distinct (call_ids (recount c1)) \<and> planned_from (recount c1) (recount c1) \<and> ready_prepared (recount c1)
       \<and> ck_steps c1 = ck_steps c"
  then show "returns (seqt (check E st)
    (bindt (lift_res (ok_or (tx_policy X) no_policy)) (\<lambda>policy. plan_tail E T st policy (recount c1))))"
    by (intro returns_seqt returns_check returns_lift_res plan_tail_returns [OF env]) (auto simp: res_simps)
qed

section \<open>A dispatch returns\<close>

lemma bindt_lift_Ok: "bindt (lift_res (Ok x)) f = f x" by (simp add: bindt_def lift_res_def fun_eq_iff)
lemma unwrap_simps: "unwrap (Some x) = Ok x" by (simp add: res_simps)

lemma find_decision:
  assumes "covers plan c" and "i \<in> ready_ids c"
  obtains d where "find (\<lambda>d. bd_call_id d = i) (bp_decisions plan) = Some d" and "d \<in> set (bp_decisions plan)"
    and "bd_call_id d = i"
proof -
  from assms have "find (\<lambda>d. bd_call_id d = i) (bp_decisions plan) \<noteq> None" by (auto simp: covers_def find_None_iff)
  then obtain d where f: "find (\<lambda>d. bd_call_id d = i) (bp_decisions plan) = Some d" by blast
  moreover from f have "d \<in> set (bp_decisions plan)" and "bd_call_id d = i" by (auto simp: find_Some_iff)
  ultimately show thesis by (rule that)
qed

lemma approval_evidence_returns:
  assumes "\<exists>a \<in> set (ck_approvals c). approval_call a = i" and "\<not> pending_approval c"
  shows "returns (approval_evidence_for E c i)"
proof -
  from assms(1) obtain a where f: "find (\<lambda>a. approval_call a = i) (ck_approvals c) = Some a"
    using find_None_iff [of "\<lambda>a. approval_call a = i" "ck_approvals c"] by auto
  then have "a \<in> set (ck_approvals c)" by (auto simp: find_Some_iff)
  with assms(2) have "unwrap (ca_evidence_id a) \<noteq> Panic" by (auto simp: pending_approval_def res_simps split: option.split)
  then show ?thesis unfolding approval_evidence_for_def
    by (intro returns_lift_bindt returns_seqt) (auto simp: f res_simps bindt_lift_Ok returns_rules split: option.split)
qed

lemma issue_authority_returns: "issue_authority T c p d evidence \<noteq> Panic"
  by (auto simp: issue_authority_def Let_def res_simps no_panic)

lemma collect_invocations_returns:
  assumes covers: "covers plan c" and ready: "ready_prepared c" and "set stage \<subseteq> set (call_ids c)"
  shows "returns (collect_invocations E T c plan stage)"
  using assms(3)
proof (induction stage)
  case (Cons i stage)
  then have IH: "returns (collect_invocations E T c plan stage)" and i: "i \<in> set (call_ids c)" by simp_all
  from find_call_id [OF i] obtain item where f: "find_call i (ck_calls c) = Some item" by blast
  from find_call_Some [OF f] have item: "item \<in> set (ck_calls c)" "item_id item = i" by simp_all
  show ?case
  proof (cases "is_ready item")
    case True
    with item have "i \<in> ready_ids c" by (auto simp: ready_ids_def)
    from find_decision [OF covers this] obtain d where d: "find (\<lambda>d. bd_call_id d = i) (bp_decisions plan) = Some d"
      "d \<in> set (bp_decisions plan)" "bd_call_id d = i" .
    with covers \<open>i \<in> ready_ids c\<close> have ap: "pd_kind (bd_decision d) = RequireApproval \<Longrightarrow> \<exists>a \<in> set (ck_approvals c). approval_call a = i"
      by (auto simp: covers_def has_approval_def)
    from ready True item(1) obtain p where p: "cc_prepared item = Some p" by (auto simp: ready_prepared_def)
    have "returns (if pd_kind (bd_decision d) = RequireApproval then approval_evidence_for E c i else give NotConfirmed)"
      if "\<not> (pd_kind (bd_decision d) = RequireApproval \<and> pending_approval c)"
      using that by (auto intro: approval_evidence_returns ap returns_give)
    then have "returns (if pd_kind (bd_decision d) = RequireApproval \<and> pending_approval c then collect_invocations E T c plan stage
       else bindt (if pd_kind (bd_decision d) = RequireApproval then approval_evidence_for E c i else give NotConfirmed) (\<lambda>evidence.
         bindt (lift_res (issue_authority T c p (bd_decision d) evidence)) (\<lambda>issued.
         bindt (collect_invocations E T c plan stage) (\<lambda>rest. give ((cc_call item, issued) # rest)))))"
      by (split if_split) (intro conjI impI IH returns_seqt returns_lift_res issue_authority_returns returns_give, simp)
    then show ?thesis by (simp only: collect_invocations.simps f True d(1) p unwrap_simps bindt_lift_Ok Let_def if_False not_True_eq_False)
  qed (simp add: f unwrap_simps bindt_lift_Ok IH)
qed (simp add: returns_give)

lemma dispatch_call_returns: "env_answers E \<Longrightarrow> returns (dispatch_call E st c call issued)"
  unfolding dispatch_call_def Let_def
  by (intro returns_seqt returns_admit returns_check returns_if returns_give returns_emit returns_lift_res
      returns_execution_window returns_effectt returns_envt) (simp_all add: res_simps split: option.split)

definition observes :: "'j tool_call \<Rightarrow> 'j observation \<Rightarrow> bool" where
  "observes call ob \<longleftrightarrow> ob_call ob = call \<and> ob_outcome ob \<noteq> Panic"

lemma dispatch_call_observes:
  assumes "env_answers E"
  shows "yields (dispatch_call E st c call issued) (observes call)"
proof -
  have exec: "yields (envt (te_execute E iv)) (\<lambda>r. r \<noteq> Panic)" for iv
    by (rule yields_envt) (use assms in \<open>simp add: env_answers_def\<close>)
  show ?thesis unfolding dispatch_call_def Let_def
    by (rule yields_seqt, rule yields_seqt, rule yields_seqt, rule yields_seqt, rule yields_seqt, rule yields_seqt,
        rule yields_seqt, rule yields_bindt [OF exec], rule yields_give, simp add: observes_def)
qed

lemma record_uncertain_returns: "env_answers E \<Longrightarrow> returns (record_uncertain E st call e)"
  unfolding record_uncertain_def
  by (intro returns_seqt returns_tryt returns_emit) (simp_all add: returns_raise split: res.split)

lemma complete_observed_returns: "env_answers E \<Longrightarrow> returns (complete_observed E T st issued r)"
  unfolding complete_observed_def
  by (intro returns_seqt returns_lift_res returns_emit returns_give) (simp_all add: batch_error_def res_simps no_panic)

lemma observed_state_returns:
  assumes env: "env_answers E" and "ob_outcome ob \<noteq> Panic"
  shows "returns (observed_state E T st ob)"
proof (cases "ob_outcome ob")
  case (Ok x)
  then show ?thesis
    by (auto simp: observed_state_def Let_def split: tool_outcome.split res.split
        intro!: complete_observed_returns [OF env] record_uncertain_returns [OF env] returns_seqt returns_emit [OF env] returns_give)
next
  case (Err e)
  then show ?thesis
    by (cases e) (auto simp: observed_state_def Let_def
        intro!: record_uncertain_returns [OF env] returns_seqt returns_emit [OF env] returns_raise complete_observed_returns [OF env])
qed (use assms in simp)

lemma apply_observation_returns:
  assumes env: "env_answers E" and "ob_outcome ob \<noteq> Panic" and "cl_id (ob_call ob) \<in> set (call_ids c)"
  shows "returns (apply_observation E T st c ob)"
  unfolding apply_observation_def
  by (intro returns_seqt observed_state_returns [OF env] returns_lift_res returns_give)
     (use assms find_call_id [of "cl_id (ob_call ob)" c] in \<open>auto simp: res_simps split: option.split\<close>)

lemma marks_ids: "marks c s c' \<Longrightarrow> call_ids c' = call_ids c" by (simp add: marks_def evolves_ids)

lemma dispatch_serial_marks:
  assumes env: "env_answers E" and "distinct (call_ids c)"
  shows "yields (dispatch_serial E T st c invs) (\<lambda>c'. \<exists>s. marks c s c' \<and> (invs \<noteq> [] \<longrightarrow> cl_id (fst (hd invs)) \<in> s))"
  using assms(2)
proof (induction invs arbitrary: c)
  case Nil
  show ?case unfolding dispatch_serial.simps by (rule yields_give) (auto intro: exI [of _ "{}"])
next
  case (Cons v invs)
  obtain call issued where inv: "v = (call, issued)" by fastforce
  show ?case unfolding inv dispatch_serial.simps
  proof (rule yields_bindt [OF dispatch_call_observes [OF env]], rule yields_bindt [OF apply_observation_yields [OF Cons.prems]],
      rule yields_seqt)
    fix ob c' assume ob: "observes call ob" and m: "marks c {cl_id (ob_call ob)} c'"
    have m: "marks c {cl_id call} c'" using ob m by (simp add: observes_def)
    have "yields (dispatch_serial E T st c' invs) (\<lambda>c''. \<exists>s. marks c s c'' \<and> ((call, issued) # invs \<noteq> [] \<longrightarrow> cl_id (fst (hd ((call, issued) # invs))) \<in> s))"
      by (rule yields_weaken [OF Cons.IH]) (use marks_distinct [OF m Cons.prems] marks_trans [OF m] in auto)
    then show "yields (case ob_outcome ob of Ok (OutcomeAwaiting _) \<Rightarrow> give c' | _ \<Rightarrow> dispatch_serial E T st c' invs)
      (\<lambda>c''. \<exists>s. marks c s c'' \<and> ((call, issued) # invs \<noteq> [] \<longrightarrow> cl_id (fst (hd ((call, issued) # invs))) \<in> s))"
      using m by (auto split: res.split tool_outcome.split intro!: yields_give)
  qed
qed

lemma dispatch_serial_returns:
  assumes env: "env_answers E" and "distinct (call_ids c)" and "set (invocation_ids invs) \<subseteq> set (call_ids c)"
  shows "returns (dispatch_serial E T st c invs)"
  using assms(2,3)
proof (induction invs arbitrary: c)
  case (Cons v invs)
  obtain call issued where inv: "v = (call, issued)" by fastforce
  show ?case unfolding inv dispatch_serial.simps
  proof (rule returns_bindt [OF dispatch_call_returns [OF env] dispatch_call_observes [OF env]])
    fix ob assume ob: "observes call ob"
    with Cons.prems(2) have a: "returns (apply_observation E T st c ob)"
      by (intro apply_observation_returns [OF env]) (simp_all add: observes_def inv)
    show "returns (bindt (apply_observation E T st c ob) (\<lambda>c'. seqt (check E st)
      (case ob_outcome ob of Ok (OutcomeAwaiting _) \<Rightarrow> give c' | _ \<Rightarrow> dispatch_serial E T st c' invs)))"
    proof (rule returns_bindt [OF a apply_observation_yields [OF Cons.prems(1)]], rule returns_seqt [OF returns_check])
      fix c' assume m: "marks c {cl_id (ob_call ob)} c'"
      have "returns (dispatch_serial E T st c' invs)"
        by (rule Cons.IH) (use marks_distinct [OF m Cons.prems(1)] marks_ids [OF m] Cons.prems(2) in simp_all)
      then show "returns (case ob_outcome ob of Ok (OutcomeAwaiting _) \<Rightarrow> give c' | _ \<Rightarrow> dispatch_serial E T st c' invs)"
        by (simp add: returns_give split: res.split tool_outcome.split)
    qed
  qed
qed (simp add: returns_give)

text \<open>The observations of a parallel stage, call by call.\<close>

definition answered :: "'j tool_call \<times> 'j issued_authority \<Rightarrow> (turn_error, 'j observation) res \<Rightarrow> bool" where
  "answered v r \<longleftrightarrow> r \<noteq> Panic \<and> (\<forall>ob. r = Ok ob \<longrightarrow> observes (fst v) ob)"

lemma dispatch_all_answered:
  assumes env: "env_answers E"
  shows "yields (dispatch_all E st c invs) (list_all2 answered invs)"
proof (induction invs)
  case (Cons v invs)
  obtain call issued where inv: "v = (call, issued)" by fastforce
  show ?case unfolding inv dispatch_all.simps
    by (rule yields_bindt [OF yields_conj [OF yields_tryt [OF dispatch_call_observes [OF env]] yields_tryt_not_panic]],
        rule yields_bindt [OF Cons.IH], rule yields_give) (simp add: answered_def)
qed (simp add: yields_give)

lemma dispatch_all_returns: "env_answers E \<Longrightarrow> returns (dispatch_all E st c invs)"
proof (induction invs)
  case (Cons v invs)
  then show ?case by (cases v) (simp add: returns_seqt returns_tryt dispatch_call_returns returns_give)
qed (simp add: returns_give)

lemma apply_observations_returns:
  assumes env: "env_answers E" and "distinct (call_ids c)" and "list_all2 answered invs rs"
    and "set (invocation_ids invs) \<subseteq> set (call_ids c)"
  shows "returns (apply_observations E T st c fatal rs)"
  using assms(3,2,4)
proof (induction invs rs arbitrary: c fatal rule: list_all2_induct)
  case (Cons v invs r rs)
  from Cons.hyps(1) have r: "r \<noteq> Panic" and obs: "\<And>ob. r = Ok ob \<Longrightarrow> observes (fst v) ob" by (simp_all add: answered_def)
  have fatal: "returns (apply_observations E T st c (keep_fatal fatal e) rs)" for e
    by (rule Cons.IH) (use Cons.prems in simp_all)
  show ?case
  proof (cases r)
    case (Ok ob)
    have a: "returns (tryt (apply_observation E T st c ob))"
      by (rule returns_tryt [OF apply_observation_returns [OF env]]) (use obs [OF Ok] Cons.prems(2) in \<open>simp_all add: observes_def\<close>)
    show ?thesis unfolding Ok apply_observations.simps res.case
    proof (rule returns_bindt [OF a yields_conj [OF yields_tryt [OF apply_observation_yields [OF Cons.prems(1)]] yields_tryt_not_panic]])
      fix x :: "(turn_error, ('b, 'c) turn_checkpoint) res"
      assume x: "(\<forall>y. x = Ok y \<longrightarrow> marks c {cl_id (ob_call ob)} y) \<and> x \<noteq> Panic"
      show "returns (case x of Ok c' \<Rightarrow> apply_observations E T st c' fatal rs
           | Err e \<Rightarrow> apply_observations E T st c (keep_fatal fatal e) rs | Panic \<Rightarrow> lift_res Panic)"
      proof (cases x)
        case (Ok d)
        with x have m: "marks c {cl_id (ob_call ob)} d" by simp
        show ?thesis unfolding Ok res.case
          by (rule Cons.IH) (use marks_distinct [OF m Cons.prems(1)] marks_ids [OF m] Cons.prems(2) in simp_all)
      qed (use x fatal in simp_all)
    qed
  qed (use r fatal in \<open>simp_all add: returns_seqt returns_give bindt_def give_def [abs_def]\<close>)
qed (simp add: returns_give)

lemma dispatch_parallel_marks:
  assumes env: "env_answers E" and "distinct (call_ids c)"
  shows "yields (dispatch_parallel E T st c invs) (\<lambda>c'. \<exists>s. marks c s c' \<and> (invs \<noteq> [] \<longrightarrow> cl_id (fst (hd invs)) \<in> s))"
  unfolding dispatch_parallel_def
proof (rule yields_bindt [OF dispatch_all_answered [OF env]], rule yields_bindt [OF apply_observations_yields [OF assms(2)]])
  fix rs and x :: "('b, 'c) turn_checkpoint \<times> turn_error option"
  assume rs: "list_all2 answered invs rs"
    and x: "case x of (c', fatal') \<Rightarrow> fatal' = None \<longrightarrow> None = None
      \<and> (\<exists>obs. rs = map Ok obs \<and> marks c (set (map (cl_id \<circ> ob_call) obs)) c')"
  obtain c' fatal where X: "x = (c', fatal)" by fastforce
  show "yields (case x of (c', None) \<Rightarrow> seqt (check E st) (give c') | (c', Some e) \<Rightarrow> raise e)
    (\<lambda>c'. \<exists>s. marks c s c' \<and> (invs \<noteq> [] \<longrightarrow> cl_id (fst (hd invs)) \<in> s))"
  proof (cases fatal)
    case None
    with x X obtain obs where obs: "rs = map Ok obs" and m: "marks c (set (map (cl_id \<circ> ob_call) obs)) c'" by auto
    have "cl_id (fst (hd invs)) \<in> set (map (cl_id \<circ> ob_call) obs)" if "invs \<noteq> []"
      using rs that unfolding obs by (cases invs; cases obs) (auto simp: answered_def observes_def)
    then have "\<exists>s. marks c s c' \<and> (invs \<noteq> [] \<longrightarrow> cl_id (fst (hd invs)) \<in> s)" using m by blast
    then show ?thesis unfolding X None prod.case option.case by (intro yields_seqt yields_give)
  qed (simp add: X yields_raise)
qed

lemma dispatch_parallel_returns:
  assumes env: "env_answers E" and "distinct (call_ids c)" and "set (invocation_ids invs) \<subseteq> set (call_ids c)"
  shows "returns (dispatch_parallel E T st c invs)"
  unfolding dispatch_parallel_def
  by (rule returns_bindt [OF dispatch_all_returns [OF env] dispatch_all_answered [OF env]],
      rule returns_seqt [OF apply_observations_returns [OF env assms(2) _ assms(3)]])
     (auto simp: returns_raise returns_seqt returns_check returns_give split: prod.split option.split)

text \<open>A checkpoint that has lost a ready call and kept its approvals.\<close>

definition advances :: "('j, 'r) turn_checkpoint \<Rightarrow> ('j, 'r) turn_checkpoint \<Rightarrow> bool" where
  "advances c c' \<longleftrightarrow> sturdy c' \<and> ready_ids c' \<subset> ready_ids c \<and> ck_approvals c' = ck_approvals c"

lemma dispatch_current_stage_advances:
  fixes X :: turn_executor
  assumes env: "env_answers E" and valid: "checkpoint_validate T c (ck_scope c) = Ok ()"
    and policy: "tx_policy X = Some policy" and sound: "decisions_sound (tk_policy T) policy plan c"
  shows "yields (dispatch_current_stage E T st c plan) (\<lambda>(progressed, c').
    progressed \<longrightarrow> c' = c \<and> get (ck_stages c) (ck_stage_index c) = None \<or> advances c c')"
proof (cases "get (ck_stages c) (ck_stage_index c)")
  case (Some stage)
  note ids = valid_ids [OF valid]
  show ?thesis unfolding dispatch_current_stage_def Some option.case
  proof (rule yields_bindt [OF collect_invocations_yields [OF valid policy sound]], split if_split, intro conjI impI)
    fix invs
    assume invs: "set (invocation_ids invs) \<subseteq> set stage \<inter> ready_ids c
      \<and> (distinct stage \<longrightarrow> distinct (invocation_ids invs))
      \<and> (\<forall>(call, issued) \<in> set invs. granted (tk_policy T) X (ck_scope c) call issued)" and some: "invs \<noteq> []"
    then have hd: "cl_id (fst (hd invs)) \<in> ready_ids c" by (cases invs) auto
    have "yields (case dp_mode (rn_dispatch st) of Serial \<Rightarrow> dispatch_serial E T st c invs | Parallel \<Rightarrow> dispatch_parallel E T st c invs)
      (\<lambda>c'. \<exists>s. marks c s c' \<and> (invs \<noteq> [] \<longrightarrow> cl_id (fst (hd invs)) \<in> s))"
      by (simp add: dispatch_serial_marks [OF env ids] dispatch_parallel_marks [OF env ids] split: dispatch_mode.split)
    then show "yields (bindt (case dp_mode (rn_dispatch st) of Serial \<Rightarrow> dispatch_serial E T st c invs
                     | Parallel \<Rightarrow> dispatch_parallel E T st c invs) (\<lambda>c1.
            seqt (lift_res (as_request (checkpoint_validate T (recount c1) (ck_scope (recount c1)))))
              (give (True, recount c1))))
      (\<lambda>(progressed, c'). progressed \<longrightarrow> c' = c \<and> Some stage = None \<or> advances c c')"
    proof (rule yields_bindt, elim exE conjE, intro yields_lift_bind yields_give)
      fix c1 s x
      assume m: "marks c s c1" and s: "invs \<noteq> [] \<longrightarrow> cl_id (fst (hd invs)) \<in> s"
        and "as_request (checkpoint_validate T (recount c1) (ck_scope (recount c1))) = Ok x"
      then have "sturdy (recount c1)" by (intro valid_sturdy) (auto simp: as_request_def res_simps)
      then have "advances c (recount c1)" using m s some hd by (auto simp: advances_def marks_def)
      then show "case (True, recount c1) of (progressed, c') \<Rightarrow> progressed \<longrightarrow> c' = c \<and> Some stage = None \<or> advances c c'"
        by simp
    qed
  qed (simp add: yields_give)
qed (simp add: dispatch_current_stage_def yields_give)

lemma dispatch_current_stage_returns:
  fixes X :: turn_executor
  assumes env: "env_answers E" and valid: "checkpoint_validate T c (ck_scope c) = Ok ()"
    and policy: "tx_policy X = Some policy" and sound: "decisions_sound (tk_policy T) policy plan c"
    and covers: "covers plan c"
  shows "returns (dispatch_current_stage E T st c plan)"
proof (cases "get (ck_stages c) (ck_stage_index c)")
  case (Some stage)
  then have "stage \<in> set (ck_stages c)" by (auto simp: get_def split: if_splits)
  then have "set stage \<subseteq> set (concat (ck_stages c))" by auto
  then have stage: "set stage \<subseteq> set (call_ids c)" using valid_stages(2) [OF valid] by simp
  have ready: "ready_prepared c" using valid_sturdy [OF valid] by (simp add: sturdy_def)
  show ?thesis unfolding dispatch_current_stage_def Some option.case
  proof (rule returns_bindt [OF collect_invocations_returns [OF covers ready stage] collect_invocations_yields [OF valid policy sound]])
    fix invs
    assume "set (invocation_ids invs) \<subseteq> set stage \<inter> ready_ids c
      \<and> (distinct stage \<longrightarrow> distinct (invocation_ids invs))
      \<and> (\<forall>(call, issued) \<in> set invs. granted (tk_policy T) X (ck_scope c) call issued)"
    with stage have i: "set (invocation_ids invs) \<subseteq> set (call_ids c)" by blast
    show "returns (if invs = [] then give (False, c)
          else bindt (case dp_mode (rn_dispatch st) of Serial \<Rightarrow> dispatch_serial E T st c invs
                     | Parallel \<Rightarrow> dispatch_parallel E T st c invs) (\<lambda>c1.
            seqt (lift_res (as_request (checkpoint_validate T (recount c1) (ck_scope (recount c1)))))
              (give (True, recount c1))))"
      by (cases "dp_mode (rn_dispatch st)")
         (simp_all add: returns_give returns_seqt returns_lift_res no_panic dispatch_serial_returns [OF env valid_ids [OF valid] i]
           dispatch_parallel_returns [OF env valid_ids [OF valid] i])
  qed
qed (simp add: dispatch_current_stage_def returns_give)

section \<open>The rounds end\<close>

text \<open>What is left: the ready calls, and the ready calls without a confirmation.\<close>

definition unsettled :: "('j, 'r) turn_checkpoint \<Rightarrow> nat" where
  "unsettled c = card (ready_ids c) + card (ready_ids c - confirmed_ids c)"

lemma finite_ready [simp]: "finite (ready_ids c)"
  by (rule finite_subset [of _ "set (call_ids c)"]) (auto simp: ready_ids_def call_ids_def)

lemma unsettled_fuel: "unsettled c < pending_fuel c"
proof -
  have "ready_ids c \<subseteq> set (call_ids c)" by (auto simp: ready_ids_def call_ids_def)
  then have "card (ready_ids c) \<le> card (set (call_ids c))" by (intro card_mono) simp_all
  also have "\<dots> \<le> length (ck_calls c)" using card_length [of "call_ids c"] by (simp add: call_ids_def)
  finally have "card (ready_ids c) \<le> length (ck_calls c)" .
  moreover have "card (ready_ids c - confirmed_ids c) \<le> card (ready_ids c)" by (intro card_mono) auto
  ultimately show ?thesis by (simp add: unsettled_def pending_fuel_def)
qed

lemma refreshes_unsettled:
  assumes "refreshes c c'"
  shows "unsettled c' \<le> unsettled c"
proof -
  from assms have r: "ready_ids c' \<subseteq> ready_ids c" "ready_ids c' - confirmed_ids c' \<subseteq> ready_ids c - confirmed_ids c"
    by (auto simp: refreshes_def evolves_def keeps_approvals_def)
  have "card (ready_ids c') \<le> card (ready_ids c)" and "card (ready_ids c' - confirmed_ids c') \<le> card (ready_ids c - confirmed_ids c)"
    by (intro card_mono r; simp)+
  then show ?thesis by (simp add: unsettled_def)
qed

lemma advances_unsettled:
  assumes "advances c c'"
  shows "unsettled c' < unsettled c"
proof -
  from assms have "card (ready_ids c') < card (ready_ids c)" by (intro psubset_card_mono) (simp_all add: advances_def)
  moreover from assms have "card (ready_ids c' - confirmed_ids c') \<le> card (ready_ids c - confirmed_ids c)"
    by (intro card_mono) (auto simp: advances_def confirmed_ids_def)
  ultimately show ?thesis by (simp add: unsettled_def)
qed

text \<open>A confirmation of a pending approval.\<close>

lemma map_update_first: "(\<And>x. g (f x) = g x) \<Longrightarrow> map g (update_first P f xs) = map g xs" by (induction xs) auto

lemma update_first_set: "x \<in> set (update_first P f xs) \<Longrightarrow> x \<in> set xs \<or> (\<exists>y \<in> set xs. P y \<and> x = f y)"
  by (induction xs) (auto split: if_splits)

lemma update_first_kept: "x \<in> set xs \<Longrightarrow> x \<in> set (update_first P f xs) \<or> P x \<and> f x \<in> set (update_first P f xs)"
  by (induction xs) auto

lemma update_first_found: "x \<in> set xs \<Longrightarrow> P x \<Longrightarrow> \<exists>y \<in> set xs. P y \<and> f y \<in> set (update_first P f xs)"
  by (induction xs) auto

lemma confirm_approval_fields [simp]:
  "ck_calls (confirm_approval i c) = ck_calls c" "ck_steps (confirm_approval i c) = ck_steps c"
  "ready_ids (confirm_approval i c) = ready_ids c" "call_ids (confirm_approval i c) = call_ids c"
  by (simp_all add: confirm_approval_def ready_ids_def call_ids_def)

lemma confirm_approval_sturdy: "sturdy c \<Longrightarrow> sturdy (confirm_approval i c)"
  by (simp add: sturdy_def workable_def ready_prepared_def own_prepared_def confirm_approval_def map_update_first
      approval_call_def call_ids_def)

lemma confirmed_idsI: "a \<in> set (ck_approvals c) \<Longrightarrow> ca_evidence_id a \<noteq> None \<Longrightarrow> approval_call a \<in> confirmed_ids c"
  by (auto simp: confirmed_ids_def)

lemma confirm_approval_unsettled:
  assumes valid: "checkpoint_validate T c s = Ok ()" and a: "r \<in> set (pending_approvals c)"
  shows "unsettled (confirm_approval (ar_approval_id r) c) < unsettled c"
proof -
  let ?i = "ar_approval_id r"
  from a obtain x where x: "x \<in> set (ck_approvals c)" "ca_evidence_id x = None" "ca_approval_id x = ?i"
    and ready: "ready_call (approval_call x) (ck_calls c)"
    by (auto simp: pending_approvals_def approval_call_def)
  from ready obtain item where "item \<in> set (ck_calls c)" "item_id item = approval_call x" "is_ready item"
    unfolding ready_call_def by blast
  then have in_ready: "approval_call x \<in> ready_ids c" by (force simp: ready_ids_def)
  note inj = check_approvals_Ok [OF checkpoint_validate_Ok(8) [OF valid]]
  have fresh: "approval_call x \<notin> confirmed_ids c"
    using inj x(1,2) by (auto simp: confirmed_ids_def distinct_map dest: inj_onD)
  have "confirmed_ids c \<subseteq> confirmed_ids (confirm_approval ?i c)"
  proof
    fix j assume "j \<in> confirmed_ids c"
    then obtain y where y: "y \<in> set (ck_approvals c)" "ca_evidence_id y \<noteq> None" "approval_call y = j"
      by (auto simp: confirmed_ids_def)
    let ?f = "\<lambda>a. a\<lparr>ca_evidence_id := Some ?i\<rparr>"
    from update_first_kept [OF y(1), of "\<lambda>a. ca_approval_id a = ?i" ?f]
    have "y \<in> set (ck_approvals (confirm_approval ?i c)) \<or> ?f y \<in> set (ck_approvals (confirm_approval ?i c))"
      by (auto simp: confirm_approval_def)
    moreover have "ca_evidence_id (?f y) \<noteq> None" "approval_call (?f y) = j" using y(3) by (simp_all add: approval_call_def)
    ultimately show "j \<in> confirmed_ids (confirm_approval ?i c)" using y(2,3) by (metis confirmed_idsI)
  qed
  moreover have "approval_call x \<in> confirmed_ids (confirm_approval ?i c)"
  proof -
    from update_first_found [where P = "\<lambda>a. ca_approval_id a = ?i" and f = "\<lambda>a. a\<lparr>ca_evidence_id := Some ?i\<rparr>", OF x(1,3)]
    obtain y where y: "y \<in> set (ck_approvals c)" "ca_approval_id y = ?i"
      "y\<lparr>ca_evidence_id := Some ?i\<rparr> \<in> set (ck_approvals (confirm_approval ?i c))" by (auto simp: confirm_approval_def)
    from inj have "inj_on ca_approval_id (set (ck_approvals c))" by (simp add: distinct_map)
    from inj_onD [OF this _ y(1) x(1)] x(3) y(2) have "y = x" by simp
    with confirmed_idsI [OF y(3)] show ?thesis by (simp add: approval_call_def)
  qed
  ultimately have "ready_ids c - confirmed_ids (confirm_approval ?i c) \<subset> ready_ids c - confirmed_ids c"
    using fresh in_ready by blast
  then have "card (ready_ids c - confirmed_ids (confirm_approval ?i c)) < card (ready_ids c - confirmed_ids c)"
    by (intro psubset_card_mono) simp_all
  then show ?thesis by (simp add: unsettled_def)
qed

lemma await_approval_confirms: "yields (await_approval E st c a) (\<lambda>c'. c' = confirm_approval (ar_approval_id a) c)"
  unfolding await_approval_def by (intro yields_seqt yields_give refl)

lemma await_approval_returns:
  assumes env: "env_answers E" and a: "a \<in> set (pending_approvals c)"
  shows "returns (await_approval E st c a)"
proof -
  from a obtain x where "x \<in> set (ck_approvals c)" "ca_approval_id x = ar_approval_id a" by (auto simp: pending_approvals_def)
  then have "find (\<lambda>s. ca_approval_id s = ar_approval_id a) (ck_approvals c) \<noteq> None" by (auto simp: find_None_iff)
  then show ?thesis unfolding await_approval_def
    by (intro returns_seqt returns_admit [OF env] returns_runt returns_lift_res returns_give)
       (use env in \<open>auto simp: env_answers_def unwrap_simps\<close>)
qed

text \<open>With no stage left, every call is completed.\<close>

lemma no_stage_left:
  assumes valid: "checkpoint_validate T c s = Ok ()" and none: "get (ck_stages c) (ck_stage_index c) = None"
  shows "ready_ids c = {}"
proof -
  from none have len: "length (ck_stages c) \<le> ck_stage_index c" by (auto simp: get_def split: if_splits)
  have stages: "check_stages (ck_calls c) (ck_stage_index c) 0 (ck_stages c) = Ok ()"
    using checkpoint_validate_Ok(6) [OF valid] by (auto simp: check_partition_def split: if_splits)
  have "\<not> is_ready item" if item: "item \<in> set (ck_calls c)" for item
  proof -
    from item have "item_id item \<in> set (concat (ck_stages c))" unfolding valid_stages(2) [OF valid] by (auto simp: call_ids_def)
    then obtain stage where "stage \<in> set (ck_stages c)" "item_id item \<in> set stage" by auto
    then obtain k where k: "k < length (ck_stages c)" "item_id item \<in> set (ck_stages c ! k)"
      unfolding in_set_conv_nth [of stage] by blast
    from check_stages_Ok [OF stages k(1)] have "check_stage (ck_calls c) (ck_stage_index c) k (ck_stages c ! k) = Ok ()" by simp
    from check_stage_Ok [OF this k(2)] obtain x where x: "find_call (item_id item) (ck_calls c) = Some x"
      "k < ck_stage_index c \<Longrightarrow> is_completed x" by metis
    from find_call_Some [OF x(1)] item have "x = item" using same_item [OF valid_ids [OF valid]] by metis
    with x(2) k(1) len show "\<not> is_ready item" by (simp add: is_completed_def is_ready_def split: call_state.splits)
  qed
  then show ?thesis by (auto simp: ready_ids_def)
qed

lemma suspend_round_returns:
  assumes env: "env_answers E"
  shows "returns (suspend_round E T st c)"
proof -
  have "returns (admit_approvals E st as)" for "as"
    by (induction "as") (auto intro: returns_give returns_seqt returns_admit [OF env])
  then show ?thesis unfolding suspend_round_def suspend_pending_def
    by (intro returns_seqt returns_lift_res returns_if returns_raise returns_give returns_admit [OF env]) (simp_all add: no_panic)
qed

text \<open>What a round keeps: the next checkpoint is closer to the end, a settled run has its steps.\<close>

definition closer :: "('j, 'r) run_state \<Rightarrow> ('j, 'r) turn_checkpoint \<Rightarrow> ('j, 'r) pending_round \<Rightarrow> bool" where
  "closer st c r = (case r of
     RoundEnds (Waiting s) \<Rightarrow> True
   | RoundEnds (Settled st') \<Rightarrow> rn_steps st' = rn_steps st \<and> rn_config st' = rn_config st
   | RoundContinues c' \<Rightarrow> sturdy c' \<and> unsettled c' < unsettled c)"

lemma closer_suspend: "yields (suspend_round E T st d) (closer st c)"
  unfolding suspend_round_def by (intro yields_seqt yields_give) (simp add: closer_def)

lemma summary_approvals:
  "suspension_summary_of T c s = Ok w \<Longrightarrow> ss_approvals w = pending_approvals c"
  by (auto simp: suspension_summary_of_def res_simps)

lemma refresh_ready_facts:
  assumes "sturdy c"
  shows "yields (refresh_ready E T X st c) (\<lambda>(plan, c'). refreshes c c'
     \<and> checkpoint_validate T c' (ck_scope c') = Ok () \<and> covers plan c'
     \<and> (\<exists>policy. tx_policy X = Some policy \<and> decisions_sound (tk_policy T) policy plan c'))"
  by (rule yields_weaken [OF yields_conj [OF refresh_ready_yields refresh_ready_keeps [OF assms]]])
     (use assms in \<open>auto simp: sturdy_def split: prod.splits\<close>)

lemma unsettled_ready: "ready_ids c \<noteq> {} \<Longrightarrow> unsettled c > 0"
  by (simp add: unsettled_def card_gt_0_iff)

definition round_tail ::
  "('e, 'j, 'r) turn_env \<Rightarrow> ('j, 'r) turn_codec \<Rightarrow> bool \<Rightarrow> ('j, 'r) run_state \<Rightarrow> batch_plan
   \<Rightarrow> ('j, 'r) turn_checkpoint \<Rightarrow> ('e, 'j, 'r, ('j, 'r) pending_round) turn" where
  "round_tail E T suspend st plan c1 =
     bindt (lift_res (as_request (suspension_summary_of T c1 (ck_scope c1)))) (\<lambda>summary.
     case (suspend, ss_approvals summary) of
       (False, a # _) \<Rightarrow> bindt (await_approval E st c1 a) (\<lambda>c2. give (RoundContinues c2))
     | _ \<Rightarrow>
         bindt (dispatch_current_stage E T st c1 plan) (\<lambda>(progressed, c2).
           if progressed then give (RoundContinues c2) else suspend_round E T st c2))"

lemma ready_round_tail:
  "ready_round E T X suspend st c = bindt (refresh_ready E T X st c) (\<lambda>(plan, c1). round_tail E T suspend st plan c1)"
  by (simp add: ready_round_def round_tail_def)

lemma round_tail_closer:
  fixes X :: turn_executor
  assumes env: "env_answers E" and ready: "ready_ids c \<noteq> {}" and r: "refreshes c c1"
    and valid: "checkpoint_validate T c1 (ck_scope c1) = Ok ()"
    and policy: "tx_policy X = Some policy" and sound: "decisions_sound (tk_policy T) policy plan c1"
  shows "yields (round_tail E T suspend st plan c1) (closer st c)"
proof -
  note less = refreshes_unsettled [OF r]
  have await: "yields (bindt (await_approval E st c1 a) (\<lambda>c2. give (RoundContinues c2))) (closer st c)"
    if "a \<in> set (pending_approvals c1)" for a
    using confirm_approval_sturdy [OF valid_sturdy [OF valid]] confirm_approval_unsettled [OF valid that] less
    by (intro yields_bindt [OF await_approval_confirms] yields_give) (simp add: closer_def)
  have dispatch: "yields (bindt (dispatch_current_stage E T st c1 plan) (\<lambda>(progressed, c2).
           if progressed then give (RoundContinues c2) else suspend_round E T st c2)) (closer st c)"
  proof (rule yields_bindt [OF dispatch_current_stage_advances [OF env valid policy sound]])
    fix z
    assume z: "case z of (progressed, c') \<Rightarrow>
      progressed \<longrightarrow> c' = c1 \<and> get (ck_stages c1) (ck_stage_index c1) = None \<or> advances c1 c'"
    obtain progressed c2 where Z: "z = (progressed, c2)" by fastforce
    have "closer st c (RoundContinues c2)" if progressed
    proof (cases "advances c1 c2")
      case True
      with advances_unsettled [OF True] less show ?thesis by (simp add: closer_def advances_def)
    next
      case False
      with z Z that have c2: "c2 = c1" and none: "get (ck_stages c1) (ck_stage_index c1) = None" by auto
      from no_stage_left [OF valid none] have "unsettled c1 = 0" by (simp add: unsettled_def)
      with unsettled_ready [OF ready] valid_sturdy [OF valid] show ?thesis unfolding c2 closer_def by simp
    qed
    then show "yields (case z of (progressed, c2) \<Rightarrow>
      if progressed then give (RoundContinues c2) else suspend_round E T st c2) (closer st c)"
      unfolding Z prod.case by (simp add: yields_give closer_suspend)
  qed
  show ?thesis unfolding round_tail_def
  proof (rule yields_lift_bind)
    fix w assume "as_request (suspension_summary_of T c1 (ck_scope c1)) = Ok w"
    then have w: "ss_approvals w = pending_approvals c1" by (intro summary_approvals) (auto simp: as_request_def res_simps)
    show "yields (case (suspend, ss_approvals w) of
       (False, a # _) \<Rightarrow> bindt (await_approval E st c1 a) (\<lambda>c2. give (RoundContinues c2))
     | _ \<Rightarrow>
         bindt (dispatch_current_stage E T st c1 plan) (\<lambda>(progressed, c2).
           if progressed then give (RoundContinues c2) else suspend_round E T st c2)) (closer st c)"
    proof (cases "\<not> suspend \<and> ss_approvals w \<noteq> []")
      case True
      then obtain a rest where a: "\<not> suspend" "ss_approvals w = a # rest" by (cases "ss_approvals w") auto
      with w have "a \<in> set (pending_approvals c1)" by (metis list.set_intros(1))
      from await [OF this] a show ?thesis by simp
    next
      case False
      with dispatch show ?thesis by (cases suspend; cases "ss_approvals w") simp_all
    qed
  qed
qed

lemma ready_round_closer:
  assumes env: "env_answers E" and c: "sturdy c" and ready: "ready_ids c \<noteq> {}"
  shows "yields (ready_round E T X suspend st c) (closer st c)"
  unfolding ready_round_tail
  by (rule yields_bindt [OF refresh_ready_facts [OF c]])
     (auto intro: round_tail_closer [OF env ready] split: prod.splits)

lemma round_tail_returns:
  fixes X :: turn_executor
  assumes env: "env_answers E" and valid: "checkpoint_validate T c1 (ck_scope c1) = Ok ()" and covers: "covers plan c1"
    and policy: "tx_policy X = Some policy" and sound: "decisions_sound (tk_policy T) policy plan c1"
  shows "returns (round_tail E T suspend st plan c1)"
proof -
  have dispatch: "returns (bindt (dispatch_current_stage E T st c1 plan) (\<lambda>(progressed, c2).
           if progressed then give (RoundContinues c2) else suspend_round E T st c2))"
    by (rule returns_seqt [OF dispatch_current_stage_returns [OF env valid policy sound covers]])
       (auto simp: returns_give suspend_round_returns [OF env] split: prod.split)
  show ?thesis unfolding round_tail_def
  proof (rule returns_lift_bindt)
    fix w assume "as_request (suspension_summary_of T c1 (ck_scope c1)) = Ok w"
    then have w: "ss_approvals w = pending_approvals c1" by (intro summary_approvals) (auto simp: as_request_def res_simps)
    show "returns (case (suspend, ss_approvals w) of
       (False, a # _) \<Rightarrow> bindt (await_approval E st c1 a) (\<lambda>c2. give (RoundContinues c2))
     | _ \<Rightarrow>
         bindt (dispatch_current_stage E T st c1 plan) (\<lambda>(progressed, c2).
           if progressed then give (RoundContinues c2) else suspend_round E T st c2))"
    proof (cases "\<not> suspend \<and> ss_approvals w \<noteq> []")
      case True
      then obtain a rest where a: "\<not> suspend" "ss_approvals w = a # rest" by (cases "ss_approvals w") auto
      with w have "a \<in> set (pending_approvals c1)" by (metis list.set_intros(1))
      from returns_seqt [OF await_approval_returns [OF env this] returns_give] a show ?thesis by simp
    next
      case False
      with dispatch show ?thesis by (cases suspend; cases "ss_approvals w") simp_all
    qed
  qed (simp add: no_panic)
qed

lemma ready_round_returns:
  assumes env: "env_answers E" and c: "sturdy c"
  shows "returns (ready_round E T X suspend st c)"
  unfolding ready_round_tail
  by (rule returns_bindt [OF refresh_ready_returns [OF env c] refresh_ready_facts [OF c]])
     (auto intro: round_tail_returns [OF env] split: prod.splits)

lemma settle_pending_returns: "ck_steps c \<noteq> [] \<Longrightarrow> settle_pending st c \<noteq> Panic"
  by (auto simp: settle_pending_def res_simps no_panic)

lemma settle_pending_keeps: "settle_pending st c = Ok st' \<Longrightarrow> rn_steps st' = rn_steps st \<and> rn_config st' = rn_config st"
  by (auto simp: settle_pending_def res_simps split: if_splits)

lemma call_states: "is_awaiting item \<or> is_completed item \<or> is_ready item"
  by (cases "cc_state item") (simp_all add: is_awaiting_def is_completed_def is_ready_def)

lemma pending_step_closer:
  assumes env: "env_answers E" and c: "sturdy c"
  shows "yields (pending_step E T X suspend st c) (closer st c)"
proof -
  have settled: "yields (bindt (lift_res (settle_pending st c)) (\<lambda>st'. give (RoundEnds (Settled st')))) (closer st c)"
    by (intro yields_lift_bind yields_give) (simp add: closer_def settle_pending_keeps)
  have "yields (ready_round E T X suspend st c) (closer st c)"
    if "\<not> (\<exists>item \<in> set (ck_calls c). is_awaiting item)" and "\<not> (\<forall>item \<in> set (ck_calls c). is_completed item)"
  proof (rule ready_round_closer [OF env c])
    from that obtain item where "item \<in> set (ck_calls c)" "is_ready item" using call_states by blast
    then show "ready_ids c \<noteq> {}" by (auto simp: ready_ids_def)
  qed
  note ready = this
  show ?thesis unfolding pending_step_def
    by (rule yields_seqt, split if_split, intro conjI impI, rule closer_suspend, split if_split, intro conjI impI,
        rule settled, rule ready)
qed

lemma pending_step_returns:
  assumes env: "env_answers E" and c: "sturdy c"
  shows "returns (pending_step E T X suspend st c)"
  unfolding pending_step_def
  by (intro returns_seqt returns_check returns_if suspend_round_returns [OF env] ready_round_returns [OF env c]
      returns_lift_res settle_pending_returns returns_give) (use c in \<open>simp add: sturdy_def\<close>)

text \<open>The loop over a batch ends within its fuel.\<close>

definition settles :: "('j, 'r) run_state \<Rightarrow> ('j, 'r) pending_exit \<Rightarrow> bool" where
  "settles st x \<longleftrightarrow> (\<forall>st'. x = Settled st' \<longrightarrow> rn_steps st' = rn_steps st \<and> rn_config st' = rn_config st)"

lemma handle_pending_settles:
  assumes env: "env_answers E" and "sturdy c"
  shows "yields (handle_pending E T X suspend st fuel c) (settles st)"
  using assms(2)
proof (induction fuel arbitrary: c)
  case (Suc fuel)
  show ?case unfolding handle_pending.simps
    by (rule yields_bindt [OF pending_step_closer [OF env Suc.prems]])
       (use Suc.IH in \<open>auto simp: closer_def settles_def split: pending_round.splits pending_exit.splits intro!: yields_give\<close>)
qed (simp add: yields_panic)

lemma handle_pending_returns:
  assumes env: "env_answers E" and "sturdy c" and "unsettled c < fuel"
  shows "returns (handle_pending E T X suspend st fuel c)"
  using assms(2,3)
proof (induction fuel arbitrary: c)
  case (Suc fuel)
  show ?case unfolding handle_pending.simps
    by (rule returns_bindt [OF pending_step_returns [OF env Suc.prems(1)] pending_step_closer [OF env Suc.prems(1)]])
       (use Suc in \<open>auto simp: closer_def split: pending_round.splits intro!: returns_give\<close>)
qed simp

section \<open>A turn returns\<close>

definition fit :: "('j, 'r) run_state \<Rightarrow> bool" where
  "fit st \<longleftrightarrow> (\<forall>c. rn_pending st = Some c \<longrightarrow> sturdy c)"

lemma resume_pending_settles:
  assumes "env_answers E" and "fit st"
  shows "yields (resume_pending E T X suspend st) (settles st)"
  using assms handle_pending_settles
  by (auto simp: resume_pending_def fit_def settles_def split: option.split intro!: yields_give)

lemma resume_pending_returns:
  assumes "env_answers E" and "fit st"
  shows "returns (resume_pending E T X suspend st)"
  using assms by (auto simp: resume_pending_def fit_def split: option.split intro: returns_give handle_pending_returns [OF _ _ unsettled_fuel])

lemma complete_turn_returns: "env_answers E \<Longrightarrow> returns (complete_turn E st outcome why)"
  unfolding complete_turn_def by (intro returns_seqt returns_admit returns_emit returns_give)

lemma model_step_grows:
  "yields (model_step E st) (\<lambda>(step, st'). length (rn_steps st') = Suc (length (rn_steps st)) \<and> rn_config st' = rn_config st)"
  unfolding model_step_def Let_def by (intro yields_seqt yields_give) (simp add: request_of_step_def)

lemma model_step_returns: "env_answers E \<Longrightarrow> returns (model_step E st)"
  unfolding model_step_def Let_def
  by (intro returns_seqt returns_admit returns_emit returns_runt returns_effectt returns_give) (simp_all add: env_answers_def)

lemma initialize_pending_fit:
  "yields (initialize_pending E T X st) (\<lambda>st'. fit st' \<and> rn_steps st' = rn_steps st \<and> rn_config st' = rn_config st)"
  unfolding initialize_pending_def
  by (intro yields_seqt, split if_split, intro conjI impI yields_raise, split option.split,
      intro conjI impI allI yields_raise yields_seqt yields_lift_bind yields_give)
     (auto simp: fit_def as_request_def reconstruct_def Let_def res_simps intro: valid_sturdy)

lemma reconstruct_returns [no_panic]: "reconstruct T i s \<noteq> Panic"
  by (simp add: reconstruct_def Let_def res_simps no_panic)

lemma initialize_pending_returns:
  assumes env: "env_answers E" and "rn_steps st \<noteq> []"
  shows "returns (initialize_pending E T X st)"
proof -
  have "returns (bindt (prepare_entries E T st calls) (\<lambda>entries.
          bindt (lift_res (as_request (reconstruct T (initial_reconstruction st scope entries) scope))) (\<lambda>c.
            give (st\<lparr>rn_pending := Some c\<rparr>))))" for calls scope
    by (intro returns_seqt returns_prepare_entries [OF env] returns_lift_res returns_give) (simp add: no_panic)
  then show ?thesis unfolding initialize_pending_def
    by (intro returns_seqt returns_lift_res returns_if returns_raise)
       (use assms(2) in \<open>auto simp: res_simps no_panic returns_raise split: option.split\<close>)
qed

definition grows :: "('j, 'r) run_state \<Rightarrow> ('j, 'r) drive_round \<Rightarrow> bool" where
  "grows st r \<longleftrightarrow> (\<forall>st'. r = DriveContinues st' \<longrightarrow> fit st' \<and> length (rn_steps st') = Suc (length (rn_steps st))
     \<and> length (rn_steps st) < tg_max_steps (rn_config st) \<and> rn_config st' = rn_config st)"

lemma drive_step_grows:
  assumes env: "env_answers E" and fit: "fit st"
  shows "yields (drive_step E T X suspend st) (grows st)"
  unfolding drive_step_def
proof (rule yields_seqt, rule yields_bindt [OF resume_pending_settles [OF env fit]])
  fix x assume x: "settles st x"
  show "yields (case x of
       Waiting s \<Rightarrow> give (DriveEnds (DriveSuspended s))
     | Settled st1 \<Rightarrow>
         if tg_max_steps (rn_config st1) \<le> length (rn_steps st1)
         then bindt (complete_turn E st1 OutMaxSteps EndMaxSteps) (\<lambda>d. give (DriveEnds d))
         else
           bindt (model_step E st1) (\<lambda>(step, st2).
           if sp_outcome step \<noteq> ToolCalls
           then bindt (case outcome_from_step step of (outcome, why) \<Rightarrow> complete_turn E st2 outcome why)
                  (\<lambda>d. give (DriveEnds d))
           else bindt (initialize_pending E T X st2) (\<lambda>st3. give (DriveContinues st3)))) (grows st)"
  proof (cases x)
    case (Settled st1)
    with x have st1: "rn_steps st1 = rn_steps st" "rn_config st1 = rn_config st" by (simp_all add: settles_def)
    have ends: "yields (bindt m (\<lambda>d. give (DriveEnds d))) (grows st)" for m :: "('a, 'b, 'c, ('b, 'c) drive_exit) turn"
      by (intro yields_seqt yields_give) (simp add: grows_def)
    show ?thesis unfolding Settled pending_exit.case
    proof (split if_split, intro conjI impI ends, rule yields_bindt [OF model_step_grows])
      fix y :: "('b, 'c) step_result \<times> ('b, 'c) run_state"
      assume more: "\<not> tg_max_steps (rn_config st1) \<le> length (rn_steps st1)"
        and y: "case y of (step, st') \<Rightarrow> length (rn_steps st') = Suc (length (rn_steps st1)) \<and> rn_config st' = rn_config st1"
      obtain step st2 where Y: "y = (step, st2)" by fastforce
      have "yields (bindt (initialize_pending E T X st2) (\<lambda>st3. give (DriveContinues st3))) (grows st)"
        by (rule yields_bindt [OF initialize_pending_fit], rule yields_give) (use y Y more st1 in \<open>simp add: grows_def\<close>)
      with ends show "yields (case y of (step, st2) \<Rightarrow>
           if sp_outcome step \<noteq> ToolCalls
           then bindt (case outcome_from_step step of (outcome, why) \<Rightarrow> complete_turn E st2 outcome why)
                  (\<lambda>d. give (DriveEnds d))
           else bindt (initialize_pending E T X st2) (\<lambda>st3. give (DriveContinues st3))) (grows st)"
        unfolding Y by simp
    qed
  qed (simp add: yields_give grows_def)
qed

lemma drive_step_returns:
  assumes env: "env_answers E" and fit: "fit st"
  shows "returns (drive_step E T X suspend st)"
proof -
  have ends: "returns (bindt (complete_turn E st1 outcome why) (\<lambda>d. give (DriveEnds d)))" for st1 outcome why
    by (intro returns_seqt complete_turn_returns [OF env] returns_give)
  have "returns (bindt (model_step E st1) (\<lambda>(step, st2).
           if sp_outcome step \<noteq> ToolCalls
           then bindt (case outcome_from_step step of (outcome, why) \<Rightarrow> complete_turn E st2 outcome why)
                  (\<lambda>d. give (DriveEnds d))
           else bindt (initialize_pending E T X st2) (\<lambda>st3. give (DriveContinues st3))))" for st1
  proof (rule returns_bindt [OF model_step_returns [OF env] model_step_grows])
    fix y :: "('b, 'c) step_result \<times> ('b, 'c) run_state"
    assume y: "case y of (step, st') \<Rightarrow> length (rn_steps st') = Suc (length (rn_steps st1)) \<and> rn_config st' = rn_config st1"
    obtain step st2 where Y: "y = (step, st2)" by fastforce
    from y Y have "rn_steps st2 \<noteq> []" by auto
    then have "returns (bindt (initialize_pending E T X st2) (\<lambda>st3. give (DriveContinues st3)))"
      by (intro returns_seqt initialize_pending_returns [OF env] returns_give)
    then show "returns (case y of (step, st2) \<Rightarrow>
           if sp_outcome step \<noteq> ToolCalls
           then bindt (case outcome_from_step step of (outcome, why) \<Rightarrow> complete_turn E st2 outcome why)
                  (\<lambda>d. give (DriveEnds d))
           else bindt (initialize_pending E T X st2) (\<lambda>st3. give (DriveContinues st3)))"
      unfolding Y by (simp add: ends split: prod.split)
  qed
  with ends show ?thesis unfolding drive_step_def
    by (intro returns_seqt returns_check resume_pending_returns [OF env fit]) (simp add: returns_give split: pending_exit.split)
qed

lemma drive_loop_returns:
  assumes env: "env_answers E" and "fit st" and "tg_max_steps (rn_config st) - length (rn_steps st) < fuel"
  shows "returns (drive_loop E T X suspend fuel st)"
  using assms(2,3)
proof (induction fuel arbitrary: st)
  case (Suc fuel)
  show ?case unfolding drive_loop.simps
    by (rule returns_bindt [OF drive_step_returns [OF env Suc.prems(1)] drive_step_grows [OF env Suc.prems(1)]])
       (use Suc in \<open>auto simp: grows_def split: drive_round.splits intro!: returns_give\<close>)
qed simp

lemma drive_returns:
  assumes env: "env_answers E" and "fit st"
  shows "returns (drive E T X suspend st)"
  unfolding drive_def
  by (intro returns_seqt drive_loop_returns [OF env])
     (use assms in \<open>auto simp: fit_def drive_fuel_def intro: returns_give returns_admit split: option.split\<close>)

lemma fail_run_returns: "env_answers E \<Longrightarrow> returns (fail_run E st e)"
  unfolding fail_run_def
  by (intro returns_seqt returns_tryt returns_emit)
     (simp_all add: returns_raise split: res.split turn_error.split tool_error.split)

lemma run_turn_returns:
  assumes env: "env_answers E" and "fit st"
  shows "returns (run_turn E T X suspend st)"
proof -
  have e: "returns new_events" "returns emitted" by (simp_all add: returns_def new_events_def emitted_def)
  have run: "returns (bindt (tryt (drive E T X suspend st)) (\<lambda>r.
       case r of
         Ok (DriveSuspended s) \<Rightarrow> give (TurnSuspended s)
       | Ok (DriveCompleted t) \<Rightarrow>
           bindt emitted (\<lambda>events. give (TurnCompleted \<lparr>tn_result = t, tn_events = events\<rparr>))
       | Err e \<Rightarrow> fail_run E st e
       | Panic \<Rightarrow> lift_res Panic))"
    by (rule returns_bindt [OF returns_tryt [OF drive_returns [OF assms]] yields_tryt_not_panic])
       (auto simp: returns_give returns_seqt e fail_run_returns [OF env] split: res.split drive_exit.split)
  show ?thesis unfolding run_turn_def
    by (intro returns_seqt e run) (simp_all add: returns_give returns_emit [OF env])
qed

lemma state_fit:
  "state_with_deadline q dispatch timeout d = Ok st \<Longrightarrow> fit st"
  "state_of_checkpoint T c s d = Ok st \<Longrightarrow> fit st"
  by (auto simp: state_with_deadline_def state_of_checkpoint_def fit_def as_request_def res_simps
      split: if_splits intro: valid_sturdy)

section \<open>The property\<close>

lemma start_returns:
  assumes "env_answers E"
  shows "returns (start_with_deadline E T add reading X q d)" and "returns (start_resumable E T add reading reading' X q)"
    and "returns (execute_turn E T add reading X q)"
proof -
  have state: "andthen (map_err TeDeadline (validate_duration d (tg_deadline (tq_config q))))
       (bindr (map_err TeDeadline (tighten_absolute add reading d (tx_absolute_deadline X))) (\<lambda>d'.
          state_with_deadline q (tx_dispatch X) (tx_tool_timeout X) d')) \<noteq> Panic" for reading d
    by (auto simp: res_simps no_panic)
  show start: "returns (start_with_deadline E T add reading X q d)" for reading d
    unfolding start_with_deadline_def
    by (rule returns_lift_bindt [OF state], rule run_turn_returns [OF assms]) (auto simp: res_simps intro: state_fit)
  show "returns (start_resumable E T add reading reading' X q)"
    unfolding start_resumable_def by (intro returns_seqt returns_lift_res start) (simp add: res_simps no_panic)
  have "returns (run_turn E T X False st)" if "bindr (map_err TeDeadline
       (capture_deadline add reading (tg_deadline (tq_config q)) (tx_absolute_deadline X))) (\<lambda>d.
          state_with_deadline q (tx_dispatch X) (tx_tool_timeout X) d) = Ok st" for st
    using that by (intro run_turn_returns [OF assms]) (auto simp: res_simps intro: state_fit)
  then show "returns (execute_turn E T add reading X q)" unfolding execute_turn_def
    by (intro returns_lift_bindt returns_seqt)
       (auto simp: res_simps no_panic returns_give returns_raise split: resumable_turn.split)
qed

lemma resume_returns:
  assumes "env_answers E"
  shows "returns (resume_checkpoint E T X c expected d)" and "returns (merge_resume E T X s input expected d)"
proof -
  have "returns (bindt (lift_res (state_of_checkpoint T c expected d)) (run_turn E T X True))"
    by (rule returns_lift_bindt) (auto simp: no_panic intro: run_turn_returns [OF assms] state_fit)
  note run = this
  show "returns (resume_checkpoint E T X c expected d)" unfolding resume_checkpoint_def
    by (rule returns_seqt [OF returns_lift_res]) (simp_all add: no_panic returns_raise run)
  show "returns (merge_resume E T X s input expected d)" unfolding merge_resume_def
    by (intro returns_seqt returns_lift_res returns_check)
       (auto simp: no_panic returns_envt intro!: returns_lift_res returns_seqt split: resume_input.split)
qed


text \<open>An environment with a ticking clock, whose model asks for a tool, then answers.\<close>

definition answering_env :: "(nat, unit, unit) turn_env" where
  "answering_env = \<lparr>te_cancelled = \<lambda>e. (False, e), te_now = \<lambda>e. (e, e + 1), te_now_ms = \<lambda>e. (0, e),
     te_gate = \<lambda>t k d e. (Ok (), e),
     te_model = \<lambda>i q d e. (Ok (if length (mr_messages q) = 0
        then \<lparr>rp_content = [ToolCallBlock (sample_call ''r'')], rp_stop_reason = ToolUse, rp_rest = ()\<rparr>
        else \<lparr>rp_content = [TextBlock ''done''], rp_stop_reason = EndTurn, rp_rest = ()\<rparr>), e),
     te_prepare = \<lambda>call d e. (Ok (sample_prepared (cl_id call)), e),
     te_execute = \<lambda>iv e. (Ok (OutcomeCompleted \<lparr>tr_call_id = cl_id (pc_call (iv_prepared iv)), tr_content = ''ok'',
        tr_is_error = False\<rparr>), e),
     te_await_approval = \<lambda>n d e. (Ok (), e), te_record = \<lambda>ev e. (Ok (), e), te_record_request = \<lambda>q e. (Ok (), e),
     te_record_checkpoint = \<lambda>c e. (Ok (), e)\<rparr>"

definition sample_turn_codec :: "(unit, unit) turn_codec" where
  "sample_turn_codec = \<lparr>tk_policy = sample_codec, tk_checkpoint_writes = \<lambda>_. ([], False), tk_result_size = \<lambda>r. length (tr_content r),
     tk_value_size = \<lambda>_. 2, tk_decode = \<lambda>_. None, tk_scope_bytes = \<lambda>k _. k, tk_approval_bytes = \<lambda>k _. k\<rparr>"

definition sample_executor :: turn_executor where
  "sample_executor = \<lparr>tx_dispatch = \<lparr>dp_mode = Serial, dp_on_error = ContinueBatch\<rparr>, tx_tool_timeout = None,
     tx_policy = Some sample_engine, tx_execution_key = Some (sc_execution sample_scope),
     tx_agent_snapshot_digest = sc_agent_snapshot_digest sample_scope, tx_absolute_deadline = None\<rparr>"

definition sample_request :: "(unit, unit) turn_request" where
  "sample_request = \<lparr>tq_turn_id = ek_turn_id (sc_execution sample_scope),
     tq_model_request = \<lparr>mr_request_id = [], mr_messages = [], mr_rest = ()\<rparr>,
     tq_config = \<lparr>tg_max_steps = 3, tg_max_tool_calls = Some 2, tg_deadline = None\<rparr>\<rparr>"

definition sample_world :: "(nat, unit, unit) world" where
  "sample_world = \<lparr>wd_env = 0, wd_events = [], wd_effects = []\<rparr>"


end
