(* ===== verification/Turn_Resume.thy ===== *)
theory Turn_Resume
  imports Turn_Returns
begin

text \<open>
  A suspended turn can be stored and resumed: what a run hands out is a checkpoint that validates, is
  within the encoded limit, and is accepted again with its waiting summary.
\<close>

definition resumable :: "('j, 'r) turn_codec \<Rightarrow> ('j, 'r) turn_suspension \<Rightarrow> bool" where
  "resumable T s \<longleftrightarrow>
     suspension_from_checkpoint T (su_checkpoint s) (ck_scope (su_checkpoint s)) = Ok s
     \<and> (ss_approvals (su_waiting s) \<noteq> [] \<or> ss_external_waits (su_waiting s) \<noteq> [])"

lemma suspend_pending_resumable: "yields (suspend_pending E T st c) (resumable T)"
  unfolding suspend_pending_def
proof (rule yields_lift_bind, split if_split, intro conjI impI yields_raise yields_seqt yields_give)
  fix s
  assume s: "as_request (suspension_from_checkpoint T c (ck_scope c)) = Ok s"
    and waiting: "\<not> (ss_approvals (su_waiting s) = [] \<and> ss_external_waits (su_waiting s) = [])"
  from s have "suspension_from_checkpoint T c (ck_scope c) = Ok s" by (auto simp: as_request_def res_simps)
  moreover from this have "su_checkpoint s = c" by (auto simp: suspension_from_checkpoint_def res_simps)
  ultimately show "resumable T s" using waiting by (simp add: resumable_def)
qed

definition round_resumable :: "('j, 'r) turn_codec \<Rightarrow> ('j, 'r) pending_round \<Rightarrow> bool" where
  "round_resumable T r \<longleftrightarrow> (\<forall>s. r = RoundEnds (Waiting s) \<longrightarrow> resumable T s)"

lemma suspend_round_resumable: "yields (suspend_round E T st c) (round_resumable T)"
  unfolding suspend_round_def
  by (rule yields_bindt [OF suspend_pending_resumable], rule yields_give) (simp add: round_resumable_def)

lemma round_tail_resumable: "yields (round_tail E T suspend st plan c) (round_resumable T)"
proof -
  have continues: "yields (bindt m (\<lambda>c. give (RoundContinues c))) (round_resumable T)"
    for m :: "('a, 'b, 'c, ('b, 'c) turn_checkpoint) turn"
    by (intro yields_seqt yields_give) (simp add: round_resumable_def)
  have dispatch: "yields (bindt (dispatch_current_stage E T st c plan) (\<lambda>(progressed, c2).
      if progressed then give (RoundContinues c2) else suspend_round E T st c2)) (round_resumable T)"
    by (intro yields_seqt) (auto simp: suspend_round_resumable round_resumable_def intro: yields_give split: prod.split)
  show ?thesis unfolding round_tail_def
    by (intro yields_seqt) (auto simp: continues dispatch split: bool.split list.split)
qed

lemma pending_step_resumable: "yields (pending_step E T X suspend st c) (round_resumable T)"
proof -
  have ready: "yields (ready_round E T X suspend st c) (round_resumable T)"
    unfolding ready_round_tail by (intro yields_seqt) (simp add: round_tail_resumable split: prod.split)
  have settled: "yields (bindt (lift_res (settle_pending st c)) (\<lambda>st'. give (RoundEnds (Settled st')))) (round_resumable T)"
    by (intro yields_seqt yields_give) (simp add: round_resumable_def)
  show ?thesis unfolding pending_step_def
    by (rule yields_seqt, split if_split, intro conjI impI, rule suspend_round_resumable, split if_split,
        intro conjI impI, rule settled, rule ready)
qed

lemma handle_pending_resumable:
  "yields (handle_pending E T X suspend st fuel c) (\<lambda>x. \<forall>s. x = Waiting s \<longrightarrow> resumable T s)"
proof (induction fuel arbitrary: c)
  case (Suc fuel)
  show ?case unfolding handle_pending.simps
    by (rule yields_bindt [OF pending_step_resumable])
       (use Suc in \<open>auto simp: round_resumable_def split: pending_round.splits intro!: yields_give\<close>)
qed (simp add: yields_panic)

definition drive_resumable :: "('j, 'r) turn_codec \<Rightarrow> ('j, 'r) drive_round \<Rightarrow> bool" where
  "drive_resumable T r \<longleftrightarrow> (\<forall>s. r = DriveEnds (DriveSuspended s) \<longrightarrow> resumable T s)"

lemma complete_turn_completes: "yields (complete_turn E st outcome why) (\<lambda>d. \<forall>s. d \<noteq> DriveSuspended s)"
  unfolding complete_turn_def by (intro yields_seqt yields_give) simp

lemma drive_step_resumable: "yields (drive_step E T X suspend st) (drive_resumable T)"
proof -
  have pending: "yields (resume_pending E T X suspend st) (\<lambda>x. \<forall>s. x = Waiting s \<longrightarrow> resumable T s)"
    using handle_pending_resumable by (auto simp: resume_pending_def split: option.split intro: yields_give)
  have ends: "yields (bindt (complete_turn E st' outcome why) (\<lambda>d. give (DriveEnds d))) (drive_resumable T)" for st' outcome why
    by (rule yields_bindt [OF complete_turn_completes], rule yields_give) (simp add: drive_resumable_def)
  have continues: "yields (bindt (initialize_pending E T X st') (\<lambda>st3. give (DriveContinues st3))) (drive_resumable T)" for st'
    by (intro yields_seqt yields_give) (simp add: drive_resumable_def)
  show ?thesis unfolding drive_step_def
  proof (rule yields_seqt, rule yields_bindt [OF pending])
    fix x :: "('b, 'c) pending_exit"
    assume x: "\<forall>s. x = Waiting s \<longrightarrow> resumable T s"
    show "yields (case x of
       Waiting s \<Rightarrow> give (DriveEnds (DriveSuspended s))
     | Settled st1 \<Rightarrow>
         if tg_max_steps (rn_config st1) \<le> length (rn_steps st1)
         then bindt (complete_turn E st1 OutMaxSteps EndMaxSteps) (\<lambda>d. give (DriveEnds d))
         else
           bindt (model_step E st1) (\<lambda>(step, st2).
           if sp_outcome step \<noteq> ToolCalls
           then bindt (case outcome_from_step step of (outcome, why) \<Rightarrow> complete_turn E st2 outcome why)
                  (\<lambda>d. give (DriveEnds d))
           else bindt (initialize_pending E T X st2) (\<lambda>st3. give (DriveContinues st3)))) (drive_resumable T)"
    proof (cases x)
      case (Waiting s)
      with x show ?thesis by (simp add: yields_give drive_resumable_def)
    next
      case (Settled st1)
      have "yields (bindt (model_step E st1) (\<lambda>(step, st2).
           if sp_outcome step \<noteq> ToolCalls
           then bindt (case outcome_from_step step of (outcome, why) \<Rightarrow> complete_turn E st2 outcome why)
                  (\<lambda>d. give (DriveEnds d))
           else bindt (initialize_pending E T X st2) (\<lambda>st3. give (DriveContinues st3)))) (drive_resumable T)"
        by (rule yields_seqt) (simp add: ends continues split: prod.split)
      with ends show ?thesis by (simp add: Settled)
    qed
  qed
qed

lemma drive_loop_resumable:
  "yields (drive_loop E T X suspend fuel st) (\<lambda>d. \<forall>s. d = DriveSuspended s \<longrightarrow> resumable T s)"
proof (induction fuel arbitrary: st)
  case (Suc fuel)
  show ?case unfolding drive_loop.simps
    by (rule yields_bindt [OF drive_step_resumable])
       (use Suc in \<open>auto simp: drive_resumable_def split: drive_round.splits intro!: yields_give\<close>)
qed (simp add: yields_panic)

lemma run_turn_resumable: "yields (run_turn E T X suspend st) (\<lambda>r. \<forall>s. r = TurnSuspended s \<longrightarrow> resumable T s)"
proof -
  have "yields (drive E T X suspend st) (\<lambda>d. \<forall>s. d = DriveSuspended s \<longrightarrow> resumable T s)"
    unfolding drive_def by (rule yields_seqt) (rule drive_loop_resumable)
  from yields_tryt [OF this]
  have "yields (bindt (tryt (drive E T X suspend st)) (\<lambda>r.
       case r of
         Ok (DriveSuspended s) \<Rightarrow> give (TurnSuspended s)
       | Ok (DriveCompleted t) \<Rightarrow>
           bindt emitted (\<lambda>events. give (TurnCompleted \<lparr>tn_result = t, tn_events = events\<rparr>))
       | Err e \<Rightarrow> fail_run E st e
       | Panic \<Rightarrow> lift_res Panic)) (\<lambda>r. \<forall>s. r = TurnSuspended s \<longrightarrow> resumable T s)"
  proof (rule yields_bindt)
    fix r :: "(turn_error, ('b, 'c) drive_exit) res"
    assume r: "\<forall>x. r = Ok x \<longrightarrow> (\<forall>s. x = DriveSuspended s \<longrightarrow> resumable T s)"
    have fail: "yields (fail_run E st e) Q" for e and Q :: "('b, 'c) resumable_turn \<Rightarrow> bool"
      unfolding fail_run_def
      by (intro yields_seqt) (auto simp: yields_raise split: res.split turn_error.split tool_error.split)
    show "yields (case r of
         Ok (DriveSuspended s) \<Rightarrow> give (TurnSuspended s)
       | Ok (DriveCompleted t) \<Rightarrow>
           bindt emitted (\<lambda>events. give (TurnCompleted \<lparr>tn_result = t, tn_events = events\<rparr>))
       | Err e \<Rightarrow> fail_run E st e
       | Panic \<Rightarrow> lift_res Panic) (\<lambda>r. \<forall>s. r = TurnSuspended s \<longrightarrow> resumable T s)"
      using r by (auto simp: fail yields_panic intro!: yields_give yields_seqt split: res.split drive_exit.split)
  qed
  then show ?thesis unfolding run_turn_def by (rule yields_seqt [OF yields_seqt])
qed

lemma encoded_limit_Ok: "encoded_limit n sizes fails = Ok () \<Longrightarrow> n + sum_list sizes \<le> MAX_TURN_CHECKPOINT_BYTES \<or> sizes = []"
  by (induction n sizes fails rule: encoded_limit.induct) (auto split: if_splits)

lemma resumable_decodes:
  assumes s: "resumable T s" and d: "tk_decode T bytes = Some (su_checkpoint s)"
    and w: "length bytes = sum_list (fst (tk_checkpoint_writes T (su_checkpoint s)))"
  shows "checkpoint_from_json T bytes (ck_scope (su_checkpoint s)) = Ok (su_checkpoint s)
    \<and> suspension_validate T s (ck_scope (su_checkpoint s)) = Ok ()"
proof -
  let ?c = "su_checkpoint s"
  from s obtain waiting where summary: "suspension_summary_of T ?c (ck_scope ?c) = Ok waiting" and s': "s = \<lparr>su_checkpoint = ?c, su_waiting = waiting\<rparr>"
    unfolding resumable_def suspension_from_checkpoint_def by (auto simp: res_simps)
  then have valid: "checkpoint_validate T ?c (ck_scope ?c) = Ok ()" by (auto simp: suspension_summary_of_def res_simps)
  then have "encoded_limit 0 (fst (tk_checkpoint_writes T ?c)) (snd (tk_checkpoint_writes T ?c)) = Ok ()"
    by (auto simp: checkpoint_validate_def res_simps split: prod.splits)
  from encoded_limit_Ok [OF this] w have "length bytes \<le> MAX_TURN_CHECKPOINT_BYTES" by auto
  then have "checkpoint_from_json T bytes (ck_scope ?c) = Ok ?c" using d valid by (simp add: checkpoint_from_json_def)
  moreover have "su_waiting s = waiting" by (subst s') simp
  ultimately show ?thesis using summary by (simp add: suspension_validate_def)
qed


text \<open>A checkpoint that waits for an external result, and its resumption.\<close>

definition sample_wait :: "unit external_wait" where
  "sample_wait = \<lparr>ew_wait_id = ''w'', ew_kind = ''k'', ew_schema_version = 1, ew_binding = ()\<rparr>"

definition sample_issued :: "unit issued_authority" where
  "sample_issued = \<lparr>ia_prepared = sample_prepared ''r'',
     ia_grant = \<lparr>pg_scope = sample_scope, pg_call_id = ''r'', pg_tool_name = ''file.write'', pg_tool_revision = ''r'',
       pg_prepared_digest = ''h{}'', pg_policy_revision = ''r'',
       pg_constraints = \<lparr>ec_max_output_bytes = Some 100, ec_timeout_ms = Some 5\<rparr>, pg_approval_evidence_id = None\<rparr>,
     ia_scope = sample_scope, ia_policy_revision = ''r''\<rparr>"

definition waiting_checkpoint :: "(unit, unit) turn_checkpoint" where
  "waiting_checkpoint = \<lparr>ck_schema_version = 1, ck_checkpoint_id = ''c'', ck_scope = sample_scope,
     ck_model_request = \<lparr>mr_request_id = [], mr_messages = [], mr_rest = ()\<rparr>, ck_input_message_count = 0,
     ck_steps = [step_of_response ''t-step-0''
       \<lparr>rp_content = [ToolCallBlock (sample_call ''r'')], rp_stop_reason = ToolUse, rp_rest = ()\<rparr>],
     ck_next_step_index = 1,
     ck_calls = [\<lparr>cc_call = sample_call ''r'', cc_prepared = Some (sample_prepared ''r''), cc_charged = True,
       cc_state = CallAwaiting sample_wait sample_issued\<rparr>],
     ck_stages = [[''r'']], ck_stage_index = 0, ck_approvals = [],
     ck_budget = \<lparr>cb_max_steps = 3, cb_max_tool_calls = Some 2, cb_deadline_at_ms = None, cb_tool_timeout_ms = None,
       cb_prior_tool_calls_used = 0, cb_tool_calls_used = 1\<rparr>,
     ck_dispatch = \<lparr>dp_mode = Serial, dp_on_error = ContinueBatch\<rparr>\<rparr>"

definition waiting_suspension :: "(unit, unit) turn_suspension" where
  "waiting_suspension = \<lparr>su_checkpoint = waiting_checkpoint,
     su_waiting = \<lparr>ss_approvals = [], ss_external_waits = [\<lparr>pw_call_id = ''r'', pw_wait = sample_wait\<rparr>]\<rparr>\<rparr>"

definition storing_codec :: "(unit, unit) turn_codec" where
  "storing_codec = sample_turn_codec\<lparr>tk_decode := \<lambda>_. Some waiting_checkpoint\<rparr>"

definition no_deadline :: turn_deadline where
  "no_deadline = \<lparr>dl_duration = None, dl_sample = None, dl_instant = None, dl_unix_ms = None\<rparr>"

lemma storing_policy: "tk_policy storing_codec = sample_codec"
  by (simp add: storing_codec_def sample_turn_codec_def)

lemma sample_issued_valid: "authority_validate storing_codec sample_issued sample_scope = Ok ()"
proof -
  have "grant_validate sample_codec (ia_grant sample_issued) (sample_prepared ''r'') ''r'' sample_scope = Ok ()"
    by (simp add: grant_validate_def sample_issued_def sample_prepared_valid sample_scope_valid)
       (simp add: limit_refused_def sample_prepared_def sample_call_def)
  then show ?thesis by (simp add: authority_validate_def storing_policy sample_issued_def invalid_prepared_def)
qed

lemma sample_wait_valid: "wait_validate storing_codec sample_wait = Ok ()"
  by (simp add: wait_validate_def check_identifier_def sample_wait_def identifier_bytes_def alnum_def Let_def
      storing_policy is_object_def sample_codec_def storing_codec_def sample_turn_codec_def MAX_EXTERNAL_BINDING_BYTES_def)

lemma waiting_calls_valid:
  "check_calls storing_codec sample_scope {} {} (ck_calls waiting_checkpoint) = Ok ()"
proof -
  have "cc_call (hd (ck_calls waiting_checkpoint)) = sample_call ''r''" by (simp add: waiting_checkpoint_def)
  have "pc_call (sample_prepared ''r'') = sample_call ''r''" by (simp add: sample_prepared_def)
  then show ?thesis
    by (simp add: waiting_checkpoint_def check_call_prepared_def storing_policy sample_prepared_valid invalid_prepared_def
        check_call_state_def sample_wait_valid validate_authority_def sample_issued_valid)
       (simp add: sample_issued_def sample_call_def)
qed

lemma waiting_checkpoint_valid: "checkpoint_validate storing_codec waiting_checkpoint sample_scope = Ok ()"
proof -
  have w: "tk_checkpoint_writes storing_codec waiting_checkpoint = ([], False)"
    by (simp add: storing_codec_def sample_turn_codec_def)
  have i: "check_identifier (ck_checkpoint_id waiting_checkpoint) = Ok ()"
    by (simp add: check_identifier_def waiting_checkpoint_def identifier_bytes_def alnum_def Let_def)
  have b: "check_boundary waiting_checkpoint = Ok ()"
    by (simp add: check_boundary_def waiting_checkpoint_def TURN_CHECKPOINT_SCHEMA_def)
  have s: "check_steps waiting_checkpoint = Ok ()"
    by (simp add: check_steps_def waiting_checkpoint_def step_of_response_def sample_scope_def step_id_def
        decimal.simps [of 0] tool_calls_def) code_simp
  have p: "check_partition waiting_checkpoint = Ok ()"
    by (simp add: check_partition_def waiting_checkpoint_def find_call_def sample_call_def is_completed_def is_ready_def)
  have u: "check_budget waiting_checkpoint = Ok ()"
    by (simp add: check_budget_def waiting_checkpoint_def charged_def exceeds_def)
  have sc: "ck_scope waiting_checkpoint = sample_scope" and a: "ck_approvals waiting_checkpoint = []"
    by (simp_all add: waiting_checkpoint_def)
  show ?thesis
    unfolding checkpoint_validate_def w sc a i b s p u waiting_calls_valid
    by (simp add: sample_scope_valid invalid_prepared_def)
qed

lemma waiting_suspension_of:
  "suspension_from_checkpoint storing_codec waiting_checkpoint sample_scope = Ok waiting_suspension"
  by (simp add: suspension_from_checkpoint_def suspension_summary_of_def waiting_checkpoint_valid waiting_suspension_def)
     (simp add: pending_approvals_def pending_waits_def waiting_checkpoint_def sample_call_def)

lemma waiting_resumes:
  "fst (resume_checkpoint answering_env storing_codec sample_executor waiting_checkpoint sample_scope no_deadline
     sample_world) = Ok (TurnSuspended waiting_suspension)"
proof -
  let ?E = "answering_env" and ?T = "storing_codec" and ?X = "sample_executor" and ?c = waiting_checkpoint
  have running: "check ?E st w = (Ok (), w)" if "rn_deadline st = None" for st :: "(unit, unit) run_state" and w
    using that by (cases w) (simp add: check_def bindt_def envt_def answering_env_def give_def)
  have gate: "admit_boundary ?E st k w = (Ok (), w)" if "rn_deadline st = None" for st :: "(unit, unit) run_state" and k w
    using that by (cases w) (simp add: admit_boundary_def bindt_def running, simp add: envt_def answering_env_def bindt_def lift_res_def)
  have scope: "ck_scope ?c = sample_scope" by (simp add: waiting_checkpoint_def)
  have suspends: "suspend_round ?E ?T st ?c w = (Ok (RoundEnds (Waiting waiting_suspension)), w)"
    if "rn_deadline st = None" for st :: "(unit, unit) run_state" and w
    using that
    by (simp add: suspend_round_def suspend_pending_def scope waiting_suspension_of as_request_def bindt_def lift_res_def)
       (simp add: waiting_suspension_def gate give_def bindt_def)
  have round: "pending_step ?E ?T ?X True st ?c w = (Ok (RoundEnds (Waiting waiting_suspension)), w)"
    if "rn_deadline st = None" for st :: "(unit, unit) run_state" and w
  proof -
    have "\<exists>item \<in> set (ck_calls ?c). is_awaiting item" by (simp add: waiting_checkpoint_def is_awaiting_def)
    with that show ?thesis by (simp add: pending_step_def bindt_def running suspends)
  qed
  obtain st where st: "state_of_checkpoint ?T ?c sample_scope no_deadline = Ok st"
    and facts: "rn_deadline st = None" "rn_pending st = Some ?c" "rn_resumed st" "rn_resume_boundary st = Some ''c''"
    by (simp add: state_of_checkpoint_def as_request_def waiting_checkpoint_valid validate_duration_def no_deadline_def)
       (simp add: waiting_checkpoint_def)
  have "drive_step ?E ?T ?X True (st\<lparr>rn_resume_boundary := None\<rparr>) w = (Ok (DriveEnds (DriveSuspended waiting_suspension)), w)" for w
    using facts by (simp add: drive_step_def resume_pending_def pending_fuel_def bindt_def running round give_def)
  then have "drive ?E ?T ?X True st w = (Ok (DriveSuspended waiting_suspension), w)" for w
    using facts by (simp add: drive_def drive_fuel_def bindt_def gate give_def)
  then have "fst (run_turn ?E ?T ?X True st w) = Ok (TurnSuspended waiting_suspension)" for w
    using facts by (simp add: run_turn_def new_events_def bindt_def tryt_def give_def)
  moreover have "validate_resume_scope ?X sample_scope = Ok ()"
  proof -
    have "tool_scope ?X (ek_turn_id (sc_execution sample_scope)) (sc_step_id sample_scope) = Ok sample_scope"
      by (simp add: tool_scope_def sample_executor_def Let_def sample_scope_valid [unfolded sample_scope_def])
         (simp add: sample_scope_def sample_scope_valid [unfolded sample_scope_def])
    then show ?thesis by (simp add: validate_resume_scope_def)
  qed
  ultimately show ?thesis
    by (simp add: resume_checkpoint_def bindt_def lift_res_def st sample_executor_def)
qed


end
