(* ===== verification/Step_Stream.thy ===== *)
theory Step_Stream
  imports Turn_Drive
begin

text \<open>
  One model call, \<open>crates/kolyan-core/src/step.rs\<close> and \<open>step/control.rs\<close>: the boundary of cancellation
  and deadline, the opening race, the polled stream of step events with its recording wrapper, and
  the aggregation to a step result. A poll of a stream is one call of a function; what the poll
  reads from outside (the sticky flag, the clock, the timer, the provider's stream, the recorder) is its
  input, so that a run of the stream is a list of inputs. A failing \<open>expect\<close> is \<open>Panic\<close>.
\<close>

section \<open>Cancellation and deadline\<close>

datatype 'a poll = Pending | Ready 'a

datatype stop = StopCancelled | StopTimedOut

record boundary =
  bo_deadline :: "instant option"
  bo_timer :: bool

definition boundary_new :: "bool \<Rightarrow> instant \<Rightarrow> instant option \<Rightarrow> boundary" where
  "boundary_new cancelled now deadline =
     \<lparr>bo_deadline = deadline, bo_timer = (case deadline of None \<Rightarrow> False | Some limit \<Rightarrow> now < limit \<and> \<not> cancelled)\<rparr>"

definition current_stop :: "boundary \<Rightarrow> bool \<Rightarrow> instant \<Rightarrow> stop option" where
  "current_stop b cancelled now =
     (if cancelled then Some StopCancelled
      else if (case bo_deadline b of None \<Rightarrow> False | Some limit \<Rightarrow> limit \<le> now) then Some StopTimedOut
      else None)"

text \<open>What one poll reads: the flag, the clock, the notification, the timer, and the flag again.\<close>

record readings =
  pr_cancelled :: bool
  pr_now :: instant
  pr_notified :: bool
  pr_timer :: bool
  pr_cancelled_late :: bool

definition poll_stop :: "boundary \<Rightarrow> readings \<Rightarrow> stop option" where
  "poll_stop b r =
     (case current_stop b (pr_cancelled r) (pr_now r) of
        Some stop \<Rightarrow> Some stop
      | None \<Rightarrow>
          if pr_notified r then Some StopCancelled
          else if bo_timer b \<and> pr_timer r then Some (if pr_cancelled_late r then StopCancelled else StopTimedOut)
          else None)"

section \<open>Events\<close>

record token_usage =
  us_input_tokens :: "u64 option"
  us_output_tokens :: "u64 option"
  us_cache_read_tokens :: "u64 option"
  us_cache_write_tokens :: "u64 option"
  us_reasoning_tokens :: "u64 option"

record 'j provider_metadata =
  pm_provider :: string
  pm_raw :: "'j option"

datatype ('j, 'r) model_event =
    ModelStarted | ModelTextDelta string | ModelReasoningDelta string | ModelToolCallStarted string string
  | ModelToolCallArguments string string | ModelToolCallCompleted "'j tool_call" | ModelUsage token_usage
  | ModelCompleted "('j, 'r) model_response" | ModelProvider "'j provider_metadata"

datatype ('j, 'r) step_event =
    SeStarted string | SeTextDelta string string | SeReasoningDelta string string
  | SeToolCallStarted string string string | SeToolCallArguments string string string
  | SeToolCallCompleted string "'j tool_call" | SeUsage string token_usage | SeProvider string "'j provider_metadata"
  | SeCompleted "('j, 'r) step_result" | SeCancelled string | SeTimedOut string

fun map_model_event :: "string \<Rightarrow> ('j, 'r) model_event \<Rightarrow> ('j, 'r) step_event" where
  "map_model_event i ModelStarted = SeStarted i"
| "map_model_event i (ModelTextDelta t) = SeTextDelta i t"
| "map_model_event i (ModelReasoningDelta t) = SeReasoningDelta i t"
| "map_model_event i (ModelToolCallStarted c n) = SeToolCallStarted i c n"
| "map_model_event i (ModelToolCallArguments c d) = SeToolCallArguments i c d"
| "map_model_event i (ModelToolCallCompleted c) = SeToolCallCompleted i c"
| "map_model_event i (ModelUsage u) = SeUsage i u"
| "map_model_event i (ModelProvider m) = SeProvider i m"
| "map_model_event i (ModelCompleted r) = SeCompleted (step_of_response i r)"

section \<open>The controlled stream\<close>

record ('j, 'r) step_stream =
  ss_inner :: bool
  ss_step_id :: string
  ss_request :: "('j, 'r) model_request"
  ss_boundary :: "boundary option"
  ss_stopped :: "stop option"
  ss_started :: bool
  ss_completed :: bool
  ss_terminal :: bool

text \<open>The validator and the recorder answer with the message of their error, if any.\<close>

type_synonym ('j, 'r) validator = "('j, 'r) model_request \<Rightarrow> ('j, 'r) step_result \<Rightarrow> string option"
type_synonym ('j, 'r) model_poll = "(string + ('j, 'r) model_event) option poll"
type_synonym ('j, 'r) step_item = "(step_error, ('j, 'r) step_event) res"

definition release :: "('j, 'r) step_stream \<Rightarrow> ('j, 'r) step_stream" where
  "release s = s\<lparr>ss_terminal := True, ss_inner := False, ss_boundary := None\<rparr>"

definition stop_event :: "('j, 'r) step_stream \<Rightarrow> stop \<Rightarrow> ('j, 'r) step_item \<times> ('j, 'r) step_stream" where
  "stop_event s stop =
     (case (stop, ss_completed s) of
        (StopCancelled, True) \<Rightarrow> Err StepErrorCancelled
      | (StopTimedOut, True) \<Rightarrow> Err StepErrorTimedOut
      | (StopCancelled, False) \<Rightarrow> Ok (SeCancelled (ss_step_id s))
      | (StopTimedOut, False) \<Rightarrow> Ok (SeTimedOut (ss_step_id s)), release s)"

definition deliver_event ::
  "('j, 'r) validator \<Rightarrow> ('j, 'r) step_stream \<Rightarrow> ('j, 'r) model_event
   \<Rightarrow> ('j, 'r) step_item option poll \<times> ('j, 'r) step_stream" where
  "deliver_event V s event =
     (if ss_completed s then (Ready (Some (Err (StepProtocol ''event received after completed''))), release s)
      else if event = ModelStarted then (Pending, s)
      else
        let mapped = map_model_event (ss_step_id s) event in
        case mapped of
          SeCompleted result \<Rightarrow>
            (case V (ss_request s) result of
               Some m \<Rightarrow> (Ready (Some (Err (StepValidation m))), release s)
             | None \<Rightarrow> (Ready (Some (Ok mapped)), s\<lparr>ss_completed := True\<rparr>))
        | _ \<Rightarrow> (Ready (Some (Ok mapped)), s))"

definition poll_inner ::
  "('j, 'r) validator \<Rightarrow> ('j, 'r) step_stream \<Rightarrow> ('j, 'r) model_poll
   \<Rightarrow> ('j, 'r) step_item option poll \<times> ('j, 'r) step_stream" where
  "poll_inner V s p =
     (case p of
        Ready (Some (Inr event)) \<Rightarrow> deliver_event V s event
      | Ready (Some (Inl e)) \<Rightarrow>
          (Ready (Some (Err (if ss_completed s then StepProtocol ''provider error received after completed''
                             else StepProvider e))), release s)
      | Ready None \<Rightarrow>
          (if ss_completed s then Ready None
           else Ready (Some (Err (StepProtocol ''step stream ended without a terminal event''))), release s)
      | Pending \<Rightarrow> (Pending, s))"

definition poll_step ::
  "('j, 'r) validator \<Rightarrow> ('j, 'r) step_stream \<Rightarrow> readings \<Rightarrow> ('j, 'r) model_poll
   \<Rightarrow> ('j, 'r) step_item option poll \<times> ('j, 'r) step_stream" where
  "poll_step V s r p =
     (if ss_terminal s then (Ready None, s)
      else if \<not> ss_started s then (Ready (Some (Ok (SeStarted (ss_step_id s)))), s\<lparr>ss_started := True\<rparr>)
      else
        (case (case ss_stopped s of
                 Some stop \<Rightarrow> Ok (Some stop)
               | None \<Rightarrow> (case ss_boundary s of None \<Rightarrow> Panic | Some b \<Rightarrow> Ok (poll_stop b r))) of
           Ok (Some stop) \<Rightarrow> (case stop_event s stop of (item, s') \<Rightarrow> (Ready (Some item), s'))
         | Ok None \<Rightarrow> if ss_inner s then poll_inner V s p else (Ready (Some Panic), s)
         | Err e \<Rightarrow> (Ready (Some (Err e)), s)
         | Panic \<Rightarrow> (Ready (Some Panic), s)))"

text \<open>The wrapper that records an event before it is passed on.\<close>

record ('j, 'r) recording_stream =
  rg_inner :: "('j, 'r) step_stream option"
  rg_terminal :: bool

record ('j, 'r) poll_input =
  pi_readings :: readings
  pi_inner :: "('j, 'r) model_poll"
  pi_record :: "('j, 'r) step_event \<Rightarrow> string option"

definition recording_closed :: "('j, 'r) recording_stream" where
  "recording_closed = \<lparr>rg_inner = None, rg_terminal = True\<rparr>"

definition poll_recorded ::
  "('j, 'r) validator \<Rightarrow> ('j, 'r) recording_stream \<Rightarrow> ('j, 'r) poll_input
   \<Rightarrow> ('j, 'r) step_item option poll \<times> ('j, 'r) recording_stream" where
  "poll_recorded V s i =
     (if rg_terminal s then (Ready None, s)
      else
        (case rg_inner s of
           None \<Rightarrow> (Ready (Some Panic), s)
         | Some inner \<Rightarrow>
             (case poll_step V inner (pi_readings i) (pi_inner i) of
                (Ready (Some (Ok event)), inner') \<Rightarrow>
                  (case pi_record i event of
                     Some m \<Rightarrow> (Ready (Some (Err (StepRecording m))), recording_closed)
                   | None \<Rightarrow> (Ready (Some (Ok event)), s\<lparr>rg_inner := Some inner'\<rparr>))
              | (Ready (Some e), _) \<Rightarrow> (Ready (Some e), recording_closed)
              | (Ready None, _) \<Rightarrow> (Ready None, recording_closed)
              | (Pending, inner') \<Rightarrow> (Pending, s\<lparr>rg_inner := Some inner'\<rparr>))))"

datatype ('j, 'r) step_events = Plain "('j, 'r) step_stream" | Recorded "('j, 'r) recording_stream"

fun poll_events ::
  "('j, 'r) validator \<Rightarrow> ('j, 'r) step_events \<Rightarrow> ('j, 'r) poll_input
   \<Rightarrow> ('j, 'r) step_item option poll \<times> ('j, 'r) step_events" where
  "poll_events V (Plain s) i = (case poll_step V s (pi_readings i) (pi_inner i) of (r, s') \<Rightarrow> (r, Plain s'))"
| "poll_events V (Recorded s) i = (case poll_recorded V s i of (r, s') \<Rightarrow> (r, Recorded s'))"

section \<open>Opening\<close>

text \<open>The race of the boundary against the provider; the boundary is polled first.\<close>

datatype open_outcome = OpeningStopped stop | Opened

fun opening_race ::
  "boundary \<Rightarrow> (readings \<times> string option poll) list \<Rightarrow> (step_error, open_outcome) res option" where
  "opening_race b [] = None"
| "opening_race b ((r, p) # polls) =
     (case poll_stop b r of
        Some stop \<Rightarrow> Some (Ok (OpeningStopped stop))
      | None \<Rightarrow>
          (case p of
             Pending \<Rightarrow> opening_race b polls
           | Ready (Some e) \<Rightarrow> Some (Err (StepProvider e))
           | Ready None \<Rightarrow> Some (Ok Opened)))"

record ('j, 'r) step_request =
  sr_step_id :: string
  sr_model_request :: "('j, 'r) model_request"
  sr_deadline :: "instant option"

definition new_stream :: "('j, 'r) step_request \<Rightarrow> boundary \<Rightarrow> open_outcome \<Rightarrow> ('j, 'r) step_stream" where
  "new_stream q b outcome = \<lparr>ss_inner = (outcome = Opened), ss_step_id = sr_step_id q, ss_request = sr_model_request q,
     ss_boundary = Some b, ss_stopped = (case outcome of OpeningStopped stop \<Rightarrow> Some stop | Opened \<Rightarrow> None),
     ss_started = False, ss_completed = False, ss_terminal = False\<rparr>"

definition step_events_of :: "bool \<Rightarrow> ('j, 'r) step_stream \<Rightarrow> ('j, 'r) step_events" where
  "step_events_of recorded s = (if recorded then Recorded \<lparr>rg_inner = Some s, rg_terminal = False\<rparr> else Plain s)"

text \<open>\<open>None\<close> while the provider has not answered and nothing has stopped the opening.\<close>

definition start_with_control ::
  "bool \<Rightarrow> ('j, 'r) step_request \<Rightarrow> bool \<times> instant \<Rightarrow> bool \<times> instant
   \<Rightarrow> (readings \<times> string option poll) list \<Rightarrow> (step_error, ('j, 'r) step_events) res option" where
  "start_with_control recorded q created looked polls =
     (if sr_step_id q = [] then Some (Err (StepInvalidRequest ''step_id must not be empty''))
      else
        let b = boundary_new (fst created) (snd created) (sr_deadline q) in
        case (case current_stop b (fst looked) (snd looked) of
                Some stop \<Rightarrow> Some (Ok (OpeningStopped stop))
              | None \<Rightarrow> opening_race b polls) of
          None \<Rightarrow> None
        | Some r \<Rightarrow> Some (bindr r (\<lambda>outcome. Ok (step_events_of recorded (new_stream q b outcome)))))"

section \<open>Aggregation\<close>

text \<open>\<open>None\<close> while the stream is pending at the end of the inputs.\<close>

fun aggregate ::
  "('j, 'r) validator \<Rightarrow> ('j, 'r) step_events \<Rightarrow> ('j, 'r) step_result option \<Rightarrow> ('j, 'r) poll_input list
   \<Rightarrow> (step_error, ('j, 'r) step_result) res option" where
  "aggregate V x completed [] = None"
| "aggregate V x completed (i # is) =
     (case poll_events V x i of
        (Pending, x') \<Rightarrow> aggregate V x' completed is
      | (Ready None, x') \<Rightarrow> Some (ok_or completed (StepProtocol ''step stream ended without a terminal event''))
      | (Ready (Some (Err e)), x') \<Rightarrow> Some (Err e)
      | (Ready (Some Panic), x') \<Rightarrow> Some Panic
      | (Ready (Some (Ok event)), x') \<Rightarrow>
          (case event of
             SeCompleted result \<Rightarrow>
               (case completed of
                  None \<Rightarrow> aggregate V x' (Some result) is
                | Some _ \<Rightarrow> Some (Err (StepProtocol ''multiple completed events'')))
           | SeCancelled _ \<Rightarrow> Some (Err StepErrorCancelled)
           | SeTimedOut _ \<Rightarrow> Some (Err StepErrorTimedOut)
           | _ \<Rightarrow> if completed \<noteq> None then Some (Err (StepProtocol ''event received after completed''))
                  else aggregate V x' completed is))"

definition execute_with_control ::
  "('j, 'r) validator \<Rightarrow> bool \<Rightarrow> ('j, 'r) step_request \<Rightarrow> bool \<times> instant \<Rightarrow> bool \<times> instant
   \<Rightarrow> (readings \<times> string option poll) list \<Rightarrow> ('j, 'r) poll_input list
   \<Rightarrow> (step_error, ('j, 'r) step_result) res option" where
  "execute_with_control V recorded q created looked polls inputs =
     (case start_with_control recorded q created looked polls of
        None \<Rightarrow> None
      | Some (Ok x) \<Rightarrow> aggregate V x None inputs
      | Some (Err e) \<Rightarrow> Some (Err e)
      | Some Panic \<Rightarrow> Some Panic)"

text \<open>Everything a stream gives out, and whether it has ended.\<close>

fun drain :: "('j, 'r) validator \<Rightarrow> ('j, 'r) step_events \<Rightarrow> ('j, 'r) poll_input list \<Rightarrow> ('j, 'r) step_item list \<times> bool" where
  "drain V x [] = ([], False)"
| "drain V x (i # is) =
     (case poll_events V x i of
        (Pending, x') \<Rightarrow> drain V x' is
      | (Ready None, x') \<Rightarrow> ([], True)
      | (Ready (Some item), x') \<Rightarrow> (case drain V x' is of (items, ended) \<Rightarrow> (item # items, ended)))"

section \<open>The states of a stream\<close>

definition stream_at ::
  "bool \<Rightarrow> ('j, 'r) step_request \<Rightarrow> boundary \<Rightarrow> open_outcome \<Rightarrow> bool \<Rightarrow> bool \<Rightarrow> ('j, 'r) step_events" where
  "stream_at recorded q b outcome started completed =
     step_events_of recorded ((new_stream q b outcome)\<lparr>ss_started := started, ss_completed := completed\<rparr>)"

text \<open>What the recorder makes of an event, and of a poll of the inner stream.\<close>

definition passed :: "bool \<Rightarrow> ('j, 'r) poll_input \<Rightarrow> ('j, 'r) step_event \<Rightarrow> string option" where
  "passed recorded i event = (if recorded then pi_record i event else None)"

definition closed_events :: "bool \<Rightarrow> ('j, 'r) step_stream \<Rightarrow> ('j, 'r) step_events" where
  "closed_events recorded s = (if recorded then Recorded recording_closed else Plain s)"

fun wrapped ::
  "bool \<Rightarrow> ('j, 'r) poll_input \<Rightarrow> ('j, 'r) step_item option poll \<times> ('j, 'r) step_stream
   \<Rightarrow> ('j, 'r) step_item option poll \<times> ('j, 'r) step_events" where
  "wrapped recorded i (Ready (Some (Ok event)), s) =
     (case passed recorded i event of
        Some m \<Rightarrow> (Ready (Some (Err (StepRecording m))), Recorded recording_closed)
      | None \<Rightarrow> (Ready (Some (Ok event)), step_events_of recorded s))"
| "wrapped recorded i (Pending, s) = (Pending, step_events_of recorded s)"
| "wrapped recorded i (r, s) = (r, closed_events recorded s)"

lemma poll_events_wrapped:
  "poll_events V (step_events_of recorded s) i = wrapped recorded i (poll_step V s (pi_readings i) (pi_inner i))"
proof -
  obtain p s' where "poll_step V s (pi_readings i) (pi_inner i) = (p, s')" by fastforce
  then show ?thesis
    by (cases p rule: poll.exhaust)
       (auto simp: step_events_of_def poll_recorded_def passed_def closed_events_def split: option.split res.split)
qed

text \<open>A stream that has ended stays ended.\<close>

definition closed :: "('j, 'r) step_events \<Rightarrow> bool" where
  "closed x \<longleftrightarrow> (\<forall>V i. fst (poll_events V x i) = Ready None)"

lemma closed_events: "ss_terminal s \<Longrightarrow> closed (closed_events recorded s)"
  by (simp add: closed_def closed_events_def recording_closed_def poll_recorded_def poll_step_def)

lemma closed_recording: "closed (Recorded recording_closed)"
  by (simp add: closed_def recording_closed_def poll_recorded_def)

lemma closed_terminal: "ss_terminal s \<Longrightarrow> closed (step_events_of recorded s)"
  by (simp add: closed_def poll_events_wrapped poll_step_def)

lemma drain_closed: "closed x \<Longrightarrow> drain V x is = ([], is \<noteq> [])"
proof (cases "is")
  case (Cons i rest)
  assume "closed x"
  then have "fst (poll_events V x i) = Ready None" by (simp add: closed_def)
  then show ?thesis unfolding Cons by (cases "poll_events V x i") simp
qed simp

lemma release_terminal [simp]: "ss_terminal (release s)" by (simp add: release_def)

section \<open>What a stream gives out\<close>

definition progress :: "string \<Rightarrow> ('j, 'r) step_event \<Rightarrow> bool" where
  "progress i event \<longleftrightarrow> (\<exists>e. event = map_model_event i e \<and> e \<noteq> ModelStarted \<and> (\<forall>r. e \<noteq> ModelCompleted r))"

definition ends_stream :: "string \<Rightarrow> ('j, 'r) step_item \<Rightarrow> bool" where
  "ends_stream i item \<longleftrightarrow> (\<exists>e. item = Err e) \<or> item = Ok (SeCancelled i) \<or> item = Ok (SeTimedOut i)"

abbreviation open_stream ::
  "bool \<Rightarrow> ('j, 'r) step_request \<Rightarrow> boundary \<Rightarrow> bool \<Rightarrow> ('j, 'r) step_events" where
  "open_stream recorded q b completed \<equiv> stream_at recorded q b Opened True completed"

lemma poll_first:
  "poll_events V (stream_at recorded q b outcome False False) i =
     (case passed recorded i (SeStarted (sr_step_id q)) of
        Some m \<Rightarrow> (Ready (Some (Err (StepRecording m))), Recorded recording_closed)
      | None \<Rightarrow> (Ready (Some (Ok (SeStarted (sr_step_id q)))), stream_at recorded q b outcome True False))"
  by (simp add: stream_at_def poll_events_wrapped poll_step_def new_stream_def split: option.split)

lemma poll_stopped:
  assumes "poll_events V (stream_at recorded q b (OpeningStopped stop) True False) i = (r, x)"
  shows "\<exists>item. r = Ready (Some item) \<and> ends_stream (sr_step_id q) item \<and> closed x"
  using assms
  by (cases stop)
     (auto simp: stream_at_def poll_events_wrapped poll_step_def new_stream_def stop_event_def ends_stream_def
       closed_recording closed_terminal split: option.splits)

lemma poll_step_open:
  "poll_step V ((new_stream q b Opened)\<lparr>ss_started := True, ss_completed := c\<rparr>) r p =
    (case poll_stop b r of
       Some stop \<Rightarrow> (case stop_event ((new_stream q b Opened)\<lparr>ss_started := True, ss_completed := c\<rparr>) stop of (item, s') \<Rightarrow> (Ready (Some item), s'))
     | None \<Rightarrow> poll_inner V ((new_stream q b Opened)\<lparr>ss_started := True, ss_completed := c\<rparr>) p)"
  by (simp add: poll_step_def new_stream_def split: option.split)

lemma deliver_progress:
  assumes "event \<noteq> ModelStarted" and "\<forall>r. event \<noteq> ModelCompleted r" and "\<not> ss_completed s"
  shows "deliver_event V s event = (Ready (Some (Ok (map_model_event (ss_step_id s) event))), s)"
  using assms by (cases event) (simp_all add: deliver_event_def)

lemma wrapped_stop:
  assumes "wrapped recorded i (case stop_event s stop of (item, s') \<Rightarrow> (Ready (Some item), s')) = (r, x)"
  obtains item where "r = Ready (Some item)" and "ends_stream (ss_step_id s) item" and "closed x"
    and "ss_completed s \<Longrightarrow> \<exists>e. item = Err e"
  using assms
  by (cases stop; cases "ss_completed s")
     (auto simp: stop_event_def ends_stream_def closed_recording closed_terminal closed_events split: option.splits)

text \<open>One poll of an open stream before and after completion.\<close>

lemma poll_open:
  assumes "poll_events V (open_stream recorded q b False) i = (r, x)"
  obtains "r = Pending" and "x = open_stream recorded q b False"
  | event where "r = Ready (Some (Ok event))" and "progress (sr_step_id q) event" and "x = open_stream recorded q b False"
  | item where "r = Ready (Some item)" and "ends_stream (sr_step_id q) item" and "closed x"
  | response where "r = Ready (Some (Ok (SeCompleted (step_of_response (sr_step_id q) response))))"
      and "V (sr_model_request q) (step_of_response (sr_step_id q) response) = None" and "x = open_stream recorded q b True"
proof (cases "poll_stop b (pi_readings i)")
  case (Some stop)
  let ?s = "(new_stream q b Opened)\<lparr>ss_started := True, ss_completed := False\<rparr>"
  from assms Some have "wrapped recorded i (case stop_event ?s stop of (item, s') \<Rightarrow> (Ready (Some item), s')) = (r, x)"
    by (simp add: stream_at_def poll_events_wrapped poll_step_open)
  from wrapped_stop [OF this] that(3) show ?thesis by (auto simp: new_stream_def)
next
  case None
  let ?s = "(new_stream q b Opened)\<lparr>ss_started := True, ss_completed := False\<rparr>"
  have w: "wrapped recorded i (poll_inner V ?s (pi_inner i)) = (r, x)"
    using assms None by (simp add: stream_at_def poll_events_wrapped poll_step_open)
  show ?thesis
  proof (cases "\<exists>event. pi_inner i = Ready (Some (Inr event))")
    case True
    then obtain event where e: "pi_inner i = Ready (Some (Inr event))" by blast
    show ?thesis
    proof (cases "\<exists>response. event = ModelCompleted response")
      case True
      then obtain response where "event = ModelCompleted response" by blast
      with w e that(3,4) show ?thesis
        by (auto simp: poll_inner_def deliver_event_def Let_def new_stream_def stream_at_def ends_stream_def
            closed_recording closed_events split: option.splits)
    next
      case False
      show ?thesis
      proof (cases "event = ModelStarted")
        case True
        with w e that(1) show ?thesis by (simp add: poll_inner_def deliver_event_def new_stream_def stream_at_def)
      next
        case other: False
        with False have "progress (sr_step_id q) (map_model_event (sr_step_id q) event)" unfolding progress_def by blast
        moreover have "deliver_event V ?s event = (Ready (Some (Ok (map_model_event (sr_step_id q) event))), ?s)"
          by (rule deliver_progress [THEN trans]) (use other False in \<open>simp_all add: new_stream_def\<close>)
        ultimately show ?thesis using w e that(2,3)
          by (auto simp: poll_inner_def stream_at_def ends_stream_def closed_recording split: option.splits)
      qed
    qed
  next
    case False
    with w that(1,3) show ?thesis
      by (cases "pi_inner i")
         (auto simp: poll_inner_def new_stream_def stream_at_def ends_stream_def closed_recording closed_events
           split: option.splits sum.splits)
  qed
qed

lemma poll_completed:
  assumes "poll_events V (open_stream recorded q b True) i = (r, x)"
  obtains "r = Pending" and "x = open_stream recorded q b True"
  | "r = Ready None"
  | e where "r = Ready (Some (Err e))" and "closed x"
proof (cases "poll_stop b (pi_readings i)")
  case (Some stop)
  let ?s = "(new_stream q b Opened)\<lparr>ss_started := True, ss_completed := True\<rparr>"
  from assms Some have "wrapped recorded i (case stop_event ?s stop of (item, s') \<Rightarrow> (Ready (Some item), s')) = (r, x)"
    by (simp add: stream_at_def poll_events_wrapped poll_step_open)
  from wrapped_stop [OF this] that(3) show ?thesis by (auto simp: new_stream_def)
next
  case None
  let ?s = "(new_stream q b Opened)\<lparr>ss_started := True, ss_completed := True\<rparr>"
  have "wrapped recorded i (poll_inner V ?s (pi_inner i)) = (r, x)"
    using assms None by (simp add: stream_at_def poll_events_wrapped poll_step_open)
  then show ?thesis using that
    by (cases "pi_inner i")
       (auto simp: poll_inner_def deliver_event_def new_stream_def stream_at_def closed_events
         split: option.splits sum.splits)
qed

section \<open>The protocol of a step stream\<close>

text \<open>The items behind \<open>Started\<close>, and behind \<open>Completed\<close>.\<close>

definition closing :: "('j, 'r) step_item list \<Rightarrow> bool" where
  "closing items \<longleftrightarrow> items = [] \<or> (\<exists>e. items = [Err e])"

definition well_ended ::
  "('j, 'r) validator \<Rightarrow> ('j, 'r) step_request \<Rightarrow> ('j, 'r) step_item list \<Rightarrow> bool \<Rightarrow> bool" where
  "well_ended V q items ended \<longleftrightarrow>
     (items = [] \<and> \<not> ended)
     \<or> (\<exists>item. items = [item] \<and> ends_stream (sr_step_id q) item)
     \<or> (\<exists>response rest. items = Ok (SeCompleted (step_of_response (sr_step_id q) response)) # rest \<and> closing rest
          \<and> V (sr_model_request q) (step_of_response (sr_step_id q) response) = None)"

lemma drain_completed:
  assumes "drain V (open_stream recorded q b True) is = (items, ended)"
  shows "closing items"
  using assms
proof (induction "is" arbitrary: items ended)
  case (Cons i rest)
  obtain r x where p: "poll_events V (open_stream recorded q b True) i = (r, x)" by fastforce
  from p show ?case
    by (rule poll_completed) (use Cons p in \<open>auto simp: closing_def drain_closed\<close>)
qed (simp add: closing_def)

lemma drain_open:
  assumes "drain V (open_stream recorded q b False) is = (items, ended)"
  shows "\<exists>events rest. items = map Ok events @ rest \<and> (\<forall>event \<in> set events. progress (sr_step_id q) event)
    \<and> well_ended V q rest ended"
  using assms
proof (induction "is" arbitrary: items ended)
  case Nil
  then show ?case by (intro exI [of _ "[]"]) (simp add: well_ended_def)
next
  case (Cons i rest)
  obtain r x where p: "poll_events V (open_stream recorded q b False) i = (r, x)" by fastforce
  from p show ?case
  proof (cases rule: poll_open)
    case 1
    with Cons p show ?thesis by simp
  next
    case (2 event)
    obtain items' where "items = Ok event # items'" "drain V (open_stream recorded q b False) rest = (items', ended)"
      using Cons.prems p 2 by (auto split: prod.splits)
    with Cons.IH obtain events rest' where "items' = map Ok events @ rest'"
      "\<forall>event \<in> set events. progress (sr_step_id q) event" "well_ended V q rest' ended" by blast
    with \<open>items = Ok event # items'\<close> 2(2) show ?thesis by (intro exI [of _ "event # events"] exI [of _ rest']) simp
  next
    case (3 item)
    with Cons.prems p show ?thesis by (intro exI [of _ "[]"] exI [of _ items]) (auto simp: well_ended_def drain_closed)
  next
    case (4 response)
    obtain items' where "items = Ok (SeCompleted (step_of_response (sr_step_id q) response)) # items'"
      "drain V (open_stream recorded q b True) rest = (items', ended)"
      using Cons.prems p 4 by (auto split: prod.splits)
    then have "well_ended V q items ended" unfolding well_ended_def using drain_completed 4(2) by metis
    then show ?thesis by (intro exI [of _ "[]"] exI [of _ items]) simp
  qed
qed

lemma drain_stopped:
  assumes "drain V (stream_at recorded q b (OpeningStopped stop) True False) is = (items, ended)"
  shows "well_ended V q items ended"
proof (cases "is")
  case (Cons i rest)
  obtain r x where p: "poll_events V (stream_at recorded q b (OpeningStopped stop) True False) i = (r, x)" by fastforce
  from poll_stopped [OF p] assms p show ?thesis by (auto simp: Cons well_ended_def drain_closed)
qed (use assms in \<open>simp add: well_ended_def\<close>)

lemma stream_at_new: "step_events_of recorded (new_stream q b outcome) = stream_at recorded q b outcome False False"
  by (simp add: stream_at_def new_stream_def)

lemma step_start_Ok:
  assumes "start_with_control recorded q created looked polls = Some (Ok x)"
  obtains outcome where "x = stream_at recorded q (boundary_new (fst created) (snd created) (sr_deadline q)) outcome False False"
  using assms
  by (auto simp: start_with_control_def Let_def res_simps stream_at_new split: if_splits option.splits)

text \<open>C15: The items a started step gives out, whatever its provider, its recorder, the clock and
  the cancellation do: first \<open>Started\<close>, then progress events of this step only, then at most one
  terminal item, which is an error, a cancellation, a timeout, or the completion. A completion
  carries the response with the outcome of its stop reason and has been accepted by the validator;
  behind it there is at most one error. A stream that has ended has given its terminal item. An event
  that the recorder refuses does not appear.\<close>

theorem step_stream_protocol:
  assumes "start_with_control recorded q created looked polls = Some (Ok x)" and "drain V x inputs = (items, ended)"
  shows "items = [] \<and> \<not> ended \<or> (\<exists>m. items = [Err (StepRecording m)])
    \<or> (\<exists>events rest. items = Ok (SeStarted (sr_step_id q)) # map Ok events @ rest
         \<and> (\<forall>event \<in> set events. progress (sr_step_id q) event) \<and> well_ended V q rest ended)"
proof -
  from step_start_Ok [OF assms(1)] obtain b outcome where x: "x = stream_at recorded q b outcome False False" by blast
  show ?thesis
  proof (cases inputs)
    case (Cons i rest)
    show ?thesis
    proof (cases "passed recorded i (SeStarted (sr_step_id q))")
      case None
      then obtain items' where items: "items = Ok (SeStarted (sr_step_id q)) # items'"
        and d: "drain V (stream_at recorded q b outcome True False) rest = (items', ended)"
        using assms(2) by (auto simp: Cons x poll_first split: prod.splits)
      show ?thesis
      proof (cases outcome)
        case (OpeningStopped stop)
        from drain_stopped d have "well_ended V q items' ended" unfolding OpeningStopped by blast
        then show ?thesis using items by (intro disjI2 exI [of _ "[]"] exI [of _ items']) auto
      next
        case Opened
        from drain_open [OF d [unfolded Opened]] obtain events rest' where "items' = map Ok events @ rest'"
          "\<forall>event \<in> set events. progress (sr_step_id q) event" "well_ended V q rest' ended" by blast
        with items show ?thesis by (intro disjI2 exI [of _ events] exI [of _ rest']) simp
      qed
    next
      case (Some m)
      with assms(2) have "items = [Err (StepRecording m)]"
        by (simp add: Cons x poll_first drain_closed [OF closed_recording])
      then show ?thesis by blast
    qed
  qed (use assms(2) in simp)
qed

section \<open>What an execution returns\<close>

text \<open>A poll that meets no stop, and the provider's part of a pending stretch.\<close>

abbreviation quiet_at :: "boundary \<Rightarrow> ('j, 'r) poll_input \<Rightarrow> bool" where
  "quiet_at b i \<equiv> poll_stop b (pi_readings i) = None"

definition progresses :: "bool \<Rightarrow> string \<Rightarrow> ('j, 'r) poll_input \<Rightarrow> bool" where
  "progresses recorded step i \<longleftrightarrow> pi_inner i = Pending
     \<or> (\<exists>event. pi_inner i = Ready (Some (Inr event)) \<and> (\<forall>r. event \<noteq> ModelCompleted r)
          \<and> (event \<noteq> ModelStarted \<longrightarrow> passed recorded i (map_model_event step event) = None))"

definition finishes :: "boundary \<Rightarrow> ('j, 'r) poll_input list \<Rightarrow> bool" where
  "finishes b inputs \<longleftrightarrow> (\<exists>between last rest. inputs = between @ last # rest
     \<and> (\<forall>i \<in> set between. quiet_at b i \<and> pi_inner i = Pending) \<and> quiet_at b last \<and> pi_inner last = Ready None)"

definition completes ::
  "('j, 'r) validator \<Rightarrow> bool \<Rightarrow> ('j, 'r) step_request \<Rightarrow> boundary \<Rightarrow> ('j, 'r) poll_input list \<Rightarrow> ('j, 'r) step_result \<Rightarrow> bool" where
  "completes V recorded q b inputs result \<longleftrightarrow> (\<exists>before at rest response. inputs = before @ at # rest
     \<and> (\<forall>i \<in> set before. quiet_at b i \<and> progresses recorded (sr_step_id q) i)
     \<and> quiet_at b at \<and> pi_inner at = Ready (Some (Inr (ModelCompleted response)))
     \<and> result = step_of_response (sr_step_id q) response \<and> V (sr_model_request q) result = None
     \<and> passed recorded at (SeCompleted result) = None \<and> finishes b rest)"

lemma finishes_Nil [simp]: "\<not> finishes b []" by (simp add: finishes_def)

lemma finishes_Cons:
  "finishes b (i # inputs) \<longleftrightarrow> quiet_at b i \<and> (pi_inner i = Ready None \<or> pi_inner i = Pending \<and> finishes b inputs)"
  unfolding finishes_def Cons_eq_append_conv by (auto 0 4)

lemma completes_Nil [simp]: "\<not> completes V recorded q b [] result" by (simp add: completes_def)

lemma completes_Cons:
  "completes V recorded q b (i # inputs) result \<longleftrightarrow> quiet_at b i
     \<and> (progresses recorded (sr_step_id q) i \<and> completes V recorded q b inputs result
       \<or> (\<exists>response. pi_inner i = Ready (Some (Inr (ModelCompleted response)))
           \<and> result = step_of_response (sr_step_id q) response \<and> V (sr_model_request q) result = None
           \<and> passed recorded i (SeCompleted result) = None \<and> finishes b inputs))" (is "?l \<longleftrightarrow> ?r")
proof
  assume ?l
  then obtain before at rest response where c: "i # inputs = before @ at # rest"
     "\<forall>i \<in> set before. quiet_at b i \<and> progresses recorded (sr_step_id q) i"
     "quiet_at b at" "pi_inner at = Ready (Some (Inr (ModelCompleted response)))"
     "result = step_of_response (sr_step_id q) response" "V (sr_model_request q) result = None"
     "passed recorded at (SeCompleted result) = None" "finishes b rest" unfolding completes_def by blast
  show ?r
  proof (cases before)
    case Nil
    with c show ?thesis by auto
  next
    case (Cons j before')
    then have "completes V recorded q b inputs result" unfolding completes_def using c by auto
    with Cons c(1,2) show ?thesis by simp
  qed
next
  assume r: ?r
  show ?l
  proof (cases "progresses recorded (sr_step_id q) i \<and> completes V recorded q b inputs result")
    case True
    then obtain before at rest response where c: "inputs = before @ at # rest"
     "\<forall>i \<in> set before. quiet_at b i \<and> progresses recorded (sr_step_id q) i"
     "quiet_at b at" "pi_inner at = Ready (Some (Inr (ModelCompleted response)))"
     "result = step_of_response (sr_step_id q) response" "V (sr_model_request q) result = None"
     "passed recorded at (SeCompleted result) = None" "finishes b rest" unfolding completes_def by blast
    with r True show ?thesis unfolding completes_def
      by (intro exI [of _ "i # before"] exI [of _ at] exI [of _ rest] exI [of _ response]) simp
  next
    case False
    with r obtain response where "pi_inner i = Ready (Some (Inr (ModelCompleted response)))"
      "result = step_of_response (sr_step_id q) response" "V (sr_model_request q) result = None"
      "passed recorded i (SeCompleted result) = None" "finishes b inputs" by blast
    with r show ?thesis unfolding completes_def
      by (intro exI [of _ "[]"] exI [of _ i] exI [of _ inputs] exI [of _ response]) simp
  qed
qed

lemma poll_events_open:
  "poll_events V (open_stream recorded q b c) i =
     wrapped recorded i
       (case poll_stop b (pi_readings i) of
          Some stop \<Rightarrow> (case stop_event ((new_stream q b Opened)\<lparr>ss_started := True, ss_completed := c\<rparr>) stop of
                         (item, s') \<Rightarrow> (Ready (Some item), s'))
        | None \<Rightarrow> poll_inner V ((new_stream q b Opened)\<lparr>ss_started := True, ss_completed := c\<rparr>) (pi_inner i))"
  by (simp add: stream_at_def poll_events_wrapped poll_step_open)

text \<open>The polls of an open stream, by what they meet.\<close>

lemma poll_stop_item:
  assumes "poll_stop b (pi_readings i) = Some stop"
  shows "\<exists>item x. poll_events V (open_stream recorded q b c) i = (Ready (Some item), x)
    \<and> ends_stream (sr_step_id q) item \<and> (c \<longrightarrow> (\<exists>e. item = Err e))"
proof -
  obtain r x where p: "poll_events V (open_stream recorded q b c) i = (r, x)" by fastforce
  show ?thesis using p [unfolded poll_events_open assms option.case]
    by (rule wrapped_stop) (use p in \<open>auto simp: new_stream_def\<close>)
qed

lemma poll_quiet_pending:
  assumes "quiet_at b i" and "pi_inner i = Pending"
  shows "poll_events V (open_stream recorded q b c) i = (Pending, open_stream recorded q b c)"
  using assms by (simp add: poll_events_open poll_inner_def) (simp add: stream_at_def)

lemma poll_quiet_completed:
  assumes "quiet_at b i" and "pi_inner i = Ready p"
  shows "\<exists>x. poll_events V (open_stream recorded q b True) i = (Ready None, x) \<and> p = None
    \<or> (\<exists>e. poll_events V (open_stream recorded q b True) i = (Ready (Some (Err e)), x)) \<and> p \<noteq> None"
  using assms by (simp add: poll_events_open poll_inner_def deliver_event_def new_stream_def split: option.split sum.split)

lemma aggregate_completed:
  "aggregate V (open_stream recorded q b True) (Some done_result) is = Some (Ok result)
     \<longleftrightarrow> result = done_result \<and> finishes b is"
proof (induction "is")
  case (Cons i rest)
  show ?case
  proof (cases "poll_stop b (pi_readings i)")
    case (Some stop)
    from poll_stop_item [OF this, of V recorded q True] Some show ?thesis by (auto simp: finishes_Cons)
  next
    case None
    show ?thesis
    proof (cases "pi_inner i")
      case Pending
      with Cons None show ?thesis by (simp add: poll_quiet_pending finishes_Cons)
    next
      case (Ready p)
      from poll_quiet_completed [OF None Ready, of V recorded q] Ready None show ?thesis
        by (auto simp: finishes_Cons res_simps)
    qed
  qed
qed simp

lemma poll_quiet_started:
  assumes "quiet_at b i" and "pi_inner i = Ready (Some (Inr ModelStarted))"
  shows "poll_events V (open_stream recorded q b False) i = (Pending, open_stream recorded q b False)"
  using assms by (simp add: poll_events_open poll_inner_def deliver_event_def new_stream_def) (simp add: stream_at_def new_stream_def)

lemma poll_quiet_progress:
  assumes "quiet_at b i" and "pi_inner i = Ready (Some (Inr event))" and "event \<noteq> ModelStarted" and "\<forall>r. event \<noteq> ModelCompleted r"
  shows "poll_events V (open_stream recorded q b False) i =
    (case passed recorded i (map_model_event (sr_step_id q) event) of
       Some m \<Rightarrow> (Ready (Some (Err (StepRecording m))), Recorded recording_closed)
     | None \<Rightarrow> (Ready (Some (Ok (map_model_event (sr_step_id q) event))), open_stream recorded q b False))"
proof -
  let ?s = "(new_stream q b Opened)\<lparr>ss_started := True, ss_completed := False\<rparr>"
  have "deliver_event V ?s event = (Ready (Some (Ok (map_model_event (sr_step_id q) event))), ?s)"
    by (rule deliver_progress [THEN trans]) (use assms in \<open>simp_all add: new_stream_def\<close>)
  with assms(1,2) show ?thesis unfolding poll_events_open
    by (simp add: poll_inner_def stream_at_def split: option.split)
qed

lemma poll_quiet_completion:
  assumes "quiet_at b i" and "pi_inner i = Ready (Some (Inr (ModelCompleted response)))"
    and result: "result = step_of_response (sr_step_id q) response"
  shows "V (sr_model_request q) result = None \<and> passed recorded i (SeCompleted result) = None
      \<and> poll_events V (open_stream recorded q b False) i = (Ready (Some (Ok (SeCompleted result))), open_stream recorded q b True)
    \<or> (V (sr_model_request q) result \<noteq> None \<or> passed recorded i (SeCompleted result) \<noteq> None)
      \<and> (\<exists>e x. poll_events V (open_stream recorded q b False) i = (Ready (Some (Err e)), x))"
  using assms(1,2) unfolding poll_events_open
  by (auto simp: poll_inner_def deliver_event_def new_stream_def result stream_at_def split: option.split)

lemma poll_quiet_failure:
  assumes "quiet_at b i" and "pi_inner i = Ready p" and "\<forall>event. p \<noteq> Some (Inr event)"
  shows "\<exists>e x. poll_events V (open_stream recorded q b False) i = (Ready (Some (Err e)), x)"
proof (cases p)
  case (Some y)
  with assms obtain e where "y = Inl e" by (cases y) auto
  with Some assms show ?thesis by (simp add: poll_events_open poll_inner_def new_stream_def)
qed (use assms in \<open>simp add: poll_events_open poll_inner_def new_stream_def\<close>)

lemma aggregate_ending:
  assumes "poll_events V x i = (Ready (Some item), y)" and "ends_stream step item"
  shows "\<exists>e. aggregate V x completed (i # is) = Some (Err e)"
  using assms by (auto simp: ends_stream_def)

lemma aggregate_progress:
  assumes "event \<noteq> ModelStarted" and "\<forall>r. event \<noteq> ModelCompleted r"
    and "poll_events V x i = (Ready (Some (Ok (map_model_event step event))), y)"
  shows "aggregate V x None (i # is) = aggregate V y None is"
  using assms by (cases event) simp_all

lemma aggregate_open:
  "aggregate V (open_stream recorded q b False) None is = Some (Ok result) \<longleftrightarrow> completes V recorded q b is result"
proof (induction "is")
  case (Cons i rest)
  show ?case
  proof (cases "poll_stop b (pi_readings i)")
    case (Some stop)
    from poll_stop_item [OF this, of V recorded q False] obtain item x
      where p: "poll_events V (open_stream recorded q b False) i = (Ready (Some item), x)"
        and ends: "ends_stream (sr_step_id q) item" by blast
    from aggregate_ending [OF p ends] obtain e
      where "aggregate V (open_stream recorded q b False) None (i # rest) = Some (Err e)" by blast
    then show ?thesis using Some by (simp add: completes_Cons del: aggregate.simps)
  next
    case quiet: None
    show ?thesis
    proof (cases "\<exists>event. pi_inner i = Ready (Some (Inr event))")
      case True
      then obtain event where e: "pi_inner i = Ready (Some (Inr event))" by blast
      consider "event = ModelStarted" | response where "event = ModelCompleted response"
        | "event \<noteq> ModelStarted" "\<forall>r. event \<noteq> ModelCompleted r" by blast
      then show ?thesis
      proof cases
        case 1
        with Cons quiet e show ?thesis by (simp add: poll_quiet_started completes_Cons progresses_def)
      next
        case (2 response)
        with poll_quiet_completion [OF quiet e [unfolded 2] refl, where V = V and recorded = recorded and q = q] quiet e show ?thesis
          by (auto simp: completes_Cons progresses_def aggregate_completed)
      next
        case 3
        from poll_quiet_progress [OF quiet e 3, of V recorded q] show ?thesis
          using quiet e 3 aggregate_progress [OF 3] Cons
          by (cases "passed recorded i (map_model_event (sr_step_id q) event)")
             (auto simp: completes_Cons progresses_def)
      qed
    next
      case False
      show ?thesis
      proof (cases "pi_inner i")
        case Pending
        with Cons quiet show ?thesis by (simp add: poll_quiet_pending completes_Cons progresses_def)
      next
        case (Ready p)
        with False have "\<forall>event. p \<noteq> Some (Inr event)" by simp
        from poll_quiet_failure [OF quiet Ready this, of V recorded q] Ready False quiet show ?thesis
          by (auto simp: completes_Cons progresses_def)
      qed
    qed
  qed
qed simp

lemma aggregate_stopped:
  "aggregate V (stream_at recorded q b (OpeningStopped stop) True False) None is \<noteq> Some (Ok result)"
proof (cases "is")
  case (Cons i rest)
  obtain r x where p: "poll_events V (stream_at recorded q b (OpeningStopped stop) True False) i = (r, x)" by fastforce
  from poll_stopped [OF p] obtain item where r: "r = Ready (Some item)" and ends: "ends_stream (sr_step_id q) item" by blast
  from aggregate_ending [OF p [unfolded r] ends] obtain e
    where "aggregate V (stream_at recorded q b (OpeningStopped stop) True False) None (i # rest) = Some (Err e)" by blast
  then show ?thesis unfolding Cons by simp
qed simp

lemma aggregate_first:
  "aggregate V (stream_at recorded q b outcome False False) None inputs = Some (Ok result)
     \<longleftrightarrow> (\<exists>first rest. inputs = first # rest \<and> passed recorded first (SeStarted (sr_step_id q)) = None
          \<and> aggregate V (stream_at recorded q b outcome True False) None rest = Some (Ok result))"
  by (cases inputs) (auto simp: poll_first split: option.splits)

text \<open>C14: Executing a step returns a result exactly when the provider's stream was opened before any
  stop, and then, with no cancellation or deadline seen at any poll, delivered progress events, one
  completion that the validator accepts, and its end, with nothing behind the completion, while the
  recorder accepted every event; the result is that completion with the outcome of its
  stop reason. Every other course of the provider, the recorder, the clock and the cancellation gives an
  error or is still pending: a truncated, failed or stopped stream is never taken for an answer.\<close>

theorem execute_exact:
  "execute_with_control V recorded q created looked polls inputs = Some (Ok result) \<longleftrightarrow>
     (let b = boundary_new (fst created) (snd created) (sr_deadline q) in
      sr_step_id q \<noteq> [] \<and> current_stop b (fst looked) (snd looked) = None \<and> opening_race b polls = Some (Ok Opened)
      \<and> (\<exists>first rest. inputs = first # rest \<and> passed recorded first (SeStarted (sr_step_id q)) = None
           \<and> completes V recorded q b rest result))"
proof -
  let ?b = "boundary_new (fst created) (snd created) (sr_deadline q)"
  have run: "aggregate V (stream_at recorded q ?b outcome False False) None inputs = Some (Ok result) \<longleftrightarrow>
    outcome = Opened \<and> (\<exists>first rest. inputs = first # rest \<and> passed recorded first (SeStarted (sr_step_id q)) = None
           \<and> completes V recorded q ?b rest result)" for outcome
    by (cases outcome) (simp_all add: aggregate_first aggregate_stopped aggregate_open)
  have race: "opening_race ?b polls \<noteq> Some Panic"
    by (induction polls rule: opening_race.induct [of "\<lambda>b polls. opening_race b polls \<noteq> Some Panic"])
       (auto split: option.splits poll.splits)
  show ?thesis
    using run race
    by (cases "current_stop ?b (fst looked) (snd looked)"; cases "opening_race ?b polls"; cases "the (opening_race ?b polls)")
       (auto simp: execute_with_control_def start_with_control_def Let_def res_simps stream_at_new)
qed

section \<open>An execution ends\<close>

definition ending :: "boundary \<Rightarrow> ('j, 'r) poll_input \<Rightarrow> bool" where
  "ending b i \<longleftrightarrow> \<not> quiet_at b i \<or> pi_inner i = Ready None"

abbreviation answers :: "('e, 'a) res option \<Rightarrow> bool" where
  "answers r \<equiv> \<exists>x. r = Some x \<and> x \<noteq> Panic"

lemma aggregate_at_end:
  assumes "ending b i"
  shows "answers (aggregate V (open_stream recorded q b c) completed (i # rest))"
proof (cases "poll_stop b (pi_readings i)")
  case (Some stop)
  from poll_stop_item [OF this, of V recorded q c] obtain item x
    where p: "poll_events V (open_stream recorded q b c) i = (Ready (Some item), x)"
      and ends: "ends_stream (sr_step_id q) item" by blast
  from aggregate_ending [OF p ends] obtain e
    where "aggregate V (open_stream recorded q b c) completed (i # rest) = Some (Err e)" by blast
  then show ?thesis by (simp del: aggregate.simps)
next
  case None
  with assms have r: "pi_inner i = Ready None" by (simp add: ending_def)
  show ?thesis
  proof (cases c)
    case True
    from poll_quiet_completed [OF None r, of V recorded q] True show ?thesis by (auto simp: res_simps split: option.split)
  next
    case False
    from poll_quiet_failure [OF None r, of V recorded q] False show ?thesis by auto
  qed
qed

lemma aggregate_completed_ends:
  assumes "i \<in> set is" and "ending b i"
  shows "answers (aggregate V (open_stream recorded q b True) completed is)"
  using assms(1)
proof (induction "is")
  case (Cons j rest)
  show ?case
  proof (cases "i = j")
    case True
    with aggregate_at_end [OF assms(2)] show ?thesis by simp
  next
    case False
    with Cons have rest: "answers (aggregate V (open_stream recorded q b True) completed rest)" by simp
    obtain r x where p: "poll_events V (open_stream recorded q b True) j = (r, x)" by fastforce
    from p show ?thesis
      by (rule poll_completed) (use p rest in \<open>auto simp: res_simps split: option.split\<close>)
  qed
qed simp

lemma aggregate_open_ends:
  assumes "i \<in> set is" and "ending b i"
  shows "answers (aggregate V (open_stream recorded q b False) completed is)"
  using assms(1)
proof (induction "is")
  case (Cons j rest)
  show ?case
  proof (cases "i = j")
    case True
    with aggregate_at_end [OF assms(2)] show ?thesis by simp
  next
    case False
    with Cons have rest: "answers (aggregate V (open_stream recorded q b False) completed rest)" and i: "i \<in> set rest" by simp_all
    obtain r x where p: "poll_events V (open_stream recorded q b False) j = (r, x)" by fastforce
    from p show ?thesis
    proof (cases rule: poll_open)
      case 1
      with p rest show ?thesis by simp
    next
      case (2 event)
      then obtain e where "event = map_model_event (sr_step_id q) e" "e \<noteq> ModelStarted" "\<forall>r. e \<noteq> ModelCompleted r"
        by (auto simp: progress_def)
      with 2 p rest show ?thesis by (cases e) auto
    next
      case (3 item)
      from aggregate_ending [OF p [unfolded 3(1)] 3(2)] obtain e
        where "aggregate V (open_stream recorded q b False) completed (j # rest) = Some (Err e)" by blast
      then show ?thesis by (simp del: aggregate.simps)
    next
      case (4 response)
      with p aggregate_completed_ends [OF i assms(2), of V recorded q] show ?thesis by (auto split: option.split)
    qed
  qed
qed simp

lemma cancelled_or_late_ending:
  assumes "pr_cancelled (pi_readings i) \<or> (\<exists>limit. bo_deadline b = Some limit \<and> limit \<le> pr_now (pi_readings i)) \<or> pi_inner i = Ready None"
  shows "ending b i"
  using assms by (auto simp: ending_def poll_stop_def current_stop_def split: option.splits)

text \<open>C16: An execution that has been opened is over, with a result or an error, at the latest
  at the poll, after the first, that sees the cancellation, sees the deadline passed, or meets the
  end of the provider's stream. It never runs into a failing \<open>expect\<close>.\<close>

theorem execution_ends:
  assumes "start_with_control recorded q created looked polls = Some (Ok x)" and "i \<in> set rest"
    and "pr_cancelled (pi_readings i)
      \<or> (\<exists>limit. sr_deadline q = Some limit \<and> limit \<le> pr_now (pi_readings i)) \<or> pi_inner i = Ready None"
  shows "\<exists>r. execute_with_control V recorded q created looked polls (first # rest) = Some r \<and> r \<noteq> Panic"
proof -
  let ?b = "boundary_new (fst created) (snd created) (sr_deadline q)"
  from step_start_Ok [OF assms(1)] obtain outcome where "x = stream_at recorded q ?b outcome False False" .
  moreover have "bo_deadline ?b = sr_deadline q" by (simp add: boundary_new_def)
  ultimately obtain b where x: "x = stream_at recorded q b outcome False False" and d: "bo_deadline b = sr_deadline q" by blast
  have "ending b i" by (rule cancelled_or_late_ending) (use assms(3) d in simp)
  have "answers (aggregate V x None (first # rest))"
  proof (cases "passed recorded first (SeStarted (sr_step_id q))")
    case None
    have "answers (aggregate V (stream_at recorded q b outcome True False) None rest)"
    proof (cases outcome)
      case (OpeningStopped stop)
      from assms(2) obtain j tail where rest: "rest = j # tail" by (cases rest) auto
      obtain r y where p: "poll_events V (stream_at recorded q b (OpeningStopped stop) True False) j = (r, y)" by fastforce
      from poll_stopped [OF p] obtain item where r: "r = Ready (Some item)" and ends: "ends_stream (sr_step_id q) item" by blast
      from aggregate_ending [OF p [unfolded r] ends] obtain e
        where "aggregate V (stream_at recorded q b (OpeningStopped stop) True False) None (j # tail) = Some (Err e)" by blast
      then show ?thesis unfolding rest OpeningStopped by simp
    next
      case Opened
      with aggregate_open_ends [OF assms(2) \<open>ending b i\<close>] show ?thesis by simp
    qed
    with None show ?thesis by (simp add: x poll_first)
  next
    case (Some m)
    then show ?thesis by (simp add: x poll_first)
  qed
  with assms(1) show ?thesis by (simp add: execute_with_control_def)
qed

section \<open>Concrete runs\<close>

definition calm :: readings where
  "calm = \<lparr>pr_cancelled = False, pr_now = 1, pr_notified = False, pr_timer = False, pr_cancelled_late = False\<rparr>"

definition sample_input :: "(unit, unit) model_poll \<Rightarrow> (unit, unit) poll_input" where
  "sample_input p = \<lparr>pi_readings = calm, pi_inner = p, pi_record = \<lambda>_. None\<rparr>"

definition sample_step :: "(unit, unit) step_request" where
  "sample_step = \<lparr>sr_step_id = ''t-step-0'', sr_model_request = \<lparr>mr_request_id = ''t-step-0'', mr_messages = [], mr_rest = ()\<rparr>,
     sr_deadline = Some 9\<rparr>"

definition sample_answer :: "(unit, unit) model_response" where
  "sample_answer = \<lparr>rp_content = [TextBlock ''hi''], rp_stop_reason = EndTurn, rp_rest = ()\<rparr>"

definition sample_inputs :: "(unit, unit) poll_input list" where
  "sample_inputs = map sample_input [Pending, Ready (Some (Inr (ModelTextDelta ''hi''))), Pending,
     Ready (Some (Inr (ModelCompleted sample_answer))), Ready None]"

lemmas sample_step_defs = start_with_control_def current_stop_def boundary_new_def sample_step_def sample_inputs_def
  sample_input_def calm_def poll_stop_def new_stream_def step_events_of_def poll_step_def poll_inner_def deliver_event_def
  poll_recorded_def release_def recording_closed_def Let_def sample_answer_def step_of_response_def res_simps

lemma sample_started:
  "start_with_control True sample_step (False, 0) (False, 1) [(calm, Pending), (calm, Ready None)]
     = Some (Ok (step_events_of True (new_stream sample_step \<lparr>bo_deadline = Some 9, bo_timer = True\<rparr> Opened)))"
  by (simp add: sample_step_defs)

theorem step_stream_protocol_witness:
  "\<exists>x items. start_with_control True sample_step (False, 0) (False, 1) [(calm, Pending), (calm, Ready None)] = Some (Ok x)
     \<and> drain (\<lambda>_ _. None) x sample_inputs = (items, True) \<and> length items = 3
     \<and> (\<exists>events rest. items = Ok (SeStarted ''t-step-0'') # map Ok events @ rest)"
proof -
  let ?x = "step_events_of True (new_stream sample_step \<lparr>bo_deadline = Some 9, bo_timer = True\<rparr> Opened)"
  obtain items where d: "drain (\<lambda>_ _. None) ?x sample_inputs = (items, True)" and l: "length items = 3"
    by (simp add: sample_step_defs)
  from step_stream_protocol [OF sample_started d] l
  have "\<exists>events rest. items = Ok (SeStarted ''t-step-0'') # map Ok events @ rest"
    by (auto simp: sample_step_def)
  with d l sample_started show ?thesis by blast
qed

lemma sample_executed:
  "execute_with_control (\<lambda>_ _. None) True sample_step (False, 0) (False, 1) [(calm, Pending), (calm, Ready None)] sample_inputs
     = Some (Ok (step_of_response ''t-step-0'' sample_answer))"
  by (simp add: execute_with_control_def sample_step_defs)

theorem execution_ends_witness:
  "\<exists>r. execute_with_control (\<lambda>_ _. None) True sample_step (False, 0) (False, 1) [(calm, Pending), (calm, Ready None)]
     (sample_input Pending # [sample_input Pending, (sample_input Pending)\<lparr>pi_readings := calm\<lparr>pr_now := 9\<rparr>\<rparr>]) = Some r \<and> r \<noteq> Panic"
  by (rule execution_ends [OF sample_started, of "(sample_input Pending)\<lparr>pi_readings := calm\<lparr>pr_now := 9\<rparr>\<rparr>"])
     (simp_all add: sample_step_def)

end
