(* ===== verification/Model_Planning.thy ===== *)
theory Model_Planning
  imports Model_Types
begin

text \<open>
  Request planning, \<open>crates/kolyan-model/src/planning.rs\<close> and \<open>planning/rules.rs\<close>: a table of parameter
  rules belongs to one configured endpoint; a planner checks the table once and turns a neutral request
  into the effective request, the extension members of the wire body, and an audit of decisions.
  JSON values are a type \<open>'j\<close>; JSON Schema and the conversions of \<open>serde_json\<close> are the fields of
  \<open>plan_codec\<close>.
\<close>

section \<open>The request\<close>

datatype model_feature =
    TextInput | TextOutput | ImageInput | DocumentInput | ToolUseFeature | ParallelToolUse | StructuredOutput
  | ReasoningFeature | PromptCaching | Streaming

text \<open>The \<open>Debug\<close> text of a feature.\<close>

fun model_feature_text :: "model_feature \<Rightarrow> string" where
  "model_feature_text TextInput = ''TextInput''"
| "model_feature_text TextOutput = ''TextOutput''"
| "model_feature_text ImageInput = ''ImageInput''"
| "model_feature_text DocumentInput = ''DocumentInput''"
| "model_feature_text ToolUseFeature = ''ToolUse''"
| "model_feature_text ParallelToolUse = ''ParallelToolUse''"
| "model_feature_text StructuredOutput = ''StructuredOutput''"
| "model_feature_text ReasoningFeature = ''Reasoning''"
| "model_feature_text PromptCaching = ''PromptCaching''"
| "model_feature_text Streaming = ''Streaming''"

record model_ref =
  mf_provider :: string
  mf_model :: string

record system_instruction =
  si_text :: string
  si_cache :: bool

record 'j tool_definition =
  td_name :: string
  td_description :: "string option"
  td_input_schema :: 'j

datatype tool_choice = AutoChoice | NoTools | RequiredChoice | NamedTool string

datatype cache_retention = InMemory | TwentyFourHours

datatype cache_breakpoint = SystemBreakpoint | ToolsBreakpoint | MessagesBreakpoint

record prompt_cache_config =
  cc_key :: "string option"
  cc_retention :: "cache_retention option"
  cc_breakpoints :: "cache_breakpoint list"

record reasoning_config =
  rc_effort :: "string option"
  rc_budget_tokens :: "u32 option"

record 'j output_format =
  of_name :: string
  of_schema :: 'j
  of_strict :: bool

record 'j generation_request =
  gr_request_id :: string
  gr_model :: model_ref
  gr_system :: "system_instruction list"
  gr_messages :: "'j message list"
  gr_tools :: "'j tool_definition list"
  gr_tool_choice :: tool_choice
  gr_output_format :: "'j output_format option"
  gr_prompt_cache :: "prompt_cache_config option"
  gr_reasoning :: "reasoning_config option"
  gr_max_output_tokens :: "u32 option"
  gr_extensions :: 'j

section \<open>The table\<close>

datatype parameter_support = Supported | Unsupported | UnknownSupport

record 'j parameter_rule =
  ru_support :: parameter_support
  ru_required_max_tools :: "nat option"
  ru_schema :: 'j
  ru_default :: "'j option"
  ru_omittable :: bool
  ru_wire_name :: "string option"

record 'j model_overrides =
  mo_features :: "model_feature set option"
  mo_parameters :: "(string, 'j parameter_rule) bmap"

record 'j parameter_table =
  pt_provider :: string
  pt_protocol :: string
  pt_features :: "model_feature set"
  pt_defaults :: "(string, 'j parameter_rule) bmap"
  pt_models :: "(string, 'j model_overrides) bmap"

datatype parameter_action = Sent | Defaulted | OmittedUnsupported | OmittedUnknown | MappedToAuto

record parameter_decision =
  de_parameter :: string
  de_action :: parameter_action

record 'j planned_request =
  pq_request :: "'j generation_request"
  pq_wire_extensions :: "(string, 'j) bmap"
  pq_decisions :: "parameter_decision list"

datatype plan_error = InvalidPlan string | UnsupportedPlan string

text \<open>JSON: null, texts, objects, the serialised request, schemas, and the typed readings of a value.\<close>

record 'j plan_codec =
  nc_null :: 'j
  nc_text :: "string \<Rightarrow> 'j"
  nc_members :: "'j \<Rightarrow> (string, 'j) bmap option"
  nc_object :: "(string, 'j) bmap \<Rightarrow> 'j"
  nc_body :: "'j generation_request \<Rightarrow> 'j option"
  nc_compiles :: "'j \<Rightarrow> bool"
  nc_accepts :: "'j \<Rightarrow> 'j \<Rightarrow> bool"
  nc_as_text :: "'j \<Rightarrow> string option"
  nc_as_u32 :: "'j \<Rightarrow> u32 option"
  nc_as_retention :: "'j \<Rightarrow> cache_retention option"
  nc_as_breakpoints :: "'j \<Rightarrow> cache_breakpoint list option"
  nc_as_choice :: "'j \<Rightarrow> tool_choice option"

definition PARAMETERS :: "string list" where
  "PARAMETERS = [''reasoning.effort'', ''reasoning.budget_tokens'', ''prompt_cache.key'', ''prompt_cache.retention'',
     ''prompt_cache.breakpoints'', ''max_output_tokens'', ''tool_choice'']"

definition EXTENSION :: string where "EXTENSION = ''extensions.''"

definition strip_prefix :: "string \<Rightarrow> string \<Rightarrow> string option" where
  "strip_prefix prefix s = (if take (length prefix) s = prefix then Some (drop (length prefix) s) else None)"

fun split_once :: "char \<Rightarrow> string \<Rightarrow> (string \<times> string) option" where
  "split_once c [] = None"
| "split_once c (x # xs) =
     (if x = c then Some ([], xs) else map_option (\<lambda>(a, b). (x # a, b)) (split_once c xs))"

definition validate_value :: "'j plan_codec \<Rightarrow> 'j \<Rightarrow> 'j \<Rightarrow> string \<Rightarrow> (plan_error, unit) res" where
  "validate_value C schema v key =
     (if \<not> nc_compiles C schema then Err (InvalidPlan ''invalid parameter schema'')
      else if \<not> nc_accepts C schema v then Err (InvalidPlan (''parameter violates configured schema: '' @ key))
      else Ok ())"

section \<open>Validation of a table\<close>

definition wire_char :: "char \<Rightarrow> bool" where
  "wire_char c \<longleftrightarrow> alnum c \<or> c = CHR ''_''"

definition check_limit :: "'j plan_codec \<Rightarrow> string \<Rightarrow> 'j parameter_rule \<Rightarrow> (plan_error, unit) res" where
  "check_limit C key rule =
     (case ru_required_max_tools rule of
        None \<Rightarrow> Ok ()
      | Some limit \<Rightarrow>
          if key \<noteq> ''tool_choice'' \<or> limit = 0 \<or> ru_support rule \<noteq> Supported
             \<or> \<not> is_ok (validate_value C (ru_schema rule) (nc_text C ''required'') key)
          then Err (InvalidPlan ''invalid required tool-count constraint'') else Ok ())"

definition check_binding :: "string list \<Rightarrow> string \<Rightarrow> 'j parameter_rule \<Rightarrow> (plan_error, unit) res" where
  "check_binding reserved key rule =
     (case strip_prefix EXTENSION key of
        Some extension \<Rightarrow>
          bindr (ok_or (split_once (CHR ''.'') extension) (InvalidPlan ''extension requires a namespace and name'')) (\<lambda>(namespace, name).
          bindr (ok_or (ru_wire_name rule) (InvalidPlan ''extension requires wire_name'')) (\<lambda>wire.
            if namespace = [] \<or> name = [] \<or> wire = [] \<or> \<not> list_all wire_char wire \<or> wire \<in> set reserved
            then Err (InvalidPlan ''invalid or reserved extension binding'') else Ok ()))
      | None \<Rightarrow>
          if key \<notin> set PARAMETERS \<or> ru_wire_name rule \<noteq> None
          then Err (InvalidPlan ''unrecognized neutral parameter or binding'') else Ok ())"

definition check_rule ::
  "'j plan_codec \<Rightarrow> string list \<Rightarrow> string \<times> 'j parameter_rule \<Rightarrow> (plan_error, unit) res" where
  "check_rule C reserved entry =
     (case entry of (key, rule) \<Rightarrow>
        andthen (check_limit C key rule)
       (andthen (check_binding reserved key rule)
       (if \<not> nc_compiles C (ru_schema rule) then Err (InvalidPlan ''invalid parameter schema'')
        else (case ru_default rule of None \<Rightarrow> Ok () | Some v \<Rightarrow> validate_value C (ru_schema rule) v key))))"

fun check_all :: "('a \<Rightarrow> (plan_error, unit) res) \<Rightarrow> 'a list \<Rightarrow> (plan_error, unit) res" where
  "check_all f [] = Ok ()"
| "check_all f (x # xs) = andthen (f x) (check_all f xs)"

text \<open>\<open>BTreeMap::extend\<close>\<close>

definition bt_extend :: "('k::linorder, 'v) bmap \<Rightarrow> ('k, 'v) bmap \<Rightarrow> ('k, 'v) bmap" where
  "bt_extend m other = fold (\<lambda>(k, v). bt_insert k v) other m"

definition effective_rules :: "'j parameter_table \<Rightarrow> 'j model_overrides \<Rightarrow> (string, 'j parameter_rule) bmap" where
  "effective_rules t model = bt_extend (pt_defaults t) (mo_parameters model)"

definition model_features :: "'j parameter_table \<Rightarrow> 'j model_overrides \<Rightarrow> model_feature set" where
  "model_features t model = (case mo_features model of None \<Rightarrow> pt_features t | Some f \<Rightarrow> f)"

definition rule_feature :: "string \<Rightarrow> model_feature option" where
  "rule_feature key =
     (if strip_prefix ''reasoning.'' key \<noteq> None then Some ReasoningFeature
      else if strip_prefix ''prompt_cache.'' key \<noteq> None then Some PromptCaching
      else None)"

definition check_feature ::
  "model_feature set \<Rightarrow> string \<times> 'j parameter_rule \<Rightarrow> (plan_error, unit) res" where
  "check_feature features entry =
     (case entry of (key, rule) \<Rightarrow>
        if ru_support rule = Supported \<and> (case rule_feature key of None \<Rightarrow> False | Some f \<Rightarrow> f \<notin> features)
        then Err (InvalidPlan ''supported parameter conflicts with model features'') else Ok ())"

fun check_wires :: "string set \<Rightarrow> 'j parameter_rule list \<Rightarrow> (plan_error, unit) res" where
  "check_wires seen [] = Ok ()"
| "check_wires seen (rule # rules) =
     (case ru_wire_name rule of
        Some wire \<Rightarrow>
          if ru_support rule = Supported
          then if wire \<in> seen then Err (InvalidPlan ''duplicate extension wire binding'')
               else check_wires (insert wire seen) rules
          else check_wires seen rules
      | None \<Rightarrow> check_wires seen rules)"

definition check_model ::
  "'j parameter_table \<Rightarrow> string \<times> 'j model_overrides \<Rightarrow> (plan_error, unit) res" where
  "check_model t entry =
     (case entry of (name, model) \<Rightarrow>
        if name = [] then Err (InvalidPlan ''model identity cannot be empty'')
        else
          andthen (check_all (check_feature (model_features t model)) (effective_rules t model))
            (check_wires {} (bt_values (effective_rules t model))))"

definition validate_table ::
  "'j plan_codec \<Rightarrow> 'j parameter_table \<Rightarrow> string \<Rightarrow> string list \<Rightarrow> (plan_error, unit) res" where
  "validate_table C t protocol reserved =
     (if pt_provider t = [] \<or> pt_protocol t \<noteq> protocol \<or> pt_models t = []
      then Err (InvalidPlan ''invalid parameter table identity, protocol or model registry'')
      else
        andthen (check_all (check_rule C reserved)
                   (pt_defaults t @ concat (map mo_parameters (bt_values (pt_models t)))))
          (check_all (check_model t) (pt_models t)))"

text \<open>\<open>RequestPlanner::new\<close>; a planner is its table.\<close>

definition planner_new ::
  "'j plan_codec \<Rightarrow> 'j parameter_table \<Rightarrow> string \<Rightarrow> string list \<Rightarrow> (plan_error, 'j parameter_table) res" where
  "planner_new C t protocol reserved = andthen (validate_table C t protocol reserved) (Ok t)"

section \<open>Planning\<close>

definition message_features :: "'j content_block list \<Rightarrow> model_feature list" where
  "message_features blocks = concat (map (\<lambda>b. case b of
     ImageBlock _ \<Rightarrow> [ImageInput] | DocumentBlock _ _ \<Rightarrow> [DocumentInput]
   | ToolCallBlock _ \<Rightarrow> [ToolUseFeature] | ToolResultBlock _ \<Rightarrow> [ToolUseFeature] | _ \<Rightarrow> []) blocks)"

definition required_features :: "'j generation_request \<Rightarrow> model_feature list" where
  "required_features q =
     [Streaming, TextInput, TextOutput]
     @ (if gr_output_format q \<noteq> None then [StructuredOutput] else [])
     @ (if gr_tools q \<noteq> [] \<or> (case gr_tool_choice q of RequiredChoice \<Rightarrow> True | NamedTool _ \<Rightarrow> True | _ \<Rightarrow> False)
        then [ToolUseFeature] else [])
     @ message_features (concat (map me_content (gr_messages q)))"

definition check_features :: "'j generation_request \<Rightarrow> model_feature set \<Rightarrow> (plan_error, unit) res" where
  "check_features q features =
     (case find (\<lambda>f. f \<notin> features) (required_features q) of
        None \<Rightarrow> Ok ()
      | Some f \<Rightarrow> Err (UnsupportedPlan (''required model feature unavailable: '' @ model_feature_text f)))"

fun pointer :: "'j plan_codec \<Rightarrow> 'j \<Rightarrow> string list \<Rightarrow> 'j option" where
  "pointer C v [] = Some v"
| "pointer C v (p # ps) =
     (case nc_members C v of
        None \<Rightarrow> None
      | Some members \<Rightarrow> (case bt_get members p of None \<Rightarrow> None | Some w \<Rightarrow> pointer C w ps))"

definition neutral_inputs :: "'j plan_codec \<Rightarrow> 'j \<Rightarrow> (string, 'j) bmap" where
  "neutral_inputs C body = fold (\<lambda>key. bt_insert key
     (case pointer C body (split_on (CHR ''.'') key) of None \<Rightarrow> nc_null C | Some v \<Rightarrow> v)) PARAMETERS []"

definition parameters :: "'j plan_codec \<Rightarrow> 'j generation_request \<Rightarrow> (plan_error, (string, 'j) bmap) res" where
  "parameters C q =
     bindr (ok_or (nc_body C q) (InvalidPlan ''request cannot be serialized'')) (\<lambda>body.
       case nc_members C (gr_extensions q) of
         Some members \<Rightarrow>
           Ok (fold (\<lambda>(key, v). bt_insert (EXTENSION @ key) v) members (neutral_inputs C body))
       | None \<Rightarrow>
           if gr_extensions q = nc_null C then Ok (neutral_inputs C body)
           else Err (InvalidPlan ''extensions must be a namespaced object''))"

text \<open>\<open>entry(key).or_insert(Null)\<close> for every rule.\<close>

definition or_null :: "'j plan_codec \<Rightarrow> string list \<Rightarrow> (string, 'j) bmap \<Rightarrow> (string, 'j) bmap" where
  "or_null C keys inputs =
     fold (\<lambda>key m. if bt_contains m key then m else bt_insert key (nc_null C) m) keys inputs"

record 'j plan_state =
  ps_values :: "(string, 'j) bmap"
  ps_wire :: "(string, 'j) bmap"
  ps_decisions :: "parameter_decision list"

definition decide :: "string \<Rightarrow> parameter_action \<Rightarrow> 'j plan_state \<Rightarrow> 'j plan_state" where
  "decide key action s = s\<lparr>ps_decisions := ps_decisions s @ [\<lparr>de_parameter = key, de_action = action\<rparr>]\<rparr>"

text \<open>A required tool choice that the rule does not admit becomes \<open>auto\<close>, or is left out.\<close>

definition choose_input ::
  "'j plan_codec \<Rightarrow> 'j generation_request \<Rightarrow> 'j parameter_rule option \<Rightarrow> string \<Rightarrow> 'j
   \<Rightarrow> (plan_error, ('j \<times> bool) option) res" where
  "choose_input C q rule key input =
     (case rule of
        Some r \<Rightarrow>
          if (key = ''tool_choice'' \<and> gr_tool_choice q = RequiredChoice) \<and> ru_support r = Supported
             \<and> (\<not> is_ok (validate_value C (ru_schema r) input key)
                \<or> (case ru_required_max_tools r of None \<Rightarrow> False | Some limit \<Rightarrow> limit < length (gr_tools q)))
          then
            if is_ok (validate_value C (ru_schema r) (nc_text C ''auto'') key) then Ok (Some (nc_text C ''auto'', True))
            else if ru_omittable r then Ok None
            else Err (UnsupportedPlan ''no supported tool_choice value; omission forbidden'')
          else Ok (Some (input, False))
      | None \<Rightarrow> Ok (Some (input, False)))"

definition is_provided :: "'j plan_codec \<Rightarrow> 'j generation_request \<Rightarrow> string \<Rightarrow> 'j \<Rightarrow> bool" where
  "is_provided C q key input \<longleftrightarrow> input \<noteq> nc_null C
     \<or> (case strip_prefix EXTENSION key of
          None \<Rightarrow> False
        | Some name \<Rightarrow> (case nc_members C (gr_extensions q) of None \<Rightarrow> False | Some members \<Rightarrow> bt_contains members name))"

definition send_value ::
  "'j plan_codec \<Rightarrow> 'j parameter_rule \<Rightarrow> string \<Rightarrow> 'j \<Rightarrow> parameter_action \<Rightarrow> 'j plan_state
   \<Rightarrow> (plan_error, 'j plan_state) res" where
  "send_value C r key v action s =
     andthen (validate_value C (ru_schema r) v key)
    (bindr (if strip_prefix EXTENSION key \<noteq> None
            then bindr (unwrap (ru_wire_name r)) (\<lambda>wire. Ok (s\<lparr>ps_wire := bt_insert wire v (ps_wire s)\<rparr>))
            else Ok s) (\<lambda>s'.
      Ok ((decide key action s')\<lparr>ps_values := bt_insert key v (ps_values s')\<rparr>)))"

definition plan_parameter ::
  "'j plan_codec \<Rightarrow> 'j generation_request \<Rightarrow> (string, 'j parameter_rule) bmap \<Rightarrow> string \<Rightarrow> 'j \<Rightarrow> 'j plan_state
   \<Rightarrow> (plan_error, 'j plan_state) res" where
  "plan_parameter C q rules key input0 s =
     (let rule = bt_get rules key; compatible = (key = ''tool_choice'' \<and> gr_tool_choice q = RequiredChoice) in
      bindr (choose_input C q rule key input0) (\<lambda>choice.
      case choice of
        None \<Rightarrow> Ok (decide key OmittedUnsupported s)
      | Some (input, mapped) \<Rightarrow>
          if strip_prefix EXTENSION key \<noteq> None \<and> rule = None
          then Err (InvalidPlan ''unregistered extension parameter'')
          else
            let provided = is_provided C q key input;
                support = (case rule of None \<Rightarrow> UnknownSupport | Some r \<Rightarrow> ru_support r);
                preset = (case rule of None \<Rightarrow> None | Some r \<Rightarrow> ru_default r) in
            if \<not> provided \<and> (support \<noteq> Supported \<or> preset = None) then Ok s
            else if support \<noteq> Supported then
              if compatible \<and> support = UnknownSupport
              then Err (UnsupportedPlan ''required tool_choice support is unknown; declare model capability'')
              else if (case rule of None \<Rightarrow> False | Some r \<Rightarrow> \<not> ru_omittable r)
                 \<or> (key = ''tool_choice'' \<and> gr_tool_choice q \<noteq> AutoChoice \<and> \<not> compatible)
              then Err (UnsupportedPlan (''required parameter unavailable: '' @ key))
              else Ok (decide key (if support = Unsupported then OmittedUnsupported else OmittedUnknown) s)
            else
              bindr (unwrap rule) (\<lambda>r.
              bindr (if provided then Ok input else unwrap preset) (\<lambda>v.
                send_value C r key v (if mapped then MappedToAuto else if \<not> provided then Defaulted else Sent) s))))"

fun plan_all ::
  "'j plan_codec \<Rightarrow> 'j generation_request \<Rightarrow> (string, 'j parameter_rule) bmap \<Rightarrow> (string, 'j) bmap \<Rightarrow> 'j plan_state
   \<Rightarrow> (plan_error, 'j plan_state) res" where
  "plan_all C q rules [] s = Ok s"
| "plan_all C q rules ((key, input) # inputs) s =
     bindr (plan_parameter C q rules key input s) (plan_all C q rules inputs)"

text \<open>Typed readings of the planned values.\<close>

definition read_value :: "('j \<Rightarrow> 'a option) \<Rightarrow> string \<Rightarrow> (string, 'j) bmap \<Rightarrow> (plan_error, 'a option) res" where
  "read_value f key values =
     (case bt_get values key of
        None \<Rightarrow> Ok None
      | Some v \<Rightarrow> bindr (ok_or (f v) (InvalidPlan (''invalid neutral parameter type: '' @ key))) (\<lambda>x. Ok (Some x)))"

definition planned_reasoning :: "'j plan_codec \<Rightarrow> (string, 'j) bmap \<Rightarrow> (plan_error, reasoning_config option) res" where
  "planned_reasoning C values =
     bindr (read_value (nc_as_text C) ''reasoning.effort'' values) (\<lambda>effort.
     bindr (read_value (nc_as_u32 C) ''reasoning.budget_tokens'' values) (\<lambda>budget.
       Ok (if effort \<noteq> None \<or> budget \<noteq> None then Some \<lparr>rc_effort = effort, rc_budget_tokens = budget\<rparr> else None)))"

definition planned_cache :: "'j plan_codec \<Rightarrow> (string, 'j) bmap \<Rightarrow> (plan_error, prompt_cache_config option) res" where
  "planned_cache C values =
     bindr (read_value (nc_as_text C) ''prompt_cache.key'' values) (\<lambda>key.
     bindr (read_value (nc_as_retention C) ''prompt_cache.retention'' values) (\<lambda>retention.
     bindr (read_value (nc_as_breakpoints C) ''prompt_cache.breakpoints'' values) (\<lambda>found.
       let breakpoints = (case found of None \<Rightarrow> [] | Some b \<Rightarrow> b) in
       Ok (if key \<noteq> None \<or> retention \<noteq> None \<or> breakpoints \<noteq> []
           then Some \<lparr>cc_key = key, cc_retention = retention, cc_breakpoints = breakpoints\<rparr> else None))))"

definition planned_extensions :: "(string, 'j) bmap \<Rightarrow> (string, 'j) bmap" where
  "planned_extensions values =
     fold (\<lambda>(key, v) m. case strip_prefix EXTENSION key of None \<Rightarrow> m | Some name \<Rightarrow> bt_insert name v m) values []"

definition effective_request ::
  "'j plan_codec \<Rightarrow> 'j generation_request \<Rightarrow> (string, 'j) bmap \<Rightarrow> (plan_error, 'j generation_request) res" where
  "effective_request C q values =
     bindr (planned_reasoning C values) (\<lambda>reasoning.
     bindr (planned_cache C values) (\<lambda>cache.
     bindr (read_value (nc_as_u32 C) ''max_output_tokens'' values) (\<lambda>limit.
     bindr (read_value (nc_as_choice C) ''tool_choice'' values) (\<lambda>choice.
       Ok (q\<lparr>gr_reasoning := reasoning, gr_prompt_cache := cache, gr_max_output_tokens := limit,
             gr_tool_choice := (case choice of None \<Rightarrow> AutoChoice | Some c \<Rightarrow> c),
             gr_extensions := nc_object C (planned_extensions values)\<rparr>)))))"

definition plan_request ::
  "'j plan_codec \<Rightarrow> 'j parameter_table \<Rightarrow> 'j generation_request \<Rightarrow> (plan_error, 'j planned_request) res" where
  "plan_request C t q =
     (if mf_provider (gr_model q) \<noteq> pt_provider t
      then Err (InvalidPlan ''request provider does not match parameter table'')
      else
        bindr (ok_or (bt_get (pt_models t) (mf_model (gr_model q)))
                 (UnsupportedPlan ''model is not registered in parameter table'')) (\<lambda>model.
        andthen (check_features q (model_features t model))
       (bindr (parameters C q) (\<lambda>inputs.
        bindr (plan_all C q (effective_rules t model) (or_null C (bt_keys (effective_rules t model)) inputs)
                 \<lparr>ps_values = [], ps_wire = [], ps_decisions = []\<rparr>) (\<lambda>s.
        bindr (effective_request C q (ps_values s)) (\<lambda>q'.
          Ok \<lparr>pq_request = q', pq_wire_extensions = ps_wire s, pq_decisions = ps_decisions s\<rparr>))))))"

definition unconfigured :: "'j plan_codec \<Rightarrow> 'j generation_request \<Rightarrow> (plan_error, 'j planned_request) res" where
  "unconfigured C q =
     (if gr_extensions q \<noteq> nc_null C
         \<and> (case nc_members C (gr_extensions q) of None \<Rightarrow> True | Some members \<Rightarrow> members \<noteq> [])
      then Err (InvalidPlan ''extensions require an explicit parameter table'')
      else Ok \<lparr>pq_request = q, pq_wire_extensions = [], pq_decisions = []\<rparr>)"

definition omitted :: "'j planned_request \<Rightarrow> string \<Rightarrow> bool" where
  "omitted p parameter \<longleftrightarrow> (\<exists>d \<in> set (pq_decisions p). de_parameter d = parameter
     \<and> (de_action d = OmittedUnsupported \<or> de_action d = OmittedUnknown))"

end
