(* ===== verification/Planning_Properties.thy ===== *)
theory Planning_Properties
  imports Model_Planning
begin

text \<open>
  What a plan guarantees: nothing is sent that the table does not support, nothing that was given is
  dropped without a decision, and the extension members of the wire body are bound one to one.
\<close>

section \<open>One parameter\<close>

definition sends :: "parameter_action \<Rightarrow> bool" where
  "sends a \<longleftrightarrow> a = Sent \<or> a = Defaulted \<or> a = MappedToAuto"

text \<open>A value that goes out has a supported rule that accepts it.\<close>

definition admitted ::
  "'j plan_codec \<Rightarrow> (string, 'j parameter_rule) bmap \<Rightarrow> string \<Rightarrow> 'j \<Rightarrow> bool" where
  "admitted C rules key v \<longleftrightarrow> (\<exists>r. bt_get rules key = Some r \<and> ru_support r = Supported
     \<and> nc_compiles C (ru_schema r) \<and> nc_accepts C (ru_schema r) v)"

text \<open>Where a value that goes out comes from.\<close>

definition origin ::
  "'j plan_codec \<Rightarrow> 'j generation_request \<Rightarrow> (string, 'j parameter_rule) bmap \<Rightarrow> string \<Rightarrow> 'j \<Rightarrow> parameter_action \<Rightarrow> 'j \<Rightarrow> bool" where
  "origin C q rules key input action v \<longleftrightarrow>
     action = Sent \<and> v = input \<and> is_provided C q key input
     \<or> action = Defaulted \<and> \<not> is_provided C q key input \<and> (\<exists>r. bt_get rules key = Some r \<and> ru_default r = Some v)
     \<or> action = MappedToAuto \<and> key = ''tool_choice'' \<and> gr_tool_choice q = RequiredChoice \<and> v = nc_text C ''auto''"

text \<open>Why a parameter is left out.\<close>

definition omittable ::
  "'j generation_request \<Rightarrow> (string, 'j parameter_rule) bmap \<Rightarrow> string \<Rightarrow> parameter_action \<Rightarrow> bool" where
  "omittable q rules key action \<longleftrightarrow>
     (\<forall>r. bt_get rules key = Some r \<longrightarrow> ru_omittable r)
     \<and> (action = OmittedUnsupported \<and> (\<exists>r. bt_get rules key = Some r
           \<and> (ru_support r = Unsupported \<or> key = ''tool_choice'' \<and> gr_tool_choice q = RequiredChoice))
       \<or> action = OmittedUnknown \<and> (\<forall>r. bt_get rules key = Some r \<longrightarrow> ru_support r = UnknownSupport))
     \<and> (key = ''tool_choice'' \<longrightarrow> gr_tool_choice q = AutoChoice \<or> gr_tool_choice q = RequiredChoice \<and> action = OmittedUnsupported)"

inductive parameter_step ::
  "'j plan_codec \<Rightarrow> 'j generation_request \<Rightarrow> (string, 'j parameter_rule) bmap \<Rightarrow> string \<Rightarrow> 'j \<Rightarrow> 'j plan_state \<Rightarrow> 'j plan_state \<Rightarrow> bool"
  for C q rules key input s where
  skipped: "\<not> is_provided C q key input \<Longrightarrow> parameter_step C q rules key input s s"
| left_out: "omittable q rules key action \<Longrightarrow> parameter_step C q rules key input s (decide key action s)"
| sent: "admitted C rules key v \<Longrightarrow> origin C q rules key input action v \<Longrightarrow> bt_get rules key = Some r \<Longrightarrow>
    wire = (if strip_prefix EXTENSION key \<noteq> None then bt_insert (the (ru_wire_name r)) v (ps_wire s) else ps_wire s) \<Longrightarrow>
    (strip_prefix EXTENSION key \<noteq> None \<longrightarrow> ru_wire_name r \<noteq> None) \<Longrightarrow>
    parameter_step C q rules key input s
      \<lparr>ps_values = bt_insert key v (ps_values s), ps_wire = wire,
       ps_decisions = ps_decisions s @ [\<lparr>de_parameter = key, de_action = action\<rparr>]\<rparr>"

lemma validate_value_Ok [res_simps]:
  "validate_value C schema v key = Ok () \<longleftrightarrow> nc_compiles C schema \<and> nc_accepts C schema v"
  by (simp add: validate_value_def)

lemma send_value_step:
  assumes "send_value C r key v action s = Ok s'" and "bt_get rules key = Some r" and "ru_support r = Supported"
    and "origin C q rules key input action v"
  shows "parameter_step C q rules key input s s'"
proof -
  from assms(1-3) have "admitted C rules key v" by (auto simp: send_value_def res_simps admitted_def)
  from sent [OF this assms(4,2) refl, of s] assms(1) show ?thesis
    by (cases s) (auto simp: send_value_def res_simps decide_def split: if_splits)
qed

lemma unknown_support: "x \<noteq> Supported \<Longrightarrow> x \<noteq> Unsupported \<Longrightarrow> x = UnknownSupport" by (cases x) simp_all

lemma choose_input_cases:
  assumes "choose_input C q rule key input = Ok choice"
  shows "choice = Some (input, False)
    \<or> (key = ''tool_choice'' \<and> gr_tool_choice q = RequiredChoice \<and> (\<exists>r. rule = Some r \<and> ru_support r = Supported
        \<and> (choice = Some (nc_text C ''auto'', True) \<or> choice = None \<and> ru_omittable r)))"
  using assms by (auto simp: choose_input_def split: option.splits if_splits)

lemma plan_parameter_step:
  assumes plan: "plan_parameter C q rules key input s = Ok s'" and auto_text: "nc_text C ''auto'' \<noteq> nc_null C"
  shows "parameter_step C q rules key input s s'"
proof -
  from plan obtain choice where choice: "choose_input C q (bt_get rules key) key input = Ok choice"
    by (auto simp: plan_parameter_def Let_def res_simps)
  note go = plan [unfolded plan_parameter_def Let_def choice bindr.simps]
  from choose_input_cases [OF choice] consider
      "choice = Some (input, False)"
    | r where "key = ''tool_choice''" "gr_tool_choice q = RequiredChoice" "bt_get rules key = Some r" "ru_support r = Supported"
        "choice = Some (nc_text C ''auto'', True)"
    | r where "key = ''tool_choice''" "gr_tool_choice q = RequiredChoice" "bt_get rules key = Some r" "ru_support r = Supported"
        "choice = None" "ru_omittable r"
    by blast
  then show ?thesis
  proof cases
    case 1
    show ?thesis
    proof (cases "\<exists>r. bt_get rules key = Some r \<and> ru_support r = Supported")
      case True
      then obtain r where r: "bt_get rules key = Some r" "ru_support r = Supported" by blast
      show ?thesis
      proof (cases "is_provided C q key input")
        case True
        with go 1 r have "send_value C r key input Sent s = Ok s'" by (simp add: res_simps)
        from send_value_step [OF this r] True show ?thesis by (simp add: origin_def)
      next
        case False
        show ?thesis
        proof (cases "ru_default r")
          case None
          with go 1 r False show ?thesis by (simp add: skipped)
        next
          case (Some v)
          with go 1 r False have "send_value C r key v Defaulted s = Ok s'" by (simp add: res_simps)
          from send_value_step [OF this r] False Some r show ?thesis by (simp add: origin_def)
        qed
      qed
    next
      case False
      show ?thesis
      proof (cases "is_provided C q key input")
        case True
        with go 1 False show ?thesis
          by (cases "bt_get rules key")
             (auto simp: omittable_def split: if_splits intro!: left_out dest: unknown_support)
      next
        case skip: False
        with go 1 False have "s' = s" by (auto split: if_splits option.splits)
        with skip show ?thesis by (simp add: skipped)
      qed
    qed
  next
    case (2 r)
    have "is_provided C q key (nc_text C ''auto'')" using auto_text by (simp add: is_provided_def)
    with go 2 have "send_value C r key (nc_text C ''auto'') MappedToAuto s = Ok s'"
      by (simp add: res_simps strip_prefix_def EXTENSION_def)
    from send_value_step [OF this 2(3,4)] 2 show ?thesis by (simp add: origin_def)
  next
    case (3 r)
    with go have "s' = decide key OmittedUnsupported s" by simp
    then show ?thesis using 3 by (auto simp: omittable_def intro!: left_out)
  qed
qed

section \<open>All parameters\<close>

definition wires_distinct :: "(string, 'j parameter_rule) bmap \<Rightarrow> bool" where
  "wires_distinct rules \<longleftrightarrow> (\<forall>k k' r r' w. bt_get rules k = Some r \<and> bt_get rules k' = Some r'
     \<and> ru_support r = Supported \<and> ru_support r' = Supported \<and> ru_wire_name r = Some w \<and> ru_wire_name r' = Some w \<longrightarrow> k = k')"

text \<open>The decisions, the values that go out, and the wire members, after the inputs of a set.\<close>

definition decisions_for ::
  "'j plan_codec \<Rightarrow> 'j generation_request \<Rightarrow> (string, 'j parameter_rule) bmap \<Rightarrow> (string \<times> 'j) set \<Rightarrow> 'j plan_state \<Rightarrow> bool" where
  "decisions_for C q rules I s \<longleftrightarrow>
     distinct (map de_parameter (ps_decisions s)) \<and> de_parameter ` set (ps_decisions s) \<subseteq> fst ` I
     \<and> (\<forall>d \<in> set (ps_decisions s). \<not> sends (de_action d) \<longrightarrow> omittable q rules (de_parameter d) (de_action d))
     \<and> (\<forall>d \<in> set (ps_decisions s). sends (de_action d) \<longrightarrow> bt_get (ps_values s) (de_parameter d) \<noteq> None)
     \<and> (\<forall>(key, input) \<in> I. is_provided C q key input \<longrightarrow> key \<in> de_parameter ` set (ps_decisions s))"

definition values_for ::
  "'j plan_codec \<Rightarrow> 'j generation_request \<Rightarrow> (string, 'j parameter_rule) bmap \<Rightarrow> (string \<times> 'j) set \<Rightarrow> 'j plan_state \<Rightarrow> bool" where
  "values_for C q rules I s \<longleftrightarrow>
     bt_wf (ps_values s) \<and> fst ` set (ps_values s) \<subseteq> fst ` I
     \<and> (\<forall>key v. bt_get (ps_values s) key = Some v \<longrightarrow> admitted C rules key v
          \<and> (\<exists>input action. (key, input) \<in> I \<and> \<lparr>de_parameter = key, de_action = action\<rparr> \<in> set (ps_decisions s)
               \<and> sends action \<and> origin C q rules key input action v))"

definition wire_for :: "(string, 'j parameter_rule) bmap \<Rightarrow> 'j plan_state \<Rightarrow> bool" where
  "wire_for rules s \<longleftrightarrow>
     bt_wf (ps_wire s)
     \<and> (\<forall>w v. bt_get (ps_wire s) w = Some v \<longrightarrow> (\<exists>key r. strip_prefix EXTENSION key \<noteq> None \<and> bt_get rules key = Some r
          \<and> ru_support r = Supported \<and> ru_wire_name r = Some w \<and> (wires_distinct rules \<longrightarrow> bt_get (ps_values s) key = Some v)))
     \<and> (wires_distinct rules \<longrightarrow> (\<forall>key v. bt_get (ps_values s) key = Some v \<and> strip_prefix EXTENSION key \<noteq> None \<longrightarrow>
          (\<exists>r w. bt_get rules key = Some r \<and> ru_wire_name r = Some w \<and> bt_get (ps_wire s) w = Some v)))"

lemma origin_sends: "origin C q rules key input action v \<Longrightarrow> sends action"
  by (auto simp: origin_def sends_def)

lemma omittable_not_sends: "omittable q rules key action \<Longrightarrow> \<not> sends action"
  by (auto simp: omittable_def sends_def)

lemma decisions_for_step:
  assumes "parameter_step C q rules key input s s'" and "decisions_for C q rules I s" and "values_for C q rules I s" and "key \<notin> fst ` I"
  shows "decisions_for C q rules (insert (key, input) I) s'"
  using assms(1)
proof cases
  case skipped
  with assms(2,4) show ?thesis unfolding decisions_for_def by (auto simp: rev_image_eqI)
next
  case (left_out action)
  with assms(2,4) omittable_not_sends [OF left_out(2)] show ?thesis unfolding decisions_for_def decide_def by auto
next
  case (sent v action r wire)
  have "bt_wf (ps_values s)" using assms(3) by (simp add: values_for_def)
  with sent assms(2,4) origin_sends [OF sent(3)] show ?thesis unfolding decisions_for_def by (auto simp: bt_simps)
qed

lemma values_for_mono:
  assumes "values_for C q rules I s" and "ps_values s' = ps_values s" and "set (ps_decisions s) \<subseteq> set (ps_decisions s')" and "I \<subseteq> I'"
  shows "values_for C q rules I' s'"
  unfolding values_for_def assms(2)
proof (intro conjI allI impI)
  show "bt_wf (ps_values s)" using assms(1) by (simp add: values_for_def)
  have "fst ` set (ps_values s) \<subseteq> fst ` I" using assms(1) by (simp add: values_for_def)
  also have "\<dots> \<subseteq> fst ` I'" by (rule image_mono [OF assms(4)])
  finally show "fst ` set (ps_values s) \<subseteq> fst ` I'" .
next
  fix key v assume v: "bt_get (ps_values s) key = Some v"
  with assms(1) show "admitted C rules key v" by (simp add: values_for_def)
  from v assms(1) obtain input action where "(key, input) \<in> I" "\<lparr>de_parameter = key, de_action = action\<rparr> \<in> set (ps_decisions s)"
    "sends action" "origin C q rules key input action v" unfolding values_for_def by blast
  with assms(3,4) show "\<exists>input action. (key, input) \<in> I' \<and> \<lparr>de_parameter = key, de_action = action\<rparr> \<in> set (ps_decisions s')
    \<and> sends action \<and> origin C q rules key input action v" by blast
qed

lemma values_for_step:
  assumes "parameter_step C q rules key input s s'" and "values_for C q rules I s" and "key \<notin> fst ` I"
  shows "values_for C q rules (insert (key, input) I) s'"
  using assms(1)
proof cases
  case skipped
  show ?thesis by (rule values_for_mono [OF assms(2)]) (auto simp: skipped)
next
  case (left_out action)
  show ?thesis by (rule values_for_mono [OF assms(2)]) (auto simp: left_out decide_def)
next
  case (sent v action r wire)
  have wf: "bt_wf (ps_values s)" using assms(2) by (simp add: values_for_def)
  show ?thesis unfolding values_for_def sent(1) plan_state.simps bt_get_insert [OF wf]
  proof (intro conjI allI impI)
    show "bt_wf (bt_insert key v (ps_values s))" using wf by blast
    show "fst ` set (bt_insert key v (ps_values s)) \<subseteq> fst ` insert (key, input) I"
      using assms(2) by (auto simp: values_for_def)
  next
    fix k u assume u: "((bt_get (ps_values s))(key \<mapsto> v)) k = Some u"
    show "admitted C rules k u"
      using u sent(2) assms(2) by (auto simp: values_for_def split: if_splits)
    show "\<exists>input' action'. (k, input') \<in> insert (key, input) I
        \<and> \<lparr>de_parameter = k, de_action = action'\<rparr> \<in> set (ps_decisions s @ [\<lparr>de_parameter = key, de_action = action\<rparr>])
        \<and> sends action' \<and> origin C q rules k input' action' u"
    proof (cases "k = key")
      case True
      with u sent(3) origin_sends [OF sent(3)] show ?thesis by auto
    next
      case False
      with u have "bt_get (ps_values s) k = Some u" by simp
      with assms(2) obtain input' action' where "(k, input') \<in> I" "\<lparr>de_parameter = k, de_action = action'\<rparr> \<in> set (ps_decisions s)"
        "sends action'" "origin C q rules k input' action' u" unfolding values_for_def by blast
      then show ?thesis by auto
    qed
  qed
qed

lemma wire_for_step:
  assumes "parameter_step C q rules key input s s'" and "values_for C q rules I s" and "wire_for rules s" and "key \<notin> fst ` I"
  shows "wire_for rules s'"
  using assms(1)
proof cases
  case skipped
  with assms(3) show ?thesis by simp
next
  case (left_out action)
  with assms(3) show ?thesis by (simp add: wire_for_def decide_def)
next
  case (sent v action r wire)
  have wf: "bt_wf (ps_values s)" "bt_wf (ps_wire s)" using assms(2,3) by (simp_all add: values_for_def wire_for_def)
  have fresh: "bt_get (ps_values s) key = None"
    using assms(2,4) by (auto simp: values_for_def map_of_eq_None_iff)
  have supported: "ru_support r = Supported" using sent(2,4) by (simp add: admitted_def)
  have supported_value: "\<exists>r. bt_get rules k = Some r \<and> ru_support r = Supported" if "bt_get (ps_values s) k = Some u" for k u
    using assms(2) that unfolding values_for_def admitted_def by blast
  show ?thesis
  proof (cases "strip_prefix EXTENSION key = None")
    case True
    with sent(5) have "wire = ps_wire s" by simp
    show ?thesis unfolding wire_for_def sent(1) plan_state.simps \<open>wire = ps_wire s\<close> bt_get_insert [OF wf(1)]
    proof (intro conjI allI impI wf(2))
      fix w u assume "bt_get (ps_wire s) w = Some u"
      with assms(3) obtain k r' where k: "strip_prefix EXTENSION k \<noteq> None" "bt_get rules k = Some r'" "ru_support r' = Supported"
        "ru_wire_name r' = Some w" "wires_distinct rules \<longrightarrow> bt_get (ps_values s) k = Some u" unfolding wire_for_def by blast
      then have "k \<noteq> key" using True by auto
      with k show "\<exists>k r. strip_prefix EXTENSION k \<noteq> None \<and> bt_get rules k = Some r \<and> ru_support r = Supported \<and> ru_wire_name r = Some w
        \<and> (wires_distinct rules \<longrightarrow> ((bt_get (ps_values s))(key \<mapsto> v)) k = Some u)" by auto
    next
      fix k u
      assume "wires_distinct rules" and u: "((bt_get (ps_values s))(key \<mapsto> v)) k = Some u \<and> strip_prefix EXTENSION k \<noteq> None"
      then have "bt_get (ps_values s) k = Some u" using True by (auto split: if_splits)
      with assms(3) \<open>wires_distinct rules\<close> u
      show "\<exists>r w. bt_get rules k = Some r \<and> ru_wire_name r = Some w \<and> bt_get (ps_wire s) w = Some u"
        unfolding wire_for_def by blast
    qed
  next
    case False
    with sent(5,6) obtain w0 where w0: "ru_wire_name r = Some w0" and wire: "wire = bt_insert w0 v (ps_wire s)" by auto
    show ?thesis unfolding wire_for_def sent(1) plan_state.simps wire bt_get_insert [OF wf(1)] bt_get_insert [OF wf(2)]
    proof (intro conjI allI impI)
      show "bt_wf (bt_insert w0 v (ps_wire s))" using wf(2) by blast
    next
      fix w u assume u: "((bt_get (ps_wire s))(w0 \<mapsto> v)) w = Some u"
      show "\<exists>k r. strip_prefix EXTENSION k \<noteq> None \<and> bt_get rules k = Some r \<and> ru_support r = Supported \<and> ru_wire_name r = Some w
        \<and> (wires_distinct rules \<longrightarrow> ((bt_get (ps_values s))(key \<mapsto> v)) k = Some u)"
      proof (cases "w = w0")
        case True
        with u False sent(4) supported w0 show ?thesis by auto
      next
        case other: False
        with u have "bt_get (ps_wire s) w = Some u" by simp
        with assms(3) obtain k r' where k: "strip_prefix EXTENSION k \<noteq> None" "bt_get rules k = Some r'" "ru_support r' = Supported"
          "ru_wire_name r' = Some w" "wires_distinct rules \<longrightarrow> bt_get (ps_values s) k = Some u" unfolding wire_for_def by blast
        have "k \<noteq> key" using k(2,4) sent(4) w0 other by auto
        with k show ?thesis by auto
      qed
    next
      fix k u
      assume dis: "wires_distinct rules" and u: "((bt_get (ps_values s))(key \<mapsto> v)) k = Some u \<and> strip_prefix EXTENSION k \<noteq> None"
      show "\<exists>r w. bt_get rules k = Some r \<and> ru_wire_name r = Some w \<and> ((bt_get (ps_wire s))(w0 \<mapsto> v)) w = Some u"
      proof (cases "k = key")
        case True
        with u sent(4) w0 show ?thesis by auto
      next
        case other: False
        with u have old: "bt_get (ps_values s) k = Some u" by simp
        with assms(3) dis u obtain r' w where rw: "bt_get rules k = Some r'" "ru_wire_name r' = Some w" "bt_get (ps_wire s) w = Some u"
          unfolding wire_for_def by blast
        have "ru_support r' = Supported" using supported_value [OF old] rw(1) by simp
        with dis rw(1,2) sent(4) supported w0 other have "w \<noteq> w0" unfolding wires_distinct_def by metis
        with rw show ?thesis by auto
      qed
    qed
  qed
qed

text \<open>The whole loop.\<close>

definition planned_for ::
  "'j plan_codec \<Rightarrow> 'j generation_request \<Rightarrow> (string, 'j parameter_rule) bmap \<Rightarrow> (string \<times> 'j) set \<Rightarrow> 'j plan_state \<Rightarrow> bool" where
  "planned_for C q rules I s \<longleftrightarrow> decisions_for C q rules I s \<and> values_for C q rules I s \<and> wire_for rules s"

lemma plan_all_planned:
  assumes "plan_all C q rules inputs s = Ok s'" and "nc_text C ''auto'' \<noteq> nc_null C" and "planned_for C q rules I s"
    and "distinct (bt_keys inputs)" and "fst ` I \<inter> fst ` set inputs = {}"
  shows "planned_for C q rules (I \<union> set inputs) s'"
  using assms
proof (induction inputs arbitrary: s I)
  case (Cons entry inputs)
  obtain key input where entry: "entry = (key, input)" by fastforce
  from Cons.prems(1) obtain s1 where s1: "plan_parameter C q rules key input s = Ok s1"
    and rest: "plan_all C q rules inputs s1 = Ok s'" by (auto simp: entry res_simps)
  note step = plan_parameter_step [OF s1 Cons.prems(2)]
  have new: "key \<notin> fst ` I" using Cons.prems(5) by (auto simp: entry)
  have "planned_for C q rules (insert (key, input) I) s1"
    using decisions_for_step [OF step _ _ new] values_for_step [OF step _ new] wire_for_step [OF step _ _ new] Cons.prems(3)
    unfolding planned_for_def by blast
  from Cons.IH [OF rest Cons.prems(2) this] Cons.prems(4,5) show ?case by (simp add: entry)
qed simp

lemma planned_for_empty: "planned_for C q rules {} \<lparr>ps_values = [], ps_wire = [], ps_decisions = []\<rparr>"
  by (simp add: planned_for_def decisions_for_def values_for_def wire_for_def)

text \<open>The inputs of a request: what it gives, and null for every other parameter of the table.\<close>

lemma bt_wf_fold_insert: "bt_wf m \<Longrightarrow> bt_wf (fold (\<lambda>(k, v). bt_insert (f k) v) kvs m)"
  by (induction kvs arbitrary: m) (auto simp: bt_wf_insert)

lemma bt_wf_fold_keys: "bt_wf m \<Longrightarrow> bt_wf (fold (\<lambda>k. bt_insert k (g k)) keys m)"
  by (induction keys arbitrary: m) (auto simp: bt_wf_insert)

lemma or_null_wf: "bt_wf inputs \<Longrightarrow> bt_wf (or_null C keys inputs)"
  unfolding or_null_def by (induction keys arbitrary: inputs) (auto simp: bt_wf_insert simp del: bt_contains_iff)

lemma or_null_get:
  "bt_wf inputs \<Longrightarrow> bt_get inputs key = Some v \<Longrightarrow> bt_get (or_null C keys inputs) key = Some v"
  unfolding or_null_def
proof (induction keys arbitrary: inputs)
  case (Cons k keys)
  show ?case
  proof (cases "bt_contains inputs k")
    case False
    then have "k \<noteq> key" using Cons.prems(2) by (auto simp: bt_contains_def simp del: bt_contains_iff)
    with Cons False show ?thesis by (simp add: bt_wf_insert bt_simps del: bt_contains_iff)
  qed (use Cons in \<open>simp del: bt_contains_iff\<close>)
qed simp

lemma parameters_wf: "parameters C q = Ok inputs \<Longrightarrow> bt_wf inputs"
proof -
  have "bt_wf (neutral_inputs C body)" for body
    unfolding neutral_inputs_def by (rule bt_wf_fold_keys) simp
  then show "parameters C q = Ok inputs \<Longrightarrow> bt_wf inputs"
    by (auto simp: parameters_def res_simps bt_wf_fold_insert split: option.splits if_splits)
qed

lemma plan_request_planned:
  assumes "plan_request C t q = Ok p" and "nc_text C ''auto'' \<noteq> nc_null C"
  obtains model inputs s where "mf_provider (gr_model q) = pt_provider t"
    and "bt_get (pt_models t) (mf_model (gr_model q)) = Some model"
    and "\<forall>f \<in> set (required_features q). f \<in> model_features t model"
    and "parameters C q = Ok inputs"
    and "planned_for C q (effective_rules t model) (set (or_null C (bt_keys (effective_rules t model)) inputs)) s"
    and "effective_request C q (ps_values s) = Ok (pq_request p)"
    and "pq_wire_extensions p = ps_wire s" and "pq_decisions p = ps_decisions s"
proof -
  from assms(1) obtain model inputs s where m: "mf_provider (gr_model q) = pt_provider t"
    "bt_get (pt_models t) (mf_model (gr_model q)) = Some model" "check_features q (model_features t model) = Ok ()"
    "parameters C q = Ok inputs"
    and s: "plan_all C q (effective_rules t model) (or_null C (bt_keys (effective_rules t model)) inputs)
      \<lparr>ps_values = [], ps_wire = [], ps_decisions = []\<rparr> = Ok s"
    and e: "effective_request C q (ps_values s) = Ok (pq_request p)"
      "pq_wire_extensions p = ps_wire s" "pq_decisions p = ps_decisions s"
    by (auto simp: plan_request_def res_simps split: if_splits)
  have "distinct (bt_keys (or_null C (bt_keys (effective_rules t model)) inputs))"
    by (intro bt_wf_distinct or_null_wf parameters_wf [OF m(4)])
  from plan_all_planned [OF s assms(2) planned_for_empty this]
  have "planned_for C q (effective_rules t model) (set (or_null C (bt_keys (effective_rules t model)) inputs)) s" by simp
  moreover from m(3) have "\<forall>f \<in> set (required_features q). f \<in> model_features t model"
    by (auto simp: check_features_def find_None_iff split: option.splits)
  ultimately show thesis using m e that by blast
qed

section \<open>Properties\<close>

definition went_out :: "'j planned_request \<Rightarrow> string \<Rightarrow> bool" where
  "went_out p key \<longleftrightarrow> (\<exists>d \<in> set (pq_decisions p). de_parameter d = key \<and> sends (de_action d))"

lemma values_went_out:
  assumes "planned_for C q rules I s" and "pq_decisions p = ps_decisions s" and "bt_get (ps_values s) key = Some v"
  shows "went_out p key"
proof -
  from assms(1,3) obtain action where "\<lparr>de_parameter = key, de_action = action\<rparr> \<in> set (ps_decisions s)" "sends action"
    unfolding planned_for_def values_for_def by blast
  then show ?thesis unfolding went_out_def assms(2) by force
qed

lemma read_value_Some: "read_value f key values = Ok (Some x) \<Longrightarrow> bt_get values key \<noteq> None"
  by (auto simp: read_value_def split: option.splits)



section \<open>The extension members of the wire body\<close>

lemma strip_prefix_Some: "strip_prefix prefix s = Some rest \<longleftrightarrow> s = prefix @ rest"
  unfolding strip_prefix_def by (metis append_eq_conv_conj append_take_drop_id option.inject option.simps(3))

lemma planned_extensions_get:
  assumes "bt_wf values"
  shows "bt_get (planned_extensions values) name = bt_get values (EXTENSION @ name)"
proof -
  let ?f = "\<lambda>(key, v) m. case strip_prefix EXTENSION key of None \<Rightarrow> m | Some name \<Rightarrow> bt_insert name v m"
  have "bt_get (fold ?f values acc) name = (case bt_get values (EXTENSION @ name) of Some v \<Rightarrow> Some v | None \<Rightarrow> bt_get acc name)"
    if "distinct (bt_keys values)" "bt_wf acc" for acc
    using that
  proof (induction "values" arbitrary: acc)
    case (Cons entry rest)
    obtain key v where entry: "entry = (key, v)" by fastforce
    show ?case
    proof (cases "strip_prefix EXTENSION key")
      case None
      then have "key \<noteq> EXTENSION @ name" using strip_prefix_Some by (metis option.distinct(1))
      with Cons None show ?thesis by (simp add: entry)
    next
      case (Some n)
      then have key: "key = EXTENSION @ n" by (simp add: strip_prefix_Some)
      have IH: "bt_get (fold ?f rest (bt_insert n v acc)) name
        = (case bt_get rest (EXTENSION @ name) of Some v \<Rightarrow> Some v | None \<Rightarrow> bt_get (bt_insert n v acc) name)"
        by (rule Cons.IH) (use Cons.prems in \<open>auto simp: bt_wf_insert\<close>)
      have "bt_get rest key = None" using Cons.prems(1) by (simp add: entry map_of_eq_None_iff)
      with IH Some Cons.prems(2) show ?thesis
        by (cases "n = name") (auto simp: entry key bt_simps split: option.split)
    qed
  qed simp
  from this [OF bt_wf_distinct [OF assms] bt_wf_Nil] show ?thesis
    unfolding planned_extensions_def by (simp split: option.split)
qed

lemma effective_request_extensions:
  "effective_request C q vs = Ok q' \<Longrightarrow> gr_extensions q' = nc_object C (planned_extensions vs)"
  by (auto simp: effective_request_def res_simps)

lemma check_all_Ok: "check_all f xs = Ok () \<longleftrightarrow> (\<forall>x \<in> set xs. f x = Ok ())"
  by (induction xs) (auto simp: res_simps)

lemma check_wires_Ok:
  assumes "check_wires seen rules = Ok ()"
  shows "distinct (concat (map (\<lambda>r. case ru_wire_name r of Some w \<Rightarrow> if ru_support r = Supported then [w] else [] | None \<Rightarrow> []) rules))
    \<and> set (concat (map (\<lambda>r. case ru_wire_name r of Some w \<Rightarrow> if ru_support r = Supported then [w] else [] | None \<Rightarrow> []) rules)) \<inter> seen = {}"
  using assms by (induction seen rules rule: check_wires.induct) (auto split: option.splits if_splits)

lemma bt_extend_entry: "(k, v) \<in> set (bt_extend m other) \<Longrightarrow> (k, v) \<in> set m \<or> (k, v) \<in> set other"
proof -
  have ins: "(k, v) \<in> set (bt_insert k' v' m) \<Longrightarrow> (k, v) = (k', v') \<or> (k, v) \<in> set m" for k' v' m
    by (induction k' v' m rule: bt_insert.induct) (auto split: if_splits)
  show "(k, v) \<in> set (bt_extend m other) \<Longrightarrow> (k, v) \<in> set m \<or> (k, v) \<in> set other"
    unfolding bt_extend_def by (induction other arbitrary: m) (auto dest: ins)
qed

lemma effective_rules_wf: "bt_wf (pt_defaults t) \<Longrightarrow> bt_wf (effective_rules t model)"
  unfolding effective_rules_def bt_extend_def using bt_wf_fold_insert [of "pt_defaults t" id] by simp

text \<open>What a valid table gives for a registered model.\<close>

lemma distinct_concat_index:
  assumes "distinct (concat (map f xs))" and "i < length xs" and "j < length xs" and "w \<in> set (f (xs ! i))" and "w \<in> set (f (xs ! j))"
  shows "i = j"
  using assms
proof (induction xs arbitrary: i j)
  case (Cons x xs)
  have "w \<notin> set (f x)" if "k < length xs" "w \<in> set (f (xs ! k))" for k
    using Cons.prems(1) that by (auto dest: nth_mem)
  then show ?case using Cons by (cases i; cases j) auto
qed simp

lemma table_wires_distinct:
  assumes valid: "validate_table C t protocol reserved = Ok ()" and wf: "bt_wf (pt_defaults t)"
    and model: "bt_get (pt_models t) name = Some model"
  shows "wires_distinct (effective_rules t model)"
  unfolding wires_distinct_def
proof (intro allI impI, elim conjE)
  let ?rules = "effective_rules t model"
  let ?wires = "\<lambda>r. case ru_wire_name r of Some w \<Rightarrow> if ru_support r = Supported then [w] else [] | None \<Rightarrow> []"
  fix k k' r r' w
  assume r: "bt_get ?rules k = Some r" "bt_get ?rules k' = Some r'" "ru_support r = Supported" "ru_support r' = Supported"
    "ru_wire_name r = Some w" "ru_wire_name r' = Some w"
  from valid bt_get_in [OF model] have "check_model t (name, model) = Ok ()"
    by (auto simp: validate_table_def res_simps check_all_Ok split: if_splits)
  then have "check_wires {} (bt_values ?rules) = Ok ()" by (auto simp: check_model_def res_simps)
  from check_wires_Ok [OF this] have d: "distinct (concat (map ?wires (bt_values ?rules)))" by blast
  from bt_get_in [OF r(1)] obtain i where i: "i < length ?rules" "?rules ! i = (k, r)" by (auto simp: in_set_conv_nth)
  from bt_get_in [OF r(2)] obtain j where j: "j < length ?rules" "?rules ! j = (k', r')" by (auto simp: in_set_conv_nth)
  from distinct_concat_index [OF d, of i j w] i j r have "i = j" by simp
  with i j show "k = k'" by simp
qed

lemma table_rule_checked:
  assumes valid: "validate_table C t protocol reserved = Ok ()" and model: "bt_get (pt_models t) name = Some model"
    and rule: "bt_get (effective_rules t model) key = Some r"
  shows "check_rule C reserved (key, r) = Ok ()"
proof -
  from bt_get_in [OF rule] have "(key, r) \<in> set (pt_defaults t) \<or> (key, r) \<in> set (mo_parameters model)"
    unfolding effective_rules_def by (rule bt_extend_entry)
  with bt_get_in [OF model] have "(key, r) \<in> set (pt_defaults t @ concat (map mo_parameters (bt_values (pt_models t))))" by force
  with valid show ?thesis by (auto simp: validate_table_def res_simps check_all_Ok split: if_splits)
qed

text \<open>C19: For a table that the planner accepted, the extension members of the wire body are the extension members
  of the effective request, each under its own name: every wire member has the value of the one extension bound to it,
  every extension that goes out appears, no two of them collide, and no wire name is empty, has a
  character outside letters, digits and underscore, or is one the adapter reserves.\<close>

theorem extensions_bound_one_to_one:
  assumes "planner_new C table protocol reserved = Ok t" and "bt_wf (pt_defaults t)"
    and "plan_request C t q = Ok p" and "nc_text C ''auto'' \<noteq> nc_null C"
  shows "\<exists>members wire_of. gr_extensions (pq_request p) = nc_object C members
    \<and> inj_on wire_of (dom (bt_get members))
    \<and> (\<forall>name v. bt_get members name = Some v \<longrightarrow> bt_get (pq_wire_extensions p) (wire_of name) = Some v)
    \<and> (\<forall>w v. bt_get (pq_wire_extensions p) w = Some v \<longrightarrow> w \<noteq> [] \<and> list_all wire_char w \<and> w \<notin> set reserved
         \<and> (\<exists>name. bt_get members name = Some v \<and> wire_of name = w))"
proof -
  from assms(1) have valid: "validate_table C t protocol reserved = Ok ()" by (auto simp: planner_new_def res_simps)
  obtain model inputs s where m: "bt_get (pt_models t) (mf_model (gr_model q)) = Some model"
    and planned: "planned_for C q (effective_rules t model) (set (or_null C (bt_keys (effective_rules t model)) inputs)) s"
    and e: "effective_request C q (ps_values s) = Ok (pq_request p)" and wire: "pq_wire_extensions p = ps_wire s"
    by (rule plan_request_planned [OF assms(3,4)]) blast
  let ?rules = "effective_rules t model" and ?members = "planned_extensions (ps_values s)"
  let ?wire_of = "\<lambda>name. the (ru_wire_name (the (bt_get ?rules (EXTENSION @ name))))"
  note distinct = table_wires_distinct [OF valid assms(2) m]
  have wf: "bt_wf (ps_values s)" using planned by (simp add: planned_for_def values_for_def)
  note get = planned_extensions_get [OF wf]
  have ext: "strip_prefix EXTENSION (EXTENSION @ name) \<noteq> None" for name by (metis strip_prefix_Some option.distinct(1))
  have sent: "\<exists>r w. bt_get ?rules (EXTENSION @ name) = Some r \<and> ru_support r = Supported \<and> ru_wire_name r = Some w
      \<and> bt_get (ps_wire s) w = Some v" if v: "bt_get ?members name = Some v" for name v
  proof -
    from v have "bt_get (ps_values s) (EXTENSION @ name) = Some v" by (simp add: get)
    moreover from planned this obtain r where "bt_get ?rules (EXTENSION @ name) = Some r" "ru_support r = Supported"
      unfolding planned_for_def values_for_def admitted_def by blast
    ultimately show ?thesis using planned distinct ext unfolding planned_for_def wire_for_def by fastforce
  qed
  have inj: "inj_on ?wire_of (dom (bt_get ?members))"
  proof (rule inj_onI)
    fix a b assume "a \<in> dom (bt_get ?members)" "b \<in> dom (bt_get ?members)" and same: "?wire_of a = ?wire_of b"
    then obtain v u where "bt_get ?members a = Some v" "bt_get ?members b = Some u" by blast
    with sent obtain r w r' w' where "bt_get ?rules (EXTENSION @ a) = Some r" "ru_support r = Supported" "ru_wire_name r = Some w"
      "bt_get ?rules (EXTENSION @ b) = Some r'" "ru_support r' = Supported" "ru_wire_name r' = Some w'" by meson
    with same distinct have "EXTENSION @ a = EXTENSION @ b" unfolding wires_distinct_def by (metis option.sel)
    then show "a = b" by simp
  qed
  have there: "bt_get (pq_wire_extensions p) (?wire_of name) = Some v" if "bt_get ?members name = Some v" for name v
    using sent [OF that] wire by auto
  have backward: "w \<noteq> [] \<and> list_all wire_char w \<and> w \<notin> set reserved \<and> (\<exists>name. bt_get ?members name = Some v \<and> ?wire_of name = w)"
    if w: "bt_get (pq_wire_extensions p) w = Some v" for w v
  proof -
    from w planned distinct obtain key r where key: "strip_prefix EXTENSION key \<noteq> None" "bt_get ?rules key = Some r"
      "ru_wire_name r = Some w" "bt_get (ps_values s) key = Some v" unfolding wire planned_for_def wire_for_def by blast
    then obtain name where name: "key = EXTENSION @ name" using strip_prefix_Some by blast
    from table_rule_checked [OF valid m key(2)] key(1,3)
    have "w \<noteq> [] \<and> list_all wire_char w \<and> w \<notin> set reserved"
      by (auto simp: check_rule_def check_binding_def res_simps split: option.splits prod.splits if_splits)
    moreover from key name have "bt_get ?members name = Some v \<and> ?wire_of name = w" by (simp add: get)
    ultimately show ?thesis by blast
  qed
  note effective_request_extensions [OF e]
  with inj there backward show ?thesis by (intro exI [of _ ?members] exI [of _ ?wire_of]) blast
qed

section \<open>A concrete table\<close>

datatype sample_json = SNull | SText string | SNumber u32 | SObject "(string \<times> sample_json) list"

fun sample_members :: "sample_json \<Rightarrow> (string, sample_json) bmap option" where
  "sample_members (SObject m) = Some m"
| "sample_members _ = None"

fun sample_text :: "sample_json \<Rightarrow> string option" where
  "sample_text (SText t) = Some t"
| "sample_text _ = None"

fun sample_number :: "sample_json \<Rightarrow> u32 option" where
  "sample_number (SNumber n) = Some n"
| "sample_number _ = None"

fun sample_choice :: "tool_choice \<Rightarrow> sample_json" where
  "sample_choice AutoChoice = SText ''auto''"
| "sample_choice NoTools = SText ''none''"
| "sample_choice RequiredChoice = SText ''required''"
| "sample_choice (NamedTool n) = SObject [(''tool'', SText n)]"

definition sample_as_choice :: "sample_json \<Rightarrow> tool_choice option" where
  "sample_as_choice v = (if v = SText ''auto'' then Some AutoChoice else if v = SText ''none'' then Some NoTools
     else if v = SText ''required'' then Some RequiredChoice else None)"

definition sample_body :: "sample_json generation_request \<Rightarrow> sample_json" where
  "sample_body q = SObject [(''reasoning'', case gr_reasoning q of None \<Rightarrow> SNull
        | Some r \<Rightarrow> SObject [(''effort'', case rc_effort r of None \<Rightarrow> SNull | Some e \<Rightarrow> SText e)]),
     (''tool_choice'', sample_choice (gr_tool_choice q)),
     (''max_output_tokens'', case gr_max_output_tokens q of None \<Rightarrow> SNull | Some n \<Rightarrow> SNumber n)]"

text \<open>A schema is a text: \<open>low\<close> admits this text, anything else all values.\<close>

definition sample_plan_codec :: "sample_json plan_codec" where
  "sample_plan_codec = \<lparr>nc_null = SNull, nc_text = SText, nc_members = sample_members, nc_object = SObject,
     nc_body = \<lambda>q. Some (sample_body q), nc_compiles = \<lambda>_. True,
     nc_accepts = \<lambda>schema v. schema \<noteq> SText ''low'' \<or> v = SText ''low'',
     nc_as_text = sample_text, nc_as_u32 = sample_number, nc_as_retention = \<lambda>_. None, nc_as_breakpoints = \<lambda>_. None,
     nc_as_choice = sample_as_choice\<rparr>"

definition sample_rule :: "parameter_support \<Rightarrow> sample_json \<Rightarrow> string option \<Rightarrow> sample_json parameter_rule" where
  "sample_rule support schema wire = \<lparr>ru_support = support, ru_required_max_tools = None, ru_schema = schema,
     ru_default = None, ru_omittable = True, ru_wire_name = wire\<rparr>"

definition sample_table :: "sample_json parameter_table" where
  "sample_table = \<lparr>pt_provider = ''p'', pt_protocol = ''chat'',
     pt_features = {TextInput, TextOutput, Streaming, ToolUseFeature, ReasoningFeature},
     pt_defaults = [(''extensions.v.flag'', sample_rule Supported SNull (Some ''flag'')),
       (''max_output_tokens'', sample_rule Unsupported SNull None),
       (''reasoning.effort'', sample_rule Supported (SText ''low'') None),
       (''tool_choice'', (sample_rule Supported SNull None)\<lparr>ru_required_max_tools := Some 1\<rparr>)],
     pt_models = [(''m'', \<lparr>mo_features = None, mo_parameters = []\<rparr>)]\<rparr>"

definition sample_generation :: "sample_json generation_request" where
  "sample_generation = \<lparr>gr_request_id = ''r'', gr_model = \<lparr>mf_provider = ''p'', mf_model = ''m''\<rparr>, gr_system = [],
     gr_messages = [], gr_tools = [\<lparr>td_name = ''a'', td_description = None, td_input_schema = SNull\<rparr>,
       \<lparr>td_name = ''b'', td_description = None, td_input_schema = SNull\<rparr>],
     gr_tool_choice = RequiredChoice, gr_output_format = None, gr_prompt_cache = None,
     gr_reasoning = Some \<lparr>rc_effort = Some ''low'', rc_budget_tokens = None\<rparr>, gr_max_output_tokens = Some 7,
     gr_extensions = SObject [(''v.flag'', SText ''on'')]\<rparr>"

lemmas sample_plan_defs = sample_plan_codec_def sample_table_def sample_generation_def sample_rule_def sample_body_def
  sample_as_choice_def

lemma sample_table_valid: "planner_new sample_plan_codec sample_table ''chat'' [''model''] = Ok sample_table"
  by (simp add: planner_new_def validate_table_def check_rule_def check_limit_def check_binding_def check_model_def
      check_feature_def rule_feature_def effective_rules_def bt_extend_def model_features_def strip_prefix_def EXTENSION_def
      PARAMETERS_def wire_char_def alnum_def validate_value_def sample_plan_defs)

lemma sample_planned:
  "\<exists>p. plan_request sample_plan_codec sample_table sample_generation = Ok p
     \<and> map de_action (pq_decisions p) = [Sent, OmittedUnsupported, Sent, MappedToAuto]
     \<and> pq_wire_extensions p = [(''flag'', SText ''on'')] \<and> gr_tool_choice (pq_request p) = AutoChoice"
proof -
  have "case plan_request sample_plan_codec sample_table sample_generation of
      Ok p \<Rightarrow> map de_action (pq_decisions p) = [Sent, OmittedUnsupported, Sent, MappedToAuto]
        \<and> pq_wire_extensions p = [(''flag'', SText ''on'')] \<and> gr_tool_choice (pq_request p) = AutoChoice
    | _ \<Rightarrow> False" by code_simp
  then show ?thesis by (cases "plan_request sample_plan_codec sample_table sample_generation") simp_all
qed

lemma sample_auto: "nc_text sample_plan_codec ''auto'' \<noteq> nc_null sample_plan_codec" by (simp add: sample_plan_codec_def)

lemma sample_table_wf: "bt_wf (pt_defaults sample_table)"
  by (simp add: sample_table_def bt_wf_def)



theorem extensions_bound_one_to_one_witness:
  "\<exists>p members wire_of. plan_request sample_plan_codec sample_table sample_generation = Ok p
     \<and> gr_extensions (pq_request p) = SObject members \<and> inj_on wire_of (dom (bt_get members))
     \<and> (\<exists>name. bt_get members name = Some (SText ''on'') \<and> wire_of name = ''flag'')"
proof -
  from sample_planned obtain p where p: "plan_request sample_plan_codec sample_table sample_generation = Ok p"
    "pq_wire_extensions p = [(''flag'', SText ''on'')]" by blast
  from extensions_bound_one_to_one [OF sample_table_valid sample_table_wf p(1) sample_auto]
  obtain members wire_of where "gr_extensions (pq_request p) = nc_object sample_plan_codec members"
    "inj_on wire_of (dom (bt_get members))"
    "\<forall>w v. bt_get (pq_wire_extensions p) w = Some v \<longrightarrow> (\<exists>name. bt_get members name = Some v \<and> wire_of name = w)" by blast
  then show ?thesis using p by (intro exI [of _ p] exI [of _ members] exI [of _ wire_of]) (simp add: sample_plan_codec_def)
qed

end
