(* ===== verification/Effect_Receipt.thy ===== *)
theory Effect_Receipt
  imports Turn_Engine Execution_Ledger
begin

text \<open>
  The evidence of one durable effect, \<open>crates/kolyan-runtime/src/reconciliation/receipt.rs\<close>, the types of
  \<open>execution.rs\<close> and \<open>reconciliation.rs\<close> it uses, and \<open>external.rs\<close>: what a prepared tool effect
  writes to the ledger, and how the written facts are read back and checked against each other. JSON values are
  a type \<open>'j\<close>; what \<open>serde_json\<close> does to them are the fields of \<open>effect_codec\<close>.
\<close>

section \<open>Effects\<close>

record effect_request =
  fq_effect_id :: string
  fq_operation_kind :: string
  fq_input_digest :: string
  fq_requirements :: "string list"
  fq_policy_revision :: string

record effect_grant =
  fg_authorization_id :: string
  fg_effect_id :: string
  fg_input_digest :: string
  fg_constraints_digest :: string
  fg_authority_revision :: string

datatype receipt_status = ReceiptCompleted | ReceiptFailed | ReceiptUncertain

record effect_receipt =
  fc_receipt_id :: string
  fc_effect_id :: string
  fc_authorization_id :: string
  fc_input_digest :: string
  fc_executor_id :: string
  fc_executor_revision :: string
  fc_result_digest :: string
  fc_status :: receipt_status

record reconciliation_request =
  rr_reconciliation_id :: string
  rr_execution :: execution_key
  rr_effect_id :: string

datatype resolution =
    Committed tool_result string string string | NotCommitted string | UnknownEffect string

text \<open>
  \<open>serde_json\<close>: null, texts, numbers, \<open>json!\<close> objects, member access, assignment of a member, and for each
  serialised type its value and its reading, \<open>None\<close> when it does not deserialise. The text of such an
  error is one string, and so are the reasons in a refused query and in a failure of the storage. The last three fields are the sizes of the successive writes of a value, the bytes
  that are hashed, of the canonical array of domain and value, and the canonical text of the requirements.
\<close>

record 'j effect_codec =
  ef_turn :: "('j, unit) turn_codec"
  ef_null :: 'j
  ef_text :: "string \<Rightarrow> 'j"
  ef_number :: "nat \<Rightarrow> 'j"
  ef_as_str :: "'j \<Rightarrow> string option"
  ef_object :: "(string \<times> 'j) list \<Rightarrow> 'j"
  ef_get :: "'j \<Rightarrow> string \<Rightarrow> 'j option"
  ef_with :: "'j \<Rightarrow> string \<Rightarrow> 'j \<Rightarrow> 'j"
  ef_execution :: "execution_key \<Rightarrow> 'j"
  ef_request :: "effect_request \<Rightarrow> 'j"
  ef_as_request :: "'j \<Rightarrow> effect_request option"
  ef_authorization :: "effect_grant \<Rightarrow> 'j"
  ef_receipt :: "effect_receipt \<Rightarrow> 'j"
  ef_as_receipt :: "'j \<Rightarrow> effect_receipt option"
  ef_prepared :: "'j prepared_call \<Rightarrow> 'j"
  ef_as_prepared :: "'j \<Rightarrow> 'j prepared_call option"
  ef_scope :: "tool_execution_scope \<Rightarrow> 'j"
  ef_as_scope :: "'j \<Rightarrow> tool_execution_scope option"
  ef_grant :: "prepared_grant \<Rightarrow> 'j"
  ef_as_grant :: "'j \<Rightarrow> prepared_grant option"
  ef_result :: "tool_result \<Rightarrow> 'j"
  ef_as_result :: "'j \<Rightarrow> tool_result option"
  ef_wait :: "'j external_wait \<Rightarrow> 'j"
  ef_as_wait :: "'j \<Rightarrow> 'j external_wait option"
  ef_rc_request :: "reconciliation_request \<Rightarrow> 'j"
  ef_as_rc_request :: "'j \<Rightarrow> reconciliation_request option"
  ef_resolution :: "resolution \<Rightarrow> 'j"
  ef_as_resolution :: "'j \<Rightarrow> resolution option"
  ef_malformed :: string
  ef_query_reason :: string
  ef_storage_reason :: string
  ef_texts :: "string list \<Rightarrow> 'j"
  ef_writes :: "'j \<Rightarrow> nat list"
  ef_digest_bytes :: "string \<Rightarrow> 'j \<Rightarrow> string"
  ef_requirements_text :: "tool_requirements \<Rightarrow> string"

abbreviation ef_policy :: "'j effect_codec \<Rightarrow> 'j policy_codec" where
  "ef_policy C \<equiv> tk_policy (ef_turn C)"

text \<open>\<open>value[key]\<close>\<close>

definition member_of :: "'j effect_codec \<Rightarrow> 'j \<Rightarrow> string \<Rightarrow> 'j" where
  "member_of C v k = (case ef_get C v k of None \<Rightarrow> ef_null C | Some x \<Rightarrow> x)"

definition decoded :: "'j effect_codec \<Rightarrow> 'a option \<Rightarrow> (tool_error, 'a) res" where
  "decoded C m = ok_or m (ToolFailed (ef_malformed C))"

definition effect_digest :: "'j effect_codec \<Rightarrow> string \<Rightarrow> 'j \<Rightarrow> string" where
  "effect_digest C domain v = pk_sha256_hex (ef_policy C) (ef_digest_bytes C domain v)"

section \<open>External waits\<close>

record 'j wait_context =
  wx_issued :: "'j issued_authority"
  wx_wait :: "'j external_wait"

definition wait_context_validate ::
  "'j effect_codec \<Rightarrow> 'j wait_context \<Rightarrow> tool_execution_scope \<Rightarrow> (tool_error, unit) res" where
  "wait_context_validate C x expected =
     map_err (\<lambda>e. PolicyDeniedCall (''invalid external wait binding: '' @ checkpoint_error_text e))
       (andthen (authority_validate (ef_turn C) (wx_issued x) expected) (wait_validate (ef_turn C) (wx_wait x)))"

definition wait_context_validate_result ::
  "'j effect_codec \<Rightarrow> 'j wait_context \<Rightarrow> tool_execution_scope \<Rightarrow> tool_result \<Rightarrow> (tool_error, unit) res" where
  "wait_context_validate_result C x expected r =
     andthen (wait_context_validate C x expected)
       (map_err (\<lambda>e. PolicyDeniedCall (''invalid external result binding: '' @ checkpoint_error_text e))
          (validate_result (ef_turn C) (wx_issued x) r))"

section \<open>Evidence\<close>

record 'j prepared_evidence =
  pv_request :: effect_request
  pv_authorization :: effect_grant
  pv_prepared :: "'j prepared_call"
  pv_scope :: tool_execution_scope
  pv_grant :: prepared_grant

definition evidence_input :: "'j effect_codec \<Rightarrow> 'j prepared_call \<Rightarrow> tool_execution_scope \<Rightarrow> 'j" where
  "evidence_input C p s = ef_object C [(''prepared'', ef_prepared C p), (''scope'', ef_scope C s)]"

definition evidence_new ::
  "'j effect_codec \<Rightarrow> 'j prepared_call \<Rightarrow> prepared_grant \<Rightarrow> tool_execution_scope \<Rightarrow> string \<Rightarrow> execution_key
   \<Rightarrow> (tool_error, 'j prepared_evidence) res" where
  "evidence_new C p g s policy_revision execution =
     andthen (map_err (\<lambda>e. ToolFailed (prepared_error_text e)) (scope_validate s))
    (if sc_execution s \<noteq> execution then Err (ToolFailed ''tool invocation execution scope mismatch'')
     else
     andthen (map_err (\<lambda>e. ToolFailed (prepared_error_text e)) (grant_validate (ef_policy C) g p policy_revision s))
    (let effect_id = sc_step_id s @ ''/'' @ cl_id (pc_call p);
         input_digest = effect_digest C ''kolyan.runtime.prepared-input.v1''
           (ef_object C [(''prepared_digest'', ef_text C (pc_digest p)), (''scope'', ef_scope C s)])
     in Ok \<lparr>pv_request = \<lparr>fq_effect_id = effect_id, fq_operation_kind = cl_name (pc_call p), fq_input_digest = input_digest,
               fq_requirements = [ef_requirements_text C (pc_requirements p)], fq_policy_revision = policy_revision\<rparr>,
             pv_authorization = \<lparr>fg_authorization_id = ek_execution_id execution @ ''/effect/'' @ effect_id @ ''/authorized'',
               fg_effect_id = effect_id, fg_input_digest = input_digest,
               fg_constraints_digest = effect_digest C ''kolyan.runtime.prepared-grant.v1'' (ef_grant C g),
               fg_authority_revision = policy_revision\<rparr>,
             pv_prepared = p, pv_scope = s, pv_grant = g\<rparr>))"

definition prepared_payload :: "'j effect_codec \<Rightarrow> 'j prepared_evidence \<Rightarrow> 'j" where
  "prepared_payload C v =
     ef_with C (ef_with C (ef_request C (pv_request v)) ''binding_kind'' (ef_text C ''prepared_tool_v1''))
       ''input'' (evidence_input C (pv_prepared v) (pv_scope v))"

definition authorized_payload :: "'j effect_codec \<Rightarrow> 'j prepared_evidence \<Rightarrow> 'j" where
  "authorized_payload C v =
     ef_with C (ef_authorization C (pv_authorization v)) ''prepared_grant'' (ef_grant C (pv_grant v))"

definition started_payload :: "'j effect_codec \<Rightarrow> 'j prepared_evidence \<Rightarrow> 'j" where
  "started_payload C v =
     ef_object C [(''effect_id'', ef_text C (fq_effect_id (pv_request v))),
       (''input_digest'', ef_text C (fq_input_digest (pv_request v))), (''scope'', ef_scope C (pv_scope v))]"

definition evidence_from_facts ::
  "'j effect_codec \<Rightarrow> execution_key \<Rightarrow> string \<Rightarrow> 'j \<Rightarrow> 'j \<Rightarrow> (tool_error, 'j prepared_evidence) res" where
  "evidence_from_facts C execution effect_id prepared authorized =
     bindr (decoded C (ef_as_request C prepared)) (\<lambda>request.
     bindr (decoded C (ef_as_prepared C (member_of C (member_of C prepared ''input'') ''prepared''))) (\<lambda>p.
     bindr (decoded C (ef_as_scope C (member_of C (member_of C prepared ''input'') ''scope''))) (\<lambda>s.
     bindr (decoded C (ef_as_grant C (member_of C authorized ''prepared_grant''))) (\<lambda>g.
     bindr (evidence_new C p g s (fq_policy_revision request) execution) (\<lambda>bound.
       if fq_effect_id (pv_request bound) \<noteq> effect_id
          \<or> prepared_payload C bound \<noteq> prepared
          \<or> authorized_payload C bound \<noteq> authorized
       then Err (ToolFailed ''prepared effect evidence binding mismatch'') else Ok bound)))))"

definition evidence_prefix :: "'j prepared_evidence \<Rightarrow> string" where
  "evidence_prefix v = ek_execution_id (sc_execution (pv_scope v)) @ ''/effect/'' @ fq_effect_id (pv_request v)"

definition evidence_executor :: "'j prepared_evidence \<Rightarrow> string" where
  "evidence_executor v = ''tool/'' @ cl_name (pc_call (pv_prepared v))"

definition evidence_issued :: "'j prepared_evidence \<Rightarrow> 'j issued_authority" where
  "evidence_issued v = \<lparr>ia_prepared = pv_prepared v, ia_grant = pv_grant v, ia_scope = pv_scope v,
     ia_policy_revision = fq_policy_revision (pv_request v)\<rparr>"

definition wait_payload :: "'j effect_codec \<Rightarrow> 'j prepared_evidence \<Rightarrow> 'j external_wait \<Rightarrow> (tool_error, 'j) res" where
  "wait_payload C v w =
     andthen (wait_context_validate C \<lparr>wx_issued = evidence_issued v, wx_wait = w\<rparr> (pv_scope v))
       (Ok (ef_object C [(''schema_version'', ef_number C 1), (''effect_id'', ef_text C (fq_effect_id (pv_request v))),
          (''input'', evidence_input C (pv_prepared v) (pv_scope v)),
          (''authorization'', ef_authorization C (pv_authorization v)),
          (''prepared_grant'', ef_grant C (pv_grant v)), (''wait'', ef_wait C w)]))"

definition validate_wait :: "'j effect_codec \<Rightarrow> 'j prepared_evidence \<Rightarrow> 'j \<Rightarrow> (tool_error, 'j external_wait) res" where
  "validate_wait C v payload =
     bindr (decoded C (ef_as_wait C (member_of C payload ''wait''))) (\<lambda>w.
     bindr (wait_payload C v w) (\<lambda>expected.
       if payload \<noteq> expected then Err (ToolFailed ''external wait historical authority differs'') else Ok w))"

section \<open>Recorded errors\<close>

fun encode_error :: "'j effect_codec \<Rightarrow> tool_error \<Rightarrow> 'j" where
  "encode_error C (InvalidBatch m) = ef_object C [(''kind'', ef_text C ''invalid_batch''), (''message'', ef_text C m)]"
| "encode_error C (Unavailable n) = ef_object C [(''kind'', ef_text C ''unavailable''), (''name'', ef_text C n)]"
| "encode_error C (ToolFailed m) = ef_object C [(''kind'', ef_text C ''failed''), (''message'', ef_text C m)]"
| "encode_error C ToolCancelled = ef_object C [(''kind'', ef_text C ''cancelled'')]"
| "encode_error C ToolTimedOut = ef_object C [(''kind'', ef_text C ''timed_out'')]"
| "encode_error C (PolicyDeniedCall m) = ef_object C [(''kind'', ef_text C ''policy_denied''), (''message'', ef_text C m)]"
| "encode_error C (Uncertain m) = ef_object C [(''kind'', ef_text C ''uncertain''), (''message'', ef_text C m)]"

definition error_text :: "'j effect_codec \<Rightarrow> 'j \<Rightarrow> string \<Rightarrow> (tool_error, string) res" where
  "error_text C v key =
     ok_or (case ef_get C v key of None \<Rightarrow> None | Some x \<Rightarrow> ef_as_str C x) (ToolFailed ''invalid recorded tool error'')"

definition decode_error :: "'j effect_codec \<Rightarrow> 'j \<Rightarrow> (tool_error, tool_error) res" where
  "decode_error C v =
     (let kind = ef_as_str C (member_of C v ''kind'') in
      bindr
        (if kind = Some ''invalid_batch'' then bindr (error_text C v ''message'') (\<lambda>m. Ok (InvalidBatch m))
         else if kind = Some ''unavailable'' then bindr (error_text C v ''name'') (\<lambda>n. Ok (Unavailable n))
         else if kind = Some ''failed'' then bindr (error_text C v ''message'') (\<lambda>m. Ok (ToolFailed m))
         else if kind = Some ''cancelled'' then Ok ToolCancelled
         else if kind = Some ''timed_out'' then Ok ToolTimedOut
         else if kind = Some ''policy_denied'' then bindr (error_text C v ''message'') (\<lambda>m. Ok (PolicyDeniedCall m))
         else Err (ToolFailed ''unknown recorded tool error'')) (\<lambda>e.
      if encode_error C e \<noteq> v then Err (ToolFailed ''unexpected recorded tool error fields'') else Ok e))"

section \<open>Receipts\<close>

definition outcome_object :: "'j effect_codec \<Rightarrow> (tool_error, tool_result) res \<Rightarrow> (tool_error, receipt_status \<times> string \<times> 'j) res" where
  "outcome_object C result =
     (case result of
        Ok output \<Rightarrow> Ok (ReceiptCompleted, ''output'', ef_result C output)
      | Err (Uncertain m) \<Rightarrow> Err (ToolFailed ''uncertain effect cannot produce a definitive receipt'')
      | Err e \<Rightarrow> Ok (ReceiptFailed, ''error'', encode_error C e)
      | Panic \<Rightarrow> Panic)"

text \<open>The result of a tool is validated against the issued authority before anything is written.\<close>

definition receipt_payload ::
  "'j effect_codec \<Rightarrow> 'j prepared_evidence \<Rightarrow> (tool_error, tool_result) res \<Rightarrow> (tool_error, 'j) res" where
  "receipt_payload C v result =
     andthen (case result of
         Ok output \<Rightarrow> map_err (\<lambda>e. ToolFailed (checkpoint_error_text e)) (validate_result (ef_turn C) (evidence_issued v) output)
       | _ \<Rightarrow> Ok ())
    (bindr (outcome_object C result) (\<lambda>(status, key, outcome).
       let base = ef_object C [(''effect_id'', ef_text C (fq_effect_id (pv_request v))),
             (''input'', evidence_input C (pv_prepared v) (pv_scope v)),
             (''authorization'', ef_authorization C (pv_authorization v)), (''prepared_grant'', ef_grant C (pv_grant v))]
       in Ok (ef_with C (ef_with C base key outcome) ''receipt''
            (ef_receipt C \<lparr>fc_receipt_id = evidence_prefix v @ ''/receipt'', fc_effect_id = fq_effect_id (pv_request v),
               fc_authorization_id = fg_authorization_id (pv_authorization v),
               fc_input_digest = fq_input_digest (pv_request v), fc_executor_id = evidence_executor v,
               fc_executor_revision = pc_tool_revision (pv_prepared v),
               fc_result_digest = effect_digest C ''kolyan.runtime.prepared-result.v1'' (ef_object C [(key, outcome)]),
               fc_status = status\<rparr>))))"

definition reconciliation_identity :: "string \<Rightarrow> bool" where
  "reconciliation_identity i \<longleftrightarrow> i \<noteq> [] \<and> length i \<le> 256 \<and> (\<forall>c \<in> set i. alnum c \<or> c \<in> set ''._:-'')"

definition validate_resolution ::
  "'j prepared_evidence \<Rightarrow> reconciliation_request \<Rightarrow> resolution \<Rightarrow> (tool_error, unit) res" where
  "validate_resolution v request r =
     (if rr_execution request \<noteq> sc_execution (pv_scope v)
         \<or> rr_effect_id request \<noteq> fq_effect_id (pv_request v)
         \<or> \<not> reconciliation_identity (rr_reconciliation_id request)
      then Err (ToolFailed ''reconciliation request binding differs'')
      else
        bindr (case r of
            Committed output executor_id executor_revision evidence \<Rightarrow>
              if tr_call_id output \<noteq> cl_id (pc_call (pv_prepared v))
                 \<or> executor_id \<noteq> evidence_executor v
                 \<or> executor_revision \<noteq> pc_tool_revision (pv_prepared v)
              then Err (ToolFailed ''reconciled result or adapter revision differs'') else Ok evidence
          | NotCommitted evidence \<Rightarrow> Ok evidence
          | UnknownEffect evidence \<Rightarrow> Ok evidence) (\<lambda>evidence.
        if blank evidence \<or> length evidence > 16384
        then Err (ToolFailed ''reconciliation requires bounded executor evidence'') else Ok ()))"

definition reconciled_proof :: "'j effect_codec \<Rightarrow> reconciliation_request \<Rightarrow> resolution \<Rightarrow> 'j" where
  "reconciled_proof C request r =
     ef_object C [(''request'', ef_rc_request C request), (''resolution'', ef_resolution C r)]"

text \<open>The optional proof of a reconciled receipt, which must agree with its result.\<close>

definition with_reconciliation ::
  "'j effect_codec \<Rightarrow> 'j prepared_evidence \<Rightarrow> 'j \<Rightarrow> (tool_error, tool_result) res \<Rightarrow> 'j \<Rightarrow> (tool_error, 'j) res" where
  "with_reconciliation C v payload result expected =
     (case ef_get C payload ''reconciliation'' of
        None \<Rightarrow> Ok expected
      | Some metadata \<Rightarrow>
          bindr (decoded C (ef_as_rc_request C (member_of C metadata ''request''))) (\<lambda>request.
          bindr (decoded C (ef_as_resolution C (member_of C metadata ''resolution''))) (\<lambda>r.
          andthen (validate_resolution v request r)
         (case r of
            Committed output _ _ _ \<Rightarrow>
              if result \<noteq> Ok output then Err (ToolFailed ''reconciliation and receipt results differ'')
              else Ok (ef_with C expected ''reconciliation'' (reconciled_proof C request r))
          | _ \<Rightarrow> Err (ToolFailed ''receipt reconciliation is not committed'')))))"

definition recorded_result :: "'j effect_codec \<Rightarrow> effect_receipt \<Rightarrow> 'j \<Rightarrow> (tool_error, (tool_error, tool_result) res) res" where
  "recorded_result C receipt payload =
     (case fc_status receipt of
        ReceiptCompleted \<Rightarrow> bindr (decoded C (ef_as_result C (member_of C payload ''output''))) (\<lambda>r. Ok (Ok r))
      | ReceiptFailed \<Rightarrow> bindr (decode_error C (member_of C payload ''error'')) (\<lambda>e. Ok (Err e))
      | ReceiptUncertain \<Rightarrow> Err (ToolFailed ''uncertain receipt requires reconciliation''))"

definition validate_receipt ::
  "'j effect_codec \<Rightarrow> 'j prepared_evidence \<Rightarrow> 'j \<Rightarrow> (tool_error, (tool_error, tool_result) res) res" where
  "validate_receipt C v payload =
     bindr (decoded C (ef_as_receipt C (member_of C payload ''receipt''))) (\<lambda>receipt.
     bindr (recorded_result C receipt payload) (\<lambda>result.
     bindr (receipt_payload C v result) (\<lambda>expected.
     bindr (with_reconciliation C v payload result expected) (\<lambda>expected'.
       if expected' \<noteq> payload
       then Err (ToolFailed ''receipt preparation, scope, authority or result binding mismatch'') else Ok result))))"

definition check_effect_event ::
  "'j ledger_event \<Rightarrow> execution_key \<Rightarrow> string \<Rightarrow> ledger_event_kind \<Rightarrow> (tool_error, unit) res" where
  "check_effect_event e key i kind =
     (if le_event_id e \<noteq> i \<or> le_execution_id e \<noteq> ek_execution_id key \<or> le_turn_id e \<noteq> ek_turn_id key
         \<or> le_kind e \<noteq> kind \<or> le_idempotency_key e \<noteq> i
      then Err (ToolFailed ''foreign or malformed effect evidence'') else Ok ())"

end
