(* ===== verification/Effect_Programs.thy ===== *)
theory Effect_Programs
  imports Effect_Receipt Ledger_Properties
begin

text \<open>
  The operations on durable effects as programs. Many callers, in one process or several, share one ledger, so
  an operation is not one step: it is a program that makes one call at a time, to the ledger or to a port
  of the host, and goes on with the answer. Between two calls anything may happen to the ledger. Reading the
  events of an execution is one call: the pages it reads only miss what is appended after the last of them.
  The types are those of \<open>crates/kolyan-runtime/src/execution.rs\<close>, \<open>effect_hooks.rs\<close> and \<open>lib.rs\<close>.
\<close>

section \<open>Data\<close>

datatype admission_decision = GrantEffect effect_grant | AwaitDecision string | DenyEffect string

datatype 'j effect_outcome =
    EffectDone effect_receipt 'j | EffectFailure effect_receipt string | EffectUnsure effect_receipt string

datatype 'j disposition =
    DispCompleted 'j | DispFailed string | DispUncertain string | DispSuspended string | DispDenied string | DispCancelled

datatype execution_status =
    StatusRunning | StatusSuspended | StatusCompleted | StatusCancelled | StatusFailed | StatusUncertain

datatype runtime_error = ExecInvalid string | ExecLedger ledger_error | ExecAdmission string | ExecExecutor string

datatype driver_error =
    RtDeadline deadline_error | RtTurn turn_error | RtLedger ledger_error | RtTrace string | RtDriver string

datatype hook_decision = HookContinue | HookDenied string

datatype hook_error = HookHost string | HookIncomplete string | HookCancelled | HookTimedOut

record 'j hook_context =
  hx_issued :: "'j issued_authority"
  hx_effect_id :: string
  hx_input_digest :: string
  hx_window :: instant

record 'j committed_receipt =
  cr_event :: "'j ledger_event"
  cr_result :: "(tool_error, tool_result) res"

datatype 'j observation =
    AfterReceipt "'j hook_context" "'j committed_receipt" | VerifyObservation "'j hook_context" "'j committed_receipt"

section \<open>Programs\<close>

text \<open>
  A program is done, or calls the ledger, executes an effect or a tool, or asks a port: the control and the
  window of an invocation, the admission port, the reconciler, the hooks, the tool executor, the verifier of
  external waits. What a wait under the window gives is the outcome of a race.
\<close>

datatype live_question = ControlCancelled | WindowSpent instant

datatype 'a raced = RaceCancelled | RaceTimedOut | RaceDone 'a

datatype ('j, 'a) prog =
    Done 'a
  | Ledger "'j ledger_call" "'j ledger_answer \<Rightarrow> ('j, 'a) prog"
  | Execute execution_key effect_request effect_grant "(runtime_error, 'j effect_outcome) res \<Rightarrow> ('j, 'a) prog"
  | RunTool execution_key "'j invocation" "(tool_error, 'j tool_outcome) res \<Rightarrow> ('j, 'a) prog"
  | Decide execution_key effect_request "(runtime_error, admission_decision) res \<Rightarrow> ('j, 'a) prog"
  | Inspect reconciliation_request effect_request effect_grant "(driver_error, resolution) res \<Rightarrow> ('j, 'a) prog"
  | Live live_question "bool \<Rightarrow> ('j, 'a) prog"
  | BeforeEffect "'j hook_context" "(hook_error, hook_decision) res raced \<Rightarrow> ('j, 'a) prog"
  | Observe "'j observation" "(hook_error, unit) res raced \<Rightarrow> ('j, 'a) prog"
  | Reprepare "'j tool_call" "(tool_error, 'j prepared_call) res raced \<Rightarrow> ('j, 'a) prog"
  | VerifyWait "'j wait_context" "(tool_error, unit) res \<Rightarrow> ('j, 'a) prog"
  | RecoverWait "'j issued_authority" "(tool_error, 'j external_wait option) res \<Rightarrow> ('j, 'a) prog"

primrec bindp :: "('j, 'a) prog \<Rightarrow> ('a \<Rightarrow> ('j, 'b) prog) \<Rightarrow> ('j, 'b) prog" where
  "bindp (Done a) f = f a"
| "bindp (Ledger c k) f = Ledger c (\<lambda>x. bindp (k x) f)"
| "bindp (Execute key e g k) f = Execute key e g (\<lambda>x. bindp (k x) f)"
| "bindp (RunTool key iv k) f = RunTool key iv (\<lambda>x. bindp (k x) f)"
| "bindp (Decide key e k) f = Decide key e (\<lambda>x. bindp (k x) f)"
| "bindp (Inspect q e g k) f = Inspect q e g (\<lambda>x. bindp (k x) f)"
| "bindp (Live q k) f = Live q (\<lambda>x. bindp (k x) f)"
| "bindp (BeforeEffect x k) f = BeforeEffect x (\<lambda>y. bindp (k y) f)"
| "bindp (Observe ob k) f = Observe ob (\<lambda>x. bindp (k x) f)"
| "bindp (Reprepare c k) f = Reprepare c (\<lambda>x. bindp (k x) f)"
| "bindp (VerifyWait w k) f = VerifyWait w (\<lambda>x. bindp (k x) f)"
| "bindp (RecoverWait a k) f = RecoverWait a (\<lambda>x. bindp (k x) f)"

text \<open>The \<open>?\<close> operator.\<close>

definition trying :: "('j, ('e, 'a) res) prog \<Rightarrow> ('a \<Rightarrow> ('j, ('e, 'b) res) prog) \<Rightarrow> ('j, ('e, 'b) res) prog" where
  "trying m f = bindp m (\<lambda>r. case r of Ok a \<Rightarrow> f a | Err e \<Rightarrow> Done (Err e) | Panic \<Rightarrow> Done Panic)"

text \<open>\<open>LedgerStore::event_by_id\<close>, \<open>append\<close>, \<open>append_unless_cancelled\<close> and \<open>execution_events_after\<close>.\<close>

definition id_query :: "string \<Rightarrow> ledger_query" where
  "id_query i = \<lparr>lq_execution_id = None, lq_event_id = Some i, lq_after = 0, lq_through = None, lq_limit = 1\<rparr>"

definition checked_page ::
  "ledger_query \<Rightarrow> (ledger_error, 'j ledger_event list) res \<Rightarrow> (ledger_error, 'j ledger_event list) res" where
  "checked_page q answer =
     bindr answer (\<lambda>page.
       if length page > lq_limit q then Err LedgerStorage
       else andthen (check_ascending q (lq_after q) page) (Ok page))"

definition find_event :: "(ledger_error \<Rightarrow> 'e) \<Rightarrow> string \<Rightarrow> ('j, ('e, 'j ledger_event option) res) prog" where
  "find_event wrap i =
     (case query_validate (id_query i) of
        Ok _ \<Rightarrow>
          Ledger (CallQuery (id_query i)) (\<lambda>a.
            case a of
              AnswerPage r \<Rightarrow>
                Done (map_err wrap (bindr (checked_page (id_query i) r) (\<lambda>page.
                  Ok (case page of [] \<Rightarrow> None | e # _ \<Rightarrow> Some e))))
            | _ \<Rightarrow> Done Panic)
      | Err e \<Rightarrow> Done (Err (wrap e))
      | Panic \<Rightarrow> Done Panic)"

lemma event_by_id_checked:
  "event_by_id ops s i =
     andthen (query_validate (id_query i)) (bindr (checked_page (id_query i) (lo_query ops s (id_query i))) (\<lambda>page.
       Ok (case page of [] \<Rightarrow> None | e # _ \<Rightarrow> Some e)))"
  unfolding event_by_id_def checked_query_def checked_page_def id_query_def [symmetric]
  by (cases "query_validate (id_query i)") simp_all

definition append_event :: "'j ledger_event \<Rightarrow> ('j, (ledger_error, 'j ledger_event) res) prog" where
  "append_event e = Ledger (CallAppend e) (\<lambda>a. case a of AnswerEvent r \<Rightarrow> Done r | _ \<Rightarrow> Done Panic)"

definition admit_event :: "'j ledger_event \<Rightarrow> ('j, (ledger_error, 'j ledger_event) res) prog" where
  "admit_event e = Ledger (CallAdmit e) (\<lambda>a. case a of AnswerEvent r \<Rightarrow> Done r | _ \<Rightarrow> Done Panic)"

definition execution_history :: "(ledger_error \<Rightarrow> 'e) \<Rightarrow> string \<Rightarrow> ('j, ('e, 'j ledger_event list) res) prog" where
  "execution_history wrap x =
     Ledger (CallEvents x 0) (\<lambda>a. case a of AnswerPage r \<Rightarrow> Done (map_err wrap r) | _ \<Rightarrow> Done Panic)"

section \<open>Identities\<close>

definition effect_prefix :: "execution_key \<Rightarrow> string \<Rightarrow> string" where
  "effect_prefix key i = ek_execution_id key @ ''/effect/'' @ i"

definition new_event :: "execution_key \<Rightarrow> string \<Rightarrow> ledger_event_kind \<Rightarrow> 'j \<Rightarrow> 'j ledger_event" where
  "new_event key i kind payload = \<lparr>le_event_id = i, le_turn_id = ek_turn_id key, le_execution_id = ek_execution_id key,
     le_cursor = 0, le_kind = kind, le_idempotency_key = i, le_payload = payload\<rparr>"

text \<open>
  The two \<open>append_once\<close>, of \<open>execution.rs\<close> and of \<open>driver.rs\<close>: an event with this identity is accepted if it
  is the same, and appended if there is none.
\<close>

definition append_fact ::
  "(ledger_error \<Rightarrow> 'e) \<Rightarrow> (string \<Rightarrow> 'e) \<Rightarrow> execution_key \<Rightarrow> string \<Rightarrow> ledger_event_kind \<Rightarrow> 'j
   \<Rightarrow> ('j, ('e, 'j ledger_event) res) prog" where
  "append_fact wrap refuse key name kind payload =
     (let i = ek_execution_id key @ ''/'' @ name in
      trying (find_event wrap i) (\<lambda>found.
        case found of
          Some existing \<Rightarrow>
            if le_turn_id existing \<noteq> ek_turn_id key \<or> le_execution_id existing \<noteq> ek_execution_id key
               \<or> le_kind existing \<noteq> kind \<or> le_payload existing \<noteq> payload
            then Done (Err (refuse (''conflicting event identity: '' @ i)))
            else Done (Ok existing)
        | None \<Rightarrow> bindp (append_event (new_event key i kind payload)) (\<lambda>r. Done (map_err wrap r))))"

definition effect_suffix :: "effect_request \<Rightarrow> string \<Rightarrow> string" where
  "effect_suffix e s = ''effect/'' @ fq_effect_id e @ s"

end
