(* ===== verification/Effect_Runtime.thy ===== *)
theory Effect_Runtime
  imports Effect_Programs
begin

text \<open>The durable execution of effects, \<open>crates/kolyan-runtime/src/execution.rs\<close>.\<close>

definition append_once ::
  "execution_key \<Rightarrow> string \<Rightarrow> ledger_event_kind \<Rightarrow> 'j \<Rightarrow> ('j, (runtime_error, 'j ledger_event) res) prog" where
  "append_once key name kind payload = append_fact ExecLedger ExecInvalid key name kind payload"

text \<open>The ports.\<close>

definition decide_effect :: "execution_key \<Rightarrow> effect_request \<Rightarrow> ('j, (runtime_error, admission_decision) res) prog" where
  "decide_effect key e = Decide key e Done"

definition execute_effect ::
  "execution_key \<Rightarrow> effect_request \<Rightarrow> effect_grant \<Rightarrow> ('j, (runtime_error, 'j effect_outcome) res) prog" where
  "execute_effect key e g = Execute key e g Done"

section \<open>Validation\<close>

definition validate_effect :: "effect_request \<Rightarrow> (runtime_error, unit) res" where
  "validate_effect e =
     (if fq_effect_id e = [] \<or> fq_operation_kind e = [] \<or> fq_input_digest e = [] \<or> fq_policy_revision e = []
      then Err (ExecInvalid ''effect identity and digests are required'') else Ok ())"

definition validate_effect_receipt ::
  "effect_request \<Rightarrow> effect_grant \<Rightarrow> effect_receipt \<Rightarrow> (runtime_error, unit) res" where
  "validate_effect_receipt e g r =
     (if fc_effect_id r \<noteq> fq_effect_id e \<or> fc_authorization_id r \<noteq> fg_authorization_id g
         \<or> fc_input_digest r \<noteq> fq_input_digest e \<or> fc_executor_id r = [] \<or> fc_executor_revision r = []
         \<or> fc_result_digest r = []
      then Err (ExecInvalid ''receipt does not bind effect and grant'') else Ok ())"

definition validate_receipt_status :: "effect_receipt \<Rightarrow> receipt_status \<Rightarrow> (runtime_error, unit) res" where
  "validate_receipt_status r expected =
     (if fc_status r \<noteq> expected then Err (ExecInvalid ''receipt status disagrees with effect outcome'') else Ok ())"

definition exec_invalid :: "(tool_error, 'a) res \<Rightarrow> (runtime_error, 'a) res" where
  "exec_invalid r = map_err (\<lambda>e. ExecInvalid (tool_error_text e)) r"

section \<open>The status of an execution\<close>

definition next_status :: "execution_status option \<Rightarrow> ledger_event_kind \<Rightarrow> execution_status option" where
  "next_status status kind =
     (case kind of
        ExecutionCancelled \<Rightarrow> Some StatusCancelled
      | ExecutionSuspended \<Rightarrow> Some StatusSuspended
      | EffectUncertain \<Rightarrow> Some StatusUncertain
      | EffectFailed \<Rightarrow> Some StatusFailed
      | EffectCompleted \<Rightarrow> Some StatusCompleted
      | ExecutionStarted \<Rightarrow> Some StatusRunning
      | _ \<Rightarrow> status)"

fun status_of :: "execution_status option \<Rightarrow> 'j ledger_event list \<Rightarrow> execution_status option" where
  "status_of status [] = status"
| "status_of status (e # es) =
     (if status = Some StatusCancelled then status else status_of (next_status status (le_kind e)) es)"

definition execution_status :: "execution_key \<Rightarrow> ('j, (runtime_error, execution_status option) res) prog" where
  "execution_status key =
     trying (execution_history ExecLedger (ek_execution_id key)) (\<lambda>es. Done (Ok (status_of None es)))"

section \<open>Recorded outcomes\<close>

text \<open>What a record of the effect says, when it is one of the four terminal records.\<close>

definition receipt_disposition ::
  "'j effect_codec \<Rightarrow> effect_request \<Rightarrow> 'j \<Rightarrow> (runtime_error, 'j disposition) res" where
  "receipt_disposition C e payload =
     bindr (ok_or (ef_as_receipt C (member_of C payload ''receipt'')) (ExecInvalid (ef_malformed C))) (\<lambda>receipt.
     if fc_input_digest receipt \<noteq> fq_input_digest e \<or> fc_effect_id receipt \<noteq> fq_effect_id e
     then Err (ExecInvalid ''receipt identity mismatch'')
     else
       (case fc_status receipt of
          ReceiptCompleted \<Rightarrow>
            bindr (ok_or (ef_get C payload ''output'') (ExecInvalid ''receipt has no output'')) (\<lambda>v. Ok (DispCompleted v))
        | ReceiptFailed \<Rightarrow>
            bindr (ok_or (case (case ef_get C payload ''code'' of None \<Rightarrow> ef_get C payload ''error'' | Some v \<Rightarrow> Some v) of
                None \<Rightarrow> None | Some v \<Rightarrow> ef_as_str C v) (ExecInvalid ''receipt has no failure'')) (\<lambda>code. Ok (DispFailed code))
        | ReceiptUncertain \<Rightarrow>
            bindr (ok_or (ef_as_str C (member_of C payload ''evidence'')) (ExecInvalid ''receipt has no evidence''))
              (\<lambda>evidence. Ok (DispUncertain evidence))))"

fun terminal_disposition ::
  "'j effect_codec \<Rightarrow> execution_key \<Rightarrow> effect_request \<Rightarrow> 'j ledger_event list \<Rightarrow> (runtime_error, 'j disposition option) res" where
  "terminal_disposition C key e [] = Ok None"
| "terminal_disposition C key e (event # events) =
     (let prefix = effect_prefix key (fq_effect_id e); payload = le_payload event in
      if le_event_id event = prefix @ ''/receipt'' then bindr (receipt_disposition C e payload) (\<lambda>d. Ok (Some d))
      else if le_event_id event = prefix @ ''/completed''
      then Ok (Some (DispCompleted (case ef_get C payload ''output'' of None \<Rightarrow> ef_null C | Some v \<Rightarrow> v)))
      else if le_event_id event = prefix @ ''/failed''
      then Ok (Some (DispFailed (case ef_as_str C (member_of C payload ''code'') of None \<Rightarrow> ''failed'' | Some s \<Rightarrow> s)))
      else if le_event_id event = prefix @ ''/uncertain''
      then Ok (Some (DispUncertain (case ef_as_str C (member_of C payload ''evidence'') of None \<Rightarrow> ''uncertain'' | Some s \<Rightarrow> s)))
      else terminal_disposition C key e events)"

definition terminal_effect ::
  "'j effect_codec \<Rightarrow> execution_key \<Rightarrow> effect_request \<Rightarrow> ('j, (runtime_error, 'j disposition option) res) prog" where
  "terminal_effect C key e =
     trying (execution_history ExecLedger (ek_execution_id key)) (\<lambda>es. Done (terminal_disposition C key e es))"

section \<open>Dispatch\<close>

definition append_receipt ::
  "execution_key \<Rightarrow> effect_request \<Rightarrow> 'j \<Rightarrow> ('j, (runtime_error, unit) res) prog" where
  "append_receipt key e payload =
     trying (append_once key (effect_suffix e ''/receipt'') EffectReceipt payload) (\<lambda>_. Done (Ok ()))"

text \<open>The outcome of the executor, recorded as a receipt and then as the event of its kind.\<close>

definition record_outcome ::
  "'j effect_codec \<Rightarrow> execution_key \<Rightarrow> effect_request \<Rightarrow> effect_grant \<Rightarrow> effect_receipt \<Rightarrow> receipt_status
   \<Rightarrow> string \<times> 'j \<Rightarrow> string \<times> ledger_event_kind \<Rightarrow> 'j disposition \<Rightarrow> ('j, (runtime_error, 'j disposition) res) prog" where
  "record_outcome C key e g receipt status outcome record d =
     trying (Done (validate_receipt_status receipt status)) (\<lambda>_.
     trying (Done (validate_effect_receipt e g receipt)) (\<lambda>_.
     trying (append_receipt key e (ef_object C [(''receipt'', ef_receipt C receipt), outcome])) (\<lambda>_.
     trying (append_once key (effect_suffix e (fst record)) (snd record)
               (ef_object C [(''effect_id'', ef_text C (fq_effect_id e)), outcome])) (\<lambda>_.
       Done (Ok d)))))"

definition dispatch_effect ::
  "'j effect_codec \<Rightarrow> execution_key \<Rightarrow> effect_request \<Rightarrow> effect_grant \<Rightarrow> ('j, (runtime_error, 'j disposition) res) prog" where
  "dispatch_effect C key e g =
     (if fg_effect_id g \<noteq> fq_effect_id e \<or> fg_input_digest g \<noteq> fq_input_digest e
      then Done (Err (ExecInvalid ''grant does not bind effect''))
      else
        trying (append_once key (effect_suffix e ''/authorized'') EffectAuthorized (ef_authorization C g)) (\<lambda>_.
        bindp (admit_event (new_event key (effect_prefix key (fq_effect_id e) @ ''/started'') EffectStarted
                 (ef_object C [(''effect_id'', ef_text C (fq_effect_id e))]))) (\<lambda>started.
        case started of
          Ok _ \<Rightarrow>
            trying (execute_effect key e g) (\<lambda>outcome.
              case outcome of
                EffectDone receipt output \<Rightarrow>
                  record_outcome C key e g receipt ReceiptCompleted (''output'', output) (''/completed'', EffectCompleted)
                    (DispCompleted output)
              | EffectFailure receipt code \<Rightarrow>
                  record_outcome C key e g receipt ReceiptFailed (''code'', ef_text C code) (''/failed'', EffectFailed)
                    (DispFailed code)
              | EffectUnsure receipt evidence \<Rightarrow>
                  record_outcome C key e g receipt ReceiptUncertain (''evidence'', ef_text C evidence)
                    (''/uncertain'', EffectUncertain) (DispUncertain evidence))
        | Err (LedgerCancelled _) \<Rightarrow> Done (Ok DispCancelled)
        | Err (LedgerConflict _) \<Rightarrow>
            trying (terminal_effect C key e) (\<lambda>d.
              Done (Ok (case d of None \<Rightarrow> DispUncertain ''another dispatcher owns the started effect'' | Some d \<Rightarrow> d)))
        | Err er \<Rightarrow> Done (Err (ExecLedger er))
        | Panic \<Rightarrow> Done Panic)))"

section \<open>Applying an effect\<close>

definition find_checked ::
  "execution_key \<Rightarrow> string \<Rightarrow> ledger_event_kind \<Rightarrow> ('j, (runtime_error, 'j ledger_event option) res) prog" where
  "find_checked key i kind =
     trying (find_event ExecLedger i) (\<lambda>found.
       case found of
         None \<Rightarrow> Done (Ok None)
       | Some event \<Rightarrow> trying (Done (exec_invalid (check_effect_event event key i kind))) (\<lambda>_. Done (Ok (Some event))))"

definition require_checked ::
  "execution_key \<Rightarrow> string \<Rightarrow> ledger_event_kind \<Rightarrow> string \<Rightarrow> ('j, (runtime_error, 'j ledger_event) res) prog" where
  "require_checked key i kind missing =
     trying (find_checked key i kind) (\<lambda>found. Done (ok_or found (ExecInvalid missing)))"

text \<open>The receipt of a prepared tool, after its start.\<close>

definition recover_receipt ::
  "'j effect_codec \<Rightarrow> execution_key \<Rightarrow> string \<Rightarrow> 'j prepared_evidence \<Rightarrow> 'j ledger_event option
   \<Rightarrow> ('j, (runtime_error, 'j disposition) res) prog" where
  "recover_receipt C key path bound started =
     trying (find_checked key (path @ ''/receipt'') EffectReceipt) (\<lambda>receipt.
       case receipt of
         None \<Rightarrow> Done (Ok (DispUncertain ''prepared tool has no committed receipt; trusted reconciliation required''))
       | Some event \<Rightarrow>
           if started = None then Done (Err (ExecInvalid ''tool receipt has no start evidence''))
           else
             trying (Done (exec_invalid (validate_receipt C bound (le_payload event)))) (\<lambda>result.
               Done (case result of
                 Ok output \<Rightarrow> Ok (DispCompleted (ef_result C output))
               | Err error \<Rightarrow> Ok (DispFailed (tool_error_text error))
               | Panic \<Rightarrow> Panic)))"

definition recover_prepared_tool ::
  "'j effect_codec \<Rightarrow> execution_key \<Rightarrow> effect_request \<Rightarrow> 'j ledger_event \<Rightarrow> ('j, (runtime_error, 'j disposition) res) prog" where
  "recover_prepared_tool C key e saved =
     (let prefix = effect_prefix key (fq_effect_id e) in
      trying (require_checked key (ek_execution_id key @ ''/execution-started'') ExecutionStarted ''missing execution identity'') (\<lambda>started.
      if le_payload started \<noteq> ef_execution C key then Done (Err (ExecInvalid ''execution binding differs''))
      else
      trying (require_checked key (prefix @ ''/authorized'') EffectAuthorized ''prepared tool has no scoped authorization'') (\<lambda>authorized.
      trying (Done (exec_invalid (evidence_from_facts C key (fq_effect_id e) (le_payload saved) (le_payload authorized)))) (\<lambda>bound.
      if pv_request bound \<noteq> e then Done (Err (ExecInvalid ''prepared tool request differs''))
      else
      trying (find_checked key (prefix @ ''/started'') EffectStarted) (\<lambda>entered.
      if (case entered of None \<Rightarrow> False | Some event \<Rightarrow> le_payload event \<noteq> started_payload C bound)
      then Done (Err (ExecInvalid ''started tool binding differs''))
      else recover_receipt C key prefix bound entered)))))"

fun no_evidence :: "execution_key \<Rightarrow> effect_request \<Rightarrow> string list \<Rightarrow> ('j, (runtime_error, unit) res) prog" where
  "no_evidence key e [] = Done (Ok ())"
| "no_evidence key e (name # names) =
     trying (find_event ExecLedger (effect_prefix key (fq_effect_id e) @ ''/'' @ name)) (\<lambda>found.
       if found \<noteq> None then Done (Err (ExecInvalid ''effect evidence has no prepared binding''))
       else no_evidence key e names)"

definition generic_payload :: "'j effect_codec \<Rightarrow> effect_request \<Rightarrow> 'j" where
  "generic_payload C e = ef_with C (ef_request C e) ''binding_kind'' (ef_text C ''generic_effect_v1'')"

definition admit_effect ::
  "'j effect_codec \<Rightarrow> execution_key \<Rightarrow> effect_request \<Rightarrow> ('j, (runtime_error, 'j disposition) res) prog" where
  "admit_effect C key e =
     trying (decide_effect key e) (\<lambda>decision.
       case decision of
         DenyEffect code \<Rightarrow>
           trying (append_once key (effect_suffix e ''/denied'') EffectDenied
                     (ef_object C [(''effect_id'', ef_text C (fq_effect_id e)), (''code'', ef_text C code)])) (\<lambda>_.
             Done (Ok (DispDenied code)))
       | AwaitDecision interaction \<Rightarrow>
           trying (append_once key (effect_suffix e ''/awaiting'') EffectAwaitingDecision
                     (ef_object C [(''effect_id'', ef_text C (fq_effect_id e)), (''interaction_id'', ef_text C interaction)])) (\<lambda>_.
           trying (append_once key (''execution-suspended/'' @ fq_effect_id e) ExecutionSuspended
                     (ef_object C [(''effect_id'', ef_text C (fq_effect_id e))])) (\<lambda>_.
             Done (Ok (DispSuspended interaction))))
       | GrantEffect g \<Rightarrow> dispatch_effect C key e g)"

text \<open>What follows once the binding is generic.\<close>

definition apply_generic ::
  "'j effect_codec \<Rightarrow> execution_key \<Rightarrow> effect_request \<Rightarrow> ('j, (runtime_error, 'j disposition) res) prog" where
  "apply_generic C key e =
     trying (append_once key (effect_suffix e ''/prepared'') EffectPrepared (generic_payload C e)) (\<lambda>_.
     trying (terminal_effect C key e) (\<lambda>existing.
       case existing of
         Some d \<Rightarrow> Done (Ok d)
       | None \<Rightarrow>
           trying (find_event ExecLedger (effect_prefix key (fq_effect_id e) @ ''/started'')) (\<lambda>started.
             if started \<noteq> None
             then Done (Ok (DispUncertain ''effect started without a terminal result; reconciliation required''))
             else admit_effect C key e)))"

definition apply_effect ::
  "'j effect_codec \<Rightarrow> execution_key \<Rightarrow> effect_request \<Rightarrow> ('j, (runtime_error, 'j disposition) res) prog" where
  "apply_effect C key e =
     trying (Done (validate_effect e)) (\<lambda>_.
     trying (execution_status key) (\<lambda>status.
     if status = Some StatusCancelled then Done (Ok DispCancelled)
     else
       (let prepared_id = effect_prefix key (fq_effect_id e) @ ''/prepared'' in
        trying (find_event ExecLedger prepared_id) (\<lambda>found.
          case found of
            Some saved \<Rightarrow>
              trying (Done (exec_invalid (check_effect_event saved key prepared_id EffectPrepared))) (\<lambda>_.
                let kind = ef_as_str C (member_of C (le_payload saved) ''binding_kind'') in
                if kind = Some ''prepared_tool_v1'' then recover_prepared_tool C key e saved
                else if kind = Some ''generic_effect_v1'' then apply_generic C key e
                else Done (Err (ExecInvalid ''missing or unknown effect binding kind'')))
          | None \<Rightarrow>
              trying (no_evidence key e [''authorized'', ''started'', ''receipt'']) (\<lambda>_. apply_generic C key e)))))"

text \<open>Starting and cancelling an execution.\<close>

definition start_execution :: "'j effect_codec \<Rightarrow> execution_key \<Rightarrow> ('j, (runtime_error, unit) res) prog" where
  "start_execution C key =
     trying (append_once key ''execution-started'' ExecutionStarted (ef_execution C key)) (\<lambda>_. Done (Ok ()))"

definition cancel_execution :: "'j effect_codec \<Rightarrow> execution_key \<Rightarrow> ('j, (runtime_error, unit) res) prog" where
  "cancel_execution C key =
     trying (append_once key ''execution-cancelled'' ExecutionCancelled (ef_null C)) (\<lambda>_. Done (Ok ()))"

end
