(* ===== verification/Effect_Reconciliation.thy ===== *)
theory Effect_Reconciliation
  imports Effect_Runtime
begin

text \<open>
  The trusted reconciliation of an uncertain tool effect, \<open>crates/kolyan-runtime/src/reconciliation.rs\<close>, and
  the proof of a historical effect, \<open>effect_proof.rs\<close>. Both are programs over the shared ledger
  as in \<open>Effect_Runtime\<close>; neither has an executor to call.
\<close>

section \<open>Reconciliation\<close>

definition rt_invalid :: "(tool_error, 'a) res \<Rightarrow> (driver_error, 'a) res" where
  "rt_invalid r = map_err (\<lambda>e. RtDriver (tool_error_text e)) r"

text \<open>\<open>char::is_control\<close> on UTF-8 bytes: U+0000..U+001F and U+007F..U+009F.\<close>

fun has_control :: "string \<Rightarrow> bool" where
  "has_control [] = False"
| "has_control (c # cs) =
     (let b = (of_char c :: nat) in
      b < 32 \<or> b = 127
      \<or> b = 194 \<and> (case cs of [] \<Rightarrow> False | d # _ \<Rightarrow> 128 \<le> (of_char d :: nat) \<and> (of_char d :: nat) \<le> 159)
      \<or> has_control cs)"

definition validate_reconciliation :: "reconciliation_request \<Rightarrow> (driver_error, unit) res" where
  "validate_reconciliation q =
     (if \<exists>i \<in> set [rr_reconciliation_id q, ek_session_id (rr_execution q), ek_execution_id (rr_execution q),
            ek_turn_id (rr_execution q)]. \<not> reconciliation_identity i
      then Err (RtDriver ''invalid reconciliation identity'')
      else if rr_effect_id q = [] \<or> length (rr_effect_id q) > 1281 \<or> has_control (rr_effect_id q)
      then Err (RtDriver ''invalid reconciliation effect identity'') else Ok ())"

definition decision_payload ::
  "'j effect_codec \<Rightarrow> reconciliation_request \<Rightarrow> resolution \<Rightarrow> 'j prepared_evidence \<Rightarrow> 'j" where
  "decision_payload C q r bound =
     ef_object C [(''request'', ef_rc_request C q), (''resolution'', ef_resolution C r),
       (''input_digest'', ef_text C (fq_input_digest (pv_request bound))),
       (''authorization_digest'', ef_text C (fg_constraints_digest (pv_authorization bound))),
       (''scope'', ef_scope C (pv_scope bound))]"

text \<open>The output of a receipt that must be a success.\<close>

definition committed_output ::
  "'j effect_codec \<Rightarrow> 'j prepared_evidence \<Rightarrow> 'j \<Rightarrow> string \<Rightarrow> (driver_error, tool_result) res" where
  "committed_output C bound payload message =
     bindr (rt_invalid (validate_receipt C bound payload)) (\<lambda>r. map_err (\<lambda>_. RtDriver message) r)"

definition validate_decision_receipt ::
  "'j effect_codec \<Rightarrow> 'j prepared_evidence \<Rightarrow> reconciliation_request \<Rightarrow> resolution \<Rightarrow> 'j ledger_event option
   \<Rightarrow> (driver_error, unit) res" where
  "validate_decision_receipt C bound q r receipt =
     (case r of
        Committed output _ _ _ \<Rightarrow>
          bindr (ok_or receipt (RtDriver ''committed decision has no receipt'')) (\<lambda>event.
          bindr (committed_output C bound (le_payload event) ''committed decision has a failed receipt'') (\<lambda>actual.
          if actual \<noteq> output
             \<or> member_of C (le_payload event) ''reconciliation'' \<noteq> reconciled_proof C q r
          then Err (RtDriver ''decision and committed receipt proof differ'') else Ok ()))
      | _ \<Rightarrow> if receipt \<noteq> None then Err (RtDriver ''noncommitted decision conflicts with a receipt'') else Ok ())"

definition reconcile_fact ::
  "reconciliation_request \<Rightarrow> string \<Rightarrow> ledger_event_kind \<Rightarrow> ('j, (driver_error, 'j ledger_event) res) prog" where
  "reconcile_fact q i kind =
     trying (find_event RtLedger i) (\<lambda>found.
     trying (Done (ok_or found (RtDriver (''missing fact '' @ i)))) (\<lambda>event.
     trying (Done (rt_invalid (check_effect_event event (rr_execution q) i kind))) (\<lambda>_. Done (Ok event))))"

definition append_identical ::
  "reconciliation_request \<Rightarrow> string \<Rightarrow> ledger_event_kind \<Rightarrow> 'j \<Rightarrow> ('j, (driver_error, unit) res) prog" where
  "append_identical q i kind payload =
     (let event = new_event (rr_execution q) i kind payload in
      bindp (append_event event) (\<lambda>r.
        case r of
          Ok _ \<Rightarrow> Done (Ok ())
        | Err (LedgerConflict _) \<Rightarrow>
            trying (find_event RtLedger i) (\<lambda>found.
            trying (Done (ok_or found (RtDriver ''conflicting fact unavailable''))) (\<lambda>actual.
              if actual\<lparr>le_cursor := 0\<rparr> = event then Done (Ok ())
              else Done (Err (RtDriver ''conflicting reconciliation evidence''))))
        | Err e \<Rightarrow> Done (Err (RtLedger e))
        | Panic \<Rightarrow> Done Panic))"

text \<open>A recorded decision is returned only if it agrees with everything else that is recorded.\<close>

definition recorded_decision ::
  "'j effect_codec \<Rightarrow> 'j prepared_evidence \<Rightarrow> reconciliation_request \<Rightarrow> string \<Rightarrow> 'j ledger_event option
   \<Rightarrow> 'j ledger_event \<Rightarrow> (driver_error, resolution) res" where
  "recorded_decision C bound q i receipt decision =
     andthen (rt_invalid (check_effect_event decision (rr_execution q) i EffectReconciled))
    (bindr (rt_invalid (decoded C (ef_as_resolution C (member_of C (le_payload decision) ''resolution'')))) (\<lambda>r.
     andthen (rt_invalid (validate_resolution bound q r))
    (if le_payload decision \<noteq> decision_payload C q r bound
     then Err (RtDriver ''reconciliation decision binding differs'')
     else andthen (validate_decision_receipt C bound q r receipt) (Ok r))))"

text \<open>
  A receipt without this decision: the decision of the same request is repaired from the proof the receipt
  carries, any other request only observes the result.
\<close>

definition reconcile_receipt ::
  "'j effect_codec \<Rightarrow> 'j prepared_evidence \<Rightarrow> reconciliation_request \<Rightarrow> string \<Rightarrow> 'j ledger_event
   \<Rightarrow> ('j, (driver_error, resolution) res) prog" where
  "reconcile_receipt C bound q decision_id event =
     trying (Done (committed_output C bound (le_payload event) ''failed receipt is not a committed reconciliation'')) (\<lambda>output.
     let observed = Done (Ok (Committed output (evidence_executor bound) (pc_tool_revision (pv_prepared bound))
           (''durable receipt '' @ le_event_id event))) in
     case ef_get C (le_payload event) ''reconciliation'' of
       None \<Rightarrow> observed
     | Some metadata \<Rightarrow>
         trying (Done (rt_invalid (decoded C (ef_as_rc_request C (member_of C metadata ''request''))))) (\<lambda>saved.
         trying (Done (rt_invalid (decoded C (ef_as_resolution C (member_of C metadata ''resolution''))))) (\<lambda>r.
           if saved = q
           then trying (append_identical q decision_id EffectReconciled (decision_payload C q r bound)) (\<lambda>_. Done (Ok r))
           else observed)))"

text \<open>Nothing is recorded yet: the host inspects, and its answer is recorded, a receipt first.\<close>

definition reconcile_inspected ::
  "'j effect_codec \<Rightarrow> 'j prepared_evidence \<Rightarrow> reconciliation_request \<Rightarrow> string \<Rightarrow> string
   \<Rightarrow> ('j, (driver_error, resolution) res) prog" where
  "reconcile_inspected C bound q receipt_id decision_id =
     trying (Inspect q (pv_request bound) (pv_authorization bound) Done) (\<lambda>r.
     trying (Done (rt_invalid (validate_resolution bound q r))) (\<lambda>_.
     trying (case r of
         Committed output _ _ _ \<Rightarrow>
           trying (Done (rt_invalid (receipt_payload C bound (Ok output)))) (\<lambda>payload.
             append_identical q receipt_id EffectReceipt (ef_with C payload ''reconciliation'' (reconciled_proof C q r)))
       | _ \<Rightarrow> Done (Ok ())) (\<lambda>_.
     trying (append_identical q decision_id EffectReconciled (decision_payload C q r bound)) (\<lambda>_.
       Done (Ok r)))))"

definition reconcile_bound ::
  "'j effect_codec \<Rightarrow> 'j prepared_evidence \<Rightarrow> reconciliation_request \<Rightarrow> string \<Rightarrow> ('j, (driver_error, resolution) res) prog" where
  "reconcile_bound C bound q path =
     (let receipt_id = path @ ''/receipt''; decision_id = path @ ''/reconciliation/'' @ rr_reconciliation_id q in
      trying (find_event RtLedger receipt_id) (\<lambda>receipt.
      trying (Done (case receipt of
          None \<Rightarrow> Ok ()
        | Some event \<Rightarrow>
            andthen (rt_invalid (check_effect_event event (rr_execution q) receipt_id EffectReceipt))
              (bindr (committed_output C bound (le_payload event) ''failed receipt is not a committed reconciliation'') (\<lambda>_. Ok ()))))
        (\<lambda>_.
      trying (find_event RtLedger decision_id) (\<lambda>decision.
        case decision of
          Some d \<Rightarrow> Done (recorded_decision C bound q decision_id receipt d)
        | None \<Rightarrow>
            (case receipt of
               Some event \<Rightarrow> reconcile_receipt C bound q decision_id event
             | None \<Rightarrow> reconcile_inspected C bound q receipt_id decision_id)))))"

definition reconcile_tool_effect ::
  "'j effect_codec \<Rightarrow> reconciliation_request \<Rightarrow> ('j, (driver_error, resolution) res) prog" where
  "reconcile_tool_effect C q =
     trying (Done (validate_reconciliation q)) (\<lambda>_.
     let path = effect_prefix (rr_execution q) (rr_effect_id q) in
     trying (reconcile_fact q (ek_execution_id (rr_execution q) @ ''/execution-started'') ExecutionStarted) (\<lambda>identity.
     if le_payload identity \<noteq> ef_execution C (rr_execution q) then Done (Err (RtDriver ''execution binding differs''))
     else
     trying (reconcile_fact q (path @ ''/prepared'') EffectPrepared) (\<lambda>prepared.
     trying (reconcile_fact q (path @ ''/authorized'') EffectAuthorized) (\<lambda>authorized.
     trying (Done (rt_invalid (evidence_from_facts C (rr_execution q) (rr_effect_id q) (le_payload prepared)
               (le_payload authorized)))) (\<lambda>bound.
     trying (reconcile_fact q (path @ ''/started'') EffectStarted) (\<lambda>started.
     if le_payload started \<noteq> started_payload C bound
     then Done (Err (RtDriver ''started effect evidence binding differs''))
     else reconcile_bound C bound q path))))))"

section \<open>The proof of an effect\<close>

definition MAX_EFFECT_PROOF_INPUT_BYTES :: nat where "MAX_EFFECT_PROOF_INPUT_BYTES = 16 * 1024 * 1024"
definition MAX_EFFECT_PROOF_RESULT_BYTES :: nat where "MAX_EFFECT_PROOF_RESULT_BYTES = 16 * 1024 * 1024"

record proof_coordinate =
  co_event_id :: string
  co_cursor :: u64

record proof_request =
  pq_execution :: execution_key
  pq_effect_id :: string
  pq_terminal :: proof_coordinate
  pq_max_input_bytes :: nat
  pq_max_result_bytes :: nat

record proof_sources =
  so_admission :: proof_coordinate
  so_prepared :: proof_coordinate
  so_authorized :: proof_coordinate
  so_started :: proof_coordinate
  so_receipt :: proof_coordinate
  so_terminal :: proof_coordinate

record 'j effect_proof =
  vp_prepared :: "'j prepared_call"
  vp_scope :: tool_execution_scope
  vp_result :: "(tool_error, tool_result) res"
  vp_receipt :: effect_receipt
  vp_sources :: proof_sources
  vp_terminal_kind :: ledger_event_kind

datatype proof_error =
    ProofInvalidRequest string | ProofMissing string | ProofMismatch string string | ProofOrdering
  | ProofBounds string nat | ProofIndeterminate string string | ProofStorage ledger_error

text \<open>The counting writer, \<open>checked_sub\<close> on every write.\<close>

fun count_down :: "nat \<Rightarrow> nat list \<Rightarrow> bool" where
  "count_down remaining [] = True"
| "count_down remaining (n # ns) = (if n > remaining then False else count_down (remaining - n) ns)"

definition bounded :: "'j effect_codec \<Rightarrow> 'j \<Rightarrow> string \<Rightarrow> nat \<Rightarrow> (proof_error, unit) res" where
  "bounded C v i limit = (if count_down limit (ef_writes C v) then Ok () else Err (ProofBounds i limit))"

definition event_mismatch :: "'j ledger_event \<Rightarrow> (tool_error, 'a) res \<Rightarrow> (proof_error, 'a) res" where
  "event_mismatch e r = map_err (\<lambda>er. ProofMismatch (le_event_id e) (tool_error_text er)) r"

definition physical_terminal :: "'j effect_codec \<Rightarrow> 'j ledger_event \<Rightarrow> bool" where
  "physical_terminal C e =
     (case le_kind e of
        TurnCompleted \<Rightarrow>
          (case ef_as_str C (member_of C (le_payload e) ''reason'') of
             None \<Rightarrow> False
           | Some s \<Rightarrow> s \<in> set [''FinalAnswer'', ''Refused'', ''Incomplete'', ''MaxSteps'', ''NoProgress''])
      | TurnFailed \<Rightarrow> True | TurnCancelled \<Rightarrow> True | TurnTimedOut \<Rightarrow> True | _ \<Rightarrow> False)"

definition coordinate_of :: "'j ledger_event \<Rightarrow> proof_coordinate" where
  "coordinate_of e = \<lparr>co_event_id = le_event_id e, co_cursor = le_cursor e\<rparr>"

definition validate_proof_request :: "proof_request \<Rightarrow> (proof_error, unit) res" where
  "validate_proof_request q =
     (if \<exists>i \<in> set [ek_session_id (pq_execution q), ek_turn_id (pq_execution q), ek_execution_id (pq_execution q)].
          length i > 256
      then Err (ProofInvalidRequest ''oversized execution key'')
      else
        andthen (map_err (\<lambda>e. ProofInvalidRequest (prepared_error_text e))
           (scope_validate \<lparr>sc_execution = pq_execution q, sc_step_id = ''proof-validation'', sc_agent_snapshot_digest = None\<rparr>))
       (if blank (pq_effect_id q) \<or> length (pq_effect_id q) > 1281
           \<or> blank (co_event_id (pq_terminal q)) \<or> length (co_event_id (pq_terminal q)) > 2048
           \<or> co_cursor (pq_terminal q) = 0
           \<or> pq_max_input_bytes q = 0 \<or> pq_max_input_bytes q > MAX_EFFECT_PROOF_INPUT_BYTES
           \<or> pq_max_result_bytes q = 0 \<or> pq_max_result_bytes q > MAX_EFFECT_PROOF_RESULT_BYTES
        then Err (ProofInvalidRequest ''invalid identity, coordinate or ceiling'') else Ok ()))"

definition check_loaded :: "'j effect_codec \<Rightarrow> execution_key \<Rightarrow> string \<Rightarrow> nat \<Rightarrow> 'j ledger_event \<Rightarrow> (proof_error, unit) res" where
  "check_loaded C key i limit e =
     andthen (bounded C (le_payload e) i limit)
    (andthen (event_mismatch e (check_effect_event e key i (le_kind e)))
    (if le_cursor e = 0 then Err (ProofMismatch (le_event_id e) ''zero source cursor'') else Ok ()))"

definition load_event ::
  "'j effect_codec \<Rightarrow> execution_key \<Rightarrow> string \<Rightarrow> nat \<Rightarrow> ('j, (proof_error, 'j ledger_event) res) prog" where
  "load_event C key i limit =
     trying (find_event ProofStorage i) (\<lambda>found.
     trying (Done (ok_or found (ProofMissing i))) (\<lambda>e.
     trying (Done (check_loaded C key i limit e)) (\<lambda>_. Done (Ok e))))"

definition require_event ::
  "'j effect_codec \<Rightarrow> execution_key \<Rightarrow> string \<Rightarrow> ledger_event_kind \<Rightarrow> nat \<Rightarrow> ('j, (proof_error, 'j ledger_event) res) prog" where
  "require_event C key i kind limit =
     trying (load_event C key i limit) (\<lambda>e.
     trying (Done (event_mismatch e (check_effect_event e key i kind))) (\<lambda>_. Done (Ok e)))"

text \<open>\<open>Value::pointer\<close> along member names.\<close>

fun member_path :: "'j effect_codec \<Rightarrow> 'j \<Rightarrow> string list \<Rightarrow> 'j option" where
  "member_path C v [] = Some v"
| "member_path C v (k # ks) = (case ef_get C v k of None \<Rightarrow> None | Some x \<Rightarrow> member_path C x ks)"

fun bounded_members :: "'j effect_codec \<Rightarrow> 'j \<Rightarrow> string \<Rightarrow> nat \<Rightarrow> string list list \<Rightarrow> (proof_error, unit) res" where
  "bounded_members C v i limit [] = Ok ()"
| "bounded_members C v i limit (path # paths) =
     andthen (case member_path C v path of None \<Rightarrow> Ok () | Some x \<Rightarrow> bounded C x i limit)
       (bounded_members C v i limit paths)"

text \<open>What the six loaded facts prove; they are compared with each other without reading again.\<close>

definition prove_effect ::
  "'j effect_codec \<Rightarrow> proof_request \<Rightarrow> 'j ledger_event \<Rightarrow> 'j ledger_event \<Rightarrow> 'j ledger_event \<Rightarrow> 'j ledger_event
   \<Rightarrow> 'j ledger_event \<Rightarrow> 'j ledger_event \<Rightarrow> (proof_error, 'j effect_proof) res" where
  "prove_effect C q admission prepared authorized started receipt terminal =
     (if \<not> sorted_wrt (<) (map le_cursor [admission, prepared, authorized, started, receipt, terminal])
      then Err ProofOrdering
      else
        andthen (bounded_members C (le_payload receipt) (le_event_id receipt) (pq_max_result_bytes q)
          [[''output''], [''error''], [''reconciliation'', ''resolution'', ''Committed'', ''output'']])
       (bindr (event_mismatch prepared (evidence_from_facts C (pq_execution q) (pq_effect_id q)
                 (le_payload prepared) (le_payload authorized))) (\<lambda>bound.
        if le_payload started \<noteq> started_payload C bound
        then Err (ProofMismatch (le_event_id started) ''started effect binding differs'')
        else if ef_as_str C (member_of C (member_of C (le_payload receipt) ''receipt'') ''status'') = Some ''Uncertain''
        then Err (ProofIndeterminate (le_event_id receipt) ''uncertain receipt requires trusted reconciliation'')
        else
          bindr (event_mismatch receipt (validate_receipt C bound (le_payload receipt))) (\<lambda>result.
          bindr (ok_or (ef_as_receipt C (member_of C (le_payload receipt) ''receipt''))
                   (ProofMismatch (le_event_id receipt) (ef_malformed C))) (\<lambda>value.
            Ok \<lparr>vp_prepared = pv_prepared bound, vp_scope = pv_scope bound, vp_result = result, vp_receipt = value,
               vp_sources = \<lparr>so_admission = coordinate_of admission, so_prepared = coordinate_of prepared,
                 so_authorized = coordinate_of authorized, so_started = coordinate_of started,
                 so_receipt = coordinate_of receipt, so_terminal = coordinate_of terminal\<rparr>,
               vp_terminal_kind = le_kind terminal\<rparr>)))))"

definition inspect_effect_proof ::
  "'j effect_codec \<Rightarrow> proof_request \<Rightarrow> ('j, (proof_error, 'j effect_proof) res) prog" where
  "inspect_effect_proof C q =
     trying (Done (validate_proof_request q)) (\<lambda>_.
     let key = pq_execution q; limit = pq_max_input_bytes q; path = effect_prefix key (pq_effect_id q) in
     trying (load_event C key (co_event_id (pq_terminal q)) limit) (\<lambda>terminal.
     if le_cursor terminal \<noteq> co_cursor (pq_terminal q) \<or> \<not> physical_terminal C terminal
     then Done (Err (ProofMismatch (le_event_id terminal) ''not the exact physical stopped terminal''))
     else
     trying (require_event C key (ek_execution_id key @ ''/execution-started'') ExecutionStarted limit) (\<lambda>admission.
     if le_payload admission \<noteq> ef_execution C key
     then Done (Err (ProofMismatch (le_event_id admission) ''execution admission Session/key differs''))
     else
     trying (require_event C key (path @ ''/prepared'') EffectPrepared limit) (\<lambda>prepared.
     trying (require_event C key (path @ ''/authorized'') EffectAuthorized limit) (\<lambda>authorized.
     trying (require_event C key (path @ ''/started'') EffectStarted limit) (\<lambda>started.
     trying (require_event C key (path @ ''/receipt'') EffectReceipt (limit + pq_max_result_bytes q)) (\<lambda>receipt.
       Done (prove_effect C q admission prepared authorized started receipt terminal))))))))"

end
