(* ===== verification/Effect_Tools.thy ===== *)
theory Effect_Tools
  imports Effect_Reconciliation
begin

text \<open>
  The tools of a durable turn, \<open>crates/kolyan-runtime/src/driver/tools.rs\<close> and \<open>effect_hooks.rs\<close>: an
  invocation is executed behind the recorded preparation, authorization and start of its effect, its result
  is recorded as a receipt before it is returned, and what was entered once is never entered again. With
  it the facts \<open>driver.rs\<close> writes of a turn: its boundaries, its cancellation and its error.
\<close>

section \<open>Texts of errors\<close>

fun ledger_error_text :: "'j effect_codec \<Rightarrow> ledger_error \<Rightarrow> string" where
  "ledger_error_text C InvalidQuery = ''invalid ledger query: '' @ ef_query_reason C"
| "ledger_error_text C (LedgerConflict i) = ''ledger conflict for idempotency key: '' @ i"
| "ledger_error_text C (LedgerCancelled i) = ''execution was cancelled: '' @ i"
| "ledger_error_text C LedgerStorage = ''ledger storage failed: '' @ ef_storage_reason C"

fun driver_error_text :: "'j effect_codec \<Rightarrow> driver_error \<Rightarrow> string" where
  "driver_error_text C (RtDeadline e) = ''deadline failed: '' @ deadline_error_text e"
| "driver_error_text C (RtTurn e) = ''turn execution failed: '' @ turn_error_text e"
| "driver_error_text C (RtLedger e) = ''ledger failed: '' @ ledger_error_text C e"
| "driver_error_text C (RtTrace m) = ''trace failed: '' @ m"
| "driver_error_text C (RtDriver m) = ''runtime driver failed: '' @ m"

fun hook_error_text :: "hook_error \<Rightarrow> string" where
  "hook_error_text (HookHost m) = ''effect hook host failure: '' @ m"
| "hook_error_text (HookIncomplete m) = ''effect hook observation incomplete: '' @ m"
| "hook_error_text HookCancelled = ''effect hook cancelled''"
| "hook_error_text HookTimedOut = ''effect hook execution window exhausted''"

fun entry_error :: "hook_error \<Rightarrow> tool_error" where
  "entry_error HookCancelled = ToolCancelled"
| "entry_error HookTimedOut = ToolTimedOut"
| "entry_error e = InvalidBatch (''before_effect host failure: '' @ hook_error_text e)"

definition observation_error :: "string \<Rightarrow> 'j ledger_event \<Rightarrow> hook_error \<Rightarrow> tool_error" where
  "observation_error phase e error = InvalidBatch (phase @ '' host failure after committed receipt '' @ le_event_id e
     @ '' cursor '' @ decimal (unat (le_cursor e)) @ '': '' @ hook_error_text error)"

section \<open>Composed steps\<close>

definition with_error :: "('e \<Rightarrow> 'f) \<Rightarrow> ('j, ('e, 'a) res) prog \<Rightarrow> ('j, ('f, 'a) res) prog" where
  "with_error f m = bindp m (\<lambda>r. Done (map_err f r))"

text \<open>\<open>append_once\<close> of \<open>driver.rs\<close>.\<close>

definition driver_append ::
  "execution_key \<Rightarrow> string \<Rightarrow> ledger_event_kind \<Rightarrow> 'j \<Rightarrow> ('j, (driver_error, 'j ledger_event) res) prog" where
  "driver_append key name kind payload = append_fact RtLedger RtDriver key name kind payload"

text \<open>\<open>.map_err(failed)\<close>, on an answer of the ledger and on an appended fact.\<close>

definition tool_find :: "'j effect_codec \<Rightarrow> string \<Rightarrow> ('j, (tool_error, 'j ledger_event option) res) prog" where
  "tool_find C i = find_event (\<lambda>e. ToolFailed (ledger_error_text C e)) i"

definition tool_append ::
  "'j effect_codec \<Rightarrow> execution_key \<Rightarrow> string \<Rightarrow> ledger_event_kind \<Rightarrow> 'j \<Rightarrow> ('j, (tool_error, 'j ledger_event) res) prog" where
  "tool_append C key name kind payload =
     with_error (\<lambda>e. ToolFailed (driver_error_text C e)) (driver_append key name kind payload)"

section \<open>Hooks\<close>

definition hook_context_new :: "'j prepared_evidence \<Rightarrow> instant \<Rightarrow> 'j hook_context" where
  "hook_context_new bound window = \<lparr>hx_issued = evidence_issued bound, hx_effect_id = fq_effect_id (pv_request bound),
     hx_input_digest = fq_input_digest (pv_request bound), hx_window = window\<rparr>"

definition check_live :: "'j hook_context \<Rightarrow> ('j, (hook_error, unit) res) prog" where
  "check_live hx = Live ControlCancelled (\<lambda>cancelled.
     if cancelled then Done (Err HookCancelled)
     else Live (WindowSpent (hx_window hx)) (\<lambda>spent. Done (if spent then Err HookTimedOut else Ok ())))"

fun settled_race :: "(hook_error, 'a) res raced \<Rightarrow> (hook_error, 'a) res" where
  "settled_race RaceCancelled = Err HookCancelled"
| "settled_race RaceTimedOut = Err HookTimedOut"
| "settled_race (RaceDone r) = r"

definition hook_wait ::
  "'j hook_context \<Rightarrow> ('j, (hook_error, 'a) res raced) prog \<Rightarrow> ('j, (hook_error, 'a) res) prog" where
  "hook_wait hx m = trying (check_live hx) (\<lambda>_. bindp m (\<lambda>r. Done (settled_race r)))"

text \<open>A receipt for the host is read back from the ledger first.\<close>

definition from_ack ::
  "'j effect_codec \<Rightarrow> 'j prepared_evidence \<Rightarrow> 'j ledger_event \<Rightarrow> ('j, (hook_error, 'j committed_receipt) res) prog" where
  "from_ack C bound e =
     with_error (\<lambda>error. HookHost (''committed receipt is not proven: '' @ tool_error_text error))
       (trying (Done (check_effect_event e (sc_execution (pv_scope bound)) (evidence_prefix bound @ ''/receipt'') EffectReceipt)) (\<lambda>_.
        trying (find_event (\<lambda>error. InvalidBatch (ledger_error_text C error)) (le_event_id e)) (\<lambda>actual.
        if le_cursor e = 0 \<or> actual \<noteq> Some e
        then Done (Err (InvalidBatch ''committed receipt acknowledgement differs from Ledger''))
        else trying (Done (validate_receipt C bound (le_payload e))) (\<lambda>result.
          Done (Ok \<lparr>cr_event = e, cr_result = result\<rparr>)))))"

text \<open>The two observations of a receipt, in their phases.\<close>

definition observe_receipt ::
  "'j effect_codec \<Rightarrow> 'j prepared_evidence \<Rightarrow> 'j hook_context \<Rightarrow> string
   \<Rightarrow> ('j hook_context \<Rightarrow> 'j committed_receipt \<Rightarrow> 'j observation) \<Rightarrow> 'j ledger_event \<Rightarrow> ('j, (tool_error, unit) res) prog" where
  "observe_receipt C bound hx phase observation e =
     trying (with_error (observation_error phase e) (check_live hx)) (\<lambda>_.
     trying (with_error (observation_error phase e) (from_ack C bound e)) (\<lambda>receipt.
     with_error (observation_error phase e) (hook_wait hx (Observe (observation hx receipt) Done))))"

section \<open>Uncertain effects\<close>

definition uncertain_tool ::
  "'j effect_codec \<Rightarrow> execution_key \<Rightarrow> 'j prepared_evidence \<Rightarrow> string \<Rightarrow> ('j, (tool_error, 'a) res) prog" where
  "uncertain_tool C key bound message =
     bindp (driver_append key (effect_suffix (pv_request bound) ''/uncertain'') EffectUncertain
         (ef_object C [(''effect_id'', ef_text C (fq_effect_id (pv_request bound))),
            (''input_digest'', ef_text C (fq_input_digest (pv_request bound))),
            (''scope'', ef_scope C (pv_scope bound)), (''evidence'', ef_text C message)])) (\<lambda>persisted.
       Done (case persisted of
         Ok _ \<Rightarrow> Err (Uncertain message)
       | Err e \<Rightarrow> Err (Uncertain (message @ ''; uncertainty publication failed: '' @ driver_error_text C e))
       | Panic \<Rightarrow> Panic))"

text \<open>\<open>.map_err(|error| self.uncertain(..))?\<close>\<close>

definition certain ::
  "'j effect_codec \<Rightarrow> execution_key \<Rightarrow> 'j prepared_evidence \<Rightarrow> ('e \<Rightarrow> string) \<Rightarrow> ('j, ('e, 'a) res) prog
   \<Rightarrow> ('a \<Rightarrow> ('j, (tool_error, 'b) res) prog) \<Rightarrow> ('j, (tool_error, 'b) res) prog" where
  "certain C key bound message m f =
     bindp m (\<lambda>r. case r of Ok a \<Rightarrow> f a | Err e \<Rightarrow> uncertain_tool C key bound (message e) | Panic \<Rightarrow> Done Panic)"

text \<open>The recorded authorization and start of this very effect.\<close>

definition check_entered ::
  "'j effect_codec \<Rightarrow> 'j prepared_evidence \<Rightarrow> execution_key \<Rightarrow> ('j, (tool_error, unit) res) prog" where
  "check_entered C bound key =
     (let authorization_id = fg_authorization_id (pv_authorization bound); started_id = evidence_prefix bound @ ''/started'' in
      trying (tool_find C authorization_id) (\<lambda>found.
      trying (Done (ok_or found (ToolFailed ''wait has no durable authorization''))) (\<lambda>authorization.
      trying (Done (check_effect_event authorization key authorization_id EffectAuthorized)) (\<lambda>_.
      if le_payload authorization \<noteq> authorized_payload C bound
      then Done (Err (ToolFailed ''wait authorization mismatch''))
      else
      trying (tool_find C started_id) (\<lambda>found.
      trying (Done (ok_or found (ToolFailed ''wait has no durable start''))) (\<lambda>started.
      trying (Done (check_effect_event started key started_id EffectStarted)) (\<lambda>_.
      if le_payload started \<noteq> started_payload C bound
      then Done (Err (ToolFailed ''wait start binding mismatch'')) else Done (Ok ()))))))))"


section \<open>Invocations\<close>

record durable_tools =
  dt_key :: execution_key
  dt_snapshot_digest :: "string option"
  dt_hooks :: bool

text \<open>What is recorded under an identity, checked to be an event of this execution, turn and kind.\<close>

definition recorded_fact ::
  "'j effect_codec \<Rightarrow> execution_key \<Rightarrow> 'j prepared_evidence \<Rightarrow> string \<Rightarrow> ledger_event_kind \<Rightarrow> string \<Rightarrow> string
   \<Rightarrow> ('j ledger_event option \<Rightarrow> ('j, (tool_error, 'a) res) prog) \<Rightarrow> ('j, (tool_error, 'a) res) prog" where
  "recorded_fact C key bound name kind identity authority f =
     (let i = evidence_prefix bound @ name in
      trying (tool_find C i) (\<lambda>found.
        case found of
          None \<Rightarrow> f None
        | Some event \<Rightarrow>
            certain C key bound (\<lambda>e. identity @ tool_error_text e) (Done (check_effect_event event key i kind)) (\<lambda>_.
            certain C key bound (\<lambda>e. authority @ tool_error_text e) (check_entered C bound key) (\<lambda>_. f (Some event)))))"

text \<open>A saved receipt is the result.\<close>

definition saved_receipt ::
  "'j effect_codec \<Rightarrow> durable_tools \<Rightarrow> 'j prepared_evidence \<Rightarrow> 'j hook_context \<Rightarrow> 'j ledger_event
   \<Rightarrow> ('j, (tool_error, 'j tool_outcome) res) prog" where
  "saved_receipt C D bound hx event =
     certain C (dt_key D) bound (\<lambda>e. ''saved receipt integrity failed: '' @ tool_error_text e)
       (Done (validate_receipt C bound (le_payload event))) (\<lambda>result.
     trying (if dt_hooks D then observe_receipt C bound hx ''verify_observation'' VerifyObservation event else Done (Ok ())) (\<lambda>_.
       Done (bindr result (\<lambda>r. Ok (OutcomeCompleted r)))))"

text \<open>A saved wait is still waited for, if the host proves it.\<close>

definition saved_wait ::
  "'j effect_codec \<Rightarrow> durable_tools \<Rightarrow> 'j prepared_evidence \<Rightarrow> 'j ledger_event \<Rightarrow> ('j, (tool_error, 'j tool_outcome) res) prog" where
  "saved_wait C D bound event =
     certain C (dt_key D) bound (\<lambda>e. ''saved wait integrity failed: '' @ tool_error_text e)
       (Done (validate_wait C bound (le_payload event))) (\<lambda>w.
     trying (with_error (\<lambda>e. Uncertain (''saved external admission is not proven: '' @ tool_error_text e))
         (VerifyWait \<lparr>wx_issued = evidence_issued bound, wx_wait = w\<rparr> Done)) (\<lambda>_.
       Done (Ok (OutcomeAwaiting w))))"

definition waiting_event :: "execution_key \<Rightarrow> 'j prepared_evidence \<Rightarrow> 'j \<Rightarrow> 'j ledger_event" where
  "waiting_event key bound payload = new_event key (evidence_prefix bound @ ''/waiting'') EffectAwaitingExternal payload"

text \<open>Entered before, without receipt and wait: the host may prove a wait it has admitted.\<close>

definition entered_before ::
  "'j effect_codec \<Rightarrow> durable_tools \<Rightarrow> 'j prepared_evidence \<Rightarrow> ('j, (tool_error, 'j tool_outcome) res) prog" where
  "entered_before C D bound =
     (let key = dt_key D; issued = evidence_issued bound in
      certain C key bound (\<lambda>e. ''external admission recovery failed: '' @ tool_error_text e) (RecoverWait issued Done) (\<lambda>recovered.
        case recovered of
          None \<Rightarrow> uncertain_tool C key bound ''uncertain tool effect: reconciliation required''
        | Some w \<Rightarrow>
            (let context = \<lparr>wx_issued = issued, wx_wait = w\<rparr> in
             certain C key bound tool_error_text (Done (wait_context_validate C context (pv_scope bound))) (\<lambda>_.
             certain C key bound tool_error_text (VerifyWait context Done) (\<lambda>_.
             trying (Done (wait_payload C bound w)) (\<lambda>payload.
             bindp (admit_event (waiting_event key bound payload)) (\<lambda>admitted.
               case admitted of
                 Ok _ \<Rightarrow> Done (Ok (OutcomeAwaiting w))
               | Err (LedgerCancelled _) \<Rightarrow> Done (Err ToolCancelled)
               | Err e \<Rightarrow> uncertain_tool C key bound (ledger_error_text C e)
               | Panic \<Rightarrow> Done Panic)))))))"

text \<open>The gate of the host before an entry, and what may have changed while it was asked.\<close>

definition before_hooks ::
  "'j effect_codec \<Rightarrow> 'j invocation \<Rightarrow> 'j hook_context \<Rightarrow> ('j, (tool_error, unit) res) prog" where
  "before_hooks C iv hx =
     trying (with_error entry_error (check_live hx)) (\<lambda>_.
     trying (with_error entry_error (hook_wait hx (BeforeEffect hx Done))) (\<lambda>decision.
     trying (Done (case decision of
         HookContinue \<Rightarrow> Ok ()
       | HookDenied reason \<Rightarrow>
           if blank reason \<or> length reason > 1024
           then Err (entry_error (HookHost ''invalid hook denial reason''))
           else Err (PolicyDeniedCall reason))) (\<lambda>_.
     trying (with_error entry_error (check_live hx)) (\<lambda>_.
     trying (with_error entry_error (hook_wait hx
         (bindp (Reprepare (pc_call (iv_prepared iv)) Done) (\<lambda>r. Done (map_raced
            (map_err (\<lambda>e. HookHost (''post-hook current preparation failed: '' @ tool_error_text e))) r))))) (\<lambda>current.
     trying (with_error entry_error (check_live hx)) (\<lambda>_.
     if current \<noteq> iv_prepared iv
     then Done (Err (entry_error (HookHost ''post-hook current preparation differs from issued preparation'')))
     else Done (map_err (\<lambda>e. entry_error (HookHost (''post-hook authority differs: '' @ prepared_error_text e)))
       (grant_validate (ef_policy C) (iv_grant iv) (iv_prepared iv) (iv_policy_revision iv) (iv_scope iv)))))))))"

text \<open>The receipt of a result, then the record of its kind; the host observes the receipt.\<close>

definition record_result ::
  "'j effect_codec \<Rightarrow> durable_tools \<Rightarrow> 'j prepared_evidence \<Rightarrow> 'j hook_context \<Rightarrow> (tool_error, tool_result) res
   \<Rightarrow> ('j, (tool_error, 'j tool_outcome) res) prog" where
  "record_result C D bound hx result =
     (let key = dt_key D; name = effect_suffix (pv_request bound) in
      certain C key bound tool_error_text (Done (receipt_payload C bound result)) (\<lambda>payload.
      certain C key bound (\<lambda>e. ''effect receipt publication failed: '' @ driver_error_text C e)
        (driver_append key (name ''/receipt'') EffectReceipt payload) (\<lambda>event.
      certain C key bound (\<lambda>e. ''effect completion projection failed: '' @ driver_error_text C e)
        (if is_ok result then driver_append key (name ''/completed'') EffectCompleted payload
         else driver_append key (name ''/failed'') EffectFailed payload) (\<lambda>_.
      trying (if dt_hooks D then observe_receipt C bound hx ''after_receipt'' AfterReceipt event else Done (Ok ())) (\<lambda>_.
        Done (bindr result (\<lambda>r. Ok (OutcomeCompleted r))))))))"

text \<open>A wait of the tool is published before it is returned, if the host proves it.\<close>

definition publish_wait ::
  "'j effect_codec \<Rightarrow> durable_tools \<Rightarrow> 'j prepared_evidence \<Rightarrow> 'j external_wait \<Rightarrow> ('j, (tool_error, 'j tool_outcome) res) prog" where
  "publish_wait C D bound w =
     (let key = dt_key D in
      certain C key bound tool_error_text (Done (wait_payload C bound w)) (\<lambda>payload.
      certain C key bound (\<lambda>e. ''external admission is not proven: '' @ tool_error_text e)
        (VerifyWait \<lparr>wx_issued = evidence_issued bound, wx_wait = w\<rparr> Done) (\<lambda>_.
      certain C key bound (\<lambda>e. ''external wait publication failed: '' @ ledger_error_text C e)
        (admit_event (waiting_event key bound payload)) (\<lambda>_.
        Done (Ok (OutcomeAwaiting w))))))"

definition enter_tool ::
  "'j effect_codec \<Rightarrow> durable_tools \<Rightarrow> 'j invocation \<Rightarrow> 'j prepared_evidence \<Rightarrow> 'j hook_context
   \<Rightarrow> ('j, (tool_error, 'j tool_outcome) res) prog" where
  "enter_tool C D iv bound hx =
     (let key = dt_key D in
      trying (tool_append C key (effect_suffix (pv_request bound) ''/authorized'') EffectAuthorized (authorized_payload C bound)) (\<lambda>_.
      Live ControlCancelled (\<lambda>cancelled.
        if cancelled then Done (Err ToolCancelled)
        else
          bindp (admit_event (new_event key (evidence_prefix bound @ ''/started'') EffectStarted (started_payload C bound))) (\<lambda>started.
          case started of
            Ok _ \<Rightarrow>
              RunTool key iv (\<lambda>outcome.
                case outcome of
                  Ok (OutcomeCompleted r) \<Rightarrow> record_result C D bound hx (Ok r)
                | Ok (OutcomeAwaiting w) \<Rightarrow> publish_wait C D bound w
                | Err (Uncertain m) \<Rightarrow> uncertain_tool C key bound (tool_error_text (Uncertain m))
                | Err e \<Rightarrow> record_result C D bound hx (Err e)
                | Panic \<Rightarrow> Done Panic)
          | Err (LedgerCancelled _) \<Rightarrow> Done (Err ToolCancelled)
          | Err e \<Rightarrow> Done (Err (Uncertain (''effect entry outcome is not proven: '' @ ledger_error_text C e)))
          | Panic \<Rightarrow> Done Panic))))"

definition invoke_tool ::
  "'j effect_codec \<Rightarrow> durable_tools \<Rightarrow> 'j invocation \<Rightarrow> ('j, (tool_error, 'j tool_outcome) res) prog" where
  "invoke_tool C D iv =
     (let key = dt_key D in
      if sc_agent_snapshot_digest (iv_scope iv) \<noteq> dt_snapshot_digest D
      then Done (Err (ToolFailed ''tool snapshot differs from Runtime admission''))
      else
      trying (Done (evidence_new C (iv_prepared iv) (iv_grant iv) (iv_scope iv) (iv_policy_revision iv) key)) (\<lambda>bound.
      Live ControlCancelled (\<lambda>cancelled.
      if cancelled then Done (Err ToolCancelled)
      else
        (let hx = hook_context_new bound (iv_window iv) in
         trying (tool_append C key (effect_suffix (pv_request bound) ''/prepared'') EffectPrepared (prepared_payload C bound)) (\<lambda>_.
         recorded_fact C key bound ''/receipt'' EffectReceipt ''saved receipt identity is not proven: '' [] (\<lambda>receipt.
         case receipt of
           Some event \<Rightarrow> saved_receipt C D bound hx event
         | None \<Rightarrow>
         recorded_fact C key bound ''/waiting'' EffectAwaitingExternal ''saved wait identity is not proven: '' [] (\<lambda>waiting.
         case waiting of
           Some event \<Rightarrow> saved_wait C D bound event
         | None \<Rightarrow>
         recorded_fact C key bound ''/started'' EffectStarted ''entered effect identity is not proven: ''
           ''entered effect authority is not proven: '' (\<lambda>started.
         case started of
           Some _ \<Rightarrow> entered_before C D bound
         | None \<Rightarrow>
         trying (if dt_hooks D then before_hooks C iv hx else Done (Ok ())) (\<lambda>_.
           enter_tool C D iv bound hx)))))))))"

end
