(* ===== verification/Effect_Boundaries.thy ===== *)
theory Effect_Boundaries
  imports Effect_Tools
begin

text \<open>
  The facts \<open>crates/kolyan-runtime/src/driver.rs\<close> writes of a turn: an admission for each boundary, which a
  recorded cancellation refuses, the cancellation itself, and the error of a turn that ended without a record.
\<close>

section \<open>Boundaries\<close>

fun end_reason_text :: "end_reason \<Rightarrow> string" where
  "end_reason_text EndFinalAnswer = ''FinalAnswer''"
| "end_reason_text EndRefused = ''Refused''"
| "end_reason_text EndIncomplete = ''Incomplete''"
| "end_reason_text EndMaxSteps = ''MaxSteps''"
| "end_reason_text EndFailed = ''Failed''"
| "end_reason_text EndCancelled = ''Cancelled''"
| "end_reason_text EndTimedOut = ''TimedOut''"
| "end_reason_text EndApprovalRejected = ''ApprovalRejected''"
| "end_reason_text EndApprovalExpired = ''ApprovalExpired''"
| "end_reason_text EndNoProgress = ''NoProgress''"

fun terminal_kind :: "end_reason \<Rightarrow> ledger_event_kind" where
  "terminal_kind EndCancelled = TurnCancelled"
| "terminal_kind EndTimedOut = TurnTimedOut"
| "terminal_kind EndFailed = TurnFailed"
| "terminal_kind EndApprovalRejected = TurnFailed"
| "terminal_kind EndApprovalExpired = TurnFailed"
| "terminal_kind _ = TurnCompleted"

fun boundary_event :: "'j effect_codec \<Rightarrow> boundary_kind \<Rightarrow> string \<times> ledger_event_kind \<times> 'j" where
  "boundary_event C (StepBoundary i) =
     (''step/'' @ i, StepStarted, ef_object C [(''step_id'', ef_text C i)])"
| "boundary_event C (ToolBoundary i c) =
     (''tool/'' @ i @ ''/'' @ c, ToolExecutionStarted, ef_object C [(''step_id'', ef_text C i), (''call_id'', ef_text C c)])"
| "boundary_event C (AwaitingApprovalBoundary i) =
     (''approval/'' @ i @ ''/boundary'', ExecutionBoundaryAdmitted, ef_object C [(''approval_id'', ef_text C i)])"
| "boundary_event C (ResumeApprovalBoundary i) =
     (''approval/'' @ i @ ''/resume-boundary'', ExecutionBoundaryAdmitted, ef_object C [(''approval_id'', ef_text C i)])"
| "boundary_event C (AwaitingExternalBoundary i ws) =
     (''checkpoint/'' @ i @ ''/wait-boundary'', ExecutionBoundaryAdmitted,
      ef_object C [(''checkpoint_id'', ef_text C i), (''wait_ids'', ef_texts C ws)])"
| "boundary_event C (ResumeCheckpointBoundary i) =
     (''checkpoint/'' @ i @ ''/resume-boundary'', ExecutionBoundaryAdmitted, ef_object C [(''checkpoint_id'', ef_text C i)])"
| "boundary_event C (TerminalBoundary reason) =
     (''terminal/'' @ end_reason_text reason, terminal_kind reason,
      ef_object C [(''reason'', ef_text C (end_reason_text reason))])"

record boundary_control =
  bc_key :: execution_key
  bc_resume_cursor :: "u64 option"

text \<open>Only the admissions of the life cycle vary by attempt.\<close>

definition boundary_identity :: "boundary_control \<Rightarrow> string \<Rightarrow> ledger_event_kind \<Rightarrow> string" where
  "boundary_identity B name kind = ek_execution_id (bc_key B) @ ''/''
     @ (case bc_resume_cursor B of
          Some cursor \<Rightarrow>
            if kind = ExecutionBoundaryAdmitted then name @ ''/attempt/'' @ decimal (unat cursor) else name
        | None \<Rightarrow> name)"

text \<open>The end of a cancelled turn is recorded behind the cancellation, everything else is admitted before it.\<close>

definition admit_turn_boundary ::
  "'j effect_codec \<Rightarrow> boundary_control \<Rightarrow> string \<Rightarrow> boundary_kind \<Rightarrow> ('j, (turn_error, unit) res) prog" where
  "admit_turn_boundary C B turn_id boundary =
     (if turn_id \<noteq> ek_turn_id (bc_key B)
      then Done (Err (TeBoundaryControl ''boundary belongs to a different turn''))
      else
        (let (name, kind, payload) = boundary_event C boundary;
             event = new_event (bc_key B) (boundary_identity B name kind) kind payload in
         bindp (if boundary = TerminalBoundary EndCancelled then append_event event else admit_event event) (\<lambda>r.
           Done (case r of
             Ok _ \<Rightarrow> Ok ()
           | Err (LedgerCancelled _) \<Rightarrow> Err TeCancelled
           | Err e \<Rightarrow> Err (TeBoundaryControl (ledger_error_text C e))
           | Panic \<Rightarrow> Panic))))"

section \<open>Cancellation and errors\<close>

definition cancel_turn :: "'j effect_codec \<Rightarrow> execution_key \<Rightarrow> ('j, (driver_error, unit) res) prog" where
  "cancel_turn C key =
     trying (driver_append key ''execution-cancelled'' ExecutionCancelled (ef_null C)) (\<lambda>_. Done (Ok ()))"

fun error_kind :: "end_reason \<Rightarrow> ledger_event_kind" where
  "error_kind EndCancelled = TurnCancelled"
| "error_kind EndTimedOut = TurnTimedOut"
| "error_kind _ = TurnFailed"

definition persist_error :: "'j effect_codec \<Rightarrow> execution_key \<Rightarrow> turn_error \<Rightarrow> ('j, (driver_error, unit) res) prog" where
  "persist_error C key error =
     trying (execution_history RtLedger (ek_execution_id key)) (\<lambda>events.
       if \<exists>e \<in> set events. le_kind e \<in> {TurnCompleted, TurnCancelled, TurnFailed, TurnTimedOut}
       then Done (Ok ())
       else
         trying (driver_append key ''turn-error'' (error_kind (error_end_reason error))
                   (ef_object C [(''error'', ef_text C (turn_error_text error))])) (\<lambda>_. Done (Ok ())))"

end
