(* ===== verification/Effect_Rules.thy ===== *)
theory Effect_Rules
  imports Effect_Boundaries
begin

text \<open>
  A calculus for the programs of \<open>Effect_Programs\<close> under interference. Between two steps of a program
  others may append anything, so it can only rely on what never changes: events that were once read or
  written stay in the ledger. \<open>certified\<close> says of a program, for the events \<open>K\<close> it knows and the
  start event \<open>own\<close> it holds, that each answer of the ledger keeps it within its licence, that its
  own writes keep the ledger sealed, and that its results satisfy a postcondition.
\<close>

section \<open>Sealed ledgers\<close>

text \<open>The outcome records of an effect come after its receipt. That it is uncertain may be recorded without one.\<close>

definition outcome_ids :: "string \<Rightarrow> string set" where
  "outcome_ids p = {p @ ''/completed'', p @ ''/failed''}"

definition preceded :: "'j ledger_event set \<Rightarrow> string \<Rightarrow> 'j ledger_event \<Rightarrow> bool" where
  "preceded K p e \<longleftrightarrow> (\<exists>r \<in> K. le_event_id r = p @ ''/receipt'' \<and> le_execution_id r = le_execution_id e)"

definition sealed :: "string set \<Rightarrow> 'j ledger_event list \<Rightarrow> bool" where
  "sealed P L \<longleftrightarrow> (\<forall>p \<in> P. \<forall>e \<in> set L. le_event_id e \<in> outcome_ids p \<longrightarrow>
     preceded {r \<in> set L. le_cursor r < le_cursor e} p e)"

lemma sealed_empty [simp]: "sealed {} L" "sealed P []"
  by (simp_all add: sealed_def)

lemma ledger_wf_bound: "ledger_wf L \<Longrightarrow> e \<in> set L \<Longrightarrow> unat (le_cursor e) \<le> length L"
  by (auto simp: ledger_wf_def in_set_conv_nth)

lemma new_cursor_greater:
  assumes "ledger_wf L" and "length L < capacity" and "x \<in> set L"
  shows "le_cursor x < (word_of_nat (Suc (length L)) :: u64)"
proof -
  have "unat (word_of_nat (Suc (length L)) :: u64) = Suc (length L)"
    by (rule unat_word_of_nat) (use assms(2) capacity_less(1) in simp)
  with ledger_wf_bound [OF assms(1,3)] show ?thesis by (simp add: word_less_nat_alt)
qed

text \<open>What may be appended without breaking the seal.\<close>

definition may_append :: "string set \<Rightarrow> 'j ledger_event set \<Rightarrow> 'j ledger_event \<Rightarrow> bool" where
  "may_append P K e \<longleftrightarrow> (\<forall>p \<in> P. le_event_id e \<in> outcome_ids p \<longrightarrow> preceded K p e)"

lemma sealed_snoc:
  assumes L: "ledger_wf L" "length L < capacity" "sealed P L" "K \<subseteq> set L" and e: "may_append P K e"
  shows "sealed P (L @ [e\<lparr>le_cursor := word_of_nat (Suc (length L))\<rparr>])"
proof -
  let ?e = "e\<lparr>le_cursor := word_of_nat (Suc (length L))\<rparr>"
  have "preceded {r \<in> set (L @ [?e]). le_cursor r < le_cursor x} p x"
    if p: "p \<in> P" and x: "x \<in> set (L @ [?e])" and i: "le_event_id x \<in> outcome_ids p" for p x
  proof (cases "x \<in> set L")
    case True
    with L(3) p i have "preceded {r \<in> set L. le_cursor r < le_cursor x} p x" by (simp add: sealed_def)
    then show ?thesis by (auto simp: preceded_def)
  next
    case False
    with x have x: "x = ?e" by simp
    with e p i have "preceded K p x" by (simp add: may_append_def preceded_def)
    moreover have "\<forall>r \<in> K. r \<in> set L \<and> le_cursor r < le_cursor x"
      using L(4) new_cursor_greater [OF L(1,2)] x by auto
    ultimately show ?thesis by (fastforce simp: preceded_def)
  qed
  then show ?thesis by (simp add: sealed_def)
qed

lemma sealed_append:
  assumes "ledger_wf L" "length L < capacity" "sealed P L" "K \<subseteq> set L" and "may_append P K e"
  shows "sealed P (snd (abs_append b L e))"
  using sealed_snoc [OF assms] assms(3) by (simp add: abs_append_def Let_def)

section \<open>Programs under interference\<close>

fun told :: "'j ledger_answer \<Rightarrow> 'j ledger_event set" where
  "told (AnswerEvent (Ok e)) = {e}"
| "told (AnswerPage (Ok es)) = set es"
| "told _ = {}"

fun gained :: "'j ledger_call \<Rightarrow> 'j ledger_answer \<Rightarrow> 'j ledger_event option \<Rightarrow> 'j ledger_event option" where
  "gained (CallAdmit e) (AnswerEvent (Ok e')) own = Some e'"
| "gained _ _ own = own"

text \<open>The ledgers a program may meet, knowing \<open>K\<close>.\<close>

definition possible :: "string set \<Rightarrow> 'j ledger_event set \<Rightarrow> 'j ledger_event list \<Rightarrow> bool" where
  "possible P K L \<longleftrightarrow> ledger_wf L \<and> length L < capacity \<and> sealed P L \<and> K \<subseteq> set L"

text \<open>
  The licence to execute: the program has itself admitted the start of the effect, behind its recorded
  preparation and the recorded authorization by exactly this grant.
\<close>

definition is_fact :: "execution_key \<Rightarrow> string \<Rightarrow> ledger_event_kind \<Rightarrow> 'j ledger_event \<Rightarrow> bool" where
  "is_fact key i kind e \<longleftrightarrow> le_event_id e = i \<and> le_turn_id e = ek_turn_id key
     \<and> le_execution_id e = ek_execution_id key \<and> le_kind e = kind"

definition licensed ::
  "'j effect_codec \<Rightarrow> 'j ledger_event set \<Rightarrow> 'j ledger_event \<Rightarrow> execution_key \<Rightarrow> effect_request \<Rightarrow> effect_grant \<Rightarrow> bool" where
  "licensed C K st key e g \<longleftrightarrow>
     (let p = effect_prefix key (fq_effect_id e) in
      is_fact key (p @ ''/started'') EffectStarted st
      \<and> (\<exists>pr \<in> K. is_fact key (p @ ''/prepared'') EffectPrepared pr \<and> le_payload pr = generic_payload C e
            \<and> le_cursor pr < le_cursor st)
      \<and> (\<exists>au \<in> K. is_fact key (p @ ''/authorized'') EffectAuthorized au \<and> le_payload au = ef_authorization C g
            \<and> le_cursor au < le_cursor st)
      \<and> fg_effect_id g = fq_effect_id e \<and> fg_input_digest g = fq_input_digest e)"

text \<open>A tool is licensed by the recorded evidence of exactly this invocation.\<close>

definition licensed_tool ::
  "'j effect_codec \<Rightarrow> 'j ledger_event set \<Rightarrow> 'j ledger_event \<Rightarrow> execution_key \<Rightarrow> 'j invocation \<Rightarrow> bool" where
  "licensed_tool C K st key iv \<longleftrightarrow>
     (\<exists>bound. evidence_new C (iv_prepared iv) (iv_grant iv) (iv_scope iv) (iv_policy_revision iv) key = Ok bound
      \<and> is_fact key (evidence_prefix bound @ ''/started'') EffectStarted st \<and> le_payload st = started_payload C bound
      \<and> (\<exists>pr \<in> K. is_fact key (evidence_prefix bound @ ''/prepared'') EffectPrepared pr
            \<and> le_payload pr = prepared_payload C bound \<and> le_cursor pr < le_cursor st)
      \<and> (\<exists>au \<in> K. is_fact key (evidence_prefix bound @ ''/authorized'') EffectAuthorized au
            \<and> le_payload au = authorized_payload C bound \<and> le_cursor au < le_cursor st))"

primrec certified ::
  "'j effect_codec \<Rightarrow> string set \<Rightarrow> ('j ledger_event set \<Rightarrow> 'j ledger_event option \<Rightarrow> 'a \<Rightarrow> bool)
   \<Rightarrow> 'j ledger_event set \<Rightarrow> 'j ledger_event option \<Rightarrow> ('j, 'a) prog \<Rightarrow> bool" where
  "certified C P Q K own (Done r) = Q K own r"
| "certified C P Q K own (Ledger c k) =
     ((\<forall>i. c \<noteq> CallClaim i)
      \<and> (\<forall>L. possible P K L \<longrightarrow> sealed P (snd (abs_perform L c))
           \<and> certified C P Q (K \<union> told (fst (abs_perform L c))) (gained c (fst (abs_perform L c)) own)
               (k (fst (abs_perform L c)))))"
| "certified C P Q K own (Decide key e k) = (\<forall>a. certified C P Q K own (k a))"
| "certified C P Q K own (Execute key e g k) =
     ((\<exists>st. own = Some st \<and> licensed C K st key e g) \<and> (\<forall>a. certified C P Q K None (k a)))"
| "certified C P Q K own (RunTool key iv k) =
     ((\<exists>st. own = Some st \<and> licensed_tool C K st key iv) \<and> (\<forall>a. certified C P Q K None (k a)))"
| "certified C P Q K own (Inspect q e g k) = (\<forall>a. certified C P Q K own (k a))"
| "certified C P Q K own (Live q k) = (\<forall>a. certified C P Q K own (k a))"
| "certified C P Q K own (BeforeEffect x k) = (\<forall>a. certified C P Q K own (k a))"
| "certified C P Q K own (Observe x k) = (\<forall>a. certified C P Q K own (k a))"
| "certified C P Q K own (Reprepare x k) = (\<forall>a. certified C P Q K own (k a))"
| "certified C P Q K own (VerifyWait x k) = (\<forall>a. certified C P Q K own (k a))"
| "certified C P Q K own (RecoverWait x k) = (\<forall>a. certified C P Q K own (k a))"

lemma bindp_assoc: "bindp (bindp m f) g = bindp m (\<lambda>a. bindp (f a) g)"
  by (induction m) auto

lemma trying_assoc: "trying (trying m f) g = trying m (\<lambda>a. trying (f a) g)"
  unfolding trying_def bindp_assoc by (rule arg_cong [where f = "bindp m"]) (auto simp: fun_eq_iff split: res.split)

lemma trying_Ok [simp]: "trying (Done (Ok a)) f = f a"
  by (simp add: trying_def)

lemma certified_bindp:
  "certified C P Q K own (bindp m f) \<longleftrightarrow> certified C P (\<lambda>K own r. certified C P Q K own (f r)) K own m"
  by (induction m arbitrary: K own) auto

lemma certified_mono:
  "certified C P Q K own m \<Longrightarrow> (\<And>K own r. Q K own r \<Longrightarrow> R K own r) \<Longrightarrow> certified C P R K own m"
proof (induction m arbitrary: K own)
  case (Ledger c k)
  then show ?case by (simp add: image_def) blast
qed (auto; blast)+

definition followed_by ::
  "('j ledger_event set \<Rightarrow> 'j ledger_event option \<Rightarrow> 'a \<Rightarrow> bool)
   \<Rightarrow> ('j ledger_event set \<Rightarrow> 'j ledger_event option \<Rightarrow> ('e, 'b) res \<Rightarrow> bool)
   \<Rightarrow> 'j ledger_event set \<Rightarrow> 'j ledger_event option \<Rightarrow> ('e, 'a) res \<Rightarrow> bool" where
  "followed_by R Q K own r = (case r of Ok a \<Rightarrow> R K own a | Err e \<Rightarrow> Q K own (Err e) | Panic \<Rightarrow> Q K own Panic)"

lemma followed_by_simps [simp]:
  "followed_by R Q K own (Ok a) = R K own a" "followed_by R Q K own (Err e) = Q K own (Err e)"
  "followed_by R Q K own Panic = Q K own Panic"
  by (simp_all add: followed_by_def)

lemma certified_trying:
  "certified C P Q K own (trying m f) \<longleftrightarrow>
     certified C P (followed_by (\<lambda>K own a. certified C P Q K own (f a)) Q) K own m"
  unfolding trying_def certified_bindp
  by (rule arg_cong [where f = "\<lambda>R. certified C P R K own m"]) (auto simp: fun_eq_iff followed_by_def split: res.split)

lemma certified_trying_Done [simp]:
  "certified C P Q K own (trying (Done r) f) \<longleftrightarrow> followed_by (\<lambda>K own a. certified C P Q K own (f a)) Q K own r"
  by (simp add: certified_trying)

text \<open>The calls of the ledger.\<close>

lemma find_filter_take: "(case take 1 (filter R xs) of [] \<Rightarrow> None | e # _ \<Rightarrow> Some e) = find R xs"
  by (induction xs) auto

lemma id_page:
  assumes "ledger_wf L"
  shows "checked_page (id_query i) (Ok (take (lq_limit (id_query i)) (filter (query_matches (id_query i)) L)))
    = Ok (take 1 (filter (\<lambda>e. le_event_id e = i) L))"
proof -
  have f: "filter (query_matches (id_query i)) L = filter (\<lambda>e. le_event_id e = i) L"
    by (rule filter_cong) (auto simp: query_matches_def none_or_def id_query_def cursor_positive [OF assms])
  let ?page = "take (lq_limit (id_query i)) (filter (query_matches (id_query i)) L)"
  have "sorted_wrt (\<lambda>x y. le_cursor x < le_cursor y) ?page"
    by (intro sorted_wrt_take sorted_wrt_filter ledger_wf_ascending assms)
  moreover have "\<forall>e \<in> set ?page. query_matches (id_query i) e \<and> lq_after (id_query i) < le_cursor e"
    by (auto dest!: in_set_takeD simp: query_matches_def)
  ultimately have "check_ascending (id_query i) (lq_after (id_query i)) ?page = Ok ()" by (rule check_ascending_sorted)
  then show ?thesis by (simp add: checked_page_def f) (simp add: id_query_def)
qed

lemma certified_find:
  assumes "i \<noteq> []" and "Q K own (Ok None)"
    and "\<And>e L. possible P K L \<Longrightarrow> e \<in> set L \<Longrightarrow> le_event_id e = i \<Longrightarrow> Q (insert e K) own (Ok (Some e))"
  shows "certified C P Q K own (find_event wrap i)"
proof -
  have valid: "query_validate (id_query i) = Ok ()" using assms(1) by (simp add: query_validate_def id_query_def)
  have "Q (K \<union> set (take 1 (filter (\<lambda>e. le_event_id e = i) L))) own (Ok (find (\<lambda>e. le_event_id e = i) L))"
    if L: "possible P K L" for L
  proof (cases "filter (\<lambda>e. le_event_id e = i) L")
    case Nil
    then have "find (\<lambda>e. le_event_id e = i) L = None" by (metis find_None_iff filter_empty_conv)
    with Nil assms(2) show ?thesis by simp
  next
    case (Cons e es)
    then have "e \<in> set (filter (\<lambda>e. le_event_id e = i) L)" by simp
    then have e: "e \<in> set L" "le_event_id e = i" by auto
    have "find (\<lambda>e. le_event_id e = i) L = Some e" using find_filter_take [of "\<lambda>e. le_event_id e = i" L] Cons by simp
    with Cons assms(3) [OF L e] show ?thesis by simp
  qed
  moreover have "told (AnswerPage (Ok (take (lq_limit (id_query i)) (filter (query_matches (id_query i)) L))))
      = set (take 1 (filter (\<lambda>e. le_event_id e = i) L))" if "possible P K L" for L
    using id_page [of L i] that by (simp add: possible_def checked_page_def res_simps)
  moreover have "checked_page (id_query i) (Ok (take (lq_limit (id_query i)) (filter (query_matches (id_query i)) L)))
      = Ok (take 1 (filter (\<lambda>e. le_event_id e = i) L))" if "possible P K L" for L
    using id_page [of L i] that by (simp add: possible_def)
  ultimately show ?thesis
    by (simp add: find_event_def valid find_filter_take [unfolded One_nat_def] possible_def)
qed

lemma certified_append:
  assumes "may_append P K e" and "\<And>er. Q K own (Err er)"
    and "\<And>c. \<forall>x \<in> K. le_cursor x < c \<Longrightarrow> Q (insert (e\<lparr>le_cursor := c\<rparr>) K) own (Ok (e\<lparr>le_cursor := c\<rparr>))"
  shows "certified C P Q K own (append_event e)"
proof -
  have "Q (insert (e\<lparr>le_cursor := word_of_nat (Suc (length L))\<rparr>) K) own (Ok (e\<lparr>le_cursor := word_of_nat (Suc (length L))\<rparr>))"
    if "possible P K L" for L
    by (rule assms(3)) (use new_cursor_greater that in \<open>auto simp: possible_def\<close>)
  moreover have "sealed P (snd (abs_append False L e))" if "possible P K L" for L
    using sealed_append assms(1) that unfolding possible_def by blast
  ultimately show ?thesis using assms(2) by (simp add: append_event_def abs_append_def Let_def)
qed

lemma certified_admit:
  assumes "may_append P K e" and "\<And>er. Q K own (Err er)"
    and "\<And>c. \<forall>x \<in> K. le_cursor x < c \<Longrightarrow> Q (insert (e\<lparr>le_cursor := c\<rparr>) K) (Some (e\<lparr>le_cursor := c\<rparr>)) (Ok (e\<lparr>le_cursor := c\<rparr>))"
  shows "certified C P Q K own (admit_event e)"
proof -
  have "Q (insert (e\<lparr>le_cursor := word_of_nat (Suc (length L))\<rparr>) K) (Some (e\<lparr>le_cursor := word_of_nat (Suc (length L))\<rparr>))
      (Ok (e\<lparr>le_cursor := word_of_nat (Suc (length L))\<rparr>))"
    if "possible P K L" for L
    by (rule assms(3)) (use new_cursor_greater that in \<open>auto simp: possible_def\<close>)
  moreover have "sealed P (snd (abs_append True L e))" if "possible P K L" for L
    using sealed_append assms(1) that unfolding possible_def by blast
  ultimately show ?thesis using assms(2) by (simp add: admit_event_def abs_append_def Let_def)
qed

lemma certified_history:
  assumes "Q K own (Err (wrap InvalidQuery))"
    and "\<And>L. possible P K L \<Longrightarrow> Q (K \<union> {e \<in> set L. le_execution_id e = x}) own (Ok (filter (\<lambda>e. le_execution_id e = x) L))"
  shows "certified C P Q K own (execution_history wrap x)"
proof -
  have "filter (\<lambda>e. le_execution_id e = x \<and> 0 < le_cursor e) L = filter (\<lambda>e. le_execution_id e = x) L"
    if "possible P K L" for L
    by (rule filter_cong) (use that cursor_positive in \<open>auto simp: possible_def\<close>)
  with assms show ?thesis by (simp add: execution_history_def possible_def)
qed

end
