(* ===== verification/Effect_Pool.thy ===== *)
theory Effect_Pool
  imports Effect_Rules
begin

text \<open>
  Any number of operations run on one ledger. A pool has the operations in flight as programs; a step
  starts one, lets one make its next call, lets one fail at any point as a crash does, or is an
  arbitrary call of someone else to the ledger. The history has what was executed and what was returned.
\<close>

section \<open>Pools\<close>

datatype 'j effect_call =
    StartCall execution_key | CancelCall execution_key | StatusCall execution_key
  | ApplyCall execution_key effect_request | ReconcileCall reconciliation_request | ProofCall proof_request
  | ToolCall durable_tools "'j invocation" | BoundaryCall boundary_control string boundary_kind
  | TurnCancelCall execution_key | TurnErrorCall execution_key turn_error

datatype 'j effect_return =
    UnitReturn "(runtime_error, unit) res" | StatusReturn "(runtime_error, execution_status option) res"
  | ApplyReturn "(runtime_error, 'j disposition) res" | ReconcileReturn "(driver_error, resolution) res"
  | ProofReturn "(proof_error, 'j effect_proof) res" | ToolReturn "(tool_error, 'j tool_outcome) res"
  | BoundaryReturn "(turn_error, unit) res" | DriverReturn "(driver_error, unit) res"

fun call_program :: "'j effect_codec \<Rightarrow> 'j effect_call \<Rightarrow> ('j, 'j effect_return) prog" where
  "call_program C (StartCall key) = bindp (start_execution C key) (\<lambda>r. Done (UnitReturn r))"
| "call_program C (CancelCall key) = bindp (cancel_execution C key) (\<lambda>r. Done (UnitReturn r))"
| "call_program C (StatusCall key) = bindp (execution_status key) (\<lambda>r. Done (StatusReturn r))"
| "call_program C (ApplyCall key e) = bindp (apply_effect C key e) (\<lambda>r. Done (ApplyReturn r))"
| "call_program C (ReconcileCall q) = bindp (reconcile_tool_effect C q) (\<lambda>r. Done (ReconcileReturn r))"
| "call_program C (ProofCall q) = bindp (inspect_effect_proof C q) (\<lambda>r. Done (ProofReturn r))"
| "call_program C (ToolCall D iv) = bindp (invoke_tool C D iv) (\<lambda>r. Done (ToolReturn r))"
| "call_program C (BoundaryCall B i b) = bindp (admit_turn_boundary C B i b) (\<lambda>r. Done (BoundaryReturn r))"
| "call_program C (TurnCancelCall key) = bindp (cancel_turn C key) (\<lambda>r. Done (DriverReturn r))"
| "call_program C (TurnErrorCall key e) = bindp (persist_error C key e) (\<lambda>r. Done (DriverReturn r))"

text \<open>The ports may give any answer; those of the executors are executions.\<close>

inductive asks :: "('j, 'a) prog \<Rightarrow> ('j, 'a) prog \<Rightarrow> bool" where
  "asks (Decide key e k) (k a)"
| "asks (Inspect q e g k) (k b)"
| "asks (Live x k) (k c)"
| "asks (BeforeEffect hx k) (k d)"
| "asks (Observe ob k) (k u)"
| "asks (Reprepare tc k) (k p)"
| "asks (VerifyWait w k) (k v)"
| "asks (RecoverWait ia k) (k r)"

datatype 'j occurrence =
    Ran execution_key effect_request effect_grant | RanTool execution_key "'j invocation"
  | Returned "'j effect_call" "'j effect_return"

type_synonym 'j in_flight = "nat \<Rightarrow> ('j effect_call \<times> ('j, 'j effect_return) prog) option"

inductive pool ::
  "('s, 'j) ledger_ops \<Rightarrow> 'j effect_codec \<Rightarrow> ('j effect_call \<Rightarrow> bool) \<Rightarrow> ('j ledger_call \<Rightarrow> bool) \<Rightarrow> 's
   \<Rightarrow> nat \<Rightarrow> 's \<Rightarrow> 'j in_flight \<Rightarrow> 'j occurrence list \<Rightarrow> bool"
  for ops C calls others s0 where
  empty: "pool ops C calls others s0 0 s0 (\<lambda>_. None) []"
| call: "pool ops C calls others s0 n s ps h \<Longrightarrow> ps i = None \<Longrightarrow> calls c \<Longrightarrow>
    pool ops C calls others s0 (Suc n) s (ps(i := Some (c, call_program C c))) h"
| ledger: "pool ops C calls others s0 n s ps h \<Longrightarrow> ps i = Some (c, Ledger x k) \<Longrightarrow> perform ops s x = (a, s') \<Longrightarrow>
    pool ops C calls others s0 (Suc n) s' (ps(i := Some (c, k a))) h"
| port: "pool ops C calls others s0 n s ps h \<Longrightarrow> ps i = Some (c, p) \<Longrightarrow> asks p p' \<Longrightarrow>
    pool ops C calls others s0 (Suc n) s (ps(i := Some (c, p'))) h"
| execute: "pool ops C calls others s0 n s ps h \<Longrightarrow> ps i = Some (c, Execute key e g k) \<Longrightarrow>
    pool ops C calls others s0 (Suc n) s (ps(i := Some (c, k outcome))) (h @ [Ran key e g])"
| run_tool: "pool ops C calls others s0 n s ps h \<Longrightarrow> ps i = Some (c, RunTool key iv k) \<Longrightarrow>
    pool ops C calls others s0 (Suc n) s (ps(i := Some (c, k result))) (h @ [RanTool key iv])"
| return: "pool ops C calls others s0 n s ps h \<Longrightarrow> ps i = Some (c, Done r) \<Longrightarrow>
    pool ops C calls others s0 (Suc n) s (ps(i := None)) (h @ [Returned c r])"
| crash: "pool ops C calls others s0 n s ps h \<Longrightarrow> pool ops C calls others s0 (Suc n) s (ps(i := None)) h"
| other: "pool ops C calls others s0 n s ps h \<Longrightarrow> others x \<Longrightarrow> perform ops s x = (a, s') \<Longrightarrow>
    pool ops C calls others s0 (Suc n) s' ps h"

section \<open>Soundness of the calculus\<close>

definition invocation_effect :: "'j invocation \<Rightarrow> string" where
  "invocation_effect iv = sc_step_id (iv_scope iv) @ ''/'' @ cl_id (pc_call (iv_prepared iv))"

fun ran_ids :: "'j occurrence list \<Rightarrow> string list" where
  "ran_ids [] = []"
| "ran_ids (RanTool key iv # h) = (effect_prefix key (invocation_effect iv) @ ''/started'') # ran_ids h"
| "ran_ids (Ran key e g # h) = (effect_prefix key (fq_effect_id e) @ ''/started'') # ran_ids h"
| "ran_ids (Returned c r # h) = ran_ids h"

lemma ran_ids_append [simp]: "ran_ids (h @ h') = ran_ids h @ ran_ids h'"
  by (induction h rule: ran_ids.induct) auto

text \<open>No cancellation of the execution is recorded before the event.\<close>

definition uncancelled :: "'j ledger_event list \<Rightarrow> 'j ledger_event \<Rightarrow> bool" where
  "uncancelled L st \<longleftrightarrow> st \<in> set L
     \<and> (\<forall>x \<in> set L. le_kind x = ExecutionCancelled \<and> le_execution_id x = le_execution_id st \<longrightarrow> le_cursor st \<le> le_cursor x)"

lemma uncancelled_snoc:
  assumes "ledger_wf L" "length L < capacity" "uncancelled L st"
  shows "uncancelled (L @ [e\<lparr>le_cursor := word_of_nat (Suc (length L))\<rparr>]) st"
  using assms new_cursor_greater [OF assms(1,2), of st] by (auto simp: uncancelled_def order_less_imp_le)

lemma uncancelled_perform:
  assumes "ledger_wf L" "length L < capacity" "uncancelled L st"
  shows "uncancelled (snd (abs_perform L x)) st"
proof -
  have "uncancelled (snd (abs_append b L e)) st" for b e
    using uncancelled_snoc [OF assms] assms(3) by (simp add: abs_append_def Let_def)
  with assms(3) show ?thesis by (cases x) simp_all
qed

text \<open>A start that was admitted is new, and nothing had cancelled its execution.\<close>

lemma gained_new:
  assumes L: "ledger_wf L" "length L < capacity" and g: "gained x (fst (abs_perform L x)) own = Some st" "own \<noteq> Some st"
  shows "st \<in> set (snd (abs_perform L x)) \<and> uncancelled (snd (abs_perform L x)) st \<and> le_event_id st \<notin> le_event_id ` set L"
proof (cases x)
  case (CallAdmit e)
  show ?thesis
  proof (cases "\<not> is_cancelled (le_execution_id e) L \<and> \<not> has_conflict e L")
    case True
    let ?e = "e\<lparr>le_cursor := word_of_nat (Suc (length L))\<rparr>"
    from True g CallAdmit have st: "st = ?e" and s: "snd (abs_perform L x) = L @ [?e]"
      by (auto simp: abs_append_def Let_def)
    have "le_event_id st \<notin> le_event_id ` set L" using True by (auto simp: st has_conflict_def)
    moreover have "uncancelled (L @ [?e]) st"
      using True by (cases "le_kind e = ExecutionCancelled") (auto simp: st uncancelled_def is_cancelled_def)
    ultimately show ?thesis by (simp add: s st)
  next
    case False
    with g CallAdmit show ?thesis by (auto simp: abs_append_def split: if_splits)
  qed
qed (use g in auto)

lemma gained_old: "gained x a own = own \<or> (\<exists>e st. x = CallAdmit e \<and> a = AnswerEvent (Ok st) \<and> gained x a own = Some st)"
  by (cases "(x, a, own)" rule: gained.cases) auto

text \<open>What holds of a pool: \<open>K\<close> and \<open>own\<close> are what each operation knows and holds.\<close>

definition pool_ok ::
  "'j effect_codec \<Rightarrow> string set \<Rightarrow> ('j effect_call \<Rightarrow> 'j ledger_event set \<Rightarrow> 'j ledger_event option \<Rightarrow> 'j effect_return \<Rightarrow> bool)
   \<Rightarrow> (nat \<Rightarrow> 'j ledger_event set) \<Rightarrow> (nat \<Rightarrow> 'j ledger_event option) \<Rightarrow> 'j ledger_event list \<Rightarrow> 'j in_flight
   \<Rightarrow> 'j occurrence list \<Rightarrow> bool" where
  "pool_ok C P Q K own L ps h \<longleftrightarrow>
     (\<forall>i c p. ps i = Some (c, p) \<longrightarrow> certified C P (Q c) (K i) (own i) p)
   \<and> (\<forall>i. K i \<subseteq> set L)
   \<and> (\<forall>i st. own i = Some st \<longrightarrow> uncancelled L st \<and> le_event_id st \<notin> set (ran_ids h))
   \<and> (\<forall>i j st. own i = Some st \<longrightarrow> own j = Some st \<longrightarrow> i = j)
   \<and> distinct (ran_ids h) \<and> set (ran_ids h) \<subseteq> le_event_id ` set L
   \<and> (\<forall>key e g. Ran key e g \<in> set h \<longrightarrow> (\<exists>st. uncancelled L st \<and> licensed C (set L) st key e g))
   \<and> (\<forall>key iv. RanTool key iv \<in> set h \<longrightarrow> (\<exists>st. uncancelled L st \<and> licensed_tool C (set L) st key iv))
   \<and> (\<forall>c r. Returned c r \<in> set h \<longrightarrow> (\<exists>K own. K \<subseteq> set L \<and> Q c K own r))"

lemma licensed_mono: "licensed C K st key e g \<Longrightarrow> K \<subseteq> K' \<Longrightarrow> licensed C K' st key e g"
  unfolding licensed_def Let_def by blast

lemma licensed_tool_mono: "licensed_tool C K st key iv \<Longrightarrow> K \<subseteq> K' \<Longrightarrow> licensed_tool C K' st key iv"
  unfolding licensed_tool_def by blast

lemma evidence_new_binds:
  assumes "evidence_new C p g s policy key = Ok bound"
  shows "fq_effect_id (pv_request bound) = sc_step_id s @ ''/'' @ cl_id (pc_call p)"
    "evidence_prefix bound = effect_prefix key (fq_effect_id (pv_request bound))"
    "pv_prepared bound = p" "pv_scope bound = s" "pv_grant bound = g" "fq_policy_revision (pv_request bound) = policy"
    "sc_execution s = key" "fg_authorization_id (pv_authorization bound) = evidence_prefix bound @ ''/authorized''"
  using assms by (auto simp: evidence_new_def evidence_prefix_def effect_prefix_def res_simps Let_def split: if_splits)

lemma licensed_tool_id:
  "licensed_tool C K st key iv \<Longrightarrow> le_event_id st = effect_prefix key (invocation_effect iv) @ ''/started''"
  by (auto simp: licensed_tool_def is_fact_def invocation_effect_def evidence_new_binds)

lemma told_known:
  assumes "\<forall>i. x \<noteq> CallClaim i"
  shows "told (fst (abs_perform L x)) \<subseteq> set (snd (abs_perform L x))"
proof -
  have "told (AnswerPage (andthen (query_validate q) (Ok (take n (filter R L))))) \<subseteq> set L" for q n R
    by (cases "query_validate q") (auto dest: in_set_takeD)
  with assms show ?thesis by (cases x) (auto simp: abs_append_def Let_def split: if_splits)
qed

lemma abs_perform_grows: "set L \<subseteq> set (snd (abs_perform L x))"
  using abs_perform_prefix [of L x] by auto

lemma distinct_ids_own:
  assumes "ledger_wf L" and "x \<in> set L" "y \<in> set L" and "le_event_id x = le_event_id y"
  shows "x = y"
proof -
  from assms(2,3) obtain i j where "i < length L" "j < length L" "x = L ! i" "y = L ! j" by (metis in_set_conv_nth)
  with assms(1,4) have "i = j" by (auto simp: ledger_wf_def distinct_conv_nth)
  with \<open>x = L ! i\<close> \<open>y = L ! j\<close> show ?thesis by simp
qed

text \<open>A call to the ledger, by an operation of the pool or by others.\<close>

lemma pool_ok_foreign:
  assumes ok: "pool_ok C P Q K own L ps h" and L: "ledger_wf L" "length L < capacity"
  shows "pool_ok C P Q K own (snd (abs_perform L x)) ps h"
  using assms abs_perform_grows [of L x] uncancelled_perform [OF L, of _ x]
  unfolding pool_ok_def by (meson image_mono licensed_mono licensed_tool_mono order_trans)

lemma pool_ok_ledger:
  assumes ok: "pool_ok C P Q K own L ps h" and L: "ledger_wf L" "length L < capacity" "sealed P L"
    and i: "ps i = Some (c, Ledger x k)"
  shows "pool_ok C P Q (K(i := K i \<union> told (fst (abs_perform L x)))) (own(i := gained x (fst (abs_perform L x)) (own i)))
      (snd (abs_perform L x)) (ps(i := Some (c, k (fst (abs_perform L x))))) h"
proof -
  let ?a = "fst (abs_perform L x)" and ?L = "snd (abs_perform L x)"
  from ok i have cert: "certified C P (Q c) (K i) (own i) (Ledger x k)" and K: "K i \<subseteq> set L"
    unfolding pool_ok_def by blast+
  then have p: "certified C P (Q c) (K i \<union> told ?a) (gained x ?a (own i)) (k ?a)"
    and noclaim: "\<forall>j. x \<noteq> CallClaim j" using L by (auto simp: possible_def)
  have ok': "pool_ok C P Q K own ?L ps h" by (rule pool_ok_foreign [OF ok L(1,2)])
  have K': "K i \<union> told ?a \<subseteq> set ?L" using K abs_perform_grows [of L x] told_known [OF noclaim] by blast
  show ?thesis
  proof (cases "gained x ?a (own i) = own i")
    case True
    then show ?thesis using ok' p K' unfolding pool_ok_def by (simp add: fun_upd_idem)
  next
    case False
    with gained_old obtain st where st: "gained x ?a (own i) = Some st" by metis
    with False gained_new [OF L(1,2) st] have new: "uncancelled ?L st" "le_event_id st \<notin> le_event_id ` set L" by auto
    have "own j \<noteq> Some st" for j
      using ok new(2) unfolding pool_ok_def uncancelled_def by (meson imageI)
    moreover have "le_event_id st \<notin> set (ran_ids h)" using ok new(2) unfolding pool_ok_def by blast
    ultimately show ?thesis using ok' p K' new(1) unfolding st pool_ok_def by (auto split: if_splits)
  qed
qed

text \<open>An execution spends the start that licenses it.\<close>

lemma pool_ok_spend:
  assumes ok: "pool_ok C P Q K own L ps h" and L: "ledger_wf L" and i: "ps i = Some (c, p)"
    and st: "own i = Some st" and rest: "certified C P (Q c) (K i) None p'" and sid: "ran_ids [run] = [le_event_id st]"
    and licence: "\<And>key e g. run = Ran key e g \<Longrightarrow> licensed C (K i) st key e g"
      "\<And>key iv. run = RanTool key iv \<Longrightarrow> licensed_tool C (K i) st key iv"
  shows "pool_ok C P Q K (own(i := None)) L (ps(i := Some (c, p'))) (h @ [run])"
proof -
  have K: "K i \<subseteq> set L" using ok unfolding pool_ok_def by blast
  from ok st have u: "uncancelled L st" and fresh: "le_event_id st \<notin> set (ran_ids h)" unfolding pool_ok_def by blast+
  have "le_event_id st' \<noteq> le_event_id st" if "own j = Some st'" "j \<noteq> i" for j st'
  proof
    assume "le_event_id st' = le_event_id st"
    moreover have "st' \<in> set L" "st \<in> set L" using ok that(1) u unfolding pool_ok_def uncancelled_def by blast+
    ultimately have "st' = st" using distinct_ids_own [OF L] by blast
    with ok st that show False unfolding pool_ok_def by blast
  qed
  moreover have ids: "set (ran_ids (h @ [run])) = insert (le_event_id st) (set (ran_ids h))" "ran_ids (h @ [run]) = ran_ids h @ [le_event_id st]"
    by (auto simp: sid)
  ultimately have starts: "uncancelled L st' \<and> le_event_id st' \<notin> set (ran_ids (h @ [run]))" if "(own(i := None)) j = Some st'" for j st'
    using that ok unfolding pool_ok_def by (auto split: if_splits)
  have "le_event_id st \<in> le_event_id ` set L" using u by (auto simp: uncancelled_def)
  with ok fresh have ran: "distinct (ran_ids (h @ [run]))" "set (ran_ids (h @ [run])) \<subseteq> le_event_id ` set L"
    unfolding ids pool_ok_def by auto
  have "run \<noteq> Returned c' r" for c' r using sid by auto
  with ok have returned: "\<exists>K own. K \<subseteq> set L \<and> Q c' K own r" if "Returned c' r \<in> set (h @ [run])" for c' r
    using that unfolding pool_ok_def by auto
  have generic: "\<exists>st. uncancelled L st \<and> licensed C (set L) st key e g" if "Ran key e g \<in> set (h @ [run])" for key e g
    using that ok licensed_mono [OF licence(1) K] u unfolding pool_ok_def by auto
  have tool: "\<exists>st. uncancelled L st \<and> licensed_tool C (set L) st key iv" if "RanTool key iv \<in> set (h @ [run])" for key iv
    using that ok licensed_tool_mono [OF licence(2) K] u unfolding pool_ok_def by auto
  have programs: "certified C P (Q c') (K j) ((own(i := None)) j) q" if "(ps(i := Some (c, p'))) j = Some (c', q)" for j c' q
    using that ok rest unfolding pool_ok_def by (cases "j = i") auto
  have unique: "j = j'" if "(own(i := None)) j = Some st'" "(own(i := None)) j' = Some st'" for j j' st'
    using that ok unfolding pool_ok_def by (auto split: if_splits)
  show ?thesis
    unfolding pool_ok_def using ok programs starts unique ran generic tool returned by (auto simp only: pool_ok_def)
qed

lemma pool_ok_execute:
  assumes ok: "pool_ok C P Q K own L ps h" and L: "ledger_wf L" and i: "ps i = Some (c, Execute key e g k)"
  shows "pool_ok C P Q K (own(i := None)) L (ps(i := Some (c, k outcome))) (h @ [Ran key e g])"
proof -
  from ok i have cert: "certified C P (Q c) (K i) (own i) (Execute key e g k)" unfolding pool_ok_def by blast
  then obtain st where st: "own i = Some st" and licence: "licensed C (K i) st key e g"
    and rest: "certified C P (Q c) (K i) None (k outcome)" by auto
  have "ran_ids [Ran key e g] = [le_event_id st]" using licence by (simp add: licensed_def is_fact_def Let_def)
  from pool_ok_spend [OF ok L i st rest this] licence show ?thesis by simp
qed

lemma pool_ok_run_tool:
  assumes ok: "pool_ok C P Q K own L ps h" and L: "ledger_wf L" and i: "ps i = Some (c, RunTool key iv k)"
  shows "pool_ok C P Q K (own(i := None)) L (ps(i := Some (c, k result))) (h @ [RanTool key iv])"
proof -
  from ok i have cert: "certified C P (Q c) (K i) (own i) (RunTool key iv k)" unfolding pool_ok_def by blast
  then obtain st where st: "own i = Some st" and licence: "licensed_tool C (K i) st key iv"
    and rest: "certified C P (Q c) (K i) None (k result)" by auto
  have "ran_ids [RanTool key iv] = [le_event_id st]" using licensed_tool_id [OF licence] by simp
  from pool_ok_spend [OF ok L i st rest this] licence show ?thesis by simp
qed

lemma asks_certified: "asks p p' \<Longrightarrow> certified C P Q K own p \<Longrightarrow> certified C P Q K own p'"
  by (induction rule: asks.induct) auto

lemma pool_ok_call:
  assumes "pool_ok C P Q K own L ps h" and "certified C P (Q c) {} None p"
  shows "pool_ok C P Q (K(i := {})) (own(i := None)) L (ps(i := Some (c, p))) h"
  using assms unfolding pool_ok_def by (auto split: if_splits)

lemma pool_ok_resume:
  assumes "pool_ok C P Q K own L ps h" and "ps i = Some (c, p)"
    and "certified C P (Q c) (K i) (own i) p \<Longrightarrow> certified C P (Q c) (K i) (own i) p'"
  shows "pool_ok C P Q K own L (ps(i := Some (c, p'))) h"
  using assms unfolding pool_ok_def by auto

lemma pool_ok_return:
  assumes ok: "pool_ok C P Q K own L ps h" and i: "ps i = Some (c, Done r)"
  shows "pool_ok C P Q K own L (ps(i := None)) (h @ [Returned c r])"
proof -
  from ok i have "certified C P (Q c) (K i) (own i) (Done r)" "K i \<subseteq> set L" unfolding pool_ok_def by blast+
  then have "\<exists>K own. K \<subseteq> set L \<and> Q c K own r" by auto
  with ok show ?thesis unfolding pool_ok_def by auto
qed

lemma pool_ok_crash: "pool_ok C P Q K own L ps h \<Longrightarrow> pool_ok C P Q K own L (ps(i := None)) h"
  unfolding pool_ok_def by auto

context ledger_store
begin

lemma pool_sound:
  assumes "pool ops C calls others s0 n s ps h" and "linv s0" "sealed P (events s0)" "length (events s0) + n \<le> capacity"
    and calls: "\<And>c. calls c \<Longrightarrow> certified C P (Q c) {} None (call_program C c)"
    and others: "\<And>x L. others x \<Longrightarrow> ledger_wf L \<Longrightarrow> length L < capacity \<Longrightarrow> sealed P L \<Longrightarrow> sealed P (snd (abs_perform L x))"
  shows "linv s \<and> sealed P (events s) \<and> length (events s) \<le> length (events s0) + n
    \<and> (\<exists>K own. pool_ok C P Q K own (events s) ps h)"
  using assms(1-4)
proof (induction rule: pool.induct)
  case empty
  have "pool_ok C P Q (\<lambda>_. {}) (\<lambda>_. None) (events s0) (\<lambda>_. None) []" by (simp add: pool_ok_def)
  with empty show ?case by auto
next
  case (call n s ps h i c)
  then obtain K own where ok: "pool_ok C P Q K own (events s) ps h" by auto
  have "pool_ok C P Q (K(i := {})) (own(i := None)) (events s) (ps(i := Some (c, call_program C c))) h"
    by (rule pool_ok_call [OF ok calls [OF call.hyps(3)]])
  moreover have "linv s \<and> sealed P (events s) \<and> length (events s) \<le> length (events s0) + Suc n" using call by simp
  ultimately show ?case by blast
next
  case (ledger n s ps h i c x k a s')
  from ledger have inv: "linv s" "sealed P (events s)" and len: "length (events s) \<le> length (events s0) + n" by simp_all
  with ledger have cap: "length (events s) < capacity" by simp
  from ledger obtain K own where ok: "pool_ok C P Q K own (events s) ps h" by auto
  from ok ledger.hyps(2) have cert: "certified C P (Q c) (K i) (own i) (Ledger x k)" and K: "K i \<subseteq> set (events s)"
    unfolding pool_ok_def by blast+
  then have noclaim: "\<forall>j. x \<noteq> CallClaim j" and seal: "sealed P (snd (abs_perform (events s) x))"
    using wf [OF inv(1)] cap inv(2) by (auto simp: possible_def)
  from perform_ok [OF inv(1) cap, of x] noclaim ledger.hyps(3)
  have s': "linv s'" "events s' = snd (abs_perform (events s) x)" and a: "a = fst (abs_perform (events s) x)" by auto
  have "linv s' \<and> sealed P (events s') \<and> length (events s') \<le> length (events s0) + Suc n"
    using s' seal len abs_perform_length [of "events s" x] by simp
  with pool_ok_ledger [OF ok wf [OF inv(1)] cap inv(2) ledger.hyps(2)] show ?case unfolding s'(2) a by blast
next
  case (port n s ps h i c p p')
  then obtain K own where "pool_ok C P Q K own (events s) ps h" by auto
  then have "pool_ok C P Q K own (events s) (ps(i := Some (c, p'))) h"
    by (rule pool_ok_resume [where p = p]) (use port.hyps in \<open>simp_all add: asks_certified\<close>)
  moreover have "linv s \<and> sealed P (events s) \<and> length (events s) \<le> length (events s0) + Suc n" using port by simp
  ultimately show ?case by blast
next
  case (run_tool n s ps h i c key iv k result)
  then obtain K own where ok: "pool_ok C P Q K own (events s) ps h" and "linv s" by auto
  note pool_ok_run_tool [OF ok wf [OF this(2)] run_tool.hyps(2), of result]
  moreover have "linv s \<and> sealed P (events s) \<and> length (events s) \<le> length (events s0) + Suc n" using run_tool by simp
  ultimately show ?case by blast
next
  case (execute n s ps h i c key e g k outcome)
  then obtain K own where ok: "pool_ok C P Q K own (events s) ps h" and "linv s" by auto
  note pool_ok_execute [OF ok wf [OF this(2)] execute.hyps(2), of outcome]
  moreover have "linv s \<and> sealed P (events s) \<and> length (events s) \<le> length (events s0) + Suc n" using execute by simp
  ultimately show ?case by blast
next
  case (return n s ps h i c r)
  then obtain K own where "pool_ok C P Q K own (events s) ps h" by auto
  note pool_ok_return [OF this return.hyps(2)]
  moreover have "linv s \<and> sealed P (events s) \<and> length (events s) \<le> length (events s0) + Suc n" using return by simp
  ultimately show ?case by blast
next
  case (crash n s ps h i)
  then obtain K own where "pool_ok C P Q K own (events s) ps h" by auto
  note pool_ok_crash [OF this, of i]
  moreover have "linv s \<and> sealed P (events s) \<and> length (events s) \<le> length (events s0) + Suc n" using crash by simp
  ultimately show ?case by blast
next
  case (other n s ps h x a s')
  from other have inv: "linv s" "sealed P (events s)" and len: "length (events s) \<le> length (events s0) + n" by simp_all
  with other have cap: "length (events s) < capacity" by simp
  from other obtain K own where ok: "pool_ok C P Q K own (events s) ps h" by auto
  from perform_ok [OF inv(1) cap, of x] other.hyps(3)
  have s': "linv s'" "events s' = snd (abs_perform (events s) x)" by auto
  from pool_ok_foreign [OF ok wf [OF inv(1)] cap, of x] s' others [OF other.hyps(2) wf [OF inv(1)] cap inv(2)] len
    abs_perform_length [of "events s" x]
  show ?case by auto
qed

end

end
