(* ===== verification/Effect_Laws.thy ===== *)
theory Effect_Laws
  imports Effect_Receipt "HOL-Library.AList"
begin

text \<open>
  What \<open>serde_json\<close> promises of the values in the evidence of an effect, as far as the reading back of
  a written record rests on it, and the round trip of receipts.
\<close>

text \<open>The members of a request; a reading of it ignores any other.\<close>

definition request_members :: "string set" where
  "request_members = {''effect_id'', ''operation_kind'', ''input_digest'', ''requirements'', ''policy_revision''}"

definition lawful :: "'j effect_codec \<Rightarrow> bool" where
  "lawful C \<longleftrightarrow>
     (\<forall>es k. distinct (map fst es) \<longrightarrow> ef_get C (ef_object C es) k = map_of es k)
   \<and> (\<forall>es k x. distinct (map fst es) \<longrightarrow> ef_with C (ef_object C es) k x = ef_object C (AList.update k x es))
   \<and> (\<forall>r. \<exists>es. ef_request C r = ef_object C es \<and> distinct (map fst es))
   \<and> (\<forall>g. \<exists>es. ef_authorization C g = ef_object C es \<and> distinct (map fst es))
   \<and> (\<forall>r k k' x y. k \<notin> request_members \<longrightarrow> k' \<notin> request_members \<longrightarrow>
        ef_as_request C (ef_with C (ef_with C (ef_request C r) k x) k' y) = Some r)
   \<and> (\<forall>p. ef_as_prepared C (ef_prepared C p) = Some p)
   \<and> (\<forall>s. ef_as_scope C (ef_scope C s) = Some s)
   \<and> (\<forall>g. ef_as_grant C (ef_grant C g) = Some g)
   \<and> (\<forall>s. ef_as_str C (ef_text C s) = Some s)
   \<and> (\<forall>r. ef_as_receipt C (ef_receipt C r) = Some r)
   \<and> (\<forall>r. ef_as_result C (ef_result C r) = Some r)
   \<and> (\<forall>q. ef_as_rc_request C (ef_rc_request C q) = Some q)
   \<and> (\<forall>r. ef_as_resolution C (ef_resolution C r) = Some r)"

lemma lawful_simps:
  assumes "lawful C"
  shows "distinct (map fst es) \<Longrightarrow> ef_get C (ef_object C es) k = map_of es k"
    "distinct (map fst es) \<Longrightarrow> ef_with C (ef_object C es) k x = ef_object C (AList.update k x es)"
    "ef_as_str C (ef_text C s) = Some s" "ef_as_receipt C (ef_receipt C r) = Some r"
    "ef_as_result C (ef_result C t) = Some t" "ef_as_rc_request C (ef_rc_request C q) = Some q"
    "ef_as_resolution C (ef_resolution C u) = Some u" "ef_as_prepared C (ef_prepared C p) = Some p"
    "ef_as_scope C (ef_scope C sc) = Some sc" "ef_as_grant C (ef_grant C pg) = Some pg"
  using assms by (simp_all add: lawful_def)

lemma lawful_objects:
  assumes "lawful C"
  shows "\<exists>es. ef_request C r = ef_object C es \<and> distinct (map fst es)"
    "\<exists>es. ef_authorization C g = ef_object C es \<and> distinct (map fst es)"
  using assms by (simp_all add: lawful_def)

lemma request_kind:
  assumes "lawful C"
  shows "member_of C (ef_with C (ef_request C r) k x) k = x"
    and "k \<noteq> k' \<Longrightarrow> member_of C (ef_with C (ef_with C (ef_request C r) k x) k' y) k = x"
proof -
  from assms obtain es where es: "ef_request C r = ef_object C es" "distinct (map fst es)" using lawful_objects(1) by blast
  moreover have "distinct (map fst (AList.update k x es))" using es(2) by (rule distinct_update)
  ultimately show "member_of C (ef_with C (ef_request C r) k x) k = x"
    "k \<noteq> k' \<Longrightarrow> member_of C (ef_with C (ef_with C (ef_request C r) k x) k' y) k = x"
    by (simp_all add: member_of_def lawful_simps [OF assms] update_conv' distinct_update)
qed

text \<open>The facts that evidence writes give this evidence.\<close>

lemma evidence_reads_back:
  assumes lawful: "lawful C" and new: "evidence_new C p g s policy key = Ok bound"
  shows "evidence_from_facts C key (fq_effect_id (pv_request bound)) (prepared_payload C bound) (authorized_payload C bound) = Ok bound"
proof -
  from new have v: "pv_prepared bound = p" "pv_scope bound = s" "pv_grant bound = g" "fq_policy_revision (pv_request bound) = policy"
    by (auto simp: evidence_new_def res_simps Let_def split: if_splits)
  obtain es where es: "ef_request C (pv_request bound) = ef_object C es" "distinct (map fst es)"
    using lawful_objects(1) [OF lawful] by blast
  obtain gs where gs: "ef_authorization C (pv_authorization bound) = ef_object C gs" "distinct (map fst gs)"
    using lawful_objects(2) [OF lawful] by blast
  note laws = lawful_simps [OF lawful]
  have request: "ef_as_request C (prepared_payload C bound) = Some (pv_request bound)"
    using lawful unfolding lawful_def prepared_payload_def by (simp add: request_members_def)
  have input: "member_of C (prepared_payload C bound) ''input'' = evidence_input C p s"
    by (simp add: prepared_payload_def es member_of_def laws v distinct_update update_conv')
  have grant: "member_of C (authorized_payload C bound) ''prepared_grant'' = ef_grant C g"
    by (simp add: authorized_payload_def gs member_of_def laws v distinct_update update_conv')
  have members: "member_of C (evidence_input C p s) ''prepared'' = ef_prepared C p" "member_of C (evidence_input C p s) ''scope'' = ef_scope C s"
    by (simp_all add: evidence_input_def member_of_def laws)
  show ?thesis
    by (simp add: evidence_from_facts_def request input grant members decoded_def laws v new)
qed

lemma error_roundtrip:
  assumes "lawful C" and "\<forall>m. e \<noteq> Uncertain m"
  shows "decode_error C (encode_error C e) = Ok e"
  using assms(2) by (cases e) (simp_all add: decode_error_def error_text_def member_of_def lawful_simps [OF assms(1)])

text \<open>A receipt payload as one object.\<close>

lemma receipt_payload_Ok:
  assumes "lawful C" and "receipt_payload C v result = Ok payload"
  shows "\<exists>status key outcome a b c d r. outcome_object C result = Ok (status, key, outcome) \<and> key \<in> {''output'', ''error''}
    \<and> fc_status r = status
    \<and> payload = ef_object C [(''effect_id'', a), (''input'', b), (''authorization'', c), (''prepared_grant'', d),
        (key, outcome), (''receipt'', ef_receipt C r)]"
proof -
  from assms(2) obtain status key outcome where o: "outcome_object C result = Ok (status, key, outcome)"
    by (auto simp: receipt_payload_def res_simps)
  have key: "key = ''output'' \<or> key = ''error''" using o by (auto simp: outcome_object_def split: res.splits tool_error.splits)
  let ?r = "\<lparr>fc_receipt_id = evidence_prefix v @ ''/receipt'', fc_effect_id = fq_effect_id (pv_request v),
    fc_authorization_id = fg_authorization_id (pv_authorization v), fc_input_digest = fq_input_digest (pv_request v),
    fc_executor_id = evidence_executor v, fc_executor_revision = pc_tool_revision (pv_prepared v),
    fc_result_digest = effect_digest C ''kolyan.runtime.prepared-result.v1'' (ef_object C [(key, outcome)]),
    fc_status = status\<rparr>"
  have "payload = ef_object C [(''effect_id'', ef_text C (fq_effect_id (pv_request v))),
      (''input'', evidence_input C (pv_prepared v) (pv_scope v)), (''authorization'', ef_authorization C (pv_authorization v)),
      (''prepared_grant'', ef_grant C (pv_grant v)), (key, outcome), (''receipt'', ef_receipt C ?r)]"
    using assms(2) key by (auto simp: receipt_payload_def res_simps o Let_def lawful_simps [OF assms(1)])
  moreover have "fc_status ?r = status" by simp
  ultimately show ?thesis using o key by blast
qed

lemma recorded_outcome:
  assumes "lawful C" and "outcome_object C result = Ok (status, key, outcome)" and "fc_status r = status"
    and "member_of C payload key = outcome"
  shows "recorded_result C r payload = Ok result"
proof (cases result)
  case (Ok x)
  with assms(2) have "status = ReceiptCompleted" "key = ''output''" "outcome = ef_result C x"
    by (simp_all add: outcome_object_def)
  with assms(3,4) show ?thesis by (simp add: recorded_result_def decoded_def lawful_simps [OF assms(1)] Ok)
next
  case (Err e)
  with assms(2) have "status = ReceiptFailed" "key = ''error''" "outcome = encode_error C e" "\<forall>m. e \<noteq> Uncertain m"
    by (cases e; simp add: outcome_object_def)+
  with assms(3,4) error_roundtrip [OF assms(1)] show ?thesis by (simp add: recorded_result_def Err)
next
  case Panic
  with assms(2) show ?thesis by (simp add: outcome_object_def)
qed

definition with_proof :: "'j effect_codec \<Rightarrow> 'j \<Rightarrow> (reconciliation_request \<times> resolution) option \<Rightarrow> 'j" where
  "with_proof C payload m =
     (case m of None \<Rightarrow> payload | Some (q, r) \<Rightarrow> ef_with C payload ''reconciliation'' (reconciled_proof C q r))"

definition proof_agrees ::
  "'j prepared_evidence \<Rightarrow> (tool_error, tool_result) res \<Rightarrow> (reconciliation_request \<times> resolution) option \<Rightarrow> bool" where
  "proof_agrees v result m \<longleftrightarrow> (case m of None \<Rightarrow> True
     | Some (q, r) \<Rightarrow> validate_resolution v q r = Ok () \<and> (\<exists>output x y z. r = Committed output x y z \<and> result = Ok output))"

lemma receipt_reads_back:
  assumes lawful: "lawful C" and p: "receipt_payload C v result = Ok payload" and m: "proof_agrees v result m"
  shows "validate_receipt C v (with_proof C payload m) = Ok result"
proof -
  from receipt_payload_Ok [OF lawful p] obtain status key outcome a b c d r
    where o: "outcome_object C result = Ok (status, key, outcome)" "key = ''output'' \<or> key = ''error''" "fc_status r = status"
      and es: "payload = ef_object C [(''effect_id'', a), (''input'', b), (''authorization'', c), (''prepared_grant'', d),
        (key, outcome), (''receipt'', ef_receipt C r)]" by blast
  note laws = lawful_simps [OF lawful]
  have members: "member_of C (with_proof C payload m) key = outcome"
    "member_of C (with_proof C payload m) ''receipt'' = ef_receipt C r"
    "ef_get C (with_proof C payload m) ''reconciliation'' = map_option (\<lambda>(q, r). reconciled_proof C q r) m"
    using o(2) by (cases m; auto simp: es with_proof_def member_of_def laws)+
  have "recorded_result C r (with_proof C payload m) = Ok result"
    by (rule recorded_outcome [OF lawful o(1,3) members(1)])
  moreover have "with_reconciliation C v (with_proof C payload m) result payload = Ok (with_proof C payload m)"
  proof (cases m)
    case (Some qr)
    with m obtain q t x y z where qr: "qr = (q, Committed t x y z)" and result: "result = Ok t"
      and valid: "validate_resolution v q (Committed t x y z) = Ok ()" by (cases qr) (auto simp: proof_agrees_def)
    have "member_of C (reconciled_proof C q u) ''request'' = ef_rc_request C q"
      "member_of C (reconciled_proof C q u) ''resolution'' = ef_resolution C u" for u
      by (simp_all add: reconciled_proof_def member_of_def laws)
    moreover have "ef_get C (with_proof C payload m) ''reconciliation'' = Some (reconciled_proof C q (Committed t x y z))"
      using members(3) by (simp add: Some qr)
    moreover have "ef_with C payload ''reconciliation'' (reconciled_proof C q (Committed t x y z)) = with_proof C payload m"
      by (simp add: with_proof_def Some qr)
    ultimately show ?thesis using valid by (simp add: with_reconciliation_def result decoded_def laws)
  next
    case None
    then have "ef_get C payload ''reconciliation'' = None" using members(3) by (simp add: with_proof_def)
    with None show ?thesis by (simp add: with_reconciliation_def with_proof_def)
  qed
  ultimately show ?thesis by (simp add: validate_receipt_def decoded_def members(2) laws p)
qed

end
