(* ===== verification/Effect_Certified.thy ===== *)
theory Effect_Certified
  imports Effect_Pool Effect_Laws
begin

text \<open>
  Every operation of the effect runtime is certified: it executes only with its licence, keeps the ledger
  sealed, and what it returns is recorded.
\<close>

section \<open>Identities\<close>

lemma not_outcome:
  assumes "4 \<le> length s" and "take 4 (rev s) \<notin> {''dete'', ''deli''}"
  shows "x @ s \<notin> outcome_ids p"
proof
  assume "x @ s \<in> outcome_ids p"
  then have "take 4 (rev (x @ s)) \<in> (\<lambda>i. take 4 (rev i)) ` outcome_ids p" by (rule imageI)
  then have "take 4 (rev s) \<in> {''dete'', ''deli''}" using assms(1) by (simp add: outcome_ids_def)
  with assms(2) show False by contradiction
qed

lemma outcome_id_cancel:
  "x @ ''/completed'' \<in> outcome_ids p \<longleftrightarrow> x = p" "x @ ''/failed'' \<in> outcome_ids p \<longleftrightarrow> x = p"
proof -
  have differ: "x @ s \<noteq> p @ t" if "4 \<le> length s" "4 \<le> length t" "take 4 (rev s) \<noteq> take 4 (rev t)" for s t :: string
  proof
    assume "x @ s = p @ t"
    then have "take 4 (rev (x @ s)) = take 4 (rev (p @ t))" by simp
    with that show False by simp
  qed
  show "x @ ''/completed'' \<in> outcome_ids p \<longleftrightarrow> x = p" "x @ ''/failed'' \<in> outcome_ids p \<longleftrightarrow> x = p"
    using differ [of "''/completed''" "''/failed''"] differ [of "''/failed''" "''/completed''"] by (auto simp: outcome_ids_def)
qed

lemma suffix_id: "ek_execution_id key @ ''/'' @ effect_suffix e s = effect_prefix key (fq_effect_id e) @ s"
  by (simp add: effect_suffix_def effect_prefix_def)

lemma new_event_id [simp]: "le_event_id (new_event key i kind payload) = i"
  "le_execution_id (new_event key i kind payload) = ek_execution_id key"
  by (simp_all add: new_event_def)

lemma new_event_fact: "is_fact key i kind ((new_event key i kind payload)\<lparr>le_cursor := c\<rparr>)"
  "le_payload ((new_event key i kind payload)\<lparr>le_cursor := c\<rparr>) = payload"
  by (simp_all add: is_fact_def new_event_def)

lemma may_append_other: "(\<And>p. p \<in> P \<Longrightarrow> le_event_id e \<notin> outcome_ids p) \<Longrightarrow> may_append P K e"
  by (simp add: may_append_def)

section \<open>Rules for the composed steps\<close>

definition benign :: "('j ledger_event set \<Rightarrow> 'j ledger_event option \<Rightarrow> ('e, 'a) res \<Rightarrow> bool) \<Rightarrow> bool" where
  "benign Q \<longleftrightarrow> (\<forall>K own. (\<forall>e. Q K own (Err e)) \<and> Q K own Panic)"

lemma benign_followed: "benign Q \<Longrightarrow> (\<And>a. r = Ok a \<Longrightarrow> R K own a) \<Longrightarrow> followed_by R Q K own r"
  by (cases r) (auto simp: benign_def)

lemma try_Done:
  "benign Q \<Longrightarrow> (\<And>a. r = Ok a \<Longrightarrow> certified C P Q K own (f a)) \<Longrightarrow> certified C P Q K own (trying (Done r) f)"
  by (simp add: benign_followed)

lemma try_find:
  assumes "benign Q" and "i \<noteq> []" and "certified C P Q K own (f None)"
    and "\<And>K' e. K \<subseteq> K' \<Longrightarrow> e \<in> K' \<Longrightarrow> le_event_id e = i \<Longrightarrow> certified C P Q K' own (f (Some e))"
  shows "certified C P Q K own (trying (find_event wrap i) f)"
  unfolding certified_trying
proof (rule certified_find [OF assms(2)])
  fix e :: "'a ledger_event"
  assume "le_event_id e = i"
  then show "followed_by (\<lambda>K own a. certified C P Q K own (f a)) Q (insert e K) own (Ok (Some e))"
    using assms(4) [of "insert e K" e] by auto
qed (use assms(3) in simp)

lemma try_history:
  assumes "benign Q"
    and "\<And>L. possible P K L \<Longrightarrow> certified C P Q (K \<union> {e \<in> set L. le_execution_id e = x}) own
           (f (filter (\<lambda>e. le_execution_id e = x) L))"
  shows "certified C P Q K own (trying (execution_history wrap x) f)"
  unfolding certified_trying by (rule certified_history) (use assms in \<open>auto simp: benign_def\<close>)

lemma certified_append_fact:
  assumes Q: "benign Q" and i: "i = ek_execution_id key @ ''/'' @ name"
    and may: "may_append P K (new_event key i kind payload)"
    and ok: "\<And>K' ev. K \<subseteq> K' \<Longrightarrow> ev \<in> K' \<Longrightarrow> is_fact key i kind ev \<Longrightarrow> le_payload ev = payload \<Longrightarrow> Q K' own (Ok ev)"
  shows "certified C P Q K own (append_fact wrap refuse key name kind payload)"
  unfolding append_fact_def Let_def i [symmetric]
proof (rule try_find [OF Q])
  show "i \<noteq> []" by (simp add: i)
  have "certified C P (\<lambda>K own r. Q K own (map_err wrap r)) K own (append_event (new_event key i kind payload))"
  proof (rule certified_append [OF may])
    fix c :: u64
    let ?e = "(new_event key i kind payload)\<lparr>le_cursor := c\<rparr>"
    show "Q (insert ?e K) own (map_err wrap (Ok ?e))"
      using ok [of "insert ?e K" ?e] by (simp add: subset_insertI new_event_fact)
  qed (use Q in \<open>simp add: benign_def\<close>)
  then show "certified C P Q K own (case None of
        None \<Rightarrow> bindp (append_event (new_event key i kind payload)) (\<lambda>r. Done (map_err wrap r))
      | Some existing \<Rightarrow>
          if le_turn_id existing \<noteq> ek_turn_id key \<or> le_execution_id existing \<noteq> ek_execution_id key
             \<or> le_kind existing \<noteq> kind \<or> le_payload existing \<noteq> payload
          then Done (Err (refuse (''conflicting event identity: '' @ i)))
          else Done (Ok existing))"
    by (simp add: certified_bindp)
qed (use Q ok in \<open>auto simp: benign_def is_fact_def\<close>)

lemma try_append_once:
  assumes Q: "benign Q" and "i = ek_execution_id key @ ''/'' @ name"
    and "may_append P K (new_event key i kind payload)"
    and "\<And>K' ev. K \<subseteq> K' \<Longrightarrow> ev \<in> K' \<Longrightarrow> is_fact key i kind ev \<Longrightarrow> le_payload ev = payload \<Longrightarrow> certified C P Q K' own (f ev)"
  shows "certified C P Q K own (trying (append_once key name kind payload) f)"
  unfolding certified_trying append_once_def
  by (rule certified_append_fact [OF _ assms(2,3)]) (use assms in \<open>auto simp: benign_def\<close>)

text \<open>A plain fact: its identity is no outcome record.\<close>

lemma try_append_plain:
  assumes "benign Q" and "i = ek_execution_id key @ ''/'' @ name" and "\<And>p. p \<in> P \<Longrightarrow> i \<notin> outcome_ids p"
    and "\<And>K' ev. K \<subseteq> K' \<Longrightarrow> ev \<in> K' \<Longrightarrow> is_fact key i kind ev \<Longrightarrow> le_payload ev = payload \<Longrightarrow> certified C P Q K' own (f ev)"
  shows "certified C P Q K own (trying (append_once key name kind payload) f)"
  by (rule try_append_once [OF assms(1,2)]) (use assms(3,4) in \<open>auto intro: may_append_other\<close>)

section \<open>Recorded outcomes\<close>

definition definitive :: "'j disposition \<Rightarrow> bool" where
  "definitive d \<longleftrightarrow> (\<exists>v. d = DispCompleted v) \<or> (\<exists>c. d = DispFailed c)"

text \<open>The receipt of a generic effect, and the validated receipt of a prepared tool.\<close>

definition generic_recorded ::
  "'j effect_codec \<Rightarrow> execution_key \<Rightarrow> effect_request \<Rightarrow> 'j ledger_event set \<Rightarrow> 'j disposition \<Rightarrow> bool" where
  "generic_recorded C key e K d \<longleftrightarrow> (\<exists>pr \<in> K. \<exists>re \<in> K.
     le_event_id pr = effect_prefix key (fq_effect_id e) @ ''/prepared'' \<and> le_payload pr = generic_payload C e
     \<and> le_event_id re = effect_prefix key (fq_effect_id e) @ ''/receipt'' \<and> receipt_disposition C e (le_payload re) = Ok d)"

definition tool_recorded ::
  "'j effect_codec \<Rightarrow> execution_key \<Rightarrow> string \<Rightarrow> 'j ledger_event set \<Rightarrow> (tool_error, tool_result) res \<Rightarrow> bool" where
  "tool_recorded C key i K result \<longleftrightarrow> (\<exists>pr \<in> K. \<exists>au \<in> K. \<exists>re \<in> K. \<exists>bound.
     le_event_id pr = effect_prefix key i @ ''/prepared'' \<and> le_event_id au = effect_prefix key i @ ''/authorized''
     \<and> le_event_id re = effect_prefix key i @ ''/receipt''
     \<and> evidence_from_facts C key i (le_payload pr) (le_payload au) = Ok bound
     \<and> validate_receipt C bound (le_payload re) = Ok result)"

fun tool_disposition :: "'j effect_codec \<Rightarrow> (tool_error, tool_result) res \<Rightarrow> 'j disposition option" where
  "tool_disposition C (Ok t) = Some (DispCompleted (ef_result C t))"
| "tool_disposition C (Err e) = Some (DispFailed (tool_error_text e))"
| "tool_disposition C Panic = None"

definition recorded ::
  "'j effect_codec \<Rightarrow> execution_key \<Rightarrow> effect_request \<Rightarrow> 'j ledger_event set \<Rightarrow> 'j disposition \<Rightarrow> bool" where
  "recorded C key e K d \<longleftrightarrow> generic_recorded C key e K d
     \<or> (\<exists>result. tool_recorded C key (fq_effect_id e) K result \<and> tool_disposition C result = Some d)"

definition apply_post ::
  "'j effect_codec \<Rightarrow> string set \<Rightarrow> execution_key \<Rightarrow> effect_request \<Rightarrow> 'j ledger_event set \<Rightarrow> 'j ledger_event option
   \<Rightarrow> (runtime_error, 'j disposition) res \<Rightarrow> bool" where
  "apply_post C P key e K own r \<longleftrightarrow> (\<forall>d. r = Ok d \<longrightarrow> definitive d \<longrightarrow> lawful C \<longrightarrow>
     effect_prefix key (fq_effect_id e) \<in> P \<longrightarrow> recorded C key e K d)"

lemma apply_post_simps [simp]:
  "apply_post C P key e K own (Err er)" "apply_post C P key e K own Panic" "benign (apply_post C P key e)"
  "apply_post C P key e K own (Ok (DispUncertain m))" "apply_post C P key e K own (Ok (DispSuspended m))"
  "apply_post C P key e K own (Ok (DispDenied m))" "apply_post C P key e K own (Ok DispCancelled)"
  by (simp_all add: apply_post_def benign_def definitive_def)

text \<open>In a sealed ledger the first terminal record of an effect is its receipt.\<close>

lemma first_terminal:
  assumes "terminal_disposition C key e es = Ok (Some d)" and "definitive d"
    and "\<And>pre x post. es = pre @ x # post \<Longrightarrow> le_event_id x \<in> outcome_ids (effect_prefix key (fq_effect_id e)) \<Longrightarrow>
      \<exists>r \<in> set pre. le_event_id r = effect_prefix key (fq_effect_id e) @ ''/receipt''"
  shows "\<exists>re \<in> set es. le_event_id re = effect_prefix key (fq_effect_id e) @ ''/receipt''
    \<and> receipt_disposition C e (le_payload re) = Ok d"
  using assms(1,3)
proof (induction es)
  case (Cons x es)
  let ?p = "effect_prefix key (fq_effect_id e)"
  show ?case
  proof (cases "le_event_id x = ?p @ ''/receipt''")
    case True
    with Cons.prems(1) show ?thesis by (auto simp: Let_def res_simps)
  next
    case False
    have x: "le_event_id x \<notin> outcome_ids ?p" using Cons.prems(2) [of "[]" x es] by auto
    then have t: "terminal_disposition C key e es = Ok (Some d)"
      using Cons.prems(1) False assms(2) by (auto simp: Let_def outcome_ids_def definitive_def split: if_splits)
    have "\<exists>re \<in> set es. le_event_id re = ?p @ ''/receipt'' \<and> receipt_disposition C e (le_payload re) = Ok d"
    proof (rule Cons.IH [OF t])
      fix pre y post
      assume "es = pre @ y # post" "le_event_id y \<in> outcome_ids ?p"
      then have "\<exists>r \<in> set (x # pre). le_event_id r = ?p @ ''/receipt''" using Cons.prems(2) [of "x # pre" y post] by simp
      with False show "\<exists>r \<in> set pre. le_event_id r = ?p @ ''/receipt''" by auto
    qed
    then show ?thesis by auto
  qed
qed simp

lemma sealed_first_terminal:
  assumes L: "possible P K L" and p: "effect_prefix key (fq_effect_id e) \<in> P"
    and t: "terminal_disposition C key e (filter (\<lambda>x. le_execution_id x = ek_execution_id key) L) = Ok (Some d)" "definitive d"
  shows "\<exists>re \<in> set L. le_execution_id re = ek_execution_id key
    \<and> le_event_id re = effect_prefix key (fq_effect_id e) @ ''/receipt'' \<and> receipt_disposition C e (le_payload re) = Ok d"
proof -
  let ?es = "filter (\<lambda>x. le_execution_id x = ek_execution_id key) L" and ?p = "effect_prefix key (fq_effect_id e)"
  have sorted: "sorted_wrt (\<lambda>x y. le_cursor x < le_cursor y) ?es"
    using L by (intro sorted_wrt_filter ledger_wf_ascending) (simp add: possible_def)
  have "\<exists>re \<in> set ?es. le_event_id re = ?p @ ''/receipt'' \<and> receipt_disposition C e (le_payload re) = Ok d"
  proof (rule first_terminal [OF t])
    fix pre x post
    assume es: "?es = pre @ x # post" and x: "le_event_id x \<in> outcome_ids ?p"
    have "x \<in> set ?es" by (simp add: es)
    then have "x \<in> set L" "le_execution_id x = ek_execution_id key" by auto
    moreover from this L p x obtain r where r: "r \<in> set L" "le_cursor r < le_cursor x" "le_event_id r = ?p @ ''/receipt''"
      "le_execution_id r = le_execution_id x" unfolding possible_def sealed_def preceded_def by blast
    ultimately have "r \<in> set ?es" by simp
    moreover have "\<forall>y \<in> set (x # post). \<not> le_cursor y < le_cursor x"
      using sorted unfolding es by (auto simp: sorted_wrt_append)
    ultimately have "r \<in> set pre" using r(2) unfolding es by auto
    with r(3) show "\<exists>r \<in> set pre. le_event_id r = ?p @ ''/receipt''" by blast
  qed
  then show ?thesis by auto
qed

lemma try_terminal:
  assumes Q: "benign Q" and none: "\<And>K'. K \<subseteq> K' \<Longrightarrow> certified C P Q K' own (f None)"
    and some: "\<And>K' d. K \<subseteq> K' \<Longrightarrow> (effect_prefix key (fq_effect_id e) \<in> P \<Longrightarrow> definitive d \<Longrightarrow> \<exists>re \<in> K'.
      le_event_id re = effect_prefix key (fq_effect_id e) @ ''/receipt'' \<and> receipt_disposition C e (le_payload re) = Ok d) \<Longrightarrow>
      certified C P Q K' own (f (Some d))"
  shows "certified C P Q K own (trying (terminal_effect C key e) f)"
proof -
  let ?R = "followed_by (\<lambda>K own a. certified C P Q K own (f a)) Q"
  have R: "benign ?R" using Q by (simp add: benign_def)
  have "certified C P ?R K own (terminal_effect C key e)"
    unfolding terminal_effect_def
  proof (rule try_history [OF R])
    fix L
    assume L: "possible P K L"
    let ?x = "ek_execution_id key" and ?es = "filter (\<lambda>x. le_execution_id x = ek_execution_id key) L"
    let ?K = "K \<union> {e \<in> set L. le_execution_id e = ?x}"
    show "certified C P ?R ?K own (Done (terminal_disposition C key e ?es))"
    proof (cases "terminal_disposition C key e ?es")
      case (Ok m)
      show ?thesis
      proof (cases m)
        case (Some d)
        have "certified C P Q ?K own (f (Some d))"
          by (rule some) (use sealed_first_terminal [OF L, of key e C d] Ok Some in auto)
        with Ok Some show ?thesis by simp
      qed (use Ok none [of ?K] in simp)
    qed (use Q in \<open>simp_all add: benign_def\<close>)
  qed
  then show ?thesis unfolding certified_trying .
qed

end
