(* ===== verification/Effect_Operations.thy ===== *)
theory Effect_Operations
  imports Effect_Certified
begin

text \<open>The operations of \<open>execution.rs\<close>, \<open>reconciliation.rs\<close> and \<open>effect_proof.rs\<close>, certified one by one.\<close>

lemma certified_Done: "Q K own r \<Longrightarrow> certified C P Q K own (Done r)"
  by simp

section \<open>Dispatch\<close>

lemma certified_record_outcome:
  assumes Q: "benign Q" and s: "fst event \<in> {''/completed'', ''/failed'', ''/uncertain''}"
    and post: "\<And>K' re. K \<subseteq> K' \<Longrightarrow> re \<in> K' \<Longrightarrow> le_event_id re = effect_prefix key (fq_effect_id e) @ ''/receipt'' \<Longrightarrow>
      le_payload re = ef_object C [(''receipt'', ef_receipt C receipt), outcome] \<Longrightarrow>
      validate_receipt_status receipt status = Ok () \<Longrightarrow> validate_effect_receipt e g receipt = Ok () \<Longrightarrow> Q K' own (Ok d)"
  shows "certified C P Q K own (record_outcome C key e g receipt status outcome event d)"
  unfolding record_outcome_def append_receipt_def trying_assoc trying_Ok
proof (rule try_Done [OF Q], rule try_Done [OF Q], rule try_append_plain [OF Q refl])
  fix p
  show "ek_execution_id key @ ''/'' @ effect_suffix e ''/receipt'' \<notin> outcome_ids p"
    unfolding suffix_id by (rule not_outcome) simp_all
next
  let ?p = "effect_prefix key (fq_effect_id e)"
  fix K' re u v
  assume valid: "validate_receipt_status receipt status = Ok u" "validate_effect_receipt e g receipt = Ok v"
    and re: "K \<subseteq> K'" "re \<in> K'" "is_fact key (ek_execution_id key @ ''/'' @ effect_suffix e ''/receipt'') EffectReceipt re"
      "le_payload re = ef_object C [(''receipt'', ef_receipt C receipt), outcome]"
  then have id: "le_event_id re = ?p @ ''/receipt''" and x: "le_execution_id re = ek_execution_id key"
    unfolding suffix_id by (simp_all add: is_fact_def)
  show "certified C P Q K' own (trying (append_once key (effect_suffix e (fst event)) (snd event)
      (ef_object C [(''effect_id'', ef_text C (fq_effect_id e)), outcome])) (\<lambda>_. Done (Ok d)))"
  proof (rule try_append_once [OF Q refl])
    show "may_append P K' (new_event key (ek_execution_id key @ ''/'' @ effect_suffix e (fst event))
        (snd event) (ef_object C [(''effect_id'', ef_text C (fq_effect_id e)), outcome]))"
      using re(2) id x s not_outcome [of "''/uncertain''" ?p]
      unfolding suffix_id by (auto simp: may_append_def preceded_def outcome_id_cancel)
  next
    fix K'' ev
    assume "K' \<subseteq> K''"
    with re id valid have "Q K'' own (Ok d)" by (intro post [of K'' re]) auto
    then show "certified C P Q K'' own (Done (Ok d))" by simp
  qed
qed

lemma own_outcome:
  assumes "lawful C" and "validate_receipt_status receipt status = Ok ()" and "validate_effect_receipt e g receipt = Ok ()"
  shows "status = ReceiptCompleted \<Longrightarrow>
      receipt_disposition C e (ef_object C [(''receipt'', ef_receipt C receipt), (''output'', v)]) = Ok (DispCompleted v)"
    and "status = ReceiptFailed \<Longrightarrow>
      receipt_disposition C e (ef_object C [(''receipt'', ef_receipt C receipt), (''code'', ef_text C c)]) = Ok (DispFailed c)"
  using assms(2,3)
  by (simp_all add: receipt_disposition_def member_of_def lawful_simps [OF assms(1)] validate_receipt_status_def
      validate_effect_receipt_def split: if_splits)

lemma apply_post_generic:
  assumes "pr \<in> K" "le_event_id pr = effect_prefix key (fq_effect_id e) @ ''/prepared''" "le_payload pr = generic_payload C e"
    and "lawful C \<Longrightarrow> effect_prefix key (fq_effect_id e) \<in> P \<Longrightarrow> definitive d \<Longrightarrow> \<exists>re \<in> K.
      le_event_id re = effect_prefix key (fq_effect_id e) @ ''/receipt'' \<and> receipt_disposition C e (le_payload re) = Ok d"
  shows "apply_post C P key e K own (Ok d)"
  using assms unfolding apply_post_def recorded_def generic_recorded_def by blast

text \<open>The admission of a start decides who executes.\<close>

lemma certified_started:
  assumes Q: "benign Q" and st: "may_append P K st" and cancelled: "certified C P Q K own stopped"
    and lost: "certified C P Q K own lost"
    and run: "\<And>c. \<forall>x \<in> K. le_cursor x < c \<Longrightarrow>
      certified C P Q (insert (st\<lparr>le_cursor := c\<rparr>) K) (Some (st\<lparr>le_cursor := c\<rparr>)) run"
  shows "certified C P Q K own (bindp (admit_event st) (\<lambda>started.
      case started of
        Ok _ \<Rightarrow> run
      | Err (LedgerCancelled _) \<Rightarrow> stopped
      | Err (LedgerConflict _) \<Rightarrow> lost
      | Err er \<Rightarrow> Done (Err (ExecLedger er))
      | Panic \<Rightarrow> Done Panic))"
  unfolding certified_bindp
proof (rule certified_admit [OF st])
  fix er
  show "certified C P Q K own (case Err er of
        Ok _ \<Rightarrow> run
      | Err (LedgerCancelled _) \<Rightarrow> stopped
      | Err (LedgerConflict _) \<Rightarrow> lost
      | Err er \<Rightarrow> Done (Err (ExecLedger er))
      | Panic \<Rightarrow> Done Panic)"
    using Q cancelled lost by (cases er) (simp_all add: benign_def)
qed (use run in simp)

lemma certified_execution:
  assumes pr: "pr \<in> K" "le_event_id pr = effect_prefix key (fq_effect_id e) @ ''/prepared''" "le_payload pr = generic_payload C e"
    and licence: "own = Some st" "licensed C K st key e g"
  shows "certified C P (apply_post C P key e) K own (trying (execute_effect key e g) (\<lambda>outcome.
      case outcome of
        EffectDone receipt v \<Rightarrow>
          record_outcome C key e g receipt ReceiptCompleted (''output'', v) (''/completed'', EffectCompleted) (DispCompleted v)
      | EffectFailure receipt code \<Rightarrow>
          record_outcome C key e g receipt ReceiptFailed (''code'', ef_text C code) (''/failed'', EffectFailed) (DispFailed code)
      | EffectUnsure receipt evidence \<Rightarrow>
          record_outcome C key e g receipt ReceiptUncertain (''evidence'', ef_text C evidence)
            (''/uncertain'', EffectUncertain) (DispUncertain evidence)))"
proof -
  let ?p = "effect_prefix key (fq_effect_id e)" and ?Q = "apply_post C P key e"
  have outcome: "certified C P ?Q K None (record_outcome C key e g receipt status outcome event d)"
    if "fst event \<in> {''/completed'', ''/failed'', ''/uncertain''}"
      and d: "(status, outcome, d) \<in> {(ReceiptCompleted, (''output'', v), DispCompleted v),
        (ReceiptFailed, (''code'', ef_text C c), DispFailed c), (ReceiptUncertain, (''evidence'', ef_text C c), DispUncertain c)}"
    for receipt status outcome event d v c
  proof (rule certified_record_outcome [OF apply_post_simps(3) that(1)])
    fix K' re
    assume re: "K \<subseteq> K'" "re \<in> K'" "le_event_id re = ?p @ ''/receipt''"
        "le_payload re = ef_object C [(''receipt'', ef_receipt C receipt), outcome]"
      and valid: "validate_receipt_status receipt status = Ok ()" "validate_effect_receipt e g receipt = Ok ()"
    have "pr \<in> K'" using pr(1) re(1) by blast
    show "?Q K' None (Ok d)"
    proof (cases "status = ReceiptUncertain")
      case False
      then have "lawful C \<Longrightarrow> receipt_disposition C e (le_payload re) = Ok d"
        using d own_outcome [OF _ valid] re(4) by auto
      with re(2,3) show ?thesis by (intro apply_post_generic [OF \<open>pr \<in> K'\<close> pr(2,3)]) blast
    qed (use d in auto)
  qed
  have "certified C P ?Q K None (case outcome of
        EffectDone receipt v \<Rightarrow>
          record_outcome C key e g receipt ReceiptCompleted (''output'', v) (''/completed'', EffectCompleted) (DispCompleted v)
      | EffectFailure receipt code \<Rightarrow>
          record_outcome C key e g receipt ReceiptFailed (''code'', ef_text C code) (''/failed'', EffectFailed) (DispFailed code)
      | EffectUnsure receipt evidence \<Rightarrow>
          record_outcome C key e g receipt ReceiptUncertain (''evidence'', ef_text C evidence)
            (''/uncertain'', EffectUncertain) (DispUncertain evidence))" for outcome
    by (cases outcome) (simp_all add: outcome)
  then show ?thesis
    unfolding certified_trying execute_effect_def using licence by (auto intro!: benign_followed [OF apply_post_simps(3)])
qed

lemma certified_dispatch:
  assumes pr: "pr \<in> K" "is_fact key (effect_prefix key (fq_effect_id e) @ ''/prepared'') EffectPrepared pr"
      "le_payload pr = generic_payload C e"
  shows "certified C P (apply_post C P key e) K own (dispatch_effect C key e g)"
proof (cases "fg_effect_id g \<noteq> fq_effect_id e \<or> fg_input_digest g \<noteq> fq_input_digest e")
  case False
  let ?p = "effect_prefix key (fq_effect_id e)" and ?Q = "apply_post C P key e"
  from pr(2) have pid: "le_event_id pr = ?p @ ''/prepared''" by (simp add: is_fact_def)
  from False have binds: "fg_effect_id g = fq_effect_id e" "fg_input_digest g = fq_input_digest e" by auto
  show ?thesis
    unfolding dispatch_effect_def if_not_P [OF False]
  proof (rule try_append_plain [OF apply_post_simps(3) refl])
    fix p
    show "ek_execution_id key @ ''/'' @ effect_suffix e ''/authorized'' \<notin> outcome_ids p"
      unfolding suffix_id by (rule not_outcome) simp_all
  next
    fix K' au
    assume au: "K \<subseteq> K'" "au \<in> K'" "is_fact key (ek_execution_id key @ ''/'' @ effect_suffix e ''/authorized'') EffectAuthorized au"
      "le_payload au = ef_authorization C g"
    show "certified C P ?Q K' own (bindp (admit_event (new_event key (?p @ ''/started'') EffectStarted
                 (ef_object C [(''effect_id'', ef_text C (fq_effect_id e))]))) (\<lambda>started.
        case started of
          Ok _ \<Rightarrow>
            trying (execute_effect key e g) (\<lambda>outcome.
              case outcome of
                EffectDone receipt v \<Rightarrow>
                  record_outcome C key e g receipt ReceiptCompleted (''output'', v) (''/completed'', EffectCompleted)
                    (DispCompleted v)
              | EffectFailure receipt code \<Rightarrow>
                  record_outcome C key e g receipt ReceiptFailed (''code'', ef_text C code) (''/failed'', EffectFailed)
                    (DispFailed code)
              | EffectUnsure receipt evidence \<Rightarrow>
                  record_outcome C key e g receipt ReceiptUncertain (''evidence'', ef_text C evidence)
                    (''/uncertain'', EffectUncertain) (DispUncertain evidence))
        | Err (LedgerCancelled _) \<Rightarrow> Done (Ok DispCancelled)
        | Err (LedgerConflict _) \<Rightarrow>
            trying (terminal_effect C key e) (\<lambda>d.
              Done (Ok (case d of None \<Rightarrow> DispUncertain ''another dispatcher owns the started effect'' | Some d \<Rightarrow> d)))
        | Err er \<Rightarrow> Done (Err (ExecLedger er))
        | Panic \<Rightarrow> Done Panic))"
    proof (rule certified_started [OF apply_post_simps(3)])
      show "may_append P K' (new_event key (?p @ ''/started'') EffectStarted (ef_object C [(''effect_id'', ef_text C (fq_effect_id e))]))"
        by (rule may_append_other) (simp add: not_outcome)
    next
      show "certified C P ?Q K' own (trying (terminal_effect C key e) (\<lambda>d.
          Done (Ok (case d of None \<Rightarrow> DispUncertain ''another dispatcher owns the started effect'' | Some d \<Rightarrow> d))))"
        by (rule try_terminal [OF apply_post_simps(3)])
           (use pr pid au(1) in \<open>auto intro!: apply_post_generic [of pr]\<close>)
    next
      fix c :: u64
      assume c: "\<forall>x \<in> K'. le_cursor x < c"
      let ?e = "(new_event key (?p @ ''/started'') EffectStarted (ef_object C [(''effect_id'', ef_text C (fq_effect_id e))]))\<lparr>le_cursor := c\<rparr>"
      have "pr \<in> K'" using pr(1) au(1) by blast
      have fact: "is_fact key (?p @ ''/started'') EffectStarted ?e" by (rule new_event_fact)
      have "\<exists>x \<in> insert ?e K'. is_fact key (?p @ ''/prepared'') EffectPrepared x \<and> le_payload x = generic_payload C e
          \<and> le_cursor x < le_cursor ?e" using pr(2,3) \<open>pr \<in> K'\<close> c by (intro bexI [of _ pr]) auto
      moreover have "\<exists>x \<in> insert ?e K'. is_fact key (?p @ ''/authorized'') EffectAuthorized x \<and> le_payload x = ef_authorization C g
          \<and> le_cursor x < le_cursor ?e" using au c unfolding suffix_id by (intro bexI [of _ au]) auto
      ultimately have "licensed C (insert ?e K') ?e key e g" using fact binds unfolding licensed_def Let_def by blast
      with \<open>pr \<in> K'\<close> pid pr(3) show "certified C P ?Q (insert ?e K') (Some ?e) (trying (execute_effect key e g) (\<lambda>outcome.
              case outcome of
                EffectDone receipt v \<Rightarrow>
                  record_outcome C key e g receipt ReceiptCompleted (''output'', v) (''/completed'', EffectCompleted)
                    (DispCompleted v)
              | EffectFailure receipt code \<Rightarrow>
                  record_outcome C key e g receipt ReceiptFailed (''code'', ef_text C code) (''/failed'', EffectFailed)
                    (DispFailed code)
              | EffectUnsure receipt evidence \<Rightarrow>
                  record_outcome C key e g receipt ReceiptUncertain (''evidence'', ef_text C evidence)
                    (''/uncertain'', EffectUncertain) (DispUncertain evidence)))"
        by (intro certified_execution [where pr = pr and st = ?e]) auto
    qed simp
  qed
qed (simp add: dispatch_effect_def)

section \<open>Applying an effect\<close>

lemma certified_admit_effect:
  assumes pr: "pr \<in> K" "is_fact key (effect_prefix key (fq_effect_id e) @ ''/prepared'') EffectPrepared pr"
      "le_payload pr = generic_payload C e"
    and apart: "\<And>p. p \<in> P \<Longrightarrow> ek_execution_id key @ ''/'' @ ''execution-suspended/'' @ fq_effect_id e \<notin> outcome_ids p"
  shows "certified C P (apply_post C P key e) K own (admit_effect C key e)"
proof -
  have plain: "ek_execution_id key @ ''/'' @ effect_suffix e ''/denied'' \<notin> outcome_ids p"
    "ek_execution_id key @ ''/'' @ effect_suffix e ''/awaiting'' \<notin> outcome_ids p" for p
    unfolding suffix_id by (rule not_outcome; simp)+
  have "certified C P (apply_post C P key e) K own
      (trying (append_once key (effect_suffix e ''/denied'') EffectDenied payload) (\<lambda>_. Done (Ok (DispDenied code))))"
    for payload code
    by (rule try_append_plain [OF apply_post_simps(3) refl]) (use plain in simp_all)
  moreover have "certified C P (apply_post C P key e) K own
      (trying (append_once key (effect_suffix e ''/awaiting'') EffectAwaitingDecision payload) (\<lambda>_.
       trying (append_once key (''execution-suspended/'' @ fq_effect_id e) ExecutionSuspended payload') (\<lambda>_.
         Done (Ok (DispSuspended interaction)))))" for payload payload' interaction
    by (rule try_append_plain [OF apply_post_simps(3) refl plain(2)],
        rule try_append_plain [OF apply_post_simps(3) refl apart]) simp_all
  ultimately show ?thesis
    using certified_dispatch [OF pr]
    by (auto simp: admit_effect_def decide_effect_def certified_trying intro!: benign_followed split: admission_decision.split)
qed

lemma certified_apply_generic:
  assumes apart: "\<And>p. p \<in> P \<Longrightarrow> ek_execution_id key @ ''/'' @ ''execution-suspended/'' @ fq_effect_id e \<notin> outcome_ids p"
  shows "certified C P (apply_post C P key e) K own (apply_generic C key e)"
  unfolding apply_generic_def
proof (rule try_append_plain [OF apply_post_simps(3) refl])
  fix p
  show "ek_execution_id key @ ''/'' @ effect_suffix e ''/prepared'' \<notin> outcome_ids p"
    unfolding suffix_id by (rule not_outcome) simp_all
next
  let ?p = "effect_prefix key (fq_effect_id e)" and ?Q = "apply_post C P key e"
  fix K' pr
  assume pr: "pr \<in> K'" "is_fact key (ek_execution_id key @ ''/'' @ effect_suffix e ''/prepared'') EffectPrepared pr"
      "le_payload pr = generic_payload C e"
  note fact = pr(2) [unfolded suffix_id]
  then have pid: "le_event_id pr = ?p @ ''/prepared''" by (simp add: is_fact_def)
  show "certified C P ?Q K' own (trying (terminal_effect C key e) (\<lambda>existing.
       case existing of
         Some d \<Rightarrow> Done (Ok d)
       | None \<Rightarrow>
           trying (find_event ExecLedger (?p @ ''/started'')) (\<lambda>started.
             if started \<noteq> None
             then Done (Ok (DispUncertain ''effect started without a terminal result; reconciliation required''))
             else admit_effect C key e)))"
  proof (rule try_terminal [OF apply_post_simps(3)])
    fix K'' :: "'a ledger_event set"
    assume "K' \<subseteq> K''"
    then have "pr \<in> K''" using pr(1) by blast
    have "certified C P ?Q K'' own (trying (find_event ExecLedger (?p @ ''/started'')) (\<lambda>started.
             if started \<noteq> None
             then Done (Ok (DispUncertain ''effect started without a terminal result; reconciliation required''))
             else admit_effect C key e))"
      by (rule try_find [OF apply_post_simps(3)])
         (use certified_admit_effect [OF \<open>pr \<in> K''\<close> fact pr(3) apart] in simp_all)
    then show "certified C P ?Q K'' own (case None of
         Some d \<Rightarrow> Done (Ok d)
       | None \<Rightarrow>
           trying (find_event ExecLedger (?p @ ''/started'')) (\<lambda>started.
             if started \<noteq> None
             then Done (Ok (DispUncertain ''effect started without a terminal result; reconciliation required''))
             else admit_effect C key e))" by simp
  qed (use pr(1,3) pid in \<open>auto intro!: apply_post_generic [of pr]\<close>)
qed

text \<open>Reading a fact and checking it.\<close>

lemma try_find_checked:
  assumes Q: "benign Q" and "i \<noteq> []" and "certified C P Q K own (f None)"
    and "\<And>K' ev. K \<subseteq> K' \<Longrightarrow> ev \<in> K' \<Longrightarrow> is_fact key i kind ev \<Longrightarrow> certified C P Q K' own (f (Some ev))"
  shows "certified C P Q K own (trying (find_checked key i kind) f)"
  unfolding find_checked_def trying_assoc
proof (rule try_find [OF Q assms(2)])
  fix K' and ev :: "'a ledger_event"
  assume K': "K \<subseteq> K'" "ev \<in> K'"
  have "certified C P Q K' own (trying (Done (exec_invalid (check_effect_event ev key i kind))) (\<lambda>_. f (Some ev)))"
    by (rule try_Done [OF Q]) (use assms(4) [OF K'] in \<open>auto simp: exec_invalid_def check_effect_event_def is_fact_def split: if_splits\<close>)
  then show "certified C P Q K' own (trying (case Some ev of
        None \<Rightarrow> Done (Ok None)
      | Some event \<Rightarrow> trying (Done (exec_invalid (check_effect_event event key i kind))) (\<lambda>_. Done (Ok (Some event)))) f)"
    by (simp add: trying_assoc)
qed (use assms(3) in simp)

lemma try_require_checked:
  assumes Q: "benign Q" and "i \<noteq> []"
    and "\<And>K' ev. K \<subseteq> K' \<Longrightarrow> ev \<in> K' \<Longrightarrow> is_fact key i kind ev \<Longrightarrow> certified C P Q K' own (f ev)"
  shows "certified C P Q K own (trying (require_checked key i kind missing) f)"
  unfolding require_checked_def trying_assoc
  by (rule try_find_checked [OF Q assms(2)]) (use Q assms(3) in \<open>auto simp: benign_def\<close>)

lemma certified_recover_receipt:
  assumes facts: "pr \<in> K" "au \<in> K" "le_event_id pr = effect_prefix key (fq_effect_id e) @ ''/prepared''"
      "le_event_id au = effect_prefix key (fq_effect_id e) @ ''/authorized''"
    and bound: "evidence_from_facts C key (fq_effect_id e) (le_payload pr) (le_payload au) = Ok bound"
  shows "certified C P (apply_post C P key e) K own (recover_receipt C key (effect_prefix key (fq_effect_id e)) bound started)"
  unfolding recover_receipt_def
proof (rule try_find_checked [OF apply_post_simps(3)])
  let ?p = "effect_prefix key (fq_effect_id e)" and ?Q = "apply_post C P key e"
  fix K' and re :: "'a ledger_event"
  assume K': "K \<subseteq> K'" "re \<in> K'" and re: "is_fact key (?p @ ''/receipt'') EffectReceipt re"
  have "?Q K' own (case result of Ok output \<Rightarrow> Ok (DispCompleted (ef_result C output))
      | Err error \<Rightarrow> Ok (DispFailed (tool_error_text error)) | Panic \<Rightarrow> Panic)"
    if "validate_receipt C bound (le_payload re) = Ok result" for result
  proof -
    from K' facts(1,2) have "pr \<in> K'" "au \<in> K'" by blast+
    with facts bound K'(2) re that have "tool_recorded C key (fq_effect_id e) K' result"
      unfolding tool_recorded_def is_fact_def by blast
    then show ?thesis by (cases result) (auto simp: apply_post_def recorded_def intro!: exI [of _ result])
  qed
  then have "certified C P ?Q K' own (trying (Done (exec_invalid (validate_receipt C bound (le_payload re)))) (\<lambda>result.
      Done (case result of Ok output \<Rightarrow> Ok (DispCompleted (ef_result C output))
        | Err error \<Rightarrow> Ok (DispFailed (tool_error_text error)) | Panic \<Rightarrow> Panic)))"
    by (intro try_Done) (auto simp: exec_invalid_def res_simps)
  then show "certified C P ?Q K' own (case Some re of
      None \<Rightarrow> Done (Ok (DispUncertain ''prepared tool has no committed receipt; trusted reconciliation required''))
    | Some event \<Rightarrow>
        if started = None then Done (Err (ExecInvalid ''tool receipt has no start evidence''))
        else trying (Done (exec_invalid (validate_receipt C bound (le_payload event)))) (\<lambda>result.
          Done (case result of Ok output \<Rightarrow> Ok (DispCompleted (ef_result C output))
            | Err error \<Rightarrow> Ok (DispFailed (tool_error_text error)) | Panic \<Rightarrow> Panic)))"
    by simp
qed simp_all

lemma certified_refuse:
  "Q K own (Err er) \<Longrightarrow> (\<not> b \<Longrightarrow> certified C P Q K own m) \<Longrightarrow> certified C P Q K own (if b then Done (Err er) else m)"
  by simp

lemma certified_recover_prepared_tool:
  assumes pr: "pr \<in> K" "le_event_id pr = effect_prefix key (fq_effect_id e) @ ''/prepared''"
  shows "certified C P (apply_post C P key e) K own (recover_prepared_tool C key e pr)"
proof -
  let ?p = "effect_prefix key (fq_effect_id e)" and ?Q = "apply_post C P key e"
  have receipt: "certified C P ?Q K' own (recover_receipt C key ?p bound entered)"
    if "K \<subseteq> K1" "K1 \<subseteq> K2" "au \<in> K2" "is_fact key (?p @ ''/authorized'') EffectAuthorized au" "K2 \<subseteq> K'"
      and "exec_invalid (evidence_from_facts C key (fq_effect_id e) (le_payload pr) (le_payload au)) = Ok bound"
    for K1 K2 K' au bound entered
    by (rule certified_recover_receipt [where pr = pr and au = au])
       (use pr that in \<open>auto simp: is_fact_def exec_invalid_def res_simps\<close>)
  note Q = apply_post_simps(3) [of C P key e]
  show ?thesis
    unfolding recover_prepared_tool_def Let_def
    by (rule try_require_checked [OF Q], simp, rule certified_refuse, simp,
        rule try_require_checked [OF Q], simp, rule try_Done [OF Q], rule certified_refuse, simp,
        rule try_find_checked [OF Q]) (simp_all add: receipt)
qed

lemma certified_no_evidence:
  assumes "benign Q" and "certified C P Q K own (f ())"
    and "\<And>K'. K \<subseteq> K' \<Longrightarrow> certified C P Q K' own (f ())"
  shows "certified C P Q K own (trying (no_evidence key e names) f)"
  using assms(2,3)
proof (induction names arbitrary: K)
  case (Cons name names)
  show ?case
    unfolding no_evidence.simps trying_assoc
    by (rule try_find [OF assms(1)]) (use Cons in \<open>simp_all add: effect_prefix_def trying_def assms(1) [unfolded benign_def]\<close>)
qed simp

lemma certified_apply_effect:
  assumes apart: "\<And>p. p \<in> P \<Longrightarrow> ek_execution_id key @ ''/'' @ ''execution-suspended/'' @ fq_effect_id e \<notin> outcome_ids p"
  shows "certified C P (apply_post C P key e) K own (apply_effect C key e)"
proof -
  let ?p = "effect_prefix key (fq_effect_id e)" and ?Q = "apply_post C P key e"
  note Q = apply_post_simps(3) [of C P key e] and generic = certified_apply_generic [OF apart]
  have saved: "certified C P ?Q K' own (trying (Done (exec_invalid (check_effect_event pr key (?p @ ''/prepared'') EffectPrepared))) (\<lambda>_.
      let kind = ef_as_str C (member_of C (le_payload pr) ''binding_kind'') in
      if kind = Some ''prepared_tool_v1'' then recover_prepared_tool C key e pr
      else if kind = Some ''generic_effect_v1'' then apply_generic C key e
      else Done (Err (ExecInvalid ''missing or unknown effect binding kind''))))"
    if "pr \<in> K'" "le_event_id pr = ?p @ ''/prepared''" for K' pr
    by (rule try_Done [OF Q]) (simp add: Let_def generic certified_recover_prepared_tool that)
  have status: "certified C P ?Q K' own (trying (find_event ExecLedger (?p @ ''/prepared'')) (\<lambda>found.
      case found of
        Some saved \<Rightarrow>
          trying (Done (exec_invalid (check_effect_event saved key (?p @ ''/prepared'') EffectPrepared))) (\<lambda>_.
            let kind = ef_as_str C (member_of C (le_payload saved) ''binding_kind'') in
            if kind = Some ''prepared_tool_v1'' then recover_prepared_tool C key e saved
            else if kind = Some ''generic_effect_v1'' then apply_generic C key e
            else Done (Err (ExecInvalid ''missing or unknown effect binding kind'')))
      | None \<Rightarrow> trying (no_evidence key e [''authorized'', ''started'', ''receipt'']) (\<lambda>_. apply_generic C key e)))" for K'
    by (rule try_find [OF Q]) (simp_all add: saved generic certified_no_evidence [OF Q] del: no_evidence.simps certified_trying_Done)
  show ?thesis
    unfolding apply_effect_def execution_status_def trying_assoc Let_def [of "?p @ ''/prepared''"]
    by (rule try_Done [OF Q], rule try_history [OF Q]) (simp add: status del: no_evidence.simps certified_trying_Done)
qed

section \<open>Reconciliation\<close>

lemma try_reconcile_fact:
  assumes Q: "benign Q" and "i \<noteq> []"
    and "\<And>K' ev. K \<subseteq> K' \<Longrightarrow> ev \<in> K' \<Longrightarrow> is_fact (rr_execution q) i kind ev \<Longrightarrow> certified C P Q K' own (f ev)"
  shows "certified C P Q K own (trying (reconcile_fact q i kind) f)"
  unfolding reconcile_fact_def trying_assoc
proof (rule try_find [OF Q assms(2)], goal_cases)
  case 1
  then show ?case using Q by (simp add: benign_def)
next
  case (2 K' ev)
  then have "certified C P Q K' own (trying (Done (rt_invalid (check_effect_event ev (rr_execution q) i kind))) (\<lambda>_. f ev))"
    by (intro try_Done [OF Q])
       (use assms(3) [of K' ev] in \<open>auto simp: rt_invalid_def check_effect_event_def is_fact_def split: if_splits\<close>)
  then show ?case by (simp del: certified_trying_Done)
qed

lemma try_append_identical:
  assumes Q: "benign Q" and i: "i \<noteq> []" "\<And>p. p \<in> P \<Longrightarrow> i \<notin> outcome_ids p"
    and ok: "\<And>K' ev. K \<subseteq> K' \<Longrightarrow> ev \<in> K' \<Longrightarrow> le_event_id ev = i \<Longrightarrow> le_payload ev = payload \<Longrightarrow> certified C P Q K' own (f ())"
  shows "certified C P Q K own (trying (append_identical q i kind payload) f)"
proof -
  let ?R = "followed_by (\<lambda>K own a. certified C P Q K own (f a)) Q"
  let ?e = "new_event (rr_execution q) i kind payload"
  have R: "benign ?R" using Q by (simp add: benign_def)
  have conflict: "certified C P ?R K own (trying (find_event RtLedger i) (\<lambda>found.
      trying (Done (ok_or found (RtDriver ''conflicting fact unavailable''))) (\<lambda>actual.
        if actual\<lparr>le_cursor := 0\<rparr> = ?e then Done (Ok ()) else Done (Err (RtDriver ''conflicting reconciliation evidence'')))))"
  proof (rule try_find [OF R i(1)], goal_cases)
    case 1
    then show ?case using Q by (simp add: benign_def)
  next
    case (2 K' ev)
    have "le_payload ev = payload" if "ev\<lparr>le_cursor := 0\<rparr> = ?e"
      using arg_cong [OF that, of le_payload] by (simp add: new_event_def)
    with 2 ok [of K' ev] Q show ?case by (simp add: benign_def)
  qed
  have "certified C P ?R K own (append_identical q i kind payload)"
    unfolding append_identical_def Let_def certified_bindp
  proof (rule certified_append)
    show "may_append P K ?e" by (rule may_append_other) (simp add: i(2))
  next
    fix er
    show "certified C P ?R K own (case Err er of
          Ok _ \<Rightarrow> Done (Ok ())
        | Err (LedgerConflict _) \<Rightarrow> trying (find_event RtLedger i) (\<lambda>found.
            trying (Done (ok_or found (RtDriver ''conflicting fact unavailable''))) (\<lambda>actual.
              if actual\<lparr>le_cursor := 0\<rparr> = ?e then Done (Ok ()) else Done (Err (RtDriver ''conflicting reconciliation evidence''))))
        | Err e \<Rightarrow> Done (Err (RtLedger e))
        | Panic \<Rightarrow> Done Panic)"
      using conflict Q by (cases er) (simp_all add: benign_def)
  next
    fix c :: u64
    show "certified C P ?R (insert (?e\<lparr>le_cursor := c\<rparr>) K) own (case Ok (?e\<lparr>le_cursor := c\<rparr>) of
          Ok _ \<Rightarrow> Done (Ok ())
        | Err (LedgerConflict _) \<Rightarrow> trying (find_event RtLedger i) (\<lambda>found.
            trying (Done (ok_or found (RtDriver ''conflicting fact unavailable''))) (\<lambda>actual.
              if actual\<lparr>le_cursor := 0\<rparr> = ?e then Done (Ok ()) else Done (Err (RtDriver ''conflicting reconciliation evidence''))))
        | Err e \<Rightarrow> Done (Err (RtLedger e))
        | Panic \<Rightarrow> Done Panic)"
      using ok [of "insert (?e\<lparr>le_cursor := c\<rparr>) K" "?e\<lparr>le_cursor := c\<rparr>"]
      by (simp add: subset_insertI new_event_fact)
  qed
  then show ?thesis unfolding certified_trying .
qed

definition reconcile_post ::
  "'j effect_codec \<Rightarrow> reconciliation_request \<Rightarrow> 'j ledger_event set \<Rightarrow> 'j ledger_event option
   \<Rightarrow> (driver_error, resolution) res \<Rightarrow> bool" where
  "reconcile_post C q K own r \<longleftrightarrow> (\<forall>t x y z. r = Ok (Committed t x y z) \<longrightarrow> lawful C \<longrightarrow>
     tool_recorded C (rr_execution q) (rr_effect_id q) K (Ok t))"

lemma reconcile_post_simps [simp]:
  "reconcile_post C q K own (Err er)" "reconcile_post C q K own Panic" "benign (reconcile_post C q)"
  "reconcile_post C q K own (Ok (NotCommitted m))" "reconcile_post C q K own (Ok (UnknownEffect m))"
  by (simp_all add: reconcile_post_def benign_def)

lemma committed_output_Ok:
  "committed_output C bound payload m = Ok t \<longleftrightarrow> validate_receipt C bound payload = Ok (Ok t)"
  by (auto simp: committed_output_def rt_invalid_def res_simps)

definition evidence_held ::
  "'j effect_codec \<Rightarrow> execution_key \<Rightarrow> string \<Rightarrow> 'j ledger_event set \<Rightarrow> 'j prepared_evidence \<Rightarrow> bool" where
  "evidence_held C key i K bound \<longleftrightarrow> (\<exists>pr \<in> K. \<exists>au \<in> K.
     le_event_id pr = effect_prefix key i @ ''/prepared'' \<and> le_event_id au = effect_prefix key i @ ''/authorized''
     \<and> evidence_from_facts C key i (le_payload pr) (le_payload au) = Ok bound)"

lemma evidence_held_mono: "evidence_held C key i K bound \<Longrightarrow> K \<subseteq> K' \<Longrightarrow> evidence_held C key i K' bound"
  unfolding evidence_held_def by blast

lemma reconcile_post_recorded:
  assumes "evidence_held C (rr_execution q) (rr_effect_id q) K bound"
    and "re \<in> K" "le_event_id re = effect_prefix (rr_execution q) (rr_effect_id q) @ ''/receipt''"
    and "lawful C \<Longrightarrow> validate_receipt C bound (le_payload re) = Ok (Ok t)"
  shows "reconcile_post C q K own (Ok (Committed t x y z))"
  using assms unfolding evidence_held_def reconcile_post_def tool_recorded_def by blast

text \<open>A validated receipt with a proof: the proof is of the committed result.\<close>

lemma validated_proof:
  assumes "validate_receipt C bound payload = Ok (Ok t)" and "ef_get C payload ''reconciliation'' = Some metadata"
    and "ef_as_resolution C (member_of C metadata ''resolution'') = Some r"
  shows "\<exists>x y z. r = Committed t x y z"
  using assms by (cases r) (auto simp: validate_receipt_def with_reconciliation_def decoded_def res_simps split: if_splits)

lemma certified_reconcile_receipt:
  assumes held: "evidence_held C (rr_execution q) (rr_effect_id q) K bound"
    and re: "re \<in> K" "le_event_id re = effect_prefix (rr_execution q) (rr_effect_id q) @ ''/receipt''"
    and i: "i \<noteq> []" "\<And>p. p \<in> P \<Longrightarrow> i \<notin> outcome_ids p"
  shows "certified C P (reconcile_post C q) K own (reconcile_receipt C bound q i re)"
  unfolding reconcile_receipt_def Let_def
proof (rule try_Done [OF reconcile_post_simps(3)])
  let ?Q = "reconcile_post C q"
  fix t
  assume "committed_output C bound (le_payload re) ''failed receipt is not a committed reconciliation'' = Ok t"
  then have t: "validate_receipt C bound (le_payload re) = Ok (Ok t)" by (simp add: committed_output_Ok)
  have post: "?Q K' own (Ok (Committed t x y z))" if "K \<subseteq> K'" for K' x y z
    by (rule reconcile_post_recorded [OF evidence_held_mono [OF held that] subsetD [OF that re(1)] re(2)]) (rule t)
  let ?observed = "Done (Ok (Committed t (evidence_executor bound) (pc_tool_revision (pv_prepared bound))
           (''durable receipt '' @ le_event_id re)))"
  have repaired: "certified C P ?Q K own (trying (append_identical q i EffectReconciled payload) (\<lambda>_. Done (Ok r)))"
    if "ef_get C (le_payload re) ''reconciliation'' = Some metadata"
      "ef_as_resolution C (member_of C metadata ''resolution'') = Some r" for metadata r payload
    by (rule try_append_identical [OF reconcile_post_simps(3) i]) (use validated_proof [OF t that] post in auto)
  show "certified C P ?Q K own (case ef_get C (le_payload re) ''reconciliation'' of
       None \<Rightarrow> ?observed
     | Some metadata \<Rightarrow>
         trying (Done (rt_invalid (decoded C (ef_as_rc_request C (member_of C metadata ''request''))))) (\<lambda>saved.
         trying (Done (rt_invalid (decoded C (ef_as_resolution C (member_of C metadata ''resolution''))))) (\<lambda>r.
           if saved = q
           then trying (append_identical q i EffectReconciled (decision_payload C q r bound)) (\<lambda>_. Done (Ok r))
           else ?observed)))"
  proof (cases "ef_get C (le_payload re) ''reconciliation''")
    case (Some metadata)
    have "certified C P ?Q K own (trying (Done (rt_invalid (decoded C (ef_as_rc_request C (member_of C metadata ''request''))))) (\<lambda>saved.
         trying (Done (rt_invalid (decoded C (ef_as_resolution C (member_of C metadata ''resolution''))))) (\<lambda>r.
           if saved = q
           then trying (append_identical q i EffectReconciled (decision_payload C q r bound)) (\<lambda>_. Done (Ok r))
           else ?observed)))"
      by (rule try_Done [OF reconcile_post_simps(3)], rule try_Done [OF reconcile_post_simps(3)])
         (use repaired [OF Some] post in \<open>auto simp: rt_invalid_def decoded_def res_simps\<close>)
    with Some show ?thesis by simp
  qed (simp add: post)
qed

lemma try_Inspect:
  "benign Q \<Longrightarrow> (\<And>r. certified C P Q K own (f r)) \<Longrightarrow> certified C P Q K own (trying (Inspect q e g Done) f)"
  by (auto simp: certified_trying intro!: benign_followed)

lemma certified_reconcile_inspected:
  assumes held: "evidence_held C (rr_execution q) (rr_effect_id q) K bound"
    and i: "i \<noteq> []" "\<And>p. p \<in> P \<Longrightarrow> i \<notin> outcome_ids p"
  shows "certified C P (reconcile_post C q) K own
    (reconcile_inspected C bound q (effect_prefix (rr_execution q) (rr_effect_id q) @ ''/receipt'') i)"
proof -
  let ?Q = "reconcile_post C q" and ?i = "effect_prefix (rr_execution q) (rr_effect_id q) @ ''/receipt''"
  note Q = reconcile_post_simps(3) [of C q]
  have receipt: "?i \<noteq> []" "?i \<notin> outcome_ids p" for p by (simp_all add: not_outcome)
  have decide: "certified C P ?Q K' own (trying (append_identical q i EffectReconciled (decision_payload C q r bound)) (\<lambda>_. Done (Ok r)))"
    if "\<And>K'' . K' \<subseteq> K'' \<Longrightarrow> ?Q K'' own (Ok r)" for K' r
    by (rule try_append_identical [OF Q i]) (simp_all add: that)
  have committed: "certified C P ?Q K own (trying (trying (Done (rt_invalid (receipt_payload C bound (Ok t)))) (\<lambda>payload.
        append_identical q ?i EffectReceipt (ef_with C payload ''reconciliation'' (reconciled_proof C q (Committed t x y z))))) (\<lambda>_.
      trying (append_identical q i EffectReconciled (decision_payload C q (Committed t x y z) bound)) (\<lambda>_.
        Done (Ok (Committed t x y z)))))"
    if valid: "validate_resolution bound q (Committed t x y z) = Ok ()" for t x y z
    unfolding trying_assoc
  proof (rule try_Done [OF Q], rule try_append_identical [OF Q receipt])
    fix payload K' and re :: "'a ledger_event"
    assume "rt_invalid (receipt_payload C bound (Ok t)) = Ok payload"
    then have p: "receipt_payload C bound (Ok t) = Ok payload" by (simp add: rt_invalid_def res_simps)
    assume K': "K \<subseteq> K'" "re \<in> K'" "le_event_id re = ?i"
      "le_payload re = ef_with C payload ''reconciliation'' (reconciled_proof C q (Committed t x y z))"
    have "lawful C \<Longrightarrow> validate_receipt C bound (le_payload re) = Ok (Ok t)"
      using receipt_reads_back [OF _ p, of "Some (q, Committed t x y z)"] valid K'(4) by (simp add: with_proof_def proof_agrees_def)
    then show "certified C P ?Q K' own (trying (append_identical q i EffectReconciled
        (decision_payload C q (Committed t x y z) bound)) (\<lambda>_. Done (Ok (Committed t x y z))))"
      using K' by (intro decide reconcile_post_recorded [OF evidence_held_mono [OF held], of _ re]) auto
  qed
  have "certified C P ?Q K own (trying (Done (rt_invalid (validate_resolution bound q r))) (\<lambda>_.
     trying (case r of
         Committed output _ _ _ \<Rightarrow>
           trying (Done (rt_invalid (receipt_payload C bound (Ok output)))) (\<lambda>payload.
             append_identical q ?i EffectReceipt (ef_with C payload ''reconciliation'' (reconciled_proof C q r)))
       | _ \<Rightarrow> Done (Ok ())) (\<lambda>_.
     trying (append_identical q i EffectReconciled (decision_payload C q r bound)) (\<lambda>_.
       Done (Ok r)))))" for r
    by (rule try_Done [OF Q], cases r) (use committed in \<open>simp_all add: decide rt_invalid_def res_simps del: certified_trying_Done\<close>)
  then show ?thesis
    unfolding reconcile_inspected_def by (rule try_Inspect [OF Q])
qed

lemma recorded_decision_committed:
  assumes "recorded_decision C bound q i receipt d = Ok (Committed t x y z)"
  shows "\<exists>re. receipt = Some re \<and> validate_receipt C bound (le_payload re) = Ok (Ok t)"
  using assms by (auto simp: recorded_decision_def validate_decision_receipt_def committed_output_Ok rt_invalid_def res_simps split: if_splits)

lemma certified_reconcile_bound:
  assumes held: "evidence_held C (rr_execution q) (rr_effect_id q) K bound"
    and apart: "\<And>p. p \<in> P \<Longrightarrow> effect_prefix (rr_execution q) (rr_effect_id q) @ ''/reconciliation/'' @ rr_reconciliation_id q \<notin> outcome_ids p"
  shows "certified C P (reconcile_post C q) K own
    (reconcile_bound C bound q (effect_prefix (rr_execution q) (rr_effect_id q)))"
proof -
  let ?Q = "reconcile_post C q" and ?p = "effect_prefix (rr_execution q) (rr_effect_id q)"
  let ?i = "?p @ ''/reconciliation/'' @ rr_reconciliation_id q"
  note Q = reconcile_post_simps(3) [of C q]
  have i: "?i \<noteq> []" by simp
  have decision: "certified C P ?Q K' own (Done (recorded_decision C bound q ?i receipt d))"
    if "K \<subseteq> K'" "\<And>re. receipt = Some re \<Longrightarrow> re \<in> K' \<and> le_event_id re = ?p @ ''/receipt''" for K' receipt d
  proof (rule certified_Done, cases "recorded_decision C bound q ?i receipt d")
    case (Ok r)
    show "?Q K' own (recorded_decision C bound q ?i receipt d)"
    proof (cases r)
      case (Committed t x y z)
      from recorded_decision_committed [OF Ok [unfolded Committed]] that(2) obtain re where
        "re \<in> K'" "le_event_id re = ?p @ ''/receipt''" "validate_receipt C bound (le_payload re) = Ok (Ok t)" by blast
      then show ?thesis unfolding Ok Committed by (intro reconcile_post_recorded [OF evidence_held_mono [OF held that(1)]])
    qed (simp_all only: Ok reconcile_post_simps)
  qed simp_all
  show ?thesis
    unfolding reconcile_bound_def Let_def
  proof (rule try_find [OF Q], simp, goal_cases)
    case 1
    have "certified C P ?Q K own (trying (find_event RtLedger ?i) (\<lambda>decision.
        case decision of
          Some d \<Rightarrow> Done (recorded_decision C bound q ?i None d)
        | None \<Rightarrow> reconcile_inspected C bound q (?p @ ''/receipt'') ?i))"
    proof (rule try_find [OF Q i], goal_cases)
      case 1
      show ?case using certified_reconcile_inspected [OF held i apart] by simp
    next
      case (2 K' d)
      then show ?case using decision [of K' None d] by auto
    qed
    then show ?case unfolding option.case trying_Ok .
  next
    case (2 K' re)
    note held' = evidence_held_mono [OF held 2(1)]
    have "certified C P ?Q K' own (trying (find_event RtLedger ?i) (\<lambda>decision.
        case decision of
          Some d \<Rightarrow> Done (recorded_decision C bound q ?i (Some re) d)
        | None \<Rightarrow> reconcile_receipt C bound q ?i re))"
    proof (rule try_find [OF Q i], goal_cases)
      case 1
      show ?case using certified_reconcile_receipt [OF held' 2(2,3) i apart] by simp
    next
      case (2 K'' d)
      then show ?case using decision [of K'' "Some re" d] \<open>K \<subseteq> K'\<close> \<open>re \<in> K'\<close> \<open>le_event_id re = ?p @ ''/receipt''\<close> by auto
    qed
    then show ?case unfolding option.case by - (rule try_Done [OF Q], assumption)
  qed
qed

lemma certified_reconcile:
  assumes apart: "\<And>p. p \<in> P \<Longrightarrow> effect_prefix (rr_execution q) (rr_effect_id q) @ ''/reconciliation/'' @ rr_reconciliation_id q \<notin> outcome_ids p"
  shows "certified C P (reconcile_post C q) K own (reconcile_tool_effect C q)"
proof -
  let ?p = "effect_prefix (rr_execution q) (rr_effect_id q)"
  note Q = reconcile_post_simps(3) [of C q]
  have bound: "certified C P (reconcile_post C q) K4 own (reconcile_bound C bound q ?p)"
    if "is_fact (rr_execution q) (?p @ ''/prepared'') EffectPrepared pr" "pr \<in> K2"
      "is_fact (rr_execution q) (?p @ ''/authorized'') EffectAuthorized au" "au \<in> K3" "K2 \<subseteq> K3" "K3 \<subseteq> K4"
      "rt_invalid (evidence_from_facts C (rr_execution q) (rr_effect_id q) (le_payload pr) (le_payload au)) = Ok bound"
    for pr au K2 K3 K4 bound
  proof (rule certified_reconcile_bound [OF _ apart])
    show "evidence_held C (rr_execution q) (rr_effect_id q) K4 bound"
      unfolding evidence_held_def
      by (rule bexI [of _ pr], rule bexI [of _ au]) (use that in \<open>auto simp: is_fact_def rt_invalid_def res_simps\<close>)
  qed
  show ?thesis
    unfolding reconcile_tool_effect_def Let_def
    by (rule try_Done [OF Q], rule try_reconcile_fact [OF Q], simp, rule certified_refuse, simp,
        rule try_reconcile_fact [OF Q], simp, rule try_reconcile_fact [OF Q], simp, rule try_Done [OF Q],
        rule try_reconcile_fact [OF Q], simp, rule certified_refuse, simp, rule bound) 
qed

section \<open>The proof of an effect\<close>

text \<open>What a returned proof stands for: six facts of the ledger, in ascending order, that agree.\<close>

definition proof_facts :: "'j effect_codec \<Rightarrow> proof_request \<Rightarrow> 'j ledger_event set \<Rightarrow> 'j effect_proof \<Rightarrow> bool" where
  "proof_facts C q K v \<longleftrightarrow>
     (let key = pq_execution q; p = effect_prefix key (pq_effect_id q) in
      \<exists>ad \<in> K. \<exists>pr \<in> K. \<exists>au \<in> K. \<exists>st \<in> K. \<exists>re \<in> K. \<exists>te \<in> K.
        is_fact key (ek_execution_id key @ ''/execution-started'') ExecutionStarted ad \<and> le_payload ad = ef_execution C key
        \<and> is_fact key (p @ ''/prepared'') EffectPrepared pr \<and> is_fact key (p @ ''/authorized'') EffectAuthorized au
        \<and> is_fact key (p @ ''/started'') EffectStarted st \<and> is_fact key (p @ ''/receipt'') EffectReceipt re
        \<and> is_fact key (co_event_id (pq_terminal q)) (vp_terminal_kind v) te \<and> coordinate_of te = pq_terminal q
        \<and> physical_terminal C te
        \<and> sorted_wrt (<) (map le_cursor [ad, pr, au, st, re, te])
        \<and> (\<exists>bound. evidence_from_facts C key (pq_effect_id q) (le_payload pr) (le_payload au) = Ok bound
            \<and> le_payload st = started_payload C bound \<and> validate_receipt C bound (le_payload re) = Ok (vp_result v)
            \<and> vp_prepared v = pv_prepared bound \<and> vp_scope v = pv_scope bound)
        \<and> vp_sources v = \<lparr>so_admission = coordinate_of ad, so_prepared = coordinate_of pr, so_authorized = coordinate_of au,
            so_started = coordinate_of st, so_receipt = coordinate_of re, so_terminal = coordinate_of te\<rparr>)"

definition proof_post ::
  "'j effect_codec \<Rightarrow> proof_request \<Rightarrow> 'j ledger_event set \<Rightarrow> 'j ledger_event option \<Rightarrow> (proof_error, 'j effect_proof) res \<Rightarrow> bool" where
  "proof_post C q K own r \<longleftrightarrow> (\<forall>v. r = Ok v \<longrightarrow> proof_facts C q K v)"

lemma proof_post_simps [simp]:
  "proof_post C q K own (Err er)" "proof_post C q K own Panic" "benign (proof_post C q)"
  by (simp_all add: proof_post_def benign_def)

lemma try_load_event:
  assumes Q: "benign Q" and "i \<noteq> []"
    and "\<And>K' ev. K \<subseteq> K' \<Longrightarrow> ev \<in> K' \<Longrightarrow> is_fact key i (le_kind ev) ev \<Longrightarrow> certified C P Q K' own (f ev)"
  shows "certified C P Q K own (trying (load_event C key i limit) f)"
  unfolding load_event_def trying_assoc
proof (rule try_find [OF Q assms(2)], goal_cases)
  case 1
  then show ?case using Q by (simp add: benign_def)
next
  case (2 K' ev)
  then have "certified C P Q K' own (trying (Done (check_loaded C key i limit ev)) (\<lambda>_. f ev))"
    by (intro try_Done [OF Q])
       (use assms(3) [of K' ev] in \<open>auto simp: check_loaded_def event_mismatch_def check_effect_event_def is_fact_def res_simps split: if_splits\<close>)
  then show ?case by (simp del: certified_trying_Done)
qed

lemma try_require_event:
  assumes Q: "benign Q" and "i \<noteq> []"
    and "\<And>K' ev. K \<subseteq> K' \<Longrightarrow> ev \<in> K' \<Longrightarrow> is_fact key i kind ev \<Longrightarrow> certified C P Q K' own (f ev)"
  shows "certified C P Q K own (trying (require_event C key i kind limit) f)"
  unfolding require_event_def trying_assoc trying_Ok
  by (rule try_load_event [OF Q assms(2)], rule try_Done [OF Q])
     (use assms(3) in \<open>auto simp: event_mismatch_def check_effect_event_def is_fact_def res_simps split: if_splits\<close>)

lemma refuse_Ok: "(if b then Err e else r) = Ok v \<longleftrightarrow> \<not> b \<and> r = Ok v"
  by simp

lemma prove_effect_Ok:
  assumes "prove_effect C q ad pr au st re te = Ok v"
  shows "sorted_wrt (<) (map le_cursor [ad, pr, au, st, re, te])
    \<and> (\<exists>bound. evidence_from_facts C (pq_execution q) (pq_effect_id q) (le_payload pr) (le_payload au) = Ok bound
      \<and> le_payload st = started_payload C bound \<and> validate_receipt C bound (le_payload re) = Ok (vp_result v)
      \<and> vp_prepared v = pv_prepared bound \<and> vp_scope v = pv_scope bound)
    \<and> vp_terminal_kind v = le_kind te
    \<and> vp_sources v = \<lparr>so_admission = coordinate_of ad, so_prepared = coordinate_of pr, so_authorized = coordinate_of au,
            so_started = coordinate_of st, so_receipt = coordinate_of re, so_terminal = coordinate_of te\<rparr>"
  using assms unfolding prove_effect_def refuse_Ok not_not event_mismatch_def
  by (elim conjE) (auto simp: res_simps refuse_Ok simp del: bounded_members.simps sorted_wrt.simps list.map)

lemma certified_prove_effect:
  assumes held: "{ad, pr, au, st, re, te} \<subseteq> K"
    and facts: "is_fact (pq_execution q) (ek_execution_id (pq_execution q) @ ''/execution-started'') ExecutionStarted ad"
      "is_fact (pq_execution q) (effect_prefix (pq_execution q) (pq_effect_id q) @ ''/prepared'') EffectPrepared pr"
      "is_fact (pq_execution q) (effect_prefix (pq_execution q) (pq_effect_id q) @ ''/authorized'') EffectAuthorized au"
      "is_fact (pq_execution q) (effect_prefix (pq_execution q) (pq_effect_id q) @ ''/started'') EffectStarted st"
      "is_fact (pq_execution q) (effect_prefix (pq_execution q) (pq_effect_id q) @ ''/receipt'') EffectReceipt re"
      "is_fact (pq_execution q) (co_event_id (pq_terminal q)) (le_kind te) te"
    and admission: "\<not> le_payload ad \<noteq> ef_execution C (pq_execution q)"
    and terminal: "\<not> (le_cursor te \<noteq> co_cursor (pq_terminal q) \<or> \<not> physical_terminal C te)"
  shows "certified C P (proof_post C q) K own (Done (prove_effect C q ad pr au st re te))"
proof -
  have "proof_facts C q K v" if v: "prove_effect C q ad pr au st re te = Ok v" for v
  proof -
    from prove_effect_Ok [OF v] obtain bound where
      ascending: "sorted_wrt (<) (map le_cursor [ad, pr, au, st, re, te])" and kind: "vp_terminal_kind v = le_kind te"
      and bound: "evidence_from_facts C (pq_execution q) (pq_effect_id q) (le_payload pr) (le_payload au) = Ok bound"
        "le_payload st = started_payload C bound" "validate_receipt C bound (le_payload re) = Ok (vp_result v)"
        "vp_prepared v = pv_prepared bound" "vp_scope v = pv_scope bound"
      and sources: "vp_sources v = \<lparr>so_admission = coordinate_of ad, so_prepared = coordinate_of pr,
          so_authorized = coordinate_of au, so_started = coordinate_of st, so_receipt = coordinate_of re,
          so_terminal = coordinate_of te\<rparr>" by blast
    have te: "coordinate_of te = pq_terminal q" "physical_terminal C te"
      using facts(6) terminal by (simp_all add: coordinate_of_def is_fact_def)
    have ids: "ad \<in> K" "pr \<in> K" "au \<in> K" "st \<in> K" "re \<in> K" "te \<in> K" using held by simp_all
    note all = facts(1) admission [unfolded not_not] facts(2-5) facts(6) [folded kind] te ascending bound sources
    show ?thesis
      unfolding proof_facts_def Let_def
      by (rule bexI [OF _ ids(1)], rule bexI [OF _ ids(2)], rule bexI [OF _ ids(3)], rule bexI [OF _ ids(4)],
          rule bexI [OF _ ids(5)], rule bexI [OF _ ids(6)], intro conjI exI [of _ bound], (rule all)+)
  qed
  then show ?thesis by (simp add: proof_post_def)
qed

lemma certified_proof: "certified C P (proof_post C q) K own (inspect_effect_proof C q)"
proof (cases "validate_proof_request q")
  case (Ok u)
  then have i: "co_event_id (pq_terminal q) \<noteq> []" by (auto simp: validate_proof_request_def res_simps blank_def split: if_splits)
  note Q = proof_post_simps(3) [of C q]
  show ?thesis
    unfolding inspect_effect_proof_def Let_def
    by (rule try_Done [OF Q], rule try_load_event [OF Q i], rule certified_refuse, simp,
        rule try_require_event [OF Q], simp, rule certified_refuse, simp,
        rule try_require_event [OF Q], simp, rule try_require_event [OF Q], simp, rule try_require_event [OF Q], simp,
        rule try_require_event [OF Q], simp, rule certified_prove_effect,
        unfold insert_subset, intro conjI empty_subsetI) (assumption | erule subsetD)+
qed (simp_all add: inspect_effect_proof_def)

end
