(* ===== verification/Effect_Tool_Operations.thy ===== *)
theory Effect_Tool_Operations
  imports Effect_Operations
begin

text \<open>
  The invocation of a durable tool, certified: it enters the tool only behind its own recorded evidence, and a
  result it returns is the one the receipt of the ledger holds.
\<close>

section \<open>Programs that only ask\<close>

text \<open>A quiet program appends nothing and executes nothing.\<close>

definition quiet :: "'j effect_codec \<Rightarrow> string set \<Rightarrow> ('j, 'a) prog \<Rightarrow> bool" where
  "quiet C P m \<longleftrightarrow> (\<forall>Q K own. (\<forall>K' r. K \<subseteq> K' \<longrightarrow> Q K' own r) \<longrightarrow> certified C P Q K own m)"

lemma quietD: "quiet C P m \<Longrightarrow> (\<And>K' r. K \<subseteq> K' \<Longrightarrow> Q K' own r) \<Longrightarrow> certified C P Q K own m"
  by (simp add: quiet_def)

lemma quiet_Done [intro]: "quiet C P (Done r)"
  by (simp add: quiet_def)

lemma quiet_bindp: "quiet C P m \<Longrightarrow> (\<And>a. quiet C P (f a)) \<Longrightarrow> quiet C P (bindp m f)"
  unfolding quiet_def [of C P "bindp m f"] certified_bindp
  by (intro allI impI, rule quietD, assumption, rule quietD) (auto dest: order_trans)

lemma quiet_trying: "quiet C P m \<Longrightarrow> (\<And>a. quiet C P (f a)) \<Longrightarrow> quiet C P (trying m f)"
  unfolding trying_def by (rule quiet_bindp) (auto split: res.split)

lemma quiet_with_error: "quiet C P m \<Longrightarrow> quiet C P (with_error w m)"
  unfolding with_error_def by (rule quiet_bindp) auto

lemma quiet_ports:
  "(\<And>a. quiet C P (k a)) \<Longrightarrow> quiet C P (Live q k)" "(\<And>a. quiet C P (k1 a)) \<Longrightarrow> quiet C P (BeforeEffect hx k1)"
  "(\<And>a. quiet C P (k2 a)) \<Longrightarrow> quiet C P (Observe ob k2)" "(\<And>a. quiet C P (k3 a)) \<Longrightarrow> quiet C P (Reprepare tc k3)"
  by (simp_all add: quiet_def)

lemma quiet_find: "i \<noteq> [] \<Longrightarrow> quiet C P (find_event wrap i)"
  unfolding quiet_def by (auto intro!: certified_find)

lemma quiet_check_live: "quiet C P (check_live hx)"
  unfolding check_live_def by (intro quiet_ports) (auto intro!: quiet_ports)

lemma quiet_hook_wait: "quiet C P m \<Longrightarrow> quiet C P (hook_wait hx m)"
  unfolding hook_wait_def by (intro quiet_trying quiet_check_live quiet_bindp) auto

lemma quiet_from_ack: "quiet C P (from_ack C bound e)"
proof (cases "check_effect_event e (sc_execution (pv_scope bound)) (evidence_prefix bound @ ''/receipt'') EffectReceipt")
  case (Ok u)
  then have "le_event_id e \<noteq> []" by (auto simp: check_effect_event_def split: if_splits)
  then show ?thesis
    unfolding from_ack_def Ok by (intro quiet_with_error quiet_trying quiet_Done quiet_find) (auto intro!: quiet_trying)
qed (auto simp: from_ack_def trying_def intro!: quiet_with_error)

lemma quiet_observe: "quiet C P (observe_receipt C bound hx phase observation e)"
  unfolding observe_receipt_def
  by (intro quiet_trying quiet_with_error quiet_check_live quiet_from_ack quiet_hook_wait quiet_ports quiet_Done)

lemma quiet_before: "quiet C P (before_hooks C iv hx)"
  unfolding before_hooks_def
  by (intro quiet_trying quiet_with_error quiet_check_live quiet_hook_wait quiet_bindp quiet_ports quiet_Done)
     (auto intro!: quiet_Done)

lemma live_guard:
  "benign Q \<Longrightarrow> certified C P Q K own m \<Longrightarrow> certified C P Q K own (Live q (\<lambda>b. if b then Done (Err e) else m))"
  by (simp add: benign_def)

lemma try_quiet:
  assumes "benign Q" and "quiet C P m" and "\<And>K' a. K \<subseteq> K' \<Longrightarrow> certified C P Q K' own (f a)"
  shows "certified C P Q K own (trying m f)"
  unfolding certified_trying
  by (rule quietD [OF assms(2)], rule benign_followed) (use assms(1,3) in simp_all)


section \<open>Uncertain effects\<close>

lemma suffix_plain:
  "4 \<le> length s \<Longrightarrow> take 4 (rev s) \<notin> {''dete'', ''deli''} \<Longrightarrow>
    may_append P K (new_event key (ek_execution_id key @ ''/'' @ effect_suffix e s) kind payload)"
  unfolding suffix_id by (auto intro!: may_append_other dest: not_outcome)

lemma certified_uncertain: "benign Q \<Longrightarrow> certified C P Q K own (uncertain_tool C key bound m)"
  unfolding uncertain_tool_def driver_append_def certified_bindp
  by (rule certified_append_fact [OF _ refl]) (auto simp: benign_def suffix_plain [simplified])

lemma certified_certain:
  fixes m :: "('j, ('e, 'a) res) prog"
  assumes "benign Q" and "certified C P (\<lambda>K own r. \<forall>a. r = Ok a \<longrightarrow> certified C P Q K own (f a)) K own m"
  shows "certified C P Q K own (certain C key bound message m f)"
  unfolding certain_def certified_bindp
proof (rule certified_mono [OF assms(2)])
  fix K own and r :: "('e, 'a) res"
  assume "\<forall>a. r = Ok a \<longrightarrow> certified C P Q K own (f a)"
  then show "certified C P Q K own (case r of Ok a \<Rightarrow> f a | Err e \<Rightarrow> uncertain_tool C key bound (message e) | Panic \<Rightarrow> Done Panic)"
    using certified_uncertain [OF assms(1)] assms(1) by (cases r) (simp_all add: benign_def)
qed

lemma certain_Done:
  "benign Q \<Longrightarrow> (\<And>a. r = Ok a \<Longrightarrow> certified C P Q K own (f a)) \<Longrightarrow>
    certified C P Q K own (certain C key bound message (Done r) f)"
  by (rule certified_certain) simp_all

lemma certain_verify:
  "benign Q \<Longrightarrow> certified C P Q K own (f ()) \<Longrightarrow> certified C P Q K own (certain C key bound message (VerifyWait w Done) f)"
  by (rule certified_certain) simp_all

lemma certain_append:
  assumes Q: "benign Q" and "i = ek_execution_id key @ ''/'' @ name" and "may_append P K (new_event key i kind payload)"
    and "\<And>K' ev. K \<subseteq> K' \<Longrightarrow> ev \<in> K' \<Longrightarrow> is_fact key i kind ev \<Longrightarrow> le_payload ev = payload \<Longrightarrow> certified C P Q K' own (f ev)"
  shows "certified C P Q K own (certain C key' bound message (driver_append key name kind payload) f)"
  unfolding driver_append_def
  by (rule certified_certain [OF Q], rule certified_append_fact [OF _ assms(2,3)]) (use assms(4) in \<open>auto simp: benign_def\<close>)

lemma try_tool_append:
  assumes Q: "benign Q" and "i = ek_execution_id key @ ''/'' @ name" and "may_append P K (new_event key i kind payload)"
    and "\<And>K' ev. K \<subseteq> K' \<Longrightarrow> ev \<in> K' \<Longrightarrow> is_fact key i kind ev \<Longrightarrow> le_payload ev = payload \<Longrightarrow> certified C P Q K' own (f ev)"
  shows "certified C P Q K own (trying (tool_append C key name kind payload) f)"
  unfolding certified_trying tool_append_def with_error_def driver_append_def certified_bindp
  by (rule certified_append_fact [OF _ assms(2,3)]) (use Q assms(4) in \<open>auto simp: benign_def\<close>)

section \<open>The facts of an invocation\<close>

definition fact_held ::
  "execution_key \<Rightarrow> 'j ledger_event set \<Rightarrow> string \<Rightarrow> ledger_event_kind \<Rightarrow> 'j \<Rightarrow> bool" where
  "fact_held key K i kind payload \<longleftrightarrow> (\<exists>e \<in> K. is_fact key i kind e \<and> le_payload e = payload)"

lemma fact_held_mono: "fact_held key K i kind payload \<Longrightarrow> K \<subseteq> K' \<Longrightarrow> fact_held key K' i kind payload"
  by (auto simp: fact_held_def)

definition prepared_held :: "'j effect_codec \<Rightarrow> execution_key \<Rightarrow> 'j ledger_event set \<Rightarrow> 'j prepared_evidence \<Rightarrow> bool" where
  "prepared_held C key K bound \<longleftrightarrow> fact_held key K (evidence_prefix bound @ ''/prepared'') EffectPrepared (prepared_payload C bound)"

definition authorized_held :: "'j effect_codec \<Rightarrow> execution_key \<Rightarrow> 'j ledger_event set \<Rightarrow> 'j prepared_evidence \<Rightarrow> bool" where
  "authorized_held C key K bound \<longleftrightarrow>
     fact_held key K (evidence_prefix bound @ ''/authorized'') EffectAuthorized (authorized_payload C bound)"

lemma held_mono:
  "prepared_held C key K bound \<Longrightarrow> K \<subseteq> K' \<Longrightarrow> prepared_held C key K' bound"
  "authorized_held C key K bound \<Longrightarrow> K \<subseteq> K' \<Longrightarrow> authorized_held C key K' bound"
  by (simp_all add: prepared_held_def authorized_held_def fact_held_mono)

lemma receipt_recorded:
  assumes "lawful C" and new: "evidence_new C p g s policy key = Ok bound"
    and held: "prepared_held C key K bound" "authorized_held C key K bound"
    and re: "re \<in> K" "le_event_id re = evidence_prefix bound @ ''/receipt''" "validate_receipt C bound (le_payload re) = Ok result"
  shows "tool_recorded C key (fq_effect_id (pv_request bound)) K result"
proof -
  from held obtain pr au where f: "pr \<in> K" "au \<in> K" "is_fact key (evidence_prefix bound @ ''/prepared'') EffectPrepared pr"
    "is_fact key (evidence_prefix bound @ ''/authorized'') EffectAuthorized au"
    "le_payload pr = prepared_payload C bound" "le_payload au = authorized_payload C bound"
    unfolding prepared_held_def authorized_held_def fact_held_def by blast
  then have ids: "le_event_id pr = effect_prefix key (fq_effect_id (pv_request bound)) @ ''/prepared''"
    "le_event_id au = effect_prefix key (fq_effect_id (pv_request bound)) @ ''/authorized''"
    unfolding evidence_new_binds(2) [OF new] by (simp_all add: is_fact_def)
  show ?thesis
    unfolding tool_recorded_def
    by (rule bexI [OF _ f(1)], rule bexI [OF _ f(2)], rule bexI [OF _ re(1)], rule exI [of _ bound])
       (use ids f(5,6) re(2,3) evidence_reads_back [OF assms(1) new] evidence_new_binds(2) [OF new] in simp)
qed

definition tool_post ::
  "'j effect_codec \<Rightarrow> durable_tools \<Rightarrow> 'j invocation \<Rightarrow> 'j ledger_event set \<Rightarrow> 'j ledger_event option
   \<Rightarrow> (tool_error, 'j tool_outcome) res \<Rightarrow> bool" where
  "tool_post C D iv K own r \<longleftrightarrow>
     (\<forall>t. r = Ok (OutcomeCompleted t) \<longrightarrow> lawful C \<longrightarrow> tool_recorded C (dt_key D) (invocation_effect iv) K (Ok t))"

lemma tool_post_simps [simp]:
  "tool_post C D iv K own (Err e)" "tool_post C D iv K own Panic" "benign (tool_post C D iv)"
  "tool_post C D iv K own (Ok (OutcomeAwaiting w))"
  by (simp_all add: tool_post_def benign_def)


section \<open>The steps of an invocation\<close>

lemma fact_checked: "check_effect_event e key i kind = Ok u \<Longrightarrow> is_fact key i kind e"
  by (auto simp: check_effect_event_def is_fact_def split: if_splits)

lemma certified_entered:
  assumes Q: "benign Q" and new: "evidence_new C p g s policy key = Ok bound"
    and ok: "\<And>K'. K \<subseteq> K' \<Longrightarrow> authorized_held C key K' bound \<Longrightarrow> Q K' own (Ok ())"
  shows "certified C P Q K own (check_entered C bound key)"
  unfolding check_entered_def tool_find_def Let_def evidence_new_binds(8) [OF new]
proof (rule try_find [OF Q], simp, goal_cases)
  case 1
  show ?case using Q by (simp add: benign_def)
next
  case (2 K' au)
  show ?case
    unfolding ok_or.simps trying_Ok
  proof (rule try_Done [OF Q])
    fix u
    assume "check_effect_event au key (evidence_prefix bound @ ''/authorized'') EffectAuthorized = Ok u"
    note au = fact_checked [OF this]
    show "certified C P Q K' own
        (if le_payload au \<noteq> authorized_payload C bound then Done (Err (ToolFailed ''wait authorization mismatch''))
         else trying (find_event (\<lambda>e. ToolFailed (ledger_error_text C e)) (evidence_prefix bound @ ''/started'')) (\<lambda>found.
           trying (Done (ok_or found (ToolFailed ''wait has no durable start''))) (\<lambda>started.
           trying (Done (check_effect_event started key (evidence_prefix bound @ ''/started'') EffectStarted)) (\<lambda>_.
           if le_payload started \<noteq> started_payload C bound
           then Done (Err (ToolFailed ''wait start binding mismatch'')) else Done (Ok ())))))"
    proof (cases "le_payload au = authorized_payload C bound")
      case True
      have held: "Q K'' own (Ok ())" if "K' \<subseteq> K''" for K''
        using ok [of K''] 2 au True that unfolding authorized_held_def fact_held_def by blast
      have "certified C P Q K'' own (trying (Done (check_effect_event st key (evidence_prefix bound @ ''/started'') EffectStarted)) (\<lambda>_.
          if le_payload st \<noteq> started_payload C bound
          then Done (Err (ToolFailed ''wait start binding mismatch'')) else Done (Ok ())))" if "K' \<subseteq> K''" for K'' st
        by (rule try_Done [OF Q]) (use held [OF that] Q in \<open>simp add: benign_def\<close>)
      moreover have "certified C P Q K' own (trying (Done (ok_or None (ToolFailed ''wait has no durable start''))) f')" for f'
        using Q by (simp add: benign_def)
      ultimately show ?thesis using True by (auto intro!: try_find [OF Q] simp del: certified_trying_Done)
    qed (use Q in \<open>simp add: benign_def\<close>)
  qed
qed

lemma certified_recorded_fact:
  assumes Q: "benign Q" and new: "evidence_new C p g s policy key = Ok bound" and "certified C P Q K own (f None)"
    and some: "\<And>K' e. K \<subseteq> K' \<Longrightarrow> e \<in> K' \<Longrightarrow> le_event_id e = evidence_prefix bound @ name \<Longrightarrow> authorized_held C key K' bound \<Longrightarrow>
      certified C P Q K' own (f (Some e))"
    and "name \<noteq> []"
  shows "certified C P Q K own (recorded_fact C key bound name kind identity authority f)"
  unfolding recorded_fact_def tool_find_def Let_def
proof (rule try_find [OF Q])
  fix K' and e :: "'a ledger_event"
  assume K': "K \<subseteq> K'" "e \<in> K'" "le_event_id e = evidence_prefix bound @ name"
  have "certified C P Q K' own (certain C key bound (\<lambda>e. authority @ tool_error_text e) (check_entered C bound key) (\<lambda>_. f (Some e)))"
    by (rule certified_certain [OF Q], rule certified_entered [OF _ new])
       (use some [OF order_trans [OF K'(1)] subsetD [OF _ K'(2)] K'(3)] in \<open>auto simp: benign_def\<close>)
  then show "certified C P Q K' own (case Some e of
      None \<Rightarrow> f None
    | Some event \<Rightarrow>
        certain C key bound (\<lambda>e. identity @ tool_error_text e) (Done (check_effect_event event key (evidence_prefix bound @ name) kind)) (\<lambda>_.
        certain C key bound (\<lambda>e. authority @ tool_error_text e) (check_entered C bound key) (\<lambda>_. f (Some event))))"
    by (simp add: certain_Done [OF Q])
qed (use assms in simp_all)

lemma certified_observed:
  "benign Q \<Longrightarrow> (\<And>K'. K \<subseteq> K' \<Longrightarrow> certified C P Q K' own (f ())) \<Longrightarrow>
    certified C P Q K own (trying (if b then observe_receipt C bound hx phase observation e else Done (Ok ())) f)"
  by (rule try_quiet) (auto intro!: quiet_observe)

lemma certified_saved_receipt:
  assumes new: "evidence_new C (iv_prepared iv) (iv_grant iv) (iv_scope iv) (iv_policy_revision iv) (dt_key D) = Ok bound"
    and held: "prepared_held C (dt_key D) K bound" "authorized_held C (dt_key D) K bound"
    and re: "re \<in> K" "le_event_id re = evidence_prefix bound @ ''/receipt''"
  shows "certified C P (tool_post C D iv) K own (saved_receipt C D bound hx re)"
  unfolding saved_receipt_def
proof (rule certain_Done [OF tool_post_simps(3)], rule certified_observed [OF tool_post_simps(3)])
  fix result K'
  assume v: "validate_receipt C bound (le_payload re) = Ok result" and K': "K \<subseteq> K'"
  have "tool_recorded C (dt_key D) (invocation_effect iv) K' result" if "lawful C"
    using receipt_recorded [OF that new held_mono(1) [OF held(1) K'] held_mono(2) [OF held(2) K'] subsetD [OF K' re(1)] re(2) v]
    by (simp add: evidence_new_binds(1) [OF new] invocation_effect_def)
  then show "certified C P (tool_post C D iv) K' own (Done (bindr result (\<lambda>r. Ok (OutcomeCompleted r))))"
    by (cases result) (simp_all add: tool_post_def)
qed

lemma certified_saved_wait: "certified C P (tool_post C D iv) K own (saved_wait C D bound e)"
  unfolding saved_wait_def with_error_def
  by (rule certain_Done [OF tool_post_simps(3)])
     (auto simp: certified_trying certified_bindp intro!: benign_followed)

lemma may_append_waiting: "may_append P K (waiting_event key bound payload)"
  by (rule may_append_other) (simp add: waiting_event_def not_outcome)

lemma certified_entered_before: "certified C P (tool_post C D iv) K own (entered_before C D bound)"
proof -
  note Q = tool_post_simps(3) [of C D iv]
  have admitted: "certified C P (tool_post C D iv) K own (bindp (admit_event (waiting_event (dt_key D) bound payload)) (\<lambda>admitted.
      case admitted of
        Ok _ \<Rightarrow> Done (Ok (OutcomeAwaiting w))
      | Err (LedgerCancelled _) \<Rightarrow> Done (Err ToolCancelled)
      | Err e \<Rightarrow> uncertain_tool C (dt_key D) bound (ledger_error_text C e)
      | Panic \<Rightarrow> Done Panic))" for payload w
    unfolding certified_bindp
  proof (rule certified_admit [OF may_append_waiting])
    fix er
    show "certified C P (tool_post C D iv) K own (case Err er of
        Ok _ \<Rightarrow> Done (Ok (OutcomeAwaiting w))
      | Err (LedgerCancelled _) \<Rightarrow> Done (Err ToolCancelled)
      | Err e \<Rightarrow> uncertain_tool C (dt_key D) bound (ledger_error_text C e)
      | Panic \<Rightarrow> Done Panic)" by (cases er) (simp_all add: certified_uncertain)
  qed simp
  show ?thesis
    unfolding entered_before_def Let_def
    by (rule certified_certain [OF Q])
       (auto simp: certified_uncertain admitted simp del: certified_trying_Done ledger_error_text.simps split: option.split
         intro!: certain_Done [OF Q] certain_verify [OF Q] try_Done [OF Q])
qed

lemma certified_publish_wait: "certified C P (tool_post C D iv) K own (publish_wait C D bound w)"
proof -
  note Q = tool_post_simps(3) [of C D iv]
  show ?thesis
    unfolding publish_wait_def Let_def
    by (rule certain_Done [OF Q], rule certain_verify [OF Q], rule certified_certain [OF Q],
        rule certified_admit [OF may_append_waiting]) simp_all
qed


section \<open>Execution\<close>

lemma certified_record_result:
  assumes new: "evidence_new C (iv_prepared iv) (iv_grant iv) (iv_scope iv) (iv_policy_revision iv) (dt_key D) = Ok bound"
    and held: "prepared_held C (dt_key D) K bound" "authorized_held C (dt_key D) K bound"
  shows "certified C P (tool_post C D iv) K own (record_result C D bound hx result)"
proof -
  let ?key = "dt_key D" and ?e = "pv_request bound" and ?Q = "tool_post C D iv"
  let ?p = "effect_prefix ?key (fq_effect_id ?e)"
  note Q = tool_post_simps(3) [of C D iv] and path = evidence_new_binds(2) [OF new]
  have final: "certified C P ?Q K' own (trying (if dt_hooks D then observe_receipt C bound hx ''after_receipt'' AfterReceipt re
        else Done (Ok ())) (\<lambda>_. Done (bindr result (\<lambda>r. Ok (OutcomeCompleted r)))))"
    if K': "K \<subseteq> K'" "re \<in> K'" and re: "le_event_id re = ?p @ ''/receipt''" "receipt_payload C bound result = Ok (le_payload re)"
    for K' re
  proof (rule certified_observed [OF Q])
    fix K''
    assume K'': "K' \<subseteq> K''"
    note sub = order_trans [OF K'(1) K'']
    have "tool_recorded C ?key (invocation_effect iv) K'' result" if l: "lawful C"
    proof -
      have "validate_receipt C bound (le_payload re) = Ok result"
        using receipt_reads_back [OF l re(2), of None] by (simp add: with_proof_def proof_agrees_def)
      from receipt_recorded [OF l new held_mono(1) [OF held(1) sub] held_mono(2) [OF held(2) sub] subsetD [OF K'' K'(2)] _ this]
      show ?thesis using re(1) by (simp add: path evidence_new_binds(1) [OF new] invocation_effect_def)
    qed
    then show "certified C P ?Q K'' own (Done (bindr result (\<lambda>r. Ok (OutcomeCompleted r))))"
      by (cases result) (simp_all add: tool_post_def)
  qed
  show ?thesis
    unfolding record_result_def Let_def
  proof (rule certain_Done [OF Q], rule certain_append [OF Q refl suffix_plain], simp, simp)
    fix payload K' re
    assume payload: "receipt_payload C bound result = Ok payload" "le_payload re = payload"
      and K': "K \<subseteq> K'" "re \<in> K'" and re: "is_fact ?key (ek_execution_id ?key @ ''/'' @ effect_suffix ?e ''/receipt'') EffectReceipt re"
    from re have id: "le_event_id re = ?p @ ''/receipt''" "le_execution_id re = ek_execution_id ?key"
      unfolding suffix_id by (simp_all add: is_fact_def)
    have may: "may_append P K' (new_event ?key (ek_execution_id ?key @ ''/'' @ effect_suffix ?e s) kind payload)"
      if "s \<in> {''/completed'', ''/failed''}" for s kind
      using that K'(2) id unfolding suffix_id by (auto simp: may_append_def preceded_def outcome_id_cancel)
    have last: "certified C P ?Q K'' own (trying (if dt_hooks D then observe_receipt C bound hx ''after_receipt'' AfterReceipt re
        else Done (Ok ())) (\<lambda>_. Done (bindr result (\<lambda>r. Ok (OutcomeCompleted r)))))" if "K' \<subseteq> K''" for K''
      by (rule final) (use K' that id payload in auto)
    show "certified C P ?Q K' own (certain C ?key bound (\<lambda>e. ''effect completion projection failed: '' @ driver_error_text C e)
        (if is_ok result then driver_append ?key (effect_suffix ?e ''/completed'') EffectCompleted payload
         else driver_append ?key (effect_suffix ?e ''/failed'') EffectFailed payload) (\<lambda>_.
      trying (if dt_hooks D then observe_receipt C bound hx ''after_receipt'' AfterReceipt re else Done (Ok ())) (\<lambda>_.
        Done (bindr result (\<lambda>r. Ok (OutcomeCompleted r))))))"
    proof (cases "is_ok result")
      case True
      show ?thesis unfolding if_P [OF True] by (rule certain_append [OF Q refl may last]) simp_all
    next
      case False
      show ?thesis unfolding if_not_P [OF False] by (rule certain_append [OF Q refl may last]) simp_all
    qed
  qed
qed

lemma certified_enter_tool:
  assumes new: "evidence_new C (iv_prepared iv) (iv_grant iv) (iv_scope iv) (iv_policy_revision iv) (dt_key D) = Ok bound"
    and held: "prepared_held C (dt_key D) K bound"
  shows "certified C P (tool_post C D iv) K own (enter_tool C D iv bound hx)"
proof -
  let ?key = "dt_key D" and ?e = "pv_request bound" and ?Q = "tool_post C D iv"
  note Q = tool_post_simps(3) [of C D iv] and path = evidence_new_binds(2) [OF new]
  let ?st = "new_event ?key (evidence_prefix bound @ ''/started'') EffectStarted (started_payload C bound)"
  let ?outcome = "\<lambda>outcome. case outcome of
      Ok (OutcomeCompleted r) \<Rightarrow> record_result C D bound hx (Ok r)
    | Ok (OutcomeAwaiting w) \<Rightarrow> publish_wait C D bound w
    | Err (Uncertain m) \<Rightarrow> uncertain_tool C ?key bound (tool_error_text (Uncertain m))
    | Err e \<Rightarrow> record_result C D bound hx (Err e)
    | Panic \<Rightarrow> Done Panic"
  have outcome: "certified C P ?Q K' None (?outcome r)"
    if "prepared_held C ?key K' bound" "authorized_held C ?key K' bound" for K' r
    using certified_record_result [OF new that, of P None hx] certified_publish_wait [of C P D iv K' None bound]
      certified_uncertain [OF Q, of C P K' None]
    by (simp split: res.split tool_outcome.split tool_error.split del: tool_error_text.simps)
  have entered: "certified C P ?Q K' own (bindp (admit_event ?st) (\<lambda>started.
      case started of
        Ok _ \<Rightarrow> RunTool ?key iv ?outcome
      | Err (LedgerCancelled _) \<Rightarrow> Done (Err ToolCancelled)
      | Err e \<Rightarrow> Done (Err (Uncertain (''effect entry outcome is not proven: '' @ ledger_error_text C e)))
      | Panic \<Rightarrow> Done Panic))"
    if facts: "prepared_held C ?key K' bound" "authorized_held C ?key K' bound" for K'
    unfolding certified_bindp
  proof (rule certified_admit)
    show "may_append P K' ?st" by (rule may_append_other) (simp add: not_outcome)
  next
    fix er
    show "certified C P ?Q K' own (case Err er of
        Ok _ \<Rightarrow> RunTool ?key iv ?outcome
      | Err (LedgerCancelled _) \<Rightarrow> Done (Err ToolCancelled)
      | Err e \<Rightarrow> Done (Err (Uncertain (''effect entry outcome is not proven: '' @ ledger_error_text C e)))
      | Panic \<Rightarrow> Done Panic)" by (cases er) simp_all
  next
    fix c :: u64
    assume c: "\<forall>x \<in> K'. le_cursor x < c"
    let ?ev = "?st\<lparr>le_cursor := c\<rparr>"
    have "\<exists>pr \<in> insert ?ev K'. is_fact ?key (evidence_prefix bound @ ''/prepared'') EffectPrepared pr
        \<and> le_payload pr = prepared_payload C bound \<and> le_cursor pr < le_cursor ?ev"
      using facts(1) c unfolding prepared_held_def fact_held_def by auto
    moreover have "\<exists>au \<in> insert ?ev K'. is_fact ?key (evidence_prefix bound @ ''/authorized'') EffectAuthorized au
        \<and> le_payload au = authorized_payload C bound \<and> le_cursor au < le_cursor ?ev"
      using facts(2) c unfolding authorized_held_def fact_held_def by auto
    moreover have "is_fact ?key (evidence_prefix bound @ ''/started'') EffectStarted ?ev" "le_payload ?ev = started_payload C bound"
      by (rule new_event_fact)+
    ultimately have "licensed_tool C (insert ?ev K') ?ev ?key iv" using new unfolding licensed_tool_def by blast
    moreover have "certified C P ?Q (insert ?ev K') None (?outcome r)" for r
      by (rule outcome [OF held_mono(1) [OF facts(1) subset_insertI] held_mono(2) [OF facts(2) subset_insertI]])
    ultimately show "certified C P ?Q (insert ?ev K') (Some ?ev) (case Ok ?ev of
        Ok _ \<Rightarrow> RunTool ?key iv ?outcome
      | Err (LedgerCancelled _) \<Rightarrow> Done (Err ToolCancelled)
      | Err e \<Rightarrow> Done (Err (Uncertain (''effect entry outcome is not proven: '' @ ledger_error_text C e)))
      | Panic \<Rightarrow> Done Panic)" by (simp del: tool_error_text.simps)
  qed
  show ?thesis
    unfolding enter_tool_def Let_def
  proof (rule try_tool_append [OF Q refl suffix_plain], simp, simp)
    fix K' au
    assume K': "K \<subseteq> K'" "au \<in> K'" "is_fact ?key (ek_execution_id ?key @ ''/'' @ effect_suffix ?e ''/authorized'') EffectAuthorized au"
      "le_payload au = authorized_payload C bound"
    then have "authorized_held C ?key K' bound"
      unfolding authorized_held_def fact_held_def path suffix_id by blast
    note entered [OF held_mono(1) [OF held K'(1)] this]
    then show "certified C P ?Q K' own (Live ControlCancelled (\<lambda>cancelled.
        if cancelled then Done (Err ToolCancelled)
        else bindp (admit_event ?st) (\<lambda>started.
          case started of
            Ok _ \<Rightarrow> RunTool ?key iv ?outcome
          | Err (LedgerCancelled _) \<Rightarrow> Done (Err ToolCancelled)
          | Err e \<Rightarrow> Done (Err (Uncertain (''effect entry outcome is not proven: '' @ ledger_error_text C e)))
          | Panic \<Rightarrow> Done Panic)))" by (rule live_guard [OF Q])
  qed
qed

lemma certified_invoke_tool: "certified C P (tool_post C D iv) K own (invoke_tool C D iv)"
proof (cases "sc_agent_snapshot_digest (iv_scope iv) \<noteq> dt_snapshot_digest D")
  case False
  let ?key = "dt_key D" and ?Q = "tool_post C D iv"
  note Q = tool_post_simps(3) [of C D iv]
  show ?thesis
    unfolding invoke_tool_def Let_def if_not_P [OF False]
  proof (rule try_Done [OF Q])
    fix bound
    assume new: "evidence_new C (iv_prepared iv) (iv_grant iv) (iv_scope iv) (iv_policy_revision iv) ?key = Ok bound"
    let ?hx = "hook_context_new bound (iv_window iv)" and ?e = "pv_request bound"
    let ?enter = "trying (if dt_hooks D then before_hooks C iv ?hx else Done (Ok ())) (\<lambda>_. enter_tool C D iv bound ?hx)"
    let ?started = "recorded_fact C ?key bound ''/started'' EffectStarted ''entered effect identity is not proven: ''
        ''entered effect authority is not proven: '' (\<lambda>started.
        case started of Some _ \<Rightarrow> entered_before C D bound | None \<Rightarrow> ?enter)"
    let ?waiting = "recorded_fact C ?key bound ''/waiting'' EffectAwaitingExternal ''saved wait identity is not proven: '' [] (\<lambda>waiting.
        case waiting of Some event \<Rightarrow> saved_wait C D bound event | None \<Rightarrow> ?started)"
    let ?receipt = "recorded_fact C ?key bound ''/receipt'' EffectReceipt ''saved receipt identity is not proven: '' [] (\<lambda>receipt.
        case receipt of Some event \<Rightarrow> saved_receipt C D bound ?hx event | None \<Rightarrow> ?waiting)"
    have enter: "certified C P ?Q K' own ?enter" if "prepared_held C ?key K' bound" for K'
      by (rule try_quiet [OF Q]) (use certified_enter_tool [OF new held_mono(1) [OF that]] in \<open>auto intro!: quiet_before\<close>)
    have started: "certified C P ?Q K' own ?started" if "prepared_held C ?key K' bound" for K'
      by (rule certified_recorded_fact [OF Q new]) (use enter [OF that] certified_entered_before in simp_all)
    have waiting: "certified C P ?Q K' own ?waiting" if "prepared_held C ?key K' bound" for K'
      by (rule certified_recorded_fact [OF Q new]) (use started [OF that] certified_saved_wait in simp_all)
    have receipt: "certified C P ?Q K' own ?receipt" if "prepared_held C ?key K' bound" for K'
      by (rule certified_recorded_fact [OF Q new])
         (use waiting [OF that] certified_saved_receipt [OF new] held_mono(1) [OF that] in simp_all)
    show "certified C P ?Q K own (Live ControlCancelled (\<lambda>cancelled.
        if cancelled then Done (Err ToolCancelled)
        else trying (tool_append C ?key (effect_suffix ?e ''/prepared'') EffectPrepared (prepared_payload C bound)) (\<lambda>_. ?receipt)))"
    proof (rule live_guard [OF Q], rule try_tool_append [OF Q refl suffix_plain], simp, simp, rule receipt)
      fix K' pr
      assume "K \<subseteq> K'" "pr \<in> K'" "is_fact ?key (ek_execution_id ?key @ ''/'' @ effect_suffix ?e ''/prepared'') EffectPrepared pr"
        "le_payload pr = prepared_payload C bound"
      then show "prepared_held C ?key K' bound"
        unfolding prepared_held_def fact_held_def evidence_new_binds(2) [OF new] suffix_id by blast
    qed
  qed
qed (simp add: invoke_tool_def)

end
