(* ===== verification/Effect_Calls.thy ===== *)
theory Effect_Calls
  imports Effect_Tool_Operations
begin

text \<open>All calls of the effect runtime together: what each of them returns, and that each is certified.\<close>

section \<open>All calls\<close>

text \<open>The identities a call takes from its arguments are no outcome records of the effects in \<open>P\<close>.\<close>

fun apart :: "'j effect_codec \<Rightarrow> string set \<Rightarrow> 'j effect_call \<Rightarrow> bool" where
  "apart C P (ApplyCall key e) \<longleftrightarrow>
     (\<forall>p \<in> P. ek_execution_id key @ ''/execution-suspended/'' @ fq_effect_id e \<notin> outcome_ids p)"
| "apart C P (ReconcileCall q) \<longleftrightarrow>
     (\<forall>p \<in> P. effect_prefix (rr_execution q) (rr_effect_id q) @ ''/reconciliation/'' @ rr_reconciliation_id q \<notin> outcome_ids p)"
| "apart C P (BoundaryCall B i b) \<longleftrightarrow>
     (case boundary_event C b of (name, kind, payload) \<Rightarrow> \<forall>p \<in> P. boundary_identity B name kind \<notin> outcome_ids p)"
| "apart C P _ \<longleftrightarrow> True"

fun call_post ::
  "'j effect_codec \<Rightarrow> string set \<Rightarrow> 'j effect_call \<Rightarrow> 'j ledger_event set \<Rightarrow> 'j ledger_event option \<Rightarrow> 'j effect_return \<Rightarrow> bool" where
  "call_post C P (ApplyCall key e) K own r \<longleftrightarrow> (\<exists>x. r = ApplyReturn x \<and> apply_post C P key e K own x)"
| "call_post C P (ReconcileCall q) K own r \<longleftrightarrow> (\<exists>x. r = ReconcileReturn x \<and> reconcile_post C q K own x)"
| "call_post C P (ProofCall q) K own r \<longleftrightarrow> (\<exists>x. r = ProofReturn x \<and> proof_post C q K own x)"
| "call_post C P (ToolCall D iv) K own r \<longleftrightarrow> (\<exists>x. r = ToolReturn x \<and> tool_post C D iv K own x)"
| "call_post C P _ K own r \<longleftrightarrow> True"

lemma certified_plain_append:
  assumes "\<And>p. i \<notin> outcome_ids p" and "i = ek_execution_id key @ ''/'' @ name"
  shows "certified C P (\<lambda>K own r. True) K own (trying (append_once key name kind payload) (\<lambda>_. Done (Ok ())))"
  by (rule try_append_plain [OF _ assms(2) assms(1)]) (simp_all add: benign_def)

lemma certified_boundary:
  assumes apart: "apart C P (BoundaryCall B i b)"
  shows "certified C P (\<lambda>K own r. True) K own (admit_turn_boundary C B i b)"
proof -
  obtain name kind payload where e: "boundary_event C b = (name, kind, payload)" by (rule prod_cases3)
  have may: "may_append P K' (new_event (bc_key B) (boundary_identity B name kind) kind payload)" for K'
    by (rule may_append_other) (use apart e in simp)
  have "certified C P (\<lambda>K own r. True) K own (append_event (new_event (bc_key B) (boundary_identity B name kind) kind payload))"
    "certified C P (\<lambda>K own r. True) K own (admit_event (new_event (bc_key B) (boundary_identity B name kind) kind payload))"
    by (rule certified_append [OF may] certified_admit [OF may]; simp)+
  then show ?thesis by (simp add: admit_turn_boundary_def e Let_def certified_bindp)
qed

lemma certified_driver_append:
  "take 4 (rev name) \<notin> {''dete'', ''deli''} \<Longrightarrow> 4 \<le> length name \<Longrightarrow>
    certified C P (\<lambda>K own r. True) K own (trying (driver_append key name kind payload) (\<lambda>_. Done (Ok ())))"
  unfolding certified_trying driver_append_def
  by (rule certified_append_fact [OF _ refl])
     (auto simp: benign_def followed_by_def not_outcome [of name "ek_execution_id key @ ''/''", simplified]
       intro!: may_append_other split: res.split)

lemma call_certified: "apart C P c \<Longrightarrow> certified C P (call_post C P c) K own (call_program C c)"
proof (cases c)
  case (StartCall key)
  have "ek_execution_id key @ ''/'' @ ''execution-started'' \<notin> outcome_ids p" for p
    using not_outcome [of "''execution-started''" "ek_execution_id key @ ''/''" p] by simp
  from certified_plain_append [OF this refl] show ?thesis
    by (simp add: StartCall start_execution_def certified_bindp)
next
  case (CancelCall key)
  have "ek_execution_id key @ ''/'' @ ''execution-cancelled'' \<notin> outcome_ids p" for p
    using not_outcome [of "''execution-cancelled''" "ek_execution_id key @ ''/''" p] by simp
  from certified_plain_append [OF this refl] show ?thesis
    by (simp add: CancelCall cancel_execution_def certified_bindp)
next
  case (StatusCall key)
  have "certified C P (\<lambda>K own r. True) K own (execution_status key)"
    unfolding execution_status_def by (rule try_history) (simp_all add: benign_def)
  then show ?thesis by (simp add: StatusCall certified_bindp)
next
  case (ApplyCall key e)
  moreover assume "apart C P c"
  ultimately show ?thesis using certified_apply_effect [of P key e C K own] by (simp add: certified_bindp)
next
  case (ReconcileCall q)
  moreover assume "apart C P c"
  ultimately show ?thesis using certified_reconcile [of P q C K own] by (simp add: certified_bindp)
next
  case (ProofCall q)
  then show ?thesis using certified_proof by (simp add: certified_bindp)
next
  case (ToolCall D iv)
  then show ?thesis using certified_invoke_tool by (simp add: certified_bindp)
next
  case (BoundaryCall B i b)
  moreover assume "apart C P c"
  ultimately show ?thesis using certified_boundary [of C P B i b K own] by (simp add: certified_bindp)
next
  case (TurnCancelCall key)
  then show ?thesis using certified_driver_append [of "''execution-cancelled''" C P K own key]
    by (simp add: cancel_turn_def certified_bindp)
next
  case (TurnErrorCall key e)
  have "certified C P (\<lambda>K own r. True) K' own (trying (driver_append key ''turn-error'' kind payload) (\<lambda>_. Done (Ok ())))"
    for K' kind payload by (rule certified_driver_append) simp_all
  then have "certified C P (\<lambda>K own r. True) K own (persist_error C key e)"
    unfolding persist_error_def by (auto intro!: try_history simp: benign_def)
  then show ?thesis by (simp add: TurnErrorCall certified_bindp)
qed

end
