(* ===== verification/Effect_Sample.thy ===== *)
theory Effect_Sample
  imports Effect_Pool Effect_Laws Turn_Resume
begin

text \<open>
  Concrete runs of the effect runtime: a lawful model of \<open>serde_json\<close>, and operations that run
  alone, step by step, as executions of the pool.
\<close>

section \<open>A lawful codec\<close>

datatype json =
    JNull | JText string | JNumber nat | JTexts "string list" | JMembers "(string \<times> json) list"
  | JPrepared string string json string invocation_claim tool_requirements json string
  | JScope tool_execution_scope | JGrant prepared_grant
  | JReceipt effect_receipt | JResult tool_result | JRequest reconciliation_request | JResolution resolution

fun json_get :: "json \<Rightarrow> string \<Rightarrow> json option" where
  "json_get (JMembers es) k = map_of es k"
| "json_get _ k = None"

fun json_with :: "json \<Rightarrow> string \<Rightarrow> json \<Rightarrow> json" where
  "json_with (JMembers es) k v = JMembers (AList.update k v es)"
| "json_with j k v = j"

definition json_turn :: "(json, unit) turn_codec" where
  "json_turn = \<lparr>tk_policy = \<lparr>pk_json = \<lparr>jv_view = \<lambda>_. JObject [], jv_is_null = \<lambda>j. j = JNull, jv_path = \<lambda>_. None,
         jv_scalar_text = \<lambda>_. [], jv_key_text = \<lambda>k. k\<rparr>,
       pk_null = JNull, pk_prepared_value = \<lambda>_ _ _ _ v. v, pk_grant_value = \<lambda>_. JNull,
       pk_rules_text = \<lambda>_. [], pk_sha256_hex = \<lambda>b. b\<rparr>,
     tk_checkpoint_writes = \<lambda>_. ([], False), tk_result_size = \<lambda>r. length (tr_content r),
     tk_value_size = \<lambda>_. 2, tk_decode = \<lambda>_. None, tk_scope_bytes = \<lambda>k _. k, tk_approval_bytes = \<lambda>k _. k\<rparr>"

fun json_request :: "json \<Rightarrow> effect_request option" where
  "json_request (JMembers es) =
     (case (map_of es ''effect_id'', map_of es ''operation_kind'', map_of es ''input_digest'', map_of es ''requirements'',
        map_of es ''policy_revision'') of
        (Some (JText i), Some (JText kind), Some (JText d), Some (JTexts r), Some (JText p)) \<Rightarrow>
          Some \<lparr>fq_effect_id = i, fq_operation_kind = kind, fq_input_digest = d, fq_requirements = r, fq_policy_revision = p\<rparr>
      | _ \<Rightarrow> None)"
| "json_request _ = None"

fun json_prepared :: "json \<Rightarrow> json prepared_call option" where
  "json_prepared (JPrepared i name args r claim reqs binding d) =
     Some \<lparr>pc_call = \<lparr>cl_id = i, cl_name = name, cl_arguments = args\<rparr>, pc_tool_revision = r, pc_claim = claim,
       pc_requirements = reqs, pc_execution_binding = binding, pc_digest = d\<rparr>"
| "json_prepared _ = None"

definition json_codec :: "json effect_codec" where
  "json_codec = \<lparr>ef_turn = json_turn, ef_null = JNull, ef_text = JText, ef_number = JNumber,
     ef_as_str = (\<lambda>j. case j of JText s \<Rightarrow> Some s | _ \<Rightarrow> None), ef_object = JMembers, ef_get = json_get, ef_with = json_with,
     ef_execution = (\<lambda>k. JTexts [ek_session_id k, ek_turn_id k, ek_execution_id k]),
     ef_request = (\<lambda>r. JMembers [(''effect_id'', JText (fq_effect_id r)), (''operation_kind'', JText (fq_operation_kind r)),
       (''input_digest'', JText (fq_input_digest r)), (''requirements'', JTexts (fq_requirements r)),
       (''policy_revision'', JText (fq_policy_revision r))]),
     ef_as_request = json_request,
     ef_authorization = (\<lambda>g. JMembers [(''authorization_id'', JText (fg_authorization_id g)), (''effect_id'', JText (fg_effect_id g)),
       (''input_digest'', JText (fg_input_digest g)), (''constraints_digest'', JText (fg_constraints_digest g)),
       (''authority_revision'', JText (fg_authority_revision g))]),
     ef_receipt = JReceipt, ef_as_receipt = (\<lambda>j. case j of JReceipt r \<Rightarrow> Some r | _ \<Rightarrow> None),
     ef_prepared = (\<lambda>p. JPrepared (cl_id (pc_call p)) (cl_name (pc_call p)) (cl_arguments (pc_call p)) (pc_tool_revision p)
       (pc_claim p) (pc_requirements p) (pc_execution_binding p) (pc_digest p)), ef_as_prepared = json_prepared,
     ef_scope = JScope, ef_as_scope = (\<lambda>j. case j of JScope s \<Rightarrow> Some s | _ \<Rightarrow> None),
     ef_grant = JGrant, ef_as_grant = (\<lambda>j. case j of JGrant g \<Rightarrow> Some g | _ \<Rightarrow> None),
     ef_result = JResult, ef_as_result = (\<lambda>j. case j of JResult r \<Rightarrow> Some r | _ \<Rightarrow> None),
     ef_wait = ew_binding, ef_as_wait = (\<lambda>_. None),
     ef_rc_request = JRequest, ef_as_rc_request = (\<lambda>j. case j of JRequest r \<Rightarrow> Some r | _ \<Rightarrow> None),
     ef_resolution = JResolution, ef_as_resolution = (\<lambda>j. case j of JResolution r \<Rightarrow> Some r | _ \<Rightarrow> None),
     ef_malformed = ''malformed'', ef_query_reason = ''query'', ef_storage_reason = ''storage'', ef_texts = JTexts, ef_writes = (\<lambda>_. [2]), ef_digest_bytes = (\<lambda>d _. d), ef_requirements_text = (\<lambda>_. [])\<rparr>"

lemma json_request_extra:
  assumes "k \<notin> request_members" "k' \<notin> request_members"
  shows "json_request (json_with (json_with (JMembers es) k x) k' y) = json_request (JMembers es)"
proof -
  have "map_of (AList.update k' y (AList.update k x es)) i = map_of es i" if "i \<in> request_members" for i
    using that assms by (auto simp: update_conv')
  then show ?thesis by (simp add: request_members_def)
qed

lemma json_fields:
  "ef_object json_codec = JMembers" "ef_get json_codec = json_get" "ef_with json_codec = json_with"
  "ef_as_request json_codec = json_request" "ef_request json_codec r = JMembers [(''effect_id'', JText (fq_effect_id r)),
     (''operation_kind'', JText (fq_operation_kind r)), (''input_digest'', JText (fq_input_digest r)),
     (''requirements'', JTexts (fq_requirements r)), (''policy_revision'', JText (fq_policy_revision r))]"
  "ef_authorization json_codec g = JMembers [(''authorization_id'', JText (fg_authorization_id g)), (''effect_id'', JText (fg_effect_id g)),
       (''input_digest'', JText (fg_input_digest g)), (''constraints_digest'', JText (fg_constraints_digest g)),
       (''authority_revision'', JText (fg_authority_revision g))]"
  by (simp_all add: json_codec_def)

lemma json_lawful: "lawful json_codec"
proof -
  have "\<exists>es. ef_request json_codec r = JMembers es \<and> distinct (map fst es)" for r
    unfolding json_fields by (rule exI, rule conjI [OF refl]) simp
  moreover have "\<exists>es. ef_authorization json_codec g = JMembers es \<and> distinct (map fst es)" for g
    unfolding json_fields by (rule exI, rule conjI [OF refl]) simp
  moreover have "json_request (json_with (json_with (ef_request json_codec r) k x) k' y) = Some r"
    if "k \<notin> request_members" "k' \<notin> request_members" for r k k' x y
    unfolding json_fields json_request_extra [OF that] by simp
  moreover have "ef_as_prepared json_codec (ef_prepared json_codec p) = Some p" "ef_as_scope json_codec (ef_scope json_codec sc) = Some sc"
    "ef_as_grant json_codec (ef_grant json_codec pg) = Some pg" "ef_as_str json_codec (ef_text json_codec t) = Some t"
    "ef_as_receipt json_codec (ef_receipt json_codec re) = Some re" "ef_as_result json_codec (ef_result json_codec u) = Some u"
    "ef_as_rc_request json_codec (ef_rc_request json_codec q) = Some q"
    "ef_as_resolution json_codec (ef_resolution json_codec v) = Some v" for p sc pg t re u q v
    by (simp_all add: json_codec_def)
  ultimately show ?thesis unfolding lawful_def json_fields(1-4) by simp
qed

section \<open>Operations that run alone\<close>

text \<open>Ports with one answer each; nothing is cancelled and no window is spent.\<close>

record 'j effect_ports =
  ep_tool :: "(tool_error, 'j tool_outcome) res"
  ep_prepared :: "(tool_error, 'j prepared_call) res"
  ep_decision :: "(runtime_error, admission_decision) res"
  ep_outcome :: "(runtime_error, 'j effect_outcome) res"
  ep_resolution :: "(driver_error, resolution) res"

primrec solo ::
  "('s, 'j) ledger_ops \<Rightarrow> 'j effect_ports \<Rightarrow> ('j, 'a) prog \<Rightarrow> 's \<Rightarrow> nat \<times> 's \<times> 'a \<times> 'j occurrence list" where
  "solo ops X (Done r) s = (0, s, r, [])"
| "solo ops X (Ledger c k) s =
     (let (a, s1) = perform ops s c; (n, s2, r, h) = solo ops X (k a) s1 in (Suc n, s2, r, h))"
| "solo ops X (Decide key e k) s = (let (n, s2, r, h) = solo ops X (k (ep_decision X)) s in (Suc n, s2, r, h))"
| "solo ops X (Execute key e g k) s =
     (let (n, s2, r, h) = solo ops X (k (ep_outcome X)) s in (Suc n, s2, r, Ran key e g # h))"
| "solo ops X (RunTool key iv k) s =
     (let (n, s2, r, h) = solo ops X (k (ep_tool X)) s in (Suc n, s2, r, RanTool key iv # h))"
| "solo ops X (Live q k) s = (let (n, s2, r, h) = solo ops X (k False) s in (Suc n, s2, r, h))"
| "solo ops X (BeforeEffect hx k) s = (let (n, s2, r, h) = solo ops X (k (RaceDone (Ok HookContinue))) s in (Suc n, s2, r, h))"
| "solo ops X (Observe ob k) s = (let (n, s2, r, h) = solo ops X (k (RaceDone (Ok ()))) s in (Suc n, s2, r, h))"
| "solo ops X (Reprepare tc k) s = (let (n, s2, r, h) = solo ops X (k (RaceDone (ep_prepared X))) s in (Suc n, s2, r, h))"
| "solo ops X (VerifyWait w k) s = (let (n, s2, r, h) = solo ops X (k (Ok ())) s in (Suc n, s2, r, h))"
| "solo ops X (RecoverWait ia k) s = (let (n, s2, r, h) = solo ops X (k (Ok None)) s in (Suc n, s2, r, h))"
| "solo ops X (Inspect q e g k) s = (let (n, s2, r, h) = solo ops X (k (ep_resolution X)) s in (Suc n, s2, r, h))"

lemma solo_port:
  assumes pool: "pool ops C calls others s0 n s ps h" "ps i = Some (c, p)" "asks p p'"
    and run: "(let (m, s2, r, h) = solo ops X p' s in (Suc m, s2, r, h)) = (m, s', r, h')"
    and IH: "\<And>n s ps h m s' r h'. pool ops C calls others s0 n s ps h \<Longrightarrow> ps i = Some (c, p') \<Longrightarrow>
      solo ops X p' s = (m, s', r, h') \<Longrightarrow> pool ops C calls others s0 (n + m) s' (ps(i := Some (c, Done r))) (h @ h')"
  shows "pool ops C calls others s0 (n + m) s' (ps(i := Some (c, Done r))) (h @ h')"
proof -
  obtain m1 where r: "solo ops X p' s = (m1, s', r, h')" "m = Suc m1" using run by (auto split: prod.splits)
  have "pool ops C calls others s0 (Suc n) s (ps(i := Some (c, p'))) h" by (rule pool.port [OF pool])
  from IH [OF this fun_upd_same r(1)] show ?thesis by (simp only: fun_upd_upd r(2) add_Suc_right add_Suc)
qed

lemma solo_pool:
  assumes "pool ops C calls others s0 n s ps h" and "ps i = Some (c, p)" and "solo ops X p s = (m, s', r, h')"
  shows "pool ops C calls others s0 (n + m) s' (ps(i := Some (c, Done r))) (h @ h')"
  using assms
proof (induction p arbitrary: n s ps h m s' r h')
  case (Done r0)
  then show ?case by (simp add: fun_upd_idem)
next
  case (Ledger x k)
  obtain a s1 where a: "perform ops s x = (a, s1)" by (cases "perform ops s x")
  obtain m1 where r: "solo ops X (k a) s1 = (m1, s', r, h')" "m = Suc m1"
    using Ledger.prems(3) a by (auto split: prod.splits)
  have "pool ops C calls others s0 (Suc n) s1 (ps(i := Some (c, k a))) h" by (rule pool.ledger [OF Ledger.prems(1,2) a])
  from Ledger.IH [OF rangeI this fun_upd_same r(1)] show ?case by (simp only: fun_upd_upd r(2) add_Suc_right add_Suc)
next
  case (Execute key e g k)
  obtain m1 h1 where r: "solo ops X (k (ep_outcome X)) s = (m1, s', r, h1)" "m = Suc m1" "h' = Ran key e g # h1"
    using Execute.prems(3) by (auto split: prod.splits)
  have "pool ops C calls others s0 (Suc n) s (ps(i := Some (c, k (ep_outcome X)))) (h @ [Ran key e g])"
    by (rule pool.execute [OF Execute.prems(1,2)])
  from Execute.IH [OF rangeI this fun_upd_same r(1)] show ?case
    by (simp only: fun_upd_upd r(2,3) add_Suc_right add_Suc append_assoc append.simps)
next
  case (RunTool key iv k)
  obtain m1 h1 where r: "solo ops X (k (ep_tool X)) s = (m1, s', r, h1)" "m = Suc m1" "h' = RanTool key iv # h1"
    using RunTool.prems(3) by (auto split: prod.splits)
  have "pool ops C calls others s0 (Suc n) s (ps(i := Some (c, k (ep_tool X)))) (h @ [RanTool key iv])"
    by (rule pool.run_tool [OF RunTool.prems(1,2)])
  from RunTool.IH [OF rangeI this fun_upd_same r(1)] show ?case
    by (simp only: fun_upd_upd r(2,3) add_Suc_right add_Suc append_assoc append.simps)
next
  case (Decide key e k)
  show ?case by (rule solo_port [OF Decide.prems(1,2) asks.intros(1) Decide.prems(3) [unfolded solo.simps]]) (rule Decide.IH [OF rangeI])
next
  case (Inspect q e g k)
  show ?case by (rule solo_port [OF Inspect.prems(1,2) asks.intros(2) Inspect.prems(3) [unfolded solo.simps]]) (rule Inspect.IH [OF rangeI])
next
  case (Live q k)
  show ?case by (rule solo_port [OF Live.prems(1,2) asks.intros(3) Live.prems(3) [unfolded solo.simps]]) (rule Live.IH [OF rangeI])
next
  case (BeforeEffect hx k)
  show ?case by (rule solo_port [OF BeforeEffect.prems(1,2) asks.intros(4) BeforeEffect.prems(3) [unfolded solo.simps]]) (rule BeforeEffect.IH [OF rangeI])
next
  case (Observe ob k)
  show ?case by (rule solo_port [OF Observe.prems(1,2) asks.intros(5) Observe.prems(3) [unfolded solo.simps]]) (rule Observe.IH [OF rangeI])
next
  case (Reprepare tc k)
  show ?case by (rule solo_port [OF Reprepare.prems(1,2) asks.intros(6) Reprepare.prems(3) [unfolded solo.simps]]) (rule Reprepare.IH [OF rangeI])
next
  case (VerifyWait w k)
  show ?case by (rule solo_port [OF VerifyWait.prems(1,2) asks.intros(7) VerifyWait.prems(3) [unfolded solo.simps]]) (rule VerifyWait.IH [OF rangeI])
next
  case (RecoverWait ia k)
  show ?case by (rule solo_port [OF RecoverWait.prems(1,2) asks.intros(8) RecoverWait.prems(3) [unfolded solo.simps]]) (rule RecoverWait.IH [OF rangeI])
qed

text \<open>A call that is started, runs alone and returns.\<close>

lemma solo_call:
  assumes pool: "pool ops C calls others s0 n s (\<lambda>_. None) h" and c: "calls c"
    and run: "solo ops X (call_program C c) s = (m, s', r, h')"
  shows "pool ops C calls others s0 (Suc (Suc n + m)) s' (\<lambda>_. None) (h @ h' @ [Returned c r])"
proof -
  have started: "pool ops C calls others s0 (Suc n) s ((\<lambda>_. None)(0 := Some (c, call_program C c))) h"
    by (rule pool.call [OF pool _ c]) simp
  have "pool ops C calls others s0 (Suc n + m) s' ((\<lambda>_. None)(0 := Some (c, Done r))) (h @ h')"
    using solo_pool [OF started _ run, where i = 0] by simp
  from pool.return [OF this, of 0] show ?thesis by (simp add: fun_upd_idem)
qed

text \<open>Calls of others.\<close>

lemma others_pool:
  assumes "pool ops C calls others s0 n s ps h" and "list_all others xs" and "snd (run_calls ops s xs) = s'"
  shows "pool ops C calls others s0 (n + length xs) s' ps h"
  using assms
proof (induction xs arbitrary: n s)
  case (Cons x xs)
  obtain a s1 where a: "perform ops s x = (a, s1)" by (cases "perform ops s x")
  have "pool ops C calls others s0 (Suc n) s1 ps h" by (rule pool.other [OF Cons.prems(1) _ a]) (use Cons.prems(2) in simp)
  from Cons.IH [OF this] Cons.prems(2,3) a show ?case by (simp add: case_prod_beta Let_def)
qed simp


section \<open>A generic effect\<close>

definition demo_key :: execution_key where
  "demo_key = \<lparr>ek_session_id = ''s'', ek_turn_id = ''t'', ek_execution_id = ''x''\<rparr>"

definition demo_effect :: effect_request where
  "demo_effect = \<lparr>fq_effect_id = ''e'', fq_operation_kind = ''o'', fq_input_digest = ''i'', fq_requirements = [],
     fq_policy_revision = ''p''\<rparr>"

definition demo_grant :: effect_grant where
  "demo_grant = \<lparr>fg_authorization_id = ''a'', fg_effect_id = ''e'', fg_input_digest = ''i'', fg_constraints_digest = ''c'',
     fg_authority_revision = ''v''\<rparr>"

definition demo_receipt :: effect_receipt where
  "demo_receipt = \<lparr>fc_receipt_id = ''r'', fc_effect_id = ''e'', fc_authorization_id = ''a'', fc_input_digest = ''i'',
     fc_executor_id = ''w'', fc_executor_revision = ''1'', fc_result_digest = ''d'', fc_status = ReceiptCompleted\<rparr>"

definition demo_ports :: "json effect_ports" where
  "demo_ports = \<lparr>ep_tool = Panic, ep_prepared = Panic, ep_decision = Ok (GrantEffect demo_grant), ep_outcome = Ok (EffectDone demo_receipt (JText ''y'')),
     ep_resolution = Panic\<rparr>"

definition demo_first :: "nat \<times> json ledger_state \<times> json effect_return \<times> json occurrence list" where
  "demo_first = solo mem_ledger demo_ports (call_program json_codec (ApplyCall demo_key demo_effect)) mem_ledger_empty"

definition demo_second :: "nat \<times> json ledger_state \<times> json effect_return \<times> json occurrence list" where
  "demo_second = solo mem_ledger demo_ports (call_program json_codec (ApplyCall demo_key demo_effect)) (fst (snd demo_first))"

lemma demo_runs:
  "fst demo_first \<le> 40 \<and> snd (snd demo_first) = (ApplyReturn (Ok (DispCompleted (JText ''y''))), [Ran demo_key demo_effect demo_grant])"
  "fst demo_second \<le> 40 \<and> snd (snd demo_second) = (ApplyReturn (Ok (DispCompleted (JText ''y''))), [])"
  by code_simp+

text \<open>Both calls, one after the other, as a run of the pool.\<close>

lemma demo_pool:
  assumes c: "calls (ApplyCall demo_key demo_effect)"
  shows "\<exists>n s. n \<le> 84 \<and> pool mem_ledger json_codec calls others mem_ledger_empty n s (\<lambda>_. None)
    [Ran demo_key demo_effect demo_grant, Returned (ApplyCall demo_key demo_effect) (ApplyReturn (Ok (DispCompleted (JText ''y'')))),
     Returned (ApplyCall demo_key demo_effect) (ApplyReturn (Ok (DispCompleted (JText ''y''))))]"
proof -
  let ?r = "ApplyReturn (Ok (DispCompleted (JText ''y'')))"
  obtain n1 s1 where 1: "demo_first = (n1, s1, ?r, [Ran demo_key demo_effect demo_grant])" "n1 \<le> 40"
    using demo_runs(1) by (metis prod.collapse)
  obtain n2 s2 where 2: "demo_second = (n2, s2, ?r, [])" "n2 \<le> 40"
    using demo_runs(2) by (metis prod.collapse)
  have "pool mem_ledger json_codec calls others mem_ledger_empty (Suc (Suc 0 + n1)) s1 (\<lambda>_. None)
    ([] @ [Ran demo_key demo_effect demo_grant] @ [Returned (ApplyCall demo_key demo_effect) ?r])"
    by (rule solo_call [where calls = calls, OF pool.empty c]) (rule 1(1) [unfolded demo_first_def])
  from solo_call [where calls = calls, OF this c] 2(1) [unfolded demo_second_def 1(1) fst_conv snd_conv]
  have "pool mem_ledger json_codec calls others mem_ledger_empty (Suc (Suc (Suc (Suc 0 + n1)) + n2)) s2 (\<lambda>_. None)
    (([] @ [Ran demo_key demo_effect demo_grant] @ [Returned (ApplyCall demo_key demo_effect) ?r]) @ [] @
      [Returned (ApplyCall demo_key demo_effect) ?r])" by blast
  with 1(2) 2(2) show ?thesis by (intro exI [of _ "Suc (Suc (Suc (Suc 0 + n1)) + n2)"] exI [of _ s2]) simp
qed

section \<open>A tool\<close>

text \<open>A tool under hooks, invoked twice, and a reconciliation of its effect.\<close>

definition demo_prepared :: "json prepared_call" where
  "demo_prepared = \<lparr>pc_call = \<lparr>cl_id = ''r'', cl_name = ''file.write'', cl_arguments = JNull\<rparr>, pc_tool_revision = ''r'',
     pc_claim = pc_claim (sample_prepared ''r''), pc_requirements = pc_requirements (sample_prepared ''r''),
     pc_execution_binding = JNull, pc_digest = ''{}''\<rparr>"

definition demo_invocation :: "json invocation" where
  "demo_invocation = \<lparr>iv_prepared = demo_prepared, iv_grant = (ia_grant sample_issued)\<lparr>pg_prepared_digest := ''{}''\<rparr>,
     iv_scope = sample_scope, iv_policy_revision = ''r'', iv_window = 0\<rparr>"

definition demo_tools :: durable_tools where
  "demo_tools = \<lparr>dt_key = demo_key, dt_snapshot_digest = None, dt_hooks = True\<rparr>"

definition demo_result :: tool_result where
  "demo_result = \<lparr>tr_call_id = ''r'', tr_content = ''ok'', tr_is_error = False\<rparr>"

definition demo_tool_ports :: "json effect_ports" where
  "demo_tool_ports = \<lparr>ep_tool = Ok (OutcomeCompleted demo_result), ep_prepared = Ok demo_prepared, ep_decision = Panic,
     ep_outcome = Panic, ep_resolution = Panic\<rparr>"

definition demo_bound :: "json prepared_evidence" where
  "demo_bound = \<lparr>pv_request = \<lparr>fq_effect_id = ''t-step-0/r'', fq_operation_kind = ''file.write'',
       fq_input_digest = ''kolyan.runtime.prepared-input.v1'', fq_requirements = [[]], fq_policy_revision = ''r''\<rparr>,
     pv_authorization = \<lparr>fg_authorization_id = ''x/effect/t-step-0/r/authorized'', fg_effect_id = ''t-step-0/r'',
       fg_input_digest = ''kolyan.runtime.prepared-input.v1'', fg_constraints_digest = ''kolyan.runtime.prepared-grant.v1'',
       fg_authority_revision = ''r''\<rparr>,
     pv_prepared = demo_prepared, pv_scope = sample_scope, pv_grant = (ia_grant sample_issued)\<lparr>pg_prepared_digest := ''{}''\<rparr>\<rparr>"

lemma demo_granted:
  "grant_validate (ef_policy json_codec) (iv_grant demo_invocation) (iv_prepared demo_invocation) (iv_policy_revision demo_invocation)
     (iv_scope demo_invocation) = Ok ()"
proof -
  have "prepared_validate (ef_policy json_codec) demo_prepared = Ok ()"
    by (simp add: prepared_validate_def validate_fields_def demo_prepared_def sample_prepared_def json_codec_def json_turn_def
        is_object_def compute_digest_def canonical_bytes_def write_all_def object_tokens_def)
  then show ?thesis
    by (simp add: grant_validate_def demo_invocation_def sample_issued_def sample_scope_valid)
       (simp add: limit_refused_def demo_prepared_def sample_prepared_def)
qed

lemma demo_evidence:
  "evidence_new json_codec (iv_prepared demo_invocation) (iv_grant demo_invocation) (iv_scope demo_invocation)
     (iv_policy_revision demo_invocation) (dt_key demo_tools) = Ok demo_bound"
  using demo_granted
  by (simp add: evidence_new_def demo_invocation_def sample_scope_valid demo_tools_def demo_key_def demo_bound_def Let_def)
     (simp add: sample_scope_def demo_prepared_def effect_digest_def json_codec_def json_turn_def)

text \<open>Running composed programs one part after the other.\<close>

lemma solo_bindp:
  assumes "solo ops X m s = (n1, s1, a, h1)" and "solo ops X (f a) s1 = (n2, s2, r, h2)"
  shows "solo ops X (bindp m f) s = (n1 + n2, s2, r, h1 @ h2)"
  using assms by (induction m arbitrary: s n1 h1) (auto simp: Let_def split: prod.splits)

lemma solo_trying:
  "solo ops X m s = (n1, s1, Ok a, h1) \<Longrightarrow> solo ops X (f a) s1 = (n2, s2, r, h2) \<Longrightarrow>
    solo ops X (trying m f) s = (n1 + n2, s2, r, h1 @ h2)"
  unfolding trying_def by (rule solo_bindp, assumption) simp

lemma solo_unrecorded:
  "solo ops X (tool_find C (evidence_prefix bound @ name)) s = (n1, s1, Ok None, h1) \<Longrightarrow> solo ops X (f None) s1 = (n2, s2, r, h2) \<Longrightarrow>
    solo ops X (recorded_fact C key bound name kind identity authority f) s = (n1 + n2, s2, r, h1 @ h2)"
  unfolding recorded_fact_def Let_def by (rule solo_trying, assumption) simp

lemma solo_recorded:
  assumes "solo ops X (tool_find C (evidence_prefix bound @ name)) s = (n1, s1, Ok (Some e), h1)"
    and "check_effect_event e key (evidence_prefix bound @ name) kind = Ok ()"
    and "solo ops X (check_entered C bound key) s1 = (n2, s2, Ok (), h2)" and "solo ops X (f (Some e)) s2 = (n3, s3, r, h3)"
  shows "solo ops X (recorded_fact C key bound name kind identity authority f) s = (n1 + (n2 + n3), s3, r, h1 @ h2 @ h3)"
  unfolding recorded_fact_def Let_def
proof (rule solo_trying [OF assms(1)])
  have "solo ops X (certain C key bound (\<lambda>e. authority @ tool_error_text e) (check_entered C bound key) (\<lambda>_. f (Some e))) s1
      = (n2 + n3, s3, r, h2 @ h3)"
    unfolding certain_def by (rule solo_bindp [OF assms(3)]) (simp add: assms(4))
  then show "solo ops X (case Some e of
      None \<Rightarrow> f None
    | Some event \<Rightarrow>
        certain C key bound (\<lambda>e. identity @ tool_error_text e) (Done (check_effect_event event key (evidence_prefix bound @ name) kind)) (\<lambda>_.
        certain C key bound (\<lambda>e. authority @ tool_error_text e) (check_entered C bound key) (\<lambda>_. f (Some event)))) s1
      = (n2 + n3, s3, r, h2 @ h3)"
    by (simp add: certain_def [of C key bound "\<lambda>e. identity @ tool_error_text e"] assms(2))
qed

lemma solo_live: "solo ops X m s = (n, s1, r, h) \<Longrightarrow> solo ops X (Live q (\<lambda>b. if b then Done e else m)) s = (Suc n, s1, r, h)"
  by simp

abbreviation demo_alone :: "(json, 'a) prog \<Rightarrow> json ledger_state \<Rightarrow> nat \<times> json ledger_state \<times> 'a \<times> json occurrence list" where
  "demo_alone \<equiv> solo mem_ledger demo_tool_ports"

abbreviation demo_window :: "json hook_context" where
  "demo_window \<equiv> hook_context_new demo_bound (iv_window demo_invocation)"

abbreviation demo_prepare :: "(json, (tool_error, json ledger_event) res) prog" where
  "demo_prepare \<equiv> tool_append json_codec (dt_key demo_tools) (effect_suffix (pv_request demo_bound) ''/prepared'') EffectPrepared
     (prepared_payload json_codec demo_bound)"

definition demo_at_preparation :: "json ledger_state" where
  "demo_at_preparation = fst (snd (demo_alone demo_prepare mem_ledger_empty))"

definition demo_fact :: "string \<Rightarrow> ledger_event_kind \<Rightarrow> json \<Rightarrow> u64 \<Rightarrow> json ledger_event" where
  "demo_fact name kind payload c = (new_event demo_key (''x/effect/t-step-0/r/'' @ name) kind payload)\<lparr>le_cursor := c\<rparr>"

definition demo_payload :: json where
  "demo_payload = (case receipt_payload json_codec demo_bound (Ok demo_result) of Ok v \<Rightarrow> v | _ \<Rightarrow> JNull)"

definition demo_at_end :: "json ledger_state" where
  "demo_at_end = \<lparr>ls_next_cursor = 5, ls_events = [
     demo_fact ''prepared'' EffectPrepared (prepared_payload json_codec demo_bound) 1,
     demo_fact ''authorized'' EffectAuthorized (authorized_payload json_codec demo_bound) 2,
     demo_fact ''started'' EffectStarted (started_payload json_codec demo_bound) 3,
     demo_fact ''receipt'' EffectReceipt demo_payload 4, demo_fact ''completed'' EffectCompleted demo_payload 5], ls_claims = {}\<rparr>"

lemma demo_first_steps:
  "demo_alone demo_prepare mem_ledger_empty = (2, demo_at_preparation, Ok (ls_events demo_at_preparation ! 0), [])"
  "demo_alone (tool_find json_codec (evidence_prefix demo_bound @ ''/receipt'')) demo_at_preparation = (1, demo_at_preparation, Ok None, [])"
  "demo_alone (tool_find json_codec (evidence_prefix demo_bound @ ''/waiting'')) demo_at_preparation = (1, demo_at_preparation, Ok None, [])"
  "demo_alone (tool_find json_codec (evidence_prefix demo_bound @ ''/started'')) demo_at_preparation = (1, demo_at_preparation, Ok None, [])"
  by code_simp+

lemma demo_hooks:
  "fst (demo_alone (before_hooks json_codec demo_invocation demo_window) demo_at_preparation) \<le> 20"
  "snd (demo_alone (before_hooks json_codec demo_invocation demo_window) demo_at_preparation) = (demo_at_preparation, Ok (), [])"
  unfolding before_hooks_def demo_granted by code_simp+

lemma demo_entry:
  "fst (demo_alone (enter_tool json_codec demo_tools demo_invocation demo_bound demo_window) demo_at_preparation) \<le> 40"
  "snd (demo_alone (enter_tool json_codec demo_tools demo_invocation demo_bound demo_window) demo_at_preparation)
    = (demo_at_end, Ok (OutcomeCompleted demo_result), [RanTool demo_key demo_invocation])"
  by code_simp+

definition demo_at_check :: "json ledger_state" where
  "demo_at_check = fst (snd (demo_alone (check_entered json_codec demo_bound (dt_key demo_tools)) demo_at_end))"

lemma demo_second_steps:
  "demo_alone demo_prepare demo_at_end = (1, demo_at_end, Ok (ls_events demo_at_end ! 0), [])"
  "demo_alone (tool_find json_codec (evidence_prefix demo_bound @ ''/receipt'')) demo_at_end = (1, demo_at_end, Ok (Some (ls_events demo_at_end ! 3)), [])"
  "check_effect_event (ls_events demo_at_end ! 3) (dt_key demo_tools) (evidence_prefix demo_bound @ ''/receipt'') EffectReceipt = Ok ()"
  by code_simp+

lemma demo_checked:
  "fst (demo_alone (check_entered json_codec demo_bound (dt_key demo_tools)) demo_at_end) \<le> 20"
  "snd (snd (demo_alone (check_entered json_codec demo_bound (dt_key demo_tools)) demo_at_end)) = (Ok (), [])"
  by code_simp+

lemma demo_saved:
  "fst (demo_alone (saved_receipt json_codec demo_tools demo_bound demo_window (ls_events demo_at_end ! 3)) demo_at_check) \<le> 20"
  "snd (snd (demo_alone (saved_receipt json_codec demo_tools demo_bound demo_window (ls_events demo_at_end ! 3)) demo_at_check))
    = (Ok (OutcomeCompleted demo_result), [])"
  by code_simp+

lemma demo_invoked:
  "\<exists>n. n \<le> 80 \<and> demo_alone (invoke_tool json_codec demo_tools demo_invocation) mem_ledger_empty
    = (n, demo_at_end, Ok (OutcomeCompleted demo_result), [RanTool demo_key demo_invocation])"
proof -
  obtain n1 where hooks: "n1 \<le> 20" "demo_alone (before_hooks json_codec demo_invocation demo_window) demo_at_preparation
      = (n1, demo_at_preparation, Ok (), [])" using demo_hooks by (metis prod.collapse)
  obtain n2 where entry: "n2 \<le> 40" "demo_alone (enter_tool json_codec demo_tools demo_invocation demo_bound demo_window) demo_at_preparation
      = (n2, demo_at_end, Ok (OutcomeCompleted demo_result), [RanTool demo_key demo_invocation])"
    using demo_entry by (metis prod.collapse)
  have on: "dt_hooks demo_tools"
    and digest: "\<not> sc_agent_snapshot_digest (iv_scope demo_invocation) \<noteq> dt_snapshot_digest demo_tools"
    by (simp_all add: demo_tools_def demo_invocation_def sample_scope_def)
  have "demo_alone (invoke_tool json_codec demo_tools demo_invocation) mem_ledger_empty
      = (Suc (2 + (1 + (1 + (1 + (n1 + n2))))), demo_at_end, Ok (OutcomeCompleted demo_result),
         [] @ [] @ [] @ [] @ [] @ [RanTool demo_key demo_invocation])"
    unfolding invoke_tool_def Let_def demo_evidence trying_Ok if_not_P [OF digest] if_P [OF on]
    by (rule solo_live, rule solo_trying [OF demo_first_steps(1)], rule solo_unrecorded [OF demo_first_steps(2)],
        unfold option.case, rule solo_unrecorded [OF demo_first_steps(3)],
        unfold option.case, rule solo_unrecorded [OF demo_first_steps(4)],
        unfold option.case, rule solo_trying [OF hooks(2)], rule entry(2))
  with hooks(1) entry(1) show ?thesis by auto
qed

lemma demo_again:
  "\<exists>n s. n \<le> 80 \<and> demo_alone (invoke_tool json_codec demo_tools demo_invocation) demo_at_end
    = (n, s, Ok (OutcomeCompleted demo_result), [])"
proof -
  obtain n1 where checked: "n1 \<le> 20" "demo_alone (check_entered json_codec demo_bound (dt_key demo_tools)) demo_at_end
      = (n1, demo_at_check, Ok (), [])" using demo_checked unfolding demo_at_check_def by (metis prod.collapse)
  obtain n2 s where saved: "n2 \<le> 20" "demo_alone (saved_receipt json_codec demo_tools demo_bound demo_window (ls_events demo_at_end ! 3)) demo_at_check
      = (n2, s, Ok (OutcomeCompleted demo_result), [])" using demo_saved by (metis prod.collapse)
  have digest: "\<not> sc_agent_snapshot_digest (iv_scope demo_invocation) \<noteq> dt_snapshot_digest demo_tools"
    by (simp add: demo_tools_def demo_invocation_def sample_scope_def)
  have "demo_alone (invoke_tool json_codec demo_tools demo_invocation) demo_at_end
      = (Suc (1 + (1 + (n1 + n2))), s, Ok (OutcomeCompleted demo_result), [] @ [] @ [] @ [])"
    unfolding invoke_tool_def Let_def demo_evidence trying_Ok if_not_P [OF digest]
    by (rule solo_live, rule solo_trying [OF demo_second_steps(1)], rule solo_recorded [OF demo_second_steps(2,3) checked(2)],
        unfold option.case, rule saved(2))
  with checked(1) saved(1) show ?thesis by auto
qed

text \<open>Both invocations as a run of the pool.\<close>

lemma demo_tool_pool:
  assumes c: "calls (ToolCall demo_tools demo_invocation)"
  shows "\<exists>n s. n \<le> 164 \<and> pool mem_ledger json_codec calls others mem_ledger_empty n s (\<lambda>_. None)
    [RanTool demo_key demo_invocation, Returned (ToolCall demo_tools demo_invocation) (ToolReturn (Ok (OutcomeCompleted demo_result))),
     Returned (ToolCall demo_tools demo_invocation) (ToolReturn (Ok (OutcomeCompleted demo_result)))]"
proof -
  let ?c = "ToolCall demo_tools demo_invocation" and ?r = "ToolReturn (Ok (OutcomeCompleted demo_result))"
  obtain n1 where 1: "n1 \<le> 80" "demo_alone (call_program json_codec ?c) mem_ledger_empty
      = (n1 + 0, demo_at_end, ?r, [RanTool demo_key demo_invocation] @ [])"
    using demo_invoked by (auto dest!: solo_bindp [where f = "\<lambda>r. Done (ToolReturn r)"])
  obtain n2 s2 where 2: "n2 \<le> 80" "demo_alone (call_program json_codec ?c) demo_at_end = (n2 + 0, s2, ?r, [] @ [])"
    using demo_again by (auto dest!: solo_bindp [where f = "\<lambda>r. Done (ToolReturn r)"])
  have "pool mem_ledger json_codec calls others mem_ledger_empty (Suc (Suc 0 + (n1 + 0))) demo_at_end (\<lambda>_. None)
    ([] @ ([RanTool demo_key demo_invocation] @ []) @ [Returned ?c ?r])"
    by (rule solo_call [where calls = calls, OF pool.empty c 1(2)])
  note solo_call [where calls = calls, OF this c 2(2)]
  with 1(1) 2(1) show ?thesis
    by (intro exI [of _ "Suc (Suc (Suc (Suc 0 + (n1 + 0))) + (n2 + 0))"] exI [of _ s2]) simp
qed

section \<open>A prepared tool\<close>

text \<open>
  The facts of a tool that was prepared, authorized, started and cancelled, in a ledger without payloads.
\<close>

definition blank_codec :: "unit effect_codec" where
  "blank_codec = \<lparr>ef_turn = storing_codec, ef_null = (), ef_text = \<lambda>_. (), ef_number = \<lambda>_. (),
     ef_as_str = \<lambda>_. Some ''cancelled'', ef_object = \<lambda>_. (), ef_get = \<lambda>_ _. None, ef_with = \<lambda>_ _ _. (),
     ef_execution = \<lambda>_. (), ef_request = \<lambda>_. (), ef_as_request = \<lambda>_. Some \<lparr>fq_effect_id = [], fq_operation_kind = [],
       fq_input_digest = [], fq_requirements = [], fq_policy_revision = ''r''\<rparr>,
     ef_authorization = \<lambda>_. (), ef_receipt = \<lambda>_. (), ef_as_receipt = \<lambda>_. Some \<lparr>fc_receipt_id = [], fc_effect_id = [],
       fc_authorization_id = [], fc_input_digest = [], fc_executor_id = [], fc_executor_revision = [], fc_result_digest = [],
       fc_status = ReceiptFailed\<rparr>,
     ef_prepared = \<lambda>_. (), ef_as_prepared = \<lambda>_. Some (sample_prepared ''r''),
     ef_scope = \<lambda>_. (), ef_as_scope = \<lambda>_. Some sample_scope, ef_grant = \<lambda>_. (), ef_as_grant = \<lambda>_. Some (ia_grant sample_issued),
     ef_result = \<lambda>_. (), ef_as_result = \<lambda>_. None, ef_wait = \<lambda>_. (), ef_as_wait = \<lambda>_. None,
     ef_rc_request = \<lambda>_. (), ef_as_rc_request = \<lambda>_. None, ef_resolution = \<lambda>_. (), ef_as_resolution = \<lambda>_. None,
     ef_malformed = [], ef_query_reason = [], ef_storage_reason = [], ef_texts = \<lambda>_. (), ef_writes = \<lambda>_. [2], ef_digest_bytes = \<lambda>d _. d, ef_requirements_text = \<lambda>_. []\<rparr>"

definition blank_fact :: "string \<Rightarrow> ledger_event_kind \<Rightarrow> unit ledger_call" where
  "blank_fact i kind = CallAppend (new_event (sc_execution sample_scope) i kind ())"

definition blank_facts :: "unit ledger_call list" where
  "blank_facts = [blank_fact ''x/execution-started'' ExecutionStarted,
     blank_fact ''x/effect/t-step-0/r/prepared'' EffectPrepared, blank_fact ''x/effect/t-step-0/r/authorized'' EffectAuthorized,
     blank_fact ''x/effect/t-step-0/r/started'' EffectStarted, blank_fact ''x/effect/t-step-0/r/receipt'' EffectReceipt,
     blank_fact ''end'' TurnFailed]"

definition blank_query :: proof_request where
  "blank_query = \<lparr>pq_execution = sc_execution sample_scope, pq_effect_id = ''t-step-0/r'',
     pq_terminal = \<lparr>co_event_id = ''end'', co_cursor = 6\<rparr>, pq_max_input_bytes = 9, pq_max_result_bytes = 9\<rparr>"

definition blank_event :: "string \<Rightarrow> ledger_event_kind \<Rightarrow> u64 \<Rightarrow> unit ledger_event" where
  "blank_event i kind c = (new_event (sc_execution sample_scope) i kind ())\<lparr>le_cursor := c\<rparr>"

definition blank_events :: "unit ledger_event list" where
  "blank_events = [blank_event ''x/execution-started'' ExecutionStarted 1,
     blank_event ''x/effect/t-step-0/r/prepared'' EffectPrepared 2, blank_event ''x/effect/t-step-0/r/authorized'' EffectAuthorized 3,
     blank_event ''x/effect/t-step-0/r/started'' EffectStarted 4, blank_event ''x/effect/t-step-0/r/receipt'' EffectReceipt 5,
     blank_event ''end'' TurnFailed 6]"

definition blank_ledger :: "unit ledger_state" where
  "blank_ledger = \<lparr>ls_next_cursor = 6, ls_events = blank_events, ls_claims = {}\<rparr>"

lemma blank_recorded: "snd (run_calls mem_ledger mem_ledger_empty blank_facts) = blank_ledger"
  by code_simp

lemma blank_wf: "ledger_wf (ls_events blank_ledger)"
  by (simp add: ledger_wf_def blank_ledger_def blank_events_def blank_event_def new_event_def nth_Cons capacity_less split: nat.split)

lemma bindp_trying: "bindp (trying m f) g = bindp m (\<lambda>r. case r of Ok a \<Rightarrow> bindp (f a) g | Err e \<Rightarrow> g (Err e) | Panic \<Rightarrow> g Panic)"
  unfolding trying_def bindp_assoc by (rule arg_cong [where f = "bindp m"]) (auto simp: fun_eq_iff split: res.split)

lemma solo_find:
  assumes "ledger_wf (ls_events s)" and "i \<noteq> []"
  shows "solo mem_ledger X (bindp (find_event wrap i) f) s =
    (let (n, s2, r, h) = solo mem_ledger X (f (Ok (find (\<lambda>e. le_event_id e = i) (ls_events s)))) s in (Suc n, s2, r, h))"
proof -
  have valid: "query_validate (id_query i) = Ok ()" using assms(2) by (simp add: query_validate_def id_query_def)
  have "perform mem_ledger s (CallQuery (id_query i)) = (AnswerPage (mem_query s (id_query i)), s)"
    by (simp add: perform_def mem_ledger_def)
  moreover have "bindr (checked_page (id_query i) (mem_query s (id_query i))) (\<lambda>page.
      Ok (case page of [] \<Rightarrow> None | e # _ \<Rightarrow> Some e)) = Ok (find (\<lambda>e. le_event_id e = i) (ls_events s))"
    using id_page [OF assms(1), of i] by (simp add: mem_query_def valid find_filter_take [unfolded One_nat_def])
  ultimately show ?thesis by (simp add: find_event_def valid)
qed

lemma blank_valid: "validate_proof_request blank_query = Ok ()"
  by (simp add: validate_proof_request_def blank_query_def sample_scope_def scope_validate_def identifier_bytes_def alnum_def
      Let_def MAX_EFFECT_PROOF_INPUT_BYTES_def MAX_EFFECT_PROOF_RESULT_BYTES_def blank_def ws3_def)

lemma blank_evidence: "\<exists>bound. evidence_from_facts blank_codec (sc_execution sample_scope) ''t-step-0/r'' () () = Ok bound"
  using sample_issued_valid
  by (simp add: evidence_from_facts_def decoded_def blank_codec_def evidence_new_def sample_scope_valid Let_def authority_validate_def
      storing_policy sample_issued_def invalid_prepared_def res_simps)
     (simp add: sample_scope_def sample_prepared_def sample_call_def)

lemma blank_proven:
  "\<exists>v. prove_effect blank_codec blank_query (blank_events ! 0) (blank_events ! 1) (blank_events ! 2) (blank_events ! 3)
     (blank_events ! 4) (blank_events ! 5) = Ok v \<and> vp_result v = Err ToolCancelled"
proof -
  have c: "ef_get blank_codec x k = None" "ef_as_str blank_codec x = Some ''cancelled''"
    "\<exists>r. ef_as_receipt blank_codec x = Some r \<and> fc_status r = ReceiptFailed" for x k
    by (simp_all add: blank_codec_def)
  then obtain r where r: "ef_as_receipt blank_codec () = Some r" "fc_status r = ReceiptFailed" by auto
  have receipt: "validate_receipt blank_codec bound () = Ok (Err ToolCancelled)" for bound
    by (simp add: validate_receipt_def decoded_def r recorded_result_def decode_error_def c receipt_payload_def outcome_object_def
        with_reconciliation_def)
  obtain bound where b: "evidence_from_facts blank_codec (sc_execution sample_scope) ''t-step-0/r'' () () = Ok bound"
    using blank_evidence by blast
  have q: "pq_execution blank_query = sc_execution sample_scope" "pq_effect_id blank_query = ''t-step-0/r''"
    by (simp_all add: blank_query_def)
  have members: "bounded_members blank_codec x i limit [[''output''], [''error''], [''reconciliation'', ''resolution'', ''Committed'', ''output'']]
      = Ok ()" for x i limit by (simp add: c)
  have ascending: "sorted_wrt (<) (map le_cursor [blank_events ! 0, blank_events ! 1, blank_events ! 2, blank_events ! 3,
      blank_events ! 4, blank_events ! 5])" by (simp add: blank_events_def blank_event_def)
  show ?thesis
    unfolding prove_effect_def members q using ascending by (simp add: b r receipt c event_mismatch_def)
qed

lemma blank_finds:
  "find (\<lambda>e. le_event_id e = ''x/execution-started'') (ls_events blank_ledger) = Some (blank_events ! 0)"
  "find (\<lambda>e. le_event_id e = ''x/effect/t-step-0/r/prepared'') (ls_events blank_ledger) = Some (blank_events ! 1)"
  "find (\<lambda>e. le_event_id e = ''x/effect/t-step-0/r/authorized'') (ls_events blank_ledger) = Some (blank_events ! 2)"
  "find (\<lambda>e. le_event_id e = ''x/effect/t-step-0/r/started'') (ls_events blank_ledger) = Some (blank_events ! 3)"
  "find (\<lambda>e. le_event_id e = ''x/effect/t-step-0/r/receipt'') (ls_events blank_ledger) = Some (blank_events ! 4)"
  "find (\<lambda>e. le_event_id e = ''end'') (ls_events blank_ledger) = Some (blank_events ! 5)"
  by code_simp+

lemma blank_found:
  "\<forall>(k, i, kind) \<in> set [(0, ''x/execution-started'', ExecutionStarted), (1, ''x/effect/t-step-0/r/prepared'', EffectPrepared),
     (2, ''x/effect/t-step-0/r/authorized'', EffectAuthorized), (3, ''x/effect/t-step-0/r/started'', EffectStarted),
     (4, ''x/effect/t-step-0/r/receipt'', EffectReceipt), (5, ''end'', TurnFailed)].
   check_effect_event (blank_events ! k) (sc_execution sample_scope) i kind = Ok () \<and> le_kind (blank_events ! k) = kind
   \<and> le_event_id (blank_events ! k) = i \<and> le_cursor (blank_events ! k) = word_of_nat (Suc k)"
  by (simp add: blank_events_def blank_event_def new_event_def check_effect_event_def)

lemma blank_run:
  "\<exists>v. vp_result v = Err ToolCancelled
    \<and> solo mem_ledger X (call_program blank_codec (ProofCall blank_query)) blank_ledger = (6, blank_ledger, ProofReturn (Ok v), [])"
proof -
  obtain v where v: "prove_effect blank_codec blank_query (blank_events ! 0) (blank_events ! 1) (blank_events ! 2) (blank_events ! 3)
     (blank_events ! 4) (blank_events ! 5) = Ok v" "vp_result v = Err ToolCancelled" using blank_proven by blast
  have b: "bounded blank_codec x i limit = Ok ()" if "2 \<le> limit" for x i limit
    using that by (simp add: bounded_def blank_codec_def)
  have q: "pq_execution blank_query = sc_execution sample_scope" "pq_effect_id blank_query = ''t-step-0/r''"
    "pq_terminal blank_query = \<lparr>co_event_id = ''end'', co_cursor = 6\<rparr>" "pq_max_input_bytes blank_query = 9"
    "pq_max_result_bytes blank_query = 9" "ek_execution_id (sc_execution sample_scope) = ''x''"
    by (simp_all add: blank_query_def sample_scope_def)
  have t: "physical_terminal blank_codec (blank_events ! 5)" by (simp add: blank_events_def blank_event_def physical_terminal_def new_event_def)
  show ?thesis
    using blank_found v
    by (simp add: inspect_effect_proof_def Let_def blank_valid bindp_trying load_event_def require_event_def solo_find [OF blank_wf]
        blank_finds effect_prefix_def q check_loaded_def b event_mismatch_def t)
qed

lemma blank_pool:
  "\<exists>n s v. n \<le> 30 \<and> vp_result v = Err ToolCancelled \<and> pool mem_ledger blank_codec (\<lambda>_. True) (\<lambda>_. True) mem_ledger_empty
     n s (\<lambda>_. None) [Returned (ProofCall blank_query) (ProofReturn (Ok v))]"
proof -
  let ?X = "\<lparr>ep_tool = Panic, ep_prepared = Panic, ep_decision = Panic, ep_outcome = Panic, ep_resolution = Panic\<rparr>"
  from blank_run [of ?X] obtain v where v: "vp_result v = Err ToolCancelled"
    "solo mem_ledger ?X (call_program blank_codec (ProofCall blank_query)) blank_ledger = (6, blank_ledger, ProofReturn (Ok v), [])"
    by blast
  have "pool mem_ledger blank_codec (\<lambda>_. True) (\<lambda>_. True) mem_ledger_empty (0 + length blank_facts) blank_ledger (\<lambda>_. None) []"
    by (rule others_pool [OF pool.empty _ blank_recorded]) (simp add: blank_facts_def)
  from solo_call [OF this TrueI v(2)] v(1) show ?thesis
    by (intro exI [of _ "Suc (Suc (0 + length blank_facts) + 6)"] exI [of _ blank_ledger] exI [of _ v]) (simp add: blank_facts_def)
qed

end
