(* ===== verification/Effect_Properties.thy ===== *)
theory Effect_Properties
  imports Effect_Calls Effect_Sample
begin

text \<open>
  What the durable effects of a runtime promise while any number of operations share one ledger. The laws of
  the three adapters come from the interpretations of \<open>ledger_store\<close>, what single operations keep from
  their certificates.
\<close>

section \<open>Runs on the adapters\<close>

text \<open>A run of the pool on one of the three adapters, from the empty ledger, and the events it recorded.\<close>

definition effect_run ::
  "'j effect_codec \<Rightarrow> ('j effect_call \<Rightarrow> bool) \<Rightarrow> ('j ledger_call \<Rightarrow> bool) \<Rightarrow> nat \<Rightarrow> 'j ledger_event list
   \<Rightarrow> 'j occurrence list \<Rightarrow> bool" where
  "effect_run C calls others n L h \<longleftrightarrow>
     (\<exists>s ps. pool mem_ledger C calls others mem_ledger_empty n s ps h \<and> L = ls_events s)
   \<or> (\<exists>s ps. pool file_ledger_ops C calls others file_empty n s ps h \<and> L = file_events s)
   \<or> (\<exists>s ps. pool sqlite_ledger_ops C calls others sqlite_empty n s ps h \<and> L = sq_events s)"

text \<open>Calls of others that record no outcome of the effects in \<open>P\<close>.\<close>

fun foreign :: "string set \<Rightarrow> 'j ledger_call \<Rightarrow> bool" where
  "foreign P (CallAppend e) \<longleftrightarrow> (\<forall>p \<in> P. le_event_id e \<notin> outcome_ids p)"
| "foreign P (CallAdmit e) \<longleftrightarrow> (\<forall>p \<in> P. le_event_id e \<notin> outcome_ids p)"
| "foreign P _ \<longleftrightarrow> True"

lemma foreign_empty: "foreign {} x"
  by (cases x) simp_all

lemma apart_empty: "apart C {} c"
  by (cases c) (simp_all split: prod.split)

lemma foreign_sealed:
  assumes "foreign P x" and "ledger_wf L" "length L < capacity" "sealed P L"
  shows "sealed P (snd (abs_perform L x))"
proof -
  have "sealed P (snd (abs_append b L e))" if "\<forall>p \<in> P. le_event_id e \<notin> outcome_ids p" for b e
    using assms(2-4) that by (intro sealed_append [where K = "{}"]) (auto intro: may_append_other)
  with assms(1,4) show ?thesis by (cases x) simp_all
qed

lemma effect_run_ok:
  assumes run: "effect_run C calls others n L h" and n: "n \<le> capacity"
    and calls: "\<And>c. calls c \<Longrightarrow> apart C P c" and others: "\<And>x. others x \<Longrightarrow> foreign P x"
  shows "\<exists>K own ps. ledger_wf L \<and> pool_ok C P (call_post C P) K own L ps h"
proof -
  have certified: "\<And>c. calls c \<Longrightarrow> certified C P (call_post C P c) {} None (call_program C c)"
    by (rule call_certified) (rule calls)
  have seal: "\<And>x L. others x \<Longrightarrow> ledger_wf L \<Longrightarrow> length L < capacity \<Longrightarrow> sealed P L \<Longrightarrow> sealed P (snd (abs_perform L x))"
    by (rule foreign_sealed) (rule others)
  from run consider
      s ps where "pool mem_ledger C calls others mem_ledger_empty n s ps h" "L = ls_events s"
    | s ps where "pool file_ledger_ops C calls others file_empty n s ps h" "L = file_events s"
    | s ps where "pool sqlite_ledger_ops C calls others sqlite_empty n s ps h" "L = sq_events s"
    unfolding effect_run_def by blast
  then show ?thesis
  proof cases
    case 1
    with mem_store.pool_sound [OF 1(1) _ _ _ certified seal] mem_store.wf n show ?thesis by (auto simp: empty_ledgers)
  next
    case 2
    with file_store.pool_sound [OF 2(1) _ _ _ certified seal] file_store.wf n show ?thesis by (auto simp: empty_ledgers)
  next
    case 3
    with sqlite_store.pool_sound [OF 3(1) _ _ _ certified seal] sqlite_store.wf n show ?thesis by (auto simp: empty_ledgers)
  qed
qed

lemma effect_run_returned:
  assumes run: "effect_run C calls others n L h" "n \<le> capacity"
    and calls: "\<And>c. calls c \<Longrightarrow> apart C P c" and others: "\<And>x. others x \<Longrightarrow> foreign P x"
    and r: "Returned c r \<in> set h"
  shows "\<exists>K own. K \<subseteq> set L \<and> call_post C P c K own r"
proof -
  from effect_run_ok [OF run calls others] obtain K own ps where "pool_ok C P (call_post C P) K own L ps h" by blast
  with r show ?thesis unfolding pool_ok_def by blast
qed

section \<open>Properties\<close>

text \<open>
  C4: An effect is executed at most once, and only with a licence. Whatever operations run at once on one
  ledger, on any of the adapters, with crashes at any point and arbitrary other calls to the ledger in
  between: no effect of an execution is executed twice, and whenever one is executed, its preparation and the
  authorization by exactly the grant that the executor gets were recorded before its start, its start was
  admitted, and no cancellation of the execution was recorded before it. For a tool, the recorded facts are the
  evidence of exactly the invocation it runs with: its prepared call, grant, scope and policy revision.
\<close>

theorem effects_run_once:
  assumes "effect_run C (\<lambda>_. True) (\<lambda>_. True) n L h" and "n \<le> capacity"
  shows "distinct (ran_ids h)
    \<and> (\<forall>key e g. Ran key e g \<in> set h \<longrightarrow> (\<exists>start. uncancelled L start \<and> licensed C (set L) start key e g))
    \<and> (\<forall>key iv. RanTool key iv \<in> set h \<longrightarrow> (\<exists>start. uncancelled L start \<and> licensed_tool C (set L) start key iv))"
proof -
  from effect_run_ok [OF assms apart_empty foreign_empty] obtain K own ps
    where "pool_ok C {} (call_post C {}) K own L ps h" by blast
  then show ?thesis unfolding pool_ok_def by blast
qed

lemma small_run: "n \<le> 164 \<Longrightarrow> n \<le> capacity"
  by (simp add: capacity_less)

lemma mem_run: "pool mem_ledger C calls others mem_ledger_empty n s ps h \<Longrightarrow> effect_run C calls others n (ls_events s) h"
  unfolding effect_run_def by blast

theorem effects_run_once_witness:
  "\<exists>n L h. effect_run json_codec (\<lambda>_. True) (\<lambda>_. True) n L h \<and> RanTool demo_key demo_invocation \<in> set h
     \<and> distinct (ran_ids h) \<and> (\<exists>start. uncancelled L start \<and> licensed_tool json_codec (set L) start demo_key demo_invocation)"
proof -
  let ?r = "Returned (ToolCall demo_tools demo_invocation) (ToolReturn (Ok (OutcomeCompleted demo_result)))"
  let ?h = "[RanTool demo_key demo_invocation, ?r, ?r]"
  obtain n s where n: "n \<le> 164" and run: "pool mem_ledger json_codec (\<lambda>_. True) (\<lambda>_. True) mem_ledger_empty n s (\<lambda>_. None) ?h"
    using demo_tool_pool [where calls = "\<lambda>_. True" and others = "\<lambda>_. True", OF TrueI] by (elim exE conjE)
  have "RanTool demo_key demo_invocation \<in> set ?h" by simp
  with effects_run_once [OF mem_run [OF run] small_run [OF n]] mem_run [OF run] show ?thesis by blast
qed

text \<open>The definitive result of an effect that an operation reports.\<close>

fun outcome_of :: "'j effect_codec \<Rightarrow> execution_key \<Rightarrow> string \<Rightarrow> 'j occurrence \<Rightarrow> 'j disposition option" where
  "outcome_of C key i (Returned (ApplyCall key' e) (ApplyReturn (Ok d))) =
     (if key' = key \<and> fq_effect_id e = i \<and> definitive d then Some d else None)"
| "outcome_of C key i (Returned (ReconcileCall q) (ReconcileReturn (Ok (Committed t x y z)))) =
     (if rr_execution q = key \<and> rr_effect_id q = i then Some (DispCompleted (ef_result C t)) else None)"
| "outcome_of C key i (Returned (ProofCall q) (ProofReturn (Ok v))) =
     (if pq_execution q = key \<and> pq_effect_id q = i then tool_disposition C (vp_result v) else None)"
| "outcome_of C key i (Returned (ToolCall D iv) (ToolReturn (Ok (OutcomeCompleted t)))) =
     (if dt_key D = key \<and> invocation_effect iv = i then Some (DispCompleted (ef_result C t)) else None)"
| "outcome_of C key i _ = None"

text \<open>The result of the effect as the ledger has it.\<close>

definition settled :: "'j effect_codec \<Rightarrow> execution_key \<Rightarrow> string \<Rightarrow> 'j ledger_event set \<Rightarrow> 'j disposition \<Rightarrow> bool" where
  "settled C key i K d \<longleftrightarrow> (\<exists>e. fq_effect_id e = i \<and> recorded C key e K d)"

lemma proof_recorded: "proof_facts C q K v \<Longrightarrow> tool_recorded C (pq_execution q) (pq_effect_id q) K (vp_result v)"
  unfolding proof_facts_def tool_recorded_def is_fact_def Let_def by blast

lemma tool_settled: "tool_recorded C key i K result \<Longrightarrow> tool_disposition C result = Some d \<Longrightarrow> settled C key i K d"
  unfolding settled_def recorded_def by (rule exI [of _ "\<lparr>fq_effect_id = i, fq_operation_kind = [], fq_input_digest = [],
    fq_requirements = [], fq_policy_revision = []\<rparr>"]) auto

lemma outcome_settled:
  assumes "lawful C" and p: "effect_prefix key i \<in> P" and post: "call_post C P c K own r"
    and d: "outcome_of C key i (Returned c r) = Some d"
  shows "settled C key i K d"
proof (cases "(C, key, i, Returned c r)" rule: outcome_of.cases)
  case (1 C' key0 i0 key' e d')
  with assms show ?thesis by (auto simp: apply_post_def settled_def split: if_splits)
next
  case (2 C' key0 i0 q t x y z)
  with assms show ?thesis
    by (auto simp: reconcile_post_def split: if_splits intro!: tool_settled [where result = "Ok t"])
next
  case (3 C' key0 i0 q v)
  with assms show ?thesis
    by (auto simp: proof_post_def split: if_splits intro!: tool_settled dest: proof_recorded)
next
  case (4 C' key0 i0 D iv t)
  with assms show ?thesis
    by (auto simp: tool_post_def split: if_splits intro!: tool_settled [where result = "Ok t"])
qed (use d in auto)

lemma receipt_disposition_unique:
  "receipt_disposition C e v = Ok d \<Longrightarrow> receipt_disposition C e' v = Ok d' \<Longrightarrow> d = d'"
  by (cases "ef_as_receipt C (member_of C v ''receipt'')") (simp_all add: receipt_disposition_def split: if_splits)

lemma evidence_prepared:
  "evidence_from_facts C key i v w = Ok bound \<Longrightarrow> v = prepared_payload C bound"
  by (auto simp: evidence_from_facts_def res_simps split: if_splits)

text \<open>A recorded preparation is either generic or of a tool.\<close>

lemma generic_not_tool:
  assumes "lawful C" shows "generic_payload C e \<noteq> prepared_payload C bound"
proof
  assume "generic_payload C e = prepared_payload C bound"
  then have "ef_as_str C (member_of C (generic_payload C e) ''binding_kind'')
      = ef_as_str C (member_of C (prepared_payload C bound) ''binding_kind'')" by simp
  then show False
    by (simp add: generic_payload_def prepared_payload_def request_kind [OF assms] lawful_simps [OF assms])
qed

lemma generic_unique:
  assumes same: "\<And>x y. x \<in> K \<Longrightarrow> y \<in> K' \<Longrightarrow> le_event_id x = le_event_id y \<Longrightarrow> x = y"
    and "generic_recorded C key e K d" "generic_recorded C key e' K' d'" and i: "fq_effect_id e = fq_effect_id e'"
  shows "d = d'"
proof -
  let ?i = "effect_prefix key (fq_effect_id e') @ ''/receipt''"
  from assms(2) obtain re where 1: "re \<in> K" "le_event_id re = ?i" "receipt_disposition C e (le_payload re) = Ok d"
    unfolding generic_recorded_def i by blast
  from assms(3) obtain re' where 2: "re' \<in> K'" "le_event_id re' = ?i" "receipt_disposition C e' (le_payload re') = Ok d'"
    unfolding generic_recorded_def by blast
  have "re = re'" by (rule same [OF 1(1) 2(1)]) (simp only: 1(2) 2(2))
  with 2(3) have "receipt_disposition C e' (le_payload re) = Ok d'" by simp
  from receipt_disposition_unique [OF 1(3) this] show ?thesis .
qed

lemma tool_unique:
  assumes same: "\<And>x y. x \<in> K \<Longrightarrow> y \<in> K' \<Longrightarrow> le_event_id x = le_event_id y \<Longrightarrow> x = y"
    and "tool_recorded C key i K result" "tool_recorded C key i K' result'"
  shows "result = result'"
proof -
  let ?p = "effect_prefix key i"
  from assms(2) obtain pr au re bound where 1: "pr \<in> K" "au \<in> K" "re \<in> K"
    "le_event_id pr = ?p @ ''/prepared''" "le_event_id au = ?p @ ''/authorized''" "le_event_id re = ?p @ ''/receipt''"
    "evidence_from_facts C key i (le_payload pr) (le_payload au) = Ok bound"
    "validate_receipt C bound (le_payload re) = Ok result" unfolding tool_recorded_def by blast
  from assms(3) obtain pr' au' re' bound' where 2: "pr' \<in> K'" "au' \<in> K'" "re' \<in> K'"
    "le_event_id pr' = ?p @ ''/prepared''" "le_event_id au' = ?p @ ''/authorized''" "le_event_id re' = ?p @ ''/receipt''"
    "evidence_from_facts C key i (le_payload pr') (le_payload au') = Ok bound'"
    "validate_receipt C bound' (le_payload re') = Ok result'" unfolding tool_recorded_def by blast
  have "pr = pr'" by (rule same [OF 1(1) 2(1)]) (simp only: 1(4) 2(4))
  moreover have "au = au'" by (rule same [OF 1(2) 2(2)]) (simp only: 1(5) 2(5))
  moreover have "re = re'" by (rule same [OF 1(3) 2(3)]) (simp only: 1(6) 2(6))
  ultimately show ?thesis using 1(7,8) 2(7,8) by simp
qed

lemma kinds_exclusive:
  assumes same: "\<And>x y. x \<in> K \<Longrightarrow> y \<in> K' \<Longrightarrow> le_event_id x = le_event_id y \<Longrightarrow> x = y"
    and "lawful C" "generic_recorded C key e K d" "tool_recorded C key (fq_effect_id e) K' result"
  shows False
proof -
  let ?i = "effect_prefix key (fq_effect_id e) @ ''/prepared''"
  from assms(3) obtain pr where 1: "pr \<in> K" "le_event_id pr = ?i" "le_payload pr = generic_payload C e"
    unfolding generic_recorded_def by blast
  from assms(4) obtain pr' au bound where 2: "pr' \<in> K'" "le_event_id pr' = ?i" "au \<in> K'"
    "evidence_from_facts C key (fq_effect_id e) (le_payload pr') (le_payload au) = Ok bound" unfolding tool_recorded_def by blast
  have "pr = pr'" by (rule same [OF 1(1) 2(1)]) (simp only: 1(2) 2(2))
  with 1(3) evidence_prepared [OF 2(4)] generic_not_tool [OF assms(2)] show False by metis
qed

lemma recorded_tool:
  "recorded C key e K d \<Longrightarrow> \<not> generic_recorded C key e K d \<Longrightarrow> fq_effect_id e = i \<Longrightarrow>
    \<exists>result. tool_recorded C key i K result \<and> tool_disposition C result = Some d"
  unfolding recorded_def by auto

lemma settled_unique:
  assumes lawful: "lawful C" and L: "ledger_wf L" and K: "K \<subseteq> set L" "K' \<subseteq> set L"
    and d: "settled C key i K d" and d': "settled C key i K' d'"
  shows "d = d'"
proof -
  have same: "x = y" if "x \<in> K" "y \<in> K'" "le_event_id x = le_event_id y" for x y
    by (rule distinct_ids_own [OF L subsetD [OF K(1) that(1)] subsetD [OF K(2) that(2)] that(3)])
  have same': "x = y" if "x \<in> K'" "y \<in> K" "le_event_id x = le_event_id y" for x y
    using same [OF that(2,1)] that(3) by simp
  from d obtain e where 1: "fq_effect_id e = i" "recorded C key e K d" unfolding settled_def by (elim exE conjE)
  from d' obtain e' where 2: "fq_effect_id e' = i" "recorded C key e' K' d'" unfolding settled_def by (elim exE conjE)
  note i = 1(1) 2(1) and r = 1(2) 2(2)
  show ?thesis
  proof (cases "generic_recorded C key e K d")
    case g: True
    show ?thesis
    proof (cases "generic_recorded C key e' K' d'")
      case True
      show ?thesis by (rule generic_unique [OF same g True]) (simp_all only: i)
    next
      case False
      from recorded_tool [OF r(2) this i(2)] obtain result where "tool_recorded C key i K' result" by (elim exE conjE)
      from kinds_exclusive [OF same lawful g this [folded i(1)]] show ?thesis by (rule FalseE)
    qed
  next
    case False
    from recorded_tool [OF r(1) this i(1)] obtain result
      where t: "tool_recorded C key i K result" "tool_disposition C result = Some d" by (elim exE conjE)
    show ?thesis
    proof (cases "generic_recorded C key e' K' d'")
      case True
      from kinds_exclusive [OF same' lawful True t(1) [folded i(2)]] show ?thesis by (rule FalseE)
    next
      case False
      from recorded_tool [OF r(2) this i(2)] obtain result'
        where t': "tool_recorded C key i K' result'" "tool_disposition C result' = Some d'" by (elim exE conjE)
      have "result = result'" by (rule tool_unique [OF same t(1) t'(1)])
      with t(2) t'(2) show ?thesis by simp
    qed
  qed
qed



text \<open>
  C21: The proof of an effect is a proof. Whatever runs at the same time, a proof that is returned stands for six
  facts of the ledger: the admission of the execution, the preparation, the authorization, the start and the
  receipt of the effect and the physical end of the turn, each with its identity, execution, turn and kind, in strictly
  ascending order, which agree: the preparation and the authorization give valid evidence, the start binds it,
  and the receipt validates against it with exactly the returned result. The caller chooses only the terminal.
\<close>

theorem effect_proof_sound:
  assumes "effect_run C (\<lambda>_. True) (\<lambda>_. True) n L h" and "n \<le> capacity"
    and "Returned (ProofCall q) (ProofReturn (Ok v)) \<in> set h"
  shows "proof_facts C q (set L) v"
proof -
  from effect_run_returned [OF assms(1,2) apart_empty foreign_empty assms(3)] obtain K
    where "K \<subseteq> set L" "proof_facts C q K v" by (auto simp: proof_post_def)
  then show ?thesis unfolding proof_facts_def Let_def by blast
qed

theorem effect_proof_sound_witness:
  "\<exists>n L v. effect_run blank_codec (\<lambda>_. True) (\<lambda>_. True) n L [Returned (ProofCall blank_query) (ProofReturn (Ok v))]
     \<and> vp_result v = Err ToolCancelled \<and> proof_facts blank_codec blank_query (set L) v"
proof -
  from blank_pool obtain n s v where n: "n \<le> 30" and v: "vp_result v = Err ToolCancelled"
    and pool: "pool mem_ledger blank_codec (\<lambda>_. True) (\<lambda>_. True) mem_ledger_empty n s (\<lambda>_. None)
      [Returned (ProofCall blank_query) (ProofReturn (Ok v))]" by (elim exE conjE)
  note run = mem_run [OF pool]
  have "proof_facts blank_codec blank_query (set (ls_events s)) v"
    by (rule effect_proof_sound [OF run small_run]) (use n in simp_all)
  with run v show ?thesis by blast
qed

text \<open>C22: A receipt reads back. Whatever definitive result of a prepared tool is written as a receipt, by the tool itself
  or, with the proof of a committed resolution, by a reconciliation, validating the written payload against the same
  evidence gives exactly this result, success or error.\<close>

theorem receipt_roundtrip:
  assumes "lawful C" and "receipt_payload C v result = Ok payload" and "proof_agrees v result m"
  shows "validate_receipt C v (with_proof C payload m) = Ok result"
  by (rule receipt_reads_back [OF assms])

definition json_evidence :: "json prepared_evidence" where
  "json_evidence = \<lparr>pv_request = demo_effect, pv_authorization = demo_grant,
     pv_prepared = \<lparr>pc_call = \<lparr>cl_id = ''r'', cl_name = ''file.write'', cl_arguments = JNull\<rparr>, pc_tool_revision = ''r'',
       pc_claim = pc_claim (sample_prepared ''r''), pc_requirements = pc_requirements (sample_prepared ''r''),
       pc_execution_binding = JNull, pc_digest = ''d''\<rparr>,
     pv_scope = sample_scope\<lparr>sc_execution := demo_key\<rparr>, pv_grant = ia_grant sample_issued\<rparr>"

definition json_result :: tool_result where
  "json_result = \<lparr>tr_call_id = ''r'', tr_content = ''ok'', tr_is_error = False\<rparr>"

definition json_reconciliation :: reconciliation_request where
  "json_reconciliation = \<lparr>rr_reconciliation_id = ''q'', rr_execution = demo_key, rr_effect_id = ''e''\<rparr>"

theorem receipt_roundtrip_witness:
  "\<exists>payload. receipt_payload json_codec json_evidence (Ok json_result) = Ok payload
     \<and> validate_receipt json_codec json_evidence (with_proof json_codec payload
         (Some (json_reconciliation, Committed json_result ''tool/file.write'' ''r'' ''log''))) = Ok (Ok json_result)"
proof -
  let ?m = "Some (json_reconciliation, Committed json_result ''tool/file.write'' ''r'' ''log'')"
  obtain payload where p: "receipt_payload json_codec json_evidence (Ok json_result) = Ok payload"
    by (simp add: receipt_payload_def validate_result_def json_evidence_def json_result_def evidence_issued_def sample_issued_def
        json_codec_def json_turn_def outcome_object_def Let_def)
  have "proof_agrees json_evidence (Ok json_result) ?m"
    by (simp add: proof_agrees_def validate_resolution_def json_evidence_def json_result_def json_reconciliation_def
        reconciliation_identity_def alnum_def evidence_executor_def demo_effect_def blank_def ws3_def)
  from receipt_roundtrip [OF json_lawful p this] p show ?thesis by blast
qed

end
